(* ===== verification/Prelude.thy ===== *)
theory Prelude
  imports Main "HOL-Library.Word" "HOL-Library.Monad_Syntax"
begin

text \<open>
  Shared vocabulary of the development: the machine integers of the C code, blocks of memory as
  byte lists, the bounded accesses the model uses for every pointer dereference, and the
  endianness macros of \<^verbatim>\<open>utils.h\<close>.

  A C function is a HOL function into \<^typ>\<open>'a option\<close>: \<open>None\<close> stands for an execution
  with no defined result (an access outside a memory block, the dereference of a null pointer, or
  a loop that never ends), so a theorem that concludes \<open>f x = Some y\<close> also says that the code
  runs to its end without such an access. An error code the C function returns is part of \<open>y\<close>.
\<close>

unbundle bit_operations_syntax

section \<open>Machine integers and memory\<close>

type_synonym byte = "8 word"
type_synonym u16 = "16 word"
type_synonym u32 = "32 word"
type_synonym u64 = "64 word"

text \<open>The bytes of one memory block (the part of it behind a data pointer).\<close>

type_synonym mem = "byte list"

named_theorems codec \<open>equations that evaluate encoders and decoders\<close>
named_theorems access \<open>bounded reads and writes\<close>

definition slice :: "mem \<Rightarrow> nat \<Rightarrow> nat \<Rightarrow> mem option" where
  "slice d i n = (if i + n \<le> length d then Some (take n (drop i d)) else None)"

definition rd8 :: "mem \<Rightarrow> nat \<Rightarrow> byte option" where
  "rd8 d i = (if i < length d then Some (d ! i) else None)"

definition wr :: "mem \<Rightarrow> nat \<Rightarrow> mem \<Rightarrow> mem option" where
  "wr d i bs = (if i + length bs \<le> length d
                then Some (take i d @ bs @ drop (i + length bs) d) else None)"

lemma slice_append_left [simp, access]: "slice (xs @ ys) (length xs) n = slice ys 0 n"
  by (simp add: slice_def)

lemma slice_whole [simp, access]: "slice d 0 (length d) = Some d"
  by (simp add: slice_def)

lemma slice_eq_Some: "slice d i n = Some bs \<longleftrightarrow> i + n \<le> length d \<and> bs = take n (drop i d)"
  by (auto simp: slice_def)

lemma slice_None: "slice d i n = None \<longleftrightarrow> length d < i + n"
  by (auto simp: slice_def)

lemma slice_len: "slice d i n = Some bs \<Longrightarrow> length bs = n"
  by (auto simp: slice_def split: if_splits)

lemma rd8_Some: "rd8 d i = Some b \<longleftrightarrow> i < length d \<and> b = d ! i"
  by (auto simp: rd8_def)

lemma rd8_None: "rd8 d i = None \<longleftrightarrow> length d \<le> i"
  by (auto simp: rd8_def)

lemma rd8_in [access]: "i < length d \<Longrightarrow> rd8 d i = Some (d ! i)"
  by (simp add: rd8_def)

lemma wr_in [access]:
  "i + length bs \<le> length d \<Longrightarrow> wr d i bs = Some (take i d @ bs @ drop (i + length bs) d)"
  by (simp add: wr_def)

lemma wr_None: "wr d i bs = None \<longleftrightarrow> length d < i + length bs"
  by (auto simp: wr_def)

lemma wr_len: "wr d i bs = Some d' \<Longrightarrow> length d' = length d"
  by (auto simp: wr_def split: if_splits)

text \<open>A write is read back by a read of the same range, and leaves every other range alone.\<close>

lemma slice_wr_same: "wr d i bs = Some d' \<Longrightarrow> slice d' i (length bs) = Some bs"
  by (auto simp: wr_def slice_def split: if_splits)

lemma slice_wr_before:
  "wr d i bs = Some d' \<Longrightarrow> j + n \<le> i \<Longrightarrow> slice d' j n = slice d j n"
  by (auto simp: wr_def slice_def min_def split: if_splits intro!: nth_equalityI)

section \<open>Word arithmetic without wrap-around\<close>

lemma unat_add_of_nat:
  "unat (w :: 'a::len word) + n < 2 ^ LENGTH('a) \<Longrightarrow> unat (w + of_nat n) = unat w + n"
  by (simp add: unat_word_ariths unat_of_nat take_bit_eq_mod mod_simps)

lemma unat_sub_of_nat:
  assumes "n \<le> unat (w :: 'a::len word)"
  shows "unat (w - of_nat n) = unat w - n"
proof -
  have "n < 2 ^ LENGTH('a)" using assms unsigned_less [of w] by (rule le_less_trans)
  then have "unat (of_nat n :: 'a word) = n" by (simp add: unat_of_nat)
  then show ?thesis using assms by (simp add: unat_sub word_le_nat_alt)
qed

lemma u16_unat_less: "unat (w :: u16) < 65536"
  using unsigned_less [of w] by simp

lemma byte_unat_less: "unat (w :: byte) < 256"
  using unsigned_less [of w] by simp

lemma unat_ucast_byte [simp]: "unat (ucast (b :: byte) :: u16) = unat b"
proof -
  have "unat b < 2 ^ 16" using byte_unat_less [of b] by (rule less_trans) simp
  then show ?thesis by (simp add: unsigned_ucast_eq take_bit_nat_eq_self)
qed

section \<open>Little and big endian integers\<close>

text \<open>
  \<^verbatim>\<open>read_le16\<close>, \<^verbatim>\<open>write_le16\<close> and their kin of \<^verbatim>\<open>utils.h\<close> are instances of one pair of functions
  for every word length: the byte string of a word, least significant byte first, and back.
\<close>

fun le_bytes :: "nat \<Rightarrow> 'a::len word \<Rightarrow> mem" where
  "le_bytes 0 w = []"
| "le_bytes (Suc n) w = ucast w # le_bytes n (drop_bit 8 w)"

fun le_val :: "mem \<Rightarrow> 'a::len word" where
  "le_val [] = 0"
| "le_val (b # bs) = ucast b OR push_bit 8 (le_val bs)"

definition be_bytes :: "nat \<Rightarrow> 'a::len word \<Rightarrow> mem" where
  "be_bytes n w = rev (le_bytes n w)"

definition be_val :: "mem \<Rightarrow> 'a::len word" where
  "be_val bs = le_val (rev bs)"

lemma le_bytes_len [simp]: "length (le_bytes n w) = n"
  by (induction n arbitrary: w) simp_all

lemma be_bytes_len [simp]: "length (be_bytes n w) = n"
  by (simp add: be_bytes_def)

lemma bit_ucast_byte: "bit (ucast (b :: byte) :: 'a::len word) i \<longleftrightarrow> i < LENGTH('a) \<and> bit b i"
  by (simp add: bit_ucast_iff)

lemma bit_le_val:
  "bit (le_val bs :: 'a::len word) i \<longleftrightarrow>
     i < LENGTH('a) \<and> i < 8 * length bs \<and> bit (bs ! (i div 8)) (i mod 8)"
proof (induction bs arbitrary: i)
  case Nil
  then show ?case by simp
next
  case (Cons b bs)
  show ?case
  proof (cases "i < 8")
    case True
    then show ?thesis by (auto simp: bit_simps)
  next
    case False
    moreover from False have "(i - 8) div 8 = i div 8 - 1" and "(i - 8) mod 8 = i mod 8"
      by (simp_all add: le_div_geq le_mod_geq)
    moreover have "\<not> bit b i" using False by (auto dest: bit_imp_le_length)
    ultimately show ?thesis
      by (auto simp: bit_simps Cons.IH nth_Cons' div_eq_0_iff)
  qed
qed

lemma le_bytes_nth:
  "i < n \<Longrightarrow> le_bytes n w ! i = ucast (drop_bit (8 * i) w)"
proof (induction n arbitrary: w i)
  case 0
  then show ?case by simp
next
  case (Suc n)
  then show ?case by (cases i) (simp_all add: drop_bit_drop_bit algebra_simps)
qed

text \<open>Encoding after decoding, and decoding after encoding, are the identity.\<close>

lemma le_bytes_val:
  assumes "8 * length bs \<le> LENGTH('a::len)"
  shows "le_bytes (length bs) (le_val bs :: 'a word) = bs"
proof (rule nth_equalityI)
  show "length (le_bytes (length bs) (le_val bs :: 'a word)) = length bs" by simp
next
  fix i assume "i < length (le_bytes (length bs) (le_val bs :: 'a word))"
  then have i: "i < length bs" by simp
  show "le_bytes (length bs) (le_val bs :: 'a word) ! i = bs ! i"
  proof (rule bit_word_eqI)
    fix j assume "j < LENGTH(8)"
    then have j: "j < 8" by simp
    then have "(8 * i + j) div 8 = i" and "(8 * i + j) mod 8 = j" by simp_all
    with i j assms show "bit (le_bytes (length bs) (le_val bs :: 'a word) ! i) j = bit (bs ! i) j"
      by (simp add: le_bytes_nth bit_simps bit_le_val)
  qed
qed

lemma le_val_bytes:
  assumes "LENGTH('a::len) \<le> 8 * n"
  shows "le_val (le_bytes n (w :: 'a word)) = w"
proof (rule bit_word_eqI)
  fix j assume j: "j < LENGTH('a)"
  then have "j div 8 < n" using assms by (simp add: less_mult_imp_div_less mult.commute)
  then show "bit (le_val (le_bytes n w) :: 'a word) j = bit w j"
    using j assms by (simp add: bit_le_val le_bytes_nth bit_simps)
qed

lemma be_bytes_val:
  "8 * length bs \<le> LENGTH('a::len) \<Longrightarrow> be_bytes (length bs) (be_val bs :: 'a word) = bs"
  using le_bytes_val [of "rev bs", where 'a = 'a] by (simp add: be_bytes_def be_val_def)

lemma be_val_bytes:
  "LENGTH('a::len) \<le> 8 * n \<Longrightarrow> be_val (be_bytes n (w :: 'a word)) = w"
  by (simp add: be_bytes_def be_val_def le_val_bytes)

text \<open>Encodings at other lengths, and numbers that fit.\<close>

lemma bytes_cong: "(\<And>i. i < n \<Longrightarrow> (ucast (drop_bit (8 * i) v) :: byte) = ucast (drop_bit (8 * i) w)) \<Longrightarrow>
    le_bytes n v = le_bytes n w"
  by (rule nth_equalityI) (simp_all add: le_bytes_nth)

lemma le_bytes_add: "le_bytes (m + n) w = le_bytes m w @ le_bytes n (drop_bit (8 * m) w)"
proof (induction m arbitrary: w)
  case 0
  then show ?case by simp
next
  case (Suc m)
  then show ?case by (simp add: drop_bit_drop_bit add.commute)
qed

lemma le_bytes_ucast:
  "8 * n \<le> LENGTH('a::len) \<Longrightarrow> le_bytes n (ucast (w :: 'b::len word) :: 'a word) = le_bytes n w"
  by (rule bytes_cong) (auto intro!: bit_word_eqI simp: bit_simps)

lemma le_val_bytes_ucast: "LENGTH('a::len) = 8 * n \<Longrightarrow> le_val (le_bytes n (w :: 'b::len word)) = (ucast w :: 'a word)"
  using le_bytes_ucast [of n w, where 'a = 'a] le_val_bytes [of n "ucast w :: 'a word"] by simp

lemma ucast_ucast_byte [simp]: "ucast (ucast (t :: byte) :: u32) = t"
  by (rule bit_word_eqI) (simp add: bit_simps)

lemma sint_u32_of_nat: "n < 2 ^ 31 \<Longrightarrow> sint (of_nat n :: u32) = int n"
  by (simp add: signed_of_nat signed_take_bit_int_eq_self)

lemma u32_of_nat_le: "m < 2 ^ 32 \<Longrightarrow> n < 2 ^ 32 \<Longrightarrow> (of_nat m :: u32) \<le> of_nat n \<longleftrightarrow> m \<le> n"
  by (simp add: word_le_nat_alt unat_of_nat take_bit_eq_mod)

lemma u32_of_nat_less: "m < 2 ^ 32 \<Longrightarrow> n < 2 ^ 32 \<Longrightarrow> (of_nat m :: u32) < of_nat n \<longleftrightarrow> m < n"
  by (simp add: word_less_nat_alt unat_of_nat take_bit_eq_mod)

lemma byte_of_nat: "n < 256 \<Longrightarrow> unat (of_nat n :: byte) = n"
  by (simp add: unat_of_nat take_bit_eq_mod)

lemma byte_of_nat_pos: "0 < n \<Longrightarrow> n < 256 \<Longrightarrow> (of_nat n :: byte) \<noteq> 0"
  using byte_of_nat [of n] by auto

lemma u16_of_nat_less: "m < 65536 \<Longrightarrow> n < 65536 \<Longrightarrow> (of_nat m :: u16) < of_nat n \<longleftrightarrow> m < n"
  by (simp add: word_less_nat_alt unat_of_nat take_bit_eq_mod)

lemma u16_of_nat: "n < 65536 \<Longrightarrow> unat (of_nat n :: u16) = n"
  by (simp add: unat_of_nat take_bit_eq_mod)

lemma be_val_ucast:
  assumes "8 * length bs \<le> LENGTH('b::len)" "LENGTH('b) \<le> LENGTH('a::len)"
  shows "ucast (be_val bs :: 'b word) = (be_val bs :: 'a word)"
  unfolding be_val_def using assms by (intro bit_word_eqI) (auto simp: bit_simps bit_le_val)

lemma scast_scast_up:
  "LENGTH('c::len) \<le> LENGTH('b::len) \<Longrightarrow> scast (scast (w :: 'c word) :: 'b word) = (scast w :: 'a::len word)"
  by (rule bit_word_eqI) (auto simp: bit_simps min_def)

section \<open>The access macros of utils.h\<close>

definition read_le16 :: "mem \<Rightarrow> nat \<Rightarrow> u16 option" where
  "read_le16 d i = map_option le_val (slice d i 2)"

definition read_le32 :: "mem \<Rightarrow> nat \<Rightarrow> u32 option" where
  "read_le32 d i = map_option le_val (slice d i 4)"

definition read_le64 :: "mem \<Rightarrow> nat \<Rightarrow> u64 option" where
  "read_le64 d i = map_option le_val (slice d i 8)"

definition write_le16 :: "u16 \<Rightarrow> mem \<Rightarrow> nat \<Rightarrow> mem option" where
  "write_le16 n d i = wr d i (le_bytes 2 n)"

definition write_le32 :: "u32 \<Rightarrow> mem \<Rightarrow> nat \<Rightarrow> mem option" where
  "write_le32 n d i = wr d i (le_bytes 4 n)"

definition write_le64 :: "u64 \<Rightarrow> mem \<Rightarrow> nat \<Rightarrow> mem option" where
  "write_le64 n d i = wr d i (le_bytes 8 n)"

definition read_be16 :: "mem \<Rightarrow> nat \<Rightarrow> u16 option" where
  "read_be16 d i = map_option be_val (slice d i 2)"

definition read_be32 :: "mem \<Rightarrow> nat \<Rightarrow> u32 option" where
  "read_be32 d i = map_option be_val (slice d i 4)"

definition read_be64 :: "mem \<Rightarrow> nat \<Rightarrow> u64 option" where
  "read_be64 d i = map_option be_val (slice d i 8)"

definition write_be16 :: "u16 \<Rightarrow> mem \<Rightarrow> nat \<Rightarrow> mem option" where
  "write_be16 n d i = wr d i (be_bytes 2 n)"

definition write_be32 :: "u32 \<Rightarrow> mem \<Rightarrow> nat \<Rightarrow> mem option" where
  "write_be32 n d i = wr d i (be_bytes 4 n)"

definition write_be64 :: "u64 \<Rightarrow> mem \<Rightarrow> nat \<Rightarrow> mem option" where
  "write_be64 n d i = wr d i (be_bytes 8 n)"

lemma read_le16_write: "write_le16 n d i = Some d' \<Longrightarrow> read_le16 d' i = Some n"
  by (drule slice_wr_same [of d i "le_bytes 2 n", folded write_le16_def])
     (simp add: read_le16_def le_val_bytes)

lemma read_be16_write: "write_be16 n d i = Some d' \<Longrightarrow> read_be16 d' i = Some n"
  by (drule slice_wr_same [of d i "be_bytes 2 n", folded write_be16_def])
     (simp add: read_be16_def be_val_bytes)

end
