(* ===== verification/Buffer.thy ===== *)
theory Buffer
  imports Prelude
begin

text \<open>
  The data buffers of \<^verbatim>\<open>bt-embedded/buffer.h\<close>: allocation of packet chains, the reader and the
  writer that hide packet boundaries and packet headers, and shrinking and appending.

  A \<^verbatim>\<open>BteBuffer*\<close> is the list of the packets reached through \<^verbatim>\<open>next\<close>; a pointer into the middle
  of a chain (\<^verbatim>\<open>reader->packet\<close>) is the suffix of the list that starts there, and the null
  pointer is the empty list. The writer changes the packets it points to, so it keeps the packets
  it has left behind beside that suffix. Reference counts and the sharing of chains are modelled
  on an explicit heap in \<^verbatim>\<open>BufferRef\<close>.

  The reader and the writer are related to a stream of bytes: the data of the packets without
  their headers. \<open>reader_stream\<close> and \<open>writer_room\<close> are the abstraction functions, and the
  locale \<open>byte_source\<close> states what the layers above rely on.
\<close>

section \<open>Packets\<close>

record bte_buffer =
  ref_count :: int
  total_size :: u16
  size :: u16
  data :: mem

type_synonym chain = "bte_buffer list"

text \<open>\<^verbatim>\<open>sizeof(BteBuffer)\<close> on a 64-bit target: 4 + 4 (padding) + 8 + 2 + 2 + 4 (padding) + 8.\<close>

definition sizeof_BteBuffer :: nat where
  "sizeof_BteBuffer = 32"

text \<open>
  The parameter of \<^verbatim>\<open>bte_buffer_malloc\<close> is a \<^verbatim>\<open>uint16_t\<close>, so the sum of header and data size is
  truncated to 16 bits before the memory is allocated. \<open>junk\<close> is what fresh memory holds.
\<close>

definition bte_buffer_malloc :: "(nat \<Rightarrow> byte) \<Rightarrow> u16 \<Rightarrow> mem" where
  "bte_buffer_malloc junk n = map junk [0..<unat n]"

definition bte_buffer_alloc_contiguous :: "(nat \<Rightarrow> byte) \<Rightarrow> u16 \<Rightarrow> bte_buffer option" where
  "bte_buffer_alloc_contiguous junk sz =
     (let block = bte_buffer_malloc junk (of_nat (sizeof_BteBuffer + unat sz))
      in if length block < sizeof_BteBuffer then None
         else Some \<lparr>ref_count = 1, total_size = sz, size = sz,
                     data = drop sizeof_BteBuffer block\<rparr>)"

text \<open>
  The loop of \<^verbatim>\<open>bte_buffer_alloc\<close>. With a block size of 0 it never ends, so it is a partial
  function: \<open>None\<close> also stands for not returning. Every packet gets fresh memory of its own.
\<close>

partial_function (option) bte_buffer_alloc_loop ::
    "(nat \<Rightarrow> nat \<Rightarrow> byte) \<Rightarrow> nat \<Rightarrow> u16 \<Rightarrow> u16 \<Rightarrow> u16 \<Rightarrow> chain \<Rightarrow> chain option" where
  "bte_buffer_alloc_loop junk k sz block_size remaining acc =
     (if remaining > 0 then
        (let buffer_size = (if remaining > block_size then block_size else remaining) in
         case bte_buffer_alloc_contiguous (junk k) buffer_size of
           None \<Rightarrow> None
         | Some b \<Rightarrow> bte_buffer_alloc_loop junk (Suc k) sz block_size (remaining - buffer_size)
                       (acc @ [b\<lparr>total_size := sz\<rparr>]))
      else Some acc)"

definition bte_buffer_alloc :: "(nat \<Rightarrow> nat \<Rightarrow> byte) \<Rightarrow> u16 \<Rightarrow> u16 \<Rightarrow> chain option" where
  "bte_buffer_alloc junk sz block_size = bte_buffer_alloc_loop junk 0 sz block_size sz []"

fun bte_buffer_shrink_loop :: "chain \<Rightarrow> u16 \<Rightarrow> chain" where
  "bte_buffer_shrink_loop [] sz = []"
| "bte_buffer_shrink_loop (b # bs) sz =
     (let b' = (if size b > sz then b\<lparr>size := sz\<rparr> else b)
      in b' # bte_buffer_shrink_loop bs (sz - size b'))"

fun bte_buffer_shrink :: "chain \<Rightarrow> u16 \<Rightarrow> chain option" where
  "bte_buffer_shrink [] sz = None"
| "bte_buffer_shrink (b # bs) sz = Some (bte_buffer_shrink_loop (b\<lparr>total_size := sz\<rparr> # bs) sz)"

fun bte_buffer_ref :: "chain \<Rightarrow> chain option" where
  "bte_buffer_ref [] = None"
| "bte_buffer_ref (b # bs) = Some (b\<lparr>ref_count := ref_count b + 1\<rparr> # bs)"

fun bte_buffer_contiguous_data :: "chain \<Rightarrow> u16 \<Rightarrow> mem option option" where
  "bte_buffer_contiguous_data [] sz = None"
| "bte_buffer_contiguous_data (b # bs) sz = Some (if size b \<ge> sz then Some (data b) else None)"

text \<open>
  \<^verbatim>\<open>bte_buffer_append\<close> adds the size of the first packet of the appended chain to the total.
\<close>

fun bte_buffer_append :: "chain \<Rightarrow> chain \<Rightarrow> chain option" where
  "bte_buffer_append [] buffer = bte_buffer_ref buffer"
| "bte_buffer_append (h # t) buffer =
     do { buffer' \<leftarrow> bte_buffer_ref buffer;
          Some (h\<lparr>total_size := total_size h + size (hd buffer)\<rparr> # t @ buffer') }"

section \<open>The writer\<close>

record bte_buffer_writer =
  w_done :: chain
  w_packet :: chain
  w_pos_in_packet :: u16
  w_header_size :: byte

definition writer_chain :: "bte_buffer_writer \<Rightarrow> chain" where
  "writer_chain w = w_done w @ w_packet w"

definition bte_buffer_writer_init :: "chain \<Rightarrow> bte_buffer_writer" where
  "bte_buffer_writer_init buffer =
     \<lparr>w_done = [], w_packet = buffer, w_pos_in_packet = 0, w_header_size = 0\<rparr>"

definition bte_buffer_writer_set_header_size :: "bte_buffer_writer \<Rightarrow> byte \<Rightarrow> bte_buffer_writer" where
  "bte_buffer_writer_set_header_size w sz =
     w\<lparr>w_header_size := sz, w_pos_in_packet := ucast sz\<rparr>"

text \<open>
  \<^verbatim>\<open>memcpy\<close> with a length computed in \<^verbatim>\<open>int\<close>: a negative length is converted to a huge
  \<^verbatim>\<open>size_t\<close>, an access outside every block.
\<close>

definition mem_copy_to :: "mem \<Rightarrow> u16 \<Rightarrow> mem \<Rightarrow> int \<Rightarrow> mem option" where
  "mem_copy_to d pos src n =
     (if n < 0 \<or> int (length src) < n then None else wr d (unat pos) (take (nat n) src))"

definition mem_copy_from :: "mem \<Rightarrow> u16 \<Rightarrow> int \<Rightarrow> mem option" where
  "mem_copy_from d pos n = (if n < 0 then None else slice d (unat pos) (nat n))"

text \<open>
  The loop of \<^verbatim>\<open>bte_buffer_writer_write\<close>; \<open>src\<close> is the memory from \<^verbatim>\<open>ptr\<close> on and \<open>sz\<close> what
  is left to write. Following \<^verbatim>\<open>next\<close> ends because a chain is finite.
\<close>

fun writer_write_loop ::
    "chain \<Rightarrow> chain \<Rightarrow> u16 \<Rightarrow> byte \<Rightarrow> mem \<Rightarrow> u16 \<Rightarrow> (bool \<times> chain \<times> chain \<times> u16) option" where
  "writer_write_loop dn [] pos hdr src sz = (if sz = 0 then Some (True, dn, [], pos) else None)"
| "writer_write_loop dn (p # ps) pos hdr src sz =
     (if sz = 0 then Some (True, dn, p # ps, pos) else
      let write_len = (if uint pos + uint sz \<le> uint (size p) then uint sz
                       else uint (size p) - uint pos) in
      do { d \<leftarrow> mem_copy_to (data p) pos src write_len;
           let p' = p\<lparr>data := d\<rparr>;
           let pos' = pos + word_of_int write_len;
           let sz' = sz - word_of_int write_len;
           if sz' > 0 then
             (if ps = [] then Some (False, dn, [p'], pos')
              else writer_write_loop (dn @ [p']) ps (ucast hdr) hdr (drop (nat write_len) src) sz')
           else Some (True, dn, p' # ps, pos') })"

definition bte_buffer_writer_write ::
    "bte_buffer_writer \<Rightarrow> mem \<Rightarrow> u16 \<Rightarrow> (bool \<times> bte_buffer_writer) option" where
  "bte_buffer_writer_write w src sz =
     do { (ok, dn, pk, pos) \<leftarrow> writer_write_loop (w_done w) (w_packet w) (w_pos_in_packet w)
                                 (w_header_size w) src sz;
          Some (ok, w\<lparr>w_done := dn, w_packet := pk, w_pos_in_packet := pos\<rparr>) }"

text \<open>
  The common first half of \<^verbatim>\<open>bte_buffer_writer_ptr_max\<close> and \<^verbatim>\<open>bte_buffer_writer_ptr_n\<close>: move to
  the next packet when the current one is full. \<open>False\<close> is the early return of \<^verbatim>\<open>NULL\<close>.
\<close>

fun writer_next_if_full :: "bte_buffer_writer \<Rightarrow> (bool \<times> bte_buffer_writer) option" where
  "writer_next_if_full w =
     (case w_packet w of [] \<Rightarrow> None
      | p # ps \<Rightarrow>
          if w_pos_in_packet w \<ge> size p then
            (if ps \<noteq> [] then Some (True, w\<lparr>w_done := w_done w @ [p], w_packet := ps,
                                          w_pos_in_packet := ucast (w_header_size w)\<rparr>)
             else Some (False, w))
          else Some (True, w))"

text \<open>The returned pointer is the offset into the data of the (new) current packet.\<close>

definition bte_buffer_writer_ptr_max ::
    "bte_buffer_writer \<Rightarrow> (nat option \<times> u16 \<times> bte_buffer_writer) option" where
  "bte_buffer_writer_ptr_max w =
     do { (more, w1) \<leftarrow> writer_next_if_full w;
          if more then Some (Some (unat (w_pos_in_packet w1)),
                             size (hd (w_packet w1)) - w_pos_in_packet w1, w1)
          else Some (None, 0, w1) }"

definition bte_buffer_writer_advance :: "bte_buffer_writer \<Rightarrow> u16 \<Rightarrow> bte_buffer_writer" where
  "bte_buffer_writer_advance w sz = w\<lparr>w_pos_in_packet := w_pos_in_packet w + sz\<rparr>"

definition bte_buffer_writer_ptr_n ::
    "bte_buffer_writer \<Rightarrow> u16 \<Rightarrow> (nat option \<times> bte_buffer_writer) option" where
  "bte_buffer_writer_ptr_n w sz =
     do { (more, w1) \<leftarrow> writer_next_if_full w;
          if \<not> more then Some (None, w1)
          else if uint sz > uint (size (hd (w_packet w1))) - uint (w_pos_in_packet w1)
          then Some (None, w1)
          else Some (Some (unat (w_pos_in_packet w1)),
                     w1\<lparr>w_pos_in_packet := w_pos_in_packet w1 + sz\<rparr>) }"

text \<open>A store through a pointer that \<^verbatim>\<open>bte_buffer_writer_ptr_n\<close> returned.\<close>

fun writer_poke :: "bte_buffer_writer \<Rightarrow> nat \<Rightarrow> mem \<Rightarrow> bte_buffer_writer option" where
  "writer_poke w off bs =
     (case w_packet w of [] \<Rightarrow> None
      | p # ps \<Rightarrow> do { d \<leftarrow> wr (data p) off bs; Some (w\<lparr>w_packet := p\<lparr>data := d\<rparr> # ps\<rparr>) })"

fun bte_buffer_writer_end :: "bte_buffer_writer \<Rightarrow> chain option" where
  "bte_buffer_writer_end w =
     (case w_packet w of [] \<Rightarrow> None
      | p # ps \<Rightarrow>
          (let p' = p\<lparr>size := w_pos_in_packet w\<rparr>;
               tot = foldl (\<lambda>t b. t + size b) 0 (w_done w @ [p']);
               c = w_done w @ p' # ps
           in Some ((hd c)\<lparr>total_size := tot\<rparr> # tl c)))"

section \<open>The reader\<close>

record bte_buffer_reader =
  r_buffer :: chain
  r_packet :: chain
  r_pos_in_packet :: u16
  r_header_size :: byte

definition bte_buffer_reader_init :: "chain \<Rightarrow> bte_buffer_reader" where
  "bte_buffer_reader_init buffer =
     \<lparr>r_buffer = buffer, r_packet = buffer, r_pos_in_packet = 0, r_header_size = 0\<rparr>"

definition bte_buffer_reader_set_header_size :: "bte_buffer_reader \<Rightarrow> byte \<Rightarrow> bte_buffer_reader" where
  "bte_buffer_reader_set_header_size r sz =
     r\<lparr>r_header_size := sz, r_pos_in_packet := ucast sz\<rparr>"

text \<open>
  The loop of \<^verbatim>\<open>bte_buffer_reader_read\<close>; \<open>copy\<close> tells whether a destination was given
  (\<^verbatim>\<open>bte_buffer_reader_advance\<close> passes \<^verbatim>\<open>NULL\<close>). It returns the bytes copied, the new packet
  and position, and the count the C function returns.
\<close>

fun reader_read_loop ::
    "bool \<Rightarrow> chain \<Rightarrow> u16 \<Rightarrow> byte \<Rightarrow> u16 \<Rightarrow> u16 \<Rightarrow> (mem \<times> chain \<times> u16 \<times> u16) option" where
  "reader_read_loop copy [] pos hdr sz total_read =
     (if sz = 0 then Some ([], [], pos, total_read) else None)"
| "reader_read_loop copy (p # ps) pos hdr sz total_read =
     (if sz = 0 then Some ([], p # ps, pos, total_read) else
      let read_len = (if uint pos + uint sz \<le> uint (size p) then uint sz
                      else uint (size p) - uint pos) in
      do { bytes \<leftarrow> (if copy then mem_copy_from (data p) pos read_len else Some []);
           let pos' = pos + word_of_int read_len;
           let total_read' = total_read + word_of_int read_len;
           let sz' = sz - word_of_int read_len;
           if sz' > 0 then
             (if ps = [] then Some (bytes, [p], pos', total_read')
              else do { (bs, rest) \<leftarrow> reader_read_loop copy ps (ucast hdr) hdr sz' total_read';
                        Some (bytes @ bs, rest) })
           else Some (bytes, p # ps, pos', total_read') })"

definition bte_buffer_reader_read ::
    "bool \<Rightarrow> bte_buffer_reader \<Rightarrow> u16 \<Rightarrow> (mem \<times> u16 \<times> bte_buffer_reader) option" where
  "bte_buffer_reader_read copy r sz =
     do { (bytes, pk, pos, total_read) \<leftarrow> reader_read_loop copy (r_packet r) (r_pos_in_packet r)
                                       (r_header_size r) sz 0;
          Some (bytes, total_read, r\<lparr>r_packet := pk, r_pos_in_packet := pos\<rparr>) }"

definition bte_buffer_reader_advance ::
    "bte_buffer_reader \<Rightarrow> u16 \<Rightarrow> (u16 \<times> bte_buffer_reader) option" where
  "bte_buffer_reader_advance r sz =
     do { (_, total_read, r') \<leftarrow> bte_buffer_reader_read False r sz; Some (total_read, r') }"

fun reader_next_if_empty :: "bte_buffer_reader \<Rightarrow> (bool \<times> bte_buffer_reader) option" where
  "reader_next_if_empty r =
     (case r_packet r of [] \<Rightarrow> None
      | p # ps \<Rightarrow>
          if r_pos_in_packet r \<ge> size p then
            (if ps \<noteq> [] then Some (True, r\<lparr>r_packet := ps,
                                          r_pos_in_packet := ucast (r_header_size r)\<rparr>)
             else Some (False, r))
          else Some (True, r))"

text \<open>A returned pointer is the memory it may be read from: the requested bytes.\<close>

definition bte_buffer_reader_read_max ::
    "bte_buffer_reader \<Rightarrow> (mem option \<times> u16 \<times> bte_buffer_reader) option" where
  "bte_buffer_reader_read_max r =
     do { (more, r1) \<leftarrow> reader_next_if_empty r;
          if \<not> more then Some (None, 0, r1)
          else do {
            let p = hd (r_packet r1);
            let n = size p - r_pos_in_packet r1;
            bs \<leftarrow> slice (data p) (unat (r_pos_in_packet r1)) (unat n);
            Some (Some bs, n, r1\<lparr>r_pos_in_packet := size p\<rparr>) } }"

definition bte_buffer_reader_read_n ::
    "bte_buffer_reader \<Rightarrow> u16 \<Rightarrow> (mem option \<times> bte_buffer_reader) option" where
  "bte_buffer_reader_read_n r sz =
     do { (more, r1) \<leftarrow> reader_next_if_empty r;
          if \<not> more then Some (None, r1)
          else let p = hd (r_packet r1) in
            if uint sz > uint (size p) - uint (r_pos_in_packet r1) then Some (None, r1)
            else do {
              bs \<leftarrow> slice (data p) (unat (r_pos_in_packet r1)) (unat sz);
              Some (Some bs, r1\<lparr>r_pos_in_packet := r_pos_in_packet r1 + sz\<rparr>) } }"

section \<open>Packets as streams of bytes\<close>

text \<open>
  The payload of a packet is its data without the header. A cursor (packet and position) stands
  for the bytes from the position to the end of the chain, headers of later packets skipped.
\<close>

definition payload :: "byte \<Rightarrow> bte_buffer \<Rightarrow> mem" where
  "payload hdr p = drop (unat hdr) (take (unat (size p)) (data p))"

definition packet_ok :: "byte \<Rightarrow> bte_buffer \<Rightarrow> bool" where
  "packet_ok hdr p \<longleftrightarrow> unat hdr \<le> unat (size p) \<and> unat (size p) \<le> length (data p)"

fun cursor_ok :: "chain \<Rightarrow> u16 \<Rightarrow> byte \<Rightarrow> bool" where
  "cursor_ok [] pos hdr = False"
| "cursor_ok (p # ps) pos hdr \<longleftrightarrow>
     unat pos \<le> unat (size p) \<and> unat (size p) \<le> length (data p) \<and> list_all (packet_ok hdr) ps"

fun cursor_stream :: "chain \<Rightarrow> u16 \<Rightarrow> byte \<Rightarrow> mem" where
  "cursor_stream [] pos hdr = []"
| "cursor_stream (p # ps) pos hdr =
     drop (unat pos) (take (unat (size p)) (data p)) @ concat (map (payload hdr) ps)"

section \<open>One step of the copy loops\<close>

definition step_len :: "u16 \<Rightarrow> u16 \<Rightarrow> u16 \<Rightarrow> nat" where
  "step_len pos sz psz = min (unat sz) (unat psz - unat pos)"

lemma step_len_int:
  assumes "unat pos \<le> unat psz"
  shows "(if uint pos + uint sz \<le> uint psz then uint sz else uint psz - uint pos) =
         int (step_len pos sz psz)"
proof -
  have "int (step_len pos sz psz) = min (uint sz) (uint psz - uint pos)"
    using assms by (simp add: step_len_def of_nat_diff of_nat_min)
  then show ?thesis by (simp add: min_def algebra_simps)
qed

lemma unat_pos_step:
  "unat pos \<le> unat psz \<Longrightarrow> unat (pos + of_nat (step_len pos sz psz)) = unat pos + step_len pos sz psz"
  using u16_unat_less [of psz] by (intro unat_add_of_nat) (simp add: step_len_def)

lemma unat_sz_step: "unat (sz - of_nat (step_len pos sz psz)) = unat sz - step_len pos sz psz"
  by (intro unat_sub_of_nat) (simp add: step_len_def)

lemma step_len_cases:
  assumes "unat pos \<le> unat psz" and "n = step_len pos sz psz"
  shows "unat pos + n \<le> unat psz" and "n \<le> unat sz"
    and "n < unat sz \<Longrightarrow> pos + of_nat n = psz"
proof -
  show a: "unat pos + n \<le> unat psz" "n \<le> unat sz" using assms by (auto simp: step_len_def)
  assume "n < unat sz"
  then have "unat pos + n = unat psz" using assms by (auto simp: step_len_def)
  then show "pos + of_nat n = psz"
    using unat_pos_step [OF assms(1), of sz] by (simp add: assms(2) word_unat_eq_iff)
qed

lemma step_remaining: "sz - of_nat (step_len pos sz psz) > 0 \<longleftrightarrow> step_len pos sz psz < unat sz"
  using unat_sz_step [of sz pos psz] by (simp add: word_less_nat_alt)

section \<open>Reading\<close>

lemma mem_copy_from_step:
  assumes "unat pos \<le> unat psz" and "unat psz \<le> length d"
  shows "mem_copy_from d pos (int (step_len pos sz psz)) =
           Some (take (step_len pos sz psz) (drop (unat pos) (take (unat psz) d)))"
  using assms by (auto simp: mem_copy_from_def slice_def step_len_def min_def drop_take)

lemma reader_read_loop_eq:
  assumes "cursor_ok (p # ps) pos hdr" and "sz \<noteq> 0" and n: "n = step_len pos sz (size p)"
  shows "reader_read_loop copy (p # ps) pos hdr sz tot =
    (let bytes = (if copy then take n (cursor_stream (p # ps) pos hdr) else []) in
     if n < unat sz then
       (if ps = [] then Some (bytes, [p], size p, tot + of_nat n)
        else do { (bs, rest) \<leftarrow> reader_read_loop copy ps (ucast hdr) hdr (sz - of_nat n) (tot + of_nat n);
                  Some (bytes @ bs, rest) })
     else Some (bytes, p # ps, pos + of_nat n, tot + of_nat n))"
proof -
  from assms have pos: "unat pos \<le> unat (size p)" and len: "unat (size p) \<le> length (data p)"
    by simp_all
  note c = step_len_cases [OF pos n]
  have cp: "mem_copy_from (data p) pos (int n) = Some (take n (cursor_stream (p # ps) pos hdr))"
    using mem_copy_from_step [OF pos len, of sz, folded n] c(1) len by simp
  show ?thesis
    unfolding reader_read_loop.simps Let_def step_len_int [OF pos] n [symmetric]
    using assms(2) cp c(3) step_remaining [of sz pos "size p", folded n]
    by (simp del: cursor_stream.simps)
qed

lemma cursor_advance:
  assumes "cursor_ok (p # ps) pos hdr" and "unat pos + n \<le> unat (size p)"
  shows "cursor_ok (p # ps) (pos + of_nat n) hdr"
    and "cursor_stream (p # ps) (pos + of_nat n) hdr = drop n (cursor_stream (p # ps) pos hdr)"
    and "n \<le> length (cursor_stream (p # ps) pos hdr)"
proof -
  have "unat (pos + of_nat n) = unat pos + n"
    using assms(2) u16_unat_less [of "size p"] by (intro unat_add_of_nat) simp
  then show "cursor_ok (p # ps) (pos + of_nat n) hdr"
    "cursor_stream (p # ps) (pos + of_nat n) hdr = drop n (cursor_stream (p # ps) pos hdr)"
    "n \<le> length (cursor_stream (p # ps) pos hdr)"
    using assms by (auto simp: add.commute)
qed

lemma cursor_next:
  assumes "cursor_ok (p # ps) (size p) hdr" and "ps \<noteq> []"
  shows "cursor_ok ps (ucast hdr) hdr"
    and "cursor_stream ps (ucast hdr) hdr = cursor_stream (p # ps) (size p) hdr"
  using assms by (cases ps; simp add: packet_ok_def payload_def)+

declare reader_read_loop.simps [simp del] writer_write_loop.simps [simp del]

lemma split_min: "n \<le> s \<Longrightarrow> n \<le> m \<Longrightarrow> n + min (s - n) (m - n) = min s (m :: nat)"
  by arith

text \<open>
  The reading loop returns the next \<open>sz\<close> bytes of the stream, or all there are, and leaves a
  cursor on the rest. The first branch of the proof is a request the current packet satisfies, or
  the last packet; the second follows \<^verbatim>\<open>next\<close>.
\<close>

lemma reader_read_loop_spec:
  assumes "cursor_ok pk pos hdr"
  shows "\<exists>pk' pos'. reader_read_loop copy pk pos hdr sz tot =
           Some (if copy then take (unat sz) (cursor_stream pk pos hdr) else [], pk', pos',
                 tot + of_nat (min (unat sz) (length (cursor_stream pk pos hdr)))) \<and>
         cursor_ok pk' pos' hdr \<and>
         cursor_stream pk' pos' hdr = drop (unat sz) (cursor_stream pk pos hdr)"
  using assms
proof (induction pk arbitrary: pos sz tot)
  case Nil
  then show ?case by simp
next
  case (Cons p ps)
  define n where n: "n = step_len pos sz (size p)"
  let ?S = "cursor_stream (p # ps) pos hdr"
  have pos: "unat pos \<le> unat (size p)" "unat (size p) \<le> length (data p)" using Cons.prems by simp_all
  note c = step_len_cases [OF pos(1) n]
  note adv = cursor_advance [OF Cons.prems c(1)]
  note eq = reader_read_loop_eq [OF Cons.prems _ n, of copy tot]
  show ?case
  proof (cases "n < unat sz \<and> ps \<noteq> []")
    case False
    have "ps = [] \<Longrightarrow> length ?S = unat (size p) - unat pos" using pos by simp
    then have e: "n = unat sz \<or> ps = [] \<and> n = length ?S \<and> n < unat sz"
      using False c(2) n by (auto simp: step_len_def)
    then have t: "take n ?S = take (unat sz) ?S" "drop n ?S = drop (unat sz) ?S"
        "min (unat sz) (length ?S) = n" using adv(3) by auto
    show ?thesis
    proof (cases "sz = 0")
      case True
      with Cons.prems show ?thesis by (auto simp: reader_read_loop.simps)
    next
      case False
      have "reader_read_loop copy (p # ps) pos hdr sz tot =
          Some (if copy then take n ?S else [], p # ps, pos + of_nat n, tot + of_nat n)"
        using eq [OF False] e c(3) by (auto simp: Let_def simp del: cursor_stream.simps)
      then show ?thesis using adv(1,2) unfolding t by blast
    qed
  next
    case True
    then have "sz \<noteq> 0" by auto
    note adv' = adv [unfolded c(3) [OF conjunct1 [OF True]]]
    note nx = cursor_next [OF adv'(1) conjunct2 [OF True], unfolded adv'(2)]
    have sz': "unat (sz - of_nat n) = unat sz - n" by (simp add: n unat_sz_step)
    obtain pk' pos' where "reader_read_loop copy ps (ucast hdr) hdr (sz - of_nat n) (tot + of_nat n) =
           Some (if copy then take (unat sz - n) (drop n ?S) else [], pk', pos',
                 tot + of_nat n + of_nat (min (unat sz - n) (length (drop n ?S))))"
        "cursor_ok pk' pos' hdr" "cursor_stream pk' pos' hdr = drop (unat sz - n) (drop n ?S)"
      using Cons.IH [OF nx(1), of "sz - of_nat n" "tot + of_nat n"] unfolding nx(2) sz' by blast
    moreover have "n + (unat sz - n) = unat sz" using True by simp
    moreover note split_min [OF c(2) adv(3)] eq [OF \<open>sz \<noteq> 0\<close>]
    ultimately show ?thesis using True
      by (simp add: add.assoc take_add [symmetric] add.commute del: cursor_stream.simps flip: of_nat_add)
  qed
qed

definition reader_ok :: "bte_buffer_reader \<Rightarrow> bool" where
  "reader_ok r \<longleftrightarrow> cursor_ok (r_packet r) (r_pos_in_packet r) (r_header_size r)"

definition reader_stream :: "bte_buffer_reader \<Rightarrow> mem" where
  "reader_stream r = cursor_stream (r_packet r) (r_pos_in_packet r) (r_header_size r)"

lemma reader_read_spec:
  assumes "reader_ok r"
  shows "\<exists>r'. bte_buffer_reader_read copy r sz =
           Some (if copy then take (unat sz) (reader_stream r) else [],
                 of_nat (min (unat sz) (length (reader_stream r))), r') \<and>
         reader_ok r' \<and> reader_stream r' = drop (unat sz) (reader_stream r)"
proof -
  from reader_read_loop_spec [OF assms [unfolded reader_ok_def], of copy sz 0]
  obtain pk' pos' where "reader_read_loop copy (r_packet r) (r_pos_in_packet r) (r_header_size r) sz 0 =
           Some (if copy then take (unat sz) (reader_stream r) else [], pk', pos',
                 of_nat (min (unat sz) (length (reader_stream r))))"
     "cursor_ok pk' pos' (r_header_size r)"
     "cursor_stream pk' pos' (r_header_size r) = drop (unat sz) (reader_stream r)"
    unfolding reader_stream_def add_0 by blast
  then show ?thesis
    unfolding bte_buffer_reader_read_def by (simp add: reader_ok_def reader_stream_def)
qed

lemma reader_next_if_empty_ok:
  assumes "reader_ok r"
  shows "\<exists>more r1. reader_next_if_empty r = Some (more, r1) \<and> reader_ok r1 \<and>
     reader_stream r1 = reader_stream r \<and> r_packet r1 \<noteq> [] \<and>
     (\<not> more \<longrightarrow> reader_stream r = [])"
proof (cases "r_packet r")
  case Nil
  with assms show ?thesis by (simp add: reader_ok_def)
next
  case (Cons p ps)
  show ?thesis
  proof (cases "r_pos_in_packet r \<ge> size p \<and> ps \<noteq> []")
    case True
    with Cons assms show ?thesis
      by (cases ps) (auto simp: reader_ok_def reader_stream_def packet_ok_def payload_def word_le_nat_alt)
  next
    case False
    with Cons assms show ?thesis
      by (auto simp: reader_ok_def reader_stream_def word_le_nat_alt)
  qed
qed

lemma reader_read_n_spec:
  assumes "reader_ok r"
  shows "\<exists>ptr r'. bte_buffer_reader_read_n r sz = Some (ptr, r') \<and> reader_ok r' \<and>
     (case ptr of None \<Rightarrow> reader_stream r' = reader_stream r
      | Some bs \<Rightarrow> unat sz \<le> length (reader_stream r) \<and>
                   bs = take (unat sz) (reader_stream r) \<and>
                   reader_stream r' = drop (unat sz) (reader_stream r))"
proof -
  obtain more r1 where r1: "reader_next_if_empty r = Some (more, r1)" "reader_ok r1"
      "reader_stream r1 = reader_stream r" "r_packet r1 \<noteq> []"
    using reader_next_if_empty_ok [OF assms] by blast
  obtain p ps where p: "r_packet r1 = p # ps" using r1(4) by (cases "r_packet r1") auto
  have ok: "unat (r_pos_in_packet r1) \<le> unat (size p)" "unat (size p) \<le> length (data p)"
    using r1(2) p by (simp_all add: reader_ok_def)
  have gt: "uint sz > uint (size p) - uint (r_pos_in_packet r1) \<longleftrightarrow>
            \<not> unat (r_pos_in_packet r1) + unat sz \<le> unat (size p)"
    by (simp add: uint_nat del: of_nat_unat) linarith
  show ?thesis
  proof (cases "more \<and> unat (r_pos_in_packet r1) + unat sz \<le> unat (size p)")
    case False
    with r1 p gt show ?thesis by (auto simp: bte_buffer_reader_read_n_def)
  next
    case True
    have pos': "unat (r_pos_in_packet r1 + sz) = unat (r_pos_in_packet r1) + unat sz"
      using unat_add_of_nat [of "r_pos_in_packet r1" "unat sz"] True u16_unat_less [of "size p"] by simp
    let ?q = "unat (r_pos_in_packet r1)"
    have S: "reader_stream r = drop ?q (take (unat (size p)) (data p)) @
               concat (map (payload (r_header_size r1)) ps)"
      using r1(3) p by (simp add: reader_stream_def)
    have tk: "take (unat sz) (drop ?q (data p)) = take (unat sz) (reader_stream r)"
      and ln: "unat sz \<le> length (reader_stream r)"
      and dr: "reader_stream (r1\<lparr>r_pos_in_packet := r_pos_in_packet r1 + sz\<rparr>) =
                 drop (unat sz) (reader_stream r)"
      unfolding S using True ok p pos'
      by (auto simp: drop_take reader_stream_def add.commute)
    have "bte_buffer_reader_read_n r sz = Some (Some (take (unat sz) (drop ?q (data p))),
            r1\<lparr>r_pos_in_packet := r_pos_in_packet r1 + sz\<rparr>)"
      using True r1(1) p gt ok by (simp add: bte_buffer_reader_read_n_def slice_def)
    moreover have "reader_ok (r1\<lparr>r_pos_in_packet := r_pos_in_packet r1 + sz\<rparr>)"
      using r1(2) p True pos' by (simp add: reader_ok_def)
    ultimately show ?thesis using tk ln dr by simp
  qed
qed

lemma reader_read_max_spec:
  assumes "reader_ok r"
  shows "\<exists>ptr n r'. bte_buffer_reader_read_max r = Some (ptr, n, r') \<and> reader_ok r' \<and>
     (case ptr of None \<Rightarrow> n = 0 \<and> reader_stream r = [] \<and> reader_stream r' = []
      | Some bs \<Rightarrow> length bs = unat n \<and> reader_stream r = bs @ reader_stream r')"
proof -
  obtain more r1 where r1: "reader_next_if_empty r = Some (more, r1)" "reader_ok r1"
      "reader_stream r1 = reader_stream r" "r_packet r1 \<noteq> []" "\<not> more \<longrightarrow> reader_stream r = []"
    using reader_next_if_empty_ok [OF assms] by blast
  obtain p ps where p: "r_packet r1 = p # ps" using r1(4) by (cases "r_packet r1") auto
  have ok: "unat (r_pos_in_packet r1) \<le> unat (size p)" "unat (size p) \<le> length (data p)"
    using r1(2) p by (simp_all add: reader_ok_def)
  have n: "unat (size p - r_pos_in_packet r1) = unat (size p) - unat (r_pos_in_packet r1)"
    using unat_sub_of_nat [OF ok(1)] by simp
  show ?thesis
  proof (cases more)
    case False
    with r1 show ?thesis by (auto simp: bte_buffer_reader_read_max_def)
  next
    case True
    have "reader_ok (r1\<lparr>r_pos_in_packet := size p\<rparr>)"
      using r1(2) p by (simp add: reader_ok_def)
    moreover have "reader_stream r = take (unat (size p) - unat (r_pos_in_packet r1))
          (drop (unat (r_pos_in_packet r1)) (data p)) @ reader_stream (r1\<lparr>r_pos_in_packet := size p\<rparr>)"
      using r1(3) p by (simp add: reader_stream_def drop_take)
    ultimately show ?thesis
      using True r1(1) p ok n by (simp add: bte_buffer_reader_read_max_def slice_def Let_def)
  qed
qed


section \<open>Writing\<close>

text \<open>
  \<open>writing\<close> is the invariant of the writing loop: the packets left behind are full packets, the
  cursor is in its packet and not in the header. \<open>written\<close> is what has been written so far.
\<close>

fun writing :: "chain \<Rightarrow> chain \<Rightarrow> u16 \<Rightarrow> byte \<Rightarrow> bool" where
  "writing dn pk pos hdr \<longleftrightarrow> list_all (packet_ok hdr) dn \<and> cursor_ok pk pos hdr \<and> unat hdr \<le> unat pos"

fun written :: "chain \<Rightarrow> chain \<Rightarrow> u16 \<Rightarrow> byte \<Rightarrow> mem" where
  "written dn [] pos hdr = concat (map (payload hdr) dn)"
| "written dn (p # ps) pos hdr =
     concat (map (payload hdr) dn) @ drop (unat hdr) (take (unat pos) (data p))"

definition store :: "bte_buffer \<Rightarrow> u16 \<Rightarrow> mem \<Rightarrow> bte_buffer" where
  "store p pos bs = p\<lparr>data := take (unat pos) (data p) @ bs @ drop (unat pos + length bs) (data p)\<rparr>"

lemma store_size [simp]: "size (store p pos bs) = size p" by (simp add: store_def)

lemma store_step:
  assumes "writing dn (p # ps) pos hdr" and "unat pos + length bs \<le> unat (size p)"
  shows "writing dn (store p pos bs # ps) (pos + of_nat (length bs)) hdr"
    and "cursor_stream (store p pos bs # ps) (pos + of_nat (length bs)) hdr =
         drop (length bs) (cursor_stream (p # ps) pos hdr)"
    and "written dn (store p pos bs # ps) (pos + of_nat (length bs)) hdr =
         written dn (p # ps) pos hdr @ bs"
proof -
  have pos: "unat (pos + of_nat (length bs)) = unat pos + length bs"
    using assms(2) u16_unat_less [of "size p"] by (intro unat_add_of_nat) simp
  show "writing dn (store p pos bs # ps) (pos + of_nat (length bs)) hdr"
    "cursor_stream (store p pos bs # ps) (pos + of_nat (length bs)) hdr =
         drop (length bs) (cursor_stream (p # ps) pos hdr)"
    "written dn (store p pos bs # ps) (pos + of_nat (length bs)) hdr =
         written dn (p # ps) pos hdr @ bs"
    using assms pos by (auto simp: store_def drop_take add.commute)
qed

lemma turn_page:
  assumes "writing dn (p # ps) (size p) hdr" and "ps \<noteq> []"
  shows "writing (dn @ [p]) ps (ucast hdr) hdr"
    and "cursor_stream ps (ucast hdr) hdr = cursor_stream (p # ps) (size p) hdr"
    and "written (dn @ [p]) ps (ucast hdr) hdr = written dn (p # ps) (size p) hdr"
  using assms by (cases ps; simp add: packet_ok_def payload_def)+

lemma writer_write_loop_eq:
  assumes "cursor_ok (p # ps) pos hdr" and "sz \<noteq> 0" and n: "n = step_len pos sz (size p)"
    and "unat sz \<le> length src"
  shows "writer_write_loop dn (p # ps) pos hdr src sz =
    (let p' = store p pos (take n src) in
     if n < unat sz then
       (if ps = [] then Some (False, dn, [p'], size p)
        else writer_write_loop (dn @ [p']) ps (ucast hdr) hdr (drop n src) (sz - of_nat n))
     else Some (True, dn, p' # ps, pos + of_nat n))"
proof -
  from assms have pos: "unat pos \<le> unat (size p)" and len: "unat (size p) \<le> length (data p)"
    by simp_all
  note c = step_len_cases [OF pos n]
  have cp: "mem_copy_to (data p) pos src (int n) = Some (data (store p pos (take n src)))"
    using assms(4) c(1,2) len by (simp add: mem_copy_to_def wr_def store_def)
  have "p\<lparr>data := data (store p pos (take n src))\<rparr> = store p pos (take n src)"
    by (simp add: store_def)
  then show ?thesis
    unfolding writer_write_loop.simps Let_def step_len_int [OF pos] n [symmetric]
    using assms(2) cp c(3) step_remaining [of sz pos "size p", folded n] by simp
qed

lemma writer_write_loop_spec:
  assumes "writing dn pk pos hdr" and "unat sz \<le> length src"
  shows "\<exists>dn' pk' pos'. writer_write_loop dn pk pos hdr src sz =
           Some (unat sz \<le> length (cursor_stream pk pos hdr), dn', pk', pos') \<and>
         writing dn' pk' pos' hdr \<and>
         cursor_stream pk' pos' hdr = drop (unat sz) (cursor_stream pk pos hdr) \<and>
         written dn' pk' pos' hdr =
           written dn pk pos hdr @ take (min (unat sz) (length (cursor_stream pk pos hdr))) src"
  using assms
proof (induction pk arbitrary: dn pos sz src)
  case Nil
  then show ?case by simp
next
  case (Cons p ps)
  define n where n: "n = step_len pos sz (size p)"
  define p' where p': "p' = store p pos (take n src)"
  have pos: "unat pos \<le> unat (size p)" "unat (size p) \<le> length (data p)" using Cons.prems by simp_all
  note c = step_len_cases [OF pos(1) n]
  have tl: "length (take n src) = n" using Cons.prems(2) c(2) by simp
  note st = store_step [OF Cons.prems(1), of "take n src", unfolded tl, OF c(1), folded p']
  have room: "length (cursor_stream (p # ps) pos hdr) =
      (unat (size p) - unat pos) + length (concat (map (payload hdr) ps))"
    using pos by simp
  have nroom: "n \<le> length (cursor_stream (p # ps) pos hdr)" using c(1) room by simp
  show ?case
  proof (cases "n < unat sz")
    case False
    then have "n = unat sz" using c(2) by simp
    moreover have "sz = 0 \<Longrightarrow> ?thesis" using Cons.prems by (auto simp: writer_write_loop.simps)
    moreover have "sz \<noteq> 0 \<Longrightarrow> writer_write_loop dn (p # ps) pos hdr src sz =
        Some (True, dn, p' # ps, pos + of_nat n)"
      using writer_write_loop_eq [OF _ _ n, of ps hdr src dn] Cons.prems False
      by (simp add: p' del: cursor_ok.simps)
    ultimately show ?thesis using st nroom by (cases "sz = 0") (auto simp: min_def)
  next
    case True
    then have "sz \<noteq> 0" by auto
    with True have eq: "writer_write_loop dn (p # ps) pos hdr src sz =
       (if ps = [] then Some (False, dn, [p'], size p)
        else writer_write_loop (dn @ [p']) ps (ucast hdr) hdr (drop n src) (sz - of_nat n))"
      using writer_write_loop_eq [OF _ _ n, of ps hdr src dn] Cons.prems
      by (auto simp: p' simp del: cursor_ok.simps)
    note st' = st [unfolded c(3) [OF True]]
    have sz': "unat (sz - of_nat n) = unat sz - n" by (simp add: n unat_sz_step)
    show ?thesis
    proof (cases "ps = []")
      case True': True
      have "n = length (cursor_stream (p # ps) pos hdr)" using True True' room by (simp add: n step_len_def)
      then show ?thesis using eq True True' st' by simp
    next
      case False
      have "size p' = size p" by (simp add: p')
      note tp = turn_page [OF _ False, of dn p' hdr, unfolded this, OF st'(1)]
      have "unat (sz - of_nat n) \<le> length (drop n src)" using Cons.prems(2) by (simp add: sz')
      note IH = Cons.IH [OF tp(1) this, unfolded tp(2,3) st'(2,3) sz']
      have tk: "take n src @ take (min (unat sz - n) (m - n)) (drop n src) = take (min (unat sz) m) src"
        if "n \<le> m" for m
        using True that by (simp flip: take_add add: min_def) 
      have le: "unat sz - n \<le> m - n \<longleftrightarrow> unat sz \<le> m" if "n \<le> m" for m
        using True that by arith
      have "unat sz - n + n = unat sz" using True by simp
      with eq False IH show ?thesis
        by (simp only: if_False append_assoc length_drop tk [OF nroom] le [OF nroom] drop_drop)
    qed
  qed
qed


definition writer_ok :: "bte_buffer_writer \<Rightarrow> bool" where
  "writer_ok w \<longleftrightarrow> writing (w_done w) (w_packet w) (w_pos_in_packet w) (w_header_size w)"

definition writer_room :: "bte_buffer_writer \<Rightarrow> nat" where
  "writer_room w = length (cursor_stream (w_packet w) (w_pos_in_packet w) (w_header_size w))"

definition writer_out :: "bte_buffer_writer \<Rightarrow> mem" where
  "writer_out w = written (w_done w) (w_packet w) (w_pos_in_packet w) (w_header_size w)"

lemma writer_write_spec:
  assumes "writer_ok w" and "unat sz \<le> length src"
  shows "\<exists>w'. bte_buffer_writer_write w src sz = Some (unat sz \<le> writer_room w, w') \<and> writer_ok w' \<and>
     w_header_size w' = w_header_size w \<and> writer_room w' = writer_room w - unat sz \<and>
     writer_out w' = writer_out w @ take (min (unat sz) (writer_room w)) src"
proof -
  from writer_write_loop_spec [OF assms(1) [unfolded writer_ok_def] assms(2)]
  show ?thesis
    unfolding bte_buffer_writer_write_def
    by (fastforce simp: writer_ok_def writer_room_def writer_out_def
        simp del: cursor_stream.simps written.simps writing.simps cursor_ok.simps)
qed

lemma writer_next_if_full_ok:
  assumes "writer_ok w"
  shows "\<exists>more w1. writer_next_if_full w = Some (more, w1) \<and> writer_ok w1 \<and>
     writer_out w1 = writer_out w \<and> writer_room w1 = writer_room w \<and> w_packet w1 \<noteq> [] \<and>
     (\<not> more \<longrightarrow> writer_room w = 0)"
proof (cases "w_packet w")
  case Nil
  with assms show ?thesis by (simp add: writer_ok_def)
next
  case (Cons p ps)
  show ?thesis
  proof (cases "w_pos_in_packet w \<ge> size p \<and> ps \<noteq> []")
    case True
    then have "w_pos_in_packet w = size p"
      using assms Cons by (simp add: writer_ok_def word_le_nat_alt word_unat_eq_iff)
    with True Cons assms turn_page [of "w_done w" p ps "w_header_size w"] show ?thesis
      by (auto simp: writer_ok_def writer_out_def writer_room_def
          simp del: cursor_stream.simps written.simps writing.simps)
  next
    case False
    with Cons assms show ?thesis
      by (auto simp: writer_ok_def writer_out_def writer_room_def word_le_nat_alt)
  qed
qed

text \<open>
  \<^verbatim>\<open>bte_buffer_writer_ptr_n\<close> and a store of the requested length through the pointer it returns
  write as \<^verbatim>\<open>bte_buffer_writer_write\<close> would.
\<close>

lemma writer_ptr_n_spec:
  assumes "writer_ok w" and "length bs = unat sz"
  shows "\<exists>ptr w1. bte_buffer_writer_ptr_n w sz = Some (ptr, w1) \<and>
     (case ptr of None \<Rightarrow> writer_ok w1 \<and> writer_out w1 = writer_out w \<and> writer_room w1 = writer_room w
      | Some off \<Rightarrow> \<exists>w2. writer_poke w1 off bs = Some w2 \<and> writer_ok w2 \<and>
          writer_out w2 = writer_out w @ bs \<and> writer_room w2 + unat sz = writer_room w)"
proof -
  obtain more w1 where w1: "writer_next_if_full w = Some (more, w1)" "writer_ok w1"
      "writer_out w1 = writer_out w" "writer_room w1 = writer_room w" "w_packet w1 \<noteq> []"
    using writer_next_if_full_ok [OF assms(1)] by blast
  obtain p ps where p: "w_packet w1 = p # ps" using w1(5) by (cases "w_packet w1") auto
  have ok: "writing (w_done w1) (p # ps) (w_pos_in_packet w1) (w_header_size w1)"
    using w1(2) p by (simp add: writer_ok_def)
  have gt: "uint sz > uint (size p) - uint (w_pos_in_packet w1) \<longleftrightarrow>
            \<not> unat (w_pos_in_packet w1) + unat sz \<le> unat (size p)"
    by (simp add: uint_nat del: of_nat_unat) linarith
  show ?thesis
  proof (cases "more \<and> unat (w_pos_in_packet w1) + unat sz \<le> unat (size p)")
    case False
    with w1 p gt show ?thesis by (auto simp: bte_buffer_writer_ptr_n_def)
  next
    case True
    then have fits: "unat (w_pos_in_packet w1) + length bs \<le> unat (size p)" using assms(2) by simp
    have sz: "of_nat (length bs) = sz" by (simp add: assms(2))
    note st = store_step [OF ok fits, unfolded sz]
    note adv = cursor_advance [OF conjunct1 [OF conjunct2 [OF ok [unfolded writing.simps]]] fits]
    have "writer_poke (w1\<lparr>w_pos_in_packet := w_pos_in_packet w1 + sz\<rparr>) (unat (w_pos_in_packet w1)) bs =
        Some (w1\<lparr>w_packet := store p (w_pos_in_packet w1) bs # ps,
                 w_pos_in_packet := w_pos_in_packet w1 + sz\<rparr>)"
      using p fits ok by (simp add: wr_def store_def)
    moreover have "bte_buffer_writer_ptr_n w sz = Some (Some (unat (w_pos_in_packet w1)),
        w1\<lparr>w_pos_in_packet := w_pos_in_packet w1 + sz\<rparr>)"
      using True w1(1) p gt by (simp add: bte_buffer_writer_ptr_n_def)
    ultimately show ?thesis
      using st adv(3) w1(3,4) p assms(2)
      by (simp add: writer_ok_def writer_out_def writer_room_def
          del: cursor_stream.simps written.simps writing.simps writer_poke.simps)
  qed
qed

text \<open>
  \<^verbatim>\<open>bte_buffer_writer_end\<close> ends the current packet at the cursor. The packets after it stay in
  the chain, with the sizes they had: a reader finds what was written, followed by their payload.
\<close>

lemma total_fold: "foldl (\<lambda>t b. t + size b) t c = t + (\<Sum>p\<leftarrow>c. size p)"
  by (induction c arbitrary: t) (simp_all add: add.assoc)

lemma writer_end_spec:
  assumes "writer_ok w"
  shows "\<exists>c. bte_buffer_writer_end w = Some c \<and> list_all (packet_ok (w_header_size w)) c \<and>
     length c = length (writer_chain w) \<and>
     concat (map (payload (w_header_size w)) c) =
       writer_out w @ concat (map (payload (w_header_size w)) (tl (w_packet w))) \<and>
     total_size (hd c) = (\<Sum>p\<leftarrow>take (Suc (length (w_done w))) c. size p)"
proof -
  obtain p ps where p: "w_packet w = p # ps" using assms by (cases "w_packet w") (auto simp: writer_ok_def)
  have ok: "writing (w_done w) (p # ps) (w_pos_in_packet w) (w_header_size w)"
    using assms p by (simp add: writer_ok_def)
  define c where c: "c = w_done w @ p\<lparr>size := w_pos_in_packet w\<rparr> # ps"
  have "list_all (packet_ok (w_header_size w)) c"
    using ok by (auto simp: c packet_ok_def list.pred_set)
  moreover have "concat (map (payload (w_header_size w)) c) =
       writer_out w @ concat (map (payload (w_header_size w)) ps)"
    using p by (simp add: c writer_out_def payload_def)
  ultimately show ?thesis using p
    by (cases "w_done w") (auto simp: c total_fold writer_chain_def packet_ok_def payload_def)
qed

section \<open>The interface the protocol layers rely on\<close>

text \<open>
  \<open>byte_source\<close> is what a client of the reader knows: a stream of bytes, and a read that takes
  a prefix of it. \<open>byte_sink\<close> is what a client of the writer knows. \<open>byte_channel\<close> adds that
  what was written into a sink that is then closed is a prefix of what is read from it.
\<close>

locale byte_source =
  fixes rd :: "'r \<Rightarrow> u16 \<Rightarrow> (mem \<times> u16 \<times> 'r) option"
    and src_ok :: "'r \<Rightarrow> bool"
    and stream :: "'r \<Rightarrow> mem"
  assumes rd_law: "src_ok r \<Longrightarrow> \<exists>r'. rd r n = Some (take (unat n) (stream r),
        of_nat (min (unat n) (length (stream r))), r') \<and> src_ok r' \<and> stream r' = drop (unat n) (stream r)"
begin

lemma rd_twice:
  assumes "src_ok r" and "unat n + unat m < 65536"
  shows "\<exists>b1 k1 r1 b2 k2 r2. rd r n = Some (b1, k1, r1) \<and> rd r1 m = Some (b2, k2, r2) \<and>
     b1 @ b2 = take (unat (n + m)) (stream r) \<and> stream r2 = drop (unat (n + m)) (stream r)"
proof -
  have nm: "unat (n + m) = unat n + unat m" using assms(2) unat_add_of_nat [of n "unat m"] by simp
  have sw: "unat m + unat n = unat n + unat m" by simp
  obtain r1 where r1: "rd r n = Some (take (unat n) (stream r), of_nat (min (unat n) (length (stream r))), r1)"
      "src_ok r1" "stream r1 = drop (unat n) (stream r)" using rd_law [OF assms(1)] by blast
  obtain r2 where "rd r1 m = Some (take (unat m) (stream r1), of_nat (min (unat m) (length (stream r1))), r2)"
      "stream r2 = drop (unat m) (stream r1)" using rd_law [OF r1(2)] by blast
  with r1 show ?thesis by (simp add: nm take_add sw)
qed

lemma rd_all:
  assumes "src_ok r" and "length (stream r) \<le> unat n"
  shows "\<exists>r'. rd r n = Some (stream r, of_nat (length (stream r)), r') \<and> src_ok r' \<and> stream r' = []"
  using rd_law [OF assms(1), of n] assms(2) by simp

end

locale byte_sink =
  fixes put :: "'w \<Rightarrow> mem \<Rightarrow> u16 \<Rightarrow> (bool \<times> 'w) option"
    and sink_ok :: "'w \<Rightarrow> bool"
    and out :: "'w \<Rightarrow> mem"
    and room :: "'w \<Rightarrow> nat"
  assumes put_law: "sink_ok w \<Longrightarrow> unat n \<le> length bs \<Longrightarrow>
      \<exists>w'. put w bs n = Some (unat n \<le> room w, w') \<and> sink_ok w' \<and> room w' = room w - unat n \<and>
           out w' = out w @ take (min (unat n) (room w)) bs"
begin

lemma put_fits:
  assumes "sink_ok w" and "length bs = unat n" and "unat n \<le> room w"
  shows "\<exists>w'. put w bs n = Some (True, w') \<and> sink_ok w' \<and> room w' = room w - length bs \<and>
              out w' = out w @ bs"
  using put_law [OF assms(1), of n bs] assms(2,3) by (auto simp: min_def)

end

locale byte_channel = byte_source rd src_ok stream + byte_sink put sink_ok out room
  for rd :: "'r \<Rightarrow> u16 \<Rightarrow> (mem \<times> u16 \<times> 'r) option" and src_ok stream
    and put :: "'w \<Rightarrow> mem \<Rightarrow> u16 \<Rightarrow> (bool \<times> 'w) option" and sink_ok out room +
  fixes close :: "'w \<Rightarrow> 'r option"
  assumes close_law: "sink_ok w \<Longrightarrow> \<exists>r rest. close w = Some r \<and> src_ok r \<and> stream r = out w @ rest"
begin

text \<open>Two writes that fit, closing, and one read of the written length give the data back.\<close>

lemma put_put_read:
  assumes "sink_ok w" and "out w = []" and "length b1 = unat n1" and "length b2 = unat n2"
    and "unat n1 + unat n2 \<le> room w" and "unat n1 + unat n2 < 65536"
  shows "\<exists>w1 w2 r k r'. put w b1 n1 = Some (True, w1) \<and> put w1 b2 n2 = Some (True, w2) \<and>
     close w2 = Some r \<and> rd r (n1 + n2) = Some (b1 @ b2, k, r') \<and> k = n1 + n2"
proof -
  have nm: "unat (n1 + n2) = unat n1 + unat n2"
    using assms(6) unat_add_of_nat [of n1 "unat n2"] by simp
  obtain w1 where w1: "put w b1 n1 = Some (True, w1)" "sink_ok w1" "room w1 = room w - length b1"
      "out w1 = out w @ b1" using put_fits [OF assms(1,3)] assms(5) by auto
  have "unat n2 \<le> room w1" using assms(3,5) w1(3) by simp
  then obtain w2 where w2: "put w1 b2 n2 = Some (True, w2)" "sink_ok w2" "out w2 = out w1 @ b2"
    using put_fits [OF w1(2) assms(4)] by blast
  obtain r rest where r: "close w2 = Some r" "src_ok r" "stream r = out w2 @ rest"
    using close_law [OF w2(2)] by blast
  then have st: "stream r = b1 @ b2 @ rest" using assms(2) w1(4) w2(3) by simp
  obtain r' where "rd r (n1 + n2) = Some (b1 @ b2, of_nat (unat n1 + unat n2), r')"
    using rd_law [OF r(2), of "n1 + n2"] assms(3,4) by (auto simp: nm st)
  moreover have "of_nat (unat n1 + unat n2) = n1 + n2" by (simp add: nm [symmetric] del: of_nat_add)
  ultimately show ?thesis using w1(1) w2(1) r(1) by simp
qed

end

text \<open>Closing a writer: end it, and open a reader with the same header size on the chain.\<close>

definition writer_to_reader :: "bte_buffer_writer \<Rightarrow> bte_buffer_reader option" where
  "writer_to_reader w =
     do { c \<leftarrow> bte_buffer_writer_end w;
          Some (bte_buffer_reader_set_header_size (bte_buffer_reader_init c) (w_header_size w)) }"

lemma reader_open:
  assumes "list_all (packet_ok hdr) c" and "c \<noteq> []"
  shows "reader_ok (bte_buffer_reader_set_header_size (bte_buffer_reader_init c) hdr)"
    and "reader_stream (bte_buffer_reader_set_header_size (bte_buffer_reader_init c) hdr) =
         concat (map (payload hdr) c)"
  using assms by (cases c; simp add: reader_ok_def reader_stream_def bte_buffer_reader_init_def
      bte_buffer_reader_set_header_size_def packet_ok_def payload_def)+

lemma writer_open:
  assumes "list_all (packet_ok hdr) c" and "c \<noteq> []"
  shows "writer_ok (bte_buffer_writer_set_header_size (bte_buffer_writer_init c) hdr)"
    and "writer_out (bte_buffer_writer_set_header_size (bte_buffer_writer_init c) hdr) = []"
    and "writer_room (bte_buffer_writer_set_header_size (bte_buffer_writer_init c) hdr) =
         length (concat (map (payload hdr) c))"
  using assms by (cases c; simp add: writer_ok_def writer_out_def writer_room_def
      bte_buffer_writer_init_def bte_buffer_writer_set_header_size_def packet_ok_def payload_def)+

interpretation bte_src: byte_source "bte_buffer_reader_read True" reader_ok reader_stream
proof
  show "reader_ok r \<Longrightarrow> \<exists>r'. bte_buffer_reader_read True r n = Some (take (unat n) (reader_stream r),
      of_nat (min (unat n) (length (reader_stream r))), r') \<and> reader_ok r' \<and>
      reader_stream r' = drop (unat n) (reader_stream r)" for r n
    using reader_read_spec [of r True n] by simp
qed

interpretation bte_snk: byte_sink bte_buffer_writer_write writer_ok writer_out writer_room
  by unfold_locales (use writer_write_spec in blast)

interpretation bte_chan: byte_channel "bte_buffer_reader_read True" reader_ok reader_stream
  bte_buffer_writer_write writer_ok writer_out writer_room writer_to_reader
proof
  fix w assume "writer_ok w"
  then obtain c where "bte_buffer_writer_end w = Some c" "list_all (packet_ok (w_header_size w)) c"
      "length c = length (writer_chain w)"
      "concat (map (payload (w_header_size w)) c) =
        writer_out w @ concat (map (payload (w_header_size w)) (tl (w_packet w)))"
    using writer_end_spec by blast
  moreover from this have "c \<noteq> []" using \<open>writer_ok w\<close>
    by (cases "w_packet w") (auto simp: writer_chain_def writer_ok_def)
  ultimately show "\<exists>r rest. writer_to_reader w = Some r \<and> reader_ok r \<and> reader_stream r = writer_out w @ rest"
    by (simp add: writer_to_reader_def reader_open)
qed

section \<open>Allocation\<close>

lemma alloc_contiguous_ok:
  assumes "unat sz + sizeof_BteBuffer < 65536"
  shows "bte_buffer_alloc_contiguous junk sz =
     Some \<lparr>ref_count = 1, total_size = sz, size = sz,
           data = map (\<lambda>i. junk (i + sizeof_BteBuffer)) [0..<unat sz]\<rparr>"
proof -
  have "unat (of_nat (sizeof_BteBuffer + unat sz) :: u16) = sizeof_BteBuffer + unat sz"
    unfolding unat_of_nat using assms by simp
  moreover have "drop sizeof_BteBuffer (map junk [0..<sizeof_BteBuffer + unat sz]) =
      map (\<lambda>i. junk (i + sizeof_BteBuffer)) [0..<unat sz]"
    by (rule nth_equalityI) (simp_all add: add.commute)
  ultimately show ?thesis
    by (simp add: bte_buffer_alloc_contiguous_def bte_buffer_malloc_def Let_def)
qed

lemma alloc_contiguous_overflow:
  assumes "65536 \<le> unat sz + sizeof_BteBuffer"
  shows "bte_buffer_alloc_contiguous junk sz = None"
proof -
  have "unat (of_nat (sizeof_BteBuffer + unat sz) :: u16) = (sizeof_BteBuffer + unat sz) mod 65536"
    unfolding unat_of_nat by simp
  also have "\<dots> = sizeof_BteBuffer + unat sz - 65536"
    using assms u16_unat_less [of sz] by (simp add: sizeof_BteBuffer_def mod_if)
  finally show ?thesis
    using u16_unat_less [of sz]
    by (simp add: bte_buffer_alloc_contiguous_def bte_buffer_malloc_def Let_def sizeof_BteBuffer_def)
qed

definition block_sizes :: "nat \<Rightarrow> nat \<Rightarrow> nat list" where
  "block_sizes n b = replicate (n div b) b @ (if n mod b = 0 then [] else [n mod b])"

lemma block_sizes_step: "0 < b \<Longrightarrow> b < n \<Longrightarrow> block_sizes n b = b # block_sizes (n - b) b"
  by (simp add: block_sizes_def le_div_geq le_mod_geq)

lemma block_sizes_last: "0 < n \<Longrightarrow> n \<le> b \<Longrightarrow> block_sizes n b = [n]"
  by (cases "n = b") (auto simp: block_sizes_def)

lemma block_sizes_0 [simp]: "block_sizes 0 b = []"
  by (simp add: block_sizes_def)

lemma block_sizes_sum: "0 < b \<Longrightarrow> sum_list (block_sizes n b) = n"
  using div_mult_mod_eq [of n b] by (auto simp: block_sizes_def sum_list_replicate)

definition fresh_packet :: "u16 \<Rightarrow> bte_buffer \<Rightarrow> bool" where
  "fresh_packet tot p \<longleftrightarrow> ref_count p = 1 \<and> total_size p = tot \<and> length (data p) = unat (size p)"

lemma alloc_loop_ok:
  assumes "0 < block" and "unat block + sizeof_BteBuffer < 65536"
  shows "\<exists>c. bte_buffer_alloc_loop junk k sz block rem acc = Some (acc @ c) \<and>
     map (unat \<circ> size) c = block_sizes (unat rem) (unat block) \<and> list_all (fresh_packet sz) c"
proof (induction "unat rem" arbitrary: k rem acc rule: less_induct)
  case less
  let ?n = "if rem > block then block else rem"
  show ?case
  proof (cases "rem = 0")
    case True
    then show ?thesis
      by (intro exI [of _ "[]"]) (simp add: bte_buffer_alloc_loop.simps block_sizes_def)
  next
    case False
    have nle: "unat ?n \<le> unat rem" and "unat ?n + sizeof_BteBuffer < 65536"
      using assms(2) by (auto simp: word_less_nat_alt)
    note al = alloc_contiguous_ok [OF this(2), of "junk k"]
    have npos: "0 < unat ?n" using assms(1) False by (simp add: word_gt_0 unat_gt_0)
    have rem': "unat (rem - ?n) = unat rem - unat ?n"
      using unat_sub_of_nat [OF nle] by simp
    define b where b: "b = \<lparr>ref_count = 1, total_size = sz, size = ?n,
           data = map (\<lambda>i. junk k (i + sizeof_BteBuffer)) [0..<unat ?n]\<rparr>"
    have "unat (rem - ?n) < unat rem" using rem' npos nle by simp
    from less [OF this, of "Suc k" "acc @ [b]"] obtain c where c:
      "bte_buffer_alloc_loop junk (Suc k) sz block (rem - ?n) (acc @ [b]) = Some ((acc @ [b]) @ c)"
      "map (unat \<circ> size) c = block_sizes (unat (rem - ?n)) (unat block)"
      "list_all (fresh_packet sz) c" by blast
    have "bte_buffer_alloc_loop junk k sz block rem acc =
          bte_buffer_alloc_loop junk (Suc k) sz block (rem - ?n) (acc @ [b])"
      using False al by (subst bte_buffer_alloc_loop.simps) (simp add: b Let_def word_gt_0)
    moreover have "unat ?n # block_sizes (unat (rem - ?n)) (unat block) =
        block_sizes (unat rem) (unat block)"
      using assms(1) False rem' by (auto simp: block_sizes_step block_sizes_last word_less_nat_alt
          unat_eq_zero [symmetric] simp del: unat_eq_zero)
    ultimately show ?thesis using c by (intro exI [of _ "b # c"]) (simp add: b fresh_packet_def)
  qed
qed

lemma alloc_loop_diverges:
  assumes "bte_buffer_alloc_loop junk k sz 0 rem acc = Some c"
  shows "rem = 0"
proof -
  have "block = 0 \<longrightarrow> rem = 0" if "bte_buffer_alloc_loop junk k sz block rem acc = Some c" for block
  proof (rule bte_buffer_alloc_loop.raw_induct
      [where P = "\<lambda>junk k sz block rem acc r. block = 0 \<longrightarrow> rem = 0", OF _ that])
    fix f :: "(nat \<Rightarrow> nat \<Rightarrow> byte) \<Rightarrow> nat \<Rightarrow> u16 \<Rightarrow> u16 \<Rightarrow> u16 \<Rightarrow> chain \<Rightarrow> chain option"
      and junk k sz block rem acc r
    assume IH: "\<And>junk k sz block rem acc r. f junk k sz block rem acc = Some r \<Longrightarrow> block = 0 \<longrightarrow> rem = 0"
      and eq: "(if 0 < rem
         then let buffer_size = if block < rem then block else rem
              in case bte_buffer_alloc_contiguous (junk k) buffer_size of None \<Rightarrow> None
                 | Some b \<Rightarrow> f junk (Suc k) sz block (rem - buffer_size) (acc @ [b\<lparr>total_size := sz\<rparr>])
         else Some acc) = Some r"
    show "block = 0 \<longrightarrow> rem = 0"
      using eq by (auto simp: Let_def word_gt_0 split: if_splits option.splits dest!: IH)
  qed
  with assms show ?thesis by blast
qed

section \<open>Shrinking and appending\<close>

definition packet_bytes :: "bte_buffer \<Rightarrow> mem" where
  "packet_bytes p = take (unat (size p)) (data p)"

definition chain_bytes :: "chain \<Rightarrow> mem" where
  "chain_bytes c = concat (map packet_bytes c)"

definition chain_ok :: "chain \<Rightarrow> bool" where
  "chain_ok c \<longleftrightarrow> list_all (\<lambda>p. unat (size p) \<le> length (data p)) c"

lemma chain_simps [simp]:
  "chain_bytes [] = []" "chain_bytes (p # c) = packet_bytes p @ chain_bytes c"
  "chain_bytes (c @ c') = chain_bytes c @ chain_bytes c'"
  "chain_ok []" "chain_ok (p # c) \<longleftrightarrow> unat (size p) \<le> length (data p) \<and> chain_ok c"
  "chain_ok (c @ c') \<longleftrightarrow> chain_ok c \<and> chain_ok c'"
  by (simp_all add: chain_bytes_def chain_ok_def)

lemma packet_bytes_upd [simp]:
  "packet_bytes (p\<lparr>total_size := t\<rparr>) = packet_bytes p"
  "packet_bytes (p\<lparr>ref_count := k\<rparr>) = packet_bytes p"
  by (simp_all add: packet_bytes_def)

lemma shrink_loop_spec:
  "chain_ok c \<Longrightarrow> chain_bytes (bte_buffer_shrink_loop c sz) = take (unat sz) (chain_bytes c) \<and>
     chain_ok (bte_buffer_shrink_loop c sz) \<and>
     length (bte_buffer_shrink_loop c sz) = length c"
proof (induction c arbitrary: sz)
  case Nil
  then show ?case by simp
next
  case (Cons p c)
  let ?m = "if size p > sz then sz else size p"
  have m: "unat ?m \<le> unat sz" "unat ?m = min (unat sz) (unat (size p))" by (auto simp: word_less_nat_alt)
  have "unat (sz - ?m) = unat sz - unat ?m" using unat_sub_of_nat [OF m(1)] by simp
  then show ?case using Cons m
    by (auto simp: packet_bytes_def Let_def word_less_nat_alt min_def)
qed

lemma shrink_spec:
  assumes "chain_ok c" and "c \<noteq> []"
  shows "\<exists>c'. bte_buffer_shrink c sz = Some c' \<and> chain_ok c' \<and> length c' = length c \<and>
     chain_bytes c' = take (unat sz) (chain_bytes c) \<and> total_size (hd c') = sz"
  using assms
proof (cases c)
  case (Cons p ps)
  with assms shrink_loop_spec [of "p\<lparr>total_size := sz\<rparr> # ps" sz] show ?thesis
    by (auto simp: Let_def)
qed simp

lemma append_spec:
  assumes "buffer \<noteq> []"
  shows "\<exists>c. bte_buffer_append hd_chain buffer = Some c \<and>
      chain_bytes c = chain_bytes hd_chain @ chain_bytes buffer \<and>
      length c = length hd_chain + length buffer"
  using assms by (cases hd_chain; cases buffer) auto

definition total_ok :: "chain \<Rightarrow> bool" where
  "total_ok c \<longleftrightarrow> unat (total_size (hd c)) = length (chain_bytes c)"

lemma append_total:
  assumes "total_ok hd_chain" "hd_chain \<noteq> []" "chain_ok [b]" "length (chain_bytes hd_chain) + unat (size b) < 65536"
  shows "\<exists>c. bte_buffer_append hd_chain [b] = Some c \<and> total_ok c"
proof -
  obtain h t where c: "hd_chain = h # t" using assms(2) by (cases hd_chain) auto
  have "unat (total_size h + size b) = unat (total_size h) + unat (size b)"
    using unat_add_of_nat [of "total_size h" "unat (size b)"] assms c by (simp add: total_ok_def)
  with assms c show ?thesis by (simp add: total_ok_def packet_bytes_def)
qed

section \<open>Correctness of the buffers\<close>

lemma reader_read_loop_no_copy:
  "reader_read_loop True pk pos hdr sz tot = Some (bs, rest) \<Longrightarrow>
   reader_read_loop False pk pos hdr sz tot = Some ([], rest)"
proof (induction pk arbitrary: pos sz tot bs rest)
  case Nil
  then show ?case by (simp add: reader_read_loop.simps split: if_splits)
next
  case (Cons p ps)
  show ?case
    using Cons.prems
    by (subst reader_read_loop.simps, subst (asm) reader_read_loop.simps)
       (auto simp: Let_def split: if_splits Option.bind_splits dest: Cons.IH)
qed

text \<open>
  Reading from a buffer. From a reader whose packets are well formed, \<^verbatim>\<open>bte_buffer_reader_read\<close>
  copies out the next \<^verbatim>\<open>size\<close> bytes of the stream (all that are left when there are fewer), skips
  the header of every packet it enters, returns how many it copied, and accesses no byte outside
  the packets; \<^verbatim>\<open>bte_buffer_reader_advance\<close> moves to the same place and returns the same count.
\<close>

theorem bte_buffer_reader_read_correct:
  assumes "reader_ok r"
  shows "\<exists>r' n. bte_buffer_reader_read True r sz = Some (take (unat sz) (reader_stream r), n, r') \<and>
     bte_buffer_reader_advance r sz = Some (n, r') \<and>
     unat n = min (unat sz) (length (reader_stream r)) \<and>
     reader_ok r' \<and> reader_stream r' = drop (unat sz) (reader_stream r)"
proof -
  obtain r' where r': "bte_buffer_reader_read True r sz = Some (take (unat sz) (reader_stream r),
      of_nat (min (unat sz) (length (reader_stream r))), r')" "reader_ok r'"
      "reader_stream r' = drop (unat sz) (reader_stream r)"
    using reader_read_spec [OF assms, of True sz] by auto
  have "bte_buffer_reader_read False r sz =
      Some ([], of_nat (min (unat sz) (length (reader_stream r))), r')"
    using r'(1) by (auto simp: bte_buffer_reader_read_def dest!: reader_read_loop_no_copy
        split: Option.bind_splits)
  moreover have "unat (of_nat (min (unat sz) (length (reader_stream r))) :: u16) =
      min (unat sz) (length (reader_stream r))"
    using unat_add_of_nat [of "0 :: u16" "min (unat sz) (length (reader_stream r))"] u16_unat_less [of sz]
    by simp
  ultimately show ?thesis using r' by (auto simp: bte_buffer_reader_advance_def)
qed

definition demo_chain :: chain where
  "demo_chain = [\<lparr>ref_count = 1, total_size = 6, size = 3, data = [9, 1, 2]\<rparr>,
                 \<lparr>ref_count = 1, total_size = 6, size = 3, data = [9, 3, 4]\<rparr>]"

definition demo_reader :: bte_buffer_reader where
  "demo_reader = bte_buffer_reader_set_header_size (bte_buffer_reader_init demo_chain) 1"

lemma demo_reader_ok: "reader_ok demo_reader"
  by (simp add: demo_reader_def demo_chain_def reader_ok_def bte_buffer_reader_init_def
      bte_buffer_reader_set_header_size_def packet_ok_def)

lemma demo_reader_stream: "reader_stream demo_reader = [1, 2, 3, 4]"
  by (simp add: demo_reader_def demo_chain_def reader_stream_def bte_buffer_reader_init_def
      bte_buffer_reader_set_header_size_def payload_def)

theorem bte_buffer_reader_read_correct_witness:
  "\<exists>r' n. bte_buffer_reader_read True demo_reader 3 = Some ([1, 2, 3], n, r') \<and> unat n = 3 \<and>
     reader_stream r' = [4]"
  using bte_buffer_reader_read_correct [OF demo_reader_ok, of 3]
  by (auto simp: demo_reader_stream)

text \<open>
  Pointers into a packet. \<^verbatim>\<open>bte_buffer_reader_read_n\<close> returns a pointer to the next \<^verbatim>\<open>size\<close>
  bytes of the stream and moves past them, or returns \<^verbatim>\<open>NULL\<close> and loses no byte of the stream;
  \<^verbatim>\<open>bte_buffer_reader_read_max\<close> returns a block at the front of the stream with its length, and
  \<^verbatim>\<open>NULL\<close> only when no byte is left. The bytes pointed to are inside the packet.
\<close>

theorem bte_buffer_reader_pointers_correct:
  assumes "reader_ok r"
  shows "(\<exists>ptr r'. bte_buffer_reader_read_n r sz = Some (ptr, r') \<and> reader_ok r' \<and>
     (case ptr of None \<Rightarrow> reader_stream r' = reader_stream r
      | Some bs \<Rightarrow> unat sz \<le> length (reader_stream r) \<and> bs = take (unat sz) (reader_stream r) \<and>
                   reader_stream r' = drop (unat sz) (reader_stream r))) \<and>
   (\<exists>ptr n r'. bte_buffer_reader_read_max r = Some (ptr, n, r') \<and> reader_ok r' \<and>
     (case ptr of None \<Rightarrow> n = 0 \<and> reader_stream r = [] \<and> reader_stream r' = []
      | Some bs \<Rightarrow> length bs = unat n \<and> reader_stream r = bs @ reader_stream r'))"
  using reader_read_n_spec [OF assms] reader_read_max_spec [OF assms] by blast

theorem bte_buffer_reader_pointers_correct_witness:
  "\<exists>ptr r'. bte_buffer_reader_read_n demo_reader 2 = Some (ptr, r') \<and>
     (case ptr of None \<Rightarrow> reader_stream r' = [1, 2, 3, 4]
      | Some bs \<Rightarrow> bs = [1, 2] \<and> reader_stream r' = [3, 4])"
proof -
  from conjunct1 [OF bte_buffer_reader_pointers_correct [OF demo_reader_ok, of 2]]
  obtain ptr r' where "bte_buffer_reader_read_n demo_reader 2 = Some (ptr, r')"
      "case ptr of None \<Rightarrow> reader_stream r' = [1, 2, 3, 4]
       | Some bs \<Rightarrow> bs = [1, 2] \<and> reader_stream r' = [3, 4]"
    by (auto simp: demo_reader_stream split: option.splits)
  then show ?thesis by blast
qed

text \<open>
  C17: written data is read back. Two writes that fit into a chain of packets with room for their
  headers, \<^verbatim>\<open>bte_buffer_writer_end\<close>, and a read of the written length with the same header size
  return the data, wherever the packet boundaries fall.
\<close>

theorem bte_buffer_write_read_roundtrip:
  assumes "list_all (packet_ok hdr) c" and "c \<noteq> []"
    and "w = bte_buffer_writer_set_header_size (bte_buffer_writer_init c) hdr"
    and "length b1 = unat n1" and "length b2 = unat n2" and "unat n1 + unat n2 < 65536"
    and "unat n1 + unat n2 \<le> length (concat (map (payload hdr) c))"
  shows "\<exists>w1 w2 c' r'. bte_buffer_writer_write w b1 n1 = Some (True, w1) \<and>
     bte_buffer_writer_write w1 b2 n2 = Some (True, w2) \<and>
     bte_buffer_writer_end w2 = Some c' \<and>
     bte_buffer_reader_read True
       (bte_buffer_reader_set_header_size (bte_buffer_reader_init c') hdr) (n1 + n2) =
       Some (b1 @ b2, n1 + n2, r')"
proof -
  note op = writer_open [OF assms(1,2), folded assms(3)]
  obtain w1 w2 r r' where w: "bte_buffer_writer_write w b1 n1 = Some (True, w1)"
     "bte_buffer_writer_write w1 b2 n2 = Some (True, w2)" "writer_to_reader w2 = Some r"
     "bte_buffer_reader_read True r (n1 + n2) = Some (b1 @ b2, n1 + n2, r')"
    using bte_chan.put_put_read [OF op(1,2) assms(4,5)] assms(6,7) op(3) by auto
  have "w_header_size w2 = hdr"
    using w(1,2) assms(3) by (auto simp: bte_buffer_writer_write_def bte_buffer_writer_set_header_size_def
        split: Option.bind_splits)
  with w show ?thesis by (auto simp: writer_to_reader_def split: Option.bind_splits)
qed

theorem bte_buffer_write_read_roundtrip_witness:
  "\<exists>w1 w2 c' r'. bte_buffer_writer_write
       (bte_buffer_writer_set_header_size (bte_buffer_writer_init demo_chain) 1) [7] 1 = Some (True, w1) \<and>
     bte_buffer_writer_write w1 [6, 5] 2 = Some (True, w2) \<and>
     bte_buffer_writer_end w2 = Some c' \<and>
     bte_buffer_reader_read True
       (bte_buffer_reader_set_header_size (bte_buffer_reader_init c') 1) 3 = Some ([7, 6, 5], 3, r')"
  using bte_buffer_write_read_roundtrip [of 1 demo_chain _ "[7]" 1 "[6, 5]" 2, OF _ _ refl]
  by (simp add: demo_chain_def packet_ok_def payload_def)

text \<open>
  C27: allocation. With a block size that is neither 0 nor so large that header and block do not
  fit 16 bits, \<^verbatim>\<open>bte_buffer_alloc\<close> returns a chain of packets of the block size, the last one
  shorter if need be, that together have the requested size, each with one reference and the
  requested total size; with a block size of 0 it does not return (a request for 0 bytes apart).
\<close>

theorem bte_buffer_alloc_correct:
  assumes "unat block + sizeof_BteBuffer < 65536"
  shows "if block = 0 then bte_buffer_alloc junk sz block = (if sz = 0 then Some [] else None)
     else \<exists>c. bte_buffer_alloc junk sz block = Some c \<and>
       map (\<lambda>p. unat (size p)) c = block_sizes (unat sz) (unat block) \<and>
       length (chain_bytes c) = unat sz \<and>
       (\<forall>p \<in> set c. ref_count p = 1 \<and> total_size p = sz \<and> length (data p) = unat (size p))"
proof (cases "block = 0")
  case True
  have "bte_buffer_alloc junk sz 0 = None" if "sz \<noteq> 0"
    using that alloc_loop_diverges [of junk 0 sz sz "[]"]
    by (cases "bte_buffer_alloc junk sz 0") (auto simp: bte_buffer_alloc_def)
  with True show ?thesis by (simp add: bte_buffer_alloc_def bte_buffer_alloc_loop.simps)
next
  case False
  then obtain c where c: "bte_buffer_alloc junk sz block = Some c"
      "map (unat \<circ> size) c = block_sizes (unat sz) (unat block)" "list_all (fresh_packet sz) c"
    using alloc_loop_ok [of block junk 0 sz sz "[]"] assms
    by (auto simp: bte_buffer_alloc_def word_gt_0)
  have "length (chain_bytes c) = sum_list (map (unat \<circ> size) c)"
    using c(3) by (induction c) (auto simp: packet_bytes_def fresh_packet_def)
  also have "\<dots> = unat sz" unfolding c(2) using False by (intro block_sizes_sum) (simp add: unat_gt_0)
  finally show ?thesis
    using c False by (auto simp: fresh_packet_def list.pred_set comp_def)
qed

theorem bte_buffer_alloc_correct_witness:
  "\<exists>c. bte_buffer_alloc (\<lambda>_ _. 0) 5 2 = Some c \<and> map (\<lambda>p. unat (size p)) c = [2, 2, 1]"
proof -
  have "block_sizes 5 2 = [2, 2, 1]" by code_simp
  then show ?thesis
    using bte_buffer_alloc_correct [of 2 "\<lambda>_ _. 0" 5] by (auto simp: sizeof_BteBuffer_def)
qed

text \<open>
  Shrinking keeps exactly the first \<^verbatim>\<open>size\<close> bytes of a chain (all of it when it is shorter), keeps
  every packet inside its memory, and records the new total.
\<close>

theorem bte_buffer_shrink_correct:
  assumes "chain_ok c" and "c \<noteq> []"
  shows "\<exists>c'. bte_buffer_shrink c sz = Some c' \<and> chain_ok c' \<and> length c' = length c \<and>
     chain_bytes c' = take (unat sz) (chain_bytes c) \<and> total_size (hd c') = sz"
  by (rule shrink_spec [OF assms])

theorem bte_buffer_shrink_correct_witness:
  "\<exists>c'. bte_buffer_shrink demo_chain 4 = Some c' \<and> chain_bytes c' = [9, 1, 2, 9] \<and>
     total_size (hd c') = 4"
  using bte_buffer_shrink_correct [of demo_chain 4]
  by (auto simp: demo_chain_def packet_bytes_def)

text \<open>
  Appending one packet. The bytes of the result are the bytes of the chain followed by those
  of the packet, and a total size that was right stays right while the sum fits 16 bits.
\<close>

theorem bte_buffer_append_correct:
  assumes "total_ok c" and "c \<noteq> []" and "chain_ok [b]"
    and "length (chain_bytes c) + unat (size b) < 65536"
  shows "\<exists>c'. bte_buffer_append c [b] = Some c' \<and> total_ok c' \<and>
     chain_bytes c' = chain_bytes c @ packet_bytes b"
  using append_total [OF assms] append_spec [of "[b]" c] by auto

theorem bte_buffer_append_correct_witness:
  "\<exists>c'. bte_buffer_append demo_chain [hd demo_chain] = Some c' \<and> total_ok c' \<and>
     chain_bytes c' = [9, 1, 2, 9, 3, 4, 9, 1, 2]"
  using bte_buffer_append_correct [of demo_chain "hd demo_chain"]
  by (simp add: demo_chain_def packet_bytes_def total_ok_def)

text \<open>
  Appending a chain of several packets adds only the size of its first packet to the total,
  so a total that was right falls short of the bytes in the chain by the rest.
\<close>

theorem bte_buffer_append_total_short:
  assumes "total_ok c" and "c \<noteq> []" and "chain_ok (b # bs)" and "chain_bytes bs \<noteq> []"
    and "length (chain_bytes c) + unat (size b) < 65536"
  shows "\<exists>c'. bte_buffer_append c (b # bs) = Some c' \<and>
     length (chain_bytes c') = unat (total_size (hd c')) + length (chain_bytes bs) \<and> \<not> total_ok c'"
proof -
  obtain h t where c: "c = h # t" using assms(2) by (cases c) auto
  have "unat (total_size h + size b) = unat (total_size h) + unat (size b)"
    using unat_add_of_nat [of "total_size h" "unat (size b)"] assms c by (simp add: total_ok_def)
  with assms c show ?thesis by (simp add: total_ok_def packet_bytes_def)
qed

theorem bte_buffer_append_total_short_witness:
  "\<exists>c'. bte_buffer_append demo_chain demo_chain = Some c' \<and> \<not> total_ok c'"
  using bte_buffer_append_total_short [of demo_chain "hd demo_chain" "tl demo_chain"]
  by (auto simp: demo_chain_def packet_bytes_def total_ok_def)

end
