(* ===== verification/BufferRef.thy ===== *)
theory BufferRef
  imports Prelude
begin

text \<open>
  Reference counting of packet chains (\<^verbatim>\<open>bte_buffer_ref\<close> and \<^verbatim>\<open>bte_buffer_unref\<close> of
  \<^verbatim>\<open>buffer.h\<close>) on an explicit heap, since two chains may share their tail and a packet may be
  freed while it is still linked. An address that is not in the heap is freed or was never
  allocated, and using it is \<open>None\<close>.
\<close>

record 'f ref_packet =
  rp_ref_count :: int
  rp_free_func :: "'f option"
  rp_next :: "nat option"

type_synonym 'f packet_heap = "nat \<Rightarrow> 'f ref_packet option"

text \<open>
  \<open>rel f h b\<close> is the call of the function pointer \<open>f\<close> on the packet \<open>b\<close>: \<^verbatim>\<open>bte_free\<close>, or a
  function of the backend (\<^verbatim>\<open>wii_buffer_free\<close>).
\<close>

type_synonym 'f release = "'f \<Rightarrow> 'f packet_heap \<Rightarrow> nat \<Rightarrow> 'f packet_heap option"

definition bte_free :: "'f release" where
  "bte_free f h b = (if h b = None then None else Some (h(b := None)))"

definition buffer_ref :: "'f packet_heap \<Rightarrow> nat \<Rightarrow> 'f packet_heap option" where
  "buffer_ref h b =
     do { p \<leftarrow> h b; Some (h(b \<mapsto> p\<lparr>rp_ref_count := rp_ref_count p + 1\<rparr>)) }"

partial_function (option) bte_buffer_unref ::
    "'f release \<Rightarrow> 'f packet_heap \<Rightarrow> nat \<Rightarrow> 'f packet_heap option" where
  "bte_buffer_unref rel h b =
     do { p \<leftarrow> h b;
          let h1 = h(b \<mapsto> p\<lparr>rp_ref_count := rp_ref_count p - 1\<rparr>);
          if rp_ref_count p = 1 then
            do { h2 \<leftarrow> (case rp_next p of Some n \<Rightarrow> bte_buffer_unref rel h1 n | None \<Rightarrow> Some h1);
                 case rp_free_func p of Some f \<Rightarrow> rel f h2 b | None \<Rightarrow> Some h2 }
          else Some h1 }"

text \<open>
  \<open>linked h bs\<close>: the heap holds the chain with the addresses \<open>bs\<close>, every packet of it released by
  a function. \<open>unref_chain\<close> says what dropping a reference to the head does to the chain: packets
  with a single reference are freed up to the first shared one, which loses one reference.
\<close>

fun linked :: "'f packet_heap \<Rightarrow> nat list \<Rightarrow> bool" where
  "linked h [] \<longleftrightarrow> True"
| "linked h (b # bs) \<longleftrightarrow>
     (\<exists>p. h b = Some p \<and> rp_free_func p \<noteq> None \<and>
          rp_next p = (case bs of [] \<Rightarrow> None | c # _ \<Rightarrow> Some c)) \<and> linked h bs"

fun unref_chain :: "'f packet_heap \<Rightarrow> nat list \<Rightarrow> 'f packet_heap" where
  "unref_chain h [] = h"
| "unref_chain h (b # bs) =
     (case h b of None \<Rightarrow> h
      | Some p \<Rightarrow> if rp_ref_count p = 1 then (unref_chain h bs)(b := None)
                  else h(b \<mapsto> p\<lparr>rp_ref_count := rp_ref_count p - 1\<rparr>))"

lemma linked_update [simp]: "b \<notin> set bs \<Longrightarrow> linked (h(b := v)) bs = linked h bs"
  by (induction bs) auto

lemma unref_chain_update:
  "b \<notin> set bs \<Longrightarrow> unref_chain (h(b := v)) bs = (unref_chain h bs)(b := v)"
  by (induction bs) (auto simp: fun_upd_twist split: option.splits)

lemma unref_chain_other [simp]: "b \<notin> set bs \<Longrightarrow> unref_chain h bs b = h b"
  by (induction bs) (auto split: option.splits)

lemma unref_linked:
  assumes "linked h (b # bs)" and "distinct (b # bs)"
  shows "bte_buffer_unref bte_free h b = Some (unref_chain h (b # bs))"
  using assms
proof (induction bs arbitrary: h b)
  case Nil
  then show ?case by (subst bte_buffer_unref.simps) (auto simp: bte_free_def)
next
  case (Cons c cs)
  then obtain p where p: "h b = Some p" "rp_free_func p \<noteq> None" "rp_next p = Some c" by auto
  let ?h1 = "h(b \<mapsto> p\<lparr>rp_ref_count := rp_ref_count p - 1\<rparr>)"
  have "bte_buffer_unref bte_free ?h1 c = Some (unref_chain ?h1 (c # cs))"
  proof (rule Cons.IH)
    show "linked ?h1 (c # cs)" using Cons.prems linked_update [of b "c # cs" h] by auto
    show "distinct (c # cs)" using Cons.prems by simp
  qed
  moreover have "unref_chain ?h1 (c # cs) = (unref_chain h (c # cs))(b := ?h1 b)"
    using Cons.prems unref_chain_update [of b "c # cs" h "?h1 b"] by simp
  ultimately show ?case
    using p by (subst bte_buffer_unref.simps) (auto simp: bte_free_def simp del: unref_chain.simps(2)
        simp: unref_chain.simps(2) [of h b])
qed

text \<open>
  Releasing a chain. When every packet has one reference, \<^verbatim>\<open>bte_buffer_unref\<close> of the head ends,
  frees exactly the packets of the chain, each once, and leaves the rest of the heap as it was;
  when a packet is shared, the packets before it are freed and it loses one reference, with
  everything after it untouched.
\<close>

theorem bte_buffer_unref_chain_correct:
  assumes "linked h (priv @ rest)" and "distinct (priv @ rest)" and "priv @ rest = b # bs"
    and "\<forall>a \<in> set priv. map_option rp_ref_count (h a) = Some 1"
    and "rest = s # shared \<longrightarrow> map_option rp_ref_count (h s) \<noteq> Some 1"
    and "rest = [] \<or> rest = s # shared"
  shows "\<exists>h'. bte_buffer_unref bte_free h b = Some h' \<and>
     (\<forall>a. h' a = (if a \<in> set priv then None
                  else if rest = s # shared \<and> a = s
                  then map_option (\<lambda>p. p\<lparr>rp_ref_count := rp_ref_count p - 1\<rparr>) (h a)
                  else h a))"
proof -
  have "unref_chain h (priv @ rest) a = (if a \<in> set priv then None
                  else if rest = s # shared \<and> a = s
                  then map_option (\<lambda>p. p\<lparr>rp_ref_count := rp_ref_count p - 1\<rparr>) (h a) else h a)" for a
    using assms(1,2,4)
  proof (induction priv)
    case Nil
    with assms(5,6) show ?case by (auto split: option.splits)
  next
    case (Cons x xs)
    then show ?case by (auto split: option.splits)
  qed
  with unref_linked [of h b bs] assms(1-3) show ?thesis by auto
qed

definition demo_packet_heap :: "unit packet_heap" where
  "demo_packet_heap = [1 \<mapsto> \<lparr>rp_ref_count = 1, rp_free_func = Some (), rp_next = Some 2\<rparr>,
                       2 \<mapsto> \<lparr>rp_ref_count = 2, rp_free_func = Some (), rp_next = None\<rparr>]"

theorem bte_buffer_unref_chain_correct_witness:
  "\<exists>h'. bte_buffer_unref bte_free demo_packet_heap 1 = Some h' \<and> h' 1 = None \<and>
     map_option rp_ref_count (h' 2) = Some 1"
  using bte_buffer_unref_chain_correct [of demo_packet_heap "[1]" "[2]" 1 "[2]" 2 "[]"]
  by (auto simp: demo_packet_heap_def)

text \<open>
  A reference taken and dropped again changes nothing, and a packet that is referenced twice
  is not freed by the first \<^verbatim>\<open>bte_buffer_unref\<close>.
\<close>

theorem bte_buffer_ref_unref:
  assumes "h b = Some p" and "rp_ref_count p \<ge> 1"
  shows "\<exists>h1. buffer_ref h b = Some h1 \<and> bte_buffer_unref rel h1 b = Some h"
  using assms by (auto simp: buffer_ref_def bte_buffer_unref.simps)

theorem bte_buffer_ref_unref_witness:
  "\<exists>h1. buffer_ref demo_packet_heap 1 = Some h1 \<and> bte_buffer_unref bte_free h1 1 = Some demo_packet_heap"
  using bte_buffer_ref_unref [of demo_packet_heap 1] by (auto simp: demo_packet_heap_def)

end
