(* ===== verification/DataMatcher.thy ===== *)
theory DataMatcher
  imports Prelude
begin

text \<open>
  The packet matcher of \<^verbatim>\<open>data_matcher.h\<close>: up to 16 bytes that hold rules, each an offset, a
  length and the bytes expected there. A pointer into \<^verbatim>\<open>matcher->bytes\<close> is its offset, and an
  access outside the array is \<open>None\<close>. The rules are the abstract value of a matcher, and the
  locale \<open>packet_matcher\<close> is what the HCI layer relies on.
\<close>

definition BTE_DATA_MATCHER_MAX_LEN :: nat where
  "BTE_DATA_MATCHER_MAX_LEN = 16"

record data_matcher =
  num_rules :: byte
  bytes :: mem

definition bte_data_matcher_init :: "data_matcher \<Rightarrow> data_matcher" where
  "bte_data_matcher_init m = m\<lparr>num_rules := 0\<rparr>"

definition bte_data_matcher_is_empty :: "data_matcher \<Rightarrow> bool" where
  "bte_data_matcher_is_empty m \<longleftrightarrow> num_rules m = 0"

text \<open>\<^verbatim>\<open>memcpy\<close> of the whole structure into \<^verbatim>\<open>dest\<close>.\<close>

definition bte_data_matcher_copy :: "data_matcher \<Rightarrow> data_matcher \<Rightarrow> data_matcher" where
  "bte_data_matcher_copy dest src = dest\<lparr>num_rules := num_rules src, bytes := bytes src\<rparr>"

fun matcher_skip :: "nat \<Rightarrow> mem \<Rightarrow> nat \<Rightarrow> nat option" where
  "matcher_skip 0 bs ptr = Some ptr"
| "matcher_skip (Suc n) bs ptr =
     do { len \<leftarrow> rd8 bs (ptr + 1); matcher_skip n bs (ptr + (2 + unat len)) }"

definition bte_data_matcher_add_rule ::
    "data_matcher \<Rightarrow> mem \<Rightarrow> byte \<Rightarrow> byte \<Rightarrow> (bool \<times> data_matcher) option" where
  "bte_data_matcher_add_rule m d len offset =
     do { ptr \<leftarrow> matcher_skip (unat (num_rules m)) (bytes m) 0;
          if ptr + 2 + unat len > BTE_DATA_MATCHER_MAX_LEN then Some (False, m)
          else do {
            src \<leftarrow> slice d 0 (unat len);
            bs1 \<leftarrow> wr (bytes m) ptr [offset];
            bs2 \<leftarrow> wr bs1 (ptr + 1) [len];
            bs3 \<leftarrow> wr bs2 (ptr + 2) src;
            Some (True, m\<lparr>num_rules := num_rules m + 1, bytes := bs3\<rparr>) } }"

fun matcher_compare_loop :: "nat \<Rightarrow> mem \<Rightarrow> nat \<Rightarrow> mem \<Rightarrow> nat \<Rightarrow> bool option" where
  "matcher_compare_loop 0 bs ptr d data_len = Some True"
| "matcher_compare_loop (Suc n) bs ptr d data_len =
     do { offset \<leftarrow> rd8 bs ptr;
          len \<leftarrow> rd8 bs (ptr + 1);
          if unat offset + unat len > data_len then Some False
          else do {
            want \<leftarrow> slice bs (ptr + 2) (unat len);
            have \<leftarrow> slice d (unat offset) (unat len);
            if want \<noteq> have then Some False
            else matcher_compare_loop n bs (ptr + (2 + unat len)) d data_len } }"

definition bte_data_matcher_compare :: "data_matcher \<Rightarrow> mem \<Rightarrow> nat \<Rightarrow> bool option" where
  "bte_data_matcher_compare m d data_len =
     matcher_compare_loop (unat (num_rules m)) (bytes m) 0 d data_len"

fun matcher_same_loop :: "nat \<Rightarrow> mem \<Rightarrow> mem \<Rightarrow> nat \<Rightarrow> nat \<Rightarrow> bool option" where
  "matcher_same_loop 0 a b pa pb = Some True"
| "matcher_same_loop (Suc n) a b pa pb =
     do { oa \<leftarrow> rd8 a pa; ob \<leftarrow> rd8 b pb;
          if oa \<noteq> ob then Some False else
          do { la \<leftarrow> rd8 a (pa + 1); lb \<leftarrow> rd8 b (pb + 1);
          if la \<noteq> lb then Some False else
          do { da \<leftarrow> slice a (pa + 2) (unat la);
               db \<leftarrow> slice b (pb + 2) (unat la);
               if da \<noteq> db then Some False
               else matcher_same_loop n a b (pa + (2 + unat la)) (pb + (2 + unat la)) } } }"

definition bte_data_matcher_is_same :: "data_matcher \<Rightarrow> data_matcher \<Rightarrow> bool option" where
  "bte_data_matcher_is_same a b =
     (if num_rules a \<noteq> num_rules b then Some False
      else matcher_same_loop (unat (num_rules a)) (bytes a) (bytes b) 0 0)"

section \<open>A matcher as a list of rules\<close>

type_synonym rule = "byte \<times> mem"

fun encode_rule :: "rule \<Rightarrow> mem" where
  "encode_rule (offset, d) = offset # of_nat (length d) # d"

definition encode_rules :: "rule list \<Rightarrow> mem" where
  "encode_rules rs = concat (map encode_rule rs)"

fun rule_matches :: "mem \<Rightarrow> rule \<Rightarrow> bool" where
  "rule_matches pkt (offset, d) \<longleftrightarrow>
     unat offset + length d \<le> length pkt \<and> take (length d) (drop (unat offset) pkt) = d"

definition represents :: "data_matcher \<Rightarrow> rule list \<Rightarrow> bool" where
  "represents m rs \<longleftrightarrow> length (bytes m) = BTE_DATA_MATCHER_MAX_LEN \<and>
     unat (num_rules m) = length rs \<and> (\<exists>rest. bytes m = encode_rules rs @ rest)"

lemma encode_rules_simps [simp]:
  "encode_rules [] = []" "encode_rules (r # rs) = encode_rule r @ encode_rules rs"
  "encode_rules (rs @ rs') = encode_rules rs @ encode_rules rs'"
  by (simp_all add: encode_rules_def)

lemma encode_rules_small:
  assumes "represents m rs" shows "length (encode_rules rs) \<le> 16" and "2 * length rs \<le> 16"
    and "(offset, d) \<in> set rs \<Longrightarrow> length d < 256"
proof -
  have two: "2 * length rs \<le> length (encode_rules rs)" by (induction rs) auto
  have mem: "(offset, d) \<in> set rs \<Longrightarrow> length d \<le> length (encode_rules rs)" by (induction rs) auto
  obtain rest where "length (encode_rules rs @ rest) = 16"
    using assms by (auto simp: represents_def BTE_DATA_MATCHER_MAX_LEN_def)
  then show le: "length (encode_rules rs) \<le> 16" by simp
  with two mem show "2 * length rs \<le> 16" "(offset, d) \<in> set rs \<Longrightarrow> length d < 256" by auto
qed

definition rules_fit :: "rule list \<Rightarrow> bool" where
  "rules_fit rs \<longleftrightarrow> (\<forall>(offset, d) \<in> set rs. length d < 256)"

lemma rules_fit_Cons [simp]: "rules_fit ((offset, d) # rs) \<longleftrightarrow> length d < 256 \<and> rules_fit rs"
  by (simp add: rules_fit_def)

lemma represents_fit: "represents m rs \<Longrightarrow> rules_fit rs"
  using encode_rules_small(3) by (auto simp: rules_fit_def)

lemma unat_len_byte: "n < 256 \<Longrightarrow> unat (of_nat n :: byte) = n"
  using unat_add_of_nat [of "0 :: byte" n] by simp

lemma rule_at:
  assumes "length d < 256"
  shows "rd8 (pre @ encode_rule (offset, d) @ post) (length pre) = Some offset"
    and "rd8 (pre @ encode_rule (offset, d) @ post) (Suc (length pre)) = Some (of_nat (length d))"
    and "slice (pre @ encode_rule (offset, d) @ post) (Suc (Suc (length pre))) (length d) = Some d"
  using unat_len_byte [OF assms] by (auto simp: rd8_def slice_def nth_append)

lemma matcher_skip_rules:
  "rules_fit rs \<Longrightarrow> matcher_skip (length rs) (pre @ encode_rules rs @ post) (length pre) =
     Some (length pre + length (encode_rules rs))"
proof (induction rs arbitrary: pre)
  case (Cons r rs)
  obtain offset d where r: "r = (offset, d)" by fastforce
  have d: "length d < 256" using Cons.prems by (simp add: r)
  show ?case
    using Cons.IH [of "pre @ encode_rule r"] Cons.prems
      rule_at [OF d, of pre offset "encode_rules rs @ post"] by (simp add: r unat_len_byte)
qed simp

lemma rule_matches_take:
  "n \<le> length pkt \<Longrightarrow> rule_matches (take n pkt) (offset, d) \<longleftrightarrow>
     unat offset + length d \<le> n \<and> take (length d) (drop (unat offset) pkt) = d"
  by (auto simp: drop_take min_def)

lemma matcher_compare_rules:
  "rules_fit rs \<Longrightarrow> n \<le> length pkt \<Longrightarrow>
   matcher_compare_loop (length rs) (pre @ encode_rules rs @ post) (length pre) pkt n =
     Some (list_all (rule_matches (take n pkt)) rs)"
proof (induction rs arbitrary: pre)
  case (Cons r rs)
  obtain offset d where r: "r = (offset, d)" by fastforce
  have d: "length d < 256" using Cons.prems by (simp add: r)
  show ?case
    using Cons.IH [of "pre @ encode_rule r"] Cons.prems
      rule_at [OF d, of pre offset "encode_rules rs @ post"]
    by (auto simp: r slice_def unat_len_byte rule_matches_take simp del: rule_matches.simps)
qed simp

lemma matcher_same_rules:
  "rules_fit rs \<Longrightarrow> rules_fit rs' \<Longrightarrow> length rs = length rs' \<Longrightarrow>
   matcher_same_loop (length rs) (pre @ encode_rules rs @ post) (pre' @ encode_rules rs' @ post')
     (length pre) (length pre') = Some (rs = rs')"
proof (induction rs arbitrary: pre pre' rs')
  case (Cons r rs)
  obtain offset d where r: "r = (offset, d)" by fastforce
  obtain offset' d' rs1 where rs': "rs' = (offset', d') # rs1"
    using Cons.prems(3) by (cases rs') auto
  have d: "length d < 256" and d': "length d' < 256" using Cons.prems by (simp_all add: r rs')
  have len: "(of_nat (length d) :: byte) = of_nat (length d') \<longleftrightarrow> length d = length d'"
    using d d' by (metis unat_len_byte)
  show ?case
    using Cons.IH [of rs1 "pre @ encode_rule r" "pre' @ encode_rule (offset', d')"] Cons.prems len
      rule_at [OF d, of pre offset "encode_rules rs @ post"]
      rule_at [OF d', of pre' offset' "encode_rules rs1 @ post'"]
    by (auto simp: r rs' unat_len_byte)
qed simp

lemma add_rule_spec:
  assumes "represents m rs" and "unat len \<le> length d"
  shows "\<exists>ok m'. bte_data_matcher_add_rule m d len offset = Some (ok, m') \<and>
     (ok \<longleftrightarrow> length (encode_rules rs) + 2 + unat len \<le> BTE_DATA_MATCHER_MAX_LEN) \<and>
     represents m' (if ok then rs @ [(offset, take (unat len) d)] else rs) \<and> (\<not> ok \<longrightarrow> m' = m)"
proof -
  obtain rest where m: "bytes m = encode_rules rs @ rest" "unat (num_rules m) = length rs"
      "length (encode_rules rs) + length rest = 16"
    using assms(1) by (auto simp: represents_def BTE_DATA_MATCHER_MAX_LEN_def)
  have skip: "matcher_skip (unat (num_rules m)) (bytes m) 0 = Some (length (encode_rules rs))"
    using matcher_skip_rules [of rs "[]" rest] represents_fit [OF assms(1)] m by simp
  show ?thesis
  proof (cases "length (encode_rules rs) + 2 + unat len \<le> BTE_DATA_MATCHER_MAX_LEN")
    case False
    with skip assms show ?thesis
      by (intro exI [of _ False] exI [of _ m]) (simp add: bte_data_matcher_add_rule_def)
  next
    case True
    then obtain a b c where "rest = a # b # c"
      using m(3) by (cases rest; cases "tl rest") (auto simp: BTE_DATA_MATCHER_MAX_LEN_def)
    moreover have "unat (num_rules m + 1) = Suc (length rs)"
      using unat_add_of_nat [of "num_rules m" 1] encode_rules_small(2) [OF assms(1)] m(2) by simp
    ultimately show ?thesis using True skip m assms(2)
      by (intro exI [of _ True]) (simp add: bte_data_matcher_add_rule_def slice_def wr_def represents_def
          BTE_DATA_MATCHER_MAX_LEN_def)
  qed
qed

text \<open>The rules of a matcher, read back from its bytes.\<close>

fun decode_rules :: "nat \<Rightarrow> mem \<Rightarrow> rule list" where
  "decode_rules (Suc n) (offset # len # bs) =
     (offset, take (unat len) bs) # decode_rules n (drop (unat len) bs)"
| "decode_rules _ _ = []"

definition matcher_rules :: "data_matcher \<Rightarrow> rule list" where
  "matcher_rules m = decode_rules (unat (num_rules m)) (bytes m)"

lemma decode_encode: "rules_fit rs \<Longrightarrow> decode_rules (length rs) (encode_rules rs @ rest) = rs"
  by (induction rs) (auto simp: unat_len_byte)

lemma represents_rules: "represents m rs \<Longrightarrow> matcher_rules m = rs"
  using represents_fit [of m rs] decode_encode [of rs]
  by (auto simp: represents_def matcher_rules_def)

section \<open>The interface of a matcher\<close>

locale packet_matcher =
  fixes new :: "'m \<Rightarrow> 'm"
    and empty :: "'m \<Rightarrow> bool"
    and copy :: "'m \<Rightarrow> 'm \<Rightarrow> 'm"
    and add :: "'m \<Rightarrow> mem \<Rightarrow> byte \<Rightarrow> byte \<Rightarrow> (bool \<times> 'm) option"
    and compare :: "'m \<Rightarrow> mem \<Rightarrow> nat \<Rightarrow> bool option"
    and same :: "'m \<Rightarrow> 'm \<Rightarrow> bool option"
    and rules :: "'m \<Rightarrow> rule list \<Rightarrow> bool"
    and fresh :: "'m \<Rightarrow> bool"
  assumes new_law: "fresh m \<Longrightarrow> rules (new m) []"
    and empty_law: "rules m rs \<Longrightarrow> empty m \<longleftrightarrow> rs = []"
    and copy_law: "rules m rs \<Longrightarrow> rules (copy m' m) rs"
    and add_law: "rules m rs \<Longrightarrow> unat len \<le> length d \<Longrightarrow>
      \<exists>ok m'. add m d len offset = Some (ok, m') \<and>
        rules m' (if ok then rs @ [(offset, take (unat len) d)] else rs) \<and>
        (ok \<longleftrightarrow> length (encode_rules rs) + 2 + unat len \<le> BTE_DATA_MATCHER_MAX_LEN)"
    and compare_law: "rules m rs \<Longrightarrow> n \<le> length pkt \<Longrightarrow>
      compare m pkt n = Some (list_all (rule_matches (take n pkt)) rs)"
    and same_law: "rules m rs \<Longrightarrow> rules m' rs' \<Longrightarrow> same m m' = Some (rs = rs')"
begin

text \<open>A matcher that gets one more rule accepts the packets it accepted that match the rule too.\<close>

lemma compare_after_add:
  assumes "rules m rs" and "unat len \<le> length d" and "add m d len offset = Some (True, m')"
    and "n \<le> length pkt"
  shows "\<exists>a. compare m pkt n = Some a \<and>
     compare m' pkt n = Some (a \<and> rule_matches (take n pkt) (offset, take (unat len) d))"
proof -
  have "rules m' (rs @ [(offset, take (unat len) d)])"
    using add_law [OF assms(1,2), of offset] assms(3) by auto
  then show ?thesis by (simp add: compare_law [OF assms(1,4)] compare_law [OF _ assms(4)])
qed

text \<open>A fresh matcher with one rule of at most 14 bytes matches exactly the packets with it.\<close>

lemma one_rule:
  assumes "fresh m" and "unat len \<le> length d" and "unat len \<le> 14"
  shows "\<exists>m'. add (new m) d len offset = Some (True, m') \<and> rules m' [(offset, take (unat len) d)] \<and>
     compare m' pkt (length pkt) = Some (rule_matches pkt (offset, take (unat len) d))"
proof -
  obtain m' where "add (new m) d len offset = Some (True, m')" "rules m' [(offset, take (unat len) d)]"
    using add_law [OF new_law [OF assms(1)] assms(2), of offset] assms(3)
    by (auto simp: BTE_DATA_MATCHER_MAX_LEN_def)
  then show ?thesis using compare_law [of m' "[(offset, take (unat len) d)]" "length pkt" pkt] by auto
qed

lemma same_copy: "rules m rs \<Longrightarrow> same (copy m' m) m = Some True"
  using same_law [OF copy_law] by simp

end

definition matcher_storage :: "data_matcher \<Rightarrow> bool" where
  "matcher_storage m \<longleftrightarrow> length (bytes m) = BTE_DATA_MATCHER_MAX_LEN"

lemma compare_spec:
  "represents m rs \<Longrightarrow> n \<le> length pkt \<Longrightarrow>
   bte_data_matcher_compare m pkt n = Some (list_all (rule_matches (take n pkt)) rs)"
  using matcher_compare_rules [of rs n pkt "[]"] represents_fit [of m rs]
  by (auto simp: bte_data_matcher_compare_def represents_def)

lemma same_spec:
  assumes "represents m rs" and "represents m' rs'"
  shows "bte_data_matcher_is_same m m' = Some (rs = rs')"
proof -
  have "num_rules m \<noteq> num_rules m' \<longleftrightarrow> length rs \<noteq> length rs'"
    using assms by (auto simp: represents_def word_unat_eq_iff)
  then show ?thesis
    using assms matcher_same_rules [of rs rs' "[]" _ "[]"]
      represents_fit [OF assms(1)] represents_fit [OF assms(2)]
    by (auto simp: bte_data_matcher_is_same_def represents_def)
qed

interpretation bte_matcher: packet_matcher bte_data_matcher_init bte_data_matcher_is_empty
  bte_data_matcher_copy bte_data_matcher_add_rule bte_data_matcher_compare bte_data_matcher_is_same
  represents matcher_storage
proof
  show "\<exists>ok m'. bte_data_matcher_add_rule m d len offset = Some (ok, m') \<and>
        represents m' (if ok then rs @ [(offset, take (unat len) d)] else rs) \<and>
        (ok \<longleftrightarrow> length (encode_rules rs) + 2 + unat len \<le> BTE_DATA_MATCHER_MAX_LEN)"
    if "represents m rs" "unat len \<le> length d" for m rs len d offset
    using add_rule_spec [OF that, of offset] by blast
qed (auto simp: matcher_storage_def represents_def bte_data_matcher_init_def
       bte_data_matcher_is_empty_def bte_data_matcher_copy_def compare_spec same_spec unat_eq_zero
       simp flip: length_0_conv)

section \<open>Correctness of the matcher\<close>

text \<open>
  C19: the matcher decides its rules. A matcher that stands for a list of rules accepts a packet
  exactly when the packet has, for every rule, the expected bytes at the offset of the rule, and
  two matchers compare as the same exactly when their rules are equal.
\<close>

theorem bte_data_matcher_decides:
  assumes "represents m rs" and "represents m' rs'" and "n \<le> length pkt"
  shows "bte_data_matcher_compare m pkt n =
           Some (\<forall>(offset, d) \<in> set rs. unat offset + length d \<le> n \<and>
                   take (length d) (drop (unat offset) pkt) = d) \<and>
     bte_data_matcher_is_same m m' = Some (rs = rs') \<and>
     (bte_data_matcher_is_empty m \<longleftrightarrow> rs = [])"
  using bte_matcher.compare_law [OF assms(1,3)] bte_matcher.same_law [OF assms(1,2)]
    bte_matcher.empty_law [OF assms(1)] rule_matches_take [OF assms(3)]
  by (auto simp: list_all_iff simp del: rule_matches.simps)

definition demo_matcher :: data_matcher where
  "demo_matcher = \<lparr>num_rules = 1, bytes = [3, 2, 7, 8] @ replicate 12 0\<rparr>"

lemma demo_matcher_rules: "represents demo_matcher [(3, [7, 8])]"
  by (simp add: represents_def demo_matcher_def BTE_DATA_MATCHER_MAX_LEN_def)

theorem bte_data_matcher_decides_witness:
  "bte_data_matcher_compare demo_matcher [0, 0, 0, 7, 8] 5 = Some True"
  using bte_data_matcher_decides [OF demo_matcher_rules demo_matcher_rules, of 5 "[0, 0, 0, 7, 8]"]
  by simp

text \<open>
  Adding a rule. The rule is appended when its bytes fit the 16 bytes of the matcher; otherwise
  \<^verbatim>\<open>false\<close> is returned and the matcher is unchanged. No byte outside the array is written.
\<close>

theorem bte_data_matcher_add_rule_correct:
  assumes "represents m rs" and "unat len \<le> length d"
  shows "\<exists>ok m'. bte_data_matcher_add_rule m d len offset = Some (ok, m') \<and>
     (ok \<longleftrightarrow> length (encode_rules rs) + 2 + unat len \<le> BTE_DATA_MATCHER_MAX_LEN) \<and>
     represents m' (if ok then rs @ [(offset, take (unat len) d)] else rs) \<and> (\<not> ok \<longrightarrow> m' = m)"
  by (rule add_rule_spec [OF assms])

theorem bte_data_matcher_add_rule_correct_witness:
  "\<exists>m'. bte_data_matcher_add_rule demo_matcher [5] 1 9 = Some (True, m') \<and>
     represents m' [(3, [7, 8]), (9, [5])]"
  using bte_data_matcher_add_rule_correct [OF demo_matcher_rules, of 1 "[5]" 9]
  by (auto simp: BTE_DATA_MATCHER_MAX_LEN_def)

end
