(* ===== verification/HciConst.thy ===== *)
theory HciConst
  imports Prelude
begin

text \<open>
  The constants of \<^verbatim>\<open>hci_priv.h\<close>, \<^verbatim>\<open>hci_proto.h\<close>, \<^verbatim>\<open>hci.h\<close>, \<^verbatim>\<open>types.h\<close> and
  \<^verbatim>\<open>internals.h\<close> that the HCI layer uses, at the type of their use: opcode fields and handles are
  16 bits, lengths and codes 8 bits, offsets into a packet natural numbers. They are
  abbreviations, so that proofs see the numbers.
\<close>

section \<open>hci_priv.h: packet layout, opcodes, command lengths and event codes\<close>

abbreviation (input) HCI_CMD_REPLY_POS_HDR_LEN :: nat where "HCI_CMD_REPLY_POS_HDR_LEN \<equiv> 2"
abbreviation (input) HCI_CMD_REPLY_POS_OPCODE :: nat where "HCI_CMD_REPLY_POS_OPCODE \<equiv> 3"
abbreviation (input) HCI_CMD_REPLY_POS_STATUS :: nat where "HCI_CMD_REPLY_POS_STATUS \<equiv> 5"
abbreviation (input) HCI_CMD_REPLY_POS_DATA :: nat where "HCI_CMD_REPLY_POS_DATA \<equiv> 6"
abbreviation (input) HCI_CMD_STATUS_POS_STATUS :: nat where "HCI_CMD_STATUS_POS_STATUS \<equiv> 2"
abbreviation (input) HCI_CMD_STATUS_POS_OPCODE :: nat where "HCI_CMD_STATUS_POS_OPCODE \<equiv> 4"
abbreviation (input) HCI_CMD_EVENT_POS_CODE :: nat where "HCI_CMD_EVENT_POS_CODE \<equiv> 0"
abbreviation (input) HCI_CMD_EVENT_POS_DATA :: nat where "HCI_CMD_EVENT_POS_DATA \<equiv> 2"
abbreviation (input) HCI_CMD_HDR_LEN :: nat where "HCI_CMD_HDR_LEN \<equiv> 3"
abbreviation (input) HCI_LINK_CTRL_OGF :: byte where "HCI_LINK_CTRL_OGF \<equiv> 0x01"
abbreviation (input) HCI_LINK_POLICY_OGF :: byte where "HCI_LINK_POLICY_OGF \<equiv> 0x02"
abbreviation (input) HCI_HC_BB_OGF :: byte where "HCI_HC_BB_OGF \<equiv> 0x03"
abbreviation (input) HCI_INFO_PARAM_OGF :: byte where "HCI_INFO_PARAM_OGF \<equiv> 0x04"
abbreviation (input) HCI_VENDOR_OGF :: byte where "HCI_VENDOR_OGF \<equiv> 0x3F"
abbreviation (input) HCI_INQUIRY_OCF :: u16 where "HCI_INQUIRY_OCF \<equiv> 0x01"
abbreviation (input) HCI_INQUIRY_CANCEL_OCF :: u16 where "HCI_INQUIRY_CANCEL_OCF \<equiv> 0x02"
abbreviation (input) HCI_PERIODIC_INQUIRY_OCF :: u16 where "HCI_PERIODIC_INQUIRY_OCF \<equiv> 0x03"
abbreviation (input) HCI_EXIT_PERIODIC_INQUIRY_OCF :: u16 where "HCI_EXIT_PERIODIC_INQUIRY_OCF \<equiv> 0x04"
abbreviation (input) HCI_CREATE_CONN_OCF :: u16 where "HCI_CREATE_CONN_OCF \<equiv> 0x05"
abbreviation (input) HCI_DISCONN_OCF :: u16 where "HCI_DISCONN_OCF \<equiv> 0x06"
abbreviation (input) HCI_CREATE_CONN_CANCEL_OCF :: u16 where "HCI_CREATE_CONN_CANCEL_OCF \<equiv> 0x08"
abbreviation (input) HCI_ACCEPT_CONN_REQ_OCF :: u16 where "HCI_ACCEPT_CONN_REQ_OCF \<equiv> 0x09"
abbreviation (input) HCI_REJECT_CONN_REQ_OCF :: u16 where "HCI_REJECT_CONN_REQ_OCF \<equiv> 0x0A"
abbreviation (input) HCI_LINK_KEY_REQ_REP_OCF :: u16 where "HCI_LINK_KEY_REQ_REP_OCF \<equiv> 0x0B"
abbreviation (input) HCI_LINK_KEY_REQ_NEG_REP_OCF :: u16 where "HCI_LINK_KEY_REQ_NEG_REP_OCF \<equiv> 0x0C"
abbreviation (input) HCI_PIN_CODE_REQ_REP_OCF :: u16 where "HCI_PIN_CODE_REQ_REP_OCF \<equiv> 0x0D"
abbreviation (input) HCI_PIN_CODE_REQ_NEG_REP_OCF :: u16 where "HCI_PIN_CODE_REQ_NEG_REP_OCF \<equiv> 0x0E"
abbreviation (input) HCI_AUTH_REQUESTED_OCF :: u16 where "HCI_AUTH_REQUESTED_OCF \<equiv> 0x11"
abbreviation (input) HCI_R_REMOTE_NAME_OCF :: u16 where "HCI_R_REMOTE_NAME_OCF \<equiv> 0x19"
abbreviation (input) HCI_R_REMOTE_FEATURES_OCF :: u16 where "HCI_R_REMOTE_FEATURES_OCF \<equiv> 0x1B"
abbreviation (input) HCI_R_REMOTE_VERSION_INFO_OCF :: u16 where "HCI_R_REMOTE_VERSION_INFO_OCF \<equiv> 0x1D"
abbreviation (input) HCI_R_CLOCK_OFFSET_OCF :: u16 where "HCI_R_CLOCK_OFFSET_OCF \<equiv> 0x1F"
abbreviation (input) HCI_SNIFF_MODE_OCF :: u16 where "HCI_SNIFF_MODE_OCF \<equiv> 0x03"
abbreviation (input) HCI_QOS_SETUP_OCF :: u16 where "HCI_QOS_SETUP_OCF \<equiv> 0x07"
abbreviation (input) HCI_R_LINK_POLICY_OCF :: u16 where "HCI_R_LINK_POLICY_OCF \<equiv> 0x0C"
abbreviation (input) HCI_W_LINK_POLICY_OCF :: u16 where "HCI_W_LINK_POLICY_OCF \<equiv> 0x0D"
abbreviation (input) HCI_SET_EV_MASK_OCF :: u16 where "HCI_SET_EV_MASK_OCF \<equiv> 0x01"
abbreviation (input) HCI_RESET_OCF :: u16 where "HCI_RESET_OCF \<equiv> 0x03"
abbreviation (input) HCI_SET_EV_FILTER_OCF :: u16 where "HCI_SET_EV_FILTER_OCF \<equiv> 0x05"
abbreviation (input) HCI_R_PIN_TYPE_OCF :: u16 where "HCI_R_PIN_TYPE_OCF \<equiv> 0x09"
abbreviation (input) HCI_W_PIN_TYPE_OCF :: u16 where "HCI_W_PIN_TYPE_OCF \<equiv> 0x0A"
abbreviation (input) HCI_R_STORED_LINK_KEY_OCF :: u16 where "HCI_R_STORED_LINK_KEY_OCF \<equiv> 0x0D"
abbreviation (input) HCI_W_STORED_LINK_KEY_OCF :: u16 where "HCI_W_STORED_LINK_KEY_OCF \<equiv> 0x11"
abbreviation (input) HCI_D_STORED_LINK_KEY_OCF :: u16 where "HCI_D_STORED_LINK_KEY_OCF \<equiv> 0x12"
abbreviation (input) HCI_W_LOCAL_NAME_OCF :: u16 where "HCI_W_LOCAL_NAME_OCF \<equiv> 0x13"
abbreviation (input) HCI_R_LOCAL_NAME_OCF :: u16 where "HCI_R_LOCAL_NAME_OCF \<equiv> 0x14"
abbreviation (input) HCI_R_PAGE_TIMEOUT_OCF :: u16 where "HCI_R_PAGE_TIMEOUT_OCF \<equiv> 0x17"
abbreviation (input) HCI_W_PAGE_TIMEOUT_OCF :: u16 where "HCI_W_PAGE_TIMEOUT_OCF \<equiv> 0x18"
abbreviation (input) HCI_R_SCAN_EN_OCF :: u16 where "HCI_R_SCAN_EN_OCF \<equiv> 0x19"
abbreviation (input) HCI_W_SCAN_EN_OCF :: u16 where "HCI_W_SCAN_EN_OCF \<equiv> 0x1A"
abbreviation (input) HCI_R_AUTH_ENABLE_OCF :: u16 where "HCI_R_AUTH_ENABLE_OCF \<equiv> 0x1F"
abbreviation (input) HCI_W_AUTH_ENABLE_OCF :: u16 where "HCI_W_AUTH_ENABLE_OCF \<equiv> 0x20"
abbreviation (input) HCI_R_COD_OCF :: u16 where "HCI_R_COD_OCF \<equiv> 0x23"
abbreviation (input) HCI_W_COD_OCF :: u16 where "HCI_W_COD_OCF \<equiv> 0x24"
abbreviation (input) HCI_R_FLUSHTO_OCF :: u16 where "HCI_R_FLUSHTO_OCF \<equiv> 0x27"
abbreviation (input) HCI_W_FLUSHTO_OCF :: u16 where "HCI_W_FLUSHTO_OCF \<equiv> 0x28"
abbreviation (input) HCI_SET_HC_TO_H_FC_OCF :: u16 where "HCI_SET_HC_TO_H_FC_OCF \<equiv> 0x31"
abbreviation (input) HCI_HOST_BUF_SIZE_OCF :: u16 where "HCI_HOST_BUF_SIZE_OCF \<equiv> 0x33"
abbreviation (input) HCI_HOST_NUM_COMPL_OCF :: u16 where "HCI_HOST_NUM_COMPL_OCF \<equiv> 0x35"
abbreviation (input) HCI_R_LINK_SV_TIMEOUT_OCF :: u16 where "HCI_R_LINK_SV_TIMEOUT_OCF \<equiv> 0x36"
abbreviation (input) HCI_W_LINK_SV_TIMEOUT_OCF :: u16 where "HCI_W_LINK_SV_TIMEOUT_OCF \<equiv> 0x37"
abbreviation (input) HCI_R_CUR_IACLAP_OCF :: u16 where "HCI_R_CUR_IACLAP_OCF \<equiv> 0x39"
abbreviation (input) HCI_W_CUR_IACLAP_OCF :: u16 where "HCI_W_CUR_IACLAP_OCF \<equiv> 0x3A"
abbreviation (input) HCI_R_INQUIRY_SCAN_TYPE_OCF :: u16 where "HCI_R_INQUIRY_SCAN_TYPE_OCF \<equiv> 0x42"
abbreviation (input) HCI_W_INQUIRY_SCAN_TYPE_OCF :: u16 where "HCI_W_INQUIRY_SCAN_TYPE_OCF \<equiv> 0x43"
abbreviation (input) HCI_R_INQUIRY_MODE_OCF :: u16 where "HCI_R_INQUIRY_MODE_OCF \<equiv> 0x44"
abbreviation (input) HCI_W_INQUIRY_MODE_OCF :: u16 where "HCI_W_INQUIRY_MODE_OCF \<equiv> 0x45"
abbreviation (input) HCI_R_PAGE_SCAN_TYPE_OCF :: u16 where "HCI_R_PAGE_SCAN_TYPE_OCF \<equiv> 0x46"
abbreviation (input) HCI_W_PAGE_SCAN_TYPE_OCF :: u16 where "HCI_W_PAGE_SCAN_TYPE_OCF \<equiv> 0x47"
abbreviation (input) HCI_R_LOC_VERS_INFO_OCF :: u16 where "HCI_R_LOC_VERS_INFO_OCF \<equiv> 0x01"
abbreviation (input) HCI_R_LOC_FEAT_OCF :: u16 where "HCI_R_LOC_FEAT_OCF \<equiv> 0x03"
abbreviation (input) HCI_R_BUF_SIZE_OCF :: u16 where "HCI_R_BUF_SIZE_OCF \<equiv> 0x05"
abbreviation (input) HCI_R_BD_ADDR_OCF :: u16 where "HCI_R_BD_ADDR_OCF \<equiv> 0x09"
abbreviation (input) HCI_VENDOR_PATCH_START_OCF :: u16 where "HCI_VENDOR_PATCH_START_OCF \<equiv> 0x4F"
abbreviation (input) HCI_VENDOR_PATCH_CONT_OCF :: u16 where "HCI_VENDOR_PATCH_CONT_OCF \<equiv> 0x4C"
abbreviation (input) HCI_VENDOR_PATCH_END_OCF :: u16 where "HCI_VENDOR_PATCH_END_OCF \<equiv> 0x4F"
abbreviation (input) HCI_INQUIRY_PLEN :: byte where "HCI_INQUIRY_PLEN \<equiv> 8"
abbreviation (input) HCI_INQUIRY_CANCEL_PLEN :: byte where "HCI_INQUIRY_CANCEL_PLEN \<equiv> 3"
abbreviation (input) HCI_PERIODIC_INQUIRY_PLEN :: byte where "HCI_PERIODIC_INQUIRY_PLEN \<equiv> 12"
abbreviation (input) HCI_EXIT_PERIODIC_INQUIRY_PLEN :: byte where "HCI_EXIT_PERIODIC_INQUIRY_PLEN \<equiv> 3"
abbreviation (input) HCI_CREATE_CONN_PLEN :: byte where "HCI_CREATE_CONN_PLEN \<equiv> 16"
abbreviation (input) HCI_DISCONN_PLEN :: byte where "HCI_DISCONN_PLEN \<equiv> 6"
abbreviation (input) HCI_CREATE_CONN_CANCEL_PLEN :: byte where "HCI_CREATE_CONN_CANCEL_PLEN \<equiv> 9"
abbreviation (input) HCI_ACCEPT_CONN_REQ_PLEN :: byte where "HCI_ACCEPT_CONN_REQ_PLEN \<equiv> 10"
abbreviation (input) HCI_REJECT_CONN_REQ_PLEN :: byte where "HCI_REJECT_CONN_REQ_PLEN \<equiv> 10"
abbreviation (input) HCI_LINK_KEY_REQ_REP_PLEN :: byte where "HCI_LINK_KEY_REQ_REP_PLEN \<equiv> 25"
abbreviation (input) HCI_LINK_KEY_REQ_NEG_REP_PLEN :: byte where "HCI_LINK_KEY_REQ_NEG_REP_PLEN \<equiv> 9"
abbreviation (input) HCI_PIN_CODE_REQ_REP_PLEN :: byte where "HCI_PIN_CODE_REQ_REP_PLEN \<equiv> 26"
abbreviation (input) HCI_PIN_CODE_REQ_NEG_REP_PLEN :: byte where "HCI_PIN_CODE_REQ_NEG_REP_PLEN \<equiv> 9"
abbreviation (input) HCI_R_REMOTE_NAME_PLEN :: byte where "HCI_R_REMOTE_NAME_PLEN \<equiv> 13"
abbreviation (input) HCI_SNIFF_MODE_PLEN :: byte where "HCI_SNIFF_MODE_PLEN \<equiv> 13"
abbreviation (input) HCI_R_LINK_POLICY_PLEN :: byte where "HCI_R_LINK_POLICY_PLEN \<equiv> 5"
abbreviation (input) HCI_W_LINK_POLICY_PLEN :: byte where "HCI_W_LINK_POLICY_PLEN \<equiv> 7"
abbreviation (input) HCI_QOS_SETUP_PLEN :: byte where "HCI_QOS_SETUP_PLEN \<equiv> 23"
abbreviation (input) HCI_SET_EV_MASK_PLEN :: byte where "HCI_SET_EV_MASK_PLEN \<equiv> 11"
abbreviation (input) HCI_RESET_PLEN :: byte where "HCI_RESET_PLEN \<equiv> 3"
abbreviation (input) HCI_SET_EV_FILTER_PLEN :: byte where "HCI_SET_EV_FILTER_PLEN \<equiv> 4"
abbreviation (input) HCI_R_PIN_TYPE_PLEN :: byte where "HCI_R_PIN_TYPE_PLEN \<equiv> 3"
abbreviation (input) HCI_W_PIN_TYPE_PLEN :: byte where "HCI_W_PIN_TYPE_PLEN \<equiv> 4"
abbreviation (input) HCI_R_STORED_LINK_KEY_PLEN :: byte where "HCI_R_STORED_LINK_KEY_PLEN \<equiv> 10"
abbreviation (input) HCI_D_STORED_LINK_KEY_PLEN :: byte where "HCI_D_STORED_LINK_KEY_PLEN \<equiv> 10"
abbreviation (input) HCI_W_LOCAL_NAME_PLEN :: byte where "HCI_W_LOCAL_NAME_PLEN \<equiv> 251"
abbreviation (input) HCI_R_LOCAL_NAME_PLEN :: byte where "HCI_R_LOCAL_NAME_PLEN \<equiv> 3"
abbreviation (input) HCI_R_PAGE_TIMEOUT_PLEN :: byte where "HCI_R_PAGE_TIMEOUT_PLEN \<equiv> 3"
abbreviation (input) HCI_W_PAGE_TIMEOUT_PLEN :: byte where "HCI_W_PAGE_TIMEOUT_PLEN \<equiv> 5"
abbreviation (input) HCI_R_SCAN_EN_PLEN :: byte where "HCI_R_SCAN_EN_PLEN \<equiv> 3"
abbreviation (input) HCI_W_SCAN_EN_PLEN :: byte where "HCI_W_SCAN_EN_PLEN \<equiv> 4"
abbreviation (input) HCI_R_AUTH_ENABLE_PLEN :: byte where "HCI_R_AUTH_ENABLE_PLEN \<equiv> 3"
abbreviation (input) HCI_W_AUTH_ENABLE_PLEN :: byte where "HCI_W_AUTH_ENABLE_PLEN \<equiv> 4"
abbreviation (input) HCI_R_COD_PLEN :: byte where "HCI_R_COD_PLEN \<equiv> 3"
abbreviation (input) HCI_W_COD_PLEN :: byte where "HCI_W_COD_PLEN \<equiv> 6"
abbreviation (input) HCI_R_FLUSHTO_PLEN :: byte where "HCI_R_FLUSHTO_PLEN \<equiv> 5"
abbreviation (input) HCI_W_FLUSHTO_PLEN :: byte where "HCI_W_FLUSHTO_PLEN \<equiv> 7"
abbreviation (input) HCI_R_LINK_SV_TIMEOUT_PLEN :: byte where "HCI_R_LINK_SV_TIMEOUT_PLEN \<equiv> 5"
abbreviation (input) HCI_W_LINK_SV_TIMEOUT_PLEN :: byte where "HCI_W_LINK_SV_TIMEOUT_PLEN \<equiv> 7"
abbreviation (input) HCI_SET_HC_TO_H_FC_PLEN :: byte where "HCI_SET_HC_TO_H_FC_PLEN \<equiv> 4"
abbreviation (input) HCI_HOST_BUF_SIZE_PLEN :: byte where "HCI_HOST_BUF_SIZE_PLEN \<equiv> 10"
abbreviation (input) HCI_H_NUM_COMPL_PLEN :: byte where "HCI_H_NUM_COMPL_PLEN \<equiv> 8"
abbreviation (input) HCI_R_CUR_IACLAP_PLEN :: byte where "HCI_R_CUR_IACLAP_PLEN \<equiv> 3"
abbreviation (input) HCI_W_CUR_IACLAP_PLEN :: byte where "HCI_W_CUR_IACLAP_PLEN \<equiv> 4"
abbreviation (input) HCI_W_INQUIRY_SCAN_TYPE_PLEN :: byte where "HCI_W_INQUIRY_SCAN_TYPE_PLEN \<equiv> 4"
abbreviation (input) HCI_W_INQUIRY_MODE_PLEN :: byte where "HCI_W_INQUIRY_MODE_PLEN \<equiv> 4"
abbreviation (input) HCI_W_PAGE_SCAN_TYPE_PLEN :: byte where "HCI_W_PAGE_SCAN_TYPE_PLEN \<equiv> 4"
abbreviation (input) HCI_R_LOC_VERS_INFO_PLEN :: byte where "HCI_R_LOC_VERS_INFO_PLEN \<equiv> 3"
abbreviation (input) HCI_R_LOC_FEAT_PLEN :: byte where "HCI_R_LOC_FEAT_PLEN \<equiv> 3"
abbreviation (input) HCI_R_BUF_SIZE_PLEN :: byte where "HCI_R_BUF_SIZE_PLEN \<equiv> 3"
abbreviation (input) HCI_R_BD_ADDR_PLEN :: byte where "HCI_R_BD_ADDR_PLEN \<equiv> 3"
abbreviation (input) HCI_INQUIRY_COMPLETE :: byte where "HCI_INQUIRY_COMPLETE \<equiv> 0x01"
abbreviation (input) HCI_INQUIRY_RESULT :: byte where "HCI_INQUIRY_RESULT \<equiv> 0x02"
abbreviation (input) HCI_CONNECTION_COMPLETE :: byte where "HCI_CONNECTION_COMPLETE \<equiv> 0x03"
abbreviation (input) HCI_CONNECTION_REQUEST :: byte where "HCI_CONNECTION_REQUEST \<equiv> 0x04"
abbreviation (input) HCI_DISCONNECTION_COMPLETE :: byte where "HCI_DISCONNECTION_COMPLETE \<equiv> 0x05"
abbreviation (input) HCI_AUTH_COMPLETE :: byte where "HCI_AUTH_COMPLETE \<equiv> 0x06"
abbreviation (input) HCI_REMOTE_NAME_REQ_COMPLETE :: byte where "HCI_REMOTE_NAME_REQ_COMPLETE \<equiv> 0x07"
abbreviation (input) HCI_READ_REMOTE_FEATURES_COMPLETE :: byte where "HCI_READ_REMOTE_FEATURES_COMPLETE \<equiv> 0x0B"
abbreviation (input) HCI_READ_REMOTE_VERSION_COMPLETE :: byte where "HCI_READ_REMOTE_VERSION_COMPLETE \<equiv> 0x0C"
abbreviation (input) HCI_QOS_SETUP_COMPLETE :: byte where "HCI_QOS_SETUP_COMPLETE \<equiv> 0x0D"
abbreviation (input) HCI_COMMAND_COMPLETE :: byte where "HCI_COMMAND_COMPLETE \<equiv> 0x0E"
abbreviation (input) HCI_COMMAND_STATUS :: byte where "HCI_COMMAND_STATUS \<equiv> 0x0F"
abbreviation (input) HCI_NBR_OF_COMPLETED_PACKETS :: byte where "HCI_NBR_OF_COMPLETED_PACKETS \<equiv> 0x13"
abbreviation (input) HCI_MODE_CHANGE :: byte where "HCI_MODE_CHANGE \<equiv> 0x14"
abbreviation (input) HCI_RETURN_LINK_KEYS :: byte where "HCI_RETURN_LINK_KEYS \<equiv> 0x15"
abbreviation (input) HCI_PIN_CODE_REQUEST :: byte where "HCI_PIN_CODE_REQUEST \<equiv> 0x16"
abbreviation (input) HCI_LINK_KEY_REQUEST :: byte where "HCI_LINK_KEY_REQUEST \<equiv> 0x17"
abbreviation (input) HCI_LINK_KEY_NOTIFICATION :: byte where "HCI_LINK_KEY_NOTIFICATION \<equiv> 0x18"
abbreviation (input) HCI_READ_CLOCK_OFFSET_COMPLETE :: byte where "HCI_READ_CLOCK_OFFSET_COMPLETE \<equiv> 0x1C"
abbreviation (input) HCI_INQUIRY_RESULT_WITH_RSSI :: byte where "HCI_INQUIRY_RESULT_WITH_RSSI \<equiv> 0x22"
abbreviation (input) HCI_REMOTE_HOST_FEATURES_NOTIFY :: byte where "HCI_REMOTE_HOST_FEATURES_NOTIFY \<equiv> 0x3D"
abbreviation (input) HCI_VENDOR_SPECIFIC_EVENT :: byte where "HCI_VENDOR_SPECIFIC_EVENT \<equiv> 0xFF"
section \<open>hci_proto.h: error codes and sizes\<close>

abbreviation (input) BTE_HCI_SUCCESS :: byte where "BTE_HCI_SUCCESS \<equiv> 0x0"
abbreviation (input) BTE_HCI_MEMORY_FULL :: byte where "BTE_HCI_MEMORY_FULL \<equiv> 0x07"
abbreviation (input) BTE_HCI_HOST_REJECTED_BD_ADDR :: byte where "BTE_HCI_HOST_REJECTED_BD_ADDR \<equiv> 0x0F"
abbreviation (input) BTE_HCI_OTHER_END_CLOSED_CONN_USER :: byte where "BTE_HCI_OTHER_END_CLOSED_CONN_USER \<equiv> 0x13"
abbreviation (input) BTE_HCI_CONN_TERMINATED_BY_LOCAL_HOST :: byte where "BTE_HCI_CONN_TERMINATED_BY_LOCAL_HOST \<equiv> 0x16"
abbreviation (input) BTE_HCI_MAX_NAME_LEN :: nat where "BTE_HCI_MAX_NAME_LEN \<equiv> 248"
section \<open>types.h: packet types\<close>

abbreviation (input) BTE_PACKET_TYPE_DM1 :: u16 where "BTE_PACKET_TYPE_DM1 \<equiv> 0x0008"
abbreviation (input) BTE_PACKET_TYPE_DH1 :: u16 where "BTE_PACKET_TYPE_DH1 \<equiv> 0x0010"
abbreviation (input) BTE_PACKET_TYPE_DM3 :: u16 where "BTE_PACKET_TYPE_DM3 \<equiv> 0x0400"
abbreviation (input) BTE_PACKET_TYPE_DH3 :: u16 where "BTE_PACKET_TYPE_DH3 \<equiv> 0x0800"
abbreviation (input) BTE_PACKET_TYPE_DH5 :: u16 where "BTE_PACKET_TYPE_DH5 \<equiv> 0x4000"
abbreviation (input) BTE_PACKET_TYPE_DM5 :: u16 where "BTE_PACKET_TYPE_DM5 \<equiv> 0x8000"
abbreviation (input) BTE_CONN_HANDLE_INVALID :: u16 where "BTE_CONN_HANDLE_INVALID \<equiv> 0xffff"
section \<open>hci.h: public parameter values\<close>

abbreviation (input) BTE_HCI_CLOCK_OFFSET_INVALID :: u16 where "BTE_HCI_CLOCK_OFFSET_INVALID \<equiv> 0xffff"
abbreviation (input) BTE_HCI_EVENT_FILTER_TYPE_CLEAR :: byte where "BTE_HCI_EVENT_FILTER_TYPE_CLEAR \<equiv> 0"
abbreviation (input) BTE_HCI_EVENT_FILTER_TYPE_INQUIRY_RESULT :: byte where "BTE_HCI_EVENT_FILTER_TYPE_INQUIRY_RESULT \<equiv> 1"
abbreviation (input) BTE_HCI_EVENT_FILTER_TYPE_CONNECTION_SETUP :: byte where "BTE_HCI_EVENT_FILTER_TYPE_CONNECTION_SETUP \<equiv> 2"
abbreviation (input) BTE_HCI_COND_TYPE_INQUIRY_COD :: byte where "BTE_HCI_COND_TYPE_INQUIRY_COD \<equiv> 1"
abbreviation (input) BTE_HCI_COND_TYPE_INQUIRY_ADDRESS :: byte where "BTE_HCI_COND_TYPE_INQUIRY_ADDRESS \<equiv> 2"
abbreviation (input) BTE_HCI_COND_TYPE_CONN_SETUP_ALL :: byte where "BTE_HCI_COND_TYPE_CONN_SETUP_ALL \<equiv> 0"
abbreviation (input) BTE_HCI_COND_TYPE_CONN_SETUP_COD :: byte where "BTE_HCI_COND_TYPE_CONN_SETUP_COD \<equiv> 1"
abbreviation (input) BTE_HCI_COND_TYPE_CONN_SETUP_ADDRESS :: byte where "BTE_HCI_COND_TYPE_CONN_SETUP_ADDRESS \<equiv> 2"
abbreviation (input) BTE_HCI_INQUIRY_MODE_RSSI :: byte where "BTE_HCI_INQUIRY_MODE_RSSI \<equiv> 1"
section \<open>internals.h: table sizes\<close>

abbreviation (input) BTE_HCI_MAX_PENDING_COMMANDS :: nat where "BTE_HCI_MAX_PENDING_COMMANDS \<equiv> 8"
abbreviation (input) BTE_HCI_MAX_CLIENTS :: nat where "BTE_HCI_MAX_CLIENTS \<equiv> 4"
abbreviation (input) BTE_HCI_MAX_ACL :: nat where "BTE_HCI_MAX_ACL \<equiv> 7"

abbreviation (input) BTE_HCI_EVENT_LAST :: byte where "BTE_HCI_EVENT_LAST \<equiv> HCI_REMOTE_HOST_FEATURES_NOTIFY"
abbreviation (input) BTE_HCI_INFO_GOT_FEATURES :: u32 where "BTE_HCI_INFO_GOT_FEATURES \<equiv> 1"
abbreviation (input) BTE_HCI_INFO_GOT_BD_ADDR :: u32 where "BTE_HCI_INFO_GOT_BD_ADDR \<equiv> 4"
abbreviation (input) HCI_QOS_SETUP_COMPLETE_LEN :: nat where "HCI_QOS_SETUP_COMPLETE_LEN \<equiv> 23"
abbreviation (input) BTE_HCI_FEAT_3_SLOT_PACKETS :: u64 where "BTE_HCI_FEAT_3_SLOT_PACKETS \<equiv> 1"
abbreviation (input) BTE_HCI_FEAT_5_SLOT_PACKETS :: u64 where "BTE_HCI_FEAT_5_SLOT_PACKETS \<equiv> 2"
abbreviation (input) BTE_ACL_AVAILABLE_PACKETS_UNSET :: u16 where "BTE_ACL_AVAILABLE_PACKETS_UNSET \<equiv> 0xffff"

end
