(* ===== verification/HciState.thy ===== *)
theory HciState
  imports HciConst Buffer DataMatcher
begin

text \<open>
  The state of the HCI layer: \<^verbatim>\<open>BteHciDev\<close> and \<^verbatim>\<open>BteClient\<close> of \<^verbatim>\<open>internals.h\<close>, and the structures
  of \<^verbatim>\<open>hci.h\<close> that are handed to clients.

  Function pointers that the library stores in its own state point to static functions of
  \<^verbatim>\<open>hci.c\<close>: they are tags, one per function, and calling one is a dispatch on the tag. Function
  pointers of clients (and every \<^verbatim>\<open>void *client_cb\<close>) are numbers, \<^verbatim>\<open>NULL\<close> is \<open>None\<close>, and what a
  client does when it is called is a parameter of the model. A \<^verbatim>\<open>BteHci*\<close> or \<^verbatim>\<open>BteClient*\<close> is the
  address of a client (the one structure is embedded in the other); \<^verbatim>\<open>void *userdata\<close> is 64 bits.
\<close>

section \<open>Pointers to functions\<close>

type_synonym hci_ptr = "nat option"
type_synonym cb_ptr = "nat option"

datatype command_cb =
  Command_complete_cb | Periodic_inquiry_complete_cb | Exit_periodic_inquiry_cb
| Link_key_req_reply_cb | Read_link_policy_settings_cb | Read_pin_type_cb
| Read_stored_link_key_cb | Write_stored_link_key_cb | Delete_stored_link_key_cb
| Read_local_name_cb | Read_page_timeout_cb | Read_scan_enable_cb | Read_auth_enable_cb
| Read_class_of_device_cb | Read_auto_flush_timeout_cb | Read_current_iac_lap_cb
| Read_link_sv_timeout_cb | Read_inquiry_scan_type_cb | Read_inquiry_mode_cb
| Read_page_scan_type_cb | Read_local_version_cb | Read_local_features_cb
| Read_buffer_size_cb | Read_bd_addr_cb | Vendor_command_cb

datatype status_cb =
  Common_read_connection_status_cb | Inquiry_status_cb | Create_connection_status_cb
| Read_remote_name_status_cb

datatype event_handler =
  Inquiry_result_cb | Inquiry_complete_event_cb | Conn_complete_event_cb
| Nr_of_completed_packets_event_cb | Disconnection_complete_event_cb
| Connection_request_event_cb | Link_key_request_event_cb | Link_key_notification_event_cb
| Pin_code_request_event_cb | Auth_complete_event_cb | Remote_name_req_complete_event_cb
| Read_remote_features_complete_event_cb | Read_remote_version_info_complete_event_cb
| Read_clock_offset_complete_event_cb | Mode_change_event_cb | Qos_setup_complete_event_cb
| Return_link_keys_cb | Vendor_event_cb

text \<open>\<^verbatim>\<open>on_data_received\<close> of \<^verbatim>\<open>acl.c\<close> is the only handler of incoming data.\<close>

datatype data_handler = On_data_received

section \<open>Structures handed to clients\<close>

record inquiry_response =
  ir_address :: mem
  ir_page_scan_rep_mode :: byte
  ir_page_scan_period_mode :: byte
  ir_reserved :: byte
  ir_class_of_device :: mem
  ir_clock_offset :: u16
  ir_rssi :: byte
  ir_extended_response :: "nat option"

record stored_link_key =
  sk_address :: mem
  sk_key :: mem

record connect_params =
  cp_packet_type :: u16
  cp_clock_offset :: u16
  cp_page_scan_rep_mode :: byte
  cp_allow_role_switch :: bool

record qos_setup_data =
  qs_service_type :: byte
  qs_token_rate :: u32
  qs_peak_bandwidth :: u32
  qs_latency :: u32
  qs_delay_variation :: u32

text \<open>
  What a client callback is given besides the HCI handle and its userdata: the reply or event
  structure of \<^verbatim>\<open>hci.h\<close> with its fields in order. The status is always the first field of a reply.
\<close>

datatype (plugins only: code size) hci_arg =
  Initialized bool
| Reply byte
| Raw_reply mem
| Inquiry_reply byte byte "inquiry_response list option"
| Create_connection_reply byte byte u16 mem byte
| Nr_of_completed_packets u16 u16
| Disconnection_complete byte byte u16
| Connection_request mem mem byte
| Link_key_request mem
| Link_key_req_reply byte mem
| Link_key_notification mem mem byte
| Pin_code_request mem
| Auth_requested_reply byte u16
| Read_remote_name_reply byte mem mem
| Read_remote_features_reply byte u16 u64
| Read_remote_version_info_reply byte u16 byte u16 u16
| Read_clock_offset_reply byte u16 u16
| Mode_change_reply byte u16 byte u16
| Qos_setup_complete byte u16 qos_setup_data
| Read_link_policy_settings_reply byte u16 u16
| Read_pin_type_reply byte byte
| Read_stored_link_key_reply byte u16 u16 "stored_link_key list option"
| Write_stored_link_key_reply byte byte
| Delete_stored_link_key_reply byte u16
| Read_local_name_reply byte mem
| Read_page_timeout_reply byte u16
| Read_scan_enable_reply byte byte
| Read_auth_enable_reply byte byte
| Read_class_of_device_reply byte mem
| Read_auto_flush_timeout_reply byte u16 u16
| Read_current_iac_lap_reply byte byte "u32 list"
| Read_link_sv_timeout_reply byte u16 u16
| Read_inquiry_scan_type_reply byte byte
| Read_inquiry_mode_reply byte byte
| Read_page_scan_type_reply byte byte
| Read_local_version_reply byte byte u16 byte u16 u16
| Read_local_features_reply byte u64
| Read_buffer_size_reply byte byte u16 u16 u16
| Read_bd_addr_reply byte mem
| Vendor_buffer bte_buffer

text \<open>One call of a client callback: the function, the HCI handle, the argument and the userdata.\<close>

record hci_call =
  call_cb :: nat
  call_hci :: hci_ptr
  call_arg :: hci_arg
  call_userdata :: u64

section \<open>Clients\<close>

text \<open>
  The union \<^verbatim>\<open>last_async_cmd_data\<close> holds the data of the last asynchronous command of a client.
  Its members overlap and the code may read another one than was written last, so it is modelled
  by its storage on a 64-bit little endian target: the callback pointer every member starts with,
  the eight bytes after it (the userdata of \<^verbatim>\<open>initialization\<close>; the handle and the event code of
  \<^verbatim>\<open>common_read_connection\<close>; the address of the others), and the handler pointer that follows.
\<close>

record async_tmpdata =
  tmp_client_cb :: cb_ptr
  tmp_bytes :: mem
  tmp_handler_cb :: "event_handler option"

record bte_client =
  c_ref_count :: int
  c_userdata :: u64
  periodic_inquiry_cb :: cb_ptr
  periodic_inquiry_userdata :: u64
  nr_of_completed_packets_cb :: cb_ptr
  disconnection_complete_cb :: cb_ptr
  connection_request_cb :: cb_ptr
  qos_setup_complete_cb :: cb_ptr
  link_key_request_cb :: cb_ptr
  link_key_notification_cb :: cb_ptr
  pin_code_request_cb :: cb_ptr
  vendor_event_cb :: cb_ptr
  scan_mode :: byte
  last_async_cmd_data :: async_tmpdata

section \<open>The device\<close>

datatype hci_init_status =
  BTE_HCI_INIT_STATUS_UNINITIALIZED | BTE_HCI_INIT_STATUS_INITIALIZING
| BTE_HCI_INIT_STATUS_INITIALIZED | BTE_HCI_INIT_STATUS_FAILED

text \<open>
  The union \<^verbatim>\<open>bte_hci_command_cb_u\<close>: the members for events are all one client callback. Reading
  the callback of another member than the one written is \<open>None\<close> in the model.
\<close>

datatype command_cb_union =
  No_cb
| Cmd_complete command_cb cb_ptr
| Cmd_status "status_cb option" cb_ptr
| Event_client_cb cb_ptr

record pending_command =
  pc_matcher :: data_matcher
  pc_hci :: hci_ptr
  pc_userdata :: u64
  pc_command_cb :: command_cb_union

text \<open>
  \<^verbatim>\<open>BteHciDev\<close>, followed by what the library sees of its environment: the heap of clients, and
  the commands and data packets that were handed to the backend, in order.
\<close>

record bte_hci_dev =
  init_status :: hci_init_status
  info_flags :: u32
  num_pending_commands :: u16
  pending_commands :: "pending_command list"
  clients :: "nat option list"
  outgoing_acl_packets :: chain
  dev_address :: mem
  supported_features :: u64
  num_packets :: int
  acl_mtu :: u16
  sco_mtu :: byte
  acl_max_packets :: u16
  sco_max_packets :: u16
  acl_available_packets :: u16
  inquiry_num_responses :: byte
  inquiry_responses :: "inquiry_response list option"
  stored_keys_num_responses :: byte
  stored_keys_responses :: "stored_link_key list option"
  event_handlers :: "event_handler option list"
  data_handler_cb :: "data_handler option"
  client_heap :: "nat \<Rightarrow> bte_client option"
  command_wire :: "mem list"
  data_wire :: "mem list"

text \<open>
  The environment. A call of a client callback may change the whole state (a client may call the
  library again); the backend answers a packet with a return code that may depend on what it was
  sent before; \<open>fresh\<close> is the content of memory that was not written yet.
\<close>

record 's hci_env =
  env_client :: "hci_call \<Rightarrow> 's \<Rightarrow> (bool \<times> 's) option"
  env_fresh :: "'s \<Rightarrow> nat \<Rightarrow> byte"
  be_init :: "'s \<Rightarrow> int"
  be_hci_send_command :: "mem list \<Rightarrow> mem \<Rightarrow> int"
  be_hci_send_data :: "mem list \<Rightarrow> mem \<Rightarrow> int"
  be_deinit :: "'s \<Rightarrow> 's"
  driver_init :: "'s \<Rightarrow> (int \<times> 's) option"

type_synonym 'a dev = "'a bte_hci_dev_scheme"
type_synonym 'a env = "'a bte_hci_dev_scheme hci_env"

section \<open>Accesses\<close>

definition call_client ::
    "'a env \<Rightarrow> cb_ptr \<Rightarrow> hci_ptr \<Rightarrow> hci_arg \<Rightarrow> u64 \<Rightarrow> 'a dev \<Rightarrow> (bool \<times> 'a dev) option" where
  "call_client E cb hci arg ud s =
     do { f \<leftarrow> cb;
          env_client E \<lparr>call_cb = f, call_hci = hci, call_arg = arg, call_userdata = ud\<rparr> s }"

definition call_client_void ::
    "'a env \<Rightarrow> cb_ptr \<Rightarrow> hci_ptr \<Rightarrow> hci_arg \<Rightarrow> u64 \<Rightarrow> 'a dev \<Rightarrow> 'a dev option" where
  "call_client_void E cb hci arg ud s = map_option snd (call_client E cb hci arg ud s)"

definition get_client :: "'a dev \<Rightarrow> hci_ptr \<Rightarrow> bte_client option" where
  "get_client s hci = do { h \<leftarrow> hci; client_heap s h }"

definition put_client :: "'a dev \<Rightarrow> hci_ptr \<Rightarrow> bte_client \<Rightarrow> 'a dev option" where
  "put_client s hci c =
     do { h \<leftarrow> hci; _ \<leftarrow> client_heap s h; Some (s\<lparr>client_heap := (client_heap s)(h \<mapsto> c)\<rparr>) }"

definition hci_userdata :: "'a dev \<Rightarrow> hci_ptr \<Rightarrow> u64 option" where
  "hci_userdata s hci = map_option c_userdata (get_client s hci)"

definition get_pc :: "'a dev \<Rightarrow> nat \<Rightarrow> pending_command option" where
  "get_pc s i = (if i < length (pending_commands s) then Some (pending_commands s ! i) else None)"

definition put_pc :: "'a dev \<Rightarrow> nat \<Rightarrow> pending_command \<Rightarrow> 'a dev option" where
  "put_pc s i pc = (if i < length (pending_commands s)
                    then Some (s\<lparr>pending_commands := (pending_commands s)[i := pc]\<rparr>) else None)"

text \<open>The accesses to the members of \<^verbatim>\<open>last_async_cmd_data\<close>.\<close>

definition get_tmp :: "'a dev \<Rightarrow> hci_ptr \<Rightarrow> async_tmpdata option" where
  "get_tmp s hci = map_option last_async_cmd_data (get_client s hci)"

definition put_tmp :: "'a dev \<Rightarrow> hci_ptr \<Rightarrow> async_tmpdata \<Rightarrow> 'a dev option" where
  "put_tmp s hci t =
     do { c \<leftarrow> get_client s hci; put_client s hci (c\<lparr>last_async_cmd_data := t\<rparr>) }"

definition tmp_userdata :: "async_tmpdata \<Rightarrow> u64 option" where
  "tmp_userdata t = read_le64 (tmp_bytes t) 0"

definition tmp_conn_handle :: "async_tmpdata \<Rightarrow> u16 option" where
  "tmp_conn_handle t = read_le16 (tmp_bytes t) 0"

definition tmp_event_code :: "async_tmpdata \<Rightarrow> byte option" where
  "tmp_event_code t = rd8 (tmp_bytes t) 2"

definition tmp_address :: "async_tmpdata \<Rightarrow> mem option" where
  "tmp_address t = slice (tmp_bytes t) 0 6"

text \<open>The state a program starts in: static storage is zero.\<close>

definition zero_matcher :: data_matcher where
  "zero_matcher = \<lparr>num_rules = 0, bytes = replicate BTE_DATA_MATCHER_MAX_LEN 0\<rparr>"

definition zero_pending_command :: pending_command where
  "zero_pending_command = \<lparr>pc_matcher = zero_matcher, pc_hci = None, pc_userdata = 0, pc_command_cb = No_cb\<rparr>"

definition zero_dev :: bte_hci_dev where
  "zero_dev = \<lparr>init_status = BTE_HCI_INIT_STATUS_UNINITIALIZED, info_flags = 0,
     num_pending_commands = 0,
     pending_commands = replicate BTE_HCI_MAX_PENDING_COMMANDS zero_pending_command,
     clients = replicate BTE_HCI_MAX_CLIENTS None, outgoing_acl_packets = [],
     dev_address = replicate 6 0, supported_features = 0, num_packets = 0, acl_mtu = 0, sco_mtu = 0,
     acl_max_packets = 0, sco_max_packets = 0, acl_available_packets = 0,
     inquiry_num_responses = 0, inquiry_responses = None,
     stored_keys_num_responses = 0, stored_keys_responses = None,
     event_handlers = replicate (unat BTE_HCI_EVENT_LAST) None, data_handler_cb = None,
     client_heap = Map.empty, command_wire = [], data_wire = []\<rparr>"

definition zero_client :: bte_client where
  "zero_client = \<lparr>c_ref_count = 0, c_userdata = 0, periodic_inquiry_cb = None,
     periodic_inquiry_userdata = 0, nr_of_completed_packets_cb = None,
     disconnection_complete_cb = None, connection_request_cb = None, qos_setup_complete_cb = None,
     link_key_request_cb = None, link_key_notification_cb = None, pin_code_request_cb = None,
     vendor_event_cb = None, scan_mode = 0,
     last_async_cmd_data = \<lparr>tmp_client_cb = None, tmp_bytes = replicate 8 0, tmp_handler_cb = None\<rparr>\<rparr>"

end
