(* ===== verification/HciDev.thy ===== *)
theory HciDev
  imports HciState
begin

text \<open>
  The HCI device of \<^verbatim>\<open>hci_dev.c\<close>: allocation and sending of commands, the table of pending
  commands that matches replies and events with the client that asked for them, the dispatch of
  events, the queue of outgoing data packets with its flow control, and the table of clients.

  The calls through function pointers into \<^verbatim>\<open>hci.c\<close> and \<^verbatim>\<open>acl.c\<close> go through a \<open>dispatch\<close> record,
  which \<^verbatim>\<open>Hci\<close> provides for the functions of \<^verbatim>\<open>hci.c\<close>.
\<close>

record 's dispatch =
  d_command_cb :: "command_cb \<Rightarrow> hci_ptr \<Rightarrow> bte_buffer \<Rightarrow> cb_ptr \<Rightarrow> u64 \<Rightarrow> 's \<Rightarrow> 's option"
  d_status_cb :: "status_cb \<Rightarrow> hci_ptr \<Rightarrow> byte \<Rightarrow> nat \<Rightarrow> 's \<Rightarrow> 's option"
  d_event_handler :: "event_handler \<Rightarrow> bte_buffer \<Rightarrow> 's \<Rightarrow> 's option"
  d_data_handler :: "data_handler \<Rightarrow> bte_buffer \<Rightarrow> 's \<Rightarrow> 's option"

type_synonym 'a hci_dispatch = "'a bte_hci_dev_scheme dispatch"

section \<open>Event handlers and clients\<close>

text \<open>
  The returned pointer is an index of \<open>event_handlers\<close>, \<^verbatim>\<open>NULL\<close> is \<open>None\<close>. The array has
  \<^verbatim>\<open>BTE_HCI_EVENT_LAST\<close> elements, while the check lets the index \<^verbatim>\<open>BTE_HCI_EVENT_LAST\<close> pass.
\<close>

definition bte_hci_dev_handler_for_event :: "byte \<Rightarrow> nat option" where
  "bte_hci_dev_handler_for_event event_code =
     (let code = (if event_code = HCI_VENDOR_SPECIFIC_EVENT then 0 else event_code)
      in if code > BTE_HCI_EVENT_LAST then None else Some (unat code))"

definition get_handler :: "'a dev \<Rightarrow> nat \<Rightarrow> event_handler option option" where
  "get_handler s i = (if i < length (event_handlers s) then Some (event_handlers s ! i) else None)"

fun foreach_hci_client_loop ::
    "(nat \<Rightarrow> 'a dev \<Rightarrow> (bool \<times> 'a dev) option) \<Rightarrow> nat list \<Rightarrow> 'a dev \<Rightarrow> (bool \<times> 'a dev) option" where
  "foreach_hci_client_loop callback [] s = Some (False, s)"
| "foreach_hci_client_loop callback (i # is) s =
     (if i < length (clients s) then
        (case clients s ! i of
           None \<Rightarrow> foreach_hci_client_loop callback is s
         | Some c \<Rightarrow> do { (stop, s1) \<leftarrow> callback c s;
                          if stop then Some (True, s1)
                          else foreach_hci_client_loop callback is s1 })
      else None)"

definition bte_hci_dev_foreach_hci_client ::
    "(nat \<Rightarrow> 'a dev \<Rightarrow> (bool \<times> 'a dev) option) \<Rightarrow> 'a dev \<Rightarrow> (bool \<times> 'a dev) option" where
  "bte_hci_dev_foreach_hci_client callback s =
     foreach_hci_client_loop callback [0..<BTE_HCI_MAX_CLIENTS] s"

section \<open>Allocation of command packets\<close>

text \<open>The opcode as a number; \<^verbatim>\<open>htole16\<close> is the little endian store of it.\<close>

definition build_opcode :: "u16 \<Rightarrow> byte \<Rightarrow> u16" where
  "build_opcode ocf ogf = (ocf AND 0x3ff) OR push_bit 10 (ucast ogf)"

definition hci_command_alloc :: "'a env \<Rightarrow> u16 \<Rightarrow> byte \<Rightarrow> byte \<Rightarrow> 'a dev \<Rightarrow> bte_buffer option" where
  "hci_command_alloc E ocf ogf len s =
     do { b \<leftarrow> bte_buffer_alloc_contiguous (env_fresh E s) (ucast len);
          d1 \<leftarrow> write_le16 (build_opcode ocf ogf) (data b) 0;
          d2 \<leftarrow> wr d1 2 [len - of_nat HCI_CMD_HDR_LEN];
          Some (b\<lparr>data := d2\<rparr>) }"

section \<open>The table of pending commands\<close>

definition bte_hci_dev_free_command :: "nat \<Rightarrow> 'a dev \<Rightarrow> 'a dev option" where
  "bte_hci_dev_free_command cmd s =
     do { pc \<leftarrow> get_pc s cmd;
          s1 \<leftarrow> put_pc s cmd (pc\<lparr>pc_matcher := bte_data_matcher_init (pc_matcher pc)\<rparr>);
          Some (s1\<lparr>num_pending_commands := num_pending_commands s1 - 1\<rparr>) }"

fun hci_dev_dispose_loop :: "hci_ptr \<Rightarrow> nat list \<Rightarrow> 'a dev \<Rightarrow> 'a dev option" where
  "hci_dev_dispose_loop hci [] s = Some s"
| "hci_dev_dispose_loop hci (i # is) s =
     do { pc \<leftarrow> get_pc s i;
          s1 \<leftarrow> (if \<not> bte_data_matcher_is_empty (pc_matcher pc) \<and> pc_hci pc = hci
                 then bte_hci_dev_free_command i s else Some s);
          hci_dev_dispose_loop hci is s1 }"

definition hci_dev_dispose :: "hci_ptr \<Rightarrow> 'a dev \<Rightarrow> 'a dev option" where
  "hci_dev_dispose hci s = hci_dev_dispose_loop hci [0..<BTE_HCI_MAX_PENDING_COMMANDS] s"

fun find_pending_loop :: "pending_command list \<Rightarrow> nat \<Rightarrow> mem \<Rightarrow> nat \<Rightarrow> nat option option" where
  "find_pending_loop [] i d len = Some None"
| "find_pending_loop (pc # pcs) i d len =
     (if bte_data_matcher_is_empty (pc_matcher pc) then find_pending_loop pcs (Suc i) d len
      else do { m \<leftarrow> bte_data_matcher_compare (pc_matcher pc) d len;
                if m then Some (Some i) else find_pending_loop pcs (Suc i) d len })"

definition bte_hci_dev_find_pending_command_raw ::
    "mem \<Rightarrow> nat \<Rightarrow> 'a dev \<Rightarrow> nat option option" where
  "bte_hci_dev_find_pending_command_raw d len s = find_pending_loop (pending_commands s) 0 d len"

definition bte_hci_dev_find_pending_command :: "bte_buffer \<Rightarrow> 'a dev \<Rightarrow> nat option option" where
  "bte_hci_dev_find_pending_command buffer s =
     bte_hci_dev_find_pending_command_raw (data buffer) (unat (size buffer)) s"

text \<open>
  The scan for a slot: the first empty slot ends it, and a slot before that one that holds the
  same matcher makes it fail. \<open>Some None\<close> is the null pointer.
\<close>

fun alloc_command_scan :: "data_matcher \<Rightarrow> pending_command list \<Rightarrow> nat \<Rightarrow> nat option option" where
  "alloc_command_scan m [] i = Some None"
| "alloc_command_scan m (pc # pcs) i =
     (if bte_data_matcher_is_empty (pc_matcher pc) then Some (Some i)
      else do { same \<leftarrow> bte_data_matcher_is_same m (pc_matcher pc);
                if same then Some None else alloc_command_scan m pcs (Suc i) })"

definition bte_hci_dev_alloc_command ::
    "data_matcher \<Rightarrow> 'a dev \<Rightarrow> (nat option \<times> 'a dev) option" where
  "bte_hci_dev_alloc_command m s =
     do { slot \<leftarrow> (if num_pending_commands s = 0 then Some (Some 0)
                   else if num_pending_commands s < of_nat BTE_HCI_MAX_PENDING_COMMANDS
                   then alloc_command_scan m (pending_commands s) 0
                   else Some None);
          case slot of None \<Rightarrow> Some (None, s)
          | Some i \<Rightarrow> do {
              pc \<leftarrow> get_pc s i;
              s1 \<leftarrow> put_pc s i (pc\<lparr>pc_matcher := bte_data_matcher_copy (pc_matcher pc) m\<rparr>);
              Some (Some i, s1\<lparr>num_pending_commands := num_pending_commands s1 + 1\<rparr>) } }"

fun get_pending_loop :: "data_matcher \<Rightarrow> pending_command list \<Rightarrow> nat \<Rightarrow> nat option option" where
  "get_pending_loop m [] i = Some None"
| "get_pending_loop m (pc # pcs) i =
     do { same \<leftarrow> bte_data_matcher_is_same m (pc_matcher pc);
          if same then Some (Some i) else get_pending_loop m pcs (Suc i) }"

definition bte_hci_dev_get_pending_command :: "data_matcher \<Rightarrow> 'a dev \<Rightarrow> nat option option" where
  "bte_hci_dev_get_pending_command m s = get_pending_loop m (pending_commands s) 0"

section \<open>Commands\<close>

definition ENOMEM :: int where
  "ENOMEM = 12"

definition EIO :: int where
  "EIO = 5"

text \<open>The reference the caller held is dropped, and the packet belongs to the backend.\<close>

definition bte_hci_send_command ::
    "'a env \<Rightarrow> bte_buffer option \<Rightarrow> 'a dev \<Rightarrow> (int \<times> 'a dev) option" where
  "bte_hci_send_command E buffer s =
     (case buffer of None \<Rightarrow> Some (- ENOMEM, s)
      | Some b \<Rightarrow> do {
          pkt \<leftarrow> slice (data b) 0 (unat (size b));
          let rc = be_hci_send_command E (command_wire s) pkt;
          Some (rc, s\<lparr>command_wire := command_wire s @ [pkt]\<rparr>) })"

text \<open>A matcher on the stack: its bytes are whatever the memory held.\<close>

definition stack_matcher :: "'a env \<Rightarrow> 'a dev \<Rightarrow> data_matcher" where
  "stack_matcher E s =
     bte_data_matcher_init \<lparr>num_rules = env_fresh E s 0,
                            bytes = map (\<lambda>i. env_fresh E s (Suc i)) [0..<BTE_DATA_MATCHER_MAX_LEN]\<rparr>"

definition bte_hci_dev_add_command_no_reply ::
    "'a env \<Rightarrow> u16 \<Rightarrow> byte \<Rightarrow> byte \<Rightarrow> 'a dev \<Rightarrow> bte_buffer option" where
  "bte_hci_dev_add_command_no_reply E ocf ogf len s = hci_command_alloc E ocf ogf len s"

text \<open>\<^verbatim>\<open>cmd_status.client_cb\<close>, which is \<^verbatim>\<open>cmd_complete.client_cb\<close> too.\<close>

fun base_client_cb :: "command_cb_union \<Rightarrow> cb_ptr option" where
  "base_client_cb (Cmd_complete f cb) = Some cb"
| "base_client_cb (Cmd_status f cb) = Some cb"
| "base_client_cb _ = None"

definition bte_hci_dev_add_command ::
    "'a env \<Rightarrow> hci_ptr \<Rightarrow> u16 \<Rightarrow> byte \<Rightarrow> byte \<Rightarrow> byte \<Rightarrow> command_cb_union \<Rightarrow> u64 \<Rightarrow> 'a dev
     \<Rightarrow> (bte_buffer option \<times> 'a dev) option" where
  "bte_hci_dev_add_command E hci ocf ogf len reply_event command_cb userdata s =
     do { base_cb \<leftarrow> base_client_cb command_cb;
          buffer \<leftarrow> hci_command_alloc E ocf ogf len s;
          (_, m1) \<leftarrow> bte_data_matcher_add_rule (stack_matcher E s) [reply_event] 1 0;
          (_, m2) \<leftarrow> (if reply_event = HCI_COMMAND_COMPLETE
             then bte_data_matcher_add_rule m1 (data buffer) 2 (of_nat HCI_CMD_REPLY_POS_OPCODE)
             else bte_data_matcher_add_rule m1 (data buffer) 2 (of_nat HCI_CMD_STATUS_POS_OPCODE));
          (pending_command, s1) \<leftarrow> bte_hci_dev_alloc_command m2 s;
          case pending_command of
            Some i \<Rightarrow> do {
              pc \<leftarrow> get_pc s1 i;
              s2 \<leftarrow> put_pc s1 i (pc\<lparr>pc_command_cb := command_cb, pc_hci := hci, pc_userdata := userdata\<rparr>);
              Some (Some buffer, s2) }
          | None \<Rightarrow>
              if base_cb \<noteq> None
              then do { s2 \<leftarrow> call_client_void E base_cb hci (Reply BTE_HCI_MEMORY_FULL) userdata s1;
                        Some (None, s2) }
              else Some (None, s1) }"

definition bte_hci_dev_add_pending_command ::
    "'a env \<Rightarrow> hci_ptr \<Rightarrow> u16 \<Rightarrow> byte \<Rightarrow> byte \<Rightarrow> command_cb \<Rightarrow> cb_ptr \<Rightarrow> u64 \<Rightarrow> 'a dev
     \<Rightarrow> (bte_buffer option \<times> 'a dev) option" where
  "bte_hci_dev_add_pending_command E hci ocf ogf len command_cb client_cb userdata s =
     bte_hci_dev_add_command E hci ocf ogf len HCI_COMMAND_COMPLETE
       (Cmd_complete command_cb client_cb) userdata s"

definition bte_hci_dev_add_pending_async_command ::
    "'a env \<Rightarrow> hci_ptr \<Rightarrow> u16 \<Rightarrow> byte \<Rightarrow> byte \<Rightarrow> status_cb option \<Rightarrow> cb_ptr \<Rightarrow> u64 \<Rightarrow> 'a dev
     \<Rightarrow> (bte_buffer option \<times> 'a dev) option" where
  "bte_hci_dev_add_pending_async_command E hci ocf ogf len command_cb client_cb userdata s =
     bte_hci_dev_add_command E hci ocf ogf len HCI_COMMAND_STATUS
       (Cmd_status command_cb client_cb) userdata s"

section \<open>Events\<close>

definition deliver_status_to_client ::
    "'a env \<Rightarrow> 'a hci_dispatch \<Rightarrow> bte_buffer \<Rightarrow> 'a dev \<Rightarrow> 'a dev option" where
  "deliver_status_to_client E D buffer s =
     do { found \<leftarrow> bte_hci_dev_find_pending_command buffer s;
          case found of None \<Rightarrow> Some s
          | Some i \<Rightarrow> do {
              pc \<leftarrow> get_pc s i;
              (command_status_cb, client_cb) \<leftarrow>
                (case pc_command_cb pc of Cmd_status f cb \<Rightarrow> Some (f, cb) | _ \<Rightarrow> None);
              status \<leftarrow> rd8 (data buffer) HCI_CMD_STATUS_POS_STATUS;
              s1 \<leftarrow> (case command_status_cb of
                       Some f \<Rightarrow> d_status_cb D f (pc_hci pc) status i s
                     | None \<Rightarrow> bte_hci_dev_free_command i s);
              if client_cb \<noteq> None
              then call_client_void E client_cb (pc_hci pc) (Reply status) (pc_userdata pc) s1
              else Some s1 } }"

definition deliver_reply_to_client ::
    "'a hci_dispatch \<Rightarrow> bte_buffer \<Rightarrow> 'a dev \<Rightarrow> 'a dev option" where
  "deliver_reply_to_client D buffer s =
     do { found \<leftarrow> bte_hci_dev_find_pending_command buffer s;
          case found of None \<Rightarrow> Some s
          | Some i \<Rightarrow> do {
              pc \<leftarrow> get_pc s i;
              (command_cb, client_cb) \<leftarrow>
                (case pc_command_cb pc of Cmd_complete f cb \<Rightarrow> Some (f, cb) | _ \<Rightarrow> None);
              s1 \<leftarrow> bte_hci_dev_free_command i s;
              d_command_cb D command_cb (pc_hci pc) buffer client_cb (pc_userdata pc) s1 } }"

text \<open>\<open>d\<close> is the memory of the packet from its start and \<open>off\<close> the offset of \<^verbatim>\<open>data\<close>.\<close>

definition handle_info_param :: "u16 \<Rightarrow> mem \<Rightarrow> nat \<Rightarrow> 'a dev \<Rightarrow> 'a dev option" where
  "handle_info_param ocf d off s =
     (if ocf = HCI_R_LOC_FEAT_OCF then
        do { st \<leftarrow> rd8 d off;
             features \<leftarrow> (if st = BTE_HCI_SUCCESS then read_le64 d (off + 1) else Some 0);
             Some (s\<lparr>supported_features := features,
                     info_flags := info_flags s OR BTE_HCI_INFO_GOT_FEATURES\<rparr>) }
      else Some s)"

definition handle_host_control :: "u16 \<Rightarrow> mem \<Rightarrow> nat \<Rightarrow> 'a dev \<Rightarrow> 'a dev option" where
  "handle_host_control ocf d off s = Some s"

definition handle_command_complete ::
    "'a hci_dispatch \<Rightarrow> bte_buffer \<Rightarrow> byte \<Rightarrow> 'a dev \<Rightarrow> 'a dev option" where
  "handle_command_complete D buf len s =
     do { np \<leftarrow> rd8 (data buf) 2;
          let s1 = s\<lparr>num_packets := uint np\<rparr>;
          if len < 3 then Some s1
          else do {
            opcode \<leftarrow> read_le16 (data buf) 3;
            let ocf = opcode AND 0x03ff;
            let ogf = (ucast (drop_bit 10 opcode) :: byte);
            s2 \<leftarrow> (if ogf = HCI_INFO_PARAM_OGF then handle_info_param ocf (data buf) 5 s1
                   else if ogf = HCI_HC_BB_OGF then handle_host_control ocf (data buf) 5 s1
                   else Some s1);
            deliver_reply_to_client D buf s2 } }"

definition handle_command_status ::
    "'a env \<Rightarrow> 'a hci_dispatch \<Rightarrow> bte_buffer \<Rightarrow> 'a dev \<Rightarrow> 'a dev option" where
  "handle_command_status E D buf s =
     do { np \<leftarrow> rd8 (data buf) 3;
          deliver_status_to_client E D buf (s\<lparr>num_packets := uint np\<rparr>) }"

definition run_event_handler ::
    "'a hci_dispatch \<Rightarrow> byte \<Rightarrow> bte_buffer \<Rightarrow> 'a dev \<Rightarrow> 'a dev option" where
  "run_event_handler D code buf s =
     (case bte_hci_dev_handler_for_event code of None \<Rightarrow> Some s
      | Some i \<Rightarrow> do {
          h \<leftarrow> get_handler s i;
          case h of None \<Rightarrow> Some s | Some f \<Rightarrow> d_event_handler D f buf s })"

definition bte_hci_dev_handle_event ::
    "'a env \<Rightarrow> 'a hci_dispatch \<Rightarrow> bte_buffer \<Rightarrow> 'a dev \<Rightarrow> (int \<times> 'a dev) option" where
  "bte_hci_dev_handle_event E D buf s =
     do { code \<leftarrow> rd8 (data buf) 0;
          len \<leftarrow> rd8 (data buf) 1;
          s1 \<leftarrow> (if code = HCI_COMMAND_COMPLETE then handle_command_complete D buf len s
                 else if code = HCI_COMMAND_STATUS then handle_command_status E D buf s
                 else Some s);
          s2 \<leftarrow> run_event_handler D code buf s1;
          Some (0, s2) }"

definition bte_hci_dev_handle_data ::
    "'a hci_dispatch \<Rightarrow> bte_buffer \<Rightarrow> 'a dev \<Rightarrow> (int \<times> 'a dev) option" where
  "bte_hci_dev_handle_data D buf s =
     do { s1 \<leftarrow> (case data_handler_cb s of Some f \<Rightarrow> d_data_handler D f buf s | None \<Rightarrow> Some s);
          Some (0, s1) }"

definition bte_hci_dev_install_event_handler ::
    "byte \<Rightarrow> event_handler option \<Rightarrow> 'a dev \<Rightarrow> 'a dev option" where
  "bte_hci_dev_install_event_handler event_code handler_cb s =
     (case bte_hci_dev_handler_for_event event_code of None \<Rightarrow> Some s
      | Some i \<Rightarrow> do {
          _ \<leftarrow> get_handler s i;
          Some (s\<lparr>event_handlers := (event_handlers s)[i := handler_cb]\<rparr>) })"

section \<open>The queue of data packets\<close>

text \<open>
  The loop of \<^verbatim>\<open>_bte_hci_send_queued_data\<close>: a packet is sent alone, whatever the backend
  answers, for as long as the controller has room.
\<close>

fun send_queued_loop ::
    "(mem list \<Rightarrow> mem \<Rightarrow> int) \<Rightarrow> chain \<Rightarrow> u16 \<Rightarrow> mem list \<Rightarrow> int \<Rightarrow> int
     \<Rightarrow> (chain \<times> u16 \<times> mem list \<times> int \<times> int) option" where
  "send_queued_loop send [] avail wire sent errors = Some ([], avail, wire, sent, errors)"
| "send_queued_loop send (b # next) avail wire sent errors =
     (if avail > 0 then
        do { pkt \<leftarrow> slice (data b) 0 (unat (size b));
             let rc = send wire pkt;
             if rc < 0 then send_queued_loop send next (avail - 1) (wire @ [pkt]) sent (errors + 1)
             else send_queued_loop send next (avail - 1) (wire @ [pkt]) (sent + 1) errors }
      else Some (b # next, avail, wire, sent, errors))"

definition bte_hci_send_queued_data :: "'a env \<Rightarrow> 'a dev \<Rightarrow> (int \<times> 'a dev) option" where
  "bte_hci_send_queued_data E s =
     do { (next, avail, wire, sent, errors) \<leftarrow>
            send_queued_loop (be_hci_send_data E) (outgoing_acl_packets s) (acl_available_packets s)
              (data_wire s) 0 0;
          Some (if errors = 0 then sent else - errors,
                s\<lparr>outgoing_acl_packets := next, acl_available_packets := avail, data_wire := wire\<rparr>) }"

definition bte_hci_dev_on_completed_packets :: "'a env \<Rightarrow> u16 \<Rightarrow> 'a dev \<Rightarrow> 'a dev option" where
  "bte_hci_dev_on_completed_packets E n s =
     map_option snd (bte_hci_send_queued_data E
       (s\<lparr>acl_available_packets := acl_available_packets s + n\<rparr>))"

definition bte_hci_dev_set_buffer_size :: "u16 \<Rightarrow> u16 \<Rightarrow> byte \<Rightarrow> u16 \<Rightarrow> 'a dev \<Rightarrow> 'a dev" where
  "bte_hci_dev_set_buffer_size mtu max_packets smtu smax_packets s =
     (let s1 = s\<lparr>acl_mtu := mtu, acl_max_packets := max_packets, sco_mtu := smtu,
                 sco_max_packets := smax_packets\<rparr>
      in if acl_available_packets s1 = BTE_ACL_AVAILABLE_PACKETS_UNSET
         then s1\<lparr>acl_available_packets := max_packets\<rparr> else s1)"

section \<open>Initialisation and clients\<close>

definition bte_hci_dev_init :: "'a env \<Rightarrow> 'a dev \<Rightarrow> (int \<times> 'a dev) option" where
  "bte_hci_dev_init E s =
     (if init_status s \<noteq> BTE_HCI_INIT_STATUS_UNINITIALIZED
      then Some (if init_status s = BTE_HCI_INIT_STATUS_FAILED then - EIO else 0, s)
      else let s1 = s\<lparr>init_status := BTE_HCI_INIT_STATUS_INITIALIZING,
                      acl_available_packets := BTE_ACL_AVAILABLE_PACKETS_UNSET\<rparr>;
               rc = be_init E s1
           in if rc < 0 then Some (rc, s1) else driver_init E s1)"

fun first_free :: "nat option list \<Rightarrow> nat \<Rightarrow> nat option" where
  "first_free [] i = None"
| "first_free (c # cs) i = (if c = None then Some i else first_free cs (Suc i))"

definition bte_hci_dev_add_client :: "nat \<Rightarrow> 'a dev \<Rightarrow> bool \<times> 'a dev" where
  "bte_hci_dev_add_client client s =
     (case first_free (clients s) 0 of
        Some i \<Rightarrow> (True, s\<lparr>clients := (clients s)[i := Some client]\<rparr>)
      | None \<Rightarrow> (False, s))"

definition bte_hci_dev_remove_client :: "'a env \<Rightarrow> nat \<Rightarrow> 'a dev \<Rightarrow> 'a dev option" where
  "bte_hci_dev_remove_client E client s =
     do { s1 \<leftarrow> hci_dev_dispose (Some client) s;
          let s2 = s1\<lparr>clients := map (\<lambda>c. if c = Some client then None else c) (clients s1)\<rparr>;
          let active_clients = length (filter (\<lambda>c. c \<noteq> None) (clients s2));
          Some (if active_clients = 0 then be_deinit E s2 else s2) }"

fun set_status_loop :: "'a env \<Rightarrow> bool \<Rightarrow> nat list \<Rightarrow> 'a dev \<Rightarrow> 'a dev option" where
  "set_status_loop E success [] s = Some s"
| "set_status_loop E success (i # is) s =
     (if i < length (clients s) then
        (case clients s ! i of None \<Rightarrow> set_status_loop E success is s
         | Some client \<Rightarrow> do {
             t \<leftarrow> get_tmp s (Some client);
             s1 \<leftarrow> (if tmp_client_cb t \<noteq> None
                    then do { ud \<leftarrow> tmp_userdata t;
                              call_client_void E (tmp_client_cb t) (Some client) (Initialized success) ud s }
                    else Some s);
             set_status_loop E success is s1 })
      else None)"

definition bte_hci_dev_set_status :: "'a env \<Rightarrow> hci_init_status \<Rightarrow> 'a dev \<Rightarrow> 'a dev option" where
  "bte_hci_dev_set_status E status s =
     (let s1 = s\<lparr>init_status := status\<rparr>
      in if status = BTE_HCI_INIT_STATUS_INITIALIZED \<or> status = BTE_HCI_INIT_STATUS_FAILED
         then set_status_loop E (status = BTE_HCI_INIT_STATUS_INITIALIZED)
                [0..<BTE_HCI_MAX_CLIENTS] s1
         else Some s1)"

definition bte_hci_dev_inquiry_cleanup :: "'a dev \<Rightarrow> 'a dev" where
  "bte_hci_dev_inquiry_cleanup s = s\<lparr>inquiry_responses := None, inquiry_num_responses := 0\<rparr>"

definition bte_hci_dev_stored_keys_cleanup :: "'a dev \<Rightarrow> 'a dev" where
  "bte_hci_dev_stored_keys_cleanup s =
     s\<lparr>stored_keys_responses := None, stored_keys_num_responses := 0\<rparr>"

fun combined_scan_loop :: "(nat \<Rightarrow> bte_client option) \<Rightarrow> nat option list \<Rightarrow> byte \<Rightarrow> byte option" where
  "combined_scan_loop heap [] mode = Some mode"
| "combined_scan_loop heap (None # cs) mode = combined_scan_loop heap cs mode"
| "combined_scan_loop heap (Some c # cs) mode =
     do { cl \<leftarrow> heap c; combined_scan_loop heap cs (mode OR scan_mode cl) }"

definition bte_hci_dev_combined_scan_mode :: "'a dev \<Rightarrow> byte option" where
  "bte_hci_dev_combined_scan_mode s = combined_scan_loop (client_heap s) (clients s) 0"

section \<open>The invariant of the device\<close>

definition busy :: "pending_command \<Rightarrow> bool" where
  "busy pc \<longleftrightarrow> \<not> bte_data_matcher_is_empty (pc_matcher pc)"

definition pc_rules :: "pending_command \<Rightarrow> rule list" where
  "pc_rules pc = matcher_rules (pc_matcher pc)"

definition pc_ok :: "pending_command \<Rightarrow> bool" where
  "pc_ok pc \<longleftrightarrow> represents (pc_matcher pc) (pc_rules pc)"

definition dev_ok :: "'a dev \<Rightarrow> bool" where
  "dev_ok s \<longleftrightarrow>
     length (pending_commands s) = BTE_HCI_MAX_PENDING_COMMANDS \<and> list_all pc_ok (pending_commands s) \<and>
     unat (num_pending_commands s) = length (filter busy (pending_commands s)) \<and>
     length (clients s) = BTE_HCI_MAX_CLIENTS \<and>
     length (event_handlers s) = unat BTE_HCI_EVENT_LAST"

text \<open>What the table of pending commands stands for: the rules of each slot that is in use.\<close>

definition table :: "'a dev \<Rightarrow> rule list option list" where
  "table s = map (\<lambda>pc. if busy pc then Some (pc_rules pc) else None) (pending_commands s)"

definition hits :: "mem \<Rightarrow> rule list option \<Rightarrow> bool" where
  "hits pkt e \<longleftrightarrow> (case e of None \<Rightarrow> False | Some rs \<Rightarrow> list_all (rule_matches pkt) rs)"

fun first_index :: "('a \<Rightarrow> bool) \<Rightarrow> 'a list \<Rightarrow> nat option" where
  "first_index P [] = None"
| "first_index P (x # xs) = (if P x then Some 0 else map_option Suc (first_index P xs))"

lemma first_index_Some:
  "first_index P xs = Some i \<longleftrightarrow> i < length xs \<and> P (xs ! i) \<and> (\<forall>j < i. \<not> P (xs ! j))"
proof (induction xs arbitrary: i)
  case (Cons x xs)
  show ?case by (cases i) (auto simp: Cons.IH All_less_Suc2 less_Suc_eq_0_disj)
qed simp

lemma first_index_None: "first_index P xs = None \<longleftrightarrow> (\<forall>x \<in> set xs. \<not> P x)"
  by (induction xs) auto

lemma first_index_map: "first_index P (map f xs) = first_index (\<lambda>x. P (f x)) xs"
  by (induction xs) auto

lemma busy_rules: "pc_ok pc \<Longrightarrow> busy pc \<longleftrightarrow> pc_rules pc \<noteq> []"
  by (simp add: busy_def pc_ok_def bte_matcher.empty_law)

lemma find_pending_loop_spec:
  "list_all pc_ok pcs \<Longrightarrow> n \<le> length d \<Longrightarrow>
   find_pending_loop pcs i d n =
     Some (map_option (\<lambda>k. k + i)
       (first_index (hits (take n d)) (map (\<lambda>pc. if busy pc then Some (pc_rules pc) else None) pcs)))"
proof (induction pcs arbitrary: i)
  case (Cons pc pcs)
  then have "bte_data_matcher_compare (pc_matcher pc) d n =
      Some (list_all (rule_matches (take n d)) (pc_rules pc))"
    by (simp add: pc_ok_def bte_matcher.compare_law)
  with Cons show ?case
    by (auto simp: hits_def busy_def option.map_comp comp_def)
qed simp

lemma find_spec:
  "dev_ok s \<Longrightarrow> n \<le> length d \<Longrightarrow>
   bte_hci_dev_find_pending_command_raw d n s = Some (first_index (hits (take n d)) (table s))"
  using find_pending_loop_spec [of "pending_commands s" n d 0]
  by (simp add: dev_ok_def bte_hci_dev_find_pending_command_raw_def table_def option.map_ident)

lemma alloc_scan_spec:
  "list_all pc_ok pcs \<Longrightarrow> represents m rs \<Longrightarrow>
   alloc_command_scan m pcs i = Some (
     case first_index (\<lambda>pc. \<not> busy pc \<or> pc_rules pc = rs) pcs of
       None \<Rightarrow> None | Some k \<Rightarrow> if busy (pcs ! k) then None else Some (k + i))"
proof (induction pcs arbitrary: i)
  case (Cons pc pcs)
  then have "bte_data_matcher_is_same m (pc_matcher pc) = Some (rs = pc_rules pc)"
    by (simp add: pc_ok_def bte_matcher.same_law)
  with Cons show ?case
    by (auto simp: busy_def split: option.splits)
qed simp

lemma filter_len_fill:
  "i < length xs \<Longrightarrow> \<not> P (xs ! i) \<Longrightarrow> P x \<Longrightarrow>
   length (filter P (xs[i := x])) = Suc (length (filter P xs))"
proof (induction xs arbitrary: i)
  case (Cons y ys)
  then show ?case by (cases i) auto
qed simp

lemma filter_len_clear:
  "i < length xs \<Longrightarrow> P (xs ! i) \<Longrightarrow> \<not> P x \<Longrightarrow>
   Suc (length (filter P (xs[i := x]))) = length (filter P xs)"
proof (induction xs arbitrary: i)
  case (Cons y ys)
  then show ?case by (cases i) auto
qed simp

lemma list_all_update: "list_all P xs \<Longrightarrow> P x \<Longrightarrow> list_all P (xs[i := x])"
  by (auto simp: list_all_iff dest: set_update_subset_insert [THEN subsetD])

lemma dev_ok_pc: "dev_ok s \<Longrightarrow> i < length (pending_commands s) \<Longrightarrow> pc_ok (pending_commands s ! i)"
  by (simp add: dev_ok_def list_all_length)

lemma free_spec:
  assumes "dev_ok s" and "i < BTE_HCI_MAX_PENDING_COMMANDS" and "table s ! i \<noteq> None"
  shows "\<exists>s'. bte_hci_dev_free_command i s = Some s' \<and> dev_ok s' \<and> table s' = (table s)[i := None] \<and>
     clients s' = clients s \<and> client_heap s' = client_heap s \<and> command_wire s' = command_wire s \<and>
     event_handlers s' = event_handlers s"
proof -
  let ?pcs = "pending_commands s"
  have len: "length ?pcs = 8" using assms(1) by (simp add: dev_ok_def)
  define pc where "pc = (?pcs ! i)\<lparr>pc_matcher := bte_data_matcher_init (pc_matcher (?pcs ! i))\<rparr>"
  have b: "busy (?pcs ! i)" using assms len by (simp add: table_def split: if_splits)
  have ok: "pc_ok (?pcs ! i)" using dev_ok_pc [OF assms(1)] assms(2) len by simp
  then have rep: "represents (pc_matcher pc) []"
    by (auto simp: pc_def pc_ok_def represents_def bte_data_matcher_init_def)
  then have pc: "pc_ok pc" "\<not> busy pc"
    by (simp_all add: pc_ok_def pc_rules_def represents_rules busy_def bte_matcher.empty_law)
  have cnt: "Suc (length (filter busy (?pcs[i := pc]))) = length (filter busy ?pcs)"
    using filter_len_clear [of i ?pcs busy pc] b pc len assms(2) by simp
  then have "unat (num_pending_commands s - 1) = length (filter busy (?pcs[i := pc]))"
    using unat_sub_of_nat [of 1 "num_pending_commands s"] assms(1) by (simp add: dev_ok_def)
  then have "dev_ok (s\<lparr>pending_commands := ?pcs[i := pc],
      num_pending_commands := num_pending_commands s - 1\<rparr>)"
    using assms(1) pc by (simp add: dev_ok_def list_all_update)
  then show ?thesis
    using assms(2) len pc
    by (simp add: bte_hci_dev_free_command_def get_pc_def put_pc_def pc_def [symmetric] table_def map_update)
qed

lemma table_simps [simp]:
  "length (table s) = length (pending_commands s)"
  "i < length (pending_commands s) \<Longrightarrow>
   table s ! i = (if busy (pending_commands s ! i) then Some (pc_rules (pending_commands s ! i)) else None)"
  by (simp_all add: table_def)

text \<open>Taking a slot: the entry is stored and counted.\<close>

definition set_slot :: "nat \<Rightarrow> pending_command \<Rightarrow> 'a dev \<Rightarrow> 'a dev" where
  "set_slot i pc s = s\<lparr>num_pending_commands := num_pending_commands s + 1,
                       pending_commands := (pending_commands s)[i := pc]\<rparr>"

lemma set_slot_spec:
  assumes "dev_ok s" and "represents (pc_matcher pc) rs" and "rs \<noteq> []"
    and "i < length (table s)" and "table s ! i = None"
  shows "dev_ok (set_slot i pc s)" and "table (set_slot i pc s) = (table s)[i := Some rs]"
proof -
  let ?pcs = "pending_commands s"
  have len: "length ?pcs = 8" using assms(1) by (simp add: dev_ok_def)
  have b: "\<not> busy (?pcs ! i)" using assms(4,5) by (simp split: if_splits)
  have rules: "pc_rules pc = rs" using assms(2) by (simp add: pc_rules_def represents_rules)
  with assms(2) have ok: "pc_ok pc" by (simp add: pc_ok_def)
  with rules assms(3) have b': "busy pc" by (simp add: busy_rules)
  have cnt: "length (filter busy (?pcs[i := pc])) = Suc (length (filter busy ?pcs))"
    using filter_len_fill [of i ?pcs busy pc] b b' assms(4) by simp
  moreover have "length (filter busy ?pcs) \<le> 8" using len length_filter_le [of busy ?pcs] by simp
  ultimately have "unat (num_pending_commands s + 1) = length (filter busy (?pcs[i := pc]))"
    using unat_add_of_nat [of "num_pending_commands s" 1] assms(1) by (simp add: dev_ok_def)
  then show "dev_ok (set_slot i pc s)"
    using assms(1) ok by (simp add: set_slot_def dev_ok_def list_all_update)
  show "table (set_slot i pc s) = (table s)[i := Some rs]"
    using rules b' by (simp add: set_slot_def table_def map_update)
qed

lemma matcher_copy_eq [simp]: "bte_data_matcher_copy m' m = m"
  by (simp add: bte_data_matcher_copy_def)

lemma free_exists:
  assumes "dev_ok s" shows "num_pending_commands s < 8 \<longleftrightarrow> None \<in> set (table s)"
proof -
  have "length (filter busy (pending_commands s)) < length (pending_commands s) \<longleftrightarrow>
        (\<exists>pc \<in> set (pending_commands s). \<not> busy pc)"
    using length_filter_less [of _ "pending_commands s" busy] length_filter_le
    by (metis (mono_tags, lifting) filter_id_conv less_irrefl_nat)
  then show ?thesis using assms
    by (auto simp: dev_ok_def word_less_nat_alt table_def split: if_splits)
qed

definition alloc_slot :: "rule list \<Rightarrow> rule list option list \<Rightarrow> nat option" where
  "alloc_slot rs t =
     (case first_index (\<lambda>e. e = None \<or> e = Some rs) t of
        None \<Rightarrow> None | Some i \<Rightarrow> if t ! i = None then Some i else None)"

lemma alloc_spec:
  assumes "dev_ok s" and "represents m rs" and "rs \<noteq> []"
  shows "bte_hci_dev_alloc_command m s =
     Some (case alloc_slot rs (table s) of None \<Rightarrow> (None, s) | Some i \<Rightarrow>
             (Some i, set_slot i ((pending_commands s ! i)\<lparr>pc_matcher := m\<rparr>) s))"
proof -
  let ?pcs = "pending_commands s"
  have len: "length ?pcs = 8" and ok: "list_all pc_ok ?pcs" using assms(1) by (simp_all add: dev_ok_def)
  have idx: "first_index (\<lambda>e. e = None \<or> e = Some rs) (table s) =
      first_index (\<lambda>pc. \<not> busy pc \<or> pc_rules pc = rs) ?pcs"
    unfolding table_def first_index_map
    by (rule arg_cong [where f = "\<lambda>P. first_index P (pending_commands s)"]) auto
  have scan: "alloc_command_scan m ?pcs 0 = Some (alloc_slot rs (table s))"
  proof (cases "first_index (\<lambda>e. e = None \<or> e = Some rs) (table s)")
    case None
    with alloc_scan_spec [OF ok assms(2), of 0, folded idx] show ?thesis by (simp add: alloc_slot_def)
  next
    case (Some k)
    then have "k < length ?pcs" by (simp add: first_index_Some)
    with Some alloc_scan_spec [OF ok assms(2), of 0, folded idx] show ?thesis
      by (simp add: alloc_slot_def)
  qed
  have fast: "alloc_slot rs (table s) = Some 0" if "num_pending_commands s = 0"
  proof -
    have "filter busy ?pcs = []" using that assms(1) by (simp add: dev_ok_def)
    then have "\<not> busy (?pcs ! 0)" using len by (simp add: filter_empty_conv)
    then have t0: "table s ! 0 = None" using len by simp
    then have "first_index (\<lambda>e. e = None \<or> e = Some rs) (table s) = Some 0"
      using len by (simp only: first_index_Some table_simps) simp
    with t0 show ?thesis by (simp only: alloc_slot_def option.case simp_thms if_True)
  qed
  have full: "alloc_slot rs (table s) = None" if "\<not> num_pending_commands s < 8"
    using that free_exists [OF assms(1)]
    by (auto simp: alloc_slot_def first_index_Some simp del: table_simps(2) split: option.splits)
       (metis nth_mem table_simps(1))
  have "i < 8" if "alloc_slot rs (table s) = Some i" for i
    using that len by (auto simp: alloc_slot_def first_index_Some split: option.splits if_splits)
  then show ?thesis
    using scan fast full len
    by (auto simp: bte_hci_dev_alloc_command_def get_pc_def put_pc_def set_slot_def split: option.splits)
qed

section \<open>The interface of the table\<close>

locale reply_table =
  fixes ok :: "'s \<Rightarrow> bool"
    and slots :: "'s \<Rightarrow> rule list option list"
    and alloc :: "data_matcher \<Rightarrow> 's \<Rightarrow> (nat option \<times> 's) option"
    and free :: "nat \<Rightarrow> 's \<Rightarrow> 's option"
    and find :: "mem \<Rightarrow> nat \<Rightarrow> 's \<Rightarrow> nat option option"
  assumes find_law: "ok s \<Longrightarrow> n \<le> length d \<Longrightarrow> find d n s = Some (first_index (hits (take n d)) (slots s))"
    and free_law: "ok s \<Longrightarrow> i < length (slots s) \<Longrightarrow> slots s ! i \<noteq> None \<Longrightarrow>
      \<exists>s'. free i s = Some s' \<and> ok s' \<and> slots s' = (slots s)[i := None]"
    and alloc_law: "ok s \<Longrightarrow> represents m rs \<Longrightarrow> rs \<noteq> [] \<Longrightarrow>
      \<exists>r s'. alloc m s = Some (r, s') \<and> r = alloc_slot rs (slots s) \<and> ok s' \<and>
        slots s' = (case r of None \<Rightarrow> slots s | Some i \<Rightarrow> (slots s)[i := Some rs])"
begin

lemma alloc_slot_free: "alloc_slot rs t = Some i \<Longrightarrow> i < length t \<and> t ! i = None \<and> (\<forall>j < i. t ! j \<noteq> Some rs)"
  by (auto simp: alloc_slot_def first_index_Some split: option.splits if_splits)

text \<open>A packet that matches a new entry, and none of the others, is found in its slot.\<close>

lemma alloc_find:
  assumes "ok s" and "represents m rs" and "rs \<noteq> []" and "alloc m s = Some (Some i, s')"
    and "n \<le> length d" and "list_all (rule_matches (take n d)) rs" and "\<forall>e \<in> set (slots s). \<not> hits (take n d) e"
  shows "find d n s' = Some (Some i)"
proof -
  have s': "alloc_slot rs (slots s) = Some i" "ok s'" "slots s' = (slots s)[i := Some rs]"
    using alloc_law [OF assms(1-3)] assms(4) by auto
  note fr = alloc_slot_free [OF s'(1)]
  have "first_index (hits (take n d)) ((slots s)[i := Some rs]) = Some i"
    using fr assms(6,7) by (auto simp: first_index_Some hits_def)
  then show ?thesis using find_law [OF s'(2) assms(5)] s'(3) by simp
qed

text \<open>Allocating an entry and freeing it leaves the table as it was.\<close>

lemma alloc_free:
  assumes "ok s" and "represents m rs" and "rs \<noteq> []" and "alloc m s = Some (Some i, s')"
  shows "\<exists>s''. free i s' = Some s'' \<and> ok s'' \<and> slots s'' = slots s"
proof -
  have s': "alloc_slot rs (slots s) = Some i" "ok s'" "slots s' = (slots s)[i := Some rs]"
    using alloc_law [OF assms(1-3)] assms(4) by auto
  note fr = alloc_slot_free [OF s'(1)]
  obtain s'' where "free i s' = Some s''" "ok s''" "slots s'' = (slots s')[i := None]"
    using free_law [OF s'(2), of i] s'(3) fr by auto
  moreover have "((slots s)[i := Some rs])[i := None] = slots s"
    using fr by (simp add: list_update_same_conv)
  ultimately show ?thesis using s'(3) by simp
qed

end

lemma alloc_slot_Some: "alloc_slot rs t = Some i \<Longrightarrow> i < length t \<and> t ! i = None"
  by (auto simp: alloc_slot_def first_index_Some split: option.splits if_splits)

interpretation bte_table: reply_table dev_ok table bte_hci_dev_alloc_command bte_hci_dev_free_command
  bte_hci_dev_find_pending_command_raw
proof
  show "\<exists>s'. bte_hci_dev_free_command i s = Some s' \<and> dev_ok s' \<and> table s' = (table s)[i := None]"
    if "dev_ok s" "i < length (table s)" "table s ! i \<noteq> None" for s :: "'a dev" and i
    using free_spec [OF that(1) _ that(3)] that(1,2) by (auto simp: dev_ok_def)
  show "\<exists>r s'. bte_hci_dev_alloc_command m s = Some (r, s') \<and> r = alloc_slot rs (table s) \<and> dev_ok s' \<and>
        table s' = (case r of None \<Rightarrow> table s | Some i \<Rightarrow> (table s)[i := Some rs])"
    if "dev_ok s" "represents m rs" "rs \<noteq> []" for s :: "'a dev" and m rs
    using alloc_spec [OF that] that set_slot_spec [OF that(1) _ that(3)] alloc_slot_Some [of rs "table s"]
    by (cases "alloc_slot rs (table s)") auto
qed (rule find_spec)

section \<open>Commands\<close>

definition cmd_rules :: "byte \<Rightarrow> u16 \<Rightarrow> rule list" where
  "cmd_rules reply_event opcode =
     [(0, [reply_event]), (if reply_event = HCI_COMMAND_COMPLETE then 3 else 4, le_bytes 2 opcode)]"

text \<open>A new command packet: opcode, length of the parameters, and parameters still unwritten.\<close>

definition cmd_header :: "u16 \<Rightarrow> byte \<Rightarrow> byte \<Rightarrow> mem" where
  "cmd_header ocf ogf len = le_bytes 2 (build_opcode ocf ogf) @ [len - 3]"

definition cmd_buffer :: "'a env \<Rightarrow> 'a dev \<Rightarrow> u16 \<Rightarrow> byte \<Rightarrow> byte \<Rightarrow> bte_buffer" where
  "cmd_buffer E s ocf ogf len =
     \<lparr>ref_count = 1, total_size = ucast len, size = ucast len,
      data = cmd_header ocf ogf len @ map (\<lambda>i. env_fresh E s (i + 35)) [0..<unat len - 3]\<rparr>"

lemma map_upt_shift: "map f [k..<n] = map (\<lambda>i. f (i + k)) [0..<n - k]"
  by (rule nth_equalityI) (simp_all add: add.commute)

lemma wr_header:
  assumes "length h = 2" and "3 \<le> length d"
  shows "wr d 0 h \<bind> (\<lambda>d1. wr d1 2 [x]) = Some (h @ [x] @ drop 3 d)"
proof -
  obtain h1 h2 where "h = [h1, h2]" using assms(1) by (auto simp: numeral_2_eq_2 length_Suc_conv)
  moreover obtain a b c r where "d = a # b # c # r"
    using assms(2) by (metis Suc_le_length_iff numeral_3_eq_3)
  ultimately show ?thesis by (simp add: wr_def)
qed

lemma hci_command_alloc_spec:
  assumes "3 \<le> unat len"
  shows "hci_command_alloc E ocf ogf len s = Some (cmd_buffer E s ocf ogf len)"
proof -
  have len: "unat (ucast len :: u16) = unat len" by simp
  have "unat (ucast len :: u16) + sizeof_BteBuffer < 65536"
    using byte_unat_less [of len] by (simp add: sizeof_BteBuffer_def)
  note al = alloc_contiguous_ok [OF this, of "env_fresh E s", unfolded len]
  let ?d = "map (\<lambda>i. env_fresh E s (i + sizeof_BteBuffer)) [0..<unat len]"
  have "drop 3 ?d = map (\<lambda>i. env_fresh E s (i + 35)) [0..<unat len - 3]"
    by (simp add: drop_map drop_upt sizeof_BteBuffer_def map_upt_shift [of _ 3] add.commute)
  moreover have "write_le16 v ?d 0 \<bind> (\<lambda>d1. wr d1 2 [x]) = Some (le_bytes 2 v @ [x] @ drop 3 ?d)" for v x
    using wr_header [of "le_bytes 2 v" ?d x] assms by (simp add: write_le16_def)
  ultimately show ?thesis
    using al by (simp add: hci_command_alloc_def cmd_buffer_def cmd_header_def flip: bind_assoc)
qed

lemma stack_matcher_empty: "represents (stack_matcher E s) []"
  by (simp add: stack_matcher_def represents_def bte_data_matcher_init_def)

lemma add_rule_fits:
  assumes "represents m rs" and "unat len \<le> length d"
    and "length (encode_rules rs) + 2 + unat len \<le> BTE_DATA_MATCHER_MAX_LEN"
  shows "\<exists>m'. bte_data_matcher_add_rule m d len offset = Some (True, m') \<and>
     represents m' (rs @ [(offset, take (unat len) d)])"
  using bte_matcher.add_law [OF assms(1,2), of offset] assms(3) by auto

lemma cmd_matcher:
  assumes "take 2 d = le_bytes 2 opcode"
  shows "\<exists>m1 m2. bte_data_matcher_add_rule (stack_matcher E s) [ev] 1 0 = Some (True, m1) \<and>
     (if ev = HCI_COMMAND_COMPLETE then bte_data_matcher_add_rule m1 d 2 (of_nat HCI_CMD_REPLY_POS_OPCODE)
      else bte_data_matcher_add_rule m1 d 2 (of_nat HCI_CMD_STATUS_POS_OPCODE)) = Some (True, m2) \<and>
     represents m2 (cmd_rules ev opcode)"
proof -
  have "length (take 2 d) = 2" unfolding assms by simp
  then have len: "2 \<le> length d" by simp
  obtain m1 where m1: "bte_data_matcher_add_rule (stack_matcher E s) [ev] 1 0 = Some (True, m1)"
      "represents m1 [(0, [ev])]"
    using add_rule_fits [OF stack_matcher_empty, of 1 "[ev]" E s 0] by (auto simp: BTE_DATA_MATCHER_MAX_LEN_def)
  have "\<exists>m2. bte_data_matcher_add_rule m1 d 2 pos = Some (True, m2) \<and>
      represents m2 [(0, [ev]), (pos, le_bytes 2 opcode)]" for pos
    using add_rule_fits [OF m1(2), of 2 d pos] len assms by (auto simp: BTE_DATA_MATCHER_MAX_LEN_def)
  with m1 show ?thesis by (auto simp: cmd_rules_def)
qed

definition pending_entry :: "data_matcher \<Rightarrow> hci_ptr \<Rightarrow> command_cb_union \<Rightarrow> u64 \<Rightarrow> pending_command" where
  "pending_entry m hci cb ud = \<lparr>pc_matcher = m, pc_hci = hci, pc_userdata = ud, pc_command_cb = cb\<rparr>"

lemma pending_entry_simps [simp]:
  "pc_matcher (pending_entry m hci cb ud) = m" "pc_hci (pending_entry m hci cb ud) = hci"
  "pc_userdata (pending_entry m hci cb ud) = ud" "pc_command_cb (pending_entry m hci cb ud) = cb"
  by (simp_all add: pending_entry_def)

lemma pending_entry_eq:
  "p\<lparr>pc_matcher := m, pc_command_cb := cb, pc_hci := hci, pc_userdata := ud\<rparr> = pending_entry m hci cb ud"
  by (cases p) (simp add: pending_entry_def)

text \<open>
  Adding a command: either it takes a slot of the table and the caller gets the packet to fill in,
  or the client is told that there is no room and the caller gets no packet.
\<close>

lemma add_command_spec:
  assumes "dev_ok s" and "3 \<le> unat len" and "base_client_cb cb = Some base"
    and "rs = cmd_rules ev (build_opcode ocf ogf)"
  shows "\<exists>m. represents m rs \<and> bte_hci_dev_add_command E hci ocf ogf len ev cb ud s =
     (case alloc_slot rs (table s) of
        Some i \<Rightarrow> Some (Some (cmd_buffer E s ocf ogf len), set_slot i (pending_entry m hci cb ud) s)
      | None \<Rightarrow> if base = None then Some (None, s)
                else map_option (\<lambda>s'. (None, s'))
                  (call_client_void E base hci (Reply BTE_HCI_MEMORY_FULL) ud s))"
proof -
  have d: "take 2 (data (cmd_buffer E s ocf ogf len)) = le_bytes 2 (build_opcode ocf ogf)"
    by (simp add: cmd_buffer_def cmd_header_def)
  have rs: "rs \<noteq> []" by (simp add: assms(4) cmd_rules_def)
  obtain m1 m2 where m: "bte_data_matcher_add_rule (stack_matcher E s) [ev] 1 0 = Some (True, m1)"
     "(if ev = HCI_COMMAND_COMPLETE
       then bte_data_matcher_add_rule m1 (data (cmd_buffer E s ocf ogf len)) 2 (of_nat HCI_CMD_REPLY_POS_OPCODE)
       else bte_data_matcher_add_rule m1 (data (cmd_buffer E s ocf ogf len)) 2 (of_nat HCI_CMD_STATUS_POS_OPCODE))
      = Some (True, m2)" "represents m2 rs"
    using cmd_matcher [OF d, of E s ev] unfolding assms(4) by blast
  note al = alloc_spec [OF assms(1) m(3) rs]
  have eq: "bte_hci_dev_add_command E hci ocf ogf len ev cb ud s =
     (case alloc_slot rs (table s) of
        Some i \<Rightarrow> Some (Some (cmd_buffer E s ocf ogf len), set_slot i (pending_entry m2 hci cb ud) s)
      | None \<Rightarrow> if base = None then Some (None, s)
                else map_option (\<lambda>s'. (None, s'))
                  (call_client_void E base hci (Reply BTE_HCI_MEMORY_FULL) ud s))"
  proof (cases "alloc_slot rs (table s)")
    case None
    then show ?thesis
      unfolding bte_hci_dev_add_command_def hci_command_alloc_spec [OF assms(2)] assms(3)
      using m(1) by (simp add: m(2) al map_conv_bind_option comp_def del: One_nat_def of_nat_numeral)
  next
    case (Some i)
    then have "i < length (pending_commands s)" using alloc_slot_Some [OF Some] by simp
    then show ?thesis
      unfolding bte_hci_dev_add_command_def hci_command_alloc_spec [OF assms(2)] assms(3)
      using m(1) Some by (simp add: m(2) al get_pc_def put_pc_def set_slot_def pending_entry_eq
          del: of_nat_numeral)
  qed
  with m(3) show ?thesis by blast
qed

section \<open>Delivery of replies\<close>

lemma slot_restored: "i < length t \<Longrightarrow> t ! i = None \<Longrightarrow> (t[i := e])[i := None] = t"
  by (simp add: list_update_same_conv)

lemma rule_hit:
  assumes "take (length x) (drop (unat off) pkt) = x" and "x \<noteq> []"
  shows "rule_matches pkt (off, x)"
proof -
  have "min (length x) (length pkt - unat off) = length x" using arg_cong [OF assms(1), of length] by simp
  moreover have "length x \<noteq> 0" using assms(2) by simp
  ultimately have "unat off + length x \<le> length pkt" by arith
  with assms(1) show ?thesis by simp
qed

lemma le_bytes_ne: "n \<noteq> 0 \<Longrightarrow> le_bytes n w \<noteq> []"
  by (cases n) simp_all

lemma cmd_rules_hit:
  assumes "take 1 pkt = [ev]"
    and "take 2 (drop (if ev = HCI_COMMAND_COMPLETE then 3 else 4) pkt) = le_bytes 2 opcode"
  shows "list_all (rule_matches pkt) (cmd_rules ev opcode)"
  using rule_hit [of "[ev]" 0 pkt] assms(1)
    rule_hit [of "le_bytes 2 opcode" "if ev = HCI_COMMAND_COMPLETE then 3 else 4" pkt] assms(2)
  by (auto simp: cmd_rules_def le_bytes_ne simp del: rule_matches.simps split: if_splits)

lemma add_command_accepted:
  assumes "dev_ok s" and "3 \<le> unat len" and "base_client_cb cb = Some base"
    and "rs = cmd_rules ev (build_opcode ocf ogf)"
    and "bte_hci_dev_add_command E hci ocf ogf len ev cb ud s = Some (Some b, s1)"
  shows "\<exists>i m. represents m rs \<and> rs \<noteq> [] \<and> alloc_slot rs (table s) = Some i \<and>
     b = cmd_buffer E s ocf ogf len \<and> s1 = set_slot i (pending_entry m hci cb ud) s"
proof -
  obtain m where m: "represents m rs" "bte_hci_dev_add_command E hci ocf ogf len ev cb ud s =
     (case alloc_slot rs (table s) of
        Some i \<Rightarrow> Some (Some (cmd_buffer E s ocf ogf len), set_slot i (pending_entry m hci cb ud) s)
      | None \<Rightarrow> if base = None then Some (None, s)
                else map_option (\<lambda>s'. (None, s'))
                  (call_client_void E base hci (Reply BTE_HCI_MEMORY_FULL) ud s))"
    using add_command_spec [OF assms(1-4)] by blast
  have "rs \<noteq> []" by (simp add: assms(4) cmd_rules_def)
  moreover have "Some (Some b, s1) \<noteq> map_option (Pair None) x" for x by (cases x) auto
  ultimately show ?thesis
    using m assms(5) by (auto split: option.splits if_splits)
qed

text \<open>Where a registered command is found, what is delivered, and that its slot is free again.\<close>

lemma registered_found:
  assumes "dev_ok s" and "represents m rs" and "rs \<noteq> []" and "alloc_slot rs (table s) = Some i"
    and "unat (size buf) \<le> length (data buf)"
    and "list_all (rule_matches (packet_bytes buf)) rs"
    and "\<forall>e \<in> set (table s). \<not> hits (packet_bytes buf) e"
    and "s1 = set_slot i (pending_entry m hci cb ud) s"
  shows "bte_hci_dev_find_pending_command buf s1 = Some (Some i)"
    and "get_pc s1 i = Some (pending_entry m hci cb ud)"
    and "\<exists>s2. bte_hci_dev_free_command i s1 = Some s2 \<and> dev_ok s2 \<and> table s2 = table s \<and>
          clients s2 = clients s \<and> client_heap s2 = client_heap s \<and> command_wire s2 = command_wire s \<and>
          event_handlers s2 = event_handlers s"
proof -
  have i: "i < length (table s)" "table s ! i = None" using alloc_slot_Some [OF assms(4)] by auto
  have s1: "dev_ok s1" "table s1 = (table s)[i := Some rs]"
    using set_slot_spec [OF assms(1) _ assms(3) i] assms(2,8) by auto
  have "first_index (hits (packet_bytes buf)) ((table s)[i := Some rs]) = Some i"
    using i assms(6,7) nth_mem [of _ "table s"]
    by (fastforce simp: first_index_Some hits_def simp del: table_simps)
  then show "bte_hci_dev_find_pending_command buf s1 = Some (Some i)"
    using find_spec [OF s1(1) assms(5)] s1(2)
    by (simp add: bte_hci_dev_find_pending_command_def packet_bytes_def)
  show "get_pc s1 i = Some (pending_entry m hci cb ud)"
    using i by (simp add: assms(8) get_pc_def set_slot_def)
  have "i < 8" "table s1 ! i \<noteq> None" using i assms(1) s1(2) by (auto simp: dev_ok_def simp del: table_simps(2))
  from free_spec [OF s1(1) this] show "\<exists>s2. bte_hci_dev_free_command i s1 = Some s2 \<and> dev_ok s2 \<and>
      table s2 = table s \<and> clients s2 = clients s \<and> client_heap s2 = client_heap s \<and>
      command_wire s2 = command_wire s \<and> event_handlers s2 = event_handlers s"
    using slot_restored [OF i] s1(2) by (auto simp: assms(8) set_slot_def)
qed

text \<open>
  C16: a reply reaches the command it answers. When a command was accepted by
  \<^verbatim>\<open>_bte_hci_dev_add_pending_command\<close>, and a Command Complete event arrives that carries its opcode
  and matches no command that was pending before, then the callback registered with the command is
  called with the handle, the client callback and the userdata given there, once its slot is free
  again: the table of pending commands is what it was before the command was issued.
\<close>

theorem hci_reply_reaches_its_command:
  assumes "dev_ok s" and "3 \<le> unat len"
    and "bte_hci_dev_add_pending_command E hci ocf ogf len f cb ud s = Some (Some b, s1)"
    and "data buf = [HCI_COMMAND_COMPLETE, plen, np] @ take 2 (data b) @ rest"
    and "5 \<le> unat (size buf)" and "unat (size buf) \<le> length (data buf)"
    and "\<forall>e \<in> set (table s). \<not> hits (packet_bytes buf) e"
  shows "\<exists>s2. deliver_reply_to_client D buf s1 = d_command_cb D f hci buf cb ud s2 \<and>
     dev_ok s2 \<and> table s2 = table s \<and> command_wire s2 = command_wire s"
proof -
  define rs where rs: "rs = cmd_rules HCI_COMMAND_COMPLETE (build_opcode ocf ogf)"
  obtain i m where m: "represents m rs" "rs \<noteq> []" "alloc_slot rs (table s) = Some i"
      and b: "b = cmd_buffer E s ocf ogf len"
      and s1: "s1 = set_slot i (pending_entry m hci (Cmd_complete f cb) ud) s"
    using add_command_accepted [OF assms(1,2) base_client_cb.simps(1) rs]
      assms(3) [unfolded bte_hci_dev_add_pending_command_def] by blast
  have "take 2 (data b) = le_bytes 2 (build_opcode ocf ogf)"
    by (simp add: b cmd_buffer_def cmd_header_def)
  then have d: "data buf = [HCI_COMMAND_COMPLETE, plen, np] @ le_bytes 2 (build_opcode ocf ogf) @ rest"
    using assms(4) by simp
  obtain k where k: "unat (size buf) = Suc (Suc (Suc (Suc (Suc k))))"
    using assms(5) by (auto dest!: le_Suc_ex simp: eval_nat_numeral)
  have "list_all (rule_matches (packet_bytes buf)) rs"
    unfolding rs packet_bytes_def
    by (rule cmd_rules_hit) (simp_all add: d k numeral_2_eq_2 numeral_3_eq_3)
  from registered_found [OF assms(1) m assms(6) this assms(7) s1] show ?thesis
    by (auto simp: deliver_reply_to_client_def)
qed

definition demo_env :: "bte_hci_dev hci_env" where
  "demo_env = \<lparr>env_client = \<lambda>c s. Some (True, s), env_fresh = \<lambda>_ _. 0, be_init = \<lambda>_. 0,
     be_hci_send_command = \<lambda>_ _. 0, be_hci_send_data = \<lambda>_ _. 0, be_deinit = id,
     driver_init = \<lambda>s. Some (0, s)\<rparr>"

definition demo_dispatch :: "bte_hci_dev dispatch" where
  "demo_dispatch = \<lparr>d_command_cb = \<lambda>f hci b cb ud s. Some (s\<lparr>supported_features := ud\<rparr>),
     d_status_cb = \<lambda>f hci st i s. Some s, d_event_handler = \<lambda>f b s. Some s,
     d_data_handler = \<lambda>f b s. Some s\<rparr>"

lemma zero_dev_ok: "dev_ok zero_dev"
  by (simp add: dev_ok_def zero_dev_def zero_pending_command_def zero_matcher_def pc_ok_def list_all_iff
      pc_rules_def matcher_rules_def represents_def busy_def bte_data_matcher_is_empty_def)

lemma zero_dev_table: "table zero_dev = replicate 8 None"
  by (simp add: table_def zero_dev_def zero_pending_command_def zero_matcher_def
      busy_def bte_data_matcher_is_empty_def)

lemma alloc_slot_empty: "alloc_slot rs (replicate (Suc n) None) = Some 0"
  by (simp add: alloc_slot_def)

lemma zero_dev_add:
  assumes "3 \<le> unat len" and "base_client_cb cb = Some base"
  shows "\<exists>m. bte_hci_dev_add_command E hci ocf ogf len ev cb ud zero_dev =
     Some (Some (cmd_buffer E zero_dev ocf ogf len), set_slot 0 (pending_entry m hci cb ud) zero_dev)"
  using add_command_spec [OF zero_dev_ok assms refl, where E = E and hci = hci and ocf = ocf and ogf = ogf and ev = ev and ud = ud]
    alloc_slot_empty [of _ 7]
  by (auto simp: zero_dev_table)

theorem hci_reply_reaches_its_command_witness:
  "\<exists>b s1 s2. bte_hci_dev_add_pending_command demo_env (Some 1) 9 4 3 Read_bd_addr_cb (Some 7) 42 zero_dev
      = Some (Some b, s1) \<and>
    deliver_reply_to_client demo_dispatch
      \<lparr>ref_count = 1, total_size = 6, size = 6, data = [14, 4, 1] @ take 2 (data b) @ [0]\<rparr> s1 =
      d_command_cb demo_dispatch Read_bd_addr_cb (Some 1)
      \<lparr>ref_count = 1, total_size = 6, size = 6, data = [14, 4, 1] @ take 2 (data b) @ [0]\<rparr> (Some 7) 42 s2 \<and>
    table s2 = replicate 8 None"
proof -
  obtain m where "bte_hci_dev_add_pending_command demo_env (Some 1) 9 4 3 Read_bd_addr_cb (Some 7) 42 zero_dev =
     Some (Some (cmd_buffer demo_env zero_dev 9 4 3), set_slot 0 (pending_entry m (Some 1)
       (Cmd_complete Read_bd_addr_cb (Some 7)) 42) zero_dev)"
    using zero_dev_add [OF _ base_client_cb.simps(1), of 3] unfolding bte_hci_dev_add_pending_command_def by simp blast
  note add = this
  let ?b = "cmd_buffer demo_env zero_dev 9 4 3"
  let ?buf = "\<lparr>ref_count = 1, total_size = 6, size = 6, data = [14, 4, 1] @ take 2 (data ?b) @ [0]\<rparr>"
  from hci_reply_reaches_its_command [OF zero_dev_ok _ add, of ?buf 4 1 "[0]" demo_dispatch]
  show ?thesis using add by (auto simp: zero_dev_table hits_def cmd_buffer_def cmd_header_def)
qed

text \<open>
  Commands without a status callback. The Command Status event of an asynchronous command that
  was registered without a status callback frees its slot and hands the status to the client.
\<close>

theorem hci_status_reaches_its_client:
  assumes "dev_ok s" and "3 \<le> unat len"
    and "bte_hci_dev_add_pending_async_command E hci ocf ogf len None cb ud s = Some (Some b, s1)"
    and "data buf = [HCI_COMMAND_STATUS, plen, status, np] @ take 2 (data b) @ rest"
    and "6 \<le> unat (size buf)" and "unat (size buf) \<le> length (data buf)"
    and "\<forall>e \<in> set (table s). \<not> hits (packet_bytes buf) e"
  shows "\<exists>s2. deliver_status_to_client E D buf s1 =
       (if cb = None then Some s2 else call_client_void E cb hci (Reply status) ud s2) \<and>
     dev_ok s2 \<and> table s2 = table s \<and> command_wire s2 = command_wire s"
proof -
  define rs where rs: "rs = cmd_rules HCI_COMMAND_STATUS (build_opcode ocf ogf)"
  obtain i m where m: "represents m rs" "rs \<noteq> []" "alloc_slot rs (table s) = Some i"
      and b: "b = cmd_buffer E s ocf ogf len"
      and s1: "s1 = set_slot i (pending_entry m hci (Cmd_status None cb) ud) s"
    using add_command_accepted [OF assms(1,2) base_client_cb.simps(2) rs]
      assms(3) [unfolded bte_hci_dev_add_pending_async_command_def] by blast
  have "take 2 (data b) = le_bytes 2 (build_opcode ocf ogf)"
    by (simp add: b cmd_buffer_def cmd_header_def)
  then have d: "data buf = [HCI_COMMAND_STATUS, plen, status, np] @ le_bytes 2 (build_opcode ocf ogf) @ rest"
    using assms(4) by simp
  obtain k where k: "unat (size buf) = Suc (Suc (Suc (Suc (Suc (Suc k)))))"
    using assms(5) by (auto dest!: le_Suc_ex simp: eval_nat_numeral)
  have "list_all (rule_matches (packet_bytes buf)) rs"
    unfolding rs packet_bytes_def
    by (rule cmd_rules_hit) (simp_all add: d k numeral_2_eq_2)
  from registered_found [OF assms(1) m assms(6) this assms(7) s1] show ?thesis
    by (auto simp: deliver_status_to_client_def rd8_def d)
qed

theorem hci_status_reaches_its_client_witness:
  "\<exists>b s1 s2. bte_hci_dev_add_pending_async_command demo_env (Some 1) 6 1 6 None (Some 7) 42 zero_dev
      = Some (Some b, s1) \<and>
    deliver_status_to_client demo_env demo_dispatch
      \<lparr>ref_count = 1, total_size = 6, size = 6, data = [15, 4, 0, 1] @ take 2 (data b) @ []\<rparr> s1 = Some s2 \<and>
    table s2 = replicate 8 None"
proof -
  obtain m where "bte_hci_dev_add_pending_async_command demo_env (Some 1) 6 1 6 None (Some 7) 42 zero_dev =
     Some (Some (cmd_buffer demo_env zero_dev 6 1 6), set_slot 0 (pending_entry m (Some 1)
       (Cmd_status None (Some 7)) 42) zero_dev)"
    using zero_dev_add [OF _ base_client_cb.simps(2), of 6] unfolding bte_hci_dev_add_pending_async_command_def by simp blast
  note add = this
  let ?b = "cmd_buffer demo_env zero_dev 6 1 6"
  let ?buf = "\<lparr>ref_count = 1, total_size = 6, size = 6, data = [15, 4, 0, 1] @ take 2 (data ?b) @ []\<rparr>"
  from hci_status_reaches_its_client [OF zero_dev_ok _ add, of ?buf 4 0 1 "[]" demo_dispatch]
  show ?thesis using add
    by (auto simp: zero_dev_table hits_def cmd_buffer_def cmd_header_def call_client_void_def
        call_client_def demo_env_def)
qed

section \<open>The table and the clients\<close>

text \<open>
  A slot for a command. From a consistent device, \<^verbatim>\<open>_bte_hci_dev_alloc_command\<close> takes the first
  free slot of the table, stores the rules there and counts them; it returns \<^verbatim>\<open>NULL\<close> and changes
  nothing when all eight slots are taken, or when a slot before the first free one has the same
  rules. Freeing the slot restores the table.
\<close>

theorem bte_hci_dev_alloc_command_correct:
  assumes "dev_ok s" and "represents m rs" and "rs \<noteq> []"
  shows "\<exists>r s'. bte_hci_dev_alloc_command m s = Some (r, s') \<and> dev_ok s' \<and>
     (case r of
        None \<Rightarrow> s' = s \<and> (None \<in> set (table s) \<longrightarrow>
                  (\<exists>j. table s ! j = Some rs \<and> (\<forall>k \<le> j. table s ! k \<noteq> None)))
      | Some i \<Rightarrow> table s ! i = None \<and> (\<forall>k < i. table s ! k \<noteq> None \<and> table s ! k \<noteq> Some rs) \<and>
          table s' = (table s)[i := Some rs] \<and> num_pending_commands s' = num_pending_commands s + 1 \<and>
          (\<exists>s''. bte_hci_dev_free_command i s' = Some s'' \<and> dev_ok s'' \<and> table s'' = table s))"
proof (cases "alloc_slot rs (table s)")
  case None
  have "\<exists>j. table s ! j = Some rs \<and> (\<forall>k \<le> j. table s ! k \<noteq> None)" if e: "None \<in> set (table s)"
  proof -
    let ?P = "\<lambda>e. e = None \<or> e = Some rs"
    have "first_index ?P (table s) \<noteq> None" using e unfolding first_index_None by blast
    then obtain j where j: "first_index ?P (table s) = Some j" by blast
    then have "table s ! j \<noteq> None" using None by (simp add: alloc_slot_def del: table_simps not_None_eq split: if_splits)
    with iffD1 [OF first_index_Some j] show ?thesis
      by (intro exI [of _ j]) (auto simp: le_less simp del: table_simps)
  qed
  with None alloc_spec [OF assms] assms(1) show ?thesis by simp
next
  case (Some i)
  then have i: "i < length (table s)" "table s ! i = None" using alloc_slot_Some by blast+
  have "\<forall>k < i. table s ! k \<noteq> None \<and> table s ! k \<noteq> Some rs"
    using Some by (auto simp: alloc_slot_def first_index_Some simp del: table_simps split: option.splits if_splits)
  moreover define s' where "s' = set_slot i ((pending_commands s ! i)\<lparr>pc_matcher := m\<rparr>) s"
  then have eq: "bte_hci_dev_alloc_command m s = Some (Some i, s')"
    using alloc_spec [OF assms] Some by simp
  moreover have "dev_ok s'" "table s' = (table s)[i := Some rs]"
      "num_pending_commands s' = num_pending_commands s + 1"
    using set_slot_spec [OF assms(1) _ assms(3) i, of "(pending_commands s ! i)\<lparr>pc_matcher := m\<rparr>"] assms(2)
    by (simp_all add: s'_def set_slot_def)
  moreover note bte_table.alloc_free [OF assms eq] i(2)
  ultimately show ?thesis by (intro exI [of _ "Some i"] exI [of _ s']) (simp only: option.case simp_thms)
qed

theorem bte_hci_dev_alloc_command_correct_witness:
  "\<exists>i s'. bte_hci_dev_alloc_command demo_matcher zero_dev = Some (Some i, s') \<and>
     table s' = (table zero_dev)[i := Some [(3, [7, 8])]]"
  using bte_hci_dev_alloc_command_correct [OF zero_dev_ok demo_matcher_rules]
  by (auto simp: zero_dev_table split: option.splits)

text \<open>
  A command can be queued twice. The check for a command that is already pending ends at the
  first free slot: when the command in slot 0 is answered while the one in slot 1 is still pending,
  the same command is accepted again, and the table has two entries that no reply can tell apart.
\<close>

theorem hci_duplicate_command_accepted:
  assumes "represents m1 rs1" and "represents m2 rs2" and "rs1 \<noteq> []" and "rs2 \<noteq> []" and "rs1 \<noteq> rs2"
  shows "\<exists>s1 s2 s3 s4. bte_hci_dev_alloc_command m1 zero_dev = Some (Some 0, s1) \<and>
     bte_hci_dev_alloc_command m2 s1 = Some (Some 1, s2) \<and>
     bte_hci_dev_free_command 0 s2 = Some s3 \<and> table s3 = [None, Some rs2] @ replicate 6 None \<and>
     bte_hci_dev_alloc_command m2 s3 = Some (Some 0, s4) \<and>
     table s4 = [Some rs2, Some rs2] @ replicate 6 None"
proof -
  have e: "replicate 8 x = x # x # replicate 6 x" for x :: "'b option" by (simp add: eval_nat_numeral)
  obtain s1 where s1: "bte_hci_dev_alloc_command m1 zero_dev = Some (Some 0, s1)" "dev_ok s1"
      "table s1 = Some rs1 # None # replicate 6 None"
    using bte_table.alloc_law [OF zero_dev_ok assms(1,3)] by (auto simp: zero_dev_table e alloc_slot_def)
  obtain s2 where s2: "bte_hci_dev_alloc_command m2 s1 = Some (Some 1, s2)" "dev_ok s2"
      "table s2 = Some rs1 # Some rs2 # replicate 6 None"
    using bte_table.alloc_law [OF s1(2) assms(2,4)] assms(5) by (auto simp: s1(3) alloc_slot_def)
  have "0 < length (table s2)" "table s2 ! 0 \<noteq> None" unfolding s2(3) by simp_all
  from bte_table.free_law [OF s2(2) this]
  obtain s3 where s3: "bte_hci_dev_free_command 0 s2 = Some s3" "dev_ok s3"
      "table s3 = None # Some rs2 # replicate 6 None" unfolding s2(3) by auto
  obtain s4 where s4: "bte_hci_dev_alloc_command m2 s3 = Some (Some 0, s4)"
      "table s4 = Some rs2 # Some rs2 # replicate 6 None"
    using bte_table.alloc_law [OF s3(2) assms(2,4)] by (auto simp: s3(3) alloc_slot_def)
  show ?thesis using s1(1) s2(1) s3(1,3) s4 by simp
qed

theorem hci_duplicate_command_accepted_witness:
  "\<exists>s1 s2 s3 s4. bte_hci_dev_alloc_command (demo_matcher\<lparr>bytes := [3, 2, 7, 9] @ replicate 12 0\<rparr>) zero_dev
       = Some (Some 0, s1) \<and>
     bte_hci_dev_alloc_command demo_matcher s1 = Some (Some 1, s2) \<and>
     bte_hci_dev_free_command 0 s2 = Some s3 \<and>
     bte_hci_dev_alloc_command demo_matcher s3 = Some (Some 0, s4)"
proof -
  have "represents (demo_matcher\<lparr>bytes := [3, 2, 7, 9] @ replicate 12 0\<rparr>) [(3, [7, 9])]"
    by (simp add: represents_def demo_matcher_def BTE_DATA_MATCHER_MAX_LEN_def)
  from hci_duplicate_command_accepted [OF this demo_matcher_rules] show ?thesis by auto
qed

text \<open>
  C29: the event code that overruns the handler table. An event with the code 0x3D
  (\<^verbatim>\<open>BTE_HCI_EVENT_LAST\<close>) passes the check of \<^verbatim>\<open>_bte_hci_dev_handler_for_event\<close> and reads one element
  past the end of \<^verbatim>\<open>event_handlers\<close>; every other event code finds an element of the array or none.
\<close>

theorem hci_event_handler_index:
  assumes "dev_ok s"
  shows "(case bte_hci_dev_handler_for_event code of None \<Rightarrow> True
          | Some i \<Rightarrow> (get_handler s i = None \<longleftrightarrow> code = BTE_HCI_EVENT_LAST)) \<and>
     bte_hci_dev_handle_event E D \<lparr>ref_count = 1, total_size = 2, size = 2, data = [BTE_HCI_EVENT_LAST, 0]\<rparr> s = None"
proof -
  have "get_handler s 61 = None" using assms by (simp add: dev_ok_def get_handler_def)
  moreover have "unat code = 61 \<longleftrightarrow> code = 61" by (simp add: word_unat_eq_iff)
  ultimately show ?thesis
    using assms
    by (auto simp: bte_hci_dev_handler_for_event_def get_handler_def dev_ok_def word_less_nat_alt
        bte_hci_dev_handle_event_def run_event_handler_def rd8_def Let_def)
qed

theorem hci_event_handler_index_witness:
  "bte_hci_dev_handle_event demo_env demo_dispatch
     \<lparr>ref_count = 1, total_size = 2, size = 2, data = [BTE_HCI_EVENT_LAST, 0]\<rparr> zero_dev = None"
  using hci_event_handler_index [OF zero_dev_ok] by blast

section \<open>Flow control\<close>

text \<open>The return codes of the backend for a list of packets sent one after the other.\<close>

fun send_rcs :: "(mem list \<Rightarrow> mem \<Rightarrow> int) \<Rightarrow> mem list \<Rightarrow> mem list \<Rightarrow> int list" where
  "send_rcs send wire [] = []"
| "send_rcs send wire (p # ps) = send wire p # send_rcs send (wire @ [p]) ps"

lemma send_queued_loop_spec:
  "chain_ok q \<Longrightarrow> k = min (unat avail) (length q) \<Longrightarrow> pkts = map packet_bytes (take k q) \<Longrightarrow>
   send_queued_loop send q avail wire sent errors =
     Some (drop k q, avail - of_nat k, wire @ pkts,
           sent + int (length (filter (\<lambda>rc. \<not> rc < 0) (send_rcs send wire pkts))),
           errors + int (length (filter (\<lambda>rc. rc < 0) (send_rcs send wire pkts))))"
proof (induction q arbitrary: avail wire sent errors k pkts)
  case Nil
  then show ?case by simp
next
  case (Cons b q)
  show ?case
  proof (cases "avail = 0")
    case True
    with Cons show ?thesis by simp
  next
    case False
    have avail: "unat (avail - 1) = unat avail - 1"
      using unat_sub_of_nat [of 1 avail] False by (simp add: unat_gt_0 Suc_le_eq)
    define k' where "k' = min (unat (avail - 1)) (length q)"
    have k: "k = Suc k'" using Cons.prems(2) False avail by (simp add: k'_def min_def unat_gt_0) arith
    have sl: "slice (data b) 0 (unat (size b)) = Some (packet_bytes b)"
      using Cons.prems(1) by (simp add: slice_def packet_bytes_def)
    have "chain_ok q" using Cons.prems(1) by simp
    note IH = Cons.IH [OF this k'_def refl]
    show ?thesis using False sl Cons.prems(3) IH by (simp add: k word_gt_0 algebra_simps)
  qed
qed

text \<open>
  Flow control of outgoing data. \<^verbatim>\<open>_bte_hci_send_queued_data\<close> hands to the backend, in the order
  of the queue, as many packets as the controller has room for and no more, takes them off the
  queue and off the room whatever the backend answers, and returns the number of packets sent, or
  minus the number of packets the backend refused if there are any.
\<close>

theorem bte_hci_send_queued_data_correct:
  assumes "chain_ok (outgoing_acl_packets s)"
    and "k = min (unat (acl_available_packets s)) (length (outgoing_acl_packets s))"
    and "pkts = map packet_bytes (take k (outgoing_acl_packets s))"
    and "refused = length (filter (\<lambda>rc. rc < 0) (send_rcs (be_hci_send_data E) (data_wire s) pkts))"
  shows "\<exists>s'. bte_hci_send_queued_data E s = Some (if refused = 0 then int k else - int refused, s') \<and>
     outgoing_acl_packets s' = drop k (outgoing_acl_packets s) \<and>
     unat (acl_available_packets s') = unat (acl_available_packets s) - k \<and>
     data_wire s' = data_wire s @ pkts \<and>
     (acl_available_packets s' = 0 \<or> outgoing_acl_packets s' = [])"
proof -
  let ?rcs = "send_rcs (be_hci_send_data E) (data_wire s) pkts"
  have len: "length ?rcs = k"
  proof -
    have "length (send_rcs f w ps) = length ps" for f w ps by (induction ps arbitrary: w) auto
    then show ?thesis using assms(2,3) by simp
  qed
  have sent: "refused = 0 \<Longrightarrow> length (filter (\<lambda>rc. \<not> rc < 0) ?rcs) = k"
    unfolding assms(4) using len by (simp add: filter_empty_conv filter_id_conv [THEN iffD2])
  have "unat (acl_available_packets s - of_nat k) = unat (acl_available_packets s) - k"
    using assms(2) by (intro unat_sub_of_nat) simp
  moreover have "k = unat (acl_available_packets s) \<or> k = length (outgoing_acl_packets s)"
    using assms(2) by (simp add: min_def)
  moreover note send_queued_loop_spec [OF assms(1-3), of "be_hci_send_data E" "data_wire s" 0 0]
  ultimately show ?thesis
    using sent by (auto simp: bte_hci_send_queued_data_def assms(4) [symmetric])
qed

definition demo_queue_dev :: bte_hci_dev where
  "demo_queue_dev = zero_dev\<lparr>outgoing_acl_packets := demo_chain @ demo_chain, acl_available_packets := 3\<rparr>"

theorem bte_hci_send_queued_data_correct_witness:
  "\<exists>s'. bte_hci_send_queued_data demo_env demo_queue_dev = Some (3, s') \<and>
     data_wire s' = [[9, 1, 2], [9, 3, 4], [9, 1, 2]] \<and> acl_available_packets s' = 0"
proof -
  have q: "outgoing_acl_packets demo_queue_dev = demo_chain @ demo_chain"
      "acl_available_packets demo_queue_dev = 3" "data_wire demo_queue_dev = []"
    by (simp_all add: demo_queue_dev_def zero_dev_def)
  have c: "chain_ok (outgoing_acl_packets demo_queue_dev)" by (simp add: q demo_chain_def)
  have k: "3 = min (unat (acl_available_packets demo_queue_dev)) (length (outgoing_acl_packets demo_queue_dev))"
    by (simp add: q demo_chain_def)
  have "be_hci_send_data demo_env = (\<lambda>_ _. 0)" by (simp add: demo_env_def)
  with bte_hci_send_queued_data_correct [OF c k refl refl, of demo_env] show ?thesis
    unfolding q by (auto simp: demo_chain_def packet_bytes_def)
qed

text \<open>
  Completed packets. When the controller reports packets as completed, the room grows by their
  number (within 16 bits) and the queue is served from it: afterwards there is no room left or no
  packet left, and the room that is left is what the controller gave minus what was sent.
\<close>

theorem bte_hci_dev_on_completed_packets_correct:
  assumes "chain_ok (outgoing_acl_packets s)" and "unat (acl_available_packets s) + unat n < 65536"
    and "k = min (unat (acl_available_packets s) + unat n) (length (outgoing_acl_packets s))"
  shows "\<exists>s'. bte_hci_dev_on_completed_packets E n s = Some s' \<and>
     unat (acl_available_packets s') + k = unat (acl_available_packets s) + unat n \<and>
     outgoing_acl_packets s' = drop k (outgoing_acl_packets s) \<and>
     data_wire s' = data_wire s @ map packet_bytes (take k (outgoing_acl_packets s))"
proof -
  let ?s = "s\<lparr>acl_available_packets := acl_available_packets s + n\<rparr>"
  have room: "unat (acl_available_packets s + n) = unat (acl_available_packets s) + unat n"
    using unat_add_of_nat [of "acl_available_packets s" "unat n"] assms(2) by simp
  have q: "chain_ok (outgoing_acl_packets ?s)" using assms(1) by simp
  have k: "k = min (unat (acl_available_packets ?s)) (length (outgoing_acl_packets ?s))"
    using assms(3) by (simp add: room)
  have "unat (acl_available_packets s + n - of_nat k) = unat (acl_available_packets s) + unat n - k"
    using assms(3) room by (subst unat_sub_of_nat) simp_all
  with send_queued_loop_spec [OF q k refl, of "be_hci_send_data E" "data_wire ?s" 0 0] assms(3)
  show ?thesis
    by (auto simp: bte_hci_dev_on_completed_packets_def bte_hci_send_queued_data_def)
qed

theorem bte_hci_dev_on_completed_packets_correct_witness:
  "\<exists>s'. bte_hci_dev_on_completed_packets demo_env 1 (demo_queue_dev\<lparr>acl_available_packets := 0\<rparr>) = Some s' \<and>
     data_wire s' = [[9, 1, 2]] \<and> outgoing_acl_packets s' = tl demo_chain @ demo_chain"
  using bte_hci_dev_on_completed_packets_correct
    [of "demo_queue_dev\<lparr>acl_available_packets := 0\<rparr>" 1 1 demo_env]
  by (auto simp: demo_queue_dev_def demo_chain_def packet_bytes_def zero_dev_def)

section \<open>Clients\<close>

definition owned_by :: "hci_ptr \<Rightarrow> pending_command \<Rightarrow> bool" where
  "owned_by hci pc \<longleftrightarrow> busy pc \<and> pc_hci pc = hci"

lemma free_owned:
  assumes "dev_ok s" and "i < 8" and "busy (pending_commands s ! i)"
  shows "\<exists>s' pc. bte_hci_dev_free_command i s = Some s' \<and> dev_ok s' \<and> \<not> busy pc \<and>
     pending_commands s' = (pending_commands s)[i := pc] \<and> clients s' = clients s"
proof -
  have len: "length (pending_commands s) = 8" using assms(1) by (simp add: dev_ok_def)
  then have "table s ! i \<noteq> None" using assms(2,3) by simp
  from free_spec [OF assms(1,2) this] obtain s' where s': "bte_hci_dev_free_command i s = Some s'"
      "dev_ok s'" "clients s' = clients s" by blast
  define pc where "pc = (pending_commands s ! i)
    \<lparr>pc_matcher := bte_data_matcher_init (pc_matcher (pending_commands s ! i))\<rparr>"
  have "pending_commands s' = (pending_commands s)[i := pc]"
    using s'(1) assms(2) len by (auto simp: bte_hci_dev_free_command_def get_pc_def put_pc_def pc_def)
  moreover have "\<not> busy pc"
    by (simp add: pc_def busy_def bte_data_matcher_is_empty_def bte_data_matcher_init_def)
  ultimately show ?thesis using s' by blast
qed

lemma dispose_loop_spec:
  "dev_ok s \<Longrightarrow> set is \<subseteq> {..<8} \<Longrightarrow>
   \<exists>s'. hci_dev_dispose_loop hci is s = Some s' \<and> dev_ok s' \<and> clients s' = clients s \<and>
     (\<forall>i < 8. (i \<in> set is \<longrightarrow> \<not> owned_by hci (pending_commands s' ! i)) \<and>
              (pending_commands s' ! i = pending_commands s ! i \<or>
               i \<in> set is \<and> owned_by hci (pending_commands s ! i) \<and> \<not> busy (pending_commands s' ! i)))"
proof (induction "is" arbitrary: s)
  case Nil
  then show ?case by simp
next
  case (Cons i "is")
  have i: "i < 8" and len: "length (pending_commands s) = 8"
    using Cons.prems by (auto simp: dev_ok_def)
  define pc where "pc = pending_commands s ! i"
  show ?case
  proof (cases "owned_by hci pc")
    case False
    with Cons i len show ?thesis
      by (fastforce simp: get_pc_def owned_by_def busy_def pc_def)
  next
    case True
    then obtain s1 pc' where s1: "bte_hci_dev_free_command i s = Some s1" "dev_ok s1" "\<not> busy pc'"
        "pending_commands s1 = (pending_commands s)[i := pc']" "clients s1 = clients s"
      using free_owned [OF Cons.prems(1) i] by (auto simp: owned_by_def pc_def)
    obtain s' where s': "hci_dev_dispose_loop hci is s1 = Some s'" "dev_ok s'" "clients s' = clients s1"
      "\<forall>j < 8. (j \<in> set is \<longrightarrow> \<not> owned_by hci (pending_commands s' ! j)) \<and>
              (pending_commands s' ! j = pending_commands s1 ! j \<or>
               j \<in> set is \<and> owned_by hci (pending_commands s1 ! j) \<and> \<not> busy (pending_commands s' ! j))"
      using Cons.IH [OF s1(2)] Cons.prems(2) by auto
    have "hci_dev_dispose_loop hci (i # is) s = Some s'"
      using True s1(1) s'(1) i len by (simp add: get_pc_def owned_by_def busy_def pc_def)
    moreover have "(j \<in> set (i # is) \<longrightarrow> \<not> owned_by hci (pending_commands s' ! j)) \<and>
              (pending_commands s' ! j = pending_commands s ! j \<or>
               j \<in> set (i # is) \<and> owned_by hci (pending_commands s ! j) \<and> \<not> busy (pending_commands s' ! j))"
      if "j < 8" for j
      using s'(4) that s1(3,4) True len
      by (cases "j = i") (auto simp: owned_by_def pc_def nth_list_update)
    ultimately show ?thesis using s'(2,3) s1(5) by auto
  qed
qed

text \<open>
  Removing a client. \<^verbatim>\<open>_bte_hci_dev_remove_client\<close> ends, leaves no pending command of the client,
  keeps every command of the others, keeps the table consistent and takes the client, and only it,
  out of the list of clients; the backend is shut down when no client is left.
\<close>

theorem bte_hci_dev_remove_client_correct:
  assumes "dev_ok s"
  shows "\<exists>s'. dev_ok s' \<and> clients s' = map (\<lambda>c. if c = Some client then None else c) (clients s) \<and>
     bte_hci_dev_remove_client E client s =
       Some (if \<forall>c \<in> set (clients s'). c = None then be_deinit E s' else s') \<and>
     (\<forall>pc \<in> set (pending_commands s'). busy pc \<longrightarrow> pc_hci pc \<noteq> Some client) \<and>
     (\<forall>i < 8. busy (pending_commands s ! i) \<and> pc_hci (pending_commands s ! i) \<noteq> Some client \<longrightarrow>
        pending_commands s' ! i = pending_commands s ! i)"
proof -
  obtain s1 where s1: "hci_dev_dispose (Some client) s = Some s1" "dev_ok s1" "clients s1 = clients s"
    "\<forall>i < 8. \<not> owned_by (Some client) (pending_commands s1 ! i) \<and>
        (pending_commands s1 ! i = pending_commands s ! i \<or> owned_by (Some client) (pending_commands s ! i))"
  proof -
    have "set [0..<8] \<subseteq> {..<8 :: nat}" by auto
    from dispose_loop_spec [OF assms this, of "Some client"] that show ?thesis
      by (auto simp: hci_dev_dispose_def)
  qed
  define s' where "s' = s1\<lparr>clients := map (\<lambda>c. if c = Some client then None else c) (clients s1)\<rparr>"
  have "dev_ok s'" using s1(2) by (simp add: s'_def dev_ok_def table_def)
  moreover have "bte_hci_dev_remove_client E client s =
       Some (if \<forall>c \<in> set (clients s'). c = None then be_deinit E s' else s')"
  proof -
    have "length (filter (\<lambda>c. c \<noteq> None) (clients s')) = 0 \<longleftrightarrow> (\<forall>c \<in> set (clients s'). c = None)"
      by (simp add: filter_empty_conv)
    then show ?thesis
      unfolding bte_hci_dev_remove_client_def s1(1) Option.bind.simps Let_def s'_def [symmetric] by simp
  qed
  moreover have "length (pending_commands s') = 8" using s1(2) by (simp add: s'_def dev_ok_def)
  ultimately show ?thesis using s1(3,4)
    by (intro exI [of _ s']) (auto simp: s'_def owned_by_def in_set_conv_nth)
qed

theorem bte_hci_dev_remove_client_correct_witness:
  "\<exists>s'. bte_hci_dev_remove_client demo_env 5 (zero_dev\<lparr>clients := [Some 5, Some 6, None, None]\<rparr>) = Some s' \<and>
     clients s' = [None, Some 6, None, None]"
proof -
  have "dev_ok (zero_dev\<lparr>clients := [Some 5, Some 6, None, None]\<rparr>)"
    using zero_dev_ok by (simp add: dev_ok_def)
  from bte_hci_dev_remove_client_correct [OF this, of 5 demo_env] show ?thesis by auto
qed

lemma combined_scan_loop_bits:
  assumes "\<forall>c. Some c \<in> set cs \<longrightarrow> heap c \<noteq> None"
  shows "\<exists>r. combined_scan_loop heap cs mode = Some r \<and>
     (\<forall>n. bit r n \<longleftrightarrow> bit mode n \<or> (\<exists>c cl. Some c \<in> set cs \<and> heap c = Some cl \<and> bit (scan_mode cl) n))"
  using assms
proof (induction heap cs mode rule: combined_scan_loop.induct)
  case (3 heap c cs mode)
  then obtain cl where cl: "heap c = Some cl" by auto
  obtain r where r: "combined_scan_loop heap cs (mode OR scan_mode cl) = Some r"
      "\<forall>n. bit r n \<longleftrightarrow> bit (mode OR scan_mode cl) n \<or>
         (\<exists>c cl. Some c \<in> set cs \<and> heap c = Some cl \<and> bit (scan_mode cl) n)"
    using 3 cl by auto
  have "(\<exists>c' cl'. Some c' \<in> set (Some c # cs) \<and> heap c' = Some cl' \<and> bit (scan_mode cl') n) \<longleftrightarrow>
      bit (scan_mode cl) n \<or> (\<exists>c cl. Some c \<in> set cs \<and> heap c = Some cl \<and> bit (scan_mode cl) n)" for n
    using cl by auto
  with r cl show ?case by (simp add: bit_or_iff del: set_simps)
qed auto

text \<open>
  The scan mode of the device. \<^verbatim>\<open>_bte_hci_dev_combined_scan_mode\<close> has exactly the bits that at
  least one client asked for, so no client turns off what another one needs.
\<close>

theorem bte_hci_dev_combined_scan_mode_correct:
  assumes "\<forall>c. Some c \<in> set (clients s) \<longrightarrow> client_heap s c \<noteq> None"
  shows "\<exists>mode. bte_hci_dev_combined_scan_mode s = Some mode \<and>
     (\<forall>n. bit mode n \<longleftrightarrow>
        (\<exists>c cl. Some c \<in> set (clients s) \<and> client_heap s c = Some cl \<and> bit (scan_mode cl) n))"
  using combined_scan_loop_bits [OF assms, of 0] by (simp add: bte_hci_dev_combined_scan_mode_def)

theorem bte_hci_dev_combined_scan_mode_correct_witness:
  "\<exists>mode. bte_hci_dev_combined_scan_mode (zero_dev\<lparr>clients := [Some 5, None, None, None],
       client_heap := [5 \<mapsto> zero_client\<lparr>scan_mode := 2\<rparr>]\<rparr>) = Some mode \<and> bit mode 1"
  using bte_hci_dev_combined_scan_mode_correct [of "zero_dev\<lparr>clients := [Some 5, None, None, None],
       client_heap := [5 \<mapsto> zero_client\<lparr>scan_mode := 2\<rparr>]\<rparr>"]
  by (auto simp: bit_numeral_rec)

end
