(* ===== verification/HciLink.thy ===== *)
theory HciLink
  imports HciDev
begin

text \<open>
  The first half of \<^verbatim>\<open>hci.c\<close>: the common helpers, the queries on the device, and the link control
  commands with the callbacks that handle their replies and the events they cause.

  Offsets into a packet count from \<^verbatim>\<open>buffer->data\<close>; a \<^verbatim>\<open>const BteBdAddr *\<close> parameter is the memory it
  points to. Every function of the C file is one definition of the same name.
\<close>

section \<open>Helpers\<close>

definition memcpy_to :: "mem \<Rightarrow> nat \<Rightarrow> mem \<Rightarrow> nat \<Rightarrow> mem option" where
  "memcpy_to d off src n = do { bs \<leftarrow> slice src 0 n; wr d off bs }"

text \<open>\<^verbatim>\<open>strncpy\<close>: up to \<open>n\<close> bytes, the rest zero once a zero byte was copied.\<close>

fun strncpy_from :: "mem \<Rightarrow> nat \<Rightarrow> mem option" where
  "strncpy_from src 0 = Some []"
| "strncpy_from [] (Suc n) = None"
| "strncpy_from (c # src) (Suc n) =
     (if c = 0 then Some (replicate (Suc n) 0)
      else do { rest \<leftarrow> strncpy_from src n; Some (c # rest) })"

text \<open>\<^verbatim>\<open>if (UNLIKELY(!b)) return;\<close> and the calls of \<^verbatim>\<open>_bte_hci_send_command\<close> that ignore the result.\<close>

definition when_buffer :: "bte_buffer option \<Rightarrow> (bte_buffer \<Rightarrow> 's \<Rightarrow> 's option) \<Rightarrow> 's \<Rightarrow> 's option" where
  "when_buffer b f s = (case b of None \<Rightarrow> Some s | Some b' \<Rightarrow> f b' s)"

definition send :: "'a env \<Rightarrow> bte_buffer option \<Rightarrow> 'a dev \<Rightarrow> 'a dev option" where
  "send E b s = map_option snd (bte_hci_send_command E b s)"

definition send_filled :: "'a env \<Rightarrow> bte_buffer \<Rightarrow> mem \<Rightarrow> 'a dev \<Rightarrow> 'a dev option" where
  "send_filled E b d s = send E (Some (b\<lparr>data := d\<rparr>)) s"

definition status_client_cb :: "command_cb_union \<Rightarrow> cb_ptr option" where
  "status_client_cb u = (case u of Cmd_status f cb \<Rightarrow> Some cb | _ \<Rightarrow> None)"

definition event_client_cb :: "command_cb_union \<Rightarrow> cb_ptr option" where
  "event_client_cb u = (case u of Event_client_cb cb \<Rightarrow> Some cb | _ \<Rightarrow> None)"

text \<open>The fields of the pending entry of an event, as the status callbacks set them.\<close>

definition set_event_entry :: "nat \<Rightarrow> hci_ptr \<Rightarrow> cb_ptr \<Rightarrow> nat \<Rightarrow> 'a dev \<Rightarrow> 'a dev option" where
  "set_event_entry ev hci cb pc s =
     do { e \<leftarrow> get_pc s ev;
          s \<leftarrow> put_pc s ev (e\<lparr>pc_hci := hci, pc_command_cb := Event_client_cb cb\<rparr>);
          p \<leftarrow> get_pc s pc;
          e \<leftarrow> get_pc s ev;
          put_pc s ev (e\<lparr>pc_userdata := pc_userdata p\<rparr>) }"

definition command_complete_cb ::
    "'a env \<Rightarrow> hci_ptr \<Rightarrow> bte_buffer \<Rightarrow> cb_ptr \<Rightarrow> u64 \<Rightarrow> 'a dev \<Rightarrow> 'a dev option" where
  "command_complete_cb E hci buffer client_cb userdata s =
     (if client_cb = None then Some s
      else do { status \<leftarrow> rd8 (data buffer) HCI_CMD_REPLY_POS_STATUS;
                call_client_void E client_cb hci (Reply status) userdata s })"

definition write_clock_offset :: "u16 \<Rightarrow> mem \<Rightarrow> nat \<Rightarrow> mem option" where
  "write_clock_offset clock_offset d off =
     (if clock_offset \<noteq> BTE_HCI_CLOCK_OFFSET_INVALID then write_le16 (clock_offset AND 0x7fff) d off
      else write_le16 0 d off)"

definition common_read_connection_status_cb ::
    "'a env \<Rightarrow> hci_ptr \<Rightarrow> byte \<Rightarrow> nat \<Rightarrow> 'a dev \<Rightarrow> 'a dev option" where
  "common_read_connection_status_cb E hci status pc s =
     (if status \<noteq> 0 then
        do { p \<leftarrow> get_pc s pc;
             cb \<leftarrow> status_client_cb (pc_command_cb p);
             s \<leftarrow> (if cb = None then
                     do { t \<leftarrow> get_tmp s hci;
                          if tmp_client_cb t \<noteq> None
                          then call_client_void E (tmp_client_cb t) hci
                                 (Raw_reply (status # replicate 15 0)) (pc_userdata p) s
                          else Some s }
                   else Some s);
             bte_hci_dev_free_command pc s }
      else
        do { t \<leftarrow> get_tmp s hci;
             event_code \<leftarrow> tmp_event_code t;
             (_, m) \<leftarrow> bte_data_matcher_add_rule (stack_matcher E s) [event_code] 1 0;
             conn_handle \<leftarrow> tmp_conn_handle t;
             (_, m) \<leftarrow> bte_data_matcher_add_rule m (le_bytes 2 conn_handle) 2
                         (of_nat (HCI_CMD_EVENT_POS_DATA + 1));
             (ev, s) \<leftarrow> bte_hci_dev_alloc_command m s;
             case ev of None \<Rightarrow> bte_hci_dev_free_command pc s
             | Some i \<Rightarrow> do {
                 s \<leftarrow> set_event_entry i hci (tmp_client_cb t) pc s;
                 s \<leftarrow> bte_hci_dev_install_event_handler event_code (tmp_handler_cb t) s;
                 bte_hci_dev_free_command pc s } })"

definition common_read_connection ::
    "'a env \<Rightarrow> hci_ptr \<Rightarrow> u16 \<Rightarrow> byte \<Rightarrow> u16 \<Rightarrow> byte \<Rightarrow> event_handler \<Rightarrow> cb_ptr \<Rightarrow> cb_ptr \<Rightarrow> u64
     \<Rightarrow> 'a dev \<Rightarrow> 'a dev option" where
  "common_read_connection E hci ocf ogf conn_handle event_code handler status_cb client_cb userdata s =
     do { (b, s) \<leftarrow> bte_hci_dev_add_pending_async_command E hci ocf ogf (of_nat (HCI_CMD_HDR_LEN + 2))
                      (Some Common_read_connection_status_cb) status_cb userdata s;
          when_buffer b (\<lambda>b s. do {
            t \<leftarrow> get_tmp s hci;
            bs \<leftarrow> write_le16 conn_handle (tmp_bytes t) 0;
            bs \<leftarrow> wr bs 2 [event_code];
            s \<leftarrow> put_tmp s hci \<lparr>tmp_client_cb = client_cb, tmp_bytes = bs, tmp_handler_cb = Some handler\<rparr>;
            d \<leftarrow> write_le16 conn_handle (data b) HCI_CMD_HDR_LEN;
            send_filled E b d s }) s }"

section \<open>Queries\<close>

definition bte_hci_on_initialized :: "'a env \<Rightarrow> hci_ptr \<Rightarrow> cb_ptr \<Rightarrow> u64 \<Rightarrow> 'a dev \<Rightarrow> 'a dev option" where
  "bte_hci_on_initialized E hci callback userdata s =
     do { t \<leftarrow> get_tmp s hci;
          bs \<leftarrow> write_le64 userdata (tmp_bytes t) 0;
          s \<leftarrow> put_tmp s hci (t\<lparr>tmp_client_cb := callback, tmp_bytes := bs\<rparr>);
          if init_status s = BTE_HCI_INIT_STATUS_INITIALIZED \<or> init_status s = BTE_HCI_INIT_STATUS_FAILED
          then call_client_void E callback hci
                 (Initialized (init_status s = BTE_HCI_INIT_STATUS_INITIALIZED)) userdata s
          else Some s }"

definition bte_hci_get_supported_features :: "'a dev \<Rightarrow> u64" where
  "bte_hci_get_supported_features s = supported_features s"

definition bte_hci_get_bd_address :: "'a dev \<Rightarrow> mem option" where
  "bte_hci_get_bd_address s =
     (if info_flags s AND BTE_HCI_INFO_GOT_BD_ADDR \<noteq> 0 then Some (dev_address s) else None)"

definition bte_hci_get_acl_mtu :: "'a dev \<Rightarrow> u16" where
  "bte_hci_get_acl_mtu s = acl_mtu s"

definition bte_hci_get_sco_mtu :: "'a dev \<Rightarrow> byte" where
  "bte_hci_get_sco_mtu s = sco_mtu s"

definition bte_hci_get_acl_max_packets :: "'a dev \<Rightarrow> u16" where
  "bte_hci_get_acl_max_packets s = acl_max_packets s"

definition bte_hci_get_sco_max_packets :: "'a dev \<Rightarrow> u16" where
  "bte_hci_get_sco_max_packets s = sco_max_packets s"

definition bte_hci_packet_types_from_features :: "u64 \<Rightarrow> u16" where
  "bte_hci_packet_types_from_features features =
     (let type0 = BTE_PACKET_TYPE_DM1 OR BTE_PACKET_TYPE_DH1;
          type1 = (if features AND BTE_HCI_FEAT_3_SLOT_PACKETS \<noteq> 0
                   then type0 OR (BTE_PACKET_TYPE_DM3 OR BTE_PACKET_TYPE_DH3) else type0)
      in if features AND BTE_HCI_FEAT_5_SLOT_PACKETS \<noteq> 0
         then type1 OR (BTE_PACKET_TYPE_DM5 OR BTE_PACKET_TYPE_DH5) else type1)"

definition bte_hci_nop :: "'a env \<Rightarrow> hci_ptr \<Rightarrow> cb_ptr \<Rightarrow> u64 \<Rightarrow> 'a dev \<Rightarrow> 'a dev option" where
  "bte_hci_nop E hci callback userdata s =
     do { (b, s) \<leftarrow> bte_hci_dev_add_pending_command E hci 0 0 3 Command_complete_cb callback userdata s;
          send E b s }"

section \<open>Inquiry\<close>

text \<open>
  \<^verbatim>\<open>ensure_array_size\<close>: an array that grows in blocks. \<open>junk\<close> are the elements of fresh memory.
\<close>

definition ensure_array_size ::
    "(nat \<Rightarrow> 'e) \<Rightarrow> nat \<Rightarrow> nat \<Rightarrow> nat \<Rightarrow> 'e list option \<Rightarrow> 'e list option" where
  "ensure_array_size junk elem_per_block num_elem_curr num_elem_added arr =
     (let allocated_blocks = (num_elem_curr + elem_per_block - 1) div elem_per_block;
          needed_blocks = (num_elem_curr + num_elem_added + elem_per_block - 1) div elem_per_block
      in if needed_blocks > allocated_blocks then
           (let n = needed_blocks * elem_per_block;
                old = (case arr of None \<Rightarrow> [] | Some xs \<Rightarrow> xs)
            in Some (take n old @ map junk [length old..<n]))
         else arr)"

text \<open>An element of fresh memory: \<^verbatim>\<open>sizeof(BteHciInquiryResponse)\<close> is 23, the structure is packed.\<close>

definition fresh_response :: "'a env \<Rightarrow> 'a dev \<Rightarrow> nat \<Rightarrow> inquiry_response" where
  "fresh_response E s k =
     (let m = (\<lambda>off n. map (\<lambda>i. env_fresh E s (23 * k + off + i)) [0..<n]);
          ext = (le_val (m 15 8) :: u64)
      in \<lparr>ir_address = m 0 6, ir_page_scan_rep_mode = env_fresh E s (23 * k + 6),
          ir_page_scan_period_mode = env_fresh E s (23 * k + 7), ir_reserved = env_fresh E s (23 * k + 8),
          ir_class_of_device = m 9 3, ir_clock_offset = le_val (m 12 2),
          ir_rssi = env_fresh E s (23 * k + 14),
          ir_extended_response = (if ext = 0 then None else Some (unat ext))\<rparr>)"

text \<open>
  One round of the loop of \<^verbatim>\<open>inquiry_result_cb\<close>. \<open>n\<close> is the number of responses of the event, \<open>old\<close>
  the number of responses known before it: duplicates are sought among those only.
\<close>

definition inquiry_result_step ::
    "mem \<Rightarrow> nat \<Rightarrow> bool \<Rightarrow> nat \<Rightarrow> nat \<Rightarrow> inquiry_response list \<Rightarrow> nat
     \<Rightarrow> (inquiry_response list \<times> nat) option" where
  "inquiry_result_step d n has_rssi old i responses i_tail =
     do { r \<leftarrow> (if i_tail < length responses then Some (responses ! i_tail) else None);
          let p = 3;
          addr \<leftarrow> slice d (p + 6 * i) 6;
          let r = r\<lparr>ir_address := addr\<rparr>;
          let p = p + 6 * n;
          rep \<leftarrow> rd8 d (p + i);
          let r = r\<lparr>ir_page_scan_rep_mode := rep\<rparr>;
          let p = p + n;
          r \<leftarrow> (if has_rssi then Some r
                else do { per \<leftarrow> rd8 d (p + i); Some (r\<lparr>ir_page_scan_period_mode := per\<rparr>) });
          let p = (if has_rssi then p else p + n);
          res \<leftarrow> rd8 d (p + i);
          let r = r\<lparr>ir_reserved := res\<rparr>;
          let p = p + n;
          cod \<leftarrow> slice d (p + 3 * i) 3;
          let r = r\<lparr>ir_class_of_device := cod\<rparr>;
          let p = p + 3 * n;
          clock \<leftarrow> read_le16 d (p + 2 * i);
          let r = r\<lparr>ir_clock_offset := clock\<rparr>;
          let p = p + 2 * n;
          rssi \<leftarrow> (if has_rssi then rd8 d (p + i) else Some 0);
          let r = r\<lparr>ir_rssi := rssi, ir_extended_response := None\<rparr>;
          let responses = responses[i_tail := r];
          duplicate \<leftarrow> (if old \<le> length responses then Some (r \<in> set (take old responses)) else None);
          Some (responses, if duplicate then i_tail else i_tail + 1) }"

fun inquiry_result_loop ::
    "mem \<Rightarrow> nat \<Rightarrow> bool \<Rightarrow> nat \<Rightarrow> nat list \<Rightarrow> inquiry_response list \<Rightarrow> nat
     \<Rightarrow> (inquiry_response list \<times> nat) option" where
  "inquiry_result_loop d n has_rssi old [] responses i_tail = Some (responses, i_tail)"
| "inquiry_result_loop d n has_rssi old (i # is) responses i_tail =
     do { (responses, i_tail) \<leftarrow> inquiry_result_step d n has_rssi old i responses i_tail;
          inquiry_result_loop d n has_rssi old is responses i_tail }"

definition inquiry_result_cb :: "'a env \<Rightarrow> bte_buffer \<Rightarrow> 'a dev \<Rightarrow> 'a dev option" where
  "inquiry_result_cb E buffer s =
     do { n \<leftarrow> rd8 (data buffer) HCI_CMD_EVENT_POS_DATA;
          let old = unat (inquiry_num_responses s);
          let arr = ensure_array_size (fresh_response E s) 32 old (unat n) (inquiry_responses s);
          let s = s\<lparr>inquiry_responses := arr\<rparr>;
          case arr of None \<Rightarrow> Some s
          | Some responses \<Rightarrow> do {
              event_code \<leftarrow> rd8 (data buffer) HCI_CMD_EVENT_POS_CODE;
              (responses, i_tail) \<leftarrow> inquiry_result_loop (data buffer) (unat n)
                (event_code = HCI_INQUIRY_RESULT_WITH_RSSI) old [0..<unat n] responses old;
              Some (s\<lparr>inquiry_responses := Some responses, inquiry_num_responses := of_nat i_tail\<rparr>) } }"

definition client_periodic_inquiry ::
    "'a env \<Rightarrow> hci_arg \<Rightarrow> nat \<Rightarrow> 'a dev \<Rightarrow> (bool \<times> 'a dev) option" where
  "client_periodic_inquiry E reply hci s =
     do { c \<leftarrow> get_client s (Some hci);
          s \<leftarrow> (if periodic_inquiry_cb c \<noteq> None
                then call_client_void E (periodic_inquiry_cb c) (Some hci) reply
                       (periodic_inquiry_userdata c) s
                else Some s);
          Some (False, s) }"

definition inquiry_complete_event_cb :: "'a env \<Rightarrow> bte_buffer \<Rightarrow> 'a dev \<Rightarrow> 'a dev option" where
  "inquiry_complete_event_cb E buffer s =
     do { status \<leftarrow> rd8 (data buffer) HCI_CMD_REPLY_POS_HDR_LEN;
          let reply = Inquiry_reply status (inquiry_num_responses s) (inquiry_responses s);
          found \<leftarrow> bte_hci_dev_find_pending_command buffer s;
          s \<leftarrow> (case found of
                  Some i \<Rightarrow> do {
                    pc \<leftarrow> get_pc s i;
                    cb \<leftarrow> event_client_cb (pc_command_cb pc);
                    s \<leftarrow> bte_hci_dev_free_command i s;
                    call_client_void E cb (pc_hci pc) reply (pc_userdata pc) s }
                | None \<Rightarrow> map_option snd
                    (bte_hci_dev_foreach_hci_client (client_periodic_inquiry E reply) s));
          Some (bte_hci_dev_inquiry_cleanup s) }"

definition inquiry_status_cb :: "'a env \<Rightarrow> hci_ptr \<Rightarrow> byte \<Rightarrow> nat \<Rightarrow> 'a dev \<Rightarrow> 'a dev option" where
  "inquiry_status_cb E hci status pc s =
     (if status \<noteq> 0 then bte_hci_dev_free_command pc s
      else do {
        (_, m) \<leftarrow> bte_data_matcher_add_rule (stack_matcher E s) [HCI_INQUIRY_COMPLETE] 1 0;
        (ev, s) \<leftarrow> bte_hci_dev_alloc_command m s;
        case ev of None \<Rightarrow> bte_hci_dev_free_command pc s
        | Some i \<Rightarrow> do {
            t \<leftarrow> get_tmp s hci;
            s \<leftarrow> set_event_entry i hci (tmp_client_cb t) pc s;
            s \<leftarrow> bte_hci_dev_install_event_handler HCI_INQUIRY_RESULT (Some Inquiry_result_cb) s;
            s \<leftarrow> bte_hci_dev_install_event_handler HCI_INQUIRY_COMPLETE (Some Inquiry_complete_event_cb) s;
            bte_hci_dev_free_command pc s } })"

text \<open>The three bytes of a \<^verbatim>\<open>BteLap\<close>, least significant first.\<close>

definition lap_bytes :: "u32 \<Rightarrow> mem" where
  "lap_bytes lap = [ucast (lap AND 0xff), ucast (drop_bit 8 lap AND 0xff), ucast (drop_bit 16 lap AND 0xff)]"

definition bte_hci_inquiry ::
    "'a env \<Rightarrow> hci_ptr \<Rightarrow> u32 \<Rightarrow> byte \<Rightarrow> byte \<Rightarrow> cb_ptr \<Rightarrow> cb_ptr \<Rightarrow> u64 \<Rightarrow> 'a dev \<Rightarrow> 'a dev option" where
  "bte_hci_inquiry E hci lap len max_resp status_cb callback userdata s =
     do { (b, s) \<leftarrow> bte_hci_dev_add_pending_async_command E hci HCI_INQUIRY_OCF HCI_LINK_CTRL_OGF
                      HCI_INQUIRY_PLEN (Some Inquiry_status_cb) status_cb userdata s;
          when_buffer b (\<lambda>b s. do {
            t \<leftarrow> get_tmp s hci;
            s \<leftarrow> put_tmp s hci (t\<lparr>tmp_client_cb := callback\<rparr>);
            d \<leftarrow> wr (data b) HCI_CMD_HDR_LEN (lap_bytes lap);
            d \<leftarrow> wr d (HCI_CMD_HDR_LEN + 3) [len];
            d \<leftarrow> wr d (HCI_CMD_HDR_LEN + 4) [max_resp];
            send_filled E b d s }) s }"

definition bte_hci_inquiry_cancel :: "'a env \<Rightarrow> hci_ptr \<Rightarrow> cb_ptr \<Rightarrow> u64 \<Rightarrow> 'a dev \<Rightarrow> 'a dev option" where
  "bte_hci_inquiry_cancel E hci callback userdata s =
     do { (b, s) \<leftarrow> bte_hci_dev_add_pending_command E hci HCI_INQUIRY_CANCEL_OCF HCI_LINK_CTRL_OGF
                      HCI_INQUIRY_CANCEL_PLEN Command_complete_cb callback userdata s;
          send E b s }"

definition periodic_inquiry_complete_cb ::
    "'a env \<Rightarrow> hci_ptr \<Rightarrow> bte_buffer \<Rightarrow> cb_ptr \<Rightarrow> u64 \<Rightarrow> 'a dev \<Rightarrow> 'a dev option" where
  "periodic_inquiry_complete_cb E hci buffer client_cb userdata s =
     do { status \<leftarrow> rd8 (data buffer) HCI_CMD_REPLY_POS_STATUS;
          s \<leftarrow> (if status = 0 then
                  do { s \<leftarrow> bte_hci_dev_install_event_handler HCI_INQUIRY_RESULT (Some Inquiry_result_cb) s;
                       bte_hci_dev_install_event_handler HCI_INQUIRY_COMPLETE
                         (Some Inquiry_complete_event_cb) s }
                else do { c \<leftarrow> get_client s hci; put_client s hci (c\<lparr>periodic_inquiry_cb := None\<rparr>) });
          command_complete_cb E hci buffer client_cb userdata s }"

definition bte_hci_periodic_inquiry ::
    "'a env \<Rightarrow> hci_ptr \<Rightarrow> u16 \<Rightarrow> u16 \<Rightarrow> u32 \<Rightarrow> byte \<Rightarrow> byte \<Rightarrow> cb_ptr \<Rightarrow> cb_ptr \<Rightarrow> u64
     \<Rightarrow> 'a dev \<Rightarrow> 'a dev option" where
  "bte_hci_periodic_inquiry E hci min_period max_period lap len max_resp status_cb callback userdata s =
     do { (b, s) \<leftarrow> bte_hci_dev_add_pending_command E hci HCI_PERIODIC_INQUIRY_OCF HCI_LINK_CTRL_OGF
                      HCI_PERIODIC_INQUIRY_PLEN Periodic_inquiry_complete_cb status_cb userdata s;
          when_buffer b (\<lambda>b s. do {
            c \<leftarrow> get_client s hci;
            s \<leftarrow> put_client s hci (c\<lparr>periodic_inquiry_cb := callback, periodic_inquiry_userdata := userdata\<rparr>);
            let s = bte_hci_dev_inquiry_cleanup s;
            d \<leftarrow> write_le16 max_period (data b) HCI_CMD_HDR_LEN;
            d \<leftarrow> write_le16 min_period d (HCI_CMD_HDR_LEN + 2);
            d \<leftarrow> wr d (HCI_CMD_HDR_LEN + 4) (lap_bytes lap);
            d \<leftarrow> wr d (HCI_CMD_HDR_LEN + 7) [len];
            d \<leftarrow> wr d (HCI_CMD_HDR_LEN + 8) [max_resp];
            send_filled E b d s }) s }"

definition exit_periodic_inquiry_cb ::
    "'a env \<Rightarrow> hci_ptr \<Rightarrow> bte_buffer \<Rightarrow> cb_ptr \<Rightarrow> u64 \<Rightarrow> 'a dev \<Rightarrow> 'a dev option" where
  "exit_periodic_inquiry_cb E hci buffer client_cb userdata s =
     do { let s = bte_hci_dev_inquiry_cleanup s;
          c \<leftarrow> get_client s hci;
          s \<leftarrow> put_client s hci (c\<lparr>periodic_inquiry_cb := None\<rparr>);
          command_complete_cb E hci buffer client_cb userdata s }"

definition bte_hci_exit_periodic_inquiry ::
    "'a env \<Rightarrow> hci_ptr \<Rightarrow> cb_ptr \<Rightarrow> u64 \<Rightarrow> 'a dev \<Rightarrow> 'a dev option" where
  "bte_hci_exit_periodic_inquiry E hci callback userdata s =
     do { (b, s) \<leftarrow> bte_hci_dev_add_pending_command E hci HCI_EXIT_PERIODIC_INQUIRY_OCF HCI_LINK_CTRL_OGF
                      HCI_EXIT_PERIODIC_INQUIRY_PLEN Exit_periodic_inquiry_cb callback userdata s;
          send E b s }"

section \<open>Connections\<close>

definition conn_complete_event_cb :: "'a env \<Rightarrow> bte_buffer \<Rightarrow> 'a dev \<Rightarrow> 'a dev option" where
  "conn_complete_event_cb E buffer s =
     do { found \<leftarrow> bte_hci_dev_find_pending_command buffer s;
          case found of None \<Rightarrow> Some s
          | Some i \<Rightarrow> do {
              pc \<leftarrow> get_pc s i;
              let d = data buffer;
              let off = HCI_CMD_REPLY_POS_HDR_LEN;
              status \<leftarrow> rd8 d off;
              conn_handle \<leftarrow> read_le16 d (off + 1);
              address \<leftarrow> slice d (off + 3) 6;
              link_type \<leftarrow> rd8 d (off + 9);
              encryption_mode \<leftarrow> rd8 d (off + 10);
              cb \<leftarrow> event_client_cb (pc_command_cb pc);
              s \<leftarrow> bte_hci_dev_free_command i s;
              if cb \<noteq> None
              then call_client_void E cb (pc_hci pc)
                     (Create_connection_reply status link_type conn_handle address encryption_mode)
                     (pc_userdata pc) s
              else Some s } }"

definition create_connection_status_cb :: "'a env \<Rightarrow> hci_ptr \<Rightarrow> byte \<Rightarrow> nat \<Rightarrow> 'a dev \<Rightarrow> 'a dev option" where
  "create_connection_status_cb E hci status pc s =
     (if status \<noteq> 0 \<or> hci = None then bte_hci_dev_free_command pc s
      else do {
        t \<leftarrow> get_tmp s hci;
        (_, m) \<leftarrow> bte_data_matcher_add_rule (stack_matcher E s) [HCI_CONNECTION_COMPLETE] 1 0;
        address \<leftarrow> tmp_address t;
        (_, m) \<leftarrow> bte_data_matcher_add_rule m address 6 (of_nat (HCI_CMD_REPLY_POS_HDR_LEN + 3));
        (ev, s) \<leftarrow> bte_hci_dev_alloc_command m s;
        case ev of None \<Rightarrow> bte_hci_dev_free_command pc s
        | Some i \<Rightarrow> do {
            s \<leftarrow> set_event_entry i hci (tmp_client_cb t) pc s;
            s \<leftarrow> bte_hci_dev_install_event_handler HCI_CONNECTION_COMPLETE (Some Conn_complete_event_cb) s;
            bte_hci_dev_free_command pc s } })"

text \<open>The address and the callback that the status callback reads.\<close>

definition set_tmp_address :: "'a dev \<Rightarrow> hci_ptr \<Rightarrow> mem \<Rightarrow> cb_ptr \<Rightarrow> 'a dev option" where
  "set_tmp_address s hci address callback =
     do { t \<leftarrow> get_tmp s hci;
          bs \<leftarrow> memcpy_to (tmp_bytes t) 0 address 6;
          put_tmp s hci (t\<lparr>tmp_client_cb := callback, tmp_bytes := bs\<rparr>) }"

definition bte_hci_create_connection ::
    "'a env \<Rightarrow> hci_ptr \<Rightarrow> mem \<Rightarrow> connect_params \<Rightarrow> cb_ptr \<Rightarrow> cb_ptr \<Rightarrow> u64 \<Rightarrow> 'a dev \<Rightarrow> 'a dev option" where
  "bte_hci_create_connection E hci address params status_cb callback userdata s =
     do { (b, s) \<leftarrow> bte_hci_dev_add_pending_async_command E hci HCI_CREATE_CONN_OCF HCI_LINK_CTRL_OGF
                      HCI_CREATE_CONN_PLEN (Some Create_connection_status_cb) status_cb userdata s;
          when_buffer b (\<lambda>b s. do {
            s \<leftarrow> set_tmp_address s hci address callback;
            d \<leftarrow> memcpy_to (data b) HCI_CMD_HDR_LEN address 6;
            d \<leftarrow> write_le16 (cp_packet_type params) d (HCI_CMD_HDR_LEN + 6);
            d \<leftarrow> wr d (HCI_CMD_HDR_LEN + 8) [cp_page_scan_rep_mode params];
            d \<leftarrow> wr d (HCI_CMD_HDR_LEN + 9) [0];
            d \<leftarrow> write_clock_offset (cp_clock_offset params) d (HCI_CMD_HDR_LEN + 10);
            d \<leftarrow> wr d (HCI_CMD_HDR_LEN + 12) [if cp_allow_role_switch params then 1 else 0];
            send_filled E b d s }) s }"

definition bte_hci_disconnect ::
    "'a env \<Rightarrow> hci_ptr \<Rightarrow> u16 \<Rightarrow> byte \<Rightarrow> cb_ptr \<Rightarrow> u64 \<Rightarrow> 'a dev \<Rightarrow> 'a dev option" where
  "bte_hci_disconnect E hci handle reason callback userdata s =
     do { (b, s) \<leftarrow> bte_hci_dev_add_pending_async_command E hci HCI_DISCONN_OCF HCI_LINK_CTRL_OGF
                      HCI_DISCONN_PLEN None callback userdata s;
          when_buffer b (\<lambda>b s. do {
            d \<leftarrow> write_le16 handle (data b) HCI_CMD_HDR_LEN;
            d \<leftarrow> wr d (HCI_CMD_HDR_LEN + 2) [reason];
            send_filled E b d s }) s }"

text \<open>
  The \<^verbatim>\<open>client_handle_*\<close> functions all have this shape: the client is asked when it installed the
  callback, and its answer ends the iteration over the clients.
\<close>

definition ask_client ::
    "'a env \<Rightarrow> (bte_client \<Rightarrow> cb_ptr) \<Rightarrow> hci_arg \<Rightarrow> nat \<Rightarrow> 'a dev \<Rightarrow> (bool \<times> 'a dev) option" where
  "ask_client E cb_of arg hci s =
     do { c \<leftarrow> get_client s (Some hci);
          if cb_of c \<noteq> None
          then do { ud \<leftarrow> hci_userdata s (Some hci); call_client E (cb_of c) (Some hci) arg ud s }
          else Some (False, s) }"

definition client_handle_nr_of_completed_packets ::
    "'a env \<Rightarrow> u16 \<Rightarrow> u16 \<Rightarrow> nat \<Rightarrow> 'a dev \<Rightarrow> (bool \<times> 'a dev) option" where
  "client_handle_nr_of_completed_packets E conn_handle n hci s =
     ask_client E nr_of_completed_packets_cb (Nr_of_completed_packets conn_handle n) hci s"

fun sum_completed :: "mem \<Rightarrow> nat \<Rightarrow> nat list \<Rightarrow> u16 \<Rightarrow> u16 option" where
  "sum_completed d n [] acc = Some acc"
| "sum_completed d n (i # is) acc =
     do { k \<leftarrow> read_le16 d (3 + n * 2 + i * 2); sum_completed d n is (acc + k) }"

fun notify_completed :: "'a env \<Rightarrow> mem \<Rightarrow> nat \<Rightarrow> nat list \<Rightarrow> 'a dev \<Rightarrow> 'a dev option" where
  "notify_completed E d n [] s = Some s"
| "notify_completed E d n (i # is) s =
     do { conn_handle \<leftarrow> read_le16 d (3 + i * 2);
          k \<leftarrow> read_le16 d (3 + n * 2 + i * 2);
          (_, s) \<leftarrow> bte_hci_dev_foreach_hci_client
                     (client_handle_nr_of_completed_packets E conn_handle k) s;
          notify_completed E d n is s }"

definition nr_of_completed_packets_event_cb :: "'a env \<Rightarrow> bte_buffer \<Rightarrow> 'a dev \<Rightarrow> 'a dev option" where
  "nr_of_completed_packets_event_cb E buffer s =
     do { num_records \<leftarrow> rd8 (data buffer) HCI_CMD_EVENT_POS_DATA;
          let n = unat num_records;
          completed_packets \<leftarrow> sum_completed (data buffer) n [0..<n] 0;
          s \<leftarrow> bte_hci_dev_on_completed_packets E completed_packets s;
          notify_completed E (data buffer) n [0..<n] s }"

definition bte_hci_on_nr_of_completed_packets :: "hci_ptr \<Rightarrow> cb_ptr \<Rightarrow> 'a dev \<Rightarrow> 'a dev option" where
  "bte_hci_on_nr_of_completed_packets hci callback s =
     do { c \<leftarrow> get_client s hci;
          s \<leftarrow> put_client s hci (c\<lparr>nr_of_completed_packets_cb := callback\<rparr>);
          bte_hci_dev_install_event_handler HCI_NBR_OF_COMPLETED_PACKETS
            (Some Nr_of_completed_packets_event_cb) s }"

definition client_handle_disconnection_complete ::
    "'a env \<Rightarrow> byte \<Rightarrow> byte \<Rightarrow> u16 \<Rightarrow> nat \<Rightarrow> 'a dev \<Rightarrow> (bool \<times> 'a dev) option" where
  "client_handle_disconnection_complete E status reason conn_handle hci s =
     ask_client E disconnection_complete_cb (Disconnection_complete status reason conn_handle) hci s"

definition disconnection_complete_event_cb :: "'a env \<Rightarrow> bte_buffer \<Rightarrow> 'a dev \<Rightarrow> 'a dev option" where
  "disconnection_complete_event_cb E buffer s =
     do { status \<leftarrow> rd8 (data buffer) HCI_CMD_EVENT_POS_DATA;
          conn_handle \<leftarrow> read_le16 (data buffer) (HCI_CMD_EVENT_POS_DATA + 1);
          reason \<leftarrow> rd8 (data buffer) (HCI_CMD_EVENT_POS_DATA + 3);
          map_option snd (bte_hci_dev_foreach_hci_client
            (client_handle_disconnection_complete E status reason conn_handle) s) }"

definition bte_hci_on_disconnection_complete :: "hci_ptr \<Rightarrow> cb_ptr \<Rightarrow> 'a dev \<Rightarrow> 'a dev option" where
  "bte_hci_on_disconnection_complete hci callback s =
     do { c \<leftarrow> get_client s hci;
          s \<leftarrow> put_client s hci (c\<lparr>disconnection_complete_cb := callback\<rparr>);
          bte_hci_dev_install_event_handler HCI_DISCONNECTION_COMPLETE
            (Some Disconnection_complete_event_cb) s }"

definition bte_hci_create_connection_cancel ::
    "'a env \<Rightarrow> hci_ptr \<Rightarrow> mem \<Rightarrow> cb_ptr \<Rightarrow> u64 \<Rightarrow> 'a dev \<Rightarrow> 'a dev option" where
  "bte_hci_create_connection_cancel E hci address callback userdata s =
     do { (b, s) \<leftarrow> bte_hci_dev_add_pending_command E hci HCI_CREATE_CONN_CANCEL_OCF HCI_LINK_CTRL_OGF
                      HCI_CREATE_CONN_CANCEL_PLEN Command_complete_cb callback userdata s;
          when_buffer b (\<lambda>b s. do {
            d \<leftarrow> memcpy_to (data b) HCI_CMD_HDR_LEN address 6;
            send_filled E b d s }) s }"

definition bte_hci_accept_connection ::
    "'a env \<Rightarrow> hci_ptr \<Rightarrow> mem \<Rightarrow> byte \<Rightarrow> cb_ptr \<Rightarrow> cb_ptr \<Rightarrow> u64 \<Rightarrow> 'a dev \<Rightarrow> 'a dev option" where
  "bte_hci_accept_connection E hci address role status_cb callback userdata s =
     do { (b, s) \<leftarrow> bte_hci_dev_add_pending_async_command E hci HCI_ACCEPT_CONN_REQ_OCF HCI_LINK_CTRL_OGF
                      HCI_ACCEPT_CONN_REQ_PLEN (Some Create_connection_status_cb) status_cb userdata s;
          when_buffer b (\<lambda>b s. do {
            s \<leftarrow> set_tmp_address s hci address callback;
            d \<leftarrow> memcpy_to (data b) HCI_CMD_HDR_LEN address 6;
            d \<leftarrow> wr d (HCI_CMD_HDR_LEN + 6) [role];
            send_filled E b d s }) s }"

definition bte_hci_reject_connection ::
    "'a env \<Rightarrow> hci_ptr \<Rightarrow> mem \<Rightarrow> byte \<Rightarrow> cb_ptr \<Rightarrow> cb_ptr \<Rightarrow> u64 \<Rightarrow> 'a dev \<Rightarrow> 'a dev option" where
  "bte_hci_reject_connection E hci address reason status_cb callback userdata s =
     do { (b, s) \<leftarrow> bte_hci_dev_add_pending_async_command E hci HCI_REJECT_CONN_REQ_OCF HCI_LINK_CTRL_OGF
                      HCI_REJECT_CONN_REQ_PLEN (Some Create_connection_status_cb) status_cb userdata s;
          when_buffer b (\<lambda>b s. do {
            s \<leftarrow> (if hci \<noteq> None then set_tmp_address s hci address callback else Some s);
            d \<leftarrow> memcpy_to (data b) HCI_CMD_HDR_LEN address 6;
            d \<leftarrow> wr d (HCI_CMD_HDR_LEN + 6) [reason];
            send_filled E b d s }) s }"

definition client_handle_connection_request ::
    "'a env \<Rightarrow> mem \<Rightarrow> nat \<Rightarrow> 'a dev \<Rightarrow> (bool \<times> 'a dev) option" where
  "client_handle_connection_request E d hci s =
     do { link_type \<leftarrow> rd8 d (6 + 3);
          address \<leftarrow> slice d 0 6;
          cod \<leftarrow> slice d 6 3;
          ask_client E connection_request_cb (Connection_request address cod link_type) hci s }"

definition connection_request_event_cb :: "'a env \<Rightarrow> bte_buffer \<Rightarrow> 'a dev \<Rightarrow> 'a dev option" where
  "connection_request_event_cb E buffer s =
     do { let d = drop HCI_CMD_EVENT_POS_DATA (data buffer);
          (handled, s) \<leftarrow> bte_hci_dev_foreach_hci_client (client_handle_connection_request E d) s;
          if \<not> handled
          then bte_hci_reject_connection E None d BTE_HCI_HOST_REJECTED_BD_ADDR None None 0 s
          else Some s }"

definition bte_hci_on_connection_request :: "hci_ptr \<Rightarrow> cb_ptr \<Rightarrow> 'a dev \<Rightarrow> 'a dev option" where
  "bte_hci_on_connection_request hci callback s =
     do { c \<leftarrow> get_client s hci;
          s \<leftarrow> put_client s hci (c\<lparr>connection_request_cb := callback\<rparr>);
          bte_hci_dev_install_event_handler HCI_CONNECTION_REQUEST (Some Connection_request_event_cb) s }"

section \<open>Link keys and PIN codes\<close>

definition link_key_req_reply_cb ::
    "'a env \<Rightarrow> hci_ptr \<Rightarrow> bte_buffer \<Rightarrow> cb_ptr \<Rightarrow> u64 \<Rightarrow> 'a dev \<Rightarrow> 'a dev option" where
  "link_key_req_reply_cb E hci buffer client_cb userdata s =
     (if client_cb = None then Some s
      else do { status \<leftarrow> rd8 (data buffer) HCI_CMD_REPLY_POS_STATUS;
                address \<leftarrow> slice (data buffer) HCI_CMD_REPLY_POS_DATA 6;
                call_client_void E client_cb hci (Link_key_req_reply status address) userdata s })"

definition bte_hci_link_key_req_reply ::
    "'a env \<Rightarrow> hci_ptr \<Rightarrow> mem \<Rightarrow> mem \<Rightarrow> cb_ptr \<Rightarrow> u64 \<Rightarrow> 'a dev \<Rightarrow> 'a dev option" where
  "bte_hci_link_key_req_reply E hci address key callback userdata s =
     do { (b, s) \<leftarrow> bte_hci_dev_add_pending_command E hci HCI_LINK_KEY_REQ_REP_OCF HCI_LINK_CTRL_OGF
                      HCI_LINK_KEY_REQ_REP_PLEN Link_key_req_reply_cb callback userdata s;
          when_buffer b (\<lambda>b s. do {
            d \<leftarrow> memcpy_to (data b) HCI_CMD_HDR_LEN address 6;
            d \<leftarrow> memcpy_to d (HCI_CMD_HDR_LEN + 6) key 16;
            send_filled E b d s }) s }"

definition bte_hci_link_key_req_neg_reply ::
    "'a env \<Rightarrow> hci_ptr \<Rightarrow> mem \<Rightarrow> cb_ptr \<Rightarrow> u64 \<Rightarrow> 'a dev \<Rightarrow> 'a dev option" where
  "bte_hci_link_key_req_neg_reply E hci address callback userdata s =
     do { (b, s) \<leftarrow> bte_hci_dev_add_pending_command E hci HCI_LINK_KEY_REQ_NEG_REP_OCF HCI_LINK_CTRL_OGF
                      HCI_LINK_KEY_REQ_NEG_REP_PLEN Link_key_req_reply_cb callback userdata s;
          when_buffer b (\<lambda>b s. do {
            d \<leftarrow> memcpy_to (data b) HCI_CMD_HDR_LEN address 6;
            send_filled E b d s }) s }"

definition client_handle_link_key_request ::
    "'a env \<Rightarrow> mem \<Rightarrow> nat \<Rightarrow> 'a dev \<Rightarrow> (bool \<times> 'a dev) option" where
  "client_handle_link_key_request E d hci s =
     do { address \<leftarrow> slice d 0 6; ask_client E link_key_request_cb (Link_key_request address) hci s }"

definition link_key_request_event_cb :: "'a env \<Rightarrow> bte_buffer \<Rightarrow> 'a dev \<Rightarrow> 'a dev option" where
  "link_key_request_event_cb E buffer s =
     do { let d = drop HCI_CMD_EVENT_POS_DATA (data buffer);
          (handled, s) \<leftarrow> bte_hci_dev_foreach_hci_client (client_handle_link_key_request E d) s;
          if \<not> handled then bte_hci_link_key_req_neg_reply E None d None 0 s else Some s }"

definition bte_hci_on_link_key_request :: "hci_ptr \<Rightarrow> cb_ptr \<Rightarrow> 'a dev \<Rightarrow> 'a dev option" where
  "bte_hci_on_link_key_request hci callback s =
     do { c \<leftarrow> get_client s hci;
          s \<leftarrow> put_client s hci (c\<lparr>link_key_request_cb := callback\<rparr>);
          bte_hci_dev_install_event_handler HCI_LINK_KEY_REQUEST (Some Link_key_request_event_cb) s }"

definition client_handle_link_key_notification ::
    "'a env \<Rightarrow> mem \<Rightarrow> mem \<Rightarrow> byte \<Rightarrow> nat \<Rightarrow> 'a dev \<Rightarrow> (bool \<times> 'a dev) option" where
  "client_handle_link_key_notification E address key key_type hci s =
     ask_client E link_key_notification_cb (Link_key_notification address key key_type) hci s"

definition link_key_notification_event_cb :: "'a env \<Rightarrow> bte_buffer \<Rightarrow> 'a dev \<Rightarrow> 'a dev option" where
  "link_key_notification_event_cb E buffer s =
     do { address \<leftarrow> slice (data buffer) HCI_CMD_EVENT_POS_DATA 6;
          key \<leftarrow> slice (data buffer) (HCI_CMD_EVENT_POS_DATA + 6) 16;
          key_type \<leftarrow> rd8 (data buffer) (HCI_CMD_EVENT_POS_DATA + 22);
          map_option snd (bte_hci_dev_foreach_hci_client
            (client_handle_link_key_notification E address key key_type) s) }"

definition bte_hci_on_link_key_notification :: "hci_ptr \<Rightarrow> cb_ptr \<Rightarrow> 'a dev \<Rightarrow> 'a dev option" where
  "bte_hci_on_link_key_notification hci callback s =
     do { c \<leftarrow> get_client s hci;
          s \<leftarrow> put_client s hci (c\<lparr>link_key_notification_cb := callback\<rparr>);
          bte_hci_dev_install_event_handler HCI_LINK_KEY_NOTIFICATION
            (Some Link_key_notification_event_cb) s }"

definition bte_hci_pin_code_req_reply ::
    "'a env \<Rightarrow> hci_ptr \<Rightarrow> mem \<Rightarrow> mem \<Rightarrow> byte \<Rightarrow> cb_ptr \<Rightarrow> u64 \<Rightarrow> 'a dev \<Rightarrow> 'a dev option" where
  "bte_hci_pin_code_req_reply E hci address pin len callback userdata s =
     do { (b, s) \<leftarrow> bte_hci_dev_add_pending_command E hci HCI_PIN_CODE_REQ_REP_OCF HCI_LINK_CTRL_OGF
                      HCI_PIN_CODE_REQ_REP_PLEN Link_key_req_reply_cb callback userdata s;
          when_buffer b (\<lambda>b s. do {
            d \<leftarrow> memcpy_to (data b) HCI_CMD_HDR_LEN address 6;
            d \<leftarrow> wr d (HCI_CMD_HDR_LEN + 6) [len];
            d \<leftarrow> memcpy_to d (HCI_CMD_HDR_LEN + 7) pin (unat len);
            d \<leftarrow> (if len < 16 then wr d (HCI_CMD_HDR_LEN + 7 + unat len) [0] else Some d);
            send_filled E b d s }) s }"

definition bte_hci_pin_code_req_neg_reply ::
    "'a env \<Rightarrow> hci_ptr \<Rightarrow> mem \<Rightarrow> cb_ptr \<Rightarrow> u64 \<Rightarrow> 'a dev \<Rightarrow> 'a dev option" where
  "bte_hci_pin_code_req_neg_reply E hci address callback userdata s =
     do { (b, s) \<leftarrow> bte_hci_dev_add_pending_command E hci HCI_PIN_CODE_REQ_NEG_REP_OCF HCI_LINK_CTRL_OGF
                      HCI_PIN_CODE_REQ_NEG_REP_PLEN Link_key_req_reply_cb callback userdata s;
          when_buffer b (\<lambda>b s. do {
            d \<leftarrow> memcpy_to (data b) HCI_CMD_HDR_LEN address 6;
            send_filled E b d s }) s }"

definition client_handle_pin_code_request ::
    "'a env \<Rightarrow> mem \<Rightarrow> nat \<Rightarrow> 'a dev \<Rightarrow> (bool \<times> 'a dev) option" where
  "client_handle_pin_code_request E d hci s =
     do { address \<leftarrow> slice d 0 6; ask_client E pin_code_request_cb (Pin_code_request address) hci s }"

definition pin_code_request_event_cb :: "'a env \<Rightarrow> bte_buffer \<Rightarrow> 'a dev \<Rightarrow> 'a dev option" where
  "pin_code_request_event_cb E buffer s =
     do { let d = drop HCI_CMD_EVENT_POS_DATA (data buffer);
          (handled, s) \<leftarrow> bte_hci_dev_foreach_hci_client (client_handle_pin_code_request E d) s;
          if \<not> handled then bte_hci_pin_code_req_neg_reply E None d None 0 s else Some s }"

definition bte_hci_on_pin_code_request :: "hci_ptr \<Rightarrow> cb_ptr \<Rightarrow> 'a dev \<Rightarrow> 'a dev option" where
  "bte_hci_on_pin_code_request hci callback s =
     do { c \<leftarrow> get_client s hci;
          s \<leftarrow> put_client s hci (c\<lparr>pin_code_request_cb := callback\<rparr>);
          bte_hci_dev_install_event_handler HCI_PIN_CODE_REQUEST (Some Pin_code_request_event_cb) s }"

section \<open>Properties of a remote device\<close>

definition auth_complete_event_cb :: "'a env \<Rightarrow> bte_buffer \<Rightarrow> 'a dev \<Rightarrow> 'a dev option" where
  "auth_complete_event_cb E buffer s =
     do { found \<leftarrow> bte_hci_dev_find_pending_command buffer s;
          case found of None \<Rightarrow> Some s
          | Some i \<Rightarrow> do {
              pc \<leftarrow> get_pc s i;
              status \<leftarrow> rd8 (data buffer) HCI_CMD_EVENT_POS_DATA;
              conn_handle \<leftarrow> read_le16 (data buffer) (HCI_CMD_EVENT_POS_DATA + 1);
              cb \<leftarrow> event_client_cb (pc_command_cb pc);
              s \<leftarrow> bte_hci_dev_free_command i s;
              if cb \<noteq> None
              then call_client_void E cb (pc_hci pc) (Auth_requested_reply status conn_handle)
                     (pc_userdata pc) s
              else Some s } }"

definition bte_hci_auth_requested ::
    "'a env \<Rightarrow> hci_ptr \<Rightarrow> u16 \<Rightarrow> cb_ptr \<Rightarrow> cb_ptr \<Rightarrow> u64 \<Rightarrow> 'a dev \<Rightarrow> 'a dev option" where
  "bte_hci_auth_requested E hci conn_handle status_cb callback userdata s =
     common_read_connection E hci HCI_AUTH_REQUESTED_OCF HCI_LINK_CTRL_OGF conn_handle
       HCI_AUTH_COMPLETE Auth_complete_event_cb status_cb callback userdata s"

definition remote_name_req_complete_event_cb :: "'a env \<Rightarrow> bte_buffer \<Rightarrow> 'a dev \<Rightarrow> 'a dev option" where
  "remote_name_req_complete_event_cb E buffer s =
     do { found \<leftarrow> bte_hci_dev_find_pending_command buffer s;
          case found of None \<Rightarrow> Some s
          | Some i \<Rightarrow> do {
              pc \<leftarrow> get_pc s i;
              status \<leftarrow> rd8 (data buffer) HCI_CMD_EVENT_POS_DATA;
              address \<leftarrow> slice (data buffer) (HCI_CMD_EVENT_POS_DATA + 1) 6;
              name \<leftarrow> strncpy_from (drop (HCI_CMD_EVENT_POS_DATA + 1 + 6) (data buffer)) 248;
              cb \<leftarrow> event_client_cb (pc_command_cb pc);
              s \<leftarrow> bte_hci_dev_free_command i s;
              call_client_void E cb (pc_hci pc) (Read_remote_name_reply status address (name @ [0]))
                (pc_userdata pc) s } }"

definition read_remote_name_status_cb :: "'a env \<Rightarrow> hci_ptr \<Rightarrow> byte \<Rightarrow> nat \<Rightarrow> 'a dev \<Rightarrow> 'a dev option" where
  "read_remote_name_status_cb E hci status pc s =
     (if status \<noteq> 0 then
        do { p \<leftarrow> get_pc s pc;
             cb \<leftarrow> status_client_cb (pc_command_cb p);
             s \<leftarrow> (if cb = None then
                     do { t \<leftarrow> get_tmp s hci;
                          address \<leftarrow> tmp_address t;
                          call_client_void E (tmp_client_cb t) hci
                            (Read_remote_name_reply status address
                               (0 # map (env_fresh E s) [0..<248])) (pc_userdata p) s }
                   else Some s);
             bte_hci_dev_free_command pc s }
      else do {
        t \<leftarrow> get_tmp s hci;
        (_, m) \<leftarrow> bte_data_matcher_add_rule (stack_matcher E s) [HCI_REMOTE_NAME_REQ_COMPLETE] 1 0;
        address \<leftarrow> tmp_address t;
        (_, m) \<leftarrow> bte_data_matcher_add_rule m address 6 (of_nat (HCI_CMD_EVENT_POS_DATA + 1));
        (ev, s) \<leftarrow> bte_hci_dev_alloc_command m s;
        case ev of None \<Rightarrow> bte_hci_dev_free_command pc s
        | Some i \<Rightarrow> do {
            s \<leftarrow> set_event_entry i hci (tmp_client_cb t) pc s;
            s \<leftarrow> bte_hci_dev_install_event_handler HCI_REMOTE_NAME_REQ_COMPLETE
                   (Some Remote_name_req_complete_event_cb) s;
            bte_hci_dev_free_command pc s } })"

definition bte_hci_read_remote_name ::
    "'a env \<Rightarrow> hci_ptr \<Rightarrow> mem \<Rightarrow> byte \<Rightarrow> u16 \<Rightarrow> cb_ptr \<Rightarrow> cb_ptr \<Rightarrow> u64 \<Rightarrow> 'a dev \<Rightarrow> 'a dev option" where
  "bte_hci_read_remote_name E hci address page_scan_rep_mode clock_offset status_cb callback userdata s =
     do { (b, s) \<leftarrow> bte_hci_dev_add_pending_async_command E hci HCI_R_REMOTE_NAME_OCF HCI_LINK_CTRL_OGF
                      HCI_R_REMOTE_NAME_PLEN (Some Read_remote_name_status_cb) status_cb userdata s;
          when_buffer b (\<lambda>b s. do {
            s \<leftarrow> set_tmp_address s hci address callback;
            d \<leftarrow> memcpy_to (data b) HCI_CMD_HDR_LEN address 6;
            d \<leftarrow> wr d (HCI_CMD_HDR_LEN + 6) [page_scan_rep_mode];
            d \<leftarrow> wr d (HCI_CMD_HDR_LEN + 7) [0];
            d \<leftarrow> write_clock_offset clock_offset d (HCI_CMD_HDR_LEN + 8);
            send_filled E b d s }) s }"

definition read_remote_features_complete_event_cb :: "'a env \<Rightarrow> bte_buffer \<Rightarrow> 'a dev \<Rightarrow> 'a dev option" where
  "read_remote_features_complete_event_cb E buffer s =
     do { found \<leftarrow> bte_hci_dev_find_pending_command buffer s;
          case found of None \<Rightarrow> Some s
          | Some i \<Rightarrow> do {
              pc \<leftarrow> get_pc s i;
              status \<leftarrow> rd8 (data buffer) HCI_CMD_EVENT_POS_DATA;
              conn_handle \<leftarrow> read_le16 (data buffer) (HCI_CMD_EVENT_POS_DATA + 1);
              features \<leftarrow> read_le64 (data buffer) (HCI_CMD_EVENT_POS_DATA + 3);
              cb \<leftarrow> event_client_cb (pc_command_cb pc);
              s \<leftarrow> bte_hci_dev_free_command i s;
              call_client_void E cb (pc_hci pc) (Read_remote_features_reply status conn_handle features)
                (pc_userdata pc) s } }"

definition bte_hci_read_remote_features ::
    "'a env \<Rightarrow> hci_ptr \<Rightarrow> u16 \<Rightarrow> cb_ptr \<Rightarrow> cb_ptr \<Rightarrow> u64 \<Rightarrow> 'a dev \<Rightarrow> 'a dev option" where
  "bte_hci_read_remote_features E hci conn_handle status_cb callback userdata s =
     common_read_connection E hci HCI_R_REMOTE_FEATURES_OCF HCI_LINK_CTRL_OGF conn_handle
       HCI_READ_REMOTE_FEATURES_COMPLETE Read_remote_features_complete_event_cb
       status_cb callback userdata s"

definition read_remote_version_info_complete_event_cb ::
    "'a env \<Rightarrow> bte_buffer \<Rightarrow> 'a dev \<Rightarrow> 'a dev option" where
  "read_remote_version_info_complete_event_cb E buffer s =
     do { found \<leftarrow> bte_hci_dev_find_pending_command buffer s;
          case found of None \<Rightarrow> Some s
          | Some i \<Rightarrow> do {
              pc \<leftarrow> get_pc s i;
              status \<leftarrow> rd8 (data buffer) HCI_CMD_EVENT_POS_DATA;
              conn_handle \<leftarrow> read_le16 (data buffer) (HCI_CMD_EVENT_POS_DATA + 1);
              lmp_version \<leftarrow> rd8 (data buffer) (HCI_CMD_EVENT_POS_DATA + 3);
              manufacturer_name \<leftarrow> read_le16 (data buffer) (HCI_CMD_EVENT_POS_DATA + 4);
              lmp_subversion \<leftarrow> read_le16 (data buffer) (HCI_CMD_EVENT_POS_DATA + 6);
              cb \<leftarrow> event_client_cb (pc_command_cb pc);
              s \<leftarrow> bte_hci_dev_free_command i s;
              call_client_void E cb (pc_hci pc)
                (Read_remote_version_info_reply status conn_handle lmp_version lmp_subversion
                   manufacturer_name) (pc_userdata pc) s } }"

definition bte_hci_read_remote_version_info ::
    "'a env \<Rightarrow> hci_ptr \<Rightarrow> u16 \<Rightarrow> cb_ptr \<Rightarrow> cb_ptr \<Rightarrow> u64 \<Rightarrow> 'a dev \<Rightarrow> 'a dev option" where
  "bte_hci_read_remote_version_info E hci conn_handle status_cb callback userdata s =
     common_read_connection E hci HCI_R_REMOTE_VERSION_INFO_OCF HCI_LINK_CTRL_OGF conn_handle
       HCI_READ_REMOTE_VERSION_COMPLETE Read_remote_version_info_complete_event_cb
       status_cb callback userdata s"

definition read_clock_offset_complete_event_cb :: "'a env \<Rightarrow> bte_buffer \<Rightarrow> 'a dev \<Rightarrow> 'a dev option" where
  "read_clock_offset_complete_event_cb E buffer s =
     do { found \<leftarrow> bte_hci_dev_find_pending_command buffer s;
          case found of None \<Rightarrow> Some s
          | Some i \<Rightarrow> do {
              pc \<leftarrow> get_pc s i;
              status \<leftarrow> rd8 (data buffer) HCI_CMD_EVENT_POS_DATA;
              conn_handle \<leftarrow> read_le16 (data buffer) (HCI_CMD_EVENT_POS_DATA + 1);
              clock_offset \<leftarrow> read_le16 (data buffer) (HCI_CMD_EVENT_POS_DATA + 3);
              cb \<leftarrow> event_client_cb (pc_command_cb pc);
              s \<leftarrow> bte_hci_dev_free_command i s;
              call_client_void E cb (pc_hci pc) (Read_clock_offset_reply status conn_handle clock_offset)
                (pc_userdata pc) s } }"

definition bte_hci_read_clock_offset ::
    "'a env \<Rightarrow> hci_ptr \<Rightarrow> u16 \<Rightarrow> cb_ptr \<Rightarrow> cb_ptr \<Rightarrow> u64 \<Rightarrow> 'a dev \<Rightarrow> 'a dev option" where
  "bte_hci_read_clock_offset E hci conn_handle status_cb callback userdata s =
     common_read_connection E hci HCI_R_CLOCK_OFFSET_OCF HCI_LINK_CTRL_OGF conn_handle
       HCI_READ_CLOCK_OFFSET_COMPLETE Read_clock_offset_complete_event_cb
       status_cb callback userdata s"

end
