(* ===== verification/HciCtrl.thy ===== *)
theory HciCtrl
  imports HciLink
begin

text \<open>
  The second half of \<^verbatim>\<open>hci.c\<close>: link policy, controller and baseband, informational and vendor
  commands, and the dispatch that ties the function pointers of the device to the functions of the
  file. The conventions are those of \<^verbatim>\<open>HciLink\<close>.
\<close>

section \<open>Link policy\<close>

definition bte_hci_set_sniff_mode ::
    "'a env \<Rightarrow> hci_ptr \<Rightarrow> u16 \<Rightarrow> u16 \<Rightarrow> u16 \<Rightarrow> u16 \<Rightarrow> u16 \<Rightarrow> cb_ptr \<Rightarrow> u64 \<Rightarrow> 'a dev \<Rightarrow> 'a dev option" where
  "bte_hci_set_sniff_mode E hci conn_handle min_interval max_interval attempt_slots timeout status_cb userdata s =
     do { (b, s) \<leftarrow> bte_hci_dev_add_pending_async_command E hci HCI_SNIFF_MODE_OCF HCI_LINK_POLICY_OGF
                      HCI_SNIFF_MODE_PLEN None status_cb userdata s;
          when_buffer b (\<lambda>b s. do {
            d \<leftarrow> write_le16 conn_handle (data b) HCI_CMD_HDR_LEN;
            d \<leftarrow> write_le16 max_interval d (HCI_CMD_HDR_LEN + 2);
            d \<leftarrow> write_le16 min_interval d (HCI_CMD_HDR_LEN + 4);
            d \<leftarrow> write_le16 attempt_slots d (HCI_CMD_HDR_LEN + 6);
            d \<leftarrow> write_le16 timeout d (HCI_CMD_HDR_LEN + 8);
            send_filled E b d s }) s }"

definition mode_change_event_cb :: "'a env \<Rightarrow> bte_buffer \<Rightarrow> 'a dev \<Rightarrow> 'a dev option" where
  "mode_change_event_cb E buffer s =
     do { found \<leftarrow> bte_hci_dev_find_pending_command buffer s;
          case found of None \<Rightarrow> Some s
          | Some i \<Rightarrow> do {
              pc \<leftarrow> get_pc s i;
              status \<leftarrow> rd8 (data buffer) HCI_CMD_EVENT_POS_DATA;
              conn_handle \<leftarrow> read_le16 (data buffer) (HCI_CMD_EVENT_POS_DATA + 1);
              current_mode \<leftarrow> rd8 (data buffer) (HCI_CMD_EVENT_POS_DATA + 3);
              interval \<leftarrow> read_le16 (data buffer) (HCI_CMD_EVENT_POS_DATA + 4);
              cb \<leftarrow> event_client_cb (pc_command_cb pc);
              ud \<leftarrow> hci_userdata s (pc_hci pc);
              (done, s) \<leftarrow> call_client E cb (pc_hci pc)
                (Mode_change_reply status conn_handle current_mode interval) ud s;
              if done then bte_hci_dev_free_command i s else Some s } }"

text \<open>
  The matcher of an event for a connection: the event code, and the handle after the status byte.
\<close>

definition conn_event_matcher :: "'a env \<Rightarrow> byte \<Rightarrow> u16 \<Rightarrow> 'a dev \<Rightarrow> data_matcher option" where
  "conn_event_matcher E event_type conn_handle s =
     do { (_, m) \<leftarrow> bte_data_matcher_add_rule (stack_matcher E s) [event_type] 1 0;
          (_, m) \<leftarrow> bte_data_matcher_add_rule m (le_bytes 2 conn_handle) 2
                      (of_nat (HCI_CMD_EVENT_POS_DATA + 1));
          Some m }"

text \<open>The body that \<^verbatim>\<open>bte_hci_on_mode_change\<close> and \<^verbatim>\<open>bte_hci_on_qos_setup_complete\<close> share.\<close>

definition install_conn_listener ::
    "'a env \<Rightarrow> byte \<Rightarrow> event_handler \<Rightarrow> hci_ptr \<Rightarrow> u16 \<Rightarrow> cb_ptr \<Rightarrow> 'a dev \<Rightarrow> 'a dev option" where
  "install_conn_listener E event_type handler hci conn_handle callback s =
     do { m \<leftarrow> conn_event_matcher E event_type conn_handle s;
          if callback = None then
            do { found \<leftarrow> bte_hci_dev_get_pending_command m s;
                 case found of None \<Rightarrow> Some s
                 | Some i \<Rightarrow> do { ev \<leftarrow> get_pc s i;
                                  if pc_hci ev = hci then bte_hci_dev_free_command i s else Some s } }
          else
            do { (ev, s) \<leftarrow> bte_hci_dev_alloc_command m s;
                 case ev of None \<Rightarrow> Some s
                 | Some i \<Rightarrow> do {
                     e \<leftarrow> get_pc s i;
                     s \<leftarrow> put_pc s i (e\<lparr>pc_hci := hci, pc_command_cb := Event_client_cb callback\<rparr>);
                     bte_hci_dev_install_event_handler event_type (Some handler) s } } }"

definition bte_hci_on_mode_change :: "'a env \<Rightarrow> hci_ptr \<Rightarrow> u16 \<Rightarrow> cb_ptr \<Rightarrow> 'a dev \<Rightarrow> 'a dev option" where
  "bte_hci_on_mode_change E hci conn_handle callback s =
     install_conn_listener E HCI_MODE_CHANGE Mode_change_event_cb hci conn_handle callback s"

definition qos_setup_complete_event_cb :: "'a env \<Rightarrow> bte_buffer \<Rightarrow> 'a dev \<Rightarrow> 'a dev option" where
  "qos_setup_complete_event_cb E buffer s =
     (if unat (size buffer) < HCI_QOS_SETUP_COMPLETE_LEN then Some s
      else do {
        found \<leftarrow> bte_hci_dev_find_pending_command buffer s;
        case found of None \<Rightarrow> Some s
        | Some i \<Rightarrow> do {
            pc \<leftarrow> get_pc s i;
            status \<leftarrow> rd8 (data buffer) HCI_CMD_EVENT_POS_DATA;
            conn_handle \<leftarrow> read_le16 (data buffer) (HCI_CMD_EVENT_POS_DATA + 1);
            service_type \<leftarrow> rd8 (data buffer) (HCI_CMD_EVENT_POS_DATA + 4);
            token_rate \<leftarrow> read_le32 (data buffer) (HCI_CMD_EVENT_POS_DATA + 5);
            peak_bandwidth \<leftarrow> read_le32 (data buffer) (HCI_CMD_EVENT_POS_DATA + 9);
            latency \<leftarrow> read_le32 (data buffer) (HCI_CMD_EVENT_POS_DATA + 13);
            delay_variation \<leftarrow> read_le32 (data buffer) (HCI_CMD_EVENT_POS_DATA + 17);
            cb \<leftarrow> event_client_cb (pc_command_cb pc);
            ud \<leftarrow> hci_userdata s (pc_hci pc);
            (done, s) \<leftarrow> call_client E cb (pc_hci pc)
              (Qos_setup_complete status conn_handle
                 \<lparr>qs_service_type = service_type, qs_token_rate = token_rate,
                  qs_peak_bandwidth = peak_bandwidth, qs_latency = latency,
                  qs_delay_variation = delay_variation\<rparr>) ud s;
            if done then bte_hci_dev_free_command i s else Some s } })"

definition bte_hci_on_qos_setup_complete ::
    "'a env \<Rightarrow> hci_ptr \<Rightarrow> u16 \<Rightarrow> cb_ptr \<Rightarrow> 'a dev \<Rightarrow> 'a dev option" where
  "bte_hci_on_qos_setup_complete E hci conn_handle callback s =
     install_conn_listener E HCI_QOS_SETUP_COMPLETE Qos_setup_complete_event_cb hci conn_handle callback s"

definition bte_hci_qos_setup ::
    "'a env \<Rightarrow> hci_ptr \<Rightarrow> u16 \<Rightarrow> qos_setup_data \<Rightarrow> cb_ptr \<Rightarrow> u64 \<Rightarrow> 'a dev \<Rightarrow> 'a dev option" where
  "bte_hci_qos_setup E hci conn_handle setup_data status_cb userdata s =
     do { (b, s) \<leftarrow> bte_hci_dev_add_pending_async_command E hci HCI_QOS_SETUP_OCF HCI_LINK_POLICY_OGF
                      HCI_QOS_SETUP_PLEN None status_cb userdata s;
          when_buffer b (\<lambda>b s. do {
            d \<leftarrow> write_le16 conn_handle (data b) HCI_CMD_HDR_LEN;
            d \<leftarrow> wr d (HCI_CMD_HDR_LEN + 2) [0];
            d \<leftarrow> wr d (HCI_CMD_HDR_LEN + 3) [qs_service_type setup_data];
            d \<leftarrow> write_le32 (qs_token_rate setup_data) d (HCI_CMD_HDR_LEN + 4);
            d \<leftarrow> write_le32 (qs_peak_bandwidth setup_data) d (HCI_CMD_HDR_LEN + 8);
            d \<leftarrow> write_le32 (qs_latency setup_data) d (HCI_CMD_HDR_LEN + 12);
            d \<leftarrow> write_le32 (qs_delay_variation setup_data) d (HCI_CMD_HDR_LEN + 16);
            send_filled E b d s }) s }"

definition read_link_policy_settings_cb ::
    "'a env \<Rightarrow> hci_ptr \<Rightarrow> bte_buffer \<Rightarrow> cb_ptr \<Rightarrow> u64 \<Rightarrow> 'a dev \<Rightarrow> 'a dev option" where
  "read_link_policy_settings_cb E hci buffer client_cb userdata s =
     do { status \<leftarrow> rd8 (data buffer) HCI_CMD_REPLY_POS_STATUS;
          conn_handle \<leftarrow> read_le16 (data buffer) HCI_CMD_REPLY_POS_DATA;
          settings \<leftarrow> read_le16 (data buffer) (HCI_CMD_REPLY_POS_DATA + 2);
          call_client_void E client_cb hci (Read_link_policy_settings_reply status conn_handle settings) userdata s }"

definition bte_hci_read_link_policy_settings ::
    "'a env \<Rightarrow> hci_ptr \<Rightarrow> u16 \<Rightarrow> cb_ptr \<Rightarrow> u64 \<Rightarrow> 'a dev \<Rightarrow> 'a dev option" where
  "bte_hci_read_link_policy_settings E hci conn_handle callback userdata s =
     do { (b, s) \<leftarrow> bte_hci_dev_add_pending_command E hci HCI_R_LINK_POLICY_OCF HCI_LINK_POLICY_OGF
                      HCI_R_LINK_POLICY_PLEN Read_link_policy_settings_cb callback userdata s;
          when_buffer b (\<lambda>b s. do {
            d \<leftarrow> write_le16 conn_handle (data b) HCI_CMD_HDR_LEN;
            send_filled E b d s }) s }"

definition bte_hci_write_link_policy_settings ::
    "'a env \<Rightarrow> hci_ptr \<Rightarrow> u16 \<Rightarrow> u16 \<Rightarrow> cb_ptr \<Rightarrow> u64 \<Rightarrow> 'a dev \<Rightarrow> 'a dev option" where
  "bte_hci_write_link_policy_settings E hci conn_handle settings callback userdata s =
     do { (b, s) \<leftarrow> bte_hci_dev_add_pending_command E hci HCI_W_LINK_POLICY_OCF HCI_LINK_POLICY_OGF
                      HCI_W_LINK_POLICY_PLEN Command_complete_cb callback userdata s;
          when_buffer b (\<lambda>b s. do {
            d \<leftarrow> write_le16 conn_handle (data b) HCI_CMD_HDR_LEN;
            d \<leftarrow> write_le16 settings d (HCI_CMD_HDR_LEN + 2);
            send_filled E b d s }) s }"

section \<open>Controller and baseband\<close>

definition bte_hci_set_event_mask ::
    "'a env \<Rightarrow> hci_ptr \<Rightarrow> u64 \<Rightarrow> cb_ptr \<Rightarrow> u64 \<Rightarrow> 'a dev \<Rightarrow> 'a dev option" where
  "bte_hci_set_event_mask E hci ev_mask callback userdata s =
     do { (b, s) \<leftarrow> bte_hci_dev_add_pending_command E hci HCI_SET_EV_MASK_OCF HCI_HC_BB_OGF
                      HCI_SET_EV_MASK_PLEN Command_complete_cb callback userdata s;
          when_buffer b (\<lambda>b s. do {
            d \<leftarrow> memcpy_to (data b) HCI_CMD_HDR_LEN (le_bytes 8 ev_mask) 8;
            send_filled E b d s }) s }"

definition bte_hci_reset :: "'a env \<Rightarrow> hci_ptr \<Rightarrow> cb_ptr \<Rightarrow> u64 \<Rightarrow> 'a dev \<Rightarrow> 'a dev option" where
  "bte_hci_reset E hci callback userdata s =
     do { (b, s) \<leftarrow> bte_hci_dev_add_pending_command E hci HCI_RESET_OCF HCI_HC_BB_OGF
                      HCI_RESET_PLEN Command_complete_cb callback userdata s;
          send E b s }"

definition event_filter_cond_len :: "byte \<Rightarrow> byte \<Rightarrow> byte" where
  "event_filter_cond_len filter_type cond_type =
     (if filter_type = BTE_HCI_EVENT_FILTER_TYPE_INQUIRY_RESULT then
        (if cond_type = BTE_HCI_COND_TYPE_INQUIRY_COD then 6
         else if cond_type = BTE_HCI_COND_TYPE_INQUIRY_ADDRESS then 6 else 0)
      else if filter_type = BTE_HCI_EVENT_FILTER_TYPE_CONNECTION_SETUP then
        (if cond_type = BTE_HCI_COND_TYPE_CONN_SETUP_ALL then 1
         else if cond_type = BTE_HCI_COND_TYPE_CONN_SETUP_COD then 7
         else if cond_type = BTE_HCI_COND_TYPE_CONN_SETUP_ADDRESS then 7 else 0)
      else 0)"

definition bte_hci_set_event_filter ::
    "'a env \<Rightarrow> hci_ptr \<Rightarrow> byte \<Rightarrow> byte \<Rightarrow> mem \<Rightarrow> cb_ptr \<Rightarrow> u64 \<Rightarrow> 'a dev \<Rightarrow> 'a dev option" where
  "bte_hci_set_event_filter E hci filter_type cond_type filter_data callback userdata s =
     (let cond_len = event_filter_cond_len filter_type cond_type;
          filter_len = (if filter_type \<noteq> BTE_HCI_EVENT_FILTER_TYPE_CLEAR then 1 + cond_len else 0)
      in do {
        (b, s) \<leftarrow> bte_hci_dev_add_pending_command E hci HCI_SET_EV_FILTER_OCF HCI_HC_BB_OGF
                   (HCI_SET_EV_FILTER_PLEN + filter_len) Command_complete_cb callback userdata s;
        when_buffer b (\<lambda>b s. do {
          d \<leftarrow> wr (data b) HCI_CMD_HDR_LEN [filter_type];
          d \<leftarrow> (if filter_len > 0 then
                  do { d \<leftarrow> wr d (HCI_CMD_HDR_LEN + 1) [cond_type];
                       if cond_len > 0 then memcpy_to d (HCI_CMD_HDR_LEN + 2) filter_data (unat cond_len)
                       else Some d }
                else Some d);
          send_filled E b d s }) s })"

definition read_pin_type_cb ::
    "'a env \<Rightarrow> hci_ptr \<Rightarrow> bte_buffer \<Rightarrow> cb_ptr \<Rightarrow> u64 \<Rightarrow> 'a dev \<Rightarrow> 'a dev option" where
  "read_pin_type_cb E hci buffer client_cb userdata s =
     do { status \<leftarrow> rd8 (data buffer) HCI_CMD_REPLY_POS_STATUS;
          pin_type \<leftarrow> rd8 (data buffer) HCI_CMD_REPLY_POS_DATA;
          call_client_void E client_cb hci (Read_pin_type_reply status pin_type) userdata s }"

definition bte_hci_read_pin_type :: "'a env \<Rightarrow> hci_ptr \<Rightarrow> cb_ptr \<Rightarrow> u64 \<Rightarrow> 'a dev \<Rightarrow> 'a dev option" where
  "bte_hci_read_pin_type E hci callback userdata s =
     do { (b, s) \<leftarrow> bte_hci_dev_add_pending_command E hci HCI_R_PIN_TYPE_OCF HCI_HC_BB_OGF
                      HCI_R_PIN_TYPE_PLEN Read_pin_type_cb callback userdata s;
          send E b s }"

definition bte_hci_write_pin_type ::
    "'a env \<Rightarrow> hci_ptr \<Rightarrow> byte \<Rightarrow> cb_ptr \<Rightarrow> u64 \<Rightarrow> 'a dev \<Rightarrow> 'a dev option" where
  "bte_hci_write_pin_type E hci pin_type callback userdata s =
     do { (b, s) \<leftarrow> bte_hci_dev_add_pending_command E hci HCI_W_PIN_TYPE_OCF HCI_HC_BB_OGF
                      HCI_W_PIN_TYPE_PLEN Command_complete_cb callback userdata s;
          when_buffer b (\<lambda>b s. do {
            d \<leftarrow> wr (data b) HCI_CMD_HDR_LEN [pin_type];
            send_filled E b d s }) s }"

text \<open>\<^verbatim>\<open>sizeof(BteHciStoredLinkKey)\<close> is 22, the structure is packed.\<close>

definition fresh_stored_key :: "'a env \<Rightarrow> 'a dev \<Rightarrow> nat \<Rightarrow> stored_link_key" where
  "fresh_stored_key E s k =
     \<lparr>sk_address = map (\<lambda>i. env_fresh E s (22 * k + i)) [0..<6],
      sk_key = map (\<lambda>i. env_fresh E s (22 * k + 6 + i)) [0..<16]\<rparr>"

fun return_link_keys_loop ::
    "mem \<Rightarrow> nat \<Rightarrow> nat list \<Rightarrow> stored_link_key list \<Rightarrow> nat \<Rightarrow> stored_link_key list option" where
  "return_link_keys_loop d n [] responses i_tail = Some responses"
| "return_link_keys_loop d n (i # is) responses i_tail =
     do { _ \<leftarrow> (if i_tail + i < length responses then Some () else None);
          address \<leftarrow> slice d (3 + 6 * i) 6;
          key \<leftarrow> slice d (3 + 6 * n + 16 * i) 16;
          return_link_keys_loop d n is
            (responses[i_tail + i := \<lparr>sk_address = address, sk_key = key\<rparr>]) i_tail }"

definition return_link_keys_cb :: "'a env \<Rightarrow> bte_buffer \<Rightarrow> 'a dev \<Rightarrow> 'a dev option" where
  "return_link_keys_cb E buffer s =
     do { n \<leftarrow> rd8 (data buffer) HCI_CMD_REPLY_POS_HDR_LEN;
          let i_tail = unat (stored_keys_num_responses s);
          let arr = ensure_array_size (fresh_stored_key E s) 16 i_tail (unat n) (stored_keys_responses s);
          let s = s\<lparr>stored_keys_responses := arr\<rparr>;
          case arr of None \<Rightarrow> Some s
          | Some responses \<Rightarrow> do {
              responses \<leftarrow> return_link_keys_loop (data buffer) (unat n) [0..<unat n] responses i_tail;
              Some (s\<lparr>stored_keys_responses := Some responses,
                      stored_keys_num_responses := stored_keys_num_responses s + n\<rparr>) } }"

definition read_stored_link_key_cb ::
    "'a env \<Rightarrow> hci_ptr \<Rightarrow> bte_buffer \<Rightarrow> cb_ptr \<Rightarrow> u64 \<Rightarrow> 'a dev \<Rightarrow> 'a dev option" where
  "read_stored_link_key_cb E hci buffer client_cb userdata s =
     do { s \<leftarrow> (if client_cb \<noteq> None then
                  do { status \<leftarrow> rd8 (data buffer) HCI_CMD_REPLY_POS_STATUS;
                       max_keys \<leftarrow> read_le16 (data buffer) HCI_CMD_REPLY_POS_DATA;
                       call_client_void E client_cb hci
                         (Read_stored_link_key_reply status max_keys
                            (ucast (stored_keys_num_responses s)) (stored_keys_responses s)) userdata s }
                else Some s);
          Some (bte_hci_dev_stored_keys_cleanup s) }"

definition bte_hci_read_stored_link_key ::
    "'a env \<Rightarrow> hci_ptr \<Rightarrow> mem option \<Rightarrow> cb_ptr \<Rightarrow> u64 \<Rightarrow> 'a dev \<Rightarrow> 'a dev option" where
  "bte_hci_read_stored_link_key E hci address callback userdata s =
     do { (b, s) \<leftarrow> bte_hci_dev_add_pending_command E hci HCI_R_STORED_LINK_KEY_OCF HCI_HC_BB_OGF
                      HCI_R_STORED_LINK_KEY_PLEN Read_stored_link_key_cb callback userdata s;
          when_buffer b (\<lambda>b s. do {
            let s = bte_hci_dev_stored_keys_cleanup s;
            s \<leftarrow> bte_hci_dev_install_event_handler HCI_RETURN_LINK_KEYS (Some Return_link_keys_cb) s;
            d \<leftarrow> (case address of Some a \<Rightarrow> memcpy_to (data b) HCI_CMD_HDR_LEN a 6
                  | None \<Rightarrow> Some (data b));
            d \<leftarrow> wr d (HCI_CMD_HDR_LEN + 6) [if address \<noteq> None then 0 else 1];
            send_filled E b d s }) s }"

definition write_stored_link_key_cb ::
    "'a env \<Rightarrow> hci_ptr \<Rightarrow> bte_buffer \<Rightarrow> cb_ptr \<Rightarrow> u64 \<Rightarrow> 'a dev \<Rightarrow> 'a dev option" where
  "write_stored_link_key_cb E hci buffer client_cb userdata s =
     (if client_cb = None then Some s else
      do { status \<leftarrow> rd8 (data buffer) HCI_CMD_REPLY_POS_STATUS;
          num_keys \<leftarrow> rd8 (data buffer) HCI_CMD_REPLY_POS_DATA;
          call_client_void E client_cb hci (Write_stored_link_key_reply status num_keys) userdata s })"

fun write_keys_loop :: "nat \<Rightarrow> nat list \<Rightarrow> stored_link_key list \<Rightarrow> mem \<Rightarrow> mem option" where
  "write_keys_loop num_keys [] keys d = Some d"
| "write_keys_loop num_keys (i # is) keys d =
     do { k \<leftarrow> (if i < length keys then Some (keys ! i) else None);
          d \<leftarrow> memcpy_to d (HCI_CMD_HDR_LEN + 1 + i * 6) (sk_address k) 6;
          d \<leftarrow> memcpy_to d (HCI_CMD_HDR_LEN + 1 + num_keys * 6 + i * 16) (sk_key k) 16;
          write_keys_loop num_keys is keys d }"

text \<open>The length is computed in \<^verbatim>\<open>int\<close> and passed as \<^verbatim>\<open>uint8_t\<close>; a negative count runs no loop.\<close>

definition bte_hci_write_stored_link_key ::
    "'a env \<Rightarrow> hci_ptr \<Rightarrow> int \<Rightarrow> stored_link_key list \<Rightarrow> cb_ptr \<Rightarrow> u64 \<Rightarrow> 'a dev \<Rightarrow> 'a dev option" where
  "bte_hci_write_stored_link_key E hci num_keys keys callback userdata s =
     do { (b, s) \<leftarrow> bte_hci_dev_add_pending_command E hci HCI_W_STORED_LINK_KEY_OCF HCI_HC_BB_OGF
                      (word_of_int (3 + 1 + num_keys * 22)) Write_stored_link_key_cb callback userdata s;
          when_buffer b (\<lambda>b s. do {
            d \<leftarrow> wr (data b) HCI_CMD_HDR_LEN [word_of_int num_keys];
            d \<leftarrow> write_keys_loop (nat num_keys) [0..<nat num_keys] keys d;
            send_filled E b d s }) s }"

definition delete_stored_link_key_cb ::
    "'a env \<Rightarrow> hci_ptr \<Rightarrow> bte_buffer \<Rightarrow> cb_ptr \<Rightarrow> u64 \<Rightarrow> 'a dev \<Rightarrow> 'a dev option" where
  "delete_stored_link_key_cb E hci buffer client_cb userdata s =
     (if client_cb = None then Some s else
      do { status \<leftarrow> rd8 (data buffer) HCI_CMD_REPLY_POS_STATUS;
          num_keys \<leftarrow> read_le16 (data buffer) HCI_CMD_REPLY_POS_DATA;
          call_client_void E client_cb hci (Delete_stored_link_key_reply status num_keys) userdata s })"

definition bte_hci_delete_stored_link_key ::
    "'a env \<Rightarrow> hci_ptr \<Rightarrow> mem option \<Rightarrow> cb_ptr \<Rightarrow> u64 \<Rightarrow> 'a dev \<Rightarrow> 'a dev option" where
  "bte_hci_delete_stored_link_key E hci address callback userdata s =
     do { (b, s) \<leftarrow> bte_hci_dev_add_pending_command E hci HCI_D_STORED_LINK_KEY_OCF HCI_HC_BB_OGF
                      HCI_D_STORED_LINK_KEY_PLEN Delete_stored_link_key_cb callback userdata s;
          when_buffer b (\<lambda>b s. do {
            d \<leftarrow> (case address of Some a \<Rightarrow> memcpy_to (data b) HCI_CMD_HDR_LEN a 6
                  | None \<Rightarrow> Some (data b));
            d \<leftarrow> wr d (HCI_CMD_HDR_LEN + 6) [if address \<noteq> None then 0 else 1];
            send_filled E b d s }) s }"

definition bte_hci_write_local_name ::
    "'a env \<Rightarrow> hci_ptr \<Rightarrow> mem \<Rightarrow> cb_ptr \<Rightarrow> u64 \<Rightarrow> 'a dev \<Rightarrow> 'a dev option" where
  "bte_hci_write_local_name E hci name callback userdata s =
     do { (b, s) \<leftarrow> bte_hci_dev_add_pending_command E hci HCI_W_LOCAL_NAME_OCF HCI_HC_BB_OGF
                      HCI_W_LOCAL_NAME_PLEN Command_complete_cb callback userdata s;
          when_buffer b (\<lambda>b s. do {
            bs \<leftarrow> strncpy_from name BTE_HCI_MAX_NAME_LEN;
            d \<leftarrow> wr (data b) HCI_CMD_HDR_LEN bs;
            send_filled E b d s }) s }"

definition read_local_name_cb ::
    "'a env \<Rightarrow> hci_ptr \<Rightarrow> bte_buffer \<Rightarrow> cb_ptr \<Rightarrow> u64 \<Rightarrow> 'a dev \<Rightarrow> 'a dev option" where
  "read_local_name_cb E hci buffer client_cb userdata s =
     do { status \<leftarrow> rd8 (data buffer) HCI_CMD_REPLY_POS_STATUS;
          name \<leftarrow> strncpy_from (drop HCI_CMD_REPLY_POS_DATA (data buffer)) BTE_HCI_MAX_NAME_LEN;
          call_client_void E client_cb hci (Read_local_name_reply status (name @ [0])) userdata s }"

definition bte_hci_read_local_name :: "'a env \<Rightarrow> hci_ptr \<Rightarrow> cb_ptr \<Rightarrow> u64 \<Rightarrow> 'a dev \<Rightarrow> 'a dev option" where
  "bte_hci_read_local_name E hci callback userdata s =
     do { (b, s) \<leftarrow> bte_hci_dev_add_pending_command E hci HCI_R_LOCAL_NAME_OCF HCI_HC_BB_OGF
                      HCI_R_LOCAL_NAME_PLEN Read_local_name_cb callback userdata s;
          send E b s }"

definition read_page_timeout_cb ::
    "'a env \<Rightarrow> hci_ptr \<Rightarrow> bte_buffer \<Rightarrow> cb_ptr \<Rightarrow> u64 \<Rightarrow> 'a dev \<Rightarrow> 'a dev option" where
  "read_page_timeout_cb E hci buffer client_cb userdata s =
     do { status \<leftarrow> rd8 (data buffer) HCI_CMD_REPLY_POS_STATUS;
          page_timeout \<leftarrow> read_le16 (data buffer) HCI_CMD_REPLY_POS_DATA;
          call_client_void E client_cb hci (Read_page_timeout_reply status page_timeout) userdata s }"

definition bte_hci_read_page_timeout :: "'a env \<Rightarrow> hci_ptr \<Rightarrow> cb_ptr \<Rightarrow> u64 \<Rightarrow> 'a dev \<Rightarrow> 'a dev option" where
  "bte_hci_read_page_timeout E hci callback userdata s =
     do { (b, s) \<leftarrow> bte_hci_dev_add_pending_command E hci HCI_R_PAGE_TIMEOUT_OCF HCI_HC_BB_OGF
                      HCI_R_PAGE_TIMEOUT_PLEN Read_page_timeout_cb callback userdata s;
          send E b s }"

definition bte_hci_write_page_timeout ::
    "'a env \<Rightarrow> hci_ptr \<Rightarrow> u16 \<Rightarrow> cb_ptr \<Rightarrow> u64 \<Rightarrow> 'a dev \<Rightarrow> 'a dev option" where
  "bte_hci_write_page_timeout E hci page_timeout callback userdata s =
     do { (b, s) \<leftarrow> bte_hci_dev_add_pending_command E hci HCI_W_PAGE_TIMEOUT_OCF HCI_HC_BB_OGF
                      HCI_W_PAGE_TIMEOUT_PLEN Command_complete_cb callback userdata s;
          when_buffer b (\<lambda>b s. do {
            d \<leftarrow> write_le16 page_timeout (data b) HCI_CMD_HDR_LEN;
            send_filled E b d s }) s }"

definition read_scan_enable_cb ::
    "'a env \<Rightarrow> hci_ptr \<Rightarrow> bte_buffer \<Rightarrow> cb_ptr \<Rightarrow> u64 \<Rightarrow> 'a dev \<Rightarrow> 'a dev option" where
  "read_scan_enable_cb E hci buffer client_cb userdata s =
     do { status \<leftarrow> rd8 (data buffer) HCI_CMD_REPLY_POS_STATUS;
          scan_enable \<leftarrow> rd8 (data buffer) HCI_CMD_REPLY_POS_DATA;
          call_client_void E client_cb hci (Read_scan_enable_reply status scan_enable) userdata s }"

definition bte_hci_read_scan_enable :: "'a env \<Rightarrow> hci_ptr \<Rightarrow> cb_ptr \<Rightarrow> u64 \<Rightarrow> 'a dev \<Rightarrow> 'a dev option" where
  "bte_hci_read_scan_enable E hci callback userdata s =
     do { (b, s) \<leftarrow> bte_hci_dev_add_pending_command E hci HCI_R_SCAN_EN_OCF HCI_HC_BB_OGF
                      HCI_R_SCAN_EN_PLEN Read_scan_enable_cb callback userdata s;
          send E b s }"

definition bte_hci_write_scan_enable ::
    "'a env \<Rightarrow> hci_ptr \<Rightarrow> byte \<Rightarrow> cb_ptr \<Rightarrow> u64 \<Rightarrow> 'a dev \<Rightarrow> 'a dev option" where
  "bte_hci_write_scan_enable E hci scan_enable callback userdata s =
     do { (b, s) \<leftarrow> bte_hci_dev_add_pending_command E hci HCI_W_SCAN_EN_OCF HCI_HC_BB_OGF
                      HCI_W_SCAN_EN_PLEN Command_complete_cb callback userdata s;
          when_buffer b (\<lambda>b s. do {
            c \<leftarrow> get_client s hci;
            s \<leftarrow> put_client s hci (c\<lparr>scan_mode := scan_enable\<rparr>);
            mode \<leftarrow> bte_hci_dev_combined_scan_mode s;
            d \<leftarrow> wr (data b) HCI_CMD_HDR_LEN [mode];
            send_filled E b d s }) s }"

definition read_auth_enable_cb ::
    "'a env \<Rightarrow> hci_ptr \<Rightarrow> bte_buffer \<Rightarrow> cb_ptr \<Rightarrow> u64 \<Rightarrow> 'a dev \<Rightarrow> 'a dev option" where
  "read_auth_enable_cb E hci buffer client_cb userdata s =
     do { status \<leftarrow> rd8 (data buffer) HCI_CMD_REPLY_POS_STATUS;
          auth_enable \<leftarrow> rd8 (data buffer) HCI_CMD_REPLY_POS_DATA;
          call_client_void E client_cb hci (Read_auth_enable_reply status auth_enable) userdata s }"

definition bte_hci_read_auth_enable :: "'a env \<Rightarrow> hci_ptr \<Rightarrow> cb_ptr \<Rightarrow> u64 \<Rightarrow> 'a dev \<Rightarrow> 'a dev option" where
  "bte_hci_read_auth_enable E hci callback userdata s =
     do { (b, s) \<leftarrow> bte_hci_dev_add_pending_command E hci HCI_R_AUTH_ENABLE_OCF HCI_HC_BB_OGF
                      HCI_R_AUTH_ENABLE_PLEN Read_auth_enable_cb callback userdata s;
          send E b s }"

definition bte_hci_write_auth_enable ::
    "'a env \<Rightarrow> hci_ptr \<Rightarrow> byte \<Rightarrow> cb_ptr \<Rightarrow> u64 \<Rightarrow> 'a dev \<Rightarrow> 'a dev option" where
  "bte_hci_write_auth_enable E hci auth_enable callback userdata s =
     do { (b, s) \<leftarrow> bte_hci_dev_add_pending_command E hci HCI_W_AUTH_ENABLE_OCF HCI_HC_BB_OGF
                      HCI_W_AUTH_ENABLE_PLEN Command_complete_cb callback userdata s;
          when_buffer b (\<lambda>b s. do {
            d \<leftarrow> wr (data b) HCI_CMD_HDR_LEN [auth_enable];
            send_filled E b d s }) s }"

definition read_class_of_device_cb ::
    "'a env \<Rightarrow> hci_ptr \<Rightarrow> bte_buffer \<Rightarrow> cb_ptr \<Rightarrow> u64 \<Rightarrow> 'a dev \<Rightarrow> 'a dev option" where
  "read_class_of_device_cb E hci buffer client_cb userdata s =
     do { status \<leftarrow> rd8 (data buffer) HCI_CMD_REPLY_POS_STATUS;
          cod \<leftarrow> slice (data buffer) HCI_CMD_REPLY_POS_DATA 3;
          call_client_void E client_cb hci (Read_class_of_device_reply status cod) userdata s }"

definition bte_hci_read_class_of_device :: "'a env \<Rightarrow> hci_ptr \<Rightarrow> cb_ptr \<Rightarrow> u64 \<Rightarrow> 'a dev \<Rightarrow> 'a dev option" where
  "bte_hci_read_class_of_device E hci callback userdata s =
     do { (b, s) \<leftarrow> bte_hci_dev_add_pending_command E hci HCI_R_COD_OCF HCI_HC_BB_OGF
                      HCI_R_COD_PLEN Read_class_of_device_cb callback userdata s;
          send E b s }"

definition bte_hci_write_class_of_device ::
    "'a env \<Rightarrow> hci_ptr \<Rightarrow> mem \<Rightarrow> cb_ptr \<Rightarrow> u64 \<Rightarrow> 'a dev \<Rightarrow> 'a dev option" where
  "bte_hci_write_class_of_device E hci cod callback userdata s =
     do { (b, s) \<leftarrow> bte_hci_dev_add_pending_command E hci HCI_W_COD_OCF HCI_HC_BB_OGF
                      HCI_W_COD_PLEN Command_complete_cb callback userdata s;
          when_buffer b (\<lambda>b s. do {
            d \<leftarrow> memcpy_to (data b) HCI_CMD_HDR_LEN cod 3;
            send_filled E b d s }) s }"

definition read_auto_flush_timeout_cb ::
    "'a env \<Rightarrow> hci_ptr \<Rightarrow> bte_buffer \<Rightarrow> cb_ptr \<Rightarrow> u64 \<Rightarrow> 'a dev \<Rightarrow> 'a dev option" where
  "read_auto_flush_timeout_cb E hci buffer client_cb userdata s =
     do { status \<leftarrow> rd8 (data buffer) HCI_CMD_REPLY_POS_STATUS;
          conn_handle \<leftarrow> read_le16 (data buffer) HCI_CMD_REPLY_POS_DATA;
          flush_timeout \<leftarrow> read_le16 (data buffer) (HCI_CMD_REPLY_POS_DATA + 2);
          call_client_void E client_cb hci (Read_auto_flush_timeout_reply status conn_handle flush_timeout) userdata s }"

definition bte_hci_read_auto_flush_timeout ::
    "'a env \<Rightarrow> hci_ptr \<Rightarrow> u16 \<Rightarrow> cb_ptr \<Rightarrow> u64 \<Rightarrow> 'a dev \<Rightarrow> 'a dev option" where
  "bte_hci_read_auto_flush_timeout E hci conn_handle callback userdata s =
     do { (b, s) \<leftarrow> bte_hci_dev_add_pending_command E hci HCI_R_FLUSHTO_OCF HCI_HC_BB_OGF
                      HCI_R_FLUSHTO_PLEN Read_auto_flush_timeout_cb callback userdata s;
          when_buffer b (\<lambda>b s. do {
            d \<leftarrow> write_le16 conn_handle (data b) HCI_CMD_HDR_LEN;
            send_filled E b d s }) s }"

definition bte_hci_write_auto_flush_timeout ::
    "'a env \<Rightarrow> hci_ptr \<Rightarrow> u16 \<Rightarrow> u16 \<Rightarrow> cb_ptr \<Rightarrow> u64 \<Rightarrow> 'a dev \<Rightarrow> 'a dev option" where
  "bte_hci_write_auto_flush_timeout E hci conn_handle timeout callback userdata s =
     do { (b, s) \<leftarrow> bte_hci_dev_add_pending_command E hci HCI_W_FLUSHTO_OCF HCI_HC_BB_OGF
                      HCI_W_FLUSHTO_PLEN Command_complete_cb callback userdata s;
          when_buffer b (\<lambda>b s. do {
            d \<leftarrow> write_le16 conn_handle (data b) HCI_CMD_HDR_LEN;
            d \<leftarrow> write_le16 timeout d (HCI_CMD_HDR_LEN + 2);
            send_filled E b d s }) s }"

definition bte_hci_set_ctrl_to_host_flow_control ::
    "'a env \<Rightarrow> hci_ptr \<Rightarrow> byte \<Rightarrow> cb_ptr \<Rightarrow> u64 \<Rightarrow> 'a dev \<Rightarrow> 'a dev option" where
  "bte_hci_set_ctrl_to_host_flow_control E hci enable callback userdata s =
     do { (b, s) \<leftarrow> bte_hci_dev_add_pending_command E hci HCI_SET_HC_TO_H_FC_OCF HCI_HC_BB_OGF
                      HCI_SET_HC_TO_H_FC_PLEN Command_complete_cb callback userdata s;
          when_buffer b (\<lambda>b s. do {
            d \<leftarrow> wr (data b) HCI_CMD_HDR_LEN [enable];
            send_filled E b d s }) s }"

definition bte_hci_set_host_buffer_size ::
    "'a env \<Rightarrow> hci_ptr \<Rightarrow> u16 \<Rightarrow> u16 \<Rightarrow> byte \<Rightarrow> u16 \<Rightarrow> cb_ptr \<Rightarrow> u64 \<Rightarrow> 'a dev \<Rightarrow> 'a dev option" where
  "bte_hci_set_host_buffer_size E hci acl_packet_len acl_packets sync_packet_len sync_packets callback userdata s =
     do { (b, s) \<leftarrow> bte_hci_dev_add_pending_command E hci HCI_HOST_BUF_SIZE_OCF HCI_HC_BB_OGF
                      HCI_HOST_BUF_SIZE_PLEN Command_complete_cb callback userdata s;
          when_buffer b (\<lambda>b s. do {
            d \<leftarrow> write_le16 acl_packet_len (data b) HCI_CMD_HDR_LEN;
            d \<leftarrow> wr d (HCI_CMD_HDR_LEN + 2) [sync_packet_len];
            d \<leftarrow> write_le16 acl_packets d (HCI_CMD_HDR_LEN + 3);
            d \<leftarrow> write_le16 sync_packets d (HCI_CMD_HDR_LEN + 5);
            send_filled E b d s }) s }"

fun read_laps_loop :: "mem \<Rightarrow> nat \<Rightarrow> nat \<Rightarrow> u32 list option" where
  "read_laps_loop d off 0 = Some []"
| "read_laps_loop d off (Suc n) =
     do { b0 \<leftarrow> rd8 d off; b1 \<leftarrow> rd8 d (off + 1); b2 \<leftarrow> rd8 d (off + 2);
          let lap = (ucast b0 OR push_bit 8 (ucast b1)) OR push_bit 16 (ucast b2);
          laps \<leftarrow> read_laps_loop d (off + 3) n;
          Some (lap # laps) }"

definition read_current_iac_lap_cb ::
    "'a env \<Rightarrow> hci_ptr \<Rightarrow> bte_buffer \<Rightarrow> cb_ptr \<Rightarrow> u64 \<Rightarrow> 'a dev \<Rightarrow> 'a dev option" where
  "read_current_iac_lap_cb E hci buffer client_cb userdata s =
     do { status \<leftarrow> rd8 (data buffer) HCI_CMD_REPLY_POS_STATUS;
          num_laps \<leftarrow> rd8 (data buffer) HCI_CMD_REPLY_POS_DATA;
          laps \<leftarrow> read_laps_loop (data buffer) (HCI_CMD_REPLY_POS_DATA + 1) (unat num_laps);
          call_client_void E client_cb hci (Read_current_iac_lap_reply status num_laps laps) userdata s }"

definition bte_hci_read_current_iac_lap :: "'a env \<Rightarrow> hci_ptr \<Rightarrow> cb_ptr \<Rightarrow> u64 \<Rightarrow> 'a dev \<Rightarrow> 'a dev option" where
  "bte_hci_read_current_iac_lap E hci callback userdata s =
     do { (b, s) \<leftarrow> bte_hci_dev_add_pending_command E hci HCI_R_CUR_IACLAP_OCF HCI_HC_BB_OGF
                      HCI_R_CUR_IACLAP_PLEN Read_current_iac_lap_cb callback userdata s;
          send E b s }"

fun write_laps_loop :: "nat list \<Rightarrow> u32 list \<Rightarrow> mem \<Rightarrow> mem option" where
  "write_laps_loop [] laps d = Some d"
| "write_laps_loop (i # is) laps d =
     do { lap \<leftarrow> (if i < length laps then Some (laps ! i) else None);
          d \<leftarrow> wr d (HCI_CMD_HDR_LEN + 1 + 3 * i) (lap_bytes lap);
          write_laps_loop is laps d }"

definition bte_hci_write_current_iac_lap ::
    "'a env \<Rightarrow> hci_ptr \<Rightarrow> byte \<Rightarrow> u32 list \<Rightarrow> cb_ptr \<Rightarrow> u64 \<Rightarrow> 'a dev \<Rightarrow> 'a dev option" where
  "bte_hci_write_current_iac_lap E hci num_laps laps callback userdata s =
     do { (b, s) \<leftarrow> bte_hci_dev_add_pending_command E hci HCI_W_CUR_IACLAP_OCF HCI_HC_BB_OGF
                      (HCI_W_CUR_IACLAP_PLEN + 3 * num_laps) Command_complete_cb callback userdata s;
          when_buffer b (\<lambda>b s. do {
            d \<leftarrow> wr (data b) HCI_CMD_HDR_LEN [num_laps];
            d \<leftarrow> write_laps_loop [0..<unat num_laps] laps d;
            send_filled E b d s }) s }"

definition bte_hci_host_num_comp_packets ::
    "'a env \<Rightarrow> hci_ptr \<Rightarrow> u16 \<Rightarrow> u16 \<Rightarrow> 'a dev \<Rightarrow> 'a dev option" where
  "bte_hci_host_num_comp_packets E hci conn_handle n s =
     do { b \<leftarrow> bte_hci_dev_add_command_no_reply E HCI_HOST_NUM_COMPL_OCF HCI_HC_BB_OGF
                 HCI_H_NUM_COMPL_PLEN s;
          d \<leftarrow> wr (data b) HCI_CMD_HDR_LEN [1];
          d \<leftarrow> write_le16 conn_handle d (HCI_CMD_HDR_LEN + 1);
          d \<leftarrow> write_le16 n d (HCI_CMD_HDR_LEN + 3);
          send_filled E b d s }"

definition read_link_sv_timeout_cb ::
    "'a env \<Rightarrow> hci_ptr \<Rightarrow> bte_buffer \<Rightarrow> cb_ptr \<Rightarrow> u64 \<Rightarrow> 'a dev \<Rightarrow> 'a dev option" where
  "read_link_sv_timeout_cb E hci buffer client_cb userdata s =
     do { status \<leftarrow> rd8 (data buffer) HCI_CMD_REPLY_POS_STATUS;
          conn_handle \<leftarrow> read_le16 (data buffer) HCI_CMD_REPLY_POS_DATA;
          sv_timeout \<leftarrow> read_le16 (data buffer) (HCI_CMD_REPLY_POS_DATA + 2);
          call_client_void E client_cb hci (Read_link_sv_timeout_reply status conn_handle sv_timeout) userdata s }"

definition bte_hci_read_link_sv_timeout ::
    "'a env \<Rightarrow> hci_ptr \<Rightarrow> u16 \<Rightarrow> cb_ptr \<Rightarrow> u64 \<Rightarrow> 'a dev \<Rightarrow> 'a dev option" where
  "bte_hci_read_link_sv_timeout E hci conn_handle callback userdata s =
     do { (b, s) \<leftarrow> bte_hci_dev_add_pending_command E hci HCI_R_LINK_SV_TIMEOUT_OCF HCI_HC_BB_OGF
                      HCI_R_LINK_SV_TIMEOUT_PLEN Read_link_sv_timeout_cb callback userdata s;
          when_buffer b (\<lambda>b s. do {
            d \<leftarrow> write_le16 conn_handle (data b) HCI_CMD_HDR_LEN;
            send_filled E b d s }) s }"

definition bte_hci_write_link_sv_timeout ::
    "'a env \<Rightarrow> hci_ptr \<Rightarrow> u16 \<Rightarrow> u16 \<Rightarrow> cb_ptr \<Rightarrow> u64 \<Rightarrow> 'a dev \<Rightarrow> 'a dev option" where
  "bte_hci_write_link_sv_timeout E hci conn_handle timeout callback userdata s =
     do { (b, s) \<leftarrow> bte_hci_dev_add_pending_command E hci HCI_W_LINK_SV_TIMEOUT_OCF HCI_HC_BB_OGF
                      HCI_W_LINK_SV_TIMEOUT_PLEN Command_complete_cb callback userdata s;
          when_buffer b (\<lambda>b s. do {
            d \<leftarrow> write_le16 conn_handle (data b) HCI_CMD_HDR_LEN;
            d \<leftarrow> write_le16 timeout d (HCI_CMD_HDR_LEN + 2);
            send_filled E b d s }) s }"

definition read_inquiry_scan_type_cb ::
    "'a env \<Rightarrow> hci_ptr \<Rightarrow> bte_buffer \<Rightarrow> cb_ptr \<Rightarrow> u64 \<Rightarrow> 'a dev \<Rightarrow> 'a dev option" where
  "read_inquiry_scan_type_cb E hci buffer client_cb userdata s =
     do { status \<leftarrow> rd8 (data buffer) HCI_CMD_REPLY_POS_STATUS;
          inquiry_scan_type \<leftarrow> rd8 (data buffer) HCI_CMD_REPLY_POS_DATA;
          call_client_void E client_cb hci (Read_inquiry_scan_type_reply status inquiry_scan_type) userdata s }"

definition bte_hci_read_inquiry_scan_type :: "'a env \<Rightarrow> hci_ptr \<Rightarrow> cb_ptr \<Rightarrow> u64 \<Rightarrow> 'a dev \<Rightarrow> 'a dev option" where
  "bte_hci_read_inquiry_scan_type E hci callback userdata s =
     do { (b, s) \<leftarrow> bte_hci_dev_add_pending_command E hci HCI_R_INQUIRY_SCAN_TYPE_OCF HCI_HC_BB_OGF
                      (of_nat HCI_CMD_HDR_LEN) Read_inquiry_scan_type_cb callback userdata s;
          send E b s }"

definition bte_hci_write_inquiry_scan_type ::
    "'a env \<Rightarrow> hci_ptr \<Rightarrow> byte \<Rightarrow> cb_ptr \<Rightarrow> u64 \<Rightarrow> 'a dev \<Rightarrow> 'a dev option" where
  "bte_hci_write_inquiry_scan_type E hci inquiry_scan_type callback userdata s =
     do { (b, s) \<leftarrow> bte_hci_dev_add_pending_command E hci HCI_W_INQUIRY_SCAN_TYPE_OCF HCI_HC_BB_OGF
                      HCI_W_INQUIRY_SCAN_TYPE_PLEN Command_complete_cb callback userdata s;
          when_buffer b (\<lambda>b s. do {
            d \<leftarrow> wr (data b) HCI_CMD_HDR_LEN [inquiry_scan_type];
            send_filled E b d s }) s }"

definition read_inquiry_mode_cb ::
    "'a env \<Rightarrow> hci_ptr \<Rightarrow> bte_buffer \<Rightarrow> cb_ptr \<Rightarrow> u64 \<Rightarrow> 'a dev \<Rightarrow> 'a dev option" where
  "read_inquiry_mode_cb E hci buffer client_cb userdata s =
     do { status \<leftarrow> rd8 (data buffer) HCI_CMD_REPLY_POS_STATUS;
          inquiry_mode \<leftarrow> rd8 (data buffer) HCI_CMD_REPLY_POS_DATA;
          call_client_void E client_cb hci (Read_inquiry_mode_reply status inquiry_mode) userdata s }"

definition bte_hci_read_inquiry_mode :: "'a env \<Rightarrow> hci_ptr \<Rightarrow> cb_ptr \<Rightarrow> u64 \<Rightarrow> 'a dev \<Rightarrow> 'a dev option" where
  "bte_hci_read_inquiry_mode E hci callback userdata s =
     do { (b, s) \<leftarrow> bte_hci_dev_add_pending_command E hci HCI_R_INQUIRY_MODE_OCF HCI_HC_BB_OGF
                      (of_nat HCI_CMD_HDR_LEN) Read_inquiry_mode_cb callback userdata s;
          send E b s }"

definition bte_hci_write_inquiry_mode ::
    "'a env \<Rightarrow> hci_ptr \<Rightarrow> byte \<Rightarrow> cb_ptr \<Rightarrow> u64 \<Rightarrow> 'a dev \<Rightarrow> 'a dev option" where
  "bte_hci_write_inquiry_mode E hci inquiry_mode callback userdata s =
     do { (b, s) \<leftarrow> bte_hci_dev_add_pending_command E hci HCI_W_INQUIRY_MODE_OCF HCI_HC_BB_OGF
                      HCI_W_INQUIRY_MODE_PLEN Command_complete_cb callback userdata s;
          when_buffer b (\<lambda>b s. do {
            d \<leftarrow> wr (data b) HCI_CMD_HDR_LEN [inquiry_mode];
            s \<leftarrow> send_filled E b d s;
            if inquiry_mode = BTE_HCI_INQUIRY_MODE_RSSI
            then bte_hci_dev_install_event_handler HCI_INQUIRY_RESULT_WITH_RSSI (Some Inquiry_result_cb) s
            else Some s }) s }"

definition read_page_scan_type_cb ::
    "'a env \<Rightarrow> hci_ptr \<Rightarrow> bte_buffer \<Rightarrow> cb_ptr \<Rightarrow> u64 \<Rightarrow> 'a dev \<Rightarrow> 'a dev option" where
  "read_page_scan_type_cb E hci buffer client_cb userdata s =
     do { status \<leftarrow> rd8 (data buffer) HCI_CMD_REPLY_POS_STATUS;
          page_scan_type \<leftarrow> rd8 (data buffer) HCI_CMD_REPLY_POS_DATA;
          call_client_void E client_cb hci (Read_page_scan_type_reply status page_scan_type) userdata s }"

definition bte_hci_read_page_scan_type :: "'a env \<Rightarrow> hci_ptr \<Rightarrow> cb_ptr \<Rightarrow> u64 \<Rightarrow> 'a dev \<Rightarrow> 'a dev option" where
  "bte_hci_read_page_scan_type E hci callback userdata s =
     do { (b, s) \<leftarrow> bte_hci_dev_add_pending_command E hci HCI_R_PAGE_SCAN_TYPE_OCF HCI_HC_BB_OGF
                      (of_nat HCI_CMD_HDR_LEN) Read_page_scan_type_cb callback userdata s;
          send E b s }"

definition bte_hci_write_page_scan_type ::
    "'a env \<Rightarrow> hci_ptr \<Rightarrow> byte \<Rightarrow> cb_ptr \<Rightarrow> u64 \<Rightarrow> 'a dev \<Rightarrow> 'a dev option" where
  "bte_hci_write_page_scan_type E hci page_scan_type callback userdata s =
     do { (b, s) \<leftarrow> bte_hci_dev_add_pending_command E hci HCI_W_PAGE_SCAN_TYPE_OCF HCI_HC_BB_OGF
                      HCI_W_PAGE_SCAN_TYPE_PLEN Command_complete_cb callback userdata s;
          when_buffer b (\<lambda>b s. do {
            d \<leftarrow> wr (data b) HCI_CMD_HDR_LEN [page_scan_type];
            send_filled E b d s }) s }"

section \<open>Informational parameters\<close>

definition read_local_version_cb ::
    "'a env \<Rightarrow> hci_ptr \<Rightarrow> bte_buffer \<Rightarrow> cb_ptr \<Rightarrow> u64 \<Rightarrow> 'a dev \<Rightarrow> 'a dev option" where
  "read_local_version_cb E hci buffer client_cb userdata s =
     do { status \<leftarrow> rd8 (data buffer) HCI_CMD_REPLY_POS_STATUS;
          hci_version \<leftarrow> rd8 (data buffer) HCI_CMD_REPLY_POS_DATA;
          hci_revision \<leftarrow> read_le16 (data buffer) (HCI_CMD_REPLY_POS_DATA + 1);
          lmp_version \<leftarrow> rd8 (data buffer) (HCI_CMD_REPLY_POS_DATA + 3);
          manufacturer \<leftarrow> read_le16 (data buffer) (HCI_CMD_REPLY_POS_DATA + 4);
          lmp_subversion \<leftarrow> read_le16 (data buffer) (HCI_CMD_REPLY_POS_DATA + 6);
          call_client_void E client_cb hci (Read_local_version_reply status hci_version hci_revision lmp_version manufacturer lmp_subversion) userdata s }"

definition bte_hci_read_local_version :: "'a env \<Rightarrow> hci_ptr \<Rightarrow> cb_ptr \<Rightarrow> u64 \<Rightarrow> 'a dev \<Rightarrow> 'a dev option" where
  "bte_hci_read_local_version E hci callback userdata s =
     do { (b, s) \<leftarrow> bte_hci_dev_add_pending_command E hci HCI_R_LOC_VERS_INFO_OCF HCI_INFO_PARAM_OGF
                      HCI_R_LOC_VERS_INFO_PLEN Read_local_version_cb callback userdata s;
          send E b s }"

definition read_local_features_cb ::
    "'a env \<Rightarrow> hci_ptr \<Rightarrow> bte_buffer \<Rightarrow> cb_ptr \<Rightarrow> u64 \<Rightarrow> 'a dev \<Rightarrow> 'a dev option" where
  "read_local_features_cb E hci buffer client_cb userdata s =
     do { status \<leftarrow> rd8 (data buffer) HCI_CMD_REPLY_POS_STATUS;
          features \<leftarrow> read_le64 (data buffer) HCI_CMD_REPLY_POS_DATA;
          call_client_void E client_cb hci (Read_local_features_reply status features) userdata s }"

definition bte_hci_read_local_features :: "'a env \<Rightarrow> hci_ptr \<Rightarrow> cb_ptr \<Rightarrow> u64 \<Rightarrow> 'a dev \<Rightarrow> 'a dev option" where
  "bte_hci_read_local_features E hci callback userdata s =
     do { (b, s) \<leftarrow> bte_hci_dev_add_pending_command E hci HCI_R_LOC_FEAT_OCF HCI_INFO_PARAM_OGF
                      HCI_R_LOC_FEAT_PLEN Read_local_features_cb callback userdata s;
          send E b s }"

definition read_buffer_size_cb ::
    "'a env \<Rightarrow> hci_ptr \<Rightarrow> bte_buffer \<Rightarrow> cb_ptr \<Rightarrow> u64 \<Rightarrow> 'a dev \<Rightarrow> 'a dev option" where
  "read_buffer_size_cb E hci buffer client_cb userdata s =
     do { status \<leftarrow> rd8 (data buffer) HCI_CMD_REPLY_POS_STATUS;
          amtu \<leftarrow> read_le16 (data buffer) HCI_CMD_REPLY_POS_DATA;
          smtu \<leftarrow> rd8 (data buffer) (HCI_CMD_REPLY_POS_DATA + 2);
          amax \<leftarrow> read_le16 (data buffer) (HCI_CMD_REPLY_POS_DATA + 3);
          smax \<leftarrow> read_le16 (data buffer) (HCI_CMD_REPLY_POS_DATA + 5);
          call_client_void E client_cb hci (Read_buffer_size_reply status smtu amtu smax amax) userdata s }"

definition bte_hci_read_buffer_size :: "'a env \<Rightarrow> hci_ptr \<Rightarrow> cb_ptr \<Rightarrow> u64 \<Rightarrow> 'a dev \<Rightarrow> 'a dev option" where
  "bte_hci_read_buffer_size E hci callback userdata s =
     do { (b, s) \<leftarrow> bte_hci_dev_add_pending_command E hci HCI_R_BUF_SIZE_OCF HCI_INFO_PARAM_OGF
                      HCI_R_BUF_SIZE_PLEN Read_buffer_size_cb callback userdata s;
          send E b s }"

definition read_bd_addr_cb ::
    "'a env \<Rightarrow> hci_ptr \<Rightarrow> bte_buffer \<Rightarrow> cb_ptr \<Rightarrow> u64 \<Rightarrow> 'a dev \<Rightarrow> 'a dev option" where
  "read_bd_addr_cb E hci buffer client_cb userdata s =
     do { status \<leftarrow> rd8 (data buffer) HCI_CMD_REPLY_POS_STATUS;
          address \<leftarrow> slice (data buffer) HCI_CMD_REPLY_POS_DATA 6;
          let s = (if info_flags s AND BTE_HCI_INFO_GOT_BD_ADDR = 0
                   then s\<lparr>dev_address := address,
                          info_flags := info_flags s OR BTE_HCI_INFO_GOT_BD_ADDR\<rparr>
                   else s);
          call_client_void E client_cb hci (Read_bd_addr_reply status address) userdata s }"

definition bte_hci_read_bd_addr :: "'a env \<Rightarrow> hci_ptr \<Rightarrow> cb_ptr \<Rightarrow> u64 \<Rightarrow> 'a dev \<Rightarrow> 'a dev option" where
  "bte_hci_read_bd_addr E hci callback userdata s =
     do { (b, s) \<leftarrow> bte_hci_dev_add_pending_command E hci HCI_R_BD_ADDR_OCF HCI_INFO_PARAM_OGF
                      HCI_R_BD_ADDR_PLEN Read_bd_addr_cb callback userdata s;
          send E b s }"

section \<open>Vendor commands\<close>

definition vendor_command_cb ::
    "'a env \<Rightarrow> hci_ptr \<Rightarrow> bte_buffer \<Rightarrow> cb_ptr \<Rightarrow> u64 \<Rightarrow> 'a dev \<Rightarrow> 'a dev option" where
  "vendor_command_cb E hci buffer client_cb userdata s =
     call_client_void E client_cb hci (Vendor_buffer buffer) userdata s"

definition bte_hci_vendor_command ::
    "'a env \<Rightarrow> hci_ptr \<Rightarrow> u16 \<Rightarrow> mem \<Rightarrow> byte \<Rightarrow> cb_ptr \<Rightarrow> u64 \<Rightarrow> 'a dev \<Rightarrow> 'a dev option" where
  "bte_hci_vendor_command E hci ocf vdata len callback userdata s =
     do { (b, s) \<leftarrow> bte_hci_dev_add_pending_command E hci ocf HCI_VENDOR_OGF
                      (of_nat HCI_CMD_HDR_LEN + len) Vendor_command_cb callback userdata s;
          when_buffer b (\<lambda>b s. do {
            d \<leftarrow> memcpy_to (data b) HCI_CMD_HDR_LEN vdata (unat len);
            send_filled E b d s }) s }"

definition client_handle_vendor_event ::
    "'a env \<Rightarrow> bte_buffer \<Rightarrow> nat \<Rightarrow> 'a dev \<Rightarrow> (bool \<times> 'a dev) option" where
  "client_handle_vendor_event E buffer hci s =
     ask_client E HciState.vendor_event_cb (Vendor_buffer buffer) hci s"

definition vendor_event_handler :: "'a env \<Rightarrow> bte_buffer \<Rightarrow> 'a dev \<Rightarrow> 'a dev option" where
  "vendor_event_handler E buffer s =
     map_option snd (bte_hci_dev_foreach_hci_client (client_handle_vendor_event E buffer) s)"

definition bte_hci_on_vendor_event :: "hci_ptr \<Rightarrow> cb_ptr \<Rightarrow> 'a dev \<Rightarrow> 'a dev option" where
  "bte_hci_on_vendor_event hci callback s =
     do { c \<leftarrow> get_client s hci;
          s \<leftarrow> put_client s hci (c\<lparr>vendor_event_cb := callback\<rparr>);
          bte_hci_dev_install_event_handler HCI_VENDOR_SPECIFIC_EVENT (Some Vendor_event_cb) s }"

section \<open>Dispatch\<close>

text \<open>A call through a function pointer that holds one of the functions of \<^verbatim>\<open>hci.c\<close>.\<close>

primrec run_command_cb ::
    "'a env \<Rightarrow> command_cb \<Rightarrow> hci_ptr \<Rightarrow> bte_buffer \<Rightarrow> cb_ptr \<Rightarrow> u64 \<Rightarrow> 'a dev \<Rightarrow> 'a dev option" where
  "run_command_cb E Command_complete_cb = command_complete_cb E"
| "run_command_cb E Periodic_inquiry_complete_cb = periodic_inquiry_complete_cb E"
| "run_command_cb E Exit_periodic_inquiry_cb = exit_periodic_inquiry_cb E"
| "run_command_cb E Link_key_req_reply_cb = link_key_req_reply_cb E"
| "run_command_cb E Read_link_policy_settings_cb = read_link_policy_settings_cb E"
| "run_command_cb E Read_pin_type_cb = read_pin_type_cb E"
| "run_command_cb E Read_stored_link_key_cb = read_stored_link_key_cb E"
| "run_command_cb E Write_stored_link_key_cb = write_stored_link_key_cb E"
| "run_command_cb E Delete_stored_link_key_cb = delete_stored_link_key_cb E"
| "run_command_cb E Read_local_name_cb = read_local_name_cb E"
| "run_command_cb E Read_page_timeout_cb = read_page_timeout_cb E"
| "run_command_cb E Read_scan_enable_cb = read_scan_enable_cb E"
| "run_command_cb E Read_auth_enable_cb = read_auth_enable_cb E"
| "run_command_cb E Read_class_of_device_cb = read_class_of_device_cb E"
| "run_command_cb E Read_auto_flush_timeout_cb = read_auto_flush_timeout_cb E"
| "run_command_cb E Read_current_iac_lap_cb = read_current_iac_lap_cb E"
| "run_command_cb E Read_link_sv_timeout_cb = read_link_sv_timeout_cb E"
| "run_command_cb E Read_inquiry_scan_type_cb = read_inquiry_scan_type_cb E"
| "run_command_cb E Read_inquiry_mode_cb = read_inquiry_mode_cb E"
| "run_command_cb E Read_page_scan_type_cb = read_page_scan_type_cb E"
| "run_command_cb E Read_local_version_cb = read_local_version_cb E"
| "run_command_cb E Read_local_features_cb = read_local_features_cb E"
| "run_command_cb E Read_buffer_size_cb = read_buffer_size_cb E"
| "run_command_cb E Read_bd_addr_cb = read_bd_addr_cb E"
| "run_command_cb E Vendor_command_cb = vendor_command_cb E"

primrec run_status_cb ::
    "'a env \<Rightarrow> status_cb \<Rightarrow> hci_ptr \<Rightarrow> byte \<Rightarrow> nat \<Rightarrow> 'a dev \<Rightarrow> 'a dev option" where
  "run_status_cb E Common_read_connection_status_cb = common_read_connection_status_cb E"
| "run_status_cb E Inquiry_status_cb = inquiry_status_cb E"
| "run_status_cb E Create_connection_status_cb = create_connection_status_cb E"
| "run_status_cb E Read_remote_name_status_cb = read_remote_name_status_cb E"

primrec run_event_cb ::
    "'a env \<Rightarrow> event_handler \<Rightarrow> bte_buffer \<Rightarrow> 'a dev \<Rightarrow> 'a dev option" where
  "run_event_cb E Inquiry_result_cb = inquiry_result_cb E"
| "run_event_cb E Inquiry_complete_event_cb = inquiry_complete_event_cb E"
| "run_event_cb E Conn_complete_event_cb = conn_complete_event_cb E"
| "run_event_cb E Nr_of_completed_packets_event_cb = nr_of_completed_packets_event_cb E"
| "run_event_cb E Disconnection_complete_event_cb = disconnection_complete_event_cb E"
| "run_event_cb E Connection_request_event_cb = connection_request_event_cb E"
| "run_event_cb E Link_key_request_event_cb = link_key_request_event_cb E"
| "run_event_cb E Link_key_notification_event_cb = link_key_notification_event_cb E"
| "run_event_cb E Pin_code_request_event_cb = pin_code_request_event_cb E"
| "run_event_cb E Auth_complete_event_cb = auth_complete_event_cb E"
| "run_event_cb E Remote_name_req_complete_event_cb = remote_name_req_complete_event_cb E"
| "run_event_cb E Read_remote_features_complete_event_cb = read_remote_features_complete_event_cb E"
| "run_event_cb E Read_remote_version_info_complete_event_cb = read_remote_version_info_complete_event_cb E"
| "run_event_cb E Read_clock_offset_complete_event_cb = read_clock_offset_complete_event_cb E"
| "run_event_cb E Mode_change_event_cb = mode_change_event_cb E"
| "run_event_cb E Qos_setup_complete_event_cb = qos_setup_complete_event_cb E"
| "run_event_cb E Return_link_keys_cb = return_link_keys_cb E"
| "run_event_cb E Vendor_event_cb = vendor_event_handler E"

definition hci_dispatch ::
    "'a env \<Rightarrow> (data_handler \<Rightarrow> bte_buffer \<Rightarrow> 'a dev \<Rightarrow> 'a dev option) \<Rightarrow> 'a hci_dispatch" where
  "hci_dispatch E on_data = \<lparr>d_command_cb = run_command_cb E, d_status_cb = run_status_cb E,
     d_event_handler = run_event_cb E, d_data_handler = on_data\<rparr>"

end
