(* ===== verification/HciCommands.thy ===== *)
theory HciCommands
  imports HciCtrl
begin

text \<open>
  What the commands of \<^verbatim>\<open>hci.c\<close> put on the wire. Every \<^verbatim>\<open>bte_hci_*\<close> function that sends a command
  allocates a packet, registers the reply, fills the parameters in and hands the packet to the
  backend; the lemmas here do that once, and the theorems state the packet of each command.
\<close>

section \<open>Changes that keep the pending commands and the wire\<close>


definition frame :: "'a dev \<Rightarrow> 'a dev \<Rightarrow> bool" where
  "frame s t \<longleftrightarrow> pending_commands t = pending_commands s \<and>
     num_pending_commands t = num_pending_commands s \<and> command_wire t = command_wire s \<and>
     length (clients t) = length (clients s) \<and> length (event_handlers t) = length (event_handlers s)"

lemma frame_refl [simp]: "frame s s"
  by (simp add: frame_def)

lemma frame_trans [trans]: "frame s t \<Longrightarrow> frame t u \<Longrightarrow> frame s u"
  by (simp add: frame_def)

lemma frame_ok: "frame s t \<Longrightarrow> dev_ok t = dev_ok s" and frame_table: "frame s t \<Longrightarrow> table t = table s"
  by (simp_all add: frame_def dev_ok_def table_def)

text \<open>
  What a command does, by the opcode and the parameters of its packet: with a slot for its reply it
  sends the packet (opcode, length of the parameters, parameters) and registers the reply; without
  one it sends nothing and tells the client so.
\<close>

definition cmd_packet :: "u16 \<Rightarrow> byte \<Rightarrow> mem \<Rightarrow> mem" where
  "cmd_packet ocf ogf params = le_bytes 2 (build_opcode ocf ogf) @ [of_nat (length params)] @ params"

definition issues ::
    "'a env \<Rightarrow> 'a dev \<Rightarrow> byte \<Rightarrow> u16 \<Rightarrow> byte \<Rightarrow> mem \<Rightarrow> hci_ptr \<Rightarrow> command_cb_union \<Rightarrow> u64
     \<Rightarrow> 'a dev option \<Rightarrow> bool" where
  "issues E s ev ocf ogf params hci cb ud r \<longleftrightarrow>
     (case alloc_slot (cmd_rules ev (build_opcode ocf ogf)) (table s) of
        Some i \<Rightarrow> \<exists>s' m. r = Some s' \<and> dev_ok s' \<and>
          command_wire s' = command_wire s @ [cmd_packet ocf ogf params] \<and>
          table s' = (table s)[i := Some (cmd_rules ev (build_opcode ocf ogf))] \<and>
          pending_commands s' = (pending_commands s)[i := pending_entry m hci cb ud]
      | None \<Rightarrow> (case base_client_cb cb of
            Some (Some f) \<Rightarrow> r = call_client_void E (Some f) hci (Reply BTE_HCI_MEMORY_FULL) ud s
          | _ \<Rightarrow> r = Some s))"

lemma cmd_header_len [simp]: "length (cmd_header ocf ogf len) = 3"
  by (simp add: cmd_header_def)

lemma cmd_buffer_data: "data (cmd_buffer E s ocf ogf len) =
    cmd_header ocf ogf len @ map (\<lambda>i. env_fresh E s (i + 35)) [0..<unat len - 3]"
  by (simp add: cmd_buffer_def)

lemma send_filled_packet:
  assumes "unat len = 3 + length params"
  shows "send_filled E (cmd_buffer E s ocf ogf len) (cmd_header ocf ogf len @ params) t =
     Some (t\<lparr>command_wire := command_wire t @ [cmd_packet ocf ogf params]\<rparr>)"
proof -
  have "unat (len - 3) = length params" using unat_sub_of_nat [of 3 len] assms by simp
  from arg_cong [OF this, of "of_nat :: nat \<Rightarrow> byte"] have "len - 3 = of_nat (length params)" by simp
  then have "cmd_header ocf ogf len @ params = cmd_packet ocf ogf params"
    by (simp add: cmd_header_def cmd_packet_def)
  moreover have "slice (cmd_header ocf ogf len @ params) 0 (unat len) = Some (cmd_header ocf ogf len @ params)"
    using assms by (simp add: slice_def)
  ultimately show ?thesis
    by (simp add: send_filled_def send_def bte_hci_send_command_def cmd_buffer_def Let_def)
qed

lemma issue_command:
  assumes "dev_ok s" and "base_client_cb cb = Some base"
    and "unat len = 3 + length params"
    and "\<And>s1. K None s1 = Some s1"
    and "\<And>i p. \<exists>t. frame (set_slot i p s) t \<and> K (Some (cmd_buffer E s ocf ogf len)) (set_slot i p s) =
           send_filled E (cmd_buffer E s ocf ogf len) (cmd_header ocf ogf len @ params) t"
  shows "issues E s ev ocf ogf params hci cb ud
     (do { (b, s1) \<leftarrow> bte_hci_dev_add_command E hci ocf ogf len ev cb ud s; K b s1 })"
proof -
  define rs where rs: "rs = cmd_rules ev (build_opcode ocf ogf)"
  have "3 \<le> unat len" using assms(3) by simp
  from add_command_spec [OF assms(1) this assms(2) rs, of E hci ud] obtain m where
    m: "represents m rs" "bte_hci_dev_add_command E hci ocf ogf len ev cb ud s =
     (case alloc_slot rs (table s) of
        Some i \<Rightarrow> Some (Some (cmd_buffer E s ocf ogf len), set_slot i (pending_entry m hci cb ud) s)
      | None \<Rightarrow> if base = None then Some (None, s)
                else map_option (\<lambda>s'. (None, s'))
                  (call_client_void E base hci (Reply BTE_HCI_MEMORY_FULL) ud s))" by blast
  show ?thesis
  proof (cases "alloc_slot rs (table s)")
    case None
    have "map_option (Pair None) x \<bind> (\<lambda>(b, s1). K b s1) = x" for x
      using assms(4) by (cases x) auto
    with None m(2) assms(2,4) show ?thesis
      by (cases base) (simp_all add: issues_def rs [symmetric])
  next
    case (Some i)
    let ?s1 = "set_slot i (pending_entry m hci cb ud) s"
    obtain t where t: "frame ?s1 t" "K (Some (cmd_buffer E s ocf ogf len)) ?s1 =
           send_filled E (cmd_buffer E s ocf ogf len) (cmd_header ocf ogf len @ params) t"
      using assms(5) by blast
    have i: "i < length (table s)" "table s ! i = None" using alloc_slot_Some [OF Some] by blast+
    have "rs \<noteq> []" by (simp add: rs cmd_rules_def)
    then have s1: "dev_ok ?s1" "table ?s1 = (table s)[i := Some rs]"
      using set_slot_spec [OF assms(1) _ _ i] m(1) by simp_all
    define s' where "s' = t\<lparr>command_wire := command_wire t @ [cmd_packet ocf ogf params]\<rparr>"
    have "dev_ok s'" "table s' = (table s)[i := Some rs]"
      using s1 frame_ok [OF t(1)] frame_table [OF t(1)] by (simp_all add: s'_def dev_ok_def table_def)
    moreover have "command_wire s' = command_wire s @ [cmd_packet ocf ogf params]"
        "pending_commands s' = (pending_commands s)[i := pending_entry m hci cb ud]"
      using t(1) i by (simp_all add: s'_def frame_def set_slot_def)
    moreover have "do { (b, s1) \<leftarrow> bte_hci_dev_add_command E hci ocf ogf len ev cb ud s; K b s1 } = Some s'"
      using m(2) Some t(2) send_filled_packet [OF assms(3)] by (simp add: s'_def)
    ultimately show ?thesis using Some by (auto simp: issues_def rs [symmetric])
  qed
qed

text \<open>The three shapes of a command: no parameters; parameters; parameters and data for its status.\<close>

lemma issue_simple:
  assumes "dev_ok s" and "unat len = 3"
  shows "issues E s HCI_COMMAND_COMPLETE ocf ogf [] hci (Cmd_complete f cb) ud
     (do { (b, s1) \<leftarrow> bte_hci_dev_add_pending_command E hci ocf ogf len f cb ud s; send E b s1 })"
  unfolding bte_hci_dev_add_pending_command_def
proof (rule issue_command [OF assms(1) base_client_cb.simps(1)])
  show "\<exists>t. frame (set_slot i p s) t \<and> send E (Some (cmd_buffer E s ocf ogf len)) (set_slot i p s) =
      send_filled E (cmd_buffer E s ocf ogf len) (cmd_header ocf ogf len @ []) t" for i p
    using assms(2) by (intro exI [of _ "set_slot i p s"]) (simp add: send_filled_def cmd_buffer_def)
qed (simp_all add: assms(2) send_def bte_hci_send_command_def)

lemma issue_fill_state:
  assumes "dev_ok s" and "unat len = 3 + length params"
    and "\<And>i p. \<exists>t. frame (set_slot i p s) t \<and> F (cmd_buffer E s ocf ogf len) (set_slot i p s) =
           send_filled E (cmd_buffer E s ocf ogf len) (cmd_header ocf ogf len @ params) t"
  shows "issues E s HCI_COMMAND_COMPLETE ocf ogf params hci (Cmd_complete f cb) ud
     (do { (b, s1) \<leftarrow> bte_hci_dev_add_pending_command E hci ocf ogf len f cb ud s; when_buffer b F s1 })"
    and "issues E s HCI_COMMAND_STATUS ocf ogf params hci (Cmd_status g cb) ud
     (do { (b, s1) \<leftarrow> bte_hci_dev_add_pending_async_command E hci ocf ogf len g cb ud s; when_buffer b F s1 })"
proof -
  have none: "when_buffer None F s1 = Some s1" for s1 by (simp add: when_buffer_def)
  have K: "\<exists>t. frame (set_slot i p s) t \<and> when_buffer (Some (cmd_buffer E s ocf ogf len)) F (set_slot i p s) =
      send_filled E (cmd_buffer E s ocf ogf len) (cmd_header ocf ogf len @ params) t" for i p
    using assms(3) by (simp add: when_buffer_def)
  show "issues E s HCI_COMMAND_COMPLETE ocf ogf params hci (Cmd_complete f cb) ud
     (do { (b, s1) \<leftarrow> bte_hci_dev_add_pending_command E hci ocf ogf len f cb ud s; when_buffer b F s1 })"
    "issues E s HCI_COMMAND_STATUS ocf ogf params hci (Cmd_status g cb) ud
     (do { (b, s1) \<leftarrow> bte_hci_dev_add_pending_async_command E hci ocf ogf len g cb ud s; when_buffer b F s1 })"
    unfolding bte_hci_dev_add_pending_command_def bte_hci_dev_add_pending_async_command_def
    by (rule issue_command [where K = "\<lambda>b. when_buffer b F", OF assms(1) _ assms(2) none K]; simp)+
qed

lemma issue_fill:
  assumes "dev_ok s" and "unat len = 3 + length params"
    and "\<And>t. F (cmd_buffer E s ocf ogf len) t =
           send_filled E (cmd_buffer E s ocf ogf len) (cmd_header ocf ogf len @ params) t"
  shows "issues E s HCI_COMMAND_COMPLETE ocf ogf params hci (Cmd_complete f cb) ud
     (do { (b, s1) \<leftarrow> bte_hci_dev_add_pending_command E hci ocf ogf len f cb ud s; when_buffer b F s1 })"
    and "issues E s HCI_COMMAND_STATUS ocf ogf params hci (Cmd_status g cb) ud
     (do { (b, s1) \<leftarrow> bte_hci_dev_add_pending_async_command E hci ocf ogf len g cb ud s; when_buffer b F s1 })"
  by (rule issue_fill_state [OF assms(1,2)]; use assms(3) frame_refl in blast)+

lemmas fill_simps = cmd_buffer_data write_le16_def write_le32_def write_le64_def wr_def memcpy_to_def slice_def

lemmas client_simps = get_tmp_def put_tmp_def get_client_def put_client_def set_tmp_address_def set_slot_def

lemma write_clock_offset_eq:
  "write_clock_offset c d off = write_le16 (if c = 0xffff then 0 else c AND 0x7fff) d off"
  by (simp add: write_clock_offset_def)

lemmas async_simps = fill_simps client_simps lap_bytes_def write_clock_offset_eq
  bte_hci_dev_inquiry_cleanup_def


section \<open>The packets of the commands\<close>

abbreviation (input) completes ::
    "'a env \<Rightarrow> 'a dev \<Rightarrow> u16 \<Rightarrow> byte \<Rightarrow> mem \<Rightarrow> hci_ptr \<Rightarrow> command_cb \<Rightarrow> cb_ptr \<Rightarrow> u64 \<Rightarrow> 'a dev option \<Rightarrow> bool" where
  "completes E s ocf ogf params hci f cb ud r \<equiv>
     issues E s HCI_COMMAND_COMPLETE ocf ogf params hci (Cmd_complete f cb) ud r"

abbreviation (input) starts ::
    "'a env \<Rightarrow> 'a dev \<Rightarrow> u16 \<Rightarrow> byte \<Rightarrow> mem \<Rightarrow> hci_ptr \<Rightarrow> status_cb option \<Rightarrow> cb_ptr \<Rightarrow> u64 \<Rightarrow> 'a dev option \<Rightarrow> bool" where
  "starts E s ocf ogf params hci f cb ud r \<equiv>
     issues E s HCI_COMMAND_STATUS ocf ogf params hci (Cmd_status f cb) ud r"


text \<open>
  C26: connections and link keys. The packet on the wire has the opcode and the parameters of the
  Bluetooth specification for each of these commands; a peer is rejected also without a client.
\<close>

theorem hci_connection_commands_correct:
  assumes "dev_ok s" and "length a = 6" and "length key = 16"
    and "client_heap s h = Some c" and "length (tmp_bytes (last_async_cmd_data c)) = 8"
  shows "starts E s 0x05 0x01 (a @ le_bytes 2 (cp_packet_type p) @ [cp_page_scan_rep_mode p, 0] @
       le_bytes 2 (if cp_clock_offset p = 0xffff then 0 else cp_clock_offset p AND 0x7fff) @
       [if cp_allow_role_switch p then 1 else 0]) (Some h) (Some Create_connection_status_cb) scb ud
       (bte_hci_create_connection E (Some h) a p scb cb ud s) \<and>
     starts E s 0x06 0x01 (le_bytes 2 handle @ [x]) hci None scb ud
       (bte_hci_disconnect E hci handle x scb ud s) \<and>
     completes E s 0x08 0x01 a hci Command_complete_cb scb ud
       (bte_hci_create_connection_cancel E hci a scb ud s) \<and>
     starts E s 0x09 0x01 (a @ [x]) (Some h) (Some Create_connection_status_cb) scb ud
       (bte_hci_accept_connection E (Some h) a x scb cb ud s) \<and>
     starts E s 0x0A 0x01 (a @ [x]) (Some h) (Some Create_connection_status_cb) scb ud
       (bte_hci_reject_connection E (Some h) a x scb cb ud s) \<and>
     starts E s 0x0A 0x01 (a @ [x]) None (Some Create_connection_status_cb) scb ud
       (bte_hci_reject_connection E None a x scb cb ud s) \<and>
     completes E s 0x0B 0x01 (a @ key) hci Link_key_req_reply_cb scb ud
       (bte_hci_link_key_req_reply E hci a key scb ud s) \<and>
     completes E s 0x0C 0x01 a hci Link_key_req_reply_cb scb ud
       (bte_hci_link_key_req_neg_reply E hci a scb ud s) \<and>
     completes E s 0x0E 0x01 a hci Link_key_req_reply_cb scb ud
       (bte_hci_pin_code_req_neg_reply E hci a scb ud s)"
  unfolding bte_hci_create_connection_def bte_hci_disconnect_def bte_hci_create_connection_cancel_def
    bte_hci_accept_connection_def bte_hci_reject_connection_def bte_hci_link_key_req_reply_def
    bte_hci_link_key_req_neg_reply_def bte_hci_pin_code_req_neg_reply_def
  by (intro conjI; rule issue_fill_state; (simp add: assms async_simps split del: if_split)?;
      (rule exI, rule conjI [rotated], rule refl, simp add: frame_def)?)

text \<open>
  Inquiries and the properties of a remote device.
\<close>

theorem hci_remote_device_commands_correct:
  assumes "dev_ok s" and "length a = 6"
    and "client_heap s h = Some c" and "length (tmp_bytes (last_async_cmd_data c)) = 8"
  shows "starts E s 0x01 0x01 (lap_bytes lap @ [len, n]) (Some h) (Some Inquiry_status_cb) scb ud
       (bte_hci_inquiry E (Some h) lap len n scb cb ud s) \<and>
     completes E s 0x02 0x01 [] hci Command_complete_cb scb ud (bte_hci_inquiry_cancel E hci scb ud s) \<and>
     completes E s 0x03 0x01 (le_bytes 2 hi @ le_bytes 2 lo @ lap_bytes lap @ [len, n]) (Some h)
       Periodic_inquiry_complete_cb scb ud (bte_hci_periodic_inquiry E (Some h) lo hi lap len n scb cb ud s) \<and>
     completes E s 0x04 0x01 [] hci Exit_periodic_inquiry_cb scb ud
       (bte_hci_exit_periodic_inquiry E hci scb ud s) \<and>
     starts E s 0x11 0x01 (le_bytes 2 handle) (Some h) (Some Common_read_connection_status_cb) scb ud
       (bte_hci_auth_requested E (Some h) handle scb cb ud s) \<and>
     starts E s 0x19 0x01 (a @ [mode, 0] @ le_bytes 2 (if offs = 0xffff then 0 else offs AND 0x7fff)) (Some h)
       (Some Read_remote_name_status_cb) scb ud
       (bte_hci_read_remote_name E (Some h) a mode offs scb cb ud s) \<and>
     starts E s 0x1B 0x01 (le_bytes 2 handle) (Some h) (Some Common_read_connection_status_cb) scb ud
       (bte_hci_read_remote_features E (Some h) handle scb cb ud s) \<and>
     starts E s 0x1D 0x01 (le_bytes 2 handle) (Some h) (Some Common_read_connection_status_cb) scb ud
       (bte_hci_read_remote_version_info E (Some h) handle scb cb ud s) \<and>
     starts E s 0x1F 0x01 (le_bytes 2 handle) (Some h) (Some Common_read_connection_status_cb) scb ud
       (bte_hci_read_clock_offset E (Some h) handle scb cb ud s)"
  unfolding bte_hci_inquiry_def bte_hci_inquiry_cancel_def bte_hci_periodic_inquiry_def
    bte_hci_exit_periodic_inquiry_def bte_hci_auth_requested_def bte_hci_read_remote_name_def
    bte_hci_read_remote_features_def bte_hci_read_remote_version_info_def
    bte_hci_read_clock_offset_def common_read_connection_def
  by (intro conjI; (rule issue_simple issue_fill_state); (simp add: assms async_simps split del: if_split)?;
      (rule exI, rule conjI [rotated], rule refl, simp add: frame_def)?)

text \<open>
  Link policy, informational and vendor commands.
\<close>

theorem hci_policy_and_info_commands_correct:
  assumes "dev_ok s" and "unat len \<le> 252" and "length vdata = unat len"
  shows "starts E s 0x03 0x02 (le_bytes 2 handle @ le_bytes 2 hi @ le_bytes 2 lo @ le_bytes 2 slots @
       le_bytes 2 t) hci None cb ud (bte_hci_set_sniff_mode E hci handle lo hi slots t cb ud s) \<and>
     starts E s 0x07 0x02 (le_bytes 2 handle @ [0, qs_service_type q] @ le_bytes 4 (qs_token_rate q) @
       le_bytes 4 (qs_peak_bandwidth q) @ le_bytes 4 (qs_latency q) @ le_bytes 4 (qs_delay_variation q))
       hci None cb ud (bte_hci_qos_setup E hci handle q cb ud s) \<and>
     completes E s 0x0C 0x02 (le_bytes 2 handle) hci Read_link_policy_settings_cb cb ud
       (bte_hci_read_link_policy_settings E hci handle cb ud s) \<and>
     completes E s 0x0D 0x02 (le_bytes 2 handle @ le_bytes 2 t) hci Command_complete_cb cb ud
       (bte_hci_write_link_policy_settings E hci handle t cb ud s) \<and>
     completes E s 0x01 0x04 [] hci Read_local_version_cb cb ud (bte_hci_read_local_version E hci cb ud s) \<and>
     completes E s 0x03 0x04 [] hci Read_local_features_cb cb ud (bte_hci_read_local_features E hci cb ud s) \<and>
     completes E s 0x05 0x04 [] hci Read_buffer_size_cb cb ud (bte_hci_read_buffer_size E hci cb ud s) \<and>
     completes E s 0x09 0x04 [] hci Read_bd_addr_cb cb ud (bte_hci_read_bd_addr E hci cb ud s) \<and>
     completes E s 0 0 [] hci Command_complete_cb cb ud (bte_hci_nop E hci cb ud s) \<and>
     completes E s ocf 0x3F vdata hci Vendor_command_cb cb ud
       (bte_hci_vendor_command E hci ocf vdata len cb ud s)"
proof -
  have "unat (len + 3) = length vdata + 3"
    using assms(2,3) unat_add_of_nat [of len 3] by simp
  then have len: "unat (3 + len) = 3 + length vdata" by (simp add: add.commute)
  show ?thesis
    unfolding bte_hci_set_sniff_mode_def bte_hci_qos_setup_def bte_hci_read_link_policy_settings_def
      bte_hci_write_link_policy_settings_def bte_hci_read_local_version_def
      bte_hci_read_local_features_def bte_hci_read_buffer_size_def bte_hci_read_bd_addr_def
      bte_hci_nop_def bte_hci_vendor_command_def
    by (intro conjI; (rule issue_simple issue_fill); simp add: assms fill_simps len)
qed

lemma set_handler_commutes:
  assumes "bte_hci_dev_handler_for_event ev = Some i" and "i < length (event_handlers s)"
  shows "(do { s1 \<leftarrow> send_filled E b d s; bte_hci_dev_install_event_handler ev h s1 }) =
     send_filled E b d (s\<lparr>event_handlers := (event_handlers s)[i := h]\<rparr>)"
  using assms
  by (cases "slice d 0 (unat (size b))")
     (simp_all add: send_filled_def send_def bte_hci_send_command_def
       bte_hci_dev_install_event_handler_def get_handler_def Let_def)

text \<open>
  Controller and baseband commands. Writing the scan mode sends the combination of what all
  clients asked for, not the argument alone.
\<close>

theorem hci_baseband_commands_correct:
  assumes "dev_ok s" and "length cod = 3" and "client_heap s h = Some c"
    and "bte_hci_dev_combined_scan_mode (s\<lparr>client_heap := (client_heap s)(h \<mapsto> c\<lparr>scan_mode := x\<rparr>)\<rparr>) = Some mode"
  shows "completes E s 0x01 0x03 (le_bytes 8 ev_mask) hci Command_complete_cb cb ud
       (bte_hci_set_event_mask E hci ev_mask cb ud s) \<and>
     completes E s 0x03 0x03 [] hci Command_complete_cb cb ud (bte_hci_reset E hci cb ud s) \<and>
     completes E s 0x09 0x03 [] hci Read_pin_type_cb cb ud (bte_hci_read_pin_type E hci cb ud s) \<and>
     completes E s 0x0A 0x03 [x] hci Command_complete_cb cb ud (bte_hci_write_pin_type E hci x cb ud s) \<and>
     completes E s 0x14 0x03 [] hci Read_local_name_cb cb ud (bte_hci_read_local_name E hci cb ud s) \<and>
     completes E s 0x17 0x03 [] hci Read_page_timeout_cb cb ud (bte_hci_read_page_timeout E hci cb ud s) \<and>
     completes E s 0x18 0x03 (le_bytes 2 t) hci Command_complete_cb cb ud
       (bte_hci_write_page_timeout E hci t cb ud s) \<and>
     completes E s 0x19 0x03 [] hci Read_scan_enable_cb cb ud (bte_hci_read_scan_enable E hci cb ud s) \<and>
     completes E s 0x1A 0x03 [mode] (Some h) Command_complete_cb cb ud
       (bte_hci_write_scan_enable E (Some h) x cb ud s) \<and>
     completes E s 0x1F 0x03 [] hci Read_auth_enable_cb cb ud (bte_hci_read_auth_enable E hci cb ud s) \<and>
     completes E s 0x20 0x03 [x] hci Command_complete_cb cb ud (bte_hci_write_auth_enable E hci x cb ud s) \<and>
     completes E s 0x23 0x03 [] hci Read_class_of_device_cb cb ud
       (bte_hci_read_class_of_device E hci cb ud s) \<and>
     completes E s 0x24 0x03 cod hci Command_complete_cb cb ud
       (bte_hci_write_class_of_device E hci cod cb ud s)"
  unfolding bte_hci_set_event_mask_def bte_hci_reset_def bte_hci_read_pin_type_def bte_hci_write_pin_type_def
    bte_hci_read_local_name_def bte_hci_read_page_timeout_def bte_hci_write_page_timeout_def
    bte_hci_read_scan_enable_def bte_hci_write_scan_enable_def bte_hci_read_auth_enable_def
    bte_hci_write_auth_enable_def bte_hci_read_class_of_device_def bte_hci_write_class_of_device_def
  using assms(4) unfolding bte_hci_dev_combined_scan_mode_def
  by - (intro conjI; (rule issue_simple issue_fill_state);
      (simp add: assms(1-3) async_simps)?;
      (rule exI, rule conjI [rotated], rule refl, simp add: frame_def)?)

lemma write_inquiry_mode_packet:
  assumes "dev_ok s"
  shows "completes E s 0x45 0x03 [x] hci Command_complete_cb cb ud (bte_hci_write_inquiry_mode E hci x cb ud s)"
  unfolding bte_hci_write_inquiry_mode_def
proof (rule issue_fill_state(1); (simp add: assms fill_simps)?)
  fix i p
  let ?s = "set_slot i p s"
  let ?t = "if x = 1 then ?s\<lparr>event_handlers := (event_handlers s)[34 := Some Inquiry_result_cb]\<rparr> else ?s"
  have "34 < length (event_handlers ?s)" using assms by (simp add: dev_ok_def set_slot_def)
  from set_handler_commutes [OF _ this, of 34]
  have "(do { s1 \<leftarrow> send_filled E b d ?s;
       if x = 1 then bte_hci_dev_install_event_handler 34 (Some Inquiry_result_cb) s1 else Some s1 }) =
     send_filled E b d ?t" for b d
    by (simp add: set_slot_def bte_hci_dev_handler_for_event_def)
  moreover have "frame ?s ?t" by (simp add: frame_def set_slot_def)
  ultimately show "\<exists>t. frame ?s t \<and> (do { s1 \<leftarrow> send_filled E (cmd_buffer E s 69 3 4) (cmd_header 69 3 4 @ [x]) ?s;
       if x = 1 then bte_hci_dev_install_event_handler 34 (Some Inquiry_result_cb) s1 else Some s1 }) =
     send_filled E (cmd_buffer E s 69 3 4) (cmd_header 69 3 4 @ [x]) t" by blast
qed

lemma host_num_comp_packet:
  "bte_hci_host_num_comp_packets E hci handle n s =
     Some (s\<lparr>command_wire := command_wire s @ [cmd_packet 0x35 0x03 ([1] @ le_bytes 2 handle @ le_bytes 2 n)]\<rparr>)"
  using send_filled_packet [where len = 8 and params = "[1] @ le_bytes 2 handle @ le_bytes 2 n"]
  by (simp add: bte_hci_host_num_comp_packets_def bte_hci_dev_add_command_no_reply_def
      hci_command_alloc_spec fill_simps)

text \<open>
  Flow control, timeouts and inquiry parameters. Asking for inquiry results with signal
  strength also installs the handler of that event; the acknowledgement of incoming packets is
  sent without waiting for a reply.
\<close>

theorem hci_timing_commands_correct:
  assumes "dev_ok s"
  shows "completes E s 0x27 0x03 (le_bytes 2 handle) hci Read_auto_flush_timeout_cb cb ud
       (bte_hci_read_auto_flush_timeout E hci handle cb ud s) \<and>
     completes E s 0x28 0x03 (le_bytes 2 handle @ le_bytes 2 t) hci Command_complete_cb cb ud
       (bte_hci_write_auto_flush_timeout E hci handle t cb ud s) \<and>
     completes E s 0x31 0x03 [x] hci Command_complete_cb cb ud
       (bte_hci_set_ctrl_to_host_flow_control E hci x cb ud s) \<and>
     completes E s 0x33 0x03 (le_bytes 2 amtu @ [x] @ le_bytes 2 amax @ le_bytes 2 smax) hci Command_complete_cb cb ud
       (bte_hci_set_host_buffer_size E hci amtu amax x smax cb ud s) \<and>
     bte_hci_host_num_comp_packets E hci handle t s =
       Some (s\<lparr>command_wire := command_wire s @ [cmd_packet 0x35 0x03 ([1] @ le_bytes 2 handle @ le_bytes 2 t)]\<rparr>) \<and>
     completes E s 0x36 0x03 (le_bytes 2 handle) hci Read_link_sv_timeout_cb cb ud
       (bte_hci_read_link_sv_timeout E hci handle cb ud s) \<and>
     completes E s 0x37 0x03 (le_bytes 2 handle @ le_bytes 2 t) hci Command_complete_cb cb ud
       (bte_hci_write_link_sv_timeout E hci handle t cb ud s) \<and>
     completes E s 0x39 0x03 [] hci Read_current_iac_lap_cb cb ud (bte_hci_read_current_iac_lap E hci cb ud s) \<and>
     completes E s 0x42 0x03 [] hci Read_inquiry_scan_type_cb cb ud
       (bte_hci_read_inquiry_scan_type E hci cb ud s) \<and>
     completes E s 0x43 0x03 [x] hci Command_complete_cb cb ud (bte_hci_write_inquiry_scan_type E hci x cb ud s) \<and>
     completes E s 0x44 0x03 [] hci Read_inquiry_mode_cb cb ud (bte_hci_read_inquiry_mode E hci cb ud s) \<and>
     completes E s 0x45 0x03 [x] hci Command_complete_cb cb ud (bte_hci_write_inquiry_mode E hci x cb ud s) \<and>
     completes E s 0x46 0x03 [] hci Read_page_scan_type_cb cb ud (bte_hci_read_page_scan_type E hci cb ud s) \<and>
     completes E s 0x47 0x03 [x] hci Command_complete_cb cb ud (bte_hci_write_page_scan_type E hci x cb ud s)"
  unfolding bte_hci_read_auto_flush_timeout_def bte_hci_write_auto_flush_timeout_def
    bte_hci_set_ctrl_to_host_flow_control_def bte_hci_set_host_buffer_size_def
    bte_hci_read_link_sv_timeout_def bte_hci_write_link_sv_timeout_def
    bte_hci_read_current_iac_lap_def bte_hci_read_inquiry_scan_type_def
    bte_hci_write_inquiry_scan_type_def bte_hci_read_inquiry_mode_def
    bte_hci_read_page_scan_type_def bte_hci_write_page_scan_type_def
  by (intro conjI; (rule host_num_comp_packet write_inquiry_mode_packet issue_simple issue_fill);
      simp add: assms fill_simps)



lemma wr_at:
  assumes "length xs = off" and "length bs \<le> length ys"
  shows "wr (xs @ ys) off bs = Some (xs @ bs @ drop (length bs) ys)"
  using assms by (auto simp: wr_def)

lemma memcpy_to_len: "memcpy_to d off src n = Some d' \<Longrightarrow> length d' = length d"
  by (auto simp: memcpy_to_def bind_eq_Some_conv dest: wr_len)

lemma lap_bytes_len [simp]: "length (lap_bytes lap) = 3"
  by (simp add: lap_bytes_def)

lemma strncpy_from_spec:
  assumes "0 \<in> set src \<or> n \<le> length src"
  shows "strncpy_from src n = Some (take n (takeWhile (\<lambda>x. x \<noteq> 0) src) @
           replicate (n - length (takeWhile (\<lambda>x. x \<noteq> 0) src)) 0)"
  using assms by (induction src n rule: strncpy_from.induct) auto

lemma wr_params:
  assumes "length bs = unat len - 3"
  shows "wr (data (cmd_buffer E s ocf ogf len)) 3 bs = Some (cmd_header ocf ogf len @ bs)"
  using assms wr_at [of "cmd_header ocf ogf len" 3 bs] by (simp add: cmd_buffer_data)

lemma write_laps_loop_spec:
  assumes "k + n \<le> length laps" and "length xs = 4 + 3 * k" and "length ys = 3 * n"
  shows "write_laps_loop [k..<k + n] laps (xs @ ys) =
     Some (xs @ concat (map lap_bytes (take n (drop k laps))))"
  using assms
proof (induction n arbitrary: k xs ys)
  case (Suc n)
  let ?b = "lap_bytes (laps ! k)"
  have "wr (xs @ ys) (4 + 3 * k) ?b = Some ((xs @ ?b) @ drop 3 ys)"
    using wr_at [of xs "4 + 3 * k" ?b ys] Suc.prems by simp
  moreover have "write_laps_loop [Suc k..<Suc k + n] laps ((xs @ ?b) @ drop 3 ys) =
      Some ((xs @ ?b) @ concat (map lap_bytes (take n (drop (Suc k) laps))))"
    using Suc.prems by (intro Suc.IH) simp_all
  moreover have "take (Suc n) (drop k laps) = laps ! k # take n (drop (Suc k) laps)"
    using Suc.prems by (simp add: Cons_nth_drop_Suc [symmetric])
  moreover have "[k..<k + Suc n] = k # [Suc k..<Suc k + n]" by (simp add: upt_conv_Cons)
  ultimately show ?case using Suc.prems by (simp add: add.commute)
qed simp

lemma write_keys_loop_spec:
  assumes "k + n \<le> length keys" and "list_all (\<lambda>x. length (sk_address x) = 6 \<and> length (sk_key x) = 16) keys"
    and "length xs = 4 + 6 * k" and "length ys = 6 * n" and "length us = 16 * k" and "length vs = 16 * n"
    and "m = k + n"
  shows "write_keys_loop m [k..<m] keys (xs @ ys @ us @ vs) =
     Some (xs @ concat (map sk_address (take n (drop k keys))) @ us @
           concat (map sk_key (take n (drop k keys))))"
  using assms
proof (induction n arbitrary: k xs ys us vs)
  case (Suc n)
  let ?a = "sk_address (keys ! k)" and ?k = "sk_key (keys ! k)"
  have len: "length ?a = 6" "length ?k = 16" using Suc.prems by (auto simp: list_all_length)
  have a: "wr (xs @ ys @ us @ vs) (4 + 6 * k) ?a = Some (((xs @ ?a) @ drop 6 ys @ us) @ vs)"
    using wr_at [of xs "4 + 6 * k" ?a "ys @ us @ vs"] Suc.prems len by simp
  have b: "wr (((xs @ ?a) @ drop 6 ys @ us) @ vs) (4 + m * 6 + 16 * k) ?k =
       Some ((xs @ ?a) @ drop 6 ys @ (us @ ?k) @ drop 16 vs)"
    using wr_at [of "(xs @ ?a) @ drop 6 ys @ us" "4 + m * 6 + 16 * k" ?k vs] Suc.prems len by simp
  have c: "write_keys_loop m [Suc k..<m] keys ((xs @ ?a) @ drop 6 ys @ (us @ ?k) @ drop 16 vs) =
      Some ((xs @ ?a) @ concat (map sk_address (take n (drop (Suc k) keys))) @ (us @ ?k) @
           concat (map sk_key (take n (drop (Suc k) keys))))"
    using Suc.prems len by (intro Suc.IH) simp_all
  have "take (Suc n) (drop k keys) = keys ! k # take n (drop (Suc k) keys)"
    using Suc.prems by (simp add: Cons_nth_drop_Suc [symmetric])
  moreover have "[k..<m] = k # [Suc k..<m]" using Suc.prems by (simp add: upt_conv_Cons)
  ultimately show ?case using Suc.prems len a b c
    by (simp add: memcpy_to_def slice_def mult.commute)
qed simp

lemma write_keys_loop_fault:
  assumes "length d < 4 + 22 * m" and "k < m"
  shows "write_keys_loop m [k..<m] keys d = None"
  using assms
proof (induction "m - k" arbitrary: k d)
  case (Suc n)
  have u: "[k..<m] = k # [Suc k..<m]" using Suc.prems by (simp add: upt_conv_Cons)
  have "memcpy_to d' (4 + m * 6 + k * 16) x 16 \<bind> write_keys_loop m [Suc k..<m] keys = None"
    if "length d' = length d" for d' x
  proof (cases "Suc k = m")
    case True
    with Suc.prems that show ?thesis by (auto simp: memcpy_to_def slice_def wr_def)
  next
    case False
    have "write_keys_loop m [Suc k..<m] keys d'' = None" if "length d'' = length d" for d''
      using Suc.hyps Suc.prems False that by simp
    with that show ?thesis
      by (cases "memcpy_to d' (4 + m * 6 + k * 16) x 16") (simp_all add: memcpy_to_len)
  qed
  then show ?case
    by (cases "memcpy_to d (4 + k * 6) (sk_address (keys ! k)) 6") (simp_all add: u memcpy_to_len)
qed simp

lemma local_name_packet:
  assumes "dev_ok s" and "0 \<in> set name \<or> 248 \<le> length name"
  shows "completes E s 0x13 0x03 (take 248 (takeWhile (\<lambda>x. x \<noteq> 0) name) @
         replicate (248 - length (takeWhile (\<lambda>x. x \<noteq> 0) name)) 0) hci Command_complete_cb cb ud
       (bte_hci_write_local_name E hci name cb ud s)"
  unfolding bte_hci_write_local_name_def
  by (rule issue_fill; simp add: assms strncpy_from_spec wr_params)

lemma wr_junk:
  assumes "length xs = off" and "length bs \<le> n - k" and "k \<le> n"
  shows "wr (xs @ map f [k..<n]) off bs = Some (xs @ bs @ map f [k + length bs..<n])"
  using assms wr_at [of xs off bs "map f [k..<n]"] by (simp add: drop_map)

text \<open>The bytes of a PIN code packet after the terminated PIN stay as they were allocated.\<close>

lemma pin_code_packet:
  assumes "dev_ok s" and "length a = 6" and "unat len \<le> 16" and "unat len \<le> length pin"
  shows "completes E s 0x0D 0x01 (a @ [len] @ take (unat len) pin @
       (if len < 16 then 0 # map (\<lambda>i. env_fresh E s (i + 35)) [unat len + 8..<23] else []))
     hci Link_key_req_reply_cb cb ud (bte_hci_pin_code_req_reply E hci a pin len cb ud s)"
  unfolding bte_hci_pin_code_req_reply_def
proof (rule issue_fill)
  fix t
  define H where "H = cmd_header 0x0D 0x01 26"
  define f where "f = (\<lambda>i. env_fresh E s (i + 35))"
  have H: "length H = 3" by (simp add: H_def)
  have lt: "len < 16 \<longleftrightarrow> unat len < 16" by (simp add: word_less_nat_alt)
  have d: "data (cmd_buffer E s 0x0D 0x01 26) = H @ map f [0..<23]"
    by (simp add: cmd_buffer_data H_def f_def)
  have 1: "wr (H @ map f [0..<23]) 3 a = Some ((H @ a) @ map f [6..<23])"
    using wr_junk [of H 3 a 23 0 f] H assms(2) by simp
  have 2: "wr ((H @ a) @ map f [6..<23]) 9 [len] = Some ((H @ a @ [len]) @ map f [7..<23])"
    using wr_junk [of "H @ a" 9 "[len]" 23 6 f] H assms(2) by simp
  have 3: "wr ((H @ a @ [len]) @ map f [7..<23]) 10 (take (unat len) pin) =
      Some ((H @ a @ [len] @ take (unat len) pin) @ map f [7 + unat len..<23])"
    using wr_junk [of "H @ a @ [len]" 10 "take (unat len) pin" 23 7 f] H assms(2-4) by simp
  have 4: "wr ((H @ a @ [len] @ take (unat len) pin) @ map f [7 + unat len..<23]) (10 + unat len) [0] =
      Some (H @ a @ [len] @ take (unat len) pin @ 0 # map f [unat len + 8..<23])" if "len < 16"
    using wr_junk [of "H @ a @ [len] @ take (unat len) pin" "10 + unat len" "[0]" 23 "7 + unat len" f] H assms(2-4) that
    by (simp add: lt add.commute)
  show "(do { d \<leftarrow> memcpy_to (data (cmd_buffer E s 0x0D 0x01 26)) 3 a 6;
            d \<leftarrow> wr d (3 + 6) [len];
            d \<leftarrow> memcpy_to d (3 + 7) pin (unat len);
            d \<leftarrow> (if len < 16 then wr d (3 + 7 + unat len) [0] else Some d);
            send_filled E (cmd_buffer E s 0x0D 0x01 26) d t }) =
     send_filled E (cmd_buffer E s 0x0D 0x01 26) (cmd_header 0x0D 0x01 26 @ a @ [len] @ take (unat len) pin @
       (if len < 16 then 0 # map f [unat len + 8..<23] else [])) t" 
    using assms(2-4) 1 2 3 4
    by (simp add: memcpy_to_def slice_def d H_def [symmetric] lt)
qed (use assms in \<open>simp_all add: word_less_nat_alt\<close>)

lemma event_filter_packet:
  assumes "dev_ok s" and "length filter_data = unat (event_filter_cond_len ft ct)"
  shows "completes E s 0x05 0x03 (if ft = 0 then [ft] else [ft, ct] @ filter_data) hci Command_complete_cb cb ud
       (bte_hci_set_event_filter E hci ft ct filter_data cb ud s)"
  unfolding bte_hci_set_event_filter_def Let_def
  using assms(2)
  by (intro issue_fill) (auto simp: assms(1) event_filter_cond_len_def fill_simps)

lemma iac_lap_packet:
  assumes "dev_ok s" and "unat n \<le> 83" and "length laps = unat n"
  shows "completes E s 0x3A 0x03 ([n] @ concat (map lap_bytes laps)) hci Command_complete_cb cb ud
       (bte_hci_write_current_iac_lap E hci n laps cb ud s)"
  unfolding bte_hci_write_current_iac_lap_def
proof (rule issue_fill)
  have "unat (3 * n) = 3 * unat n"
    using unat_mult_lem [of 3 n] assms(2) by simp
  then have len: "unat (4 + 3 * n) = 4 + 3 * unat n"
    using unat_add_lem [of 4 "3 * n"] assms(2) by simp
  have "sum_list (map (length \<circ> lap_bytes) laps) = 3 * length laps" by (induction laps) simp_all
  then show "unat (4 + 3 * n) = 3 + length ([n] @ concat (map lap_bytes laps))"
    by (simp add: len assms(3) length_concat)
  fix t
  let ?b = "cmd_buffer E s 0x3A 0x03 (4 + 3 * n)" and ?H = "cmd_header 0x3A 0x03 (4 + 3 * n)"
  let ?J = "map (\<lambda>i. env_fresh E s (i + 35)) [1..<1 + 3 * unat n]"
  have "wr (data ?b) 3 [n] = Some ((?H @ [n]) @ ?J)"
    using wr_junk [of ?H 3 "[n]" "1 + 3 * unat n" 0 "\<lambda>i. env_fresh E s (i + 35)"]
    by (simp add: cmd_buffer_data len del: upt_Suc)
  moreover have "write_laps_loop [0..<unat n] laps ((?H @ [n]) @ ?J) = Some (?H @ [n] @ concat (map lap_bytes laps))"
    using write_laps_loop_spec [of 0 "unat n" laps "?H @ [n]" ?J] assms(3) by simp
  ultimately show "(do { d \<leftarrow> wr (data ?b) 3 [n]; d \<leftarrow> write_laps_loop [0..<unat n] laps d; send_filled E ?b d t }) =
     send_filled E ?b (?H @ [n] @ concat (map lap_bytes laps)) t" by simp
qed (rule assms(1))

lemma stored_keys_packet:
  assumes "dev_ok s" and "length keys \<le> 11"
    and "list_all (\<lambda>k. length (sk_address k) = 6 \<and> length (sk_key k) = 16) keys"
  shows "completes E s 0x11 0x03 ([of_nat (length keys)] @ concat (map sk_address keys) @ concat (map sk_key keys))
       hci Write_stored_link_key_cb cb ud
       (bte_hci_write_stored_link_key E hci (int (length keys)) keys cb ud s)"
  unfolding bte_hci_write_stored_link_key_def
proof (rule issue_fill)
  let ?n = "length keys" and ?len = "word_of_int (3 + 1 + int (length keys) * 22) :: byte"
  let ?out = "[of_nat ?n] @ concat (map sk_address keys) @ concat (map sk_key keys) :: mem"
  have "?len = of_nat (4 + 22 * ?n)" by (simp add: mult.commute)
  moreover have "4 + 22 * ?n < 2 ^ LENGTH(8)" using assms(2) by simp
  ultimately have len: "unat ?len = 4 + 22 * ?n" by (metis of_nat_inverse)
  have "sum_list (map (length \<circ> sk_address) keys) = 6 * ?n" "sum_list (map (length \<circ> sk_key) keys) = 16 * ?n"
    using assms(3) by (induction keys) simp_all
  then show "unat ?len = 3 + length ?out" by (simp add: len [simplified] length_concat)
  fix t
  let ?b = "cmd_buffer E s 0x11 0x03 ?len" and ?H = "cmd_header 0x11 0x03 ?len"
  let ?f = "\<lambda>i. env_fresh E s (i + 35)"
  let ?Y = "map ?f [1..<1 + 6 * ?n]" and ?V = "map ?f [1 + 6 * ?n..<1 + 22 * ?n]"
  have "map ?f [1..<1 + 22 * ?n] = ?Y @ ?V"
    using upt_add_eq_append [of 1 "1 + 6 * ?n" "16 * ?n"] by (simp flip: map_append)
  then have "wr (data ?b) 3 [of_nat ?n] = Some ((?H @ [of_nat ?n]) @ ?Y @ [] @ ?V)"
    using wr_junk [of ?H 3 "[of_nat ?n]" "1 + 22 * ?n" 0 ?f]
    by (simp add: cmd_buffer_data len [simplified])
  moreover have "write_keys_loop ?n [0..<?n] keys ((?H @ [of_nat ?n]) @ ?Y @ [] @ ?V) = Some (?H @ ?out)"
    using write_keys_loop_spec [of 0 ?n keys "?H @ [of_nat ?n]" ?Y "[]" ?V ?n] assms(3) by (simp del: upt_Suc)
  ultimately show "(do { d \<leftarrow> wr (data ?b) 3 [word_of_int (int ?n)];
        d \<leftarrow> write_keys_loop (nat (int ?n)) [0..<nat (int ?n)] keys d; send_filled E ?b d t }) =
     send_filled E ?b (?H @ ?out) t" by simp
qed (rule assms(1))

lemma stored_key_access_packets:
  assumes "dev_ok s" and "length a = 6"
  shows "completes E s 0x0D 0x03 (a @ [0]) hci Read_stored_link_key_cb cb ud
       (bte_hci_read_stored_link_key E hci (Some a) cb ud s)"
    "completes E s 0x12 0x03 (a @ [0]) hci Delete_stored_link_key_cb cb ud
       (bte_hci_delete_stored_link_key E hci (Some a) cb ud s)"
    "completes E s 0x0D 0x03 (map (\<lambda>i. env_fresh E s (i + 35)) [0..<6] @ [1]) hci Read_stored_link_key_cb cb ud
       (bte_hci_read_stored_link_key E hci None cb ud s)"
    "completes E s 0x12 0x03 (map (\<lambda>i. env_fresh E s (i + 35)) [0..<6] @ [1]) hci Delete_stored_link_key_cb cb ud
       (bte_hci_delete_stored_link_key E hci None cb ud s)"
  using assms unfolding bte_hci_read_stored_link_key_def bte_hci_delete_stored_link_key_def dev_ok_def
  by - (rule issue_fill_state(1); (simp add: assms async_simps bte_hci_dev_install_event_handler_def
        bte_hci_dev_handler_for_event_def get_handler_def bte_hci_dev_stored_keys_cleanup_def take_map)?;
      (rule exI, rule conjI [rotated], rule refl, simp add: frame_def)?)+

text \<open>
  Commands with data of variable length: names, PIN codes, event filters, stored link keys and
  inquiry access codes, for as many elements as a packet holds. A name is cut at 248 bytes or
  padded with zeros; the keys travel as all addresses followed by all keys.
\<close>

theorem hci_variable_commands_correct:
  assumes "dev_ok s" and "length a = 6"
    and "0 \<in> set name \<or> 248 \<le> length name"
    and "unat len \<le> 16" and "unat len \<le> length pin"
    and "length filter_data = unat (event_filter_cond_len ft ct)"
    and "unat n \<le> 83" and "length laps = unat n"
    and "length keys \<le> 11"
    and "list_all (\<lambda>k. length (sk_address k) = 6 \<and> length (sk_key k) = 16) keys"
  shows "completes E s 0x13 0x03 (take 248 (takeWhile (\<lambda>x. x \<noteq> 0) name) @
         replicate (248 - length (takeWhile (\<lambda>x. x \<noteq> 0) name)) 0) hci Command_complete_cb cb ud
       (bte_hci_write_local_name E hci name cb ud s) \<and>
     completes E s 0x0D 0x01 (a @ [len] @ take (unat len) pin @
         (if len < 16 then 0 # map (\<lambda>i. env_fresh E s (i + 35)) [unat len + 8..<23] else []))
       hci Link_key_req_reply_cb cb ud (bte_hci_pin_code_req_reply E hci a pin len cb ud s) \<and>
     completes E s 0x05 0x03 (if ft = 0 then [ft] else [ft, ct] @ filter_data) hci Command_complete_cb cb ud
       (bte_hci_set_event_filter E hci ft ct filter_data cb ud s) \<and>
     completes E s 0x3A 0x03 ([n] @ concat (map lap_bytes laps)) hci Command_complete_cb cb ud
       (bte_hci_write_current_iac_lap E hci n laps cb ud s) \<and>
     completes E s 0x11 0x03 ([of_nat (length keys)] @ concat (map sk_address keys) @ concat (map sk_key keys))
       hci Write_stored_link_key_cb cb ud
       (bte_hci_write_stored_link_key E hci (int (length keys)) keys cb ud s) \<and>
     completes E s 0x0D 0x03 (a @ [0]) hci Read_stored_link_key_cb cb ud
       (bte_hci_read_stored_link_key E hci (Some a) cb ud s) \<and>
     completes E s 0x12 0x03 (a @ [0]) hci Delete_stored_link_key_cb cb ud
       (bte_hci_delete_stored_link_key E hci (Some a) cb ud s)"
  by (intro conjI local_name_packet pin_code_packet event_filter_packet iac_lap_packet stored_keys_packet
      stored_key_access_packets assms)

text \<open>The writes succeed in a buffer that is long enough, and a packet shorter than its header is not created.\<close>

lemma write_keys_loop_runs:
  assumes "4 + 22 * m \<le> length d" "k \<le> m" "length keys = m" "list_all (\<lambda>k. length (sk_address k) = 6 \<and> length (sk_key k) = 16) keys"
  shows "\<exists>d'. write_keys_loop m [k..<m] keys d = Some d'"
  using assms
proof (induction "m - k" arbitrary: k d)
  case (Suc n)
  have u: "[k..<m] = k # [Suc k..<m]" "k < length keys" using Suc.hyps(2) Suc.prems by (simp_all add: upt_conv_Cons)
  then have key: "length (sk_address (keys ! k)) = 6" "length (sk_key (keys ! k)) = 16"
    using Suc.prems(4) by (simp_all add: list_all_length)
  obtain d1 where d1: "memcpy_to d (4 + k * 6) (sk_address (keys ! k)) 6 = Some d1" "length d1 = length d"
    using Suc.prems(1,3) u(2) key by (simp add: memcpy_to_def slice_def wr_def)
  obtain d2 where d2: "memcpy_to d1 (4 + m * 6 + k * 16) (sk_key (keys ! k)) 16 = Some d2" "length d2 = length d"
    using Suc.prems(1,3) u(2) key d1(2) by (simp add: memcpy_to_def slice_def wr_def)
  have "\<exists>d'. write_keys_loop m [Suc k..<m] keys d2 = Some d'"
    by (rule Suc.hyps(1)) (use Suc.hyps(2) Suc.prems d2(2) u in simp_all)
  then show ?case using d1(1) d2(1) u by simp
qed simp

lemma command_too_short: "unat len < 3 \<Longrightarrow> hci_command_alloc E ocf ogf len s = None"
  using alloc_contiguous_ok [of "ucast len" "env_fresh E s"]
  by (auto simp: hci_command_alloc_def write_le16_def wr_def sizeof_BteBuffer_def)

text \<open>
  C28: more keys than a packet holds. The length of the packet for \<^verbatim>\<open>bte_hci_write_stored_link_key\<close> is
  computed modulo 256, so that with any number of keys from 12 on the packet is too short and the keys are written beyond it,
  or even its header when the length is less than 3; in a buffer of the length that was meant the same writes succeed.
\<close>

theorem hci_write_stored_link_key_overflow:
  assumes "dev_ok s" and "alloc_slot (cmd_rules HCI_COMMAND_COMPLETE (build_opcode 0x11 0x03)) (table s) = Some i"
    and "12 \<le> length keys" and "list_all (\<lambda>k. length (sk_address k) = 6 \<and> length (sk_key k) = 16) keys"
    and len: "len = word_of_int (3 + 1 + int (length keys) * 22)"
  shows "unat (len :: byte) < 4 + 22 * length keys \<and>
    bte_hci_write_stored_link_key E hci (int (length keys)) keys cb ud s = None \<and>
    (\<forall>d. 4 + 22 * length keys \<le> length d \<longrightarrow> (\<exists>d'. write_keys_loop (length keys) [0..<length keys] keys d = Some d'))"
proof (intro conjI allI impI)
  let ?n = "length keys"
  have "unat len < 256" using unsigned_less [of len, where ?'a = nat] by simp
  then show short: "unat len < 4 + 22 * ?n" using assms(3) by simp
  show "\<exists>d'. write_keys_loop ?n [0..<?n] keys d = Some d'" if "4 + 22 * ?n \<le> length d" for d
    by (rule write_keys_loop_runs [OF that _ refl assms(4)]) simp
  show "bte_hci_write_stored_link_key E hci (int ?n) keys cb ud s = None"
  proof (cases "unat len < 3")
    case True
    then show ?thesis
      unfolding bte_hci_write_stored_link_key_def bte_hci_dev_add_pending_command_def bte_hci_dev_add_command_def len [symmetric]
      by (simp add: command_too_short)
  next
    case False
    then have len3: "3 \<le> unat len" by simp
    from add_command_spec [OF assms(1) this base_client_cb.simps(1) refl,
      where E = E and hci = hci and ocf = 17 and ogf = 3 and ev = HCI_COMMAND_COMPLETE and ud = ud]
    obtain m where add: "bte_hci_dev_add_pending_command E hci 0x11 0x03 len Write_stored_link_key_cb cb ud s =
       Some (Some (cmd_buffer E s 0x11 0x03 len), set_slot i (pending_entry m hci (Cmd_complete Write_stored_link_key_cb cb) ud) s)"
      unfolding bte_hci_dev_add_pending_command_def assms(2) option.case by blast
    have "write_keys_loop ?n [0..<?n] keys d = None" if "length d = unat len" for d
      by (rule write_keys_loop_fault) (use that assms(3) short in linarith)+
    moreover have "length d = unat len" if "wr (data (cmd_buffer E s 0x11 0x03 len)) 3 bs = Some d" for bs d
      using wr_len [OF that] len3 by (simp add: cmd_buffer_data)
    ultimately show ?thesis
      unfolding bte_hci_write_stored_link_key_def len [symmetric] add
      by (cases "wr (data (cmd_buffer E s 0x11 0x03 len)) 3 [word_of_int (int ?n)]")
        (simp_all add: when_buffer_def)
  qed
qed

text \<open>A device without pending commands, and one client.\<close>

definition demo_client_dev :: bte_hci_dev where
  "demo_client_dev = zero_dev\<lparr>client_heap := [1 \<mapsto> zero_client], clients := [Some 1, None, None, None]\<rparr>"

lemma demo_client_dev_ok: "dev_ok demo_client_dev" and demo_client_dev_table: "table demo_client_dev = replicate 8 None"
  and demo_client_dev_wire: "command_wire demo_client_dev = []"
  using zero_dev_ok zero_dev_table by (simp_all add: demo_client_dev_def dev_ok_def table_def zero_dev_def)

lemma demo_client: "client_heap demo_client_dev 1 = Some zero_client"
    "length (tmp_bytes (last_async_cmd_data zero_client)) = 8"
  by (simp_all add: demo_client_dev_def zero_client_def)

lemma issues_demo:
  assumes "issues E demo_client_dev ev ocf ogf params hci cb ud r" and "cmd_packet ocf ogf params = pkt"
  shows "\<exists>s'. r = Some s' \<and> command_wire s' = [pkt]"
  using assms alloc_slot_empty [of _ 7]
  by (auto simp: issues_def demo_client_dev_table demo_client_dev_wire)

lemma le_bytes_2: "le_bytes 2 (x :: u16) = [ucast x, ucast (drop_bit 8 x)]"
  by (simp add: numeral_2_eq_2)

lemmas demo_packet = cmd_packet_def build_opcode_def le_bytes_2

theorem hci_connection_commands_correct_witness:
  "\<exists>s'. bte_hci_create_connection demo_env (Some 1) [1, 2, 3, 4, 5, 6]
      \<lparr>cp_packet_type = 0x18, cp_clock_offset = 0xffff, cp_page_scan_rep_mode = 1, cp_allow_role_switch = True\<rparr>
      None None 0 demo_client_dev = Some s' \<and>
    command_wire s' = [[5, 4, 13, 1, 2, 3, 4, 5, 6, 0x18, 0, 1, 0, 0, 0, 1]]"
  by (rule issues_demo, rule hci_connection_commands_correct [OF demo_client_dev_ok _ _ demo_client,
      where key = "replicate 16 0", THEN conjunct1]) (simp_all add: demo_packet)

theorem hci_remote_device_commands_correct_witness:
  "\<exists>s'. bte_hci_inquiry demo_env (Some 1) 0x9E8B33 4 0 None None 0 demo_client_dev = Some s' \<and>
    command_wire s' = [[1, 4, 5, 0x33, 0x8B, 0x9E, 4, 0]]"
  by (rule issues_demo, rule hci_remote_device_commands_correct [OF demo_client_dev_ok _ demo_client,
      where a = "replicate 6 0", THEN conjunct1]) (simp_all add: demo_packet lap_bytes_def)

theorem hci_policy_and_info_commands_correct_witness:
  "\<exists>s'. bte_hci_set_sniff_mode demo_env (Some 1) 0x102 10 20 3 4 None 0 demo_client_dev = Some s' \<and>
    command_wire s' = [[3, 8, 10, 2, 1, 20, 0, 10, 0, 3, 0, 4, 0]]"
  by (rule issues_demo, rule hci_policy_and_info_commands_correct [OF demo_client_dev_ok,
      where len = 0 and vdata = "[]", THEN conjunct1]) (simp_all add: demo_packet)

theorem hci_baseband_commands_correct_witness:
  "\<exists>s'. bte_hci_write_scan_enable demo_env (Some 1) 2 None 0 demo_client_dev = Some s' \<and>
    command_wire s' = [[0x1A, 0x0C, 1, 2]]"
  by (rule issues_demo, rule hci_baseband_commands_correct [OF demo_client_dev_ok _ demo_client(1),
      where cod = "[0, 0, 0]" and mode = 2, THEN conjunct2, THEN conjunct2, THEN conjunct2, THEN conjunct2,
      THEN conjunct2, THEN conjunct2, THEN conjunct2, THEN conjunct2, THEN conjunct1])
    (simp_all add: demo_packet bte_hci_dev_combined_scan_mode_def demo_client_dev_def)

theorem hci_timing_commands_correct_witness:
  "\<exists>s'. bte_hci_read_auto_flush_timeout demo_env (Some 1) 0x102 None 0 demo_client_dev = Some s' \<and>
    command_wire s' = [[0x27, 0x0C, 2, 2, 1]]"
  by (rule issues_demo, rule hci_timing_commands_correct [OF demo_client_dev_ok, THEN conjunct1])
    (simp_all add: demo_packet)

theorem hci_variable_commands_correct_witness:
  "\<exists>s'. bte_hci_write_stored_link_key demo_env (Some 1) 1
       [\<lparr>sk_address = [1, 2, 3, 4, 5, 6], sk_key = [7, 8, 9, 10, 11, 12, 13, 14, 15, 16, 17, 18, 19, 20, 21, 22]\<rparr>]
       None 0 demo_client_dev = Some s' \<and>
    command_wire s' = [[0x11, 0x0C, 23, 1, 1, 2, 3, 4, 5, 6, 7, 8, 9, 10, 11, 12, 13, 14, 15, 16, 17, 18, 19, 20, 21, 22]]"
proof -
  let ?keys = "[\<lparr>sk_address = [1, 2, 3, 4, 5, 6], sk_key = [7, 8, 9, 10, 11, 12, 13, 14, 15, 16, 17, 18, 19, 20, 21, 22]\<rparr>]
    :: stored_link_key list"
  have "\<exists>s'. bte_hci_write_stored_link_key demo_env (Some 1) (int (length ?keys)) ?keys None 0 demo_client_dev = Some s' \<and>
    command_wire s' = [[0x11, 0x0C, 23, 1, 1, 2, 3, 4, 5, 6, 7, 8, 9, 10, 11, 12, 13, 14, 15, 16, 17, 18, 19, 20, 21, 22]]"
    by (rule issues_demo, rule hci_variable_commands_correct [OF demo_client_dev_ok,
      where a = "replicate 6 0" and name = "[0]" and len = 0 and pin = "[]" and ft = 0 and ct = 0
        and filter_data = "[]" and n = 0 and laps = "[]",
      THEN conjunct2, THEN conjunct2, THEN conjunct2, THEN conjunct2, THEN conjunct1])
      (simp_all add: demo_packet event_filter_cond_len_def)
  then show ?thesis by simp
qed

theorem hci_write_stored_link_key_overflow_witness:
  "bte_hci_write_stored_link_key demo_env None 12 (replicate 12 \<lparr>sk_address = replicate 6 1, sk_key = replicate 16 2\<rparr>) None 0 zero_dev = None"
  using hci_write_stored_link_key_overflow [OF zero_dev_ok, of 0 "replicate 12 \<lparr>sk_address = replicate 6 1, sk_key = replicate 16 2\<rparr>", OF _ _ _ refl,
      where E = demo_env and hci = None and cb = None and ud = 0]
    alloc_slot_empty [of _ 7] by (simp add: zero_dev_table list_all_iff)

end
