(* ===== verification/HciInvariant.thy ===== *)
theory HciInvariant
  imports HciCommands
begin

text \<open>
  The invariant of the HCI layer over every reachable state. Requests of clients, listeners, the
  callbacks of \<^verbatim>\<open>hci.c\<close> that handle replies, status and other events, and the functions of
  \<^verbatim>\<open>hci_dev.c\<close> keep the device consistent. What is required of client callbacks is a locale:
  they may change the device in any way that keeps it consistent and frees no pending entry; a
  client that answers every callback with requests of its own meets it.
\<close>

section \<open>Changes of the table of pending commands\<close>

text \<open>\<open>live s i\<close>: slot \<open>i\<close> is in use. \<open>keeps s s'\<close>: \<open>s'\<close> is consistent and has the slots of \<open>s\<close> in use.\<close>

definition live :: "'a dev \<Rightarrow> nat \<Rightarrow> bool" where
  "live s i \<longleftrightarrow> i < length (pending_commands s) \<and> busy (pending_commands s ! i)"

definition keeps :: "'a dev \<Rightarrow> 'a dev \<Rightarrow> bool" where
  "keeps s s' \<longleftrightarrow> dev_ok s' \<and> (\<forall>i. live s i \<longrightarrow> live s' i)"

lemma keepsD: "keeps s s' \<Longrightarrow> dev_ok s'" "keeps s s' \<Longrightarrow> live s i \<Longrightarrow> live s' i"
  by (simp_all add: keeps_def)

lemma keeps_refl: "dev_ok s \<Longrightarrow> keeps s s"
  by (simp add: keeps_def)

lemma keeps_trans: "keeps s t \<Longrightarrow> keeps t u \<Longrightarrow> keeps s u"
  by (simp add: keeps_def)

text \<open>What is required of client callbacks.\<close>

definition client_contract :: "'a env \<Rightarrow> bool" where
  "client_contract E \<longleftrightarrow>
     (\<forall>c s b s'. dev_ok s \<longrightarrow> env_client E c s = Some (b, s') \<longrightarrow> keeps s s')"

text \<open>\<open>quiet\<close>: the table and the sizes of the arrays are as before.\<close>

definition quiet :: "'a dev \<Rightarrow> 'a dev \<Rightarrow> bool" where
  "quiet s s' \<longleftrightarrow> pending_commands s' = pending_commands s \<and> num_pending_commands s' = num_pending_commands s \<and>
     length (clients s') = length (clients s) \<and> length (event_handlers s') = length (event_handlers s)"

lemma quiet_keeps: "quiet s s' \<Longrightarrow> dev_ok s \<Longrightarrow> keeps s s'"
  by (simp add: keeps_def quiet_def dev_ok_def live_def)

lemma quiet_refl [simp]: "quiet s s"
  by (simp add: quiet_def)

lemma quiet_trans: "quiet s t \<Longrightarrow> quiet t u \<Longrightarrow> quiet s u"
  by (simp add: quiet_def)

lemma quiet_ops:
  "put_client s hci c = Some s' \<Longrightarrow> quiet s s'"
  "put_tmp s hci t = Some s' \<Longrightarrow> quiet s s'"
  "set_tmp_address s hci a cb = Some s' \<Longrightarrow> quiet s s'"
  "bte_hci_dev_install_event_handler ev h s = Some s' \<Longrightarrow> quiet s s'"
  "send E b s = Some s' \<Longrightarrow> quiet s s'"
  "send_filled E b' d s = Some s' \<Longrightarrow> quiet s s'"
  "bte_hci_dev_on_completed_packets E n s = Some s' \<Longrightarrow> quiet s s'"
  by (auto simp: put_client_def put_tmp_def set_tmp_address_def bte_hci_dev_install_event_handler_def
      send_def send_filled_def bte_hci_send_command_def bte_hci_dev_on_completed_packets_def
      bte_hci_send_queued_data_def quiet_def bind_eq_Some_conv Let_def
      split: option.splits)

lemma quiet_cleanup [simp]:
  "quiet s (bte_hci_dev_inquiry_cleanup s)" "quiet s (bte_hci_dev_stored_keys_cleanup s)"
  by (simp_all add: bte_hci_dev_inquiry_cleanup_def bte_hci_dev_stored_keys_cleanup_def quiet_def)

section \<open>Slots\<close>

definition good_matcher :: "data_matcher \<Rightarrow> bool" where
  "good_matcher m \<longleftrightarrow> (\<exists>rs. represents m rs \<and> rs \<noteq> [])"

lemma add_rule_good:
  assumes "bte_data_matcher_add_rule m d len off = Some (b, m')" and "good_matcher m" and "unat len \<le> length d"
  shows "good_matcher m'"
  using assms bte_matcher.add_law [of m _ len d off]
  by (fastforce simp: good_matcher_def split: if_splits)

lemma add_first_rule_good:
  assumes "bte_data_matcher_add_rule (stack_matcher E s) [ev] 1 0 = Some (b, m')"
  shows "good_matcher m'"
  using assms add_rule_fits [OF stack_matcher_empty, of 1 "[ev]" E s 0]
  by (fastforce simp: good_matcher_def BTE_DATA_MATCHER_MAX_LEN_def)

lemma alloc_keeps:
  assumes "bte_hci_dev_alloc_command m s = Some (r, s')" and "dev_ok s" and "good_matcher m"
  shows "keeps s s'" and "r = Some i \<Longrightarrow> live s' i" and "r = Some i \<Longrightarrow> \<not> live s i"
proof -
  obtain rs where rs: "represents m rs" "rs \<noteq> []" using assms(3) by (auto simp: good_matcher_def)
  note al = alloc_spec [OF assms(2) rs]
  have "keeps s s' \<and> (\<forall>i. r = Some i \<longrightarrow> live s' i \<and> \<not> live s i)"
  proof (cases "alloc_slot rs (table s)")
    case None
    then show ?thesis using al assms by (simp add: keeps_refl)
  next
    case (Some k)
    let ?pc = "(pending_commands s ! k)\<lparr>pc_matcher := m\<rparr>"
    have k: "k < length (table s)" "table s ! k = None" using alloc_slot_Some [OF Some] by blast+
    have "represents (pc_matcher ?pc) rs" using rs by simp
    note set = set_slot_spec [OF assms(2) this rs(2) k]
    have "busy ?pc" using rs by (simp add: busy_def bte_matcher.empty_law)
    then show ?thesis using al assms(1) Some set k
      by (auto simp: keeps_def live_def set_slot_def nth_list_update split: if_splits)
  qed
  then show "keeps s s'" and "r = Some i \<Longrightarrow> live s' i" and "r = Some i \<Longrightarrow> \<not> live s i" by blast+
qed

lemma free_ok:
  assumes "bte_hci_dev_free_command i s = Some s'" and "dev_ok s" and "live s i"
  shows "dev_ok s'" and "live s j \<Longrightarrow> j \<noteq> i \<Longrightarrow> live s' j"
proof -
  have "i < 8" "table s ! i \<noteq> None" using assms(2,3) by (simp_all add: live_def dev_ok_def)
  from free_spec [OF assms(2) this] assms(1) show "dev_ok s'" by auto
  show "live s' j" if "live s j" "j \<noteq> i"
    using assms that by (auto simp: bte_hci_dev_free_command_def get_pc_def put_pc_def live_def split: if_splits)
qed

lemma find_pending_live:
  assumes "bte_hci_dev_find_pending_command buf s = Some (Some i)"
  shows "live s i"
proof -
  have "find_pending_loop pcs k d n = Some (Some i) \<Longrightarrow> k \<le> i \<and> i - k < length pcs \<and> busy (pcs ! (i - k))" for pcs k d n
  proof (induction pcs arbitrary: k)
    case (Cons pc pcs)
    show ?case
    proof (cases "i = k")
      case True
      with Cons show ?thesis by (fastforce simp: busy_def bind_eq_Some_conv split: if_splits)
    next
      case False
      with Cons.prems have "find_pending_loop pcs (Suc k) d n = Some (Some i)"
        by (auto simp: bind_eq_Some_conv split: if_splits)
      from Cons.IH [OF this] show ?thesis by (auto simp: nth_Cons')
    qed
  qed simp
  from this [of "pending_commands s" 0] assms show ?thesis
    by (simp add: live_def bte_hci_dev_find_pending_command_def bte_hci_dev_find_pending_command_raw_def)
qed

lemma get_pending_live:
  assumes "bte_hci_dev_get_pending_command m s = Some (Some i)" and "dev_ok s" and "good_matcher m"
  shows "live s i"
proof -
  obtain rs where rs: "represents m rs" "rs \<noteq> []" using assms(3) by (auto simp: good_matcher_def)
  have "list_all pc_ok pcs \<Longrightarrow> get_pending_loop m pcs k = Some (Some i) \<Longrightarrow>
      k \<le> i \<and> i - k < length pcs \<and> busy (pcs ! (i - k))" for pcs k
  proof (induction pcs arbitrary: k)
    case (Cons pc pcs)
    then have same: "bte_data_matcher_is_same m (pc_matcher pc) = Some (rs = pc_rules pc)"
      using rs(1) by (simp add: pc_ok_def bte_matcher.same_law)
    show ?case
    proof (cases "rs = pc_rules pc")
      case True
      with Cons same rs(2) show ?thesis by (auto simp: busy_rules)
    next
      case False
      with Cons same have "Suc k \<le> i \<and> i - Suc k < length pcs \<and> busy (pcs ! (i - Suc k))" by simp
      then show ?thesis by (auto simp: nth_Cons')
    qed
  qed simp
  from this [of "pending_commands s" 0] assms show ?thesis
    by (simp add: live_def dev_ok_def bte_hci_dev_get_pending_command_def)
qed


lemma put_pc_keeps:
  assumes "put_pc s i p = Some s'" and "get_pc s i = Some q" and "pc_matcher p = pc_matcher q" and "dev_ok s"
  shows "keeps s s'"
proof -
  let ?pcs = "pending_commands s"
  have q: "i < length ?pcs" "q = ?pcs ! i" and s': "s' = s\<lparr>pending_commands := ?pcs[i := p]\<rparr>"
    using assms(1,2) by (auto simp: put_pc_def get_pc_def split: if_splits)
  have eq: "busy p = busy q" "pc_ok p = pc_ok q"
    using assms(3) by (simp_all add: busy_def pc_ok_def pc_rules_def)
  then have "map busy (?pcs[i := p]) = map busy ?pcs"
    using q by (simp add: map_update list_update_same_conv)
  then have "length (filter busy (?pcs[i := p])) = length (filter busy ?pcs)"
    by (metis filter_map length_map o_id id_o)
  moreover have "pc_ok q" using dev_ok_pc [OF assms(4)] q by simp
  ultimately show ?thesis using assms(4) q eq
    by (auto simp: s' keeps_def dev_ok_def live_def list_all_update nth_list_update)
qed

lemma set_event_entry_keeps:
  assumes "set_event_entry ev hci cb pc s = Some s'" and "dev_ok s"
  shows "keeps s s'"
proof -
  obtain e s1 p e1 where "get_pc s ev = Some e"
      "put_pc s ev (e\<lparr>pc_hci := hci, pc_command_cb := Event_client_cb cb\<rparr>) = Some s1"
      "get_pc s1 pc = Some p" "get_pc s1 ev = Some e1" "put_pc s1 ev (e1\<lparr>pc_userdata := pc_userdata p\<rparr>) = Some s'"
    using assms(1) by (auto simp: set_event_entry_def bind_eq_Some_conv)
  then have "keeps s s1" "dev_ok s1 \<Longrightarrow> keeps s1 s'"
    using put_pc_keeps assms(2) by fastforce+
  then show ?thesis using keepsD keeps_trans by blast
qed

lemma bindE: "m \<bind> f = Some y \<Longrightarrow> (\<And>x. m = Some x \<Longrightarrow> f x = Some y \<Longrightarrow> P) \<Longrightarrow> P"
  by (cases m) simp_all

lemma dispatch_simps [simp]:
  "d_command_cb (hci_dispatch E on_data) = run_command_cb E" "d_status_cb (hci_dispatch E on_data) = run_status_cb E"
  "d_event_handler (hci_dispatch E on_data) = run_event_cb E" "d_data_handler (hci_dispatch E on_data) = on_data"
  by (simp_all add: hci_dispatch_def)

lemma dev_ok_update [simp]:
  "dev_ok (s\<lparr>num_packets := n\<rparr>) = dev_ok s" "dev_ok (s\<lparr>supported_features := x, info_flags := i\<rparr>) = dev_ok s"
  "dev_ok (s\<lparr>num_packets := n, supported_features := x, info_flags := i\<rparr>) = dev_ok s"
  by (simp_all add: dev_ok_def)

section \<open>The requests of a client\<close>

text \<open>The functions of \<^verbatim>\<open>hci.c\<close> that clients call; they use up slots and free none.\<close>

inductive hci_request :: "'a env \<Rightarrow> ('a dev \<Rightarrow> 'a dev option) \<Rightarrow> bool" for E where
  "hci_request E (bte_hci_nop E hci callback userdata)"
| "hci_request E (bte_hci_inquiry E hci lap len max_resp status_cb callback userdata)"
| "hci_request E (bte_hci_inquiry_cancel E hci callback userdata)"
| "hci_request E (bte_hci_periodic_inquiry E hci min_period max_period lap len max_resp status_cb callback userdata)"
| "hci_request E (bte_hci_exit_periodic_inquiry E hci callback userdata)"
| "hci_request E (bte_hci_create_connection E hci address params status_cb callback userdata)"
| "hci_request E (bte_hci_disconnect E hci handle reason callback userdata)"
| "hci_request E (bte_hci_create_connection_cancel E hci address callback userdata)"
| "hci_request E (bte_hci_accept_connection E hci address role status_cb callback userdata)"
| "hci_request E (bte_hci_reject_connection E hci address reason status_cb callback userdata)"
| "hci_request E (bte_hci_link_key_req_reply E hci address key callback userdata)"
| "hci_request E (bte_hci_link_key_req_neg_reply E hci address callback userdata)"
| "hci_request E (bte_hci_pin_code_req_reply E hci address pin len callback userdata)"
| "hci_request E (bte_hci_pin_code_req_neg_reply E hci address callback userdata)"
| "hci_request E (bte_hci_auth_requested E hci conn_handle status_cb callback userdata)"
| "hci_request E (bte_hci_read_remote_name E hci address page_scan_rep_mode clock_offset status_cb callback userdata)"
| "hci_request E (bte_hci_read_remote_features E hci conn_handle status_cb callback userdata)"
| "hci_request E (bte_hci_read_remote_version_info E hci conn_handle status_cb callback userdata)"
| "hci_request E (bte_hci_read_clock_offset E hci conn_handle status_cb callback userdata)"
| "hci_request E (bte_hci_set_sniff_mode E hci conn_handle min_interval max_interval attempt_slots timeout status_cb userdata)"
| "hci_request E (bte_hci_qos_setup E hci conn_handle setup_data status_cb userdata)"
| "hci_request E (bte_hci_read_link_policy_settings E hci conn_handle callback userdata)"
| "hci_request E (bte_hci_write_link_policy_settings E hci conn_handle settings callback userdata)"
| "hci_request E (bte_hci_set_event_mask E hci ev_mask callback userdata)"
| "hci_request E (bte_hci_reset E hci callback userdata)"
| "hci_request E (bte_hci_set_event_filter E hci filter_type cond_type filter_data callback userdata)"
| "hci_request E (bte_hci_read_pin_type E hci callback userdata)"
| "hci_request E (bte_hci_write_pin_type E hci pin_type callback userdata)"
| "hci_request E (bte_hci_read_stored_link_key E hci address callback userdata)"
| "hci_request E (bte_hci_write_stored_link_key E hci num_keys keys callback userdata)"
| "hci_request E (bte_hci_delete_stored_link_key E hci address callback userdata)"
| "hci_request E (bte_hci_write_local_name E hci name callback userdata)"
| "hci_request E (bte_hci_read_local_name E hci callback userdata)"
| "hci_request E (bte_hci_read_page_timeout E hci callback userdata)"
| "hci_request E (bte_hci_write_page_timeout E hci page_timeout callback userdata)"
| "hci_request E (bte_hci_read_scan_enable E hci callback userdata)"
| "hci_request E (bte_hci_write_scan_enable E hci scan_enable callback userdata)"
| "hci_request E (bte_hci_read_auth_enable E hci callback userdata)"
| "hci_request E (bte_hci_write_auth_enable E hci auth_enable callback userdata)"
| "hci_request E (bte_hci_read_class_of_device E hci callback userdata)"
| "hci_request E (bte_hci_write_class_of_device E hci cod callback userdata)"
| "hci_request E (bte_hci_read_auto_flush_timeout E hci conn_handle callback userdata)"
| "hci_request E (bte_hci_write_auto_flush_timeout E hci conn_handle timeout callback userdata)"
| "hci_request E (bte_hci_set_ctrl_to_host_flow_control E hci enable callback userdata)"
| "hci_request E (bte_hci_set_host_buffer_size E hci acl_packet_len acl_packets sync_packet_len sync_packets callback userdata)"
| "hci_request E (bte_hci_read_current_iac_lap E hci callback userdata)"
| "hci_request E (bte_hci_write_current_iac_lap E hci num_laps laps callback userdata)"
| "hci_request E (bte_hci_host_num_comp_packets E hci conn_handle n)"
| "hci_request E (bte_hci_read_link_sv_timeout E hci conn_handle callback userdata)"
| "hci_request E (bte_hci_write_link_sv_timeout E hci conn_handle timeout callback userdata)"
| "hci_request E (bte_hci_read_inquiry_scan_type E hci callback userdata)"
| "hci_request E (bte_hci_write_inquiry_scan_type E hci inquiry_scan_type callback userdata)"
| "hci_request E (bte_hci_read_inquiry_mode E hci callback userdata)"
| "hci_request E (bte_hci_write_inquiry_mode E hci inquiry_mode callback userdata)"
| "hci_request E (bte_hci_read_page_scan_type E hci callback userdata)"
| "hci_request E (bte_hci_write_page_scan_type E hci page_scan_type callback userdata)"
| "hci_request E (bte_hci_read_local_version E hci callback userdata)"
| "hci_request E (bte_hci_read_local_features E hci callback userdata)"
| "hci_request E (bte_hci_read_buffer_size E hci callback userdata)"
| "hci_request E (bte_hci_read_bd_addr E hci callback userdata)"
| "hci_request E (bte_hci_vendor_command E hci ocf vdata len callback userdata)"
| "hci_request E (bte_hci_on_initialized E hci callback userdata)"
| "hci_request E (bte_hci_on_nr_of_completed_packets hci callback)"
| "hci_request E (bte_hci_on_disconnection_complete hci callback)"
| "hci_request E (bte_hci_on_connection_request hci callback)"
| "hci_request E (bte_hci_on_link_key_request hci callback)"
| "hci_request E (bte_hci_on_link_key_notification hci callback)"
| "hci_request E (bte_hci_on_pin_code_request hci callback)"
| "hci_request E (bte_hci_on_vendor_event hci callback)"

section \<open>The contract of client callbacks\<close>

locale hci_clients =
  fixes E :: "'a env"
  assumes client_ok: "client_contract E"
begin

lemma call_keeps:
  "call_client E cb hci arg ud s = Some (r, s') \<Longrightarrow> dev_ok s \<Longrightarrow> keeps s s'"
  "call_client_void E cb hci arg ud s = Some s' \<Longrightarrow> dev_ok s \<Longrightarrow> keeps s s'"
  using client_ok by (fastforce simp: client_contract_def call_client_def call_client_void_def bind_eq_Some_conv)+

lemma add_command_keeps:
  assumes "bte_hci_dev_add_command E hci ocf ogf len ev cb ud s = Some (b, s')" and "dev_ok s"
  shows "keeps s s'"
proof -
  obtain base buffer r1 m1 r2 m2 pc s1 where al: "hci_command_alloc E ocf ogf len s = Some buffer"
    and m1: "bte_data_matcher_add_rule (stack_matcher E s) [ev] 1 0 = Some (r1, m1)"
    and m2: "(if ev = HCI_COMMAND_COMPLETE then bte_data_matcher_add_rule m1 (data buffer) 2 (of_nat HCI_CMD_REPLY_POS_OPCODE)
       else bte_data_matcher_add_rule m1 (data buffer) 2 (of_nat HCI_CMD_STATUS_POS_OPCODE)) = Some (r2, m2)"
    and pc: "bte_hci_dev_alloc_command m2 s = Some (pc, s1)"
    and rest: "(case pc of Some i \<Rightarrow> do {
              pc \<leftarrow> get_pc s1 i;
              s2 \<leftarrow> put_pc s1 i (pc\<lparr>pc_command_cb := cb, pc_hci := hci, pc_userdata := ud\<rparr>);
              Some (Some buffer, s2) }
          | None \<Rightarrow> if base \<noteq> None
              then do { s2 \<leftarrow> call_client_void E base hci (Reply BTE_HCI_MEMORY_FULL) ud s1; Some (None, s2) }
              else Some (None, s1)) = Some (b, s')"
    using assms(1) unfolding bte_hci_dev_add_command_def
    by (clarsimp simp: bind_eq_Some_conv split del: if_split)
  have "2 \<le> length (data buffer)"
    using al by (auto simp: hci_command_alloc_def bind_eq_Some_conv write_le16_def wr_def split: if_splits)
  then have "good_matcher m2"
    using m2 add_rule_good [OF _ add_first_rule_good [OF m1]] by (auto split: if_splits)
  from alloc_keeps(1) [OF pc assms(2) this] have k: "keeps s s1" .
  have "keeps s1 s'"
  proof (cases pc)
    case None
    then show ?thesis using rest keepsD(1) [OF k] call_keeps(2) keeps_refl
      by (auto simp: bind_eq_Some_conv split: if_splits)
  next
    case (Some i)
    then obtain q where "get_pc s1 i = Some q"
        "put_pc s1 i (q\<lparr>pc_command_cb := cb, pc_hci := hci, pc_userdata := ud\<rparr>) = Some s'"
      using rest by (auto simp: bind_eq_Some_conv)
    from put_pc_keeps [OF this(2,1) _ keepsD(1) [OF k]] show ?thesis by simp
  qed
  with k show ?thesis by (rule keeps_trans)
qed

text \<open>A command: the slot, and then only changes that are quiet.\<close>

lemma command_keeps:
  "(do { (b, s1) \<leftarrow> bte_hci_dev_add_pending_command E hci ocf ogf len f cb ud s; K b s1 }) = Some s' \<Longrightarrow>
     (\<And>b s1 s2. K b s1 = Some s2 \<Longrightarrow> quiet s1 s2) \<Longrightarrow> dev_ok s \<Longrightarrow> keeps s s'"
  "(do { (b, s1) \<leftarrow> bte_hci_dev_add_pending_async_command E hci ocf ogf len g cb ud s; K b s1 }) = Some s' \<Longrightarrow>
     (\<And>b s1 s2. K b s1 = Some s2 \<Longrightarrow> quiet s1 s2) \<Longrightarrow> dev_ok s \<Longrightarrow> keeps s s'"
  unfolding bte_hci_dev_add_pending_command_def bte_hci_dev_add_pending_async_command_def bind_eq_Some_conv
  by (clarsimp, metis add_command_keeps quiet_keeps keepsD(1) keeps_trans)+

lemma when_quiet: "(\<And>b s1 s2. F b s1 = Some s2 \<Longrightarrow> quiet s1 s2) \<Longrightarrow> when_buffer b F s1 = Some s2 \<Longrightarrow> quiet s1 s2"
  by (auto simp: when_buffer_def split: option.splits)

lemmas command_defs =
    bte_hci_nop_def bte_hci_inquiry_def bte_hci_inquiry_cancel_def bte_hci_periodic_inquiry_def
    bte_hci_exit_periodic_inquiry_def bte_hci_create_connection_def bte_hci_disconnect_def
    bte_hci_create_connection_cancel_def bte_hci_accept_connection_def bte_hci_reject_connection_def
    bte_hci_link_key_req_reply_def bte_hci_link_key_req_neg_reply_def bte_hci_pin_code_req_reply_def
    bte_hci_pin_code_req_neg_reply_def bte_hci_auth_requested_def bte_hci_read_remote_name_def
    bte_hci_read_remote_features_def bte_hci_read_remote_version_info_def
    bte_hci_read_clock_offset_def bte_hci_set_sniff_mode_def bte_hci_qos_setup_def
    bte_hci_read_link_policy_settings_def bte_hci_write_link_policy_settings_def
    bte_hci_set_event_mask_def bte_hci_reset_def bte_hci_set_event_filter_def
    bte_hci_read_pin_type_def bte_hci_write_pin_type_def bte_hci_read_stored_link_key_def
    bte_hci_write_stored_link_key_def bte_hci_delete_stored_link_key_def
    bte_hci_write_local_name_def bte_hci_read_local_name_def bte_hci_read_page_timeout_def
    bte_hci_write_page_timeout_def bte_hci_read_scan_enable_def bte_hci_write_scan_enable_def
    bte_hci_read_auth_enable_def bte_hci_write_auth_enable_def bte_hci_read_class_of_device_def
    bte_hci_write_class_of_device_def bte_hci_read_auto_flush_timeout_def
    bte_hci_write_auto_flush_timeout_def bte_hci_set_ctrl_to_host_flow_control_def
    bte_hci_set_host_buffer_size_def bte_hci_read_current_iac_lap_def
    bte_hci_write_current_iac_lap_def bte_hci_read_link_sv_timeout_def
    bte_hci_write_link_sv_timeout_def bte_hci_read_inquiry_scan_type_def
    bte_hci_write_inquiry_scan_type_def bte_hci_read_inquiry_mode_def bte_hci_write_inquiry_mode_def
    bte_hci_read_page_scan_type_def bte_hci_write_page_scan_type_def bte_hci_read_local_version_def
    bte_hci_read_local_features_def bte_hci_read_buffer_size_def bte_hci_read_bd_addr_def
    bte_hci_vendor_command_def common_read_connection_def

lemmas listener_defs =
    bte_hci_on_nr_of_completed_packets_def bte_hci_on_disconnection_complete_def
    bte_hci_on_connection_request_def bte_hci_on_link_key_request_def
    bte_hci_on_link_key_notification_def bte_hci_on_pin_code_request_def bte_hci_on_vendor_event_def

lemma on_initialized_keeps:
  assumes "bte_hci_on_initialized E hci callback userdata s = Some s'" and "dev_ok s"
  shows "keeps s s'"
proof -
  obtain t s1 where s1: "put_tmp s hci t = Some s1"
      "(if init_status s1 = BTE_HCI_INIT_STATUS_INITIALIZED \<or> init_status s1 = BTE_HCI_INIT_STATUS_FAILED
        then call_client_void E callback hci (Initialized (init_status s1 = BTE_HCI_INIT_STATUS_INITIALIZED)) userdata s1
        else Some s1) = Some s'"
    using assms(1) by (auto simp: bte_hci_on_initialized_def bind_eq_Some_conv)
  have k: "keeps s s1" using quiet_keeps [OF quiet_ops(2) [OF s1(1)] assms(2)] .
  have "keeps s1 s'" using s1(2) call_keeps(2) keeps_refl keepsD(1) [OF k] by (auto split: if_splits)
  with k show ?thesis by (rule keeps_trans)
qed

lemmas quiet_simps = bind_eq_Some_conv quiet_def bte_hci_dev_inquiry_cleanup_def
  bte_hci_dev_stored_keys_cleanup_def

lemma request_keeps:
  assumes "hci_request E f" and "f s = Some s'" and "dev_ok s"
  shows "keeps s s'"
  using assms
proof (induction rule: hci_request.induct)
qed ((rule on_initialized_keeps; assumption) | (unfold command_defs Let_def)?;
     ((erule command_keeps; (erule when_quiet [rotated])?) | (rule quiet_keeps [rotated], assumption));
     (auto simp: quiet_simps listener_defs bte_hci_host_num_comp_packets_def
        split: if_splits option.splits dest!: quiet_ops))+
text \<open>The callbacks that parse replies.\<close>

lemma quiet_call:
  "call_client_void E cb hci arg ud s1 = Some s' \<Longrightarrow> quiet s s1 \<Longrightarrow> dev_ok s \<Longrightarrow> keeps s s'"
  using call_keeps(2) quiet_keeps keepsD(1) keeps_trans by blast

lemmas reply_defs = link_key_req_reply_cb_def read_link_policy_settings_cb_def read_pin_type_cb_def
  write_stored_link_key_cb_def delete_stored_link_key_cb_def read_local_name_cb_def read_page_timeout_cb_def
  read_scan_enable_cb_def read_auth_enable_cb_def read_class_of_device_cb_def read_auto_flush_timeout_cb_def
  read_current_iac_lap_cb_def read_link_sv_timeout_cb_def read_inquiry_scan_type_cb_def
  read_inquiry_mode_cb_def read_page_scan_type_cb_def read_local_version_cb_def read_local_features_cb_def
  read_buffer_size_cb_def vendor_command_cb_def

lemma complete_keeps:
  assumes "command_complete_cb E hci buf cb ud s1 = Some s'" and "quiet s s1" and "dev_ok s"
  shows "keeps s s'"
  using assms quiet_keeps [OF assms(2,3)]
  by (auto simp: command_complete_cb_def bind_eq_Some_conv split: if_splits intro: quiet_call)

lemma periodic_inquiry_keeps:
  assumes "periodic_inquiry_complete_cb E hci buf cb ud s = Some s'" and "dev_ok s"
  shows "keeps s s'"
proof -
  obtain st s1 where "rd8 (data buf) HCI_CMD_REPLY_POS_STATUS = Some st" and s1: "(if st = 0 then
           do { s \<leftarrow> bte_hci_dev_install_event_handler HCI_INQUIRY_RESULT (Some Inquiry_result_cb) s;
                bte_hci_dev_install_event_handler HCI_INQUIRY_COMPLETE (Some Inquiry_complete_event_cb) s }
         else do { c \<leftarrow> get_client s hci; put_client s hci (c\<lparr>periodic_inquiry_cb := None\<rparr>) }) = Some s1"
      and s': "command_complete_cb E hci buf cb ud s1 = Some s'"
    using assms(1) by (auto simp: periodic_inquiry_complete_cb_def bind_eq_Some_conv)
  have "quiet s s1" using s1 by (auto simp: bind_eq_Some_conv split: if_splits dest!: quiet_ops intro: quiet_trans)
  with s' assms(2) show ?thesis by (blast intro: complete_keeps)
qed

lemma exit_periodic_inquiry_keeps:
  assumes "exit_periodic_inquiry_cb E hci buf cb ud s = Some s'" and "dev_ok s"
  shows "keeps s s'"
  using assms complete_keeps quiet_trans [OF quiet_cleanup(1) quiet_ops(1)]
  by (fastforce simp: exit_periodic_inquiry_cb_def bind_eq_Some_conv Let_def)

lemma read_stored_link_key_keeps:
  assumes "read_stored_link_key_cb E hci buf cb ud s = Some s'" and "dev_ok s"
  shows "keeps s s'"
proof -
  obtain s1 where "keeps s s1" "s' = bte_hci_dev_stored_keys_cleanup s1"
    using assms call_keeps(2) keeps_refl
    by (fastforce simp: read_stored_link_key_cb_def bind_eq_Some_conv split: if_splits)
  then show ?thesis using quiet_keeps [OF quiet_cleanup(2)] keepsD(1) keeps_trans by blast
qed

lemma read_bd_addr_keeps:
  assumes "read_bd_addr_cb E hci buf cb ud s = Some s'" and "dev_ok s"
  shows "keeps s s'"
  using assms
  by (auto simp: read_bd_addr_cb_def bind_eq_Some_conv Let_def quiet_def intro!: quiet_call [OF _ _ assms(2)])

lemma command_cb_keeps:
  assumes "run_command_cb E f hci buf cb ud s = Some s'" and "dev_ok s"
  shows "keeps s s'"
proof (cases f)
  case Periodic_inquiry_complete_cb
  with assms show ?thesis by (simp add: periodic_inquiry_keeps)
next
  case Exit_periodic_inquiry_cb
  with assms show ?thesis by (simp add: exit_periodic_inquiry_keeps)
next
  case Read_stored_link_key_cb
  with assms show ?thesis by (simp add: read_stored_link_key_keeps)
next
  case Read_bd_addr_cb
  with assms show ?thesis by (simp add: read_bd_addr_keeps)
next
  case Command_complete_cb
  with assms show ?thesis by (simp add: complete_keeps [OF _ quiet_refl])
qed (insert assms, auto simp: reply_defs bind_eq_Some_conv split: if_splits
      intro: keeps_refl quiet_call [OF _ quiet_refl])

text \<open>The callbacks of the Command Status event: the entry they are called with is pending.\<close>

lemma install_event_ok:
  assumes "bte_hci_dev_alloc_command m s = Some (r, s1)" and "good_matcher m" and "dev_ok s" and "live s pc"
    and "(case r of None \<Rightarrow> bte_hci_dev_free_command pc s1
       | Some i \<Rightarrow> do { s \<leftarrow> set_event_entry i hci cb pc s1; s \<leftarrow> H s; bte_hci_dev_free_command pc s }) = Some s'"
    and "\<And>s s'. H s = Some s' \<Longrightarrow> quiet s s'"
  shows "dev_ok s'"
proof -
  have k: "keeps s s1" using alloc_keeps(1) [OF assms(1,3,2)] .
  show ?thesis
  proof (cases r)
    case None
    with assms(4,5) k show ?thesis by (auto intro: free_ok(1) dest: keepsD)
  next
    case (Some i)
    then obtain s2 s3 where "set_event_entry i hci cb pc s1 = Some s2" "H s2 = Some s3"
        "bte_hci_dev_free_command pc s3 = Some s'"
      using assms(5) by (auto simp: bind_eq_Some_conv)
    moreover from this have "keeps s1 s2" "keeps s2 s3"
      using set_event_entry_keeps quiet_keeps [OF assms(6)] keepsD(1) k by blast+
    ultimately show ?thesis using k assms(4) free_ok(1) keepsD by blast
  qed
qed

lemma read_connection_status_ok:
  assumes "common_read_connection_status_cb E hci st pc s = Some s'" and "dev_ok s" and "live s pc"
  shows "dev_ok s'"
proof (cases "st = 0")
  case True
  with assms show ?thesis
    by (clarsimp simp: common_read_connection_status_cb_def bind_eq_Some_conv)
       (erule install_event_ok, erule add_rule_good, erule add_first_rule_good; (assumption | erule quiet_ops | simp))
next
  case False
  then obtain s1 where "keeps s s1" "bte_hci_dev_free_command pc s1 = Some s'"
    using assms(1,2) call_keeps(2) keeps_refl
    by (fastforce simp: common_read_connection_status_cb_def bind_eq_Some_conv split: if_splits)
  then show ?thesis using assms(3) by (blast intro: free_ok(1) dest: keepsD)
qed

lemma create_connection_status_ok:
  assumes "create_connection_status_cb E hci st pc s = Some s'" and "dev_ok s" and "live s pc"
  shows "dev_ok s'"
proof (cases "st \<noteq> 0 \<or> hci = None")
  case False
  with assms show ?thesis
    by (clarsimp simp: create_connection_status_cb_def bind_eq_Some_conv tmp_address_def slice_def split: if_splits)
       (erule install_event_ok, erule add_rule_good, erule add_first_rule_good; (assumption | erule quiet_ops | simp))
next
  case True
  with assms show ?thesis by (auto simp: create_connection_status_cb_def intro: free_ok(1))
qed

lemma read_remote_name_status_ok:
  assumes "read_remote_name_status_cb E hci st pc s = Some s'" and "dev_ok s" and "live s pc"
  shows "dev_ok s'"
proof (cases "st = 0")
  case True
  with assms show ?thesis
    by (clarsimp simp: read_remote_name_status_cb_def bind_eq_Some_conv tmp_address_def slice_def split: if_splits)
       (erule install_event_ok, erule add_rule_good, erule add_first_rule_good; (assumption | erule quiet_ops | simp))
next
  case False
  then obtain s1 where "keeps s s1" "bte_hci_dev_free_command pc s1 = Some s'"
    using assms(1,2) call_keeps(2) keeps_refl
    by (fastforce simp: read_remote_name_status_cb_def bind_eq_Some_conv split: if_splits)
  then show ?thesis using assms(3) by (blast intro: free_ok(1) dest: keepsD)
qed

lemma inquiry_status_ok:
  assumes "inquiry_status_cb E hci st pc s = Some s'" and "dev_ok s" and "live s pc"
  shows "dev_ok s'"
proof (cases "st = 0")
  case True
  let ?install = bte_hci_dev_install_event_handler
  obtain b1 m1 r s1 where m1: "bte_data_matcher_add_rule (stack_matcher E s) [HCI_INQUIRY_COMPLETE] 1 0 = Some (b1, m1)"
    and r: "bte_hci_dev_alloc_command m1 s = Some (r, s1)"
    and rest: "(case r of None \<Rightarrow> bte_hci_dev_free_command pc s1
      | Some i \<Rightarrow> do { t \<leftarrow> get_tmp s1 hci; s \<leftarrow> set_event_entry i hci (tmp_client_cb t) pc s1;
           s \<leftarrow> ?install HCI_INQUIRY_RESULT (Some Inquiry_result_cb) s;
           s \<leftarrow> ?install HCI_INQUIRY_COMPLETE (Some Inquiry_complete_event_cb) s;
           bte_hci_dev_free_command pc s }) = Some s'"
    using assms(1) True by (auto simp: inquiry_status_cb_def bind_eq_Some_conv)
  have k: "keeps s s1" using alloc_keeps(1) [OF r assms(2) add_first_rule_good [OF m1]] .
  show ?thesis
  proof (cases r)
    case None
    with rest k assms(3) show ?thesis by (auto intro: free_ok(1) dest: keepsD)
  next
    case (Some i)
    then obtain t s2 s3 s4 where "get_tmp s1 hci = Some t" and e: "set_event_entry i hci (tmp_client_cb t) pc s1 = Some s2"
        "?install HCI_INQUIRY_RESULT (Some Inquiry_result_cb) s2 = Some s3"
        "?install HCI_INQUIRY_COMPLETE (Some Inquiry_complete_event_cb) s3 = Some s4"
        "bte_hci_dev_free_command pc s4 = Some s'"
      using rest by (auto simp: bind_eq_Some_conv)
    have k2: "keeps s1 s2" using set_event_entry_keeps [OF e(1) keepsD(1) [OF k]] .
    have k3: "keeps s2 s4"
      using quiet_keeps [OF quiet_trans [OF quiet_ops(4) [OF e(2)] quiet_ops(4) [OF e(3)]] keepsD(1) [OF k2]] .
    show ?thesis using free_ok(1) [OF e(4)] k k2 k3 assms(3) keepsD by blast
  qed
next
  case False
  with assms show ?thesis by (auto simp: inquiry_status_cb_def intro: free_ok(1))
qed

lemma status_cb_ok:
  assumes "run_status_cb E f hci st pc s = Some s'" and "dev_ok s" and "live s pc"
  shows "dev_ok s'"
  using assms read_connection_status_ok inquiry_status_ok create_connection_status_ok read_remote_name_status_ok
  by (cases f) auto

text \<open>Asking all clients.\<close>

lemma foreach_keeps:
  assumes "\<And>c s r s'. f c s = Some (r, s') \<Longrightarrow> dev_ok s \<Longrightarrow> keeps s s'"
    and "bte_hci_dev_foreach_hci_client f s = Some (r, s')" and "dev_ok s"
  shows "keeps s s'"
proof -
  have "foreach_hci_client_loop f is s = Some (r, s') \<Longrightarrow> dev_ok s \<Longrightarrow> keeps s s'" for "is" s
  proof (induction "is" arbitrary: s)
    case (Cons i "is")
    consider "foreach_hci_client_loop f is s = Some (r, s')"
      | c s1 where "f c s = Some (True, s1)" "s' = s1"
      | c s1 where "f c s = Some (False, s1)" "foreach_hci_client_loop f is s1 = Some (r, s')"
      using Cons.prems(1) by (auto simp: bind_eq_Some_conv split: if_splits option.splits)
    then show ?case
    proof cases
      case (3 c s1)
      with assms(1) Cons have "keeps s s1" by blast
      with 3 Cons.IH show ?thesis using keepsD(1) keeps_trans by blast
    qed (use Cons assms(1) in blast)+
  qed (simp add: keeps_refl)
  with assms(2,3) show ?thesis by (simp add: bte_hci_dev_foreach_hci_client_def)
qed

lemma ask_client_keeps: "ask_client E cb_of arg hci s = Some (r, s') \<Longrightarrow> dev_ok s \<Longrightarrow> keeps s s'"
  using call_keeps(1) keeps_refl by (fastforce simp: ask_client_def bind_eq_Some_conv split: if_splits)

lemmas ask_defs = client_handle_nr_of_completed_packets_def client_handle_disconnection_complete_def
  client_handle_connection_request_def client_handle_link_key_request_def
  client_handle_link_key_notification_def client_handle_pin_code_request_def client_handle_vendor_event_def

lemma client_handle_keeps:
  "client_handle_nr_of_completed_packets E h n c s = Some (r, s') \<Longrightarrow> dev_ok s \<Longrightarrow> keeps s s'"
  "client_handle_disconnection_complete E st why h c s = Some (r, s') \<Longrightarrow> dev_ok s \<Longrightarrow> keeps s s'"
  "client_handle_connection_request E d c s = Some (r, s') \<Longrightarrow> dev_ok s \<Longrightarrow> keeps s s'"
  "client_handle_link_key_request E d c s = Some (r, s') \<Longrightarrow> dev_ok s \<Longrightarrow> keeps s s'"
  "client_handle_link_key_notification E a k t c s = Some (r, s') \<Longrightarrow> dev_ok s \<Longrightarrow> keeps s s'"
  "client_handle_pin_code_request E d c s = Some (r, s') \<Longrightarrow> dev_ok s \<Longrightarrow> keeps s s'"
  "client_handle_vendor_event E buf c s = Some (r, s') \<Longrightarrow> dev_ok s \<Longrightarrow> keeps s s'"
  by (auto simp: ask_defs bind_eq_Some_conv intro: ask_client_keeps)

lemma client_periodic_inquiry_keeps:
  "client_periodic_inquiry E reply c s = Some (r, s') \<Longrightarrow> dev_ok s \<Longrightarrow> keeps s s'"
  using call_keeps(2) keeps_refl by (fastforce simp: client_periodic_inquiry_def bind_eq_Some_conv split: if_splits)

lemma notify_completed_keeps: "notify_completed E d n is s = Some s' \<Longrightarrow> dev_ok s \<Longrightarrow> keeps s s'"
proof (induction "is" arbitrary: s)
  case (Cons i "is")
  then obtain h k r s1 where s1: "bte_hci_dev_foreach_hci_client (client_handle_nr_of_completed_packets E h k) s = Some (r, s1)"
      "notify_completed E d n is s1 = Some s'"
    by (auto simp: bind_eq_Some_conv)
  have "keeps s s1" using foreach_keeps [OF client_handle_keeps(1) s1(1) Cons.prems(2)] .
  with Cons.IH s1(2) show ?case using keepsD(1) keeps_trans by blast
qed (simp add: keeps_refl)

text \<open>The handlers of events.\<close>

lemmas completion_defs = conn_complete_event_cb_def auth_complete_event_cb_def
  remote_name_req_complete_event_cb_def read_remote_features_complete_event_cb_def
  read_remote_version_info_complete_event_cb_def read_clock_offset_complete_event_cb_def

lemma freed_call_ok:
  assumes "bte_hci_dev_find_pending_command buf s = Some (Some i)" and "dev_ok s"
    and "bte_hci_dev_free_command i s = Some s1" and "call_client_void E cb hci arg ud s1 = Some s'"
  shows "dev_ok s'"
  using assms call_keeps(2) free_ok(1) find_pending_live keepsD(1) by blast

lemma completion_ok:
  "conn_complete_event_cb E buf s = Some s' \<Longrightarrow> dev_ok s \<Longrightarrow> dev_ok s'"
  "auth_complete_event_cb E buf s = Some s' \<Longrightarrow> dev_ok s \<Longrightarrow> dev_ok s'"
  "remote_name_req_complete_event_cb E buf s = Some s' \<Longrightarrow> dev_ok s \<Longrightarrow> dev_ok s'"
  "read_remote_features_complete_event_cb E buf s = Some s' \<Longrightarrow> dev_ok s \<Longrightarrow> dev_ok s'"
  "read_remote_version_info_complete_event_cb E buf s = Some s' \<Longrightarrow> dev_ok s \<Longrightarrow> dev_ok s'"
  "read_clock_offset_complete_event_cb E buf s = Some s' \<Longrightarrow> dev_ok s \<Longrightarrow> dev_ok s'"
  by (auto simp: completion_defs bind_eq_Some_conv Let_def split: option.splits if_splits
      intro: freed_call_ok free_ok(1) find_pending_live)

lemma listener_event_ok:
  "mode_change_event_cb E buf s = Some s' \<Longrightarrow> dev_ok s \<Longrightarrow> dev_ok s'"
  "qos_setup_complete_event_cb E buf s = Some s' \<Longrightarrow> dev_ok s \<Longrightarrow> dev_ok s'"
proof -
  have "dev_ok s'" if "bte_hci_dev_find_pending_command buf s = Some (Some i)" "dev_ok s"
    "call_client E cb hci arg ud s = Some (b, s1)" "bte_hci_dev_free_command i s1 = Some s'"
    for i cb hci arg ud s1 b
    using that call_keeps(1) [OF that(3,2)] free_ok(1) find_pending_live keepsD by blast
  note call = this call_keeps(1) [THEN keepsD(1)]
  show "mode_change_event_cb E buf s = Some s' \<Longrightarrow> dev_ok s \<Longrightarrow> dev_ok s'"
    "qos_setup_complete_event_cb E buf s = Some s' \<Longrightarrow> dev_ok s \<Longrightarrow> dev_ok s'"
    by (auto simp: mode_change_event_cb_def qos_setup_complete_event_cb_def bind_eq_Some_conv
        split: option.splits if_splits intro: call)
qed

lemma inquiry_result_ok: "inquiry_result_cb E buf s = Some s' \<Longrightarrow> dev_ok s \<Longrightarrow> dev_ok s'"
  by (auto simp: inquiry_result_cb_def bind_eq_Some_conv Let_def dev_ok_def split: option.splits)

lemma return_link_keys_ok: "return_link_keys_cb E buf s = Some s' \<Longrightarrow> dev_ok s \<Longrightarrow> dev_ok s'"
  by (auto simp: return_link_keys_cb_def bind_eq_Some_conv Let_def dev_ok_def split: option.splits)

lemma inquiry_complete_ok:
  assumes "inquiry_complete_event_cb E buf s = Some s'" and "dev_ok s"
  shows "dev_ok s'"
proof -
  obtain reply found s1 where found: "bte_hci_dev_find_pending_command buf s = Some found"
    and s1: "(case found of
        Some i \<Rightarrow> do { pc \<leftarrow> get_pc s i; cb \<leftarrow> event_client_cb (pc_command_cb pc);
                     s \<leftarrow> bte_hci_dev_free_command i s; call_client_void E cb (pc_hci pc) reply (pc_userdata pc) s }
      | None \<Rightarrow> map_option snd (bte_hci_dev_foreach_hci_client (client_periodic_inquiry E reply) s)) = Some s1"
    and s': "s' = bte_hci_dev_inquiry_cleanup s1"
    using assms(1) unfolding inquiry_complete_event_cb_def Let_def by (elim bindE) auto
  have "dev_ok s1"
  proof (cases found)
    case None
    with s1 show ?thesis
      by (auto intro: foreach_keeps [OF client_periodic_inquiry_keeps, THEN keepsD(1)] assms(2))
  next
    case (Some i)
    with s1 found assms(2) show ?thesis by (auto simp: bind_eq_Some_conv intro: freed_call_ok)
  qed
  then show ?thesis by (simp add: s' bte_hci_dev_inquiry_cleanup_def dev_ok_def)
qed

lemma nr_of_completed_packets_ok:
  assumes "nr_of_completed_packets_event_cb E buf s = Some s'" and "dev_ok s"
  shows "dev_ok s'"
proof -
  obtain k d n "is" s1 where "bte_hci_dev_on_completed_packets E k s = Some s1" "notify_completed E d n is s1 = Some s'"
    using assms(1) by (auto simp: nr_of_completed_packets_event_cb_def bind_eq_Some_conv Let_def)
  moreover from this(1) have "dev_ok s1" using quiet_keeps [OF quiet_ops(7) assms(2)] keepsD(1) by blast
  ultimately show ?thesis using notify_completed_keeps keepsD(1) by blast
qed

lemma notification_ok:
  "disconnection_complete_event_cb E buf s = Some s' \<Longrightarrow> dev_ok s \<Longrightarrow> dev_ok s'"
  "link_key_notification_event_cb E buf s = Some s' \<Longrightarrow> dev_ok s \<Longrightarrow> dev_ok s'"
  "vendor_event_handler E buf s = Some s' \<Longrightarrow> dev_ok s \<Longrightarrow> dev_ok s'"
  using foreach_keeps [OF client_handle_keeps(2), THEN keepsD(1)] foreach_keeps [OF client_handle_keeps(5), THEN keepsD(1)]
    foreach_keeps [OF client_handle_keeps(7), THEN keepsD(1)]
  by (auto simp: disconnection_complete_event_cb_def link_key_notification_event_cb_def vendor_event_handler_def
      bind_eq_Some_conv)

lemma request_event_ok:
  "connection_request_event_cb E buf s = Some s' \<Longrightarrow> dev_ok s \<Longrightarrow> dev_ok s'"
  "link_key_request_event_cb E buf s = Some s' \<Longrightarrow> dev_ok s \<Longrightarrow> dev_ok s'"
  "pin_code_request_event_cb E buf s = Some s' \<Longrightarrow> dev_ok s \<Longrightarrow> dev_ok s'"
proof -
  have conn: "dev_ok s'" if "bte_hci_dev_foreach_hci_client (client_handle_connection_request E d) s = Some (r, s')"
    "dev_ok s" for d r s s' by (rule foreach_keeps [THEN keepsD(1), OF _ that]) (rule client_handle_keeps)
  have key: "dev_ok s'" if "bte_hci_dev_foreach_hci_client (client_handle_link_key_request E d) s = Some (r, s')"
    "dev_ok s" for d r s s' by (rule foreach_keeps [THEN keepsD(1), OF _ that]) (rule client_handle_keeps)
  have pin: "dev_ok s'" if "bte_hci_dev_foreach_hci_client (client_handle_pin_code_request E d) s = Some (r, s')"
    "dev_ok s" for d r s s' by (rule foreach_keeps [THEN keepsD(1), OF _ that]) (rule client_handle_keeps)
  note neg = request_keeps [OF hci_request.intros(10), THEN keepsD(1)] request_keeps [OF hci_request.intros(12), THEN keepsD(1)]
    request_keeps [OF hci_request.intros(14), THEN keepsD(1)]
  show "connection_request_event_cb E buf s = Some s' \<Longrightarrow> dev_ok s \<Longrightarrow> dev_ok s'"
    "link_key_request_event_cb E buf s = Some s' \<Longrightarrow> dev_ok s \<Longrightarrow> dev_ok s'"
    "pin_code_request_event_cb E buf s = Some s' \<Longrightarrow> dev_ok s \<Longrightarrow> dev_ok s'"
    by (auto simp: connection_request_event_cb_def link_key_request_event_cb_def pin_code_request_event_cb_def
        bind_eq_Some_conv Let_def split: if_splits dest: conn key pin neg)
qed

lemma event_cb_ok:
  assumes "run_event_cb E f buf s = Some s'" and "dev_ok s"
  shows "dev_ok s'"
  using assms inquiry_result_ok return_link_keys_ok inquiry_complete_ok nr_of_completed_packets_ok notification_ok
    request_event_ok completion_ok listener_event_ok
  by (cases f) simp_all

text \<open>Listeners on a connection, and the delivery of events.\<close>

lemma conn_event_matcher_good: "conn_event_matcher E ev h s = Some m \<Longrightarrow> good_matcher m"
  by (auto simp: conn_event_matcher_def bind_eq_Some_conv intro: add_rule_good [OF _ add_first_rule_good])

lemma install_conn_listener_ok:
  assumes "install_conn_listener E ev handler hci h cb s = Some s'" and "dev_ok s"
  shows "dev_ok s'" and "cb \<noteq> None \<Longrightarrow> keeps s s'"
proof -
  obtain m where m: "conn_event_matcher E ev h s = Some m" "good_matcher m"
    using assms(1) conn_event_matcher_good by (auto simp: install_conn_listener_def bind_eq_Some_conv)
  show add: "keeps s s'" if ne: "cb \<noteq> None"
  proof -
    obtain r s1 where r: "bte_hci_dev_alloc_command m s = Some (r, s1)"
      "(case r of None \<Rightarrow> Some s1 | Some i \<Rightarrow> do {
           e \<leftarrow> get_pc s1 i;
           s2 \<leftarrow> put_pc s1 i (e\<lparr>pc_hci := hci, pc_command_cb := Event_client_cb cb\<rparr>);
           bte_hci_dev_install_event_handler ev (Some handler) s2 }) = Some s'"
      using assms(1) m(1) ne unfolding install_conn_listener_def
      by (cases cb) (auto simp: bind_eq_Some_conv)
    have k: "keeps s s1" using alloc_keeps(1) [OF r(1) assms(2) m(2)] .
    show ?thesis
    proof (cases r)
      case None
      with r(2) k show ?thesis by simp
    next
      case (Some i)
      then obtain e s2 where e: "get_pc s1 i = Some e"
          "put_pc s1 i (e\<lparr>pc_hci := hci, pc_command_cb := Event_client_cb cb\<rparr>) = Some s2"
          "bte_hci_dev_install_event_handler ev (Some handler) s2 = Some s'"
        using r(2) by (auto simp: bind_eq_Some_conv)
      have k2: "keeps s1 s2" using put_pc_keeps [OF e(2,1) _ keepsD(1) [OF k]] by simp
      have "keeps s2 s'" using quiet_keeps [OF quiet_ops(4) [OF e(3)] keepsD(1) [OF k2]] .
      with k k2 show ?thesis by (blast intro: keeps_trans)
    qed
  qed
  show "dev_ok s'"
  proof (cases "cb = None")
    case True
    with assms m show ?thesis
      by (auto simp: install_conn_listener_def bind_eq_Some_conv split: option.splits if_splits
          intro: free_ok(1) get_pending_live)
  next
    case False
    then show ?thesis using add keepsD(1) by blast
  qed
qed

lemma deliver_status_ok:
  assumes "deliver_status_to_client E (hci_dispatch E on_data) buf s = Some s'" and "dev_ok s"
  shows "dev_ok s'"
proof -
  obtain found where found: "bte_hci_dev_find_pending_command buf s = Some found"
    using assms(1) by (auto simp: deliver_status_to_client_def bind_eq_Some_conv)
  show ?thesis
  proof (cases found)
    case None
    with assms found show ?thesis by (simp add: deliver_status_to_client_def)
  next
    case (Some i)
    have live: "live s i" using found Some find_pending_live by simp
    obtain pc f cb st s1 where "get_pc s i = Some pc"
      "(case pc_command_cb pc of Cmd_status f cb \<Rightarrow> Some (f, cb) | _ \<Rightarrow> None) = Some (f, cb)"
      "rd8 (data buf) HCI_CMD_STATUS_POS_STATUS = Some st"
      and s1: "(case f of Some f \<Rightarrow> run_status_cb E f (pc_hci pc) st i s | None \<Rightarrow> bte_hci_dev_free_command i s) = Some s1"
      and s': "(if cb \<noteq> None then call_client_void E cb (pc_hci pc) (Reply st) (pc_userdata pc) s1 else Some s1) = Some s'"
      using assms(1) found Some unfolding deliver_status_to_client_def dispatch_simps
      by (auto simp: bind_eq_Some_conv simp del: not_None_eq)
    from s1 have "dev_ok s1" using status_cb_ok free_ok(1) live assms(2) by (auto split: option.splits)
    with s' show ?thesis using call_keeps(2) keepsD(1) by (fastforce split: if_splits)
  qed
qed

lemma deliver_reply_ok:
  assumes "deliver_reply_to_client (hci_dispatch E on_data) buf s = Some s'" and "dev_ok s"
  shows "dev_ok s'"
proof -
  obtain found where found: "bte_hci_dev_find_pending_command buf s = Some found"
    using assms(1) by (auto simp: deliver_reply_to_client_def bind_eq_Some_conv)
  show ?thesis
  proof (cases found)
    case None
    with assms found show ?thesis by (simp add: deliver_reply_to_client_def)
  next
    case (Some i)
    then obtain f hci cb ud s1 where "bte_hci_dev_free_command i s = Some s1"
        "run_command_cb E f hci buf cb ud s1 = Some s'"
      using assms(1) found by (auto simp: deliver_reply_to_client_def bind_eq_Some_conv)
    then show ?thesis
      using command_cb_keeps keepsD(1) free_ok(1) [OF _ assms(2)] find_pending_live found Some by blast
  qed
qed

lemma handle_command_complete_ok:
  assumes "handle_command_complete (hci_dispatch E on_data) buf len s = Some s'" and "dev_ok s"
  shows "dev_ok s'"
proof -
  obtain np where "rd8 (data buf) 2 = Some np"
    using assms(1) by (auto simp: handle_command_complete_def bind_eq_Some_conv)
  note np = this
  let ?s1 = "s\<lparr>num_packets := uint np\<rparr>"
  show ?thesis
  proof (cases "len < 3")
    case True
    with assms np show ?thesis by (auto simp: handle_command_complete_def)
  next
    case False
    obtain opcode s2 where s2: "(if (ucast (drop_bit 10 (opcode :: u16)) :: byte) = HCI_INFO_PARAM_OGF
         then handle_info_param (opcode AND 0x03ff) (data buf) 5 ?s1
         else if (ucast (drop_bit 10 opcode) :: byte) = HCI_HC_BB_OGF
         then handle_host_control (opcode AND 0x03ff) (data buf) 5 ?s1 else Some ?s1) = Some s2"
      and s': "deliver_reply_to_client (hci_dispatch E on_data) buf s2 = Some s'"
      using assms(1) False unfolding handle_command_complete_def Let_def np Option.bind.simps
      by (simp only: if_False) (elim bindE, rule that)
    have "dev_ok s2" using s2 assms(2)
      by (auto simp: handle_info_param_def handle_host_control_def bind_eq_Some_conv split: if_splits)
    with s' show ?thesis by (rule deliver_reply_ok)
  qed
qed

lemma handle_event_ok:
  assumes "bte_hci_dev_handle_event E (hci_dispatch E on_data) buf s = Some (r, s')" and "dev_ok s"
  shows "dev_ok s'"
proof -
  obtain code len s1 where
    s1: "(if code = HCI_COMMAND_COMPLETE then handle_command_complete (hci_dispatch E on_data) buf len s
       else if code = HCI_COMMAND_STATUS then handle_command_status E (hci_dispatch E on_data) buf s else Some s) = Some s1"
    and s': "run_event_handler (hci_dispatch E on_data) code buf s1 = Some s'"
    using assms(1) unfolding bte_hci_dev_handle_event_def by (elim bindE) auto
  have "dev_ok s1"
    using s1 assms(2) handle_command_complete_ok deliver_status_ok
    by (fastforce simp: handle_command_status_def bind_eq_Some_conv split: if_splits)
  with s' show ?thesis using event_cb_ok
    by (auto simp: run_event_handler_def bind_eq_Some_conv split: option.splits)
qed

lemma set_status_ok:
  assumes "bte_hci_dev_set_status E st s = Some s'" and "dev_ok s"
  shows "dev_ok s'"
proof -
  have loop: "set_status_loop E ok is s = Some s' \<Longrightarrow> dev_ok s \<Longrightarrow> dev_ok s'" for ok "is" s
  proof (induction "is" arbitrary: s)
    case (Cons i "is")
    then obtain s1 where "dev_ok s1" "set_status_loop E ok is s1 = Some s'"
      using call_keeps(2) [THEN keepsD(1)]
      by (auto simp: bind_eq_Some_conv split: if_splits option.splits) blast+
    then show ?case by (rule Cons.IH [rotated])
  qed simp
  have "dev_ok (s\<lparr>init_status := st\<rparr>)" using assms(2) by (simp add: dev_ok_def)
  with loop assms(1) show ?thesis by (auto simp: bte_hci_dev_set_status_def Let_def split: if_splits)
qed

end

section \<open>Clients that meet the contract\<close>

text \<open>A client whose callbacks issue requests to the library, whatever they are called with.\<close>

definition answering :: "'a env \<Rightarrow> (hci_call \<Rightarrow> 'a dev \<Rightarrow> 'a dev option) \<Rightarrow> (hci_call \<Rightarrow> bool) \<Rightarrow> 'a env" where
  "answering E f b = E\<lparr>env_client := \<lambda>c s. map_option (Pair (b c)) (f c s)\<rparr>"

lemma answering_contract:
  assumes "client_contract E" and "\<And>c. hci_request E (f c)"
  shows "client_contract (answering E f b)"
  unfolding client_contract_def answering_def
  using hci_clients.request_keeps [OF hci_clients.intro [OF assms(1)] assms(2)] by auto

lemma demo_contract: "client_contract demo_env"
  by (simp add: client_contract_def demo_env_def keeps_refl)

interpretation resetting: hci_clients "answering demo_env (\<lambda>c. bte_hci_reset demo_env (call_hci c) None 0) (\<lambda>_. True)"
  by unfold_locales (intro answering_contract demo_contract hci_request.intros)

section \<open>Reachable states\<close>

definition backend_contract :: "'a env \<Rightarrow> bool" where
  "backend_contract E \<longleftrightarrow> (\<forall>s. dev_ok s \<longrightarrow> dev_ok (be_deinit E s)) \<and>
     (\<forall>s r s'. dev_ok s \<longrightarrow> driver_init E s = Some (r, s') \<longrightarrow> dev_ok s')"

inductive hci_reachable :: "bte_hci_dev hci_env \<Rightarrow> bte_hci_dev \<Rightarrow> bool" for E where
  start: "hci_reachable E zero_dev"
| init: "hci_reachable E s \<Longrightarrow> bte_hci_dev_init E s = Some (r, s') \<Longrightarrow> hci_reachable E s'"
| status: "hci_reachable E s \<Longrightarrow> bte_hci_dev_set_status E st s = Some s' \<Longrightarrow> hci_reachable E s'"
| buffer_size: "hci_reachable E s \<Longrightarrow> hci_reachable E (bte_hci_dev_set_buffer_size mtu n smtu sn s)"
| add_client: "hci_reachable E s \<Longrightarrow> bte_hci_dev_add_client c (s\<lparr>client_heap := (client_heap s)(c \<mapsto> cl)\<rparr>) = (r, s') \<Longrightarrow>
    hci_reachable E s'"
| remove_client: "hci_reachable E s \<Longrightarrow> bte_hci_dev_remove_client E c s = Some s' \<Longrightarrow> hci_reachable E s'"
| request: "hci_reachable E s \<Longrightarrow> hci_request E f \<Longrightarrow> f s = Some s' \<Longrightarrow> hci_reachable E s'"
| mode_listener: "hci_reachable E s \<Longrightarrow> bte_hci_on_mode_change E hci h cb s = Some s' \<Longrightarrow> hci_reachable E s'"
| qos_listener: "hci_reachable E s \<Longrightarrow> bte_hci_on_qos_setup_complete E hci h cb s = Some s' \<Longrightarrow> hci_reachable E s'"
| event: "hci_reachable E s \<Longrightarrow> bte_hci_dev_handle_event E (hci_dispatch E on_data) buf s = Some (r, s') \<Longrightarrow>
    hci_reachable E s'"

lemma remove_client_ok:
  assumes "bte_hci_dev_remove_client E c s = Some s'" and "dev_ok s" and "backend_contract E"
  shows "dev_ok s'"
proof -
  have "set [0..<8] \<subseteq> {..<8 :: nat}" by auto
  from dispose_loop_spec [OF assms(2) this, of "Some c"] obtain s1 where
    s1: "hci_dev_dispose (Some c) s = Some s1" "dev_ok s1" by (auto simp: hci_dev_dispose_def)
  then have "dev_ok (s1\<lparr>clients := map (\<lambda>x. if x = Some c then None else x) (clients s1)\<rparr>)"
    by (simp add: dev_ok_def)
  with assms(1,3) s1(1) show ?thesis
    by (auto simp: bte_hci_dev_remove_client_def backend_contract_def Let_def split: if_splits)
qed

text \<open>
  C1: the device is consistent in every reachable state. From start-up on, whatever requests the
  clients make and whatever events the controller sends, the table of pending commands holds
  well-formed matchers, its counter is the number of slots in use and no array changes its size,
  provided that client callbacks keep the pending entries and the backend the device.
\<close>

theorem hci_reachable_ok:
  assumes "client_contract E" and "backend_contract E" and "hci_reachable E s"
  shows "dev_ok s"
  using assms(3)
proof (induction rule: hci_reachable.induct)
  case (init s r s')
  have "dev_ok (s\<lparr>init_status := i, acl_available_packets := n\<rparr>)" for i n
    using init by (simp add: dev_ok_def)
  with init assms(2) show ?case
    by (simp add: bte_hci_dev_init_def backend_contract_def Let_def split: if_splits) blast+
next
  case (buffer_size s mtu n smtu sn)
  then show ?case by (simp add: bte_hci_dev_set_buffer_size_def dev_ok_def Let_def)
next
  case (add_client s c cl r s')
  then show ?case by (auto simp: bte_hci_dev_add_client_def dev_ok_def split: option.splits)
next
  case (remove_client s c s')
  with assms(2) show ?case by (blast intro: remove_client_ok)
next
  case (mode_listener s hci h cb s')
  then show ?case using hci_clients.install_conn_listener_ok(1) [OF hci_clients.intro [OF assms(1)]]
    by (auto simp: bte_hci_on_mode_change_def)
next
  case (qos_listener s hci h cb s')
  then show ?case using hci_clients.install_conn_listener_ok(1) [OF hci_clients.intro [OF assms(1)]]
    by (auto simp: bte_hci_on_qos_setup_complete_def)
qed (use zero_dev_ok hci_clients.set_status_ok hci_clients.request_keeps hci_clients.handle_event_ok
      hci_clients.intro [OF assms(1)] keepsD(1) in blast)+

theorem hci_reachable_ok_witness:
  "\<exists>s'. bte_hci_reset demo_env None None 0 zero_dev = Some s' \<and> dev_ok s'"
proof -
  have r: "hci_request demo_env (bte_hci_reset demo_env None None 0)" by (rule hci_request.intros)
  have "completes demo_env zero_dev 3 3 [] None Command_complete_cb None 0 (bte_hci_reset demo_env None None 0 zero_dev)"
    unfolding bte_hci_reset_def by (rule issue_simple) (simp_all add: zero_dev_ok)
  then obtain s' where s': "bte_hci_reset demo_env None None 0 zero_dev = Some s'"
    using alloc_slot_empty [of _ 7] by (auto simp: issues_def zero_dev_table)
  have "hci_reachable demo_env s'" using hci_reachable.request [OF hci_reachable.start r s'] .
  from hci_reachable_ok [OF demo_contract _ this] s' show ?thesis
    by (simp add: backend_contract_def demo_env_def)
qed

end
