(* ===== verification/HciEvents.thy ===== *)
theory HciEvents
  imports HciInvariant
begin

text \<open>
  What clients are told: the replies and events of the controller, decoded by the callbacks of
  \<^verbatim>\<open>hci.c\<close>. The bytes of a packet are written out in the statements, so that they say which
  field of the Bluetooth packet ends up in which field of the structure a client gets.
\<close>

section \<open>Replies\<close>

text \<open>A Command Complete event with the return parameters of a command.\<close>

definition reply_event :: "bte_buffer \<Rightarrow> byte \<Rightarrow> byte \<Rightarrow> u16 \<Rightarrow> byte \<Rightarrow> mem \<Rightarrow> bte_buffer" where
  "reply_event b len np opcode status params =
     b\<lparr>data := [HCI_COMMAND_COMPLETE, len, np] @ le_bytes 2 opcode @ [status] @ params\<rparr>"

lemma reply_event_data [simp]:
  "data (reply_event b len np opcode status params) =
     [HCI_COMMAND_COMPLETE, len, np] @ le_bytes 2 opcode @ [status] @ params"
  by (simp add: reply_event_def)

lemmas parse_simps = rd8_def slice_def read_le16_def read_le32_def read_le64_def le_val_bytes nth_append

text \<open>
  Replies. Each callback that handles a Command Complete event reads the return parameters of its
  command from the packet, every field at its place and in little endian byte order, and hands them
  to the client with its userdata.
\<close>

theorem hci_replies_parsed:
  assumes "r = reply_event b len np opcode st" and "length a = 6" and "length cod = 3"
  shows "command_complete_cb E hci (r rest) (Some cb) ud s =
       call_client_void E (Some cb) hci (Reply st) ud s \<and>
     link_key_req_reply_cb E hci (r (a @ rest)) (Some cb) ud s =
       call_client_void E (Some cb) hci (Link_key_req_reply st a) ud s \<and>
     read_link_policy_settings_cb E hci (r (le_bytes 2 h @ le_bytes 2 v @ rest)) cbp ud s =
       call_client_void E cbp hci (Read_link_policy_settings_reply st h v) ud s \<and>
     read_auto_flush_timeout_cb E hci (r (le_bytes 2 h @ le_bytes 2 v @ rest)) cbp ud s =
       call_client_void E cbp hci (Read_auto_flush_timeout_reply st h v) ud s \<and>
     read_link_sv_timeout_cb E hci (r (le_bytes 2 h @ le_bytes 2 v @ rest)) cbp ud s =
       call_client_void E cbp hci (Read_link_sv_timeout_reply st h v) ud s \<and>
     read_page_timeout_cb E hci (r (le_bytes 2 v @ rest)) cbp ud s =
       call_client_void E cbp hci (Read_page_timeout_reply st v) ud s \<and>
     delete_stored_link_key_cb E hci (r (le_bytes 2 v @ rest)) (Some cb) ud s =
       call_client_void E (Some cb) hci (Delete_stored_link_key_reply st v) ud s \<and>
     write_stored_link_key_cb E hci (r (x # rest)) (Some cb) ud s =
       call_client_void E (Some cb) hci (Write_stored_link_key_reply st x) ud s \<and>
     read_pin_type_cb E hci (r (x # rest)) cbp ud s = call_client_void E cbp hci (Read_pin_type_reply st x) ud s \<and>
     read_scan_enable_cb E hci (r (x # rest)) cbp ud s =
       call_client_void E cbp hci (Read_scan_enable_reply st x) ud s \<and>
     read_auth_enable_cb E hci (r (x # rest)) cbp ud s =
       call_client_void E cbp hci (Read_auth_enable_reply st x) ud s \<and>
     read_inquiry_scan_type_cb E hci (r (x # rest)) cbp ud s =
       call_client_void E cbp hci (Read_inquiry_scan_type_reply st x) ud s \<and>
     read_inquiry_mode_cb E hci (r (x # rest)) cbp ud s =
       call_client_void E cbp hci (Read_inquiry_mode_reply st x) ud s \<and>
     read_page_scan_type_cb E hci (r (x # rest)) cbp ud s =
       call_client_void E cbp hci (Read_page_scan_type_reply st x) ud s \<and>
     read_class_of_device_cb E hci (r (cod @ rest)) cbp ud s =
       call_client_void E cbp hci (Read_class_of_device_reply st cod) ud s \<and>
     read_local_version_cb E hci (r (x # le_bytes 2 h @ y # le_bytes 2 v @ le_bytes 2 w @ rest)) cbp ud s =
       call_client_void E cbp hci (Read_local_version_reply st x h y v w) ud s \<and>
     read_local_features_cb E hci (r (le_bytes 8 features @ rest)) cbp ud s =
       call_client_void E cbp hci (Read_local_features_reply st features) ud s \<and>
     read_buffer_size_cb E hci (r (le_bytes 2 h @ x # le_bytes 2 v @ le_bytes 2 w @ rest)) cbp ud s =
       call_client_void E cbp hci (Read_buffer_size_reply st x h w v) ud s \<and>
     vendor_command_cb E hci (r rest) cbp ud s = call_client_void E cbp hci (Vendor_buffer (r rest)) ud s"
  unfolding assms(1)
  by (intro conjI; simp add: assms(2,3) command_complete_cb_def link_key_req_reply_cb_def read_page_timeout_cb_def
   read_link_policy_settings_cb_def read_auto_flush_timeout_cb_def read_link_sv_timeout_cb_def
   read_pin_type_cb_def read_scan_enable_cb_def read_auth_enable_cb_def read_inquiry_scan_type_cb_def
   read_inquiry_mode_cb_def read_page_scan_type_cb_def write_stored_link_key_cb_def read_local_version_cb_def
   read_local_features_cb_def read_buffer_size_cb_def delete_stored_link_key_cb_def read_class_of_device_cb_def
   vendor_command_cb_def parse_simps)

section \<open>Completion events\<close>

lemma completion_call:
  assumes "dev_ok s" and "bte_hci_dev_find_pending_command buf s = Some (Some i)"
    and "pending_commands s ! i = pending_entry m hci (Event_client_cb (Some cb)) ud"
  shows "\<exists>s1. bte_hci_dev_free_command i s = Some s1 \<and> dev_ok s1 \<and> table s1 = (table s)[i := None] \<and>
     get_pc s i = Some (pending_entry m hci (Event_client_cb (Some cb)) ud)"
proof -
  have "live s i" using assms(2) by (rule find_pending_live)
  then have i: "i < 8" "table s ! i \<noteq> None" using assms(1) by (simp_all add: live_def dev_ok_def)
  with assms(1,3) have "get_pc s i = Some (pending_entry m hci (Event_client_cb (Some cb)) ud)"
    by (simp add: get_pc_def dev_ok_def)
  with free_spec [OF assms(1) i] show ?thesis by blast
qed

lemma strncpy_name:
  assumes "length name = n"
  shows "strncpy_from (name @ rest) n =
     Some (takeWhile (\<lambda>x. x \<noteq> 0) name @ replicate (n - length (takeWhile (\<lambda>x. x \<noteq> 0) name)) 0)"
proof (cases "0 \<in> set name")
  case True
  then have "takeWhile (\<lambda>x. x \<noteq> 0) (name @ rest) = takeWhile (\<lambda>x. x \<noteq> 0) name"
    by (auto simp: takeWhile_append)
  then show ?thesis
    using strncpy_from_spec [of "name @ rest" n] assms length_takeWhile_le [of "\<lambda>x. x \<noteq> 0" name] by simp
next
  case False
  then have tw: "takeWhile (\<lambda>x. x \<noteq> 0) name = name" by (auto simp: takeWhile_eq_all_conv)
  have "takeWhile (\<lambda>x. x \<noteq> 0) (name @ rest) = name @ takeWhile (\<lambda>x. x \<noteq> 0) rest"
    using False by (auto simp: takeWhile_append)
  then show ?thesis using strncpy_from_spec [of "name @ rest" n] assms unfolding tw by simp
qed

lemma name_terminated:
  assumes "length name = 248"
  shows "(takeWhile (\<lambda>x. x \<noteq> 0) name @ replicate (248 - length (takeWhile (\<lambda>x. x \<noteq> 0) name)) 0) @ [0 :: byte] =
     takeWhile (\<lambda>x. x \<noteq> 0) name @ replicate (249 - length (takeWhile (\<lambda>x. x \<noteq> 0) name)) 0"
proof -
  have "249 - length (takeWhile (\<lambda>x. x \<noteq> 0) name) = Suc (248 - length (takeWhile (\<lambda>x. x \<noteq> 0) name))"
    using length_takeWhile_le [of "\<lambda>x. x \<noteq> 0" name] assms by simp
  then show ?thesis by (simp only: replicate_Suc append_assoc replicate_append_same)
qed

text \<open>
  C25: completion of asynchronous commands. The event that completes a connection, an authentication or
  a query of a remote device frees the entry that awaited it and hands the fields of the event to the
  callback and userdata of that entry; a remote name arrives terminated by a zero byte.
\<close>

theorem hci_completion_events_delivered:
  assumes "dev_ok s" and "bte_hci_dev_find_pending_command buf s = Some (Some i)"
    and "pending_commands s ! i = pending_entry m hci (Event_client_cb (Some cb)) ud"
  shows "\<exists>s1. bte_hci_dev_free_command i s = Some s1 \<and> dev_ok s1 \<and> table s1 = (table s)[i := None] \<and>
    (\<forall>ev len st h a lt enc rest. data buf = [ev, len, st] @ le_bytes 2 h @ a @ [lt, enc] @ rest \<and> length a = 6 \<longrightarrow>
       conn_complete_event_cb E buf s =
         call_client_void E (Some cb) hci (Create_connection_reply st lt h a enc) ud s1) \<and>
    (\<forall>ev len st h rest. data buf = [ev, len, st] @ le_bytes 2 h @ rest \<longrightarrow>
       auth_complete_event_cb E buf s =
         call_client_void E (Some cb) hci (Auth_requested_reply st h) ud s1) \<and>
    (\<forall>ev len st h f rest. data buf = [ev, len, st] @ le_bytes 2 h @ le_bytes 8 f @ rest \<longrightarrow>
       read_remote_features_complete_event_cb E buf s =
         call_client_void E (Some cb) hci (Read_remote_features_reply st h f) ud s1) \<and>
    (\<forall>ev len st h v man sub rest.
       data buf = [ev, len, st] @ le_bytes 2 h @ [v] @ le_bytes 2 man @ le_bytes 2 sub @ rest \<longrightarrow>
       read_remote_version_info_complete_event_cb E buf s =
         call_client_void E (Some cb) hci (Read_remote_version_info_reply st h v sub man) ud s1) \<and>
    (\<forall>ev len st h clk rest. data buf = [ev, len, st] @ le_bytes 2 h @ le_bytes 2 clk @ rest \<longrightarrow>
       read_clock_offset_complete_event_cb E buf s =
         call_client_void E (Some cb) hci (Read_clock_offset_reply st h clk) ud s1) \<and>
    (\<forall>ev len st a name rest. data buf = [ev, len, st] @ a @ name @ rest \<and> length a = 6 \<and> length name = 248 \<longrightarrow>
       remote_name_req_complete_event_cb E buf s =
         call_client_void E (Some cb) hci (Read_remote_name_reply st a
           (takeWhile (\<lambda>x. x \<noteq> 0) name @ replicate (249 - length (takeWhile (\<lambda>x. x \<noteq> 0) name)) 0)) ud s1)"
proof -
  obtain s1 where s1: "bte_hci_dev_free_command i s = Some s1" "dev_ok s1" "table s1 = (table s)[i := None]"
      "get_pc s i = Some (pending_entry m hci (Event_client_cb (Some cb)) ud)"
    using completion_call [OF assms] by blast
  show ?thesis
  proof (rule exI [of _ s1], intro conjI allI impI s1(1,2,3))
    fix ev len st a name rest
    assume "data buf = [ev, len, st] @ a @ name @ rest \<and> length a = 6 \<and> length name = 248"
    then show "remote_name_req_complete_event_cb E buf s =
         call_client_void E (Some cb) hci (Read_remote_name_reply st a
           (takeWhile (\<lambda>x. x \<noteq> 0) name @ replicate (249 - length (takeWhile (\<lambda>x. x \<noteq> 0) name)) 0)) ud s1"
      using strncpy_name [of name 248 rest] name_terminated [of name]
      by (simp add: s1 assms(2) remote_name_req_complete_event_cb_def event_client_cb_def parse_simps)
  qed (simp_all add: s1 assms(2) conn_complete_event_cb_def auth_complete_event_cb_def
      read_remote_features_complete_event_cb_def read_remote_version_info_complete_event_cb_def
      read_clock_offset_complete_event_cb_def event_client_cb_def Let_def parse_simps)
qed

section \<open>Requests of the peer\<close>

text \<open>No client installed the callback: nobody is asked.\<close>

definition unclaimed :: "(bte_client \<Rightarrow> cb_ptr) \<Rightarrow> 'a dev \<Rightarrow> bool" where
  "unclaimed cb_of s \<longleftrightarrow> (\<forall>c. Some c \<in> set (clients s) \<longrightarrow> (\<exists>cl. client_heap s c = Some cl \<and> cb_of cl = None))"

lemma foreach_unclaimed:
  assumes "dev_ok s" and "unclaimed cb_of s"
  shows "bte_hci_dev_foreach_hci_client (ask_client E cb_of arg) s = Some (False, s)"
proof -
  have "foreach_hci_client_loop (ask_client E cb_of arg) is s = Some (False, s)" if "set is \<subseteq> {..<4}" for "is"
    using that
  proof (induction "is")
    case (Cons i "is")
    have "i < length (clients s)" using Cons.prems assms(1) by (simp add: dev_ok_def)
    then have "clients s ! i = Some c \<Longrightarrow> ask_client E cb_of arg c s = Some (False, s)" for c
      using assms(2) nth_mem [of i "clients s"] by (auto simp: unclaimed_def ask_client_def get_client_def)
    with Cons \<open>i < length (clients s)\<close> show ?case by (auto split: option.splits)
  qed simp
  moreover have "set [0..<4] \<subseteq> {..<4 :: nat}" by auto
  ultimately show ?thesis by (simp only: bte_hci_dev_foreach_hci_client_def)
qed

text \<open>
  Requests nobody claims. When no client installed the callback, a connection request is rejected,
  and a request for a link key or a PIN code is answered negatively, with the address of the peer.
\<close>

theorem hci_unclaimed_requests_answered:
  assumes "dev_ok s" and "data buf = [ev, len] @ a @ rest" and "length a = 6"
  shows "(unclaimed connection_request_cb s \<and> length cod = 3 \<and> rest = cod @ [lt] \<longrightarrow>
      starts E s 0x0A 0x01 (a @ [0x0F]) None (Some Create_connection_status_cb) None 0
        (connection_request_event_cb E buf s)) \<and>
    (unclaimed link_key_request_cb s \<longrightarrow>
      completes E s 0x0C 0x01 a None Link_key_req_reply_cb None 0 (link_key_request_event_cb E buf s)) \<and>
    (unclaimed pin_code_request_cb s \<longrightarrow>
      completes E s 0x0E 0x01 a None Link_key_req_reply_cb None 0 (pin_code_request_event_cb E buf s))"
proof (intro conjI impI)
  let ?d = "a @ rest"
  have d: "drop 2 (data buf) = ?d" "slice ?d 0 6 = Some a" using assms(2,3) by (simp_all add: slice_def)
  have neg: "completes E s 0x0C 0x01 a None Link_key_req_reply_cb None 0 (bte_hci_link_key_req_neg_reply E None ?d None 0 s)"
    "completes E s 0x0E 0x01 a None Link_key_req_reply_cb None 0 (bte_hci_pin_code_req_neg_reply E None ?d None 0 s)"
    unfolding bte_hci_link_key_req_neg_reply_def bte_hci_pin_code_req_neg_reply_def
    by (rule issue_fill; simp add: assms(1,3) d fill_simps)+
  have rej: "starts E s 0x0A 0x01 (a @ [x]) None (Some Create_connection_status_cb) None 0
        (bte_hci_reject_connection E None ?d x None None 0 s)" for x
    unfolding bte_hci_reject_connection_def
    by (rule issue_fill(2); simp add: assms(1,3) fill_simps)
  show "starts E s 0x0A 0x01 (a @ [0x0F]) None (Some Create_connection_status_cb) None 0
        (connection_request_event_cb E buf s)"
    if "unclaimed connection_request_cb s \<and> length cod = 3 \<and> rest = cod @ [lt]"
  proof -
    have "client_handle_connection_request E ?d = ask_client E connection_request_cb (Connection_request a cod lt)"
      using that assms(3) by (intro ext) (simp add: client_handle_connection_request_def slice_def rd8_def nth_append)
    then show ?thesis using foreach_unclaimed [OF assms(1)] that rej
      by (simp add: connection_request_event_cb_def d)
  qed
  show "completes E s 0x0C 0x01 a None Link_key_req_reply_cb None 0 (link_key_request_event_cb E buf s)"
    if "unclaimed link_key_request_cb s"
  proof -
    have "client_handle_link_key_request E ?d = ask_client E link_key_request_cb (Link_key_request a)"
      by (intro ext) (simp add: client_handle_link_key_request_def d)
    then show ?thesis using foreach_unclaimed [OF assms(1) that] neg by (simp add: link_key_request_event_cb_def d)
  qed
  show "completes E s 0x0E 0x01 a None Link_key_req_reply_cb None 0 (pin_code_request_event_cb E buf s)"
    if "unclaimed pin_code_request_cb s"
  proof -
    have "client_handle_pin_code_request E ?d = ask_client E pin_code_request_cb (Pin_code_request a)"
      by (intro ext) (simp add: client_handle_pin_code_request_def d)
    then show ?thesis using foreach_unclaimed [OF assms(1) that] neg by (simp add: pin_code_request_event_cb_def d)
  qed
qed

section \<open>Completed packets\<close>

lemma read_u16_array:
  assumes "i < length vs" and "length pre = off"
  shows "read_le16 (pre @ concat (map (le_bytes 2) vs) @ post) (off + i * 2) = Some (vs ! i)"
  using assms
proof (induction vs arbitrary: i pre off)
  case (Cons v vs)
  show ?case
  proof (cases i)
    case 0
    with Cons.prems show ?thesis by (simp add: read_le16_def slice_def le_val_bytes)
  next
    case (Suc j)
    with Cons.prems Cons.IH [of j "pre @ le_bytes 2 v" "off + 2"] show ?thesis by (simp add: algebra_simps)
  qed
qed simp

lemma sum_completed_spec:
  assumes "\<And>i. i \<in> set is \<Longrightarrow> read_le16 d (3 + n * 2 + i * 2) = Some (f i)"
  shows "sum_completed d n is acc = Some (acc + sum_list (map f is))"
  using assms by (induction "is" arbitrary: acc) (simp_all add: add.assoc)

text \<open>The clients are told about one connection after the other.\<close>

primrec notify_all :: "'a env \<Rightarrow> (u16 \<times> u16) list \<Rightarrow> 'a dev \<Rightarrow> 'a dev option" where
  "notify_all E [] s = Some s"
| "notify_all E (r # rs) s =
     do { (_, s) \<leftarrow> bte_hci_dev_foreach_hci_client (client_handle_nr_of_completed_packets E (fst r) (snd r)) s;
          notify_all E rs s }"

lemma notify_completed_spec:
  assumes "\<And>i. i \<in> set is \<Longrightarrow> read_le16 d (3 + i * 2) = Some (f i)"
    and "\<And>i. i \<in> set is \<Longrightarrow> read_le16 d (3 + n * 2 + i * 2) = Some (g i)"
  shows "notify_completed E d n is s = notify_all E (map (\<lambda>i. (f i, g i)) is) s"
  using assms by (induction "is" arbitrary: s) (auto simp: split_def)

text \<open>
  Flow control. The event that reports completed packets credits the sum over all connections
  before the queue is sent, and then tells the clients about each connection, in order.
\<close>

theorem hci_completed_packets_event:
  assumes "data buf = [ev, len, of_nat (length records)] @
       concat (map (le_bytes 2 \<circ> fst) records) @ concat (map (le_bytes 2 \<circ> snd) records) @ rest"
    and "length records < 256"
  shows "nr_of_completed_packets_event_cb E buf s =
     do { s1 \<leftarrow> bte_hci_dev_on_completed_packets E (sum_list (map snd records)) s; notify_all E records s1 }"
proof -
  let ?n = "length records" and ?hs = "map fst records" and ?ks = "map snd records"
  let ?A = "concat (map (le_bytes 2) ?hs)" and ?B = "concat (map (le_bytes 2) ?ks)"
  have d: "data buf = [ev, len, of_nat ?n] @ ?A @ ?B @ rest" using assms(1) by (simp add: comp_def)
  have n: "unat (of_nat ?n :: byte) = ?n" using assms(2) by (simp add: unat_of_nat take_bit_eq_mod)
  have A: "length ?A = ?n * 2" by (simp add: length_concat comp_def sum_list_triv)
  have h: "read_le16 (data buf) (3 + i * 2) = Some (fst (records ! i))" if "i < ?n" for i
    using read_u16_array [of i ?hs "[ev, len, of_nat ?n]" 3 "?B @ rest"] that d by simp
  have k: "read_le16 (data buf) (3 + ?n * 2 + i * 2) = Some (snd (records ! i))" if "i < ?n" for i
    using read_u16_array [of i ?ks "[ev, len, of_nat ?n] @ ?A" "3 + ?n * 2" rest] that d A by simp
  have "map (\<lambda>i. snd (records ! i)) [0..<?n] = ?ks" by (rule nth_equalityI) simp_all
  then have "sum_completed (data buf) ?n [0..<?n] 0 = Some (sum_list ?ks)"
    using sum_completed_spec [of "[0..<?n]" "data buf" ?n "\<lambda>i. snd (records ! i)" 0] k by simp
  moreover have "notify_completed E (data buf) ?n [0..<?n] = notify_all E records"
  proof
    fix t show "notify_completed E (data buf) ?n [0..<?n] t = notify_all E records t"
    using notify_completed_spec [of "[0..<?n]" "data buf" "\<lambda>i. fst (records ! i)" ?n "\<lambda>i. snd (records ! i)" E t] h k
      by (simp add: map_nth)
  qed
  moreover have "rd8 (data buf) 2 = Some (of_nat ?n)" using d by (simp add: rd8_def)
  ultimately show ?thesis by (simp add: nr_of_completed_packets_event_cb_def n Let_def)
qed

section \<open>Inquiry access codes\<close>

lemma lap_parse:
  assumes "take_bit 24 lap = (lap :: u32)"
  shows "(ucast (ucast (lap AND 0xff) :: byte) OR push_bit 8 (ucast (ucast (drop_bit 8 lap AND 0xff) :: byte))) OR
     push_bit 16 (ucast (ucast (drop_bit 16 lap AND 0xff) :: byte)) = lap" (is "?l = lap")
proof (rule bit_eqI)
  fix n assume "possible_bit TYPE(u32) n"
  have m: "(0xff :: u32) = mask 8" by (simp add: mask_eq_exp_minus_1)
  have l: "bit ?l n \<longleftrightarrow> n < 8 \<and> bit lap n \<or> 8 \<le> n \<and> n < 16 \<and> bit lap n \<or> 16 \<le> n \<and> n < 24 \<and> bit lap n"
    unfolding m by (auto simp: bit_simps dest: bit_imp_le_length)
  have "bit lap n \<Longrightarrow> n < 24" using assms by (metis bit_take_bit_iff)
  with l show "bit ?l n = bit lap n" by auto
qed

lemma rd8_skip:
  assumes "length pre = off"
  shows "rd8 (pre @ xs) off = rd8 xs 0" and "rd8 (pre @ xs) (off + k) = rd8 xs k"
  using assms by (auto simp: rd8_def nth_append)

lemma read_laps_lap_bytes:
  assumes "\<forall>lap \<in> set laps. take_bit 24 lap = lap" and "length pre = off"
  shows "read_laps_loop (pre @ concat (map lap_bytes laps) @ post) off (length laps) = Some laps"
  using assms
proof (induction laps arbitrary: pre off)
  case (Cons lap laps)
  let ?b = "[ucast (lap AND 0xff), ucast (drop_bit 8 lap AND 0xff), ucast (drop_bit 16 lap AND 0xff)] :: mem"
  let ?rest = "concat (map lap_bytes laps) @ post"
  have "read_laps_loop ((pre @ ?b) @ ?rest) (off + 3) (length laps) = Some laps"
    using Cons.prems by (intro Cons.IH) simp_all
  moreover have "rd8 (pre @ ?b @ ?rest) off = Some (?b ! 0)" "rd8 (pre @ ?b @ ?rest) (off + 1) = Some (?b ! 1)"
      "rd8 (pre @ ?b @ ?rest) (off + 2) = Some (?b ! 2)"
    unfolding rd8_skip [OF Cons.prems(2)] by (simp_all add: rd8_def)
  moreover have "take_bit 24 lap = lap" using Cons.prems(1) by simp
  ultimately show ?case
    using lap_parse [of lap] by (simp add: lap_bytes_def [of lap])
qed simp


text \<open>
  Inquiry access codes. The access codes written by \<^verbatim>\<open>bte_hci_write_current_iac_lap\<close> are read back
  unchanged by the handler of \<^verbatim>\<open>bte_hci_read_current_iac_lap\<close>.
\<close>

theorem hci_iac_lap_roundtrip:
  assumes "length laps \<le> 83" and "\<forall>lap \<in> set laps. take_bit 24 lap = lap" and "dev_ok s"
  shows "completes E s 0x3A 0x03 ([of_nat (length laps)] @ concat (map lap_bytes laps)) hci Command_complete_cb cb ud
       (bte_hci_write_current_iac_lap E hci (of_nat (length laps)) laps cb ud s) \<and>
     read_current_iac_lap_cb E hci
       (reply_event b len np opcode st ([of_nat (length laps)] @ concat (map lap_bytes laps) @ rest)) cb ud s =
       call_client_void E cb hci (Read_current_iac_lap_reply st (of_nat (length laps)) laps) ud s"
proof
  have n: "unat (of_nat (length laps) :: byte) = length laps" using assms(1) by (simp add: unat_of_nat take_bit_eq_mod)
  show "completes E s 0x3A 0x03 ([of_nat (length laps)] @ concat (map lap_bytes laps)) hci Command_complete_cb cb ud
       (bte_hci_write_current_iac_lap E hci (of_nat (length laps)) laps cb ud s)"
    by (rule iac_lap_packet) (simp_all add: assms n)
  let ?pre = "[HCI_COMMAND_COMPLETE, len, np] @ le_bytes 2 opcode @ [st, of_nat (length laps)]"
  have "read_laps_loop (?pre @ concat (map lap_bytes laps) @ rest) 7 (length laps) = Some laps"
    by (rule read_laps_lap_bytes) (simp_all add: assms(2))
  then show "read_current_iac_lap_cb E hci
       (reply_event b len np opcode st ([of_nat (length laps)] @ concat (map lap_bytes laps) @ rest)) cb ud s =
       call_client_void E cb hci (Read_current_iac_lap_reply st (of_nat (length laps)) laps) ud s"
    by (simp add: read_current_iac_lap_cb_def n rd8_def nth_append)
qed

section \<open>From the status of a connection to its completion\<close>

definition conn_rules :: "mem \<Rightarrow> rule list" where
  "conn_rules a = [(0, [HCI_CONNECTION_COMPLETE]), (5, a)]"

lemma conn_matcher:
  assumes "length a = 6"
  shows "\<exists>m1 m2. bte_data_matcher_add_rule (stack_matcher E s) [HCI_CONNECTION_COMPLETE] 1 0 = Some (True, m1) \<and>
     bte_data_matcher_add_rule m1 a 6 5 = Some (True, m2) \<and> represents m2 (conn_rules a)"
proof -
  obtain m1 where m1: "bte_data_matcher_add_rule (stack_matcher E s) [HCI_CONNECTION_COMPLETE] 1 0 = Some (True, m1)"
      "represents m1 [(0, [HCI_CONNECTION_COMPLETE])]"
    using add_rule_fits [OF stack_matcher_empty, of 1 "[HCI_CONNECTION_COMPLETE]" E s 0]
    by (auto simp: BTE_DATA_MATCHER_MAX_LEN_def)
  moreover obtain m2 where "bte_data_matcher_add_rule m1 a 6 5 = Some (True, m2)" "represents m2 (conn_rules a)"
    using add_rule_fits [OF m1(2), of 6 a 5] assms by (auto simp: BTE_DATA_MATCHER_MAX_LEN_def conn_rules_def)
  ultimately show ?thesis by blast
qed

lemma set_event_entry_eq:
  assumes "ev < length (pending_commands s)" and "pc < length (pending_commands s)" and "pc \<noteq> ev"
  shows "set_event_entry ev hci cb pc s = Some (s\<lparr>pending_commands := (pending_commands s)
     [ev := pending_entry (pc_matcher (pending_commands s ! ev)) hci (Event_client_cb cb)
        (pc_userdata (pending_commands s ! pc))]\<rparr>)"
  using assms by (cases "pending_commands s ! ev") (simp add: set_event_entry_def get_pc_def put_pc_def pending_entry_def)

text \<open>
  From status to completion. When the controller accepts a connection command, its entry is
  replaced by one that awaits the Connection Complete event of the same peer for the same client,
  with the same userdata, and the handler of that event is installed.
\<close>

theorem hci_connection_status_awaits_completion:
  assumes "dev_ok s" and "i < 8" and "pending_commands s ! i = pending_entry m (Some h) f ud" and "table s ! i \<noteq> None"
    and "client_heap s h = Some c" and "slice (tmp_bytes (last_async_cmd_data c)) 0 6 = Some a"
    and "alloc_slot (conn_rules a) (table s) = Some j"
  shows "\<exists>s' m'. create_connection_status_cb E (Some h) 0 i s = Some s' \<and> dev_ok s' \<and>
     table s' = (table s)[j := Some (conn_rules a), i := None] \<and>
     pending_commands s' ! j = pending_entry m' (Some h) (Event_client_cb (tmp_client_cb (last_async_cmd_data c))) ud \<and>
     event_handlers s' ! 3 = Some Conn_complete_event_cb \<and> command_wire s' = command_wire s"
proof -
  let ?cb = "tmp_client_cb (last_async_cmd_data c)"
  have a: "length a = 6" using slice_len [OF assms(6)] .
  obtain m1 m2 where m: "bte_data_matcher_add_rule (stack_matcher E s) [HCI_CONNECTION_COMPLETE] 1 0 = Some (True, m1)"
      "bte_data_matcher_add_rule m1 a 6 5 = Some (True, m2)" "represents m2 (conn_rules a)"
    using conn_matcher [OF a] by blast
  have rs: "conn_rules a \<noteq> []" by (simp add: conn_rules_def)
  have j: "j < length (table s)" "table s ! j = None" using alloc_slot_Some [OF assms(7)] by blast+
  have ij: "i \<noteq> j" using j assms(4) by auto
  have len: "length (pending_commands s) = 8" "length (event_handlers s) = 61" using assms(1) by (simp_all add: dev_ok_def)
  let ?e = "pending_entry m2 (Some h) (Event_client_cb ?cb) ud"
  let ?s1 = "set_slot j ((pending_commands s ! j)\<lparr>pc_matcher := m2\<rparr>) s"
  let ?s2 = "(set_slot j ?e s)\<lparr>event_handlers := (event_handlers s)[3 := Some Conn_complete_event_cb]\<rparr>"
  have al: "bte_hci_dev_alloc_command m2 s = Some (Some j, ?s1)" using alloc_spec [OF assms(1) m(3) rs] assms(7) by simp
  have "set_event_entry j (Some h) ?cb i ?s1 = Some (set_slot j ?e s)"
    using set_event_entry_eq [of j ?s1 i "Some h" ?cb] assms(2,3) j len ij by (simp add: set_slot_def)
  moreover have "bte_hci_dev_install_event_handler HCI_CONNECTION_COMPLETE (Some Conn_complete_event_cb) (set_slot j ?e s) = Some ?s2"
    using len by (simp add: bte_hci_dev_install_event_handler_def bte_hci_dev_handler_for_event_def get_handler_def set_slot_def)
  ultimately have run: "create_connection_status_cb E (Some h) 0 i s = bte_hci_dev_free_command i ?s2"
    using m assms(5,6) al
    by (simp add: create_connection_status_cb_def get_tmp_def get_client_def tmp_address_def)
  have "represents (pc_matcher ?e) (conn_rules a)" using m(3) by simp
  note slot = set_slot_spec [OF assms(1) this rs j]
  have ok2: "dev_ok ?s2" "table ?s2 = (table s)[j := Some (conn_rules a)]"
    using slot len by (simp_all add: dev_ok_def table_def)
  have "table ?s2 ! i \<noteq> None" unfolding ok2(2) using assms(4) ij by simp
  from free_spec [OF ok2(1) assms(2) this] obtain s' where s': "bte_hci_dev_free_command i ?s2 = Some s'" "dev_ok s'"
      "table s' = (table ?s2)[i := None]" "command_wire s' = command_wire ?s2" "event_handlers s' = event_handlers ?s2"
    by blast
  have "pending_commands s' ! j = ?e"
    using s'(1) ij j len assms(2) by (auto simp: bte_hci_dev_free_command_def get_pc_def put_pc_def set_slot_def split: if_splits)
  with run s' ok2(2) len show ?thesis by (intro exI [of _ s'] exI [of _ m2]) (simp add: set_slot_def)
qed

section \<open>Witnesses\<close>

definition demo_buffer :: bte_buffer where
  "demo_buffer = \<lparr>ref_count = 1, total_size = 0, size = 0, data = []\<rparr>"

theorem hci_replies_parsed_witness:
  "read_buffer_size_cb demo_env (Some 1) (reply_event demo_buffer 11 1 0x1005 0 [0x39, 1, 64, 8, 0, 4, 0]) (Some 7) 42 zero_dev =
     call_client_void demo_env (Some 7) (Some 1) (Read_buffer_size_reply 0 64 0x139 4 8) 42 zero_dev"
proof -
  have "[0x39, 1, 64, 8, 0, 4, 0] = le_bytes 2 (0x139 :: u16) @ 64 # le_bytes 2 (8 :: u16) @ le_bytes 2 (4 :: u16) @ []"
    by (simp add: le_bytes_2)
  moreover have "length (replicate 6 0) = 6" "length (replicate 3 0) = 3" by simp_all
  note hci_replies_parsed [OF refl this, THEN conjunct2, THEN conjunct2, THEN conjunct2, THEN conjunct2, THEN conjunct2,
    THEN conjunct2, THEN conjunct2, THEN conjunct2, THEN conjunct2, THEN conjunct2, THEN conjunct2, THEN conjunct2,
    THEN conjunct2, THEN conjunct2, THEN conjunct2, THEN conjunct2, THEN conjunct2, THEN conjunct1]
  ultimately show ?thesis by metis
qed

lemma table_zero_slot:
  assumes "represents (pc_matcher p) rs" and "rs \<noteq> []"
  shows "dev_ok (set_slot 0 p demo_client_dev)" and "table (set_slot 0 p demo_client_dev) = Some rs # replicate 7 None"
proof -
  have t: "0 < length (table demo_client_dev)" "table demo_client_dev ! 0 = None"
    by (simp_all only: demo_client_dev_table) simp_all
  show "dev_ok (set_slot 0 p demo_client_dev)" using set_slot_spec(1) [OF demo_client_dev_ok assms t] .
  have "replicate 8 None = None # replicate 7 (None :: rule list option)" by (simp flip: replicate_Suc)
  then show "table (set_slot 0 p demo_client_dev) = Some rs # replicate 7 None"
    using set_slot_spec(2) [OF demo_client_dev_ok assms t] unfolding demo_client_dev_table by simp
qed

theorem hci_completion_events_delivered_witness:
  "\<exists>s s1. conn_complete_event_cb demo_env
       \<lparr>ref_count = 1, total_size = 13, size = 13, data = [3, 11, 0, 2, 1, 1, 2, 3, 4, 5, 6, 1, 0]\<rparr> s =
     call_client_void demo_env (Some 7) (Some 1) (Create_connection_reply 0 1 0x102 [1, 2, 3, 4, 5, 6] 0) 42 s1 \<and>
     table s1 = replicate 8 None"
proof -
  let ?a = "[1, 2, 3, 4, 5, 6] :: mem"
  let ?buf = "\<lparr>ref_count = 1, total_size = 13, size = 13, data = [3, 11, 0, 2, 1, 1, 2, 3, 4, 5, 6, 1, 0]\<rparr> :: bte_buffer"
  obtain m where m: "represents m (conn_rules ?a)" using conn_matcher [of ?a demo_env zero_dev] by auto
  let ?p = "pending_entry m (Some 1) (Event_client_cb (Some 7)) 42"
  let ?s = "set_slot 0 ?p demo_client_dev"
  have s: "dev_ok ?s" "table ?s = Some (conn_rules ?a) # replicate 7 None"
    using table_zero_slot [of ?p "conn_rules ?a"] m by (simp_all add: conn_rules_def)
  have "hits (data ?buf) (Some (conn_rules ?a))"
    by (simp add: hits_def conn_rules_def)
  then have f: "bte_hci_dev_find_pending_command ?buf ?s = Some (Some 0)"
    using find_spec [OF s(1), of 13 "data ?buf"] s(2) by (simp add: bte_hci_dev_find_pending_command_def)
  have "pending_commands ?s ! 0 = ?p" by (simp add: set_slot_def demo_client_dev_def zero_dev_def)
  from hci_completion_events_delivered [OF s(1) f this, of demo_env] obtain s1 where
    s1: "table s1 = (table ?s)[0 := None]" "conn_complete_event_cb demo_env ?buf ?s =
         call_client_void demo_env (Some 7) (Some 1) (Create_connection_reply 0 1 0x102 ?a 0) 42 s1"
    by (elim exE conjE) (drule spec [of _ 3], drule spec [of _ 11], drule spec [of _ 0], drule spec [of _ 258],
      drule spec [of _ ?a], drule spec [of _ 1], drule spec [of _ 0], drule spec [of _ "[]"], simp add: le_bytes_2)
  then show ?thesis using s(2) by (intro exI [of _ ?s] exI [of _ s1]) (simp add: numeral_eq_Suc)
qed

theorem hci_unclaimed_requests_answered_witness:
  "\<exists>s'. link_key_request_event_cb demo_env
       \<lparr>ref_count = 1, total_size = 8, size = 8, data = [0x17, 6, 1, 2, 3, 4, 5, 6]\<rparr> demo_client_dev = Some s' \<and>
     command_wire s' = [[0x0C, 4, 6, 1, 2, 3, 4, 5, 6]]"
proof (rule issues_demo)
  let ?buf = "\<lparr>ref_count = 1, total_size = 8, size = 8, data = [0x17, 6, 1, 2, 3, 4, 5, 6]\<rparr> :: bte_buffer"
  have "unclaimed link_key_request_cb demo_client_dev"
    by (auto simp: unclaimed_def demo_client_dev_def zero_client_def)
  then show "completes demo_env demo_client_dev 0x0C 0x01 [1, 2, 3, 4, 5, 6] None Link_key_req_reply_cb None 0
      (link_key_request_event_cb demo_env ?buf demo_client_dev)"
    using hci_unclaimed_requests_answered [OF demo_client_dev_ok, where buf = ?buf and ev = 23 and len = 6
      and a = "[1, 2, 3, 4, 5, 6]" and rest = "[]" and E = demo_env] by simp
qed (simp add: demo_packet)

theorem hci_completed_packets_event_witness:
  "nr_of_completed_packets_event_cb demo_env
     \<lparr>ref_count = 1, total_size = 11, size = 11, data = [0x13, 9, 2, 1, 0, 2, 0, 3, 0, 4, 0]\<rparr> zero_dev =
   do { s1 \<leftarrow> bte_hci_dev_on_completed_packets demo_env 7 zero_dev; notify_all demo_env [(1, 3), (2, 4)] s1 }"
  using hci_completed_packets_event [where buf = "\<lparr>ref_count = 1, total_size = 11, size = 11,
      data = [0x13, 9, 2, 1, 0, 2, 0, 3, 0, 4, 0]\<rparr>" and ev = 19 and len = 9 and records = "[(1, 3), (2, 4)]"
      and rest = "[]" and E = demo_env and s = zero_dev]
  by (simp add: le_bytes_2)

theorem hci_iac_lap_roundtrip_witness:
  "read_current_iac_lap_cb demo_env None
     (reply_event demo_buffer 8 1 0x0C39 0 ([1] @ concat (map lap_bytes [0x9E8B33]) @ [])) (Some 7) 0 demo_client_dev =
   call_client_void demo_env (Some 7) None (Read_current_iac_lap_reply 0 1 [0x9E8B33]) 0 demo_client_dev"
  using hci_iac_lap_roundtrip [where laps = "[0x9E8B33]" and s = demo_client_dev and E = demo_env and hci = None
      and cb = "Some 7" and ud = 0 and b = demo_buffer and len = 8 and np = 1 and opcode = 3129 and st = 0 and rest = "[]"]
    demo_client_dev_ok
  by simp

theorem hci_connection_status_awaits_completion_witness:
  "\<exists>s s'. create_connection_status_cb demo_env (Some 1) 0 0 s = Some s' \<and>
     table s' = None # Some (conn_rules (replicate 6 0)) # replicate 6 None"
proof -
  let ?rs = "cmd_rules HCI_COMMAND_STATUS (build_opcode 5 1)"
  obtain m where m: "represents m ?rs"
    using cmd_matcher [of "le_bytes 2 (build_opcode 5 1)" "build_opcode 5 1" demo_env zero_dev HCI_COMMAND_STATUS] by auto
  let ?p = "pending_entry m (Some 1) (Cmd_status (Some Create_connection_status_cb) None) 42"
  let ?s = "set_slot 0 ?p demo_client_dev" and ?a = "replicate 6 0 :: mem"
  have s: "dev_ok ?s" "table ?s = Some ?rs # replicate 7 None"
    using table_zero_slot [of ?p ?rs] m by (simp_all add: cmd_rules_def)
  have al: "alloc_slot (conn_rules ?a) (table ?s) = Some 1"
    unfolding s(2) by (simp add: alloc_slot_def conn_rules_def cmd_rules_def numeral_eq_Suc)
  have "pending_commands ?s ! 0 = ?p" by (simp add: set_slot_def demo_client_dev_def zero_dev_def)
  moreover have "table ?s ! 0 \<noteq> None" unfolding s(2) by simp
  moreover have "client_heap ?s 1 = Some zero_client" by (simp add: set_slot_def demo_client_dev_def)
  moreover have "slice (tmp_bytes (last_async_cmd_data zero_client)) 0 6 = Some ?a" by (simp add: slice_def zero_client_def)
  ultimately obtain s' where "create_connection_status_cb demo_env (Some 1) 0 0 ?s = Some s'"
      "table s' = (table ?s)[1 := Some (conn_rules ?a), 0 := None]"
    using hci_connection_status_awaits_completion [OF s(1) _ _ _ _ _ al, of 0 m 1
        "Cmd_status (Some Create_connection_status_cb) None" 42 zero_client demo_env] by auto
  then show ?thesis unfolding s(2) by (intro exI [of _ ?s] exI [of _ s']) (simp add: numeral_eq_Suc)
qed

section \<open>A callback that frees its own entry\<close>

text \<open>Freeing a slot that is free already: nothing but the count changes, which is wrong then.\<close>

lemma free_unused:
  assumes "dev_ok s" "i < 8" "\<not> busy (pending_commands s ! i)"
  shows "\<exists>s'. bte_hci_dev_free_command i s = Some s' \<and> table s' = table s \<and>
    num_pending_commands s' = num_pending_commands s - 1 \<and> \<not> dev_ok s'"
proof -
  have len: "length (pending_commands s) = 8" "unat (num_pending_commands s) = length (filter busy (pending_commands s))"
    using assms(1) by (simp_all add: dev_ok_def)
  define pc where "pc = (pending_commands s ! i)\<lparr>pc_matcher := bte_data_matcher_init (pc_matcher (pending_commands s ! i))\<rparr>"
  have nb: "\<not> busy pc" by (simp add: pc_def busy_def bte_data_matcher_is_empty_def bte_data_matcher_init_def)
  let ?cs = "(pending_commands s)[i := pc]"
  let ?s' = "s\<lparr>pending_commands := ?cs, num_pending_commands := num_pending_commands s - 1\<rparr>"
  have free: "bte_hci_dev_free_command i s = Some ?s'"
    using assms(2) len(1) by (simp add: bte_hci_dev_free_command_def get_pc_def put_pc_def pc_def)
  have tab: "table ?s' = table s" using assms(2,3) nb len(1) by (simp add: table_def map_update list_update_same_conv)
  have "map busy ?cs = map busy (pending_commands s)" using assms(2,3) nb len(1) by (simp add: map_update list_update_same_conv)
  moreover have "length (filter busy xs) = length (filter id (map busy xs))" for xs by (simp add: filter_map comp_def)
  ultimately have cnt: "length (filter busy ?cs) = length (filter busy (pending_commands s))" by (simp only:)
  have "\<not> dev_ok ?s'"
  proof
    assume "dev_ok ?s'"
    then have "unat (num_pending_commands s - 1) = unat (num_pending_commands s)" using cnt len(2) by (simp add: dev_ok_def)
    then have "num_pending_commands s - 1 = num_pending_commands s" by (simp only: word_unat_eq_iff)
    then show False by simp
  qed
  then show ?thesis using free tab by auto
qed

text \<open>
  C30: the contract of client callbacks is needed. A client that removes its mode change listener from
  within the callback and then reports that it is done has its entry freed twice: whatever the state, the event and the client, the number of
  pending commands goes down by two for the one entry that is gone, and the invariant of the device is broken. If the listener was
  the only entry, the number is 65535 then.
\<close>

theorem hci_listener_freed_twice:
  assumes "dev_ok s" "bte_hci_dev_find_pending_command b s = Some (Some i)" "get_pc s i = Some p" "busy p" "8 \<le> length (data b)"
    and "event_client_cb (pc_command_cb p) = Some (Some f)" "pc_hci p = Some c" "client_heap s c = Some cl"
    and "conn_event_matcher J HCI_MODE_CHANGE h s = Some m" "bte_hci_dev_get_pending_command m s = Some (Some i)"
    and revokes: "\<And>arg. env_client E \<lparr>call_cb = f, call_hci = Some c, call_arg = arg, call_userdata = c_userdata cl\<rparr> s =
      map_option (Pair True) (bte_hci_on_mode_change J (Some c) h None s)"
  shows "\<exists>s'. mode_change_event_cb E b s = Some s' \<and> table s' = (table s)[i := None] \<and>
    num_pending_commands s' = num_pending_commands s - 2 \<and> \<not> dev_ok s'"
proof -
  have len: "length (pending_commands s) = 8" using assms(1) by (simp add: dev_ok_def)
  have i: "i < 8" "pending_commands s ! i = p" using assms(3) len by (simp_all add: get_pc_def split: if_splits)
  have t: "table s ! i \<noteq> None" using i assms(4) len by (simp add: table_def)
  from free_spec [OF assms(1) i(1) t] obtain s1 where s1: "bte_hci_dev_free_command i s = Some s1" "dev_ok s1" "table s1 = (table s)[i := None]"
    by blast
  have n1: "num_pending_commands s1 = num_pending_commands s - 1"
    using s1(1) i len by (auto simp: bte_hci_dev_free_command_def get_pc_def put_pc_def)
  have off: "bte_hci_on_mode_change J (Some c) h None s = Some s1"
    using assms(3,7,9,10) s1(1) by (simp add: bte_hci_on_mode_change_def install_conn_listener_def)
  have "table s1 ! i = None" "length (pending_commands s1) = 8" using s1(2,3) i(1) len by (simp_all add: table_def dev_ok_def)
  then have "\<not> busy (pending_commands s1 ! i)" using i(1) by (auto simp: table_def split: if_splits)
  from free_unused [OF s1(2) i(1) this] obtain s' where s': "bte_hci_dev_free_command i s1 = Some s'" "table s' = table s1"
      "num_pending_commands s' = num_pending_commands s1 - 1" "\<not> dev_ok s'" by blast
  have "mode_change_event_cb E b s = Some s'"
    using assms(2,3,5-8) revokes off s'(1)
    by (simp add: mode_change_event_cb_def rd8_def read_le16_def slice_def hci_userdata_def get_client_def call_client_def)
  then show ?thesis using s' s1(3) n1 by auto
qed

text \<open>A client that removes its listener whenever it is called.\<close>

definition revoking_env :: "bte_hci_dev hci_env" where
  "revoking_env = demo_env\<lparr>env_client := \<lambda>c s.
     map_option (Pair True) (bte_hci_on_mode_change demo_env (call_hci c) 0x102 None s)\<rparr>"

definition mode_change_event :: bte_buffer where
  "mode_change_event = \<lparr>ref_count = 1, total_size = 8, size = 8, data = [0x14, 6, 0, 2, 1, 2, 0, 1]\<rparr>"

definition listening_dev :: bte_hci_dev where
  "listening_dev = the (bte_hci_on_mode_change demo_env (Some 1) 0x102 (Some 7) demo_client_dev)"

theorem hci_listener_freed_twice_witness:
  "\<exists>s'. mode_change_event_cb revoking_env mode_change_event listening_dev = Some s' \<and> num_pending_commands s' = 0xffff \<and> \<not> dev_ok s'"
proof -
  let ?s = listening_dev
  have "\<not> Option.is_none (bte_hci_on_mode_change demo_env (Some 1) 0x102 (Some 7) demo_client_dev)" by code_simp
  then have new: "bte_hci_on_mode_change demo_env (Some 1) 0x102 (Some 7) demo_client_dev = Some ?s"
    by (auto simp: listening_dev_def Option.is_none_def)
  have ok: "dev_ok ?s"
    by (rule hci_clients.install_conn_listener_ok(1) [OF hci_clients.intro [OF demo_contract] new [unfolded bte_hci_on_mode_change_def] demo_client_dev_ok])
  have find: "bte_hci_dev_find_pending_command mode_change_event ?s = Some (Some 0)" by code_simp
  have p: "get_pc ?s 0 = Some (pending_commands ?s ! 0)" "busy (pending_commands ?s ! 0)" "8 \<le> length (data mode_change_event)"
      "event_client_cb (pc_command_cb (pending_commands ?s ! 0)) = Some (Some 7)" "pc_hci (pending_commands ?s ! 0) = Some 1"
      "client_heap ?s 1 = Some zero_client" "num_pending_commands ?s = 1"
    by code_simp+
  obtain m where m: "conn_event_matcher demo_env HCI_MODE_CHANGE 0x102 ?s = Some m" "bte_hci_dev_get_pending_command m ?s = Some (Some 0)"
  proof -
    have "(case conn_event_matcher demo_env HCI_MODE_CHANGE 0x102 ?s of None \<Rightarrow> False
        | Some m \<Rightarrow> bte_hci_dev_get_pending_command m ?s = Some (Some 0))" by code_simp
    then show thesis by (auto intro: that split: option.splits)
  qed
  have "env_client revoking_env \<lparr>call_cb = 7, call_hci = Some 1, call_arg = arg, call_userdata = c_userdata zero_client\<rparr> ?s =
      map_option (Pair True) (bte_hci_on_mode_change demo_env (Some 1) 0x102 None ?s)" for arg
    by (simp add: revoking_env_def)
  from hci_listener_freed_twice [OF ok find p(1-6) m this] p(7) show ?thesis by auto
qed

end
