(* ===== verification/Client.thy ===== *)
theory Client
  imports HciInvariant
begin

text \<open>
  The clients of \<^verbatim>\<open>client.c\<close>: creation, reference count and userdata. \<^verbatim>\<open>bte_malloc\<close> is the argument
  \<open>p\<close>, the address of the new block or \<open>None\<close> for \<^verbatim>\<open>NULL\<close>.
\<close>

definition bte_client_free :: "'a env \<Rightarrow> nat \<Rightarrow> 'a dev \<Rightarrow> 'a dev option" where
  "bte_client_free E client s =
     do { s \<leftarrow> bte_hci_dev_remove_client E client s;
          _ \<leftarrow> client_heap s client;
          Some (s\<lparr>client_heap := (client_heap s)(client := None)\<rparr>) }"

definition bte_client_ref :: "nat \<Rightarrow> 'a dev \<Rightarrow> 'a dev option" where
  "bte_client_ref client s =
     do { c \<leftarrow> get_client s (Some client);
          put_client s (Some client) (c\<lparr>c_ref_count := c_ref_count c + 1\<rparr>) }"

definition bte_client_unref :: "'a env \<Rightarrow> nat \<Rightarrow> 'a dev \<Rightarrow> 'a dev option" where
  "bte_client_unref E client s =
     do { c \<leftarrow> get_client s (Some client);
          s \<leftarrow> put_client s (Some client) (c\<lparr>c_ref_count := c_ref_count c - 1\<rparr>);
          if c_ref_count c = 1 then bte_client_free E client s else Some s }"

definition bte_client_new :: "'a env \<Rightarrow> nat option \<Rightarrow> 'a dev \<Rightarrow> (nat option \<times> 'a dev) option" where
  "bte_client_new E p s =
     do { (rc, s) \<leftarrow> bte_hci_dev_init E s;
          if rc < 0 then Some (None, s)
          else case p of None \<Rightarrow> Some (None, s)
          | Some client \<Rightarrow> do {
              let s = s\<lparr>client_heap := (client_heap s)(client \<mapsto> zero_client\<lparr>c_ref_count := 1\<rparr>)\<rparr>;
              let (ok, s) = bte_hci_dev_add_client client s;
              if \<not> ok then do { s \<leftarrow> bte_client_unref E client s; Some (None, s) }
              else Some (Some client, s) } }"

definition bte_client_set_userdata :: "nat \<Rightarrow> u64 \<Rightarrow> 'a dev \<Rightarrow> 'a dev option" where
  "bte_client_set_userdata client userdata s =
     do { c \<leftarrow> get_client s (Some client); put_client s (Some client) (c\<lparr>c_userdata := userdata\<rparr>) }"

definition bte_client_get_userdata :: "nat \<Rightarrow> 'a dev \<Rightarrow> u64 option" where
  "bte_client_get_userdata client s = map_option c_userdata (get_client s (Some client))"

end
