(* ===== verification/Drivers.thy ===== *)
theory Drivers
  imports HciEvents Client
begin

text \<open>
  The drivers of \<^verbatim>\<open>drivers/generic.c\<close> and \<^verbatim>\<open>drivers/wii.c\<close>: chains of commands that bring the controller up, each
  sent by the callback of the one before. The two files have functions of the same names; here they carry the name of
  their driver. Their callbacks are the numbers from 41 and from 51 on.

  A callback runs inside of the library's dispatch and calls the library again, which calls the next callback at once
  when the table of pending commands is full. The status it is then given ends the chain, except in the callbacks of
  the vendor commands of \<^verbatim>\<open>wii.c\<close>, which do not look at their reply, so that at most six calls are nested.
\<close>

section \<open>Parts of both drivers\<close>

definition stop_on_failure ::
    "'a env \<Rightarrow> hci_ptr \<Rightarrow> byte \<Rightarrow> ('a dev \<Rightarrow> 'a dev option) \<Rightarrow> 'a dev \<Rightarrow> 'a dev option" where
  "stop_on_failure E hci status k s =
     (if status \<noteq> BTE_HCI_SUCCESS then do {
        s \<leftarrow> bte_hci_dev_set_status E BTE_HCI_INIT_STATUS_FAILED s;
        client \<leftarrow> hci;
        bte_client_unref E client s }
      else k s)"

definition initialization_done :: "'a env \<Rightarrow> nat \<Rightarrow> 'a dev \<Rightarrow> 'a dev option" where
  "initialization_done E client s =
     do { s \<leftarrow> bte_client_unref E client s;
          bte_hci_dev_set_status E BTE_HCI_INIT_STATUS_INITIALIZED s }"

text \<open>
  The status of a reply, its first field. The library hands a \<^verbatim>\<open>BteHciReply\<close> to every callback when a command cannot be
  queued.
\<close>

fun reply_status :: "hci_arg \<Rightarrow> byte option" where
  "reply_status (Reply status) = Some status"
| "reply_status (Read_buffer_size_reply status _ _ _ _) = Some status"
| "reply_status (Read_bd_addr_reply status _) = Some status"
| "reply_status (Read_local_version_reply status _ _ _ _ _) = Some status"
| "reply_status (Read_local_features_reply status _) = Some status"
| "reply_status _ = None"

section \<open>The generic driver\<close>

abbreviation (input) GENERIC_ON_RESET_DONE :: nat where "GENERIC_ON_RESET_DONE \<equiv> 41"
abbreviation (input) GENERIC_ON_BUFFER_SIZE_DONE :: nat where "GENERIC_ON_BUFFER_SIZE_DONE \<equiv> 42"
abbreviation (input) GENERIC_ON_BD_ADDR_DONE :: nat where "GENERIC_ON_BD_ADDR_DONE \<equiv> 43"
abbreviation (input) GENERIC_READ_LOCAL_FEATURES_CB :: nat where "GENERIC_READ_LOCAL_FEATURES_CB \<equiv> 44"

definition generic_read_local_features_cb :: "'a env \<Rightarrow> hci_ptr \<Rightarrow> hci_arg \<Rightarrow> u64 \<Rightarrow> 'a dev \<Rightarrow> 'a dev option" where
  "generic_read_local_features_cb E hci reply userdata s =
     do { status \<leftarrow> reply_status reply;
          stop_on_failure E hci status (\<lambda>s. do { client \<leftarrow> hci; initialization_done E client s }) s }"

definition generic_on_bd_addr_done :: "'a env \<Rightarrow> hci_ptr \<Rightarrow> hci_arg \<Rightarrow> u64 \<Rightarrow> 'a dev \<Rightarrow> 'a dev option" where
  "generic_on_bd_addr_done E hci reply userdata s =
     do { status \<leftarrow> reply_status reply;
          stop_on_failure E hci status
            (bte_hci_read_local_features E hci (Some GENERIC_READ_LOCAL_FEATURES_CB) userdata) s }"

text \<open>The sizes of a reply; another structure does not hold them.\<close>

definition set_buffer_size_from :: "hci_arg \<Rightarrow> 'a dev \<Rightarrow> 'a dev option" where
  "set_buffer_size_from reply s =
     (case reply of
        Read_buffer_size_reply _ smtu amtu smax amax \<Rightarrow> Some (bte_hci_dev_set_buffer_size amtu amax smtu smax s)
      | _ \<Rightarrow> None)"

definition generic_on_buffer_size_done :: "'a env \<Rightarrow> hci_ptr \<Rightarrow> hci_arg \<Rightarrow> u64 \<Rightarrow> 'a dev \<Rightarrow> 'a dev option" where
  "generic_on_buffer_size_done E hci reply userdata s =
     do { status \<leftarrow> reply_status reply;
          stop_on_failure E hci status
            (\<lambda>s. do { s \<leftarrow> set_buffer_size_from reply s;
                      bte_hci_read_bd_addr E hci (Some GENERIC_ON_BD_ADDR_DONE) userdata s }) s }"

definition generic_on_reset_done :: "'a env \<Rightarrow> hci_ptr \<Rightarrow> hci_arg \<Rightarrow> u64 \<Rightarrow> 'a dev \<Rightarrow> 'a dev option" where
  "generic_on_reset_done E hci reply userdata s =
     do { status \<leftarrow> reply_status reply;
          stop_on_failure E hci status
            (bte_hci_read_buffer_size E hci (Some GENERIC_ON_BUFFER_SIZE_DONE) userdata) s }"

text \<open>\<open>p\<close> is the address that \<^verbatim>\<open>bte_malloc\<close> returns for the client and \<open>dev\<close> that of the device.\<close>

definition generic_init :: "'a env \<Rightarrow> nat option \<Rightarrow> u64 \<Rightarrow> 'a dev \<Rightarrow> (int \<times> 'a dev) option" where
  "generic_init E p dev s =
     do { (client, s) \<leftarrow> bte_client_new E p s;
          client \<leftarrow> client;
          s \<leftarrow> bte_client_set_userdata client dev s;
          s \<leftarrow> bte_hci_reset E (Some client) (Some GENERIC_ON_RESET_DONE) dev s;
          Some (0, s) }"

text \<open>The callbacks, bound to their numbers. Without a level left only the callbacks of other clients remain.\<close>

fun generic_client :: "'a env \<Rightarrow> nat \<Rightarrow> hci_call \<Rightarrow> 'a dev \<Rightarrow> (bool \<times> 'a dev) option" where
  "generic_client E 0 c s =
     (if call_cb c \<in> {GENERIC_ON_RESET_DONE, GENERIC_ON_BUFFER_SIZE_DONE, GENERIC_ON_BD_ADDR_DONE,
                      GENERIC_READ_LOCAL_FEATURES_CB} then None else env_client E c s)"
| "generic_client E (Suc n) c s =
     (let inner = E\<lparr>env_client := generic_client E n\<rparr>;
          run = (\<lambda>f. do { s \<leftarrow> f inner (call_hci c) (call_arg c) (call_userdata c) s; Some (False, s) })
      in if call_cb c = GENERIC_ON_RESET_DONE then run generic_on_reset_done
         else if call_cb c = GENERIC_ON_BUFFER_SIZE_DONE then run generic_on_buffer_size_done
         else if call_cb c = GENERIC_ON_BD_ADDR_DONE then run generic_on_bd_addr_done
         else if call_cb c = GENERIC_READ_LOCAL_FEATURES_CB then run generic_read_local_features_cb
         else env_client E c s)"

definition generic_env :: "'a env \<Rightarrow> nat option \<Rightarrow> u64 \<Rightarrow> 'a env" where
  "generic_env E p dev =
     (let inner = E\<lparr>env_client := generic_client E 2\<rparr> in inner\<lparr>driver_init := generic_init inner p dev\<rparr>)"

section \<open>The driver of the Wii\<close>

definition wii_patch_0 :: mem where
  "wii_patch_0 =
    [0x70, 0x99, 0x08, 0x00, 0x88, 0x43, 0xd1, 0x07, 0x09, 0x0c, 0x08, 0x43, 0xa0, 0x62, 0x19, 0x23,
     0xdb, 0x01, 0x33, 0x80, 0x7c, 0xf7, 0x88, 0xf8, 0x28, 0x76, 0x80, 0xf7, 0x17, 0xff, 0x43, 0x78,
     0xeb, 0x70, 0x19, 0x23, 0xdb, 0x01, 0x33, 0x87, 0x7c, 0xf7, 0xbc, 0xfb, 0x0b, 0x60, 0xa3, 0x7b,
     0x01, 0x49, 0x0b, 0x60, 0x90, 0xf7, 0x96, 0xfb, 0xd8, 0x1d, 0x08, 0x00, 0x00, 0xf0, 0x04, 0xf8,
     0x00, 0x23, 0x79, 0xf7, 0xe3, 0xfa, 0x00, 0x00, 0x00, 0xb5, 0x00, 0x23, 0x11, 0x49, 0x0b, 0x60,
     0x1d, 0x21, 0xc9, 0x03, 0x0b, 0x60, 0x7d, 0x20, 0x80, 0x01, 0x01, 0x38, 0xfd, 0xd1, 0x0e, 0x4b,
     0x0e, 0x4a, 0x13, 0x60, 0x47, 0x20, 0x00, 0x21, 0x96, 0xf7, 0x96, 0xff, 0x46, 0x20, 0x00, 0x21,
     0x96, 0xf7, 0x92, 0xff, 0x0a, 0x4a, 0x13, 0x68, 0x0a, 0x48, 0x03, 0x40, 0x13, 0x60, 0x0a, 0x4a,
     0x13, 0x68, 0x0a, 0x48, 0x03, 0x40, 0x13, 0x60, 0x09, 0x4a, 0x13, 0x68, 0x09, 0x48, 0x03, 0x40,
     0x13, 0x60, 0x00, 0xbd, 0x24, 0x80, 0x0e, 0x00, 0x81, 0x03, 0x0f, 0xfe, 0x5c, 0x00, 0x0f, 0x00,
     0x60, 0xfc, 0x0e, 0x00, 0xfe, 0xff, 0x00, 0x00, 0xfc, 0xfc, 0x0e, 0x00, 0xff, 0x9f, 0x00, 0x00,
     0x30, 0xfc, 0x0e, 0x00, 0x7f, 0xff, 0x00, 0x00]"

definition wii_patch_1 :: mem where
  "wii_patch_1 =
    [0x07, 0x20, 0xbc, 0x65, 0x01, 0x00, 0x84, 0x42, 0x09, 0xd2, 0x84, 0x42, 0x09, 0xd1, 0x21, 0x84,
     0x5a, 0x00, 0x00, 0x83, 0xf0, 0x74, 0xff, 0x09, 0x0c, 0x08, 0x43, 0x22, 0x00, 0x61, 0x00, 0x00,
     0x83, 0xf0, 0x40, 0xfc, 0x00, 0x00, 0x00, 0x00, 0x23, 0xcc, 0x9f, 0x01, 0x00, 0x6f, 0xf0, 0xe4,
     0xfc, 0x03, 0x28, 0x7d, 0xd1, 0x24, 0x3c, 0x62, 0x01, 0x00, 0x28, 0x20, 0x00, 0xe0, 0x60, 0x8d,
     0x23, 0x68, 0x25, 0x04, 0x12, 0x01, 0x00, 0x20, 0x1c, 0x20, 0x1c, 0x24, 0xe0, 0xb0, 0x21, 0x26,
     0x74, 0x2f, 0x00, 0x00, 0x86, 0xf0, 0x18, 0xfd, 0x21, 0x4f, 0x3b, 0x60]"

abbreviation (input) WII_ON_RESET_DONE :: nat where "WII_ON_RESET_DONE \<equiv> 51"
abbreviation (input) WII_ON_BUFFER_SIZE_DONE :: nat where "WII_ON_BUFFER_SIZE_DONE \<equiv> 52"
abbreviation (input) WII_ON_READ_LOCAL_VERSION_DONE :: nat where "WII_ON_READ_LOCAL_VERSION_DONE \<equiv> 53"
abbreviation (input) WII_ON_BD_ADDR_DONE :: nat where "WII_ON_BD_ADDR_DONE \<equiv> 54"
abbreviation (input) WII_ON_READ_LOCAL_FEATURES :: nat where "WII_ON_READ_LOCAL_FEATURES \<equiv> 55"
abbreviation (input) WII_ON_PATCH_START_DONE :: nat where "WII_ON_PATCH_START_DONE \<equiv> 56"
abbreviation (input) WII_ON_PATCH_CONT_DONE :: nat where "WII_ON_PATCH_CONT_DONE \<equiv> 57"
abbreviation (input) WII_ON_PATCH_END_DONE :: nat where "WII_ON_PATCH_END_DONE \<equiv> 58"
abbreviation (input) WII_ON_RESET_PATCHED_DONE :: nat where "WII_ON_RESET_PATCHED_DONE \<equiv> 59"

definition wii_on_reset_patched_done :: "'a env \<Rightarrow> hci_ptr \<Rightarrow> hci_arg \<Rightarrow> u64 \<Rightarrow> 'a dev \<Rightarrow> 'a dev option" where
  "wii_on_reset_patched_done E hci reply userdata s =
     do { status \<leftarrow> reply_status reply;
          stop_on_failure E hci status (\<lambda>s. do { client \<leftarrow> hci; initialization_done E client s }) s }"

definition wii_on_patch_end_done :: "'a env \<Rightarrow> hci_ptr \<Rightarrow> hci_arg \<Rightarrow> u64 \<Rightarrow> 'a dev \<Rightarrow> 'a dev option" where
  "wii_on_patch_end_done E hci reply userdata s = bte_hci_reset E hci (Some WII_ON_RESET_PATCHED_DONE) userdata s"

definition wii_on_patch_cont_done :: "'a env \<Rightarrow> hci_ptr \<Rightarrow> hci_arg \<Rightarrow> u64 \<Rightarrow> 'a dev \<Rightarrow> 'a dev option" where
  "wii_on_patch_cont_done E hci reply userdata s =
     bte_hci_vendor_command E hci HCI_VENDOR_PATCH_END_OCF wii_patch_1 (of_nat (length wii_patch_1))
       (Some WII_ON_PATCH_END_DONE) userdata s"

definition wii_on_patch_start_done :: "'a env \<Rightarrow> hci_ptr \<Rightarrow> hci_arg \<Rightarrow> u64 \<Rightarrow> 'a dev \<Rightarrow> 'a dev option" where
  "wii_on_patch_start_done E hci reply userdata s =
     bte_hci_vendor_command E hci HCI_VENDOR_PATCH_CONT_OCF wii_patch_0 (of_nat (length wii_patch_0))
       (Some WII_ON_PATCH_CONT_DONE) userdata s"

definition wii_on_read_local_features :: "'a env \<Rightarrow> hci_ptr \<Rightarrow> hci_arg \<Rightarrow> u64 \<Rightarrow> 'a dev \<Rightarrow> 'a dev option" where
  "wii_on_read_local_features E hci reply userdata s =
     do { status \<leftarrow> reply_status reply;
          stop_on_failure E hci status
            (bte_hci_vendor_command E hci HCI_VENDOR_PATCH_START_OCF [0] 1 (Some WII_ON_PATCH_START_DONE) userdata) s }"

definition wii_on_bd_addr_done :: "'a env \<Rightarrow> hci_ptr \<Rightarrow> hci_arg \<Rightarrow> u64 \<Rightarrow> 'a dev \<Rightarrow> 'a dev option" where
  "wii_on_bd_addr_done E hci reply userdata s =
     do { status \<leftarrow> reply_status reply;
          stop_on_failure E hci status
            (bte_hci_read_local_features E hci (Some WII_ON_READ_LOCAL_FEATURES) userdata) s }"

definition wii_on_read_local_version_done :: "'a env \<Rightarrow> hci_ptr \<Rightarrow> hci_arg \<Rightarrow> u64 \<Rightarrow> 'a dev \<Rightarrow> 'a dev option" where
  "wii_on_read_local_version_done E hci reply userdata s =
     do { status \<leftarrow> reply_status reply;
          stop_on_failure E hci status (bte_hci_read_bd_addr E hci (Some WII_ON_BD_ADDR_DONE) userdata) s }"

definition wii_on_buffer_size_done :: "'a env \<Rightarrow> hci_ptr \<Rightarrow> hci_arg \<Rightarrow> u64 \<Rightarrow> 'a dev \<Rightarrow> 'a dev option" where
  "wii_on_buffer_size_done E hci reply userdata s =
     do { status \<leftarrow> reply_status reply;
          stop_on_failure E hci status
            (\<lambda>s. do { s \<leftarrow> set_buffer_size_from reply s;
                      bte_hci_read_local_version E hci (Some WII_ON_READ_LOCAL_VERSION_DONE) userdata s }) s }"

definition wii_on_reset_done :: "'a env \<Rightarrow> hci_ptr \<Rightarrow> hci_arg \<Rightarrow> u64 \<Rightarrow> 'a dev \<Rightarrow> 'a dev option" where
  "wii_on_reset_done E hci reply userdata s =
     do { status \<leftarrow> reply_status reply;
          stop_on_failure E hci status (bte_hci_read_buffer_size E hci (Some WII_ON_BUFFER_SIZE_DONE) userdata) s }"

definition wii_init :: "'a env \<Rightarrow> nat option \<Rightarrow> u64 \<Rightarrow> 'a dev \<Rightarrow> (int \<times> 'a dev) option" where
  "wii_init E p dev s =
     do { (client, s) \<leftarrow> bte_client_new E p s;
          client \<leftarrow> client;
          s \<leftarrow> bte_client_set_userdata client dev s;
          s \<leftarrow> bte_hci_reset E (Some client) (Some WII_ON_RESET_DONE) dev s;
          Some (0, s) }"

fun wii_client :: "'a env \<Rightarrow> nat \<Rightarrow> hci_call \<Rightarrow> 'a dev \<Rightarrow> (bool \<times> 'a dev) option" where
  "wii_client E 0 c s =
     (if call_cb c \<in> {WII_ON_RESET_DONE..WII_ON_RESET_PATCHED_DONE} then None else env_client E c s)"
| "wii_client E (Suc n) c s =
     (let inner = E\<lparr>env_client := wii_client E n\<rparr>;
          run = (\<lambda>f. do { s \<leftarrow> f inner (call_hci c) (call_arg c) (call_userdata c) s; Some (False, s) })
      in if call_cb c = WII_ON_RESET_DONE then run wii_on_reset_done
         else if call_cb c = WII_ON_BUFFER_SIZE_DONE then run wii_on_buffer_size_done
         else if call_cb c = WII_ON_READ_LOCAL_VERSION_DONE then run wii_on_read_local_version_done
         else if call_cb c = WII_ON_BD_ADDR_DONE then run wii_on_bd_addr_done
         else if call_cb c = WII_ON_READ_LOCAL_FEATURES then run wii_on_read_local_features
         else if call_cb c = WII_ON_PATCH_START_DONE then run wii_on_patch_start_done
         else if call_cb c = WII_ON_PATCH_CONT_DONE then run wii_on_patch_cont_done
         else if call_cb c = WII_ON_PATCH_END_DONE then run wii_on_patch_end_done
         else if call_cb c = WII_ON_RESET_PATCHED_DONE then run wii_on_reset_patched_done
         else env_client E c s)"

definition wii_env :: "'a env \<Rightarrow> nat option \<Rightarrow> u64 \<Rightarrow> 'a env" where
  "wii_env E p dev =
     (let inner = E\<lparr>env_client := wii_client E 6\<rparr> in inner\<lparr>driver_init := wii_init inner p dev\<rparr>)"

end
