(* ===== verification/DriverStart.thy ===== *)
theory DriverStart
  imports Drivers
begin

text \<open>
  Bringing a controller up. The interface of \<^verbatim>\<open>driver.h\<close> is the locale \<open>startup_driver\<close>: a list of commands, what the
  callback of each does, and that the last one ends the initialisation. Its lemmas follow the replies of the controller
  from the first command to the clients' callbacks; both drivers are instances.
\<close>

section \<open>The device between two commands\<close>

definition idle :: "'a dev \<Rightarrow> bool" where
  "idle s \<longleftrightarrow> dev_ok s \<and> table s = replicate 8 None"

text \<open>Everything but the pending commands, their counters and the wire.\<close>

definition core :: "'a dev \<Rightarrow> 'a dev" where
  "core s = s\<lparr>pending_commands := [], num_pending_commands := 0, command_wire := [], num_packets := 0\<rparr>"

lemma core_fields:
  assumes "core s = core t"
  shows "init_status s = init_status t" "clients s = clients t" "client_heap s = client_heap t" "event_handlers s = event_handlers t"
    "info_flags s = info_flags t" "acl_available_packets s = acl_available_packets t"
  using assms by (simp_all add: core_def bte_hci_dev.equality) (metis bte_hci_dev.simps bte_hci_dev.surjective)+

text \<open>A command of a driver: its packet, its callback, and a reply of the controller.\<close>

record startup_step =
  st_ocf :: u16
  st_ogf :: byte
  st_params :: mem
  st_fun :: command_cb
  st_cb :: nat
  st_checked :: bool
  st_rest :: mem

definition step_opcode :: "startup_step \<Rightarrow> u16" where
  "step_opcode st = build_opcode (st_ocf st) (st_ogf st)"

definition step_packet :: "startup_step \<Rightarrow> mem" where
  "step_packet st = cmd_packet (st_ocf st) (st_ogf st) (st_params st)"

definition command_reply :: "u16 \<Rightarrow> byte \<Rightarrow> mem \<Rightarrow> bte_buffer" where
  "command_reply opcode np params = \<lparr>ref_count = 1, total_size = of_nat (length params + 5), size = of_nat (length params + 5),
     data = [HCI_COMMAND_COMPLETE, of_nat (length params + 3), np] @ le_bytes 2 opcode @ params\<rparr>"

definition awaits :: "nat \<Rightarrow> u64 \<Rightarrow> startup_step \<Rightarrow> 'a dev \<Rightarrow> bool" where
  "awaits p dev st s \<longleftrightarrow> dev_ok s \<and> table s = Some (cmd_rules HCI_COMMAND_COMPLETE (step_opcode st)) # replicate 7 None \<and>
     (\<exists>m. pending_commands s ! 0 = pending_entry m (Some p) (Cmd_complete (st_fun st) (Some (st_cb st))) dev)"

definition issued :: "nat \<Rightarrow> u64 \<Rightarrow> startup_step \<Rightarrow> 'a dev \<Rightarrow> 'a dev option \<Rightarrow> bool" where
  "issued p dev st s r \<longleftrightarrow> (\<exists>s'. r = Some s' \<and> awaits p dev st s' \<and> core s' = core s \<and>
     command_wire s' = command_wire s @ [step_packet st])"

lemma idle_slot: "alloc_slot rs (replicate 8 None) = Some 0"
  using alloc_slot_empty [of rs 7] by simp

lemma issue_when_idle:
  assumes "idle s" "unat len = 3 + length (st_params st)"
    and "\<And>t. K (Some (cmd_buffer E s (st_ocf st) (st_ogf st) len)) t =
      send_filled E (cmd_buffer E s (st_ocf st) (st_ogf st) len) (cmd_header (st_ocf st) (st_ogf st) len @ st_params st) t"
  shows "issued p dev st s
    (do { (b, s1) \<leftarrow> bte_hci_dev_add_pending_command E (Some p) (st_ocf st) (st_ogf st) len (st_fun st) (Some (st_cb st)) dev s; K b s1 })"
proof -
  have ok: "dev_ok s" "table s = replicate 8 None" using assms(1) by (simp_all add: idle_def)
  have l: "3 \<le> unat len" using assms(2) by simp
  obtain m where m: "represents m (cmd_rules HCI_COMMAND_COMPLETE (step_opcode st))"
      "bte_hci_dev_add_pending_command E (Some p) (st_ocf st) (st_ogf st) len (st_fun st) (Some (st_cb st)) dev s =
        Some (Some (cmd_buffer E s (st_ocf st) (st_ogf st) len),
              set_slot 0 (pending_entry m (Some p) (Cmd_complete (st_fun st) (Some (st_cb st))) dev) s)"
    using add_command_spec [OF ok(1) l base_client_cb.simps(1) refl, of HCI_COMMAND_COMPLETE "st_ocf st" "st_ogf st" E "Some p" "st_fun st" "Some (st_cb st)" dev] ok(2)
    by (auto simp: bte_hci_dev_add_pending_command_def idle_slot step_opcode_def)
  let ?s = "set_slot 0 (pending_entry m (Some p) (Cmd_complete (st_fun st) (Some (st_cb st))) dev) s"
  have ne: "cmd_rules HCI_COMMAND_COMPLETE (step_opcode st) \<noteq> []" by (simp add: cmd_rules_def)
  have s1: "dev_ok ?s" "table ?s = (table s)[0 := Some (cmd_rules HCI_COMMAND_COMPLETE (step_opcode st))]"
    using set_slot_spec [OF ok(1) _ ne, of "pending_entry m (Some p) (Cmd_complete (st_fun st) (Some (st_cb st))) dev" 0] m(1) ok(2) by simp_all
  let ?t = "?s\<lparr>command_wire := command_wire ?s @ [cmd_packet (st_ocf st) (st_ogf st) (st_params st)]\<rparr>"
  have "length (pending_commands s) = 8" using ok(1) by (simp add: dev_ok_def)
  then have "awaits p dev st ?t" using s1 ok(2) by (auto simp: awaits_def dev_ok_def table_def set_slot_def eval_nat_numeral)
  moreover have "core ?t = core s" "command_wire ?t = command_wire s @ [step_packet st]"
    by (simp_all add: core_def set_slot_def step_packet_def)
  moreover have "K (Some (cmd_buffer E s (st_ocf st) (st_ogf st) len)) ?s = Some ?t"
    unfolding assms(3) by (rule send_filled_packet [OF assms(2)])
  ultimately show ?thesis using m(2) unfolding issued_def by simp
qed

lemma command_reply_fits:
  assumes "length params < 200"
  shows "unat (size (command_reply opcode np params)) = length params + 5" "length (data (command_reply opcode np params)) = length params + 5"
    "packet_bytes (command_reply opcode np params) = data (command_reply opcode np params)"
proof -
  show u: "unat (size (command_reply opcode np params)) = length params + 5"
    unfolding command_reply_def bte_buffer.simps by (subst unat_of_nat) (use assms in simp)
  show l: "length (data (command_reply opcode np params)) = length params + 5" by (simp add: command_reply_def)
  show "packet_bytes (command_reply opcode np params) = data (command_reply opcode np params)" using u l by (simp add: packet_bytes_def)
qed

lemma reply_delivered:
  assumes "awaits p dev st s" "length params < 200"
  shows "\<exists>s2. deliver_reply_to_client D (command_reply (step_opcode st) np params) s =
      d_command_cb D (st_fun st) (Some p) (command_reply (step_opcode st) np params) (Some (st_cb st)) dev s2 \<and>
    idle s2 \<and> core s2 = core s \<and> command_wire s2 = command_wire s"
proof -
  let ?rs = "cmd_rules HCI_COMMAND_COMPLETE (step_opcode st)" and ?b = "command_reply (step_opcode st) np params"
  obtain m where a: "dev_ok s" "table s = Some ?rs # replicate 7 None"
      "pending_commands s ! 0 = pending_entry m (Some p) (Cmd_complete (st_fun st) (Some (st_cb st))) dev"
    using assms(1) by (auto simp: awaits_def)
  note b = command_reply_fits [OF assms(2), of "step_opcode st" np]
  have "list_all (rule_matches (packet_bytes ?b)) ?rs"
    unfolding b(3) by (rule cmd_rules_hit) (simp_all add: command_reply_def eval_nat_numeral)
  then have "first_index (hits (packet_bytes ?b)) (table s) = Some 0" unfolding a(2) by (simp add: hits_def)
  then have f: "bte_hci_dev_find_pending_command ?b s = Some (Some 0)"
    using find_spec [OF a(1), of "unat (size ?b)" "data ?b"] b(1,2) by (simp add: bte_hci_dev_find_pending_command_def packet_bytes_def)
  have len: "length (pending_commands s) = 8" using a(1) by (simp add: dev_ok_def)
  have g: "get_pc s 0 = Some (pending_entry m (Some p) (Cmd_complete (st_fun st) (Some (st_cb st))) dev)"
    using a(3) len by (simp add: get_pc_def)
  obtain s2 where s2: "bte_hci_dev_free_command 0 s = Some s2" "dev_ok s2" "table s2 = (table s)[0 := None]"
    using free_spec [OF a(1), of 0] a(2) by auto
  have "core s2 = core s" "command_wire s2 = command_wire s"
    using s2(1) len by (auto simp: bte_hci_dev_free_command_def get_pc_def put_pc_def core_def)
  moreover have "idle s2" using s2(2,3) a(2) by (simp add: idle_def eval_nat_numeral)
  ultimately show ?thesis using f g s2(1) by (auto simp: deliver_reply_to_client_def)
qed

definition step_reply :: "startup_step \<Rightarrow> byte \<Rightarrow> byte \<Rightarrow> bte_buffer" where
  "step_reply st np status = command_reply (step_opcode st) np (status # st_rest st)"

definition step_ok :: "startup_step \<Rightarrow> bool" where
  "step_ok st \<longleftrightarrow> step_opcode st AND 0x3ff = st_ocf st \<and> ucast (drop_bit 10 (step_opcode st)) = st_ogf st \<and> length (st_rest st) < 199 \<and>
     (st_ogf st = HCI_INFO_PARAM_OGF \<and> st_ocf st = HCI_R_LOC_FEAT_OCF \<longrightarrow> 8 \<le> length (st_rest st))"

text \<open>What \<^verbatim>\<open>hci_dev.c\<close> itself takes from a reply.\<close>

definition noted :: "startup_step \<Rightarrow> byte \<Rightarrow> 'a dev \<Rightarrow> 'a dev" where
  "noted st status s =
     (if st_ogf st = HCI_INFO_PARAM_OGF \<and> st_ocf st = HCI_R_LOC_FEAT_OCF
      then s\<lparr>supported_features := (if status = 0 then le_val (take 8 (st_rest st)) else 0),
             info_flags := info_flags s OR BTE_HCI_INFO_GOT_FEATURES\<rparr>
      else s)"

definition step_run :: "'a env \<Rightarrow> nat \<Rightarrow> u64 \<Rightarrow> startup_step \<Rightarrow> byte \<Rightarrow> byte \<Rightarrow> 'a dev \<Rightarrow> 'a dev option" where
  "step_run E p dev st np status = run_command_cb E (st_fun st) (Some p) (step_reply st np status) (Some (st_cb st)) dev"

lemma noted_core: "core (noted st status s) = noted st status (core s)" "idle (noted st status s) = idle s"
  "awaits p dev x (noted st status s) = awaits p dev x s" "command_wire (noted st status s) = command_wire s"
  by (simp_all add: noted_def core_def idle_def awaits_def dev_ok_def table_def)

lemma step_event:
  assumes "awaits p dev st s" "step_ok st"
  shows "\<exists>s2. bte_hci_dev_handle_event E (hci_dispatch E on_data) (step_reply st np status) s =
      do { s \<leftarrow> step_run E p dev st np status s2;
           s \<leftarrow> run_event_handler (hci_dispatch E on_data) HCI_COMMAND_COMPLETE (step_reply st np status) s;
           Some (0, s) } \<and>
    idle s2 \<and> core s2 = core (noted st status s) \<and> command_wire s2 = command_wire s"
proof -
  let ?b = "step_reply st np status" and ?D = "hci_dispatch E on_data"
  let ?n = "noted st status (s\<lparr>num_packets := uint np\<rparr>)"
  have len: "length (status # st_rest st) < 200" using assms(2) by (simp add: step_ok_def)
  have a: "awaits p dev st ?n" using assms(1) unfolding noted_core by (simp add: awaits_def dev_ok_def table_def)
  obtain s2 where s2: "deliver_reply_to_client ?D ?b ?n = step_run E p dev st np status s2" "idle s2" "core s2 = core ?n"
      "command_wire s2 = command_wire ?n"
    using reply_delivered [OF a len, of ?D np] by (auto simp: step_reply_def step_run_def hci_dispatch_def)
  have d: "data ?b = [HCI_COMMAND_COMPLETE, of_nat (length (st_rest st) + 4), np] @ le_bytes 2 (step_opcode st) @ [status] @ st_rest st"
    by (simp add: step_reply_def command_reply_def)
  have "unat (of_nat (length (st_rest st) + 4) :: byte) = length (st_rest st) + 4"
    using len by (subst unat_of_nat) simp
  then have l3: "\<not> of_nat (length (st_rest st) + 4) < (3 :: byte)" by (simp only: word_less_nat_alt) simp
  have rd: "rd8 (data ?b) 0 = Some HCI_COMMAND_COMPLETE" "rd8 (data ?b) 1 = Some (of_nat (length (st_rest st) + 4))" "rd8 (data ?b) 2 = Some np"
      "read_le16 (data ?b) 3 = Some (step_opcode st)" "rd8 (data ?b) 5 = Some status"
      "8 \<le> length (st_rest st) \<Longrightarrow> read_le64 (data ?b) 6 = Some (le_val (take 8 (st_rest st)))"
    unfolding d by (simp_all add: parse_simps)
  have "(if st_ogf st = HCI_INFO_PARAM_OGF then handle_info_param (st_ocf st) (data ?b) 5 (s\<lparr>num_packets := uint np\<rparr>)
      else if st_ogf st = HCI_HC_BB_OGF then handle_host_control (st_ocf st) (data ?b) 5 (s\<lparr>num_packets := uint np\<rparr>)
      else Some (s\<lparr>num_packets := uint np\<rparr>)) = Some ?n"
    using rd(5,6) assms(2) by (auto simp: handle_info_param_def handle_host_control_def noted_def step_ok_def)
  note info = this
  have oc: "step_opcode st AND 0x3ff = st_ocf st" "ucast (drop_bit 10 (step_opcode st)) = st_ogf st" using assms(2) by (simp_all add: step_ok_def)
  have "handle_command_complete ?D ?b (of_nat (length (st_rest st) + 4)) s = step_run E p dev st np status s2"
    unfolding handle_command_complete_def rd Option.bind.simps Let_def oc info if_not_P [OF l3] by (rule s2(1))
  then have "bte_hci_dev_handle_event E ?D ?b s = do { s \<leftarrow> step_run E p dev st np status s2;
      s \<leftarrow> run_event_handler ?D HCI_COMMAND_COMPLETE ?b s; Some (0, s) }"
    unfolding bte_hci_dev_handle_event_def rd Option.bind.simps by simp
  moreover have "core (s\<lparr>num_packets := uint np\<rparr>) = core s" by (simp add: core_def)
  then have "core ?n = core (noted st status s)" "command_wire ?n = command_wire s" by (simp_all add: noted_core)
  ultimately show ?thesis using s2 by auto
qed

section \<open>Drivers\<close>

text \<open>No handler is installed for the event that carries replies.\<close>

definition no_handler :: "'a dev \<Rightarrow> bool" where
  "no_handler s \<longleftrightarrow> event_handlers s ! 14 = None \<and> 14 < length (event_handlers s)"

lemma no_handler_run: "no_handler s \<Longrightarrow> run_event_handler D HCI_COMMAND_COMPLETE b s = Some s"
  by (simp add: no_handler_def run_event_handler_def bte_hci_dev_handler_for_event_def get_handler_def)

fun handle_events :: "'a env \<Rightarrow> 'a hci_dispatch \<Rightarrow> bte_buffer list \<Rightarrow> 'a dev \<Rightarrow> 'a dev option" where
  "handle_events E D [] s = Some s"
| "handle_events E D (b # bs) s = do { (_, s) \<leftarrow> bte_hci_dev_handle_event E D b s; handle_events E D bs s }"

text \<open>
  A driver: the commands it sends, in order, and what the callback of each takes from its reply. \<open>E\<close> is the
  environment in which events are handled and \<open>I\<close> the one that a callback sees.
\<close>

locale startup_driver =
  fixes E I :: "'a env" and p :: nat and dev :: u64 and steps :: "startup_step list"
    and taken :: "startup_step \<Rightarrow> byte \<Rightarrow> 'a dev \<Rightarrow> 'a dev"
  assumes steps_ok: "steps \<noteq> [] \<and> list_all step_ok steps"
    and taken_law: "core (taken st status t) = taken st status (core t) \<and> idle (taken st status t) = idle t \<and>
      command_wire (taken st status t) = command_wire t \<and> event_handlers (taken st status t) = event_handlers t \<and>
      clients (taken st status t) = clients t \<and> client_heap (taken st status t) = client_heap t"
    and next_law: "Suc i < length steps \<Longrightarrow> idle t \<Longrightarrow> status = 0 \<or> \<not> st_checked (steps ! i) \<Longrightarrow>
      issued p dev (steps ! Suc i) (taken (steps ! i) status t) (step_run E p dev (steps ! i) np status t)"
    and last_law: "idle t \<Longrightarrow> step_run E p dev (last steps) np 0 t = initialization_done I p (taken (last steps) 0 t)"
    and fail_law: "st \<in> set steps \<Longrightarrow> st_checked st \<Longrightarrow> status \<noteq> 0 \<Longrightarrow> idle t \<Longrightarrow>
      \<exists>k t'. step_run E p dev st np status t = stop_on_failure I (Some p) status k t' \<and> idle t' \<and>
        clients t' = clients t \<and> client_heap t' = client_heap t \<and> event_handlers t' = event_handlers t"
begin

abbreviation step_effect :: "startup_step \<times> byte \<Rightarrow> 'a dev \<Rightarrow> 'a dev" where
  "step_effect \<equiv> \<lambda>(st, status) s. taken st status (noted st status s)"

lemma step_effect_core: "core (step_effect x s) = step_effect x (core s)" "core s = core t \<Longrightarrow> core (step_effect x s) = core (step_effect x t)"
  using taken_law by (auto simp: noted_core split_beta)

lemma replies_run:
  assumes "sts = drop i steps" "sts \<noteq> []" "length rs = length sts" "awaits p dev (hd sts) s" "no_handler s"
    and "\<forall>(st, np, status) \<in> set (zip sts rs). status = 0 \<or> \<not> st_checked st" "snd (last rs) = 0"
  shows "\<exists>t. handle_events E (hci_dispatch E on_data) (map2 (\<lambda>st (np, status). step_reply st np status) sts rs) s =
      do { s \<leftarrow> initialization_done I p t;
           run_event_handler (hci_dispatch E on_data) HCI_COMMAND_COMPLETE (step_reply (last sts) (fst (last rs)) 0) s } \<and>
    idle t \<and> core t = fold step_effect (zip sts (map snd rs)) (core s) \<and> command_wire t = command_wire s @ map step_packet (tl sts)"
  using assms
proof (induction sts arbitrary: i rs s)
  case (Cons st sts)
  obtain np status rs' where rs: "rs = (np, status) # rs'" using Cons.prems(3) by (cases rs) auto
  have "i < length steps" using Cons.prems(1) by (metis drop_eq_Nil leI list.distinct(1))
  then have i: "i < length steps" "st = steps ! i" "sts = drop (Suc i) steps"
    using Cons.prems(1) Cons_nth_drop_Suc [of i steps] by (metis list.inject)+
  have ok: "step_ok st" using steps_ok i(1,2) by (simp add: list_all_length)
  let ?D = "hci_dispatch E on_data"
  have aw: "awaits p dev st s" using Cons.prems(4) by simp
  obtain s2 where s2: "bte_hci_dev_handle_event E ?D (step_reply st np status) s =
      do { s \<leftarrow> step_run E p dev st np status s2; s \<leftarrow> run_event_handler ?D HCI_COMMAND_COMPLETE (step_reply st np status) s; Some (0, s) }"
      "idle s2" "core s2 = core (noted st status s)" "command_wire s2 = command_wire s"
    using step_event [OF aw ok, of E on_data np status] by blast
  have ce: "core (taken st status s2) = step_effect (st, status) (core s)"
    using s2(3) taken_law noted_core(1) by (metis case_prod_conv)
  show ?case
  proof (cases "sts = []")
    case True
    then have r: "rs' = []" using Cons.prems(3) rs by simp
    then have "status = 0" using Cons.prems(7) rs by simp
    moreover have "last steps = st" using Cons.prems(1) True i(1) by (metis last.simps last_drop)
    ultimately have "rs' = []" "st = last steps" "status = 0" using r by simp_all
    then show ?thesis
      using s2 last_law [OF s2(2)] ce taken_law True rs by (intro exI [of _ "taken st status s2"]) (auto simp: bind_assoc)
  next
    case False
    then have si: "Suc i < length steps" using i(3) by (metis drop_eq_Nil leI)
    have h: "hd sts = steps ! Suc i" using i(3) si by (simp add: hd_drop_conv_nth)
    have cond: "status = 0 \<or> \<not> st_checked (steps ! i)" using Cons.prems(6) rs i(2) by auto
    from next_law [OF si s2(2) cond, of np] obtain s3 where s3: "step_run E p dev st np status s2 = Some s3" "awaits p dev (hd sts) s3"
        "core s3 = core (taken st status s2)" "command_wire s3 = command_wire s @ [step_packet (hd sts)]"
      unfolding issued_def h using i(2) s2(4) taken_law by auto
    have "event_handlers s3 = event_handlers s"
      using core_fields(4) [OF s3(3)] core_fields(4) [OF s2(3)] taken_law by (simp add: noted_def)
    then have nh: "no_handler s3" using Cons.prems(5) by (simp add: no_handler_def)
    have "rs' \<noteq> []" using Cons.prems(3) rs False by auto
    then have "snd (last rs') = 0" "length rs' = length sts" "\<forall>(st, np, status) \<in> set (zip sts rs'). status = 0 \<or> \<not> st_checked st"
      using Cons.prems(3,6,7) rs False by auto
    from Cons.IH [OF i(3) False this(2) s3(2) nh this(3,1)] obtain t where t:
        "handle_events E ?D (map2 (\<lambda>st (np, status). step_reply st np status) sts rs') s3 =
          do { s \<leftarrow> initialization_done I p t; run_event_handler ?D HCI_COMMAND_COMPLETE (step_reply (last sts) (fst (last rs')) 0) s }"
        "idle t" "core t = fold step_effect (zip sts (map snd rs')) (core s3)" "command_wire t = command_wire s3 @ map step_packet (tl sts)" by blast
    have "command_wire t = command_wire s @ map step_packet sts" using t(4) s3(4) False by (cases sts) auto
    moreover have "core t = fold step_effect (zip (st # sts) (map snd rs)) (core s)" using t(3) s3(3) ce rs by simp
    moreover have "last rs = last rs'" using rs False Cons.prems(3) by auto
    ultimately show ?thesis using t(1,2) s2(1) s3(1) no_handler_run [OF nh] rs False by auto
  qed
qed simp

end

section \<open>The end of the initialisation\<close>

lemma idle_not_busy:
  assumes "idle s" "i < 8"
  shows "\<not> busy (pending_commands s ! i)" "length (pending_commands s) = 8"
proof -
  show l: "length (pending_commands s) = 8" using assms(1) by (simp add: idle_def dev_ok_def)
  have "table s ! i = None" using assms by (simp add: idle_def)
  then show "\<not> busy (pending_commands s ! i)" using assms(2) l by (simp add: table_def split: if_splits)
qed

lemma dispose_idle: "idle s \<Longrightarrow> set is \<subseteq> {..<8} \<Longrightarrow> hci_dev_dispose_loop hci is s = Some s"
proof (induction "is")
  case (Cons i "is")
  have b: "bte_data_matcher_is_empty (pc_matcher (pending_commands s ! i))" "length (pending_commands s) = 8"
    using idle_not_busy [OF Cons.prems(1), of i] Cons.prems(2) by (simp_all add: busy_def)
  show ?case using b Cons by (simp add: get_pc_def)
qed simp

text \<open>Two clients: that of the driver, and one that waits to be told.\<close>

definition starting :: "nat \<Rightarrow> nat \<Rightarrow> nat \<Rightarrow> u64 \<Rightarrow> 'a dev \<Rightarrow> bool" where
  "starting p u cb ud s \<longleftrightarrow> clients s = [Some p, Some u, None, None] \<and> p \<noteq> u \<and>
     (\<exists>c. client_heap s p = Some c \<and> c_ref_count c = 1 \<and> tmp_client_cb (last_async_cmd_data c) = None) \<and>
     (\<exists>d. client_heap s u = Some d \<and> tmp_client_cb (last_async_cmd_data d) = Some cb \<and> tmp_userdata (last_async_cmd_data d) = Some ud)"

text \<open>
  The client is told: its callback is called and may do anything; the clients behind it that have been registered by
  then are told as well.
\<close>

definition telling :: "'a env \<Rightarrow> 'a env \<Rightarrow> bool \<Rightarrow> nat \<Rightarrow> nat \<Rightarrow> u64 \<Rightarrow> 'a dev \<Rightarrow> 'a dev option" where
  "telling E I success u cb ud s =
     do { s \<leftarrow> call_client_void E (Some cb) (Some u) (Initialized success) ud s; set_status_loop I success [2, 3] s }"

lemma upt4: "[0..<4] = [0, 1, 2, 3]"
  by (simp add: upt_rec)

lemma unref_idle:
  assumes "idle s" "client_heap s p = Some c" "c_ref_count c = 1" "clients s = [Some p, Some u, None, None]" "p \<noteq> u"
  shows "bte_client_unref I p s = Some (s\<lparr>clients := [None, Some u, None, None], client_heap := (client_heap s)(p := None)\<rparr>)"
proof -
  let ?s = "s\<lparr>client_heap := (client_heap s)(p \<mapsto> c\<lparr>c_ref_count := 0\<rparr>)\<rparr>"
  have i: "idle ?s" using assms(1) by (simp add: idle_def dev_ok_def table_def)
  have "hci_dev_dispose (Some p) ?s = Some ?s"
    unfolding hci_dev_dispose_def by (rule dispose_idle [OF i]) auto
  then show ?thesis
    using assms(2-5) by (simp add: bte_client_unref_def get_client_def put_client_def bte_client_free_def bte_hci_dev_remove_client_def)
qed

lemma set_status_tells:
  assumes "clients t = [x, Some u, None, None]" "client_heap t u = Some d" "tmp_client_cb (last_async_cmd_data d) = Some cb"
    "tmp_userdata (last_async_cmd_data d) = Some ud"
    "\<forall>p. x = Some p \<longrightarrow> (\<exists>c. client_heap t p = Some c \<and> tmp_client_cb (last_async_cmd_data c) = None)"
  shows "set_status_loop I success [0..<BTE_HCI_MAX_CLIENTS] t = telling I I success u cb ud t"
proof -
  have "set_status_loop I success (0 # 1 # is) t =
      do { s \<leftarrow> call_client_void I (Some cb) (Some u) (Initialized success) ud t; set_status_loop I success is s }" for "is"
    using assms by (cases x) (auto simp: get_tmp_def get_client_def)
  from this [of "[2, 3]"] show ?thesis by (simp only: upt4 telling_def)
qed

lemma initialization_done_spec:
  assumes "idle s" "starting p u cb ud s"
  shows "initialization_done I p s = telling I I True u cb ud (s\<lparr>clients := [None, Some u, None, None],
    client_heap := (client_heap s)(p := None), init_status := BTE_HCI_INIT_STATUS_INITIALIZED\<rparr>)"
proof -
  obtain c d where s: "clients s = [Some p, Some u, None, None]" "p \<noteq> u" "client_heap s p = Some c" "c_ref_count c = 1"
      "client_heap s u = Some d" "tmp_client_cb (last_async_cmd_data d) = Some cb" "tmp_userdata (last_async_cmd_data d) = Some ud"
    using assms(2) by (auto simp: starting_def)
  let ?t = "s\<lparr>clients := [None, Some u, None, None], client_heap := (client_heap s)(p := None), init_status := BTE_HCI_INIT_STATUS_INITIALIZED\<rparr>"
  have "set_status_loop I True [0..<BTE_HCI_MAX_CLIENTS] ?t = telling I I True u cb ud ?t"
    by (rule set_status_tells [OF _ _ s(6,7), where x = None]) (use s in simp_all)
  then have "bte_hci_dev_set_status I BTE_HCI_INIT_STATUS_INITIALIZED (s\<lparr>clients := [None, Some u, None, None], client_heap := (client_heap s)(p := None)\<rparr>) =
      telling I I True u cb ud ?t"
    by (simp add: bte_hci_dev_set_status_def)
  then show ?thesis unfolding initialization_done_def unref_idle [OF assms(1) s(3,4,1,2)] Option.bind.simps .
qed

lemma stop_spec:
  assumes "starting p u cb ud s" "status \<noteq> 0"
  shows "stop_on_failure I (Some p) status k s =
    do { s \<leftarrow> telling I I False u cb ud (s\<lparr>init_status := BTE_HCI_INIT_STATUS_FAILED\<rparr>); bte_client_unref I p s }"
proof -
  obtain c d where s: "clients s = [Some p, Some u, None, None]" "client_heap s p = Some c"
      "tmp_client_cb (last_async_cmd_data c) = None"
      "client_heap s u = Some d" "tmp_client_cb (last_async_cmd_data d) = Some cb" "tmp_userdata (last_async_cmd_data d) = Some ud"
    using assms(1) by (auto simp: starting_def)
  have "bte_hci_dev_set_status I BTE_HCI_INIT_STATUS_FAILED s = telling I I False u cb ud (s\<lparr>init_status := BTE_HCI_INIT_STATUS_FAILED\<rparr>)"
    using set_status_tells [OF _ _ s(5,6), of "s\<lparr>init_status := BTE_HCI_INIT_STATUS_FAILED\<rparr>" "Some p"] s by (simp add: bte_hci_dev_set_status_def)
  then show ?thesis using assms(2) by (simp add: stop_on_failure_def)
qed

definition good_replies :: "startup_step list \<Rightarrow> (byte \<times> byte) list \<Rightarrow> bool" where
  "good_replies sts rs \<longleftrightarrow> length rs = length sts \<and> (\<forall>(st, np, status) \<in> set (zip sts rs). status = 0 \<or> \<not> st_checked st) \<and> snd (last rs) = 0"

definition step_replies :: "startup_step list \<Rightarrow> (byte \<times> byte) list \<Rightarrow> bte_buffer list" where
  "step_replies = map2 (\<lambda>st (np, status). step_reply st np status)"

lemma starting_core: "core s = core t \<Longrightarrow> starting p u cb ud s = starting p u cb ud t"
  using core_fields(2,3) [of s t] by (simp add: starting_def)

lemma starting_fields: "clients s = clients t \<Longrightarrow> client_heap s = client_heap t \<Longrightarrow> starting p u cb ud s = starting p u cb ud t"
  by (simp add: starting_def)

context startup_driver
begin

lemma effects_keep:
  "clients (fold step_effect xs s) = clients s \<and> client_heap (fold step_effect xs s) = client_heap s \<and>
   event_handlers (fold step_effect xs s) = event_handlers s"
proof (induction xs arbitrary: s)
  case (Cons x xs)
  then show ?case using taken_law by (cases x) (simp add: noted_def)
qed simp

lemma starts_up:
  assumes "awaits p dev (hd steps) s" "starting p u cb ud s" "no_handler s" "good_replies steps rs"
  shows "\<exists>t. handle_events E (hci_dispatch E on_data) (step_replies steps rs) s =
      do { s \<leftarrow> telling I I True u cb ud t;
           run_event_handler (hci_dispatch E on_data) HCI_COMMAND_COMPLETE (step_reply (last steps) (fst (last rs)) 0) s } \<and>
    idle t \<and> no_handler t \<and> command_wire t = command_wire s @ map step_packet (tl steps) \<and>
    core t = (fold step_effect (zip steps (map snd rs)) (core s))\<lparr>clients := [None, Some u, None, None],
      client_heap := (client_heap s)(p := None), init_status := BTE_HCI_INIT_STATUS_INITIALIZED\<rparr>"
proof -
  have r: "length rs = length steps" "snd (last rs) = 0" "\<forall>(st, np, status) \<in> set (zip steps rs). status = 0 \<or> \<not> st_checked st"
    using assms(4) by (simp_all add: good_replies_def)
  have d0: "steps = drop 0 steps" and ne: "steps \<noteq> []" using steps_ok by simp_all
  let ?D = "hci_dispatch E on_data"
  obtain t where t: "handle_events E ?D (step_replies steps rs) s =
      do { s \<leftarrow> initialization_done I p t; run_event_handler ?D HCI_COMMAND_COMPLETE (step_reply (last steps) (fst (last rs)) 0) s }"
      "idle t" "core t = fold step_effect (zip steps (map snd rs)) (core s)" "command_wire t = command_wire s @ map step_packet (tl steps)"
    using replies_run [OF d0 ne r(1) assms(1,3) r(3,2), of on_data] unfolding step_replies_def by blast
  have k: "clients (core t) = clients (core s)" "client_heap (core t) = client_heap (core s)" "event_handlers (core t) = event_handlers (core s)"
    unfolding t(3) using effects_keep by blast+
  then have st: "starting p u cb ud t" using assms(2) starting_fields [of t s] by (simp add: core_def)
  let ?t = "t\<lparr>clients := [None, Some u, None, None], client_heap := (client_heap t)(p := None), init_status := BTE_HCI_INIT_STATUS_INITIALIZED\<rparr>"
  have "no_handler ?t" using assms(3) k(3) by (simp add: no_handler_def core_def)
  moreover have "idle ?t" using t(2) by (simp add: idle_def dev_ok_def table_def)
  moreover have "core ?t = (core t)\<lparr>clients := [None, Some u, None, None], client_heap := (client_heap s)(p := None), init_status := BTE_HCI_INIT_STATUS_INITIALIZED\<rparr>"
    using k(2) by (simp add: core_def)
  ultimately show ?thesis
    using t(1,4) unfolding t(3) initialization_done_spec [OF t(2) st] by (intro exI [of _ ?t]) simp
qed

lemma fails:
  assumes "awaits p dev st s" "st \<in> set steps" "st_checked st" "status \<noteq> 0" "starting p u cb ud s"
  shows "\<exists>f. bte_hci_dev_handle_event E (hci_dispatch E on_data) (step_reply st np status) s =
      do { s \<leftarrow> telling I I False u cb ud f; s \<leftarrow> bte_client_unref I p s;
           s \<leftarrow> run_event_handler (hci_dispatch E on_data) HCI_COMMAND_COMPLETE (step_reply st np status) s; Some (0, s) } \<and>
    init_status f = BTE_HCI_INIT_STATUS_FAILED \<and> idle f \<and> clients f = clients s \<and> client_heap f = client_heap s \<and>
    event_handlers f = event_handlers s"
proof -
  let ?D = "hci_dispatch E on_data"
  have ok: "step_ok st" using assms(2) steps_ok by (simp add: list_all_iff)
  obtain s2 where s2: "bte_hci_dev_handle_event E ?D (step_reply st np status) s =
      do { s \<leftarrow> step_run E p dev st np status s2; s \<leftarrow> run_event_handler ?D HCI_COMMAND_COMPLETE (step_reply st np status) s; Some (0, s) }"
      "idle s2" "core s2 = core (noted st status s)"
    using step_event [OF assms(1) ok, of E on_data np status] by blast
  have k2: "clients s2 = clients s" "client_heap s2 = client_heap s" "event_handlers s2 = event_handlers s"
    using core_fields(2-4) [OF s2(3)] by (simp_all add: noted_def)
  obtain k t where t: "step_run E p dev st np status s2 = stop_on_failure I (Some p) status k t" "idle t"
      "clients t = clients s2" "client_heap t = client_heap s2" "event_handlers t = event_handlers s2"
    using fail_law [OF assms(2-4) s2(2)] by blast
  have st: "starting p u cb ud t" using assms(5) starting_fields [of t s] t(3,4) k2 by simp
  have "idle (t\<lparr>init_status := BTE_HCI_INIT_STATUS_FAILED\<rparr>)" using t(2) by (simp add: idle_def dev_ok_def table_def)
  then show ?thesis
    using s2(1) t k2 stop_spec [OF st assms(4)] by (intro exI [of _ "t\<lparr>init_status := BTE_HCI_INIT_STATUS_FAILED\<rparr>"]) simp
qed

end

section \<open>The controller and the two chains of commands\<close>

text \<open>What the controller reports of itself.\<close>

record controller =
  ctl_acl_mtu :: u16
  ctl_sco_mtu :: byte
  ctl_acl_packets :: u16
  ctl_sco_packets :: u16
  ctl_address :: "48 word"
  ctl_features :: u64
  ctl_version :: u64

definition reset_step :: "nat \<Rightarrow> startup_step" where
  "reset_step cb = \<lparr>st_ocf = HCI_RESET_OCF, st_ogf = HCI_HC_BB_OGF, st_params = [], st_fun = Command_complete_cb, st_cb = cb,
     st_checked = True, st_rest = []\<rparr>"

definition buffer_size_step :: "controller \<Rightarrow> nat \<Rightarrow> startup_step" where
  "buffer_size_step ctl cb = \<lparr>st_ocf = HCI_R_BUF_SIZE_OCF, st_ogf = HCI_INFO_PARAM_OGF, st_params = [], st_fun = Read_buffer_size_cb,
     st_cb = cb, st_checked = True,
     st_rest = le_bytes 2 (ctl_acl_mtu ctl) @ [ctl_sco_mtu ctl] @ le_bytes 2 (ctl_acl_packets ctl) @ le_bytes 2 (ctl_sco_packets ctl)\<rparr>"

definition bd_addr_step :: "controller \<Rightarrow> nat \<Rightarrow> startup_step" where
  "bd_addr_step ctl cb = \<lparr>st_ocf = HCI_R_BD_ADDR_OCF, st_ogf = HCI_INFO_PARAM_OGF, st_params = [], st_fun = Read_bd_addr_cb,
     st_cb = cb, st_checked = True, st_rest = le_bytes 6 (ctl_address ctl)\<rparr>"

definition features_step :: "controller \<Rightarrow> nat \<Rightarrow> startup_step" where
  "features_step ctl cb = \<lparr>st_ocf = HCI_R_LOC_FEAT_OCF, st_ogf = HCI_INFO_PARAM_OGF, st_params = [], st_fun = Read_local_features_cb,
     st_cb = cb, st_checked = True, st_rest = le_bytes 8 (ctl_features ctl)\<rparr>"

definition version_step :: "controller \<Rightarrow> nat \<Rightarrow> startup_step" where
  "version_step ctl cb = \<lparr>st_ocf = HCI_R_LOC_VERS_INFO_OCF, st_ogf = HCI_INFO_PARAM_OGF, st_params = [], st_fun = Read_local_version_cb,
     st_cb = cb, st_checked = True, st_rest = le_bytes 8 (ctl_version ctl)\<rparr>"

definition vendor_step :: "u16 \<Rightarrow> mem \<Rightarrow> nat \<Rightarrow> startup_step" where
  "vendor_step ocf params cb = \<lparr>st_ocf = ocf, st_ogf = HCI_VENDOR_OGF, st_params = params, st_fun = Vendor_command_cb,
     st_cb = cb, st_checked = False, st_rest = []\<rparr>"

lemmas step_defs = reset_step_def buffer_size_step_def bd_addr_step_def features_step_def version_step_def vendor_step_def

definition generic_steps :: "controller \<Rightarrow> startup_step list" where
  "generic_steps ctl = [reset_step GENERIC_ON_RESET_DONE, buffer_size_step ctl GENERIC_ON_BUFFER_SIZE_DONE,
     bd_addr_step ctl GENERIC_ON_BD_ADDR_DONE, features_step ctl GENERIC_READ_LOCAL_FEATURES_CB]"

definition wii_steps :: "controller \<Rightarrow> startup_step list" where
  "wii_steps ctl = [reset_step WII_ON_RESET_DONE, buffer_size_step ctl WII_ON_BUFFER_SIZE_DONE,
     version_step ctl WII_ON_READ_LOCAL_VERSION_DONE, bd_addr_step ctl WII_ON_BD_ADDR_DONE,
     features_step ctl WII_ON_READ_LOCAL_FEATURES, vendor_step HCI_VENDOR_PATCH_START_OCF [0] WII_ON_PATCH_START_DONE,
     vendor_step HCI_VENDOR_PATCH_CONT_OCF wii_patch_0 WII_ON_PATCH_CONT_DONE,
     vendor_step HCI_VENDOR_PATCH_END_OCF wii_patch_1 WII_ON_PATCH_END_DONE, reset_step WII_ON_RESET_PATCHED_DONE]"

text \<open>What the callbacks of the library and of the driver store.\<close>

definition taken :: "controller \<Rightarrow> startup_step \<Rightarrow> byte \<Rightarrow> 'a dev \<Rightarrow> 'a dev" where
  "taken ctl st status s =
     (if st_fun st = Read_buffer_size_cb
      then bte_hci_dev_set_buffer_size (ctl_acl_mtu ctl) (ctl_acl_packets ctl) (ctl_sco_mtu ctl) (ctl_sco_packets ctl) s
      else if st_fun st = Read_bd_addr_cb \<and> info_flags s AND BTE_HCI_INFO_GOT_BD_ADDR = 0
      then s\<lparr>dev_address := le_bytes 6 (ctl_address ctl), info_flags := info_flags s OR BTE_HCI_INFO_GOT_BD_ADDR\<rparr>
      else s)"

lemma taken_keeps:
  "core (taken ctl st status t) = taken ctl st status (core t)" "idle (taken ctl st status t) = idle t"
  "command_wire (taken ctl st status t) = command_wire t" "event_handlers (taken ctl st status t) = event_handlers t"
  "clients (taken ctl st status t) = clients t" "client_heap (taken ctl st status t) = client_heap t"
  by (simp_all add: taken_def bte_hci_dev_set_buffer_size_def core_def idle_def dev_ok_def table_def Let_def)

lemma steps_fit:
  "step_ok (reset_step cb)" "step_ok (buffer_size_step ctl cb)" "step_ok (bd_addr_step ctl cb)" "step_ok (features_step ctl cb)"
  "step_ok (version_step ctl cb)" "ocf \<in> {0x4f, 0x4c} \<Longrightarrow> step_ok (vendor_step ocf params cb)"
  by (auto simp: step_ok_def step_defs step_opcode_def build_opcode_def)

lemma reset_run:
  "step_run E p dev (reset_step cb) np status t = call_client_void E (Some cb) (Some p) (Reply status) dev t"
  by (simp add: step_run_def reset_step_def command_complete_cb_def step_reply_def command_reply_def parse_simps)

lemma buffer_size_run:
  "step_run E p dev (buffer_size_step ctl cb) np status t =
    call_client_void E (Some cb) (Some p)
      (Read_buffer_size_reply status (ctl_sco_mtu ctl) (ctl_acl_mtu ctl) (ctl_sco_packets ctl) (ctl_acl_packets ctl)) dev t"
  by (simp add: step_run_def buffer_size_step_def read_buffer_size_cb_def step_reply_def command_reply_def parse_simps)

lemma bd_addr_run:
  "step_run E p dev (bd_addr_step ctl cb) np status t =
    call_client_void E (Some cb) (Some p) (Read_bd_addr_reply status (le_bytes 6 (ctl_address ctl))) dev (taken ctl (bd_addr_step ctl cb) status t)"
  by (simp add: step_run_def bd_addr_step_def read_bd_addr_cb_def step_reply_def command_reply_def parse_simps taken_def)

lemma features_run:
  "step_run E p dev (features_step ctl cb) np status t =
    call_client_void E (Some cb) (Some p) (Read_local_features_reply status (ctl_features ctl)) dev t"
  by (simp add: step_run_def features_step_def read_local_features_cb_def step_reply_def command_reply_def parse_simps)

lemma version_run:
  "\<exists>a b c d e. step_run E p dev (version_step ctl cb) np status t =
    call_client_void E (Some cb) (Some p) (Read_local_version_reply status a b c d e) dev t"
  by (simp add: step_run_def version_step_def read_local_version_cb_def step_reply_def command_reply_def rd8_def slice_def read_le16_def nth_append) blast

lemma vendor_run:
  "step_run E p dev (vendor_step ocf params cb) np status t =
    call_client_void E (Some cb) (Some p) (Vendor_buffer (step_reply (vendor_step ocf params cb) np status)) dev t"
  by (simp add: step_run_def vendor_step_def vendor_command_cb_def)

text \<open>The next command of a chain.\<close>

lemma reset_issued: "idle t \<Longrightarrow> issued p dev (reset_step cb) t (bte_hci_reset E (Some p) (Some cb) dev t)"
  unfolding bte_hci_reset_def
  using issue_when_idle [of t HCI_RESET_PLEN "reset_step cb" "send E" E p dev]
  by (simp add: reset_step_def send_filled_def cmd_buffer_def)

lemma buffer_size_issued: "idle t \<Longrightarrow> issued p dev (buffer_size_step ctl cb) t (bte_hci_read_buffer_size E (Some p) (Some cb) dev t)"
  unfolding bte_hci_read_buffer_size_def
  using issue_when_idle [of t HCI_R_BUF_SIZE_PLEN "buffer_size_step ctl cb" "send E" E p dev]
  by (simp add: buffer_size_step_def send_filled_def cmd_buffer_def)

lemma bd_addr_issued: "idle t \<Longrightarrow> issued p dev (bd_addr_step ctl cb) t (bte_hci_read_bd_addr E (Some p) (Some cb) dev t)"
  unfolding bte_hci_read_bd_addr_def
  using issue_when_idle [of t HCI_R_BD_ADDR_PLEN "bd_addr_step ctl cb" "send E" E p dev]
  by (simp add: bd_addr_step_def send_filled_def cmd_buffer_def)

lemma features_issued: "idle t \<Longrightarrow> issued p dev (features_step ctl cb) t (bte_hci_read_local_features E (Some p) (Some cb) dev t)"
  unfolding bte_hci_read_local_features_def
  using issue_when_idle [of t HCI_R_LOC_FEAT_PLEN "features_step ctl cb" "send E" E p dev]
  by (simp add: features_step_def send_filled_def cmd_buffer_def)

lemma version_issued: "idle t \<Longrightarrow> issued p dev (version_step ctl cb) t (bte_hci_read_local_version E (Some p) (Some cb) dev t)"
  unfolding bte_hci_read_local_version_def
  using issue_when_idle [of t HCI_R_LOC_VERS_INFO_PLEN "version_step ctl cb" "send E" E p dev]
  by (simp add: version_step_def send_filled_def cmd_buffer_def)

lemma vendor_issued:
  assumes "idle t" "length params < 250"
  shows "issued p dev (vendor_step ocf params cb) t
    (bte_hci_vendor_command E (Some p) ocf params (of_nat (length params)) (Some cb) dev t)"
proof -
  let ?len = "of_nat HCI_CMD_HDR_LEN + of_nat (length params) :: byte"
  have u: "unat (of_nat (length params) :: byte) = length params" using assms(2) by (simp add: unat_of_nat)
  then have l: "unat ?len = 3 + length params" using assms(2) by (simp add: unat_word_ariths)
  have "issued p dev (vendor_step ocf params cb) t (do { (b, s1) \<leftarrow> bte_hci_dev_add_pending_command E (Some p)
      (st_ocf (vendor_step ocf params cb)) (st_ogf (vendor_step ocf params cb)) ?len (st_fun (vendor_step ocf params cb))
      (Some (st_cb (vendor_step ocf params cb))) dev t;
      when_buffer b (\<lambda>b s. do { d \<leftarrow> memcpy_to (data b) HCI_CMD_HDR_LEN params (unat (of_nat (length params) :: byte)); send_filled E b d s }) s1 })"
    by (rule issue_when_idle [OF assms(1)])
       (use l u in \<open>simp_all add: vendor_step_def when_buffer_def fill_simps cmd_header_def\<close>)
  then show ?thesis by (simp add: bte_hci_vendor_command_def vendor_step_def)
qed

section \<open>The drivers are instances\<close>

abbreviation generic_inner :: "'a env \<Rightarrow> 'a env" where
  "generic_inner E \<equiv> E\<lparr>env_client := generic_client E 1\<rparr>"

lemma run_void: "map_option snd (do { s \<leftarrow> x; Some (False, s) }) = x"
  by (cases x) simp_all

lemma generic_calls:
  "call_client_void (generic_env E q d) (Some GENERIC_ON_RESET_DONE) hci arg ud t = generic_on_reset_done (generic_inner E) hci arg ud t"
  "call_client_void (generic_env E q d) (Some GENERIC_ON_BUFFER_SIZE_DONE) hci arg ud t = generic_on_buffer_size_done (generic_inner E) hci arg ud t"
  "call_client_void (generic_env E q d) (Some GENERIC_ON_BD_ADDR_DONE) hci arg ud t = generic_on_bd_addr_done (generic_inner E) hci arg ud t"
  "call_client_void (generic_env E q d) (Some GENERIC_READ_LOCAL_FEATURES_CB) hci arg ud t = generic_read_local_features_cb (generic_inner E) hci arg ud t"
  by (simp_all add: call_client_void_def call_client_def generic_env_def Let_def numeral_2_eq_2 run_void)

lemma taken_id [simp]:
  "taken ctl (reset_step cb) status t = t" "taken ctl (features_step ctl' cb) status t = t" "taken ctl (version_step ctl' cb) status t = t"
  "taken ctl (vendor_step ocf params cb) status t = t"
  "taken ctl (buffer_size_step ctl' cb) status t =
    bte_hci_dev_set_buffer_size (ctl_acl_mtu ctl) (ctl_acl_packets ctl) (ctl_sco_mtu ctl) (ctl_sco_packets ctl) t"
  by (simp_all add: taken_def step_defs)

lemma set_buffer_size_idle [simp]: "idle (bte_hci_dev_set_buffer_size a b c d t) = idle t"
  by (simp add: bte_hci_dev_set_buffer_size_def idle_def dev_ok_def table_def Let_def)

lemmas generic_defs = generic_on_reset_done_def generic_on_buffer_size_done_def generic_on_bd_addr_done_def
  generic_read_local_features_cb_def stop_on_failure_def set_buffer_size_from_def

lemma generic_next:
  assumes "Suc i < length (generic_steps ctl)" "idle t" "status = 0 \<or> \<not> st_checked (generic_steps ctl ! i)"
  shows "issued p dev (generic_steps ctl ! Suc i) (taken ctl (generic_steps ctl ! i) status t)
    (step_run (generic_env E q d) p dev (generic_steps ctl ! i) np status t)"
proof -
  have st: "status = 0" and i: "i = 0 \<or> i = 1 \<or> i = 2"
    using assms(1,3) by (auto simp: generic_steps_def step_defs nth_Cons' split: if_splits)
  show ?thesis
    using i assms(2) st
    by (elim disjE) (simp_all add: generic_steps_def reset_run buffer_size_run bd_addr_run generic_calls generic_defs
        buffer_size_issued bd_addr_issued features_issued taken_keeps(2))
qed

interpretation generic_driver: startup_driver "generic_env E (Some p) dev" "generic_inner E" p dev "generic_steps ctl" "taken ctl"
proof
  show "generic_steps ctl \<noteq> [] \<and> list_all step_ok (generic_steps ctl)" by (simp add: generic_steps_def steps_fit)
  show "core (taken ctl st status t) = taken ctl st status (core t) \<and> idle (taken ctl st status t) = idle t \<and>
      command_wire (taken ctl st status t) = command_wire t \<and> event_handlers (taken ctl st status t) = event_handlers t \<and>
      clients (taken ctl st status t) = clients t \<and> client_heap (taken ctl st status t) = client_heap t" for st status t
    by (simp add: taken_keeps)
  show "issued p dev (generic_steps ctl ! Suc i) (taken ctl (generic_steps ctl ! i) status t)
      (step_run (generic_env E (Some p) dev) p dev (generic_steps ctl ! i) np status t)"
    if "Suc i < length (generic_steps ctl)" "idle t" "status = 0 \<or> \<not> st_checked (generic_steps ctl ! i)" for i t status np
    by (rule generic_next [OF that])
  show "step_run (generic_env E (Some p) dev) p dev (last (generic_steps ctl)) np 0 t =
      initialization_done (generic_inner E) p (taken ctl (last (generic_steps ctl)) 0 t)" if "idle t" for t np
    by (simp add: generic_steps_def features_run generic_calls generic_defs)
  show "\<exists>k t'. step_run (generic_env E (Some p) dev) p dev st np status t = stop_on_failure (generic_inner E) (Some p) status k t' \<and> idle t' \<and>
      clients t' = clients t \<and> client_heap t' = client_heap t \<and> event_handlers t' = event_handlers t"
    if "st \<in> set (generic_steps ctl)" "st_checked st" "status \<noteq> 0" "idle t" for st status t np
    using that taken_keeps [of ctl "bd_addr_step ctl GENERIC_ON_BD_ADDR_DONE" status t]
    by (auto simp: generic_steps_def reset_run buffer_size_run bd_addr_run features_run generic_calls generic_defs)
qed

abbreviation wii_inner :: "'a env \<Rightarrow> 'a env" where
  "wii_inner E \<equiv> E\<lparr>env_client := wii_client E 5\<rparr>"

lemma wii_level: "wii_client E 6 = wii_client E (Suc 5)"
  by simp

lemma wii_calls:
  "call_client_void (wii_env E q d) (Some WII_ON_RESET_DONE) hci arg ud t = wii_on_reset_done (wii_inner E) hci arg ud t"
  "call_client_void (wii_env E q d) (Some WII_ON_BUFFER_SIZE_DONE) hci arg ud t = wii_on_buffer_size_done (wii_inner E) hci arg ud t"
  "call_client_void (wii_env E q d) (Some WII_ON_READ_LOCAL_VERSION_DONE) hci arg ud t = wii_on_read_local_version_done (wii_inner E) hci arg ud t"
  "call_client_void (wii_env E q d) (Some WII_ON_BD_ADDR_DONE) hci arg ud t = wii_on_bd_addr_done (wii_inner E) hci arg ud t"
  "call_client_void (wii_env E q d) (Some WII_ON_READ_LOCAL_FEATURES) hci arg ud t = wii_on_read_local_features (wii_inner E) hci arg ud t"
  "call_client_void (wii_env E q d) (Some WII_ON_PATCH_START_DONE) hci arg ud t = wii_on_patch_start_done (wii_inner E) hci arg ud t"
  "call_client_void (wii_env E q d) (Some WII_ON_PATCH_CONT_DONE) hci arg ud t = wii_on_patch_cont_done (wii_inner E) hci arg ud t"
  "call_client_void (wii_env E q d) (Some WII_ON_PATCH_END_DONE) hci arg ud t = wii_on_patch_end_done (wii_inner E) hci arg ud t"
  "call_client_void (wii_env E q d) (Some WII_ON_RESET_PATCHED_DONE) hci arg ud t = wii_on_reset_patched_done (wii_inner E) hci arg ud t"
  unfolding call_client_void_def call_client_def wii_env_def Let_def Option.bind.simps hci_env.simps wii_level wii_client.simps
  by (simp_all add: run_void)

lemma patches: "length wii_patch_0 = 184" "length wii_patch_1 = 92"
  by (simp_all add: wii_patch_0_def wii_patch_1_def)

lemmas wii_defs = wii_on_reset_done_def wii_on_buffer_size_done_def wii_on_read_local_version_done_def wii_on_bd_addr_done_def
  wii_on_read_local_features_def wii_on_patch_start_done_def wii_on_patch_cont_done_def wii_on_patch_end_done_def
  wii_on_reset_patched_done_def stop_on_failure_def set_buffer_size_from_def

lemma wii_next:
  assumes "Suc i < length (wii_steps ctl)" "idle t" "status = 0 \<or> \<not> st_checked (wii_steps ctl ! i)"
  shows "issued p dev (wii_steps ctl ! Suc i) (taken ctl (wii_steps ctl ! i) status t)
    (step_run (wii_env E q d) p dev (wii_steps ctl ! i) np status t)"
proof -
  have "i < 8" using assms(1) by (simp add: wii_steps_def)
  then consider "i = 0" | "i = 1" | "i = 2" | "i = 3" | "i = 4" | "i = 5" | "i = 6" | "i = 7" by linarith
  note i = this
  have st: "status = 0" if "i < 5" using assms(3) that by (auto simp: wii_steps_def step_defs nth_Cons' split: if_splits)
  note rules = buffer_size_issued bd_addr_issued features_issued version_issued reset_issued taken_keeps(2)
  obtain a b c v e where v: "step_run (wii_env E q d) p dev (version_step ctl 53) np 0 t =
      call_client_void (wii_env E q d) (Some 53) (Some p) (Read_local_version_reply 0 a b c v e) dev t"
    using version_run by blast
  have one: "issued p dev (vendor_step 0x4f [0] 56) t (bte_hci_vendor_command (wii_inner E) (Some p) 0x4f [0] 1 (Some 56) dev t)"
    using vendor_issued [OF assms(2), of "[0]" p dev "0x4f" "56" "wii_inner E"] by simp
  have two: "issued p dev (vendor_step 0x4c wii_patch_0 57) t (bte_hci_vendor_command (wii_inner E) (Some p) 0x4c wii_patch_0 184 (Some 57) dev t)"
    using vendor_issued [OF assms(2), of wii_patch_0 p dev "0x4c" "57" "wii_inner E"] by (simp add: patches)
  have three: "issued p dev (vendor_step 0x4f wii_patch_1 58) t (bte_hci_vendor_command (wii_inner E) (Some p) 0x4f wii_patch_1 92 (Some 58) dev t)"
    using vendor_issued [OF assms(2), of wii_patch_1 p dev "0x4f" "58" "wii_inner E"] by (simp add: patches)
  show ?thesis
    using i assms(2) st
    by cases (simp_all add: wii_steps_def reset_run buffer_size_run bd_addr_run features_run v vendor_run wii_calls wii_defs rules one two three patches)
qed

interpretation wii_driver: startup_driver "wii_env E (Some p) dev" "wii_inner E" p dev "wii_steps ctl" "taken ctl"
proof
  show "wii_steps ctl \<noteq> [] \<and> list_all step_ok (wii_steps ctl)" by (simp add: wii_steps_def steps_fit)
  show "core (taken ctl st status t) = taken ctl st status (core t) \<and> idle (taken ctl st status t) = idle t \<and>
      command_wire (taken ctl st status t) = command_wire t \<and> event_handlers (taken ctl st status t) = event_handlers t \<and>
      clients (taken ctl st status t) = clients t \<and> client_heap (taken ctl st status t) = client_heap t" for st status t
    by (simp add: taken_keeps)
  show "issued p dev (wii_steps ctl ! Suc i) (taken ctl (wii_steps ctl ! i) status t)
      (step_run (wii_env E (Some p) dev) p dev (wii_steps ctl ! i) np status t)"
    if "Suc i < length (wii_steps ctl)" "idle t" "status = 0 \<or> \<not> st_checked (wii_steps ctl ! i)" for i t status np
    by (rule wii_next [OF that])
  show "step_run (wii_env E (Some p) dev) p dev (last (wii_steps ctl)) np 0 t =
      initialization_done (wii_inner E) p (taken ctl (last (wii_steps ctl)) 0 t)" if "idle t" for t np
    by (simp add: wii_steps_def reset_run wii_calls wii_defs)
  show "\<exists>k t'. step_run (wii_env E (Some p) dev) p dev st np status t = stop_on_failure (wii_inner E) (Some p) status k t' \<and> idle t' \<and>
      clients t' = clients t \<and> client_heap t' = client_heap t \<and> event_handlers t' = event_handlers t"
    if "st \<in> set (wii_steps ctl)" "st_checked st" "status \<noteq> 0" "idle t" for st status t np
  proof -
    obtain a b c v e where v: "step_run (wii_env E (Some p) dev) p dev (version_step ctl 53) np status t =
        call_client_void (wii_env E (Some p) dev) (Some 53) (Some p) (Read_local_version_reply status a b c v e) dev t"
      using version_run by blast
    show ?thesis
      using that taken_keeps [of ctl "bd_addr_step ctl WII_ON_BD_ADDR_DONE" status t]
      by (auto simp: wii_steps_def vendor_step_def reset_run buffer_size_run bd_addr_run features_run v wii_calls wii_defs)
  qed
qed

section \<open>From the first client to the callback\<close>

text \<open>The state after \<^verbatim>\<open>bte_client_new\<close> and \<^verbatim>\<open>bte_hci_on_initialized\<close>, up to the pending command.\<close>

definition first_client :: "nat \<Rightarrow> u64 \<Rightarrow> nat \<Rightarrow> cb_ptr \<Rightarrow> mem \<Rightarrow> 'a dev \<Rightarrow> 'a dev" where
  "first_client p dev u cb bs s = s\<lparr>init_status := BTE_HCI_INIT_STATUS_INITIALIZING, acl_available_packets := BTE_ACL_AVAILABLE_PACKETS_UNSET,
     clients := [Some p, Some u, None, None],
     client_heap := (client_heap s)(p \<mapsto> zero_client\<lparr>c_ref_count := 1, c_userdata := dev\<rparr>,
       u \<mapsto> zero_client\<lparr>c_ref_count := 1, last_async_cmd_data := \<lparr>tmp_client_cb = cb, tmp_bytes = bs, tmp_handler_cb = None\<rparr>\<rparr>)\<rparr>"

definition fresh_dev :: "'a dev \<Rightarrow> bool" where
  "fresh_dev s \<longleftrightarrow> idle s \<and> no_handler s \<and> init_status s = BTE_HCI_INIT_STATUS_UNINITIALIZED \<and> clients s = [None, None, None, None] \<and>
     info_flags s = 0"

lemma first_free4 [simp]: "first_free [None, a, b, c] 0 = Some 0" "first_free [Some x, None, b, c] 0 = Some 1"
  by simp_all

lemma chain_begins:
  assumes "fresh_dev s" "\<And>t. 0 \<le> be_init X t"
    and "driver_init X = (\<lambda>s. do { (client, s) \<leftarrow> bte_client_new N (Some p) s; client \<leftarrow> client; s \<leftarrow> bte_client_set_userdata client dev s;
      s \<leftarrow> bte_hci_reset N (Some client) (Some rcb) dev s; Some (0, s) })"
  shows "\<exists>s1. bte_client_new X (Some u) s = Some (Some u, s1) \<and> awaits p dev (reset_step rcb) s1 \<and>
    core s1 = core (first_client p dev u None (replicate 8 0) s) \<and> command_wire s1 = command_wire s @ [step_packet (reset_step rcb)]"
proof -
  note f = assms(1) [unfolded fresh_dev_def]
  let ?s0 = "s\<lparr>init_status := BTE_HCI_INIT_STATUS_INITIALIZING, acl_available_packets := BTE_ACL_AVAILABLE_PACKETS_UNSET\<rparr>"
  let ?s1 = "?s0\<lparr>client_heap := (client_heap s)(p \<mapsto> zero_client\<lparr>c_ref_count := 1\<rparr>), clients := [Some p, None, None, None]\<rparr>"
  let ?s2 = "?s0\<lparr>client_heap := (client_heap s)(p \<mapsto> zero_client\<lparr>c_ref_count := 1, c_userdata := dev\<rparr>), clients := [Some p, None, None, None]\<rparr>"
  have n: "bte_client_new N (Some p) ?s0 = Some (Some p, ?s1)"
    using f by (simp add: bte_client_new_def bte_hci_dev_init_def bte_hci_dev_add_client_def)
  have ud: "bte_client_set_userdata p dev ?s1 = Some ?s2"
    by (simp add: bte_client_set_userdata_def get_client_def put_client_def zero_client_def)
  have "idle ?s2" using f by (simp add: idle_def dev_ok_def table_def)
  from reset_issued [OF this, of p dev rcb N] obtain s3 where s3: "bte_hci_reset N (Some p) (Some rcb) dev ?s2 = Some s3"
      "awaits p dev (reset_step rcb) s3" "core s3 = core ?s2" "command_wire s3 = command_wire s @ [step_packet (reset_step rcb)]"
    by (auto simp: issued_def)
  have "bte_hci_dev_init X s = Some (0, s3)"
    using f assms(2,3) n ud s3(1) by (simp add: bte_hci_dev_init_def Let_def not_less)
  moreover have c3: "clients s3 = [Some p, None, None, None]" "client_heap s3 = client_heap ?s2" using core_fields(2,3) [OF s3(3)] by simp_all
  ultimately have "bte_client_new X (Some u) s =
      Some (Some u, s3\<lparr>client_heap := (client_heap s3)(u \<mapsto> zero_client\<lparr>c_ref_count := 1\<rparr>), clients := [Some p, Some u, None, None]\<rparr>)"
    by (simp add: bte_client_new_def bte_hci_dev_add_client_def)
  moreover have "awaits p dev (reset_step rcb) (s3\<lparr>client_heap := (client_heap s3)(u \<mapsto> zero_client\<lparr>c_ref_count := 1\<rparr>), clients := [Some p, Some u, None, None]\<rparr>)"
    using s3(2) by (simp add: awaits_def dev_ok_def table_def)
  moreover have "core (s3\<lparr>client_heap := (client_heap s3)(u \<mapsto> zero_client\<lparr>c_ref_count := 1\<rparr>), clients := [Some p, Some u, None, None]\<rparr>) =
      (core s3)\<lparr>client_heap := (client_heap s3)(u \<mapsto> zero_client\<lparr>c_ref_count := 1\<rparr>), clients := [Some p, Some u, None, None]\<rparr>"
    by (simp add: core_def)
  moreover have "\<dots> = core (first_client p dev u None (replicate 8 0) s)"
    unfolding s3(3) c3(2) by (simp add: core_def first_client_def zero_client_def)
  ultimately show ?thesis using s3(4) by auto
qed

lemma waits_to_be_told:
  assumes "awaits p dev st s1" "core s1 = core (first_client p dev u None (replicate 8 0) s)" "p \<noteq> u"
  shows "\<exists>s2. bte_hci_on_initialized X (Some u) (Some cb) ud s1 = Some s2 \<and> awaits p dev st s2 \<and> command_wire s2 = command_wire s1 \<and>
    core s2 = core (first_client p dev u (Some cb) (le_bytes 8 ud) s) \<and> starting p u cb ud s2"
proof -
  note c = core_fields [OF assms(2)]
  have u: "client_heap s1 u = Some (zero_client\<lparr>c_ref_count := 1, last_async_cmd_data := \<lparr>tmp_client_cb = None, tmp_bytes = replicate 8 0, tmp_handler_cb = None\<rparr>\<rparr>)"
    using c(3) assms(3) by (simp add: first_client_def)
  have st: "init_status s1 = BTE_HCI_INIT_STATUS_INITIALIZING" using c(1) by (simp add: first_client_def)
  let ?c = "zero_client\<lparr>c_ref_count := 1, last_async_cmd_data := \<lparr>tmp_client_cb = Some cb, tmp_bytes = le_bytes 8 ud, tmp_handler_cb = None\<rparr>\<rparr>"
  let ?s = "s1\<lparr>client_heap := (client_heap s1)(u \<mapsto> ?c)\<rparr>"
  have "bte_hci_on_initialized X (Some u) (Some cb) ud s1 = Some ?s"
    using u st by (simp add: bte_hci_on_initialized_def get_tmp_def put_tmp_def get_client_def put_client_def write_le64_def wr_def)
  moreover have "awaits p dev st ?s" using assms(1) by (simp add: awaits_def dev_ok_def table_def)
  moreover have "core ?s = (core s1)\<lparr>client_heap := (client_heap s1)(u \<mapsto> ?c)\<rparr>" by (simp add: core_def)
  then have "core ?s = core (first_client p dev u (Some cb) (le_bytes 8 ud) s)"
    unfolding assms(2) c(3) by (simp add: core_def first_client_def)
  moreover have "starting p u cb ud ?s"
    using c(2,3) assms(3) by (simp add: starting_def first_client_def zero_client_def tmp_userdata_def parse_simps)
  ultimately show ?thesis by auto
qed

definition started :: "controller \<Rightarrow> nat \<Rightarrow> nat \<Rightarrow> 'a dev \<Rightarrow> bool" where
  "started ctl p u t \<longleftrightarrow> init_status t = BTE_HCI_INIT_STATUS_INITIALIZED \<and> idle t \<and> clients t = [None, Some u, None, None] \<and>
     client_heap t p = None \<and> acl_mtu t = ctl_acl_mtu ctl \<and> sco_mtu t = ctl_sco_mtu ctl \<and> acl_max_packets t = ctl_acl_packets ctl \<and>
     sco_max_packets t = ctl_sco_packets ctl \<and> acl_available_packets t = ctl_acl_packets ctl \<and>
     dev_address t = le_bytes 6 (ctl_address ctl) \<and> supported_features t = ctl_features ctl"

text \<open>
  The run from the first client to the call of its callback, in the state \<open>t\<close>; what the callback, the clients registered behind it
  and a handler for \<^verbatim>\<open>HCI_COMMAND_COMPLETE\<close> that it installed do then is the rest of the run.
\<close>

definition brings_up ::
    "'a env \<Rightarrow> 'a env \<Rightarrow> 'a env \<Rightarrow> nat \<Rightarrow> startup_step list \<Rightarrow> controller \<Rightarrow> nat \<Rightarrow> nat \<Rightarrow> u64 \<Rightarrow> (byte \<times> byte) list \<Rightarrow> 'a dev \<Rightarrow> bool" where
  "brings_up X E I p sts ctl u cb ud rs s \<longleftrightarrow> (\<forall>on_data. \<exists>s1 s2 t.
     bte_client_new X (Some u) s = Some (Some u, s1) \<and> bte_hci_on_initialized X (Some u) (Some cb) ud s1 = Some s2 \<and>
     handle_events X (hci_dispatch X on_data) (step_replies sts rs) s2 =
       do { s \<leftarrow> call_client_void E (Some cb) (Some u) (Initialized True) ud t;
            s \<leftarrow> set_status_loop I True [2, 3] s;
            run_event_handler (hci_dispatch X on_data) HCI_COMMAND_COMPLETE (step_reply (last sts) (fst (last rs)) 0) s } \<and>
     command_wire t = command_wire s @ map step_packet sts \<and> started ctl p u t)"

lemma fields_core:
  "init_status (core t) = init_status t" "clients (core t) = clients t" "client_heap (core t) = client_heap t" "acl_mtu (core t) = acl_mtu t"
  "sco_mtu (core t) = sco_mtu t" "acl_max_packets (core t) = acl_max_packets t" "sco_max_packets (core t) = sco_max_packets t"
  "acl_available_packets (core t) = acl_available_packets t" "dev_address (core t) = dev_address t"
  "supported_features (core t) = supported_features t" "info_flags (core t) = info_flags t" "event_handlers (core t) = event_handlers t"
  by (simp_all add: core_def)

lemma noted_steps [simp]:
  "noted (reset_step cb) status t = t" "noted (buffer_size_step ctl cb) status t = t" "noted (bd_addr_step ctl cb) status t = t"
  "noted (version_step ctl cb) status t = t" "noted (vendor_step ocf params cb) status t = t"
  "noted (features_step ctl cb) 0 t = t\<lparr>supported_features := ctl_features ctl, info_flags := info_flags t OR BTE_HCI_INFO_GOT_FEATURES\<rparr>"
  by (simp_all add: noted_def step_defs parse_simps)

lemma started_from_core:
  assumes "core t = (bte_hci_dev_set_buffer_size (ctl_acl_mtu ctl) (ctl_acl_packets ctl) (ctl_sco_mtu ctl) (ctl_sco_packets ctl) c)\<lparr>
      dev_address := le_bytes 6 (ctl_address ctl), supported_features := ctl_features ctl, info_flags := i,
      clients := [None, Some u, None, None], client_heap := h, init_status := BTE_HCI_INIT_STATUS_INITIALIZED\<rparr>"
    "idle t" "h p = None" "acl_available_packets c = BTE_ACL_AVAILABLE_PACKETS_UNSET"
  shows "started ctl p u t"
  using assms fields_core [of t] by (simp add: started_def bte_hci_dev_set_buffer_size_def)

lemma generic_client_others: "call_cb c \<notin> {41..44} \<Longrightarrow> generic_client E n c s = env_client E c s"
  by (cases n) auto

lemma wii_client_others: "call_cb c \<notin> {51..59} \<Longrightarrow> wii_client E n c s = env_client E c s"
  by (cases n) auto

lemma telling_generic: "cb \<notin> {41..44} \<Longrightarrow> telling (generic_inner E) I b u cb ud = telling E I b u cb ud"
  by (rule ext) (simp add: telling_def call_client_void_def call_client_def generic_client_others del: generic_client.simps One_nat_def)

lemma telling_wii: "cb \<notin> {51..59} \<Longrightarrow> telling (wii_inner E) I b u cb ud = telling E I b u cb ud"
  by (rule ext) (simp add: telling_def call_client_void_def call_client_def wii_client_others del: wii_client.simps)

lemma set_buffer_size_upd:
  "info_flags (bte_hci_dev_set_buffer_size a b c d s) = info_flags s"
  by (simp add: bte_hci_dev_set_buffer_size_def Let_def)

lemma taken_bd_addr: "info_flags t AND BTE_HCI_INFO_GOT_BD_ADDR = 0 \<Longrightarrow> taken ctl (bd_addr_step ctl' cb) status t =
    t\<lparr>dev_address := le_bytes 6 (ctl_address ctl), info_flags := info_flags t OR BTE_HCI_INFO_GOT_BD_ADDR\<rparr>"
  by (simp add: taken_def step_defs)

context startup_driver
begin

lemma client_told:
  assumes "fresh_dev s" "\<And>t. 0 \<le> be_init E t" "p \<noteq> u" "telling I I True u cb ud = telling J I True u cb ud" "good_replies steps rs" "hd steps = reset_step rcb"
    and "driver_init E = (\<lambda>s. do { (client, s) \<leftarrow> bte_client_new N (Some p) s; client \<leftarrow> client; s \<leftarrow> bte_client_set_userdata client dev s;
      s \<leftarrow> bte_hci_reset N (Some client) (Some rcb) dev s; Some (0, s) })"
    and "\<And>t c. idle t \<Longrightarrow> info_flags c = 0 \<Longrightarrow> acl_available_packets c = BTE_ACL_AVAILABLE_PACKETS_UNSET \<Longrightarrow>
      core t = (fold step_effect (zip steps (map snd rs)) c)\<lparr>clients := [None, Some u, None, None],
        client_heap := (client_heap c)(p := None), init_status := BTE_HCI_INIT_STATUS_INITIALIZED\<rparr> \<Longrightarrow> started ctl p u t"
  shows "brings_up E J I p steps ctl u cb ud rs s"
  unfolding brings_up_def
proof
  fix on_data
  obtain s1 where s1: "bte_client_new E (Some u) s = Some (Some u, s1)" "awaits p dev (reset_step rcb) s1"
      "core s1 = core (first_client p dev u None (replicate 8 0) s)" "command_wire s1 = command_wire s @ [step_packet (reset_step rcb)]"
    using chain_begins [OF assms(1,2,7)] by blast
  obtain s2 where s2: "bte_hci_on_initialized E (Some u) (Some cb) ud s1 = Some s2" "awaits p dev (reset_step rcb) s2"
      "command_wire s2 = command_wire s1" "core s2 = core (first_client p dev u (Some cb) (le_bytes 8 ud) s)" "starting p u cb ud s2"
    using waits_to_be_told [OF s1(2,3) assms(3)] by blast
  have a: "awaits p dev (hd steps) s2" using s2(2) assms(6) by simp
  have nh: "no_handler s2" using assms(1) core_fields(4) [OF s2(4)] by (simp add: fresh_dev_def no_handler_def first_client_def)
  obtain t where t: "handle_events E (hci_dispatch E on_data) (step_replies steps rs) s2 =
        do { s \<leftarrow> telling J I True u cb ud t;
             run_event_handler (hci_dispatch E on_data) HCI_COMMAND_COMPLETE (step_reply (last steps) (fst (last rs)) 0) s }"
      "idle t" "command_wire t = command_wire s2 @ map step_packet (tl steps)"
      "core t = (fold step_effect (zip steps (map snd rs)) (core s2))\<lparr>clients := [None, Some u, None, None],
        client_heap := (client_heap s2)(p := None), init_status := BTE_HCI_INIT_STATUS_INITIALIZED\<rparr>"
    using starts_up [OF a s2(5) nh assms(5)] unfolding assms(4) by blast
  have "info_flags (core s2) = 0" "acl_available_packets (core s2) = BTE_ACL_AVAILABLE_PACKETS_UNSET"
    using assms(1) core_fields(5,6) [OF s2(4)] by (simp_all add: fields_core fresh_dev_def first_client_def)
  from assms(8) [OF t(2) this] have "started ctl p u t" using t(4) by (simp add: fields_core)
  moreover have "steps \<noteq> []" using steps_ok by simp
  then have "map step_packet steps = step_packet (reset_step rcb) # map step_packet (tl steps)" using assms(6) by (cases steps) simp_all
  then have "command_wire t = command_wire s @ map step_packet steps" using t(3) s2(3) s1(4) by simp
  ultimately show "\<exists>s1 s2 t. bte_client_new E (Some u) s = Some (Some u, s1) \<and> bte_hci_on_initialized E (Some u) (Some cb) ud s1 = Some s2 \<and>
     handle_events E (hci_dispatch E on_data) (step_replies steps rs) s2 =
       do { s \<leftarrow> call_client_void J (Some cb) (Some u) (Initialized True) ud t; s \<leftarrow> set_status_loop I True [2, 3] s;
            run_event_handler (hci_dispatch E on_data) HCI_COMMAND_COMPLETE (step_reply (last steps) (fst (last rs)) 0) s } \<and>
     command_wire t = command_wire s @ map step_packet steps \<and> started ctl p u t"
    using s1(1) s2(1) t(1) unfolding telling_def bind_assoc by blast
qed

end

lemma generic_init_eq: "generic_init X q dev = (\<lambda>s. do { (client, s) \<leftarrow> bte_client_new X q s; client \<leftarrow> client;
    s \<leftarrow> bte_client_set_userdata client dev s; s \<leftarrow> bte_hci_reset X (Some client) (Some GENERIC_ON_RESET_DONE) dev s; Some (0, s) })"
  by (rule ext) (simp only: generic_init_def)

lemma generic_brings_up:
  assumes "fresh_dev s" "\<And>t. 0 \<le> be_init E t" "p \<noteq> u" "cb \<notin> {41..44}" "good_replies (generic_steps ctl) rs"
  shows "brings_up (generic_env E (Some p) dev) E (generic_inner E) p (generic_steps ctl) ctl u cb ud rs s"
proof (rule generic_driver.client_told [where N = "E\<lparr>env_client := generic_client E 2\<rparr>", OF assms(1) _ assms(3) telling_generic [OF assms(4)] assms(5)])
  obtain n0 n1 n2 n3 where rs: "rs = [(n0, 0), (n1, 0), (n2, 0), (n3, 0)]"
    using assms(5) by (auto simp: good_replies_def generic_steps_def step_defs length_Suc_conv eval_nat_numeral)
  show "started ctl p u t" if t: "idle t" "info_flags c = 0" "acl_available_packets c = BTE_ACL_AVAILABLE_PACKETS_UNSET"
      "core t = (fold (\<lambda>(st, status) s. taken ctl st status (noted st status s)) (zip (generic_steps ctl) (map snd rs)) c)\<lparr>
        clients := [None, Some u, None, None], client_heap := (client_heap c)(p := None), init_status := BTE_HCI_INIT_STATUS_INITIALIZED\<rparr>" for t c
    by (rule started_from_core [where c = c and i = 5 and h = "(client_heap c)(p := None)", OF _ t(1) _ t(3)])
       (use t(2,4) in \<open>simp_all add: rs generic_steps_def taken_bd_addr set_buffer_size_upd\<close>)
  show "hd (generic_steps ctl) = reset_step GENERIC_ON_RESET_DONE" by (simp add: generic_steps_def)
  show "driver_init (generic_env E (Some p) dev) = (\<lambda>s. do { (client, s) \<leftarrow> bte_client_new (E\<lparr>env_client := generic_client E 2\<rparr>) (Some p) s;
      client \<leftarrow> client; s \<leftarrow> bte_client_set_userdata client dev s;
      s \<leftarrow> bte_hci_reset (E\<lparr>env_client := generic_client E 2\<rparr>) (Some client) (Some GENERIC_ON_RESET_DONE) dev s; Some (0, s) })"
    unfolding generic_init_eq [symmetric] by (simp add: generic_env_def Let_def)
qed (use assms(2) in \<open>simp add: generic_env_def Let_def\<close>)

lemma wii_init_eq: "wii_init X q dev = (\<lambda>s. do { (client, s) \<leftarrow> bte_client_new X q s; client \<leftarrow> client;
    s \<leftarrow> bte_client_set_userdata client dev s; s \<leftarrow> bte_hci_reset X (Some client) (Some WII_ON_RESET_DONE) dev s; Some (0, s) })"
  by (rule ext) (simp only: wii_init_def)

lemma wii_brings_up:
  assumes "fresh_dev s" "\<And>t. 0 \<le> be_init E t" "p \<noteq> u" "cb \<notin> {51..59}" "good_replies (wii_steps ctl) rs"
  shows "brings_up (wii_env E (Some p) dev) E (wii_inner E) p (wii_steps ctl) ctl u cb ud rs s"
proof (rule wii_driver.client_told [where N = "E\<lparr>env_client := wii_client E 6\<rparr>", OF assms(1) _ assms(3) telling_wii [OF assms(4)] assms(5)])
  obtain n0 n1 n2 n3 n4 r5 r6 r7 n8 where rs: "rs = [(n0, 0), (n1, 0), (n2, 0), (n3, 0), (n4, 0), r5, r6, r7, (n8, 0)]"
    using assms(5) by (auto simp: good_replies_def wii_steps_def step_defs length_Suc_conv eval_nat_numeral)
  show "started ctl p u t" if t: "idle t" "info_flags c = 0" "acl_available_packets c = BTE_ACL_AVAILABLE_PACKETS_UNSET"
      "core t = (fold (\<lambda>(st, status) s. taken ctl st status (noted st status s)) (zip (wii_steps ctl) (map snd rs)) c)\<lparr>
        clients := [None, Some u, None, None], client_heap := (client_heap c)(p := None), init_status := BTE_HCI_INIT_STATUS_INITIALIZED\<rparr>" for t c
    by (rule started_from_core [where c = c and i = 5 and h = "(client_heap c)(p := None)", OF _ t(1) _ t(3)])
       (use t(2,4) in \<open>simp_all add: rs wii_steps_def taken_bd_addr set_buffer_size_upd\<close>)
  show "hd (wii_steps ctl) = reset_step WII_ON_RESET_DONE" by (simp add: wii_steps_def)
  show "driver_init (wii_env E (Some p) dev) = (\<lambda>s. do { (client, s) \<leftarrow> bte_client_new (E\<lparr>env_client := wii_client E 6\<rparr>) (Some p) s;
      client \<leftarrow> client; s \<leftarrow> bte_client_set_userdata client dev s;
      s \<leftarrow> bte_hci_reset (E\<lparr>env_client := wii_client E 6\<rparr>) (Some client) (Some WII_ON_RESET_DONE) dev s; Some (0, s) })"
    unfolding wii_init_eq [symmetric] by (simp add: wii_env_def Let_def)
qed (use assms(2) in \<open>simp add: wii_env_def Let_def\<close>)

text \<open>
  C4: from the first client to its callback, with either driver: \<^verbatim>\<open>bte_client_new\<close> sends the first command of the driver's
  chain, and when the controller has answered every command, successfully where the driver looks at the status, exactly
  the commands of the chain were sent, in order, the device has the buffer sizes, the address and the features that the
  controller reported, it is initialised, the driver's client is gone, no command is pending, and in this state the callback of the client is
  called, once. The callback may do anything; what follows its return is that clients registered behind it are told too, and
  that a handler for \<^verbatim>\<open>HCI_COMMAND_COMPLETE\<close> it may have installed sees the last event.
\<close>

theorem drivers_bring_up_controller:
  assumes "fresh_dev s" "\<And>t. 0 \<le> be_init E t" "p \<noteq> u" "cb \<notin> {41..44} \<union> {51..59}"
    and "good_replies (generic_steps ctl) rs" "good_replies (wii_steps ctl) rs'"
  shows "brings_up (generic_env E (Some p) dev) E (generic_inner E) p (generic_steps ctl) ctl u cb ud rs s \<and>
    brings_up (wii_env E (Some p) dev) E (wii_inner E) p (wii_steps ctl) ctl u cb ud rs' s"
  using generic_brings_up [OF assms(1-3) _ assms(5)] wii_brings_up [OF assms(1-3) _ assms(6)] assms(4) by simp

lemma failed_dev: "init_status t = BTE_HCI_INIT_STATUS_FAILED \<Longrightarrow> bte_client_new X q t = Some (None, t)"
  by (simp add: bte_client_new_def bte_hci_dev_init_def EIO_def)

definition reports_failure :: "'a env \<Rightarrow> 'a env \<Rightarrow> 'a env \<Rightarrow> nat \<Rightarrow> nat \<Rightarrow> nat \<Rightarrow> u64 \<Rightarrow> bte_buffer \<Rightarrow> 'a dev \<Rightarrow> bool" where
  "reports_failure X E I p u cb ud b s \<longleftrightarrow> (\<forall>on_data. \<exists>f.
     bte_hci_dev_handle_event X (hci_dispatch X on_data) b s =
       do { s \<leftarrow> call_client_void E (Some cb) (Some u) (Initialized False) ud f;
            s \<leftarrow> set_status_loop I False [2, 3] s;
            s \<leftarrow> bte_client_unref I p s;
            s \<leftarrow> run_event_handler (hci_dispatch X on_data) HCI_COMMAND_COMPLETE b s;
            Some (0, s) } \<and>
     init_status f = BTE_HCI_INIT_STATUS_FAILED \<and> idle f \<and> clients f = clients s \<and> client_heap f = client_heap s) \<and>
   (\<forall>t. idle t \<and> clients t = clients s \<and> client_heap t = client_heap s \<longrightarrow>
     bte_client_unref I p t = Some (t\<lparr>clients := [None, Some u, None, None], client_heap := (client_heap s)(p := None)\<rparr>)) \<and>
   (\<forall>q t. init_status t = BTE_HCI_INIT_STATUS_FAILED \<longrightarrow> bte_client_new X q t = Some (None, t))"

lemma reports_failureI:
  assumes "\<And>on_data. \<exists>f. bte_hci_dev_handle_event X (hci_dispatch X on_data) b s =
      do { s \<leftarrow> telling E I False u cb ud f; s \<leftarrow> bte_client_unref I p s;
           s \<leftarrow> run_event_handler (hci_dispatch X on_data) HCI_COMMAND_COMPLETE b s; Some (0, s) } \<and>
    init_status f = BTE_HCI_INIT_STATUS_FAILED \<and> idle f \<and> clients f = clients s \<and> client_heap f = client_heap s \<and>
    event_handlers f = event_handlers s" and "starting p u cb ud s"
  shows "reports_failure X E I p u cb ud b s"
  unfolding reports_failure_def
proof (intro conjI allI impI)
  show "\<exists>f. bte_hci_dev_handle_event X (hci_dispatch X on_data) b s =
       do { s \<leftarrow> call_client_void E (Some cb) (Some u) (Initialized False) ud f; s \<leftarrow> set_status_loop I False [2, 3] s;
            s \<leftarrow> bte_client_unref I p s; s \<leftarrow> run_event_handler (hci_dispatch X on_data) HCI_COMMAND_COMPLETE b s; Some (0, s) } \<and>
     init_status f = BTE_HCI_INIT_STATUS_FAILED \<and> idle f \<and> clients f = clients s \<and> client_heap f = client_heap s" for on_data
    using assms(1) [of on_data] unfolding telling_def bind_assoc by blast
  show "bte_client_unref I p t = Some (t\<lparr>clients := [None, Some u, None, None], client_heap := (client_heap s)(p := None)\<rparr>)"
    if "idle t \<and> clients t = clients s \<and> client_heap t = client_heap s" for t
    using unref_idle [of t p _ u I] that assms(2) by (auto simp: starting_def)
  show "bte_client_new X q t = Some (None, t)" if "init_status t = BTE_HCI_INIT_STATUS_FAILED" for q t
    by (rule failed_dev [OF that])
qed

text \<open>
  C35: a controller that cannot be brought up: when the status of a reply that a driver looks at is not success, the device is
  marked as failed and the client that waits is told; its callback may do anything. Then the clients registered behind it are told, and the driver's
  client is released: it is gone if the callback left the clients alone. As long as the device is marked as failed, \<^verbatim>\<open>bte_client_new\<close> returns
  \<^verbatim>\<open>NULL\<close>.
\<close>

theorem driver_failure_reported:
  assumes "awaits p dev st s" "starting p u cb ud s" "cb \<notin> {41..44} \<union> {51..59}"
    and "st_checked st" "status \<noteq> 0"
  shows "(st \<in> set (generic_steps ctl) \<longrightarrow>
      reports_failure (generic_env E (Some p) dev) E (generic_inner E) p u cb ud (step_reply st np status) s) \<and>
    (st \<in> set (wii_steps ctl) \<longrightarrow>
      reports_failure (wii_env E (Some p) dev) E (wii_inner E) p u cb ud (step_reply st np status) s)"
proof (intro conjI impI)
  have cb: "cb \<notin> {41..44}" "cb \<notin> {51..59}" using assms(3) by simp_all
  show "reports_failure (generic_env E (Some p) dev) E (generic_inner E) p u cb ud (step_reply st np status) s" if "st \<in> set (generic_steps ctl)"
    by (rule reports_failureI [OF generic_driver.fails [OF assms(1) that assms(4,5,2), unfolded telling_generic [OF cb(1)]] assms(2)])
  show "reports_failure (wii_env E (Some p) dev) E (wii_inner E) p u cb ud (step_reply st np status) s" if "st \<in> set (wii_steps ctl)"
    by (rule reports_failureI [OF wii_driver.fails [OF assms(1) that assms(4,5,2), unfolded telling_wii [OF cb(2)]] assms(2)])
qed

definition demo_controller :: controller where
  "demo_controller = \<lparr>ctl_acl_mtu = 339, ctl_sco_mtu = 64, ctl_acl_packets = 10, ctl_sco_packets = 0, ctl_address = 0x123456789abc,
     ctl_features = 0xbfff, ctl_version = 3\<rparr>"

lemma zero_dev_fresh: "fresh_dev zero_dev"
proof -
  have "replicate 4 None = [None, None, None, None :: nat option]" by (simp add: eval_nat_numeral)
  then have "clients zero_dev = [None, None, None, None]" "event_handlers zero_dev ! 14 = None" "length (event_handlers zero_dev) = 61"
    by (simp_all add: zero_dev_def)
  moreover have "init_status zero_dev = BTE_HCI_INIT_STATUS_UNINITIALIZED" "info_flags zero_dev = 0" by (simp_all add: zero_dev_def)
  ultimately show ?thesis using zero_dev_ok zero_dev_table by (simp add: fresh_dev_def idle_def no_handler_def)
qed

theorem drivers_bring_up_controller_witness:
  "brings_up (generic_env demo_env (Some 1) 9) demo_env (generic_inner demo_env) 1 (generic_steps demo_controller) demo_controller 2 7 42
     [(1, 0), (1, 0), (1, 0), (1, 0)] zero_dev \<and>
   brings_up (wii_env demo_env (Some 1) 9) demo_env (wii_inner demo_env) 1 (wii_steps demo_controller) demo_controller 2 7 42
     [(1, 0), (1, 0), (1, 0), (1, 0), (1, 0), (1, 1), (1, 1), (1, 1), (1, 0)] zero_dev"
  by (rule drivers_bring_up_controller [OF zero_dev_fresh])
     (simp_all add: demo_env_def good_replies_def generic_steps_def wii_steps_def step_defs)

theorem driver_failure_reported_witness:
  "\<exists>s1 s2. bte_client_new (generic_env demo_env (Some 1) 9) (Some 2) zero_dev = Some (Some 2, s1) \<and>
    bte_hci_on_initialized (generic_env demo_env (Some 1) 9) (Some 2) (Some 7) 42 s1 = Some s2 \<and>
    reports_failure (generic_env demo_env (Some 1) 9) demo_env (generic_inner demo_env) 1 2 7 42 (step_reply (reset_step GENERIC_ON_RESET_DONE) 1 0x0c) s2"
proof -
  let ?X = "generic_env demo_env (Some 1) 9" and ?st = "reset_step GENERIC_ON_RESET_DONE"
  let ?N = "demo_env\<lparr>env_client := generic_client demo_env 2\<rparr>"
  have bi: "\<And>t. 0 \<le> be_init ?X t" by (simp add: generic_env_def Let_def demo_env_def)
  have di: "driver_init ?X = generic_init ?N (Some 1) 9" by (simp add: generic_env_def Let_def)
  obtain s1 where s1: "bte_client_new ?X (Some 2) zero_dev = Some (Some 2, s1)" "awaits 1 9 ?st s1"
      "core s1 = core (first_client 1 9 2 None (replicate 8 0) zero_dev)"
    using chain_begins [OF zero_dev_fresh bi di [unfolded generic_init_eq]] by blast
  have ne: "(1 :: nat) \<noteq> 2" by simp
  obtain s2 where s2: "bte_hci_on_initialized ?X (Some 2) (Some 7) 42 s1 = Some s2" "awaits 1 9 ?st s2"
      "core s2 = core (first_client 1 9 2 (Some 7) (le_bytes 8 (42 :: u64)) zero_dev)" "starting 1 2 7 42 s2"
    using waits_to_be_told [OF s1(2,3) ne, of ?X 7 42] by blast
  have "?st \<in> set (generic_steps demo_controller)" by (simp add: generic_steps_def)
  then have "reports_failure ?X demo_env (generic_inner demo_env) 1 2 7 42 (step_reply ?st 1 0x0c) s2"
    using driver_failure_reported [OF s2(2,4), of "0x0c" demo_controller demo_env 1] by (simp add: reset_step_def)
  then show ?thesis using s1(1) s2(1) by blast
qed

end
