(* ===== verification/L2capConfig.thy ===== *)
theory L2capConfig
  imports Buffer
begin

text \<open>
  The configuration options of \<^verbatim>\<open>l2cap.c\<close>: \<^verbatim>\<open>l2cap_config_parse\<close>, which reads the options of a
  configuration request or response, and \<^verbatim>\<open>l2cap_config_write\<close>, which writes as many of them as
  fit into a packet. Optional structures behind a pointer are option values; what is done with freed
  memory is not modelled.
\<close>

section \<open>Constants and parameters\<close>

abbreviation (input) L2CAP_CONFIG_MTU :: byte where "L2CAP_CONFIG_MTU \<equiv> 0x01"
abbreviation (input) L2CAP_CONFIG_FLUSH_TIMEOUT :: byte where "L2CAP_CONFIG_FLUSH_TIMEOUT \<equiv> 0x02"
abbreviation (input) L2CAP_CONFIG_QOS :: byte where "L2CAP_CONFIG_QOS \<equiv> 0x03"
abbreviation (input) L2CAP_CONFIG_RETX_FLOW :: byte where "L2CAP_CONFIG_RETX_FLOW \<equiv> 0x04"
abbreviation (input) L2CAP_CONFIG_FRAME_CHECK_SEQ :: byte where "L2CAP_CONFIG_FRAME_CHECK_SEQ \<equiv> 0x05"
abbreviation (input) L2CAP_CONFIG_EXT_FLOW :: byte where "L2CAP_CONFIG_EXT_FLOW \<equiv> 0x06"
abbreviation (input) L2CAP_CONFIG_MAX_WINDOW_SIZE :: byte where "L2CAP_CONFIG_MAX_WINDOW_SIZE \<equiv> 0x07"
abbreviation (input) L2CAP_CONFIG_HINT :: byte where "L2CAP_CONFIG_HINT \<equiv> 0x80"
abbreviation (input) L2CAP_CONFIG_MTU_LEN :: byte where "L2CAP_CONFIG_MTU_LEN \<equiv> 2"
abbreviation (input) L2CAP_CONFIG_FLUSH_TIMEOUT_LEN :: byte where "L2CAP_CONFIG_FLUSH_TIMEOUT_LEN \<equiv> 2"
abbreviation (input) L2CAP_CONFIG_QOS_LEN :: byte where "L2CAP_CONFIG_QOS_LEN \<equiv> 22"
abbreviation (input) L2CAP_CONFIG_RETX_FLOW_LEN :: byte where "L2CAP_CONFIG_RETX_FLOW_LEN \<equiv> 9"
abbreviation (input) L2CAP_CONFIG_FRAME_CHECK_SEQ_LEN :: byte where "L2CAP_CONFIG_FRAME_CHECK_SEQ_LEN \<equiv> 1"
abbreviation (input) L2CAP_CONFIG_EXT_FLOW_LEN :: byte where "L2CAP_CONFIG_EXT_FLOW_LEN \<equiv> 16"
abbreviation (input) L2CAP_CONFIG_MAX_WINDOW_SIZE_LEN :: byte where "L2CAP_CONFIG_MAX_WINDOW_SIZE_LEN \<equiv> 2"
abbreviation (input) BTE_L2CAP_CONFIG_MTU :: u32 where "BTE_L2CAP_CONFIG_MTU \<equiv> 0x01"
abbreviation (input) BTE_L2CAP_CONFIG_FLUSH_TIMEOUT :: u32 where "BTE_L2CAP_CONFIG_FLUSH_TIMEOUT \<equiv> 0x02"
abbreviation (input) BTE_L2CAP_CONFIG_QOS :: u32 where "BTE_L2CAP_CONFIG_QOS \<equiv> 0x04"
abbreviation (input) BTE_L2CAP_CONFIG_RETX_FLOW :: u32 where "BTE_L2CAP_CONFIG_RETX_FLOW \<equiv> 0x08"
abbreviation (input) BTE_L2CAP_CONFIG_FRAME_CHECK_SEQ :: u32 where "BTE_L2CAP_CONFIG_FRAME_CHECK_SEQ \<equiv> 0x10"
abbreviation (input) BTE_L2CAP_CONFIG_EXT_FLOW :: u32 where "BTE_L2CAP_CONFIG_EXT_FLOW \<equiv> 0x20"
abbreviation (input) BTE_L2CAP_CONFIG_MAX_WINDOW_SIZE :: u32 where "BTE_L2CAP_CONFIG_MAX_WINDOW_SIZE \<equiv> 0x40"
abbreviation (input) L2CAP_CONFIG_PARSE_ERR_CORRUPTED :: int where "L2CAP_CONFIG_PARSE_ERR_CORRUPTED \<equiv> - 1"
abbreviation (input) L2CAP_CONFIG_PARSE_ERR_TYPE :: int where "L2CAP_CONFIG_PARSE_ERR_TYPE \<equiv> - 2"

record config_qos =
  qos_flags :: byte
  qos_service_type :: byte
  qos_token_rate :: u32
  qos_token_bucket_size :: u32
  qos_peak_bandwith :: u32
  qos_access_latency :: u32
  qos_delay_variation :: u32

record config_retx_flow =
  retx_mode :: byte
  retx_tx_window_size :: byte
  retx_max_transmit :: byte
  retx_retx_timeout :: u16
  retx_monitor_timeout :: u16
  retx_max_pdu_size :: u16

record config_ext_flow =
  ext_identifier :: byte
  ext_service_type :: byte
  ext_max_sdu_size :: u16
  ext_sdu_inter_time :: u32
  ext_access_latency :: u32
  ext_flush_timeout :: u32

record configure_params =
  field_mask :: u32
  cfg_mtu :: u16
  cfg_flush_timeout :: u16
  cfg_frame_check_sequence :: byte
  cfg_max_window_size :: u16
  cfg_qos :: "config_qos option"
  cfg_retx_flow :: "config_retx_flow option"
  cfg_ext_flow :: "config_ext_flow option"

text \<open>All zero, as after \<^verbatim>\<open>memset\<close> or an initialiser.\<close>

definition zero_params :: configure_params where
  "zero_params = \<lparr>field_mask = 0, cfg_mtu = 0, cfg_flush_timeout = 0, cfg_frame_check_sequence = 0,
     cfg_max_window_size = 0, cfg_qos = None, cfg_retx_flow = None, cfg_ext_flow = None\<rparr>"

definition l2cap_config_params_clear :: "configure_params \<Rightarrow> configure_params" where
  "l2cap_config_params_clear params =
     params\<lparr>cfg_qos := None, cfg_retx_flow := None, cfg_ext_flow := None, field_mask := 0\<rparr>"

section \<open>Parsing\<close>

text \<open>The structures are packed: the bytes of the option are their memory.\<close>

definition qos_of_bytes :: "mem \<Rightarrow> config_qos option" where
  "qos_of_bytes d =
     do { flags \<leftarrow> rd8 d 0; service_type \<leftarrow> rd8 d 1; token_rate \<leftarrow> read_le32 d 2;
          token_bucket_size \<leftarrow> read_le32 d 6; peak_bandwith \<leftarrow> read_le32 d 10;
          access_latency \<leftarrow> read_le32 d 14; delay_variation \<leftarrow> read_le32 d 18;
          Some \<lparr>qos_flags = flags, qos_service_type = service_type, qos_token_rate = token_rate,
                qos_token_bucket_size = token_bucket_size, qos_peak_bandwith = peak_bandwith,
                qos_access_latency = access_latency, qos_delay_variation = delay_variation\<rparr> }"

definition retx_flow_of_bytes :: "mem \<Rightarrow> config_retx_flow option" where
  "retx_flow_of_bytes d =
     do { mode \<leftarrow> rd8 d 0; tx_window_size \<leftarrow> rd8 d 1; max_transmit \<leftarrow> rd8 d 2;
          retx_timeout \<leftarrow> read_le16 d 3; monitor_timeout \<leftarrow> read_le16 d 5; max_pdu_size \<leftarrow> read_le16 d 7;
          Some \<lparr>retx_mode = mode, retx_tx_window_size = tx_window_size, retx_max_transmit = max_transmit,
                retx_retx_timeout = retx_timeout, retx_monitor_timeout = monitor_timeout,
                retx_max_pdu_size = max_pdu_size\<rparr> }"

definition ext_flow_of_bytes :: "mem \<Rightarrow> config_ext_flow option" where
  "ext_flow_of_bytes d =
     do { identifier \<leftarrow> rd8 d 0; service_type \<leftarrow> rd8 d 1; max_sdu_size \<leftarrow> read_le16 d 2;
          sdu_inter_time \<leftarrow> read_le32 d 4; access_latency \<leftarrow> read_le32 d 8; flush_timeout \<leftarrow> read_le32 d 12;
          Some \<lparr>ext_identifier = identifier, ext_service_type = service_type,
                ext_max_sdu_size = max_sdu_size, ext_sdu_inter_time = sdu_inter_time,
                ext_access_latency = access_latency, ext_flush_timeout = flush_timeout\<rparr> }"

text \<open>
  A read of two bytes (or one) into a field: when the reader has fewer bytes the rest of the field
  keeps what it held.
\<close>

definition read_u16 :: "u16 \<Rightarrow> bte_buffer_reader \<Rightarrow> (u16 \<times> u16 \<times> bte_buffer_reader) option" where
  "read_u16 v r =
     do { (bs, len, r) \<leftarrow> bte_buffer_reader_read True r 2;
          Some (le_val (bs @ drop (length bs) (le_bytes 2 v)), len, r) }"

definition read_u8 :: "byte \<Rightarrow> bte_buffer_reader \<Rightarrow> (byte \<times> u16 \<times> bte_buffer_reader) option" where
  "read_u8 v r =
     do { (bs, len, r) \<leftarrow> bte_buffer_reader_read True r 1;
          Some (case bs of [] \<Rightarrow> v | b # _ \<Rightarrow> b, len, r) }"

definition set_mask :: "u32 \<Rightarrow> configure_params \<Rightarrow> configure_params" where
  "set_mask m params = params\<lparr>field_mask := field_mask params OR m\<rparr>"

definition option_known :: "byte \<Rightarrow> bool" where
  "option_known t \<longleftrightarrow> t \<in> {L2CAP_CONFIG_MTU, L2CAP_CONFIG_FLUSH_TIMEOUT, L2CAP_CONFIG_FRAME_CHECK_SEQ,
     L2CAP_CONFIG_MAX_WINDOW_SIZE, L2CAP_CONFIG_QOS, L2CAP_CONFIG_RETX_FLOW, L2CAP_CONFIG_EXT_FLOW}"

text \<open>
  The body of the loop for an option of a known type; \<open>False\<close> is the jump to the error exit. The
  second switch compares the whole type, so a structure with the hint bit is read and dropped.
\<close>

definition parse_option ::
    "byte \<Rightarrow> byte \<Rightarrow> bte_buffer_reader \<Rightarrow> configure_params
     \<Rightarrow> (bool \<times> bte_buffer_reader \<times> configure_params) option" where
  "parse_option type sz r params =
     (let opt = type AND 0x7f in
      if opt = L2CAP_CONFIG_MTU then
        do { (v, len, r) \<leftarrow> read_u16 (cfg_mtu params) r;
             Some (len = 2 \<and> sz = 2, r, (set_mask BTE_L2CAP_CONFIG_MTU params)\<lparr>cfg_mtu := v\<rparr>) }
      else if opt = L2CAP_CONFIG_FLUSH_TIMEOUT then
        do { (v, len, r) \<leftarrow> read_u16 (cfg_flush_timeout params) r;
             Some (len = 2 \<and> sz = 2, r, (set_mask BTE_L2CAP_CONFIG_FLUSH_TIMEOUT params)\<lparr>cfg_flush_timeout := v\<rparr>) }
      else if opt = L2CAP_CONFIG_FRAME_CHECK_SEQ then
        do { (v, len, r) \<leftarrow> read_u8 (cfg_frame_check_sequence params) r;
             Some (len = 1 \<and> sz = 1, r,
               (set_mask BTE_L2CAP_CONFIG_FRAME_CHECK_SEQ params)\<lparr>cfg_frame_check_sequence := v\<rparr>) }
      else if opt = L2CAP_CONFIG_MAX_WINDOW_SIZE then
        do { (v, len, r) \<leftarrow> read_u16 (cfg_max_window_size params) r;
             Some (len = 2 \<and> sz = 2, r,
               (set_mask BTE_L2CAP_CONFIG_MAX_WINDOW_SIZE params)\<lparr>cfg_max_window_size := v\<rparr>) }
      else if opt = L2CAP_CONFIG_QOS then
        do { (bs, len, r) \<leftarrow> bte_buffer_reader_read True r (ucast L2CAP_CONFIG_QOS_LEN);
             let params = set_mask BTE_L2CAP_CONFIG_QOS params;
             if len \<noteq> ucast L2CAP_CONFIG_QOS_LEN \<or> sz \<noteq> L2CAP_CONFIG_QOS_LEN then Some (False, r, params)
             else if type = L2CAP_CONFIG_QOS then
               do { p \<leftarrow> qos_of_bytes bs; Some (True, r, params\<lparr>cfg_qos := Some p\<rparr>) }
             else Some (True, r, params) }
      else if opt = L2CAP_CONFIG_RETX_FLOW then
        do { (bs, len, r) \<leftarrow> bte_buffer_reader_read True r (ucast L2CAP_CONFIG_RETX_FLOW_LEN);
             let params = set_mask BTE_L2CAP_CONFIG_RETX_FLOW params;
             if len \<noteq> ucast L2CAP_CONFIG_RETX_FLOW_LEN \<or> sz \<noteq> L2CAP_CONFIG_RETX_FLOW_LEN then Some (False, r, params)
             else if type = L2CAP_CONFIG_RETX_FLOW then
               do { p \<leftarrow> retx_flow_of_bytes bs; Some (True, r, params\<lparr>cfg_retx_flow := Some p\<rparr>) }
             else Some (True, r, params) }
      else
        do { (bs, len, r) \<leftarrow> bte_buffer_reader_read True r (ucast L2CAP_CONFIG_EXT_FLOW_LEN);
             let params = set_mask BTE_L2CAP_CONFIG_EXT_FLOW params;
             if len \<noteq> ucast L2CAP_CONFIG_EXT_FLOW_LEN \<or> sz \<noteq> L2CAP_CONFIG_EXT_FLOW_LEN then Some (False, r, params)
             else if type = L2CAP_CONFIG_EXT_FLOW then
               do { p \<leftarrow> ext_flow_of_bytes bs; Some (True, r, params\<lparr>cfg_ext_flow := Some p\<rparr>) }
             else Some (True, r, params) })"

text \<open>
  The loop of \<^verbatim>\<open>l2cap_config_parse\<close>. \<open>read\<close> counts in 16 bits; that the loop ends is shown below.
  The argument \<^verbatim>\<open>unknown_size\<close> may be \<^verbatim>\<open>NULL\<close>.
\<close>

partial_function (option) config_parse_loop ::
    "bte_buffer_reader \<Rightarrow> configure_params \<Rightarrow> u16 \<Rightarrow> u16 option \<Rightarrow> u16 \<Rightarrow> int
     \<Rightarrow> (int \<times> bte_buffer_reader \<times> configure_params \<times> u16 option) option" where
  "config_parse_loop r params cmd_size unknown_size read error_return =
     (if read < cmd_size then
        do { (header, len, r) \<leftarrow> bte_buffer_reader_read True r 2;
             if len \<noteq> 2 then Some (error_return, r, l2cap_config_params_clear params, unknown_size)
             else do {
               let read = read + 2;
               type \<leftarrow> rd8 header 0;
               sz \<leftarrow> rd8 header 1;
               if unat read + unat sz > unat cmd_size
               then Some (error_return, r, l2cap_config_params_clear params, unknown_size)
               else if \<not> option_known (type AND 0x7f) then
                 do { let critical = (type AND L2CAP_CONFIG_HINT = 0);
                      (_, r) \<leftarrow> bte_buffer_reader_advance r (ucast sz);
                      config_parse_loop r params cmd_size
                        (if critical then map_option (\<lambda>u. u + (2 + ucast sz)) unknown_size else unknown_size)
                        (read + ucast sz)
                        (if critical then L2CAP_CONFIG_PARSE_ERR_TYPE else error_return) }
               else
                 do { (ok, r, params) \<leftarrow> parse_option type sz r params;
                      if ok then config_parse_loop r params cmd_size unknown_size (read + ucast sz) error_return
                      else Some (error_return, r, l2cap_config_params_clear params, unknown_size) } } }
      else if unknown_size \<noteq> None \<and> unknown_size \<noteq> Some 0
      then Some (error_return, r, l2cap_config_params_clear params, unknown_size)
      else Some (0, r, params, unknown_size))"

definition l2cap_config_parse ::
    "bte_buffer_reader \<Rightarrow> configure_params \<Rightarrow> u16 \<Rightarrow> u16 option
     \<Rightarrow> (int \<times> bte_buffer_reader \<times> configure_params \<times> u16 option) option" where
  "l2cap_config_parse r params cmd_size unknown_size =
     config_parse_loop r params cmd_size unknown_size 0 L2CAP_CONFIG_PARSE_ERR_CORRUPTED"

definition l2cap_configure_type_is_known :: "byte \<Rightarrow> bool" where
  "l2cap_configure_type_is_known type \<longleftrightarrow>
     type AND L2CAP_CONFIG_HINT \<noteq> 0 \<or> option_known (type AND 0x7f)"

section \<open>Writing\<close>

text \<open>
  The seven blocks of \<^verbatim>\<open>l2cap_config_write\<close> have one shape: skip the option unless it is present and
  not before the start command, stop at the first one that does not fit, otherwise store it (when there
  is a buffer) and count it. The state is the overflow command (not zero after the jump to the end),
  the size, the memory and the pointer into it.
\<close>

type_synonym config_out = "byte \<times> u16 \<times> mem \<times> nat option"

definition config_block ::
    "byte \<Rightarrow> u16 \<Rightarrow> byte \<Rightarrow> bool \<Rightarrow> mem \<Rightarrow> config_out \<Rightarrow> config_out option" where
  "config_block start_command buffer_size cmd present bs out =
     (case out of (overflow_cmd, sz, buf, ptr) \<Rightarrow>
        if overflow_cmd \<noteq> 0 \<or> \<not> (start_command \<le> cmd \<and> present) then Some out
        else if unat sz + 2 + length bs > unat buffer_size then Some (cmd, sz, buf, ptr)
        else do { buf \<leftarrow> (case ptr of None \<Rightarrow> Some buf | Some p \<Rightarrow> wr buf p (cmd # of_nat (length bs) # bs));
                  Some (0, sz + (2 + of_nat (length bs)), buf, map_option (\<lambda>p. p + (2 + length bs)) ptr) })"

definition qos_bytes :: "config_qos \<Rightarrow> mem" where
  "qos_bytes q = [qos_flags q, qos_service_type q] @ le_bytes 4 (qos_token_rate q) @
     le_bytes 4 (qos_token_bucket_size q) @ le_bytes 4 (qos_peak_bandwith q) @
     le_bytes 4 (qos_access_latency q) @ le_bytes 4 (qos_delay_variation q)"

definition retx_flow_bytes :: "config_retx_flow \<Rightarrow> mem" where
  "retx_flow_bytes f = [retx_mode f, retx_tx_window_size f, retx_max_transmit f] @
     le_bytes 2 (retx_retx_timeout f) @ le_bytes 2 (retx_monitor_timeout f) @ le_bytes 2 (retx_max_pdu_size f)"

definition ext_flow_bytes :: "config_ext_flow \<Rightarrow> mem" where
  "ext_flow_bytes f = [ext_identifier f, ext_service_type f] @ le_bytes 2 (ext_max_sdu_size f) @
     le_bytes 4 (ext_sdu_inter_time f) @ le_bytes 4 (ext_access_latency f) @ le_bytes 4 (ext_flush_timeout f)"

definition l2cap_config_write ::
    "configure_params \<Rightarrow> byte \<Rightarrow> mem \<Rightarrow> nat option \<Rightarrow> u16 \<Rightarrow> (byte \<times> u16 \<times> mem) option" where
  "l2cap_config_write params start_command buf buffer buffer_size =
     do { let has = (\<lambda>m. field_mask params AND m \<noteq> 0);
          let out = (0, 0, buf, buffer);
          out \<leftarrow> config_block start_command buffer_size L2CAP_CONFIG_MTU
                   (has BTE_L2CAP_CONFIG_MTU) (le_bytes 2 (cfg_mtu params)) out;
          out \<leftarrow> config_block start_command buffer_size L2CAP_CONFIG_FLUSH_TIMEOUT
                   (has BTE_L2CAP_CONFIG_FLUSH_TIMEOUT) (le_bytes 2 (cfg_flush_timeout params)) out;
          out \<leftarrow> (case cfg_qos params of None \<Rightarrow> Some out
                   | Some q \<Rightarrow> config_block start_command buffer_size L2CAP_CONFIG_QOS True (qos_bytes q) out);
          out \<leftarrow> (case cfg_retx_flow params of None \<Rightarrow> Some out
                   | Some f \<Rightarrow> config_block start_command buffer_size L2CAP_CONFIG_RETX_FLOW True (retx_flow_bytes f) out);
          out \<leftarrow> config_block start_command buffer_size L2CAP_CONFIG_FRAME_CHECK_SEQ
                   (has BTE_L2CAP_CONFIG_FRAME_CHECK_SEQ) [cfg_frame_check_sequence params] out;
          out \<leftarrow> (case cfg_ext_flow params of None \<Rightarrow> Some out
                   | Some f \<Rightarrow> config_block start_command buffer_size L2CAP_CONFIG_EXT_FLOW True (ext_flow_bytes f) out);
          (overflow_cmd, sz, buf, _) \<leftarrow> config_block start_command buffer_size L2CAP_CONFIG_MAX_WINDOW_SIZE
                   (has BTE_L2CAP_CONFIG_MAX_WINDOW_SIZE) (le_bytes 2 (cfg_max_window_size params)) out;
          Some (overflow_cmd, sz, buf) }"

section \<open>Options as lists\<close>

text \<open>An option is its type and its value; \<open>tlv_bytes\<close> is its encoding.\<close>

type_synonym tlv = "byte \<times> mem"

fun tlv_bytes :: "tlv \<Rightarrow> mem" where
  "tlv_bytes (t, bs) = t # of_nat (length bs) # bs"

abbreviation tlvs_bytes :: "tlv list \<Rightarrow> mem" where
  "tlvs_bytes os \<equiv> concat (map tlv_bytes os)"

definition opt_len :: "byte \<Rightarrow> nat" where
  "opt_len t = (if t = L2CAP_CONFIG_QOS then 22 else if t = L2CAP_CONFIG_RETX_FLOW then 9
                else if t = L2CAP_CONFIG_FRAME_CHECK_SEQ then 1 else if t = L2CAP_CONFIG_EXT_FLOW then 16 else 2)"

text \<open>An option whose value has the length its type asks for.\<close>

fun tlv_ok :: "tlv \<Rightarrow> bool" where
  "tlv_ok (t, bs) \<longleftrightarrow> length bs < 256 \<and> (option_known (t AND 0x7f) \<longrightarrow> length bs = opt_len (t AND 0x7f))"

fun apply_tlv :: "tlv \<Rightarrow> configure_params \<Rightarrow> configure_params" where
  "apply_tlv (t, bs) params =
     (let opt = t AND 0x7f in
      if opt = L2CAP_CONFIG_MTU then (set_mask BTE_L2CAP_CONFIG_MTU params)\<lparr>cfg_mtu := le_val bs\<rparr>
      else if opt = L2CAP_CONFIG_FLUSH_TIMEOUT
      then (set_mask BTE_L2CAP_CONFIG_FLUSH_TIMEOUT params)\<lparr>cfg_flush_timeout := le_val bs\<rparr>
      else if opt = L2CAP_CONFIG_FRAME_CHECK_SEQ
      then (set_mask BTE_L2CAP_CONFIG_FRAME_CHECK_SEQ params)\<lparr>cfg_frame_check_sequence := le_val bs\<rparr>
      else if opt = L2CAP_CONFIG_MAX_WINDOW_SIZE
      then (set_mask BTE_L2CAP_CONFIG_MAX_WINDOW_SIZE params)\<lparr>cfg_max_window_size := le_val bs\<rparr>
      else if opt = L2CAP_CONFIG_QOS
      then (let p = set_mask BTE_L2CAP_CONFIG_QOS params
            in if t = L2CAP_CONFIG_QOS then p\<lparr>cfg_qos := qos_of_bytes bs\<rparr> else p)
      else if opt = L2CAP_CONFIG_RETX_FLOW
      then (let p = set_mask BTE_L2CAP_CONFIG_RETX_FLOW params
            in if t = L2CAP_CONFIG_RETX_FLOW then p\<lparr>cfg_retx_flow := retx_flow_of_bytes bs\<rparr> else p)
      else if opt = L2CAP_CONFIG_EXT_FLOW
      then (let p = set_mask BTE_L2CAP_CONFIG_EXT_FLOW params
            in if t = L2CAP_CONFIG_EXT_FLOW then p\<lparr>cfg_ext_flow := ext_flow_of_bytes bs\<rparr> else p)
      else params)"

fun critical :: "tlv \<Rightarrow> bool" where
  "critical (t, bs) \<longleftrightarrow> \<not> option_known (t AND 0x7f) \<and> t AND L2CAP_CONFIG_HINT = 0"

section \<open>Parsing one option\<close>

lemma read_exact:
  assumes "reader_ok r" "reader_stream r = bs @ rest" "length bs = unat n"
  shows "\<exists>r'. bte_buffer_reader_read True r n = Some (bs, n, r') \<and> reader_ok r' \<and> reader_stream r' = rest"
  using reader_read_spec [OF assms(1), of True n] assms(2,3) by auto

lemma advance_exact:
  assumes "reader_ok r" "reader_stream r = bs @ rest" "length bs = unat n"
  shows "\<exists>r'. bte_buffer_reader_advance r n = Some (n, r') \<and> reader_ok r' \<and> reader_stream r' = rest"
  using reader_read_spec [OF assms(1), of False n] assms(2,3) by (auto simp: bte_buffer_reader_advance_def)

lemma read_u16_exact:
  assumes "reader_ok r" "reader_stream r = bs @ rest" "length bs = 2"
  shows "\<exists>r'. read_u16 v r = Some (le_val bs, 2, r') \<and> reader_ok r' \<and> reader_stream r' = rest"
  using read_exact [OF assms(1,2), of 2] assms(3) by (auto simp: read_u16_def)

lemma read_u8_exact:
  assumes "reader_ok r" "reader_stream r = bs @ rest" "length bs = 1"
  shows "\<exists>r'. read_u8 v r = Some (le_val bs, 1, r') \<and> reader_ok r' \<and> reader_stream r' = rest"
  using read_exact [OF assms(1,2), of 1] assms(3) by (auto simp: read_u8_def length_Suc_conv)

lemma of_bytes_some:
  "length bs = 22 \<Longrightarrow> \<exists>q. qos_of_bytes bs = Some q"
  "length bs = 9 \<Longrightarrow> \<exists>q. retx_flow_of_bytes bs = Some q"
  "length bs = 16 \<Longrightarrow> \<exists>q. ext_flow_of_bytes bs = Some q"
  by (simp_all add: qos_of_bytes_def retx_flow_of_bytes_def ext_flow_of_bytes_def rd8_def read_le32_def
      read_le16_def slice_def)

lemma parse_option_ok:
  assumes "reader_ok r" "reader_stream r = bs @ rest" "option_known (t AND 0x7f)" "length bs = opt_len (t AND 0x7f)"
  shows "\<exists>r'. parse_option t (of_nat (length bs)) r params = Some (True, r', apply_tlv (t, bs) params) \<and>
           reader_ok r' \<and> reader_stream r' = rest"
proof -
  consider "t AND 0x7f = 1" | "t AND 0x7f = 2" | "t AND 0x7f = 5" | "t AND 0x7f = 7" | "t AND 0x7f = 3"
    | "t AND 0x7f = 4" | "t AND 0x7f = 6"
    using assms(3) by (auto simp: option_known_def)
  then show ?thesis
  proof cases
    case 1
    then have l: "length bs = 2" using assms(4) by (simp add: opt_len_def)
    from read_u16_exact [OF assms(1,2), of "cfg_mtu params"] 1 l show ?thesis
      by (auto simp: parse_option_def Let_def)
  next
    case 2
    then have l: "length bs = 2" using assms(4) by (simp add: opt_len_def)
    from read_u16_exact [OF assms(1,2), of "cfg_flush_timeout params"] 2 l show ?thesis
      by (auto simp: parse_option_def Let_def)
  next
    case 3
    then have l: "length bs = 1" using assms(4) by (simp add: opt_len_def)
    from read_u8_exact [OF assms(1,2), of "cfg_frame_check_sequence params"] 3 l show ?thesis
      by (auto simp: parse_option_def Let_def)
  next
    case 4
    then have l: "length bs = 2" using assms(4) by (simp add: opt_len_def)
    from read_u16_exact [OF assms(1,2), of "cfg_max_window_size params"] 4 l show ?thesis
      by (auto simp: parse_option_def Let_def)
  next
    case 5
    then have l: "length bs = 22" using assms(4) by (simp add: opt_len_def)
    from read_exact [OF assms(1,2), of 22] of_bytes_some(1) [OF l] 5 l show ?thesis
      by (auto simp: parse_option_def Let_def)
  next
    case 6
    then have l: "length bs = 9" using assms(4) by (simp add: opt_len_def)
    from read_exact [OF assms(1,2), of 9] of_bytes_some(2) [OF l] 6 l show ?thesis
      by (auto simp: parse_option_def Let_def)
  next
    case 7
    then have l: "length bs = 16" using assms(4) by (simp add: opt_len_def)
    from read_exact [OF assms(1,2), of 16] of_bytes_some(3) [OF l] 7 l show ?thesis
      by (auto simp: parse_option_def Let_def)
  qed
qed

section \<open>The parsing loop\<close>

text \<open>The parameters and the count of unknown bytes after the options \<open>os\<close>, and the error that is pending.\<close>

definition unknown_bytes :: "tlv list \<Rightarrow> nat" where
  "unknown_bytes os = length (tlvs_bytes (filter critical os))"

definition pending_error :: "tlv list \<Rightarrow> int \<Rightarrow> int" where
  "pending_error os e = (if list_ex critical os then L2CAP_CONFIG_PARSE_ERR_TYPE else e)"

lemma tlv_bytes_len [simp]: "length (tlv_bytes o') = 2 + length (snd o')"
  by (cases o') simp

lemma config_parse_step:
  assumes "reader_ok r" "reader_stream r = tlv_bytes (t, bs) @ rest" "tlv_ok (t, bs)"
    and k: "k + 2 + length bs \<le> n" "n < 65536"
  shows "\<exists>r'. reader_ok r' \<and> reader_stream r' = rest \<and>
    config_parse_loop r params (of_nat n) u (of_nat k) e =
    config_parse_loop r' (apply_tlv (t, bs) params) (of_nat n)
      (if critical (t, bs) then map_option (\<lambda>v. v + of_nat (2 + length bs)) u else u)
      (of_nat (k + 2 + length bs)) (if critical (t, bs) then L2CAP_CONFIG_PARSE_ERR_TYPE else e)"
proof -
  obtain r1 where r1: "bte_buffer_reader_read True r 2 = Some ([t, of_nat (length bs)], 2, r1)"
      "reader_ok r1" "reader_stream r1 = bs @ rest"
    using read_exact [OF assms(1), of "[t, of_nat (length bs)]" "bs @ rest" 2] assms(2) by auto
  have l: "length bs < 256" using assms(3) by simp
  then have sz: "unat (of_nat (length bs) :: byte) = length bs" by (rule byte_of_nat)
  have usz: "(ucast (of_nat (length bs) :: byte) :: u16) = of_nat (length bs)"
    using sz u16_of_nat [of "length bs"] l by (intro word_unat_eq_iff [THEN iffD2]) simp
  have rd: "(of_nat k :: u16) < of_nat n" using k by (subst u16_of_nat_less) auto
  have k2: "of_nat k + 2 = (of_nat (k + 2) :: u16)" by simp
  have un: "unat (of_nat (k + 2) :: u16) = k + 2" "unat (of_nat n :: u16) = n"
    by (rule u16_of_nat; use k in simp)+
  have k3: "of_nat (k + 2) + of_nat (length bs) = (of_nat (k + 2 + length bs) :: u16)" by simp
  have hdr: "rd8 [t, of_nat (length bs)] 0 = Some t" "rd8 [t, of_nat (length bs)] 1 = Some (of_nat (length bs))"
    by (simp_all add: rd8_def)
  show ?thesis
  proof (cases "option_known (t AND 0x7f)")
    case False
    obtain r2 where r2: "bte_buffer_reader_advance r1 (of_nat (length bs)) = Some (of_nat (length bs), r2)"
        "reader_ok r2" "reader_stream r2 = rest"
      using advance_exact [OF r1(2,3), of "of_nat (length bs)"] l by (auto simp: u16_of_nat)
    have ap: "apply_tlv (t, bs) params = params"
      using False by (simp add: option_known_def Let_def)
    have u2: "(2 + of_nat (length bs) :: u16) = of_nat (2 + length bs)" by simp
    have "config_parse_loop r params (of_nat n) u (of_nat k) e =
        config_parse_loop r2 params (of_nat n)
          (if t AND 0x80 = 0 then map_option (\<lambda>v. v + of_nat (2 + length bs)) u else u)
          (of_nat (k + 2 + length bs)) (if t AND 0x80 = 0 then L2CAP_CONFIG_PARSE_ERR_TYPE else e)"
      by (subst config_parse_loop.simps)
         (simp only: rd if_True r1 bind.bind_lunit prod.case hdr k2 un sz usz k3 u2 False r2 Let_def
            simp_thms if_False refl; use k in simp)
    then show ?thesis using r2 False ap by auto
  next
    case True
    obtain r2 where r2: "parse_option t (of_nat (length bs)) r1 params = Some (True, r2, apply_tlv (t, bs) params)"
        "reader_ok r2" "reader_stream r2 = rest"
      using parse_option_ok [OF r1(2,3) True, of params] assms(3) True by auto
    have "config_parse_loop r params (of_nat n) u (of_nat k) e =
        config_parse_loop r2 (apply_tlv (t, bs) params) (of_nat n) u (of_nat (k + 2 + length bs)) e"
      by (subst config_parse_loop.simps)
         (simp only: rd if_True r1 bind.bind_lunit prod.case hdr k2 un sz usz k3 True r2 Let_def
            simp_thms if_False refl; use k in simp)
    then show ?thesis using r2 True by auto
  qed
qed

text \<open>All options of the request are well formed: the loop reads them in order.\<close>

definition parse_result ::
    "int \<Rightarrow> bte_buffer_reader \<Rightarrow> configure_params \<Rightarrow> u16 option \<Rightarrow> int \<times> bte_buffer_reader \<times> configure_params \<times> u16 option" where
  "parse_result e r params u =
     (if u \<noteq> None \<and> u \<noteq> Some 0 then (e, r, l2cap_config_params_clear params, u) else (0, r, params, u))"

lemma config_parse_tlvs:
  "reader_ok r \<Longrightarrow> reader_stream r = tlvs_bytes os @ rest \<Longrightarrow> list_all tlv_ok os \<Longrightarrow>
   k + length (tlvs_bytes os) = n \<Longrightarrow> n < 65536 \<Longrightarrow>
   \<exists>r'. reader_ok r' \<and> reader_stream r' = rest \<and>
     config_parse_loop r params (of_nat n) u (of_nat k) e =
     Some (parse_result (pending_error os e) r' (fold apply_tlv os params)
             (map_option (\<lambda>v. v + of_nat (unknown_bytes os)) u))"
proof (induction os arbitrary: r k params u e)
  case Nil
  then have "config_parse_loop r params (of_nat n) u (of_nat k) e = Some (parse_result e r params u)"
    by (subst config_parse_loop.simps) (simp add: parse_result_def)
  with Nil show ?case by (auto simp: pending_error_def unknown_bytes_def option.map_ident)
next
  case (Cons o' os)
  obtain t bs where o': "o' = (t, bs)" by (cases o')
  have stream: "reader_stream r = tlv_bytes (t, bs) @ (tlvs_bytes os @ rest)" using Cons.prems(2) o' by simp
  have ok: "tlv_ok (t, bs)" "list_all tlv_ok os" using Cons.prems(3) o' by simp_all
  have len: "k + 2 + length bs + length (tlvs_bytes os) = n" using Cons.prems(4) o' by simp
  obtain r1 where r1: "reader_ok r1" "reader_stream r1 = tlvs_bytes os @ rest"
      "config_parse_loop r params (of_nat n) u (of_nat k) e =
        config_parse_loop r1 (apply_tlv (t, bs) params) (of_nat n)
          (if critical (t, bs) then map_option (\<lambda>v. v + of_nat (2 + length bs)) u else u)
          (of_nat (k + 2 + length bs)) (if critical (t, bs) then L2CAP_CONFIG_PARSE_ERR_TYPE else e)"
    using config_parse_step [OF Cons.prems(1) stream ok(1), of k n params u e] len Cons.prems(5) by fastforce
  have u: "map_option (\<lambda>v. v + of_nat (unknown_bytes os))
      (if critical (t, bs) then map_option (\<lambda>v. v + of_nat (2 + length bs)) u else u) =
      map_option (\<lambda>v :: u16. v + of_nat (unknown_bytes (o' # os))) u"
    by (simp add: o' unknown_bytes_def option.map_comp comp_def ac_simps del: critical.simps)
  have e: "pending_error os (if critical (t, bs) then L2CAP_CONFIG_PARSE_ERR_TYPE else e) = pending_error (o' # os) e"
    by (simp add: o' pending_error_def del: critical.simps)
  show ?case
    using Cons.IH [OF r1(1,2) ok(2) len Cons.prems(5), of "apply_tlv (t, bs) params"
        "if critical (t, bs) then map_option (\<lambda>v. v + of_nat (2 + length bs)) u else u"
        "if critical (t, bs) then L2CAP_CONFIG_PARSE_ERR_TYPE else e"]
    unfolding u e r1(3) by (simp add: o')
qed

section \<open>Every request is parsed\<close>

lemma read_total:
  assumes "reader_ok r"
  shows "\<exists>bs r'. bte_buffer_reader_read c r n = Some (bs, of_nat (min (unat n) (length (reader_stream r))), r') \<and>
    reader_ok r' \<and> length (reader_stream r') = length (reader_stream r) - unat n \<and>
    (c \<longrightarrow> length bs = min (unat n) (length (reader_stream r)))"
  using reader_read_spec [OF assms, of c n] by auto

lemma read_full:
  assumes "reader_ok r" "bte_buffer_reader_read True r n = Some (bs, n, r')"
  shows "length bs = unat n"
proof -
  have "(of_nat (min (unat n) (length (reader_stream r))) :: u16) = n"
    "length bs = min (unat n) (length (reader_stream r))"
    using read_total [OF assms(1), of True n] assms(2) by auto
  moreover have "min (unat n) (length (reader_stream r)) < 65536"
    using u16_unat_less [of n] by (simp add: min_def)
  ultimately show ?thesis using u16_of_nat [of "length bs"] by simp
qed

lemma parse_option_total:
  assumes "reader_ok r"
  shows "\<exists>ok r' params'. parse_option t sz r params = Some (ok, r', params') \<and> reader_ok r' \<and>
    length (reader_stream r') \<le> length (reader_stream r)"
proof -
  have rd: thesis if "\<And>bs len r'. bte_buffer_reader_read True r n = Some (bs, len, r') \<Longrightarrow> reader_ok r' \<Longrightarrow>
      length (reader_stream r') \<le> length (reader_stream r) \<Longrightarrow> (len = n \<Longrightarrow> length bs = unat n) \<Longrightarrow> thesis" for n thesis
  proof -
    let ?m = "min (unat n) (length (reader_stream r))"
    obtain bs r' where q: "bte_buffer_reader_read True r n = Some (bs, of_nat ?m, r')" "reader_ok r'"
        "length (reader_stream r') = length (reader_stream r) - unat n"
      using read_total [OF assms, of True n] by blast
    show thesis using q read_full [OF assms, of n bs r'] by (intro that [OF q(1)]) simp_all
  qed
  obtain b1 l1 r1 where 1: "bte_buffer_reader_read True r 1 = Some (b1, l1, r1)" "reader_ok r1"
    "length (reader_stream r1) \<le> length (reader_stream r)" by (rule rd)
  obtain b2 l2 r2 where 2: "bte_buffer_reader_read True r 2 = Some (b2, l2, r2)" "reader_ok r2"
    "length (reader_stream r2) \<le> length (reader_stream r)" by (rule rd)
  obtain b3 l3 r3 where 3: "bte_buffer_reader_read True r 22 = Some (b3, l3, r3)" "reader_ok r3"
    "length (reader_stream r3) \<le> length (reader_stream r)" "l3 = 22 \<longrightarrow> length b3 = 22" by (rule rd [of "22"]) simp_all
  obtain b4 l4 r4 where 4: "bte_buffer_reader_read True r 9 = Some (b4, l4, r4)" "reader_ok r4"
    "length (reader_stream r4) \<le> length (reader_stream r)" "l4 = 9 \<longrightarrow> length b4 = 9" by (rule rd [of "9"]) simp_all
  obtain b6 l6 r6 where 6: "bte_buffer_reader_read True r 16 = Some (b6, l6, r6)" "reader_ok r6"
    "length (reader_stream r6) \<le> length (reader_stream r)" "l6 = 16 \<longrightarrow> length b6 = 16" by (rule rd [of "16"]) simp_all
  note rd1 = 1 and rd2 = 2
  consider "t AND 0x7f \<in> {1, 2, 5, 7}" | "t AND 0x7f = 3" | "t AND 0x7f = 4" | "t AND 0x7f \<notin> {1, 2, 5, 7, 3, 4}" by auto
  then show ?thesis
  proof cases
    case 1
    then show ?thesis
      by (elim insertE emptyE)
         (simp_all add: parse_option_def read_u16_def read_u8_def rd1 rd2)
  next
    case 2
    then show ?thesis
      using 3 of_bytes_some(1) [of b3] by (cases "l3 = 22 \<and> sz = 22"; cases "t = 3") (auto simp: parse_option_def)
  next
    case 3
    then show ?thesis
      using 4 of_bytes_some(2) [of b4] by (cases "l4 = 9 \<and> sz = 9"; cases "t = 4") (auto simp: parse_option_def)
  next
    case 4
    then show ?thesis
      using 6 of_bytes_some(3) [of b6] by (cases "l6 = 16 \<and> sz = 16"; cases "t = 6") (auto simp: parse_option_def)
  qed
qed

lemma config_parse_total:
  assumes "reader_ok r"
  shows "\<exists>rc r' params' u'. config_parse_loop r params n u k e = Some (rc, r', params', u') \<and> reader_ok r' \<and>
    rc \<in> {0, e, L2CAP_CONFIG_PARSE_ERR_TYPE}"
  using assms
proof (induction "length (reader_stream r)" arbitrary: r params u k e rule: less_induct)
  case less
  show ?case
  proof (cases "k < n")
    case False
    then show ?thesis using less.prems by (subst config_parse_loop.simps) auto
  next
    case True
    obtain h len r1 where r1: "bte_buffer_reader_read True r 2 = Some (h, len, r1)" "reader_ok r1"
        "len = of_nat (min 2 (length (reader_stream r)))" "length (reader_stream r1) = length (reader_stream r) - 2"
        "length h = min 2 (length (reader_stream r))"
      using read_total [OF less.prems, of True 2] by auto
    show ?thesis
    proof (cases "len = 2")
      case False
      then show ?thesis using True r1 by (subst config_parse_loop.simps) auto
    next
      case len2: True
      then have h: "length h = 2" using read_full [OF less.prems, of 2] r1(1) by simp
      then have lt: "length (reader_stream r1) < length (reader_stream r)" using r1(4,5) by (simp add: min_def split: if_splits)
      obtain t sz where hd: "h = [t, sz]" using h by (auto simp: numeral_2_eq_2 length_Suc_conv)
      have rd: "rd8 h 0 = Some t" "rd8 h 1 = Some sz" by (simp_all add: hd rd8_def)
      let ?big = "unat (k + 2) + unat sz > unat n"
      consider ?big | "\<not> ?big" "\<not> option_known (t AND 0x7f)" | "\<not> ?big" "option_known (t AND 0x7f)" by blast
      then show ?thesis
      proof cases
        case 1
        then show ?thesis using True r1(1,2) len2 rd by (subst config_parse_loop.simps) auto
      next
        case 2
        obtain m r2 where r2: "bte_buffer_reader_advance r1 (ucast sz) = Some (m, r2)" "reader_ok r2"
            "length (reader_stream r2) \<le> length (reader_stream r1)"
          using read_total [OF r1(2), of False "ucast sz"] by (auto simp: bte_buffer_reader_advance_def)
        have "length (reader_stream r2) < length (reader_stream r)" using lt r2(3) by simp
        note IH = less.hyps [OF this r2(2), of params
          "if t AND 0x80 = 0 then map_option (\<lambda>u. u + (2 + ucast sz)) u else u" "k + 2 + ucast sz"
          "if t AND 0x80 = 0 then - 2 else e"]
        have "config_parse_loop r params n u k e =
            config_parse_loop r2 params n (if t AND 0x80 = 0 then map_option (\<lambda>u. u + (2 + ucast sz)) u else u)
              (k + 2 + ucast sz) (if t AND 0x80 = 0 then - 2 else e)"
          using True r1(1) len2 rd 2 r2(1) by (subst config_parse_loop.simps) simp
        then show ?thesis using IH by (auto split: if_splits)
      next
        case 3
        obtain ok r2 params2 where r2: "parse_option t sz r1 params = Some (ok, r2, params2)" "reader_ok r2"
            "length (reader_stream r2) \<le> length (reader_stream r1)"
          using parse_option_total [OF r1(2)] by blast
        have "length (reader_stream r2) < length (reader_stream r)" using lt r2(3) by simp
        note IH = less.hyps [OF this r2(2), of params2 u "k + 2 + ucast sz" e]
        have "config_parse_loop r params n u k e =
            (if ok then config_parse_loop r2 params2 n u (k + 2 + ucast sz) e
             else Some (e, r2, l2cap_config_params_clear params2, u))"
          using True r1(1) len2 rd 3 r2(1) by (subst config_parse_loop.simps) simp
        then show ?thesis using IH r2(2) by (cases ok) simp_all
      qed
    qed
  qed
qed

section \<open>Writing\<close>

definition has_field :: "configure_params \<Rightarrow> u32 \<Rightarrow> bool" where
  "has_field params m \<longleftrightarrow> field_mask params AND m \<noteq> 0"

definition opt_if :: "bool \<Rightarrow> 'a \<Rightarrow> 'a list" where
  "opt_if b x = (if b then [x] else [])"

text \<open>The options of a set of parameters, in the order of their types.\<close>

definition config_options :: "configure_params \<Rightarrow> tlv list" where
  "config_options params =
     opt_if (has_field params 0x01) (1, le_bytes 2 (cfg_mtu params)) @
     opt_if (has_field params 0x02) (2, le_bytes 2 (cfg_flush_timeout params)) @
     (case cfg_qos params of None \<Rightarrow> [] | Some q \<Rightarrow> [(3, qos_bytes q)]) @
     (case cfg_retx_flow params of None \<Rightarrow> [] | Some f \<Rightarrow> [(4, retx_flow_bytes f)]) @
     opt_if (has_field params 0x10) (5, [cfg_frame_check_sequence params]) @
     (case cfg_ext_flow params of None \<Rightarrow> [] | Some f \<Rightarrow> [(6, ext_flow_bytes f)]) @
     opt_if (has_field params 0x40) (7, le_bytes 2 (cfg_max_window_size params))"

fun run_blocks :: "byte \<Rightarrow> u16 \<Rightarrow> tlv list \<Rightarrow> config_out \<Rightarrow> config_out option" where
  "run_blocks start n [] out = Some out"
| "run_blocks start n ((c, bs) # os) out =
     do { out \<leftarrow> config_block start n c True bs out; run_blocks start n os out }"

lemma run_blocks_append:
  "run_blocks start n (os @ os') out = do { out \<leftarrow> run_blocks start n os out; run_blocks start n os' out }"
  by (induction os arbitrary: out) (auto split: bind_splits)

lemma config_block_if:
  "config_block start n c present bs out = run_blocks start n (opt_if present (c, bs)) out"
  by (cases out) (simp add: config_block_def opt_if_def)

lemma config_block_case:
  "(case v of None \<Rightarrow> Some out | Some x \<Rightarrow> run_blocks start n (opt_if True (c, f x)) out) =
   run_blocks start n (case v of None \<Rightarrow> [] | Some x \<Rightarrow> [(c, f x)]) out"
  by (cases v) (simp_all add: opt_if_def)

lemma map_option_bind: "map_option f (x \<bind> g) = x \<bind> (\<lambda>y. map_option f (g y))"
  by (cases x) simp_all

lemma map_option_last: "map_option (\<lambda>(ov, sz, buf, _). (ov, sz, buf)) x = x \<bind> (\<lambda>(ov, sz, buf, _). Some (ov, sz, buf))"
  by (cases x) auto

lemma l2cap_config_write_run:
  "l2cap_config_write params start buf ptr n =
     map_option (\<lambda>(ov, sz, buf, _). (ov, sz, buf)) (run_blocks start n (config_options params) (0, 0, buf, ptr))"
  unfolding l2cap_config_write_def config_options_def run_blocks_append Let_def has_field_def [symmetric]
    config_block_if
  by (simp add: map_option_bind map_option_last config_block_case del: run_blocks.simps)

text \<open>The longest prefix of a list of options that fits into \<open>n\<close> bytes, and the rest.\<close>

fun fit :: "nat \<Rightarrow> tlv list \<Rightarrow> tlv list \<times> tlv list" where
  "fit n [] = ([], [])"
| "fit n (t # ts) =
     (if length (tlv_bytes t) \<le> n
      then (case fit (n - length (tlv_bytes t)) ts of (a, b) \<Rightarrow> (t # a, b)) else ([], t # ts))"

fun next_cmd :: "tlv list \<Rightarrow> byte" where
  "next_cmd [] = 0" | "next_cmd ((c, _) # _) = c"

lemma fit_append: "fit n os = (a, b) \<Longrightarrow> a @ b = os \<and> length (tlvs_bytes a) \<le> n"
  by (induction n os arbitrary: a b rule: fit.induct) (auto split: if_splits prod.splits)

definition put_bytes :: "mem \<Rightarrow> nat option \<Rightarrow> mem \<Rightarrow> mem" where
  "put_bytes buf ptr bs = (case ptr of None \<Rightarrow> buf | Some p \<Rightarrow> take p buf @ bs @ drop (p + length bs) buf)"

lemma run_blocks_stopped: "ov \<noteq> 0 \<Longrightarrow> run_blocks start n os (ov, sz, buf, ptr) = Some (ov, sz, buf, ptr)"
  by (induction os) (auto simp: config_block_def)

lemma run_blocks_fit:
  assumes "list_all (\<lambda>(c, bs). c \<noteq> 0 \<and> length bs < 256) os" "s \<le> unat n"
    "fit (unat n - s) (filter (\<lambda>(c, _). start \<le> c) os) = (a, b)"
    "\<And>p. ptr = Some p \<Longrightarrow> p + length (tlvs_bytes a) \<le> length buf"
  shows "\<exists>ptr'. run_blocks start n os (0, of_nat s, buf, ptr) =
    Some (next_cmd b, of_nat (s + length (tlvs_bytes a)), put_bytes buf ptr (tlvs_bytes a), ptr')"
  using assms
proof (induction os arbitrary: s buf ptr a b)
  case Nil
  then show ?case by (auto simp: put_bytes_def split: option.splits)
next
  case (Cons o' os)
  obtain c bs where o': "o' = (c, bs)" by (cases o')
  have ok: "c \<noteq> 0" "length bs < 256" "list_all (\<lambda>(c, bs). c \<noteq> 0 \<and> length bs < 256) os" using Cons.prems(1) o' by auto
  have s: "unat (of_nat s :: u16) = s" using Cons.prems(2) u16_unat_less [of n] by (intro u16_of_nat) linarith
  show ?case
  proof (cases "start \<le> c")
    case False
    then show ?thesis
      using Cons.IH [OF ok(3) Cons.prems(2), of a b ptr buf] Cons.prems(3,4) o' by (simp add: config_block_def)
  next
    case start: True
    show ?thesis
    proof (cases "s + 2 + length bs > unat n")
      case True
      then have "a = []" "b = o' # filter (\<lambda>(c, _). start \<le> c) os"
        using Cons.prems(3) start o' by (auto split: if_splits)
      moreover have "config_block start n c True bs (0, of_nat s, buf, ptr) = Some (c, of_nat s, buf, ptr)"
        using True start s by (simp add: config_block_def)
      ultimately show ?thesis using run_blocks_stopped [OF ok(1)] o'
        by (auto simp: put_bytes_def split: option.splits)
    next
      case False
      obtain a' where a': "fit (unat n - (s + 2 + length bs)) (filter (\<lambda>(c, _). start \<le> c) os) = (a', b)" "a = o' # a'"
        using Cons.prems(3) start o' False by (auto split: if_splits prod.splits)
      let ?buf = "put_bytes buf ptr (tlv_bytes o')" and ?ptr = "map_option (\<lambda>p. p + (2 + length bs)) ptr"
      have room: "p + (2 + length bs) + length (tlvs_bytes a') \<le> length buf" if "ptr = Some p" for p
        using Cons.prems(4) [OF that] a'(2) o' by simp
      have blk: "config_block start n c True bs (0, of_nat s, buf, ptr) = Some (0, of_nat (s + 2 + length bs), ?buf, ?ptr)"
        using False start s room by (cases ptr) (auto simp: config_block_def put_bytes_def wr_def o' ac_simps)
      have len: "length ?buf = length buf" using room by (cases ptr) (auto simp: put_bytes_def o')
      have "\<exists>ptr'. run_blocks start n os (0, of_nat (s + 2 + length bs), ?buf, ?ptr) =
          Some (next_cmd b, of_nat (s + 2 + length bs + length (tlvs_bytes a')), put_bytes ?buf ?ptr (tlvs_bytes a'), ptr')"
        by (rule Cons.IH [OF ok(3) _ a'(1)]) (use False room len in auto)
      moreover have "put_bytes ?buf ?ptr (tlvs_bytes a') = put_bytes buf ptr (tlvs_bytes a)"
        using room by (cases ptr) (auto simp: put_bytes_def o' a'(2) ac_simps)
      ultimately show ?thesis using blk o' a'(2) by (simp add: ac_simps)
    qed
  qed
qed

lemma config_options_ok: "list_all (\<lambda>(c, bs). c \<noteq> 0 \<and> length bs < 256) (config_options params)"
  by (auto simp: config_options_def opt_if_def qos_bytes_def retx_flow_bytes_def ext_flow_bytes_def split: option.splits)

lemma config_options_sorted: "sorted_wrt (<) (map fst (config_options params))"
  by (auto simp: config_options_def opt_if_def split: option.splits)

text \<open>Resuming at the first option that did not fit continues with exactly the options left.\<close>

lemma filter_resume:
  assumes "sorted_wrt (<) (map fst os)" "a @ b = filter (\<lambda>(c, _). start \<le> c) os" "b \<noteq> []"
  shows "filter (\<lambda>(c, _). next_cmd b \<le> c) os = b"
  using assms
proof (induction os arbitrary: a)
  case Nil
  then show ?case by simp
next
  case (Cons x os)
  obtain c v where x: "x = (c, v)" by (cases x)
  obtain c' v' b' where b: "b = (c', v') # b'" using Cons.prems(3) by (cases b) auto
  have gt: "\<forall>y \<in> set os. c < fst y" using Cons.prems(1) x by auto
  show ?case
  proof (cases "start \<le> c \<and> a = []")
    case True
    then have eq: "b = x # filter (\<lambda>(c, _). start \<le> c) os" using Cons.prems(2) x by simp
    have "filter (\<lambda>(c, _). c' \<le> c) os = os" "filter (\<lambda>(c, _). start \<le> c) os = os"
      using gt eq b x True by (auto intro!: filter_True)
    then show ?thesis using eq b x by simp
  next
    case False
    have in_os: "b \<noteq> []" "set b \<subseteq> set os" "\<exists>a'. a' @ b = filter (\<lambda>(c, _). start \<le> c) os"
    proof -
      show "\<exists>a'. a' @ b = filter (\<lambda>(c, _). start \<le> c) os"
      proof (cases "start \<le> c")
        case True
        then obtain a' where "a = x # a'" using False Cons.prems(2) x by (cases a) auto
        then show ?thesis using Cons.prems(2) True x by (intro exI [of _ a']) simp
      next
        case False
        then show ?thesis using Cons.prems(2) x by (intro exI [of _ a]) simp
      qed
      then show "set b \<subseteq> set os" by (metis Un_upper2 filter_is_subset order_trans set_append)
    qed (fact Cons.prems(3))
    then have "c < c'" using gt b by fastforce
    then show ?thesis using Cons.IH in_os(3) Cons.prems(1,3) b x by auto
  qed
qed

text \<open>
  \<^verbatim>\<open>l2cap_config_write\<close> writes the options that are set, in the order of their types and from
  the start command on, as long as they fit into the buffer; it returns the size it used and the
  type of the first option that did not fit, and a call that starts there goes on with exactly the
  options that are left. Without a buffer it computes the same size.
\<close>

theorem l2cap_config_write_correct:
  assumes "fit (unat n) (filter (\<lambda>(c, _). start \<le> c) (config_options params)) = (a, b)"
  shows "l2cap_config_write params start buf None n = Some (next_cmd b, of_nat (length (tlvs_bytes a)), buf) \<and>
    (p + length (tlvs_bytes a) \<le> length buf \<longrightarrow>
       l2cap_config_write params start buf (Some p) n =
         Some (next_cmd b, of_nat (length (tlvs_bytes a)),
               take p buf @ tlvs_bytes a @ drop (p + length (tlvs_bytes a)) buf)) \<and>
    length (tlvs_bytes a) \<le> unat n \<and> a @ b = filter (\<lambda>(c, _). start \<le> c) (config_options params) \<and>
    (b \<noteq> [] \<longrightarrow> filter (\<lambda>(c, _). next_cmd b \<le> c) (config_options params) = b)"
proof (intro conjI impI)
  note run = run_blocks_fit [OF config_options_ok [of params], of 0 n start a b]
  show "l2cap_config_write params start buf None n = Some (next_cmd b, of_nat (length (tlvs_bytes a)), buf)"
    using run [of None buf] assms by (auto simp: l2cap_config_write_run put_bytes_def)
  show "l2cap_config_write params start buf (Some p) n =
      Some (next_cmd b, of_nat (length (tlvs_bytes a)), take p buf @ tlvs_bytes a @ drop (p + length (tlvs_bytes a)) buf)"
    if "p + length (tlvs_bytes a) \<le> length buf"
    using run [of "Some p" buf] assms that by (auto simp: l2cap_config_write_run put_bytes_def)
  note f = fit_append [OF assms]
  show "length (tlvs_bytes a) \<le> unat n" "a @ b = filter (\<lambda>(c, _). start \<le> c) (config_options params)" using f by simp_all
  then show "filter (\<lambda>(c, _). next_cmd b \<le> c) (config_options params) = b" if "b \<noteq> []"
    using filter_resume [OF config_options_sorted _ that] by blast
qed

definition demo_params :: configure_params where
  "demo_params = zero_params\<lparr>field_mask := 0x45, cfg_mtu := 0x0200, cfg_max_window_size := 7,
     cfg_qos := Some \<lparr>qos_flags = 0, qos_service_type = 1, qos_token_rate = 2, qos_token_bucket_size = 3,
       qos_peak_bandwith = 4, qos_access_latency = 5, qos_delay_variation = 6\<rparr>\<rparr>"

theorem l2cap_config_write_correct_witness:
  "l2cap_config_write demo_params 0 (replicate 32 0) (Some 0) 28 =
     Some (7, 28, [1, 2, 0, 2, 3, 22, 0, 1, 2, 0, 0, 0, 3, 0, 0, 0, 4, 0, 0, 0, 5, 0, 0, 0, 6, 0, 0, 0, 0, 0, 0, 0]) \<and>
   filter (\<lambda>(c, _). 7 \<le> c) (config_options demo_params) = [(7, [7, 0])]"
proof -
  let ?a = "[(1, [0, 2]), (3, [0, 1, 2, 0, 0, 0, 3, 0, 0, 0, 4, 0, 0, 0, 5, 0, 0, 0, 6, 0, 0, 0])] :: tlv list"
  let ?b = "[(7, [7, 0])] :: tlv list"
  have "fit (unat (28 :: u16)) (filter (\<lambda>(c, _). 0 \<le> c) (config_options demo_params)) = (?a, ?b)" by code_simp
  from l2cap_config_write_correct [OF this, of "replicate 32 0" 0] show ?thesis by (simp add: numeral_eq_Suc)
qed

lemma config_parse_spec:
  assumes "reader_ok r"
    and os: "reader_stream r = tlvs_bytes os @ rest \<and> list_all tlv_ok os \<and> length (tlvs_bytes os) < 65536"
  shows "\<exists>r'. reader_ok r' \<and> reader_stream r' = rest \<and>
    l2cap_config_parse r params (of_nat (length (tlvs_bytes os))) (Some 0) =
      Some (if list_ex critical os
            then (L2CAP_CONFIG_PARSE_ERR_TYPE, r', l2cap_config_params_clear (fold apply_tlv os params),
                  Some (of_nat (unknown_bytes os)))
            else (0, r', fold apply_tlv os params, Some 0))"
proof -
  obtain r' where r': "reader_ok r'" "reader_stream r' = rest"
      "config_parse_loop r params (of_nat (length (tlvs_bytes os))) (Some 0) 0 (- 1) =
        Some (parse_result (pending_error os (- 1)) r' (fold apply_tlv os params) (Some (of_nat (unknown_bytes os))))"
    using config_parse_tlvs [OF assms(1), of os rest 0 "length (tlvs_bytes os)" params "Some 0" "- 1"] os by auto
  have u: "(of_nat (unknown_bytes os) = (0 :: u16)) = (\<not> list_ex critical os)"
  proof -
    have le: "unknown_bytes os \<le> length (tlvs_bytes os)" unfolding unknown_bytes_def by (induction os) auto
    have z: "(unknown_bytes os = 0) = (\<not> list_ex critical os)" unfolding unknown_bytes_def by (induction os) auto
    have "unat (of_nat (unknown_bytes os) :: u16) = unknown_bytes os" using le os by (intro u16_of_nat) simp
    then show ?thesis using z by (simp flip: word_unat_eq_iff add: word_unat_eq_iff)
  qed
  show "\<exists>r'. reader_ok r' \<and> reader_stream r' = rest \<and>
      l2cap_config_parse r params (of_nat (length (tlvs_bytes os))) (Some 0) =
        Some (if list_ex critical os
              then (L2CAP_CONFIG_PARSE_ERR_TYPE, r', l2cap_config_params_clear (fold apply_tlv os params),
                    Some (of_nat (unknown_bytes os)))
              else (0, r', fold apply_tlv os params, Some 0))"
    unfolding l2cap_config_parse_def r'(3)
    using r'(1,2) u by (intro exI [of _ r']) (simp add: parse_result_def pending_error_def)
qed

text \<open>
  C24: \<^verbatim>\<open>l2cap_config_parse\<close> always returns. On a request whose options have the length of their types
  it stores the options it knows, in order; an option it does not know is skipped when it is a
  hint, and otherwise makes the call fail with the type error, with the size of all such options
  in \<^verbatim>\<open>unknown_size\<close> and no option left set.
\<close>

theorem l2cap_config_parse_correct:
  assumes "reader_ok r"
  shows "(\<exists>rc r' params' u'. l2cap_config_parse r params n u = Some (rc, r', params', u') \<and> rc \<in> {0, - 1, - 2}) \<and>
    (\<forall>os rest. reader_stream r = tlvs_bytes os @ rest \<and> list_all tlv_ok os \<and> length (tlvs_bytes os) < 65536 \<longrightarrow>
       (\<exists>r'. reader_ok r' \<and> reader_stream r' = rest \<and>
          l2cap_config_parse r params (of_nat (length (tlvs_bytes os))) (Some 0) =
            Some (if list_ex critical os
                  then (L2CAP_CONFIG_PARSE_ERR_TYPE, r', l2cap_config_params_clear (fold apply_tlv os params),
                        Some (of_nat (unknown_bytes os)))
                  else (0, r', fold apply_tlv os params, Some 0))))"
proof (intro conjI allI impI)
  show "\<exists>rc r' params' u'. l2cap_config_parse r params n u = Some (rc, r', params', u') \<and> rc \<in> {0, - 1, - 2}"
    using config_parse_total [OF assms, of params n u 0 "- 1"] by (auto simp: l2cap_config_parse_def)
qed (rule config_parse_spec [OF assms])

lemma qos_bytes_inverse: "qos_of_bytes (qos_bytes q) = Some q"
  by (simp add: qos_of_bytes_def qos_bytes_def rd8_def read_le32_def slice_def le_val_bytes)

lemma retx_flow_bytes_inverse: "retx_flow_of_bytes (retx_flow_bytes f) = Some f"
  by (simp add: retx_flow_of_bytes_def retx_flow_bytes_def rd8_def read_le16_def slice_def le_val_bytes)

lemma ext_flow_bytes_inverse: "ext_flow_of_bytes (ext_flow_bytes f) = Some f"
  by (simp add: ext_flow_of_bytes_def ext_flow_bytes_def rd8_def read_le16_def read_le32_def slice_def le_val_bytes)

text \<open>Parameters whose mask agrees with the fields that are set, and whose other fields are zero.\<close>

definition canonical :: "configure_params \<Rightarrow> bool" where
  "canonical params \<longleftrightarrow> field_mask params AND 0x7f = field_mask params \<and>
     (has_field params 0x04 \<longleftrightarrow> cfg_qos params \<noteq> None) \<and>
     (has_field params 0x08 \<longleftrightarrow> cfg_retx_flow params \<noteq> None) \<and>
     (has_field params 0x20 \<longleftrightarrow> cfg_ext_flow params \<noteq> None) \<and>
     (\<not> has_field params 0x01 \<longrightarrow> cfg_mtu params = 0) \<and>
     (\<not> has_field params 0x02 \<longrightarrow> cfg_flush_timeout params = 0) \<and>
     (\<not> has_field params 0x10 \<longrightarrow> cfg_frame_check_sequence params = 0) \<and>
     (\<not> has_field params 0x40 \<longrightarrow> cfg_max_window_size params = 0)"

lemma and_single_bit: "(m :: u32) AND 2 ^ n = (if m AND 2 ^ n \<noteq> 0 then 2 ^ n else 0)"
proof -
  have "m AND 2 ^ n = 2 ^ n" if "bit m n"
    using that by (intro bit_word_eqI) (auto simp: bit_simps)
  moreover have "m AND 2 ^ n = 0" if "\<not> bit m n"
    using that by (intro bit_word_eqI) (auto simp: bit_simps)
  ultimately show ?thesis by (cases "bit m n") simp_all
qed

lemma mask_fields:
  assumes "m AND 0x7f = (m :: u32)"
  shows "m = (if m AND 0x01 \<noteq> 0 then 0x01 else 0) OR (if m AND 0x02 \<noteq> 0 then 0x02 else 0) OR
     (if m AND 0x04 \<noteq> 0 then 0x04 else 0) OR (if m AND 0x08 \<noteq> 0 then 0x08 else 0) OR
     (if m AND 0x10 \<noteq> 0 then 0x10 else 0) OR (if m AND 0x20 \<noteq> 0 then 0x20 else 0) OR
     (if m AND 0x40 \<noteq> 0 then 0x40 else 0)"
proof -
  have b: "(if m AND c \<noteq> 0 then c else 0) = m AND c" if "c = 2 ^ n" for c n
    unfolding that by (rule and_single_bit [symmetric])
  have "(0x7f :: u32) = 0x01 OR 0x02 OR 0x04 OR 0x08 OR 0x10 OR 0x20 OR 0x40" by simp
  then have "m = (m AND 0x01) OR (m AND 0x02) OR (m AND 0x04) OR (m AND 0x08) OR (m AND 0x10) OR (m AND 0x20) OR (m AND 0x40)"
    using assms by (metis bit.conj_disj_distrib)
  then show ?thesis
    unfolding b [of "0x01" 0, simplified] b [of "0x02" 1, simplified] b [of "0x04" 2, simplified]
      b [of "0x08" 3, simplified] b [of "0x10" 4, simplified] b [of "0x20" 5, simplified] b [of "0x40" 6, simplified] .
qed

lemma fold_opt_if: "fold f (opt_if b x) p = (if b then f x p else p)"
  by (simp add: opt_if_def)

lemma fold_case_option:
  "fold f (case v of None \<Rightarrow> [] | Some x \<Rightarrow> [g x]) p = (case v of None \<Rightarrow> p | Some x \<Rightarrow> f (g x) p)"
  by (cases v) simp_all

lemma config_options_inverse:
  assumes "canonical params"
  shows "fold apply_tlv (config_options params) zero_params = params"
proof -
  have m: "field_mask params = (if has_field params 0x01 then 0x01 else 0) OR (if has_field params 0x02 then 0x02 else 0) OR
     (if cfg_qos params \<noteq> None then 0x04 else 0) OR (if cfg_retx_flow params \<noteq> None then 0x08 else 0) OR
     (if has_field params 0x10 then 0x10 else 0) OR (if cfg_ext_flow params \<noteq> None then 0x20 else 0) OR
     (if has_field params 0x40 then 0x40 else 0)"
    using mask_fields [of "field_mask params"] assms by (simp add: canonical_def has_field_def)
  show ?thesis
    by (rule configure_params.equality)
       (use assms m in \<open>simp_all add: config_options_def fold_opt_if fold_case_option set_mask_def zero_params_def canonical_def
          qos_bytes_inverse retx_flow_bytes_inverse ext_flow_bytes_inverse le_val_bytes
          split: option.split del: opt_if_def\<close>)
qed

lemma config_options_tlv_ok: "list_all tlv_ok (config_options params)" "\<not> list_ex critical (config_options params)"
  by (auto simp: config_options_def opt_if_def qos_bytes_def retx_flow_bytes_def ext_flow_bytes_def opt_len_def
      option_known_def split: option.splits)

lemma config_options_size: "length (tlvs_bytes (config_options params)) \<le> 70"
  by (auto simp: config_options_def opt_if_def qos_bytes_def retx_flow_bytes_def ext_flow_bytes_def split: option.splits)

lemma fit_all: "length (tlvs_bytes os) \<le> n \<Longrightarrow> fit n os = (os, [])"
  by (induction n os rule: fit.induct) auto

text \<open>
  C23: What \<^verbatim>\<open>l2cap_config_write\<close> writes for parameters whose mask agrees with the fields that are set,
  \<^verbatim>\<open>l2cap_config_parse\<close> reads back: 70 bytes are always enough, the options of the memory that was
  written are parsed without error and give exactly the parameters that were written.
\<close>

theorem l2cap_config_roundtrip:
  assumes "canonical params" "length buf = 70" "reader_ok r"
    and "l2cap_config_write params 0 buf (Some 0) 70 = Some (overflow_cmd, sz, buf')"
    and "reader_stream r = take (unat sz) buf' @ rest"
  shows "overflow_cmd = 0 \<and> (\<exists>r'. reader_ok r' \<and> reader_stream r' = rest \<and>
    l2cap_config_parse r zero_params sz (Some 0) = Some (0, r', params, Some 0))"
proof -
  let ?os = "config_options params"
  have all: "filter (\<lambda>(c, _). 0 \<le> c) ?os = ?os" by simp
  have fit: "fit (unat (70 :: u16) - 0) (filter (\<lambda>(c, _). 0 \<le> c) ?os) = (?os, [])"
    unfolding all using fit_all [OF config_options_size] by simp
  have w: "overflow_cmd = 0" "sz = of_nat (length (tlvs_bytes ?os))" "buf' = tlvs_bytes ?os @ drop (length (tlvs_bytes ?os)) buf"
    using run_blocks_fit [OF config_options_ok _ fit, of "Some 0" buf] config_options_size [of params] assms(2,4)
    by (auto simp: l2cap_config_write_run put_bytes_def)
  have sz: "unat sz = length (tlvs_bytes ?os)"
    unfolding w(2) using config_options_size [of params] by (intro u16_of_nat) simp
  have stream: "reader_stream r = tlvs_bytes ?os @ rest" using assms(5) w(3) sz by simp
  obtain r' where r': "reader_ok r'" "reader_stream r' = rest"
      "config_parse_loop r zero_params (of_nat (length (tlvs_bytes ?os))) (Some 0) (of_nat 0) (- 1) =
       Some (parse_result (pending_error ?os (- 1)) r' (fold apply_tlv ?os zero_params)
         (map_option (\<lambda>v. v + of_nat (unknown_bytes ?os)) (Some 0)))"
    using config_parse_tlvs [OF assms(3) stream config_options_tlv_ok(1), of 0 "length (tlvs_bytes ?os)" zero_params "Some 0" "- 1"]
      config_options_size [of params] by auto
  have "unknown_bytes ?os = 0" using config_options_tlv_ok(2) [of params]
    by (simp add: unknown_bytes_def list_ex_iff filter_empty_conv)
  then show ?thesis
    using r' w(1,2) config_options_inverse [OF assms(1)]
    by (auto simp: l2cap_config_parse_def parse_result_def)
qed

definition byte_reader :: "mem \<Rightarrow> bte_buffer_reader" where
  "byte_reader bs = bte_buffer_reader_init [\<lparr>ref_count = 1, total_size = of_nat (length bs), size = of_nat (length bs), data = bs\<rparr>]"

lemma byte_reader_ok:
  assumes "length bs < 65536"
  shows "reader_ok (byte_reader bs)" "reader_stream (byte_reader bs) = bs"
  using u16_of_nat [OF assms]
  by (simp_all add: byte_reader_def reader_ok_def reader_stream_def bte_buffer_reader_init_def packet_ok_def payload_def)

theorem l2cap_config_roundtrip_witness:
  "\<exists>r'. reader_stream r' = [0xaa] \<and>
    l2cap_config_parse (byte_reader [1, 2, 0, 2, 3, 22, 0, 1, 2, 0, 0, 0, 3, 0, 0, 0, 4, 0, 0, 0, 5, 0, 0, 0, 6, 0, 0, 0,
      7, 2, 7, 0, 0xaa]) zero_params 32 (Some 0) = Some (0, r', demo_params, Some 0)"
proof -
  let ?bs = "[1, 2, 0, 2, 3, 22, 0, 1, 2, 0, 0, 0, 3, 0, 0, 0, 4, 0, 0, 0, 5, 0, 0, 0, 6, 0, 0, 0, 7, 2, 7, 0] :: mem"
  have w: "l2cap_config_write demo_params 0 (replicate 70 0) (Some 0) 70 = Some (0, 32, ?bs @ replicate 38 0)"
    by code_simp
  have c: "canonical demo_params" by code_simp
  have t: "take (unat (32 :: u16)) (?bs @ replicate 38 0) = ?bs" by code_simp
  from l2cap_config_roundtrip [OF c _ byte_reader_ok(1) w, of "?bs @ [0xaa]" "[0xaa]", unfolded t] byte_reader_ok(2) [of "?bs @ [0xaa]"]
  show ?thesis by auto
qed

theorem l2cap_config_parse_correct_witness:
  "\<exists>r'. reader_stream r' = [] \<and>
    l2cap_config_parse (byte_reader [1, 2, 0, 2, 0x10, 1, 9]) zero_params 7 (Some 0) =
      Some (- 2, r', zero_params\<lparr>cfg_mtu := 0x0200\<rparr>, Some 3)"
proof -
  let ?os = "[(1, [0, 2]), (0x10, [9])] :: tlv list"
  have os: "tlvs_bytes ?os = [1, 2, 0, 2, 0x10, 1, 9]" by code_simp
  have ok: "list_all tlv_ok ?os" "list_ex critical ?os" "unknown_bytes ?os = 3" by code_simp+
  have p: "l2cap_config_params_clear (fold apply_tlv ?os zero_params) = zero_params\<lparr>cfg_mtu := 0x0200\<rparr>" by code_simp
  have st: "reader_stream (byte_reader [1, 2, 0, 2, 0x10, 1, 9]) = tlvs_bytes ?os @ []"
    using byte_reader_ok(2) [of "[1, 2, 0, 2, 0x10, 1, 9]"] os by simp
  have l: "length (tlvs_bytes ?os) = 7" unfolding os by simp
  have rd: "reader_ok (byte_reader [1, 2, 0, 2, 0x10, 1, 9])" by (rule byte_reader_ok(1)) simp
  from spec [OF spec [OF conjunct2 [OF l2cap_config_parse_correct [OF rd, of zero_params 0 None]], of ?os], of "[]"]
  show ?thesis using st ok l by (simp only: p) auto
qed

end
