(* ===== verification/Acl.thy ===== *)
theory Acl
  imports Client
begin

text \<open>
  The ACL links of \<^verbatim>\<open>acl.c\<close>: the table and the reference counts of the connection objects, the
  fragmentation of outgoing messages into packets and the reassembly of incoming packets.

  A \<^verbatim>\<open>BteAcl*\<close> is an address of \<open>acl_heap\<close>. The callbacks stored in a \<^verbatim>\<open>BteAcl\<close> are static functions of
  \<^verbatim>\<open>l2cap.c\<close>: they are tags, and calling one goes through a record of functions. The functions of
  \<^verbatim>\<open>acl.c\<close> that are handed to the HCI layer as client callbacks have fixed addresses, and
  \<open>acl_hci_env\<close> is the environment in which these addresses are bound to the functions.
\<close>

section \<open>Constants and state\<close>

abbreviation (input) BTE_HCI_MAX_ACL :: nat where "BTE_HCI_MAX_ACL \<equiv> 7"
abbreviation (input) BTE_CONN_HANDLE_INVALID :: u16 where "BTE_CONN_HANDLE_INVALID \<equiv> 0xffff"
abbreviation (input) BTE_ACL_HDR_LEN :: nat where "BTE_ACL_HDR_LEN \<equiv> 4"
abbreviation (input) BTE_ACL_HDR_POS_LEN :: nat where "BTE_ACL_HDR_POS_LEN \<equiv> 2"
abbreviation (input) BTE_ACL_PB_CONTINUATION :: byte where "BTE_ACL_PB_CONTINUATION \<equiv> 1"
abbreviation (input) BTE_ACL_PB_FIRST_FLUSH :: byte where "BTE_ACL_PB_FIRST_FLUSH \<equiv> 2"
abbreviation (input) ACL_INVALID_PACKET :: u16 where "ACL_INVALID_PACKET \<equiv> 0xffff"
abbreviation (input) BTE_ACL_CONNECT_FLAG_AUTH :: u32 where "BTE_ACL_CONNECT_FLAG_AUTH \<equiv> 1"
abbreviation (input) BTE_ACL_BROADCAST_PTP :: byte where "BTE_ACL_BROADCAST_PTP \<equiv> 0"

datatype connected_handler = Acl_connected_cb
datatype disconnected_handler = Acl_disconnected_cb
datatype check_handler = Acl_incoming_data_check_cb
datatype received_handler = Acl_data_received_cb

text \<open>
  \<^verbatim>\<open>bte_acl_new\<close> allocates a larger structure that starts with the \<^verbatim>\<open>BteAcl\<close>; what follows are pointers
  (\<^verbatim>\<open>clients\<close> of \<^verbatim>\<open>BteAclL2cap\<close>).
\<close>

record bte_acl =
  acl_ref_count :: int
  acl_hci :: hci_ptr
  acl_address :: mem
  acl_conn_handle :: u16
  acl_encryption_mode :: byte
  is_incoming :: bool
  authentication_required :: bool
  authentication_requested :: bool
  authentication_completed :: bool
  fragmented_message :: chain
  fragmented_message_size :: u16
  reassembled_message_size :: u16
  connected_cb :: "connected_handler option"
  disconnected_cb :: "disconnected_handler option"
  incoming_data_check_cb :: "check_handler option"
  data_received_cb :: "received_handler option"
  acl_tail :: "nat option list"

record acl_dev = bte_hci_dev +
  acls :: "nat option list"
  acl_heap :: "nat \<Rightarrow> bte_acl option"

type_synonym 'b adev = "'b acl_dev_scheme"
type_synonym 'b aenv = "'b acl_dev_scheme hci_env"

record 's acl_dispatch =
  ad_connected :: "connected_handler \<Rightarrow> nat \<Rightarrow> byte \<Rightarrow> 's \<Rightarrow> 's option"
  ad_disconnected :: "disconnected_handler \<Rightarrow> nat \<Rightarrow> byte \<Rightarrow> 's \<Rightarrow> 's option"
  ad_check :: "check_handler \<Rightarrow> nat \<Rightarrow> bte_buffer_reader \<Rightarrow> 's \<Rightarrow> (int \<times> 's) option"
  ad_received :: "received_handler \<Rightarrow> nat \<Rightarrow> bte_buffer_reader \<Rightarrow> 's \<Rightarrow> 's option"

type_synonym 'b adispatch = "'b acl_dev_scheme acl_dispatch"

definition put_acl :: "nat \<Rightarrow> bte_acl \<Rightarrow> 'b adev \<Rightarrow> 'b adev option" where
  "put_acl acl a s = do { _ \<leftarrow> acl_heap s acl; Some (s\<lparr>acl_heap := (acl_heap s)(acl \<mapsto> a)\<rparr>) }"

definition upd_acl :: "(bte_acl \<Rightarrow> bte_acl) \<Rightarrow> nat \<Rightarrow> 'b adev \<Rightarrow> 'b adev option" where
  "upd_acl f acl s = do { a \<leftarrow> acl_heap s acl; put_acl acl (f a) s }"

section \<open>Incoming data\<close>

fun find_acl_loop :: "(nat \<Rightarrow> bte_acl option) \<Rightarrow> (bte_acl \<Rightarrow> bool) \<Rightarrow> nat option list \<Rightarrow> nat option option" where
  "find_acl_loop heap P [] = Some None"
| "find_acl_loop heap P (None # ps) = find_acl_loop heap P ps"
| "find_acl_loop heap P (Some p # ps) =
     do { a \<leftarrow> heap p; if P a then Some (Some p) else find_acl_loop heap P ps }"

definition find_acl_by_conn_handle :: "u16 \<Rightarrow> 'b adev \<Rightarrow> nat option option" where
  "find_acl_by_conn_handle conn_handle s =
     find_acl_loop (acl_heap s) (\<lambda>a. acl_conn_handle a = conn_handle) (acls s)"

definition acl_reader :: "chain \<Rightarrow> bte_buffer_reader" where
  "acl_reader c = bte_buffer_reader_set_header_size (bte_buffer_reader_init c) (of_nat BTE_ACL_HDR_LEN)"

text \<open>
  The three steps of \<^verbatim>\<open>on_data_received\<close> after the link is found. First, a message that is not complete
  is delivered when a packet starts a new one.
\<close>

definition deliver_stale :: "'b adispatch \<Rightarrow> nat \<Rightarrow> byte \<Rightarrow> 'b adev \<Rightarrow> 'b adev option" where
  "deliver_stale D acl packet_boundary s =
     do { a \<leftarrow> acl_heap s acl;
          if fragmented_message a \<noteq> [] \<and> packet_boundary \<noteq> BTE_ACL_PB_CONTINUATION
          then do { f \<leftarrow> data_received_cb a;
                    s \<leftarrow> ad_received D f acl (acl_reader (fragmented_message a)) s;
                    upd_acl (\<lambda>a. a\<lparr>fragmented_message := [], fragmented_message_size := 0\<rparr>) acl s }
          else Some s }"

text \<open>Second, the size of the message is learnt from its first packet; \<open>False\<close> is the early return.\<close>

definition check_packet ::
    "'b adispatch \<Rightarrow> nat \<Rightarrow> byte \<Rightarrow> bte_buffer \<Rightarrow> 'b adev \<Rightarrow> (bool \<times> 'b adev) option" where
  "check_packet D acl packet_boundary buffer s =
     do { a \<leftarrow> acl_heap s acl;
          if packet_boundary \<noteq> BTE_ACL_PB_CONTINUATION
          then do { f \<leftarrow> incoming_data_check_cb a;
                    (rc, s) \<leftarrow> ad_check D f acl (acl_reader [buffer]) s;
                    s \<leftarrow> upd_acl (\<lambda>a. a\<lparr>reassembled_message_size :=
                            (if rc < 0 then ACL_INVALID_PACKET else word_of_int rc)\<rparr>) acl s;
                    Some (0 \<le> rc, s) }
          else Some (reassembled_message_size a \<noteq> ACL_INVALID_PACKET, s) }"

text \<open>Third, the packet completes the message or is queued.\<close>

definition reassemble :: "'b adispatch \<Rightarrow> nat \<Rightarrow> bte_buffer \<Rightarrow> 'b adev \<Rightarrow> 'b adev option" where
  "reassemble D acl buffer s =
     do { a \<leftarrow> acl_heap s acl;
          packet_length \<leftarrow> read_le16 (data buffer) BTE_ACL_HDR_POS_LEN;
          let remaining_size = reassembled_message_size a - fragmented_message_size a;
          if packet_length \<ge> remaining_size
          then do { head \<leftarrow> bte_buffer_append (fragmented_message a) [buffer];
                    s \<leftarrow> put_acl acl (a\<lparr>fragmented_message := [], fragmented_message_size := 0\<rparr>) s;
                    f \<leftarrow> data_received_cb a;
                    ad_received D f acl (acl_reader head) s }
          else do { c \<leftarrow> (if fragmented_message a \<noteq> [] then bte_buffer_append (fragmented_message a) [buffer]
                          else bte_buffer_ref [buffer]);
                    put_acl acl (a\<lparr>fragmented_message := c,
                      fragmented_message_size := fragmented_message_size a + packet_length\<rparr>) s } }"

definition on_data_received :: "'b adispatch \<Rightarrow> bte_buffer \<Rightarrow> 'b adev \<Rightarrow> 'b adev option" where
  "on_data_received D buffer s =
     do { handle_and_flags \<leftarrow> read_le16 (data buffer) 0;
          let conn_handle = handle_and_flags AND 0xfff;
          found \<leftarrow> find_acl_by_conn_handle conn_handle s;
          case found of None \<Rightarrow> Some s
          | Some acl \<Rightarrow> do {
              let packet_boundary = (ucast (drop_bit 12 handle_and_flags) :: byte) AND 3;
              s \<leftarrow> deliver_stale D acl packet_boundary s;
              (ok, s) \<leftarrow> check_packet D acl packet_boundary buffer s;
              if ok then reassemble D acl buffer s else Some s } }"

section \<open>The table of links and their references\<close>

definition bte_acl_make_public :: "nat \<Rightarrow> 'b adev \<Rightarrow> bool \<times> 'b adev" where
  "bte_acl_make_public acl s =
     (let s = s\<lparr>data_handler_cb := Some On_data_received\<rparr>
      in case first_free (acls s) 0 of
           Some i \<Rightarrow> (True, s\<lparr>acls := (acls s)[i := Some acl]\<rparr>)
         | None \<Rightarrow> (False, s))"

definition bte_acl_ref :: "nat \<Rightarrow> 'b adev \<Rightarrow> 'b adev option" where
  "bte_acl_ref = upd_acl (\<lambda>a. a\<lparr>acl_ref_count := acl_ref_count a + 1\<rparr>)"

text \<open>The outgoing packets without those of a link.\<close>

fun purge_loop :: "u16 \<Rightarrow> chain \<Rightarrow> chain option" where
  "purge_loop conn_handle [] = Some []"
| "purge_loop conn_handle (b # next) =
     (if unat (size b) \<ge> BTE_ACL_HDR_LEN then
        do { h \<leftarrow> read_le16 (data b) 0;
             if h AND 0x0fff = conn_handle then purge_loop conn_handle next
             else map_option ((#) b) (purge_loop conn_handle next) }
      else map_option ((#) b) (purge_loop conn_handle next))"

fun clear_first :: "nat \<Rightarrow> nat option list \<Rightarrow> nat option list" where
  "clear_first acl [] = []"
| "clear_first acl (p # ps) = (if p = Some acl then None # ps else p # clear_first acl ps)"

text \<open>
  \<^verbatim>\<open>bte_acl_disconnected\<close>, \<^verbatim>\<open>bte_acl_free\<close> and \<^verbatim>\<open>bte_acl_unref\<close> call each other. The first two are written
  with the third as an argument. \<^verbatim>\<open>bte_acl_free\<close> clears the callback before it calls
  \<^verbatim>\<open>bte_acl_disconnected\<close>; the callback that it passes on here is a fault.
\<close>

definition acl_disconnected_with ::
    "(nat \<Rightarrow> 'b adev \<Rightarrow> 'b adev option) \<Rightarrow> (disconnected_handler \<Rightarrow> nat \<Rightarrow> byte \<Rightarrow> 'b adev \<Rightarrow> 'b adev option)
     \<Rightarrow> nat \<Rightarrow> byte \<Rightarrow> 'b adev \<Rightarrow> 'b adev option" where
  "acl_disconnected_with unref callback acl reason s =
     do { a \<leftarrow> acl_heap s acl;
          q \<leftarrow> purge_loop (acl_conn_handle a) (outgoing_acl_packets s);
          s \<leftarrow> put_acl acl (a\<lparr>acl_conn_handle := BTE_CONN_HANDLE_INVALID\<rparr>) (s\<lparr>outgoing_acl_packets := q\<rparr>);
          let incoming = is_incoming a;
          s \<leftarrow> (case disconnected_cb a of None \<Rightarrow> Some s
                | Some f \<Rightarrow> do {
                    s \<leftarrow> bte_acl_ref acl s;
                    s \<leftarrow> upd_acl (\<lambda>a. a\<lparr>disconnected_cb := None\<rparr>) acl s;
                    s \<leftarrow> callback f acl reason s;
                    unref acl s });
          let s = s\<lparr>acls := clear_first acl (acls s)\<rparr>;
          if incoming then unref acl s else Some s }"

definition acl_free_with ::
    "(nat \<Rightarrow> 'b adev \<Rightarrow> 'b adev option) \<Rightarrow> 'b aenv \<Rightarrow> nat \<Rightarrow> 'b adev \<Rightarrow> 'b adev option" where
  "acl_free_with unref E acl s =
     do { s \<leftarrow> upd_acl (\<lambda>a. a\<lparr>disconnected_cb := None\<rparr>) acl s;
          s \<leftarrow> acl_disconnected_with unref (\<lambda>_ _ _ _. None) acl BTE_HCI_CONN_TERMINATED_BY_LOCAL_HOST s;
          a \<leftarrow> acl_heap s acl;
          client \<leftarrow> acl_hci a;
          s \<leftarrow> bte_client_unref E client s;
          _ \<leftarrow> acl_heap s acl;
          Some (s\<lparr>acl_heap := (acl_heap s)(acl := None)\<rparr>) }"

lemma acl_disconnected_with_mono [partial_function_mono]:
  assumes "\<And>acl s. mono_option (\<lambda>f. F f acl s)"
  shows "mono_option (\<lambda>f. acl_disconnected_with (F f) callback acl reason s)"
  unfolding acl_disconnected_with_def Let_def
proof (intro partial_function_mono assms)
  fix a q s'
  show "mono_option (\<lambda>f. case disconnected_cb a of None \<Rightarrow> Some s'
      | Some h \<Rightarrow> do { s \<leftarrow> bte_acl_ref acl s'; s \<leftarrow> upd_acl (\<lambda>a. a\<lparr>disconnected_cb := None\<rparr>) acl s;
                       s \<leftarrow> callback h acl reason s; F f acl s })"
    by (cases "disconnected_cb a") (auto intro!: partial_function_mono assms)
qed

lemma acl_free_with_mono [partial_function_mono]:
  assumes "\<And>acl s. mono_option (\<lambda>f. F f acl s)"
  shows "mono_option (\<lambda>f. acl_free_with (F f) E acl s)"
  unfolding acl_free_with_def by (intro partial_function_mono acl_disconnected_with_mono assms)

partial_function (option) bte_acl_unref :: "'b aenv \<Rightarrow> nat \<Rightarrow> 'b adev \<Rightarrow> 'b adev option" where
  "bte_acl_unref E acl s =
     do { a \<leftarrow> acl_heap s acl;
          s \<leftarrow> put_acl acl (a\<lparr>acl_ref_count := acl_ref_count a - 1\<rparr>) s;
          if acl_ref_count a = 1 then acl_free_with (bte_acl_unref E) E acl s else Some s }"

definition bte_acl_disconnected :: "'b aenv \<Rightarrow> 'b adispatch \<Rightarrow> nat \<Rightarrow> byte \<Rightarrow> 'b adev \<Rightarrow> 'b adev option" where
  "bte_acl_disconnected E D = acl_disconnected_with (bte_acl_unref E) (ad_disconnected D)"

definition bte_acl_free :: "'b aenv \<Rightarrow> nat \<Rightarrow> 'b adev \<Rightarrow> 'b adev option" where
  "bte_acl_free E = acl_free_with (bte_acl_unref E) E"

definition on_disconnection_complete ::
    "'b aenv \<Rightarrow> 'b adispatch \<Rightarrow> u16 \<Rightarrow> byte \<Rightarrow> 'b adev \<Rightarrow> (bool \<times> 'b adev) option" where
  "on_disconnection_complete E D conn_handle reason s =
     do { found \<leftarrow> find_acl_by_conn_handle conn_handle s;
          case found of None \<Rightarrow> Some (False, s)
          | Some acl \<Rightarrow> do { s \<leftarrow> bte_acl_disconnected E D acl reason s; Some (True, s) } }"

definition on_nr_of_completed_packets :: "u16 \<Rightarrow> 'b adev \<Rightarrow> (bool \<times> 'b adev) option" where
  "on_nr_of_completed_packets conn_handle s =
     do { found \<leftarrow> find_acl_by_conn_handle conn_handle s; Some (found \<noteq> None, s) }"

text \<open>The addresses of the functions of \<^verbatim>\<open>acl.c\<close> that are client callbacks of the HCI layer.\<close>

abbreviation (input) ON_DISCONNECTION_COMPLETE :: nat where "ON_DISCONNECTION_COMPLETE \<equiv> 1"
abbreviation (input) ON_NR_OF_COMPLETED_PACKETS :: nat where "ON_NR_OF_COMPLETED_PACKETS \<equiv> 2"
abbreviation (input) CONNECT_STATUS_CB :: nat where "CONNECT_STATUS_CB \<equiv> 3"
abbreviation (input) CONNECT_CB :: nat where "CONNECT_CB \<equiv> 4"
abbreviation (input) AUTH_REQUESTED_CB :: nat where "AUTH_REQUESTED_CB \<equiv> 5"

text \<open>
  \<^verbatim>\<open>sizeof(BteAcl)\<close> on a 64-bit target: 4 + 4 (padding) + 8 + 6 + 2 + 1 + 1 + 6 (padding) + 8 + 2 + 2 +
  4 (padding) + 4 * 8. The new object is cleared; \<open>acl\<close> is the address that \<^verbatim>\<open>bte_malloc\<close> returns.
\<close>

definition sizeof_BteAcl :: nat where
  "sizeof_BteAcl = 80"

definition zero_acl :: "nat \<Rightarrow> bte_acl" where
  "zero_acl struct_size = \<lparr>acl_ref_count = 0, acl_hci = None, acl_address = replicate 6 0, acl_conn_handle = 0,
     acl_encryption_mode = 0, is_incoming = False, authentication_required = False,
     authentication_requested = False, authentication_completed = False, fragmented_message = [],
     fragmented_message_size = 0, reassembled_message_size = 0, connected_cb = None,
     disconnected_cb = None, incoming_data_check_cb = None, data_received_cb = None,
     acl_tail = replicate ((struct_size - sizeof_BteAcl) div 8) None\<rparr>"

text \<open>The common end of \<^verbatim>\<open>bte_acl_new\<close> and \<^verbatim>\<open>bte_acl_new_connected\<close>.\<close>

definition acl_publish ::
    "'b aenv \<Rightarrow> nat \<Rightarrow> hci_ptr \<Rightarrow> 'b adev \<Rightarrow> (nat option \<times> 'b adev) option" where
  "acl_publish E acl hci s =
     (let (ok, s) = bte_acl_make_public acl s
      in if \<not> ok then do { s \<leftarrow> bte_acl_free E acl s; Some (None, s) }
         else do { client \<leftarrow> hci;
                   s \<leftarrow> bte_client_ref client s;
                   s \<leftarrow> bte_hci_on_disconnection_complete hci (Some ON_DISCONNECTION_COMPLETE) s;
                   s \<leftarrow> bte_hci_on_nr_of_completed_packets hci (Some ON_NR_OF_COMPLETED_PACKETS) s;
                   Some (Some acl, s) })"

definition bte_acl_new ::
    "'b aenv \<Rightarrow> nat \<Rightarrow> hci_ptr \<Rightarrow> mem \<Rightarrow> nat \<Rightarrow> 'b adev \<Rightarrow> (nat option \<times> 'b adev) option" where
  "bte_acl_new E acl hci address struct_size s =
     (if struct_size < sizeof_BteAcl then None
      else acl_publish E acl hci (s\<lparr>acl_heap := (acl_heap s)(acl \<mapsto> (zero_acl struct_size)
             \<lparr>acl_ref_count := 1, acl_hci := hci, acl_address := address,
              acl_conn_handle := BTE_CONN_HANDLE_INVALID\<rparr>)\<rparr>))"

definition bte_acl_new_connected ::
    "'b aenv \<Rightarrow> nat \<Rightarrow> hci_ptr \<Rightarrow> mem \<Rightarrow> u16 \<Rightarrow> nat \<Rightarrow> 'b adev \<Rightarrow> (nat option \<times> 'b adev) option" where
  "bte_acl_new_connected E acl hci address conn_handle struct_size s =
     (if struct_size < sizeof_BteAcl then None
      else acl_publish E acl hci (s\<lparr>acl_heap := (acl_heap s)(acl \<mapsto> (zero_acl struct_size)
             \<lparr>acl_ref_count := 1, acl_hci := hci, acl_address := address,
              acl_conn_handle := conn_handle, is_incoming := True\<rparr>)\<rparr>))"

definition bte_acl_get_for_address :: "mem \<Rightarrow> 'b adev \<Rightarrow> nat option option" where
  "bte_acl_get_for_address address s = find_acl_loop (acl_heap s) (\<lambda>a. acl_address a = address) (acls s)"

section \<open>Connecting and authentication\<close>

text \<open>The userdata of these callbacks is the address of the link.\<close>

definition call_connected :: "'b adispatch \<Rightarrow> nat \<Rightarrow> byte \<Rightarrow> 'b adev \<Rightarrow> 'b adev option" where
  "call_connected D acl status s =
     do { a \<leftarrow> acl_heap s acl; f \<leftarrow> connected_cb a; ad_connected D f acl status s }"

definition connect_status_cb :: "'b adispatch \<Rightarrow> byte \<Rightarrow> u64 \<Rightarrow> 'b adev \<Rightarrow> 'b adev option" where
  "connect_status_cb D status userdata s =
     (if status \<noteq> 0 then call_connected D (unat userdata) status s else Some s)"

definition auth_requested_cb :: "'b adispatch \<Rightarrow> byte \<Rightarrow> u64 \<Rightarrow> 'b adev \<Rightarrow> 'b adev option" where
  "auth_requested_cb D status userdata s =
     do { s \<leftarrow> (if status = 0 then upd_acl (\<lambda>a. a\<lparr>authentication_completed := True\<rparr>) (unat userdata) s
                else Some s);
          call_connected D (unat userdata) status s }"

definition bte_acl_request_auth :: "'b aenv \<Rightarrow> nat \<Rightarrow> 'b adev \<Rightarrow> 'b adev option" where
  "bte_acl_request_auth E acl s =
     do { a \<leftarrow> acl_heap s acl;
          if \<not> authentication_requested a
          then do { s \<leftarrow> put_acl acl (a\<lparr>authentication_requested := True\<rparr>) s;
                    bte_hci_auth_requested E (acl_hci a) (acl_conn_handle a) None (Some AUTH_REQUESTED_CB)
                      (of_nat acl) s }
          else Some s }"

definition connect_cb ::
    "'b aenv \<Rightarrow> 'b adispatch \<Rightarrow> byte \<Rightarrow> u16 \<Rightarrow> byte \<Rightarrow> u64 \<Rightarrow> 'b adev \<Rightarrow> 'b adev option" where
  "connect_cb E D status conn_handle encryption_mode userdata s =
     (let acl = unat userdata in
      if status = 0
      then do { s \<leftarrow> upd_acl (\<lambda>a. a\<lparr>acl_conn_handle := conn_handle, acl_encryption_mode := encryption_mode\<rparr>) acl s;
                a \<leftarrow> acl_heap s acl;
                if authentication_required a \<and> \<not> authentication_completed a
                then bte_acl_request_auth E acl s
                else call_connected D acl status s }
      else call_connected D acl status s)"

text \<open>The environment of the HCI layer: the five functions above, and the callbacks of other code.\<close>

definition acl_client :: "'b aenv \<Rightarrow> 'b adispatch \<Rightarrow> hci_call \<Rightarrow> 'b adev \<Rightarrow> (bool \<times> 'b adev) option" where
  "acl_client E D c s =
     (if call_cb c = ON_DISCONNECTION_COMPLETE then
        (case call_arg c of Disconnection_complete status reason conn_handle \<Rightarrow>
           on_disconnection_complete E D conn_handle reason s | _ \<Rightarrow> None)
      else if call_cb c = ON_NR_OF_COMPLETED_PACKETS then
        (case call_arg c of Nr_of_completed_packets conn_handle n \<Rightarrow>
           on_nr_of_completed_packets conn_handle s | _ \<Rightarrow> None)
      else if call_cb c = CONNECT_STATUS_CB then
        (case call_arg c of Reply status \<Rightarrow>
           map_option (Pair False) (connect_status_cb D status (call_userdata c) s) | _ \<Rightarrow> None)
      else if call_cb c = CONNECT_CB then
        (case call_arg c of Create_connection_reply status link_type conn_handle address encryption_mode \<Rightarrow>
           map_option (Pair False) (connect_cb E D status conn_handle encryption_mode (call_userdata c) s)
         | _ \<Rightarrow> None)
      else if call_cb c = AUTH_REQUESTED_CB then
        (case call_arg c of Auth_requested_reply status conn_handle \<Rightarrow>
           map_option (Pair False) (auth_requested_cb D status (call_userdata c) s) | _ \<Rightarrow> None)
      else env_client E c s)"

definition acl_hci_env :: "'b aenv \<Rightarrow> 'b adispatch \<Rightarrow> 'b aenv" where
  "acl_hci_env E D = E\<lparr>env_client := acl_client E D\<rparr>"

definition bte_acl_connect ::
    "'b aenv \<Rightarrow> 'b adispatch \<Rightarrow> nat \<Rightarrow> connect_params \<Rightarrow> u32 \<Rightarrow> 'b adev \<Rightarrow> 'b adev option" where
  "bte_acl_connect E D acl params flags s =
     do { s \<leftarrow> (if flags AND BTE_ACL_CONNECT_FLAG_AUTH \<noteq> 0
                then upd_acl (\<lambda>a. a\<lparr>authentication_required := True\<rparr>) acl s else Some s);
          a \<leftarrow> acl_heap s acl;
          bte_hci_create_connection (acl_hci_env E D) (acl_hci a) (acl_address a) params
            (Some CONNECT_STATUS_CB) (Some CONNECT_CB) (of_nat acl) s }"

definition bte_acl_disconnect :: "'b aenv \<Rightarrow> nat \<Rightarrow> 'b adev \<Rightarrow> 'b adev option" where
  "bte_acl_disconnect E acl s =
     do { a \<leftarrow> acl_heap s acl;
          if acl_conn_handle a = BTE_CONN_HANDLE_INVALID then Some s
          else bte_hci_disconnect E (acl_hci a) (acl_conn_handle a) BTE_HCI_OTHER_END_CLOSED_CONN_USER None 0 s }"

section \<open>Outgoing messages\<close>

text \<open>The arithmetic is done in \<^verbatim>\<open>int\<close>; the results are truncated to 16 bits.\<close>

definition bte_compute_fragmented_size :: "u16 \<Rightarrow> u16 \<Rightarrow> byte \<Rightarrow> u16 option" where
  "bte_compute_fragmented_size data_size packet_size header_size =
     (let packet_data_size = packet_size - ucast header_size
      in if packet_data_size = 0 then None
         else let num_packets = of_nat ((unat data_size + unat packet_data_size - 1) div unat packet_data_size) :: u16
              in Some (num_packets * packet_size))"

fun acl_header_loop :: "u16 \<Rightarrow> byte \<Rightarrow> u16 \<Rightarrow> byte \<Rightarrow> u16 \<Rightarrow> chain \<Rightarrow> chain option" where
  "acl_header_loop conn_handle broadcast packet_max_size packet_boundary sz [] = Some []"
| "acl_header_loop conn_handle broadcast packet_max_size packet_boundary sz (b # next) =
     do { let conn_and_flags = conn_handle OR push_bit 12 (ucast packet_boundary) OR push_bit 14 (ucast broadcast);
          d \<leftarrow> write_le16 conn_and_flags (data b) 0;
          let packet_data_size = (if sz > packet_max_size then packet_max_size else sz);
          d \<leftarrow> write_le16 packet_data_size d BTE_ACL_HDR_POS_LEN;
          bs \<leftarrow> acl_header_loop conn_handle broadcast packet_max_size BTE_ACL_PB_CONTINUATION
                  (sz - packet_data_size) next;
          Some (b\<lparr>data := d\<rparr> # bs) }"

text \<open>\<open>Some None\<close> is the return of \<^verbatim>\<open>false\<close>. Every packet has fresh memory of its own.\<close>

definition bte_acl_create_message ::
    "'b aenv \<Rightarrow> nat \<Rightarrow> u16 \<Rightarrow> byte \<Rightarrow> 'b adev \<Rightarrow> bte_buffer_writer option option" where
  "bte_acl_create_message E acl sz broadcast s =
     do { a \<leftarrow> acl_heap s acl;
          let packet_size = bte_hci_get_acl_mtu s;
          req_size \<leftarrow> bte_compute_fragmented_size sz packet_size (of_nat BTE_ACL_HDR_LEN);
          head \<leftarrow> bte_buffer_alloc (\<lambda>k i. env_fresh E s (65536 * k + i)) req_size packet_size;
          if head = [] then Some None
          else do {
            head \<leftarrow> acl_header_loop (acl_conn_handle a) broadcast (packet_size - of_nat BTE_ACL_HDR_LEN)
                      BTE_ACL_PB_FIRST_FLUSH sz head;
            Some (Some (bte_buffer_writer_set_header_size (bte_buffer_writer_init head) (of_nat BTE_ACL_HDR_LEN))) } }"

text \<open>
  A packet that is sent is cut off from the packets behind it. So when the first packet of the message
  was sent, the loop that counts the packets of the message finds that packet alone.
\<close>

definition bte_acl_send_message :: "'b aenv \<Rightarrow> chain \<Rightarrow> 'b adev \<Rightarrow> (int \<times> 'b adev) option" where
  "bte_acl_send_message E buffer s =
     do { let old = outgoing_acl_packets s;
          q \<leftarrow> bte_buffer_append old buffer;
          (rc, s) \<leftarrow> bte_hci_send_queued_data E (s\<lparr>outgoing_acl_packets := q\<rparr>);
          if rc < 0 then Some (rc, s)
          else let queued_packets = length (outgoing_acl_packets s);
                   sent = length q - queued_packets;
                   our_packets = (if length old < sent then 1 else length buffer)
               in Some (if queued_packets \<ge> our_packets then 0 else int our_packets - int queued_packets, s) }"

end
