(* ===== verification/AclMessage.thy ===== *)
theory AclMessage
  imports Acl
begin

text \<open>
  The messages of an ACL link. Writing into the packets of a message keeps their headers, so a message
  that is created, written and ended is the list of its fragments; receiving the fragments in order
  delivers the message; sending them passes through the queue of the device. Then the end of a link.
\<close>

section \<open>Headers survive writing\<close>

text \<open>What the writer leaves as it is: the sizes of the packets and of their memory, and the headers.\<close>

definition frame_of :: "byte \<Rightarrow> bte_buffer \<Rightarrow> u16 \<times> mem \<times> nat" where
  "frame_of hdr p = (size p, take (unat hdr) (data p), length (data p))"

abbreviation frames :: "byte \<Rightarrow> chain \<Rightarrow> (u16 \<times> mem \<times> nat) list" where
  "frames hdr c \<equiv> map (frame_of hdr) c"

lemma frame_store:
  assumes "unat hdr \<le> unat pos" "unat pos + length bs \<le> length (data p)"
  shows "frame_of hdr (store p pos bs) = frame_of hdr p"
  using assms by (simp add: frame_of_def store_def)

lemma writer_write_loop_frames:
  assumes "writing dn pk pos hdr" "unat sz \<le> length src"
    "writer_write_loop dn pk pos hdr src sz = Some (ok, dn', pk', pos')"
  shows "frames hdr (dn' @ pk') = frames hdr (dn @ pk)"
  using assms
proof (induction pk arbitrary: dn pos sz src)
  case Nil
  then show ?case by simp
next
  case (Cons p ps)
  show ?case
  proof (cases "sz = 0")
    case True
    with Cons.prems(3) show ?thesis by (auto simp: writer_write_loop.simps)
  next
    case False
    define n where n: "n = step_len pos sz (size p)"
    have ok: "cursor_ok (p # ps) pos hdr" "unat hdr \<le> unat pos" using Cons.prems(1) by simp_all
    have pos: "unat pos \<le> unat (size p)" "unat (size p) \<le> length (data p)" using ok by simp_all
    note c = step_len_cases [OF pos(1) n]
    have tl: "length (take n src) = n" using Cons.prems(2) c(2) by simp
    have fr: "frame_of hdr (store p pos (take n src)) = frame_of hdr p"
      using ok(2) c(1) pos(2) tl by (intro frame_store) simp_all
    note st = store_step(1) [OF Cons.prems(1), of "take n src", unfolded tl, OF c(1)]
    note eq = writer_write_loop_eq [OF ok(1) False n Cons.prems(2), of dn]
    show ?thesis
    proof (cases "n < unat sz \<and> ps \<noteq> []")
      case True
      then have sz': "unat (sz - of_nat n) = unat sz - n" by (simp add: n unat_sz_step)
      have "writing dn (store p pos (take n src) # ps) (size (store p pos (take n src))) hdr"
        using st c(3) True by simp
      note tp = turn_page(1) [OF this conjunct2 [OF True]]
      have "writer_write_loop (dn @ [store p pos (take n src)]) ps (ucast hdr) hdr (drop n src) (sz - of_nat n) =
          Some (ok, dn', pk', pos')"
        using Cons.prems(3) eq True by (simp add: Let_def)
      from Cons.IH [OF tp _ this] Cons.prems(2) sz' fr show ?thesis by simp
    next
      case False
      then show ?thesis using Cons.prems(3) eq fr by (auto simp: Let_def split: if_splits)
    qed
  qed
qed

definition same_frames :: "bte_buffer_writer \<Rightarrow> bte_buffer_writer \<Rightarrow> bool" where
  "same_frames w w' \<longleftrightarrow> w_header_size w' = w_header_size w \<and>
     frames (w_header_size w) (writer_chain w') = frames (w_header_size w) (writer_chain w)"

lemma same_frames_refl [simp]: "same_frames w w"
  by (simp add: same_frames_def)

lemma same_frames_trans: "same_frames w w' \<Longrightarrow> same_frames w' w'' \<Longrightarrow> same_frames w w''"
  by (simp add: same_frames_def)

text \<open>The two ways to fill a message: a copy, and a store through a pointer.\<close>

lemma writer_write_fills:
  assumes "writer_ok w" "length bs = unat n" "unat n \<le> writer_room w"
  shows "\<exists>w'. bte_buffer_writer_write w bs n = Some (True, w') \<and> writer_ok w' \<and> same_frames w w' \<and>
    writer_out w' = writer_out w @ bs \<and> writer_room w' = writer_room w - length bs"
proof -
  obtain w' where w': "bte_buffer_writer_write w bs n = Some (True, w')" "writer_ok w'"
      "writer_room w' = writer_room w - length bs" "writer_out w' = writer_out w @ bs"
    using bte_snk.put_fits [OF assms] by blast
  obtain dn pk pos where l: "writer_write_loop (w_done w) (w_packet w) (w_pos_in_packet w) (w_header_size w) bs n =
      Some (True, dn, pk, pos)" "w' = w\<lparr>w_done := dn, w_packet := pk, w_pos_in_packet := pos\<rparr>"
    using w'(1) by (auto simp: bte_buffer_writer_write_def split: Option.bind_splits)
  have "same_frames w w'"
    using writer_write_loop_frames [OF _ _ l(1)] assms(1,2) l(2)
    by (simp add: same_frames_def writer_chain_def writer_ok_def del: writing.simps)
  with w' show ?thesis by blast
qed

text \<open>The room in the current packet.\<close>

definition writer_gap :: "bte_buffer_writer \<Rightarrow> nat" where
  "writer_gap w = unat (size (hd (w_packet w))) - unat (w_pos_in_packet w)"

lemma writer_ptr_fills:
  assumes "writer_ok w" "length bs = unat n" "0 < unat n" "unat n \<le> writer_gap w"
  shows "\<exists>off w1 w2. bte_buffer_writer_ptr_n w n = Some (Some off, w1) \<and> writer_poke w1 off bs = Some w2 \<and>
    writer_ok w2 \<and> same_frames w w2 \<and> writer_out w2 = writer_out w @ bs \<and>
    writer_room w2 = writer_room w - length bs \<and> writer_gap w2 = writer_gap w - length bs"
proof -
  obtain p ps where p: "w_packet w = p # ps" using assms(1) by (cases "w_packet w") (auto simp: writer_ok_def)
  have ok: "writing (w_done w) (p # ps) (w_pos_in_packet w) (w_header_size w)" using assms(1) p by (simp add: writer_ok_def)
  have fits: "unat (w_pos_in_packet w) + length bs \<le> unat (size p)"
    using assms p by (simp add: writer_gap_def)
  have sz: "of_nat (length bs) = n" by (simp add: assms(2))
  have pos: "unat (w_pos_in_packet w + n) = unat (w_pos_in_packet w) + unat n"
    using fits assms(2) u16_unat_less [of "size p"] unat_add_of_nat [of "w_pos_in_packet w" "unat n"] by simp
  let ?w1 = "w\<lparr>w_pos_in_packet := w_pos_in_packet w + n\<rparr>"
  let ?w2 = "?w1\<lparr>w_packet := store p (w_pos_in_packet w) bs # ps\<rparr>"
  have "\<not> w_pos_in_packet w \<ge> size p" using fits assms(2,3) by (simp add: word_le_nat_alt)
  moreover have "\<not> uint n > uint (size p) - uint (w_pos_in_packet w)"
    using fits assms(2) by (simp add: uint_nat del: of_nat_unat)
  ultimately have "bte_buffer_writer_ptr_n w n = Some (Some (unat (w_pos_in_packet w)), ?w1)"
    using p by (simp add: bte_buffer_writer_ptr_n_def)
  moreover have "writer_poke ?w1 (unat (w_pos_in_packet w)) bs = Some ?w2"
    using p fits ok by (simp add: wr_def store_def)
  moreover note st = store_step [OF ok fits, unfolded sz]
  moreover have "frame_of (w_header_size w) (store p (w_pos_in_packet w) bs) = frame_of (w_header_size w) p"
    using ok fits by (intro frame_store) simp_all
  ultimately show ?thesis
    using p pos assms(2) by (simp add: same_frames_def writer_chain_def writer_ok_def writer_out_def writer_room_def writer_gap_def
          del: cursor_stream.simps written.simps writing.simps writer_poke.simps)
qed

section \<open>Fragmentation\<close>

definition acl_header :: "u16 \<Rightarrow> byte \<Rightarrow> byte \<Rightarrow> nat \<Rightarrow> mem" where
  "acl_header h bc pb n = le_bytes 2 (h OR push_bit 12 (ucast pb) OR push_bit 14 (ucast bc)) @ le_bytes 2 (of_nat n :: u16)"

lemma acl_header_len [simp]: "length (acl_header h bc pb n) = 4"
  by (simp add: acl_header_def)

text \<open>The packets of a message: at most \<open>m\<close> bytes each, the first marked as such, the others as continuations.\<close>

function acl_fragments :: "u16 \<Rightarrow> byte \<Rightarrow> nat \<Rightarrow> byte \<Rightarrow> mem \<Rightarrow> mem list" where
  "acl_fragments h bc m pb msg =
     (if msg = [] \<or> m = 0 then []
      else (acl_header h bc pb (min (length msg) m) @ take m msg) # acl_fragments h bc m BTE_ACL_PB_CONTINUATION (drop m msg))"
  by pat_completeness auto

termination by (relation "measure (\<lambda>(_, _, _, _, msg). length msg)") auto

declare acl_fragments.simps [simp del]

fun acl_headers :: "u16 \<Rightarrow> byte \<Rightarrow> nat \<Rightarrow> byte \<Rightarrow> nat \<Rightarrow> nat \<Rightarrow> mem list" where
  "acl_headers h bc m pb sz 0 = []"
| "acl_headers h bc m pb sz (Suc n) = acl_header h bc pb (min sz m) # acl_headers h bc m BTE_ACL_PB_CONTINUATION (sz - min sz m) n"

lemma acl_headers_len [simp]: "length (acl_headers h bc m pb sz n) = n"
  by (induction n arbitrary: pb sz) auto

lemma acl_header_loop_ok:
  assumes "list_all (\<lambda>p. length (data p) = unat (size p) \<and> 4 \<le> unat (size p)) c"
  shows "\<exists>c'. acl_header_loop h bc m pb sz c = Some c' \<and> map size c' = map size c \<and>
    list_all (\<lambda>p. length (data p) = unat (size p) \<and> 4 \<le> unat (size p)) c' \<and>
    map (\<lambda>p. take 4 (data p)) c' = acl_headers h bc (unat m) pb (unat sz) (length c)"
  using assms
proof (induction c arbitrary: pb sz)
  case Nil
  then show ?case by simp
next
  case (Cons p c)
  let ?n = "if sz > m then m else sz"
  have n: "unat ?n = min (unat sz) (unat m)" "unat (sz - ?n) = unat sz - unat ?n"
    using unat_sub_of_nat [of "unat ?n" sz] by (auto simp: word_less_nat_alt)
  have nn: "?n = of_nat (min (unat sz) (unat m))" by (simp only: n(1) [symmetric]) simp
  obtain c' where c': "acl_header_loop h bc m BTE_ACL_PB_CONTINUATION (sz - ?n) c = Some c'" "map size c' = map size c"
      "list_all (\<lambda>p. length (data p) = unat (size p) \<and> 4 \<le> unat (size p)) c'"
      "map (\<lambda>p. take 4 (data p)) c' = acl_headers h bc (unat m) BTE_ACL_PB_CONTINUATION (unat (sz - ?n)) (length c)"
    using Cons.IH [of BTE_ACL_PB_CONTINUATION "sz - ?n"] Cons.prems by auto
  have d: "4 \<le> length (data p)" "length (data p) = unat (size p)" using Cons.prems by simp_all
  have w: "do { d \<leftarrow> write_le16 (h OR push_bit 12 (ucast pb) OR push_bit 14 (ucast bc)) (data p) 0;
                write_le16 ?n d 2 } = Some (acl_header h bc pb (min (unat sz) (unat m)) @ drop 4 (data p))"
    using d(1) by (simp add: write_le16_def wr_def acl_header_def nn)
  let ?d = "acl_header h bc pb (min (unat sz) (unat m)) @ drop 4 (data p)"
  have "acl_header_loop h bc m pb sz (p # c) = Some (p\<lparr>data := ?d\<rparr> # c')"
    using w c'(1) unfolding acl_header_loop.simps Let_def by (auto simp: bind_eq_Some_conv)
  then show ?case using c' d n by simp
qed

text \<open>Packets with the headers of a message, full but for the last one, are the fragments of what they hold.\<close>

lemma packets_are_fragments:
  assumes "map (\<lambda>p. take 4 (data p)) (ds @ [p]) = acl_headers h bc m pb sz (Suc (length ds))"
    "list_all (\<lambda>p. length (data p) = m + 4 \<and> unat (size p) = m + 4) ds"
    "unat (size p) \<le> length (data p)" "4 \<le> unat (size p)" "unat (size p) \<le> m + 4" "0 < m"
    "length ds * m < sz" "length (concat (map (payload 4) (ds @ [p]))) = sz"
  shows "map packet_bytes (ds @ [p]) = acl_fragments h bc m pb (concat (map (payload 4) (ds @ [p])))"
  using assms
proof (induction ds arbitrary: pb sz)
  case Nil
  have pl: "packet_bytes p = take 4 (data p) @ payload 4 p" "take 4 (data p) = acl_header h bc pb (min sz m)"
    using Nil.prems(1,3,4) append_take_drop_id [of 4 "take (unat (size p)) (data p)"]
    by (auto simp: packet_bytes_def payload_def min_def)
  have sz: "length (payload 4 p) = sz" "sz \<le> m" "payload 4 p \<noteq> []"
    using Nil.prems(3,5,7,8) by (auto simp: payload_def)
  show ?case
    using pl sz Nil.prems(6) by (subst acl_fragments.simps) (simp add: acl_fragments.simps)
next
  case (Cons d ds)
  let ?rest = "concat (map (payload 4) (ds @ [p]))"
  have d: "length (data d) = m + 4" "unat (size d) = m + 4" using Cons.prems(2) by simp_all
  have pl: "length (payload 4 d) = m" using d by (simp add: payload_def)
  have hd: "take 4 (data d) = acl_header h bc pb (min sz m)" using Cons.prems(1) by simp
  have m: "min sz m = m" using Cons.prems(7) by simp
  have rest: "length ?rest = sz - m" using Cons.prems(8) pl by simp
  have "map packet_bytes (ds @ [p]) = acl_fragments h bc m BTE_ACL_PB_CONTINUATION ?rest"
    by (rule Cons.IH [OF _ _ Cons.prems(3-6) _ rest]) (use Cons.prems(1,2,7) m in auto)
  moreover have "packet_bytes d = acl_header h bc pb m @ payload 4 d"
    using hd m d append_take_drop_id [of 4 "data d"] by (simp add: packet_bytes_def payload_def)
  moreover have "min (length (payload 4 d @ ?rest)) m = m" "payload 4 d @ ?rest \<noteq> []"
      "take m (payload 4 d @ ?rest) = payload 4 d" "drop m (payload 4 d @ ?rest) = ?rest"
    using pl Cons.prems(6) by auto
  ultimately have "map packet_bytes (d # ds @ [p]) = acl_fragments h bc m pb (payload 4 d @ ?rest)"
    using Cons.prems(6) by (subst acl_fragments.simps) simp
  then show ?case by simp
qed

text \<open>
  A writer on the packets of a message of \<open>sz\<close> bytes: \<open>n\<close> packets of \<open>m + 4\<close> bytes, just enough of them.
\<close>

definition message_writer :: "u16 \<Rightarrow> byte \<Rightarrow> nat \<Rightarrow> nat \<Rightarrow> nat \<Rightarrow> bte_buffer_writer \<Rightarrow> bool" where
  "message_writer h bc m n sz w \<longleftrightarrow> writer_ok w \<and> w_header_size w = 4 \<and> 0 < m \<and> (n - 1) * m < sz \<and> sz \<le> n * m \<and>
     frames 4 (writer_chain w) = map (\<lambda>hd. (of_nat (m + 4), hd, m + 4)) (acl_headers h bc m 2 sz n) \<and> m + 4 < 65536"

lemma message_writer_step:
  "message_writer h bc m n sz w \<Longrightarrow> same_frames w w' \<Longrightarrow> writer_ok w' \<Longrightarrow> message_writer h bc m n sz w'"
  by (simp add: message_writer_def same_frames_def)

lemma concat_payload_len:
  "list_all (\<lambda>p. length (data p) = m + 4 \<and> unat (size p) = m + 4) c \<Longrightarrow>
   length (concat (map (payload 4) c)) = length c * m"
  by (induction c) (auto simp: payload_def)

lemma message_packets:
  assumes "message_writer h bc m n sz w"
  shows "list_all (\<lambda>p. length (data p) = m + 4 \<and> unat (size p) = m + 4) (writer_chain w)" "length (writer_chain w) = n"
    "map (\<lambda>p. take 4 (data p)) (writer_chain w) = acl_headers h bc m 2 sz n"
proof -
  have f: "frames 4 (writer_chain w) = map (\<lambda>hd. (of_nat (m + 4), hd, m + 4)) (acl_headers h bc m 2 sz n)" "m + 4 < 65536"
    using assms by (simp_all add: message_writer_def)
  have "\<forall>x \<in> set (frames 4 (writer_chain w)). fst x = of_nat (m + 4) \<and> snd (snd x) = m + 4"
    unfolding f(1) by auto
  then show "list_all (\<lambda>p. length (data p) = m + 4 \<and> unat (size p) = m + 4) (writer_chain w)"
    using u16_of_nat [OF f(2)] by (auto simp: frame_of_def list_all_iff)
  show "length (writer_chain w) = n" using arg_cong [OF f(1), of length] by simp
  show "map (\<lambda>p. take 4 (data p)) (writer_chain w) = acl_headers h bc m 2 sz n"
    using arg_cong [OF f(1), of "map (\<lambda>x. fst (snd x))"] by (simp add: frame_of_def comp_def)
qed

text \<open>A message that is written completely ends as its fragments.\<close>

lemma message_end:
  assumes "message_writer h bc m n sz w" "length (writer_out w) = sz"
  shows "\<exists>c. bte_buffer_writer_end w = Some c \<and> map packet_bytes c = acl_fragments h bc m 2 (writer_out w) \<and>
    chain_ok c \<and> c \<noteq> []"
proof -
  have ok: "writer_ok w" "w_header_size w = 4" "0 < m" "(n - 1) * m < sz" "sz \<le> n * m"
    using assms(1) by (simp_all add: message_writer_def)
  note pk = message_packets [OF assms(1)]
  obtain p ps where p: "w_packet w = p # ps" using ok(1) by (cases "w_packet w") (auto simp: writer_ok_def)
  let ?p = "p\<lparr>size := w_pos_in_packet w\<rparr>"
  have w: "writing (w_done w) (p # ps) (w_pos_in_packet w) 4" using ok(1,2) p by (simp add: writer_ok_def)
  have dn: "list_all (\<lambda>p. length (data p) = m + 4 \<and> unat (size p) = m + 4) (w_done w)"
      "length (data p) = m + 4" "unat (size p) = m + 4" "length (w_done w) + Suc (length ps) = n"
    using pk(1,2) p by (auto simp: writer_chain_def)
  have out: "writer_out w = concat (map (payload 4) (w_done w @ [?p]))"
    using p ok(2) by (simp add: writer_out_def payload_def)
  have len: "length (w_done w) * m + (unat (w_pos_in_packet w) - 4) = sz"
    using assms(2) concat_payload_len [OF dn(1)] w dn(2) by (simp add: out payload_def)
  have ps: "ps = []"
  proof (rule ccontr)
    assume "ps \<noteq> []"
    then have "Suc (length (w_done w)) \<le> n - 1" using dn(4) by (cases ps) auto
    then have "Suc (length (w_done w)) * m \<le> (n - 1) * m" by (rule mult_le_mono1)
    moreover have "unat (w_pos_in_packet w) \<le> m + 4" using w dn(3) by simp
    ultimately show False using ok(4) len by simp
  qed
  have n: "n = Suc (length (w_done w))" using dn(4) ps by simp
  have fr: "map packet_bytes (w_done w @ [?p]) = acl_fragments h bc m 2 (writer_out w)"
    unfolding out
    by (rule packets_are_fragments [where sz = sz])
       (use pk(3) p ps n dn w ok assms(2) in \<open>simp_all add: writer_chain_def out\<close>)
  have e: "bte_buffer_writer_end w = Some ((hd (w_done w @ [?p]))\<lparr>total_size := foldl (\<lambda>t b. t + size b) 0 (w_done w @ [?p])\<rparr> # tl (w_done w @ [?p]))"
    using p ps by (simp add: Let_def)
  have "chain_ok (w_done w @ [?p])" using dn(1,2,3) w by (auto simp: chain_ok_def list_all_iff)
  then show ?thesis using e fr by (cases "w_done w") (auto simp: chain_ok_def packet_bytes_def)
qed

abbreviation packets_needed :: "nat \<Rightarrow> nat \<Rightarrow> nat" where
  "packets_needed sz m \<equiv> (sz + m - 1) div m"

lemma packets_needed:
  assumes "0 < sz" "0 < m"
  shows "0 < packets_needed sz m" "(packets_needed sz m - 1) * m < sz" "sz \<le> packets_needed sz m * m"
proof -
  let ?n = "packets_needed sz m"
  have d: "?n * m + (sz + m - 1) mod m = sz + m - 1" by simp
  have r: "(sz + m - 1) mod m < m" using assms(2) by simp
  show n: "0 < ?n" using assms by (simp add: div_greater_zero_iff)
  show le: "sz \<le> ?n * m" using d r by linarith
  have "(?n - 1) * m = ?n * m - m" by (simp add: diff_mult_distrib)
  moreover have "?n * m < sz + m" using d assms by linarith
  ultimately show "(?n - 1) * m < sz" using n assms by simp
qed

lemma fragmented_size:
  assumes "unat mtu = m + 4" "0 < m" "packets_needed (unat sz) m * (m + 4) < 65536"
  shows "bte_compute_fragmented_size sz mtu 4 = Some (of_nat (packets_needed (unat sz) m * (m + 4)))"
proof -
  let ?n = "packets_needed (unat sz) m"
  have d: "unat (mtu - 4) = m" using unat_sub_of_nat [of 4 mtu] assms(1) by simp
  then have "mtu - 4 \<noteq> 0" using assms(2) by auto
  moreover have "mtu = of_nat (m + 4)" using assms(1) by (metis of_nat_unat ucast_id)
  ultimately show ?thesis using d by (simp add: bte_compute_fragmented_size_def Let_def)
qed

lemma create_message_spec:
  assumes "acl_heap s acl = Some a" "unat (acl_mtu s) = m + 4" "0 < m" "sz \<noteq> 0"
    "packets_needed (unat sz) m * (m + 4) < 65536" "m + 4 + sizeof_BteBuffer < 65536"
  shows "\<exists>w. bte_acl_create_message E acl sz bc s = Some (Some w) \<and>
    message_writer (acl_conn_handle a) bc m (packets_needed (unat sz) m) (unat sz) w \<and> writer_out w = [] \<and>
    writer_room w = packets_needed (unat sz) m * m \<and> writer_gap w = m"
proof -
  let ?n = "packets_needed (unat sz) m" and ?junk = "\<lambda>k i. env_fresh E s (65536 * k + i)"
  have sz: "0 < unat sz" using assms(4) by (simp add: unat_gt_0)
  note n = packets_needed [OF sz assms(3)]
  have mtu: "acl_mtu s = of_nat (m + 4)" using assms(2) by (metis of_nat_unat ucast_id)
  have req: "unat (of_nat (?n * (m + 4)) :: u16) = ?n * (m + 4)" by (rule u16_of_nat [OF assms(5)])
  have m: "unat (acl_mtu s - 4) = m" using unat_sub_of_nat [of 4 "acl_mtu s"] assms(2) by simp
  have "0 < acl_mtu s" using assms(2) by (simp add: word_gt_0 word_unat_eq_iff)
  then obtain c where c: "bte_buffer_alloc ?junk (of_nat (?n * (m + 4))) (acl_mtu s) = Some c"
      "map (unat \<circ> size) c = block_sizes (?n * (m + 4)) (m + 4)" "list_all (fresh_packet (of_nat (?n * (m + 4)))) c"
    using alloc_loop_ok [of "acl_mtu s" ?junk 0 "of_nat (?n * (m + 4))" "of_nat (?n * (m + 4))" "[]"] assms(2,6)
    unfolding req by (auto simp: bte_buffer_alloc_def)
  have sizes: "map (unat \<circ> size) c = replicate ?n (m + 4)" using c(2) by (simp add: block_sizes_def)
  have len: "length c = ?n" using arg_cong [OF sizes, of length] by simp
  have sz_c: "\<forall>p \<in> set c. unat (size p) = m + 4"
    using arg_cong [OF sizes, of set] n(1) by (auto split: if_splits)
  have ok: "list_all (\<lambda>p. length (data p) = unat (size p) \<and> 4 \<le> unat (size p)) c"
    using c(3) sz_c by (auto simp: list_all_iff fresh_packet_def)
  obtain c' where c': "acl_header_loop (acl_conn_handle a) bc (acl_mtu s - 4) 2 sz c = Some c'" "map size c' = map size c"
      "list_all (\<lambda>p. length (data p) = unat (size p) \<and> 4 \<le> unat (size p)) c'"
      "map (\<lambda>p. take 4 (data p)) c' = acl_headers (acl_conn_handle a) bc m 2 (unat sz) ?n"
    using acl_header_loop_ok [OF ok, of "acl_conn_handle a" bc "acl_mtu s - 4" 2 sz] unfolding m len by blast
  define w where w: "w = bte_buffer_writer_set_header_size (bte_buffer_writer_init c') 4"
  have ne: "c \<noteq> []" "c' \<noteq> []" using len n(1) c'(2) by auto
  have sz_c': "\<forall>p \<in> set c'. size p = of_nat (m + 4) \<and> length (data p) = m + 4"
  proof
    fix p assume p: "p \<in> set c'"
    then have "size p \<in> set (map size c)" using c'(2) by (metis image_eqI list.set_map)
    then have "unat (size p) = m + 4" using sz_c by auto
    then show "size p = of_nat (m + 4) \<and> length (data p) = m + 4"
      using c'(3) p by (metis (mono_tags, lifting) list_all_iff of_nat_unat ucast_id)
  qed
  have pk: "list_all (packet_ok 4) c'" using c'(3) by (auto simp: list_all_iff packet_ok_def)
  note op = writer_open [OF pk ne(2), folded w]
  have "frames 4 c' = map (\<lambda>hd. (of_nat (m + 4), hd, m + 4)) (map (\<lambda>p. take 4 (data p)) c')"
    using sz_c' by (simp add: frame_of_def)
  then have "message_writer (acl_conn_handle a) bc m ?n (unat sz) w"
    using op(1) n assms(3,6) c'(4)
    by (simp add: message_writer_def w bte_buffer_writer_set_header_size_def bte_buffer_writer_init_def writer_chain_def)
  moreover have "writer_room w = ?n * m"
  proof -
    have "list_all (\<lambda>p. length (data p) = m + 4 \<and> unat (size p) = m + 4) c'"
      using sz_c' u16_of_nat [of "m + 4"] assms(6) by (auto simp: list_all_iff)
    from concat_payload_len [OF this] show ?thesis
      using op(3) len c'(2) by (metis length_map)
  qed
  moreover have "writer_gap w = m"
  proof -
    have "unat (size (hd c')) = m + 4" using sz_c' ne(2) u16_of_nat [of "m + 4"] assms(6) by simp
    then show ?thesis by (simp add: writer_gap_def w bte_buffer_writer_set_header_size_def bte_buffer_writer_init_def)
  qed
  moreover have "bte_acl_create_message E acl sz bc s = Some (Some w)"
    using assms(1) c(1) c'(1) ne(1) fragmented_size [OF assms(2,3,5)]
    by (simp add: bte_acl_create_message_def bte_hci_get_acl_mtu_def Let_def w)
  ultimately show ?thesis using op(2) by blast
qed

section \<open>Reassembly\<close>

lemma find_acl_upd:
  "heap acl = Some a \<Longrightarrow> P a' = P a \<Longrightarrow> find_acl_loop (heap(acl \<mapsto> a')) P ps = find_acl_loop heap P ps"
  by (induction heap P ps rule: find_acl_loop.induct) (auto split: bind_splits)

text \<open>A packet as the backend delivers it.\<close>

definition packet_in :: "mem \<Rightarrow> bte_buffer" where
  "packet_in bs = \<lparr>ref_count = 1, total_size = of_nat (length bs), size = of_nat (length bs), data = bs\<rparr>"

lemma packet_in_payload:
  assumes "length pl + 4 < 65536"
  shows "packet_ok 4 (packet_in (acl_header h bc pb n @ pl))" "payload 4 (packet_in (acl_header h bc pb n @ pl)) = pl"
proof -
  have "unat (of_nat (4 + length pl) :: u16) = 4 + length pl" using assms by (intro u16_of_nat) simp
  then show "packet_ok 4 (packet_in (acl_header h bc pb n @ pl))" "payload 4 (packet_in (acl_header h bc pb n @ pl)) = pl"
    unfolding packet_ok_def payload_def packet_in_def by (simp_all del: of_nat_add)
qed

text \<open>The fields of the header.\<close>

lemma header_fields:
  assumes "h AND 0xfff = (h :: u16)" "pb = 1 \<or> pb = 2"
  shows "(h OR push_bit 12 (ucast (pb :: byte)) OR push_bit 14 (ucast (bc :: byte))) AND 0xfff = h"
    "(ucast (drop_bit 12 (h OR push_bit 12 (ucast pb) OR push_bit 14 (ucast bc))) :: byte) AND 3 = pb"
proof -
  have h: "i < 12" if "bit h i" for i
  proof -
    have "bit h i = bit (h AND 0xfff) i" using assms(1) by simp
    also have "(0xfff :: u16) = mask 12" by (simp add: mask_eq_exp_minus_1)
    finally show ?thesis using that by (simp add: bit_simps)
  qed
  have m12: "(0xfff :: u16) = mask 12" and m2: "(3 :: byte) = mask 2" by (simp_all add: mask_eq_exp_minus_1)
  show "(h OR push_bit 12 (ucast pb) OR push_bit 14 (ucast bc)) AND 0xfff = h"
    unfolding m12 by (rule bit_word_eqI) (auto simp: bit_simps dest: h)
  have pb: "i < 2" if "bit pb i" for i
  proof -
    have "pb AND 3 = pb" using assms(2) by auto
    then have "bit pb i = bit (pb AND mask 2) i" by (simp add: m2)
    then show ?thesis using that by (simp add: bit_simps)
  qed
  show "(ucast (drop_bit 12 (h OR push_bit 12 (ucast pb) OR push_bit 14 (ucast bc))) :: byte) AND 3 = pb"
    unfolding m2 by (rule bit_word_eqI) (auto simp: bit_simps dest: h pb)
qed

lemma header_reads:
  "read_le16 (data (packet_in (acl_header h bc pb n @ pl))) 0 = Some (h OR push_bit 12 (ucast pb) OR push_bit 14 (ucast bc))"
  "read_le16 (data (packet_in (acl_header h bc pb n @ pl))) 2 = Some (of_nat n)"
  by (simp_all add: packet_in_def acl_header_def read_le16_def slice_def le_val_bytes)

definition set_acl :: "nat \<Rightarrow> bte_acl \<Rightarrow> 'b adev \<Rightarrow> 'b adev" where
  "set_acl acl a s = s\<lparr>acl_heap := (acl_heap s)(acl \<mapsto> a)\<rparr>"

lemma set_acl_simps [simp]:
  "acl_heap (set_acl acl a s) = (acl_heap s)(acl \<mapsto> a)" "acls (set_acl acl a s) = acls s"
  "set_acl acl a (set_acl acl b s) = set_acl acl a s" "acl_mtu (set_acl acl a s) = acl_mtu s"
  "outgoing_acl_packets (set_acl acl a s) = outgoing_acl_packets s"
  by (simp_all add: set_acl_def)

lemma set_acl_same: "acl_heap s acl = Some a \<Longrightarrow> set_acl acl a s = s"
  by (simp add: set_acl_def map_upd_triv)

lemma put_acl_eq: "acl_heap s acl = Some a \<Longrightarrow> put_acl acl b s = Some (set_acl acl b s)"
  by (simp add: put_acl_def set_acl_def)

lemma upd_acl_eq: "acl_heap s acl = Some a \<Longrightarrow> upd_acl f acl s = Some (set_acl acl (f a) s)"
  by (simp add: upd_acl_def put_acl_eq)

abbreviation drained :: "bte_acl \<Rightarrow> bte_acl" where
  "drained a \<equiv> a\<lparr>fragmented_message := [], fragmented_message_size := 0\<rparr>"

text \<open>One packet with \<open>pl\<close> bytes while \<open>F\<close> of the \<open>R\<close> bytes of a message are there.\<close>

lemma reassemble_spec:
  assumes "acl_heap s acl = Some a" "data_received_cb a = Some f" "fragmented_message_size a = of_nat F"
    "reassembled_message_size a = of_nat R" "F \<le> R" "R < 65536" "length pl + 4 < 65536"
    "list_all (packet_ok 4) (fragmented_message a)"
  shows "\<exists>c. list_all (packet_ok 4) c \<and> c \<noteq> [] \<and>
    map (payload 4) c = map (payload 4) (fragmented_message a) @ [pl] \<and>
    reassemble D acl (packet_in (acl_header h bc pb (length pl) @ pl)) s =
      (if R \<le> F + length pl then ad_received D f acl (acl_reader c) (set_acl acl (drained a) s)
       else Some (set_acl acl (a\<lparr>fragmented_message := c, fragmented_message_size := of_nat (F + length pl)\<rparr>) s))"
proof -
  let ?b = "packet_in (acl_header h bc pb (length pl) @ pl)"
  define c where c: "c = the (bte_buffer_append (fragmented_message a) [?b])"
  have ap: "bte_buffer_append (fragmented_message a) [?b] = Some c"
    by (cases "fragmented_message a") (simp_all add: c)
  have rf: "fragmented_message a = [] \<Longrightarrow> bte_buffer_ref [?b] = Some c"
    using ap by simp
  note b = packet_in_payload [OF assms(7), of h bc pb "length pl"]
  have cs: "list_all (packet_ok 4) c" "c \<noteq> []"
      "map (payload 4) c = map (payload 4) (fragmented_message a) @ [pl]"
    using assms(8) b c by (cases "fragmented_message a"; simp add: packet_ok_def payload_def)+
  have rem: "(of_nat R - of_nat F :: u16) = of_nat (R - F)" using assms(5) by (simp add: of_nat_diff)
  have cmp: "((of_nat (R - F) :: u16) \<le> of_nat (length pl)) = (R \<le> F + length pl)"
    using assms(6,7) by (simp add: word_le_nat_alt u16_of_nat) linarith
  show ?thesis
    using cs ap rf assms(1-4) rem cmp
    by (intro exI [of _ c]) (simp add: reassemble_def header_reads(2) put_acl_eq Let_def)
qed

fun receive_all :: "'b adispatch \<Rightarrow> bte_buffer list \<Rightarrow> 'b adev \<Rightarrow> 'b adev option" where
  "receive_all D [] s = Some s"
| "receive_all D (b # bs) s = do { s \<leftarrow> on_data_received D b s; receive_all D bs s }"

lemma receive_last [simp]: "x \<bind> receive_all D [] = x"
  by (cases x) simp_all

lemma acl_fragments_nil [simp]: "acl_fragments h bc m pb [] = []"
  by (simp add: acl_fragments.simps)

text \<open>A link that is found by its handle and has its callbacks.\<close>

definition receiving :: "nat \<Rightarrow> bte_acl \<Rightarrow> received_handler \<Rightarrow> 'b adev \<Rightarrow> bool" where
  "receiving acl a f s \<longleftrightarrow> acl_heap s acl = Some a \<and> data_received_cb a = Some f \<and>
     find_acl_by_conn_handle (acl_conn_handle a) s = Some (Some acl) \<and> acl_conn_handle a AND 0xfff = acl_conn_handle a"

lemma receiving_set:
  assumes "receiving acl a f s" "acl_conn_handle a' = acl_conn_handle a" "data_received_cb a' = data_received_cb a"
  shows "receiving acl a' f (set_acl acl a' s)"
  using assms by (simp add: receiving_def find_acl_by_conn_handle_def find_acl_upd)

lemma receive_continuation:
  assumes "receiving acl a f s" "reassembled_message_size a \<noteq> ACL_INVALID_PACKET"
  shows "on_data_received D (packet_in (acl_header (acl_conn_handle a) bc 1 n @ pl)) s =
    reassemble D acl (packet_in (acl_header (acl_conn_handle a) bc 1 n @ pl)) s"
proof -
  have h: "acl_conn_handle a AND 0xfff = acl_conn_handle a" using assms(1) by (simp add: receiving_def)
  note hf = header_fields [OF h, of 1 bc, simplified]
  show ?thesis using assms hf
    by (simp add: on_data_received_def header_reads(1) receiving_def deliver_stale_def check_packet_def)
qed

lemma receive_first:
  assumes "receiving acl a f s" "fragmented_message a = []" "incoming_data_check_cb a = Some g"
    "ad_check D g acl (acl_reader [packet_in (acl_header (acl_conn_handle a) bc 2 n @ pl)]) s = Some (rc, s)"
  shows "on_data_received D (packet_in (acl_header (acl_conn_handle a) bc 2 n @ pl)) s =
    (if rc < 0 then Some (set_acl acl (a\<lparr>reassembled_message_size := ACL_INVALID_PACKET\<rparr>) s)
     else reassemble D acl (packet_in (acl_header (acl_conn_handle a) bc 2 n @ pl))
            (set_acl acl (a\<lparr>reassembled_message_size := word_of_int rc\<rparr>) s))"
proof -
  have h: "acl_conn_handle a AND 0xfff = acl_conn_handle a" using assms(1) by (simp add: receiving_def)
  note hf = header_fields [OF h, of 2 bc, simplified]
  show ?thesis using assms hf
    by (simp add: on_data_received_def header_reads(1) receiving_def deliver_stale_def check_packet_def upd_acl_eq)
qed

lemma receive_fragments:
  assumes "receiving acl a f s" "fragmented_message_size a = of_nat F" "reassembled_message_size a = of_nat R"
    "F + length msg = R" "msg \<noteq> []" "R < 65535" "0 < m" "m + 4 < 65536" "list_all (packet_ok 4) (fragmented_message a)"
  shows "\<exists>c. list_all (packet_ok 4) c \<and> c \<noteq> [] \<and>
    (\<exists>pls. map (payload 4) c = map (payload 4) (fragmented_message a) @ pls \<and> concat pls = msg) \<and>
    receive_all D (map packet_in (acl_fragments (acl_conn_handle a) bc m 1 msg)) s =
      ad_received D f acl (acl_reader c) (set_acl acl (drained a) s)"
  using assms
proof (induction "length msg" arbitrary: msg a s F rule: less_induct)
  case less
  let ?h = "acl_conn_handle a" and ?pl = "take m msg"
  let ?p = "packet_in (acl_header ?h bc 1 (length ?pl) @ ?pl)"
  have a: "acl_heap s acl = Some a" "data_received_cb a = Some f" using less.prems(1) by (simp_all add: receiving_def)
  have fr: "acl_fragments ?h bc m 1 msg = (acl_header ?h bc 1 (length ?pl) @ ?pl) # acl_fragments ?h bc m 1 (drop m msg)"
    using less.prems(5,7) by (subst acl_fragments.simps) simp
  have "unat (of_nat R :: u16) = R" using less.prems(6) by (intro u16_of_nat) simp
  then have nv: "reassembled_message_size a \<noteq> ACL_INVALID_PACKET" using less.prems(3,6) by auto
  have pl: "length ?pl + 4 < 65536" using less.prems(8) by simp
  have FR: "F \<le> R" and R: "R < 65536" using less.prems(4,6) by simp_all
  obtain c where c: "list_all (packet_ok 4) c" "c \<noteq> []"
      "map (payload 4) c = map (payload 4) (fragmented_message a) @ [?pl]"
      "reassemble D acl ?p s =
        (if R \<le> F + length ?pl then ad_received D f acl (acl_reader c) (set_acl acl (drained a) s)
         else Some (set_acl acl (a\<lparr>fragmented_message := c, fragmented_message_size := of_nat (F + length ?pl)\<rparr>) s))"
    using reassemble_spec [OF a less.prems(2,3) FR R pl less.prems(9), of D ?h bc 1] by blast
  show ?case
  proof (cases "drop m msg = []")
    case True
    then show ?thesis
      using c less.prems(4) receive_continuation [OF less.prems(1) nv, of D bc "length ?pl" ?pl]
      by (intro exI [of _ c]) (simp add: fr)
  next
    case False
    let ?a = "a\<lparr>fragmented_message := c, fragmented_message_size := of_nat (F + length ?pl)\<rparr>"
    have lt: "length (drop m msg) < length msg" using False less.prems(7) by (cases msg) auto
    have sum: "F + length ?pl + length (drop m msg) = R" using less.prems(4) False by simp
    have rx: "receiving acl ?a f (set_acl acl ?a s)" by (rule receiving_set [OF less.prems(1)]) simp_all
    have nd: "\<not> R \<le> F + length ?pl" using sum False by auto
    obtain c' pls where c': "list_all (packet_ok 4) c'" "c' \<noteq> []"
        "map (payload 4) c' = map (payload 4) c @ pls" "concat pls = drop m msg"
        "receive_all D (map packet_in (acl_fragments ?h bc m 1 (drop m msg))) (set_acl acl ?a s) =
          ad_received D f acl (acl_reader c') (set_acl acl (drained a) s)"
      using less.hyps [OF lt rx _ _ sum False less.prems(6-8)] less.prems(3) c(1) by auto
    have "receive_all D (map packet_in (acl_fragments ?h bc m 1 msg)) s =
        ad_received D f acl (acl_reader c') (set_acl acl (drained a) s)"
      using c(4) nd c'(5) receive_continuation [OF less.prems(1) nv, of D bc "length ?pl" ?pl] by (simp add: fr)
    then show ?thesis using c' c(3) by (intro exI [of _ c']) simp
  qed
qed

text \<open>The bytes that are left in the current packet of a reader.\<close>

definition reader_lead :: "bte_buffer_reader \<Rightarrow> mem" where
  "reader_lead r = (case r_packet r of [] \<Rightarrow> [] | p # _ \<Rightarrow> drop (unat (r_pos_in_packet r)) (take (unat (size p)) (data p)))"

lemma acl_reader_lead: "c \<noteq> [] \<Longrightarrow> reader_lead (acl_reader c) = payload 4 (hd c)"
  by (cases c) (simp_all add: reader_lead_def acl_reader_def bte_buffer_reader_init_def bte_buffer_reader_set_header_size_def payload_def)

lemma receive_message:
  assumes "receiving acl a f s" "fragmented_message a = []" "fragmented_message_size a = 0" "incoming_data_check_cb a = Some g"
    "\<And>r. reader_ok r \<Longrightarrow> reader_stream r = take m msg \<Longrightarrow> reader_lead r = take m msg \<Longrightarrow> ad_check D g acl r s = Some (int (length msg), s)"
    "msg \<noteq> []" "length msg < 65535" "0 < m" "m + 4 < 65536"
  shows "\<exists>r. reader_ok r \<and> reader_stream r = msg \<and> reader_lead r = take m msg \<and>
    receive_all D (map packet_in (acl_fragments (acl_conn_handle a) bc m 2 msg)) s =
      ad_received D f acl r (set_acl acl (a\<lparr>reassembled_message_size := of_nat (length msg)\<rparr>) s)"
proof -
  let ?h = "acl_conn_handle a" and ?pl = "take m msg"
  let ?a = "a\<lparr>reassembled_message_size := of_nat (length msg)\<rparr>"
  let ?p = "packet_in (acl_header ?h bc 2 (length ?pl) @ ?pl)"
  have pl: "length ?pl + 4 < 65536" using assms(9) by simp
  have fr: "acl_fragments ?h bc m 2 msg = (acl_header ?h bc 2 (length ?pl) @ ?pl) # acl_fragments ?h bc m 1 (drop m msg)"
    using assms(6,8) by (subst acl_fragments.simps) simp
  note pk = packet_in_payload [OF pl, of ?h bc 2 "length ?pl"]
  have "reader_ok (acl_reader [?p])" "reader_stream (acl_reader [?p]) = ?pl" "reader_lead (acl_reader [?p]) = ?pl"
    using acl_reader_lead [of "[?p]"] reader_open [of 4 "[?p]"] pk by (simp_all add: acl_reader_def)
  then have ck: "ad_check D g acl (acl_reader [?p]) s = Some (int (length msg), s)" by (intro assms(5))
  have rx: "receiving acl ?a f (set_acl acl ?a s)" by (rule receiving_set [OF assms(1)]) simp_all
  have a: "acl_heap (set_acl acl ?a s) acl = Some ?a" "data_received_cb ?a = Some f"
    using rx by (simp_all add: receiving_def)
  have dr: "drained ?a = ?a" using assms(2,3) by simp
  have sa: "set_acl acl ?a (set_acl acl ?a s) = set_acl acl ?a s" by simp
  have ex: "\<exists>c. list_all (packet_ok 4) c \<and> c \<noteq> [] \<and>
      map (payload 4) c = map (payload 4) (fragmented_message ?a) @ [?pl] \<and>
      reassemble D acl ?p (set_acl acl ?a s) =
        (if length msg \<le> 0 + length ?pl then ad_received D f acl (acl_reader c) (set_acl acl (drained ?a) (set_acl acl ?a s))
         else Some (set_acl acl (?a\<lparr>fragmented_message := c, fragmented_message_size := of_nat (0 + length ?pl)\<rparr>) (set_acl acl ?a s)))"
    by (rule reassemble_spec [OF a]) (use assms(2,3,7) pl in simp_all)
  then obtain c where c: "list_all (packet_ok 4) c" "c \<noteq> []" "map (payload 4) c = [?pl]"
      "reassemble D acl ?p (set_acl acl ?a s) =
        (if length msg \<le> 0 + length ?pl then ad_received D f acl (acl_reader c) (set_acl acl ?a s)
         else Some (set_acl acl (?a\<lparr>fragmented_message := c, fragmented_message_size := of_nat (0 + length ?pl)\<rparr>) (set_acl acl ?a s)))"
    unfolding dr sa by (elim exE conjE) (rule that, simp_all add: assms(2))
  have first: "on_data_received D ?p s = reassemble D acl ?p (set_acl acl ?a s)"
    using receive_first [OF assms(1,2,4) ck] by simp
  show ?thesis
  proof (cases "drop m msg = []")
    case True
    then show ?thesis
      using c first reader_open [OF c(1,2)] acl_reader_lead [OF c(2)] by (intro exI [of _ "acl_reader c"]) (auto simp: fr acl_reader_def)
  next
    case False
    let ?b = "?a\<lparr>fragmented_message := c, fragmented_message_size := of_nat (length ?pl)\<rparr>"
    have db: "drained ?b = ?a" using dr by simp
    have rx': "receiving acl ?b f (set_acl acl ?b s)" by (rule receiving_set [OF assms(1)]) simp_all
    have "\<exists>c'. list_all (packet_ok 4) c' \<and> c' \<noteq> [] \<and>
        (\<exists>pls. map (payload 4) c' = map (payload 4) (fragmented_message ?b) @ pls \<and> concat pls = drop m msg) \<and>
        receive_all D (map packet_in (acl_fragments (acl_conn_handle ?b) bc m 1 (drop m msg))) (set_acl acl ?b s) =
          ad_received D f acl (acl_reader c') (set_acl acl (drained ?b) (set_acl acl ?b s))"
      by (rule receive_fragments [OF rx', where F = "length ?pl" and R = "length msg"]) (use c(1) assms(7-9) False in auto)
    then obtain c' pls where c': "list_all (packet_ok 4) c'" "c' \<noteq> []" "map (payload 4) c' = ?pl # pls" "concat pls = drop m msg"
        "receive_all D (map packet_in (acl_fragments ?h bc m 1 (drop m msg))) (set_acl acl ?b s) =
          ad_received D f acl (acl_reader c') (set_acl acl ?a s)"
      unfolding db using c(3) by (elim exE conjE) (rule that, simp_all)
    moreover have "payload 4 (hd c') = ?pl" using c'(3) by auto
    ultimately show ?thesis
      using c(4) False first reader_open [OF c'(1,2)] acl_reader_lead [OF c'(2)]
      by (intro exI [of _ "acl_reader c'"]) (simp add: fr acl_reader_def)
  qed
qed

section \<open>Messages\<close>

text \<open>
  \<^verbatim>\<open>bte_acl_create_message\<close> allocates just enough packets of the controller's size for the message and
  writes their headers; once the message is written, ending the writer gives the fragments of the
  message: every packet has its header (handle, boundary and broadcast flags, length of its data),
  is full but for the last, and their data together is the message.
\<close>

theorem bte_acl_create_message_correct:
  assumes "acl_heap s acl = Some a" "unat (acl_mtu s) = m + 4" "0 < m" "sz \<noteq> 0"
    "packets_needed (unat sz) m * (m + 4) < 65536" "m + 4 + sizeof_BteBuffer < 65536" "length msg = unat sz"
  shows "\<exists>w w' c. bte_acl_create_message E acl sz bc s = Some (Some w) \<and>
    bte_buffer_writer_write w msg sz = Some (True, w') \<and> bte_buffer_writer_end w' = Some c \<and>
    map packet_bytes c = acl_fragments (acl_conn_handle a) bc m BTE_ACL_PB_FIRST_FLUSH msg \<and>
    length c = packets_needed (unat sz) m"
proof -
  obtain w where w: "bte_acl_create_message E acl sz bc s = Some (Some w)"
      "message_writer (acl_conn_handle a) bc m (packets_needed (unat sz) m) (unat sz) w" "writer_out w = []"
      "writer_room w = packets_needed (unat sz) m * m"
    using create_message_spec [OF assms(1-6)] by blast
  have ok: "writer_ok w" using w(2) by (simp add: message_writer_def)
  have "unat sz \<le> writer_room w" using w(2,4) by (simp add: message_writer_def)
  then obtain w' where w': "bte_buffer_writer_write w msg sz = Some (True, w')" "writer_ok w'" "same_frames w w'"
      "writer_out w' = msg" using writer_write_fills [OF ok assms(7)] w(3) by auto
  note mw = message_writer_step [OF w(2) w'(3,2)]
  obtain c where c: "bte_buffer_writer_end w' = Some c"
      "map packet_bytes c = acl_fragments (acl_conn_handle a) bc m BTE_ACL_PB_FIRST_FLUSH (writer_out w')"
    using message_end [OF mw] w'(4) assms(7) by auto
  moreover have "length c = packets_needed (unat sz) m"
  proof -
    have "length c = length (writer_chain w')" using writer_end_spec [OF w'(2)] c(1) by auto
    then show ?thesis using message_packets(2) [OF mw] by simp
  qed
  ultimately show ?thesis using w(1) w'(1,4) by auto
qed

definition demo_acl :: bte_acl where
  "demo_acl = (zero_acl 112)\<lparr>acl_ref_count := 1, acl_hci := Some 8, acl_conn_handle := 0x2a,
     connected_cb := Some Acl_connected_cb, disconnected_cb := Some Acl_disconnected_cb,
     incoming_data_check_cb := Some Acl_incoming_data_check_cb, data_received_cb := Some Acl_data_received_cb\<rparr>"

definition demo_acl_dev :: acl_dev where
  "demo_acl_dev = bte_hci_dev.extend (zero_dev\<lparr>acl_mtu := 7, acl_available_packets := 2\<rparr>)
     (acl_dev.fields [None, Some 5, None, None, None, None, None] [5 \<mapsto> demo_acl])"

definition demo_acl_env :: "acl_dev hci_env" where
  "demo_acl_env = \<lparr>env_client = \<lambda>c s. Some (False, s), env_fresh = \<lambda>s i. 0xee, be_init = \<lambda>s. 0,
     be_hci_send_command = \<lambda>_ _. 0, be_hci_send_data = \<lambda>_ _. 0, be_deinit = id, driver_init = \<lambda>s. Some (0, s)\<rparr>"

lemma demo_acl_dev_simps [simp]:
  "acl_heap demo_acl_dev 5 = Some demo_acl" "acl_mtu demo_acl_dev = 7" "acl_available_packets demo_acl_dev = 2"
  "acls demo_acl_dev = [None, Some 5, None, None, None, None, None]" "outgoing_acl_packets demo_acl_dev = []"
  "data_wire demo_acl_dev = []" "acl_conn_handle demo_acl = 0x2a"
  by (simp_all add: demo_acl_dev_def bte_hci_dev.extend_def acl_dev.fields_def zero_dev_def demo_acl_def)

theorem bte_acl_create_message_correct_witness:
  "\<exists>w w' c. bte_acl_create_message demo_acl_env 5 4 0 demo_acl_dev = Some (Some w) \<and>
    bte_buffer_writer_write w [1, 2, 3, 4] 4 = Some (True, w') \<and> bte_buffer_writer_end w' = Some c \<and>
    map packet_bytes c = [[0x2a, 0x20, 3, 0, 1, 2, 3], [0x2a, 0x10, 1, 0, 4]]"
proof -
  have f: "acl_fragments 0x2a 0 3 2 [1, 2, 3, 4] = [[0x2a, 0x20, 3, 0, 1, 2, 3], [0x2a, 0x10, 1, 0, 4]]"
    by code_simp
  from bte_acl_create_message_correct [of demo_acl_dev 5 demo_acl 3 4 "[1, 2, 3, 4]" demo_acl_env 0]
  show ?thesis unfolding demo_acl_dev_simps f [symmetric] by (auto simp: sizeof_BteBuffer_def)
qed

text \<open>
  C18: a message reaches the other side. When the packets of a message that one host created and wrote
  are received, in order, by a host whose link has no message in progress and whose check accepts the
  message with its size, the message is delivered once, complete, after its last packet: the reader that
  the callback gets stands for exactly the bytes that were written, the first packet's share of them in one
  piece. Both hosts may have any state and
  packet size.
\<close>

theorem acl_message_roundtrip:
  assumes "acl_heap s acl = Some a" "unat (acl_mtu s) = m + 4" "0 < m" "sz \<noteq> 0"
    "packets_needed (unat sz) m * (m + 4) < 65536" "m + 4 + sizeof_BteBuffer < 65536"
    "length msg = unat sz" "unat sz < 65535"
    and "acl_heap t acl' = Some b" "acl_conn_handle b = acl_conn_handle a" "acl_conn_handle a AND 0xfff = acl_conn_handle a"
    "find_acl_by_conn_handle (acl_conn_handle a) t = Some (Some acl')" "data_received_cb b = Some f"
    "fragmented_message b = []" "fragmented_message_size b = 0" "incoming_data_check_cb b = Some g"
    "\<And>r. reader_ok r \<Longrightarrow> reader_stream r = take m msg \<Longrightarrow> reader_lead r = take m msg \<Longrightarrow>
      ad_check D g acl' r t = Some (int (length msg), t)"
  shows "\<exists>w w' c r. bte_acl_create_message E acl sz bc s = Some (Some w) \<and>
    bte_buffer_writer_write w msg sz = Some (True, w') \<and> bte_buffer_writer_end w' = Some c \<and>
    reader_ok r \<and> reader_stream r = msg \<and> reader_lead r = take m msg \<and>
    receive_all D (map (\<lambda>p. packet_in (packet_bytes p)) c) t =
      ad_received D f acl' r (set_acl acl' (b\<lparr>reassembled_message_size := sz\<rparr>) t)"
proof -
  obtain w where w: "bte_acl_create_message E acl sz bc s = Some (Some w)"
      "message_writer (acl_conn_handle a) bc m (packets_needed (unat sz) m) (unat sz) w" "writer_out w = []"
      "writer_room w = packets_needed (unat sz) m * m"
    using create_message_spec [OF assms(1-6)] by blast
  have ok: "writer_ok w" "unat sz \<le> writer_room w" using w(2,4) by (simp_all add: message_writer_def)
  obtain w' where w': "bte_buffer_writer_write w msg sz = Some (True, w')" "writer_ok w'" "same_frames w w'"
      "writer_out w' = msg" using writer_write_fills [OF ok(1) assms(7) ok(2)] w(3) by auto
  obtain c where c: "bte_buffer_writer_end w' = Some c"
      "map packet_bytes c = acl_fragments (acl_conn_handle b) bc m 2 msg"
    using message_end [OF message_writer_step [OF w(2) w'(3,2)]] w'(4) assms(7,10) by auto
  have rx: "receiving acl' b f t" using assms(9-13) by (simp add: receiving_def)
  have ne: "msg \<noteq> []" using assms(4,7) by (auto simp: unat_eq_0)
  have sz: "of_nat (length msg) = sz" using assms(7) by simp
  have pk: "map (\<lambda>p. packet_in (packet_bytes p)) c = map packet_in (acl_fragments (acl_conn_handle b) bc m 2 msg)"
    unfolding c(2) [symmetric] by simp
  have "\<exists>r. reader_ok r \<and> reader_stream r = msg \<and> reader_lead r = take m msg \<and>
      receive_all D (map packet_in (acl_fragments (acl_conn_handle b) bc m 2 msg)) t =
        ad_received D f acl' r (set_acl acl' (b\<lparr>reassembled_message_size := of_nat (length msg)\<rparr>) t)"
    by (rule receive_message [OF rx assms(14-16)]) (use assms ne in auto)
  then show ?thesis unfolding pk [symmetric] sz using w(1) w'(1) c(1) by blast
qed

definition demo_acl_dispatch :: "acl_dev acl_dispatch" where
  "demo_acl_dispatch = \<lparr>ad_connected = \<lambda>_ _ _ s. Some s, ad_disconnected = \<lambda>_ _ _ s. Some s,
     ad_check = \<lambda>_ _ _ s. Some (4, s), ad_received = \<lambda>_ _ r s. Some (s\<lparr>data_wire := [reader_stream r]\<rparr>)\<rparr>"

theorem acl_message_roundtrip_witness:
  "\<exists>w w' c s'. bte_acl_create_message demo_acl_env 5 4 0 demo_acl_dev = Some (Some w) \<and>
    bte_buffer_writer_write w [1, 2, 3, 4] 4 = Some (True, w') \<and> bte_buffer_writer_end w' = Some c \<and>
    receive_all demo_acl_dispatch (map (\<lambda>p. packet_in (packet_bytes p)) c) demo_acl_dev = Some s' \<and>
    data_wire s' = [[1, 2, 3, 4]]"
proof -
  have "\<exists>w w' c r. bte_acl_create_message demo_acl_env 5 4 0 demo_acl_dev = Some (Some w) \<and>
      bte_buffer_writer_write w [1, 2, 3, 4] 4 = Some (True, w') \<and> bte_buffer_writer_end w' = Some c \<and>
      reader_ok r \<and> reader_stream r = [1, 2, 3, 4] \<and> reader_lead r = take 3 [1, 2, 3, 4] \<and>
      receive_all demo_acl_dispatch (map (\<lambda>p. packet_in (packet_bytes p)) c) demo_acl_dev =
        ad_received demo_acl_dispatch Acl_data_received_cb 5 r (set_acl 5 (demo_acl\<lparr>reassembled_message_size := 4\<rparr>) demo_acl_dev)"
    by (rule acl_message_roundtrip [where m = 3 and b = demo_acl and g = Acl_incoming_data_check_cb])
       (auto simp: sizeof_BteBuffer_def find_acl_by_conn_handle_def demo_acl_def zero_acl_def demo_acl_dispatch_def)
  then show ?thesis by (fastforce simp: demo_acl_dispatch_def)
qed

lemma receive_discarded:
  assumes "receiving acl a f s" "reassembled_message_size a = ACL_INVALID_PACKET"
  shows "receive_all D (map (\<lambda>(n, pl). packet_in (acl_header (acl_conn_handle a) bc 1 n @ pl)) ps) s = Some s"
proof (induction ps)
  case (Cons x ps)
  have h: "acl_conn_handle a AND 0xfff = acl_conn_handle a" using assms(1) by (simp add: receiving_def)
  note hf = header_fields [OF h, of 1 bc, simplified]
  show ?case using assms hf Cons
    by (cases x) (simp add: on_data_received_def header_reads(1) receiving_def deliver_stale_def check_packet_def)
qed simp

text \<open>Where sending leads: the queue \<open>q\<close> with the message in it, cut after the \<open>k\<close> packets that are sent.\<close>

lemma send_message_spec:
  assumes "chain_ok (outgoing_acl_packets s)" "chain_ok buffer" "buffer \<noteq> []"
    and k: "k = min (unat (acl_available_packets s)) (length (outgoing_acl_packets s @ buffer))"
    and pkts: "pkts = map packet_bytes (outgoing_acl_packets s @ buffer)"
  shows "\<exists>rc q. bte_acl_send_message E buffer s = Some (rc, s\<lparr>outgoing_acl_packets := drop k q,
      acl_available_packets := acl_available_packets s - of_nat k, data_wire := data_wire s @ take k pkts\<rparr>) \<and>
    chain_ok q \<and> map packet_bytes q = pkts \<and>
    (list_all (\<lambda>rc. 0 \<le> rc) (send_rcs (be_hci_send_data E) (data_wire s) (take k pkts)) \<longrightarrow>
       rc = (if drop k q = [] then 1 else 0))"
proof -
  let ?old = "outgoing_acl_packets s"
  obtain q where q: "bte_buffer_append ?old buffer = Some q" "chain_ok q" "map packet_bytes q = pkts"
      "length q = length (?old @ buffer)"
    using assms(1-3) pkts by (cases ?old; cases buffer) auto
  let ?s = "s\<lparr>outgoing_acl_packets := q\<rparr>"
  let ?rcs = "send_rcs (be_hci_send_data E) (data_wire s) (take k pkts)"
  define e where "e = length (filter (\<lambda>rc. rc < 0) ?rcs)"
  define sent where "sent = length (filter (\<lambda>rc. \<not> rc < 0) ?rcs)"
  have pk: "map packet_bytes (take k q) = take k pkts" using q(3) by (simp add: take_map [symmetric])
  have "k = min (unat (acl_available_packets s)) (length q)" using k q(4) by simp
  from send_queued_loop_spec [OF q(2) this pk [symmetric], of "be_hci_send_data E" "data_wire s" 0 0]
  have sq: "bte_hci_send_queued_data E ?s = Some (if e = 0 then int sent else - int e,
      s\<lparr>outgoing_acl_packets := drop k q, acl_available_packets := acl_available_packets s - of_nat k,
        data_wire := data_wire s @ take k pkts\<rparr>)"
    by (simp add: bte_hci_send_queued_data_def e_def sent_def)
  have e: "e = 0" if "list_all (\<lambda>rc. 0 \<le> rc) ?rcs"
    using that by (simp add: e_def list_all_iff filter_empty_conv not_less)
  have kl: "k \<le> length q" using k q(4) by simp
  have ql: "length q = length ?old + length buffer" "buffer \<noteq> []" using q(4) assms(3) by simp_all
  let ?s' = "s\<lparr>outgoing_acl_packets := drop k q, acl_available_packets := acl_available_packets s - of_nat k,
        data_wire := data_wire s @ take k pkts\<rparr>"
  let ?our = "if length ?old < length q - length (drop k q) then 1 else length buffer"
  have ret: "(if length (drop k q) \<ge> ?our then 0 else int ?our - int (length (drop k q))) =
      (if drop k q = [] then 1 else 0)"
    using kl ql by (cases buffer) auto
  have "bte_acl_send_message E buffer s = Some (if e = 0 then (if drop k q = [] then 1 else 0) else - int e, ?s')"
    using q(1) sq ret
    by (cases "e = 0") (simp_all add: bte_acl_send_message_def Let_def del: length_drop drop_eq_Nil split del: if_split cong: if_cong)
  then show ?thesis using e q(2,3) by (intro exI [of _ q] exI [of _ "if e = 0 then (if drop k q = [] then 1 else 0) else - int e"]) simp
qed

text \<open>
  A message that the check refuses is dropped: its first packet and every continuation packet that
  follows leave the link as it is, with the mark that discards them, and no callback is called.
\<close>

theorem acl_refused_message_dropped:
  assumes "acl_heap s acl = Some a" "find_acl_by_conn_handle (acl_conn_handle a) s = Some (Some acl)"
    "acl_conn_handle a AND 0xfff = acl_conn_handle a" "data_received_cb a = Some f"
    "fragmented_message a = []" "incoming_data_check_cb a = Some g" "rc < 0"
    "ad_check D g acl (acl_reader [packet_in (acl_header (acl_conn_handle a) bc 2 n @ pl)]) s = Some (rc, s)"
  shows "receive_all D (packet_in (acl_header (acl_conn_handle a) bc 2 n @ pl) #
      map (\<lambda>(n, pl). packet_in (acl_header (acl_conn_handle a) bc 1 n @ pl)) ps) s =
    Some (set_acl acl (a\<lparr>reassembled_message_size := ACL_INVALID_PACKET\<rparr>) s)"
proof -
  let ?a = "a\<lparr>reassembled_message_size := ACL_INVALID_PACKET\<rparr>"
  have rx: "receiving acl a f s" using assms(1-4) by (simp add: receiving_def)
  have rx': "receiving acl ?a f (set_acl acl ?a s)" by (rule receiving_set [OF rx]) simp_all
  show ?thesis
    using receive_first [OF rx assms(5,6,8)] receive_discarded [OF rx', of D bc ps] assms(7) by simp
qed

theorem acl_refused_message_dropped_witness:
  "receive_all (demo_acl_dispatch\<lparr>ad_check := \<lambda>_ _ _ s. Some (- 1, s)\<rparr>)
     [packet_in (acl_header 0x2a 0 2 2 @ [1, 2]), packet_in (acl_header 0x2a 0 1 1 @ [3])] demo_acl_dev =
   Some (set_acl 5 (demo_acl\<lparr>reassembled_message_size := 0xffff\<rparr>) demo_acl_dev)"
  using acl_refused_message_dropped [of demo_acl_dev 5 demo_acl Acl_data_received_cb Acl_incoming_data_check_cb "- 1"
      "demo_acl_dispatch\<lparr>ad_check := \<lambda>_ _ _ s. Some (- 1, s)\<rparr>" 0 2 "[1, 2]" "[(1, [3])]"]
  by (simp add: find_acl_by_conn_handle_def) (simp add: demo_acl_def zero_acl_def)

text \<open>
  Sending. \<^verbatim>\<open>bte_acl_send_message\<close> queues the packets of the message behind those that wait and sends from
  the front of the queue as many as the controller has room for. Unless the backend refuses a packet
  it returns 1 when nothing is left in the queue and 0 when some packet waits, whether or not packets of
  this message were sent.
\<close>

theorem bte_acl_send_message_correct:
  assumes "chain_ok (outgoing_acl_packets s)" "chain_ok buffer" "buffer \<noteq> []"
    and k: "k = min (unat (acl_available_packets s)) (length (outgoing_acl_packets s @ buffer))"
    and pkts: "pkts = map packet_bytes (outgoing_acl_packets s @ buffer)"
  shows "\<exists>rc s'. bte_acl_send_message E buffer s = Some (rc, s') \<and>
    data_wire s' = data_wire s @ take k pkts \<and> map packet_bytes (outgoing_acl_packets s') = drop k pkts \<and>
    unat (acl_available_packets s') = unat (acl_available_packets s) - k \<and>
    (list_all (\<lambda>rc. 0 \<le> rc) (send_rcs (be_hci_send_data E) (data_wire s) (take k pkts)) \<longrightarrow>
       rc = (if outgoing_acl_packets s' = [] then 1 else 0))"
proof -
  obtain rc q where q: "bte_acl_send_message E buffer s = Some (rc, s\<lparr>outgoing_acl_packets := drop k q,
      acl_available_packets := acl_available_packets s - of_nat k, data_wire := data_wire s @ take k pkts\<rparr>)"
      "map packet_bytes q = pkts"
      "list_all (\<lambda>rc. 0 \<le> rc) (send_rcs (be_hci_send_data E) (data_wire s) (take k pkts)) \<longrightarrow>
        rc = (if drop k q = [] then 1 else 0)"
    using send_message_spec [OF assms] by blast
  have "unat (acl_available_packets s - of_nat k) = unat (acl_available_packets s) - k"
    using k by (intro unat_sub_of_nat) simp
  moreover have "map packet_bytes (drop k q) = drop k pkts" using q(2) by (simp add: drop_map [symmetric])
  ultimately show ?thesis using q(1,3) by auto
qed

text \<open>The packets that were handed to the controller and those that wait, in order.\<close>

definition wire :: "'b adev \<Rightarrow> mem list" where
  "wire s = data_wire s @ map packet_bytes (outgoing_acl_packets s)"

text \<open>Nothing but the queue, the credits and the wire changes, and the packets follow those that were there.\<close>

definition hands_over :: "mem list \<Rightarrow> 'b adev \<Rightarrow> 'b adev \<Rightarrow> bool" where
  "hands_over pkts s s' \<longleftrightarrow> wire s' = wire s @ pkts \<and> chain_ok (outgoing_acl_packets s') \<and>
     (\<exists>q n d. s' = s\<lparr>outgoing_acl_packets := q, acl_available_packets := n, data_wire := d\<rparr>)"

lemma send_message_hands_over:
  assumes "chain_ok (outgoing_acl_packets s)" "chain_ok buffer" "buffer \<noteq> []"
  shows "\<exists>rc s'. bte_acl_send_message E buffer s = Some (rc, s') \<and> hands_over (map packet_bytes buffer) s s'"
proof -
  let ?pkts = "map packet_bytes (outgoing_acl_packets s @ buffer)"
  let ?k = "min (unat (acl_available_packets s)) (length (outgoing_acl_packets s @ buffer))"
  obtain rc q where q: "bte_acl_send_message E buffer s = Some (rc, s\<lparr>outgoing_acl_packets := drop ?k q,
      acl_available_packets := acl_available_packets s - of_nat ?k, data_wire := data_wire s @ take ?k ?pkts\<rparr>)"
      "chain_ok q" "map packet_bytes q = ?pkts"
    using send_message_spec [OF assms refl refl] by blast
  let ?s' = "s\<lparr>outgoing_acl_packets := drop ?k q, acl_available_packets := acl_available_packets s - of_nat ?k,
      data_wire := data_wire s @ take ?k ?pkts\<rparr>"
  have "chain_ok (drop ?k q)" using q(2) by (auto simp: chain_ok_def list_all_iff dest: in_set_dropD)
  moreover have "map packet_bytes (drop ?k q) = drop ?k ?pkts" using q(3) by (simp only: drop_map [symmetric])
  then have "wire ?s' = wire s @ map packet_bytes buffer"
    unfolding wire_def by (simp del: map_append add: append_take_drop_id) simp
  ultimately have "hands_over (map packet_bytes buffer) s ?s'" unfolding hands_over_def by auto
  then show ?thesis using q(1) by blast
qed

theorem bte_acl_send_message_correct_witness:
  "\<exists>s'. bte_acl_send_message demo_acl_env [packet_in [1], packet_in [2], packet_in [3]] demo_acl_dev = Some (0, s') \<and>
     data_wire s' = [[1], [2]]"
proof -
  have c: "chain_ok [packet_in [1], packet_in [2], packet_in [3]]" by (simp add: packet_in_def)
  have p: "map packet_bytes [packet_in [1], packet_in [2], packet_in [3]] = [[1], [2], [3]]"
    by (simp add: packet_in_def packet_bytes_def)
  from bte_acl_send_message_correct [of demo_acl_dev "[packet_in [1], packet_in [2], packet_in [3]]" 2 "[[1], [2], [3]]" demo_acl_env] c p
  show ?thesis by (auto simp: demo_acl_env_def)
qed

section \<open>The end of a link\<close>

text \<open>The packets of a link, as \<^verbatim>\<open>bte_acl_disconnected\<close> finds them.\<close>

definition for_link :: "u16 \<Rightarrow> bte_buffer \<Rightarrow> bool" where
  "for_link h p \<longleftrightarrow> 4 \<le> unat (size p) \<and> (case read_le16 (data p) 0 of None \<Rightarrow> False | Some v \<Rightarrow> v AND 0x0fff = h)"

lemma purge_loop_ok: "chain_ok q \<Longrightarrow> purge_loop h q = Some (filter (\<lambda>p. \<not> for_link h p) q)"
  by (induction q) (auto simp: for_link_def read_le16_def slice_def)

lemma clear_first_notin: "Some acl \<notin> set ps \<Longrightarrow> clear_first acl ps = ps"
  by (induction ps) auto

lemma dispose_loop_frame:
  "hci_dev_dispose_loop hci is s = Some s' \<Longrightarrow> \<exists>cmds n. s' = s\<lparr>pending_commands := cmds, num_pending_commands := n\<rparr>"
proof (induction "is" arbitrary: s)
  case Nil
  then show ?case by (intro exI [of _ "pending_commands s"] exI [of _ "num_pending_commands s"]) simp
next
  case (Cons i "is")
  then obtain s1 where s1: "hci_dev_dispose_loop hci is s1 = Some s'" "s1 = s \<or> bte_hci_dev_free_command i s = Some s1"
    by (auto simp: bind_eq_Some_conv split: if_splits)
  obtain cmds n where "s1 = s\<lparr>pending_commands := cmds, num_pending_commands := n\<rparr>"
    using s1(2)
  proof
    assume "s1 = s"
    then have "s1 = s\<lparr>pending_commands := pending_commands s, num_pending_commands := num_pending_commands s\<rparr>" by simp
    then show thesis by (rule that)
  next
    assume "bte_hci_dev_free_command i s = Some s1"
    then obtain pc where "s1 = s\<lparr>pending_commands := (pending_commands s)[i := pc], num_pending_commands := num_pending_commands s - 1\<rparr>"
      by (auto simp: bte_hci_dev_free_command_def put_pc_def bind_eq_Some_conv split: if_splits)
    then show thesis by (rule that)
  qed
  then show ?case using Cons.IH [OF s1(1)] by auto
qed

text \<open>The commands of a client that goes away: its slots are free, the others are as before.\<close>

definition commands_released :: "nat \<Rightarrow> pending_command list \<Rightarrow> pending_command list \<Rightarrow> bool" where
  "commands_released cl cs cs' \<longleftrightarrow> (\<forall>i < 8. \<not> owned_by (Some cl) (cs' ! i) \<and>
     (cs' ! i = cs ! i \<or> owned_by (Some cl) (cs ! i) \<and> \<not> busy (cs' ! i)))"

lemma client_unref_last:
  assumes "dev_ok s" "client_heap s cl = Some c" "c_ref_count c = 1" "\<And>t. client_heap (be_deinit E t) = client_heap t"
  shows "\<exists>cmds n t. bte_client_unref E cl s = Some (t\<lparr>client_heap := (client_heap s)(cl := None)\<rparr>) \<and>
    t = (let u = s\<lparr>client_heap := (client_heap s)(cl \<mapsto> c\<lparr>c_ref_count := 0\<rparr>), pending_commands := cmds, num_pending_commands := n,
             clients := map (\<lambda>x. if x = Some cl then None else x) (clients s)\<rparr>
         in if filter (\<lambda>x. x \<noteq> None) (clients u) = [] then be_deinit E u else u) \<and>
    commands_released cl (pending_commands s) cmds"
proof -
  let ?s = "s\<lparr>client_heap := (client_heap s)(cl \<mapsto> c\<lparr>c_ref_count := 0\<rparr>)\<rparr>"
  have ok: "dev_ok ?s" using assms(1) by (simp add: dev_ok_def table_def)
  obtain s1 where s1: "hci_dev_dispose_loop (Some cl) [0..<8] ?s = Some s1" "commands_released cl (pending_commands s) (pending_commands s1)"
    using dispose_loop_spec [OF ok, of "[0..<8]" "Some cl"] unfolding commands_released_def by fastforce
  obtain cmds n where eq: "s1 = ?s\<lparr>pending_commands := cmds, num_pending_commands := n\<rparr>" using dispose_loop_frame [OF s1(1)] by blast
  show ?thesis
    using assms(2-4) s1 unfolding eq
    by (intro exI [of _ cmds] exI [of _ n])
       (auto simp: bte_client_unref_def get_client_def put_client_def bte_client_free_def bte_hci_dev_remove_client_def hci_dev_dispose_def Let_def)
qed

lemma acl_unref_last:
  assumes "acl_heap s acl = Some a" "chain_ok (outgoing_acl_packets s)" "acl_hci a = Some cl" "acl_ref_count a = 1"
  shows "bte_acl_unref E acl s =
    do { s \<leftarrow> bte_client_unref E cl (s\<lparr>outgoing_acl_packets := filter (\<lambda>p. \<not> for_link (acl_conn_handle a) p) (outgoing_acl_packets s),
           acl_heap := (acl_heap s)(acl \<mapsto> a\<lparr>acl_ref_count := (if is_incoming a then - 1 else 0), disconnected_cb := None,
             acl_conn_handle := BTE_CONN_HANDLE_INVALID\<rparr>),
           acls := clear_first acl (acls s)\<rparr>);
         _ \<leftarrow> acl_heap s acl;
         Some (s\<lparr>acl_heap := (acl_heap s)(acl := None)\<rparr>) }"
proof -
  let ?a1 = "a\<lparr>acl_ref_count := 0, disconnected_cb := None, acl_conn_handle := BTE_CONN_HANDLE_INVALID\<rparr>"
  let ?q = "filter (\<lambda>p. \<not> for_link (acl_conn_handle a) p) (outgoing_acl_packets s)"
  let ?s1 = "s\<lparr>outgoing_acl_packets := ?q, acl_heap := (acl_heap s)(acl \<mapsto> ?a1), acls := clear_first acl (acls s)\<rparr>"
  let ?e = "s\<lparr>outgoing_acl_packets := ?q, acl_heap := (acl_heap s)(acl \<mapsto> a\<lparr>acl_ref_count := (if is_incoming a then - 1 else 0),
      disconnected_cb := None, acl_conn_handle := BTE_CONN_HANDLE_INVALID\<rparr>), acls := clear_first acl (acls s)\<rparr>"
  have ends: "(if is_incoming a then set_acl acl (?a1\<lparr>acl_ref_count := - 1\<rparr>) ?s1 else ?s1) = ?e"
    by (cases s; cases a; simp add: set_acl_def)
  have again: "bte_acl_unref E acl ?s1 = Some (set_acl acl (?a1\<lparr>acl_ref_count := - 1\<rparr>) ?s1)"
    by (subst bte_acl_unref.simps) (simp add: put_acl_eq)
  have dis: "acl_disconnected_with (bte_acl_unref E) cb acl reason
        (set_acl acl (a\<lparr>acl_ref_count := 0, disconnected_cb := None\<rparr>) s) =
      Some (if is_incoming a then set_acl acl (?a1\<lparr>acl_ref_count := - 1\<rparr>) ?s1 else ?s1)" for cb reason
    using again by (simp add: acl_disconnected_with_def purge_loop_ok [OF assms(2)] put_acl_def set_acl_def Let_def)
  show ?thesis
    using assms(1,3,4)
    by (subst bte_acl_unref.simps)
       (simp add: put_acl_eq acl_free_with_def upd_acl_eq dis [unfolded ends, unfolded set_acl_def] set_acl_def)
qed

text \<open>
  C20: \<^verbatim>\<open>bte_acl_unref\<close>. While there are other references only the count changes. The last reference frees
  the link: its packets are taken from the queue and all others stay in order, its entry in the table
  is cleared, the object is freed and its reference to the client is dropped; no callback is called,
  and the recursion through \<^verbatim>\<open>bte_acl_free\<close> and \<^verbatim>\<open>bte_acl_disconnected\<close> ends. When the link holds the last reference to its client,
  the client goes too: its pending commands are released, those of other clients stay, its entry in the table of clients is cleared, the
  backend is stopped if it was the last client, and the client is freed. The device satisfies its invariant, and the backend's \<^verbatim>\<open>deinit\<close> leaves the
  clients and links alone.
\<close>

theorem bte_acl_unref_correct:
  assumes "acl_heap s acl = Some a" "chain_ok (outgoing_acl_packets s)"
    "acl_hci a = Some cl" "client_heap s cl = Some c" "dev_ok s"
    "\<And>t. client_heap (be_deinit E t) = client_heap t \<and> acl_heap (be_deinit E t) = acl_heap t"
    and ended: "ended = s\<lparr>outgoing_acl_packets := filter (\<lambda>p. \<not> for_link (acl_conn_handle a) p) (outgoing_acl_packets s),
      acls := clear_first acl (acls s)\<rparr>"
  shows "if acl_ref_count a \<noteq> 1 then bte_acl_unref E acl s = Some (set_acl acl (a\<lparr>acl_ref_count := acl_ref_count a - 1\<rparr>) s)
    else if c_ref_count c \<noteq> 1 then bte_acl_unref E acl s =
      Some (ended\<lparr>client_heap := (client_heap s)(cl \<mapsto> c\<lparr>c_ref_count := c_ref_count c - 1\<rparr>), acl_heap := (acl_heap s)(acl := None)\<rparr>)
    else \<exists>h cmds n t. bte_acl_unref E acl s = Some (t\<lparr>client_heap := (client_heap s)(cl := None), acl_heap := (acl_heap s)(acl := None)\<rparr>) \<and>
      t = (let u = ended\<lparr>acl_heap := h, client_heap := (client_heap s)(cl \<mapsto> c\<lparr>c_ref_count := 0\<rparr>),
               pending_commands := cmds, num_pending_commands := n,
               clients := map (\<lambda>x. if x = Some cl then None else x) (clients s)\<rparr>
           in if filter (\<lambda>x. x \<noteq> None) (clients u) = [] then be_deinit E u else u) \<and>
      commands_released cl (pending_commands s) cmds"
proof (cases "acl_ref_count a = 1")
  case False
  then show ?thesis
    using assms(1) by (subst bte_acl_unref.simps) (simp add: put_acl_eq)
next
  case True
  let ?h = "(acl_heap s)(acl \<mapsto> a\<lparr>acl_ref_count := (if is_incoming a then - 1 else 0), disconnected_cb := None,
      acl_conn_handle := BTE_CONN_HANDLE_INVALID\<rparr>)"
  let ?e = "ended\<lparr>acl_heap := ?h\<rparr>"
  have eq: "bte_acl_unref E acl s = do { s \<leftarrow> bte_client_unref E cl ?e; _ \<leftarrow> acl_heap s acl; Some (s\<lparr>acl_heap := (acl_heap s)(acl := None)\<rparr>) }"
  proof -
    have "?e = s\<lparr>outgoing_acl_packets := filter (\<lambda>p. \<not> for_link (acl_conn_handle a) p) (outgoing_acl_packets s),
        acl_heap := ?h, acls := clear_first acl (acls s)\<rparr>" by (simp add: ended)
    then show ?thesis using acl_unref_last [OF assms(1-3) True, of E] by (simp only:)
  qed
  show ?thesis
  proof (cases "c_ref_count c = 1")
    case False
    then have "bte_client_unref E cl ?e = Some (?e\<lparr>client_heap := (client_heap s)(cl \<mapsto> c\<lparr>c_ref_count := c_ref_count c - 1\<rparr>)\<rparr>)"
      using assms(4) by (simp add: bte_client_unref_def get_client_def put_client_def ended)
    then show ?thesis using True False eq by (simp add: ended)
  next
    case one: True
    have e: "dev_ok ?e" "client_heap ?e cl = Some c" using assms(4,5) by (simp_all add: ended dev_ok_def table_def)
    obtain cmds n t where t: "bte_client_unref E cl ?e = Some (t\<lparr>client_heap := (client_heap s)(cl := None)\<rparr>)"
        "t = (let u = ?e\<lparr>client_heap := (client_heap s)(cl \<mapsto> c\<lparr>c_ref_count := 0\<rparr>), pending_commands := cmds, num_pending_commands := n,
             clients := map (\<lambda>x. if x = Some cl then None else x) (clients s)\<rparr>
           in if filter (\<lambda>x. x \<noteq> None) (clients u) = [] then be_deinit E u else u)"
        "commands_released cl (pending_commands s) cmds"
      using client_unref_last [OF e one, of E] assms(6) by (auto simp: ended)
    have "acl_heap t = ?h" using t(2) assms(6) by (auto simp: Let_def ended)
    then have "bte_acl_unref E acl s = Some (t\<lparr>client_heap := (client_heap s)(cl := None), acl_heap := (acl_heap s)(acl := None)\<rparr>)"
      unfolding eq t(1) by simp
    then show ?thesis using True one t(2,3) by auto
  qed
qed

theorem bte_acl_unref_correct_witness:
  "\<exists>s'. bte_acl_unref demo_acl_env 5
       (demo_acl_dev\<lparr>client_heap := [8 \<mapsto> zero_client\<lparr>c_ref_count := 1\<rparr>], clients := [Some 8, None, None, None],
          outgoing_acl_packets := [packet_in [0x2a, 0x20, 0, 0], packet_in [0x2b, 0x20, 0, 0]]\<rparr>) = Some s' \<and>
     acl_heap s' 5 = None \<and> client_heap s' 8 = None"
proof -
  let ?q = "[packet_in [0x2a, 0x20, 0, 0], packet_in [0x2b, 0x20, 0, 0]]"
  let ?s = "demo_acl_dev\<lparr>client_heap := [8 \<mapsto> zero_client\<lparr>c_ref_count := 1\<rparr>], clients := [Some 8, None, None, None], outgoing_acl_packets := ?q\<rparr>"
  have s: "acl_heap ?s 5 = Some demo_acl" "chain_ok (outgoing_acl_packets ?s)" "acl_hci demo_acl = Some 8"
      "client_heap ?s 8 = Some (zero_client\<lparr>c_ref_count := 1\<rparr>)" "dev_ok ?s"
    using zero_dev_ok by (simp_all add: packet_in_def) (simp_all add: demo_acl_def demo_acl_dev_def bte_hci_dev.extend_def dev_ok_def)
  have d: "client_heap (be_deinit demo_acl_env t) = client_heap t \<and> acl_heap (be_deinit demo_acl_env t) = acl_heap t" for t
    by (simp add: demo_acl_env_def)
  show ?thesis using bte_acl_unref_correct [OF s d refl] by (auto simp: demo_acl_def)
qed

end
