(* ===== verification/L2cap.thy ===== *)
theory L2cap
  imports L2capConfig AclMessage
begin

text \<open>
  The channels of \<^verbatim>\<open>l2cap.c\<close>: the channel objects and their references, the frames and signalling
  commands that are sent, and the configuration of a channel.

  A \<^verbatim>\<open>BteL2cap*\<close> is an address of \<open>l2cap_heap\<close>. The array \<^verbatim>\<open>clients\<close> of a \<^verbatim>\<open>BteAclL2cap\<close> is the
  tail of its \<^verbatim>\<open>BteAcl\<close>. What a client does in a callback is a parameter that may change the whole
  state.
\<close>

section \<open>Constants and state\<close>

abbreviation (input) BTE_ACL_MAX_CLIENTS :: nat where "BTE_ACL_MAX_CLIENTS \<equiv> 4"
abbreviation (input) L2CAP_HDR_LEN :: nat where "L2CAP_HDR_LEN \<equiv> 4"
abbreviation (input) L2CAP_SIGNAL_HDR_LEN :: nat where "L2CAP_SIGNAL_HDR_LEN \<equiv> 4"
abbreviation (input) L2CAP_CONFIG_REQ_HDR_LEN :: nat where "L2CAP_CONFIG_REQ_HDR_LEN \<equiv> 4"
abbreviation (input) L2CAP_CONFIG_RSP_HDR_LEN :: nat where "L2CAP_CONFIG_RSP_HDR_LEN \<equiv> 6"
abbreviation (input) L2CAP_MTU_MIN :: u16 where "L2CAP_MTU_MIN \<equiv> 48"
abbreviation (input) L2CAP_MTU_DEFAULT :: u16 where "L2CAP_MTU_DEFAULT \<equiv> 672"
abbreviation (input) BTE_L2CAP_CHANNEL_ID_NULL :: u16 where "BTE_L2CAP_CHANNEL_ID_NULL \<equiv> 0"
abbreviation (input) BTE_L2CAP_CHANNEL_ID_SIGNALLING :: u16 where "BTE_L2CAP_CHANNEL_ID_SIGNALLING \<equiv> 1"
abbreviation (input) L2CAP_SIGNAL_CMD_REJ :: byte where "L2CAP_SIGNAL_CMD_REJ \<equiv> 0x01"
abbreviation (input) L2CAP_SIGNAL_CONN_REQ :: byte where "L2CAP_SIGNAL_CONN_REQ \<equiv> 0x02"
abbreviation (input) L2CAP_SIGNAL_CONN_RSP :: byte where "L2CAP_SIGNAL_CONN_RSP \<equiv> 0x03"
abbreviation (input) L2CAP_SIGNAL_CONFIG_REQ :: byte where "L2CAP_SIGNAL_CONFIG_REQ \<equiv> 0x04"
abbreviation (input) L2CAP_SIGNAL_CONFIG_RSP :: byte where "L2CAP_SIGNAL_CONFIG_RSP \<equiv> 0x05"
abbreviation (input) L2CAP_SIGNAL_DISCONN_REQ :: byte where "L2CAP_SIGNAL_DISCONN_REQ \<equiv> 0x06"
abbreviation (input) L2CAP_SIGNAL_DISCONN_RSP :: byte where "L2CAP_SIGNAL_DISCONN_RSP \<equiv> 0x07"
abbreviation (input) L2CAP_SIGNAL_ECHO_REQ :: byte where "L2CAP_SIGNAL_ECHO_REQ \<equiv> 0x08"
abbreviation (input) L2CAP_SIGNAL_ECHO_RSP :: byte where "L2CAP_SIGNAL_ECHO_RSP \<equiv> 0x09"
abbreviation (input) L2CAP_SIGNAL_INFO_REQ :: byte where "L2CAP_SIGNAL_INFO_REQ \<equiv> 0x0A"
abbreviation (input) L2CAP_SIGNAL_INFO_RSP :: byte where "L2CAP_SIGNAL_INFO_RSP \<equiv> 0x0B"
abbreviation (input) L2CAP_CONFIG_FLAG_CONTINUATION :: u16 where "L2CAP_CONFIG_FLAG_CONTINUATION \<equiv> 1"
abbreviation (input) L2CAP_CONFIG_RES_OK :: u16 where "L2CAP_CONFIG_RES_OK \<equiv> 0"
abbreviation (input) L2CAP_CONFIG_RES_ERR_PARAMS :: u16 where "L2CAP_CONFIG_RES_ERR_PARAMS \<equiv> 1"
abbreviation (input) L2CAP_CONFIG_RES_ERR_REJ :: u16 where "L2CAP_CONFIG_RES_ERR_REJ \<equiv> 2"
abbreviation (input) L2CAP_CONFIG_RES_ERR_UNKNOWN :: u16 where "L2CAP_CONFIG_RES_ERR_UNKNOWN \<equiv> 3"
abbreviation (input) BTE_L2CAP_CONN_RESP_RES_OK :: u16 where "BTE_L2CAP_CONN_RESP_RES_OK \<equiv> 0"
abbreviation (input) BTE_L2CAP_CONN_RESP_RES_PENDING :: u16 where "BTE_L2CAP_CONN_RESP_RES_PENDING \<equiv> 1"
abbreviation (input) BTE_L2CAP_CONN_RESP_RES_ERR_PSM :: u16 where "BTE_L2CAP_CONN_RESP_RES_ERR_PSM \<equiv> 2"
abbreviation (input) BTE_L2CAP_CONN_RESP_RES_ERR_RESOURCE :: u16 where "BTE_L2CAP_CONN_RESP_RES_ERR_RESOURCE \<equiv> 4"
abbreviation (input) BTE_L2CAP_CONN_RESP_RES_CONFIG :: u16 where "BTE_L2CAP_CONN_RESP_RES_CONFIG \<equiv> 0xF001"
abbreviation (input) BTE_L2CAP_CONN_RESP_RES_DISCONNECTED :: u16 where "BTE_L2CAP_CONN_RESP_RES_DISCONNECTED \<equiv> 0xF002"
abbreviation (input) BTE_L2CAP_CONN_RESP_STATUS_NO_INFO :: u16 where "BTE_L2CAP_CONN_RESP_STATUS_NO_INFO \<equiv> 0"
abbreviation (input) BTE_L2CAP_INFO_TYPE_MTU :: u16 where "BTE_L2CAP_INFO_TYPE_MTU \<equiv> 1"
abbreviation (input) BTE_L2CAP_INFO_TYPE_EXT_FEATURES :: u16 where "BTE_L2CAP_INFO_TYPE_EXT_FEATURES \<equiv> 2"
abbreviation (input) BTE_L2CAP_INFO_TYPE_FIXED_CHANNELS :: u16 where "BTE_L2CAP_INFO_TYPE_FIXED_CHANNELS \<equiv> 3"
abbreviation (input) BTE_L2CAP_INFO_RESP_RES_OK :: u16 where "BTE_L2CAP_INFO_RESP_RES_OK \<equiv> 0"
abbreviation (input) BTE_L2CAP_INFO_RESP_RES_UNSUPPORTED :: u16 where "BTE_L2CAP_INFO_RESP_RES_UNSUPPORTED \<equiv> 1"
abbreviation (input) BTE_L2CAP_CONNECT_FLAG_AUTH :: u32 where "BTE_L2CAP_CONNECT_FLAG_AUTH \<equiv> 1"

text \<open>The states of a channel, in the order of the enumeration.\<close>

datatype l2cap_state =
  BTE_L2CAP_CLOSED | BTE_L2CAP_WAIT_CONNECT | BTE_L2CAP_WAIT_CONNECT_RSP | BTE_L2CAP_WAIT_CONFIG
| BTE_L2CAP_WAIT_SEND_CONFIG | BTE_L2CAP_WAIT_CONFIG_REQ_RSP | BTE_L2CAP_WAIT_CONFIG_RSP
| BTE_L2CAP_WAIT_CONFIG_REQ | BTE_L2CAP_OPEN | BTE_L2CAP_WAIT_DISCONNECT

primrec state_num :: "l2cap_state \<Rightarrow> nat" where
  "state_num BTE_L2CAP_CLOSED = 0" | "state_num BTE_L2CAP_WAIT_CONNECT = 1"
| "state_num BTE_L2CAP_WAIT_CONNECT_RSP = 2" | "state_num BTE_L2CAP_WAIT_CONFIG = 3"
| "state_num BTE_L2CAP_WAIT_SEND_CONFIG = 4" | "state_num BTE_L2CAP_WAIT_CONFIG_REQ_RSP = 5"
| "state_num BTE_L2CAP_WAIT_CONFIG_RSP = 6" | "state_num BTE_L2CAP_WAIT_CONFIG_REQ = 7"
| "state_num BTE_L2CAP_OPEN = 8" | "state_num BTE_L2CAP_WAIT_DISCONNECT = 9"

lemma state_num_inject [simp]: "state_num a = state_num b \<longleftrightarrow> a = b"
  by (cases a; cases b) simp_all

instantiation l2cap_state :: linorder
begin

definition less_eq_l2cap_state :: "l2cap_state \<Rightarrow> l2cap_state \<Rightarrow> bool" where
  "less_eq_l2cap_state a b \<longleftrightarrow> state_num a \<le> state_num b"

definition less_l2cap_state :: "l2cap_state \<Rightarrow> l2cap_state \<Rightarrow> bool" where
  "less_l2cap_state a b \<longleftrightarrow> state_num a < state_num b"

instance
  by standard (auto simp: less_eq_l2cap_state_def less_l2cap_state_def)

end

abbreviation (input) BTE_L2CAP_CONFIG_FIRST :: l2cap_state where "BTE_L2CAP_CONFIG_FIRST \<equiv> BTE_L2CAP_WAIT_CONFIG"

record connection_response =
  cr_remote_channel_id :: u16
  cr_local_channel_id :: u16
  cr_result :: u16
  cr_status :: u16

record configure_reply =
  cy_rejected_mask :: u32
  cy_unknown_mask :: u32
  cy_params :: configure_params

text \<open>The union of \<^verbatim>\<open>BteL2capInfo\<close> holds the MTU, the mask of features or the mask of channels.\<close>

datatype info_value = No_info | Connectionless_mtu u16 | Ext_feature_mask u32 | Fixed_channels_mask u64

record l2cap_info =
  li_type :: u16
  li_result :: u16
  li_value :: info_value

record configure_data =
  cd_rejected_mask :: u32
  cd_unknown_mask :: u32
  cd_params :: configure_params
  cd_has_pending_packets :: bool
  cd_start_cmd :: byte

definition zero_conf :: configure_data where
  "zero_conf = \<lparr>cd_rejected_mask = 0, cd_unknown_mask = 0, cd_params = zero_params,
     cd_has_pending_packets = False, cd_start_cmd = 0\<rparr>"

text \<open>
  The union \<^verbatim>\<open>cmd_data\<close> starts with the client callback in all its members, and the userdata follows
  in all but \<^verbatim>\<open>connect\<close>. \<^verbatim>\<open>configure_resp\<close> may point to a local variable of a function: then its flag
  is \<open>True\<close>.
\<close>

record bte_l2cap =
  l_ref_count :: int
  l_userdata :: u64
  l_acl :: "nat option"
  l_psm :: u16
  remote_channel_id :: u16
  local_channel_id :: u16
  l_mtu :: u16
  l_remote_mtu :: u16
  expected_response_code :: byte
  expected_response_id :: byte
  expected_response_count :: byte
  l_state :: l2cap_state
  state_changed_cb :: cb_ptr
  configure_cb :: cb_ptr
  configure_req :: "configure_data option"
  configure_resp :: "(bool \<times> configure_data) option"
  message_received_cb :: cb_ptr
  echo_cb :: cb_ptr
  disconnect_cb :: cb_ptr
  acl_disconnect_cb :: cb_ptr
  cmd_client_cb :: cb_ptr
  cmd_userdata :: u64

datatype conn_req_handler = L2cap_server_handle_connection_req

text \<open>The data of \<^verbatim>\<open>bte_l2cap_new_configured\<close>.\<close>

record new_configured_data =
  nc_conf :: "configure_params option"
  nc_reply_sent :: bool
  nc_callback :: cb_ptr
  nc_userdata :: u64

record l2cap_dev = acl_dev +
  l2cap_heap :: "nat \<Rightarrow> bte_l2cap option"
  new_configured_heap :: "nat \<Rightarrow> new_configured_data option"
  s_next_local_channel_id :: u16
  s_last_signal_id :: byte
  s_default_packet_type :: u16
  handle_connection_req :: "conn_req_handler option"

type_synonym 'c ldev = "'c l2cap_dev_scheme"

text \<open>What a client callback is given, besides the channel and its userdata.\<close>

datatype (plugins only: code size) l2cap_arg =
  State_changed l2cap_state
| Connect_reply "connection_response option"
| Configure_reply configure_reply
| On_configure configure_params
| Message_received bte_buffer_reader
| Disconnected byte
| Info_reply l2cap_info
| New_configured_reply u16

record l2cap_call =
  lc_cb :: nat
  lc_l2cap :: "nat option"
  lc_arg :: l2cap_arg
  lc_userdata :: u64

text \<open>
  The environment: the HCI layer's, the clients' callbacks (the one for an echo response moves the
  reader on), the answer to a connection request, the handler of echo requests that is linked, and what
  a reply holds that is not initialised.
\<close>

record 's l2cap_env =
  le_hci :: "'s hci_env"
  le_client :: "l2cap_call \<Rightarrow> 's \<Rightarrow> 's option"
  le_echo :: "nat \<Rightarrow> nat \<Rightarrow> bte_buffer_reader \<Rightarrow> u64 \<Rightarrow> 's \<Rightarrow> (bte_buffer_reader \<times> 's) option"
  le_connection_req :: "conn_req_handler \<Rightarrow> nat \<Rightarrow> u16 \<Rightarrow> u16 \<Rightarrow> 's \<Rightarrow> (nat option \<times> 's) option"
  le_echo_req :: "nat \<Rightarrow> byte \<Rightarrow> bte_buffer_reader \<Rightarrow> u16 \<Rightarrow> 's \<Rightarrow> (bool \<times> bte_buffer_reader \<times> 's) option"
  le_fresh_reply :: "'s \<Rightarrow> configure_reply"

type_synonym 'c lenv = "'c l2cap_dev_scheme l2cap_env"

definition call_l2cap :: "'c lenv \<Rightarrow> cb_ptr \<Rightarrow> nat option \<Rightarrow> l2cap_arg \<Rightarrow> u64 \<Rightarrow> 'c ldev \<Rightarrow> 'c ldev option" where
  "call_l2cap LE cb l2cap arg ud s =
     do { f \<leftarrow> cb; le_client LE \<lparr>lc_cb = f, lc_l2cap = l2cap, lc_arg = arg, lc_userdata = ud\<rparr> s }"

definition put_l2cap :: "nat \<Rightarrow> bte_l2cap \<Rightarrow> 'c ldev \<Rightarrow> 'c ldev option" where
  "put_l2cap l2cap l s = do { _ \<leftarrow> l2cap_heap s l2cap; Some (s\<lparr>l2cap_heap := (l2cap_heap s)(l2cap \<mapsto> l)\<rparr>) }"

definition upd_l2cap :: "(bte_l2cap \<Rightarrow> bte_l2cap) \<Rightarrow> nat \<Rightarrow> 'c ldev \<Rightarrow> 'c ldev option" where
  "upd_l2cap f l2cap s = do { l \<leftarrow> l2cap_heap s l2cap; put_l2cap l2cap (f l) s }"

section \<open>Channels and identifiers\<close>

fun l2cap_for_channel_loop :: "(nat \<Rightarrow> bte_l2cap option) \<Rightarrow> u16 \<Rightarrow> nat option list \<Rightarrow> nat option option" where
  "l2cap_for_channel_loop heap channel_id [] = Some None"
| "l2cap_for_channel_loop heap channel_id (None # cs) = l2cap_for_channel_loop heap channel_id cs"
| "l2cap_for_channel_loop heap channel_id (Some p # cs) =
     do { l \<leftarrow> heap p;
          if local_channel_id l = channel_id then Some (Some p) else l2cap_for_channel_loop heap channel_id cs }"

definition l2cap_for_local_channel :: "nat \<Rightarrow> u16 \<Rightarrow> 'c ldev \<Rightarrow> nat option option" where
  "l2cap_for_local_channel acl channel_id s =
     do { a \<leftarrow> acl_heap s acl; l2cap_for_channel_loop (l2cap_heap s) channel_id (acl_tail a) }"

definition next_local_channel_id :: "'c ldev \<Rightarrow> u16 \<times> 'c ldev" where
  "next_local_channel_id s =
     (let n = (if s_next_local_channel_id s = 0 then 0x0040 else s_next_local_channel_id s)
      in (n, s\<lparr>s_next_local_channel_id := n + 1\<rparr>))"

definition next_signal_id :: "'c ldev \<Rightarrow> byte \<times> 'c ldev" where
  "next_signal_id s =
     (let n = (if s_last_signal_id s = 0xff then 0 else s_last_signal_id s) + 1
      in (n, s\<lparr>s_last_signal_id := n\<rparr>))"

definition l2cap_set_state :: "'c lenv \<Rightarrow> nat \<Rightarrow> l2cap_state \<Rightarrow> 'c ldev \<Rightarrow> 'c ldev option" where
  "l2cap_set_state LE l2cap st s =
     do { l \<leftarrow> l2cap_heap s l2cap;
          if st = l_state l then Some s
          else do { s \<leftarrow> put_l2cap l2cap (l\<lparr>l_state := st\<rparr>) s;
                    if state_changed_cb l \<noteq> None
                    then call_l2cap LE (state_changed_cb l) (Some l2cap) (State_changed st) (l_userdata l) s
                    else Some s } }"

text \<open>The packet type is computed once and kept in a static variable.\<close>

definition default_connect_params :: "'c ldev \<Rightarrow> connect_params \<times> 'c ldev" where
  "default_connect_params s =
     (let pt = (if s_default_packet_type s = 0
                then bte_hci_packet_types_from_features (supported_features s) else s_default_packet_type s)
      in (\<lparr>cp_packet_type = pt, cp_clock_offset = BTE_HCI_CLOCK_OFFSET_INVALID, cp_page_scan_rep_mode = 1,
            cp_allow_role_switch = True\<rparr>, s\<lparr>s_default_packet_type := pt\<rparr>))"

section \<open>References\<close>

fun remove_client_loop :: "nat \<Rightarrow> nat option list \<Rightarrow> nat option list \<times> nat" where
  "remove_client_loop client [] = ([], 0)"
| "remove_client_loop client (c # cs) =
     (case remove_client_loop client cs of (cs', active) \<Rightarrow>
        case c of None \<Rightarrow> (None # cs', active)
        | Some p \<Rightarrow> if p = client then (None # cs', active) else (Some p # cs', Suc active))"

definition acl_l2cap_remove_client :: "'c lenv \<Rightarrow> nat \<Rightarrow> nat \<Rightarrow> 'c ldev \<Rightarrow> 'c ldev option" where
  "acl_l2cap_remove_client LE acl client s =
     do { a \<leftarrow> acl_heap s acl;
          let (cs, active_clients) = remove_client_loop client (acl_tail a);
          s \<leftarrow> put_acl acl (a\<lparr>acl_tail := cs\<rparr>) s;
          if active_clients = 0 then bte_acl_disconnect (le_hci LE) acl s else Some s }"

definition bte_l2cap_free :: "'c lenv \<Rightarrow> nat \<Rightarrow> 'c ldev \<Rightarrow> 'c ldev option" where
  "bte_l2cap_free LE l2cap s =
     do { l \<leftarrow> l2cap_heap s l2cap;
          s \<leftarrow> (case l_acl l of None \<Rightarrow> Some s
                | Some acl \<Rightarrow> do { s \<leftarrow> acl_l2cap_remove_client LE acl l2cap s; bte_acl_unref (le_hci LE) acl s });
          _ \<leftarrow> l2cap_heap s l2cap;
          Some (s\<lparr>l2cap_heap := (l2cap_heap s)(l2cap := None)\<rparr>) }"

definition bte_l2cap_ref :: "nat \<Rightarrow> 'c ldev \<Rightarrow> 'c ldev option" where
  "bte_l2cap_ref = upd_l2cap (\<lambda>l. l\<lparr>l_ref_count := l_ref_count l + 1\<rparr>)"

definition bte_l2cap_unref :: "'c lenv \<Rightarrow> nat \<Rightarrow> 'c ldev \<Rightarrow> 'c ldev option" where
  "bte_l2cap_unref LE l2cap s =
     do { l \<leftarrow> l2cap_heap s l2cap;
          s \<leftarrow> put_l2cap l2cap (l\<lparr>l_ref_count := l_ref_count l - 1\<rparr>) s;
          if l_ref_count l = 1 then bte_l2cap_free LE l2cap s else Some s }"

fun add_client_loop :: "nat \<Rightarrow> nat option list \<Rightarrow> nat option list option" where
  "add_client_loop client [] = None"
| "add_client_loop client (c # cs) =
     (if c = None then Some (Some client # cs) else map_option ((#) c) (add_client_loop client cs))"

text \<open>The result of \<^verbatim>\<open>acl_l2cap_add_client\<close> and the state.\<close>

definition acl_l2cap_add_client :: "nat \<Rightarrow> nat \<Rightarrow> 'c ldev \<Rightarrow> (bool \<times> 'c ldev) option" where
  "acl_l2cap_add_client acl client s =
     do { a \<leftarrow> acl_heap s acl;
          case add_client_loop client (acl_tail a) of None \<Rightarrow> Some (False, s)
          | Some cs \<Rightarrow> do { s \<leftarrow> put_acl acl (a\<lparr>acl_tail := cs\<rparr>) s; Some (True, s) } }"

text \<open>\<open>l2cap\<close> is the address that \<^verbatim>\<open>bte_malloc\<close> returns.\<close>

definition bte_l2cap_new :: "nat \<Rightarrow> 'c ldev \<Rightarrow> 'c ldev" where
  "bte_l2cap_new l2cap s = s\<lparr>l2cap_heap := (l2cap_heap s)(l2cap \<mapsto>
     \<lparr>l_ref_count = 1, l_userdata = 0, l_acl = None, l_psm = 0, remote_channel_id = 0, local_channel_id = 0,
      l_mtu = L2CAP_MTU_DEFAULT, l_remote_mtu = L2CAP_MTU_MIN, expected_response_code = 0,
      expected_response_id = 0, expected_response_count = 0, l_state = BTE_L2CAP_CLOSED, state_changed_cb = None,
      configure_cb = None, configure_req = None, configure_resp = None, message_received_cb = None,
      echo_cb = None, disconnect_cb = None, acl_disconnect_cb = None, cmd_client_cb = None, cmd_userdata = 0\<rparr>)\<rparr>"

section \<open>Frames and signalling commands\<close>

text \<open>The bytes of a header, or \<open>None\<close> when the command or the data is too short.\<close>

definition read_signal_header ::
    "bte_buffer_reader \<Rightarrow> u16 \<Rightarrow> u16 \<Rightarrow> (mem option \<times> bte_buffer_reader) option" where
  "read_signal_header r resp_len needed_len =
     (if resp_len < needed_len then Some (None, r)
      else do { (bs, len, r) \<leftarrow> bte_buffer_reader_read True r needed_len;
                Some (if len \<noteq> needed_len then None else Some bs, r) })"

text \<open>\<open>Some None\<close> is the return of \<^verbatim>\<open>false\<close>; a store through a null pointer is a fault.\<close>

definition acl_l2cap_create_message ::
    "'c lenv \<Rightarrow> nat \<Rightarrow> u16 \<Rightarrow> u16 \<Rightarrow> 'c ldev \<Rightarrow> bte_buffer_writer option option" where
  "acl_l2cap_create_message LE acl sz channel_id s =
     do { let total_size = of_nat L2CAP_HDR_LEN + sz;
          w \<leftarrow> bte_acl_create_message (le_hci LE) acl total_size BTE_ACL_BROADCAST_PTP s;
          case w of None \<Rightarrow> Some None
          | Some w \<Rightarrow> do {
              (ptr, w) \<leftarrow> bte_buffer_writer_ptr_n w (of_nat L2CAP_HDR_LEN);
              off \<leftarrow> ptr;
              w \<leftarrow> writer_poke w off (le_bytes 2 sz @ le_bytes 2 channel_id);
              Some (Some w) } }"

definition acl_l2cap_create_cmd ::
    "'c lenv \<Rightarrow> nat \<Rightarrow> byte \<Rightarrow> byte \<Rightarrow> u16 \<Rightarrow> 'c ldev \<Rightarrow> bte_buffer_writer option option" where
  "acl_l2cap_create_cmd LE acl code ident sz s =
     do { let cmd_size = of_nat L2CAP_SIGNAL_HDR_LEN + sz;
          w \<leftarrow> acl_l2cap_create_message LE acl cmd_size BTE_L2CAP_CHANNEL_ID_SIGNALLING s;
          case w of None \<Rightarrow> Some None
          | Some w \<Rightarrow> do {
              (ptr, w) \<leftarrow> bte_buffer_writer_ptr_n w (of_nat L2CAP_SIGNAL_HDR_LEN);
              off \<leftarrow> ptr;
              w \<leftarrow> writer_poke w off ([code, ident] @ le_bytes 2 sz);
              Some (Some w) } }"

definition acl_l2cap_cmd_reply ::
    "'c lenv \<Rightarrow> nat \<Rightarrow> byte \<Rightarrow> byte \<Rightarrow> mem \<Rightarrow> u16 \<Rightarrow> 'c ldev \<Rightarrow> (bool \<times> 'c ldev) option" where
  "acl_l2cap_cmd_reply LE acl code ident bs len s =
     do { w \<leftarrow> acl_l2cap_create_cmd LE acl code ident len s;
          case w of None \<Rightarrow> Some (False, s)
          | Some w \<Rightarrow> do {
              (_, w) \<leftarrow> bte_buffer_writer_write w bs len;
              c \<leftarrow> bte_buffer_writer_end w;
              (_, s) \<leftarrow> bte_acl_send_message (le_hci LE) c s;
              Some (True, s) } }"

definition acl_l2cap_signal ::
    "'c lenv \<Rightarrow> nat \<Rightarrow> byte \<Rightarrow> mem \<Rightarrow> u16 \<Rightarrow> 'c ldev \<Rightarrow> (chain option \<times> 'c ldev) option" where
  "acl_l2cap_signal LE acl code pl sz s =
     do { let (ident, s) = next_signal_id s;
          w \<leftarrow> acl_l2cap_create_cmd LE acl code ident sz s;
          case w of None \<Rightarrow> Some (None, s)
          | Some w \<Rightarrow> do {
              (ptr, w) \<leftarrow> bte_buffer_writer_ptr_n w sz;
              w \<leftarrow> (if sz = 0 then Some w
                    else do { off \<leftarrow> ptr; bs \<leftarrow> slice pl 0 (unat sz); writer_poke w off bs });
              c \<leftarrow> bte_buffer_writer_end w;
              Some (Some c, s) } }"

definition l2cap_signal ::
    "'c lenv \<Rightarrow> nat \<Rightarrow> byte \<Rightarrow> mem \<Rightarrow> u16 \<Rightarrow> 'c ldev \<Rightarrow> (chain option \<times> 'c ldev) option" where
  "l2cap_signal LE l2cap code pl sz s =
     do { l \<leftarrow> l2cap_heap s l2cap;
          acl \<leftarrow> l_acl l;
          (buffer, s) \<leftarrow> acl_l2cap_signal LE acl code pl sz s;
          s \<leftarrow> (if buffer \<noteq> None
                then upd_l2cap (\<lambda>l. l\<lparr>expected_response_code := code + 1,
                        expected_response_id := s_last_signal_id s,
                        expected_response_count := expected_response_count l + 1\<rparr>) l2cap s
                else Some s);
          Some (buffer, s) }"

definition send_l2cap :: "'c lenv \<Rightarrow> chain \<Rightarrow> 'c ldev \<Rightarrow> (bool \<times> 'c ldev) option" where
  "send_l2cap LE buffer s =
     do { (rc, s) \<leftarrow> bte_acl_send_message (le_hci LE) buffer s; Some (rc \<ge> 0, s) }"

definition l2cap_connection_request :: "'c lenv \<Rightarrow> nat \<Rightarrow> 'c ldev \<Rightarrow> (bool \<times> 'c ldev) option" where
  "l2cap_connection_request LE l2cap s =
     do { l \<leftarrow> l2cap_heap s l2cap;
          if l_state l > BTE_L2CAP_WAIT_CONNECT then Some (True, s)
          else do {
            let (cid, s) = next_local_channel_id s;
            s \<leftarrow> put_l2cap l2cap (l\<lparr>local_channel_id := cid\<rparr>) s;
            (buffer, s) \<leftarrow> l2cap_signal LE l2cap L2CAP_SIGNAL_CONN_REQ (le_bytes 2 (l_psm l) @ le_bytes 2 cid) 4 s;
            case buffer of None \<Rightarrow> Some (False, s)
            | Some c \<Rightarrow> do {
                (ok, s) \<leftarrow> send_l2cap LE c s;
                s \<leftarrow> (if ok then l2cap_set_state LE l2cap BTE_L2CAP_WAIT_CONNECT_RSP s else Some s);
                Some (ok, s) } } }"

definition acl_l2cap_connected_cb :: "'c lenv \<Rightarrow> nat \<Rightarrow> byte \<Rightarrow> 'c ldev \<Rightarrow> 'c ldev option" where
  "acl_l2cap_connected_cb LE l2cap status s =
     do { (ok, s) \<leftarrow> (if status \<noteq> 0 then Some (False, s) else l2cap_connection_request LE l2cap s);
          if ok then Some s
          else do {
            l \<leftarrow> l2cap_heap s l2cap;
            s \<leftarrow> call_l2cap LE (cmd_client_cb l) None
                   (Connect_reply (Some \<lparr>cr_remote_channel_id = 0, cr_local_channel_id = 0,
                      cr_result = BTE_L2CAP_CONN_RESP_RES_ERR_RESOURCE,
                      cr_status = BTE_L2CAP_CONN_RESP_STATUS_NO_INFO\<rparr>)) (l_userdata l) s;
            bte_l2cap_unref LE l2cap s } }"

fun connected_loop :: "'c lenv \<Rightarrow> nat \<Rightarrow> byte \<Rightarrow> nat list \<Rightarrow> 'c ldev \<Rightarrow> 'c ldev option" where
  "connected_loop LE acl status [] s = Some s"
| "connected_loop LE acl status (i # is) s =
     do { a \<leftarrow> acl_heap s acl;
          if i < length (acl_tail a)
          then do { s \<leftarrow> (case acl_tail a ! i of None \<Rightarrow> Some s
                          | Some client \<Rightarrow> acl_l2cap_connected_cb LE client status s);
                    connected_loop LE acl status is s }
          else None }"

definition acl_connected_cb :: "'c lenv \<Rightarrow> nat \<Rightarrow> byte \<Rightarrow> 'c ldev \<Rightarrow> 'c ldev option" where
  "acl_connected_cb LE acl status s =
     do { s \<leftarrow> bte_acl_ref acl s;
          s \<leftarrow> connected_loop LE acl status [0..<BTE_ACL_MAX_CLIENTS] s;
          bte_acl_unref (le_hci LE) acl s }"

definition l2cap_reject_command_invalid_cid ::
    "'c lenv \<Rightarrow> nat \<Rightarrow> byte \<Rightarrow> u16 \<Rightarrow> u16 \<Rightarrow> 'c ldev \<Rightarrow> 'c ldev option" where
  "l2cap_reject_command_invalid_cid LE acl ident channel_id remote_cid s =
     map_option snd (acl_l2cap_cmd_reply LE acl L2CAP_SIGNAL_CMD_REJ ident
       (le_bytes 2 channel_id @ le_bytes 2 remote_cid) 4 s)"

definition l2cap_connection_req_reply ::
    "'c lenv \<Rightarrow> nat \<Rightarrow> byte \<Rightarrow> u16 \<Rightarrow> u16 \<Rightarrow> u16 \<Rightarrow> 'c ldev \<Rightarrow> 'c ldev option" where
  "l2cap_connection_req_reply LE acl ident channel_id remote_cid result s =
     map_option snd (acl_l2cap_cmd_reply LE acl L2CAP_SIGNAL_CONN_RSP ident
       (le_bytes 2 channel_id @ le_bytes 2 remote_cid @ le_bytes 2 result @
        le_bytes 2 BTE_L2CAP_CONN_RESP_STATUS_NO_INFO) 8 s)"

end
