(* ===== verification/L2capSignal.thy ===== *)
theory L2capSignal
  imports L2cap
begin

text \<open>
  The signalling commands that \<^verbatim>\<open>l2cap.c\<close> receives: responses to connection, configuration, echo,
  information and disconnection requests, and the requests themselves; then the callbacks of the ACL
  link. A handler returns the reader too: the next command of a frame is read from where it stands.
\<close>

section \<open>Connection responses\<close>

definition l2cap_connect_cb ::
    "'c lenv \<Rightarrow> nat \<Rightarrow> bte_buffer_reader \<Rightarrow> u16 \<Rightarrow> 'c ldev \<Rightarrow> (bool \<times> bte_buffer_reader \<times> 'c ldev) option" where
  "l2cap_connect_cb LE l2cap r resp_len s =
     do { (hdr, r) \<leftarrow> read_signal_header r resp_len 8;
          case hdr of None \<Rightarrow> Some (False, r, s)
          | Some d \<Rightarrow> do {
              result \<leftarrow> read_le16 d 4;
              (match, reply, s) \<leftarrow>
                (if result > BTE_L2CAP_CONN_RESP_RES_PENDING
                 then do { s \<leftarrow> l2cap_set_state LE l2cap BTE_L2CAP_CLOSED s;
                           Some (True, \<lparr>cr_remote_channel_id = 0, cr_local_channel_id = 0, cr_result = result,
                                        cr_status = BTE_L2CAP_CONN_RESP_STATUS_NO_INFO\<rparr>, s) }
                 else do { remote \<leftarrow> read_le16 d 0;
                           local \<leftarrow> read_le16 d 2;
                           status \<leftarrow> read_le16 d 6;
                           s \<leftarrow> (if result = BTE_L2CAP_CONN_RESP_RES_OK
                                 then l2cap_set_state LE l2cap BTE_L2CAP_WAIT_CONFIG s else Some s);
                           s \<leftarrow> upd_l2cap (\<lambda>l. l\<lparr>remote_channel_id := remote\<rparr>) l2cap s;
                           l \<leftarrow> l2cap_heap s l2cap;
                           Some (local = local_channel_id l, \<lparr>cr_remote_channel_id = remote,
                                 cr_local_channel_id = local, cr_result = result, cr_status = status\<rparr>, s) });
              if \<not> match then Some (False, r, s)
              else do {
                l \<leftarrow> l2cap_heap s l2cap;
                s \<leftarrow> call_l2cap LE (cmd_client_cb l) (if result = BTE_L2CAP_CONN_RESP_RES_OK then Some l2cap else None)
                       (Connect_reply (Some reply)) (l_userdata l) s;
                if result \<noteq> BTE_L2CAP_CONN_RESP_RES_PENDING
                then do { s \<leftarrow> bte_l2cap_unref LE l2cap s; Some (True, r, s) }
                else Some (False, r, s) } } }"

section \<open>Configuration\<close>

text \<open>The validation of the parameters is not written yet.\<close>

definition l2cap_config_validate :: "configure_data \<Rightarrow> configure_data" where
  "l2cap_config_validate conf = conf"

definition l2cap_config_apply :: "nat \<Rightarrow> configure_params \<Rightarrow> bool \<Rightarrow> 'c ldev \<Rightarrow> 'c ldev option" where
  "l2cap_config_apply l2cap params remote s =
     (let m = (if field_mask params AND BTE_L2CAP_CONFIG_MTU \<noteq> 0 then cfg_mtu params else L2CAP_MTU_DEFAULT)
      in upd_l2cap (\<lambda>l. if remote then l\<lparr>l_remote_mtu := m\<rparr> else l\<lparr>l_mtu := m\<rparr>) l2cap s)"

text \<open>
  One packet of \<^verbatim>\<open>l2cap_config_send\<close>: the return value of the send as a \<^verbatim>\<open>bool\<close>, and the first option that
  did not fit. A command that cannot be created leaves the writer uninitialised, and the pointer to its
  data is not checked.
\<close>

definition config_send_packet ::
    "'c lenv \<Rightarrow> nat \<Rightarrow> configure_params \<Rightarrow> byte \<Rightarrow> byte \<Rightarrow> mem \<Rightarrow> byte \<Rightarrow> 'c ldev \<Rightarrow> (bool \<times> byte \<times> 'c ldev) option" where
  "config_send_packet LE l2cap params code msg_id result start_cmd s =
     do { l \<leftarrow> l2cap_heap s l2cap;
          acl \<leftarrow> l_acl l;
          (new_start_cmd, sz, _) \<leftarrow> l2cap_config_write params start_cmd [] None (l_remote_mtu l);
          let flags = (if new_start_cmd > 0 then L2CAP_CONFIG_FLAG_CONTINUATION else 0);
          let header = le_bytes 2 (remote_channel_id l) @ le_bytes 2 flags @ result;
          let cmd_size = of_nat (length header) + sz;
          w \<leftarrow> acl_l2cap_create_cmd LE acl code msg_id cmd_size s;
          w \<leftarrow> w;
          (ptr, w) \<leftarrow> bte_buffer_writer_ptr_n w cmd_size;
          off \<leftarrow> ptr;
          w \<leftarrow> writer_poke w off header;
          w \<leftarrow> (if sz > 0
                then case w_packet w of [] \<Rightarrow> None
                  | p # ps \<Rightarrow> do {
                      (_, _, d) \<leftarrow> l2cap_config_write params start_cmd (data p) (Some (off + length header)) (l_remote_mtu l);
                      Some (w\<lparr>w_packet := p\<lparr>data := d\<rparr> # ps\<rparr>) }
                else Some w);
          c \<leftarrow> bte_buffer_writer_end w;
          (rc, s) \<leftarrow> bte_acl_send_message (le_hci LE) c s;
          Some (rc \<noteq> 0, new_start_cmd, s) }"

text \<open>The loop that sends the packets of a request, and the one packet of a response.\<close>

partial_function (option) config_send_loop ::
    "'c lenv \<Rightarrow> nat \<Rightarrow> configure_data \<Rightarrow> byte \<Rightarrow> byte \<Rightarrow> mem \<Rightarrow> byte \<Rightarrow> 'c ldev
     \<Rightarrow> (bool \<times> configure_data \<times> 'c ldev) option" where
  "config_send_loop LE l2cap conf code msg_id result start_cmd s =
     do { (ok, new_start_cmd, s) \<leftarrow> config_send_packet LE l2cap (cd_params conf) code msg_id result start_cmd s;
          if \<not> ok then Some (False, conf, s)
          else if code = L2CAP_SIGNAL_CONFIG_REQ
          then do {
            s \<leftarrow> upd_l2cap (\<lambda>l. l\<lparr>expected_response_code := L2CAP_SIGNAL_CONFIG_RSP,
                    expected_response_count := expected_response_count l + 1\<rparr>) l2cap s;
            let (msg_id, s) = (if new_start_cmd > 0 then next_signal_id s else (msg_id, s));
            s \<leftarrow> upd_l2cap (\<lambda>l. l\<lparr>expected_response_id := s_last_signal_id s\<rparr>) l2cap s;
            if new_start_cmd > 0 then config_send_loop LE l2cap conf code msg_id result new_start_cmd s
            else Some (True, conf, s) }
          else if new_start_cmd > 0
          then Some (True, conf\<lparr>cd_has_pending_packets := True, cd_start_cmd := new_start_cmd\<rparr>, s)
          else Some (True, conf, s) }"

text \<open>
  \<^verbatim>\<open>l2cap_config_send\<close> with the configuration as a value: what it changes of it is in the result.
\<close>

definition l2cap_config_send ::
    "'c lenv \<Rightarrow> nat \<Rightarrow> configure_data \<Rightarrow> byte \<Rightarrow> 'c ldev \<Rightarrow> (bool \<times> configure_data \<times> 'c ldev) option" where
  "l2cap_config_send LE l2cap conf msg_id s =
     do { let rsp = (msg_id \<noteq> 0);
          let result = (if cd_rejected_mask conf \<noteq> 0 then L2CAP_CONFIG_RES_ERR_REJ else L2CAP_CONFIG_RES_OK);
          let start_cmd = (if rsp \<and> cd_has_pending_packets conf then cd_start_cmd conf else 0);
          let conf = (if rsp then conf\<lparr>cd_has_pending_packets := False\<rparr> else conf);
          let (msg_id, s) = (if rsp then (msg_id, s) else next_signal_id s);
          (ok, conf, s) \<leftarrow> config_send_loop LE l2cap conf (if rsp then L2CAP_SIGNAL_CONFIG_RSP else L2CAP_SIGNAL_CONFIG_REQ)
                             msg_id (if rsp then le_bytes 2 result else []) start_cmd s;
          l \<leftarrow> l2cap_heap s l2cap;
          s \<leftarrow> (if cd_has_pending_packets conf then Some s
                else if \<not> rsp then
                  (if l_state l = BTE_L2CAP_WAIT_CONFIG \<or> l_state l = BTE_L2CAP_OPEN
                   then l2cap_set_state LE l2cap BTE_L2CAP_WAIT_CONFIG_REQ_RSP s
                   else if l_state l = BTE_L2CAP_WAIT_SEND_CONFIG
                   then l2cap_set_state LE l2cap BTE_L2CAP_WAIT_CONFIG_RSP s
                   else Some s)
                else if result = L2CAP_CONFIG_RES_OK then
                  (if l_state l = BTE_L2CAP_WAIT_CONFIG
                   then l2cap_set_state LE l2cap BTE_L2CAP_WAIT_SEND_CONFIG s
                   else if l_state l = BTE_L2CAP_WAIT_CONFIG_REQ_RSP
                   then l2cap_set_state LE l2cap BTE_L2CAP_WAIT_CONFIG_RSP s
                   else if l_state l = BTE_L2CAP_WAIT_CONFIG_REQ
                   then l2cap_set_state LE l2cap BTE_L2CAP_OPEN s
                   else Some s)
                else Some s);
          Some (ok, conf, s) }"

text \<open>
  The configuration of an incoming request is kept in \<^verbatim>\<open>l2cap->configure_req\<close>. After a send the two
  fields that it changes are stored there.
\<close>

definition config_send_req :: "'c lenv \<Rightarrow> nat \<Rightarrow> byte \<Rightarrow> 'c ldev \<Rightarrow> (bool \<times> 'c ldev) option" where
  "config_send_req LE l2cap msg_id s =
     do { l \<leftarrow> l2cap_heap s l2cap;
          conf \<leftarrow> configure_req l;
          (ok, conf', s) \<leftarrow> l2cap_config_send LE l2cap conf msg_id s;
          s \<leftarrow> upd_l2cap (\<lambda>l. l\<lparr>configure_req := map_option (\<lambda>c. c\<lparr>cd_has_pending_packets := cd_has_pending_packets conf',
                  cd_start_cmd := cd_start_cmd conf'\<rparr>) (configure_req l)\<rparr>) l2cap s;
          Some (ok, s) }"

definition l2cap_config_send_resp_packet :: "'c lenv \<Rightarrow> nat \<Rightarrow> byte \<Rightarrow> 'c ldev \<Rightarrow> (bool \<times> 'c ldev) option" where
  "l2cap_config_send_resp_packet LE l2cap msg_id s =
     do { (ok, s) \<leftarrow> config_send_req LE l2cap msg_id s;
          l \<leftarrow> l2cap_heap s l2cap;
          conf \<leftarrow> configure_req l;
          s \<leftarrow> (if cd_has_pending_packets conf then Some s else put_l2cap l2cap (l\<lparr>configure_req := None\<rparr>) s);
          Some (ok, s) }"

text \<open>
  The parameters of a response are parsed into \<^verbatim>\<open>l2cap->configure_resp\<close>, which must not point to a
  variable of a call that has returned.
\<close>

definition config_resp_parse ::
    "bte_buffer_reader \<Rightarrow> u16 \<Rightarrow> u16 \<Rightarrow> configure_data \<Rightarrow> (bte_buffer_reader \<times> configure_data) option" where
  "config_resp_parse r len result conf =
     (if result = L2CAP_CONFIG_RES_ERR_PARAMS then
        do { let saved_mask = field_mask (cd_params conf);
             (_, r, params, _) \<leftarrow> l2cap_config_parse r ((cd_params conf)\<lparr>field_mask := cd_rejected_mask conf\<rparr>) len None;
             Some (r, conf\<lparr>cd_rejected_mask := field_mask params,
                           cd_params := params\<lparr>field_mask := field_mask params OR saved_mask\<rparr>\<rparr>) }
      else if result = L2CAP_CONFIG_RES_ERR_UNKNOWN then
        do { (_, r, params, _) \<leftarrow> l2cap_config_parse r zero_params len None;
             Some (r, conf\<lparr>cd_unknown_mask := field_mask params\<rparr>) }
      else if result = L2CAP_CONFIG_RES_OK then
        do { (_, r, params, _) \<leftarrow> l2cap_config_parse r (cd_params conf) len None;
             Some (r, conf\<lparr>cd_params := params\<rparr>) }
      else Some (r, conf))"

definition l2cap_handle_config_resp ::
    "'c lenv \<Rightarrow> nat \<Rightarrow> bte_buffer_reader \<Rightarrow> u16 \<Rightarrow> 'c ldev \<Rightarrow> (bool \<times> bte_buffer_reader \<times> 'c ldev) option" where
  "l2cap_handle_config_resp LE l2cap r resp_len s =
     do { (hdr, r) \<leftarrow> read_signal_header r resp_len 6;
          case hdr of None \<Rightarrow> Some (False, r, s)
          | Some header \<Rightarrow> do {
              flags \<leftarrow> read_le16 header 2;
              l \<leftarrow> l2cap_heap s l2cap;
              (on_stack, conf) \<leftarrow>
                (case configure_resp l of
                   None \<Rightarrow> Some (flags AND L2CAP_CONFIG_FLAG_CONTINUATION = 0, zero_conf)
                 | Some (True, _) \<Rightarrow> None
                 | Some (False, conf) \<Rightarrow> Some (False, conf));
              result \<leftarrow> read_le16 header 4;
              (r, conf) \<leftarrow> config_resp_parse r (resp_len - 6) result conf;
              s \<leftarrow> put_l2cap l2cap (l\<lparr>configure_resp := Some (on_stack, conf)\<rparr>) s;
              if flags = 0 then
                do {
                  s \<leftarrow> (if result = L2CAP_CONFIG_RES_OK then l2cap_config_apply l2cap (cd_params conf) False s
                        else if l_state l = BTE_L2CAP_WAIT_CONFIG_RSP
                        then l2cap_set_state LE l2cap BTE_L2CAP_WAIT_SEND_CONFIG s
                        else if l_state l = BTE_L2CAP_WAIT_CONFIG_REQ_RSP
                        then l2cap_set_state LE l2cap BTE_L2CAP_WAIT_CONFIG s
                        else Some s);
                  l \<leftarrow> l2cap_heap s l2cap;
                  s \<leftarrow> call_l2cap LE (cmd_client_cb l) (Some l2cap)
                         (Configure_reply \<lparr>cy_rejected_mask = cd_rejected_mask conf,
                            cy_unknown_mask = cd_unknown_mask conf, cy_params = cd_params conf\<rparr>) (cmd_userdata l) s;
                  s \<leftarrow> upd_l2cap (\<lambda>l. l\<lparr>configure_resp := None\<rparr>) l2cap s;
                  l \<leftarrow> l2cap_heap s l2cap;
                  s \<leftarrow> (if result \<noteq> L2CAP_CONFIG_RES_OK then Some s
                        else if l_state l = BTE_L2CAP_WAIT_CONFIG_RSP then l2cap_set_state LE l2cap BTE_L2CAP_OPEN s
                        else if l_state l = BTE_L2CAP_WAIT_CONFIG_REQ_RSP
                        then l2cap_set_state LE l2cap BTE_L2CAP_WAIT_CONFIG_REQ s
                        else Some s);
                  Some (True, r, s) }
              else if expected_response_count l = 1 then
                do { (_, _, s) \<leftarrow> l2cap_config_send LE l2cap zero_conf 0 s; Some (True, r, s) }
              else Some (True, r, s) } }"

text \<open>
  The copy of an unknown option in \<^verbatim>\<open>l2cap_configure_reply_type_error\<close>. Every round reads
  \<^verbatim>\<open>MIN(param_size, 32)\<close> bytes into the 32 bytes of \<^verbatim>\<open>buffer\<close> and writes as many bytes of it: after a short read
  these are what the memory of \<^verbatim>\<open>buffer\<close> held before. The counter has eight bits.
\<close>

definition copy_param_round ::
    "byte \<Rightarrow> byte \<times> mem \<times> bte_buffer_reader \<times> bte_buffer_writer \<Rightarrow> (byte \<times> mem \<times> bte_buffer_reader \<times> bte_buffer_writer) option" where
  "copy_param_round param_size = (\<lambda>(param_read, buffer, r, w).
     do { let len = (if param_size < 32 then param_size else 32);
          (bs, _, r) \<leftarrow> bte_buffer_reader_read True r (ucast len);
          let buffer = bs @ drop (length bs) buffer;
          (_, w) \<leftarrow> bte_buffer_writer_write w buffer (ucast len);
          Some (param_read + len, buffer, r, w) })"

partial_function (option) copy_param_loop ::
    "byte \<Rightarrow> byte \<times> mem \<times> bte_buffer_reader \<times> bte_buffer_writer \<Rightarrow> (mem \<times> bte_buffer_reader \<times> bte_buffer_writer) option" where
  "copy_param_loop param_size x =
     (if fst x < param_size then do { x \<leftarrow> copy_param_round param_size x; copy_param_loop param_size x }
      else Some (snd x))"

text \<open>
  The outer loop. Its \<^verbatim>\<open>header\<close> and \<^verbatim>\<open>buffer\<close> live in the body of the loop and keep their places from one round to the
  next; the reads are not checked.
\<close>

partial_function (option) type_error_loop ::
    "u16 \<Rightarrow> u16 \<Rightarrow> mem \<Rightarrow> mem \<Rightarrow> bte_buffer_reader \<Rightarrow> bte_buffer_writer \<Rightarrow> bte_buffer_writer option" where
  "type_error_loop cmd_size read header buffer r w =
     (if read < cmd_size then
        do { (bs, _, r) \<leftarrow> bte_buffer_reader_read True r 2;
             let header = bs @ drop (length bs) header;
             type \<leftarrow> rd8 header 0;
             param_size \<leftarrow> rd8 header 1;
             (buffer, r, w) \<leftarrow> (if \<not> l2cap_configure_type_is_known type
                        then do { (_, w) \<leftarrow> bte_buffer_writer_write w header 2; copy_param_loop param_size (0, buffer, r, w) }
                        else do { (_, r) \<leftarrow> bte_buffer_reader_advance r (ucast param_size); Some (buffer, r, w) });
             type_error_loop cmd_size (read + 2 + ucast param_size) header buffer r w }
      else Some w)"

text \<open>
  The function up to its loop: the header of the request is read again and the header of the reply written. What
  the loop then finds in its variables is the memory of the stack.
\<close>

definition type_error_start ::
    "'c lenv \<Rightarrow> nat \<Rightarrow> byte \<Rightarrow> bte_buffer_reader \<Rightarrow> u16 \<Rightarrow> 'c ldev \<Rightarrow> (bte_buffer_reader \<times> bte_buffer_writer) option" where
  "type_error_start LE l2cap ident r reply_size s =
     do { (header, _, r) \<leftarrow> bte_buffer_reader_read True r 4;
          flags \<leftarrow> read_le16 header 2;
          l \<leftarrow> l2cap_heap s l2cap;
          acl \<leftarrow> l_acl l;
          w \<leftarrow> acl_l2cap_create_cmd LE acl L2CAP_SIGNAL_CONFIG_RSP ident (of_nat L2CAP_CONFIG_RSP_HDR_LEN + reply_size) s;
          w \<leftarrow> w;
          (ptr, w) \<leftarrow> bte_buffer_writer_ptr_n w (of_nat L2CAP_CONFIG_RSP_HDR_LEN);
          off \<leftarrow> ptr;
          w \<leftarrow> writer_poke w off (le_bytes 2 (remote_channel_id l) @ le_bytes 2 flags @ le_bytes 2 L2CAP_CONFIG_RES_ERR_UNKNOWN);
          Some (r, w) }"

definition stack_bytes :: "'c lenv \<Rightarrow> nat \<Rightarrow> nat \<Rightarrow> 'c ldev \<Rightarrow> mem" where
  "stack_bytes LE i n s = map (env_fresh (le_hci LE) s) [i..<i + n]"

definition l2cap_configure_reply_type_error ::
    "'c lenv \<Rightarrow> nat \<Rightarrow> byte \<Rightarrow> bte_buffer_reader \<Rightarrow> u16 \<Rightarrow> u16 \<Rightarrow> 'c ldev \<Rightarrow> 'c ldev option" where
  "l2cap_configure_reply_type_error LE l2cap ident r req_len reply_size s =
     do { (r, w) \<leftarrow> type_error_start LE l2cap ident r reply_size s;
          w \<leftarrow> type_error_loop (req_len - 4) 0 (stack_bytes LE 0 2 s) (stack_bytes LE 2 32 s) r w;
          c \<leftarrow> bte_buffer_writer_end w;
          (_, s) \<leftarrow> bte_acl_send_message (le_hci LE) c s;
          Some s }"

section \<open>Requests\<close>

definition acl_l2cap_handle_connection_req ::
    "'c lenv \<Rightarrow> nat \<Rightarrow> byte \<Rightarrow> bte_buffer_reader \<Rightarrow> u16 \<Rightarrow> 'c ldev \<Rightarrow> (bool \<times> bte_buffer_reader \<times> 'c ldev) option" where
  "acl_l2cap_handle_connection_req LE acl ident r req_len s =
     do { (hdr, r) \<leftarrow> read_signal_header r req_len 4;
          case hdr of None \<Rightarrow> Some (False, r, s)
          | Some header \<Rightarrow> do {
              psm \<leftarrow> read_le16 header 0;
              channel_id \<leftarrow> read_le16 header 2;
              s \<leftarrow> bte_acl_ref acl s;
              (l2cap, s) \<leftarrow> (case handle_connection_req s of None \<Rightarrow> Some (None, s)
                             | Some h \<Rightarrow> le_connection_req LE h acl psm channel_id s);
              s \<leftarrow> (case l2cap of
                      None \<Rightarrow> l2cap_connection_req_reply LE acl ident BTE_L2CAP_CHANNEL_ID_NULL channel_id
                                BTE_L2CAP_CONN_RESP_RES_ERR_PSM s
                    | Some p \<Rightarrow> do {
                        l \<leftarrow> l2cap_heap s p;
                        s \<leftarrow> l2cap_connection_req_reply LE acl ident (local_channel_id l) channel_id
                               BTE_L2CAP_CONN_RESP_RES_OK s;
                        l2cap_set_state LE p BTE_L2CAP_WAIT_CONFIG s });
              s \<leftarrow> bte_acl_unref (le_hci LE) acl s;
              Some (True, r, s) } }"

text \<open>
  The end of \<^verbatim>\<open>acl_l2cap_handle_configure_req\<close>: a configuration that is not complete is kept (moved to the
  heap when it was a local variable), otherwise it is dropped.
\<close>

definition configure_req_end :: "'c lenv \<Rightarrow> nat \<Rightarrow> u16 \<Rightarrow> 'c ldev \<Rightarrow> 'c ldev option" where
  "configure_req_end LE l2cap flags s =
     do { l \<leftarrow> l2cap_heap s l2cap;
          conf \<leftarrow> configure_req l;
          s \<leftarrow> (if \<not> cd_has_pending_packets conf \<and> flags AND L2CAP_CONFIG_FLAG_CONTINUATION = 0
                then put_l2cap l2cap (l\<lparr>configure_req := None\<rparr>) s else Some s);
          bte_l2cap_unref LE l2cap s }"

text \<open>The parameters are complete: ask the client, apply them and answer.\<close>

definition configure_req_complete :: "'c lenv \<Rightarrow> nat \<Rightarrow> byte \<Rightarrow> 'c ldev \<Rightarrow> 'c ldev option" where
  "configure_req_complete LE l2cap ident s =
     do { l \<leftarrow> l2cap_heap s l2cap;
          conf \<leftarrow> configure_req l;
          s \<leftarrow> (if configure_cb l \<noteq> None
                then call_l2cap LE (configure_cb l) (Some l2cap) (On_configure (cd_params conf)) (l_userdata l) s
                else Some s);
          l \<leftarrow> l2cap_heap s l2cap;
          conf \<leftarrow> configure_req l;
          let conf = l2cap_config_validate conf;
          s \<leftarrow> (if cd_rejected_mask conf = 0
                then do { s \<leftarrow> l2cap_config_apply l2cap (cd_params conf) True s;
                          l \<leftarrow> l2cap_heap s l2cap;
                          let params = cd_params conf;
                          let params = (if field_mask params AND BTE_L2CAP_CONFIG_MTU = 0
                                        then params\<lparr>cfg_mtu := l_remote_mtu l,
                                               field_mask := field_mask params OR BTE_L2CAP_CONFIG_MTU\<rparr>
                                        else params);
                          put_l2cap l2cap (l\<lparr>configure_req := Some (conf\<lparr>cd_params := params\<rparr>)\<rparr>) s }
                else put_l2cap l2cap (l\<lparr>configure_req := Some conf\<rparr>) s);
          (_, s) \<leftarrow> config_send_req LE l2cap ident s;
          Some s }"

definition acl_l2cap_handle_configure_req ::
    "'c lenv \<Rightarrow> nat \<Rightarrow> byte \<Rightarrow> bte_buffer_reader \<Rightarrow> u16 \<Rightarrow> 'c ldev \<Rightarrow> (bool \<times> bte_buffer_reader \<times> 'c ldev) option" where
  "acl_l2cap_handle_configure_req LE acl ident r req_len s =
     do { let reader_copy = r;
          (hdr, r) \<leftarrow> read_signal_header r req_len 4;
          case hdr of None \<Rightarrow> Some (False, r, s)
          | Some header \<Rightarrow> do {
              channel_id \<leftarrow> read_le16 header 0;
              flags \<leftarrow> read_le16 header 2;
              found \<leftarrow> l2cap_for_local_channel acl channel_id s;
              st \<leftarrow> (case found of None \<Rightarrow> Some None | Some p \<Rightarrow> map_option (Some \<circ> l_state) (l2cap_heap s p));
              if found = None \<or> st \<notin> {Some BTE_L2CAP_WAIT_CONFIG, Some BTE_L2CAP_WAIT_CONFIG_REQ,
                                        Some BTE_L2CAP_WAIT_CONFIG_REQ_RSP, Some BTE_L2CAP_OPEN}
              then do { s \<leftarrow> l2cap_reject_command_invalid_cid LE acl ident channel_id BTE_L2CAP_CHANNEL_ID_NULL s;
                        Some (True, r, s) }
              else do {
                l2cap \<leftarrow> found;
                l \<leftarrow> l2cap_heap s l2cap;
                let conf = (case configure_req l of None \<Rightarrow> zero_conf | Some c \<Rightarrow> c);
                s \<leftarrow> put_l2cap l2cap (l\<lparr>configure_req := Some conf\<rparr>) s;
                s \<leftarrow> bte_l2cap_ref l2cap s;
                if cd_has_pending_packets conf
                then do { (_, s) \<leftarrow> l2cap_config_send_resp_packet LE l2cap ident s;
                          s \<leftarrow> bte_l2cap_unref LE l2cap s;
                          Some (True, r, s) }
                else do {
                  (rc, r, params, unknown_size) \<leftarrow> l2cap_config_parse r (cd_params conf) (req_len - 4) (Some 0);
                  unknown_param_size \<leftarrow> unknown_size;
                  s \<leftarrow> upd_l2cap (\<lambda>l. l\<lparr>configure_req := Some (conf\<lparr>cd_params := params\<rparr>)\<rparr>) l2cap s;
                  s \<leftarrow> (if rc = L2CAP_CONFIG_PARSE_ERR_TYPE
                        then l2cap_configure_reply_type_error LE l2cap ident reader_copy req_len unknown_param_size s
                        else if rc = L2CAP_CONFIG_PARSE_ERR_CORRUPTED then Some s
                        else if flags AND L2CAP_CONFIG_FLAG_CONTINUATION \<noteq> 0
                        then map_option snd (acl_l2cap_cmd_reply LE acl L2CAP_SIGNAL_CONFIG_RSP ident
                               (le_bytes 2 (remote_channel_id l) @ le_bytes 2 L2CAP_CONFIG_FLAG_CONTINUATION @
                                le_bytes 2 L2CAP_CONFIG_RES_OK) 6 s)
                        else configure_req_complete LE l2cap ident s);
                  s \<leftarrow> configure_req_end LE l2cap flags s;
                  Some (True, r, s) } } } }"

text \<open>The weak definition, used when \<^verbatim>\<open>l2cap_echo.c\<close> is not linked.\<close>

definition acl_l2cap_handle_echo_req_default ::
    "'c lenv \<Rightarrow> nat \<Rightarrow> byte \<Rightarrow> bte_buffer_reader \<Rightarrow> u16 \<Rightarrow> 'c ldev \<Rightarrow> (bool \<times> bte_buffer_reader \<times> 'c ldev) option" where
  "acl_l2cap_handle_echo_req_default LE acl ident r req_len s =
     do { (ok, s) \<leftarrow> acl_l2cap_cmd_reply LE acl L2CAP_SIGNAL_ECHO_RSP ident [] 0 s; Some (ok, r, s) }"

definition acl_l2cap_handle_info_req ::
    "'c lenv \<Rightarrow> nat \<Rightarrow> byte \<Rightarrow> bte_buffer_reader \<Rightarrow> u16 \<Rightarrow> 'c ldev \<Rightarrow> (bool \<times> bte_buffer_reader \<times> 'c ldev) option" where
  "acl_l2cap_handle_info_req LE acl ident r req_len s =
     do { (hdr, r) \<leftarrow> read_signal_header r req_len 2;
          case hdr of None \<Rightarrow> Some (False, r, s)
          | Some header \<Rightarrow> do {
              type \<leftarrow> read_le16 header 0;
              let (result, value) =
                (if type = BTE_L2CAP_INFO_TYPE_MTU then (BTE_L2CAP_INFO_RESP_RES_OK, le_bytes 2 (48 :: u16))
                 else if type = BTE_L2CAP_INFO_TYPE_EXT_FEATURES then (BTE_L2CAP_INFO_RESP_RES_OK, le_bytes 4 (0 :: u32))
                 else if type = BTE_L2CAP_INFO_TYPE_FIXED_CHANNELS then (BTE_L2CAP_INFO_RESP_RES_OK, le_bytes 8 (2 :: u64))
                 else (BTE_L2CAP_INFO_RESP_RES_UNSUPPORTED, []));
              (ok, s) \<leftarrow> acl_l2cap_cmd_reply LE acl L2CAP_SIGNAL_INFO_RSP ident
                           (le_bytes 2 type @ le_bytes 2 result @ value) (4 + of_nat (length value)) s;
              Some (ok, r, s) } }"

definition l2cap_send_disconnect_req :: "'c lenv \<Rightarrow> nat \<Rightarrow> 'c ldev \<Rightarrow> (bool \<times> 'c ldev) option" where
  "l2cap_send_disconnect_req LE l2cap s =
     do { l \<leftarrow> l2cap_heap s l2cap;
          (buffer, s) \<leftarrow> l2cap_signal LE l2cap L2CAP_SIGNAL_DISCONN_REQ
                           (le_bytes 2 (remote_channel_id l) @ le_bytes 2 (local_channel_id l)) 4 s;
          case buffer of None \<Rightarrow> Some (False, s)
          | Some c \<Rightarrow> do {
              (ok, s) \<leftarrow> send_l2cap LE c s;
              s \<leftarrow> (if ok then l2cap_set_state LE l2cap BTE_L2CAP_WAIT_DISCONNECT s else Some s);
              Some (ok, s) } }"

definition call_disconnect :: "'c lenv \<Rightarrow> nat \<Rightarrow> byte \<Rightarrow> 'c ldev \<Rightarrow> 'c ldev option" where
  "call_disconnect LE l2cap reason s =
     do { l \<leftarrow> l2cap_heap s l2cap;
          if disconnect_cb l \<noteq> None
          then call_l2cap LE (disconnect_cb l) (Some l2cap) (Disconnected reason) (l_userdata l) s
          else Some s }"

definition l2cap_handle_disconnect_resp ::
    "'c lenv \<Rightarrow> nat \<Rightarrow> bte_buffer_reader \<Rightarrow> u16 \<Rightarrow> 'c ldev \<Rightarrow> (bool \<times> bte_buffer_reader \<times> 'c ldev) option" where
  "l2cap_handle_disconnect_resp LE l2cap r resp_len s =
     do { (hdr, r) \<leftarrow> read_signal_header r resp_len 4;
          case hdr of None \<Rightarrow> Some (False, r, s)
          | Some header \<Rightarrow> do {
              dest_cid \<leftarrow> read_le16 header 0;
              source_cid \<leftarrow> read_le16 header 2;
              l \<leftarrow> l2cap_heap s l2cap;
              if dest_cid \<noteq> remote_channel_id l \<or> source_cid \<noteq> local_channel_id l then Some (False, r, s)
              else do {
                s \<leftarrow> l2cap_set_state LE l2cap BTE_L2CAP_CLOSED s;
                s \<leftarrow> call_disconnect LE l2cap BTE_HCI_CONN_TERMINATED_BY_LOCAL_HOST s;
                Some (True, r, s) } } }"

definition l2cap_send_disconnect_resp :: "'c lenv \<Rightarrow> nat \<Rightarrow> byte \<Rightarrow> 'c ldev \<Rightarrow> (bool \<times> 'c ldev) option" where
  "l2cap_send_disconnect_resp LE l2cap ident s =
     do { l \<leftarrow> l2cap_heap s l2cap;
          acl \<leftarrow> l_acl l;
          acl_l2cap_cmd_reply LE acl L2CAP_SIGNAL_DISCONN_RSP ident
            (le_bytes 2 (local_channel_id l) @ le_bytes 2 (remote_channel_id l)) 4 s }"

definition acl_l2cap_handle_disconnect_req ::
    "'c lenv \<Rightarrow> nat \<Rightarrow> byte \<Rightarrow> bte_buffer_reader \<Rightarrow> u16 \<Rightarrow> 'c ldev \<Rightarrow> (bool \<times> bte_buffer_reader \<times> 'c ldev) option" where
  "acl_l2cap_handle_disconnect_req LE acl ident r req_len s =
     do { (hdr, r) \<leftarrow> read_signal_header r req_len 4;
          case hdr of None \<Rightarrow> Some (False, r, s)
          | Some header \<Rightarrow> do {
              dest_cid \<leftarrow> read_le16 header 0;
              source_cid \<leftarrow> read_le16 header 2;
              found \<leftarrow> l2cap_for_local_channel acl dest_cid s;
              case found of
                None \<Rightarrow> do { s \<leftarrow> l2cap_reject_command_invalid_cid LE acl ident dest_cid source_cid s;
                             Some (True, r, s) }
              | Some l2cap \<Rightarrow> do {
                  (_, s) \<leftarrow> l2cap_send_disconnect_resp LE l2cap ident s;
                  s \<leftarrow> l2cap_set_state LE l2cap BTE_L2CAP_CLOSED s;
                  s \<leftarrow> call_disconnect LE l2cap BTE_HCI_OTHER_END_CLOSED_CONN_USER s;
                  Some (True, r, s) } } }"

definition acl_l2cap_handle_request ::
    "'c lenv \<Rightarrow> nat \<Rightarrow> byte \<Rightarrow> byte \<Rightarrow> bte_buffer_reader \<Rightarrow> u16 \<Rightarrow> 'c ldev \<Rightarrow> (bool \<times> bte_buffer_reader \<times> 'c ldev) option" where
  "acl_l2cap_handle_request LE acl code ident r req_len s =
     (if code = L2CAP_SIGNAL_CONN_REQ then acl_l2cap_handle_connection_req LE acl ident r req_len s
      else if code = L2CAP_SIGNAL_CONFIG_REQ then acl_l2cap_handle_configure_req LE acl ident r req_len s
      else if code = L2CAP_SIGNAL_ECHO_REQ then le_echo_req LE acl ident r req_len s
      else if code = L2CAP_SIGNAL_INFO_REQ then acl_l2cap_handle_info_req LE acl ident r req_len s
      else if code = L2CAP_SIGNAL_DISCONN_REQ then acl_l2cap_handle_disconnect_req LE acl ident r req_len s
      else Some (False, r, s))"

section \<open>Responses\<close>

definition l2cap_handle_echo_resp ::
    "'c lenv \<Rightarrow> nat \<Rightarrow> bte_buffer_reader \<Rightarrow> u16 \<Rightarrow> 'c ldev \<Rightarrow> (bool \<times> bte_buffer_reader \<times> 'c ldev) option" where
  "l2cap_handle_echo_resp LE l2cap r resp_len s =
     do { l \<leftarrow> l2cap_heap s l2cap;
          cb \<leftarrow> cmd_client_cb l;
          (r, s) \<leftarrow> le_echo LE cb l2cap r (cmd_userdata l) s;
          Some (True, r, s) }"

text \<open>The variables that are read into are cleared first: a short read gives zero bytes.\<close>

definition l2cap_handle_info_resp ::
    "'c lenv \<Rightarrow> nat \<Rightarrow> bte_buffer_reader \<Rightarrow> u16 \<Rightarrow> 'c ldev \<Rightarrow> (bool \<times> bte_buffer_reader \<times> 'c ldev) option" where
  "l2cap_handle_info_resp LE l2cap r resp_len s =
     do { (hdr, r) \<leftarrow> read_signal_header r resp_len 4;
          case hdr of None \<Rightarrow> Some (False, r, s)
          | Some header \<Rightarrow> do {
              type \<leftarrow> read_le16 header 0;
              result \<leftarrow> read_le16 header 2;
              (value, r) \<leftarrow>
                (if result \<noteq> BTE_L2CAP_INFO_RESP_RES_OK then Some (No_info, r)
                 else if type = BTE_L2CAP_INFO_TYPE_MTU
                 then do { (bs, _, r) \<leftarrow> bte_buffer_reader_read True r 2; Some (Connectionless_mtu (le_val bs), r) }
                 else if type = BTE_L2CAP_INFO_TYPE_EXT_FEATURES
                 then do { (bs, _, r) \<leftarrow> bte_buffer_reader_read True r 4; Some (Ext_feature_mask (le_val bs), r) }
                 else if type = BTE_L2CAP_INFO_TYPE_FIXED_CHANNELS
                 then do { (bs, _, r) \<leftarrow> bte_buffer_reader_read True r 8; Some (Fixed_channels_mask (le_val bs), r) }
                 else Some (No_info, r));
              l \<leftarrow> l2cap_heap s l2cap;
              s \<leftarrow> call_l2cap LE (cmd_client_cb l) (Some l2cap)
                     (Info_reply \<lparr>li_type = type, li_result = result, li_value = value\<rparr>) (cmd_userdata l) s;
              Some (True, r, s) } }"

definition l2cap_handle_response ::
    "'c lenv \<Rightarrow> nat \<Rightarrow> byte \<Rightarrow> bte_buffer_reader \<Rightarrow> u16 \<Rightarrow> 'c ldev \<Rightarrow> (bool \<times> bte_buffer_reader \<times> 'c ldev) option" where
  "l2cap_handle_response LE l2cap code r resp_len s =
     do { l \<leftarrow> l2cap_heap s l2cap;
          if code = L2CAP_SIGNAL_CONN_RSP then
            (if l_state l = BTE_L2CAP_WAIT_CONNECT_RSP then l2cap_connect_cb LE l2cap r resp_len s else Some (False, r, s))
          else if code = L2CAP_SIGNAL_CONFIG_RSP then
            (if l_state l = BTE_L2CAP_WAIT_CONFIG_RSP \<or> l_state l = BTE_L2CAP_WAIT_CONFIG_REQ_RSP
             then l2cap_handle_config_resp LE l2cap r resp_len s else Some (False, r, s))
          else if code = L2CAP_SIGNAL_ECHO_RSP then l2cap_handle_echo_resp LE l2cap r resp_len s
          else if code = L2CAP_SIGNAL_INFO_RSP then l2cap_handle_info_resp LE l2cap r resp_len s
          else if code = L2CAP_SIGNAL_DISCONN_RSP then
            (if l_state l = BTE_L2CAP_WAIT_DISCONNECT then l2cap_handle_disconnect_resp LE l2cap r resp_len s
             else Some (False, r, s))
          else Some (False, r, s) }"

text \<open>The first channel that waits for this response handles it.\<close>

fun response_loop ::
    "(nat \<Rightarrow> bte_l2cap option) \<Rightarrow> byte \<Rightarrow> byte \<Rightarrow> nat option list \<Rightarrow> nat option option" where
  "response_loop heap code ident [] = Some None"
| "response_loop heap code ident (None # cs) = response_loop heap code ident cs"
| "response_loop heap code ident (Some p # cs) =
     do { l \<leftarrow> heap p;
          if expected_response_count l \<noteq> 0 \<and> ident = expected_response_id l \<and>
             (code = expected_response_code l \<or> code = L2CAP_SIGNAL_CMD_REJ)
          then Some (Some p) else response_loop heap code ident cs }"

definition acl_l2cap_handle_response ::
    "'c lenv \<Rightarrow> nat \<Rightarrow> byte \<Rightarrow> byte \<Rightarrow> bte_buffer_reader \<Rightarrow> u16 \<Rightarrow> 'c ldev \<Rightarrow> (bool \<times> bte_buffer_reader \<times> 'c ldev) option" where
  "acl_l2cap_handle_response LE acl code ident r cmd_len s =
     do { a \<leftarrow> acl_heap s acl;
          found \<leftarrow> response_loop (l2cap_heap s) code ident (acl_tail a);
          case found of
            None \<Rightarrow> do { (n, r) \<leftarrow> bte_buffer_reader_advance r cmd_len; Some (n = cmd_len, r, s) }
          | Some l2cap \<Rightarrow> do {
              s \<leftarrow> bte_l2cap_ref l2cap s;
              s \<leftarrow> upd_l2cap (\<lambda>l. l\<lparr>expected_response_count := expected_response_count l - 1\<rparr>) l2cap s;
              (ok, r, s) \<leftarrow> l2cap_handle_response LE l2cap code r cmd_len s;
              s \<leftarrow> (if \<not> ok
                    then upd_l2cap (\<lambda>l. l\<lparr>expected_response_count := expected_response_count l + 1\<rparr>) l2cap s
                    else Some s);
              s \<leftarrow> bte_l2cap_unref LE l2cap s;
              Some (ok, r, s) } }"

section \<open>The callbacks of the ACL link\<close>

text \<open>The result of \<^verbatim>\<open>bte_buffer_reader_read_n\<close> is used without a check: \<^verbatim>\<open>NULL\<close> is a fault.\<close>

definition acl_incoming_data_check_cb :: "nat \<Rightarrow> bte_buffer_reader \<Rightarrow> 'c ldev \<Rightarrow> (int \<times> 'c ldev) option" where
  "acl_incoming_data_check_cb acl r s =
     do { (ptr, _) \<leftarrow> bte_buffer_reader_read_n r (of_nat L2CAP_HDR_LEN);
          header \<leftarrow> ptr;
          total_len \<leftarrow> read_le16 header 0;
          channel_id \<leftarrow> read_le16 header 2;
          ok \<leftarrow> (if channel_id = BTE_L2CAP_CHANNEL_ID_SIGNALLING then Some (total_len \<le> L2CAP_MTU_DEFAULT)
                 else do { found \<leftarrow> l2cap_for_local_channel acl channel_id s;
                           case found of None \<Rightarrow> Some False
                           | Some p \<Rightarrow> do { l \<leftarrow> l2cap_heap s p; Some (total_len \<le> l_mtu l) } });
          Some (if ok then int (unat total_len) + int L2CAP_HDR_LEN else - 1, s) }"

partial_function (option) signal_loop ::
    "'c lenv \<Rightarrow> nat \<Rightarrow> u16 \<Rightarrow> u16 \<Rightarrow> bte_buffer_reader \<Rightarrow> 'c ldev \<Rightarrow> 'c ldev option" where
  "signal_loop LE acl total_len parsed_len r s =
     (if parsed_len < total_len then
        do { (sig_hdr, read, r) \<leftarrow> bte_buffer_reader_read True r (of_nat L2CAP_SIGNAL_HDR_LEN);
             if read \<noteq> of_nat L2CAP_SIGNAL_HDR_LEN then Some s
             else do {
               code \<leftarrow> rd8 sig_hdr 0;
               ident \<leftarrow> rd8 sig_hdr 1;
               cmd_len \<leftarrow> read_le16 sig_hdr 2;
               (_, r, s) \<leftarrow> (if code mod 2 = 0 then acl_l2cap_handle_request LE acl code ident r cmd_len s
                             else acl_l2cap_handle_response LE acl code ident r cmd_len s);
               signal_loop LE acl total_len (parsed_len + of_nat L2CAP_SIGNAL_HDR_LEN + cmd_len) r s } }
      else Some s)"

definition acl_data_received_cb :: "'c lenv \<Rightarrow> nat \<Rightarrow> bte_buffer_reader \<Rightarrow> 'c ldev \<Rightarrow> 'c ldev option" where
  "acl_data_received_cb LE acl r s =
     do { (ptr, r) \<leftarrow> bte_buffer_reader_read_n r (of_nat L2CAP_HDR_LEN);
          header \<leftarrow> ptr;
          total_len \<leftarrow> read_le16 header 0;
          channel_id \<leftarrow> read_le16 header 2;
          if channel_id = BTE_L2CAP_CHANNEL_ID_SIGNALLING then signal_loop LE acl total_len 0 r s
          else do {
            found \<leftarrow> l2cap_for_local_channel acl channel_id s;
            case found of None \<Rightarrow> Some s
            | Some p \<Rightarrow> do {
                l \<leftarrow> l2cap_heap s p;
                if message_received_cb l \<noteq> None
                then call_l2cap LE (message_received_cb l) (Some p) (Message_received r) (l_userdata l) s
                else Some s } } }"

definition l2cap_disconnect_cb :: "'c lenv \<Rightarrow> nat \<Rightarrow> byte \<Rightarrow> 'c ldev \<Rightarrow> 'c ldev option" where
  "l2cap_disconnect_cb LE l2cap reason s =
     do { l \<leftarrow> l2cap_heap s l2cap;
          s \<leftarrow> (if l_state l = BTE_L2CAP_WAIT_CONFIG_REQ_RSP \<and> cmd_client_cb l \<noteq> None
                then call_l2cap LE (cmd_client_cb l) (Some l2cap)
                       (Configure_reply \<lparr>cy_rejected_mask = 0xfffffff, cy_unknown_mask = 0xfffffff,
                          cy_params = zero_params\<rparr>) (cmd_userdata l) s
                else Some s);
          l \<leftarrow> l2cap_heap s l2cap;
          if remote_channel_id l = 0
          then do { s \<leftarrow> call_l2cap LE (cmd_client_cb l) None
                           (Connect_reply (Some \<lparr>cr_remote_channel_id = 0, cr_local_channel_id = 0,
                              cr_result = BTE_L2CAP_CONN_RESP_RES_ERR_RESOURCE, cr_status = 0\<rparr>)) (l_userdata l) s;
                    bte_l2cap_unref LE l2cap s }
          else if acl_disconnect_cb l \<noteq> None
          then call_l2cap LE (acl_disconnect_cb l) (Some l2cap) (Disconnected reason) (l_userdata l) s
          else Some s }"

fun disconnected_loop :: "'c lenv \<Rightarrow> nat \<Rightarrow> byte \<Rightarrow> nat list \<Rightarrow> 'c ldev \<Rightarrow> 'c ldev option" where
  "disconnected_loop LE acl reason [] s = Some s"
| "disconnected_loop LE acl reason (i # is) s =
     do { a \<leftarrow> acl_heap s acl;
          if i < length (acl_tail a)
          then do { s \<leftarrow> (case acl_tail a ! i of None \<Rightarrow> Some s
                          | Some l2cap \<Rightarrow> l2cap_disconnect_cb LE l2cap reason s);
                    disconnected_loop LE acl reason is s }
          else None }"

definition acl_disconnected_cb :: "'c lenv \<Rightarrow> nat \<Rightarrow> byte \<Rightarrow> 'c ldev \<Rightarrow> 'c ldev option" where
  "acl_disconnected_cb LE acl reason s = disconnected_loop LE acl reason [0..<BTE_ACL_MAX_CLIENTS] s"

text \<open>The functions behind the tags of a \<^verbatim>\<open>BteAcl\<close>.\<close>

definition l2cap_dispatch :: "'c lenv \<Rightarrow> 'c l2cap_dev_scheme acl_dispatch" where
  "l2cap_dispatch LE = \<lparr>ad_connected = \<lambda>_. acl_connected_cb LE, ad_disconnected = \<lambda>_. acl_disconnected_cb LE,
     ad_check = \<lambda>_. acl_incoming_data_check_cb, ad_received = \<lambda>_. acl_data_received_cb LE\<rparr>"

end
