(* ===== verification/L2capApi.thy ===== *)
theory L2capApi
  imports L2capSignal
begin

text \<open>
  The public functions of \<^verbatim>\<open>l2cap.c\<close>: creation of channels, accessors, configuration, messages, echo,
  information and disconnection, and the channel that is configured before its client gets it.
\<close>

section \<open>New channels\<close>

definition l2cap_setup_acl :: "nat \<Rightarrow> 'c ldev \<Rightarrow> 'c ldev option" where
  "l2cap_setup_acl = upd_acl (\<lambda>a. a\<lparr>connected_cb := Some Acl_connected_cb,
     incoming_data_check_cb := Some Acl_incoming_data_check_cb, data_received_cb := Some Acl_data_received_cb,
     disconnected_cb := Some Acl_disconnected_cb\<rparr>)"

abbreviation (input) sizeof_BteAclL2cap :: nat where "sizeof_BteAclL2cap \<equiv> 112"

text \<open>The link of an outgoing channel: the one to this address, or a new one that is being connected.\<close>

definition outgoing_acl ::
    "'c lenv \<Rightarrow> nat \<Rightarrow> nat \<Rightarrow> nat \<Rightarrow> mem \<Rightarrow> connect_params option \<Rightarrow> u32 \<Rightarrow> 'c ldev \<Rightarrow> (nat \<times> 'c ldev) option" where
  "outgoing_acl LE l2cap new_acl hci address params flags s =
     do { found \<leftarrow> bte_acl_get_for_address address s;
          case found of
            Some acl \<Rightarrow> do {
              s \<leftarrow> bte_acl_ref acl s;
              s \<leftarrow> upd_l2cap (\<lambda>l. l\<lparr>l_acl := Some acl\<rparr>) l2cap s;
              s \<leftarrow> (if flags AND BTE_L2CAP_CONNECT_FLAG_AUTH \<noteq> 0
                    then do { s \<leftarrow> upd_acl (\<lambda>a. a\<lparr>authentication_required := True\<rparr>) acl s;
                              bte_acl_request_auth (le_hci LE) acl s }
                    else Some s);
              Some (acl, s) }
          | None \<Rightarrow> do {
              (new, s) \<leftarrow> bte_acl_new (le_hci LE) new_acl (Some hci) address sizeof_BteAclL2cap s;
              acl \<leftarrow> new;
              s \<leftarrow> l2cap_setup_acl acl s;
              s \<leftarrow> upd_l2cap (\<lambda>l. l\<lparr>l_acl := Some acl\<rparr>) l2cap s;
              let (params, s) = (case params of Some p \<Rightarrow> (p, s) | None \<Rightarrow> default_connect_params s);
              s \<leftarrow> bte_acl_connect (le_hci LE) (l2cap_dispatch LE) acl params
                     (if flags AND BTE_L2CAP_CONNECT_FLAG_AUTH \<noteq> 0 then BTE_ACL_CONNECT_FLAG_AUTH else 0) s;
              Some (acl, s) } }"

text \<open>The addresses that \<^verbatim>\<open>bte_malloc\<close> returns are arguments; the client is that of its HCI handle.\<close>

definition bte_l2cap_new_outgoing ::
    "'c lenv \<Rightarrow> nat \<Rightarrow> nat \<Rightarrow> nat \<Rightarrow> mem \<Rightarrow> u16 \<Rightarrow> connect_params option \<Rightarrow> u32 \<Rightarrow> cb_ptr \<Rightarrow> u64 \<Rightarrow> 'c ldev
     \<Rightarrow> 'c ldev option" where
  "bte_l2cap_new_outgoing LE l2cap new_acl client address psm params flags callback userdata s =
     do { let s = bte_l2cap_new l2cap s;
          (acl, s) \<leftarrow> outgoing_acl LE l2cap new_acl client address params flags s;
          (added, s) \<leftarrow> acl_l2cap_add_client acl l2cap s;
          if \<not> added
          then do { s \<leftarrow> bte_l2cap_unref LE l2cap s; call_l2cap LE callback None (Connect_reply None) userdata s }
          else do {
            s \<leftarrow> upd_l2cap (\<lambda>l. l\<lparr>l_userdata := userdata, l_psm := psm, cmd_client_cb := callback\<rparr>) l2cap s;
            a \<leftarrow> acl_heap s acl;
            if acl_conn_handle a \<noteq> BTE_CONN_HANDLE_INVALID \<and> authentication_completed a = authentication_required a
            then do { (ok, s) \<leftarrow> l2cap_connection_request LE l2cap s;
                      if ok then Some s
                      else do { s \<leftarrow> bte_l2cap_unref LE l2cap s;
                                call_l2cap LE callback None (Connect_reply None) userdata s } }
            else Some s } }"

definition bte_l2cap_new_connected ::
    "'c lenv \<Rightarrow> nat \<Rightarrow> nat \<Rightarrow> u16 \<Rightarrow> u16 \<Rightarrow> 'c ldev \<Rightarrow> (nat option \<times> 'c ldev) option" where
  "bte_l2cap_new_connected LE l2cap acl psm channel_id s =
     do { let s = bte_l2cap_new l2cap s;
          s \<leftarrow> bte_acl_ref acl s;
          s \<leftarrow> upd_l2cap (\<lambda>l. l\<lparr>l_acl := Some acl\<rparr>) l2cap s;
          (added, s) \<leftarrow> acl_l2cap_add_client acl l2cap s;
          if \<not> added then do { s \<leftarrow> bte_l2cap_unref LE l2cap s; Some (None, s) }
          else do {
            let (cid, s) = next_local_channel_id s;
            s \<leftarrow> upd_l2cap (\<lambda>l. l\<lparr>local_channel_id := cid, remote_channel_id := channel_id, l_psm := psm\<rparr>) l2cap s;
            Some (Some l2cap, s) } }"

definition bte_l2cap_acl_new_connected ::
    "'c lenv \<Rightarrow> nat \<Rightarrow> hci_ptr \<Rightarrow> mem \<Rightarrow> u16 \<Rightarrow> 'c ldev \<Rightarrow> (nat \<times> 'c ldev) option" where
  "bte_l2cap_acl_new_connected LE new_acl hci address conn_handle s =
     do { (new, s) \<leftarrow> bte_acl_new_connected (le_hci LE) new_acl hci address conn_handle sizeof_BteAclL2cap s;
          acl \<leftarrow> new;
          s \<leftarrow> l2cap_setup_acl acl s;
          Some (acl, s) }"

section \<open>Accessors\<close>

definition bte_l2cap_set_userdata :: "nat \<Rightarrow> u64 \<Rightarrow> 'c ldev \<Rightarrow> 'c ldev option" where
  "bte_l2cap_set_userdata l2cap userdata = upd_l2cap (\<lambda>l. l\<lparr>l_userdata := userdata\<rparr>) l2cap"

definition bte_l2cap_get_userdata :: "nat \<Rightarrow> 'c ldev \<Rightarrow> u64 option" where
  "bte_l2cap_get_userdata l2cap s = map_option l_userdata (l2cap_heap s l2cap)"

definition bte_l2cap_get_connection_handle :: "nat \<Rightarrow> 'c ldev \<Rightarrow> u16 option" where
  "bte_l2cap_get_connection_handle l2cap s =
     do { l \<leftarrow> l2cap_heap s l2cap; acl \<leftarrow> l_acl l; a \<leftarrow> acl_heap s acl; Some (acl_conn_handle a) }"

definition bte_l2cap_get_psm :: "nat \<Rightarrow> 'c ldev \<Rightarrow> u16 option" where
  "bte_l2cap_get_psm l2cap s = map_option l_psm (l2cap_heap s l2cap)"

definition bte_l2cap_get_address :: "nat \<Rightarrow> 'c ldev \<Rightarrow> mem option" where
  "bte_l2cap_get_address l2cap s =
     do { l \<leftarrow> l2cap_heap s l2cap; acl \<leftarrow> l_acl l; a \<leftarrow> acl_heap s acl; Some (acl_address a) }"

definition bte_l2cap_get_mtu :: "nat \<Rightarrow> 'c ldev \<Rightarrow> u16 option" where
  "bte_l2cap_get_mtu l2cap s = map_option l_mtu (l2cap_heap s l2cap)"

definition bte_l2cap_get_remote_mtu :: "nat \<Rightarrow> 'c ldev \<Rightarrow> u16 option" where
  "bte_l2cap_get_remote_mtu l2cap s = map_option l_remote_mtu (l2cap_heap s l2cap)"

definition bte_l2cap_get_hci :: "nat \<Rightarrow> 'c ldev \<Rightarrow> hci_ptr option" where
  "bte_l2cap_get_hci l2cap s =
     do { l \<leftarrow> l2cap_heap s l2cap; acl \<leftarrow> l_acl l; a \<leftarrow> acl_heap s acl; Some (acl_hci a) }"

definition bte_l2cap_get_client :: "nat \<Rightarrow> 'c ldev \<Rightarrow> hci_ptr option" where
  "bte_l2cap_get_client l2cap s = bte_l2cap_get_hci l2cap s"

definition bte_l2cap_get_state :: "nat \<Rightarrow> 'c ldev \<Rightarrow> l2cap_state option" where
  "bte_l2cap_get_state l2cap s = map_option l_state (l2cap_heap s l2cap)"

definition bte_l2cap_on_state_changed :: "nat \<Rightarrow> cb_ptr \<Rightarrow> 'c ldev \<Rightarrow> 'c ldev option" where
  "bte_l2cap_on_state_changed l2cap callback = upd_l2cap (\<lambda>l. l\<lparr>state_changed_cb := callback\<rparr>) l2cap"

definition bte_l2cap_on_configure :: "nat \<Rightarrow> cb_ptr \<Rightarrow> 'c ldev \<Rightarrow> 'c ldev option" where
  "bte_l2cap_on_configure l2cap callback = upd_l2cap (\<lambda>l. l\<lparr>configure_cb := callback\<rparr>) l2cap"

definition bte_l2cap_on_message_received :: "nat \<Rightarrow> cb_ptr \<Rightarrow> 'c ldev \<Rightarrow> 'c ldev option" where
  "bte_l2cap_on_message_received l2cap callback = upd_l2cap (\<lambda>l. l\<lparr>message_received_cb := callback\<rparr>) l2cap"

definition bte_l2cap_on_disconnected :: "nat \<Rightarrow> cb_ptr \<Rightarrow> 'c ldev \<Rightarrow> 'c ldev option" where
  "bte_l2cap_on_disconnected l2cap callback = upd_l2cap (\<lambda>l. l\<lparr>disconnect_cb := callback\<rparr>) l2cap"

definition bte_l2cap_on_acl_disconnected :: "nat \<Rightarrow> cb_ptr \<Rightarrow> 'c ldev \<Rightarrow> 'c ldev option" where
  "bte_l2cap_on_acl_disconnected l2cap callback = upd_l2cap (\<lambda>l. l\<lparr>acl_disconnect_cb := callback\<rparr>) l2cap"

section \<open>Configuration\<close>

text \<open>A reply in which only the mask is set.\<close>

definition rejected_reply :: "'c lenv \<Rightarrow> 'c ldev \<Rightarrow> configure_reply" where
  "rejected_reply LE s = (le_fresh_reply LE s)\<lparr>cy_rejected_mask := 0xffffffff\<rparr>"

definition bte_l2cap_configure ::
    "'c lenv \<Rightarrow> nat \<Rightarrow> configure_params option \<Rightarrow> cb_ptr \<Rightarrow> u64 \<Rightarrow> 'c ldev \<Rightarrow> 'c ldev option" where
  "bte_l2cap_configure LE l2cap params callback userdata s =
     do { l \<leftarrow> l2cap_heap s l2cap;
          if l_state l \<notin> {BTE_L2CAP_WAIT_CONFIG, BTE_L2CAP_WAIT_SEND_CONFIG, BTE_L2CAP_OPEN} \<or>
             expected_response_count l > 0
          then call_l2cap LE callback (Some l2cap) (Configure_reply (rejected_reply LE s)) userdata s
          else do {
            let conf = zero_conf\<lparr>cd_params := (case params of None \<Rightarrow> zero_params | Some p \<Rightarrow> p)\<rparr>;
            (ok, _, s) \<leftarrow> l2cap_config_send LE l2cap conf 0 s;
            if ok then upd_l2cap (\<lambda>l. l\<lparr>cmd_client_cb := callback, cmd_userdata := userdata\<rparr>) l2cap s
            else call_l2cap LE callback (Some l2cap) (Configure_reply (rejected_reply LE s)) userdata s } }"

text \<open>A structure whose bit is set is copied; copying from \<^verbatim>\<open>NULL\<close> is a fault.\<close>

definition bte_l2cap_set_configure_reply :: "nat \<Rightarrow> configure_reply \<Rightarrow> 'c ldev \<Rightarrow> 'c ldev option" where
  "bte_l2cap_set_configure_reply l2cap reply s =
     do { l \<leftarrow> l2cap_heap s l2cap;
          case configure_req l of None \<Rightarrow> Some s
          | Some conf \<Rightarrow> do {
              let out = cd_params conf;
              let inp = cy_params reply;
              q \<leftarrow> (if field_mask inp AND BTE_L2CAP_CONFIG_QOS \<noteq> 0
                    then map_option Some (cfg_qos inp) else Some (cfg_qos out));
              f \<leftarrow> (if field_mask inp AND BTE_L2CAP_CONFIG_RETX_FLOW \<noteq> 0
                    then map_option Some (cfg_retx_flow inp) else Some (cfg_retx_flow out));
              e \<leftarrow> (if field_mask inp AND BTE_L2CAP_CONFIG_EXT_FLOW \<noteq> 0
                    then map_option Some (cfg_ext_flow inp) else Some (cfg_ext_flow out));
              put_l2cap l2cap (l\<lparr>configure_req := Some (conf\<lparr>cd_rejected_mask := cy_rejected_mask reply,
                cd_params := inp\<lparr>cfg_qos := q, cfg_retx_flow := f, cfg_ext_flow := e\<rparr>\<rparr>)\<rparr>) s } }"

section \<open>Messages and requests\<close>

definition bte_l2cap_disconnect :: "'c lenv \<Rightarrow> nat \<Rightarrow> 'c ldev \<Rightarrow> 'c ldev option" where
  "bte_l2cap_disconnect LE l2cap s =
     do { l \<leftarrow> l2cap_heap s l2cap;
          if l_state l \<ge> BTE_L2CAP_CONFIG_FIRST then map_option snd (l2cap_send_disconnect_req LE l2cap s)
          else do { s \<leftarrow> l2cap_set_state LE l2cap BTE_L2CAP_CLOSED s;
                    call_disconnect LE l2cap BTE_HCI_CONN_TERMINATED_BY_LOCAL_HOST s } }"

definition bte_l2cap_create_message :: "'c lenv \<Rightarrow> nat \<Rightarrow> u16 \<Rightarrow> 'c ldev \<Rightarrow> bte_buffer_writer option option" where
  "bte_l2cap_create_message LE l2cap sz s =
     do { l \<leftarrow> l2cap_heap s l2cap;
          if remote_channel_id l = BTE_L2CAP_CHANNEL_ID_NULL \<or> sz > l_remote_mtu l then Some None
          else do { acl \<leftarrow> l_acl l; acl_l2cap_create_message LE acl sz (remote_channel_id l) s } }"

definition bte_l2cap_send_message :: "'c lenv \<Rightarrow> nat \<Rightarrow> chain \<Rightarrow> 'c ldev \<Rightarrow> (int \<times> 'c ldev) option" where
  "bte_l2cap_send_message LE l2cap buffer s =
     do { l \<leftarrow> l2cap_heap s l2cap;
          if l_state l \<noteq> BTE_L2CAP_OPEN then Some (- 1, s)
          else bte_acl_send_message (le_hci LE) buffer s }"

text \<open>\<^verbatim>\<open>bte_l2cap_echo\<close> and \<^verbatim>\<open>bte_l2cap_query_info\<close>: one request at a time.\<close>

definition l2cap_request ::
    "'c lenv \<Rightarrow> nat \<Rightarrow> byte \<Rightarrow> mem \<Rightarrow> u16 \<Rightarrow> cb_ptr \<Rightarrow> u64 \<Rightarrow> 'c ldev \<Rightarrow> (bool \<times> 'c ldev) option" where
  "l2cap_request LE l2cap code bs sz callback userdata s =
     do { l \<leftarrow> l2cap_heap s l2cap;
          if expected_response_count l > 0 then Some (False, s)
          else do {
            (buffer, s) \<leftarrow> l2cap_signal LE l2cap code bs sz s;
            case buffer of None \<Rightarrow> Some (False, s)
            | Some c \<Rightarrow> do {
                (ok, s) \<leftarrow> send_l2cap LE c s;
                s \<leftarrow> (if ok then upd_l2cap (\<lambda>l. l\<lparr>cmd_client_cb := callback, cmd_userdata := userdata\<rparr>) l2cap s
                      else Some s);
                Some (ok, s) } } }"

definition bte_l2cap_echo ::
    "'c lenv \<Rightarrow> nat \<Rightarrow> mem \<Rightarrow> u16 \<Rightarrow> cb_ptr \<Rightarrow> u64 \<Rightarrow> 'c ldev \<Rightarrow> (bool \<times> 'c ldev) option" where
  "bte_l2cap_echo LE l2cap bs sz callback userdata s =
     l2cap_request LE l2cap L2CAP_SIGNAL_ECHO_REQ bs sz callback userdata s"

definition bte_l2cap_query_info ::
    "'c lenv \<Rightarrow> nat \<Rightarrow> u16 \<Rightarrow> cb_ptr \<Rightarrow> u64 \<Rightarrow> 'c ldev \<Rightarrow> (bool \<times> 'c ldev) option" where
  "bte_l2cap_query_info LE l2cap type callback userdata s =
     l2cap_request LE l2cap L2CAP_SIGNAL_INFO_REQ (le_bytes 2 type) 2 callback userdata s"

section \<open>Channels that are configured before they are handed out\<close>

text \<open>
  The three callbacks of \<^verbatim>\<open>bte_l2cap_new_configured\<close>. Their addresses are fixed, and \<open>configured_env\<close>
  binds them; the userdata is the address of the \<^verbatim>\<open>NewConfiguredData\<close>.
\<close>

abbreviation (input) NEW_CONFIGURED_CONNECT_CB :: nat where "NEW_CONFIGURED_CONNECT_CB \<equiv> 11"
abbreviation (input) NEW_CONFIGURED_CONFIGURE_CB :: nat where "NEW_CONFIGURED_CONFIGURE_CB \<equiv> 12"
abbreviation (input) NEW_CONFIGURED_STATE_CHANGED_CB :: nat where "NEW_CONFIGURED_STATE_CHANGED_CB \<equiv> 13"

definition free_new_configured :: "nat \<Rightarrow> 'c ldev \<Rightarrow> 'c ldev option" where
  "free_new_configured cd s =
     do { _ \<leftarrow> new_configured_heap s cd;
          Some (s\<lparr>new_configured_heap := (new_configured_heap s)(cd := None)\<rparr>) }"

definition new_configured_reply :: "'c lenv \<Rightarrow> nat \<Rightarrow> nat option \<Rightarrow> u16 \<Rightarrow> 'c ldev \<Rightarrow> 'c ldev option" where
  "new_configured_reply LE cd l2cap result s =
     do { n \<leftarrow> new_configured_heap s cd;
          call_l2cap LE (nc_callback n) l2cap (New_configured_reply result) (nc_userdata n) s }"

definition set_reply_sent :: "nat \<Rightarrow> 'c ldev \<Rightarrow> 'c ldev option" where
  "set_reply_sent cd s =
     do { n \<leftarrow> new_configured_heap s cd;
          Some (s\<lparr>new_configured_heap := (new_configured_heap s)(cd \<mapsto> n\<lparr>nc_reply_sent := True\<rparr>)\<rparr>) }"

definition new_configured_configure_cb ::
    "'c lenv \<Rightarrow> nat \<Rightarrow> configure_reply \<Rightarrow> nat \<Rightarrow> 'c ldev \<Rightarrow> 'c ldev option" where
  "new_configured_configure_cb LE l2cap reply cd s =
     (if cy_rejected_mask reply \<noteq> 0 \<or> cy_unknown_mask reply \<noteq> 0
      then do { s \<leftarrow> new_configured_reply LE cd None BTE_L2CAP_CONN_RESP_RES_CONFIG s;
                s \<leftarrow> set_reply_sent cd s;
                bte_l2cap_disconnect LE l2cap s }
      else Some s)"

definition new_configured_state_changed_cb ::
    "'c lenv \<Rightarrow> nat \<Rightarrow> l2cap_state \<Rightarrow> nat \<Rightarrow> 'c ldev \<Rightarrow> 'c ldev option" where
  "new_configured_state_changed_cb LE l2cap st cd s =
     (if st = BTE_L2CAP_OPEN
      then do { n \<leftarrow> new_configured_heap s cd;
                s \<leftarrow> bte_l2cap_set_userdata l2cap (nc_userdata n) s;
                s \<leftarrow> bte_l2cap_on_state_changed l2cap None s;
                s \<leftarrow> new_configured_reply LE cd (Some l2cap) BTE_L2CAP_CONN_RESP_RES_OK s;
                s \<leftarrow> set_reply_sent cd s;
                s \<leftarrow> bte_l2cap_unref LE l2cap s;
                free_new_configured cd s }
      else if st = BTE_L2CAP_CLOSED
      then do { n \<leftarrow> new_configured_heap s cd;
                s \<leftarrow> (if \<not> nc_reply_sent n
                      then do { s \<leftarrow> new_configured_reply LE cd None BTE_L2CAP_CONN_RESP_RES_DISCONNECTED s;
                                set_reply_sent cd s }
                      else Some s);
                s \<leftarrow> bte_l2cap_unref LE l2cap s;
                free_new_configured cd s }
      else Some s)"

definition new_configured_connect_cb ::
    "'c lenv \<Rightarrow> nat option \<Rightarrow> connection_response option \<Rightarrow> nat \<Rightarrow> 'c ldev \<Rightarrow> 'c ldev option" where
  "new_configured_connect_cb LE l2cap reply cd s =
     do { r \<leftarrow> reply;
          if cr_result r = BTE_L2CAP_CONN_RESP_RES_PENDING then Some s
          else case l2cap of
            None \<Rightarrow> do { s \<leftarrow> new_configured_reply LE cd None (cr_result r) s; free_new_configured cd s }
          | Some p \<Rightarrow> do {
              s \<leftarrow> bte_l2cap_ref p s;
              s \<leftarrow> bte_l2cap_set_userdata p (of_nat cd) s;
              s \<leftarrow> bte_l2cap_on_state_changed p (Some NEW_CONFIGURED_STATE_CHANGED_CB) s;
              n \<leftarrow> new_configured_heap s cd;
              bte_l2cap_configure LE p (nc_conf n) (Some NEW_CONFIGURED_CONFIGURE_CB) (of_nat cd) s } }"

text \<open>
  A callback of these three may lead to another one of them: a connection response to a configuration
  request that is refused at once, and this to a disconnection with its change of state. The
  environment is built in three levels; a call beyond them would be a fault.
\<close>

fun configured_client :: "'c lenv \<Rightarrow> nat \<Rightarrow> l2cap_call \<Rightarrow> 'c ldev \<Rightarrow> 'c ldev option" where
  "configured_client LE 0 c s =
     (if lc_cb c \<in> {NEW_CONFIGURED_CONNECT_CB, NEW_CONFIGURED_CONFIGURE_CB, NEW_CONFIGURED_STATE_CHANGED_CB}
      then None else le_client LE c s)"
| "configured_client LE (Suc n) c s =
     (let inner = LE\<lparr>le_client := configured_client LE n\<rparr>; cd = unat (lc_userdata c) in
      if lc_cb c = NEW_CONFIGURED_CONNECT_CB then
        (case lc_arg c of Connect_reply reply \<Rightarrow> new_configured_connect_cb inner (lc_l2cap c) reply cd s | _ \<Rightarrow> None)
      else if lc_cb c = NEW_CONFIGURED_CONFIGURE_CB then
        (case (lc_l2cap c, lc_arg c) of (Some p, Configure_reply reply) \<Rightarrow> new_configured_configure_cb inner p reply cd s
         | _ \<Rightarrow> None)
      else if lc_cb c = NEW_CONFIGURED_STATE_CHANGED_CB then
        (case (lc_l2cap c, lc_arg c) of (Some p, State_changed st) \<Rightarrow> new_configured_state_changed_cb inner p st cd s
         | _ \<Rightarrow> None)
      else le_client LE c s)"

definition configured_env :: "'c lenv \<Rightarrow> 'c lenv" where
  "configured_env LE = LE\<lparr>le_client := configured_client LE 3\<rparr>"

definition bte_l2cap_new_configured ::
    "'c lenv \<Rightarrow> nat option \<Rightarrow> nat \<Rightarrow> nat \<Rightarrow> nat \<Rightarrow> mem \<Rightarrow> u16 \<Rightarrow> connect_params option \<Rightarrow> u32
     \<Rightarrow> configure_params option \<Rightarrow> cb_ptr \<Rightarrow> u64 \<Rightarrow> 'c ldev \<Rightarrow> (bool \<times> 'c ldev) option" where
  "bte_l2cap_new_configured LE cd l2cap new_acl client address psm params flags conf callback userdata s =
     (case cd of None \<Rightarrow> Some (False, s)
      | Some cd \<Rightarrow> do {
          let s = s\<lparr>new_configured_heap := (new_configured_heap s)(cd \<mapsto>
                    \<lparr>nc_conf = conf, nc_reply_sent = False, nc_callback = callback, nc_userdata = userdata\<rparr>)\<rparr>;
          s \<leftarrow> bte_l2cap_new_outgoing LE l2cap new_acl client address psm params flags
                 (Some NEW_CONFIGURED_CONNECT_CB) (of_nat cd) s;
          Some (True, s) })"

definition bte_l2cap_reset :: "'c ldev \<Rightarrow> 'c ldev" where
  "bte_l2cap_reset s = s\<lparr>s_next_local_channel_id := 0x0040, s_last_signal_id := 0\<rparr>"

end
