(* ===== verification/L2capServer.thy ===== *)
theory L2capServer
  imports L2capApi
begin

text \<open>
  The servers of \<^verbatim>\<open>l2cap_server.c\<close>, which accept connections and hand new channels to their clients, and the
  answer to echo requests of \<^verbatim>\<open>l2cap_echo.c\<close>. The list of servers is a list of addresses.
\<close>

section \<open>Servers\<close>

abbreviation (input) BTE_LINK_TYPE_ACL :: byte where "BTE_LINK_TYPE_ACL \<equiv> 1"
abbreviation (input) BTE_HCI_ROLE_SLAVE :: byte where "BTE_HCI_ROLE_SLAVE \<equiv> 1"
abbreviation (input) BTE_HCI_SCAN_ENABLE_OFF :: byte where "BTE_HCI_SCAN_ENABLE_OFF \<equiv> 0"
abbreviation (input) BTE_HCI_SCAN_ENABLE_PAGE :: byte where "BTE_HCI_SCAN_ENABLE_PAGE \<equiv> 2"

record l2cap_server =
  sv_ref_count :: int
  sv_hci :: hci_ptr
  sv_psm :: u16
  sv_role :: byte
  sv_needs_auth :: bool
  sv_connected_cb :: cb_ptr
  sv_userdata :: u64
  sv_connection_request_cb :: cb_ptr
  sv_connection_request_userdata :: u64

record server_dev = l2cap_dev +
  s_servers :: "nat list"
  server_heap :: "nat \<Rightarrow> l2cap_server option"

type_synonym 'd sdev = "'d server_dev_scheme"

text \<open>
  The environment: that of the channels, the two callbacks of a server's client, and the addresses that
  \<^verbatim>\<open>bte_malloc\<close> returns for a channel and for a link.
\<close>

record 's server_env =
  se_l2cap :: "'s l2cap_env"
  se_connected :: "nat \<Rightarrow> nat \<Rightarrow> nat \<Rightarrow> u64 \<Rightarrow> 's \<Rightarrow> 's option"
  se_connection_request :: "nat \<Rightarrow> nat \<Rightarrow> mem \<Rightarrow> mem \<Rightarrow> u64 \<Rightarrow> 's \<Rightarrow> (bool \<times> 's) option"
  se_malloc_l2cap :: "'s \<Rightarrow> nat"
  se_malloc_acl :: "'s \<Rightarrow> nat"

type_synonym 'd senv = "'d server_dev_scheme server_env"

abbreviation (input) HCI_CONNECTION_REQUEST_CB :: nat where "HCI_CONNECTION_REQUEST_CB \<equiv> 21"
abbreviation (input) HCI_ACCEPT_CONNECTION_CB :: nat where "HCI_ACCEPT_CONNECTION_CB \<equiv> 22"
abbreviation (input) ON_L2CAP_STATE_CHANGED :: nat where "ON_L2CAP_STATE_CHANGED \<equiv> 23"

fun server_for_psm_loop :: "(nat \<Rightarrow> l2cap_server option) \<Rightarrow> u16 \<Rightarrow> nat list \<Rightarrow> nat option option" where
  "server_for_psm_loop heap psm [] = Some None"
| "server_for_psm_loop heap psm (p # ps) =
     do { sv \<leftarrow> heap p; if sv_psm sv = psm then Some (Some p) else server_for_psm_loop heap psm ps }"

definition server_for_psm :: "u16 \<Rightarrow> 'd sdev \<Rightarrow> nat option option" where
  "server_for_psm psm s = server_for_psm_loop (server_heap s) psm (s_servers s)"

definition rely_to_client :: "'d senv \<Rightarrow> nat \<Rightarrow> nat \<Rightarrow> 'd sdev \<Rightarrow> 'd sdev option" where
  "rely_to_client SE server l2cap s =
     do { sv \<leftarrow> server_heap s server;
          cb \<leftarrow> sv_connected_cb sv;
          s \<leftarrow> se_connected SE cb server l2cap (sv_userdata sv) s;
          bte_l2cap_unref (se_l2cap SE) l2cap s }"

text \<open>When the server of the channel is gone, a null pointer is used.\<close>

definition on_l2cap_state_changed :: "'d senv \<Rightarrow> nat \<Rightarrow> l2cap_state \<Rightarrow> 'd sdev \<Rightarrow> 'd sdev option" where
  "on_l2cap_state_changed SE l2cap st s =
     (if st = BTE_L2CAP_WAIT_CONFIG
      then do { s \<leftarrow> bte_l2cap_on_state_changed l2cap None s;
                l \<leftarrow> l2cap_heap s l2cap;
                found \<leftarrow> server_for_psm (l_psm l) s;
                server \<leftarrow> found;
                rely_to_client SE server l2cap s }
      else Some s)"

definition l2cap_server_handle_connection_req ::
    "'d senv \<Rightarrow> nat \<Rightarrow> u16 \<Rightarrow> u16 \<Rightarrow> 'd sdev \<Rightarrow> (nat option \<times> 'd sdev) option" where
  "l2cap_server_handle_connection_req SE acl psm channel_id s =
     do { found \<leftarrow> server_for_psm psm s;
          case found of None \<Rightarrow> Some (None, s)
          | Some server \<Rightarrow> do {
              (new, s) \<leftarrow> bte_l2cap_new_connected (se_l2cap SE) (se_malloc_l2cap SE s) acl psm channel_id s;
              l2cap \<leftarrow> new;
              s \<leftarrow> bte_l2cap_on_state_changed l2cap (Some ON_L2CAP_STATE_CHANGED) s;
              Some (Some l2cap, s) } }"

definition hci_accept_connection_cb ::
    "'d senv \<Rightarrow> hci_ptr \<Rightarrow> byte \<Rightarrow> u16 \<Rightarrow> mem \<Rightarrow> u64 \<Rightarrow> 'd sdev \<Rightarrow> 'd sdev option" where
  "hci_accept_connection_cb SE hci status conn_handle address userdata s =
     (if status \<noteq> 0 then Some s
      else do {
        sv \<leftarrow> server_heap s (unat userdata);
        s \<leftarrow> (if sv_needs_auth sv
              then bte_hci_auth_requested (le_hci (se_l2cap SE)) hci conn_handle None None 0 s else Some s);
        (_, s) \<leftarrow> bte_l2cap_acl_new_connected (se_l2cap SE) (se_malloc_acl SE s) hci address conn_handle s;
        Some s })"

text \<open>
  The first server of this HCI handle that accepts. A callback may change the list of servers: the
  next one is read from the server it was asked about, which must still be there.
\<close>

definition next_server :: "nat \<Rightarrow> 'd sdev \<Rightarrow> nat option option" where
  "next_server p s =
     do { _ \<leftarrow> server_heap s p;
          Some (case dropWhile ((\<noteq>) p) (s_servers s) of _ # q # _ \<Rightarrow> Some q | _ \<Rightarrow> None) }"

partial_function (option) accepting_server_loop ::
    "'d senv \<Rightarrow> hci_ptr \<Rightarrow> mem \<Rightarrow> mem \<Rightarrow> nat option \<Rightarrow> 'd sdev \<Rightarrow> (nat option \<times> 'd sdev) option" where
  "accepting_server_loop SE hci address cod cur s =
     (case cur of None \<Rightarrow> Some (None, s)
      | Some p \<Rightarrow> do {
          sv \<leftarrow> server_heap s p;
          (ok, s) \<leftarrow> (if sv_hci sv \<noteq> hci then Some (False, s)
                      else case sv_connection_request_cb sv of None \<Rightarrow> Some (True, s)
                      | Some cb \<Rightarrow> se_connection_request SE cb p address cod (sv_connection_request_userdata sv) s);
          if ok then Some (Some p, s)
          else do { q \<leftarrow> next_server p s; accepting_server_loop SE hci address cod q s } })"

definition hci_connection_request_cb ::
    "'d senv \<Rightarrow> hci_ptr \<Rightarrow> mem \<Rightarrow> mem \<Rightarrow> byte \<Rightarrow> 'd sdev \<Rightarrow> (bool \<times> 'd sdev) option" where
  "hci_connection_request_cb SE hci address cod link_type s =
     (if link_type \<noteq> BTE_LINK_TYPE_ACL then Some (False, s)
      else do {
        (found, s) \<leftarrow> accepting_server_loop SE hci address cod (case s_servers s of [] \<Rightarrow> None | p # _ \<Rightarrow> Some p) s;
        case found of None \<Rightarrow> Some (False, s)
        | Some p \<Rightarrow> do {
            sv \<leftarrow> server_heap s p;
            s \<leftarrow> bte_hci_accept_connection (le_hci (se_l2cap SE)) hci address (sv_role sv) None
                   (Some HCI_ACCEPT_CONNECTION_CB) (of_nat p) s;
            Some (True, s) } })"

text \<open>The search for the link in the list runs into a null pointer when the server is not in it.\<close>

fun unlink_loop :: "nat \<Rightarrow> nat list \<Rightarrow> nat list option" where
  "unlink_loop server [] = None"
| "unlink_loop server (p # ps) = (if p = server then Some ps else map_option ((#) p) (unlink_loop server ps))"

definition bte_l2cap_server_free :: "'d senv \<Rightarrow> nat \<Rightarrow> 'd sdev \<Rightarrow> 'd sdev option" where
  "bte_l2cap_server_free SE server s =
     do { sv \<leftarrow> server_heap s server;
          ps \<leftarrow> unlink_loop server (s_servers s);
          let s = s\<lparr>s_servers := ps, server_heap := (server_heap s)(server := None)\<rparr>;
          s \<leftarrow> (if s_servers s = []
                then bte_hci_write_scan_enable (le_hci (se_l2cap SE)) (sv_hci sv) BTE_HCI_SCAN_ENABLE_OFF None 0 s
                else Some s);
          client \<leftarrow> sv_hci sv;
          bte_client_unref (le_hci (se_l2cap SE)) client s }"

definition bte_l2cap_server_new :: "nat \<Rightarrow> nat \<Rightarrow> u16 \<Rightarrow> 'd sdev \<Rightarrow> 'd sdev option" where
  "bte_l2cap_server_new server client psm s =
     do { let s = s\<lparr>handle_connection_req := Some L2cap_server_handle_connection_req\<rparr>;
          s \<leftarrow> bte_client_ref client s;
          Some (s\<lparr>server_heap := (server_heap s)(server \<mapsto> \<lparr>sv_ref_count = 1, sv_hci = Some client, sv_psm = psm,
                    sv_role = BTE_HCI_ROLE_SLAVE, sv_needs_auth = False, sv_connected_cb = None, sv_userdata = 0,
                    sv_connection_request_cb = None, sv_connection_request_userdata = 0\<rparr>),
                  s_servers := server # s_servers s\<rparr>) }"

definition put_server :: "nat \<Rightarrow> l2cap_server \<Rightarrow> 'd sdev \<Rightarrow> 'd sdev option" where
  "put_server server sv s =
     do { _ \<leftarrow> server_heap s server; Some (s\<lparr>server_heap := (server_heap s)(server \<mapsto> sv)\<rparr>) }"

definition upd_server :: "(l2cap_server \<Rightarrow> l2cap_server) \<Rightarrow> nat \<Rightarrow> 'd sdev \<Rightarrow> 'd sdev option" where
  "upd_server f server s = do { sv \<leftarrow> server_heap s server; put_server server (f sv) s }"

definition bte_l2cap_server_ref :: "nat \<Rightarrow> 'd sdev \<Rightarrow> 'd sdev option" where
  "bte_l2cap_server_ref = upd_server (\<lambda>sv. sv\<lparr>sv_ref_count := sv_ref_count sv + 1\<rparr>)"

definition bte_l2cap_server_unref :: "'d senv \<Rightarrow> nat \<Rightarrow> 'd sdev \<Rightarrow> 'd sdev option" where
  "bte_l2cap_server_unref SE server s =
     do { sv \<leftarrow> server_heap s server;
          s \<leftarrow> put_server server (sv\<lparr>sv_ref_count := sv_ref_count sv - 1\<rparr>) s;
          if sv_ref_count sv = 1 then bte_l2cap_server_free SE server s else Some s }"

definition bte_l2cap_server_get_hci :: "nat \<Rightarrow> 'd sdev \<Rightarrow> hci_ptr option" where
  "bte_l2cap_server_get_hci server s = map_option sv_hci (server_heap s server)"

definition bte_l2cap_server_get_client :: "nat \<Rightarrow> 'd sdev \<Rightarrow> hci_ptr option" where
  "bte_l2cap_server_get_client server s = map_option sv_hci (server_heap s server)"

definition bte_l2cap_server_set_needs_auth :: "nat \<Rightarrow> bool \<Rightarrow> 'd sdev \<Rightarrow> 'd sdev option" where
  "bte_l2cap_server_set_needs_auth server needs_auth = upd_server (\<lambda>sv. sv\<lparr>sv_needs_auth := needs_auth\<rparr>) server"

definition bte_l2cap_server_set_role :: "nat \<Rightarrow> byte \<Rightarrow> 'd sdev \<Rightarrow> 'd sdev option" where
  "bte_l2cap_server_set_role server role = upd_server (\<lambda>sv. sv\<lparr>sv_role := role\<rparr>) server"

definition bte_l2cap_server_on_connected ::
    "'d senv \<Rightarrow> nat \<Rightarrow> cb_ptr \<Rightarrow> u64 \<Rightarrow> 'd sdev \<Rightarrow> 'd sdev option" where
  "bte_l2cap_server_on_connected SE server cb userdata s =
     do { s \<leftarrow> upd_server (\<lambda>sv. sv\<lparr>sv_connected_cb := cb, sv_userdata := userdata\<rparr>) server s;
          sv \<leftarrow> server_heap s server;
          s \<leftarrow> bte_hci_on_connection_request (sv_hci sv) (Some HCI_CONNECTION_REQUEST_CB) s;
          bte_hci_write_scan_enable (le_hci (se_l2cap SE)) (sv_hci sv) BTE_HCI_SCAN_ENABLE_PAGE None 0 s }"

definition bte_l2cap_server_on_connection_request :: "nat \<Rightarrow> cb_ptr \<Rightarrow> u64 \<Rightarrow> 'd sdev \<Rightarrow> 'd sdev option" where
  "bte_l2cap_server_on_connection_request server callback userdata =
     upd_server (\<lambda>sv. sv\<lparr>sv_connection_request_cb := callback, sv_connection_request_userdata := userdata\<rparr>) server"

text \<open>The environment of the channels when servers are in use.\<close>

definition server_client :: "'d senv \<Rightarrow> l2cap_call \<Rightarrow> 'd sdev \<Rightarrow> 'd sdev option" where
  "server_client SE c s =
     (if lc_cb c = ON_L2CAP_STATE_CHANGED then
        (case (lc_l2cap c, lc_arg c) of (Some p, State_changed st) \<Rightarrow> on_l2cap_state_changed SE p st s | _ \<Rightarrow> None)
      else le_client (se_l2cap SE) c s)"

definition server_l2cap_env :: "'d senv \<Rightarrow> 'd server_dev_scheme l2cap_env" where
  "server_l2cap_env SE = (se_l2cap SE)\<lparr>le_client := server_client SE,
     le_connection_req := \<lambda>_. l2cap_server_handle_connection_req SE\<rparr>"

section \<open>Echo\<close>

text \<open>
  A client is asked twice: without a writer for the size of its answer, on a copy of the reader, and
  then to write it.
\<close>

record 's echo_env =
  ee_size :: "nat \<Rightarrow> nat \<Rightarrow> bte_buffer_reader \<Rightarrow> u64 \<Rightarrow> 's \<Rightarrow> (u16 \<times> 's) option"
  ee_write :: "nat \<Rightarrow> nat \<Rightarrow> bte_buffer_reader \<Rightarrow> bte_buffer_writer \<Rightarrow> u64 \<Rightarrow> 's
               \<Rightarrow> (bte_buffer_reader \<times> bte_buffer_writer \<times> 's) option"

fun echo_loop ::
    "'c l2cap_dev_scheme echo_env \<Rightarrow> nat \<Rightarrow> bte_buffer_reader \<Rightarrow> nat list \<Rightarrow> 'c ldev
     \<Rightarrow> ((nat \<times> u16) option \<times> 'c ldev) option" where
  "echo_loop EE acl r [] s = Some (None, s)"
| "echo_loop EE acl r (i # is) s =
     do { a \<leftarrow> acl_heap s acl;
          if \<not> i < length (acl_tail a) then None
          else case acl_tail a ! i of None \<Rightarrow> echo_loop EE acl r is s
          | Some p \<Rightarrow> do {
              l \<leftarrow> l2cap_heap s p;
              case echo_cb l of None \<Rightarrow> echo_loop EE acl r is s
              | Some cb \<Rightarrow> do {
                  (rsp_len, s) \<leftarrow> ee_size EE cb p r (l_userdata l) s;
                  if rsp_len > 0 then Some (Some (p, rsp_len), s) else echo_loop EE acl r is s } } }"

definition acl_l2cap_handle_echo_req ::
    "'c l2cap_dev_scheme echo_env \<Rightarrow> 'c lenv \<Rightarrow> nat \<Rightarrow> byte \<Rightarrow> bte_buffer_reader \<Rightarrow> u16 \<Rightarrow> 'c ldev
     \<Rightarrow> (bool \<times> bte_buffer_reader \<times> 'c ldev) option" where
  "acl_l2cap_handle_echo_req EE LE acl ident r req_len s =
     do { (found, s) \<leftarrow> echo_loop EE acl r [0..<BTE_ACL_MAX_CLIENTS] s;
          w \<leftarrow> acl_l2cap_create_cmd LE acl L2CAP_SIGNAL_ECHO_RSP ident (case found of None \<Rightarrow> 0 | Some (_, n) \<Rightarrow> n) s;
          case w of None \<Rightarrow> Some (False, r, s)
          | Some w \<Rightarrow> do {
              (r, w, s) \<leftarrow> (case found of None \<Rightarrow> Some (r, w, s)
                           | Some (p, _) \<Rightarrow> do {
                               l \<leftarrow> l2cap_heap s p;
                               cb \<leftarrow> echo_cb l;
                               ee_write EE cb p r w (l_userdata l) s });
              c \<leftarrow> bte_buffer_writer_end w;
              (_, s) \<leftarrow> bte_acl_send_message (le_hci LE) c s;
              Some (True, r, s) } }"

definition bte_l2cap_on_echo :: "nat \<Rightarrow> cb_ptr \<Rightarrow> 'c ldev \<Rightarrow> 'c ldev option" where
  "bte_l2cap_on_echo l2cap callback = upd_l2cap (\<lambda>l. l\<lparr>echo_cb := callback\<rparr>) l2cap"

end
