(* ===== verification/L2capFrame.thy ===== *)
theory L2capFrame
  imports L2capServer
begin

text \<open>
  What the channels put on the link and take from it: the frames of messages and signalling commands, the
  replies and requests of \<^verbatim>\<open>l2cap.c\<close>, and their delivery on the other side.
\<close>

section \<open>Frames\<close>

definition l2cap_frame :: "u16 \<Rightarrow> mem \<Rightarrow> mem" where
  "l2cap_frame cid body = le_bytes 2 (of_nat (length body) :: u16) @ le_bytes 2 cid @ body"

definition signal_command :: "byte \<Rightarrow> byte \<Rightarrow> mem \<Rightarrow> mem" where
  "signal_command code ident body = [code, ident] @ le_bytes 2 (of_nat (length body) :: u16) @ body"

lemma frame_len [simp]:
  "length (l2cap_frame cid body) = length body + 4" "length (signal_command code ident body) = length body + 4"
  by (simp_all add: l2cap_frame_def signal_command_def)

text \<open>The ACL packets of a frame on a link.\<close>

abbreviation l2cap_packets :: "nat \<Rightarrow> bte_acl \<Rightarrow> u16 \<Rightarrow> mem \<Rightarrow> mem list" where
  "l2cap_packets m a cid body \<equiv>
     acl_fragments (acl_conn_handle a) BTE_ACL_BROADCAST_PTP m BTE_ACL_PB_FIRST_FLUSH (l2cap_frame cid body)"

abbreviation signal_packets :: "nat \<Rightarrow> bte_acl \<Rightarrow> byte \<Rightarrow> byte \<Rightarrow> mem \<Rightarrow> mem list" where
  "signal_packets m a code ident body \<equiv>
     l2cap_packets m a BTE_L2CAP_CHANNEL_ID_SIGNALLING (signal_command code ident body)"

text \<open>
  A link whose packets carry \<open>m\<close> bytes, with room for the two headers of a command in the first one, and
  packets that are well formed in the queue.
\<close>

definition link_ready :: "nat \<Rightarrow> nat \<Rightarrow> bte_acl \<Rightarrow> 'b adev \<Rightarrow> bool" where
  "link_ready m acl a s \<longleftrightarrow> acl_heap s acl = Some a \<and> unat (acl_mtu s) = m + 4 \<and> 8 \<le> m \<and>
     m + 4 + sizeof_BteBuffer < 65536 \<and> chain_ok (outgoing_acl_packets s)"

text \<open>The packets of \<open>n\<close> bytes fit into the 16 bits of a length.\<close>

definition fits :: "nat \<Rightarrow> nat \<Rightarrow> bool" where
  "fits m n \<longleftrightarrow> packets_needed n m * (m + 4) < 65536"

lemma fits_bound:
  assumes "fits m n" "0 < m" "0 < n"
  shows "n < 65536"
proof -
  have "n \<le> packets_needed n m * m" by (rule packets_needed(3) [OF assms(3,2)])
  also have "\<dots> \<le> packets_needed n m * (m + 4)" by simp
  finally show ?thesis using assms(1) by (simp add: fits_def)
qed

text \<open>What a writer is after part of a message of \<open>n\<close> bytes has been written.\<close>

definition frame_writer :: "nat \<Rightarrow> bte_acl \<Rightarrow> nat \<Rightarrow> mem \<Rightarrow> bte_buffer_writer \<Rightarrow> bool" where
  "frame_writer m a n bs w \<longleftrightarrow> message_writer (acl_conn_handle a) 0 m (packets_needed n m) n w \<and>
     writer_ok w \<and> writer_out w = bs \<and> writer_room w = packets_needed n m * m - length bs \<and>
     (length bs \<le> m \<longrightarrow> writer_gap w = m - length bs)"

lemma frame_writerD:
  assumes "frame_writer m a n bs w"
  shows "message_writer (acl_conn_handle a) 0 m (packets_needed n m) n w" "writer_ok w" "writer_out w = bs"
    "writer_room w = packets_needed n m * m - length bs" "length bs \<le> m \<Longrightarrow> writer_gap w = m - length bs"
  using assms by (simp_all add: frame_writer_def)

lemma frame_writer_ptr:
  assumes "frame_writer m a n bs w" "length hs = unat k" "0 < unat k" "length bs + length hs \<le> m"
  shows "\<exists>off w1 w2. bte_buffer_writer_ptr_n w k = Some (Some off, w1) \<and> writer_poke w1 off hs = Some w2 \<and>
    frame_writer m a n (bs @ hs) w2"
proof -
  note w = frame_writerD [OF assms(1)]
  have gap: "writer_gap w = m - length bs" using w(5) assms(4) by simp
  have "unat k \<le> writer_gap w" using gap assms(2,4) by simp
  from writer_ptr_fills [OF w(2) assms(2,3) this]
  obtain off w1 w2 where w2: "bte_buffer_writer_ptr_n w k = Some (Some off, w1)" "writer_poke w1 off hs = Some w2"
      "writer_ok w2" "same_frames w w2" "writer_out w2 = writer_out w @ hs"
      "writer_room w2 = writer_room w - length hs" "writer_gap w2 = writer_gap w - length hs"
    by blast
  have "frame_writer m a n (bs @ hs) w2"
    unfolding frame_writer_def
    using message_writer_step [OF w(1) w2(4,3)] w2(3,5,6,7) w(3,4) gap by simp
  with w2(1,2) show ?thesis by blast
qed

lemma frame_writer_write:
  assumes "frame_writer m a n bs w" "length body = unat k" "length bs + length body = n"
  shows "\<exists>w'. bte_buffer_writer_write w body k = Some (True, w') \<and>
    message_writer (acl_conn_handle a) 0 m (packets_needed n m) n w' \<and> writer_out w' = bs @ body"
proof -
  note w = frame_writerD [OF assms(1)]
  have "n \<le> packets_needed n m * m" using w(1) unfolding message_writer_def by blast
  then have "unat k \<le> writer_room w" using assms(2,3) w(4) by simp
  from writer_write_fills [OF w(2) assms(2) this]
  obtain w' where w': "bte_buffer_writer_write w body k = Some (True, w')" "writer_ok w'" "same_frames w w'"
      "writer_out w' = writer_out w @ body" by blast
  show ?thesis using w'(1,4) message_writer_step [OF w(1) w'(3,2)] unfolding w(3) by blast
qed

lemma unat_add4: "unat (sz :: u16) + 4 < 65536 \<Longrightarrow> unat (4 + sz) = unat sz + 4"
  by (simp add: unat_word_ariths)

lemma create_frame:
  assumes "link_ready m acl a s" "fits m (unat sz + 4)"
  shows "\<exists>w. acl_l2cap_create_message LE acl sz cid s = Some (Some w) \<and>
    frame_writer m a (unat sz + 4) (le_bytes 2 sz @ le_bytes 2 cid) w"
proof -
  have m: "acl_heap s acl = Some a" "unat (acl_mtu s) = m + 4" "8 \<le> m" "m + 4 + sizeof_BteBuffer < 65536"
    using assms(1) by (simp_all add: link_ready_def)
  have "unat sz + 4 < 65536" by (rule fits_bound [OF assms(2)]) (use m(3) in simp_all)
  then have n: "unat (4 + sz) = unat sz + 4" by (intro unat_add4) simp
  then have nz: "4 + sz \<noteq> 0" by (metis add_is_0 unat_0 zero_neq_numeral)
  have ft: "packets_needed (unat (4 + sz)) m * (m + 4) < 65536" using assms(2) unfolding n fits_def .
  have m0: "0 < m" using m(3) by simp
  from create_message_spec [OF m(1,2) m0 nz ft m(4), of "le_hci LE" 0]
  obtain w where w: "bte_acl_create_message (le_hci LE) acl (4 + sz) 0 s = Some (Some w)"
      "message_writer (acl_conn_handle a) 0 m (packets_needed (unat sz + 4) m) (unat sz + 4) w" "writer_out w = []"
      "writer_room w = packets_needed (unat sz + 4) m * m" "writer_gap w = m"
    unfolding n by blast
  have "writer_ok w" using w(2) unfolding message_writer_def by blast
  then have fw: "frame_writer m a (unat sz + 4) [] w" unfolding frame_writer_def using w(2-5) by simp
  obtain off w1 w2 where "bte_buffer_writer_ptr_n w 4 = Some (Some off, w1)"
      "writer_poke w1 off (le_bytes 2 sz @ le_bytes 2 cid) = Some w2"
      "frame_writer m a (unat sz + 4) ([] @ le_bytes 2 sz @ le_bytes 2 cid) w2"
    using frame_writer_ptr [OF fw, of "le_bytes 2 sz @ le_bytes 2 cid" 4] m(3) by auto
  then show ?thesis using w(1) by (simp add: acl_l2cap_create_message_def Let_def)
qed

lemma create_command:
  assumes "link_ready m acl a s" "fits m (unat sz + 8)"
  shows "\<exists>w. acl_l2cap_create_cmd LE acl code ident sz s = Some (Some w) \<and>
    frame_writer m a (unat sz + 8) (le_bytes 2 (sz + 4) @ le_bytes 2 (1 :: u16) @ [code, ident] @ le_bytes 2 sz) w"
proof -
  have m: "8 \<le> m" using assms(1) by (simp add: link_ready_def)
  have "unat sz + 8 < 65536" by (rule fits_bound [OF assms(2)]) (use m in simp_all)
  then have n: "unat (4 + sz) = unat sz + 4" by (intro unat_add4) simp
  have e: "unat sz + 4 + 4 = unat sz + 8" by simp
  obtain w where w: "acl_l2cap_create_message LE acl (4 + sz) 1 s = Some (Some w)"
      "frame_writer m a (unat sz + 8) (le_bytes 2 (4 + sz) @ le_bytes 2 (1 :: u16)) w"
    using create_frame [OF assms(1), of "4 + sz" LE 1, unfolded n e, OF assms(2)] by blast
  obtain off w1 w2 where "bte_buffer_writer_ptr_n w 4 = Some (Some off, w1)"
      "writer_poke w1 off ([code, ident] @ le_bytes 2 sz) = Some w2"
      "frame_writer m a (unat sz + 8) ((le_bytes 2 (4 + sz) @ le_bytes 2 (1 :: u16)) @ [code, ident] @ le_bytes 2 sz) w2"
    using frame_writer_ptr [OF w(2), of "[code, ident] @ le_bytes 2 sz" 4] m by auto
  then show ?thesis using w(1) by (simp add: acl_l2cap_create_cmd_def Let_def add.commute)
qed

lemma command_bytes:
  assumes "length bs = unat (len :: u16)"
  shows "(le_bytes 2 (len + 4) @ le_bytes 2 (1 :: u16) @ [code, ident] @ le_bytes 2 len) @ bs =
    l2cap_frame 1 (signal_command code ident bs)"
  using assms by (simp add: l2cap_frame_def signal_command_def add.commute)


text \<open>A message that is complete is handed over as its packets.\<close>

lemma frame_sent:
  assumes "message_writer (acl_conn_handle a) 0 m (packets_needed n m) n w" "length (writer_out w) = n"
    "chain_ok (outgoing_acl_packets s)"
  shows "\<exists>c rc s'. bte_buffer_writer_end w = Some c \<and> bte_acl_send_message E c s = Some (rc, s') \<and>
    hands_over (acl_fragments (acl_conn_handle a) 0 m 2 (writer_out w)) s s'"
proof -
  obtain c where c: "bte_buffer_writer_end w = Some c" "chain_ok c" "c \<noteq> []"
      "map packet_bytes c = acl_fragments (acl_conn_handle a) 0 m 2 (writer_out w)"
    using message_end [OF assms(1,2)] by blast
  then show ?thesis using send_message_hands_over [OF assms(3) c(2,3), of E] by auto
qed

lemma cmd_reply_spec:
  assumes "link_ready m acl a s" "length bs = unat len" "fits m (length bs + 8)"
  shows "\<exists>s'. acl_l2cap_cmd_reply LE acl code ident bs len s = Some (True, s') \<and>
    hands_over (signal_packets m a code ident bs) s s'"
proof -
  have q: "chain_ok (outgoing_acl_packets s)" using assms(1) by (simp add: link_ready_def)
  obtain w where w: "acl_l2cap_create_cmd LE acl code ident len s = Some (Some w)"
      "frame_writer m a (unat len + 8) (le_bytes 2 (len + 4) @ le_bytes 2 (1 :: u16) @ [code, ident] @ le_bytes 2 len) w"
    using create_command [OF assms(1)] assms(2,3) by metis
  obtain w' where w': "bte_buffer_writer_write w bs len = Some (True, w')"
      "message_writer (acl_conn_handle a) 0 m (packets_needed (unat len + 8) m) (unat len + 8) w'"
      "writer_out w' = l2cap_frame 1 (signal_command code ident bs)"
    using frame_writer_write [OF w(2) assms(2)] assms(2) unfolding command_bytes [OF assms(2)] by auto
  have "length (writer_out w') = unat len + 8" using w'(3) assms(2) by simp
  from frame_sent [OF w'(2) this q, of "le_hci LE"]
  show ?thesis using w(1) w'(1,3) by (auto simp: acl_l2cap_cmd_reply_def)
qed

text \<open>A command that is built in place: its payload has to lie in the first packet.\<close>

lemma signal_spec:
  assumes "link_ready m acl a s" "length bs = unat sz" "0 < unat sz" "length bs + 8 \<le> m" "fits m (length bs + 8)"
  shows "\<exists>c. acl_l2cap_signal LE acl code bs sz s = Some (Some c, snd (next_signal_id s)) \<and> chain_ok c \<and> c \<noteq> [] \<and>
    map packet_bytes c = signal_packets m a code (fst (next_signal_id s)) bs"
proof -
  let ?i = "fst (next_signal_id s)" and ?s = "snd (next_signal_id s)"
  have r: "link_ready m acl a ?s" using assms(1) by (simp add: link_ready_def next_signal_id_def Let_def)
  obtain w where w: "acl_l2cap_create_cmd LE acl code ?i sz ?s = Some (Some w)"
      "frame_writer m a (unat sz + 8) (le_bytes 2 (sz + 4) @ le_bytes 2 (1 :: u16) @ [code, ?i] @ le_bytes 2 sz) w"
    using create_command [OF r] assms(2,5) by metis
  obtain off w1 w2 where w2: "bte_buffer_writer_ptr_n w sz = Some (Some off, w1)" "writer_poke w1 off bs = Some w2"
      "frame_writer m a (unat sz + 8) (l2cap_frame 1 (signal_command code ?i bs)) w2"
    using frame_writer_ptr [OF w(2) assms(2,3)] assms(4) unfolding command_bytes [OF assms(2)] by auto
  note fw = frame_writerD [OF w2(3)]
  have "length (writer_out w2) = unat sz + 8" using fw(3) assms(2) by simp
  from message_end [OF fw(1) this]
  obtain c where c: "bte_buffer_writer_end w2 = Some c" "chain_ok c" "c \<noteq> []"
      "map packet_bytes c = signal_packets m a code ?i bs" unfolding fw(3) by blast
  have "sz \<noteq> 0" using assms(3) by auto
  moreover have "slice bs 0 (unat sz) = Some bs" using assms(2) by (simp add: slice_def)
  ultimately have "acl_l2cap_signal LE acl code bs sz s = Some (Some c, ?s)"
    using w(1) w2(1,2) c(1) by (simp add: acl_l2cap_signal_def case_prod_unfold del: writer_poke.simps)
  with c show ?thesis by blast
qed

section \<open>Channels in the heap\<close>

definition set_l2cap :: "nat \<Rightarrow> bte_l2cap \<Rightarrow> 'c ldev \<Rightarrow> 'c ldev" where
  "set_l2cap l2cap l s = s\<lparr>l2cap_heap := (l2cap_heap s)(l2cap \<mapsto> l)\<rparr>"

lemma set_l2cap_simps [simp]:
  "l2cap_heap (set_l2cap p l s) = (l2cap_heap s)(p \<mapsto> l)" "acl_heap (set_l2cap p l s) = acl_heap s"
  "set_l2cap p l (set_l2cap p k s) = set_l2cap p l s" "acl_mtu (set_l2cap p l s) = acl_mtu s"
  "outgoing_acl_packets (set_l2cap p l s) = outgoing_acl_packets s" "s_last_signal_id (set_l2cap p l s) = s_last_signal_id s"
  "data_wire (set_l2cap p l s) = data_wire s" "s_next_local_channel_id (set_l2cap p l s) = s_next_local_channel_id s"
  by (simp_all add: set_l2cap_def)

lemma put_l2cap_eq: "l2cap_heap s p = Some l \<Longrightarrow> put_l2cap p k s = Some (set_l2cap p k s)"
  by (simp add: put_l2cap_def set_l2cap_def)

lemma upd_l2cap_eq: "l2cap_heap s p = Some l \<Longrightarrow> upd_l2cap f p s = Some (set_l2cap p (f l) s)"
  by (simp add: upd_l2cap_def put_l2cap_eq)

lemma set_l2cap_same: "l2cap_heap s p = Some l \<Longrightarrow> set_l2cap p l s = s"
  by (simp add: set_l2cap_def map_upd_triv)

lemma link_ready_set [simp]:
  "link_ready m acl a (set_l2cap p l s) = link_ready m acl a s"
  "link_ready m acl a (s\<lparr>s_last_signal_id := i\<rparr>) = link_ready m acl a s"
  "link_ready m acl a (s\<lparr>s_next_local_channel_id := j\<rparr>) = link_ready m acl a s"
  by (simp_all add: link_ready_def)

lemma hands_over_heap:
  assumes "hands_over pkts s s'"
  shows "l2cap_heap s' = l2cap_heap s" "acl_heap s' = acl_heap s" "acls s' = acls s" "acl_mtu s' = acl_mtu s"
    "s_last_signal_id s' = s_last_signal_id s" "chain_ok (outgoing_acl_packets s')"
  using assms by (auto simp: hands_over_def)

lemma hands_over_ready: "hands_over pkts s s' \<Longrightarrow> link_ready m acl a s \<Longrightarrow> link_ready m acl a s'"
  by (auto simp: hands_over_def link_ready_def)

lemma next_signal_id_eq: "next_signal_id s = (fst (next_signal_id s), s\<lparr>s_last_signal_id := fst (next_signal_id s)\<rparr>)"
  by (simp add: next_signal_id_def Let_def)

lemma next_signal_id_nz: "fst (next_signal_id s) \<noteq> 0"
proof -
  have "b + 1 \<noteq> 0" if "b \<noteq> 0xff" for b :: byte
  proof
    assume "b + 1 = 0"
    then have "b = - 1" by (simp add: eq_neg_iff_add_eq_0)
    with that show False by simp
  qed
  then show ?thesis by (simp add: next_signal_id_def Let_def)
qed


section \<open>Requests\<close>

text \<open>A backend that accepts every packet.\<close>

definition accepting :: "'s hci_env \<Rightarrow> bool" where
  "accepting E \<longleftrightarrow> (\<forall>w p. 0 \<le> be_hci_send_data E w p)"

lemma accepting_rcs: "accepting E \<Longrightarrow> list_all (\<lambda>rc. 0 \<le> rc) (send_rcs (be_hci_send_data E) w ps)"
  by (induction ps arbitrary: w) (simp_all add: accepting_def)

lemma send_l2cap_spec:
  assumes "accepting (le_hci LE)" "chain_ok (outgoing_acl_packets s)" "chain_ok c" "c \<noteq> []"
  shows "\<exists>s'. send_l2cap LE c s = Some (True, s') \<and> hands_over (map packet_bytes c) s s'"
proof -
  obtain rc s' where s': "bte_acl_send_message (le_hci LE) c s = Some (rc, s')" "hands_over (map packet_bytes c) s s'"
    using send_message_hands_over [OF assms(2-4)] by blast
  moreover have "0 \<le> rc"
    using send_message_spec [OF assms(2-4) refl refl, of "le_hci LE"] accepting_rcs [OF assms(1)] s'(1)
    by (auto split: if_splits)
  ultimately show ?thesis by (simp add: send_l2cap_def)
qed

text \<open>The channel after a request with this code and identifier.\<close>

definition awaiting :: "byte \<Rightarrow> byte \<Rightarrow> bte_l2cap \<Rightarrow> bte_l2cap" where
  "awaiting code ident l = l\<lparr>expected_response_code := code + 1, expected_response_id := ident,
     expected_response_count := expected_response_count l + 1\<rparr>"

text \<open>A channel on a link, and a payload that fits into the first packet after the headers.\<close>

definition can_signal :: "nat \<Rightarrow> nat \<Rightarrow> bte_acl \<Rightarrow> nat \<Rightarrow> bte_l2cap \<Rightarrow> nat \<Rightarrow> 'c ldev \<Rightarrow> bool" where
  "can_signal m acl a p l n s \<longleftrightarrow> link_ready m acl a s \<and> l2cap_heap s p = Some l \<and> l_acl l = Some acl \<and>
     0 < n \<and> n + 8 \<le> m \<and> fits m (n + 8)"

lemma channel_signal_spec:
  assumes "can_signal m acl a p l (unat sz) s" "length bs = unat sz"
    and i: "i = fst (next_signal_id s)"
  shows "\<exists>c. l2cap_signal LE p code bs sz s =
      Some (Some c, set_l2cap p (awaiting code i l) (s\<lparr>s_last_signal_id := i\<rparr>)) \<and>
    chain_ok c \<and> c \<noteq> [] \<and> map packet_bytes c = signal_packets m a code i bs"
proof -
  have h: "link_ready m acl a s" "l2cap_heap s p = Some l" "l_acl l = Some acl" "0 < unat sz" "length bs + 8 \<le> m"
      "fits m (length bs + 8)"
    using assms(1,2) by (simp_all add: can_signal_def)
  have s': "snd (next_signal_id s) = s\<lparr>s_last_signal_id := i\<rparr>"
    using arg_cong [OF next_signal_id_eq, of snd s] by (simp add: i)
  obtain c where c: "acl_l2cap_signal LE acl code bs sz s = Some (Some c, s\<lparr>s_last_signal_id := i\<rparr>)" "chain_ok c" "c \<noteq> []"
      "map packet_bytes c = signal_packets m a code i bs"
    using signal_spec [OF h(1) assms(2) h(4-6), of LE code] unfolding s' i by blast
  moreover have "l2cap_signal LE p code bs sz s =
      Some (Some c, set_l2cap p (awaiting code i l) (s\<lparr>s_last_signal_id := i\<rparr>))"
    using h(2,3) c(1) by (simp add: l2cap_signal_def upd_l2cap_eq awaiting_def)
  ultimately show ?thesis by blast
qed

text \<open>A request that is sent at once, with what is done to the channel afterwards.\<close>

lemma request_sent:
  assumes "can_signal m acl a p l (unat sz) s" "length bs = unat sz" "accepting (le_hci LE)"
    and i: "i = fst (next_signal_id s)"
  shows "\<exists>c s1. l2cap_signal LE p code bs sz s =
      Some (Some c, set_l2cap p (awaiting code i l) (s\<lparr>s_last_signal_id := i\<rparr>)) \<and>
    send_l2cap LE c (set_l2cap p (awaiting code i l) (s\<lparr>s_last_signal_id := i\<rparr>)) = Some (True, s1) \<and>
    hands_over (signal_packets m a code i bs) (set_l2cap p (awaiting code i l) (s\<lparr>s_last_signal_id := i\<rparr>)) s1"
proof -
  obtain c where c: "l2cap_signal LE p code bs sz s =
      Some (Some c, set_l2cap p (awaiting code i l) (s\<lparr>s_last_signal_id := i\<rparr>))"
      "chain_ok c" "c \<noteq> []" "map packet_bytes c = signal_packets m a code i bs"
    using channel_signal_spec [OF assms(1,2,4)] by blast
  have "chain_ok (outgoing_acl_packets (set_l2cap p (awaiting code i l) (s\<lparr>s_last_signal_id := i\<rparr>)))"
    using assms(1) by (simp add: can_signal_def link_ready_def)
  from send_l2cap_spec [OF assms(3) this c(2,3)] show ?thesis using c(1,4) by auto
qed


section \<open>Receiving\<close>

lemma read_n_lead:
  assumes "reader_ok r" "0 < unat n" "unat n \<le> length (reader_lead r)"
  shows "\<exists>r'. bte_buffer_reader_read_n r n = Some (Some (take (unat n) (reader_lead r)), r') \<and> reader_ok r' \<and>
    reader_stream r' = drop (unat n) (reader_stream r)"
proof -
  obtain p ps where p: "r_packet r = p # ps" using assms(1) by (cases "r_packet r") (auto simp: reader_ok_def)
  let ?q = "unat (r_pos_in_packet r)"
  have ok: "?q \<le> unat (size p)" "unat (size p) \<le> length (data p)" using assms(1) p by (simp_all add: reader_ok_def)
  have ld: "reader_lead r = drop ?q (take (unat (size p)) (data p))" using p by (simp add: reader_lead_def)
  have n: "?q + unat n \<le> unat (size p)" using assms(3) ld ok by simp
  have "\<not> r_pos_in_packet r \<ge> size p" using n assms(2) by (simp add: word_le_nat_alt)
  moreover have "\<not> uint n > uint (size p) - uint (r_pos_in_packet r)"
    using n by (simp add: uint_nat del: of_nat_unat)
  moreover have sl: "slice (data p) ?q (unat n) = Some (take (unat n) (reader_lead r))"
    using n ok by (simp add: slice_def ld drop_take)
  ultimately have "bte_buffer_reader_read_n r n =
      Some (Some (take (unat n) (reader_lead r)), r\<lparr>r_pos_in_packet := r_pos_in_packet r + n\<rparr>)"
    using p by (simp add: bte_buffer_reader_read_n_def)
  moreover from reader_read_n_spec [OF assms(1), of n] this
  have "reader_ok (r\<lparr>r_pos_in_packet := r_pos_in_packet r + n\<rparr>)"
      "reader_stream (r\<lparr>r_pos_in_packet := r_pos_in_packet r + n\<rparr>) = drop (unat n) (reader_stream r)"
    by auto
  ultimately show ?thesis by blast
qed

lemma read_frame_header:
  assumes "reader_ok r" "reader_lead r = take m (l2cap_frame cid body)" "4 \<le> m"
  shows "\<exists>header r'. bte_buffer_reader_read_n r 4 = Some (Some header, r') \<and> reader_ok r' \<and>
    reader_stream r' = drop 4 (reader_stream r) \<and>
    read_le16 header 0 = Some (of_nat (length body)) \<and> read_le16 header 2 = Some cid"
proof -
  have "take 4 (reader_lead r) = le_bytes 2 (of_nat (length body) :: u16) @ le_bytes 2 cid"
    unfolding assms(2) using assms(3) by (simp add: l2cap_frame_def min_def)
  moreover have "4 \<le> length (reader_lead r)" using assms(2,3) by simp
  ultimately obtain r' where "bte_buffer_reader_read_n r 4 =
        Some (Some (le_bytes 2 (of_nat (length body) :: u16) @ le_bytes 2 cid), r')"
      "reader_ok r'" "reader_stream r' = drop 4 (reader_stream r)"
    using read_n_lead [OF assms(1), of 4] by auto
  then show ?thesis by (auto simp: read_le16_def slice_def le_val_bytes)
qed

text \<open>What the check of incoming data accepts: a command of at most the default size, or a message of a channel within its MTU.\<close>

definition admits :: "nat \<Rightarrow> u16 \<Rightarrow> nat \<Rightarrow> 'c ldev \<Rightarrow> bool" where
  "admits acl cid n s \<longleftrightarrow>
     (if cid = BTE_L2CAP_CHANNEL_ID_SIGNALLING then n \<le> 672
      else case l2cap_for_local_channel acl cid s of
        Some (Some p) \<Rightarrow> (case l2cap_heap s p of Some l \<Rightarrow> n \<le> unat (l_mtu l) | None \<Rightarrow> False)
      | _ \<Rightarrow> False)"

lemma check_cb_accepts:
  assumes "reader_ok r" "reader_lead r = take m (l2cap_frame cid body)" "4 \<le> m" "length body < 65536"
    "admits acl cid (length body) s"
  shows "acl_incoming_data_check_cb acl r s = Some (int (length (l2cap_frame cid body)), s)"
proof -
  have u: "unat (of_nat (length body) :: u16) = length body" by (rule u16_of_nat [OF assms(4)])
  show ?thesis
    using read_frame_header [OF assms(1-3)] assms(5) u
    by (auto simp: acl_incoming_data_check_cb_def admits_def word_le_nat_alt split: if_splits option.splits)
qed

text \<open>A link that has its callbacks and no message in progress.\<close>

definition link_idle :: "nat \<Rightarrow> bte_acl \<Rightarrow> 'b adev \<Rightarrow> bool" where
  "link_idle acl a s \<longleftrightarrow> receiving acl a Acl_data_received_cb s \<and> fragmented_message a = [] \<and>
     fragmented_message_size a = 0 \<and> incoming_data_check_cb a = Some Acl_incoming_data_check_cb"

text \<open>The link after the size of a message has been noted.\<close>

abbreviation noted :: "nat \<Rightarrow> bte_acl \<Rightarrow> mem \<Rightarrow> 'b adev \<Rightarrow> 'b adev" where
  "noted acl a F s \<equiv> set_acl acl (a\<lparr>reassembled_message_size := of_nat (length F)\<rparr>) s"

lemma receive_frame:
  assumes "link_idle acl a s" "admits acl cid (length body) s" "4 \<le> m" "m + 4 < 65536" "length body + 4 < 65535"
  shows "\<exists>r. reader_ok r \<and> reader_stream r = l2cap_frame cid body \<and> reader_lead r = take m (l2cap_frame cid body) \<and>
    receive_all (l2cap_dispatch LE) (map packet_in (acl_fragments (acl_conn_handle a) bc m 2 (l2cap_frame cid body))) s =
      acl_data_received_cb LE acl r (noted acl a (l2cap_frame cid body) s)"
proof -
  let ?F = "l2cap_frame cid body"
  have l: "receiving acl a Acl_data_received_cb s" "fragmented_message a = []" "fragmented_message_size a = 0"
      "incoming_data_check_cb a = Some Acl_incoming_data_check_cb" using assms(1) by (simp_all add: link_idle_def)
  have "\<exists>r. reader_ok r \<and> reader_stream r = ?F \<and> reader_lead r = take m ?F \<and>
      receive_all (l2cap_dispatch LE) (map packet_in (acl_fragments (acl_conn_handle a) bc m 2 ?F)) s =
        ad_received (l2cap_dispatch LE) Acl_data_received_cb acl r (noted acl a ?F s)"
  proof (rule receive_message [OF l(1-4)])
    show "ad_check (l2cap_dispatch LE) Acl_incoming_data_check_cb acl r s = Some (int (length ?F), s)"
      if "reader_ok r" "reader_lead r = take m ?F" for r
      using check_cb_accepts [OF that assms(3) _ assms(2)] assms(5) by (simp add: l2cap_dispatch_def)
    show "?F \<noteq> []" using frame_len(1) [of cid body] by (metis add_is_0 list.size(3) zero_neq_numeral)
  qed (use assms(3-5) in simp_all)
  then show ?thesis by (simp add: l2cap_dispatch_def)
qed

text \<open>Noting the size changes nothing that a channel depends on.\<close>

lemma for_channel_noted [simp]:
  "acl_heap s acl = Some a \<Longrightarrow>
   l2cap_for_local_channel acl cid (set_acl acl (a\<lparr>reassembled_message_size := n\<rparr>) s) = l2cap_for_local_channel acl cid s"
  by (simp add: l2cap_for_local_channel_def set_acl_def)

lemma noted_heap [simp]: "l2cap_heap (set_acl acl a s) = l2cap_heap s"
  by (simp add: set_acl_def)

lemma receive_channel_message:
  assumes "link_idle acl a s" "4 \<le> m" "m + 4 < 65536" "length body + 4 < 65535"
    "l2cap_for_local_channel acl cid s = Some (Some p)" "l2cap_heap s p = Some l" "length body \<le> unat (l_mtu l)"
    "message_received_cb l = Some f" "cid \<noteq> 1"
  shows "\<exists>r. reader_ok r \<and> reader_stream r = body \<and>
    receive_all (l2cap_dispatch LE) (map packet_in (acl_fragments (acl_conn_handle a) bc m 2 (l2cap_frame cid body))) s =
      le_client LE \<lparr>lc_cb = f, lc_l2cap = Some p, lc_arg = Message_received r, lc_userdata = l_userdata l\<rparr>
        (noted acl a (l2cap_frame cid body) s)"
proof -
  have ad: "admits acl cid (length body) s" using assms(5-7,9) by (simp add: admits_def)
  obtain r where r: "reader_ok r" "reader_stream r = l2cap_frame cid body" "reader_lead r = take m (l2cap_frame cid body)"
    "receive_all (l2cap_dispatch LE) (map packet_in (acl_fragments (acl_conn_handle a) bc m 2 (l2cap_frame cid body))) s =
      acl_data_received_cb LE acl r (noted acl a (l2cap_frame cid body) s)"
    using receive_frame [OF assms(1) ad assms(2-4)] by blast
  obtain header r' where h: "bte_buffer_reader_read_n r 4 = Some (Some header, r')" "reader_ok r'"
      "reader_stream r' = drop 4 (reader_stream r)" "read_le16 header 0 = Some (of_nat (length body))"
      "read_le16 header 2 = Some cid"
    using read_frame_header [OF r(1,3) assms(2)] by blast
  have a: "acl_heap s acl = Some a" using assms(1) by (simp add: link_idle_def receiving_def)
  have "acl_data_received_cb LE acl r (noted acl a (l2cap_frame cid body) s) =
      le_client LE \<lparr>lc_cb = f, lc_l2cap = Some p, lc_arg = Message_received r', lc_userdata = l_userdata l\<rparr>
        (noted acl a (l2cap_frame cid body) s)"
    using h(1,4,5) assms(5,6,8,9) a by (simp add: acl_data_received_cb_def call_l2cap_def)
  moreover have "reader_stream r' = body" using h(3) r(2) by (simp add: l2cap_frame_def)
  ultimately show ?thesis using r(4) h(2) by auto
qed


text \<open>A command that is alone in its frame is handled once, with a reader on its payload.\<close>

definition handle_command ::
    "'c lenv \<Rightarrow> nat \<Rightarrow> byte \<Rightarrow> byte \<Rightarrow> bte_buffer_reader \<Rightarrow> u16 \<Rightarrow> 'c ldev \<Rightarrow> (bool \<times> bte_buffer_reader \<times> 'c ldev) option" where
  "handle_command LE acl code ident r len s =
     (if code mod 2 = 0 then acl_l2cap_handle_request LE acl code ident r len s
      else acl_l2cap_handle_response LE acl code ident r len s)"

lemma signal_loop_done: "\<not> parsed < tot \<Longrightarrow> signal_loop LE acl tot parsed r s = Some s"
  by (subst signal_loop.simps) simp

lemma signal_loop_step:
  assumes "reader_ok r" "reader_stream r = signal_command code ident body @ rest" "parsed < tot" "length body < 65536"
  shows "\<exists>r1. reader_ok r1 \<and> reader_stream r1 = body @ rest \<and>
    signal_loop LE acl tot parsed r s =
      handle_command LE acl code ident r1 (of_nat (length body)) s \<bind>
        (\<lambda>(_, r', s'). signal_loop LE acl tot (parsed + 4 + of_nat (length body)) r' s')"
proof -
  obtain r1 where r1: "bte_buffer_reader_read True r 4 = Some (take 4 (reader_stream r),
        of_nat (min 4 (length (reader_stream r))), r1)" "reader_ok r1" "reader_stream r1 = drop 4 (reader_stream r)"
    using bte_src.rd_law [OF assms(1), of 4] by auto
  have hd: "take 4 (reader_stream r) = [code, ident] @ le_bytes 2 (of_nat (length body) :: u16)"
      "min 4 (length (reader_stream r)) = 4" "drop 4 (reader_stream r) = body @ rest"
    unfolding assms(2) signal_command_def by simp_all
  have "rd8 ([code, ident] @ le_bytes 2 (of_nat (length body) :: u16)) 0 = Some code"
      "rd8 ([code, ident] @ le_bytes 2 (of_nat (length body) :: u16)) 1 = Some ident"
      "read_le16 ([code, ident] @ le_bytes 2 (of_nat (length body) :: u16)) 2 = Some (of_nat (length body))"
    by (simp_all add: rd8_def read_le16_def slice_def le_val_bytes)
  then have "signal_loop LE acl tot parsed r s =
      handle_command LE acl code ident r1 (of_nat (length body)) s \<bind>
        (\<lambda>(_, r', s'). signal_loop LE acl tot (parsed + 4 + of_nat (length body)) r' s')"
    using assms(3) r1(1) unfolding hd by (subst signal_loop.simps) (simp add: handle_command_def)
  then show ?thesis using r1(2,3) hd(3) by auto
qed

lemma single_command:
  assumes "reader_ok r" "reader_stream r = signal_command code ident body" "length body + 4 < 65536"
  shows "\<exists>r1. reader_ok r1 \<and> reader_stream r1 = body \<and>
    signal_loop LE acl (of_nat (length body + 4)) 0 r s =
      map_option (\<lambda>(_, _, s'). s') (handle_command LE acl code ident r1 (of_nat (length body)) s)"
proof -
  have pos: "(0 :: u16) < of_nat (length body + 4)"
    using u16_of_nat [OF assms(3)] by (simp add: word_less_nat_alt del: of_nat_add)
  have st: "reader_stream r = signal_command code ident body @ []" and len: "length body < 65536"
    using assms(2,3) by simp_all
  from signal_loop_step [OF assms(1) st pos len, of LE acl s]
  obtain r1 where r1: "reader_ok r1" "reader_stream r1 = body"
      "signal_loop LE acl (of_nat (length body + 4)) 0 r s =
        handle_command LE acl code ident r1 (of_nat (length body)) s \<bind>
          (\<lambda>(_, r', s'). signal_loop LE acl (of_nat (length body + 4)) (0 + 4 + of_nat (length body)) r' s')"
    unfolding append_Nil2 by blast
  moreover have "signal_loop LE acl (of_nat (length body + 4)) (0 + 4 + of_nat (length body)) r' s' = Some s'" for r' s'
    by (rule signal_loop_done) (simp add: add.commute)
  ultimately show ?thesis by (auto split: Option.bind_splits)
qed

lemma receive_command:
  assumes "link_idle acl a s" "4 \<le> m" "m + 4 < 65536" "length body + 4 \<le> 672"
  shows "\<exists>r. reader_ok r \<and> reader_stream r = body \<and>
    receive_all (l2cap_dispatch LE) (map packet_in (acl_fragments (acl_conn_handle a) bc m 2
        (l2cap_frame 1 (signal_command code ident body)))) s =
      map_option (\<lambda>(_, _, s'). s') (handle_command LE acl code ident r (of_nat (length body))
        (noted acl a (l2cap_frame 1 (signal_command code ident body)) s))"
proof -
  let ?C = "signal_command code ident body"
  have ad: "admits acl 1 (length ?C) s" using assms(4) by (simp add: admits_def)
  have len: "length ?C + 4 < 65535" "length body + 4 < 65536" using assms(4) by simp_all
  obtain r where r: "reader_ok r" "reader_stream r = l2cap_frame 1 ?C" "reader_lead r = take m (l2cap_frame 1 ?C)"
    "receive_all (l2cap_dispatch LE) (map packet_in (acl_fragments (acl_conn_handle a) bc m 2 (l2cap_frame 1 ?C))) s =
      acl_data_received_cb LE acl r (noted acl a (l2cap_frame 1 ?C) s)"
    using receive_frame [OF assms(1) ad assms(2,3) len(1)] by blast
  obtain header r' where h: "bte_buffer_reader_read_n r 4 = Some (Some header, r')" "reader_ok r'"
      "reader_stream r' = drop 4 (reader_stream r)" "read_le16 header 0 = Some (of_nat (length ?C))"
      "read_le16 header 2 = Some 1"
    using read_frame_header [OF r(1,3) assms(2)] by blast
  have st: "reader_stream r' = ?C" using h(3) r(2) by (simp add: l2cap_frame_def)
  have "acl_data_received_cb LE acl r (noted acl a (l2cap_frame 1 ?C) s) =
      signal_loop LE acl (of_nat (length ?C)) 0 r' (noted acl a (l2cap_frame 1 ?C) s)"
    using h(1,4,5) by (simp add: acl_data_received_cb_def)
  then show ?thesis using single_command [OF h(2) st len(2), of LE acl] r(4) by auto
qed

end
