(* ===== verification/L2capExchange.thy ===== *)
theory L2capExchange
  imports L2capFrame
begin

text \<open>
  Two hosts: a message that one sends arrives at the channel of the other, and an information request
  is answered and its answer delivered.
\<close>

section \<open>A small host\<close>

definition demo_channel :: bte_l2cap where
  "demo_channel = \<lparr>l_ref_count = 1, l_userdata = 7, l_acl = Some 5, l_psm = 1, remote_channel_id = 0x41,
     local_channel_id = 0x40, l_mtu = 672, l_remote_mtu = 48, expected_response_code = 0, expected_response_id = 0,
     expected_response_count = 0, l_state = BTE_L2CAP_OPEN, state_changed_cb = None, configure_cb = None,
     configure_req = None, configure_resp = None, message_received_cb = Some 9, echo_cb = None, disconnect_cb = None,
     acl_disconnect_cb = None, cmd_client_cb = None, cmd_userdata = 0\<rparr>"

definition demo_l2cap_dev :: l2cap_dev where
  "demo_l2cap_dev = acl_dev.extend (demo_acl_dev\<lparr>acl_mtu := 24,
       acl_heap := [5 \<mapsto> demo_acl\<lparr>acl_tail := [Some 30, None, None, None]\<rparr>]\<rparr>)
     (l2cap_dev.fields [30 \<mapsto> demo_channel] Map.empty 0x42 0 0 None)"

text \<open>A client that notes the bytes of a message, or its callback for anything else.\<close>

definition demo_l2cap_env :: "l2cap_dev l2cap_env" where
  "demo_l2cap_env =
     \<lparr>le_hci = \<lparr>env_client = \<lambda>c s. Some (False, s), env_fresh = \<lambda>s i. 0xee, be_init = \<lambda>s. 0,
        be_hci_send_command = \<lambda>_ _. 0, be_hci_send_data = \<lambda>_ _. 0, be_deinit = id, driver_init = \<lambda>s. Some (0, s)\<rparr>,
      le_client = \<lambda>c s. Some (s\<lparr>data_wire := [case lc_arg c of Message_received r \<Rightarrow> reader_stream r | _ \<Rightarrow> [of_nat (lc_cb c)]]\<rparr>),
      le_echo = \<lambda>_ _ r _ s. Some (r, s), le_connection_req = \<lambda>_ _ _ _ s. Some (None, s),
      le_echo_req = \<lambda>_ _ r _ s. Some (False, r, s),
      le_fresh_reply = \<lambda>_. \<lparr>cy_rejected_mask = 0, cy_unknown_mask = 0, cy_params = zero_params\<rparr>\<rparr>"

lemma demo_l2cap_simps [simp]:
  "acl_heap demo_l2cap_dev 5 = Some (demo_acl\<lparr>acl_tail := [Some 30, None, None, None]\<rparr>)" "acl_mtu demo_l2cap_dev = 24"
  "acls demo_l2cap_dev = [None, Some 5, None, None, None, None, None]" "outgoing_acl_packets demo_l2cap_dev = []"
  "l2cap_heap demo_l2cap_dev = [30 \<mapsto> demo_channel]" "s_last_signal_id demo_l2cap_dev = 0"
  by (simp_all add: demo_l2cap_dev_def acl_dev.extend_def l2cap_dev.fields_def)

lemma demo_ready:
  "link_ready 20 5 (demo_acl\<lparr>acl_tail := [Some 30, None, None, None]\<rparr>) demo_l2cap_dev"
  "link_idle 5 (demo_acl\<lparr>acl_tail := [Some 30, None, None, None]\<rparr>) demo_l2cap_dev"
  by (simp_all add: link_ready_def link_idle_def receiving_def find_acl_by_conn_handle_def sizeof_BteBuffer_def demo_acl_def zero_acl_def)

section \<open>Messages\<close>

text \<open>
  C2: a message of a channel reaches the channel of the other side. \<^verbatim>\<open>bte_l2cap_create_message\<close> writes
  the frame's header, the client writes the message, and \<^verbatim>\<open>bte_l2cap_send_message\<close> hands its packets over behind
  those that wait. When the other host, which may have any state and packet size, receives these packets on
  an idle link, and the message is within the MTU of the channel with that identifier, the channel's
  callback is called once, with a reader on exactly the message.
\<close>

theorem l2cap_message_roundtrip:
  assumes "link_ready m acl a s" "l2cap_heap s p = Some l" "l_acl l = Some acl" "l_state l = BTE_L2CAP_OPEN"
    "remote_channel_id l = cid" "cid \<noteq> 0" "cid \<noteq> 1" "sz \<le> l_remote_mtu l" "fits m (unat sz + 4)"
    "length msg = unat sz" "unat sz + 4 < 65535"
    and "link_idle acl' b t" "acl_conn_handle b = acl_conn_handle a" "l2cap_for_local_channel acl' cid t = Some (Some q)"
    "l2cap_heap t q = Some k" "unat sz \<le> unat (l_mtu k)" "message_received_cb k = Some f"
  shows "\<exists>w w' c rc s' r. bte_l2cap_create_message LE p sz s = Some (Some w) \<and>
    bte_buffer_writer_write w msg sz = Some (True, w') \<and> bte_buffer_writer_end w' = Some c \<and>
    bte_l2cap_send_message LE p c s = Some (rc, s') \<and> hands_over (map packet_bytes c) s s' \<and>
    reader_ok r \<and> reader_stream r = msg \<and>
    receive_all (l2cap_dispatch LE') (map (\<lambda>p. packet_in (packet_bytes p)) c) t =
      le_client LE' \<lparr>lc_cb = f, lc_l2cap = Some q, lc_arg = Message_received r, lc_userdata = l_userdata k\<rparr>
        (noted acl' b (l2cap_frame cid msg) t)"
proof -
  have m: "8 \<le> m" "m + 4 + sizeof_BteBuffer < 65536" "chain_ok (outgoing_acl_packets s)"
    using assms(1) by (simp_all add: link_ready_def)
  obtain w where w: "acl_l2cap_create_message LE acl sz cid s = Some (Some w)"
      "frame_writer m a (unat sz + 4) (le_bytes 2 sz @ le_bytes 2 cid) w"
    using create_frame [OF assms(1,9)] by blast
  have fr: "(le_bytes 2 sz @ le_bytes 2 cid) @ msg = l2cap_frame cid msg" using assms(10) by (simp add: l2cap_frame_def)
  obtain w' where w': "bte_buffer_writer_write w msg sz = Some (True, w')"
      "message_writer (acl_conn_handle a) 0 m (packets_needed (unat sz + 4) m) (unat sz + 4) w'"
      "writer_out w' = l2cap_frame cid msg"
    using frame_writer_write [OF w(2) assms(10)] assms(10) unfolding fr by auto
  have "length (writer_out w') = unat sz + 4" using w'(3) assms(10) by simp
  from message_end [OF w'(2) this]
  obtain c where c: "bte_buffer_writer_end w' = Some c" "map packet_bytes c = l2cap_packets m b cid msg" "chain_ok c" "c \<noteq> []"
    unfolding w'(3) assms(13) by blast
  obtain rc s' where s': "bte_acl_send_message (le_hci LE) c s = Some (rc, s')" "hands_over (map packet_bytes c) s s'"
    using send_message_hands_over [OF m(3) c(3,4)] by blast
  have ln: "4 \<le> m" "m + 4 < 65536" "length msg + 4 < 65535" "length msg \<le> unat (l_mtu k)"
    using m(1,2) assms(10,11,16) by simp_all
  obtain r where r: "reader_ok r" "reader_stream r = msg"
      "receive_all (l2cap_dispatch LE') (map packet_in (l2cap_packets m b cid msg)) t =
        le_client LE' \<lparr>lc_cb = f, lc_l2cap = Some q, lc_arg = Message_received r, lc_userdata = l_userdata k\<rparr>
          (noted acl' b (l2cap_frame cid msg) t)"
    using receive_channel_message [OF assms(12) ln(1-3) assms(14,15) ln(4) assms(17,7)] by blast
  have pk: "map (\<lambda>p. packet_in (packet_bytes p)) c = map packet_in (l2cap_packets m b cid msg)"
    unfolding c(2) [symmetric] by simp
  have "bte_l2cap_create_message LE p sz s = Some (Some w)"
    using assms(2,3,5,6,8) w(1) by (simp add: bte_l2cap_create_message_def not_less)
  moreover have "bte_l2cap_send_message LE p c s = Some (rc, s')"
    using assms(2,4) s'(1) by (simp add: bte_l2cap_send_message_def)
  ultimately show ?thesis using w'(1) c(1) s'(2) r(1,2) r(3) [folded pk] by blast
qed


theorem l2cap_message_roundtrip_witness:
  "\<exists>w w' c t'. bte_l2cap_create_message demo_l2cap_env 30 3 demo_l2cap_dev = Some (Some w) \<and>
    bte_buffer_writer_write w [1, 2, 3] 3 = Some (True, w') \<and> bte_buffer_writer_end w' = Some c \<and>
    receive_all (l2cap_dispatch demo_l2cap_env) (map (\<lambda>p. packet_in (packet_bytes p)) c)
      (set_l2cap 30 (demo_channel\<lparr>local_channel_id := 0x41\<rparr>) demo_l2cap_dev) = Some t' \<and> data_wire t' = [[1, 2, 3]]"
proof -
  let ?a = "demo_acl\<lparr>acl_tail := [Some 30, None, None, None]\<rparr>" and ?k = "demo_channel\<lparr>local_channel_id := 0x41\<rparr>"
  let ?t = "set_l2cap 30 ?k demo_l2cap_dev"
  have idle: "link_idle 5 ?a ?t"
    using demo_ready(2) by (simp add: link_idle_def receiving_def find_acl_by_conn_handle_def set_l2cap_def)
  have "\<exists>w w' c rc s' r. bte_l2cap_create_message demo_l2cap_env 30 3 demo_l2cap_dev = Some (Some w) \<and>
      bte_buffer_writer_write w [1, 2, 3] 3 = Some (True, w') \<and> bte_buffer_writer_end w' = Some c \<and>
      bte_l2cap_send_message demo_l2cap_env 30 c demo_l2cap_dev = Some (rc, s') \<and>
      hands_over (map packet_bytes c) demo_l2cap_dev s' \<and> reader_ok r \<and> reader_stream r = [1, 2, 3] \<and>
      receive_all (l2cap_dispatch demo_l2cap_env) (map (\<lambda>p. packet_in (packet_bytes p)) c) ?t =
        le_client demo_l2cap_env \<lparr>lc_cb = 9, lc_l2cap = Some 30, lc_arg = Message_received r, lc_userdata = l_userdata ?k\<rparr>
          (noted 5 ?a (l2cap_frame 0x41 [1, 2, 3]) ?t)"
    by (rule l2cap_message_roundtrip [OF demo_ready(1), where l = demo_channel])
       (use idle in \<open>simp_all add: demo_channel_def fits_def l2cap_for_local_channel_def\<close>)
  then show ?thesis by (fastforce simp: demo_l2cap_env_def)
qed

section \<open>An information request and its answer\<close>

lemma read_header_spec:
  assumes "reader_ok r" "reader_stream r = hs @ rest" "length hs = unat n" "n \<le> len"
  shows "\<exists>r'. read_signal_header r len n = Some (Some hs, r') \<and> reader_ok r' \<and> reader_stream r' = rest"
proof -
  obtain r' where "bte_buffer_reader_read True r n = Some (take (unat n) (reader_stream r),
        of_nat (min (unat n) (length (reader_stream r))), r')" "reader_ok r'" "reader_stream r' = drop (unat n) (reader_stream r)"
    using bte_src.rd_law [OF assms(1)] by blast
  then show ?thesis using assms(2-4) by (simp add: read_signal_header_def not_less)
qed

text \<open>The information that a host gives: the connectionless MTU, no extended features, and the signalling channel.\<close>

definition info_answer :: "u16 \<Rightarrow> l2cap_info" where
  "info_answer type = \<lparr>li_type = type, li_result = (if type \<in> {1, 2, 3} then 0 else 1),
     li_value = (if type = 1 then Connectionless_mtu 48 else if type = 2 then Ext_feature_mask 0
                 else if type = 3 then Fixed_channels_mask 2 else No_info)\<rparr>"

definition info_payload :: "u16 \<Rightarrow> mem" where
  "info_payload type = le_bytes 2 type @ le_bytes 2 (li_result (info_answer type)) @
     (case li_value (info_answer type) of No_info \<Rightarrow> [] | Connectionless_mtu v \<Rightarrow> le_bytes 2 v
      | Ext_feature_mask v \<Rightarrow> le_bytes 4 v | Fixed_channels_mask v \<Rightarrow> le_bytes 8 v)"

lemma info_cases:
  fixes type :: u16
  obtains "type = 1" | "type = 2" | "type = 3" | "type \<notin> {1, 2, 3}"
  by blast

lemma info_payload_len: "4 \<le> length (info_payload type)" "length (info_payload type) \<le> 12"
  by (cases type rule: info_cases; simp add: info_payload_def info_answer_def)+

lemma fits_mono: "fits m n \<Longrightarrow> k \<le> n \<Longrightarrow> fits m k"
proof -
  assume "fits m n" "k \<le> n"
  then have "packets_needed k m * (m + 4) \<le> packets_needed n m * (m + 4)"
    by (intro mult_le_mono1 div_le_mono) simp
  then show ?thesis using \<open>fits m n\<close> unfolding fits_def by linarith
qed

lemma handle_info_req_spec:
  assumes "link_ready m acl a s" "fits m 20" "reader_ok r" "reader_stream r = le_bytes 2 type"
  shows "\<exists>r' s'. acl_l2cap_handle_info_req LE acl ident r 2 s = Some (True, r', s') \<and>
    hands_over (signal_packets m a L2CAP_SIGNAL_INFO_RSP ident (info_payload type)) s s'"
proof -
  obtain r' where r': "read_signal_header r 2 2 = Some (Some (le_bytes 2 type), r')"
    using read_header_spec [OF assms(3), of "le_bytes 2 type" "[]" 2 2] assms(4) by auto
  have ty: "read_le16 (le_bytes 2 type) 0 = Some type" by (simp add: read_le16_def slice_def le_val_bytes)
  have ft: "fits m (length (info_payload type) + 8)" using fits_mono [OF assms(2)] info_payload_len(2) [of type] by simp
  have ln: "length (info_payload type) = unat (of_nat (length (info_payload type)) :: u16)"
    using info_payload_len(2) [of type] by (subst u16_of_nat) simp_all
  obtain s' where s': "acl_l2cap_cmd_reply LE acl L2CAP_SIGNAL_INFO_RSP ident (info_payload type)
        (of_nat (length (info_payload type))) s = Some (True, s')"
      "hands_over (signal_packets m a L2CAP_SIGNAL_INFO_RSP ident (info_payload type)) s s'"
    using cmd_reply_spec [OF assms(1) ln ft] by blast
  have "acl_l2cap_handle_info_req LE acl ident r 2 s = Some (True, r', s')"
    using r' ty s'(1)
    by (cases type rule: info_cases) (simp_all add: acl_l2cap_handle_info_req_def info_payload_def info_answer_def)
  with s'(2) show ?thesis by blast
qed

lemma handle_info_resp_spec:
  assumes "reader_ok r" "reader_stream r = info_payload type" "l2cap_heap s p = Some l" "cmd_client_cb l = Some f"
  shows "\<exists>r'. l2cap_handle_info_resp LE p r (of_nat (length (info_payload type))) s =
    do { s' \<leftarrow> le_client LE \<lparr>lc_cb = f, lc_l2cap = Some p, lc_arg = Info_reply (info_answer type), lc_userdata = cmd_userdata l\<rparr> s;
         Some (True, r', s') }"
proof -
  let ?i = "info_answer type"
  let ?hs = "le_bytes 2 type @ le_bytes 2 (li_result ?i)"
  have len: "4 \<le> (of_nat (length (info_payload type)) :: u16)"
    using info_payload_len [of type] by (simp add: word_le_nat_alt u16_of_nat)
  obtain r1 where r1: "read_signal_header r (of_nat (length (info_payload type))) 4 = Some (Some ?hs, r1)" "reader_ok r1"
      "reader_stream r1 = drop 4 (info_payload type)"
    using read_header_spec [OF assms(1), of ?hs "drop 4 (info_payload type)" 4] assms(2) len by (auto simp: info_payload_def)
  have hd: "read_le16 ?hs 0 = Some type" "read_le16 ?hs 2 = Some (li_result ?i)"
    by (simp_all add: read_le16_def slice_def le_val_bytes)
  obtain r2 where r2: "bte_buffer_reader_read True r1 2 = Some (take 2 (reader_stream r1), of_nat (min 2 (length (reader_stream r1))), r2)"
    using bte_src.rd_law [OF r1(2), of 2] by auto
  obtain r3 where r3: "bte_buffer_reader_read True r1 4 = Some (take 4 (reader_stream r1), of_nat (min 4 (length (reader_stream r1))), r3)"
    using bte_src.rd_law [OF r1(2), of 4] by auto
  obtain r4 where r4: "bte_buffer_reader_read True r1 8 = Some (take 8 (reader_stream r1), of_nat (min 8 (length (reader_stream r1))), r4)"
    using bte_src.rd_law [OF r1(2), of 8] by auto
  show ?thesis
  proof (cases type rule: info_cases)
    case 1
    then show ?thesis using r1 hd r2 assms(3,4)
      by (intro exI [of _ r2]) (simp add: l2cap_handle_info_resp_def call_l2cap_def info_answer_def info_payload_def le_val_bytes)
  next
    case 2
    then show ?thesis using r1 hd r3 assms(3,4)
      by (intro exI [of _ r3]) (simp add: l2cap_handle_info_resp_def call_l2cap_def info_answer_def info_payload_def le_val_bytes)
  next
    case 3
    then show ?thesis using r1 hd r4 assms(3,4)
      by (intro exI [of _ r4]) (simp add: l2cap_handle_info_resp_def call_l2cap_def info_answer_def info_payload_def le_val_bytes)
  next
    case 4
    then show ?thesis using r1 hd assms(3,4)
      by (intro exI [of _ r1]) (simp add: l2cap_handle_info_resp_def call_l2cap_def info_answer_def)
  qed
qed


text \<open>The channel that waits for a response is found when no other channel of the link waits for the same identifier.\<close>

definition only_waiter :: "nat \<Rightarrow> byte \<Rightarrow> nat option list \<Rightarrow> (nat \<Rightarrow> bte_l2cap option) \<Rightarrow> bool" where
  "only_waiter p ident cs heap \<longleftrightarrow> Some p \<in> set cs \<and>
     (\<forall>q. Some q \<in> set cs \<longrightarrow> q \<noteq> p \<longrightarrow>
        (\<exists>k. heap q = Some k \<and> (expected_response_count k = 0 \<or> expected_response_id k \<noteq> ident)))"

lemma response_loop_finds:
  assumes "heap p = Some l" "expected_response_count l \<noteq> 0" "expected_response_id l = ident"
    "expected_response_code l = code" "Some p \<in> set cs"
    "\<And>q. Some q \<in> set cs \<Longrightarrow> q \<noteq> p \<Longrightarrow>
       \<exists>k. heap q = Some k \<and> (expected_response_count k = 0 \<or> expected_response_id k \<noteq> ident)"
  shows "response_loop heap code ident cs = Some (Some p)"
  using assms(5,6)
proof (induction cs)
  case (Cons c cs)
  show ?case
  proof (cases "c = Some p")
    case True
    then show ?thesis using assms(1-4) by simp
  next
    case False
    have IH: "response_loop heap code ident cs = Some (Some p)"
      by (rule Cons.IH) (use Cons.prems False in auto)
    show ?thesis
    proof (cases c)
      case None
      then show ?thesis using IH by simp
    next
      case (Some q)
      then obtain k where "heap q = Some k" "expected_response_count k = 0 \<or> expected_response_id k \<noteq> ident"
        using Cons.prems(2) [of q] False by auto
      then show ?thesis using Some IH by auto
    qed
  qed
qed simp

text \<open>A channel while its response is handled: one more reference, one response less to come.\<close>

abbreviation answered :: "bte_l2cap \<Rightarrow> bte_l2cap" where
  "answered l \<equiv> l\<lparr>l_ref_count := l_ref_count l + 1, expected_response_count := expected_response_count l - 1\<rparr>"

lemma handle_response_spec:
  assumes "acl_heap s acl = Some a" "l2cap_heap s p = Some l" "expected_response_count l \<noteq> 0"
    "expected_response_id l = ident" "expected_response_code l = code" "only_waiter p ident (acl_tail a) (l2cap_heap s)"
    "l2cap_handle_response LE p code r len (set_l2cap p (answered l) s) = do { s' \<leftarrow> x; Some (True, r', s') }"
  shows "map_option (\<lambda>(_, _, s'). s') (acl_l2cap_handle_response LE acl code ident r len s) =
    do { s' \<leftarrow> x; bte_l2cap_unref LE p s' }"
proof -
  have "response_loop (l2cap_heap s) code ident (acl_tail a) = Some (Some p)"
    by (rule response_loop_finds [where heap = "l2cap_heap s", OF assms(2-5)]) (use assms(6) in \<open>auto simp: only_waiter_def\<close>)
  then show ?thesis
    using assms(1,2,7)
    by (cases x) (auto simp: acl_l2cap_handle_response_def bte_l2cap_ref_def upd_l2cap_eq split: Option.bind_splits)
qed

text \<open>The three steps of an information request: it is sent, answered, and its answer delivered.\<close>

lemma query_info_sent:
  assumes "can_signal m acl a p l 2 s" "expected_response_count l = 0" "accepting (le_hci LE)" "i = fst (next_signal_id s)"
  shows "\<exists>s1. bte_l2cap_query_info LE p type (Some f) ud s = Some (True, s1) \<and>
    wire s1 = wire s @ signal_packets m a L2CAP_SIGNAL_INFO_REQ i (le_bytes 2 type) \<and>
    l2cap_heap s1 = (l2cap_heap s)(p \<mapsto> (awaiting L2CAP_SIGNAL_INFO_REQ i l)\<lparr>cmd_client_cb := Some f, cmd_userdata := ud\<rparr>) \<and>
    acl_heap s1 = acl_heap s \<and> acls s1 = acls s"
proof -
  let ?l1 = "awaiting L2CAP_SIGNAL_INFO_REQ i l"
  have s: "l2cap_heap s p = Some l" using assms(1) by (simp add: can_signal_def)
  have two: "unat (2 :: u16) = 2" by simp
  obtain c s0 where req: "l2cap_signal LE p L2CAP_SIGNAL_INFO_REQ (le_bytes 2 type) 2 s =
        Some (Some c, set_l2cap p ?l1 (s\<lparr>s_last_signal_id := i\<rparr>))"
      "send_l2cap LE c (set_l2cap p ?l1 (s\<lparr>s_last_signal_id := i\<rparr>)) = Some (True, s0)"
      "hands_over (signal_packets m a L2CAP_SIGNAL_INFO_REQ i (le_bytes 2 type)) (set_l2cap p ?l1 (s\<lparr>s_last_signal_id := i\<rparr>)) s0"
    using request_sent [where sz = 2, unfolded two, OF assms(1) _ assms(3,4), of "le_bytes 2 type" L2CAP_SIGNAL_INFO_REQ]
    by auto
  note s0 = hands_over_heap [OF req(3)]
  let ?s1 = "set_l2cap p (?l1\<lparr>cmd_client_cb := Some f, cmd_userdata := ud\<rparr>) s0"
  have "bte_l2cap_query_info LE p type (Some f) ud s = Some (True, ?s1)"
    using s assms(2) req(1,2) s0(1) by (simp add: bte_l2cap_query_info_def l2cap_request_def upd_l2cap_eq)
  moreover have "wire ?s1 = wire s @ signal_packets m a L2CAP_SIGNAL_INFO_REQ i (le_bytes 2 type)"
    using req(3) by (auto simp: hands_over_def wire_def set_l2cap_def)
  ultimately show ?thesis using s0(1-3) by (intro exI [of _ ?s1]) (simp add: set_l2cap_def)
qed

lemma query_info_answered:
  assumes "link_ready m' acl b t" "link_idle acl b t" "fits m' 20" "4 \<le> m" "m + 4 < 65536"
  shows "\<exists>t1. receive_all (l2cap_dispatch LE) (map packet_in (signal_packets m b L2CAP_SIGNAL_INFO_REQ i (le_bytes 2 type))) t = Some t1 \<and>
    wire t1 = wire t @ signal_packets m' b L2CAP_SIGNAL_INFO_RSP i (info_payload type)"
proof -
  let ?F = "l2cap_frame 1 (signal_command L2CAP_SIGNAL_INFO_REQ i (le_bytes 2 type))"
  have len: "length (le_bytes 2 type) + 4 \<le> 672" by simp
  obtain r where r: "reader_ok r" "reader_stream r = le_bytes 2 type"
      "receive_all (l2cap_dispatch LE) (map packet_in (signal_packets m b L2CAP_SIGNAL_INFO_REQ i (le_bytes 2 type))) t =
        map_option (\<lambda>(_, _, s'). s') (handle_command LE acl L2CAP_SIGNAL_INFO_REQ i r 2 (noted acl b ?F t))"
    using receive_command [OF assms(2,4,5) len, of LE 0 L2CAP_SIGNAL_INFO_REQ i] by auto
  let ?b = "b\<lparr>reassembled_message_size := of_nat (length ?F)\<rparr>"
  have "link_ready m' acl ?b (noted acl b ?F t)" using assms(1) by (simp add: link_ready_def)
  from handle_info_req_spec [OF this assms(3) r(1,2), of LE i]
  obtain r' t1 where t1: "acl_l2cap_handle_info_req LE acl i r 2 (noted acl b ?F t) = Some (True, r', t1)"
      "hands_over (signal_packets m' ?b L2CAP_SIGNAL_INFO_RSP i (info_payload type)) (noted acl b ?F t) t1" by blast
  have "wire t1 = wire t @ signal_packets m' b L2CAP_SIGNAL_INFO_RSP i (info_payload type)"
    using t1(2) by (auto simp: hands_over_def wire_def set_acl_def)
  then show ?thesis using r(3) t1(1) by (simp add: handle_command_def acl_l2cap_handle_request_def)
qed

lemma info_answer_delivered:
  assumes "link_idle acl a s" "4 \<le> m" "m + 4 < 65536" "l2cap_heap s p = Some l" "expected_response_count l \<noteq> 0"
    "expected_response_id l = i" "expected_response_code l = L2CAP_SIGNAL_INFO_RSP" "only_waiter p i (acl_tail a) (l2cap_heap s)"
    "cmd_client_cb l = Some f"
  shows "\<exists>s2. l2cap_heap s2 p = Some (answered l) \<and>
    receive_all (l2cap_dispatch LE) (map packet_in (signal_packets m a L2CAP_SIGNAL_INFO_RSP i (info_payload type))) s =
      do { s3 \<leftarrow> le_client LE \<lparr>lc_cb = f, lc_l2cap = Some p, lc_arg = Info_reply (info_answer type), lc_userdata = cmd_userdata l\<rparr> s2;
           bte_l2cap_unref LE p s3 }"
proof -
  have pl: "length (info_payload type) + 4 \<le> 672" using info_payload_len(2) [of type] by simp
  let ?G = "l2cap_frame 1 (signal_command L2CAP_SIGNAL_INFO_RSP i (info_payload type))"
  let ?s = "noted acl a ?G s" and ?n = "of_nat (length (info_payload type)) :: u16"
  obtain r where r: "reader_ok r" "reader_stream r = info_payload type"
      "receive_all (l2cap_dispatch LE) (map packet_in (signal_packets m a L2CAP_SIGNAL_INFO_RSP i (info_payload type))) s =
        map_option (\<lambda>(_, _, s'). s') (handle_command LE acl L2CAP_SIGNAL_INFO_RSP i r ?n ?s)"
    using receive_command [OF assms(1-3) pl, of LE 0 L2CAP_SIGNAL_INFO_RSP i] by blast
  let ?s2 = "set_l2cap p (answered l) ?s"
  obtain r' where r': "l2cap_handle_info_resp LE p r ?n ?s2 =
      do { s' \<leftarrow> le_client LE \<lparr>lc_cb = f, lc_l2cap = Some p, lc_arg = Info_reply (info_answer type), lc_userdata = cmd_userdata l\<rparr> ?s2;
           Some (True, r', s') }"
    using handle_info_resp_spec [OF r(1,2), of ?s2 p "answered l" f LE] assms(9) by auto
  have "map_option (\<lambda>(_, _, s'). s') (acl_l2cap_handle_response LE acl L2CAP_SIGNAL_INFO_RSP i r ?n ?s) =
      do { s3 \<leftarrow> le_client LE \<lparr>lc_cb = f, lc_l2cap = Some p, lc_arg = Info_reply (info_answer type), lc_userdata = cmd_userdata l\<rparr> ?s2;
           bte_l2cap_unref LE p s3 }"
    by (rule handle_response_spec [where a = "a\<lparr>reassembled_message_size := of_nat (length ?G)\<rparr>" and l = l and r' = r'])
       (use assms(4-8) r' in \<open>simp_all add: l2cap_handle_response_def\<close>)
  then show ?thesis using r(3) by (intro exI [of _ ?s2]) (simp add: handle_command_def)
qed

text \<open>
  C12: an information request is answered, and the answer is delivered. One host asks for the information \<open>type\<close>;
  the packets that this puts on its link are received by another host on an idle link, which
  answers at once; the packets of the answer are received by the first host, which calls the callback of the
  request with the information the other host gives, with the request no longer pending and a
  reference held during the call. Every type is answered, unknown ones with the result that they are
  not supported.
\<close>

theorem l2cap_info_exchange:
  assumes "can_signal m acl a p l 2 s" "expected_response_count l = 0" "accepting (le_hci LE)" "link_idle acl a s"
    and i: "i = fst (next_signal_id s)" and "only_waiter p i (acl_tail a) (l2cap_heap s)"
    and "link_ready m' acl' b t" "link_idle acl' b t" "acl_conn_handle b = acl_conn_handle a" "fits m' 20"
  shows "\<exists>s1 req t1 rsp s2. bte_l2cap_query_info LE p type (Some f) ud s = Some (True, s1) \<and> wire s1 = wire s @ req \<and>
    receive_all (l2cap_dispatch LE') (map packet_in req) t = Some t1 \<and> wire t1 = wire t @ rsp \<and>
    l2cap_heap s2 p = Some (l\<lparr>l_ref_count := l_ref_count l + 1, expected_response_code := L2CAP_SIGNAL_INFO_RSP,
      expected_response_id := i, cmd_client_cb := Some f, cmd_userdata := ud\<rparr>) \<and>
    receive_all (l2cap_dispatch LE) (map packet_in rsp) s1 =
      do { s3 \<leftarrow> le_client LE \<lparr>lc_cb = f, lc_l2cap = Some p, lc_arg = Info_reply (info_answer type), lc_userdata = ud\<rparr> s2;
           bte_l2cap_unref LE p s3 }"
proof -
  let ?l = "(awaiting L2CAP_SIGNAL_INFO_REQ i l)\<lparr>cmd_client_cb := Some f, cmd_userdata := ud\<rparr>"
  have m: "4 \<le> m" "m + 4 < 65536" using assms(1) by (simp_all add: can_signal_def link_ready_def)
  have m': "4 \<le> m'" "m' + 4 < 65536" using assms(7) by (simp_all add: link_ready_def)
  obtain s1 where s1: "bte_l2cap_query_info LE p type (Some f) ud s = Some (True, s1)"
      "wire s1 = wire s @ signal_packets m b L2CAP_SIGNAL_INFO_REQ i (le_bytes 2 type)"
      "l2cap_heap s1 = (l2cap_heap s)(p \<mapsto> ?l)" "acl_heap s1 = acl_heap s" "acls s1 = acls s"
    using query_info_sent [OF assms(1-3) i] assms(9) by metis
  obtain t1 where t1: "receive_all (l2cap_dispatch LE') (map packet_in (signal_packets m b L2CAP_SIGNAL_INFO_REQ i (le_bytes 2 type))) t = Some t1"
      "wire t1 = wire t @ signal_packets m' a L2CAP_SIGNAL_INFO_RSP i (info_payload type)"
    using query_info_answered [OF assms(7,8,10) m, of LE' i type] assms(9) by auto
  have idle: "link_idle acl a s1"
    using assms(4) s1(4,5) by (simp add: link_idle_def receiving_def find_acl_by_conn_handle_def)
  have l: "l2cap_heap s1 p = Some ?l" "expected_response_count ?l \<noteq> 0" "expected_response_id ?l = i"
      "expected_response_code ?l = L2CAP_SIGNAL_INFO_RSP" "cmd_client_cb ?l = Some f"
    using s1(3) assms(2) by (simp_all add: awaiting_def)
  have ow: "only_waiter p i (acl_tail a) (l2cap_heap s1)" using assms(6) s1(3) by (simp add: only_waiter_def)
  obtain s2 where "l2cap_heap s2 p = Some (answered ?l)"
      "receive_all (l2cap_dispatch LE) (map packet_in (signal_packets m' a L2CAP_SIGNAL_INFO_RSP i (info_payload type))) s1 =
        do { s3 \<leftarrow> le_client LE \<lparr>lc_cb = f, lc_l2cap = Some p, lc_arg = Info_reply (info_answer type), lc_userdata = cmd_userdata ?l\<rparr> s2;
             bte_l2cap_unref LE p s3 }"
    using info_answer_delivered [OF idle m' l(1-4) ow l(5)] by blast
  moreover have "answered ?l = l\<lparr>l_ref_count := l_ref_count l + 1, expected_response_code := L2CAP_SIGNAL_INFO_RSP,
      expected_response_id := i, cmd_client_cb := Some f, cmd_userdata := ud\<rparr>" "cmd_userdata ?l = ud"
    using assms(2) by (simp_all add: awaiting_def)
  ultimately show ?thesis using s1(1,2) t1 by auto
qed

theorem l2cap_info_exchange_witness:
  "\<exists>s1 req t1 rsp s3. bte_l2cap_query_info demo_l2cap_env 30 1 (Some 12) 7 demo_l2cap_dev = Some (True, s1) \<and>
    wire s1 = wire demo_l2cap_dev @ req \<and>
    receive_all (l2cap_dispatch demo_l2cap_env) (map packet_in req) demo_l2cap_dev = Some t1 \<and>
    wire t1 = wire demo_l2cap_dev @ rsp \<and>
    receive_all (l2cap_dispatch demo_l2cap_env) (map packet_in rsp) s1 = Some s3 \<and> data_wire s3 = [[12]]"
proof -
  let ?a = "demo_acl\<lparr>acl_tail := [Some 30, None, None, None]\<rparr>"
  have cs: "can_signal 20 5 ?a 30 demo_channel 2 demo_l2cap_dev"
    using demo_ready(1) by (simp add: can_signal_def fits_def demo_channel_def)
  have acc: "accepting (le_hci demo_l2cap_env)" by (simp add: accepting_def demo_l2cap_env_def)
  have ow: "only_waiter 30 (fst (next_signal_id demo_l2cap_dev)) (acl_tail ?a) (l2cap_heap demo_l2cap_dev)"
    by (simp add: only_waiter_def)
  have ec: "expected_response_count demo_channel = 0" and rc: "l_ref_count demo_channel = 1" by (simp_all add: demo_channel_def)
  have ft: "fits 20 20" by (simp add: fits_def)
  from l2cap_info_exchange [OF cs ec acc demo_ready(2) refl ow demo_ready refl ft, of 1 12 7 demo_l2cap_env]
  show ?thesis
    by (elim exE conjE) (auto simp: demo_l2cap_env_def bte_l2cap_unref_def put_l2cap_def rc)
qed

end
