(* ===== verification/L2capState.thy ===== *)
theory L2capState
  imports L2capExchange
begin

text \<open>
  The configuration of a channel. Each side sends a request, answers the request of the other side and
  gets a response to its own; the state of the channel says which of these have happened. The
  functions of \<^verbatim>\<open>l2cap.c\<close> refine this view, and in whatever order the steps are taken the channel is open
  exactly when all of them are done.
\<close>

section \<open>The abstract view\<close>

record config_progress =
  req_sent :: bool
  rsp_received :: bool
  req_answered :: bool

fun progress :: "l2cap_state \<Rightarrow> config_progress option" where
  "progress BTE_L2CAP_WAIT_CONFIG = Some \<lparr>req_sent = False, rsp_received = False, req_answered = False\<rparr>"
| "progress BTE_L2CAP_WAIT_SEND_CONFIG = Some \<lparr>req_sent = False, rsp_received = False, req_answered = True\<rparr>"
| "progress BTE_L2CAP_WAIT_CONFIG_REQ_RSP = Some \<lparr>req_sent = True, rsp_received = False, req_answered = False\<rparr>"
| "progress BTE_L2CAP_WAIT_CONFIG_RSP = Some \<lparr>req_sent = True, rsp_received = False, req_answered = True\<rparr>"
| "progress BTE_L2CAP_WAIT_CONFIG_REQ = Some \<lparr>req_sent = True, rsp_received = True, req_answered = False\<rparr>"
| "progress BTE_L2CAP_OPEN = Some \<lparr>req_sent = True, rsp_received = True, req_answered = True\<rparr>"
| "progress _ = None"

lemma progress_inject: "progress a = Some x \<Longrightarrow> progress b = Some x \<Longrightarrow> a = b"
  by (cases a; cases b) auto

lemma progress_open: "progress st = Some x \<Longrightarrow> st = BTE_L2CAP_OPEN \<longleftrightarrow> req_sent x \<and> rsp_received x \<and> req_answered x"
  by (cases st) auto

text \<open>What happens on a channel: a request is sent, the request of the other side is answered, a response comes.\<close>

datatype config_event = Request_sent | Request_answered | Response_accepted | Response_refused

text \<open>A request on an open channel starts over; a refused one has to be sent again.\<close>

fun config_step :: "config_event \<Rightarrow> config_progress \<Rightarrow> config_progress" where
  "config_step Request_sent x = (if rsp_received x \<and> req_answered x then \<lparr>req_sent = True, rsp_received = False, req_answered = False\<rparr>
                                 else x\<lparr>req_sent := True\<rparr>)"
| "config_step Request_answered x = x\<lparr>req_answered := True\<rparr>"
| "config_step Response_accepted x = x\<lparr>rsp_received := True\<rparr>"
| "config_step Response_refused x = x\<lparr>req_sent := False\<rparr>"

text \<open>The states that the code goes to.\<close>

definition sent_state :: "l2cap_state \<Rightarrow> l2cap_state" where
  "sent_state st = (if st = BTE_L2CAP_WAIT_CONFIG \<or> st = BTE_L2CAP_OPEN then BTE_L2CAP_WAIT_CONFIG_REQ_RSP
     else if st = BTE_L2CAP_WAIT_SEND_CONFIG then BTE_L2CAP_WAIT_CONFIG_RSP else st)"

definition answered_state :: "l2cap_state \<Rightarrow> l2cap_state" where
  "answered_state st = (if st = BTE_L2CAP_WAIT_CONFIG then BTE_L2CAP_WAIT_SEND_CONFIG
     else if st = BTE_L2CAP_WAIT_CONFIG_REQ_RSP then BTE_L2CAP_WAIT_CONFIG_RSP
     else if st = BTE_L2CAP_WAIT_CONFIG_REQ then BTE_L2CAP_OPEN else st)"

definition accepted_state :: "l2cap_state \<Rightarrow> l2cap_state" where
  "accepted_state st = (if st = BTE_L2CAP_WAIT_CONFIG_RSP then BTE_L2CAP_OPEN
     else if st = BTE_L2CAP_WAIT_CONFIG_REQ_RSP then BTE_L2CAP_WAIT_CONFIG_REQ else st)"

definition refused_state :: "l2cap_state \<Rightarrow> l2cap_state" where
  "refused_state st = (if st = BTE_L2CAP_WAIT_CONFIG_RSP then BTE_L2CAP_WAIT_SEND_CONFIG
     else if st = BTE_L2CAP_WAIT_CONFIG_REQ_RSP then BTE_L2CAP_WAIT_CONFIG else st)"

lemmas config_states = sent_state_def answered_state_def accepted_state_def refused_state_def

lemma states_refine:
  assumes "progress st = Some x"
  shows "progress (sent_state st) = Some (config_step Request_sent x)"
    "progress (answered_state st) = Some (config_step Request_answered x)"
    "req_sent x \<Longrightarrow> progress (accepted_state st) = Some (config_step Response_accepted x)"
    "req_sent x \<Longrightarrow> \<not> rsp_received x \<Longrightarrow> progress (refused_state st) = Some (config_step Response_refused x)"
  using assms by (cases st; auto simp: config_states)+

section \<open>Sending a configuration\<close>

text \<open>
  A callback for changes of state that is not set or does nothing: then only the state changes.
\<close>

definition silent :: "'c lenv \<Rightarrow> nat \<Rightarrow> bte_l2cap \<Rightarrow> bool" where
  "silent LE p l \<longleftrightarrow> (\<forall>f st s. state_changed_cb l = Some f \<longrightarrow>
     le_client LE \<lparr>lc_cb = f, lc_l2cap = Some p, lc_arg = State_changed st, lc_userdata = l_userdata l\<rparr> s = Some s)"

lemma set_state_silent:
  assumes "silent LE p l" "l2cap_heap s p = Some l"
  shows "l2cap_set_state LE p st s = Some (set_l2cap p (l\<lparr>l_state := st\<rparr>) s)"
  using assms set_l2cap_same [OF assms(2)]
  by (auto simp: l2cap_set_state_def put_l2cap_eq silent_def call_l2cap_def split: option.splits)

text \<open>The payload of a configuration request or response.\<close>

definition config_payload :: "u16 \<Rightarrow> bool \<Rightarrow> mem \<Rightarrow> tlv list \<Rightarrow> mem" where
  "config_payload cid cont result os = le_bytes 2 cid @ le_bytes 2 (if cont then 1 else 0 :: u16) @ result @ tlvs_bytes os"

text \<open>Storing a header and then the options behind it is storing both.\<close>

lemma wr_wr_append:
  assumes "off + length hs + length bs \<le> length d"
  shows "\<exists>d'. wr d off hs = Some d' \<and> length d' = length d \<and>
    wr d off (hs @ bs) = Some (take (off + length hs) d' @ bs @ drop (off + length hs + length bs) d')"
  using assms by (intro exI [of _ "take off d @ hs @ drop (off + length hs) d"]) (simp add: wr_def ac_simps)

lemma next_cmd_zero:
  assumes "list_all (\<lambda>(c, bs). c \<noteq> 0 \<and> length bs < 256) os"
  shows "0 < next_cmd os \<longleftrightarrow> os \<noteq> []"
  using assms by (cases os) (auto simp: word_gt_0)


text \<open>Filling the packet of a configuration in place.\<close>

lemma config_fill:
  assumes "writer_poke w1 off (header @ tlvs_bytes os) = Some w2"
    and "fit (unat mtu) (filter (\<lambda>(c, _). start \<le> c) (config_options params)) = (os, rest)"
    and "length (tlvs_bytes os) < 65536"
  shows "do { w \<leftarrow> writer_poke w1 off header;
              if of_nat (length (tlvs_bytes os)) > (0 :: u16)
              then case w_packet w of [] \<Rightarrow> None
                | p # ps \<Rightarrow> do {
                    (_, _, d) \<leftarrow> l2cap_config_write params start (data p) (Some (off + length header)) mtu;
                    Some (w\<lparr>w_packet := p\<lparr>data := d\<rparr> # ps\<rparr>) }
              else Some w } = Some w2"
proof -
  let ?bs = "tlvs_bytes os"
  obtain p ps where p: "w_packet w1 = p # ps" using assms(1) by (auto split: list.splits)
  have len: "off + length header + length ?bs \<le> length (data p)"
    using assms(1) p by (auto simp: wr_def bind_eq_Some_conv split: if_splits)
  obtain d' where d': "wr (data p) off header = Some d'" "length d' = length (data p)"
      "wr (data p) off (header @ ?bs) = Some (take (off + length header) d' @ ?bs @ drop (off + length header + length ?bs) d')"
    using wr_wr_append [OF len] by blast
  have w2: "w2 = w1\<lparr>w_packet := p\<lparr>data := take (off + length header) d' @ ?bs @ drop (off + length header + length ?bs) d'\<rparr> # ps\<rparr>"
    using assms(1) p d'(3) by simp
  have cw: "l2cap_config_write params start d' (Some (off + length header)) mtu =
      Some (next_cmd rest, of_nat (length ?bs), take (off + length header) d' @ ?bs @ drop (off + length header + length ?bs) d')"
    using l2cap_config_write_correct [OF assms(2), of d' "off + length header"] len d'(2) by simp
  have pos: "(0 :: u16) < of_nat (length ?bs) \<longleftrightarrow> ?bs \<noteq> []"
    using u16_of_nat [OF assms(3)] by (simp add: word_less_nat_alt)
  show ?thesis
  proof (cases "?bs = []")
    case True
    then have "w2 = w1\<lparr>w_packet := p\<lparr>data := d'\<rparr> # ps\<rparr>" using w2 by (simp only: True append_Nil list.size) simp
    then show ?thesis using p d'(1) by (simp only: True) simp
  next
    case False
    then show ?thesis using p d'(1) w2 cw pos by simp
  qed
qed

text \<open>
  The link can take \<open>n\<close> more packets at once. Then \<^verbatim>\<open>bte_acl_send_message\<close> returns a positive number; otherwise
  some packets wait in the queue and it returns 0.
\<close>

definition sendable :: "'b adev \<Rightarrow> nat \<Rightarrow> bool" where
  "sendable s n \<longleftrightarrow> length (outgoing_acl_packets s) + n \<le> unat (acl_available_packets s)"

lemma frame_sent_rc:
  assumes "message_writer (acl_conn_handle a) 0 m (packets_needed n m) n w" "length (writer_out w) = n"
    "chain_ok (outgoing_acl_packets s)" and pkts: "pkts = acl_fragments (acl_conn_handle a) 0 m 2 (writer_out w)"
  shows "\<exists>c rc s'. bte_buffer_writer_end w = Some c \<and> bte_acl_send_message E c s = Some (rc, s') \<and> hands_over pkts s s' \<and>
    (accepting E \<longrightarrow> (rc \<noteq> 0) = sendable s (length pkts))"
proof -
  obtain c where c: "bte_buffer_writer_end w = Some c" "chain_ok c" "c \<noteq> []" "map packet_bytes c = pkts"
    using message_end [OF assms(1,2)] pkts by blast
  obtain rc s' where s': "bte_acl_send_message E c s = Some (rc, s')" "hands_over (map packet_bytes c) s s'"
    using send_message_hands_over [OF assms(3) c(2,3)] by blast
  let ?q = "outgoing_acl_packets s @ c"
  let ?k = "min (unat (acl_available_packets s)) (length ?q)"
  obtain rc' q where q: "bte_acl_send_message E c s = Some (rc', s\<lparr>outgoing_acl_packets := drop ?k q,
      acl_available_packets := acl_available_packets s - of_nat ?k, data_wire := data_wire s @ take ?k (map packet_bytes ?q)\<rparr>)"
      "map packet_bytes q = map packet_bytes ?q"
      "list_all (\<lambda>rc. 0 \<le> rc) (send_rcs (be_hci_send_data E) (data_wire s) (take ?k (map packet_bytes ?q))) \<longrightarrow>
        rc' = (if drop ?k q = [] then 1 else 0)"
    using send_message_spec [OF assms(3) c(2,3) refl refl, of E] by blast
  have "length q = length (outgoing_acl_packets s) + length pkts"
    using arg_cong [OF q(2), of length] c(4) by auto
  moreover have "length c = length pkts" using c(4) by auto
  moreover have "rc' = rc" using q(1) s'(1) by simp
  ultimately have "(rc \<noteq> 0) = sendable s (length pkts)" if "accepting E"
    using q(3) accepting_rcs [OF that] by (auto simp: sendable_def split: if_splits)
  then show ?thesis using c s' by auto
qed

lemma list_all_filter_subset: "list_all P xs \<Longrightarrow> list_all P (filter Q xs)"
  by (auto simp: list_all_iff)

lemma config_send_packet_spec:
  assumes "link_ready m acl a s" "l2cap_heap s p = Some l" "l_acl l = Some acl" "84 \<le> m" "fits m 84"
    and fit: "fit (unat (l_remote_mtu l)) (filter (\<lambda>(c, _). start \<le> c) (config_options params)) = (os, rest)"
    and "length result \<le> 2"
  shows "\<exists>rc s'. config_send_packet LE p params code ident result start s = Some (rc \<noteq> (0 :: int), next_cmd rest, s') \<and>
    hands_over (signal_packets m a code ident (config_payload (remote_channel_id l) (rest \<noteq> []) result os)) s s' \<and>
    (accepting (le_hci LE) \<longrightarrow> (rc \<noteq> 0) =
       sendable s (length (signal_packets m a code ident (config_payload (remote_channel_id l) (rest \<noteq> []) result os))))"
proof -
  let ?n = "of_nat (length (tlvs_bytes os)) :: u16"
  have opts: "os @ rest = filter (\<lambda>(c, _). start \<le> c) (config_options params)"
    using fit_append [OF fit] by simp
  have "length (tlvs_bytes os) \<le> length (tlvs_bytes (filter (\<lambda>(c, _). start \<le> c) (config_options params)))"
    unfolding opts [symmetric] by simp
  also have "\<dots> \<le> length (tlvs_bytes (config_options params))"
    by (induction "config_options params" rule: list.induct) (auto simp: length_concat intro: sum_list_filter_le_nat)
  finally have os70: "length (tlvs_bytes os) \<le> 70" using config_options_size [of params] by simp
  define header where "header = le_bytes 2 (remote_channel_id l) @ le_bytes 2 (if rest \<noteq> [] then 1 else 0 :: u16) @ result"
  define cmd_size where "cmd_size = of_nat (length header) + ?n"
  have body: "header @ tlvs_bytes os = config_payload (remote_channel_id l) (rest \<noteq> []) result os"
    by (simp add: header_def config_payload_def)
  have hl: "4 \<le> length header" "length header \<le> 6" using assms(7) by (simp_all add: header_def)
  have "cmd_size = of_nat (length header + length (tlvs_bytes os))" by (simp add: cmd_size_def)
  then have cs: "unat cmd_size = length (header @ tlvs_bytes os)"
    using u16_of_nat [of "length header + length (tlvs_bytes os)"] hl os70 by simp
  have ft: "fits m (unat cmd_size + 8)" using fits_mono [OF assms(5)] cs hl os70 by simp
  obtain w where w: "acl_l2cap_create_cmd LE acl code ident cmd_size s = Some (Some w)"
      "frame_writer m a (unat cmd_size + 8) (le_bytes 2 (cmd_size + 4) @ le_bytes 2 (1 :: u16) @ [code, ident] @ le_bytes 2 cmd_size) w"
    using create_command [OF assms(1) ft] by blast
  have pos: "0 < unat cmd_size" unfolding cs using hl by (cases header) auto
  have room: "length (le_bytes 2 (cmd_size + 4) @ le_bytes 2 (1 :: u16) @ [code, ident] @ le_bytes 2 cmd_size) +
      length (header @ tlvs_bytes os) \<le> m" using hl os70 assms(4) by simp
  obtain off w1 w2 where w2: "bte_buffer_writer_ptr_n w cmd_size = Some (Some off, w1)"
      "writer_poke w1 off (header @ tlvs_bytes os) = Some w2"
      "frame_writer m a (unat cmd_size + 8) (l2cap_frame 1 (signal_command code ident (header @ tlvs_bytes os))) w2"
    using frame_writer_ptr [OF w(2) cs [symmetric] pos room] unfolding command_bytes [OF cs [symmetric]] by blast
  note fw = frame_writerD [OF w2(3)]
  have lw: "length (writer_out w2) = unat cmd_size + 8" using fw(3) cs by simp
  have q: "chain_ok (outgoing_acl_packets s)" using assms(1) by (simp add: link_ready_def)
  obtain c rc s' where c: "bte_buffer_writer_end w2 = Some c" "bte_acl_send_message (le_hci LE) c s = Some (rc, s')"
      "hands_over (signal_packets m a code ident (header @ tlvs_bytes os)) s s'"
      "accepting (le_hci LE) \<longrightarrow> (rc \<noteq> 0) = sendable s (length (signal_packets m a code ident (header @ tlvs_bytes os)))"
    using frame_sent_rc [OF fw(1) lw q refl, of "le_hci LE"] unfolding fw(3) by blast
  have l65: "length (tlvs_bytes os) < 65536" using os70 by simp
  have nc: "(0 < next_cmd rest) = (rest \<noteq> [])"
    using next_cmd_zero [of rest] config_options_ok [of params] opts
    by (metis (mono_tags, lifting) list_all_append list_all_filter_subset)
  have cw: "l2cap_config_write params start [] None (l_remote_mtu l) = Some (next_cmd rest, ?n, [])"
    using l2cap_config_write_correct [OF fit, of "[]" 0] by simp
  have "config_send_packet LE p params code ident result start s = Some (rc \<noteq> 0, next_cmd rest, s')"
    unfolding config_send_packet_def Let_def assms(2,3) Option.bind.simps cw prod.case nc header_def [symmetric]
      cmd_size_def [symmetric] w(1) w2(1) bind_assoc [symmetric] config_fill [OF w2(2) fit l65] c(1,2) ..
  then show ?thesis using c(3,4) unfolding body by blast
qed


section \<open>Requests\<close>

text \<open>One channel has changed and packets have been put on the wire; the links are as before.\<close>

lemma set_l2cap_wire [simp]:
  "wire (set_l2cap p l s) = wire s" "acls (set_l2cap p l s) = acls s" "wire (s\<lparr>s_last_signal_id := i\<rparr>) = wire s"
  by (simp_all add: wire_def set_l2cap_def)

definition channel_step :: "mem list \<Rightarrow> nat \<Rightarrow> bte_l2cap \<Rightarrow> 'c ldev \<Rightarrow> 'c ldev \<Rightarrow> bool" where
  "channel_step pkts p l s s' \<longleftrightarrow> wire s' = wire s @ pkts \<and> l2cap_heap s' = (l2cap_heap s)(p \<mapsto> l) \<and>
     acl_heap s' = acl_heap s \<and> acls s' = acls s \<and> (\<forall>m acl a. link_ready m acl a s \<longrightarrow> link_ready m acl a s')"

lemma channel_step_set [simp]:
  "channel_step [] p l s (set_l2cap p l s)"
  "channel_step pkts p k (set_l2cap p l s) s' = channel_step pkts p k s s'"
  "channel_step pkts p k (s\<lparr>s_last_signal_id := i\<rparr>) s' = channel_step pkts p k s s'"
  by (simp_all add: channel_step_def)

lemma channel_step_upd: "channel_step pkts p l s s' \<Longrightarrow> channel_step pkts p k s (set_l2cap p k s')"
  by (simp add: channel_step_def)

lemma channel_step_send: "hands_over pkts s s' \<Longrightarrow> channel_step pkts p l s (set_l2cap p l s')"
  using hands_over_heap [of pkts s s'] hands_over_ready [of pkts s s'] by (auto simp: channel_step_def hands_over_def)

lemma channel_step_trans: "channel_step ps p l s s1 \<Longrightarrow> channel_step qs p k s1 s2 \<Longrightarrow> channel_step (ps @ qs) p k s s2"
  by (simp add: channel_step_def)

lemma channel_step_heap: "channel_step pkts p l s s' \<Longrightarrow> l2cap_heap s' p = Some l"
  by (simp add: channel_step_def)

text \<open>The options of a request, split into the packets that carry them; every packet but the last announces another one.\<close>

function config_chunks :: "nat \<Rightarrow> tlv list \<Rightarrow> (tlv list \<times> bool) list" where
  "config_chunks n os = (case fit n os of (a, b) \<Rightarrow> if a = [] \<or> b = [] then [(a, b \<noteq> [])] else (a, True) # config_chunks n b)"
  by pat_completeness auto

termination
  by (relation "measure (\<lambda>(_, os). length os)") (auto dest!: sym [THEN fit_append])

declare config_chunks.simps [simp del]

lemma config_chunks_step:
  assumes "fit n os = (a, b)"
  shows "take (Suc 0) (config_chunks n os) = [(a, b \<noteq> [])]"
    "a = [] \<or> b = [] \<Longrightarrow> config_chunks n os = [(a, b \<noteq> [])]"
    "a \<noteq> [] \<Longrightarrow> b \<noteq> [] \<Longrightarrow> config_chunks n os = (a, True) # config_chunks n b"
  using assms by (subst config_chunks.simps; simp)+

abbreviation next_ident :: "byte \<Rightarrow> byte" where
  "next_ident i \<equiv> (if i = 0xff then 0 else i) + 1"

fun config_requests :: "nat \<Rightarrow> bte_acl \<Rightarrow> u16 \<Rightarrow> byte \<Rightarrow> (tlv list \<times> bool) list \<Rightarrow> mem list" where
  "config_requests m a cid ident [] = []"
| "config_requests m a cid ident ((os, cont) # cs) =
     signal_packets m a L2CAP_SIGNAL_CONFIG_REQ ident (config_payload cid cont [] os) @
     config_requests m a cid (next_ident ident) cs"

text \<open>Every option fits into 24 bytes.\<close>

lemma config_option_size: "(c, bs) \<in> set (config_options params) \<Longrightarrow> length (tlv_bytes (c, bs)) \<le> 24"
  by (auto simp: config_options_def opt_if_def qos_bytes_def retx_flow_bytes_def ext_flow_bytes_def split: option.splits if_splits)

lemma fit_progress:
  assumes "fit n os = (a, b)" "b \<noteq> []" "24 \<le> n" "set os \<subseteq> set (config_options params)"
  shows "a \<noteq> []"
proof (cases os)
  case Nil
  then show ?thesis using assms(1,2) by simp
next
  case (Cons t ts)
  then have "length (tlv_bytes t) \<le> n"
    using config_option_size [of "fst t" "snd t" params] assms(3,4) by (cases t) force
  then show ?thesis using assms(1) Cons by (auto split: prod.splits)
qed

text \<open>The fields that keep track of responses.\<close>

definition expecting :: "byte \<Rightarrow> byte \<Rightarrow> byte \<Rightarrow> bte_l2cap \<Rightarrow> bte_l2cap" where
  "expecting code ident count l =
     l\<lparr>expected_response_code := code, expected_response_count := count, expected_response_id := ident\<rparr>"

lemma expecting_simps [simp]:
  "l_acl (expecting c i n l) = l_acl l" "remote_channel_id (expecting c i n l) = remote_channel_id l"
  "l_remote_mtu (expecting c i n l) = l_remote_mtu l" "l_state (expecting c i n l) = l_state l"
  "expected_response_count (expecting c i n l) = n" "expecting c i n (expecting c' i' n' l) = expecting c i n l"
  "state_changed_cb (expecting c i n l) = state_changed_cb l" "l_userdata (expecting c i n l) = l_userdata l"
  "(expecting c i n l)\<lparr>expected_response_id := j\<rparr> = expecting c j n l"
  "(expecting c i n l)\<lparr>l_state := l_state l\<rparr> = expecting c i n l"
  by (simp_all add: expecting_def)

lemma expecting_same: "\<exists>c i n. l = expecting c i n l"
  by (intro exI [of _ "expected_response_code l"] exI [of _ "expected_response_id l"] exI [of _ "expected_response_count l"])
     (simp add: expecting_def)

text \<open>
  What has happened when the loop ends: a first part of the packets was sent, and all of them if it was a
  success, and then as many responses are expected as there are packets.
\<close>

definition requests_sent ::
    "nat \<Rightarrow> nat \<Rightarrow> bte_acl \<Rightarrow> nat \<Rightarrow> bte_l2cap \<Rightarrow> byte \<Rightarrow> tlv list \<Rightarrow> bool \<Rightarrow> 'c ldev \<Rightarrow> 'c ldev \<Rightarrow> bool" where
  "requests_sent m acl a p l ident os ok s s' \<longleftrightarrow>
     (let chunks = config_chunks (unat (l_remote_mtu l)) os in
      \<exists>k c i n. wire s' = wire s @ config_requests m a (remote_channel_id l) ident (take (Suc k) chunks) \<and>
        (ok \<longrightarrow> Suc k = length chunks \<and> c = L2CAP_SIGNAL_CONFIG_RSP \<and> i = s_last_signal_id s' \<and>
           n = expected_response_count l + of_nat (length chunks)) \<and>
        l2cap_heap s' = (l2cap_heap s)(p \<mapsto> expecting c i n l) \<and> link_ready m acl a s' \<and>
        acls s' = acls s \<and> acl_heap s' = acl_heap s)"

lemma requests_sentI:
  assumes "wire s' = wire s @ config_requests m a (remote_channel_id l) ident (take (Suc k) (config_chunks (unat (l_remote_mtu l)) os))"
    "ok \<Longrightarrow> Suc k = length (config_chunks (unat (l_remote_mtu l)) os) \<and> c = L2CAP_SIGNAL_CONFIG_RSP \<and>
       i = s_last_signal_id s' \<and> n = expected_response_count l + of_nat (Suc k)"
    "l2cap_heap s' = (l2cap_heap s)(p \<mapsto> expecting c i n l)" "link_ready m acl a s'" "acls s' = acls s" "acl_heap s' = acl_heap s"
  shows "requests_sent m acl a p l ident os ok s s'"
  unfolding requests_sent_def Let_def using assms by metis

lemma requests_sentE:
  assumes "requests_sent m acl a p l ident os ok s s'"
  obtains k c i n where
    "wire s' = wire s @ config_requests m a (remote_channel_id l) ident (take (Suc k) (config_chunks (unat (l_remote_mtu l)) os))"
    "ok \<longrightarrow> Suc k = length (config_chunks (unat (l_remote_mtu l)) os) \<and> c = L2CAP_SIGNAL_CONFIG_RSP \<and>
       i = s_last_signal_id s' \<and> n = expected_response_count l + of_nat (Suc k)"
    "l2cap_heap s' = (l2cap_heap s)(p \<mapsto> expecting c i n l)" "link_ready m acl a s'" "acls s' = acls s" "acl_heap s' = acl_heap s"
  using assms unfolding requests_sent_def Let_def by metis

lemma config_send_loop_requests:
  assumes "link_ready m acl a s" "l2cap_heap s p = Some l" "l_acl l = Some acl" "84 \<le> m" "fits m 84"
    "24 \<le> unat (l_remote_mtu l)" "s_last_signal_id s = ident"
    "os = filter (\<lambda>(c, _). start \<le> c) (config_options (cd_params conf))"
  shows "\<exists>ok s'. config_send_loop LE p conf L2CAP_SIGNAL_CONFIG_REQ ident [] start s = Some (ok, conf, s') \<and>
    requests_sent m acl a p l ident os ok s s'"
  using assms
proof (induction "length os" arbitrary: os start ident s l rule: less_induct)
  case less
  let ?n = "unat (l_remote_mtu l)" and ?cid = "remote_channel_id l"
  obtain os1 rest where fit: "fit ?n os = (os1, rest)" by (cases "fit ?n os")
  have opts: "os1 @ rest = os" using fit_append [OF fit] by simp
  have sub: "set os \<subseteq> set (config_options (cd_params conf))" using less.prems(8) by auto
  obtain rc s1 where s1: "config_send_packet LE p (cd_params conf) L2CAP_SIGNAL_CONFIG_REQ ident [] start s = Some (rc \<noteq> (0 :: int), next_cmd rest, s1)"
      "hands_over (signal_packets m a L2CAP_SIGNAL_CONFIG_REQ ident (config_payload ?cid (rest \<noteq> []) [] os1)) s s1"
    using config_send_packet_spec [OF less.prems(1-5), of start "cd_params conf" os1 rest "[]" LE L2CAP_SIGNAL_CONFIG_REQ ident] fit less.prems(8)
    by auto
  note h1 = hands_over_heap [OF s1(2)]
  have r1: "link_ready m acl a s1" by (rule hands_over_ready [OF s1(2) less.prems(1)])
  have w1: "wire s1 = wire s @ signal_packets m a L2CAP_SIGNAL_CONFIG_REQ ident (config_payload ?cid (rest \<noteq> []) [] os1)"
    using s1(2) by (simp add: hands_over_def)
  have acls1: "acls s1 = acls s" using h1(3) .
  have nc: "(0 < next_cmd rest) = (rest \<noteq> [])"
    using next_cmd_zero [of rest] config_options_ok [of "cd_params conf"] opts less.prems(8)
    by (metis (mono_tags, lifting) list_all_append list_all_filter_subset)
  let ?l1 = "expecting L2CAP_SIGNAL_CONFIG_RSP (s_last_signal_id s) (expected_response_count l + 1) l"
  show ?case
  proof (cases "rc = 0 \<or> rest = []")
    case True
    show ?thesis
    proof (cases "rc = 0")
      case True
      then have loop: "config_send_loop LE p conf L2CAP_SIGNAL_CONFIG_REQ ident [] start s = Some (False, conf, s1)"
        using s1(1) by (subst config_send_loop.simps) simp
      obtain c i n where "l = expecting c i n l" using expecting_same by blast
      then have "l2cap_heap s1 = (l2cap_heap s)(p \<mapsto> expecting c i n l)"
        using h1(1) less.prems(2) by (simp add: map_upd_triv)
      then have "requests_sent m acl a p l ident os False s s1"
        using w1 r1 acls1 h1(2) config_chunks_step(1) [OF fit] by (intro requests_sentI [where k = 0]) simp_all
      then show ?thesis using loop by blast
    next
      case False
      with True have rest: "rest = []" by simp
      have hp: "l2cap_heap s1 p = Some l" using h1(1) less.prems(2) by simp
      let ?s2 = "set_l2cap p ?l1 s1"
      have loop: "config_send_loop LE p conf L2CAP_SIGNAL_CONFIG_REQ ident [] start s = Some (True, conf, ?s2)"
        using s1(1) False rest hp h1(5) by (subst config_send_loop.simps) (simp add: upd_l2cap_eq expecting_def)
      have "length (config_chunks ?n os) = Suc 0" using config_chunks_step(2) [OF fit] rest by simp
      then have "requests_sent m acl a p l ident os True s ?s2"
        using w1 r1 acls1 h1(1,2,5) config_chunks_step(1) [OF fit] by (intro requests_sentI [where k = 0]) simp_all
      then show ?thesis using loop by blast
    qed
  next
    case False
    have hp: "l2cap_heap s1 p = Some l" using h1(1) less.prems(2) by simp
    have ne: "os1 \<noteq> []" using fit_progress [OF fit _ less.prems(6) sub] False by simp
    let ?i = "next_ident ident"
    let ?l2 = "expecting L2CAP_SIGNAL_CONFIG_RSP ?i (expected_response_count l + 1) l"
    let ?s2 = "set_l2cap p ?l2 (s1\<lparr>s_last_signal_id := ?i\<rparr>)"
    have loop: "config_send_loop LE p conf L2CAP_SIGNAL_CONFIG_REQ ident [] start s =
        config_send_loop LE p conf L2CAP_SIGNAL_CONFIG_REQ ?i [] (next_cmd rest) ?s2"
      using s1(1) False nc hp h1(5) less.prems(7)
      by (subst config_send_loop.simps)
         (simp add: upd_l2cap_eq next_signal_id_def expecting_def set_l2cap_def Let_def)
    have lt: "length rest < length os" using opts ne by (cases os1) auto
    have resume: "rest = filter (\<lambda>(c, _). next_cmd rest \<le> c) (config_options (cd_params conf))"
      using l2cap_config_write_correct [of "l_remote_mtu l" start "cd_params conf" os1 rest] fit less.prems(8) False by auto
    have mtu: "24 \<le> unat (l_remote_mtu ?l2)" and la: "l_acl ?l2 = Some acl" using less.prems(3,6) by simp_all
    have r2: "link_ready m acl a ?s2" using r1 by simp
    have h2: "l2cap_heap ?s2 p = Some ?l2" and id2: "s_last_signal_id ?s2 = ?i" by simp_all
    from less.hyps [OF lt r2 h2 la less.prems(4,5) mtu id2 resume]
    obtain ok s' where IH: "config_send_loop LE p conf L2CAP_SIGNAL_CONFIG_REQ ?i [] (next_cmd rest) ?s2 = Some (ok, conf, s')"
        "requests_sent m acl a p ?l2 ?i rest ok ?s2 s'" by blast
    obtain k c i n where rs:
        "wire s' = wire ?s2 @ config_requests m a (remote_channel_id ?l2) ?i (take (Suc k) (config_chunks (unat (l_remote_mtu ?l2)) rest))"
        "ok \<longrightarrow> Suc k = length (config_chunks (unat (l_remote_mtu ?l2)) rest) \<and> c = L2CAP_SIGNAL_CONFIG_RSP \<and>
           i = s_last_signal_id s' \<and> n = expected_response_count ?l2 + of_nat (Suc k)"
        "l2cap_heap s' = (l2cap_heap ?s2)(p \<mapsto> expecting c i n ?l2)" "link_ready m acl a s'" "acls s' = acls ?s2"
        "acl_heap s' = acl_heap ?s2"
      by (rule requests_sentE [OF IH(2)])
    have ch: "config_chunks ?n os = (os1, True) # config_chunks ?n rest" using config_chunks_step(3) [OF fit ne] False by simp
    have len: "(of_nat (length (config_chunks ?n rest)) :: byte) = 1 + of_nat k" if ok
      using rs(2) that by (metis expecting_simps(3) of_nat_Suc)
    have "requests_sent m acl a p l ident os ok s s'"
      by (rule requests_sentI [where k = "Suc k" and c = c and i = i and n = n])
         (use rs w1 ch False h1(1,2) acls1 len in auto)
    then show ?thesis using loop IH(1) by auto
  qed
qed


text \<open>The packets of a request carry all the options in their order, and every one but the last says that more follow.\<close>

lemma config_chunks_all:
  assumes "24 \<le> n" "set os \<subseteq> set (config_options params)"
  shows "concat (map fst (config_chunks n os)) = os \<and>
    map snd (config_chunks n os) = replicate (length (config_chunks n os) - 1) True @ [False]"
  using assms
proof (induction "length os" arbitrary: os rule: less_induct)
  case less
  obtain a b where ab: "fit n os = (a, b)" by (cases "fit n os")
  have os: "a @ b = os" using fit_append [OF ab] by simp
  show ?case
  proof (cases "b = []")
    case True
    then show ?thesis using config_chunks_step(2) [OF ab] os by simp
  next
    case False
    have a: "a \<noteq> []" by (rule fit_progress [OF ab False less.prems])
    have IH: "concat (map fst (config_chunks n b)) = b \<and>
        map snd (config_chunks n b) = replicate (length (config_chunks n b) - 1) True @ [False]"
      by (rule less.hyps) (use a os less.prems in auto)
    then have "config_chunks n b \<noteq> []" by auto
    then show ?thesis using IH config_chunks_step(3) [OF ab a False] os
      by (cases "config_chunks n b") auto
  qed
qed

text \<open>Changing the state in the end of \<^verbatim>\<open>l2cap_config_send\<close> and of the handlers.\<close>

lemma set_state_cases:
  assumes "silent LE p l" "l2cap_heap s p = Some l"
  shows "(if l_state l = a then l2cap_set_state LE p a' s else if l_state l = b then l2cap_set_state LE p b' s else Some s) =
    Some (set_l2cap p (l\<lparr>l_state := (if l_state l = a then a' else if l_state l = b then b' else l_state l)\<rparr>) s)"
  using set_state_silent [OF assms] set_l2cap_same [OF assms(2)] by simp

lemma requests_sent_heap:
  assumes "requests_sent m acl a p l ident os ok s s'"
  shows "\<exists>c i n. l2cap_heap s' = (l2cap_heap s)(p \<mapsto> expecting c i n l)"
  using assms unfolding requests_sent_def Let_def by (elim exE conjE) (intro exI)

lemma config_send_request:
  assumes "link_ready m acl a s" "l2cap_heap s p = Some l" "l_acl l = Some acl" "84 \<le> m" "fits m 84"
    "24 \<le> unat (l_remote_mtu l)" "silent LE p l" "\<not> cd_has_pending_packets conf"
  shows "\<exists>ok s1 c i n. requests_sent m acl a p l (next_ident (s_last_signal_id s)) (config_options (cd_params conf)) ok
      (s\<lparr>s_last_signal_id := next_ident (s_last_signal_id s)\<rparr>) s1 \<and> l2cap_heap s1 p = Some (expecting c i n l) \<and>
    l2cap_config_send LE p conf 0 s = Some (ok, conf, set_l2cap p ((expecting c i n l)\<lparr>l_state := sent_state (l_state l)\<rparr>) s1)"
proof -
  let ?i = "next_ident (s_last_signal_id s)" and ?os = "config_options (cd_params conf)"
  let ?s = "s\<lparr>s_last_signal_id := ?i\<rparr>"
  have f: "?os = filter (\<lambda>(c, _). 0 \<le> c) ?os" by (simp add: case_prod_beta)
  have r: "link_ready m acl a ?s" and h: "l2cap_heap ?s p = Some l" using assms(1,2) by simp_all
  obtain ok s1 where s1: "config_send_loop LE p conf L2CAP_SIGNAL_CONFIG_REQ ?i [] 0 ?s = Some (ok, conf, s1)"
      "requests_sent m acl a p l ?i ?os ok ?s s1"
    using config_send_loop_requests [where LE = LE and ident = ?i and start = 0, OF r h assms(3-6) _ f] by auto
  have "\<exists>c i n. l2cap_heap s1 = (l2cap_heap ?s)(p \<mapsto> expecting c i n l)"
    by (rule requests_sent_heap [OF s1(2)])
  then obtain c i n where s1': "l2cap_heap s1 = (l2cap_heap ?s)(p \<mapsto> expecting c i n l)" by blast
  then have hp: "l2cap_heap s1 p = Some (expecting c i n l)" by simp
  have sil: "silent LE p (expecting c i n l)" using assms(7) by (simp add: silent_def)
  have "l2cap_config_send LE p conf 0 s = Some (ok, conf, set_l2cap p ((expecting c i n l)\<lparr>l_state := sent_state (l_state l)\<rparr>) s1)"
    using s1(1) hp set_state_silent [OF sil hp] set_l2cap_same [OF hp] assms(8)
    by (simp add: l2cap_config_send_def next_signal_id_def Let_def sent_state_def)
  then show ?thesis using s1(2) hp by blast
qed


section \<open>Responses\<close>

definition config_result :: "configure_data \<Rightarrow> u16" where
  "config_result conf = (if cd_rejected_mask conf \<noteq> 0 then L2CAP_CONFIG_RES_ERR_REJ else L2CAP_CONFIG_RES_OK)"

text \<open>One packet answers a request; when not all options fit, the rest waits for the next request.\<close>

lemma config_send_response:
  assumes "link_ready m acl a s" "l2cap_heap s p = Some l" "l_acl l = Some acl" "84 \<le> m" "fits m 84"
    "silent LE p l" "ident \<noteq> 0"
    and start: "start = (if cd_has_pending_packets conf then cd_start_cmd conf else 0)"
    and fit: "fit (unat (l_remote_mtu l)) (filter (\<lambda>(c, _). start \<le> c) (config_options (cd_params conf))) = (os, rest)"
  shows "\<exists>rc s1 conf' st. hands_over (signal_packets m a L2CAP_SIGNAL_CONFIG_RSP ident
        (config_payload (remote_channel_id l) (rest \<noteq> []) (le_bytes 2 (config_result conf)) os)) s s1 \<and>
    conf' = (if rc \<noteq> (0 :: int) \<and> rest \<noteq> [] then conf\<lparr>cd_has_pending_packets := True, cd_start_cmd := next_cmd rest\<rparr>
             else conf\<lparr>cd_has_pending_packets := False\<rparr>) \<and>
    st = (if cd_has_pending_packets conf' \<or> cd_rejected_mask conf \<noteq> 0 then l_state l else answered_state (l_state l)) \<and>
    l2cap_config_send LE p conf ident s = Some (rc \<noteq> 0, conf', set_l2cap p (l\<lparr>l_state := st\<rparr>) s1)"
proof -
  let ?conf = "conf\<lparr>cd_has_pending_packets := False\<rparr>"
  have fit': "fit (unat (l_remote_mtu l)) (filter (\<lambda>(c, _). start \<le> c) (config_options (cd_params ?conf))) = (os, rest)"
    using fit by simp
  have res: "length (le_bytes 2 (config_result conf)) \<le> 2" by simp
  obtain rc s1 where s1: "config_send_packet LE p (cd_params ?conf) L2CAP_SIGNAL_CONFIG_RSP ident (le_bytes 2 (config_result conf)) start s =
        Some (rc \<noteq> (0 :: int), next_cmd rest, s1)"
      "hands_over (signal_packets m a L2CAP_SIGNAL_CONFIG_RSP ident
        (config_payload (remote_channel_id l) (rest \<noteq> []) (le_bytes 2 (config_result conf)) os)) s s1"
    using config_send_packet_spec [where LE = LE, OF assms(1-5) fit' res] by blast
  have "os @ rest = filter (\<lambda>(c, _). start \<le> c) (config_options (cd_params conf))"
    using fit_append [OF fit] by simp
  then have nc: "(0 < next_cmd rest) = (rest \<noteq> [])"
    using next_cmd_zero [of rest] config_options_ok [of "cd_params conf"]
    by (metis (mono_tags, lifting) list_all_append list_all_filter_subset)
  let ?conf' = "if rc \<noteq> 0 \<and> rest \<noteq> [] then conf\<lparr>cd_has_pending_packets := True, cd_start_cmd := next_cmd rest\<rparr> else ?conf"
  have loop: "config_send_loop LE p ?conf L2CAP_SIGNAL_CONFIG_RSP ident (le_bytes 2 (config_result conf)) start s =
      Some (rc \<noteq> 0, ?conf', s1)"
    using s1(1) nc by (subst config_send_loop.simps) simp
  have hp: "l2cap_heap s1 p = Some l" using hands_over_heap(1) [OF s1(2)] assms(2) by simp
  let ?st = "if cd_has_pending_packets ?conf' \<or> cd_rejected_mask conf \<noteq> 0 then l_state l else answered_state (l_state l)"
  have "l2cap_config_send LE p conf ident s = Some (rc \<noteq> 0, ?conf', set_l2cap p (l\<lparr>l_state := ?st\<rparr>) s1)"
    using loop hp set_state_silent [OF assms(6) hp] set_l2cap_same [OF hp] assms(7)
    unfolding start config_result_def
    by (simp add: l2cap_config_send_def Let_def answered_state_def)
  then show ?thesis using s1(2) by blast
qed


section \<open>Handling a request\<close>

text \<open>What is agreed on for a request: the default MTU when it does not name one.\<close>

definition agreed :: "configure_params \<Rightarrow> configure_params" where
  "agreed params = (if field_mask params AND BTE_L2CAP_CONFIG_MTU = 0
     then params\<lparr>cfg_mtu := L2CAP_MTU_DEFAULT, field_mask := field_mask params OR BTE_L2CAP_CONFIG_MTU\<rparr> else params)"

lemma agreed_mtu: "(if field_mask params AND BTE_L2CAP_CONFIG_MTU \<noteq> 0 then cfg_mtu params else L2CAP_MTU_DEFAULT) = cfg_mtu (agreed params)"
  by (simp add: agreed_def)

lemma l2cap_upd_order:
  "l\<lparr>l_state := st, configure_req := c\<rparr> = l\<lparr>configure_req := c, l_state := st\<rparr>"
  "l\<lparr>l_state := st, configure_resp := d\<rparr> = l\<lparr>configure_resp := d, l_state := st\<rparr>"
  "l\<lparr>l_state := st, l_ref_count := n\<rparr> = l\<lparr>l_ref_count := n, l_state := st\<rparr>"
  by (cases l, simp)+

text \<open>The callback that is asked about a request, if there is one, agrees to it and changes nothing.\<close>

definition consenting :: "'c lenv \<Rightarrow> nat \<Rightarrow> bte_l2cap \<Rightarrow> bool" where
  "consenting LE p l \<longleftrightarrow> (\<forall>f params s. configure_cb l = Some f \<longrightarrow>
     le_client LE \<lparr>lc_cb = f, lc_l2cap = Some p, lc_arg = On_configure params, lc_userdata = l_userdata l\<rparr> s = Some s)"

lemma consenting_call:
  assumes "consenting LE p l"
  shows "(if configure_cb l \<noteq> None then call_l2cap LE (configure_cb l) (Some p) (On_configure params) (l_userdata l) s else Some s) = Some s"
  using assms by (auto simp: consenting_def call_l2cap_def)

text \<open>The size of the options of a configuration.\<close>

abbreviation config_size :: "configure_params \<Rightarrow> nat" where
  "config_size params \<equiv> length (tlvs_bytes (config_options params))"

lemma configure_req_complete_spec:
  assumes "link_ready m acl a s" "l2cap_heap s p = Some l" "l_acl l = Some acl" "84 \<le> m" "fits m 84"
    "silent LE p l" "ident \<noteq> 0" "consenting LE p l" "configure_req l = Some conf" "cd_rejected_mask conf = 0"
    "\<not> cd_has_pending_packets conf" and mtu: "config_size (agreed (cd_params conf)) \<le> unat (cfg_mtu (agreed (cd_params conf)))"
  shows "\<exists>s'. configure_req_complete LE p ident s = Some s' \<and>
    channel_step (signal_packets m a L2CAP_SIGNAL_CONFIG_RSP ident (config_payload (remote_channel_id l) False
        (le_bytes 2 L2CAP_CONFIG_RES_OK) (config_options (agreed (cd_params conf))))) p
      (l\<lparr>l_remote_mtu := cfg_mtu (agreed (cd_params conf)),
         configure_req := Some (conf\<lparr>cd_params := agreed (cd_params conf)\<rparr>), l_state := answered_state (l_state l)\<rparr>) s s'"
proof -
  let ?ps = "agreed (cd_params conf)"
  let ?conf = "conf\<lparr>cd_params := ?ps\<rparr>"
  let ?l = "l\<lparr>l_remote_mtu := cfg_mtu ?ps, configure_req := Some ?conf\<rparr>"
  let ?s = "set_l2cap p ?l s"
  have r: "link_ready m acl a ?s" and h: "l2cap_heap ?s p = Some ?l" and la: "l_acl ?l = Some acl"
    using assms(1,3) by simp_all
  have sil: "silent LE p ?l" using assms(6) by (simp add: silent_def)
  have st: "(0 :: byte) = (if cd_has_pending_packets ?conf then cd_start_cmd ?conf else 0)" using assms(11) by simp
  have "filter (\<lambda>(c, _). 0 \<le> c) (config_options (cd_params ?conf)) = config_options ?ps"
    by (simp add: case_prod_beta)
  moreover have "length (tlvs_bytes (config_options ?ps)) \<le> unat (cfg_mtu ?ps)"
    using mtu by simp
  ultimately have ft: "fit (unat (l_remote_mtu ?l)) (filter (\<lambda>(c, _). 0 \<le> c) (config_options (cd_params ?conf))) = (config_options ?ps, [])"
    using fit_all by simp
  obtain rc s1 where s1: "hands_over (signal_packets m a L2CAP_SIGNAL_CONFIG_RSP ident (config_payload (remote_channel_id ?l) ([] \<noteq> ([] :: tlv list))
        (le_bytes 2 (config_result ?conf)) (config_options ?ps))) ?s s1"
      "l2cap_config_send LE p ?conf ident ?s = Some (rc \<noteq> (0 :: int), ?conf\<lparr>cd_has_pending_packets := False\<rparr>,
        set_l2cap p (?l\<lparr>l_state := answered_state (l_state ?l)\<rparr>) s1)"
    using config_send_response [OF r h la assms(4,5) sil assms(7) st ft] assms(10) by auto
  have res: "config_result ?conf = L2CAP_CONFIG_RES_OK" using assms(10) by (simp add: config_result_def)
  have c0: "?conf\<lparr>cd_has_pending_packets := False\<rparr> = ?conf" using assms(11) by (cases conf) simp
  let ?s2 = "set_l2cap p (?l\<lparr>l_state := answered_state (l_state l)\<rparr>) s1"
  have send: "config_send_req LE p ident ?s = Some (rc \<noteq> 0, ?s2)"
    using h s1(2) by (simp add: config_send_req_def c0 upd_l2cap_eq l2cap_upd_order)
  have "configure_req_complete LE p ident s = Some ?s2"
    using assms(2,9,10) send consenting_call [OF assms(8)]
    by (cases "field_mask (cd_params conf) AND BTE_L2CAP_CONFIG_MTU = 0")
       (simp_all add: configure_req_complete_def l2cap_config_validate_def l2cap_config_apply_def upd_l2cap_eq
        put_l2cap_eq agreed_def Let_def)
  moreover have "channel_step (signal_packets m a L2CAP_SIGNAL_CONFIG_RSP ident (config_payload (remote_channel_id l) False
      (le_bytes 2 L2CAP_CONFIG_RES_OK) (config_options ?ps))) p (?l\<lparr>l_state := answered_state (l_state l)\<rparr>) s ?s2"
    using channel_step_send [OF s1(1), of p] unfolding res by simp
  ultimately show ?thesis by blast
qed


text \<open>The packets that answer a request with the parameters that were agreed on.\<close>

abbreviation config_answer :: "nat \<Rightarrow> bte_acl \<Rightarrow> byte \<Rightarrow> u16 \<Rightarrow> configure_params \<Rightarrow> mem list" where
  "config_answer m a ident cid params \<equiv> signal_packets m a L2CAP_SIGNAL_CONFIG_RSP ident
     (config_payload cid False (le_bytes 2 L2CAP_CONFIG_RES_OK) (config_options params))"

lemma handle_configure_req_spec:
  assumes "link_ready m acl a s" "l2cap_heap s p = Some l" "l_acl l = Some acl" "84 \<le> m" "fits m 84"
    "silent LE p l" "ident \<noteq> 0" "consenting LE p l" "configure_req l = None"
    "l2cap_for_local_channel acl cid s = Some (Some p)" "l_ref_count l \<noteq> 0"
    "l_state l \<in> {BTE_L2CAP_WAIT_CONFIG, BTE_L2CAP_WAIT_CONFIG_REQ, BTE_L2CAP_WAIT_CONFIG_REQ_RSP, BTE_L2CAP_OPEN}"
    "reader_ok r" "reader_stream r = config_payload cid False [] os @ rest" "list_all tlv_ok os" "\<not> list_ex critical os"
    "length (tlvs_bytes os) < 65532" and params: "params = agreed (fold apply_tlv os zero_params)" and "config_size params \<le> unat (cfg_mtu params)"
  shows "\<exists>r' s'. acl_l2cap_handle_configure_req LE acl ident r (4 + of_nat (length (tlvs_bytes os))) s = Some (True, r', s') \<and>
    reader_ok r' \<and> reader_stream r' = rest \<and>
    channel_step (config_answer m a ident (remote_channel_id l) params) p
      (l\<lparr>l_remote_mtu := cfg_mtu params, l_state := answered_state (l_state l)\<rparr>) s s'"
proof -
  let ?n = "of_nat (length (tlvs_bytes os)) :: u16"
  have n: "unat ?n = length (tlvs_bytes os)" using assms(17) by (simp add: u16_of_nat)
  have le: "4 \<le> 4 + ?n"
    using n assms(17) by (simp add: word_le_nat_alt unat_word_ariths)
  obtain r1 where r1: "read_signal_header r (4 + ?n) 4 = Some (Some (le_bytes 2 cid @ le_bytes 2 (0 :: u16)), r1)" "reader_ok r1"
      "reader_stream r1 = tlvs_bytes os @ rest"
    using read_header_spec [OF assms(13), of "le_bytes 2 cid @ le_bytes 2 (0 :: u16)" "tlvs_bytes os @ rest" 4 "4 + ?n"] le assms(14)
    by (auto simp: config_payload_def)
  have hd: "read_le16 (le_bytes 2 cid @ le_bytes 2 (0 :: u16)) 0 = Some cid" "read_le16 (le_bytes 2 cid @ le_bytes 2 (0 :: u16)) 2 = Some 0"
    by (simp_all add: read_le16_def slice_def le_val_bytes)
  obtain r2 where r2: "reader_ok r2" "reader_stream r2 = rest"
      "l2cap_config_parse r1 zero_params ?n (Some 0) = Some (0, r2, fold apply_tlv os zero_params, Some 0)"
    using config_parse_spec [OF r1(2), of os rest zero_params] r1(3) assms(15-17) by auto
  let ?conf = "zero_conf\<lparr>cd_params := fold apply_tlv os zero_params\<rparr>"
  let ?l = "l\<lparr>l_ref_count := l_ref_count l + 1, configure_req := Some ?conf\<rparr>"
  let ?s = "set_l2cap p ?l s"
  have "\<exists>s1. configure_req_complete LE p ident ?s = Some s1 \<and>
      channel_step (config_answer m a ident (remote_channel_id ?l) (agreed (cd_params ?conf))) p
        (?l\<lparr>l_remote_mtu := cfg_mtu (agreed (cd_params ?conf)),
            configure_req := Some (?conf\<lparr>cd_params := agreed (cd_params ?conf)\<rparr>), l_state := answered_state (l_state ?l)\<rparr>) ?s s1"
    by (rule configure_req_complete_spec) (use assms in \<open>simp_all add: silent_def consenting_def zero_conf_def\<close>)
  then obtain s1 where s1: "configure_req_complete LE p ident ?s = Some s1"
      "channel_step (config_answer m a ident (remote_channel_id l) params) p (?l\<lparr>l_remote_mtu := cfg_mtu params,
            configure_req := Some (?conf\<lparr>cd_params := params\<rparr>), l_state := answered_state (l_state l)\<rparr>) s s1"
    using params by auto
  note hp = channel_step_heap [OF s1(2)]
  let ?k = "l\<lparr>l_remote_mtu := cfg_mtu params, l_state := answered_state (l_state l)\<rparr>"
  have ends: "configure_req_end LE p 0 s1 = Some (set_l2cap p ?k s1)"
    using hp assms(9,11) by (cases l) (simp add: configure_req_end_def bte_l2cap_unref_def put_l2cap_eq zero_conf_def)
  have st: "Some (l_state l) \<in> {Some BTE_L2CAP_WAIT_CONFIG, Some BTE_L2CAP_WAIT_CONFIG_REQ, Some BTE_L2CAP_WAIT_CONFIG_REQ_RSP, Some BTE_L2CAP_OPEN}"
    using assms(12) by blast
  have zc: "cd_params zero_conf = zero_params" "\<not> cd_has_pending_packets zero_conf" by (simp_all add: zero_conf_def)
  have "acl_l2cap_handle_configure_req LE acl ident r (4 + ?n) s = Some (True, r2, set_l2cap p ?k s1)"
    using r1(1) hd assms(2,9,10) r2(3) s1(1) ends st
    by (simp add: acl_l2cap_handle_configure_req_def put_l2cap_eq upd_l2cap_eq bte_l2cap_ref_def zc del: insert_iff)
  then show ?thesis using r2(1,2) channel_step_upd [OF s1(2)] by blast
qed


section \<open>Handling a response\<close>

text \<open>A callback that changes nothing is called for the reply.\<close>

definition quiet :: "'c lenv \<Rightarrow> nat \<Rightarrow> cb_ptr \<Rightarrow> u64 \<Rightarrow> bool" where
  "quiet LE p cb ud \<longleftrightarrow> (\<forall>reply s. call_l2cap LE cb (Some p) (Configure_reply reply) ud s = Some s)"

lemma config_parse_known:
  assumes "reader_ok r" "reader_stream r = tlvs_bytes os @ rest" "list_all tlv_ok os" "length (tlvs_bytes os) < 65536"
  shows "\<exists>r'. reader_ok r' \<and> reader_stream r' = rest \<and>
    l2cap_config_parse r params (of_nat (length (tlvs_bytes os))) None = Some (0, r', fold apply_tlv os params, None)"
  using config_parse_tlvs [OF assms(1-3), of 0 "length (tlvs_bytes os)" params None "- 1"] assms(4)
  by (auto simp: l2cap_config_parse_def parse_result_def)

lemma read_resp_header:
  assumes "reader_ok r" "reader_stream r = config_payload cid False (le_bytes 2 (result :: u16)) os @ rest"
    "length (tlvs_bytes os) < 65530"
  shows "\<exists>h r1. read_signal_header r (6 + of_nat (length (tlvs_bytes os))) 6 = Some (Some h, r1) \<and> reader_ok r1 \<and>
    reader_stream r1 = tlvs_bytes os @ rest \<and> read_le16 h 2 = Some 0 \<and> read_le16 h 4 = Some result"
proof -
  let ?h = "le_bytes 2 cid @ le_bytes 2 (0 :: u16) @ le_bytes 2 result"
  have "unat (of_nat (length (tlvs_bytes os)) :: u16) = length (tlvs_bytes os)" using assms(3) by (simp add: u16_of_nat)
  then have le: "6 \<le> 6 + (of_nat (length (tlvs_bytes os)) :: u16)"
    using assms(3) by (simp add: word_le_nat_alt unat_word_ariths)
  have hd: "read_le16 ?h 2 = Some 0" "read_le16 ?h 4 = Some result"
    by (simp_all add: read_le16_def slice_def le_val_bytes)
  show ?thesis
    using read_header_spec [OF assms(1), of ?h "tlvs_bytes os @ rest" 6 "6 + of_nat (length (tlvs_bytes os))"] le assms(2) hd
    by (auto simp: config_payload_def simp del: read_le16_def)
qed

text \<open>The channel after the response \<open>result\<close> to a request.\<close>

definition resp_channel :: "u16 \<Rightarrow> configure_params \<Rightarrow> bte_l2cap \<Rightarrow> bte_l2cap" where
  "resp_channel result params l = (if result = L2CAP_CONFIG_RES_OK
     then l\<lparr>l_mtu := cfg_mtu (agreed params), l_state := accepted_state (l_state l)\<rparr>
     else l\<lparr>l_state := refused_state (l_state l)\<rparr>)"

lemma handle_config_resp_ok:
  assumes "l2cap_heap s p = Some l" "silent LE p l" "quiet LE p (cmd_client_cb l) (cmd_userdata l)" "configure_resp l = None"
    "reader_ok r" "reader_stream r = config_payload cid False (le_bytes 2 L2CAP_CONFIG_RES_OK) os @ rest"
    "list_all tlv_ok os" "length (tlvs_bytes os) < 65530"
  shows "\<exists>r'. l2cap_handle_config_resp LE p r (6 + of_nat (length (tlvs_bytes os))) s =
    Some (True, r', set_l2cap p (resp_channel L2CAP_CONFIG_RES_OK (fold apply_tlv os zero_params) l) s)"
proof -
  let ?ps = "fold apply_tlv os zero_params"
  obtain h r1 where r1: "read_signal_header r (6 + of_nat (length (tlvs_bytes os))) 6 = Some (Some h, r1)" "reader_ok r1"
      "reader_stream r1 = tlvs_bytes os @ rest" "read_le16 h 2 = Some 0" "read_le16 h 4 = Some L2CAP_CONFIG_RES_OK"
    using read_resp_header [OF assms(5,6,8)] by blast
  have l65: "length (tlvs_bytes os) < 65536" using assms(8) by simp
  obtain r2 where r2: "l2cap_config_parse r1 zero_params (of_nat (length (tlvs_bytes os))) None = Some (0, r2, ?ps, None)"
    using config_parse_known [OF r1(2,3) assms(7) l65, of zero_params] by blast
  let ?k = "l\<lparr>l_mtu := cfg_mtu (agreed ?ps)\<rparr>"
  have k: "?k\<lparr>configure_resp := None\<rparr> = ?k" using assms(4) by (cases l) simp
  have sil: "silent LE p ?k" using assms(2) by (simp add: silent_def)
  have hk: "l2cap_heap (set_l2cap p ?k s) p = Some ?k" by simp
  have st: "l2cap_set_state LE p st (set_l2cap p ?k s) = Some (set_l2cap p (?k\<lparr>l_state := st\<rparr>) s)" for st
    using set_state_silent [OF sil hk] by simp
  have q: "call_l2cap LE (cmd_client_cb l) (Some p) (Configure_reply reply) (cmd_userdata l) t = Some t" for reply t
    using assms(3) by (simp add: quiet_def)
  have zc: "cd_params zero_conf = zero_params" by (simp add: zero_conf_def)
  have "l2cap_handle_config_resp LE p r (6 + of_nat (length (tlvs_bytes os))) s =
      Some (True, r2, set_l2cap p (?k\<lparr>l_state := accepted_state (l_state l)\<rparr>) s)"
    using r1(1,4,5) assms(1,4) r2 q st
    by (simp add: l2cap_handle_config_resp_def config_resp_parse_def zc put_l2cap_eq upd_l2cap_eq l2cap_config_apply_def
        agreed_mtu accepted_state_def Let_def k)
  then show ?thesis by (auto simp: resp_channel_def)
qed


lemma config_resp_parse_total:
  assumes "reader_ok r"
  shows "\<exists>r' conf'. config_resp_parse r n result conf = Some (r', conf')"
proof -
  have p: "\<exists>rc r' ps u. l2cap_config_parse r params n None = Some (rc, r', ps, u)" for params
    using config_parse_total [OF assms, of params n None 0 "- 1"] by (auto simp: l2cap_config_parse_def)
  show ?thesis
    using p [of "(cd_params conf)\<lparr>field_mask := cd_rejected_mask conf\<rparr>"] p [of zero_params] p [of "cd_params conf"]
    by (auto simp: config_resp_parse_def Let_def)
qed

lemma handle_config_resp_refused:
  assumes "l2cap_heap s p = Some l" "silent LE p l" "quiet LE p (cmd_client_cb l) (cmd_userdata l)" "configure_resp l = None"
    "reader_ok r" "reader_stream r = config_payload cid False (le_bytes 2 result) os @ rest"
    "length (tlvs_bytes os) < 65530" "result \<noteq> L2CAP_CONFIG_RES_OK"
  shows "\<exists>r'. l2cap_handle_config_resp LE p r (6 + of_nat (length (tlvs_bytes os))) s =
    Some (True, r', set_l2cap p (resp_channel result params l) s)"
proof -
  obtain h r1 where r1: "read_signal_header r (6 + of_nat (length (tlvs_bytes os))) 6 = Some (Some h, r1)" "reader_ok r1"
      "read_le16 h 2 = Some 0" "read_le16 h 4 = Some result"
    using read_resp_header [OF assms(5-7)] by blast
  obtain r2 conf where r2: "config_resp_parse r1 (of_nat (length (tlvs_bytes os))) result zero_conf = Some (r2, conf)"
    using config_resp_parse_total [OF r1(2)] by blast
  let ?k = "l\<lparr>configure_resp := Some (True, conf)\<rparr>"
  have sil: "silent LE p ?k" using assms(2) by (simp add: silent_def)
  have hk: "l2cap_heap (set_l2cap p ?k s) p = Some ?k" by simp
  have st: "l2cap_set_state LE p st (set_l2cap p ?k s) = Some (set_l2cap p (?k\<lparr>l_state := st\<rparr>) s)" for st
    using set_state_silent [OF sil hk] by simp
  have q: "call_l2cap LE (cmd_client_cb l) (Some p) (Configure_reply reply) (cmd_userdata l) t = Some t" for reply t
    using assms(3) by (simp add: quiet_def)
  have k: "l\<lparr>l_state := st, configure_resp := None\<rparr> = l\<lparr>l_state := st\<rparr>" "l\<lparr>configure_resp := None\<rparr> = l" for st
    using assms(4) by (cases l; simp)+
  have "l2cap_handle_config_resp LE p r (6 + of_nat (length (tlvs_bytes os))) s =
      Some (True, r2, set_l2cap p (l\<lparr>l_state := refused_state (l_state l)\<rparr>) s)"
    using r1(1,3,4) assms(1,4,8) q st r2
    by (simp add: l2cap_handle_config_resp_def put_l2cap_eq upd_l2cap_eq refused_state_def
        l2cap_upd_order [symmetric] k)
  then show ?thesis using assms(8) by (auto simp: resp_channel_def)
qed

end
