(* ===== verification/L2capConfigure.thy ===== *)
theory L2capConfigure
  imports L2capState
begin

text \<open>
  The configuration of a channel between two hosts, in any order of its steps, and a request that keeps the host
  busy for ever.
\<close>

section \<open>A configuration between two hosts\<close>

lemma next_ident_nonzero: "next_ident i \<noteq> 0"
proof (cases "i = 0xff")
  case False
  then have "i + 1 \<noteq> 0" using eq_neg_iff_add_eq_0 [of i 1] by auto
  then show ?thesis using False by simp
qed simp

lemma configure_spec:
  assumes "link_ready m acl a s" "l2cap_heap s p = Some l" "l_acl l = Some acl" "84 \<le> m" "fits m 84"
    "silent LE p l" "config_size params \<le> unat (l_remote_mtu l)" "accepting (le_hci LE)"
    "l_state l \<in> {BTE_L2CAP_WAIT_CONFIG, BTE_L2CAP_WAIT_SEND_CONFIG, BTE_L2CAP_OPEN}" "expected_response_count l = 0"
    and i: "i = next_ident (s_last_signal_id s)"
    and req: "req = signal_packets m a L2CAP_SIGNAL_CONFIG_REQ i (config_payload (remote_channel_id l) False [] (config_options params))"
  shows "\<exists>s1. channel_step req p ((if sendable s (length req) then expecting L2CAP_SIGNAL_CONFIG_RSP i 1 l else l)
      \<lparr>l_state := sent_state (l_state l)\<rparr>) s s1 \<and>
    bte_l2cap_configure LE p (Some params) cb ud s =
      (if sendable s (length req) then Some (set_l2cap p ((expecting L2CAP_SIGNAL_CONFIG_RSP i 1 l)
           \<lparr>l_state := sent_state (l_state l), cmd_client_cb := cb, cmd_userdata := ud\<rparr>) s1)
       else call_l2cap LE cb (Some p) (Configure_reply (rejected_reply LE s1)) ud s1)"
proof -
  let ?s = "s\<lparr>s_last_signal_id := i\<rparr>" and ?conf = "zero_conf\<lparr>cd_params := params\<rparr>"
  let ?l = "if sendable s (length req) then expecting L2CAP_SIGNAL_CONFIG_RSP i 1 l else l"
  have r: "link_ready m acl a ?s" and h: "l2cap_heap ?s p = Some l" using assms(1,2) by simp_all
  have "length (tlvs_bytes (config_options params)) \<le> unat (l_remote_mtu l)" using assms(7) by simp
  then have ft: "fit (unat (l_remote_mtu l)) (filter (\<lambda>(c, _). 0 \<le> c) (config_options params)) = (config_options params, [])"
    using fit_all by (simp add: case_prod_beta)
  have res: "length ([] :: mem) \<le> 2" by simp
  have "\<exists>rc s0. config_send_packet LE p params L2CAP_SIGNAL_CONFIG_REQ i [] 0 ?s = Some (rc \<noteq> (0 :: int), next_cmd [], s0) \<and>
      hands_over req ?s s0 \<and> (accepting (le_hci LE) \<longrightarrow> (rc \<noteq> 0) = sendable ?s (length req))"
    using config_send_packet_spec [where LE = LE and code = L2CAP_SIGNAL_CONFIG_REQ and ident = i, OF r h assms(3-5) ft res]
    unfolding req by simp
  then obtain rc s0 where s0: "config_send_packet LE p params L2CAP_SIGNAL_CONFIG_REQ i [] 0 ?s = Some (rc \<noteq> (0 :: int), 0, s0)"
      "hands_over req ?s s0" "(rc \<noteq> 0) = sendable s (length req)"
    using assms(8) by (auto simp: sendable_def)
  note h0 = hands_over_heap [OF s0(2)]
  have hp: "l2cap_heap s0 p = Some l" using h0(1) h by simp
  have loop: "config_send_loop LE p ?conf L2CAP_SIGNAL_CONFIG_REQ i [] 0 ?s = Some (rc \<noteq> 0, ?conf, set_l2cap p ?l s0)"
    using s0(1,3) hp h0(5) assms(10) set_l2cap_same [OF hp]
    by (subst config_send_loop.simps) (auto simp: upd_l2cap_eq expecting_def)
  have sil: "silent LE p ?l" using assms(6) by (simp add: silent_def)
  have hl: "l2cap_heap (set_l2cap p ?l s0) p = Some ?l" by simp
  let ?s1 = "set_l2cap p (?l\<lparr>l_state := sent_state (l_state l)\<rparr>) s0"
  have st: "l_state ?l = l_state l" by simp
  have nsi: "next_signal_id s = (i, ?s)" using i by (simp add: next_signal_id_def Let_def)
  have pend: "\<not> cd_has_pending_packets ?conf" by (simp add: zero_conf_def)
  have send: "l2cap_config_send LE p ?conf 0 s = Some (rc \<noteq> 0, ?conf, ?s1)"
    using loop set_state_silent [OF sil hl] assms(9) st nsi pend
    unfolding l2cap_config_send_def Let_def sent_state_def by auto
  have "channel_step req p (?l\<lparr>l_state := sent_state (l_state l)\<rparr>) s ?s1"
    using channel_step_send [OF s0(2)] by simp
  moreover have "bte_l2cap_configure LE p (Some params) cb ud s =
      (if sendable s (length req) then Some (set_l2cap p ((expecting L2CAP_SIGNAL_CONFIG_RSP i 1 l)
           \<lparr>l_state := sent_state (l_state l), cmd_client_cb := cb, cmd_userdata := ud\<rparr>) ?s1)
       else call_l2cap LE cb (Some p) (Configure_reply (rejected_reply LE ?s1)) ud ?s1)"
    using assms(2,9,10) send s0(3) by (auto simp: bte_l2cap_configure_def upd_l2cap_eq)
  ultimately show ?thesis by blast
qed


text \<open>The request arrives and is answered.\<close>

lemma configure_req_received:
  assumes "link_ready m' acl b t" "link_idle acl b t" "l2cap_heap t q = Some k" "l_acl k = Some acl" "84 \<le> m'" "fits m' 84"
    "silent LE q k" "ident \<noteq> 0" "consenting LE q k" "configure_req k = None"
    "l2cap_for_local_channel acl cid t = Some (Some q)" "l_ref_count k \<noteq> 0"
    "l_state k \<in> {BTE_L2CAP_WAIT_CONFIG, BTE_L2CAP_WAIT_CONFIG_REQ, BTE_L2CAP_WAIT_CONFIG_REQ_RSP, BTE_L2CAP_OPEN}"
    "4 \<le> m" "m + 4 < 65536" "canonical params" "config_size (agreed params) \<le> unat (cfg_mtu (agreed params))"
  shows "\<exists>t1. receive_all (l2cap_dispatch LE) (map packet_in (signal_packets m b L2CAP_SIGNAL_CONFIG_REQ ident
      (config_payload cid False [] (config_options params)))) t = Some t1 \<and>
    wire t1 = wire t @ config_answer m' b ident (remote_channel_id k) (agreed params) \<and>
    l2cap_heap t1 = (l2cap_heap t)(q \<mapsto> k\<lparr>l_remote_mtu := cfg_mtu (agreed params), l_state := answered_state (l_state k)\<rparr>)"
proof -
  let ?os = "config_options params"
  let ?F = "l2cap_frame 1 (signal_command L2CAP_SIGNAL_CONFIG_REQ ident (config_payload cid False [] ?os))"
  let ?t = "noted acl b ?F t" and ?b = "b\<lparr>reassembled_message_size := of_nat (length ?F)\<rparr>"
  have os: "length (tlvs_bytes ?os) \<le> 70" by (rule config_options_size)
  have len: "length (config_payload cid False [] ?os) + 4 \<le> 672" "length (tlvs_bytes ?os) < 65532"
    using os by (simp_all add: config_payload_def)
  have n: "of_nat (length (config_payload cid False [] ?os)) = 4 + (of_nat (length (tlvs_bytes ?os)) :: u16)"
    by (simp add: config_payload_def)
  obtain r where r: "reader_ok r" "reader_stream r = config_payload cid False [] ?os"
      "receive_all (l2cap_dispatch LE) (map packet_in (signal_packets m b L2CAP_SIGNAL_CONFIG_REQ ident
          (config_payload cid False [] ?os))) t =
        map_option (\<lambda>(_, _, s'). s') (handle_command LE acl L2CAP_SIGNAL_CONFIG_REQ ident r (4 + of_nat (length (tlvs_bytes ?os))) ?t)"
    using receive_command [OF assms(2,14,15) len(1), of LE 0 L2CAP_SIGNAL_CONFIG_REQ ident] unfolding n by blast
  have ready: "link_ready m' acl ?b ?t" using assms(1) by (simp add: link_ready_def)
  have ch: "l2cap_for_local_channel acl cid ?t = Some (Some q)"
    using assms(1,11) by (simp add: l2cap_for_local_channel_def link_ready_def)
  have h: "l2cap_heap ?t q = Some k" using assms(3) by simp
  have st: "reader_stream r = config_payload cid False [] ?os @ []" using r(2) by simp
  have ag: "agreed params = agreed (fold apply_tlv ?os zero_params)" using config_options_inverse [OF assms(16)] by simp
  obtain r' t1 where t1: "acl_l2cap_handle_configure_req LE acl ident r (4 + of_nat (length (tlvs_bytes ?os))) ?t = Some (True, r', t1)"
      "channel_step (config_answer m' ?b ident (remote_channel_id k) (agreed params)) q
        (k\<lparr>l_remote_mtu := cfg_mtu (agreed params), l_state := answered_state (l_state k)\<rparr>) ?t t1"
    using handle_configure_req_spec [OF ready h assms(4-10) ch assms(12,13) r(1) st config_options_tlv_ok len(2) ag assms(17)]
    by blast
  have "wire t1 = wire t @ config_answer m' b ident (remote_channel_id k) (agreed params)"
    "l2cap_heap t1 = (l2cap_heap t)(q \<mapsto> k\<lparr>l_remote_mtu := cfg_mtu (agreed params), l_state := answered_state (l_state k)\<rparr>)"
    using t1(2) by (simp_all add: channel_step_def wire_def set_acl_def)
  then show ?thesis using r(3) t1(1) by (simp add: handle_command_def acl_l2cap_handle_request_def)
qed

text \<open>The answer arrives.\<close>

lemma configure_resp_received:
  assumes "link_idle acl a s" "4 \<le> m'" "m' + 4 < 65536" "l2cap_heap s p = Some l" "expected_response_count l \<noteq> 0"
    "expected_response_id l = i" "expected_response_code l = L2CAP_SIGNAL_CONFIG_RSP" "only_waiter p i (acl_tail a) (l2cap_heap s)"
    "silent LE p l" "quiet LE p (cmd_client_cb l) (cmd_userdata l)" "configure_resp l = None" "l_ref_count l \<noteq> 0"
    "canonical params" "l_state l = BTE_L2CAP_WAIT_CONFIG_RSP \<or> l_state l = BTE_L2CAP_WAIT_CONFIG_REQ_RSP"
  shows "\<exists>s2. receive_all (l2cap_dispatch LE) (map packet_in (config_answer m' a i cid params)) s = Some s2 \<and>
    l2cap_heap s2 = (l2cap_heap s)(p \<mapsto> l\<lparr>expected_response_count := expected_response_count l - 1,
      l_mtu := cfg_mtu (agreed params), l_state := accepted_state (l_state l)\<rparr>)"
proof -
  let ?os = "config_options params"
  let ?B = "config_payload cid False (le_bytes 2 L2CAP_CONFIG_RES_OK) ?os"
  let ?G = "l2cap_frame 1 (signal_command L2CAP_SIGNAL_CONFIG_RSP i ?B)"
  let ?s = "noted acl a ?G s" and ?n = "6 + of_nat (length (tlvs_bytes ?os)) :: u16"
  have os: "length (tlvs_bytes ?os) \<le> 70" by (rule config_options_size)
  have len: "length ?B + 4 \<le> 672" "length (tlvs_bytes ?os) < 65530" using os by (simp_all add: config_payload_def)
  have n: "of_nat (length ?B) = ?n" by (simp add: config_payload_def)
  obtain r where r: "reader_ok r" "reader_stream r = ?B"
      "receive_all (l2cap_dispatch LE) (map packet_in (config_answer m' a i cid params)) s =
        map_option (\<lambda>(_, _, s'). s') (handle_command LE acl L2CAP_SIGNAL_CONFIG_RSP i r ?n ?s)"
    using receive_command [OF assms(1-3) len(1), of LE 0 L2CAP_SIGNAL_CONFIG_RSP i] unfolding n by blast
  let ?l = "answered l"
  let ?s1 = "set_l2cap p ?l ?s"
  have h: "l2cap_heap ?s1 p = Some ?l" by simp
  have sil: "silent LE p ?l" and q: "quiet LE p (cmd_client_cb ?l) (cmd_userdata ?l)" and cr: "configure_resp ?l = None"
    using assms(9-11) by (simp_all add: silent_def)
  have st: "reader_stream r = ?B @ []" using r(2) by simp
  let ?l2 = "?l\<lparr>l_mtu := cfg_mtu (agreed params), l_state := accepted_state (l_state l)\<rparr>"
  obtain r' where r': "l2cap_handle_config_resp LE p r ?n ?s1 = Some (True, r', set_l2cap p ?l2 ?s1)"
    using handle_config_resp_ok [OF h sil q cr r(1) st config_options_tlv_ok(1) len(2)] config_options_inverse [OF assms(13)]
    by (auto simp: resp_channel_def)
  have ah: "acl_heap ?s acl = Some (a\<lparr>reassembled_message_size := of_nat (length ?G)\<rparr>)" by simp
  have hl: "l2cap_heap ?s p = Some l" using assms(4) by simp
  have ow: "only_waiter p i (acl_tail (a\<lparr>reassembled_message_size := of_nat (length ?G)\<rparr>)) (l2cap_heap ?s)" using assms(8) by simp
  have "l2cap_handle_response LE p L2CAP_SIGNAL_CONFIG_RSP r ?n ?s1 = do { s' \<leftarrow> Some (set_l2cap p ?l2 ?s1); Some (True, r', s') }"
    using r' assms(14) by (simp add: l2cap_handle_response_def)
  from handle_response_spec [OF ah hl assms(5-7) ow this]
  have "map_option (\<lambda>(_, _, s'). s') (acl_l2cap_handle_response LE acl L2CAP_SIGNAL_CONFIG_RSP i r ?n ?s) =
      bte_l2cap_unref LE p (set_l2cap p ?l2 ?s)" by simp
  also have "\<dots> = Some (set_l2cap p (?l2\<lparr>l_ref_count := l_ref_count l\<rparr>) ?s)"
    using assms(12) by (simp add: bte_l2cap_unref_def put_l2cap_eq)
  finally have "receive_all (l2cap_dispatch LE) (map packet_in (config_answer m' a i cid params)) s =
      Some (set_l2cap p (?l2\<lparr>l_ref_count := l_ref_count l\<rparr>) ?s)"
    using r(3) by (simp add: handle_command_def)
  moreover have "?l2\<lparr>l_ref_count := l_ref_count l\<rparr> = l\<lparr>expected_response_count := expected_response_count l - 1,
      l_mtu := cfg_mtu (agreed params), l_state := accepted_state (l_state l)\<rparr>" by (cases l) simp
  ultimately show ?thesis by (auto simp: set_l2cap_def)
qed


lemma or_bit0:
  "1 AND c = 0 \<Longrightarrow> (w OR 1) AND c = w AND (c :: 'a :: len word)" "(w OR 1) AND 1 = (1 :: 'a :: len word)"
  by (simp_all add: bit.conj_disj_distrib2)

lemma agreed_canonical:
  assumes "canonical params"
  shows "canonical (agreed params)" "agreed (agreed params) = agreed params"
proof -
  have d: "(0x7f :: u32) = 0x7f OR 1" by simp
  have m: "(field_mask params OR 1) AND 0x7f = field_mask params OR 1"
    using assms unfolding canonical_def by (metis (no_types, lifting) bit.conj_disj_distrib2 d or.right_idem word_bw_comms(1) word_ao_absorbs(1))
  show "canonical (agreed params)"
    using assms m
    by (auto simp: canonical_def agreed_def has_field_def or_bit0)
  show "agreed (agreed params) = agreed params" by (simp add: agreed_def or_bit0)
qed

text \<open>
  C5: a configuration is answered, and its answer delivered. One host configures a channel with parameters whose options fit
  into the MTU of its peer (48 bytes on a new channel) and into the MTU they ask for, on a link that can take the packets at once. The packets of the
  request are received by the other host on an idle link, which takes over the MTU (or the default one) as the MTU of its peer and answers; the
  packets of the answer are received by the first host. Then the side that asked has sent its request and got its response, the other side
  has answered one, and both agree on the MTU. On both sides the callback for changes of state and the one that is asked about a request are not set or
  return without having changed anything, and so does the callback for the reply; the controllers accept what they are given.
\<close>

theorem l2cap_configure_exchange:
  assumes "link_ready m acl a s" "link_idle acl a s" "l2cap_heap s p = Some l" "l_acl l = Some acl" "84 \<le> m" "fits m 84"
    "silent LE p l" "config_size params \<le> unat (l_remote_mtu l)" "accepting (le_hci LE)" "sendable s (length req)"
    "l_state l \<in> {BTE_L2CAP_WAIT_CONFIG, BTE_L2CAP_WAIT_SEND_CONFIG, BTE_L2CAP_OPEN}" "expected_response_count l = 0"
    "quiet LE p cb ud" "configure_resp l = None" "l_ref_count l \<noteq> 0"
    and i: "i = next_ident (s_last_signal_id s)" and "only_waiter p i (acl_tail a) (l2cap_heap s)"
    and "link_ready m' acl' b t" "link_idle acl' b t" "acl_conn_handle b = acl_conn_handle a" "l2cap_heap t q = Some k"
    "l_acl k = Some acl'" "84 \<le> m'" "fits m' 84" "silent LE' q k" "consenting LE' q k" "configure_req k = None"
    "l2cap_for_local_channel acl' (remote_channel_id l) t = Some (Some q)" "l_ref_count k \<noteq> 0"
    "l_state k \<in> {BTE_L2CAP_WAIT_CONFIG, BTE_L2CAP_WAIT_CONFIG_REQ, BTE_L2CAP_WAIT_CONFIG_REQ_RSP, BTE_L2CAP_OPEN}"
    and params: "canonical params" "config_size (agreed params) \<le> unat (cfg_mtu (agreed params))"
    and req: "req = signal_packets m a L2CAP_SIGNAL_CONFIG_REQ i (config_payload (remote_channel_id l) False [] (config_options params))"
    and rsp: "rsp = config_answer m' b i (remote_channel_id k) (agreed params)"
  shows "\<exists>s1 t1 s2. bte_l2cap_configure LE p (Some params) cb ud s = Some s1 \<and> wire s1 = wire s @ req \<and>
    receive_all (l2cap_dispatch LE') (map packet_in req) t = Some t1 \<and> wire t1 = wire t @ rsp \<and>
    receive_all (l2cap_dispatch LE) (map packet_in rsp) s1 = Some s2 \<and>
    l2cap_heap t1 q = Some (k\<lparr>l_remote_mtu := cfg_mtu (agreed params), l_state := answered_state (l_state k)\<rparr>) \<and>
    l2cap_heap s2 p = Some (l\<lparr>l_mtu := cfg_mtu (agreed params), l_state := accepted_state (sent_state (l_state l)),
      expected_response_code := L2CAP_SIGNAL_CONFIG_RSP, expected_response_id := i, cmd_client_cb := cb, cmd_userdata := ud\<rparr>)"
proof -
  have m: "4 \<le> m" "m + 4 < 65536" "4 \<le> m'" "m' + 4 < 65536" using assms(1,18) by (simp_all add: link_ready_def)
  have i0: "i \<noteq> 0" unfolding i by (rule next_ident_nonzero)
  let ?l = "(expecting L2CAP_SIGNAL_CONFIG_RSP i 1 l)\<lparr>l_state := sent_state (l_state l), cmd_client_cb := cb, cmd_userdata := ud\<rparr>"
  obtain s0 where s0: "channel_step req p ((expecting L2CAP_SIGNAL_CONFIG_RSP i 1 l)\<lparr>l_state := sent_state (l_state l)\<rparr>) s s0"
      "bte_l2cap_configure LE p (Some params) cb ud s = Some (set_l2cap p ?l s0)"
    using configure_spec [OF assms(1,3-9,11,12) i req, of cb ud] assms(10) by auto
  let ?s1 = "set_l2cap p ?l s0"
  have s1: "channel_step req p ?l s ?s1" by (rule channel_step_upd [OF s0(1)])
  have req': "req = signal_packets m b L2CAP_SIGNAL_CONFIG_REQ i (config_payload (remote_channel_id l) False [] (config_options params))"
    using req assms(20) by simp
  obtain t1 where t1: "receive_all (l2cap_dispatch LE') (map packet_in req) t = Some t1" "wire t1 = wire t @ rsp"
      "l2cap_heap t1 = (l2cap_heap t)(q \<mapsto> k\<lparr>l_remote_mtu := cfg_mtu (agreed params), l_state := answered_state (l_state k)\<rparr>)"
    using configure_req_received [OF assms(18,19,21-25) i0 assms(26-30) m(1,2) params] unfolding req' rsp by blast
  have idle: "link_idle acl a ?s1"
    using assms(2) s1 by (simp add: link_idle_def receiving_def find_acl_by_conn_handle_def channel_step_def)
  have l: "l2cap_heap ?s1 p = Some ?l" "expected_response_count ?l \<noteq> 0" "expected_response_id ?l = i"
      "expected_response_code ?l = L2CAP_SIGNAL_CONFIG_RSP" "silent LE p ?l" "quiet LE p (cmd_client_cb ?l) (cmd_userdata ?l)"
      "configure_resp ?l = None" "l_ref_count ?l \<noteq> 0"
      "l_state ?l = BTE_L2CAP_WAIT_CONFIG_RSP \<or> l_state ?l = BTE_L2CAP_WAIT_CONFIG_REQ_RSP"
    using assms(7,11,13-15) by (auto simp: expecting_def silent_def sent_state_def)
  have ow: "only_waiter p i (acl_tail a) (l2cap_heap ?s1)" using assms(17) s1 by (simp add: only_waiter_def channel_step_def)
  have rsp': "rsp = config_answer m' a i (remote_channel_id k) (agreed params)" using rsp assms(20) by simp
  obtain s2 where s2: "receive_all (l2cap_dispatch LE) (map packet_in rsp) ?s1 = Some s2"
      "l2cap_heap s2 = (l2cap_heap ?s1)(p \<mapsto> ?l\<lparr>expected_response_count := expected_response_count ?l - 1,
        l_mtu := cfg_mtu (agreed (agreed params)), l_state := accepted_state (l_state ?l)\<rparr>)"
    using configure_resp_received [OF idle m(3,4) l(1-4) ow l(5-8) agreed_canonical(1) [OF params(1)] l(9)] unfolding rsp' by blast
  have "l2cap_heap s2 p = Some (l\<lparr>l_mtu := cfg_mtu (agreed params), l_state := accepted_state (sent_state (l_state l)),
      expected_response_code := L2CAP_SIGNAL_CONFIG_RSP, expected_response_id := i, cmd_client_cb := cb, cmd_userdata := ud\<rparr>)"
    using s2(2) assms(12) agreed_canonical(2) [OF params(1)] by (cases l) (simp add: expecting_def)
  moreover have "wire ?s1 = wire s @ req" using s1 by (simp add: channel_step_def)
  ultimately show ?thesis using s0(2) t1 s2(1) by auto
qed


text \<open>
  C32: on a link that cannot take the packets of a request at once, \<^verbatim>\<open>bte_l2cap_configure\<close> tells its client that everything was
  rejected although the request is in the queue and will be sent: the number that \<^verbatim>\<open>bte_acl_send_message\<close>
  returns for a message that waits is 0, which \<^verbatim>\<open>l2cap_config_send\<close> takes for a failure. The state of the channel is that of a request
  that was sent, and no response to it is expected. The options fit into the MTU of the peer (48 bytes on a new channel), the callback for changes of
  state is not set or changes nothing, and the controller accepts what it is given; the callback that is told may do anything.
\<close>

theorem l2cap_configure_busy_link:
  assumes "link_ready m acl a s" "l2cap_heap s p = Some l" "l_acl l = Some acl" "84 \<le> m" "fits m 84"
    "silent LE p l" "config_size params \<le> unat (l_remote_mtu l)" "accepting (le_hci LE)"
    "l_state l \<in> {BTE_L2CAP_WAIT_CONFIG, BTE_L2CAP_WAIT_SEND_CONFIG, BTE_L2CAP_OPEN}" "expected_response_count l = 0"
    and req: "req = signal_packets m a L2CAP_SIGNAL_CONFIG_REQ (next_ident (s_last_signal_id s))
      (config_payload (remote_channel_id l) False [] (config_options params))"
    and "\<not> sendable s (length req)"
  shows "\<exists>s1. wire s1 = wire s @ req \<and> l2cap_heap s1 p = Some (l\<lparr>l_state := sent_state (l_state l)\<rparr>) \<and>
    bte_l2cap_configure LE p (Some params) cb ud s = call_l2cap LE cb (Some p) (Configure_reply (rejected_reply LE s1)) ud s1"
  using configure_spec [OF assms(1-10) refl req, of cb ud] assms(12) by (auto simp: channel_step_def)

section \<open>Any order of the steps\<close>

text \<open>A channel that can be configured: its link is ready, and its callbacks leave the state as it is.\<close>

definition configurable :: "'c lenv \<Rightarrow> nat \<Rightarrow> nat \<Rightarrow> bte_acl \<Rightarrow> nat \<Rightarrow> bte_l2cap \<Rightarrow> 'c ldev \<Rightarrow> bool" where
  "configurable LE m acl a p l s \<longleftrightarrow> link_ready m acl a s \<and> 84 \<le> m \<and> fits m 84 \<and> l2cap_heap s p = Some l \<and> l_acl l = Some acl \<and>
     l2cap_for_local_channel acl (local_channel_id l) s = Some (Some p) \<and> silent LE p l \<and>
     quiet LE p (cmd_client_cb l) (cmd_userdata l) \<and> consenting LE p l \<and> configure_req l = None \<and> configure_resp l = None \<and>
     l_ref_count l \<noteq> 0 \<and> 24 \<le> unat (l_remote_mtu l)"

text \<open>The fields of a channel that its configuration does not change.\<close>

definition same_channel :: "bte_l2cap \<Rightarrow> bte_l2cap \<Rightarrow> bool" where
  "same_channel l k \<longleftrightarrow> k = l\<lparr>l_state := l_state k, l_mtu := l_mtu k, l_remote_mtu := l_remote_mtu k,
     expected_response_code := expected_response_code k, expected_response_id := expected_response_id k,
     expected_response_count := expected_response_count k\<rparr>"

lemma for_channel_loop_upd:
  assumes "heap p = Some l" "local_channel_id k = local_channel_id l"
  shows "l2cap_for_channel_loop (heap(p \<mapsto> k)) cid cs = l2cap_for_channel_loop heap cid cs"
  using assms by (induction heap cid cs rule: l2cap_for_channel_loop.induct) (auto split: Option.bind_splits)

lemma same_channelD:
  assumes "same_channel l k"
  shows "l_acl k = l_acl l" "local_channel_id k = local_channel_id l" "state_changed_cb k = state_changed_cb l"
    "l_userdata k = l_userdata l" "cmd_client_cb k = cmd_client_cb l" "cmd_userdata k = cmd_userdata l"
    "configure_cb k = configure_cb l" "configure_req k = configure_req l" "configure_resp k = configure_resp l"
    "l_ref_count k = l_ref_count l"
  by (subst assms [unfolded same_channel_def], simp)+

lemma configurable_step:
  assumes "configurable LE m acl a p l s" "channel_step pkts p k s s'" "same_channel l k" "24 \<le> unat (l_remote_mtu k)"
  shows "configurable LE m acl a p k s'"
proof -
  note sc = same_channelD [OF assms(3)]
  have h: "l2cap_heap s p = Some l" using assms(1) by (simp add: configurable_def)
  have ch: "l2cap_for_local_channel acl cid s' = l2cap_for_local_channel acl cid s" for cid
    using assms(2) for_channel_loop_upd [where heap = "l2cap_heap s", OF h sc(2)] by (simp add: l2cap_for_local_channel_def channel_step_def)
  show ?thesis
    using assms(1,2,4) sc unfolding configurable_def ch silent_def consenting_def by (simp add: channel_step_def)
qed

text \<open>
  The operations on a configuration that work on complete requests and responses: \<^verbatim>\<open>l2cap_config_send\<close> for a
  request, the handler of requests and the handler of responses.
\<close>

inductive config_op :: "'c lenv \<Rightarrow> nat \<Rightarrow> nat \<Rightarrow> 'c ldev \<Rightarrow> config_event \<Rightarrow> 'c ldev \<Rightarrow> bool" for LE acl p where
  send: "l2cap_config_send LE p conf 0 s = Some (ok, conf', s') \<Longrightarrow> \<not> cd_has_pending_packets conf \<Longrightarrow>
    config_op LE acl p s Request_sent s'"
| answer: "acl_l2cap_handle_configure_req LE acl ident r (4 + of_nat (length (tlvs_bytes os))) s = Some (ok, r', s') \<Longrightarrow>
    ident \<noteq> 0 \<Longrightarrow> reader_ok r \<Longrightarrow> l2cap_heap s p = Some l \<Longrightarrow> reader_stream r = config_payload (local_channel_id l) False [] os @ rest \<Longrightarrow>
    list_all tlv_ok os \<Longrightarrow> \<not> list_ex critical os \<Longrightarrow> length (tlvs_bytes os) < 65532 \<Longrightarrow>
    config_size (agreed (fold apply_tlv os zero_params)) \<le> unat (cfg_mtu (agreed (fold apply_tlv os zero_params))) \<Longrightarrow>
    24 \<le> unat (cfg_mtu (agreed (fold apply_tlv os zero_params))) \<Longrightarrow>
    l_state l \<in> {BTE_L2CAP_WAIT_CONFIG, BTE_L2CAP_WAIT_CONFIG_REQ, BTE_L2CAP_WAIT_CONFIG_REQ_RSP, BTE_L2CAP_OPEN} \<Longrightarrow>
    config_op LE acl p s Request_answered s'"
| accept: "l2cap_handle_config_resp LE p r (6 + of_nat (length (tlvs_bytes os))) s = Some (ok, r', s') \<Longrightarrow>
    reader_ok r \<Longrightarrow> l2cap_heap s p = Some l \<Longrightarrow>
    reader_stream r = config_payload cid False (le_bytes 2 L2CAP_CONFIG_RES_OK) os @ rest \<Longrightarrow> list_all tlv_ok os \<Longrightarrow>
    length (tlvs_bytes os) < 65530 \<Longrightarrow> l_state l \<in> {BTE_L2CAP_WAIT_CONFIG_RSP, BTE_L2CAP_WAIT_CONFIG_REQ_RSP} \<Longrightarrow>
    config_op LE acl p s Response_accepted s'"
| refuse: "l2cap_handle_config_resp LE p r (6 + of_nat (length (tlvs_bytes os))) s = Some (ok, r', s') \<Longrightarrow>
    reader_ok r \<Longrightarrow> l2cap_heap s p = Some l \<Longrightarrow>
    reader_stream r = config_payload cid False (le_bytes 2 result) os @ rest \<Longrightarrow> result \<noteq> L2CAP_CONFIG_RES_OK \<Longrightarrow>
    length (tlvs_bytes os) < 65530 \<Longrightarrow> l_state l \<in> {BTE_L2CAP_WAIT_CONFIG_RSP, BTE_L2CAP_WAIT_CONFIG_REQ_RSP} \<Longrightarrow>
    config_op LE acl p s Response_refused s'"

inductive config_run :: "'c lenv \<Rightarrow> nat \<Rightarrow> nat \<Rightarrow> 'c ldev \<Rightarrow> config_event list \<Rightarrow> 'c ldev \<Rightarrow> bool" for LE acl p where
  config_run_Nil: "config_run LE acl p s [] s"
| config_run_Cons: "config_op LE acl p s e s' \<Longrightarrow> config_run LE acl p s' es s'' \<Longrightarrow> config_run LE acl p s (e # es) s''"

lemma configurableD:
  assumes "configurable LE m acl a p l s"
  shows "link_ready m acl a s" "l2cap_heap s p = Some l" "l_acl l = Some acl" "84 \<le> m" "fits m 84" "silent LE p l"
    "consenting LE p l" "configure_req l = None" "l2cap_for_local_channel acl (local_channel_id l) s = Some (Some p)"
    "l_ref_count l \<noteq> 0" "quiet LE p (cmd_client_cb l) (cmd_userdata l)" "configure_resp l = None" "24 \<le> unat (l_remote_mtu l)"
  using assms by (simp_all add: configurable_def)

lemma config_send_step:
  assumes "configurable LE m acl a p l s" "\<not> cd_has_pending_packets conf"
  shows "\<exists>ok s' pkts k. l2cap_config_send LE p conf 0 s = Some (ok, conf, s') \<and> channel_step pkts p k s s' \<and> same_channel l k \<and>
    l_remote_mtu k = l_remote_mtu l \<and> l_state k = sent_state (l_state l)"
proof -
  note c = configurableD [OF assms(1)]
  let ?s = "s\<lparr>s_last_signal_id := next_ident (s_last_signal_id s)\<rparr>"
  obtain ok s1 c i n where s1: "requests_sent m acl a p l (next_ident (s_last_signal_id s)) (config_options (cd_params conf)) ok ?s s1"
      "l2cap_heap s1 p = Some (expecting c i n l)"
      "l2cap_config_send LE p conf 0 s = Some (ok, conf, set_l2cap p ((expecting c i n l)\<lparr>l_state := sent_state (l_state l)\<rparr>) s1)"
    using config_send_request [OF c(1-5,13,6) assms(2)] by blast
  let ?k = "(expecting c i n l)\<lparr>l_state := sent_state (l_state l)\<rparr>"
  have "\<exists>pkts. channel_step pkts p ?k s (set_l2cap p ?k s1)"
    using s1(1) c(1) by (auto simp: requests_sent_def Let_def channel_step_def link_ready_def)
  moreover have "same_channel l ?k" by (cases l) (simp add: same_channel_def expecting_def)
  ultimately show ?thesis using s1(3) by fastforce
qed


lemma config_answer_step:
  assumes "configurable LE m acl a p l s" "ident \<noteq> 0" "reader_ok r"
    "reader_stream r = config_payload (local_channel_id l) False [] os @ rest" "list_all tlv_ok os" "\<not> list_ex critical os"
    "length (tlvs_bytes os) < 65532"
    "config_size (agreed (fold apply_tlv os zero_params)) \<le> unat (cfg_mtu (agreed (fold apply_tlv os zero_params)))"
    "24 \<le> unat (cfg_mtu (agreed (fold apply_tlv os zero_params)))"
    "l_state l \<in> {BTE_L2CAP_WAIT_CONFIG, BTE_L2CAP_WAIT_CONFIG_REQ, BTE_L2CAP_WAIT_CONFIG_REQ_RSP, BTE_L2CAP_OPEN}"
  shows "\<exists>r' s' pkts k. acl_l2cap_handle_configure_req LE acl ident r (4 + of_nat (length (tlvs_bytes os))) s = Some (True, r', s') \<and>
    channel_step pkts p k s s' \<and> same_channel l k \<and> 24 \<le> unat (l_remote_mtu k) \<and> l_state k = answered_state (l_state l)"
proof -
  note c = configurableD [OF assms(1)]
  let ?mtu = "cfg_mtu (agreed (fold apply_tlv os zero_params))"
  let ?k = "l\<lparr>l_remote_mtu := ?mtu, l_state := answered_state (l_state l)\<rparr>"
  have k: "same_channel l ?k" by (cases l) (simp add: same_channel_def)
  show ?thesis
    using handle_configure_req_spec [OF c(1-6) assms(2) c(7-10) assms(10,3-7) refl assms(8)] k assms(9) by fastforce
qed

lemma config_response_step:
  assumes "configurable LE m acl a p l s" "reader_ok r"
    "reader_stream r = config_payload cid False (le_bytes 2 result) os @ rest" "length (tlvs_bytes os) < 65530"
    "result = L2CAP_CONFIG_RES_OK \<and> list_all tlv_ok os \<or> result \<noteq> L2CAP_CONFIG_RES_OK"
  shows "\<exists>r' s' k. l2cap_handle_config_resp LE p r (6 + of_nat (length (tlvs_bytes os))) s = Some (True, r', s') \<and>
    channel_step [] p k s s' \<and> same_channel l k \<and> l_remote_mtu k = l_remote_mtu l \<and>
    l_state k = (if result = L2CAP_CONFIG_RES_OK then accepted_state (l_state l) else refused_state (l_state l))"
proof -
  note c = configurableD [OF assms(1)]
  have k: "same_channel l (resp_channel result params l)" "l_remote_mtu (resp_channel result params l) = l_remote_mtu l"
      "l_state (resp_channel result params l) =
        (if result = L2CAP_CONFIG_RES_OK then accepted_state (l_state l) else refused_state (l_state l))" for params
    by (cases l; simp add: same_channel_def resp_channel_def)+
  have "\<exists>r' params. l2cap_handle_config_resp LE p r (6 + of_nat (length (tlvs_bytes os))) s =
      Some (True, r', set_l2cap p (resp_channel result params l) s)"
    using assms(5) handle_config_resp_ok [OF c(2,6,11,12) assms(2) _ _ assms(4)]
      handle_config_resp_refused [OF c(2,6,11,12) assms(2,3,4)] assms(3) by metis
  then show ?thesis using k channel_step_set(1) by blast
qed

lemma config_op_refines:
  assumes "config_op LE acl p s e s'" "configurable LE m acl a p l s" "progress (l_state l) = Some x"
  shows "\<exists>k. configurable LE m acl a p k s' \<and> progress (l_state k) = Some (config_step e x)"
  using assms(1)
proof cases
  case (send conf ok conf')
  obtain pkts k where k: "channel_step pkts p k s s'" "same_channel l k" "l_remote_mtu k = l_remote_mtu l"
      "l_state k = sent_state (l_state l)"
    using config_send_step [OF assms(2) send(3)] send(2) by auto
  have "configurable LE m acl a p k s'"
    by (rule configurable_step [OF assms(2) k(1,2)]) (use k(3) configurableD(13) [OF assms(2)] in simp)
  then show ?thesis using k(4) states_refine(1) [OF assms(3)] send(1) by auto
next
  case (answer ident r os ok r' l0 rest)
  have l0: "l0 = l" using answer(5) configurableD(2) [OF assms(2)] by simp
  obtain pkts k where k: "channel_step pkts p k s s'" "same_channel l k" "24 \<le> unat (l_remote_mtu k)"
      "l_state k = answered_state (l_state l)"
    using config_answer_step [OF assms(2) answer(3,4,6-12) [unfolded l0]] answer(2) by auto
  have "configurable LE m acl a p k s'" by (rule configurable_step [OF assms(2) k(1,2)]) (use k(3) in simp)
  then show ?thesis using k(4) states_refine(2) [OF assms(3)] answer(1) by auto
next
  case (accept r os ok r' l0 cid rest)
  have l0: "l0 = l" using accept(4) configurableD(2) [OF assms(2)] by simp
  obtain k where k: "channel_step [] p k s s'" "same_channel l k" "l_remote_mtu k = l_remote_mtu l"
      "l_state k = accepted_state (l_state l)"
    using config_response_step [OF assms(2) accept(3,5,7)] accept(2,6) by auto
  have x: "req_sent x" using accept(8) assms(3) l0 by auto
  have "configurable LE m acl a p k s'"
    by (rule configurable_step [OF assms(2) k(1,2)]) (use k(3) configurableD(13) [OF assms(2)] in simp)
  then show ?thesis using k(4) states_refine(3) [OF assms(3) x] accept(1) by auto
next
  case (refuse r os ok r' l0 cid result rest)
  have l0: "l0 = l" using refuse(4) configurableD(2) [OF assms(2)] by simp
  obtain k where k: "channel_step [] p k s s'" "same_channel l k" "l_remote_mtu k = l_remote_mtu l"
      "l_state k = refused_state (l_state l)"
    using config_response_step [OF assms(2) refuse(3,5,7)] refuse(2,6) by auto
  have x: "req_sent x" "\<not> rsp_received x" using refuse(8) assms(3) l0 by auto
  have "configurable LE m acl a p k s'"
    by (rule configurable_step [OF assms(2) k(1,2)]) (use k(3) configurableD(13) [OF assms(2)] in simp)
  then show ?thesis using k(4) states_refine(4) [OF assms(3) x] refuse(1) by auto
qed

text \<open>
  C6: the functions of \<^verbatim>\<open>l2cap.c\<close> that configure a channel refine the abstract view: after any sequence of requests that are sent
  (in one packet or several), complete requests of the other side that are answered, and responses that accept or refuse (with any result but success), the
  state of the channel stands for what has happened, the channel can be configured further, and it is open exactly if its request was sent and
  accepted and the request of the other side was answered. The requests that are answered have no option that is unknown and has to be understood,
  and ask for an MTU of at least 24 bytes into which their own options fit; responses come in one piece while one is waited for; the callbacks of the
  channel are not set or return without having changed anything, and its link can take the packets.
\<close>

theorem l2cap_config_refines:
  assumes "config_run LE acl p s es s'" "configurable LE m acl a p l s" "progress (l_state l) = Some x"
  shows "\<exists>k. configurable LE m acl a p k s' \<and> progress (l_state k) = Some (fold config_step es x) \<and>
    (l_state k = BTE_L2CAP_OPEN \<longleftrightarrow> fold config_step es x = \<lparr>req_sent = True, rsp_received = True, req_answered = True\<rparr>)"
proof -
  have "\<exists>k. configurable LE m acl a p k s' \<and> progress (l_state k) = Some (fold config_step es x)"
    using assms
  proof (induction arbitrary: l x rule: config_run.induct)
    case (config_run_Cons s e s' es s'')
    then show ?case using config_op_refines [OF config_run_Cons.hyps(1)] by fastforce
  qed auto
  then show ?thesis by (metis option.inject progress.simps(6) progress_inject)
qed


section \<open>An unknown option that is too long\<close>

text \<open>The counter of the copy is a multiple of 32 and never reaches a size above 224.\<close>

lemma copy_counter:
  assumes "unat k mod 32 = 0" "224 < unat (n :: byte)"
  shows "k < n" "unat (k + 32) mod 32 = 0" "\<not> n < 32"
proof -
  have bound: "q \<le> 224" if "q < 256" "q mod 32 = 0" for q :: nat using that by presburger
  have "unat k \<le> 224" using unsigned_less [of k, where ?'a = nat] bound assms(1) by simp
  then show "k < n" "\<not> n < 32" using assms(2) by (simp_all add: word_less_nat_alt)
  show "unat (k + 32) mod 32 = 0" using assms(1) by (simp add: unat_word_ariths mod_mod_cancel)
qed

lemma copy_param_round_counter:
  "copy_param_round n x = Some y \<Longrightarrow> fst y = fst x + (if n < 32 then n else 32)"
  by (cases x) (auto simp: copy_param_round_def bind_eq_Some_conv Let_def)

lemma copy_param_invariant:
  assumes "copy_param_loop n x = Some y"
  shows "unat (fst x) mod 32 = 0 \<longrightarrow> unat n \<le> 224"
  using assms
proof (rule copy_param_loop.raw_induct [where xa = "(n, x)" and P = "\<lambda>n x y. unat (fst x) mod 32 = 0 \<longrightarrow> unat n \<le> 224",
    unfolded prod.case, rotated])
  fix loop and n :: byte and x y
  assume IH: "\<And>n x y. loop n x = Some y \<Longrightarrow> unat (fst x) mod 32 = 0 \<longrightarrow> unat n \<le> 224"
    and body: "(if fst x < n then copy_param_round n x \<bind> loop n else Some (snd x)) = Some y"
  show "unat (fst x) mod 32 = 0 \<longrightarrow> unat n \<le> 224"
  proof (intro impI leI notI)
    assume k: "unat (fst x) mod 32 = 0" and n: "224 < unat n"
    note c = copy_counter [OF k n]
    then obtain x' where x': "copy_param_round n x = Some x'" "loop n x' = Some y"
      using body by (auto simp: bind_eq_Some_conv)
    then have "fst x' = fst x + 32" using copy_param_round_counter [OF x'(1)] c(3) by simp
    then show False using IH [OF x'(2)] c(2) n by simp
  qed
qed

lemma copy_param_never: "224 < unat n \<Longrightarrow> copy_param_loop n (0, buffer, r, w) = None"
  using copy_param_invariant [of n "(0, buffer, r, w)"] by (cases "copy_param_loop n (0, buffer, r, w)") auto

text \<open>The rounds of the copy succeed one after the other, whatever is left in the request and in the reply.\<close>

fun copy_param_rounds ::
    "nat \<Rightarrow> byte \<Rightarrow> byte \<times> mem \<times> bte_buffer_reader \<times> bte_buffer_writer \<Rightarrow> (byte \<times> mem \<times> bte_buffer_reader \<times> bte_buffer_writer) option" where
  "copy_param_rounds 0 param_size x = Some x"
| "copy_param_rounds (Suc n) param_size x = copy_param_rounds n param_size x \<bind> copy_param_round param_size"

lemma copy_param_round_runs:
  assumes "reader_ok r" "writer_ok w" "length buffer = 32"
  shows "\<exists>buffer' r' w'. copy_param_round n (k, buffer, r, w) = Some (k + (if n < 32 then n else 32), buffer', r', w') \<and>
    reader_ok r' \<and> writer_ok w' \<and> length buffer' = 32"
proof -
  let ?len = "if n < 32 then n else 32"
  have len: "unat (ucast ?len :: u16) \<le> 32" by (simp add: word_less_nat_alt)
  let ?bs = "take (unat (ucast ?len :: u16)) (reader_stream r)"
  obtain c r' where r': "bte_buffer_reader_read True r (ucast ?len) = Some (?bs, c, r')" "reader_ok r'"
    using bte_src.rd_law [OF assms(1), of "ucast ?len"] by blast
  let ?b = "?bs @ drop (length ?bs) buffer"
  have lb: "length ?b = 32" using assms(3) len by simp
  obtain ok w' where w': "bte_buffer_writer_write w ?b (ucast ?len) = Some (ok, w')" "writer_ok w'"
    using bte_snk.put_law [OF assms(2), of "ucast ?len" ?b] lb len by fastforce
  have "copy_param_round n (k, buffer, r, w) = Some (k + ?len, ?b, r', w')"
    using r'(1) w'(1) unfolding copy_param_round_def Let_def by simp
  then show ?thesis using r'(2) w'(2) lb by blast
qed

lemma copy_param_endless:
  assumes "reader_ok r" "writer_ok w" "length buffer = 32" "224 < unat n"
  shows "\<exists>k buffer' r' w'. copy_param_rounds i n (0, buffer, r, w) = Some (k, buffer', r', w') \<and> k < n \<and>
    unat k mod 32 = 0 \<and> reader_ok r' \<and> writer_ok w' \<and> length buffer' = 32"
proof (induction i)
  case 0
  then show ?case using assms by (simp add: word_less_nat_alt)
next
  case (Suc i)
  then obtain k buffer' r' w' where x: "copy_param_rounds i n (0, buffer, r, w) = Some (k, buffer', r', w')"
      "unat k mod 32 = 0" "reader_ok r'" "writer_ok w'" "length buffer' = 32" by (elim exE conjE) (rule that)
  note c = copy_counter [OF x(2) assms(4)]
  show ?case using copy_param_round_runs [OF x(3-5), of n k] x(1) c(2,3) copy_counter(1) [OF c(2) assms(4)] by auto
qed

lemma type_error_never:
  assumes "reader_ok r" "reader_stream r = t # n # rest" "\<not> l2cap_configure_type_is_known t" "224 < unat n" "0 < cmd_size"
    "length header = 2"
  shows "type_error_loop cmd_size 0 header buffer r w = None"
proof -
  obtain c r' where "bte_buffer_reader_read True r 2 = Some ([t, n], c, r')"
    using bte_src.rd_law [OF assms(1), of 2] assms(2) by auto
  moreover have "rd8 [t, n] 0 = Some t" "rd8 [t, n] 1 = Some n" by (simp_all add: rd8_def)
  ultimately show ?thesis
    using assms(3,5,6) copy_param_never [OF assms(4)]
    by (subst type_error_loop.simps) (cases "bte_buffer_writer_write w [t, n] 2"; simp add: case_prod_beta)
qed

lemma configure_req_type_error:
  assumes "read_signal_header r n 4 = Some (Some h, r1)" "read_le16 h 0 = Some cid" "read_le16 h 2 = Some 0"
    "l2cap_for_local_channel acl cid s = Some (Some p)" "l2cap_heap s p = Some l" "configure_req l = None"
    "l_state l \<in> {BTE_L2CAP_WAIT_CONFIG, BTE_L2CAP_WAIT_CONFIG_REQ, BTE_L2CAP_WAIT_CONFIG_REQ_RSP, BTE_L2CAP_OPEN}"
    "l2cap_config_parse r1 zero_params (n - 4) (Some 0) = Some (L2CAP_CONFIG_PARSE_ERR_TYPE, r2, params, Some u)"
    "\<And>conf. l2cap_configure_reply_type_error LE p ident r n u
       (set_l2cap p (l\<lparr>l_ref_count := l_ref_count l + 1, configure_req := Some conf\<rparr>) s) = None"
  shows "acl_l2cap_handle_configure_req LE acl ident r n s = None"
proof -
  have "Some (l_state l) \<in> {Some BTE_L2CAP_WAIT_CONFIG, Some BTE_L2CAP_WAIT_CONFIG_REQ, Some BTE_L2CAP_WAIT_CONFIG_REQ_RSP, Some BTE_L2CAP_OPEN}"
    using assms(7) by blast
  moreover have "cd_params zero_conf = zero_params" "\<not> cd_has_pending_packets zero_conf" by (simp_all add: zero_conf_def)
  ultimately show ?thesis
    using assms(1-6,8,9)
    by (simp add: acl_l2cap_handle_configure_req_def put_l2cap_eq upd_l2cap_eq bte_l2cap_ref_def del: insert_iff)
qed

lemma header_fits: "n < 65532 \<Longrightarrow> 4 \<le> 4 + (of_nat n :: u16)"
  by (simp add: word_le_nat_alt unat_word_ariths u16_of_nat)

lemma type_error_starts:
  assumes "link_ready m acl a s" "l2cap_heap s p = Some l" "l_acl l = Some acl" "14 \<le> m" "fits m (unat u + 14)"
    "reader_ok r" "reader_stream r = le_bytes 2 (cid :: u16) @ le_bytes 2 (flags :: u16) @ rest"
  shows "\<exists>r' w. type_error_start LE p ident r u s = Some (r', w) \<and> reader_ok r' \<and> reader_stream r' = rest \<and> writer_ok w"
proof -
  let ?sz = "of_nat L2CAP_CONFIG_RSP_HDR_LEN + u" and ?h = "le_bytes 2 cid @ le_bytes 2 flags"
  have "unat u + 14 < 65536" by (rule fits_bound [OF assms(5)]) (use assms(4) in simp_all)
  then have "unat (6 + u) = unat u + 6" by (simp add: unat_word_ariths)
  then have sz: "unat ?sz + 8 = unat u + 14" by simp
  obtain c r' where r': "bte_buffer_reader_read True r 4 = Some (?h, c, r')" "reader_ok r'" "reader_stream r' = rest"
    using bte_src.rd_law [OF assms(6), of 4] assms(7) by auto
  obtain w where w: "acl_l2cap_create_cmd LE acl L2CAP_SIGNAL_CONFIG_RSP ident ?sz s = Some (Some w)"
      "frame_writer m a (unat ?sz + 8) (le_bytes 2 (?sz + 4) @ le_bytes 2 (1 :: u16) @ [L2CAP_SIGNAL_CONFIG_RSP, ident] @ le_bytes 2 ?sz) w"
    using create_command [OF assms(1), of ?sz LE L2CAP_SIGNAL_CONFIG_RSP ident] assms(5) unfolding sz by blast
  let ?hs = "le_bytes 2 (remote_channel_id l) @ le_bytes 2 flags @ le_bytes 2 L2CAP_CONFIG_RES_ERR_UNKNOWN"
  obtain off w1 w2 where w2: "bte_buffer_writer_ptr_n w (of_nat L2CAP_CONFIG_RSP_HDR_LEN) = Some (Some off, w1)"
      "writer_poke w1 off ?hs = Some w2" "writer_ok w2"
    using frame_writer_ptr [OF w(2), of ?hs "of_nat L2CAP_CONFIG_RSP_HDR_LEN"] assms(4) by (auto simp: frame_writer_def)
  have fl: "read_le16 ?h 2 = Some flags" by (simp add: read_le16_def slice_def le_val_bytes)
  have "type_error_start LE p ident r u s = Some (r', w2)"
    unfolding type_error_start_def using r'(1) fl assms(2,3) w(1) w2(1,2) by simp
  then show ?thesis using r' w2(3) by blast
qed

text \<open>
  C31: a configuration request whose first option is unknown, has to be understood and has a value of more than 224 bytes is
  never answered: on a link that can take the reply, \<^verbatim>\<open>l2cap_configure_reply_type_error\<close> creates it and copies the header of the option, and then
  the eight-bit counter of the copy wraps around before it reaches the size. Round after round is executed without a fault and without an
  end, also when the request has been read to its end and the reply is full, and so the handler does not return.
\<close>

theorem l2cap_configure_req_hangs:
  assumes "l2cap_for_local_channel acl cid s = Some (Some p)" "l2cap_heap s p = Some l" "configure_req l = None"
    "l_state l \<in> {BTE_L2CAP_WAIT_CONFIG, BTE_L2CAP_WAIT_CONFIG_REQ, BTE_L2CAP_WAIT_CONFIG_REQ_RSP, BTE_L2CAP_OPEN}"
    "reader_ok r" "reader_stream r = config_payload cid False [] ((t, bs) # os) @ rest" "list_all tlv_ok ((t, bs) # os)"
    "critical (t, bs)" "224 < length bs" "length (tlvs_bytes ((t, bs) # os)) < 65532"
    "link_ready m acl a s" "l_acl l = Some acl" "14 \<le> m" "fits m (unknown_bytes ((t, bs) # os) + 14)"
    and u: "u = of_nat (unknown_bytes ((t, bs) # os))"
  shows "acl_l2cap_handle_configure_req LE acl ident r (4 + of_nat (length (tlvs_bytes ((t, bs) # os)))) s = None \<and>
    (\<exists>conf s1 r1 w1 c r2 ok w2. s1 = set_l2cap p (l\<lparr>l_ref_count := l_ref_count l + 1, configure_req := Some conf\<rparr>) s \<and>
      type_error_start LE p ident r u s1 = Some (r1, w1) \<and>
      bte_buffer_reader_read True r1 2 = Some ([t, of_nat (length bs)], c, r2) \<and>
      bte_buffer_writer_write w1 [t, of_nat (length bs)] 2 = Some (ok, w2) \<and>
      (\<forall>n. \<exists>k x. copy_param_rounds n (of_nat (length bs)) (0, stack_bytes LE 2 32 s1, r2, w2) = Some (k, x) \<and> k < of_nat (length bs)))"
proof -
  let ?os = "(t, bs) # os"
  let ?n = "of_nat (length (tlvs_bytes ?os)) :: u16" and ?b = "of_nat (length bs) :: byte"
  have n: "unat ?n = length (tlvs_bytes ?os)" using assms(10) by (intro u16_of_nat) simp
  have le: "4 \<le> 4 + ?n" by (rule header_fits [OF assms(10)])
  have n0: "0 < ?n" using n by (simp add: word_less_nat_alt)
  let ?h = "le_bytes 2 cid @ le_bytes 2 (0 :: u16)"
  obtain r1 where r1: "read_signal_header r (4 + ?n) 4 = Some (Some ?h, r1)" "reader_ok r1" "reader_stream r1 = tlvs_bytes ?os @ rest"
    using read_header_spec [OF assms(5), of ?h "tlvs_bytes ?os @ rest" 4 "4 + ?n"] le assms(6) by (auto simp: config_payload_def)
  have hd: "read_le16 ?h 0 = Some cid" "read_le16 ?h 2 = Some 0" by (simp_all add: read_le16_def slice_def le_val_bytes)
  let ?ps = "l2cap_config_params_clear (fold apply_tlv ?os zero_params)"
  obtain r2 where r2: "l2cap_config_parse r1 zero_params ?n (Some 0) = Some (L2CAP_CONFIG_PARSE_ERR_TYPE, r2, ?ps, Some u)"
    using config_parse_spec [OF r1(2), of ?os rest zero_params] r1(3) assms(7,8,10) u by auto
  have b: "224 < unat ?b" using assms(7,9) by (simp add: unat_of_nat)
  have tk: "\<not> l2cap_configure_type_is_known t" using assms(8) by (auto simp: l2cap_configure_type_is_known_def)
  have st: "reader_stream r = le_bytes 2 cid @ le_bytes 2 (0 :: u16) @ t # ?b # bs @ tlvs_bytes os @ rest"
    using assms(6) by (simp add: config_payload_def)
  have uu: "unat u = unknown_bytes ?os"
    using fits_bound [OF assms(14)] assms(13) unfolding u by (intro u16_of_nat) simp
  let ?s1 = "\<lambda>conf. set_l2cap p (l\<lparr>l_ref_count := l_ref_count l + 1, configure_req := Some conf\<rparr>) s"
  have start: "\<exists>r' w. type_error_start LE p ident r u (?s1 conf) = Some (r', w) \<and> reader_ok r' \<and>
      reader_stream r' = t # ?b # bs @ tlvs_bytes os @ rest \<and> writer_ok w" for conf
    by (rule type_error_starts [where acl = acl and a = a and m = m and l = "l\<lparr>l_ref_count := l_ref_count l + 1, configure_req := Some conf\<rparr>"])
       (use assms(5,11-14) uu st in simp_all)
  have loop: "type_error_loop ?n 0 (stack_bytes LE 0 2 s') buffer r' w = None"
    if "reader_ok r'" "reader_stream r' = t # ?b # bs @ tlvs_bytes os @ rest" for r' w buffer s'
    by (rule type_error_never [OF that tk b n0]) (simp add: stack_bytes_def)
  have none: "l2cap_configure_reply_type_error LE p ident r (4 + ?n) u (?s1 conf) = None" for conf
    using start [of conf] loop by (auto simp: l2cap_configure_reply_type_error_def)
  have 1: "acl_l2cap_handle_configure_req LE acl ident r (4 + ?n) s = None"
    by (rule configure_req_type_error [OF r1(1) hd assms(1-4)]) (use r2 none in simp_all)
  obtain r' w where w: "type_error_start LE p ident r u (?s1 zero_conf) = Some (r', w)" "reader_ok r'"
      "reader_stream r' = t # ?b # bs @ tlvs_bytes os @ rest" "writer_ok w" using start by blast
  obtain c r3 where r3: "bte_buffer_reader_read True r' 2 = Some ([t, ?b], c, r3)" "reader_ok r3"
    using bte_src.rd_law [OF w(2), of 2] w(3) by auto
  obtain ok w3 where w3: "bte_buffer_writer_write w [t, ?b] 2 = Some (ok, w3)" "writer_ok w3"
    using bte_snk.put_law [OF w(4), of 2 "[t, ?b]"] by auto
  have "length (stack_bytes LE 2 32 (?s1 zero_conf)) = 32" by (simp add: stack_bytes_def)
  from copy_param_endless [OF r3(2) w3(2) this b]
  have e: "\<forall>n. \<exists>k x. copy_param_rounds n ?b (0, stack_bytes LE 2 32 (?s1 zero_conf), r3, w3) = Some (k, x) \<and> k < ?b" by blast
  show ?thesis by (intro conjI exI) (rule 1, rule refl, rule w(1), rule r3(1), rule w3(1), rule e)
qed

section \<open>Witnesses\<close>

definition config_dev :: "bte_l2cap \<Rightarrow> l2cap_dev" where
  "config_dev l = demo_l2cap_dev\<lparr>acl_mtu := 204, acl_available_packets := 4, l2cap_heap := [30 \<mapsto> l]\<rparr>"

definition config_channel :: "l2cap_state \<Rightarrow> u16 \<Rightarrow> u16 \<Rightarrow> bte_l2cap" where
  "config_channel st loc rem = demo_channel\<lparr>l_state := st, local_channel_id := loc, remote_channel_id := rem, cmd_client_cb := Some 3\<rparr>"

definition config_env :: "l2cap_dev l2cap_env" where
  "config_env = demo_l2cap_env\<lparr>le_client := \<lambda>c s. Some s\<rparr>"

abbreviation config_acl :: bte_acl where
  "config_acl \<equiv> demo_acl\<lparr>acl_tail := [Some 30, None, None, None]\<rparr>"

lemma config_dev_simps [simp]:
  "acl_heap (config_dev l) 5 = Some config_acl" "acl_mtu (config_dev l) = 204" "l2cap_heap (config_dev l) = [30 \<mapsto> l]"
  "acls (config_dev l) = [None, Some 5, None, None, None, None, None]" "outgoing_acl_packets (config_dev l) = []"
  "s_last_signal_id (config_dev l) = 0" "acl_available_packets (config_dev l) = 4"
  by (simp_all add: config_dev_def)

lemma config_dev_ready:
  "link_ready 200 5 config_acl (config_dev l)" "link_idle 5 config_acl (config_dev l)" "fits 200 84"
  by (simp_all add: link_ready_def link_idle_def receiving_def find_acl_by_conn_handle_def sizeof_BteBuffer_def demo_acl_def zero_acl_def fits_def)

lemma config_env_quiet: "silent config_env p l" "quiet config_env p (Some f) ud" "accepting (le_hci config_env)" "consenting config_env p l"
  by (simp_all add: silent_def quiet_def consenting_def call_l2cap_def config_env_def accepting_def demo_l2cap_env_def)

theorem l2cap_configure_exchange_witness:
  "\<exists>s1 t1 s2 req rsp. bte_l2cap_configure config_env 30 (Some demo_params) (Some 3) 7 (config_dev (config_channel BTE_L2CAP_WAIT_SEND_CONFIG 0x40 0x41)) = Some s1 \<and>
    receive_all (l2cap_dispatch config_env) (map packet_in req) (config_dev (config_channel BTE_L2CAP_WAIT_CONFIG_REQ 0x41 0x40)) = Some t1 \<and>
    receive_all (l2cap_dispatch config_env) (map packet_in rsp) s1 = Some s2 \<and>
    map_option (\<lambda>k. (l_state k, l_remote_mtu k)) (l2cap_heap t1 30) = Some (BTE_L2CAP_OPEN, 512) \<and>
    map_option (\<lambda>l. (l_state l, l_mtu l)) (l2cap_heap s2 30) = Some (BTE_L2CAP_OPEN, 512)"
proof -
  let ?l = "config_channel BTE_L2CAP_WAIT_SEND_CONFIG 0x40 0x41" and ?k = "config_channel BTE_L2CAP_WAIT_CONFIG_REQ 0x41 0x40"
  have c: "canonical demo_params" "config_size demo_params = 32" "config_size (agreed demo_params) = 32" by code_simp+
  have ag: "cfg_mtu (agreed demo_params) = 512" by code_simp
  have sd: "sendable (config_dev ?l) (length (signal_packets 200 config_acl L2CAP_SIGNAL_CONFIG_REQ 1
      (config_payload (remote_channel_id ?l) False [] (config_options demo_params))))"
    by code_simp
  let ?req = "signal_packets 200 config_acl L2CAP_SIGNAL_CONFIG_REQ 1 (config_payload (remote_channel_id ?l) False [] (config_options demo_params))"
  let ?rsp = "config_answer 200 config_acl 1 (remote_channel_id ?k) (agreed demo_params)"
  have "\<exists>s1 t1 s2. bte_l2cap_configure config_env 30 (Some demo_params) (Some 3) 7 (config_dev ?l) = Some s1 \<and>
      wire s1 = wire (config_dev ?l) @ ?req \<and>
      receive_all (l2cap_dispatch config_env) (map packet_in ?req) (config_dev ?k) = Some t1 \<and> wire t1 = wire (config_dev ?k) @ ?rsp \<and>
      receive_all (l2cap_dispatch config_env) (map packet_in ?rsp) s1 = Some s2 \<and>
      l2cap_heap t1 30 = Some (?k\<lparr>l_remote_mtu := cfg_mtu (agreed demo_params), l_state := answered_state (l_state ?k)\<rparr>) \<and>
      l2cap_heap s2 30 = Some (?l\<lparr>l_mtu := cfg_mtu (agreed demo_params), l_state := accepted_state (sent_state (l_state ?l)),
        expected_response_code := L2CAP_SIGNAL_CONFIG_RSP, expected_response_id := 1, cmd_client_cb := Some 3, cmd_userdata := 7\<rparr>)"
    by (rule l2cap_configure_exchange [OF config_dev_ready(1,2) _ _ _ config_dev_ready(3) config_env_quiet(1) _ config_env_quiet(3) sd
          _ _ config_env_quiet(2) _ _ _ _ config_dev_ready(1,2)])
       (use c ag config_dev_ready(3) config_env_quiet(1,4) in
         \<open>simp_all add: config_channel_def demo_channel_def only_waiter_def l2cap_for_local_channel_def\<close>)
  then show ?thesis unfolding ag by (elim exE conjE) (intro exI conjI, assumption+, simp_all add: config_channel_def config_states)
qed


lemma config_demo: "configurable config_env 200 5 config_acl 30 (config_channel st 0x40 0x41) (config_dev (config_channel st 0x40 0x41))"
  using config_dev_ready config_env_quiet
  by (simp add: configurable_def config_channel_def demo_channel_def l2cap_for_local_channel_def)

theorem l2cap_config_refines_witness:
  "\<exists>s' k. config_run config_env 5 30 (config_dev (config_channel BTE_L2CAP_WAIT_SEND_CONFIG 0x40 0x41)) [Request_sent, Response_accepted] s' \<and>
    l2cap_heap s' 30 = Some k \<and> l_state k = BTE_L2CAP_OPEN"
proof -
  let ?l = "config_channel BTE_L2CAP_WAIT_SEND_CONFIG 0x40 0x41"
  let ?bs = "config_payload 0x40 False (le_bytes 2 L2CAP_CONFIG_RES_OK) []" and ?E = config_env and ?s = "config_dev ?l"
  have nc: "\<not> cd_has_pending_packets zero_conf" by (simp add: zero_conf_def)
  obtain ok s1 pkts k where s1: "l2cap_config_send ?E 30 zero_conf 0 ?s = Some (ok, zero_conf, s1)"
      "channel_step pkts 30 k ?s s1" "same_channel ?l k" "l_remote_mtu k = l_remote_mtu ?l" "l_state k = sent_state (l_state ?l)"
    using config_send_step [OF config_demo nc] by blast
  have c: "configurable ?E 200 5 config_acl 30 k s1"
    by (rule configurable_step [OF config_demo s1(2,3)]) (use s1(4) in \<open>simp add: config_channel_def demo_channel_def\<close>)
  have lb: "length ?bs < 65536" by (simp add: config_payload_def)
  have rs: "reader_stream (byte_reader ?bs) = ?bs @ []" using byte_reader_ok(2) [OF lb] by simp
  obtain r' s2 where s2: "l2cap_handle_config_resp ?E 30 (byte_reader ?bs) (6 + of_nat (length (tlvs_bytes []))) s1 = Some (True, r', s2)"
    using config_response_step [OF c byte_reader_ok(1) [OF lb] rs] by auto
  have k: "l_state k \<in> {BTE_L2CAP_WAIT_CONFIG_RSP, BTE_L2CAP_WAIT_CONFIG_REQ_RSP}"
    using s1(5) by (simp add: config_channel_def sent_state_def)
  have "config_op ?E 5 30 ?s Request_sent s1" by (rule config_op.send [OF s1(1) nc])
  moreover have "config_op ?E 5 30 s1 Response_accepted s2"
    by (rule config_op.accept [OF s2 byte_reader_ok(1) [OF lb] channel_step_heap [OF s1(2)] rs _ _ k]) simp_all
  ultimately have run: "config_run ?E 5 30 ?s [Request_sent, Response_accepted] s2"
    by (blast intro: config_run.intros)
  have "progress (l_state ?l) = Some \<lparr>req_sent = False, rsp_received = False, req_answered = True\<rparr>"
    by (simp add: config_channel_def)
  from l2cap_config_refines [OF run config_demo this] run show ?thesis by (auto dest: configurableD(2))
qed

theorem l2cap_configure_req_hangs_witness:
  "acl_l2cap_handle_configure_req config_env 5 1 (byte_reader (config_payload 0x40 False [] [(0x10, replicate 225 0)])) 231
     (config_dev (config_channel BTE_L2CAP_WAIT_CONFIG 0x40 0x41)) = None \<and>
   (\<exists>b r w. \<forall>n. \<exists>k x. copy_param_rounds n 225 (0, b, r, w) = Some (k, x) \<and> k < 225)"
proof -
  let ?os = "[(0x10, replicate 225 0)] :: tlv list" and ?l = "config_channel BTE_L2CAP_WAIT_CONFIG 0x40 0x41"
  let ?bs = "config_payload 0x40 False [] ?os"
  have lb: "length ?bs < 65536" by (simp add: config_payload_def)
  have rs: "reader_stream (byte_reader ?bs) = ?bs @ []" using byte_reader_ok(2) [OF lb] by simp
  have ok: "list_all tlv_ok ?os" "critical (0x10, replicate 225 0)" by code_simp+
  have "unknown_bytes ?os = 227" using ok(2) by (simp add: unknown_bytes_def del: critical.simps)
  then have ft: "fits 200 (unknown_bytes ?os + 14)" by (simp add: fits_def)
  let ?s = "config_dev ?l"
  have ch: "l2cap_for_local_channel 5 0x40 ?s = Some (Some 30)" "l2cap_heap ?s 30 = Some ?l" "configure_req ?l = None"
      "l_state ?l \<in> {BTE_L2CAP_WAIT_CONFIG, BTE_L2CAP_WAIT_CONFIG_REQ, BTE_L2CAP_WAIT_CONFIG_REQ_RSP, BTE_L2CAP_OPEN}"
      "l_acl ?l = Some 5"
    by (simp_all add: config_channel_def demo_channel_def l2cap_for_local_channel_def)
  have sz: "224 < length (replicate 225 (0 :: byte))" "length (tlvs_bytes ?os) < 65532" "14 \<le> (200 :: nat)" by simp_all
  note h = l2cap_configure_req_hangs [where LE = config_env and ident = 1, OF ch(1-4) byte_reader_ok(1) [OF lb] rs ok sz(1,2)
      config_dev_ready(1) ch(5) sz(3) ft refl]
  have "\<exists>b r w. \<forall>n. \<exists>k x. copy_param_rounds n (of_nat (length (replicate 225 (0 :: byte)))) (0, b, r, w) = Some (k, x) \<and>
      k < of_nat (length (replicate 225 (0 :: byte)))"
    using conjunct2 [OF h] by (elim exE conjE) (intro exI, assumption)
  then show ?thesis using conjunct1 [OF h] by simp
qed


theorem l2cap_configure_busy_link_witness:
  "\<exists>s1. l2cap_heap s1 30 = Some (config_channel BTE_L2CAP_WAIT_CONFIG_REQ_RSP 0x40 0x41) \<and>
    bte_l2cap_configure config_env 30 (Some demo_params) (Some 3) 7
      ((config_dev (config_channel BTE_L2CAP_WAIT_CONFIG 0x40 0x41))\<lparr>acl_available_packets := 0\<rparr>) = Some s1"
proof -
  let ?l = "config_channel BTE_L2CAP_WAIT_CONFIG 0x40 0x41" and ?E = config_env
  let ?s = "(config_dev ?l)\<lparr>acl_available_packets := 0\<rparr>"
  let ?req = "signal_packets 200 config_acl L2CAP_SIGNAL_CONFIG_REQ (next_ident (s_last_signal_id ?s))
      (config_payload (remote_channel_id ?l) False [] (config_options demo_params))"
  have sd: "\<not> sendable ?s (length ?req)" "config_size demo_params = 32" by code_simp+
  have r: "link_ready 200 5 config_acl ?s" using config_dev_ready(1) [of ?l] by (simp add: link_ready_def)
  have "\<exists>s1. wire s1 = wire ?s @ ?req \<and> l2cap_heap s1 30 = Some (?l\<lparr>l_state := sent_state (l_state ?l)\<rparr>) \<and>
      bte_l2cap_configure ?E 30 (Some demo_params) (Some 3) 7 ?s =
        call_l2cap ?E (Some 3) (Some 30) (Configure_reply (rejected_reply ?E s1)) 7 s1"
    by (rule l2cap_configure_busy_link [OF r _ _ _ config_dev_ready(3) config_env_quiet(1) _ config_env_quiet(3) _ _ refl sd(1)])
       (simp_all add: sd(2) config_channel_def demo_channel_def)
  moreover have "?l\<lparr>l_state := sent_state (l_state ?l)\<rparr> = config_channel BTE_L2CAP_WAIT_CONFIG_REQ_RSP 0x40 0x41"
    by (simp add: config_channel_def demo_channel_def sent_state_def)
  ultimately show ?thesis by (auto simp: call_l2cap_def config_env_def)
qed

end
