(* ===== verification/SdpDe.thy ===== *)
theory SdpDe
  imports Prelude
begin

text \<open>
  The data elements of the service discovery protocol, from \<^verbatim>\<open>services/sdp.c\<close>: the writer
  \<^verbatim>\<open>bte_sdp_de_write\<close>, which takes a variable number of arguments, and \<^verbatim>\<open>BteSdpDeReader\<close>, which
  walks through nested sequences.

  A \<^verbatim>\<open>const uint8_t *de\<close> is the memory from the pointer on. A \<^verbatim>\<open>va_list\<close> is the list of the
  arguments that are left, each with the type it was passed as; reading an argument at another
  type, or one too many, has no defined result and is \<open>None\<close>. The abstract view is the tree of data
  elements with its encoding.
\<close>

section \<open>Types and sizes\<close>

abbreviation (input) BTE_SDP_DE_SIZE_MASK :: byte where "BTE_SDP_DE_SIZE_MASK \<equiv> 0x07"
abbreviation (input) BTE_SDP_DE_SIZE_VAR_8 :: byte where "BTE_SDP_DE_SIZE_VAR_8 \<equiv> 5"
abbreviation (input) BTE_SDP_DE_SIZE_VAR_16 :: byte where "BTE_SDP_DE_SIZE_VAR_16 \<equiv> 6"
abbreviation (input) BTE_SDP_DE_SIZE_VAR_32 :: byte where "BTE_SDP_DE_SIZE_VAR_32 \<equiv> 7"
abbreviation (input) BTE_SDP_DE_TYPE_MASK :: byte where "BTE_SDP_DE_TYPE_MASK \<equiv> 0xf8"
abbreviation (input) BTE_SDP_DE_TYPE_NIL :: byte where "BTE_SDP_DE_TYPE_NIL \<equiv> 0x00"
abbreviation (input) BTE_SDP_DE_TYPE_UINT8 :: byte where "BTE_SDP_DE_TYPE_UINT8 \<equiv> 0x08"
abbreviation (input) BTE_SDP_DE_TYPE_UINT16 :: byte where "BTE_SDP_DE_TYPE_UINT16 \<equiv> 0x09"
abbreviation (input) BTE_SDP_DE_TYPE_UINT32 :: byte where "BTE_SDP_DE_TYPE_UINT32 \<equiv> 0x0a"
abbreviation (input) BTE_SDP_DE_TYPE_UINT64 :: byte where "BTE_SDP_DE_TYPE_UINT64 \<equiv> 0x0b"
abbreviation (input) BTE_SDP_DE_TYPE_UINT128 :: byte where "BTE_SDP_DE_TYPE_UINT128 \<equiv> 0x0c"
abbreviation (input) BTE_SDP_DE_TYPE_INT8 :: byte where "BTE_SDP_DE_TYPE_INT8 \<equiv> 0x10"
abbreviation (input) BTE_SDP_DE_TYPE_INT16 :: byte where "BTE_SDP_DE_TYPE_INT16 \<equiv> 0x11"
abbreviation (input) BTE_SDP_DE_TYPE_INT32 :: byte where "BTE_SDP_DE_TYPE_INT32 \<equiv> 0x12"
abbreviation (input) BTE_SDP_DE_TYPE_INT64 :: byte where "BTE_SDP_DE_TYPE_INT64 \<equiv> 0x13"
abbreviation (input) BTE_SDP_DE_TYPE_INT128 :: byte where "BTE_SDP_DE_TYPE_INT128 \<equiv> 0x14"
abbreviation (input) BTE_SDP_DE_TYPE_UUID16 :: byte where "BTE_SDP_DE_TYPE_UUID16 \<equiv> 0x19"
abbreviation (input) BTE_SDP_DE_TYPE_UUID32 :: byte where "BTE_SDP_DE_TYPE_UUID32 \<equiv> 0x1a"
abbreviation (input) BTE_SDP_DE_TYPE_UUID128 :: byte where "BTE_SDP_DE_TYPE_UUID128 \<equiv> 0x1c"
abbreviation (input) BTE_SDP_DE_TYPE_STRING :: byte where "BTE_SDP_DE_TYPE_STRING \<equiv> 0x20"
abbreviation (input) BTE_SDP_DE_TYPE_BOOL :: byte where "BTE_SDP_DE_TYPE_BOOL \<equiv> 0x28"
abbreviation (input) BTE_SDP_DE_TYPE_SEQUENCE :: byte where "BTE_SDP_DE_TYPE_SEQUENCE \<equiv> 0x30"
abbreviation (input) BTE_SDP_DE_TYPE_CHOICE :: byte where "BTE_SDP_DE_TYPE_CHOICE \<equiv> 0x38"
abbreviation (input) BTE_SDP_DE_TYPE_URL :: byte where "BTE_SDP_DE_TYPE_URL \<equiv> 0x40"
abbreviation (input) BTE_SDP_DE_TYPE_INVALID :: byte where "BTE_SDP_DE_TYPE_INVALID \<equiv> 0xff"
abbreviation (input) BTE_SDP_DE_END :: u32 where "BTE_SDP_DE_END \<equiv> 0xffffffff"
abbreviation (input) BTE_SDP_DE_SPECIAL_MASK :: u32 where "BTE_SDP_DE_SPECIAL_MASK \<equiv> 0xff000000"
abbreviation (input) BTE_SDP_DE_SPECIAL_ARRAY :: u32 where "BTE_SDP_DE_SPECIAL_ARRAY \<equiv> 0xaa000000"

text \<open>\<^verbatim>\<open>BTE_SDP_DE_ARRAY(n)\<close>, with \<open>n\<close> as an \<^verbatim>\<open>int\<close> argument.\<close>

definition BTE_SDP_DE_ARRAY :: "u32 \<Rightarrow> u32" where
  "BTE_SDP_DE_ARRAY n = n OR BTE_SDP_DE_SPECIAL_ARRAY"

definition bte_sdp_de_get_data_size :: "mem \<Rightarrow> u32 option" where
  "bte_sdp_de_get_data_size de =
     do { b \<leftarrow> rd8 de 0;
          let size_id = b AND BTE_SDP_DE_SIZE_MASK;
          if size_id = BTE_SDP_DE_SIZE_VAR_8 then map_option ucast (rd8 de 1)
          else if size_id = BTE_SDP_DE_SIZE_VAR_16 then map_option ucast (read_be16 de 1)
          else if size_id = BTE_SDP_DE_SIZE_VAR_32 then read_be32 de 1
          else if b = BTE_SDP_DE_TYPE_NIL then Some 0
          else Some (push_bit (unat size_id) 1) }"

definition bte_sdp_de_get_header_size :: "mem \<Rightarrow> u32 option" where
  "bte_sdp_de_get_header_size de =
     do { b \<leftarrow> rd8 de 0;
          let size_id = b AND BTE_SDP_DE_SIZE_MASK;
          if size_id = BTE_SDP_DE_SIZE_VAR_8 then Some 2
          else if size_id = BTE_SDP_DE_SIZE_VAR_16 then Some 3
          else if size_id = BTE_SDP_DE_SIZE_VAR_32 then Some 5
          else Some 1 }"

definition bte_sdp_de_get_total_size :: "mem \<Rightarrow> u32 option" where
  "bte_sdp_de_get_total_size de =
     do { h \<leftarrow> bte_sdp_de_get_header_size de; d \<leftarrow> bte_sdp_de_get_data_size de; Some (h + d) }"

definition bte_sdp_de_get_type :: "mem \<Rightarrow> byte option" where
  "bte_sdp_de_get_type de =
     do { b \<leftarrow> rd8 de 0;
          let type_id = b AND BTE_SDP_DE_TYPE_MASK;
          Some (if type_id \<ge> BTE_SDP_DE_TYPE_STRING then type_id else b) }"

section \<open>The writer\<close>

text \<open>
  The arguments of a variadic call. An array is a pointer: to the raw memory of fixed size values,
  or to an array of C strings. A C string is its memory, with the terminating zero.
\<close>

datatype va_arg =
  Va_int u32 | Va_uint64 u64 | Va_uint128 "128 word" | Va_str mem | Va_mem mem | Va_strs "mem list"

type_synonym va_list = "va_arg list"

fun va_int :: "va_list \<Rightarrow> (u32 \<times> va_list) option" where
  "va_int (Va_int v # args) = Some (v, args)" | "va_int _ = None"

fun va_uint64 :: "va_list \<Rightarrow> (u64 \<times> va_list) option" where
  "va_uint64 (Va_uint64 v # args) = Some (v, args)" | "va_uint64 _ = None"

fun va_uint128 :: "va_list \<Rightarrow> (128 word \<times> va_list) option" where
  "va_uint128 (Va_uint128 v # args) = Some (v, args)" | "va_uint128 _ = None"

fun va_str :: "va_list \<Rightarrow> (mem \<times> va_list) option" where
  "va_str (Va_str v # args) = Some (v, args)" | "va_str _ = None"

definition strlen :: "mem \<Rightarrow> nat option" where
  "strlen s = (if 0 \<in> set s then Some (length (takeWhile (\<lambda>b. b \<noteq> 0) s)) else None)"

text \<open>\<^verbatim>\<open>var_size\<close>: the size identifier, the header size, and the bytes it stores from \<^verbatim>\<open>dest + 1\<close> on.\<close>

definition var_size :: "nat \<Rightarrow> byte \<times> nat \<times> mem" where
  "var_size len =
     (if len < 0x100 then (BTE_SDP_DE_SIZE_VAR_8, 2, [of_nat len])
      else if len < 0x10000 then (BTE_SDP_DE_SIZE_VAR_16, 3, be_bytes 2 (of_nat len :: u16))
      else (BTE_SDP_DE_SIZE_VAR_32, 5, be_bytes 4 (of_nat len :: u32)))"

definition fixed_type :: "u32 \<Rightarrow> bool" where
  "fixed_type type \<longleftrightarrow> type \<le> ucast BTE_SDP_DE_TYPE_UUID128 \<or> type = ucast BTE_SDP_DE_TYPE_BOOL"

definition string_type :: "u32 \<Rightarrow> bool" where
  "string_type type \<longleftrightarrow> type = ucast BTE_SDP_DE_TYPE_STRING \<or> type = ucast BTE_SDP_DE_TYPE_URL"

text \<open>The loop over the strings of an array; \<^verbatim>\<open>strings[i]\<close> outside of the array has no result.\<close>

fun strings_size :: "nat \<Rightarrow> mem list \<Rightarrow> int \<Rightarrow> int option" where
  "strings_size 0 strings sz = Some sz"
| "strings_size (Suc n) [] sz = None"
| "strings_size (Suc n) (s # ss) sz =
     do { len \<leftarrow> strlen s;
          let (_, header_size, _) = var_size len;
          strings_size n ss (sz + int header_size + int len) }"

fun de_array_size :: "u32 \<Rightarrow> u32 \<Rightarrow> va_arg \<Rightarrow> int option" where
  "de_array_size count type elements =
     (if fixed_type type
      then do { total \<leftarrow> bte_sdp_de_get_total_size [ucast type]; Some (uint (total * count)) }
      else if string_type type
      then (case elements of Va_strs ss \<Rightarrow> strings_size (unat count) ss 0 | _ \<Rightarrow> None)
      else None)"

fun fixed_write :: "nat \<Rightarrow> byte \<Rightarrow> nat \<Rightarrow> mem \<Rightarrow> mem \<Rightarrow> nat \<Rightarrow> mem option" where
  "fixed_write 0 type sz src buf de = Some buf"
| "fixed_write (Suc n) type sz src buf de =
     do { v \<leftarrow> slice src 0 sz;
          buf \<leftarrow> wr buf de (type # rev v);
          fixed_write n type sz (drop sz src) buf (de + 1 + sz) }"

text \<open>\<^verbatim>\<open>strcpy\<close> copies the terminating zero as well, behind the element.\<close>

fun strings_write :: "nat \<Rightarrow> byte \<Rightarrow> mem list \<Rightarrow> mem \<Rightarrow> nat \<Rightarrow> mem option" where
  "strings_write 0 type strings buf de = Some buf"
| "strings_write (Suc n) type [] buf de = None"
| "strings_write (Suc n) type (s # ss) buf de =
     do { len \<leftarrow> strlen s;
          let (size_id, header_size, len_bytes) = var_size len;
          buf \<leftarrow> wr buf (de + 1) len_bytes;
          buf \<leftarrow> wr buf de [type OR size_id];
          buf \<leftarrow> wr buf (de + header_size) (take len s @ [0]);
          strings_write n type ss buf (de + header_size + len) }"

fun de_array_write :: "mem \<Rightarrow> nat \<Rightarrow> u32 \<Rightarrow> u32 \<Rightarrow> va_arg \<Rightarrow> mem option" where
  "de_array_write buf de count type elements =
     (if fixed_type type
      then (case elements of
              Va_mem src \<Rightarrow> fixed_write (unat count) (ucast type)
                              (2 ^ unat (ucast type AND BTE_SDP_DE_SIZE_MASK)) src buf de
            | _ \<Rightarrow> None)
      else if string_type type
      then (case elements of Va_strs ss \<Rightarrow> strings_write (unat count) (ucast type) ss buf de | _ \<Rightarrow> None)
      else Some buf)"

text \<open>A store through \<^verbatim>\<open>dest\<close>, which is \<^verbatim>\<open>NULL\<close> when only the size is asked for.\<close>

definition de_put :: "mem \<Rightarrow> nat option \<Rightarrow> nat \<Rightarrow> mem \<Rightarrow> mem option" where
  "de_put buf dest i bs = do { p \<leftarrow> dest; wr buf (p + i) bs }"

text \<open>
  Every branch of the switch but the ones for sequences: the required size, the buffer and the
  arguments that are left.
\<close>

definition de_write_num :: "mem \<Rightarrow> nat option \<Rightarrow> int \<Rightarrow> u32 \<Rightarrow> mem \<Rightarrow> (int \<times> mem) option" where
  "de_write_num buf dest remaining type bs =
     (let req_size = 1 + int (length bs) in
      if remaining > req_size
      then do { buf \<leftarrow> de_put buf dest 0 [ucast type]; buf \<leftarrow> de_put buf dest 1 bs; Some (req_size, buf) }
      else Some (req_size, buf))"

definition de_write_128 :: "mem \<Rightarrow> nat option \<Rightarrow> int \<Rightarrow> u32 \<Rightarrow> 128 word \<Rightarrow> bool \<Rightarrow> (int \<times> mem) option" where
  "de_write_128 buf dest remaining type v flip =
     do { (req_size, buf) \<leftarrow> de_write_num buf dest remaining type (le_bytes 16 v);
          if remaining > req_size \<and> flip
          then do { p \<leftarrow> dest;
                    tmp \<leftarrow> read_le64 buf (p + 1);
                    hi \<leftarrow> read_le64 buf (p + 1 + 8);
                    buf \<leftarrow> write_be64 hi buf (p + 1);
                    buf \<leftarrow> write_be64 tmp buf (p + 1 + 8);
                    Some (req_size, buf) }
          else Some (req_size, buf) }"

definition de_write_item ::
    "mem \<Rightarrow> nat option \<Rightarrow> int \<Rightarrow> u32 \<Rightarrow> va_list \<Rightarrow> (int \<times> mem \<times> va_list) option" where
  "de_write_item buf dest remaining type args =
     (if type = ucast BTE_SDP_DE_TYPE_NIL then
        do { (req_size, buf) \<leftarrow> de_write_num buf dest remaining type []; Some (req_size, buf, args) }
      else if type \<in> {ucast BTE_SDP_DE_TYPE_INT8, ucast BTE_SDP_DE_TYPE_UINT8} then
        do { (v, args) \<leftarrow> va_int args;
             (req_size, buf) \<leftarrow> de_write_num buf dest remaining type [ucast v];
             Some (req_size, buf, args) }
      else if type \<in> {ucast BTE_SDP_DE_TYPE_INT16, ucast BTE_SDP_DE_TYPE_UINT16, ucast BTE_SDP_DE_TYPE_UUID16} then
        do { (v, args) \<leftarrow> va_int args;
             (req_size, buf) \<leftarrow> de_write_num buf dest remaining type (be_bytes 2 (ucast v :: u16));
             Some (req_size, buf, args) }
      else if type \<in> {ucast BTE_SDP_DE_TYPE_INT32, ucast BTE_SDP_DE_TYPE_UINT32, ucast BTE_SDP_DE_TYPE_UUID32} then
        do { (v, args) \<leftarrow> va_int args;
             (req_size, buf) \<leftarrow> de_write_num buf dest remaining type (be_bytes 4 v);
             Some (req_size, buf, args) }
      else if type \<in> {ucast BTE_SDP_DE_TYPE_INT64, ucast BTE_SDP_DE_TYPE_UINT64} then
        do { (v, args) \<leftarrow> va_uint64 args;
             (req_size, buf) \<leftarrow> de_write_num buf dest remaining type (be_bytes 8 v);
             Some (req_size, buf, args) }
      else if type \<in> {ucast BTE_SDP_DE_TYPE_INT128, ucast BTE_SDP_DE_TYPE_UINT128, ucast BTE_SDP_DE_TYPE_UUID128} then
        do { (v, args) \<leftarrow> va_uint128 args;
             (req_size, buf) \<leftarrow> de_write_128 buf dest remaining type v (type \<noteq> ucast BTE_SDP_DE_TYPE_UUID128);
             Some (req_size, buf, args) }
      else if type = ucast BTE_SDP_DE_TYPE_BOOL then
        do { (v, args) \<leftarrow> va_int args;
             (req_size, buf) \<leftarrow> de_write_num buf dest remaining type [if v \<noteq> 0 then 1 else 0];
             Some (req_size, buf, args) }
      else if string_type type then
        do { (str, args) \<leftarrow> va_str args;
             len \<leftarrow> strlen str;
             let (size_id, header_size, len_bytes) = var_size len;
             let req_size = int header_size + int len;
             if remaining > req_size
             then do { buf \<leftarrow> de_put buf dest 0 [ucast type OR size_id];
                       buf \<leftarrow> de_put buf dest 1 len_bytes;
                       buf \<leftarrow> de_put buf dest header_size (take len str);
                       Some (req_size, buf, args) }
             else Some (req_size, buf, args) }
      else if type AND BTE_SDP_DE_SPECIAL_MASK = BTE_SDP_DE_SPECIAL_ARRAY then
        do { let count = type AND NOT BTE_SDP_DE_SPECIAL_MASK;
             (type, args) \<leftarrow> va_int args;
             (elements, args) \<leftarrow> (case args of a # as \<Rightarrow> Some (a, as) | [] \<Rightarrow> None);
             req_size \<leftarrow> de_array_size count type elements;
             if remaining > req_size
             then do { p \<leftarrow> dest; buf \<leftarrow> de_array_write buf p count type elements;
                       Some (req_size, buf, args) }
             else Some (req_size, buf, args) }
      else Some (1, buf, args))"

text \<open>
  The loop of \<^verbatim>\<open>de_write\<close>. A sequence is written twice: once without a buffer, for its size, and
  then into the buffer. The call may not return (the arguments may lack their end), so it is a
  partial function.
\<close>

partial_function (option) de_write ::
    "nat \<Rightarrow> mem \<Rightarrow> nat option \<Rightarrow> int \<Rightarrow> u32 \<Rightarrow> va_list \<Rightarrow> (u32 \<times> mem \<times> va_list) option" where
  "de_write depth buf dest remaining sz args =
     do { (type, args) \<leftarrow> va_int args;
          if type = BTE_SDP_DE_END then Some (sz, buf, args)
          else do {
            (req_size, buf, args) \<leftarrow>
              (if type = ucast BTE_SDP_DE_TYPE_SEQUENCE \<or> type = ucast BTE_SDP_DE_TYPE_CHOICE then
                 do { (len, _, args') \<leftarrow> de_write (depth + 1) buf None 0 0 args;
                      let (size_id, header_size, len_bytes) = var_size (unat len);
                      let req_size = uint (of_nat header_size + len);
                      if remaining > req_size then
                        do { buf \<leftarrow> de_put buf dest 0 [ucast type OR size_id];
                             buf \<leftarrow> de_put buf dest 1 len_bytes;
                             p \<leftarrow> dest;
                             (_, buf, _) \<leftarrow> de_write (depth + 1) buf (Some (p + header_size))
                                             (remaining - int header_size) 0 args;
                             Some (req_size, buf, args') }
                      else Some (req_size, buf, args') }
               else de_write_item buf dest remaining type args);
            let dest = map_option (\<lambda>p. p + nat req_size) dest;
            let sz = sz + word_of_int req_size;
            let remaining = remaining - req_size;
            if depth = 0 then Some (sz, buf, args)
            else de_write depth buf dest remaining sz args } }"

text \<open>\<^verbatim>\<open>de\<close> may be \<^verbatim>\<open>NULL\<close>; the buffer is returned as it was changed.\<close>

definition bte_sdp_de_write :: "mem option \<Rightarrow> nat \<Rightarrow> va_list \<Rightarrow> (u32 \<times> mem) option" where
  "bte_sdp_de_write de buffer_size args =
     (case de of
        None \<Rightarrow> do { (sz, buf, _) \<leftarrow> de_write 0 [] None 0 0 args; Some (sz, buf) }
      | Some buf \<Rightarrow> do { (sz, buf, _) \<leftarrow> de_write 0 buf (Some 0) (int buffer_size) 0 args; Some (sz, buf) })"

section \<open>Data elements and their encoding\<close>

datatype de = De_fixed byte mem | De_str byte mem | De_seq byte "de list"

definition de_header :: "byte \<Rightarrow> nat \<Rightarrow> mem" where
  "de_header t n = (case var_size n of (size_id, _, len_bytes) \<Rightarrow> (t OR size_id) # len_bytes)"

fun encode :: "de \<Rightarrow> mem" where
  "encode (De_fixed t bs) = t # bs"
| "encode (De_str t s) = de_header t (length s) @ s"
| "encode (De_seq t ds) =
     (let de_body = concat (map encode ds) in de_header t (length de_body) @ de_body)"

abbreviation encodes :: "de list \<Rightarrow> mem" where
  "encodes ds \<equiv> concat (map encode ds)"

text \<open>The value of one argument of a fixed size type, as the bytes of the element.\<close>

fun fixed_bytes :: "byte \<Rightarrow> va_arg \<Rightarrow> mem option" where
  "fixed_bytes t (Va_int v) =
     (if t \<in> {BTE_SDP_DE_TYPE_INT8, BTE_SDP_DE_TYPE_UINT8} then Some [ucast v]
      else if t \<in> {BTE_SDP_DE_TYPE_INT16, BTE_SDP_DE_TYPE_UINT16, BTE_SDP_DE_TYPE_UUID16}
      then Some (be_bytes 2 (ucast v :: u16))
      else if t \<in> {BTE_SDP_DE_TYPE_INT32, BTE_SDP_DE_TYPE_UINT32, BTE_SDP_DE_TYPE_UUID32}
      then Some (be_bytes 4 v)
      else if t = BTE_SDP_DE_TYPE_BOOL then Some [if v \<noteq> 0 then 1 else 0] else None)"
| "fixed_bytes t (Va_uint64 v) =
     (if t \<in> {BTE_SDP_DE_TYPE_INT64, BTE_SDP_DE_TYPE_UINT64} then Some (be_bytes 8 v) else None)"
| "fixed_bytes t (Va_uint128 v) =
     (if t \<in> {BTE_SDP_DE_TYPE_INT128, BTE_SDP_DE_TYPE_UINT128} then Some (be_bytes 16 v)
      else if t = BTE_SDP_DE_TYPE_UUID128 then Some (le_bytes 16 v) else None)"
| "fixed_bytes t _ = None"

definition fixed_len :: "byte \<Rightarrow> nat" where
  "fixed_len t = (if t = BTE_SDP_DE_TYPE_NIL then 0 else 2 ^ unat (t AND BTE_SDP_DE_SIZE_MASK))"

definition value_types :: "byte set" where
  "value_types = {0x08, 0x09, 0x0a, 0x0b, 0x0c, 0x10, 0x11, 0x12, 0x13, 0x14, 0x19, 0x1a, 0x1c, 0x28}"

definition string_bytes :: "mem \<Rightarrow> mem" where
  "string_bytes s = takeWhile (\<lambda>b. b \<noteq> 0) s"

text \<open>
  What a list of arguments stands for: one item is a value, a string, a sequence with its end mark,
  or an array of values or strings, which stands for its elements.
\<close>

inductive de_item :: "va_list \<Rightarrow> de list \<Rightarrow> bool" and de_args :: "va_list \<Rightarrow> de list \<Rightarrow> bool" where
  Item_nil: "de_item [Va_int (ucast BTE_SDP_DE_TYPE_NIL)] [De_fixed BTE_SDP_DE_TYPE_NIL []]"
| Item_value: "fixed_bytes t a = Some bs \<Longrightarrow> de_item [Va_int (ucast t), a] [De_fixed t bs]"
| Item_string: "t \<in> {BTE_SDP_DE_TYPE_STRING, BTE_SDP_DE_TYPE_URL} \<Longrightarrow> 0 \<in> set s \<Longrightarrow>
    de_item [Va_int (ucast t), Va_str s] [De_str t (string_bytes s)]"
| Item_seq: "t \<in> {BTE_SDP_DE_TYPE_SEQUENCE, BTE_SDP_DE_TYPE_CHOICE} \<Longrightarrow> de_args as ds \<Longrightarrow>
    de_item (Va_int (ucast t) # as @ [Va_int BTE_SDP_DE_END]) [De_seq t ds]"
| Item_values: "t \<in> value_types \<Longrightarrow> list_all (\<lambda>v. length v = fixed_len t) vs \<Longrightarrow> length vs < 2 ^ 24 \<Longrightarrow>
    de_item [Va_int (BTE_SDP_DE_ARRAY (of_nat (length vs))), Va_int (ucast t), Va_mem (concat vs)]
      (map (\<lambda>v. De_fixed t (rev v)) vs)"
| Item_strings: "t \<in> {BTE_SDP_DE_TYPE_STRING, BTE_SDP_DE_TYPE_URL} \<Longrightarrow> list_all (\<lambda>s. 0 \<in> set s) ss \<Longrightarrow>
    length ss < 2 ^ 24 \<Longrightarrow>
    de_item [Va_int (BTE_SDP_DE_ARRAY (of_nat (length ss))), Va_int (ucast t), Va_strs ss]
      (map (\<lambda>s. De_str t (string_bytes s)) ss)"
| Args_nil: "de_args [] []"
| Args_item: "de_item a ds \<Longrightarrow> de_args as ds' \<Longrightarrow> de_args (a @ as) (ds @ ds')"

section \<open>Writing\<close>

text \<open>
  The bytes \<open>bs\<close> were stored at \<open>p\<close>. One byte behind them may have changed as well: the zero that
  \<^verbatim>\<open>strcpy\<close> adds to a string of an array.
\<close>

definition stored :: "mem \<Rightarrow> nat \<Rightarrow> mem \<Rightarrow> mem \<Rightarrow> bool" where
  "stored buf p bs buf' \<longleftrightarrow>
     (\<exists>behind. p + length bs + length behind = length buf \<and> buf' = take p buf @ bs @ behind \<and>
        drop 1 behind = drop (p + length bs + 1) buf)"

lemma stored_nil: "p \<le> length buf \<Longrightarrow> stored buf p [] buf"
  unfolding stored_def by (rule exI [of _ "drop p buf"]) simp

lemma stored_len: "stored buf p bs buf' \<Longrightarrow> length buf' = length buf"
  by (auto simp: stored_def)

lemma stored_wr: "wr buf p bs = Some buf' \<Longrightarrow> stored buf p bs buf'"
  unfolding stored_def
  by (rule exI [of _ "drop (p + length bs) buf"]) (auto simp: wr_def split: if_splits)

lemma stored_append:
  assumes "stored buf p bs buf1" and "stored buf1 (p + length bs) cs buf2"
  shows "stored buf p (bs @ cs) buf2"
proof -
  obtain b1 where b1: "p + length bs + length b1 = length buf" "buf1 = take p buf @ bs @ b1"
      "drop 1 b1 = drop (p + length bs + 1) buf"
    using assms(1) by (auto simp: stored_def)
  obtain b2 where b2: "p + length bs + length cs + length b2 = length buf1"
      "buf2 = take (p + length bs) buf1 @ cs @ b2"
      "drop 1 b2 = drop (p + length bs + length cs + 1) buf1"
    using assms(2) by (auto simp: stored_def)
  have p: "length (take p buf) = p" using b1(1) by simp
  have "drop 1 b2 = drop (length cs + 1) b1"
    using b2(3) p unfolding b1(2) by (simp add: add.assoc)
  also have "\<dots> = drop (length cs) (drop 1 b1)" by (simp add: add.commute)
  also have "\<dots> = drop (p + length (bs @ cs) + 1) buf" by (simp only: b1(3)) (simp add: ac_simps)
  finally have "drop 1 b2 = drop (p + length (bs @ cs) + 1) buf" .
  moreover have "buf2 = take p buf @ (bs @ cs) @ b2" using b2(2) p unfolding b1(2) by simp
  moreover have "p + length (bs @ cs) + length b2 = length buf" using b1(1,2) b2(1) p by simp
  ultimately show ?thesis unfolding stored_def by blast
qed

lemma put_stored:
  "p + i + length bs \<le> length buf \<Longrightarrow> \<exists>buf'. de_put buf (Some p) i bs = Some buf' \<and> stored buf (p + i) bs buf'"
  by (auto simp: de_put_def wr_def intro!: stored_wr)

lemma de_header_len: "var_size n = (size_id, header_size, len_bytes) \<Longrightarrow>
    length len_bytes + 1 = header_size \<and> de_header t n = (t OR size_id) # len_bytes \<and> 2 \<le> header_size"
  by (auto simp: var_size_def de_header_def split: if_splits)

lemma de_write_num_room:
  assumes "p + nat remaining \<le> length buf" "remaining > 1 + int (length bs)"
  shows "\<exists>buf'. de_write_num buf (Some p) remaining type bs = Some (1 + int (length bs), buf') \<and>
           stored buf p (ucast type # bs) buf'"
proof -
  have l: "p + 1 + length bs \<le> length buf" using assms by linarith
  obtain b1 where b1: "de_put buf (Some p) 0 [ucast type] = Some b1" "stored buf p [ucast type] b1"
    using put_stored [of p 0 "[ucast type]" buf] l by auto
  obtain b2 where b2: "de_put b1 (Some p) 1 bs = Some b2" "stored b1 (p + 1) bs b2"
    using put_stored [of p 1 bs b1] l stored_len [OF b1(2)] by auto
  from stored_append [OF b1(2), of bs b2] b2 have "stored buf p (ucast type # bs) b2" by simp
  with b1 b2 assms(2) show ?thesis by (simp add: de_write_num_def)
qed

lemma de_write_num_no_room:
  "remaining \<le> 1 + int (length bs) \<Longrightarrow>
   de_write_num buf dest remaining type bs = Some (1 + int (length bs), buf)"
  by (simp add: de_write_num_def)

lemma be_bytes_128_halves:
  "be_bytes 16 (v :: 128 word) =
     be_bytes 8 (ucast (drop_bit 64 v) :: u64) @ be_bytes 8 (ucast v :: u64)"
  using le_bytes_add [of 8 8 v] by (simp add: be_bytes_def le_bytes_ucast)

lemma read_le64_at: "read_le64 (xs @ le_bytes 8 w @ ys) (length xs) = Some (ucast w)"
  by (simp add: read_le64_def slice_def le_val_bytes_ucast)

lemma write_be64_at:
  "length bs = 8 \<Longrightarrow> write_be64 n (xs @ bs @ ys) (length xs) = Some (xs @ be_bytes 8 n @ ys)"
  by (simp add: write_be64_def wr_def)

lemma flip_halves:
  assumes "xs = pre @ le_bytes 16 (v :: 128 word) @ post" "length pre = p"
  shows "do { tmp \<leftarrow> read_le64 xs p; hi \<leftarrow> read_le64 xs (p + 8);
              xs \<leftarrow> write_be64 hi xs p; write_be64 tmp xs (p + 8) } = Some (pre @ be_bytes 16 v @ post)"
proof -
  have split: "le_bytes 16 v = le_bytes 8 v @ le_bytes 8 (drop_bit 64 v)"
    using le_bytes_add [of 8 8 v] by simp
  have lo: "read_le64 xs p = Some (ucast v)"
    using read_le64_at [of pre v] assms split by simp
  have hi: "read_le64 xs (p + 8) = Some (ucast (drop_bit 64 v))"
    using read_le64_at [of "pre @ le_bytes 8 v" "drop_bit 64 v" post] assms split by simp
  have w1: "write_be64 n xs p = Some (pre @ be_bytes 8 n @ le_bytes 8 (drop_bit 64 v) @ post)" for n
    using write_be64_at [of "le_bytes 8 v" n pre] assms split by simp
  have w2: "write_be64 m (pre @ be_bytes 8 n @ le_bytes 8 (drop_bit 64 v) @ post) (p + 8) =
      Some (pre @ be_bytes 8 n @ be_bytes 8 m @ post)" for n m
    using write_be64_at [of "le_bytes 8 (drop_bit 64 v)" m "pre @ be_bytes 8 n"] assms by simp
  show ?thesis by (simp add: lo hi w1 w2 be_bytes_128_halves)
qed

lemma array_bits:
  assumes "n < 2 ^ 24"
  shows "BTE_SDP_DE_ARRAY (of_nat n) AND 0xff000000 = 0xaa000000"
    and "BTE_SDP_DE_ARRAY (of_nat n) AND NOT 0xff000000 = of_nat n"
proof -
  let ?w = "of_nat n :: u32"
  have t: "take_bit 24 ?w = ?w"
    using assms by (simp add: take_bit_of_nat of_nat_take_bit take_bit_nat_eq_self)
  have hi: "\<not> bit ?w i" if "24 \<le> i" for i
    using that by (subst t [symmetric]) (simp add: bit_take_bit_iff)
  have m: "NOT (0xff000000 :: u32) = mask 24" by (simp add: mask_eq_exp_minus_1)
  have "(?w OR 0xaa000000) AND NOT 0xff000000 = take_bit 24 (?w OR 0xaa000000)"
    by (simp only: m take_bit_eq_mask)
  also have "\<dots> = ?w" by (simp only: take_bit_or t) simp
  finally show "BTE_SDP_DE_ARRAY ?w AND NOT 0xff000000 = ?w" by (simp add: BTE_SDP_DE_ARRAY_def)
  have "?w AND 0xff000000 = 0"
  proof (rule bit_word_eqI)
    fix i assume "i < LENGTH(32)"
    show "bit (?w AND 0xff000000) i = bit (0 :: u32) i"
    proof (cases "24 \<le> i")
      case True
      then show ?thesis using hi by (simp add: bit_and_iff)
    next
      case False
      have "(0xff000000 :: u32) = push_bit 24 0xff" by (simp add: push_bit_eq_mult)
      then show ?thesis using False by (simp only: bit_and_iff bit_push_bit_iff) simp
    qed
  qed
  then show "BTE_SDP_DE_ARRAY ?w AND 0xff000000 = 0xaa000000"
    by (simp add: BTE_SDP_DE_ARRAY_def bit.conj_disj_distrib2)
qed

definition de_next ::
    "nat \<Rightarrow> mem \<Rightarrow> nat option \<Rightarrow> int \<Rightarrow> u32 \<Rightarrow> va_list \<Rightarrow> nat \<Rightarrow> (u32 \<times> mem \<times> va_list) option" where
  "de_next depth buf dest remaining sz args n =
     (if depth = 0 then Some (sz + of_nat n, buf, args)
      else de_write depth buf (map_option (\<lambda>p. p + n) dest) (remaining - int n) (sz + of_nat n) args)"

lemma de_write_step:
  assumes "type \<noteq> BTE_SDP_DE_END" "type \<noteq> 0x30" "type \<noteq> 0x38"
    and "de_write_item buf dest remaining type args = Some (int n, buf', args')"
  shows "de_write depth buf dest remaining sz (Va_int type # args) = de_next depth buf' dest remaining sz args' n"
  using assms by (subst de_write.simps) (simp add: de_next_def)

lemma fixed_bytes_len: "fixed_bytes t a = Some bs \<Longrightarrow> t \<in> value_types \<and> length bs = fixed_len t"
  by (cases a) (auto simp: value_types_def fixed_len_def split: if_splits)

lemma de_write_128_room:
  assumes "p + nat remaining \<le> length buf" "remaining > 17"
  shows "\<exists>buf'. de_write_128 buf (Some p) remaining type v flip = Some (17, buf') \<and>
           stored buf p (ucast type # (if flip then be_bytes 16 v else le_bytes 16 v)) buf'"
proof -
  obtain b1 where b1: "de_write_num buf (Some p) remaining type (le_bytes 16 v) = Some (17, b1)"
      "stored buf p (ucast type # le_bytes 16 v) b1"
    using de_write_num_room [of p remaining buf "le_bytes 16 v" type] assms by auto
  show ?thesis
  proof (cases flip)
    case False
    with b1 show ?thesis by (auto simp: de_write_128_def)
  next
    case True
    from b1(2) obtain behind where b: "p + 17 + length behind = length buf"
        "b1 = take p buf @ (ucast type # le_bytes 16 v) @ behind" "drop 1 behind = drop (p + 18) buf"
      by (auto simp: stored_def ac_simps)
    let ?b2 = "take p buf @ (ucast type # be_bytes 16 v) @ behind"
    have "do { tmp \<leftarrow> read_le64 b1 (p + 1); hi \<leftarrow> read_le64 b1 (p + 1 + 8);
               xs \<leftarrow> write_be64 hi b1 (p + 1); write_be64 tmp xs (p + 1 + 8) } = Some ?b2"
      using flip_halves [of b1 "take p buf @ [ucast type]" v behind "p + 1"] b by simp
    then have "de_write_128 buf (Some p) remaining type v flip = Some (17, ?b2)"
      using b1(1) True assms(2) by (auto simp: de_write_128_def split: option.splits bind_splits)
    moreover have "stored buf p (ucast type # be_bytes 16 v) ?b2"
      unfolding stored_def using b by (intro exI [of _ behind]) (simp add: ac_simps)
    ultimately show ?thesis using True by simp
  qed
qed

lemma de_write_128_no_room:
  "remaining \<le> 17 \<Longrightarrow> de_write_128 buf dest remaining type v flip = Some (17, buf)"
  by (simp add: de_write_128_def de_write_num_no_room)

text \<open>The branch of the switch for a value of a fixed size, whatever its type.\<close>

fun value_write :: "mem \<Rightarrow> nat option \<Rightarrow> int \<Rightarrow> byte \<Rightarrow> va_arg \<Rightarrow> mem \<Rightarrow> (int \<times> mem) option" where
  "value_write buf dest remaining t (Va_uint128 v) bs = de_write_128 buf dest remaining (ucast t) v (t \<noteq> 0x1c)"
| "value_write buf dest remaining t a bs = de_write_num buf dest remaining (ucast t) bs"

lemma fixed_bytes_cases:
  assumes "fixed_bytes t a = Some bs"
  obtains v where "a = Va_int v" "t \<in> {0x10, 0x08}" "bs = [ucast v]"
  | v where "a = Va_int v" "t \<in> {0x11, 0x09, 0x19}" "bs = be_bytes 2 (ucast v :: u16)"
  | v where "a = Va_int v" "t \<in> {0x12, 0x0a, 0x1a}" "bs = be_bytes 4 v"
  | v where "a = Va_int v" "t \<in> {0x28}" "bs = [if v \<noteq> 0 then 1 else 0]"
  | v where "a = Va_uint64 v" "t \<in> {0x13, 0x0b}" "bs = be_bytes 8 v"
  | v where "a = Va_uint128 v" "t \<in> {0x14, 0x0c}" "bs = be_bytes 16 v"
  | v where "a = Va_uint128 v" "t \<in> {0x1c}" "bs = le_bytes 16 v"
  using assms by (cases a) (simp_all split: if_split_asm)

lemma item_value:
  assumes "fixed_bytes t a = Some bs"
  shows "de_write_item buf dest remaining (ucast t) (a # rest) =
     map_option (\<lambda>(r, b). (r, b, rest)) (value_write buf dest remaining t a bs)"
  using assms
  by (cases rule: fixed_bytes_cases)
     (elim insertE emptyE;
      simp add: de_write_item_def map_option_case split: option.split prod.split)+

lemma item_value_no_room:
  assumes "fixed_bytes t a = Some bs" "remaining \<le> 1 + int (length bs)"
  shows "de_write_item buf dest remaining (ucast t) (a # rest) = Some (1 + int (length bs), buf, rest)"
proof -
  have "value_write buf dest remaining t a bs = Some (1 + int (length bs), buf)"
    using assms by (cases rule: fixed_bytes_cases) (simp_all add: de_write_num_no_room de_write_128_no_room)
  then show ?thesis by (simp add: item_value [OF assms(1)])
qed

lemma item_value_room:
  assumes "fixed_bytes t a = Some bs" "p + nat remaining \<le> length buf" "remaining > 1 + int (length bs)"
  shows "\<exists>buf'. de_write_item buf (Some p) remaining (ucast t) (a # rest) = Some (1 + int (length bs), buf', rest) \<and>
           stored buf p (t # bs) buf'"
proof -
  have u: "ucast (ucast t :: u32) = t" by (rule bit_word_eqI) (simp add: bit_simps)
  have "\<exists>buf'. value_write buf (Some p) remaining t a bs = Some (1 + int (length bs), buf') \<and>
           stored buf p (t # bs) buf'"
    using assms(1)
  proof (cases rule: fixed_bytes_cases)
    case (6 v)
    then show ?thesis
      using de_write_128_room [OF assms(2), of "ucast t" v True] assms(3) by auto
  next
    case (7 v)
    then show ?thesis
      using de_write_128_room [OF assms(2), of "ucast t" v False] assms(3) by auto
  qed (use de_write_num_room [OF assms(2,3), of "ucast t"] in \<open>simp_all only: u value_write.simps\<close>)
  then show ?thesis by (auto simp: item_value [OF assms(1)])
qed

lemma strlen_eq: "0 \<in> set s \<Longrightarrow> strlen s = Some (length (string_bytes s))"
  by (simp add: strlen_def string_bytes_def)

lemma take_string_bytes: "take (length (string_bytes s)) s = string_bytes s"
  unfolding string_bytes_def by (rule takeWhile_eq_take [symmetric])

lemma put2_stored:
  assumes "p + 1 + length bs \<le> length buf"
  shows "\<exists>b1 b2. de_put buf (Some p) 0 [b] = Some b1 \<and> de_put b1 (Some p) 1 bs = Some b2 \<and> stored buf p (b # bs) b2"
proof -
  obtain b1 where b1: "de_put buf (Some p) 0 [b] = Some b1" "stored buf p [b] b1"
    using put_stored [of p 0 "[b]" buf] assms by auto
  obtain b2 where b2: "de_put b1 (Some p) 1 bs = Some b2" "stored b1 (p + 1) bs b2"
    using put_stored [of p 1 bs b1] assms stored_len [OF b1(2)] by auto
  show ?thesis using b1 b2 stored_append [OF b1(2), of bs b2] by auto
qed

lemma string_type_not:
  "string_type type \<Longrightarrow> type \<noteq> 0xffffffff \<and> type \<noteq> 0x30 \<and> type \<noteq> 0x38"
  by (auto simp: string_type_def)

lemma item_string_eq:
  assumes "string_type type" "0 \<in> set s" "var_size (length (string_bytes s)) = (size_id, h, lb)"
  shows "de_write_item buf dest remaining type (Va_str s # rest) =
     (if remaining > int h + int (length (string_bytes s))
      then do { buf \<leftarrow> de_put buf dest 0 [ucast type OR size_id];
                buf \<leftarrow> de_put buf dest 1 lb;
                buf \<leftarrow> de_put buf dest h (string_bytes s);
                Some (int h + int (length (string_bytes s)), buf, rest) }
      else Some (int h + int (length (string_bytes s)), buf, rest))"
proof -
  have "type = 0x20 \<or> type = 0x40" using assms(1) by (simp add: string_type_def)
  then show ?thesis
    by (rule disjE) (simp_all add: de_write_item_def strlen_eq assms(2,3) take_string_bytes string_type_def)
qed

lemma item_string_room:
  assumes "string_type type" "0 \<in> set s" "p + nat remaining \<le> length buf"
    "remaining > int (length (encode (De_str (ucast type) (string_bytes s))))"
  shows "\<exists>buf'. de_write_item buf (Some p) remaining type (Va_str s # rest) =
             Some (int (length (encode (De_str (ucast type) (string_bytes s)))), buf', rest) \<and>
           stored buf p (encode (De_str (ucast type) (string_bytes s))) buf'"
proof -
  obtain size_id h lb where v: "var_size (length (string_bytes s)) = (size_id, h, lb)"
    by (cases "var_size (length (string_bytes s))") auto
  note hd = de_header_len [OF v, of "ucast type"]
  let ?n = "length (string_bytes s)"
  have len: "length (encode (De_str (ucast type) (string_bytes s))) = h + ?n" using hd by simp
  have room: "p + h + ?n \<le> length buf" using assms(3,4) len by linarith
  then have "p + 1 + length lb \<le> length buf" using hd by linarith
  then obtain b1 b2 where b: "de_put buf (Some p) 0 [ucast type OR size_id] = Some b1"
      "de_put b1 (Some p) 1 lb = Some b2" "stored buf p ((ucast type OR size_id) # lb) b2"
    using put2_stored [of p lb buf "ucast type OR size_id"] by auto
  obtain b3 where b3: "de_put b2 (Some p) h (string_bytes s) = Some b3" "stored b2 (p + h) (string_bytes s) b3"
    using put_stored [of p h "string_bytes s" b2] room stored_len [OF b(3)] by auto
  have "stored buf p (encode (De_str (ucast type) (string_bytes s))) b3"
    using stored_append [OF b(3), of "string_bytes s" b3] b3(2) hd by (auto simp: add.commute)
  then show ?thesis
    using assms(4) len b b3(1) by (simp add: item_string_eq [OF assms(1,2) v])
qed

lemma item_string_no_room:
  assumes "string_type type" "0 \<in> set s"
    "remaining \<le> int (length (encode (De_str (ucast type) (string_bytes s))))"
  shows "de_write_item buf dest remaining type (Va_str s # rest) =
    Some (int (length (encode (De_str (ucast type) (string_bytes s)))), buf, rest)"
proof -
  obtain size_id h lb where v: "var_size (length (string_bytes s)) = (size_id, h, lb)"
    by (cases "var_size (length (string_bytes s))") auto
  show ?thesis using de_header_len [OF v, of "ucast type"] assms(3) by (simp add: item_string_eq [OF assms(1,2) v])
qed

lemma fixed_write_stored:
  assumes "list_all (\<lambda>v. length v = sz) vs" "p + length vs * (1 + sz) \<le> length buf"
  shows "\<exists>buf'. fixed_write (length vs) t sz (concat vs) buf p = Some buf' \<and>
           stored buf p (concat (map (\<lambda>v. t # rev v) vs)) buf'"
  using assms
proof (induction vs arbitrary: buf p)
  case Nil
  then show ?case by (simp add: stored_nil)
next
  case (Cons v vs)
  have "p + length (t # rev v) \<le> length buf" using Cons.prems by simp
  then obtain b1 where b1: "wr buf p (t # rev v) = Some b1" by (simp add: wr_def)
  have s1: "stored buf p (t # rev v) b1" by (rule stored_wr [OF b1])
  have "p + 1 + sz + length vs * (1 + sz) \<le> length b1" using Cons.prems stored_len [OF s1] by simp
  then obtain b2 where b2: "fixed_write (length vs) t sz (concat vs) b1 (p + 1 + sz) = Some b2"
      "stored b1 (p + 1 + sz) (concat (map (\<lambda>v. t # rev v) vs)) b2"
    using Cons.IH [of "p + 1 + sz" b1] Cons.prems by auto
  have "stored buf p ((t # rev v) @ concat (map (\<lambda>v. t # rev v) vs)) b2"
    using stored_append [OF s1, of "concat (map (\<lambda>v. t # rev v) vs)" b2] b2(2) Cons.prems by (simp add: add.assoc)
  then show ?case using Cons.prems b1 b2(1) by (simp add: slice_def)
qed

lemma string_write_stored:
  assumes v: "var_size (length sb) = (size_id, h, lb)" and room: "p + h + length sb + 1 \<le> length buf"
  shows "\<exists>b1 b2 b3. wr buf (p + 1) lb = Some b1 \<and> wr b1 p [t OR size_id] = Some b2 \<and>
           wr b2 (p + h) (sb @ [0]) = Some b3 \<and> stored buf p (encode (De_str t sb)) b3"
proof -
  note hd = de_header_len [OF v, of t]
  let ?x = "t OR size_id"
  let ?b1 = "take (p + 1) buf @ lb @ drop (p + h) buf"
  let ?b2 = "take p buf @ (?x # lb) @ drop (p + h) buf"
  let ?b3 = "take p buf @ (?x # lb) @ sb @ 0 # drop (p + h + length sb + 1) buf"
  have w1: "wr buf (p + 1) lb = Some ?b1" using hd room by (simp add: wr_def) (metis add.commute add_Suc_right)
  have t: "take (p + 1) buf = take p buf @ [buf ! p]" using room by (simp add: take_Suc_conv_app_nth)
  have w2: "wr ?b1 p [?x] = Some ?b2" using room by (simp add: wr_def t)
  have w3: "wr ?b2 (p + h) (sb @ [0]) = Some ?b3"
    using hd room by (auto simp: wr_def min_def ac_simps)
  have "stored buf p (encode (De_str t sb)) ?b3"
    unfolding stored_def using hd room
    by (intro exI [of _ "0 # drop (p + h + length sb + 1) buf"]) (auto simp: ac_simps)
  with w1 w2 w3 show ?thesis by blast
qed

lemma strings_size_eq:
  "list_all (\<lambda>s. 0 \<in> set s) ss \<Longrightarrow>
   strings_size (length ss) ss sz = Some (sz + int (length (encodes (map (\<lambda>s. De_str t (string_bytes s)) ss))))"
proof (induction ss arbitrary: sz)
  case Nil
  then show ?case by simp
next
  case (Cons s ss)
  obtain size_id h lb where v: "var_size (length (string_bytes s)) = (size_id, h, lb)"
    by (cases "var_size (length (string_bytes s))") auto
  show ?case using de_header_len [OF v, of t] Cons by (simp add: strlen_eq v)
qed

lemma strings_write_stored:
  "list_all (\<lambda>s. 0 \<in> set s) ss \<Longrightarrow>
   p + length (encodes (map (\<lambda>s. De_str t (string_bytes s)) ss)) + 1 \<le> length buf \<Longrightarrow>
   \<exists>buf'. strings_write (length ss) t ss buf p = Some buf' \<and>
     stored buf p (encodes (map (\<lambda>s. De_str t (string_bytes s)) ss)) buf'"
proof (induction ss arbitrary: buf p)
  case Nil
  then show ?case by (simp add: stored_nil)
next
  case (Cons s ss)
  let ?sb = "string_bytes s" and ?E = "encodes (map (\<lambda>s. De_str t (string_bytes s)) ss)"
  obtain size_id h lb where v: "var_size (length ?sb) = (size_id, h, lb)"
    by (cases "var_size (length ?sb)") auto
  note hd = de_header_len [OF v, of t]
  have room: "p + h + length ?sb + length ?E + 1 \<le> length buf" using Cons.prems(2) hd by simp
  then obtain b1 b2 b3 where b: "wr buf (p + 1) lb = Some b1" "wr b1 p [t OR size_id] = Some b2"
      "wr b2 (p + h) (?sb @ [0]) = Some b3" "stored buf p (encode (De_str t ?sb)) b3"
    using string_write_stored [OF v, of p buf t] by auto
  have "p + h + length ?sb + length ?E + 1 \<le> length b3" using room stored_len [OF b(4)] by simp
  then obtain b4 where b4: "strings_write (length ss) t ss b3 (p + h + length ?sb) = Some b4"
      "stored b3 (p + h + length ?sb) ?E b4"
    using Cons.IH [of "p + h + length ?sb" b3] Cons.prems(1) by auto
  have "stored buf p (encode (De_str t ?sb) @ ?E) b4"
    using stored_append [OF b(4), of ?E b4] b4(2) hd by (auto simp: add.assoc)
  then show ?case
    using Cons.prems(1) b b4(1) v by (simp add: strlen_eq take_string_bytes)
qed

lemma array_type_ne:
  assumes "(type :: u32) AND 0xff000000 = 0xaa000000"
  shows "type \<noteq> 0xffffffff" "type \<noteq> 0" "type \<noteq> 0x08" "type \<noteq> 0x09" "type \<noteq> 0x0a" "type \<noteq> 0x0b"
    "type \<noteq> 0x0c" "type \<noteq> 0x10" "type \<noteq> 0x11" "type \<noteq> 0x12" "type \<noteq> 0x13" "type \<noteq> 0x14" "type \<noteq> 0x19"
    "type \<noteq> 0x1a" "type \<noteq> 0x1c" "type \<noteq> 0x20" "type \<noteq> 0x28" "type \<noteq> 0x30" "type \<noteq> 0x38" "type \<noteq> 0x40"
  using assms by auto

lemma item_array_eq:
  assumes "type AND 0xff000000 = 0xaa000000" "type AND NOT 0xff000000 = count"
    "de_array_size count t elements = Some req"
  shows "de_write_item buf dest remaining type (Va_int t # elements # rest) =
     (if remaining > req
      then do { p \<leftarrow> dest; buf \<leftarrow> de_array_write buf p count t elements; Some (req, buf, rest) }
      else Some (req, buf, rest))"
  using assms array_type_ne [OF assms(1)] by (simp add: de_write_item_def string_type_def)

lemma value_type_size:
  "t \<in> value_types \<Longrightarrow> bte_sdp_de_get_total_size [t] = Some (of_nat (1 + fixed_len t)) \<and> fixed_type (ucast t) \<and>
     fixed_len t = 2 ^ unat (t AND 7)"
  by (auto simp: value_types_def bte_sdp_de_get_total_size_def bte_sdp_de_get_header_size_def
      bte_sdp_de_get_data_size_def rd8_def fixed_len_def fixed_type_def push_bit_eq_mult)

lemma array_values_len:
  "list_all (\<lambda>v. length v = n) vs \<Longrightarrow>
   length (encodes (map (\<lambda>v. De_fixed t (rev v)) vs)) = (1 + n) * length vs"
  by (induction vs) simp_all

lemma encodes_values: "encodes (map (\<lambda>v. De_fixed t (rev v)) vs) = concat (map (\<lambda>v. t # rev v) vs)"
  by (induction vs) simp_all

lemma array_values_size:
  assumes "t \<in> value_types" "list_all (\<lambda>v. length v = fixed_len t) vs"
    "length (encodes (map (\<lambda>v. De_fixed t (rev v)) vs)) < 2 ^ 32"
  shows "de_array_size (of_nat (length vs)) (ucast t) a =
    Some (int (length (encodes (map (\<lambda>v. De_fixed t (rev v)) vs))))"
proof -
  let ?n = "(1 + fixed_len t) * length vs"
  have "?n < 2 ^ 32" using assms array_values_len [OF assms(2), of t] by simp
  then have "uint ((of_nat (1 + fixed_len t) * of_nat (length vs)) :: u32) = int ?n"
    by (simp only: of_nat_mult [symmetric] uint_nat unat_of_nat) (simp add: take_bit_eq_mod)
  then show ?thesis
    using value_type_size [OF assms(1)] array_values_len [OF assms(2), of t] by simp
qed

text \<open>
  What the code does with the arguments of one item, in one round of the loop: it advances by the
  length of the encoding, and stores the encoding when there is room for it and one more byte.
\<close>

definition writes_item :: "va_list \<Rightarrow> de list \<Rightarrow> bool" where
  "writes_item a ds \<longleftrightarrow> (length (encodes ds) < 2 ^ 32 \<longrightarrow>
     (\<forall>depth buf dest remaining sz rest. remaining \<le> int (length (encodes ds)) \<longrightarrow>
        de_write depth buf dest remaining sz (a @ rest) =
          de_next depth buf dest remaining sz rest (length (encodes ds))) \<and>
     (\<forall>depth buf p remaining sz rest. remaining > int (length (encodes ds)) \<and> p + nat remaining \<le> length buf \<longrightarrow>
        (\<exists>buf'. stored buf p (encodes ds) buf' \<and>
           de_write depth buf (Some p) remaining sz (a @ rest) =
             de_next depth buf' (Some p) remaining sz rest (length (encodes ds)))))"

definition writes_args :: "va_list \<Rightarrow> de list \<Rightarrow> bool" where
  "writes_args as ds \<longleftrightarrow> (length (encodes ds) < 2 ^ 32 \<longrightarrow>
     (\<forall>depth buf dest remaining sz rest. remaining \<le> 0 \<longrightarrow>
        de_write (Suc depth) buf dest remaining sz (as @ Va_int BTE_SDP_DE_END # rest) =
          Some (sz + of_nat (length (encodes ds)), buf, rest)) \<and>
     (\<forall>depth buf p remaining sz rest. remaining > int (length (encodes ds)) \<and> p + nat remaining \<le> length buf \<longrightarrow>
        (\<exists>buf'. stored buf p (encodes ds) buf' \<and>
           de_write (Suc depth) buf (Some p) remaining sz (as @ Va_int BTE_SDP_DE_END # rest) =
             Some (sz + of_nat (length (encodes ds)), buf', rest))))"

text \<open>An item whose branch of the switch is \<^verbatim>\<open>de_write_item\<close>.\<close>

lemma writes_itemI:
  assumes "type \<noteq> 0xffffffff" "type \<noteq> 0x30" "type \<noteq> 0x38"
    and no_room: "\<And>buf dest remaining rest. length (encodes ds) < 2 ^ 32 \<Longrightarrow>
        remaining \<le> int (length (encodes ds)) \<Longrightarrow>
        de_write_item buf dest remaining type (a @ rest) = Some (int (length (encodes ds)), buf, rest)"
    and room: "\<And>buf p remaining rest. length (encodes ds) < 2 ^ 32 \<Longrightarrow>
        remaining > int (length (encodes ds)) \<Longrightarrow> p + nat remaining \<le> length buf \<Longrightarrow>
        \<exists>buf'. de_write_item buf (Some p) remaining type (a @ rest) = Some (int (length (encodes ds)), buf', rest) \<and>
          stored buf p (encodes ds) buf'"
  shows "writes_item (Va_int type # a) ds"
  unfolding writes_item_def
proof (intro impI conjI allI)
  fix depth buf dest remaining sz rest
  assume "length (encodes ds) < 2 ^ 32" "remaining \<le> int (length (encodes ds))"
  then show "de_write depth buf dest remaining sz ((Va_int type # a) @ rest) =
      de_next depth buf dest remaining sz rest (length (encodes ds))"
    using de_write_step [OF assms(1-3) no_room] by simp
next
  fix depth and buf :: mem and p and remaining :: int and sz rest
  assume l: "length (encodes ds) < 2 ^ 32"
    and r: "remaining > int (length (encodes ds)) \<and> p + nat remaining \<le> length buf"
  then obtain buf' where b: "de_write_item buf (Some p) remaining type (a @ rest) =
        Some (int (length (encodes ds)), buf', rest)" "stored buf p (encodes ds) buf'"
    using room [of remaining p buf rest] by blast
  show "\<exists>buf'. stored buf p (encodes ds) buf' \<and>
      de_write depth buf (Some p) remaining sz ((Va_int type # a) @ rest) =
        de_next depth buf' (Some p) remaining sz rest (length (encodes ds))"
    using de_write_step [OF assms(1-3) b(1)] b(2) by auto
qed

lemma writes_value:
  assumes "fixed_bytes t a = Some bs"
  shows "writes_item [Va_int (ucast t), a] [De_fixed t bs]"
proof (rule writes_itemI)
  show "(ucast t :: u32) \<noteq> 0xffffffff" "(ucast t :: u32) \<noteq> 0x30" "(ucast t :: u32) \<noteq> 0x38"
    using fixed_bytes_len [OF assms] by (auto simp: value_types_def)
qed (use item_value_no_room [OF assms] item_value_room [OF assms] in auto)

lemma writes_nil: "writes_item [Va_int (ucast BTE_SDP_DE_TYPE_NIL)] [De_fixed BTE_SDP_DE_TYPE_NIL []]"
proof (rule writes_itemI)
  fix buf :: mem and p and remaining :: int and rest
  assume "remaining > int (length (encodes [De_fixed BTE_SDP_DE_TYPE_NIL []]))" "p + nat remaining \<le> length buf"
  then show "\<exists>buf'. de_write_item buf (Some p) remaining (ucast BTE_SDP_DE_TYPE_NIL) ([] @ rest) =
      Some (int (length (encodes [De_fixed BTE_SDP_DE_TYPE_NIL []])), buf', rest) \<and>
      stored buf p (encodes [De_fixed BTE_SDP_DE_TYPE_NIL []]) buf'"
    using de_write_num_room [of p remaining buf "[]" 0] by (auto simp: de_write_item_def)
qed (auto simp: de_write_item_def de_write_num_no_room)

lemma writes_string:
  assumes "t \<in> {BTE_SDP_DE_TYPE_STRING, BTE_SDP_DE_TYPE_URL}" "0 \<in> set s"
  shows "writes_item [Va_int (ucast t), Va_str s] [De_str t (string_bytes s)]"
proof (rule writes_itemI)
  have st: "string_type (ucast t)" using assms(1) by (auto simp: string_type_def)
  show "(ucast t :: u32) \<noteq> 0xffffffff" "(ucast t :: u32) \<noteq> 0x30" "(ucast t :: u32) \<noteq> 0x38"
    using string_type_not [OF st] by auto
  show "de_write_item buf dest remaining (ucast t) ([Va_str s] @ rest) =
      Some (int (length (encodes [De_str t (string_bytes s)])), buf, rest)"
    if "remaining \<le> int (length (encodes [De_str t (string_bytes s)]))" for buf dest remaining rest
    using item_string_no_room [OF st assms(2), of remaining] that by simp
  show "\<exists>buf'. de_write_item buf (Some p) remaining (ucast t) ([Va_str s] @ rest) =
      Some (int (length (encodes [De_str t (string_bytes s)])), buf', rest) \<and>
      stored buf p (encodes [De_str t (string_bytes s)]) buf'"
    if "remaining > int (length (encodes [De_str t (string_bytes s)]))" "p + nat remaining \<le> length buf"
    for buf p remaining rest
    using item_string_room [OF st assms(2) that(2)] that(1) by simp
qed

lemma writes_array:
  assumes "n < 2 ^ 24"
    and size: "length (encodes ds) < 2 ^ 32 \<Longrightarrow> de_array_size (of_nat n) t a = Some (int (length (encodes ds)))"
    and wr: "\<And>p buf. length (encodes ds) < 2 ^ 32 \<Longrightarrow> p + length (encodes ds) + 1 \<le> length buf \<Longrightarrow>
        \<exists>buf'. de_array_write buf p (of_nat n) t a = Some buf' \<and> stored buf p (encodes ds) buf'"
  shows "writes_item [Va_int (BTE_SDP_DE_ARRAY (of_nat n)), Va_int t, a] ds"
proof (rule writes_itemI)
  note b = array_bits [OF assms(1)] and ne = array_type_ne [OF array_bits(1) [OF assms(1)]]
  show "BTE_SDP_DE_ARRAY (of_nat n) \<noteq> 0xffffffff" "BTE_SDP_DE_ARRAY (of_nat n) \<noteq> 0x30"
    "BTE_SDP_DE_ARRAY (of_nat n) \<noteq> 0x38" by (fact ne)+
  show "de_write_item buf dest remaining (BTE_SDP_DE_ARRAY (of_nat n)) ([Va_int t, a] @ rest) =
      Some (int (length (encodes ds)), buf, rest)"
    if "length (encodes ds) < 2 ^ 32" "remaining \<le> int (length (encodes ds))" for buf dest remaining rest
    using item_array_eq [OF b size [OF that(1)]] that(2) by simp
  show "\<exists>buf'. de_write_item buf (Some p) remaining (BTE_SDP_DE_ARRAY (of_nat n)) ([Va_int t, a] @ rest) =
      Some (int (length (encodes ds)), buf', rest) \<and> stored buf p (encodes ds) buf'"
    if "length (encodes ds) < 2 ^ 32" "remaining > int (length (encodes ds))" "p + nat remaining \<le> length buf"
    for buf p remaining rest
  proof -
    have "p + length (encodes ds) + 1 \<le> length buf" using that by linarith
    from wr [OF that(1) this] show ?thesis
      using item_array_eq [OF b size [OF that(1)]] that(2) by auto
  qed
qed

lemma writes_values:
  assumes "t \<in> value_types" "list_all (\<lambda>v. length v = fixed_len t) vs" "length vs < 2 ^ 24"
  shows "writes_item [Va_int (BTE_SDP_DE_ARRAY (of_nat (length vs))), Va_int (ucast t), Va_mem (concat vs)]
      (map (\<lambda>v. De_fixed t (rev v)) vs)"
proof (rule writes_array [OF assms(3)])
  let ?ds = "map (\<lambda>v. De_fixed t (rev v)) vs"
  show "de_array_size (of_nat (length vs)) (ucast t) (Va_mem (concat vs)) = Some (int (length (encodes ?ds)))"
    if "length (encodes ?ds) < 2 ^ 32" by (rule array_values_size [OF assms(1,2) that])
  show "\<exists>buf'. de_array_write buf p (of_nat (length vs)) (ucast t) (Va_mem (concat vs)) = Some buf' \<and>
      stored buf p (encodes ?ds) buf'" if "p + length (encodes ?ds) + 1 \<le> length buf" for p buf
  proof -
    have "unat (of_nat (length vs) :: u32) = length vs"
      using assms(3) by (simp add: unat_of_nat take_bit_eq_mod)
    moreover have "p + length vs * (1 + fixed_len t) \<le> length buf"
      using that array_values_len [OF assms(2), of t] by (simp add: algebra_simps)
    ultimately show ?thesis
      using fixed_write_stored [OF assms(2), of p buf t] value_type_size [OF assms(1)]
      by (simp add: encodes_values del: map_map)
  qed
qed

lemma writes_strings:
  assumes "t \<in> {BTE_SDP_DE_TYPE_STRING, BTE_SDP_DE_TYPE_URL}" "list_all (\<lambda>s. 0 \<in> set s) ss" "length ss < 2 ^ 24"
  shows "writes_item [Va_int (BTE_SDP_DE_ARRAY (of_nat (length ss))), Va_int (ucast t), Va_strs ss]
      (map (\<lambda>s. De_str t (string_bytes s)) ss)"
proof (rule writes_array [OF assms(3)])
  let ?ds = "map (\<lambda>s. De_str t (string_bytes s)) ss"
  have n: "unat (of_nat (length ss) :: u32) = length ss"
    using assms(3) by (simp add: unat_of_nat take_bit_eq_mod)
  have st: "\<not> fixed_type (ucast t)" "string_type (ucast t)"
    using assms(1) by (auto simp: fixed_type_def string_type_def)
  show "de_array_size (of_nat (length ss)) (ucast t) (Va_strs ss) = Some (int (length (encodes ?ds)))"
    using strings_size_eq [OF assms(2), of 0 t] n st by simp
  show "\<exists>buf'. de_array_write buf p (of_nat (length ss)) (ucast t) (Va_strs ss) = Some buf' \<and>
      stored buf p (encodes ?ds) buf'" if "p + length (encodes ?ds) + 1 \<le> length buf" for p buf
    using strings_write_stored [OF assms(2), of p t buf] that n st by simp
qed

lemma writes_args_nil: "writes_args [] []"
  unfolding writes_args_def by (auto simp: stored_nil de_write.simps)

lemma writes_args_item:
  assumes "writes_item a ds" "writes_args as ds'"
  shows "writes_args (a @ as) (ds @ ds')"
  unfolding writes_args_def
proof (intro impI conjI allI)
  fix depth buf dest remaining sz rest
  assume "length (encodes (ds @ ds')) < 2 ^ 32" and r: "remaining \<le> (0 :: int)"
  then have l: "length (encodes ds) < 2 ^ 32" "length (encodes ds') < 2 ^ 32" by simp_all
  have r1: "remaining \<le> int (length (encodes ds))" "remaining - int (length (encodes ds)) \<le> 0" using r by linarith+
  show "de_write (Suc depth) buf dest remaining sz ((a @ as) @ Va_int BTE_SDP_DE_END # rest) =
      Some (sz + of_nat (length (encodes (ds @ ds'))), buf, rest)"
    using assms l r1 unfolding writes_item_def writes_args_def by (simp add: de_next_def ac_simps)
next
  fix depth and buf :: mem and p and remaining :: int and sz rest
  assume "length (encodes (ds @ ds')) < 2 ^ 32"
    and r: "remaining > int (length (encodes (ds @ ds'))) \<and> p + nat remaining \<le> length buf"
  then have l: "length (encodes ds) < 2 ^ 32" "length (encodes ds') < 2 ^ 32" by simp_all
  let ?n = "length (encodes ds)" and ?tail = "as @ Va_int BTE_SDP_DE_END # rest"
  have "remaining > int ?n \<and> p + nat remaining \<le> length buf" using r by simp
  then obtain b1 where b1: "stored buf p (encodes ds) b1"
      "de_write (Suc depth) buf (Some p) remaining sz (a @ ?tail) = de_next (Suc depth) b1 (Some p) remaining sz ?tail ?n"
    using assms(1) l(1) unfolding writes_item_def by blast
  have "remaining - int ?n > int (length (encodes ds')) \<and> p + ?n + nat (remaining - int ?n) \<le> length b1"
    using r stored_len [OF b1(1)] by auto
  then obtain b2 where b2: "stored b1 (p + ?n) (encodes ds') b2"
      "de_write (Suc depth) b1 (Some (p + ?n)) (remaining - int ?n) (sz + of_nat ?n) ?tail =
         Some (sz + of_nat ?n + of_nat (length (encodes ds')), b2, rest)"
    using assms(2) l(2) unfolding writes_args_def by blast
  have "stored buf p (encodes (ds @ ds')) b2" using stored_append [OF b1(1) b2(1)] by simp
  moreover have "de_write (Suc depth) buf (Some p) remaining sz ((a @ as) @ Va_int BTE_SDP_DE_END # rest) =
      Some (sz + of_nat (length (encodes (ds @ ds'))), b2, rest)"
    using b1(2) b2(2) by (simp add: de_next_def ac_simps)
  ultimately show "\<exists>buf'. stored buf p (encodes (ds @ ds')) buf' \<and>
      de_write (Suc depth) buf (Some p) remaining sz ((a @ as) @ Va_int BTE_SDP_DE_END # rest) =
        Some (sz + of_nat (length (encodes (ds @ ds'))), buf', rest)" by blast
qed

lemma de_write_seq_step:
  assumes "type = 0x30 \<or> type = 0x38"
    and "de_write (Suc depth) buf None 0 0 args = Some (of_nat n, buf1, args')"
    and "var_size n = (size_id, h, lb)" "h + n < 2 ^ 32"
  shows "de_write depth buf dest remaining sz (Va_int type # args) =
    (if remaining > int (h + n) then
       do { buf \<leftarrow> de_put buf dest 0 [ucast type OR size_id];
            buf \<leftarrow> de_put buf dest 1 lb;
            p \<leftarrow> dest;
            (_, buf, _) \<leftarrow> de_write (Suc depth) buf (Some (p + h)) (remaining - int h) 0 args;
            de_next depth buf dest remaining sz args' (h + n) }
     else de_next depth buf dest remaining sz args' (h + n))"
proof -
  have n: "unat (of_nat n :: u32) = n" using assms(4) by (simp add: unat_of_nat take_bit_eq_mod)
  have "(of_nat h + of_nat n :: u32) = of_nat (h + n)" by simp
  then have u: "uint (of_nat h + of_nat n :: u32) = int (h + n)"
    using assms(4) by (simp only: uint_nat unat_of_nat) (simp add: take_bit_eq_mod)
  have w: "(word_of_int (int h + int n) :: u32) = of_nat h + of_nat n" by simp
  show ?thesis
    using assms(1)
    by (subst de_write.simps)
       (elim disjE; simp add: assms(2,3) n u w de_next_def nat_int_add case_prod_unfold)
qed

lemma writes_seq:
  assumes "t \<in> {BTE_SDP_DE_TYPE_SEQUENCE, BTE_SDP_DE_TYPE_CHOICE}" "writes_args as ds"
  shows "writes_item (Va_int (ucast t) # as @ [Va_int BTE_SDP_DE_END]) [De_seq t ds]"
  unfolding writes_item_def
proof (intro impI conjI allI)
  let ?n = "length (encodes ds)"
  obtain size_id h lb where v: "var_size ?n = (size_id, h, lb)" by (cases "var_size ?n") auto
  note hd = de_header_len [OF v, of t]
  have len: "length (encodes [De_seq t ds]) = h + ?n" using hd by (simp add: Let_def)
  have ty: "(ucast t :: u32) = 0x30 \<or> (ucast t :: u32) = 0x38" using assms(1) by auto
  assume "length (encodes [De_seq t ds]) < 2 ^ 32"
  then have l: "h + ?n < 2 ^ 32" "?n < 2 ^ 32" using len by simp_all
  have inner: "de_write (Suc depth) buf None 0 0 ((as @ [Va_int BTE_SDP_DE_END]) @ rest) = Some (of_nat ?n, buf, rest)"
    for depth buf rest using assms(2) l(2) unfolding writes_args_def by simp
  note step = de_write_seq_step [OF ty inner v l(1)]
  fix depth and buf :: mem and rest
  {
    fix dest remaining sz
    assume "remaining \<le> int (length (encodes [De_seq t ds]))"
    then show "de_write depth buf dest remaining sz ((Va_int (ucast t) # as @ [Va_int BTE_SDP_DE_END]) @ rest) =
        de_next depth buf dest remaining sz rest (length (encodes [De_seq t ds]))"
      using step [of depth buf dest remaining sz rest] len by simp
  next
    fix p and remaining :: int and sz
    assume r: "remaining > int (length (encodes [De_seq t ds])) \<and> p + nat remaining \<le> length buf"
    then have "p + 1 + length lb \<le> length buf" using len hd by linarith
    then obtain b1 b2 where b: "de_put buf (Some p) 0 [t OR size_id] = Some b1"
        "de_put b1 (Some p) 1 lb = Some b2" "stored buf p ((t OR size_id) # lb) b2"
      using put2_stored [of p lb buf "t OR size_id"] by auto
    have "remaining - int h > int ?n \<and> p + h + nat (remaining - int h) \<le> length b2"
      using r len stored_len [OF b(3)] by auto
    then obtain b3 where b3: "stored b2 (p + h) (encodes ds) b3"
        "de_write (Suc depth) b2 (Some (p + h)) (remaining - int h) 0 (as @ Va_int BTE_SDP_DE_END # rest) =
           Some (of_nat ?n, b3, rest)"
      using assms(2) l(2) unfolding writes_args_def by (metis add_0)
    have "stored buf p (encodes [De_seq t ds]) b3"
      using stored_append [OF b(3), of "encodes ds" b3] b3(1) hd by (auto simp: Let_def)
    moreover have "de_write depth buf (Some p) remaining sz ((Va_int (ucast t) # as @ [Va_int BTE_SDP_DE_END]) @ rest) =
        de_next depth b3 (Some p) remaining sz rest (length (encodes [De_seq t ds]))"
      using step [of depth buf "Some p" remaining sz rest] r len b b3 by simp
    ultimately show "\<exists>buf'. stored buf p (encodes [De_seq t ds]) buf' \<and>
        de_write depth buf (Some p) remaining sz ((Va_int (ucast t) # as @ [Va_int BTE_SDP_DE_END]) @ rest) =
          de_next depth buf' (Some p) remaining sz rest (length (encodes [De_seq t ds]))" by blast
  }
qed

lemma de_item_writes: "de_item a ds \<Longrightarrow> writes_item a ds"
  and de_args_writes: "de_args as ds \<Longrightarrow> writes_args as ds"
  by (induction rule: de_item_de_args.inducts)
     (blast intro: writes_nil writes_value writes_string writes_seq writes_values writes_strings
        writes_args_nil writes_args_item)+

lemma write_room:
  assumes "de_item as ds" "length (encodes ds) < 2 ^ 32" "length (encodes ds) < n" "n \<le> length buf"
  shows "\<exists>buf'. bte_sdp_de_write (Some buf) n as = Some (of_nat (length (encodes ds)), buf') \<and>
           stored buf 0 (encodes ds) buf'"
proof -
  have "int n > int (length (encodes ds)) \<and> 0 + nat (int n) \<le> length buf" using assms(3,4) by simp
  then obtain buf' where "stored buf 0 (encodes ds) buf'"
      "de_write 0 buf (Some 0) (int n) 0 (as @ []) = de_next 0 buf' (Some 0) (int n) 0 [] (length (encodes ds))"
    using de_item_writes [OF assms(1)] assms(2) unfolding writes_item_def by blast
  then show ?thesis by (auto simp: bte_sdp_de_write_def de_next_def)
qed

lemma write_no_room:
  assumes "de_item as ds" "length (encodes ds) < 2 ^ 32" "remaining \<le> int (length (encodes ds))"
  shows "de_write 0 buf dest remaining 0 as = Some (of_nat (length (encodes ds)), buf, [])"
proof -
  have "de_write 0 buf dest remaining 0 (as @ []) = de_next 0 buf dest remaining 0 [] (length (encodes ds))"
    using de_item_writes [OF assms(1)] assms(2,3) unfolding writes_item_def by blast
  then show ?thesis by (simp add: de_next_def)
qed

text \<open>
  \<^verbatim>\<open>bte_sdp_de_write\<close> writes the encoding of what its arguments stand for and returns its
  length, for values of every type, strings, arrays and sequences nested to any depth. Without a
  buffer it returns the length only. It stays within the buffer; a buffer that has no byte to spare
  behind the encoding is left as it was, although the length is returned as well.
\<close>

theorem bte_sdp_de_write_correct:
  assumes "de_item as ds" "length (encodes ds) < 2 ^ 32"
  shows "bte_sdp_de_write None n as = Some (of_nat (length (encodes ds)), []) \<and>
    (n \<le> length (encodes ds) \<longrightarrow>
       bte_sdp_de_write (Some buf) n as = Some (of_nat (length (encodes ds)), buf)) \<and>
    (length (encodes ds) < n \<and> n \<le> length buf \<longrightarrow>
       (\<exists>buf'. bte_sdp_de_write (Some buf) n as = Some (of_nat (length (encodes ds)), buf') \<and>
          length buf' = length buf \<and> take (length (encodes ds)) buf' = encodes ds \<and>
          drop (length (encodes ds) + 1) buf' = drop (length (encodes ds) + 1) buf))"
proof (intro conjI impI)
  show "bte_sdp_de_write None n as = Some (of_nat (length (encodes ds)), [])"
    using write_no_room [OF assms, of 0] by (simp add: bte_sdp_de_write_def)
  show "bte_sdp_de_write (Some buf) n as = Some (of_nat (length (encodes ds)), buf)"
    if "n \<le> length (encodes ds)" using write_no_room [OF assms, of "int n"] that by (simp add: bte_sdp_de_write_def)
  show "\<exists>buf'. bte_sdp_de_write (Some buf) n as = Some (of_nat (length (encodes ds)), buf') \<and>
      length buf' = length buf \<and> take (length (encodes ds)) buf' = encodes ds \<and>
      drop (length (encodes ds) + 1) buf' = drop (length (encodes ds) + 1) buf"
    if "length (encodes ds) < n \<and> n \<le> length buf"
    using write_room [OF assms, of n buf] that by (fastforce simp: stored_def)
qed

lemma demo_item:
  "de_item [Va_int 0x30, Va_int (BTE_SDP_DE_ARRAY 2), Va_int 0x19, Va_mem [0x01, 0x11, 0x02, 0x12], Va_int 0xffffffff]
     [De_seq 0x30 [De_fixed 0x19 [0x11, 0x01], De_fixed 0x19 [0x12, 0x02]]]"
proof -
  have "de_item [Va_int (BTE_SDP_DE_ARRAY (of_nat (length [[0x01, 0x11], [0x02, 0x12 :: byte]]))), Va_int (ucast (0x19 :: byte)),
      Va_mem (concat [[0x01, 0x11], [0x02, 0x12]])] (map (\<lambda>v. De_fixed 0x19 (rev v)) [[0x01, 0x11], [0x02, 0x12]])"
    by (rule Item_values) (simp_all add: value_types_def fixed_len_def)
  from Args_item [OF this Args_nil] show ?thesis
    using Item_seq [of "0x30"] by fastforce
qed

lemma demo_encode:
  "encodes [De_seq 0x30 [De_fixed 0x19 [0x11, 0x01], De_fixed 0x19 [0x12, 0x02]]] =
     [0x35, 0x06, 0x19, 0x11, 0x01, 0x19, 0x12, 0x02]"
  by code_simp

theorem bte_sdp_de_write_correct_witness:
  "(\<exists>buf'. bte_sdp_de_write (Some (replicate 16 0xee)) 16
      [Va_int 0x30, Va_int (BTE_SDP_DE_ARRAY 2), Va_int 0x19, Va_mem [0x01, 0x11, 0x02, 0x12], Va_int 0xffffffff] =
      Some (8, buf') \<and> take 8 buf' = [0x35, 0x06, 0x19, 0x11, 0x01, 0x19, 0x12, 0x02]) \<and>
   bte_sdp_de_write (Some (replicate 8 0xee)) 8
      [Va_int 0x30, Va_int (BTE_SDP_DE_ARRAY 2), Va_int 0x19, Va_mem [0x01, 0x11, 0x02, 0x12], Va_int 0xffffffff] =
      Some (8, replicate 8 0xee)"
proof -
  have 16: "\<exists>buf'. bte_sdp_de_write (Some (replicate 16 0xee)) 16
      [Va_int 0x30, Va_int (BTE_SDP_DE_ARRAY 2), Va_int 0x19, Va_mem [0x01, 0x11, 0x02, 0x12], Va_int 0xffffffff] =
      Some (of_nat (length [0x35, 0x06, 0x19, 0x11, 0x01, 0x19, 0x12, 0x02 :: byte]), buf') \<and>
      take (length [0x35, 0x06, 0x19, 0x11, 0x01, 0x19, 0x12, 0x02 :: byte]) buf' = [0x35, 0x06, 0x19, 0x11, 0x01, 0x19, 0x12, 0x02]"
    using bte_sdp_de_write_correct [OF demo_item, of 16 "replicate 16 0xee", unfolded demo_encode] by fastforce
  have 8: "bte_sdp_de_write (Some (replicate 8 0xee)) 8
      [Va_int 0x30, Va_int (BTE_SDP_DE_ARRAY 2), Va_int 0x19, Va_mem [0x01, 0x11, 0x02, 0x12], Va_int 0xffffffff] =
      Some (of_nat (length [0x35, 0x06, 0x19, 0x11, 0x01, 0x19, 0x12, 0x02 :: byte]), replicate 8 0xee)"
    using bte_sdp_de_write_correct [OF demo_item, of 8 "replicate 8 0xee", unfolded demo_encode] by simp
  have l: "length [0x35, 0x06, 0x19, 0x11, 0x01, 0x19, 0x12, 0x02 :: byte] = 8" by simp
  show ?thesis using 16 8 by (simp only: l of_nat_numeral)
qed

end
