(* ===== verification/SdpReader.thy ===== *)
theory SdpReader
  imports SdpDe
begin

text \<open>
  The reader of data elements, \<^verbatim>\<open>BteSdpDeReader\<close> of \<^verbatim>\<open>services/sdp.c\<close>, and the typed reads. On the
  encoding of a well formed element the reader is a cursor in the tree: a path of child indices.
\<close>

section \<open>The reader\<close>

text \<open>The offsets are of type \<^verbatim>\<open>int\<close>; they are kept by their 32 bits, and read as signed where the code does.\<close>

record de_reader =
  dr_de :: mem
  dr_offset :: u32
  dr_seq_start_offset :: u32
  dr_depth :: byte
  dr_next_called :: bool

text \<open>The pointer \<^verbatim>\<open>reader->de + offset\<close>.\<close>

definition de_at :: "de_reader \<Rightarrow> u32 \<Rightarrow> mem option" where
  "de_at r de_off = (if sint de_off < 0 then None else Some (drop (nat (sint de_off)) (dr_de r)))"

definition bte_sdp_de_reader_init :: "mem \<Rightarrow> de_reader" where
  "bte_sdp_de_reader_init de =
     \<lparr>dr_de = de, dr_offset = 0, dr_seq_start_offset = 0, dr_depth = 0, dr_next_called = False\<rparr>"

definition bte_sdp_de_reader_next :: "de_reader \<Rightarrow> (bool \<times> de_reader) option" where
  "bte_sdp_de_reader_next r =
     (if dr_depth r = 0 then Some (False, r) else
      do { seq \<leftarrow> de_at r (dr_seq_start_offset r);
           seq_size \<leftarrow> bte_sdp_de_get_total_size seq;
           let seq_end = dr_seq_start_offset r + seq_size;
           if dr_offset r \<ge> seq_end then Some (False, r)
           else if \<not> dr_next_called r then Some (True, r\<lparr>dr_next_called := True\<rparr>)
           else do {
             el \<leftarrow> de_at r (dr_offset r);
             el_size \<leftarrow> bte_sdp_de_get_total_size el;
             let offset = dr_offset r + el_size;
             Some (offset < seq_end, r\<lparr>dr_offset := offset\<rparr>) } })"

definition bte_sdp_de_reader_enter :: "de_reader \<Rightarrow> (bool \<times> de_reader) option" where
  "bte_sdp_de_reader_enter r =
     do { de \<leftarrow> de_at r (dr_offset r);
          type \<leftarrow> bte_sdp_de_get_type de;
          if type \<noteq> BTE_SDP_DE_TYPE_SEQUENCE \<and> type \<noteq> BTE_SDP_DE_TYPE_CHOICE then Some (False, r)
          else do {
            h \<leftarrow> bte_sdp_de_get_header_size de;
            Some (True, r\<lparr>dr_seq_start_offset := dr_offset r, dr_offset := dr_offset r + h,
                          dr_depth := dr_depth r + 1, dr_next_called := False\<rparr>) } }"

text \<open>
  \<^verbatim>\<open>de_get_current\<close>: \<^verbatim>\<open>NULL\<close> is \<open>Some None\<close>. Here the end of the sequence is computed in \<^verbatim>\<open>int\<close>.
\<close>

definition de_get_current :: "de_reader \<Rightarrow> mem option option" where
  "de_get_current r =
     (if dr_depth r > 0 then
        (if \<not> dr_next_called r then Some None
         else do {
           seq \<leftarrow> de_at r (dr_seq_start_offset r);
           seq_size \<leftarrow> bte_sdp_de_get_total_size seq;
           let seq_end = sint (dr_seq_start_offset r) + sint seq_size;
           if seq_end < - (2 ^ 31) \<or> seq_end \<ge> 2 ^ 31 then None
           else if sint (dr_offset r) \<ge> seq_end then Some None
           else map_option Some (de_at r (dr_offset r)) })
      else map_option Some (de_at r (dr_offset r)))"

definition bte_sdp_de_reader_get_type :: "de_reader \<Rightarrow> byte option" where
  "bte_sdp_de_reader_get_type r =
     do { de \<leftarrow> de_get_current r;
          case de of None \<Rightarrow> Some BTE_SDP_DE_TYPE_INVALID | Some p \<Rightarrow> bte_sdp_de_get_type p }"

definition bte_sdp_de_reader_get_total_size :: "de_reader \<Rightarrow> u32 option" where
  "bte_sdp_de_reader_get_total_size r =
     do { de \<leftarrow> de_get_current r;
          case de of None \<Rightarrow> Some 0 | Some p \<Rightarrow> bte_sdp_de_get_total_size p }"

text \<open>
  The scan of \<^verbatim>\<open>find_seq_start_offset\<close>. It may not end, so it is a partial function; the assertion
  that an element is a sequence is a fault when it does not hold.
\<close>

partial_function (option) find_seq_loop :: "byte \<Rightarrow> u32 \<Rightarrow> de_reader \<Rightarrow> u32 option" where
  "find_seq_loop depth contained_offset r =
     do { sz \<leftarrow> bte_sdp_de_reader_get_total_size r;
          if dr_offset r + sz \<ge> contained_offset then
            (if dr_depth r = depth then Some (dr_offset r)
             else do { (ok, r) \<leftarrow> bte_sdp_de_reader_enter r;
                       if ok then find_seq_loop depth contained_offset r else None })
          else do { (_, r) \<leftarrow> bte_sdp_de_reader_next r;
                    find_seq_loop depth contained_offset r } }"

definition find_seq_start_offset :: "mem \<Rightarrow> byte \<Rightarrow> u32 \<Rightarrow> u32 option" where
  "find_seq_start_offset de depth contained_offset =
     find_seq_loop depth contained_offset (bte_sdp_de_reader_init de)"

definition bte_sdp_de_reader_leave :: "de_reader \<Rightarrow> (bool \<times> de_reader) option" where
  "bte_sdp_de_reader_leave r =
     (if dr_depth r = 0 then Some (False, r) else
      do { let r1 = r\<lparr>dr_offset := dr_seq_start_offset r, dr_depth := dr_depth r - 1\<rparr>;
           if dr_depth r1 = 0 then Some (True, r1\<lparr>dr_seq_start_offset := 0\<rparr>)
           else do {
             start \<leftarrow> find_seq_start_offset (dr_de r1) (dr_depth r1 - 1) (dr_offset r1);
             Some (True, r1\<lparr>dr_seq_start_offset := start\<rparr>) } })"

section \<open>Reading values\<close>

text \<open>\<^verbatim>\<open>de_get_data\<close>: the memory from the data on, and its size.\<close>

definition de_get_data :: "de_reader \<Rightarrow> (mem \<times> u32) option option" where
  "de_get_data r =
     do { de \<leftarrow> de_get_current r;
          case de of None \<Rightarrow> Some None
          | Some p \<Rightarrow> do { sz \<leftarrow> bte_sdp_de_get_data_size p;
                           if sz > 0 then do { h \<leftarrow> bte_sdp_de_get_header_size p; Some (Some (drop (unat h) p, sz)) }
                           else Some None } }"

definition bte_sdp_de_reader_read_uint8 :: "de_reader \<Rightarrow> byte option" where
  "bte_sdp_de_reader_read_uint8 r =
     do { d \<leftarrow> de_get_data r;
          case d of None \<Rightarrow> Some 0
          | Some (data, sz) \<Rightarrow> if sz \<noteq> 1 then Some 0 else rd8 data 0 }"

definition bte_sdp_de_reader_read_uint16 :: "de_reader \<Rightarrow> u16 option" where
  "bte_sdp_de_reader_read_uint16 r =
     do { d \<leftarrow> de_get_data r;
          case d of None \<Rightarrow> Some 0
          | Some (data, sz) \<Rightarrow> if sz > 2 then Some 0
              else if sz = 2 then read_be16 data 0 else map_option ucast (rd8 data 0) }"

definition bte_sdp_de_reader_read_int16 :: "de_reader \<Rightarrow> u16 option" where
  "bte_sdp_de_reader_read_int16 r =
     do { d \<leftarrow> de_get_data r;
          case d of None \<Rightarrow> Some 0
          | Some (data, sz) \<Rightarrow> if sz > 2 then Some 0
              else if sz = 2 then read_be16 data 0 else map_option scast (rd8 data 0) }"

definition bte_sdp_de_reader_read_uint32 :: "de_reader \<Rightarrow> u32 option" where
  "bte_sdp_de_reader_read_uint32 r =
     do { d \<leftarrow> de_get_data r;
          case d of None \<Rightarrow> Some 0
          | Some (data, sz) \<Rightarrow> if sz = 3 \<or> sz > 4 then Some 0
              else if sz = 4 then read_be32 data 0
              else if sz = 2 then map_option ucast (read_be16 data 0) else map_option ucast (rd8 data 0) }"

definition bte_sdp_de_reader_read_int32 :: "de_reader \<Rightarrow> u32 option" where
  "bte_sdp_de_reader_read_int32 r =
     do { d \<leftarrow> de_get_data r;
          case d of None \<Rightarrow> Some 0
          | Some (data, sz) \<Rightarrow> if sz > 4 then Some 0
              else if sz = 4 then read_be32 data 0
              else map_option scast (bte_sdp_de_reader_read_int16 r) }"

definition bte_sdp_de_reader_read_uint64 :: "de_reader \<Rightarrow> u64 option" where
  "bte_sdp_de_reader_read_uint64 r =
     do { d \<leftarrow> de_get_data r;
          case d of None \<Rightarrow> Some 0
          | Some (data, sz) \<Rightarrow> if sz > 8 then Some 0
              else if sz = 8 then read_be64 data 0
              else map_option ucast (bte_sdp_de_reader_read_uint32 r) }"

definition bte_sdp_de_reader_read_int64 :: "de_reader \<Rightarrow> u64 option" where
  "bte_sdp_de_reader_read_int64 r =
     do { d \<leftarrow> de_get_data r;
          case d of None \<Rightarrow> Some 0
          | Some (data, sz) \<Rightarrow> if sz > 8 then Some 0
              else if sz = 8 then read_be64 data 0
              else map_option scast (bte_sdp_de_reader_read_int32 r) }"

text \<open>\<^verbatim>\<open>read_be128\<close>: the two halves of the copied memory are swapped and stored in big endian order.\<close>

definition read_be128 :: "mem \<Rightarrow> 128 word option" where
  "read_be128 d =
     do { ret \<leftarrow> slice d 0 16;
          tmp \<leftarrow> read_le64 ret 0;
          part1 \<leftarrow> read_le64 ret 8;
          ret \<leftarrow> write_be64 part1 ret 0;
          ret \<leftarrow> write_be64 tmp ret 8;
          Some (le_val ret) }"

definition uint128_from_64 :: "u64 \<Rightarrow> 128 word" where
  "uint128_from_64 v = ucast v"

definition int128_from_64 :: "u64 \<Rightarrow> 128 word" where
  "int128_from_64 v = scast v"

definition bte_sdp_de_reader_read_uint128 :: "de_reader \<Rightarrow> 128 word option" where
  "bte_sdp_de_reader_read_uint128 r =
     do { d \<leftarrow> de_get_data r;
          case d of None \<Rightarrow> Some (uint128_from_64 0)
          | Some (data, sz) \<Rightarrow> if sz > 16 then Some (uint128_from_64 0)
              else if sz = 16 then read_be128 data
              else map_option uint128_from_64 (bte_sdp_de_reader_read_uint64 r) }"

definition bte_sdp_de_reader_read_int128 :: "de_reader \<Rightarrow> 128 word option" where
  "bte_sdp_de_reader_read_int128 r =
     do { d \<leftarrow> de_get_data r;
          case d of None \<Rightarrow> Some (int128_from_64 0)
          | Some (data, sz) \<Rightarrow> if sz > 16 then Some (int128_from_64 0)
              else if sz = 16 then read_be128 data
              else map_option int128_from_64 (bte_sdp_de_reader_read_int64 r) }"

definition bte_sdp_de_reader_read_int8 :: "de_reader \<Rightarrow> byte option" where
  "bte_sdp_de_reader_read_int8 r = bte_sdp_de_reader_read_uint8 r"

definition bte_sdp_de_reader_read_bool :: "de_reader \<Rightarrow> byte option" where
  "bte_sdp_de_reader_read_bool r = map_option (\<lambda>b. if b \<noteq> 0 then 1 else 0) (bte_sdp_de_reader_read_uint8 r)"

definition bte_sdp_de_reader_read_uuid16 :: "de_reader \<Rightarrow> u16 option" where
  "bte_sdp_de_reader_read_uuid16 r = bte_sdp_de_reader_read_uint16 r"

definition bte_sdp_de_reader_read_uuid32 :: "de_reader \<Rightarrow> u32 option" where
  "bte_sdp_de_reader_read_uuid32 r = bte_sdp_de_reader_read_uint32 r"

definition s_base_uuid :: mem where
  "s_base_uuid = [0x00, 0x00, 0x00, 0x00, 0x00, 0x00, 0x10, 0x00, 0x80, 0x00,
                  0x00, 0x80, 0x5f, 0x9b, 0x34, 0xfb]"

definition bte_sdp_de_reader_read_uuid128 :: "de_reader \<Rightarrow> mem option" where
  "bte_sdp_de_reader_read_uuid128 r =
     do { d \<leftarrow> de_get_data r;
          let ret = replicate 16 0;
          case d of None \<Rightarrow> Some ret
          | Some (data, sz) \<Rightarrow>
              if sz = 16 then slice data 0 16
              else if sz \<le> 4 then do {
                uuid32 \<leftarrow> bte_sdp_de_reader_read_uuid32 r;
                if uuid32 \<noteq> 0 then write_be32 uuid32 s_base_uuid 0 else Some ret }
              else Some ret }"

definition bte_sdp_de_reader_read_str :: "de_reader \<Rightarrow> (mem \<times> u32) option option" where
  "bte_sdp_de_reader_read_str r =
     do { d \<leftarrow> de_get_data r;
          case d of None \<Rightarrow> Some None
          | Some (data, sz) \<Rightarrow> do {
              de \<leftarrow> de_at r (dr_offset r);
              type \<leftarrow> bte_sdp_de_get_type de;
              if type \<noteq> BTE_SDP_DE_TYPE_STRING \<and> type \<noteq> BTE_SDP_DE_TYPE_URL then Some None
              else Some (Some (data, sz)) } }"

text \<open>
  The string that \<^verbatim>\<open>"%.*s"\<close> prints: up to the precision, or up to a zero. A precision that is
  negative as an \<^verbatim>\<open>int\<close> counts as none.
\<close>

definition printf_str :: "u32 \<Rightarrow> mem \<Rightarrow> mem option" where
  "printf_str len str =
     (if 0 \<in> set (take (unat len) str) \<or> unat len \<le> length str \<and> sint len \<ge> 0
      then Some (takeWhile (\<lambda>b. b \<noteq> 0) (take (unat len) str))
      else if sint len < 0 \<and> 0 \<in> set str then Some (takeWhile (\<lambda>b. b \<noteq> 0) str) else None)"

definition bte_sdp_de_reader_copy_str :: "de_reader \<Rightarrow> mem \<Rightarrow> nat \<Rightarrow> (nat \<times> mem) option" where
  "bte_sdp_de_reader_copy_str r buffer max_len =
     do { str \<leftarrow> bte_sdp_de_reader_read_str r;
          case str of
            Some (data, len) \<Rightarrow> do {
              s \<leftarrow> printf_str len data;
              if max_len = 0 then Some (length s, buffer)
              else do { buffer \<leftarrow> wr buffer 0 (take (max_len - 1) s @ [0]); Some (length s, buffer) } }
          | None \<Rightarrow> if max_len > 0 then do { buffer \<leftarrow> wr buffer 0 [0]; Some (0, buffer) } else Some (0, buffer) }"

section \<open>The reader as a cursor in a tree\<close>

fun de_ok :: "de \<Rightarrow> bool" where
  "de_ok (De_fixed t bs) \<longleftrightarrow> t \<in> insert BTE_SDP_DE_TYPE_NIL value_types \<and> length bs = fixed_len t"
| "de_ok (De_str t s) \<longleftrightarrow> t \<in> {BTE_SDP_DE_TYPE_STRING, BTE_SDP_DE_TYPE_URL}"
| "de_ok (De_seq t ds) \<longleftrightarrow> t \<in> {BTE_SDP_DE_TYPE_SEQUENCE, BTE_SDP_DE_TYPE_CHOICE} \<and> (\<forall>d \<in> set ds. de_ok d)"

lemma de_item_ok: "de_item a ds \<Longrightarrow> \<forall>d \<in> set ds. de_ok d"
  and de_args_ok: "de_args as ds \<Longrightarrow> \<forall>d \<in> set ds. de_ok d"
  by (induction rule: de_item_de_args.inducts)
     (auto simp: fixed_len_def list_all_iff dest!: fixed_bytes_len)

text \<open>The header of an element: what the size functions read back.\<close>

lemma var_header:
  assumes "n < 2 ^ 32" "t \<in> {0x20, 0x28, 0x30, 0x38, 0x40}" "t \<noteq> 0x28"
  shows "bte_sdp_de_get_data_size (de_header t n @ xs) = Some (of_nat n)"
    and "bte_sdp_de_get_header_size (de_header t n @ xs) = Some (of_nat (length (de_header t n)))"
    and "bte_sdp_de_get_type (de_header t n @ xs) = Some t"
proof -
  have b: "ucast (of_nat n :: byte) = (of_nat n :: u32)" if "n < 256"
    using that by (simp add: unsigned_of_nat take_bit_nat_eq_self)
  have w: "ucast (of_nat n :: u16) = (of_nat n :: u32)" if "n < 65536"
    using that by (simp add: unsigned_of_nat take_bit_nat_eq_self)
  have r16: "read_be16 (h # be_bytes 2 (v :: u16) @ xs) 1 = Some v" for h v
    by (simp add: read_be16_def slice_def be_val_bytes)
  have r32: "read_be32 (h # be_bytes 4 (v :: u32) @ xs) 1 = Some v" for h v
    by (simp add: read_be32_def slice_def be_val_bytes)
  show "bte_sdp_de_get_data_size (de_header t n @ xs) = Some (of_nat n)"
    using assms(2,3) b w
    by (auto simp: bte_sdp_de_get_data_size_def de_header_def var_size_def rd8_def r16 [simplified] r32 [simplified])
  show "bte_sdp_de_get_header_size (de_header t n @ xs) = Some (of_nat (length (de_header t n)))"
    using assms(2,3)
    by (auto simp: bte_sdp_de_get_header_size_def de_header_def var_size_def rd8_def)
  show "bte_sdp_de_get_type (de_header t n @ xs) = Some t"
    using assms(2,3) by (auto simp: bte_sdp_de_get_type_def de_header_def var_size_def rd8_def)
qed

definition header_len :: "de \<Rightarrow> nat" where
  "header_len d = (case d of De_fixed _ _ \<Rightarrow> 1 | De_str t s \<Rightarrow> length (de_header t (length s))
                    | De_seq t ds \<Rightarrow> length (de_header t (length (encodes ds))))"

definition de_body :: "de \<Rightarrow> mem" where
  "de_body d = (case d of De_fixed _ bs \<Rightarrow> bs | De_str _ s \<Rightarrow> s | De_seq _ ds \<Rightarrow> encodes ds)"

fun de_type :: "de \<Rightarrow> byte" where
  "de_type (De_fixed t _) = t" | "de_type (De_str t _) = t" | "de_type (De_seq t _) = t"

lemma encode_body: "drop (header_len d) (encode d) = de_body d" "header_len d \<le> length (encode d)"
  "length (encode d) = header_len d + length (de_body d)"
  by (cases d; simp add: header_len_def de_body_def Let_def)+

lemma fixed_header:
  assumes "t \<in> insert 0 value_types" "length bs = fixed_len t"
  shows "bte_sdp_de_get_data_size (t # bs @ xs) = Some (of_nat (length bs))"
    and "bte_sdp_de_get_header_size (t # bs @ xs) = Some 1"
    and "bte_sdp_de_get_type (t # bs @ xs) = Some t"
  using assms
  by (auto simp: value_types_def bte_sdp_de_get_header_size_def bte_sdp_de_get_type_def
      bte_sdp_de_get_data_size_def rd8_def fixed_len_def push_bit_eq_mult)

lemma encode_sizes:
  assumes "de_ok d" "length (encode d) < 2 ^ 32"
  shows "bte_sdp_de_get_data_size (encode d @ xs) = Some (of_nat (length (de_body d)))"
    and "bte_sdp_de_get_header_size (encode d @ xs) = Some (of_nat (header_len d))"
    and "bte_sdp_de_get_type (encode d @ xs) = Some (de_type d)"
    and "bte_sdp_de_get_total_size (encode d @ xs) = Some (of_nat (length (encode d)))"
proof -
  have l: "length (de_body d) < 2 ^ 32" using assms(2) encode_body(3) [of d] by simp
  show 1: "bte_sdp_de_get_data_size (encode d @ xs) = Some (of_nat (length (de_body d)))"
    using assms(1) l by (cases d) (auto simp: de_body_def Let_def fixed_header intro!: var_header)
  show 2: "bte_sdp_de_get_header_size (encode d @ xs) = Some (of_nat (header_len d))"
    using assms(1) l by (cases d) (auto simp: header_len_def de_body_def Let_def fixed_header intro!: var_header)
  show "bte_sdp_de_get_type (encode d @ xs) = Some (de_type d)"
    using assms(1) l by (cases d) (auto simp: de_body_def Let_def fixed_header intro!: var_header)
  show "bte_sdp_de_get_total_size (encode d @ xs) = Some (of_nat (length (encode d)))"
    by (simp add: bte_sdp_de_get_total_size_def 1 2 encode_body(3))
qed

text \<open>The element a path of child indices leads to, and where it starts in the encoding.\<close>

fun de_sub :: "de \<Rightarrow> nat list \<Rightarrow> de option" where
  "de_sub d [] = Some d"
| "de_sub (De_seq t ds) (i # p) = (if i < length ds then de_sub (ds ! i) p else None)"
| "de_sub _ _ = None"

fun de_off :: "de \<Rightarrow> nat list \<Rightarrow> nat" where
  "de_off d [] = 0"
| "de_off (De_seq t ds) (i # p) =
     length (de_header t (length (encodes ds))) + length (encodes (take i ds)) +
     (if i < length ds then de_off (ds ! i) p else 0)"
| "de_off _ _ = 0"

lemma encodes_split: "i < length ds \<Longrightarrow> encodes ds = encodes (take i ds) @ encode (ds ! i) @ encodes (drop (Suc i) ds)"
  by (metis append_take_drop_id Cons_nth_drop_Suc concat.simps(2) concat_append list.simps(9) map_append)

lemma sub_encode: "de_sub d p = Some e \<Longrightarrow> \<exists>pre post. encode d = pre @ encode e @ post \<and> length pre = de_off d p"
proof (induction d p rule: de_sub.induct)
  case (1 d)
  then show ?case by (intro exI [of _ "[]"]) simp
next
  case (2 t ds i p)
  then have i: "i < length ds" "de_sub (ds ! i) p = Some e" by (auto split: if_splits)
  then obtain pre post where IH: "encode (ds ! i) = pre @ encode e @ post" "length pre = de_off (ds ! i) p"
    using "2.IH" by blast
  show ?case
    by (rule exI [of _ "de_header t (length (encodes ds)) @ encodes (take i ds) @ pre"],
        rule exI [of _ "post @ encodes (drop (Suc i) ds)"])
       (simp add: Let_def encodes_split [OF i(1)] IH i(1))
qed simp_all

lemma sub_ok: "de_sub d p = Some e \<Longrightarrow> de_ok d \<Longrightarrow> de_ok e"
  by (induction d p rule: de_sub.induct) (auto split: if_splits)

lemma sub_append: "de_sub d (p @ q) = (case de_sub d p of None \<Rightarrow> None | Some e \<Rightarrow> de_sub e q)"
  by (induction d p rule: de_sub.induct) auto

lemma off_append: "de_sub d p = Some e \<Longrightarrow> de_off d (p @ q) = de_off d p + de_off e q"
  by (induction d p rule: de_sub.induct) (auto split: if_splits)

lemma sub_bounds: "de_sub d p = Some e \<Longrightarrow> de_off d p + length (encode e) \<le> length (encode d)"
  using sub_encode by fastforce

lemma sub_at: "de_sub d p = Some e \<Longrightarrow> \<exists>xs. drop (de_off d p) (encode d @ rest) = encode e @ xs"
  using sub_encode by fastforce

lemma header_len_ge: "de_sub d p = Some (De_seq t ds) \<Longrightarrow> 2 \<le> length (de_header t n)"
  by (auto simp: de_header_def var_size_def)

text \<open>
  A cursor: at the root, or in the sequence at a path, at one of its de_children (or behind the last
  one), where \<^verbatim>\<open>next\<close> has been called or not.
\<close>

datatype cursor = Root | In "nat list" nat bool

definition de_children :: "de \<Rightarrow> nat list \<Rightarrow> nat" where
  "de_children d p = (case de_sub d p of Some (De_seq t ds) \<Rightarrow> length ds | _ \<Rightarrow> 0)"

fun cur_next :: "de \<Rightarrow> cursor \<Rightarrow> bool \<times> cursor" where
  "cur_next d Root = (False, Root)"
| "cur_next d (In p i s) =
     (if i \<ge> de_children d p then (False, In p i s)
      else if \<not> s then (True, In p i True)
      else (Suc i < de_children d p, In p (Suc i) True))"

fun cur_focus :: "cursor \<Rightarrow> nat list" where
  "cur_focus Root = []" | "cur_focus (In p i s) = p @ [i]"

definition cur_enter :: "de \<Rightarrow> cursor \<Rightarrow> bool \<times> cursor" where
  "cur_enter d c = (case de_sub d (cur_focus c) of
     Some (De_seq t ds) \<Rightarrow> (True, In (cur_focus c) 0 False) | _ \<Rightarrow> (False, c))"

fun cur_leave :: "cursor \<Rightarrow> bool \<times> cursor" where
  "cur_leave Root = (False, Root)"
| "cur_leave (In p i s) = (True, if p = [] then Root else In (butlast p) (last p) s)"

fun at_cursor :: "de \<Rightarrow> mem \<Rightarrow> de_reader \<Rightarrow> cursor \<Rightarrow> bool" where
  "at_cursor d rest r Root \<longleftrightarrow>
     dr_de r = encode d @ rest \<and> dr_offset r = 0 \<and> dr_seq_start_offset r = 0 \<and> dr_depth r = 0"
| "at_cursor d rest r (In p i s) \<longleftrightarrow>
     dr_de r = encode d @ rest \<and> (\<exists>t ds. de_sub d p = Some (De_seq t ds) \<and> i \<le> length ds) \<and>
     dr_offset r = of_nat (de_off d (p @ [i])) \<and> dr_seq_start_offset r = of_nat (de_off d p) \<and>
     length p < 255 \<and> dr_depth r = of_nat (length p + 1) \<and> dr_next_called r = s"

text \<open>Trees that the reader can address: well formed, and smaller than 2 GiB.\<close>

definition readable :: "de \<Rightarrow> bool" where
  "readable d \<longleftrightarrow> de_ok d \<and> length (encode d) < 2 ^ 31"

lemma de_at_off:
  assumes "readable d" "dr_de r = encode d @ rest" "de_off d p \<le> length (encode d)"
  shows "de_at r (of_nat (de_off d p)) = Some (drop (de_off d p) (encode d @ rest))"
proof -
  have "de_off d p < 2 ^ 31" using assms by (simp add: readable_def)
  then show ?thesis using assms(2) by (simp add: de_at_def sint_u32_of_nat)
qed

text \<open>What the size functions give at an element of the tree.\<close>

lemma at_element:
  assumes "readable d" "dr_de r = encode d @ rest" "de_sub d p = Some e"
  obtains q where "de_at r (of_nat (de_off d p)) = Some q"
    "bte_sdp_de_get_total_size q = Some (of_nat (length (encode e)))"
    "bte_sdp_de_get_header_size q = Some (of_nat (header_len e))"
    "bte_sdp_de_get_type q = Some (de_type e)"
    "bte_sdp_de_get_data_size q = Some (of_nat (length (de_body e)))"
    "drop (header_len e) q = de_body e @ drop (de_off d p + length (encode e)) (encode d @ rest)"
proof -
  note b = sub_bounds [OF assms(3)]
  obtain pre post where e: "encode d = pre @ encode e @ post" "length pre = de_off d p"
    using sub_encode [OF assms(3)] by blast
  have q: "de_at r (of_nat (de_off d p)) = Some (encode e @ post @ rest)"
    using de_at_off [OF assms(1,2), of p] b e by simp
  have ok: "de_ok e" "length (encode e) < 2 ^ 32"
    using assms(1) sub_ok [OF assms(3)] b by (auto simp: readable_def)
  have "drop (header_len e) (encode e @ post @ rest) =
      de_body e @ drop (de_off d p + length (encode e)) (encode d @ rest)"
    using encode_body(1,2) [of e] e by (simp add: add.commute)
  with q show thesis using encode_sizes [OF ok] by (intro that) auto
qed

lemma off_child:
  assumes "de_sub d p = Some (De_seq t ds)" "i \<le> length ds"
  shows "de_off d (p @ [i]) = de_off d p + length (de_header t (length (encodes ds))) + length (encodes (take i ds))"
  using off_append [OF assms(1), of "[i]"] by simp

lemma off_child_end:
  assumes "de_sub d p = Some (De_seq t ds)"
  shows "de_off d (p @ [length ds]) = de_off d p + length (encode (De_seq t ds))"
  using off_child [OF assms, of "length ds"] by (simp add: Let_def)

lemma off_child_step:
  assumes "de_sub d p = Some (De_seq t ds)" "i < length ds"
  shows "de_off d (p @ [Suc i]) = de_off d (p @ [i]) + length (encode (ds ! i))"
  using off_child [OF assms(1), of i] off_child [OF assms(1), of "Suc i"] assms(2)
  by (simp add: take_Suc_conv_app_nth)

lemma off_child_mono:
  assumes "de_sub d p = Some (De_seq t ds)" "i \<le> j" "j \<le> length ds"
  shows "de_off d (p @ [i]) \<le> de_off d (p @ [j])"
proof -
  have "length (encodes (take i ds)) \<le> length (encodes (take j ds))"
    using assms(2) by (metis concat_append le_add1 length_append map_append take_add le_Suc_ex)
  then show ?thesis using off_child [OF assms(1), of i] off_child [OF assms(1), of j] assms(2,3) by simp
qed

lemma encode_pos: "0 < length (encode d)"
  by (cases d) (auto simp: de_header_def var_size_def Let_def)

lemma off_child_less:
  assumes "de_sub d p = Some (De_seq t ds)" "i < j" "j \<le> length ds"
  shows "de_off d (p @ [i]) < de_off d (p @ [j])"
  using off_child_step [OF assms(1), of i] off_child_mono [OF assms(1), of "Suc i" j] assms encode_pos [of "ds ! i"]
  by linarith

lemma child_bound:
  assumes "readable d" "de_sub d p = Some (De_seq t ds)" "i \<le> length ds"
  shows "de_off d (p @ [i]) < 2 ^ 31" "de_off d p < 2 ^ 31" "de_off d p + length (encode (De_seq t ds)) < 2 ^ 31"
  using sub_bounds [OF assms(2)] off_child_mono [OF assms(2,3)] off_child_end [OF assms(2)] assms(1)
  by (simp_all add: readable_def)

lemma next_refines:
  assumes "readable d" "at_cursor d rest r c"
  shows "\<exists>r'. bte_sdp_de_reader_next r = Some (fst (cur_next d c), r') \<and> at_cursor d rest r' (snd (cur_next d c))"
proof (cases c)
  case Root
  then show ?thesis using assms(2) by (simp add: bte_sdp_de_reader_next_def)
next
  case (In p i s)
  then obtain t ds where c: "dr_de r = encode d @ rest" "de_sub d p = Some (De_seq t ds)" "i \<le> length ds"
      "dr_offset r = of_nat (de_off d (p @ [i]))" "dr_seq_start_offset r = of_nat (de_off d p)"
      "length p < 255" "dr_depth r = of_nat (length p + 1)" "dr_next_called r = s"
    using assms(2) by auto
  have depth: "dr_depth r \<noteq> 0" using byte_of_nat_pos [of "length p + 1"] c(6,7) by simp
  let ?fin = "de_off d (p @ [length ds])"
  note b = child_bound [OF assms(1) c(2)]
  obtain q where q: "de_at r (of_nat (de_off d p)) = Some q"
      "bte_sdp_de_get_total_size q = Some (of_nat (length (encode (De_seq t ds))))"
    using at_element [OF assms(1) c(1,2)] by metis
  have e: "dr_seq_start_offset r + of_nat (length (encode (De_seq t ds))) = of_nat ?fin"
    by (simp add: c(5) off_child_end [OF c(2)])
  have le: "(of_nat ?fin \<le> dr_offset r) = (?fin \<le> de_off d (p @ [i]))"
    using b(1) [OF c(3)] b(1) [of "length ds"] by (simp only: c(4)) (rule u32_of_nat_le; simp)
  have ch: "de_children d p = length ds" by (simp add: de_children_def c(2))
  have end_iff: "?fin \<le> de_off d (p @ [i]) \<longleftrightarrow> length ds \<le> i"
    using off_child_less [OF c(2), of i "length ds"] c(3) by fastforce
  show ?thesis
  proof (cases "i < length ds \<and> s")
    case False
    then show ?thesis
      using depth q e le end_iff ch c In
      by (auto simp: bte_sdp_de_reader_next_def Let_def)
  next
    case True
    then have "de_sub d (p @ [i]) = Some (ds ! i)" by (simp add: sub_append c(2))
    then obtain q' where q': "de_at r (of_nat (de_off d (p @ [i]))) = Some q'"
        "bte_sdp_de_get_total_size q' = Some (of_nat (length (encode (ds ! i))))"
      using at_element [OF assms(1) c(1)] by metis
    have de_off: "dr_offset r + of_nat (length (encode (ds ! i))) = of_nat (de_off d (p @ [Suc i]))"
      using True by (simp add: c(4) off_child_step [OF c(2)])
    have lt: "((of_nat (de_off d (p @ [Suc i])) :: u32) < of_nat ?fin) = (Suc i < length ds)"
    proof -
      have "de_off d (p @ [Suc i]) < ?fin \<longleftrightarrow> Suc i < length ds"
        using off_child_less [OF c(2), of "Suc i" "length ds"] True by (metis Suc_lessI less_irrefl order_refl)
      then show ?thesis
        using b(1) [of "Suc i"] b(1) [of "length ds"] True by (subst u32_of_nat_less) auto
    qed
    show ?thesis
      using depth q q' e le end_iff ch c In de_off lt True
      by (simp add: bte_sdp_de_reader_next_def Let_def)
  qed
qed

lemma enter_refines:
  assumes "readable d" "at_cursor d rest r c" "de_sub d (cur_focus c) \<noteq> None" "length (cur_focus c) < 255"
  shows "\<exists>r'. bte_sdp_de_reader_enter r = Some (fst (cur_enter d c), r') \<and> at_cursor d rest r' (snd (cur_enter d c))"
proof -
  obtain e where e: "de_sub d (cur_focus c) = Some e" using assms(3) by blast
  have r: "dr_de r = encode d @ rest" "dr_offset r = of_nat (de_off d (cur_focus c))" "dr_depth r = of_nat (length (cur_focus c))"
    using assms(2) by (cases c; auto)+
  obtain q where q: "de_at r (of_nat (de_off d (cur_focus c))) = Some q"
      "bte_sdp_de_get_header_size q = Some (of_nat (header_len e))" "bte_sdp_de_get_type q = Some (de_type e)"
    using at_element [OF assms(1) r(1) e] by metis
  have ok: "de_ok e" using sub_ok [OF e] assms(1) by (simp add: readable_def)
  show ?thesis
  proof (cases e)
    case (De_seq t ds)
    have "de_off d (cur_focus c @ [0]) = de_off d (cur_focus c) + header_len e"
      using off_child [of d "cur_focus c" t ds 0] e De_seq by (simp add: header_len_def)
    with q r e ok De_seq assms(4) show ?thesis
      by (auto simp: bte_sdp_de_reader_enter_def cur_enter_def)
  next
    case (De_fixed t bs)
    then have "t \<noteq> 0x30" "t \<noteq> 0x38" using ok by (auto simp: value_types_def)
    with q r e De_fixed assms(2) show ?thesis
      by (simp add: bte_sdp_de_reader_enter_def cur_enter_def)
  next
    case (De_str t bs)
    then have "t \<noteq> 0x30" "t \<noteq> 0x38" using ok by auto
    with q r e De_str assms(2) show ?thesis
      by (simp add: bte_sdp_de_reader_enter_def cur_enter_def)
  qed
qed

lemma current_element:
  assumes "readable d" "at_cursor d rest r c" "de_sub d (cur_focus c) = Some e" "\<And>p i. c \<noteq> In p i False"
  shows "de_get_current r = de_at r (of_nat (de_off d (cur_focus c))) \<bind> (\<lambda>q. Some (Some q))"
proof (cases c)
  case Root
  then show ?thesis using assms(2) by (auto simp: de_get_current_def split: bind_splits)
next
  case (In p i s)
  then obtain t ds where c: "dr_de r = encode d @ rest" "de_sub d p = Some (De_seq t ds)" "i \<le> length ds"
      "dr_offset r = of_nat (de_off d (p @ [i]))" "dr_seq_start_offset r = of_nat (de_off d p)"
      "length p < 255" "dr_depth r = of_nat (length p + 1)" "dr_next_called r = s"
    using assms(2) by auto
  have depth: "dr_depth r \<noteq> 0" using byte_of_nat_pos [of "length p + 1"] c(6,7) by simp
  have i: "i < length ds" using assms(3) In by (auto simp: sub_append c(2) split: if_splits)
  have s: "s" using assms(4) [of p i] In by auto
  note b = child_bound [OF assms(1) c(2,3)]
  obtain q where q: "de_at r (of_nat (de_off d p)) = Some q"
      "bte_sdp_de_get_total_size q = Some (of_nat (length (encode (De_seq t ds))))"
    using at_element [OF assms(1) c(1,2)] by metis
  have "sint (of_nat (length (encode (De_seq t ds))) :: u32) = int (length (encode (De_seq t ds)))"
    using b(3) by (intro sint_u32_of_nat) simp
  then have e: "sint (of_nat (de_off d p) :: u32) + sint (of_nat (length (encode (De_seq t ds))) :: u32) =
      int (de_off d p + length (encode (De_seq t ds)))"
    using b(2) by (simp add: sint_u32_of_nat)
  have "de_off d (p @ [i]) < de_off d p + length (encode (De_seq t ds))"
    using off_child_less [OF c(2) i] off_child_end [OF c(2)] by simp
  then show ?thesis
    using depth q e b c s In sint_u32_of_nat [OF b(1)]
    by (auto simp: de_get_current_def Let_def simp flip: of_nat_add split: bind_splits)
qed

lemma current_size:
  assumes "readable d" "at_cursor d rest r c" "de_sub d (cur_focus c) = Some e" "\<And>p i. c \<noteq> In p i False"
  shows "bte_sdp_de_reader_get_total_size r = Some (of_nat (length (encode e)))"
proof -
  have "dr_de r = encode d @ rest" using assms(2) by (cases c) auto
  then obtain q where "de_at r (of_nat (de_off d (cur_focus c))) = Some q"
      "bte_sdp_de_get_total_size q = Some (of_nat (length (encode e)))"
    using at_element [OF assms(1) _ assms(3)] by metis
  then show ?thesis
    using current_element [OF assms] by (simp add: bte_sdp_de_reader_get_total_size_def)
qed

lemma unset_size: "at_cursor d rest r (In p i False) \<Longrightarrow> bte_sdp_de_reader_get_total_size r = Some 0"
  using byte_of_nat_pos [of "length p + 1"]
  by (auto simp: bte_sdp_de_reader_get_total_size_def de_get_current_def word_gt_0)

text \<open>The element a path leads to contains the de_children of its own.\<close>

lemma off_prefix:
  assumes "de_sub d (q @ k # p) = Some (De_seq t ds)" "j < length ds"
  shows "de_off d (q @ [k]) < de_off d (q @ k # p @ [j])"
    and "\<exists>e. de_sub d (q @ [k]) = Some e \<and> de_off d (q @ k # p @ [j]) < de_off d (q @ [k]) + length (encode e)"
proof -
  obtain e where e: "de_sub d (q @ [k]) = Some e" "de_sub e p = Some (De_seq t ds)"
    using assms(1) sub_append [of d "q @ [k]" p] by (auto split: option.splits)
  have o: "de_off d (q @ k # p @ [j]) = de_off d (q @ [k]) + de_off e (p @ [j])"
    using off_append [OF e(1), of "p @ [j]"] by simp
  have "de_off e (p @ [j]) \<ge> 2" using off_child [OF e(2), of j] assms(2) header_len_ge [OF e(2), of "length (encodes ds)"] by linarith
  then show "de_off d (q @ [k]) < de_off d (q @ k # p @ [j])" using o by simp
  have "de_off e (p @ [j]) < de_off e p + length (encode (De_seq t ds))"
    using off_child_less [OF e(2), of j "length ds"] off_child_end [OF e(2)] assms(2) by simp
  then have "de_off e (p @ [j]) < length (encode e)" using sub_bounds [OF e(2)] by simp
  then show "\<exists>e. de_sub d (q @ [k]) = Some e \<and> de_off d (q @ k # p @ [j]) < de_off d (q @ [k]) + length (encode e)"
    using e(1) o by auto
qed

lemma scan_element:
  assumes readable: "readable d" and path: "de_sub d path = Some (De_seq t ds)" "j < length ds"
    and "path = q @ k # p" "at_cursor d rest r (In q i s)" "i \<le> k"
  defines "target \<equiv> de_off d (path @ [j])"
  shows "\<exists>r'. at_cursor d rest r' (In q k True) \<and>
    find_seq_loop (of_nat (length path)) (of_nat target) r = find_seq_loop (of_nat (length path)) (of_nat target) r'"
  using assms(5,6)
proof (induction "2 * (k - i) + (if s then 0 else 1)" arbitrary: r i s rule: less_induct)
  case less
  have target_bound: "target < 2 ^ 31"
    using child_bound(1) [OF readable path(1), of j] path(2) by (simp add: target_def)
  have k: "k < de_children d q" using path(1) assms(4)
    by (auto simp: sub_append de_children_def split: option.splits de.splits if_splits elim!: de_sub.elims)
  obtain tq dq where q: "de_sub d q = Some (De_seq tq dq)" using less.prems(1) by auto
  have kq: "k < length dq" using k q by (simp add: de_children_def)
  show ?case
  proof (cases "i = k \<and> s")
    case True
    then show ?thesis using less.prems by auto
  next
    case False
    have lt: "de_off d (q @ [i]) + (if s then length (encode (dq ! i)) else 0) < target"
    proof -
      have "de_off d (q @ [i]) + (if s then length (encode (dq ! i)) else 0) \<le> de_off d (q @ [k])"
        using False less.prems(2) kq off_child_mono [OF q, of "Suc i" k] off_child_mono [OF q, of i k] off_child_step [OF q, of i]
        by (cases s) auto
      also have "\<dots> < target" using off_prefix(1) [of d q k p t ds j] path assms(4) by (simp add: target_def)
      finally show ?thesis .
    qed
    have de_off: "dr_offset r = of_nat (de_off d (q @ [i]))" using less.prems(1) by simp
    have sz: "bte_sdp_de_reader_get_total_size r = Some (of_nat (if s then length (encode (dq ! i)) else 0))"
    proof (cases s)
      case True
      then have "i < length dq" using False less.prems(2) kq by simp
      then have "de_sub d (cur_focus (In q i s)) = Some (dq ! i)" by (simp add: sub_append q)
      from current_size [OF readable less.prems(1) this] True show ?thesis by simp
    next
      case f: False
      then show ?thesis using unset_size less.prems(1) by simp
    qed
    obtain r1 where r1: "bte_sdp_de_reader_next r = Some (fst (cur_next d (In q i s)), r1)"
        "at_cursor d rest r1 (snd (cur_next d (In q i s)))"
      using next_refines [OF readable less.prems(1)] by blast
    have "\<not> (of_nat (de_off d (q @ [i])) + of_nat (if s then length (encode (dq ! i)) else 0) \<ge> (of_nat target :: u32))"
      unfolding of_nat_add [symmetric] using lt target_bound by (subst u32_of_nat_le) auto
    then have step: "find_seq_loop (of_nat (length path)) (of_nat target) r =
        find_seq_loop (of_nat (length path)) (of_nat target) r1"
      by (subst find_seq_loop.simps) (simp add: sz de_off r1(1))
    show ?thesis
    proof (cases s)
      case True
      then have "at_cursor d rest r1 (In q (Suc i) True)" "Suc i \<le> k"
        using r1(2) False less.prems(2) k by auto
      moreover have "2 * (k - Suc i) + (if True then 0 else 1) < 2 * (k - i) + (if s then 0 else 1)"
        using \<open>Suc i \<le> k\<close> True by simp
      ultimately show ?thesis using less.hyps [of "Suc i" True r1] step by auto
    next
      case f: False
      then have "at_cursor d rest r1 (In q i True)" using r1(2) less.prems(2) k by auto
      then show ?thesis using less.hyps [of i True r1] step f less.prems(2) by auto
    qed
  qed
qed

lemma find_seq_in:
  assumes "readable d" "de_sub d path = Some (De_seq t ds)" "j < length ds" "length path < 255"
  shows "path = q @ k # p \<Longrightarrow> at_cursor d rest r (In q i s) \<Longrightarrow> i \<le> k \<Longrightarrow>
    find_seq_loop (of_nat (length path)) (of_nat (de_off d (path @ [j]))) r = Some (of_nat (de_off d path))"
proof (induction p arbitrary: q k i s r)
  case (Cons k' p)
  obtain r1 where r1: "at_cursor d rest r1 (In q k True)"
      "find_seq_loop (of_nat (length path)) (of_nat (de_off d (path @ [j]))) r =
       find_seq_loop (of_nat (length path)) (of_nat (de_off d (path @ [j]))) r1"
    using scan_element [OF assms(1-3) Cons.prems] by blast
  obtain e where e: "de_sub d (q @ [k]) = Some e" "de_off d (path @ [j]) < de_off d (q @ [k]) + length (encode e)"
    using off_prefix(2) [of d q k "k' # p" t ds j] assms(2,3) Cons.prems(1) by auto
  have seq: "\<exists>te de. e = De_seq te de"
    using assms(2) sub_append [of d "q @ [k]" "k' # p"] e(1) Cons.prems(1) by (auto elim!: de_sub.elims)
  have sz: "bte_sdp_de_reader_get_total_size r1 = Some (of_nat (length (encode e)))"
    using current_size [OF assms(1) r1(1)] e(1) by simp
  have "de_off d (q @ [k]) + length (encode e) < 2 ^ 31"
    using sub_bounds [OF e(1)] assms(1) by (simp add: readable_def)
  then have ge: "(of_nat (de_off d (path @ [j])) :: u32) \<le> of_nat (de_off d (q @ [k])) + of_nat (length (encode e))"
    unfolding of_nat_add [symmetric] using e(2) by (subst u32_of_nat_le) auto
  have lens: "length q + 1 < 256" "length path < 256" "length q + 1 \<noteq> length path"
    using assms(4) Cons.prems(1) by auto
  then have "(of_nat (length q + 1) :: byte) \<noteq> of_nat (length path)"
    by (metis byte_of_nat)
  then have depth: "dr_depth r1 \<noteq> of_nat (length path)" using r1(1) by simp
  obtain r2 where r2: "bte_sdp_de_reader_enter r1 = Some (True, r2)" "at_cursor d rest r2 (In (q @ [k]) 0 False)"
    using enter_refines [OF assms(1) r1(1)] e(1) seq assms(4) Cons.prems(1) by (auto simp: cur_enter_def)
  have "find_seq_loop (of_nat (length path)) (of_nat (de_off d (path @ [j]))) r1 =
      find_seq_loop (of_nat (length path)) (of_nat (de_off d (path @ [j]))) r2"
    using r1(1) sz ge depth r2(1) by (subst find_seq_loop.simps) simp
  also have "\<dots> = Some (of_nat (de_off d path))"
    using Cons.IH [of "q @ [k]" k' r2 0 False] r2(2) Cons.prems(1) by simp
  finally show ?case using r1(2) by simp
next
  case Nil
  obtain r1 where r1: "at_cursor d rest r1 (In q k True)"
      "find_seq_loop (of_nat (length path)) (of_nat (de_off d (path @ [j]))) r =
       find_seq_loop (of_nat (length path)) (of_nat (de_off d (path @ [j]))) r1"
    using scan_element [OF assms(1-3) Nil.prems] by blast
  have e: "de_sub d (q @ [k]) = Some (De_seq t ds)" using assms(2) Nil.prems(1) by simp
  have sz: "bte_sdp_de_reader_get_total_size r1 = Some (of_nat (length (encode (De_seq t ds))))"
    using current_size [OF assms(1) r1(1)] e by simp
  have b: "de_off d path + length (encode (De_seq t ds)) < 2 ^ 31"
    using child_bound(3) [OF assms(1,2), of j] assms(3) by simp
  have "de_off d (path @ [j]) < de_off d path + length (encode (De_seq t ds))"
    using off_child_less [OF assms(2), of j "length ds"] off_child_end [OF assms(2)] assms(3) by simp
  then have "(of_nat (de_off d (path @ [j])) :: u32) \<le> of_nat (de_off d path) + of_nat (length (encode (De_seq t ds)))"
    unfolding of_nat_add [symmetric] using b by (subst u32_of_nat_le) auto
  then have "find_seq_loop (of_nat (length path)) (of_nat (de_off d (path @ [j]))) r1 = Some (of_nat (de_off d path))"
    using r1(1) sz Nil.prems(1) by (subst find_seq_loop.simps) simp
  then show ?case using r1(2) by simp
qed

lemma find_seq_correct:
  assumes "readable d" "de_sub d path = Some (De_seq t ds)" "j < length ds" "length path < 255"
  shows "find_seq_start_offset (encode d @ rest) (of_nat (length path)) (of_nat (de_off d (path @ [j]))) =
    Some (of_nat (de_off d path))"
proof -
  let ?r = "bte_sdp_de_reader_init (encode d @ rest)"
  have r: "at_cursor d rest ?r Root" by (simp add: bte_sdp_de_reader_init_def)
  have sz: "bte_sdp_de_reader_get_total_size ?r = Some (of_nat (length (encode d)))"
    using current_size [OF assms(1) r] by simp
  have "de_off d (path @ [j]) \<le> length (encode d)"
    using sub_bounds [OF assms(2)] off_child_mono [OF assms(2), of j "length ds"] off_child_end [OF assms(2)] assms(3)
    by simp
  then have ge: "(of_nat (de_off d (path @ [j])) :: u32) \<le> of_nat (length (encode d))"
    using assms(1) by (subst u32_of_nat_le) (auto simp: readable_def)
  show ?thesis
  proof (cases path)
    case Nil
    then show ?thesis using sz ge r
      by (simp add: find_seq_start_offset_def find_seq_loop.simps)
  next
    case (Cons k p)
    then obtain td dd where d: "d = De_seq td dd" using assms(2) by (auto elim!: de_sub.elims)
    obtain r1 where r1: "bte_sdp_de_reader_enter ?r = Some (True, r1)" "at_cursor d rest r1 (In [] 0 False)"
      using enter_refines [OF assms(1) r] d by (auto simp: cur_enter_def)
    have "(0 :: byte) \<noteq> of_nat (length path)" using byte_of_nat_pos [of "length path"] assms(4) Cons by auto
    then have "find_seq_start_offset (encode d @ rest) (of_nat (length path)) (of_nat (de_off d (path @ [j]))) =
        find_seq_loop (of_nat (length path)) (of_nat (de_off d (path @ [j]))) r1"
      unfolding find_seq_start_offset_def using sz ge r r1(1) by (subst find_seq_loop.simps) simp
    then show ?thesis
      using find_seq_in [OF assms, of "[]" k p rest r1 0 False] r1(2) Cons by simp
  qed
qed

lemma leave_refines:
  assumes "readable d" "at_cursor d rest r c"
  shows "\<exists>r'. bte_sdp_de_reader_leave r = Some (fst (cur_leave c), r') \<and> at_cursor d rest r' (snd (cur_leave c))"
proof (cases c)
  case Root
  then show ?thesis using assms(2) by (simp add: bte_sdp_de_reader_leave_def)
next
  case (In p i s)
  then obtain t ds where c: "dr_de r = encode d @ rest" "de_sub d p = Some (De_seq t ds)" "i \<le> length ds"
      "dr_seq_start_offset r = of_nat (de_off d p)"
      "length p < 255" "dr_depth r = of_nat (length p + 1)" "dr_next_called r = s"
    using assms(2) by auto
  have depth: "dr_depth r \<noteq> 0" using byte_of_nat_pos [of "length p + 1"] c(5,6) by simp
  have d1: "dr_depth r - 1 = of_nat (length p)" using c(6) by simp
  show ?thesis
  proof (cases p rule: rev_cases)
    case Nil
    then show ?thesis using depth d1 c In by (simp add: bte_sdp_de_reader_leave_def)
  next
    case (snoc q j)
    then have ne: "(of_nat (length p) :: byte) \<noteq> 0" using byte_of_nat_pos [of "length p"] c(5) by simp
    obtain tq dq where q: "de_sub d q = Some (De_seq tq dq)" "j < length dq"
      using c(2) snoc by (auto simp: sub_append split: option.splits elim!: de_sub.elims split: if_splits)
    have "(of_nat (length p) - 1 :: byte) = of_nat (length q)" using snoc by simp
    then have "find_seq_start_offset (encode d @ rest) (of_nat (length p) - 1) (of_nat (de_off d p)) = Some (of_nat (de_off d q))"
      using find_seq_correct [OF assms(1) q, of rest] c(5) snoc by simp
    then show ?thesis
      using depth d1 ne c In snoc q by (auto simp: bte_sdp_de_reader_leave_def)
  qed
qed

lemma current_data:
  assumes "readable d" "at_cursor d rest r c" "de_sub d (cur_focus c) = Some e" "\<And>p i. c \<noteq> In p i False"
  shows "bte_sdp_de_reader_get_type r = Some (de_type e)"
    and "de_body e \<noteq> [] \<Longrightarrow> \<exists>xs. de_get_data r = Some (Some (de_body e @ xs, of_nat (length (de_body e))))"
    and "de_body e = [] \<Longrightarrow> de_get_data r = Some None"
proof -
  have r: "dr_de r = encode d @ rest" using assms(2) by (cases c) auto
  obtain q where q: "de_at r (of_nat (de_off d (cur_focus c))) = Some q"
      "bte_sdp_de_get_header_size q = Some (of_nat (header_len e))" "bte_sdp_de_get_type q = Some (de_type e)"
      "bte_sdp_de_get_data_size q = Some (of_nat (length (de_body e)))"
      "drop (header_len e) q = de_body e @ drop (de_off d (cur_focus c) + length (encode e)) (encode d @ rest)"
    using at_element [OF assms(1) r assms(3)] by metis
  have cur: "de_get_current r = Some (Some q)" using current_element [OF assms] q(1) by simp
  have l: "length (de_body e) < 2 ^ 32" "header_len e < 2 ^ 32"
    using encode_body(3) [of e] sub_bounds [OF assms(3)] assms(1) by (auto simp: readable_def)
  show "bte_sdp_de_reader_get_type r = Some (de_type e)"
    by (simp add: bte_sdp_de_reader_get_type_def cur q(3))
  have z: "(0 < (of_nat (length (de_body e)) :: u32)) = (de_body e \<noteq> [])"
    using u32_of_nat_less [of 0 "length (de_body e)"] l(1) by simp
  have h: "unat (of_nat (header_len e) :: u32) = header_len e"
    using l(2) by (simp add: unat_of_nat take_bit_eq_mod)
  show "\<exists>xs. de_get_data r = Some (Some (de_body e @ xs, of_nat (length (de_body e))))" if "de_body e \<noteq> []"
    using that z h by (simp add: de_get_data_def cur q)
  show "de_get_data r = Some None" if "de_body e = []"
    using that by (simp add: de_get_data_def cur q)
qed

lemma read_be_append:
  "length bs = 1 \<Longrightarrow> rd8 (bs @ xs) 0 = Some (be_val bs)"
  "length bs = 2 \<Longrightarrow> read_be16 (bs @ xs) 0 = Some (be_val bs)"
  "length bs = 4 \<Longrightarrow> read_be32 (bs @ xs) 0 = Some (be_val bs)"
  "length bs = 8 \<Longrightarrow> read_be64 (bs @ xs) 0 = Some (be_val bs)"
  by (auto simp: rd8_def read_be16_def read_be32_def read_be64_def slice_def be_val_def length_Suc_conv)

lemma read_be128_append:
  assumes "length bs = 16"
  shows "read_be128 (bs @ xs) = Some (be_val bs)"
proof -
  define v where "v = (le_val bs :: 128 word)"
  have bs: "bs = le_bytes 16 v" using le_bytes_val [of bs, where 'a = 128] assms by (simp add: v_def)
  have "do { tmp \<leftarrow> read_le64 bs 0; hi \<leftarrow> read_le64 bs (0 + 8);
             xs \<leftarrow> write_be64 hi bs 0; write_be64 tmp xs (0 + 8) } = Some (be_bytes 16 v)"
    using flip_halves [of bs "[]" v "[]" 0] bs by simp
  moreover have "le_val (be_bytes 16 v) = (be_val bs :: 128 word)"
    by (simp add: bs be_val_def be_bytes_def)
  ultimately show ?thesis
    using assms by (auto simp: read_be128_def slice_def split: bind_splits)
qed

text \<open>The value of the bytes of a signed integer.\<close>

definition be_int :: "mem \<Rightarrow> int" where
  "be_int bs = (if length bs = 1 then sint (be_val bs :: byte)
                else if length bs = 2 then sint (be_val bs :: u16)
                else if length bs = 4 then sint (be_val bs :: u32)
                else sint (be_val bs :: u64))"

text \<open>What the typed reads return for an element with the data \<open>bs\<close>.\<close>

definition reads_value :: "de_reader \<Rightarrow> mem \<Rightarrow> bool" where
  "reads_value r bs \<longleftrightarrow>
     (length bs = 1 \<longrightarrow> bte_sdp_de_reader_read_uint8 r = Some (be_val bs)) \<and>
     (length bs \<in> {1, 2} \<longrightarrow> bte_sdp_de_reader_read_uint16 r = Some (be_val bs) \<and>
        bte_sdp_de_reader_read_int16 r = Some (word_of_int (be_int bs))) \<and>
     (length bs \<in> {1, 2, 4} \<longrightarrow> bte_sdp_de_reader_read_uint32 r = Some (be_val bs) \<and>
        bte_sdp_de_reader_read_int32 r = Some (word_of_int (be_int bs))) \<and>
     (length bs \<in> {1, 2, 4, 8} \<longrightarrow> bte_sdp_de_reader_read_uint64 r = Some (be_val bs) \<and>
        bte_sdp_de_reader_read_int64 r = Some (word_of_int (be_int bs)) \<and>
        bte_sdp_de_reader_read_int128 r = Some (word_of_int (be_int bs))) \<and>
     (length bs \<in> {1, 2, 4, 8, 16} \<longrightarrow> bte_sdp_de_reader_read_uint128 r = Some (be_val bs)) \<and>
     (length bs = 16 \<longrightarrow> bte_sdp_de_reader_read_int128 r = Some (be_val bs) \<and>
        bte_sdp_de_reader_read_uuid128 r = Some bs)"

lemma reads_valueI:
  assumes "de_get_data r = Some (Some (bs @ xs, of_nat (length bs)))" "length bs \<in> {1, 2, 4, 8, 16}"
  shows "reads_value r bs"
proof -
  note defs = bte_sdp_de_reader_read_uint8_def bte_sdp_de_reader_read_uint16_def
    bte_sdp_de_reader_read_int16_def bte_sdp_de_reader_read_uint32_def bte_sdp_de_reader_read_int32_def
    bte_sdp_de_reader_read_uint64_def bte_sdp_de_reader_read_int64_def bte_sdp_de_reader_read_uint128_def
    bte_sdp_de_reader_read_int128_def uint128_from_64_def int128_from_64_def bte_sdp_de_reader_read_uuid128_def
  consider "length bs = 1" | "length bs = 2" | "length bs = 4" | "length bs = 8" | "length bs = 16"
    using assms(2) by auto
  then show ?thesis
  proof cases
    case 1
    then show ?thesis using assms(1) read_be_append(1) [OF 1, of xs]
      by (simp add: reads_value_def defs be_int_def be_val_ucast scast_scast_up)
  next
    case 2
    then show ?thesis using assms(1) read_be_append(2) [OF 2, of xs]
      by (simp add: reads_value_def defs be_int_def be_val_ucast scast_scast_up)
  next
    case 3
    then show ?thesis using assms(1) read_be_append(3) [OF 3, of xs]
      by (simp add: reads_value_def defs be_int_def be_val_ucast scast_scast_up)
  next
    case 4
    then show ?thesis using assms(1) read_be_append(4) [OF 4, of xs]
      by (simp add: reads_value_def defs be_int_def be_val_ucast scast_scast_up)
  next
    case 5
    then show ?thesis using assms(1) read_be128_append [OF 5, of xs]
      by (simp add: reads_value_def defs slice_def)
  qed
qed

section \<open>The interface of the reader\<close>

text \<open>
  What a client of the reader relies on: the three moves follow the cursor. Calls of \<^verbatim>\<open>next\<close> that all
  succeed lead from the start of a sequence to any of its children, and \<^verbatim>\<open>leave\<close> leads back.
\<close>

fun next_n :: "('r \<Rightarrow> (bool \<times> 'r) option) \<Rightarrow> nat \<Rightarrow> 'r \<Rightarrow> 'r option" where
  "next_n nxt 0 r = Some r"
| "next_n nxt (Suc k) r = do { (ok, r) \<leftarrow> nxt r; if ok then next_n nxt k r else None }"

locale element_reader =
  fixes at :: "de \<Rightarrow> 'r \<Rightarrow> cursor \<Rightarrow> bool"
    and nxt enter leave :: "'r \<Rightarrow> (bool \<times> 'r) option"
  assumes next_law: "at d r c \<Longrightarrow> \<exists>r'. nxt r = Some (fst (cur_next d c), r') \<and> at d r' (snd (cur_next d c))"
    and enter_law: "at d r c \<Longrightarrow> de_sub d (cur_focus c) \<noteq> None \<Longrightarrow> length (cur_focus c) < 255 \<Longrightarrow>
      \<exists>r'. enter r = Some (fst (cur_enter d c), r') \<and> at d r' (snd (cur_enter d c))"
    and leave_law: "at d r c \<Longrightarrow> \<exists>r'. leave r = Some (fst (cur_leave c), r') \<and> at d r' (snd (cur_leave c))"
begin

lemma next_children:
  "at d r (In p i True) \<Longrightarrow> i + k < de_children d p \<Longrightarrow>
   \<exists>r'. next_n nxt k r = Some r' \<and> at d r' (In p (i + k) True)"
proof (induction k arbitrary: r i)
  case (Suc k)
  obtain r1 where "nxt r = Some (True, r1)" "at d r1 (In p (Suc i) True)"
    using next_law [OF Suc.prems(1)] Suc.prems(2) by auto
  then show ?case using Suc.IH [of r1 "Suc i"] Suc.prems(2) by simp
qed simp

lemma reach_child:
  assumes "at d r c" "de_sub d (cur_focus c) = Some (De_seq t ds)" "length (cur_focus c) < 255" "k < length ds"
  obtains r1 r2 where "enter r = Some (True, r1)" "next_n nxt (Suc k) r1 = Some r2" "at d r2 (In (cur_focus c) k True)"
proof -
  obtain r1 where r1: "enter r = Some (True, r1)" "at d r1 (In (cur_focus c) 0 False)"
    using enter_law [OF assms(1) _ assms(3)] assms(2) by (auto simp: cur_enter_def)
  have ch: "de_children d (cur_focus c) = length ds" "ds \<noteq> []" using assms(2,4) by (auto simp: de_children_def)
  obtain r2 where r2: "nxt r1 = Some (True, r2)" "at d r2 (In (cur_focus c) 0 True)"
    using next_law [OF r1(2)] ch by auto
  obtain r3 where "next_n nxt k r2 = Some r3" "at d r3 (In (cur_focus c) k True)"
    using next_children [OF r2(2), of k] assms(4) ch by auto
  with r1 r2 show thesis by (intro that) auto
qed

lemma leave_child: "at d r (In (p @ [i]) k True) \<Longrightarrow> \<exists>r'. leave r = Some (True, r') \<and> at d r' (In p i True)"
  using leave_law [of d r "In (p @ [i]) k True"] by simp

end

interpretation sdp_reader: element_reader "\<lambda>d r c. readable d \<and> (\<exists>rest. at_cursor d rest r c)"
    bte_sdp_de_reader_next bte_sdp_de_reader_enter bte_sdp_de_reader_leave
  by unfold_locales (blast dest: next_refines enter_refines leave_refines)+

section \<open>Properties\<close>

text \<open>
  C22: on the encoding of a well formed element \<^verbatim>\<open>BteSdpDeReader\<close> is a cursor in the tree:
  \<^verbatim>\<open>bte_sdp_de_reader_next\<close>, \<^verbatim>\<open>bte_sdp_de_reader_enter\<close> and \<^verbatim>\<open>bte_sdp_de_reader_leave\<close> move
  to the next child, to the de_children of a sequence and back to the parent, and tell whether they did. The
  scan for the start of the enclosing sequence in \<^verbatim>\<open>bte_sdp_de_reader_leave\<close> ends.
\<close>

theorem bte_sdp_de_reader_refines:
  assumes "readable d" "at_cursor d rest r c"
  shows "(\<exists>r'. bte_sdp_de_reader_next r = Some (fst (cur_next d c), r') \<and> at_cursor d rest r' (snd (cur_next d c))) \<and>
    (\<exists>r'. bte_sdp_de_reader_leave r = Some (fst (cur_leave c), r') \<and> at_cursor d rest r' (snd (cur_leave c))) \<and>
    (de_sub d (cur_focus c) \<noteq> None \<and> length (cur_focus c) < 255 \<longrightarrow>
       (\<exists>r'. bte_sdp_de_reader_enter r = Some (fst (cur_enter d c), r') \<and> at_cursor d rest r' (snd (cur_enter d c))))"
  using next_refines [OF assms] leave_refines [OF assms] enter_refines [OF assms] by blast

definition demo_de :: de where
  "demo_de = De_seq 0x30 [De_seq 0x30 [De_fixed 0x08 [5]], De_seq 0x38 [De_seq 0x30 [De_fixed 0x09 [1, 2]], De_str 0x20 [65, 66]]]"

lemma demo_de_readable: "readable demo_de"
  by (simp add: readable_def demo_de_def value_types_def fixed_len_def de_header_def var_size_def)

theorem bte_sdp_de_reader_refines_witness:
  "\<exists>r'. bte_sdp_de_reader_leave \<lparr>dr_de = encode demo_de, dr_offset = 10, dr_seq_start_offset = 8, dr_depth = 3, dr_next_called = True\<rparr> =
     Some (True, r') \<and> dr_offset r' = 8 \<and> dr_seq_start_offset r' = 6 \<and> dr_depth r' = 2"
proof -
  have "at_cursor demo_de [] \<lparr>dr_de = encode demo_de, dr_offset = 10, dr_seq_start_offset = 8, dr_depth = 3, dr_next_called = True\<rparr>
      (In [1, 0] 0 True)"
    by (simp add: demo_de_def de_header_def var_size_def)
  from bte_sdp_de_reader_refines [OF demo_de_readable this]
  show ?thesis by (auto simp: demo_de_def de_header_def var_size_def)
qed

text \<open>
  C21: what is written is read back. A sequence written by \<^verbatim>\<open>bte_sdp_de_write\<close> is entered, its
  de_children are reached by calls of \<^verbatim>\<open>bte_sdp_de_reader_next\<close>, and each read gives the type and the
  value of the child: at its own size and at every larger one, zero extended or sign extended.
\<close>

theorem bte_sdp_de_write_read_roundtrip:
  assumes "de_args as ds" "t \<in> {BTE_SDP_DE_TYPE_SEQUENCE, BTE_SDP_DE_TYPE_CHOICE}" "k < length ds"
    and "length (encode (De_seq t ds)) < n" "n \<le> length buf" "n \<le> 2 ^ 31"
  shows "\<exists>buf' r r'. bte_sdp_de_write (Some buf) n (Va_int (ucast t) # as @ [Va_int BTE_SDP_DE_END]) =
           Some (of_nat (length (encode (De_seq t ds))), buf') \<and>
         bte_sdp_de_reader_enter (bte_sdp_de_reader_init buf') = Some (True, r) \<and>
         next_n bte_sdp_de_reader_next (Suc k) r = Some r' \<and>
         bte_sdp_de_reader_get_type r' = Some (de_type (ds ! k)) \<and>
         (case ds ! k of
            De_fixed _ bs \<Rightarrow> bs \<noteq> [] \<longrightarrow> reads_value r' bs
          | De_str _ s \<Rightarrow> s \<noteq> [] \<longrightarrow> (\<exists>xs. bte_sdp_de_reader_read_str r' = Some (Some (s @ xs, of_nat (length s))))
          | De_seq _ _ \<Rightarrow> True)"
proof -
  let ?d = "De_seq t ds"
  have it: "de_item (Va_int (ucast t) # as @ [Va_int BTE_SDP_DE_END]) [?d]" by (rule Item_seq [OF assms(2,1)])
  have l: "length (encodes [?d]) < n" using assms(4) by simp
  have rd: "readable ?d" using de_item_ok [OF it] assms(4,6) by (simp add: readable_def)
  obtain buf' where b: "bte_sdp_de_write (Some buf) n (Va_int (ucast t) # as @ [Va_int BTE_SDP_DE_END]) =
      Some (of_nat (length (encode ?d)), buf')" "stored buf 0 (encode ?d) buf'"
    using write_room [OF it _ l assms(5)] l assms(6) by auto
  obtain rest where buf': "buf' = encode ?d @ rest" using b(2) by (auto simp: stored_def)
  have root: "readable ?d \<and> (\<exists>rest. at_cursor ?d rest (bte_sdp_de_reader_init buf') Root)"
    using rd by (auto simp: bte_sdp_de_reader_init_def buf')
  obtain r r' where r: "bte_sdp_de_reader_enter (bte_sdp_de_reader_init buf') = Some (True, r)"
      "next_n bte_sdp_de_reader_next (Suc k) r = Some r'"
      "readable ?d \<and> (\<exists>rest. at_cursor ?d rest r' (In [] k True))"
    by (rule sdp_reader.reach_child [OF root, of t ds k]) (use assms(3) in simp_all)
  then obtain rest' where r': "at_cursor ?d rest' r' (In [] k True)" by blast
  have k: "de_sub ?d (cur_focus (In [] k True)) = Some (ds ! k)" using assms(3) by simp
  note dt = current_data [OF rd r' k, simplified]
  have ok: "de_ok (ds ! k)" using sub_ok [OF k] rd by (simp add: readable_def)
  have "case ds ! k of
            De_fixed _ bs \<Rightarrow> bs \<noteq> [] \<longrightarrow> reads_value r' bs
          | De_str _ s \<Rightarrow> s \<noteq> [] \<longrightarrow> (\<exists>xs. bte_sdp_de_reader_read_str r' = Some (Some (s @ xs, of_nat (length s))))
          | De_seq _ _ \<Rightarrow> True"
  proof (cases "ds ! k")
    case (De_fixed t bs)
    have "length bs \<in> {1, 2, 4, 8, 16}" if "bs \<noteq> []"
      using ok De_fixed that by (auto simp: value_types_def fixed_len_def)
    then show ?thesis using dt(2) De_fixed reads_valueI by (fastforce simp: de_body_def)
  next
    case (De_str t s)
    obtain q where q: "de_at r' (of_nat (de_off ?d (cur_focus (In [] k True)))) = Some q" "bte_sdp_de_get_type q = Some t"
      using at_element [OF rd _ k] r' De_str by (metis at_cursor.simps(2) de_type.simps(2))
    have "dr_offset r' = of_nat (de_off ?d (cur_focus (In [] k True)))" using r' by simp
    then show ?thesis using dt(2) De_str q ok
      by (auto simp: de_body_def bte_sdp_de_reader_read_str_def)
  qed simp
  then show ?thesis using b(1) r(1,2) dt(1) by auto
qed

lemma demo_args:
  "de_args [Va_int 0x11, Va_int 0xfffe, Va_int 0x20, Va_str [65, 66, 0]] [De_fixed 0x11 [0xff, 0xfe], De_str 0x20 [65, 66]]"
proof -
  have v: "fixed_bytes 0x11 (Va_int 0xfffe) = Some [0xff, 0xfe]" by code_simp
  have "de_args ([Va_int (ucast (0x11 :: byte)), Va_int 0xfffe] @ [Va_int (ucast (0x20 :: byte)), Va_str [65, 66, 0]] @ [])
      ([De_fixed 0x11 [0xff, 0xfe]] @ [De_str 0x20 (string_bytes [65, 66, 0])] @ [])"
    by (intro Args_item Item_value Item_string Args_nil v) simp_all
  then show ?thesis by (simp add: string_bytes_def)
qed

theorem bte_sdp_de_write_read_roundtrip_witness:
  "\<exists>buf' r r'. bte_sdp_de_write (Some (replicate 16 0xee)) 16
      [Va_int 0x30, Va_int 0x11, Va_int 0xfffe, Va_int 0x20, Va_str [65, 66, 0], Va_int 0xffffffff] = Some (9, buf') \<and>
    bte_sdp_de_reader_enter (bte_sdp_de_reader_init buf') = Some (True, r) \<and> next_n bte_sdp_de_reader_next 1 r = Some r' \<and>
    bte_sdp_de_reader_get_type r' = Some 0x11 \<and> bte_sdp_de_reader_read_int64 r' = Some (- 2)"
proof -
  have e: "encode (De_seq 0x30 [De_fixed 0x11 [0xff, 0xfe], De_str 0x20 [65, 66]]) =
      [0x35, 7, 0x11, 0xff, 0xfe, 0x25, 2, 65, 66]" by code_simp
  have v: "(word_of_int (be_int [0xff, 0xfe]) :: u64) = - 2" by code_simp
  obtain buf' r r' where b: "bte_sdp_de_write (Some (replicate 16 0xee)) 16
        (Va_int (ucast (0x30 :: byte)) # [Va_int 0x11, Va_int 0xfffe, Va_int 0x20, Va_str [65, 66, 0]] @ [Va_int 0xffffffff]) =
        Some (of_nat (length [0x35, 7, 0x11, 0xff, 0xfe, 0x25, 2, 65, 66 :: byte]), buf')"
      "bte_sdp_de_reader_enter (bte_sdp_de_reader_init buf') = Some (True, r)" "next_n bte_sdp_de_reader_next (Suc 0) r = Some r'"
      "bte_sdp_de_reader_get_type r' = Some 0x11" "reads_value r' [0xff, 0xfe]"
    using bte_sdp_de_write_read_roundtrip [OF demo_args, of "0x30" 0 16 "replicate 16 0xee", unfolded e] by auto
  moreover have "bte_sdp_de_reader_read_int64 r' = Some (- 2)"
    using b(5) v by (simp add: reads_value_def)
  ultimately show ?thesis by auto
qed

end
