(* ===== verification/SdpClient.thy ===== *)
theory SdpClient
  imports L2capFrame L2capServer SdpReader
begin

text \<open>
  The client of the service discovery protocol, from \<^verbatim>\<open>services/sdp.c\<close>: requests, their responses, and
  the continuation of a response that does not fit into one message.

  A request is kept in \<^verbatim>\<open>last_req\<close>, of which only the first packet is used. The parameters of a response are the bytes that the
  pointer of \<^verbatim>\<open>bte_buffer_reader_read_n\<close> may be used for; an access behind them is a fault. The two members of
  the union \<^verbatim>\<open>req_data\<close> begin with the same two fields.
\<close>

section \<open>State\<close>

abbreviation (input) PDU_HEADER_SIZE :: nat where "PDU_HEADER_SIZE \<equiv> 5"
abbreviation (input) PDU_ID_ERROR_RSP :: byte where "PDU_ID_ERROR_RSP \<equiv> 0x01"
abbreviation (input) PDU_ID_SERVICE_SEARCH_REQ :: byte where "PDU_ID_SERVICE_SEARCH_REQ \<equiv> 0x02"
abbreviation (input) PDU_ID_SERVICE_ATTR_REQ :: byte where "PDU_ID_SERVICE_ATTR_REQ \<equiv> 0x04"
abbreviation (input) PDU_ID_SERVICE_SEARCH_ATTR_REQ :: byte where "PDU_ID_SERVICE_SEARCH_ATTR_REQ \<equiv> 0x06"
abbreviation (input) PDU_OFFSET_OPCODE :: nat where "PDU_OFFSET_OPCODE \<equiv> 8"
abbreviation (input) PDU_OFFSET_TRANS_ID :: nat where "PDU_OFFSET_TRANS_ID \<equiv> 9"
abbreviation (input) PDU_OFFSET_PARAMS :: nat where "PDU_OFFSET_PARAMS \<equiv> 13"
abbreviation (input) BTE_SDP_ERROR_PARSER :: u16 where "BTE_SDP_ERROR_PARSER \<equiv> 0xffff"

text \<open>A pointer to memory from \<^verbatim>\<open>bte_malloc\<close>, which may have been freed.\<close>

datatype attr_buffer = Live mem | Freed

record sdp_client =
  sc_ref_count :: int
  sc_userdata :: u64
  sc_l2cap :: "nat option"
  last_req :: "bte_buffer option"
  continuation_offset :: u16
  req_cb :: cb_ptr
  req_userdata :: u64
  attr_list_de :: "attr_buffer option"
  attr_written :: u16

record sdp_dev = server_dev +
  sdp_heap :: "nat \<Rightarrow> sdp_client option"
  s_next_transaction_id :: u32

type_synonym 'e pdev = "'e sdp_dev_scheme"

record search_reply =
  sr_error_code :: u16
  sr_total_count :: u16
  sr_count :: u16
  sr_has_more :: bool
  sr_handles :: "u32 list option"

text \<open>The attribute list is the memory from the pointer on.\<close>

record attr_reply =
  ar_error_code :: u16
  ar_attr_list_de :: "mem option"

text \<open>The environment: that of the channels, and the callbacks of the two kinds of requests.\<close>

record 's sdp_env =
  sp_l2cap :: "'s l2cap_env"
  sp_search :: "nat \<Rightarrow> nat \<Rightarrow> search_reply \<Rightarrow> u64 \<Rightarrow> 's \<Rightarrow> (bool \<times> 's) option"
  sp_attr :: "nat \<Rightarrow> nat \<Rightarrow> attr_reply \<Rightarrow> u64 \<Rightarrow> 's \<Rightarrow> 's option"

type_synonym 'e penv = "'e sdp_dev_scheme sdp_env"

abbreviation (input) ON_MESSAGE_RECEIVED :: nat where "ON_MESSAGE_RECEIVED \<equiv> 31"

definition put_sdp :: "nat \<Rightarrow> sdp_client \<Rightarrow> 'e pdev \<Rightarrow> 'e pdev option" where
  "put_sdp sdp c s = do { _ \<leftarrow> sdp_heap s sdp; Some (s\<lparr>sdp_heap := (sdp_heap s)(sdp \<mapsto> c)\<rparr>) }"

definition upd_sdp :: "(sdp_client \<Rightarrow> sdp_client) \<Rightarrow> nat \<Rightarrow> 'e pdev \<Rightarrow> 'e pdev option" where
  "upd_sdp f sdp s = do { c \<leftarrow> sdp_heap s sdp; put_sdp sdp (f c) s }"

definition next_transaction_id :: "'e pdev \<Rightarrow> u16 \<times> 'e pdev" where
  "next_transaction_id s = (ucast (s_next_transaction_id s), s\<lparr>s_next_transaction_id := s_next_transaction_id s + 1\<rparr>)"

section \<open>Messages\<close>

text \<open>A continuation state is its length and as many bytes; without one there is a single zero byte.\<close>

definition cont_state_len :: "mem option \<Rightarrow> u16 option" where
  "cont_state_len cont_state =
     (case cont_state of None \<Rightarrow> Some 1 | Some m \<Rightarrow> do { b \<leftarrow> rd8 m 0; Some (1 + ucast b) })"

definition write_cont_state :: "bte_buffer_writer \<Rightarrow> mem option \<Rightarrow> (bool \<times> bte_buffer_writer) option" where
  "write_cont_state w cont_state =
     do { len \<leftarrow> cont_state_len cont_state;
          bte_buffer_writer_write w (case cont_state of None \<Rightarrow> [0] | Some m \<Rightarrow> m) len }"

definition create_pdu ::
    "'e penv \<Rightarrow> nat \<Rightarrow> byte \<Rightarrow> u16 \<Rightarrow> u16 \<Rightarrow> 'e pdev \<Rightarrow> bte_buffer_writer option option" where
  "create_pdu XE l2cap code ident param_len s =
     do { w \<leftarrow> bte_l2cap_create_message (sp_l2cap XE) l2cap (of_nat PDU_HEADER_SIZE + param_len) s;
          case w of None \<Rightarrow> Some None
          | Some w \<Rightarrow> do {
              (ptr, w) \<leftarrow> bte_buffer_writer_ptr_n w (of_nat PDU_HEADER_SIZE);
              off \<leftarrow> ptr;
              w \<leftarrow> writer_poke w off ([code] @ be_bytes 2 ident @ be_bytes 2 param_len);
              Some (Some w) } }"

text \<open>
  The parameters of the last request up to its continuation state are copied, and the new state is added. A
  failure leaves the last request in place.
\<close>

definition send_continuation_request ::
    "'e penv \<Rightarrow> nat \<Rightarrow> mem option \<Rightarrow> 'e pdev \<Rightarrow> (bool \<times> 'e pdev) option" where
  "send_continuation_request XE sdp cont_state s =
     do { c \<leftarrow> sdp_heap s sdp;
          req \<leftarrow> last_req c;
          req_opcode \<leftarrow> rd8 (data req) PDU_OFFSET_OPCODE;
          let data_len = continuation_offset c;
          clen \<leftarrow> cont_state_len cont_state;
          l2cap \<leftarrow> sc_l2cap c;
          let (ident, s) = next_transaction_id s;
          w \<leftarrow> create_pdu XE l2cap req_opcode ident (data_len + clen) s;
          case w of None \<Rightarrow> Some (False, s)
          | Some w \<Rightarrow> do {
              (ptr, w) \<leftarrow> bte_buffer_writer_ptr_n w (continuation_offset c);
              off \<leftarrow> ptr;
              bs \<leftarrow> slice (data req) PDU_OFFSET_PARAMS (unat data_len);
              w \<leftarrow> writer_poke w off bs;
              (ok, w) \<leftarrow> write_cont_state w cont_state;
              if \<not> ok then Some (False, s)
              else do {
                chain \<leftarrow> bte_buffer_writer_end w;
                case chain of [] \<Rightarrow> None
                | head # _ \<Rightarrow> do {
                    s \<leftarrow> put_sdp sdp (c\<lparr>last_req := Some head\<rparr>) s;
                    (rc, s) \<leftarrow> bte_l2cap_send_message (sp_l2cap XE) l2cap chain s;
                    Some (rc \<ge> 0, s) } } } }"

text \<open>The handles are converted in place; what the client sees of them are the numbers.\<close>

fun read_handles :: "mem \<Rightarrow> nat \<Rightarrow> nat \<Rightarrow> u32 list option" where
  "read_handles params off 0 = Some []"
| "read_handles params off (Suc n) =
     do { h \<leftarrow> read_be32 params off; hs \<leftarrow> read_handles params (off + 4) n; Some (h # hs) }"

text \<open>The reply and the offset of the continuation state; \<open>Some None\<close> is the return of \<^verbatim>\<open>false\<close>.\<close>

definition parse_service_search_reply :: "mem \<Rightarrow> u16 \<Rightarrow> (search_reply \<times> nat) option option" where
  "parse_service_search_reply params param_len =
     (if param_len < 4 then Some None
      else do {
        total_count \<leftarrow> read_be16 params 0;
        count \<leftarrow> read_be16 params 2;
        let remaining = param_len - 4;
        if unat remaining < unat count * 4 then Some None
        else do {
          handles \<leftarrow> read_handles params 4 (unat count);
          let off = 4 + unat (count * 4);
          let remaining = remaining - count * 4;
          if remaining < 1 then Some None
          else do {
            len \<leftarrow> cont_state_len (Some (drop off params));
            if len > 17 \<or> len > remaining then Some None
            else do {
              b \<leftarrow> rd8 params off;
              Some (Some (\<lparr>sr_error_code = 0, sr_total_count = total_count, sr_count = count, sr_has_more = (b \<noteq> 0),
                           sr_handles = Some handles\<rparr>, off)) } } } })"

text \<open>
  Where the attributes of a fragmented reply go: the total size and the buffer, which is allocated for the
  first fragment. \<open>Some None\<close> is the return of \<^verbatim>\<open>false\<close> for a list that is too long.
\<close>

definition attr_list_target ::
    "'e penv \<Rightarrow> attr_buffer option \<Rightarrow> mem \<Rightarrow> 'e pdev \<Rightarrow> (u32 \<times> mem) option option" where
  "attr_list_target XE de id_list s =
     (case de of
        None \<Rightarrow> do { total_len \<leftarrow> bte_sdp_de_get_total_size id_list;
                     Some (if total_len \<ge> 0x10000 then None
                           else Some (total_len, map (env_fresh (le_hci (sp_l2cap XE)) s) [0..<unat total_len])) }
      | Some Freed \<Rightarrow> None
      | Some (Live buf) \<Rightarrow> do { total_len \<leftarrow> bte_sdp_de_get_total_size buf; Some (Some (total_len, buf)) })"

definition parse_service_attr_reply ::
    "'e penv \<Rightarrow> nat \<Rightarrow> mem \<Rightarrow> u16 \<Rightarrow> 'e pdev \<Rightarrow> ((mem \<times> nat) option \<times> 'e pdev) option" where
  "parse_service_attr_reply XE sdp params param_len s =
     (if param_len < 3 then Some (None, s)
      else do {
        attrs_size \<leftarrow> read_be16 params 0;
        let id_list = drop 2 params;
        let off = 2 + unat attrs_size;
        let remaining = param_len - 2 - attrs_size;
        if remaining < 1 then Some (None, s)
        else do {
          len \<leftarrow> cont_state_len (Some (drop off params));
          if len > 17 \<or> len > remaining then Some (None, s)
          else do {
            b \<leftarrow> rd8 params off;
            c \<leftarrow> sdp_heap s sdp;
            if b \<noteq> 0 \<or> attr_list_de c \<noteq> None
            then do {
              target \<leftarrow> attr_list_target XE (attr_list_de c) id_list s;
              case target of None \<Rightarrow> Some (None, s)
              | Some (total_len, buf) \<Rightarrow> do {
                  if unat (attr_written c) + unat attrs_size > unat total_len
                  then do { s \<leftarrow> put_sdp sdp (c\<lparr>attr_list_de := Some (Live buf)\<rparr>) s; Some (None, s) }
                  else do {
                    bs \<leftarrow> slice id_list 0 (unat attrs_size);
                    buf \<leftarrow> wr buf (unat (attr_written c)) bs;
                    let written = attr_written c + attrs_size;
                    s \<leftarrow> put_sdp sdp (c\<lparr>attr_list_de := Some (Live buf), attr_written := written\<rparr>) s;
                    Some (if b = 0 \<and> ucast written \<noteq> total_len then None else Some (buf, off), s) } } }
            else do {
              total_len \<leftarrow> bte_sdp_de_get_total_size id_list;
              Some (if b = 0 \<and> ucast attrs_size \<noteq> total_len then None else Some (id_list, off), s) } } } })"

section \<open>Clients\<close>

definition bte_sdp_client_free :: "'e penv \<Rightarrow> nat \<Rightarrow> 'e pdev \<Rightarrow> 'e pdev option" where
  "bte_sdp_client_free XE sdp s =
     do { c \<leftarrow> sdp_heap s sdp;
          l2cap \<leftarrow> sc_l2cap c;
          s \<leftarrow> bte_l2cap_unref (sp_l2cap XE) l2cap s;
          Some (s\<lparr>sdp_heap := (sdp_heap s)(sdp := None)\<rparr>) }"

definition bte_sdp_client_new :: "nat \<Rightarrow> nat \<Rightarrow> 'e pdev \<Rightarrow> 'e pdev option" where
  "bte_sdp_client_new sdp l2cap s =
     do { s \<leftarrow> bte_l2cap_ref l2cap s;
          userdata \<leftarrow> bte_l2cap_get_userdata l2cap s;
          let s = s\<lparr>sdp_heap := (sdp_heap s)(sdp \<mapsto> \<lparr>sc_ref_count = 1, sc_userdata = userdata, sc_l2cap = Some l2cap,
                      last_req = None, continuation_offset = 0, req_cb = None, req_userdata = 0, attr_list_de = None,
                      attr_written = 0\<rparr>)\<rparr>;
          s \<leftarrow> bte_l2cap_set_userdata l2cap (of_nat sdp) s;
          bte_l2cap_on_message_received l2cap (Some ON_MESSAGE_RECEIVED) s }"

definition bte_sdp_client_ref :: "nat \<Rightarrow> 'e pdev \<Rightarrow> 'e pdev option" where
  "bte_sdp_client_ref = upd_sdp (\<lambda>c. c\<lparr>sc_ref_count := sc_ref_count c + 1\<rparr>)"

definition bte_sdp_client_unref :: "'e penv \<Rightarrow> nat \<Rightarrow> 'e pdev \<Rightarrow> 'e pdev option" where
  "bte_sdp_client_unref XE sdp s =
     do { c \<leftarrow> sdp_heap s sdp;
          s \<leftarrow> put_sdp sdp (c\<lparr>sc_ref_count := sc_ref_count c - 1\<rparr>) s;
          if sc_ref_count c = 1 then bte_sdp_client_free XE sdp s else Some s }"

definition bte_sdp_client_set_userdata :: "nat \<Rightarrow> u64 \<Rightarrow> 'e pdev \<Rightarrow> 'e pdev option" where
  "bte_sdp_client_set_userdata sdp userdata = upd_sdp (\<lambda>c. c\<lparr>sc_userdata := userdata\<rparr>) sdp"

definition bte_sdp_client_get_userdata :: "nat \<Rightarrow> 'e pdev \<Rightarrow> u64 option" where
  "bte_sdp_client_get_userdata sdp s = map_option sc_userdata (sdp_heap s sdp)"

definition bte_sdp_client_get_l2cap :: "nat \<Rightarrow> 'e pdev \<Rightarrow> nat option option" where
  "bte_sdp_client_get_l2cap sdp s = map_option sc_l2cap (sdp_heap s sdp)"

section \<open>Responses\<close>

text \<open>
  The two kinds of requests in \<^verbatim>\<open>on_message_received\<close>: whether the request is complete, and where its
  continuation state is.
\<close>

definition handle_search_response ::
    "'e penv \<Rightarrow> nat \<Rightarrow> u16 \<Rightarrow> mem \<Rightarrow> u16 \<Rightarrow> 'e pdev \<Rightarrow> (bool \<times> nat option \<times> 'e pdev) option" where
  "handle_search_response XE sdp error_code params param_len s =
     do { c \<leftarrow> sdp_heap s sdp;
          parsed \<leftarrow> (if error_code \<noteq> 0 then Some None else parse_service_search_reply params param_len);
          let (req_complete, cont, reply) =
            (case parsed of
               None \<Rightarrow> (True, None, \<lparr>sr_error_code = (if error_code = 0 then BTE_SDP_ERROR_PARSER else error_code),
                         sr_total_count = 0, sr_count = 0, sr_has_more = False, sr_handles = None\<rparr>)
             | Some (reply, off) \<Rightarrow> (\<not> sr_has_more reply, Some off, reply));
          cb \<leftarrow> req_cb c;
          (wants_more, s) \<leftarrow> sp_search XE cb sdp reply (req_userdata c) s;
          Some (req_complete \<or> \<not> wants_more, cont, s) }"

definition handle_attr_response ::
    "'e penv \<Rightarrow> nat \<Rightarrow> u16 \<Rightarrow> mem \<Rightarrow> u16 \<Rightarrow> 'e pdev \<Rightarrow> (bool \<times> nat option \<times> 'e pdev) option" where
  "handle_attr_response XE sdp error_code params param_len s =
     do { c \<leftarrow> sdp_heap s sdp;
          (parsed, s) \<leftarrow> (if error_code \<noteq> 0 then Some (None, s) else parse_service_attr_reply XE sdp params param_len s);
          (req_complete, cont, reply) \<leftarrow>
            (case parsed of
               None \<Rightarrow> Some (True, None, \<lparr>ar_error_code = (if error_code = 0 then BTE_SDP_ERROR_PARSER else error_code),
                              ar_attr_list_de = None\<rparr>)
             | Some (de, off) \<Rightarrow> do {
                 b \<leftarrow> rd8 params off;
                 Some (b = 0, Some off, \<lparr>ar_error_code = 0, ar_attr_list_de = Some de\<rparr>) });
          s \<leftarrow> (if req_complete
                then do {
                  cb \<leftarrow> req_cb c;
                  c \<leftarrow> sdp_heap s sdp;
                  s \<leftarrow> sp_attr XE cb sdp reply (req_userdata c) s;
                  upd_sdp (\<lambda>c. c\<lparr>attr_list_de := map_option (\<lambda>_. Freed) (attr_list_de c)\<rparr>) sdp s }
                else Some s);
          Some (req_complete, cont, s) }"

text \<open>
  The parameters are used where they are when they lie in one packet; otherwise they are copied, and
  what the message is short of stays uninitialised.
\<close>

definition response_params ::
    "'e penv \<Rightarrow> bte_buffer_reader \<Rightarrow> u16 \<Rightarrow> 'e pdev \<Rightarrow> mem option" where
  "response_params XE r param_len s =
     do { (params, r) \<leftarrow> bte_buffer_reader_read_n r param_len;
          case params of Some bs \<Rightarrow> Some bs
          | None \<Rightarrow> do {
              (bs, _, r) \<leftarrow> bte_buffer_reader_read True r param_len;
              Some (bs @ map (env_fresh (le_hci (sp_l2cap XE)) s) [length bs..<unat param_len]) } }"

definition on_response ::
    "'e penv \<Rightarrow> nat \<Rightarrow> byte \<Rightarrow> u16 \<Rightarrow> mem \<Rightarrow> u16 \<Rightarrow> 'e pdev \<Rightarrow> 'e pdev option" where
  "on_response XE sdp req_opcode error_code params param_len s =
     do { s \<leftarrow> bte_sdp_client_ref sdp s;
          (req_complete, cont, s) \<leftarrow>
            (if req_opcode = PDU_ID_SERVICE_SEARCH_REQ then handle_search_response XE sdp error_code params param_len s
             else if req_opcode = PDU_ID_SERVICE_ATTR_REQ \<or> req_opcode = PDU_ID_SERVICE_SEARCH_ATTR_REQ
             then handle_attr_response XE sdp error_code params param_len s
             else Some (False, None, s));
          s \<leftarrow> (if req_complete then upd_sdp (\<lambda>c. c\<lparr>last_req := None\<rparr>) sdp s
                else map_option snd (send_continuation_request XE sdp (map_option (\<lambda>off. drop off params) cont) s));
          bte_sdp_client_unref XE sdp s }"

definition on_message_received :: "'e penv \<Rightarrow> bte_buffer_reader \<Rightarrow> u64 \<Rightarrow> 'e pdev \<Rightarrow> 'e pdev option" where
  "on_message_received XE r userdata s =
     do { let sdp = unat userdata;
          c \<leftarrow> sdp_heap s sdp;
          case last_req c of None \<Rightarrow> Some s
          | Some req \<Rightarrow> do {
              req_opcode \<leftarrow> rd8 (data req) PDU_OFFSET_OPCODE;
              req_id \<leftarrow> slice (data req) PDU_OFFSET_TRANS_ID 2;
              (hdr, r) \<leftarrow> bte_buffer_reader_read_n r (of_nat PDU_HEADER_SIZE);
              hdr \<leftarrow> hdr;
              rsp_opcode \<leftarrow> rd8 hdr 0;
              rsp_id \<leftarrow> slice hdr 1 2;
              if rsp_id \<noteq> req_id \<or> unat rsp_opcode \<noteq> unat req_opcode + 1 \<and> rsp_opcode \<noteq> PDU_ID_ERROR_RSP then Some s
              else do {
                (error_code, r) \<leftarrow>
                  (if rsp_opcode = PDU_ID_ERROR_RSP
                   then do { (params, r) \<leftarrow> bte_buffer_reader_read_n r 2;
                             params \<leftarrow> params;
                             e \<leftarrow> read_be16 params 0;
                             Some (e, r) }
                   else Some (0, r));
                if rsp_opcode = PDU_ID_ERROR_RSP \<and> error_code = 0 then Some s
                else do {
                  param_len \<leftarrow> read_be16 hdr 3;
                  params \<leftarrow> response_params XE r param_len s;
                  on_response XE sdp req_opcode error_code params param_len s } } } }"

section \<open>Requests\<close>

text \<open>
  The three packets have the same shape: a header, some parts, and an empty continuation state. The
  sizes of the data elements are 32-bit numbers, of which a write takes the lower 16 bits. \<open>None\<close> inside of \<open>Some\<close> is the return of
  \<^verbatim>\<open>NULL\<close>; the offset of the continuation state is stored before it is written.
\<close>

fun write_parts :: "bte_buffer_writer \<Rightarrow> (mem \<times> u16) list \<Rightarrow> (bool \<times> bte_buffer_writer) option" where
  "write_parts w [] = Some (True, w)"
| "write_parts w ((bs, n) # parts) =
     do { (ok, w) \<leftarrow> bte_buffer_writer_write w bs n; if ok then write_parts w parts else Some (False, w) }"

definition req_packet ::
    "'e penv \<Rightarrow> nat \<Rightarrow> byte \<Rightarrow> u16 \<Rightarrow> (mem \<times> u16) list \<Rightarrow> u16 \<Rightarrow> 'e pdev \<Rightarrow> (chain option \<times> 'e pdev) option" where
  "req_packet XE sdp code sz parts offset s =
     do { c \<leftarrow> sdp_heap s sdp;
          l2cap \<leftarrow> sc_l2cap c;
          let (ident, s) = next_transaction_id s;
          w \<leftarrow> create_pdu XE l2cap code ident sz s;
          case w of None \<Rightarrow> Some (None, s)
          | Some w \<Rightarrow> do {
              (ok, w) \<leftarrow> write_parts w parts;
              if \<not> ok then Some (None, s)
              else do {
                s \<leftarrow> put_sdp sdp (c\<lparr>continuation_offset := offset\<rparr>) s;
                (ok, w) \<leftarrow> write_cont_state w None;
                if \<not> ok then Some (None, s)
                else do { chain \<leftarrow> bte_buffer_writer_end w; Some (Some chain, s) } } } }"

definition service_search_req_packet ::
    "'e penv \<Rightarrow> nat \<Rightarrow> mem \<Rightarrow> u16 \<Rightarrow> 'e pdev \<Rightarrow> (chain option \<times> 'e pdev) option" where
  "service_search_req_packet XE sdp pattern max_count s =
     do { pattern_size \<leftarrow> bte_sdp_de_get_total_size pattern;
          req_packet XE sdp PDU_ID_SERVICE_SEARCH_REQ (ucast (pattern_size + 2 + 1))
            [(pattern, ucast pattern_size), (be_bytes 2 max_count, 2)] (ucast (pattern_size + 2)) s }"

definition service_attr_req_packet ::
    "'e penv \<Rightarrow> nat \<Rightarrow> u32 \<Rightarrow> u16 \<Rightarrow> mem \<Rightarrow> 'e pdev \<Rightarrow> (chain option \<times> 'e pdev) option" where
  "service_attr_req_packet XE sdp service_record max_count id_list s =
     do { id_list_size \<leftarrow> bte_sdp_de_get_total_size id_list;
          req_packet XE sdp PDU_ID_SERVICE_ATTR_REQ (ucast (4 + 2 + id_list_size + 1))
            [(be_bytes 4 service_record, 4), (be_bytes 2 max_count, 2), (id_list, ucast id_list_size)]
            (ucast (4 + 2 + id_list_size)) s }"

definition service_search_attr_req_packet ::
    "'e penv \<Rightarrow> nat \<Rightarrow> mem \<Rightarrow> u16 \<Rightarrow> mem \<Rightarrow> 'e pdev \<Rightarrow> (chain option \<times> 'e pdev) option" where
  "service_search_attr_req_packet XE sdp pattern max_count id_list s =
     do { pattern_size \<leftarrow> bte_sdp_de_get_total_size pattern;
          id_list_size \<leftarrow> bte_sdp_de_get_total_size id_list;
          req_packet XE sdp PDU_ID_SERVICE_SEARCH_ATTR_REQ (ucast (pattern_size + 2 + id_list_size + 1))
            [(pattern, ucast pattern_size), (be_bytes 2 max_count, 2), (id_list, ucast id_list_size)]
            (ucast (pattern_size + 2 + id_list_size)) s }"

text \<open>What the three requests do with their packet.\<close>

definition send_request ::
    "'e penv \<Rightarrow> nat \<Rightarrow> chain option \<Rightarrow> (sdp_client \<Rightarrow> sdp_client) \<Rightarrow> 'e pdev \<Rightarrow> (bool \<times> 'e pdev) option" where
  "send_request XE sdp buffer done s =
     (case buffer of None \<Rightarrow> Some (False, s)
      | Some [] \<Rightarrow> None
      | Some (head # rest) \<Rightarrow> do {
          c \<leftarrow> sdp_heap s sdp;
          l2cap \<leftarrow> sc_l2cap c;
          s \<leftarrow> put_sdp sdp (c\<lparr>last_req := Some head\<rparr>) s;
          (rc, s) \<leftarrow> bte_l2cap_send_message (sp_l2cap XE) l2cap (head # rest) s;
          if rc < 0 then do { s \<leftarrow> upd_sdp (\<lambda>c. c\<lparr>last_req := None\<rparr>) sdp s; Some (False, s) }
          else do { s \<leftarrow> upd_sdp done sdp s; Some (True, s) } })"

definition bte_sdp_service_search_req ::
    "'e penv \<Rightarrow> nat \<Rightarrow> mem \<Rightarrow> u16 \<Rightarrow> cb_ptr \<Rightarrow> u64 \<Rightarrow> 'e pdev \<Rightarrow> (bool \<times> 'e pdev) option" where
  "bte_sdp_service_search_req XE sdp pattern max_count cb userdata s =
     do { c \<leftarrow> sdp_heap s sdp;
          if last_req c \<noteq> None then Some (False, s)
          else do {
            (buffer, s) \<leftarrow> service_search_req_packet XE sdp pattern max_count s;
            send_request XE sdp buffer (\<lambda>c. c\<lparr>req_cb := cb, req_userdata := userdata\<rparr>) s } }"

text \<open>The buffer of 32 bytes is not initialised.\<close>

definition bte_sdp_service_search_req_uuid16 ::
    "'e penv \<Rightarrow> nat \<Rightarrow> mem \<Rightarrow> int \<Rightarrow> u16 \<Rightarrow> cb_ptr \<Rightarrow> u64 \<Rightarrow> 'e pdev \<Rightarrow> (bool \<times> 'e pdev) option" where
  "bte_sdp_service_search_req_uuid16 XE sdp uuids n_uuids max_count cb userdata s =
     (if n_uuids > 12 then Some (False, s)
      else do {
        (_, buffer) \<leftarrow> bte_sdp_de_write (Some (map (env_fresh (le_hci (sp_l2cap XE)) s) [0..<32])) 32
          [Va_int (ucast BTE_SDP_DE_TYPE_SEQUENCE), Va_int (BTE_SDP_DE_ARRAY (word_of_int n_uuids)),
           Va_int (ucast BTE_SDP_DE_TYPE_UUID16), Va_mem uuids, Va_int BTE_SDP_DE_END, Va_int BTE_SDP_DE_END];
        bte_sdp_service_search_req XE sdp buffer max_count cb userdata s })"

definition attr_request_done :: "cb_ptr \<Rightarrow> u64 \<Rightarrow> sdp_client \<Rightarrow> sdp_client" where
  "attr_request_done cb userdata c =
     c\<lparr>req_cb := cb, req_userdata := userdata, attr_list_de := None, attr_written := 0\<rparr>"

definition bte_sdp_service_attr_req ::
    "'e penv \<Rightarrow> nat \<Rightarrow> u32 \<Rightarrow> u16 \<Rightarrow> mem \<Rightarrow> cb_ptr \<Rightarrow> u64 \<Rightarrow> 'e pdev \<Rightarrow> (bool \<times> 'e pdev) option" where
  "bte_sdp_service_attr_req XE sdp service_record max_count id_list cb userdata s =
     do { c \<leftarrow> sdp_heap s sdp;
          if last_req c \<noteq> None then Some (False, s)
          else do {
            (buffer, s) \<leftarrow> service_attr_req_packet XE sdp service_record max_count id_list s;
            send_request XE sdp buffer (attr_request_done cb userdata) s } }"

definition bte_sdp_service_search_attr_req ::
    "'e penv \<Rightarrow> nat \<Rightarrow> mem \<Rightarrow> u16 \<Rightarrow> mem \<Rightarrow> cb_ptr \<Rightarrow> u64 \<Rightarrow> 'e pdev \<Rightarrow> (bool \<times> 'e pdev) option" where
  "bte_sdp_service_search_attr_req XE sdp pattern max_count id_list cb userdata s =
     do { c \<leftarrow> sdp_heap s sdp;
          if last_req c \<noteq> None then Some (False, s)
          else do {
            (buffer, s) \<leftarrow> service_search_attr_req_packet XE sdp pattern max_count id_list s;
            send_request XE sdp buffer (attr_request_done cb userdata) s } }"

definition bte_sdp_reset :: "'e pdev \<Rightarrow> 'e pdev" where
  "bte_sdp_reset s = s\<lparr>s_next_transaction_id := 0\<rparr>"

text \<open>The environment of the channels when a client of the protocol is in use.\<close>

definition sdp_channel_client :: "'e penv \<Rightarrow> l2cap_call \<Rightarrow> 'e pdev \<Rightarrow> 'e pdev option" where
  "sdp_channel_client XE c s =
     (if lc_cb c = ON_MESSAGE_RECEIVED then
        (case lc_arg c of Message_received r \<Rightarrow> on_message_received XE r (lc_userdata c) s | _ \<Rightarrow> None)
      else le_client (sp_l2cap XE) c s)"

definition sdp_l2cap_env :: "'e penv \<Rightarrow> 'e sdp_dev_scheme l2cap_env" where
  "sdp_l2cap_env XE = (sp_l2cap XE)\<lparr>le_client := sdp_channel_client XE\<rparr>"

end
