(* ===== verification/SdpExchange.thy ===== *)
theory SdpExchange
  imports SdpClient L2capConfigure
begin

text \<open>
  The client of the service discovery protocol at work: the packets that its requests put on the wire, and what it
  makes of the responses, with their continuation and the reassembly of attribute lists.
\<close>

section \<open>Messages of the protocol\<close>

definition pdu :: "byte \<Rightarrow> u16 \<Rightarrow> mem \<Rightarrow> mem" where
  "pdu code ident body = [code] @ be_bytes 2 ident @ be_bytes 2 (of_nat (length body) :: u16) @ body"

lemma pdu_len [simp]: "length (pdu code ident body) = length body + 5"
  by (simp add: pdu_def)

text \<open>A writer for a message of \<open>n\<close> bytes behind its first pointers.\<close>

definition filling :: "nat \<Rightarrow> bte_acl \<Rightarrow> nat \<Rightarrow> mem \<Rightarrow> bte_buffer_writer \<Rightarrow> bool" where
  "filling m a n bs w \<longleftrightarrow> message_writer (acl_conn_handle a) 0 m (packets_needed n m) n w \<and>
     writer_ok w \<and> writer_out w = bs \<and> writer_room w = packets_needed n m * m - length bs"

lemma frame_writer_filling: "frame_writer m a n bs w \<Longrightarrow> filling m a n bs w"
  by (simp add: frame_writer_def filling_def)

lemma filling_write:
  assumes "filling m a n bs w" "length body = unat k" "length bs + length body \<le> n"
  shows "\<exists>w'. bte_buffer_writer_write w body k = Some (True, w') \<and> filling m a n (bs @ body) w'"
proof -
  have w: "message_writer (acl_conn_handle a) 0 m (packets_needed n m) n w" "writer_ok w" "writer_out w = bs"
      "writer_room w = packets_needed n m * m - length bs"
    using assms(1) by (simp_all add: filling_def)
  have "n \<le> packets_needed n m * m" using w(1) unfolding message_writer_def by blast
  then have "unat k \<le> writer_room w" using assms(2,3) w(4) by simp
  from writer_write_fills [OF w(2) assms(2) this]
  obtain w' where w': "bte_buffer_writer_write w body k = Some (True, w')" "writer_ok w'" "same_frames w w'"
      "writer_out w' = writer_out w @ body" "writer_room w' = writer_room w - length body" by blast
  show ?thesis using w' message_writer_step [OF w(1) w'(3,2)] w(3,4) by (auto simp: filling_def)
qed

lemma filling_parts:
  assumes "filling m a n bs w" "list_all (\<lambda>(p, k). length p = unat k) parts" "length bs + length (concat (map fst parts)) \<le> n"
  shows "\<exists>w'. write_parts w parts = Some (True, w') \<and> filling m a n (bs @ concat (map fst parts)) w'"
  using assms
proof (induction parts arbitrary: bs w)
  case (Cons part parts)
  obtain p k where part: "part = (p, k)" by fastforce
  obtain w1 where w1: "bte_buffer_writer_write w p k = Some (True, w1)" "filling m a n (bs @ p) w1"
    using filling_write [OF Cons.prems(1), of p k] Cons.prems(2,3) part by auto
  obtain w2 where "write_parts w1 parts = Some (True, w2)" "filling m a n ((bs @ p) @ concat (map fst parts)) w2"
    using Cons.IH [OF w1(2)] Cons.prems(2,3) part by auto
  then show ?case using w1(1) part by simp
qed simp

text \<open>A channel that messages can be sent on.\<close>

definition sending :: "nat \<Rightarrow> nat \<Rightarrow> bte_acl \<Rightarrow> nat \<Rightarrow> bte_l2cap \<Rightarrow> 'c ldev \<Rightarrow> bool" where
  "sending m acl a p l s \<longleftrightarrow> link_ready m acl a s \<and> l2cap_heap s p = Some l \<and> l_acl l = Some acl \<and> l_state l = BTE_L2CAP_OPEN \<and>
     remote_channel_id l \<noteq> 0"

lemma sendingD:
  assumes "sending m acl a p l s"
  shows "link_ready m acl a s" "l2cap_heap s p = Some l" "l_acl l = Some acl" "l_state l = BTE_L2CAP_OPEN" "remote_channel_id l \<noteq> 0"
  using assms by (simp_all add: sending_def)

lemma create_pdu_spec:
  assumes "sending m acl a p l s" "9 \<le> m" "5 + unat n \<le> unat (l_remote_mtu l)" "fits m (unat n + 9)"
  shows "\<exists>w. create_pdu XE p code ident n s = Some (Some w) \<and>
    frame_writer m a (unat n + 9) (le_bytes 2 (5 + n) @ le_bytes 2 (remote_channel_id l) @ [code] @ be_bytes 2 ident @ be_bytes 2 n) w"
proof -
  note c = sendingD [OF assms(1)]
  have "unat n + 9 < 65536" by (rule fits_bound [OF assms(4)]) (use assms(2) in simp_all)
  then have u: "unat (5 + n) = unat n + 5" by (simp add: unat_word_ariths)
  have ft: "fits m (unat (5 + n) + 4)" using assms(4) unfolding u by (simp add: ac_simps)
  obtain w where w: "acl_l2cap_create_message (sp_l2cap XE) acl (5 + n) (remote_channel_id l) s = Some (Some w)"
      "frame_writer m a (unat (5 + n) + 4) (le_bytes 2 (5 + n) @ le_bytes 2 (remote_channel_id l)) w"
    using create_frame [OF c(1) ft] by blast
  have e: "unat (5 + n) + 4 = unat n + 9" using u by simp
  let ?h = "[code] @ be_bytes 2 ident @ be_bytes 2 n"
  obtain off w1 w2 where w2: "bte_buffer_writer_ptr_n w 5 = Some (Some off, w1)" "writer_poke w1 off ?h = Some w2"
      "frame_writer m a (unat n + 9) ((le_bytes 2 (5 + n) @ le_bytes 2 (remote_channel_id l)) @ ?h) w2"
    using frame_writer_ptr [OF w(2) [unfolded e], of ?h 5] assms(2) by auto
  have "\<not> 5 + n > l_remote_mtu l" using assms(3) u by (simp add: not_less word_le_nat_alt)
  then have "bte_l2cap_create_message (sp_l2cap XE) p (5 + n) s = Some (Some w)"
    using c w(1) by (simp add: bte_l2cap_create_message_def)
  then show ?thesis using w2 by (simp add: create_pdu_def del: writer_poke.simps)
qed

lemma pdu_bytes:
  assumes "length body = unat (n :: u16)" "unat n + 5 < 65536"
  shows "(le_bytes 2 (5 + n) @ le_bytes 2 cid @ [code] @ be_bytes 2 ident @ be_bytes 2 n) @ body = l2cap_frame cid (pdu code ident body)"
  using assms by (simp add: l2cap_frame_def pdu_def)

text \<open>The request that a client waits for a response to, as its first packet holds it.\<close>

definition pending :: "nat \<Rightarrow> u16 \<Rightarrow> byte \<Rightarrow> u16 \<Rightarrow> mem \<Rightarrow> bte_buffer \<Rightarrow> bool" where
  "pending m cid code ident body req \<longleftrightarrow> 9 \<le> m \<and> (\<exists>hdr rest. length hdr = 4 \<and>
     data req = hdr @ take m (l2cap_frame cid (pdu code ident body)) @ rest)"

lemma take_header: "length hs = k \<Longrightarrow> k \<le> m \<Longrightarrow> take m (hs @ bs) = hs @ take (m - k) bs"
  by simp

lemma pending_reads:
  assumes "pending m cid code ident body req"
  shows "rd8 (data req) PDU_OFFSET_OPCODE = Some code" "slice (data req) PDU_OFFSET_TRANS_ID 2 = Some (be_bytes 2 ident)"
    "n \<le> length body \<Longrightarrow> n + 9 \<le> m \<Longrightarrow> slice (data req) PDU_OFFSET_PARAMS n = Some (take n body)"
proof -
  obtain hdr rest where h: "9 \<le> m" "length hdr = 4" "data req = hdr @ take m (l2cap_frame cid (pdu code ident body)) @ rest"
    using assms by (auto simp: pending_def)
  let ?len = "le_bytes 2 (of_nat (length (pdu code ident body)) :: u16)" and ?n = "be_bytes 2 (of_nat (length body) :: u16)"
  let ?H = "?len @ le_bytes 2 cid @ [code] @ be_bytes 2 ident @ ?n"
  have "l2cap_frame cid (pdu code ident body) = ?H @ body" and l9: "length ?H = 9"
    by (simp_all add: l2cap_frame_def pdu_def)
  then have "take m (l2cap_frame cid (pdu code ident body)) = ?H @ take (m - 9) body"
    using take_header [OF l9 h(1)] by metis
  then have d: "data req = (hdr @ ?len @ le_bytes 2 cid) @ [code] @ be_bytes 2 ident @ ?n @ take (m - 9) body @ rest"
    using h(3) by simp
  have l8: "length (hdr @ ?len @ le_bytes 2 cid) = 8" using h(2) by simp
  show "rd8 (data req) 8 = Some code" unfolding d using l8 by (simp add: rd8_def nth_append)
  show "slice (data req) 9 2 = Some (be_bytes 2 ident)" unfolding d using l8 by (simp add: slice_def)
  show "slice (data req) 13 n = Some (take n body)" if "n \<le> length body" "n + 9 \<le> m"
    unfolding d using l8 that by (simp add: slice_def)
qed

lemma pending_head:
  assumes "map packet_bytes (req # rest) = l2cap_packets m a cid (pdu code ident body)" "9 \<le> m"
  shows "pending m cid code ident body req"
proof -
  let ?F = "l2cap_frame cid (pdu code ident body)"
  have "?F \<noteq> []" by (metis frame_len(1) length_0_conv zero_neq_numeral add_is_0)
  then have "packet_bytes req = acl_header (acl_conn_handle a) 0 2 (min (length ?F) m) @ take m ?F"
    using assms by (subst (asm) acl_fragments.simps) auto
  then have "data req = acl_header (acl_conn_handle a) 0 2 (min (length ?F) m) @ take m ?F @ drop (unat (size req)) (data req)"
    by (metis append.assoc append_take_drop_id packet_bytes_def)
  moreover have "length (acl_header (acl_conn_handle a) 0 2 (min (length ?F) m)) = 4" by simp
  ultimately show ?thesis using assms(2) unfolding pending_def by blast
qed

section \<open>Requests\<close>

text \<open>One step of a client: its record has changed and packets are on the wire.\<close>

definition client_step :: "mem list \<Rightarrow> nat \<Rightarrow> sdp_client \<Rightarrow> 'e pdev \<Rightarrow> 'e pdev \<Rightarrow> bool" where
  "client_step pkts sdp c s s' \<longleftrightarrow> wire s' = wire s @ pkts \<and> sdp_heap s' = (sdp_heap s)(sdp \<mapsto> c) \<and> l2cap_heap s' = l2cap_heap s \<and>
     sdp_dev.more s' = sdp_dev.more s \<and>
     (\<forall>m acl a. link_ready m acl a s \<longrightarrow> link_ready m acl a s')"

definition set_sdp :: "nat \<Rightarrow> sdp_client \<Rightarrow> 'e pdev \<Rightarrow> 'e pdev" where
  "set_sdp sdp c s = s\<lparr>sdp_heap := (sdp_heap s)(sdp \<mapsto> c)\<rparr>"

lemma set_sdp_simps [simp]:
  "sdp_heap (set_sdp sdp c s) = (sdp_heap s)(sdp \<mapsto> c)" "set_sdp sdp c (set_sdp sdp d s) = set_sdp sdp c s"
  "l2cap_heap (set_sdp sdp c s) = l2cap_heap s" "wire (set_sdp sdp c s) = wire s"
  "link_ready m acl a (set_sdp sdp c s) = link_ready m acl a s" "sending m acl a p l (set_sdp sdp c s) = sending m acl a p l s"
  "outgoing_acl_packets (set_sdp sdp c s) = outgoing_acl_packets s"
  "s_next_transaction_id (set_sdp sdp c s) = s_next_transaction_id s" "sdp_dev.more (set_sdp sdp c s) = sdp_dev.more s"
  by (simp_all add: set_sdp_def wire_def link_ready_def sending_def)

lemma put_sdp_eq: "sdp_heap s sdp = Some d \<Longrightarrow> put_sdp sdp c s = Some (set_sdp sdp c s)"
  by (simp add: put_sdp_def set_sdp_def)

lemma upd_sdp_eq: "sdp_heap s sdp = Some d \<Longrightarrow> upd_sdp f sdp s = Some (set_sdp sdp (f d) s)"
  by (simp add: upd_sdp_def put_sdp_eq)

lemma hands_over_sdp:
  "hands_over pkts s s' \<Longrightarrow> sdp_heap s' = sdp_heap s \<and> s_next_transaction_id s' = s_next_transaction_id s \<and> sdp_dev.more s' = sdp_dev.more s"
  by (auto simp: hands_over_def)

lemma transaction_simps [simp]:
  "sending m acl a p l (s\<lparr>s_next_transaction_id := i\<rparr>) = sending m acl a p l s"
  "wire (s\<lparr>s_next_transaction_id := i\<rparr>) = wire s"
  "link_ready m acl a (s\<lparr>s_next_transaction_id := i\<rparr>) = link_ready m acl a s"
  by (simp_all add: sending_def link_ready_def wire_def)

text \<open>The packets of a message that is complete, and how they are sent.\<close>

lemma filling_end:
  assumes "filling m a (unat n + 9) (l2cap_frame cid (pdu code ident body)) w" "length body = unat n" "9 \<le> m"
  shows "\<exists>req rest. bte_buffer_writer_end w = Some (req # rest) \<and> chain_ok (req # rest) \<and>
    map packet_bytes (req # rest) = l2cap_packets m a cid (pdu code ident body) \<and> pending m cid code ident body req"
proof -
  have w: "message_writer (acl_conn_handle a) 0 m (packets_needed (unat n + 9) m) (unat n + 9) w"
      "writer_out w = l2cap_frame cid (pdu code ident body)"
    using assms(1) by (simp_all add: filling_def)
  have "length (writer_out w) = unat n + 9" using w(2) assms(2) by simp
  from message_end [OF w(1) this] obtain c where c: "bte_buffer_writer_end w = Some c" "chain_ok c" "c \<noteq> []"
      "map packet_bytes c = l2cap_packets m a cid (pdu code ident body)" unfolding w(2) by blast
  then show ?thesis using pending_head [OF _ assms(3)] by (cases c) auto
qed

lemma send_pdu:
  assumes "sending m acl a p l s" "chain_ok c" "c \<noteq> []" "accepting (le_hci LE)"
  shows "\<exists>rc s'. bte_l2cap_send_message LE p c s = Some (rc, s') \<and> 0 \<le> rc \<and> hands_over (map packet_bytes c) s s'"
proof -
  note d = sendingD [OF assms(1)]
  have "chain_ok (outgoing_acl_packets s)" using d(1) by (simp add: link_ready_def)
  from send_l2cap_spec [OF assms(4) this assms(2,3)]
  show ?thesis using d(2,4) by (auto simp: send_l2cap_def bte_l2cap_send_message_def split: Option.bind_splits)
qed

lemma req_packet_spec:
  assumes "sending m acl a p l s" "sdp_heap s sdp = Some c" "sc_l2cap c = Some p" "9 \<le> m"
    "list_all (\<lambda>(q, k). length q = unat k) parts" "body = concat (map fst parts) @ [0]" "length body = unat n"
    "5 + unat n \<le> unat (l_remote_mtu l)" "fits m (unat n + 9)" "ident = ucast (s_next_transaction_id s)"
  shows "\<exists>req rest. req_packet XE sdp code n parts offset s = Some (Some (req # rest),
      set_sdp sdp (c\<lparr>continuation_offset := offset\<rparr>) (s\<lparr>s_next_transaction_id := s_next_transaction_id s + 1\<rparr>)) \<and>
    chain_ok (req # rest) \<and> map packet_bytes (req # rest) = l2cap_packets m a (remote_channel_id l) (pdu code ident body) \<and>
    pending m (remote_channel_id l) code ident body req"
proof -
  let ?s = "s\<lparr>s_next_transaction_id := s_next_transaction_id s + 1\<rparr>"
  let ?H = "le_bytes 2 (5 + n) @ le_bytes 2 (remote_channel_id l) @ [code] @ be_bytes 2 ident @ be_bytes 2 n"
  have sg: "sending m acl a p l ?s" using assms(1) by simp
  obtain w where w: "create_pdu XE p code ident n ?s = Some (Some w)" "frame_writer m a (unat n + 9) ?H w"
    using create_pdu_spec [OF sg assms(4,8,9)] by blast
  have lp: "length (concat (map fst parts)) + 1 = unat n" using assms(6,7) by simp
  have lh: "length ?H = 9" by simp
  obtain w1 where w1: "write_parts w parts = Some (True, w1)" "filling m a (unat n + 9) (?H @ concat (map fst parts)) w1"
    using filling_parts [OF frame_writer_filling [OF w(2)] assms(5)] lp lh by auto
  obtain w2 where w2: "bte_buffer_writer_write w1 [0] 1 = Some (True, w2)" "filling m a (unat n + 9) ((?H @ concat (map fst parts)) @ [0]) w2"
    using filling_write [OF w1(2), of "[0]" 1] lp lh by auto
  have n5: "unat n + 5 < 65536" using fits_bound [OF assms(9)] assms(4) by simp
  have "(?H @ concat (map fst parts)) @ [0] = l2cap_frame (remote_channel_id l) (pdu code ident body)"
    using pdu_bytes [OF assms(7) n5, of "remote_channel_id l" code ident] assms(6) by simp
  from filling_end [OF w2(2) [unfolded this] assms(7,4)]
  obtain req rest where e: "bte_buffer_writer_end w2 = Some (req # rest)" "chain_ok (req # rest)"
      "map packet_bytes (req # rest) = l2cap_packets m a (remote_channel_id l) (pdu code ident body)"
      "pending m (remote_channel_id l) code ident body req" by blast
  have "req_packet XE sdp code n parts offset s = Some (Some (req # rest), set_sdp sdp (c\<lparr>continuation_offset := offset\<rparr>) ?s)"
    using assms(2,3,10) w(1) w1(1) w2(1) e(1)
    by (simp add: req_packet_def next_transaction_id_def write_cont_state_def cont_state_len_def put_sdp_def set_sdp_def
        del: bte_buffer_writer_end.simps)
  then show ?thesis using e(2-4) by blast
qed

lemma send_request_spec:
  assumes "sending m acl a p l s" "sdp_heap s sdp = Some c" "sc_l2cap c = Some p" "accepting (le_hci (sp_l2cap XE))" "chain_ok (req # rest)"
  shows "\<exists>s'. send_request XE sdp (Some (req # rest)) f s = Some (True, s') \<and>
    client_step (map packet_bytes (req # rest)) sdp (f (c\<lparr>last_req := Some req\<rparr>)) s s' \<and>
    s_next_transaction_id s' = s_next_transaction_id s"
proof -
  let ?s = "set_sdp sdp (c\<lparr>last_req := Some req\<rparr>) s"
  have "sending m acl a p l ?s" using assms(1) by simp
  from send_pdu [OF this assms(5) _ assms(4)] obtain rc s1 where s1:
      "bte_l2cap_send_message (sp_l2cap XE) p (req # rest) ?s = Some (rc, s1)" "0 \<le> rc" "hands_over (map packet_bytes (req # rest)) ?s s1"
    by auto
  note h = hands_over_heap [OF s1(3)] hands_over_sdp [OF s1(3)]
  let ?s' = "set_sdp sdp (f (c\<lparr>last_req := Some req\<rparr>)) s1"
  have "send_request XE sdp (Some (req # rest)) f s = Some (True, ?s')"
    using assms(2,3) s1(1,2) h by (simp add: send_request_def put_sdp_eq upd_sdp_def)
  moreover have "client_step (map packet_bytes (req # rest)) sdp (f (c\<lparr>last_req := Some req\<rparr>)) s ?s'"
    using h s1(3) hands_over_ready [OF s1(3)] by (simp add: client_step_def hands_over_def)
  ultimately show ?thesis using h by auto
qed

lemma sdp_request_sent:
  assumes "sending m acl a p l s" "sdp_heap s sdp = Some c" "sc_l2cap c = Some p" "9 \<le> m" "accepting (le_hci (sp_l2cap XE))"
    "list_all (\<lambda>(q, k). length q = unat k) parts" "body = concat (map fst parts) @ [0]" "length body = unat n"
    "5 + unat n \<le> unat (l_remote_mtu l)" "fits m (unat n + 9)" "ident = ucast (s_next_transaction_id s)"
  shows "\<exists>s' req. do { (buffer, s) \<leftarrow> req_packet XE sdp code n parts offset s; send_request XE sdp buffer f s } = Some (True, s') \<and>
    client_step (l2cap_packets m a (remote_channel_id l) (pdu code ident body)) sdp
      (f (c\<lparr>continuation_offset := offset, last_req := Some req\<rparr>)) s s' \<and>
    pending m (remote_channel_id l) code ident body req \<and> s_next_transaction_id s' = s_next_transaction_id s + 1"
proof -
  let ?s = "set_sdp sdp (c\<lparr>continuation_offset := offset\<rparr>) (s\<lparr>s_next_transaction_id := s_next_transaction_id s + 1\<rparr>)"
  obtain req rest where r: "req_packet XE sdp code n parts offset s = Some (Some (req # rest), ?s)" "chain_ok (req # rest)"
      "map packet_bytes (req # rest) = l2cap_packets m a (remote_channel_id l) (pdu code ident body)"
      "pending m (remote_channel_id l) code ident body req"
    using req_packet_spec [OF assms(1-4,6-11)] by blast
  have sg: "sending m acl a p l ?s" using assms(1) by simp
  have h: "sdp_heap ?s sdp = Some (c\<lparr>continuation_offset := offset\<rparr>)" by simp
  have l: "sc_l2cap (c\<lparr>continuation_offset := offset\<rparr>) = Some p" using assms(3) by simp
  obtain s' where s': "send_request XE sdp (Some (req # rest)) f ?s = Some (True, s')"
      "client_step (map packet_bytes (req # rest)) sdp (f (c\<lparr>continuation_offset := offset, last_req := Some req\<rparr>)) ?s s'"
      "s_next_transaction_id s' = s_next_transaction_id s + 1"
    using send_request_spec [OF sg h l assms(5) r(2)] by auto
  have "client_step (l2cap_packets m a (remote_channel_id l) (pdu code ident body)) sdp
      (f (c\<lparr>continuation_offset := offset, last_req := Some req\<rparr>)) s s'"
    using s'(2) unfolding r(3) by (simp add: client_step_def)
  then show ?thesis using r(1,4) s'(1,3) by auto
qed

text \<open>A data element, as its first bytes announce it, of a size that fits into a message.\<close>

definition element :: "mem \<Rightarrow> bool" where
  "element de \<longleftrightarrow> bte_sdp_de_get_total_size de = Some (of_nat (length de)) \<and> length de < 30000"

lemma low_half: "n < 65536 \<Longrightarrow> (ucast (of_nat n :: u32) :: u16) = of_nat n"
  by (simp add: unsigned_of_nat take_bit_nat_eq_self)

text \<open>
  A client without a request in progress, whose channel can send \<open>n\<close> bytes of parameters.
\<close>

definition idle_client :: "'e penv \<Rightarrow> nat \<Rightarrow> nat \<Rightarrow> bte_acl \<Rightarrow> nat \<Rightarrow> bte_l2cap \<Rightarrow> nat \<Rightarrow> sdp_client \<Rightarrow> nat \<Rightarrow> 'e pdev \<Rightarrow> bool" where
  "idle_client XE m acl a p l sdp c n s \<longleftrightarrow> sending m acl a p l s \<and> sdp_heap s sdp = Some c \<and> sc_l2cap c = Some p \<and> last_req c = None \<and>
     9 \<le> m \<and> accepting (le_hci (sp_l2cap XE)) \<and> 5 + n \<le> unat (l_remote_mtu l) \<and> fits m (n + 9)"

text \<open>The outcome of a request.\<close>

definition requested ::
    "nat \<Rightarrow> bte_acl \<Rightarrow> bte_l2cap \<Rightarrow> nat \<Rightarrow> sdp_client \<Rightarrow> byte \<Rightarrow> mem \<Rightarrow> 'e pdev \<Rightarrow> (bool \<times> 'e pdev) option \<Rightarrow> bool" where
  "requested m a l sdp c code params s result \<longleftrightarrow> (\<exists>s' req. result = Some (True, s') \<and>
     client_step (l2cap_packets m a (remote_channel_id l) (pdu code (ucast (s_next_transaction_id s)) (params @ [0]))) sdp
       (c\<lparr>continuation_offset := of_nat (length params), last_req := Some req\<rparr>) s s' \<and>
     pending m (remote_channel_id l) code (ucast (s_next_transaction_id s)) (params @ [0]) req \<and>
     s_next_transaction_id s' = s_next_transaction_id s + 1)"

lemma request_made:
  assumes "idle_client XE m acl a p l sdp c (length params + 1) s" "unat n = length params + 1"
    "list_all (\<lambda>(q, k). length q = unat k) parts" "params = concat (map fst parts)" "offset = of_nat (length params)"
    and f: "\<And>req. f (c\<lparr>continuation_offset := offset, last_req := Some req\<rparr>) = d\<lparr>continuation_offset := offset, last_req := Some req\<rparr>"
  shows "requested m a l sdp d code params s
    (do { (buffer, s) \<leftarrow> req_packet XE sdp code n parts offset s; send_request XE sdp buffer f s })"
proof -
  note i = assms(1) [unfolded idle_client_def]
  have n: "5 + unat n \<le> unat (l_remote_mtu l)" "fits m (unat n + 9)" "length (params @ [0]) = unat n" "params @ [0] = concat (map fst parts) @ [0]"
    using i assms(2,4) by simp_all
  show ?thesis
    using sdp_request_sent [of m acl a p l s sdp c XE parts "params @ [0]" n "ucast (s_next_transaction_id s)" code offset f] i n assms(3,5) f
    unfolding requested_def by (auto simp: idle_client_def)
qed

lemma requests_sent:
  assumes "element pattern" "element ids"
    and "idle_client XE m acl a p l sdp c (length pattern + length ids + 7) s"
  shows "requested m a l sdp (c\<lparr>req_cb := cb, req_userdata := ud\<rparr>) PDU_ID_SERVICE_SEARCH_REQ (pattern @ be_bytes 2 max_count) s
      (bte_sdp_service_search_req XE sdp pattern max_count cb ud s) \<and>
    requested m a l sdp (attr_request_done cb ud c) PDU_ID_SERVICE_ATTR_REQ (be_bytes 4 record @ be_bytes 2 max_count @ ids) s
      (bte_sdp_service_attr_req XE sdp record max_count ids cb ud s) \<and>
    requested m a l sdp (attr_request_done cb ud c) PDU_ID_SERVICE_SEARCH_ATTR_REQ (pattern @ be_bytes 2 max_count @ ids) s
      (bte_sdp_service_search_attr_req XE sdp pattern max_count ids cb ud s)"
proof (intro conjI)
  have i: "idle_client XE m acl a p l sdp c n s" if "n \<le> length pattern + length ids + 7" for n
    using assms(3) that fits_mono [of m "length pattern + length ids + 7 + 9" "n + 9"] by (auto simp: idle_client_def)
  have pn: "bte_sdp_de_get_total_size pattern = Some (of_nat (length pattern))" "bte_sdp_de_get_total_size ids = Some (of_nat (length ids))"
    using assms(1,2) by (simp_all add: element_def)
  have h: "sdp_heap s sdp = Some c" "last_req c = None" using assms(3) by (simp_all add: idle_client_def)
  let ?p = "length pattern" and ?i = "length ids"
  have lt: "?p < 30000" "?i < 30000" using assms(1,2) by (simp_all add: element_def)
  have w: "ucast (of_nat ?p :: u32) = (of_nat ?p :: u16)" "ucast (of_nat ?i :: u32) = (of_nat ?i :: u16)"
      "ucast (of_nat ?p + 2 + 1 :: u32) = (of_nat (?p + 3) :: u16)" "ucast (of_nat ?p + 2 :: u32) = (of_nat (?p + 2) :: u16)"
      "ucast (4 + 2 + of_nat ?i + 1 :: u32) = (of_nat (?i + 7) :: u16)" "ucast (4 + 2 + of_nat ?i :: u32) = (of_nat (?i + 6) :: u16)"
      "ucast (of_nat ?p + 2 + of_nat ?i + 1 :: u32) = (of_nat (?p + ?i + 3) :: u16)"
      "ucast (of_nat ?p + 2 + of_nat ?i :: u32) = (of_nat (?p + ?i + 2) :: u16)"
    using lt low_half [of ?p] low_half [of ?i] low_half [of "?p + 3"] low_half [of "?p + 2"] low_half [of "?i + 7"]
      low_half [of "?i + 6"] low_half [of "?p + ?i + 3"] low_half [of "?p + ?i + 2"]
    by (simp_all add: algebra_simps)
  have u: "unat (of_nat k :: u16) = k" if "k \<le> ?p + ?i + 7" for k using that lt by (intro u16_of_nat) simp
  have u': "unat (of_nat ?p + 3 :: u16) = ?p + 3" "unat (of_nat ?i + 7 :: u16) = ?i + 7" "unat (of_nat ?p + of_nat ?i + 3 :: u16) = ?p + ?i + 3"
    using u [of "?p + 3"] u [of "?i + 7"] u [of "?p + ?i + 3"] by simp_all
  show "requested m a l sdp (c\<lparr>req_cb := cb, req_userdata := ud\<rparr>) PDU_ID_SERVICE_SEARCH_REQ (pattern @ be_bytes 2 max_count) s
      (bte_sdp_service_search_req XE sdp pattern max_count cb ud s)"
    unfolding bte_sdp_service_search_req_def service_search_req_packet_def h pn w Option.bind.simps if_False simp_thms
    by (rule request_made [OF i]) (simp_all add: u u')
  show "requested m a l sdp (attr_request_done cb ud c) PDU_ID_SERVICE_ATTR_REQ (be_bytes 4 record @ be_bytes 2 max_count @ ids) s
      (bte_sdp_service_attr_req XE sdp record max_count ids cb ud s)"
    unfolding bte_sdp_service_attr_req_def service_attr_req_packet_def h pn w Option.bind.simps if_False simp_thms
    by (rule request_made [OF i]) (simp_all add: u u' attr_request_done_def)
  show "requested m a l sdp (attr_request_done cb ud c) PDU_ID_SERVICE_SEARCH_ATTR_REQ (pattern @ be_bytes 2 max_count @ ids) s
      (bte_sdp_service_search_attr_req XE sdp pattern max_count ids cb ud s)"
    unfolding bte_sdp_service_search_attr_req_def service_search_attr_req_packet_def h pn w Option.bind.simps if_False simp_thms
    by (rule request_made [OF i]) (simp_all add: u u' attr_request_done_def)
qed

section \<open>Responses\<close>

lemma response_params_spec:
  assumes "reader_ok r" "reader_stream r = body" "length body = unat n"
  shows "response_params XE r n s = Some body"
proof -
  obtain x r1 where x: "bte_buffer_reader_read_n r n = Some (x, r1)"
      "case x of Some bs \<Rightarrow> bs = body | None \<Rightarrow> reader_ok r1 \<and> reader_stream r1 = body"
    using reader_read_n_spec [OF assms(1), of n] assms(2,3) by (auto split: option.splits)
  show ?thesis
  proof (cases x)
    case None
    then have r1: "reader_ok r1" "reader_stream r1 = body" using x(2) by simp_all
    obtain k r2 where "bte_buffer_reader_read True r1 n = Some (body, k, r2)"
      using bte_src.rd_law [OF r1(1), of n] r1(2) assms(3) by auto
    then show ?thesis using None x(1) assms(3) by (simp add: response_params_def)
  next
    case (Some bs)
    then show ?thesis using x by (simp add: response_params_def)
  qed
qed

lemma on_message_pdu:
  assumes "sdp_heap s sdp = Some c" "last_req c = Some req" "pending m cid code ident params req" "sdp < 2 ^ 64"
    "reader_ok r" "reader_stream r = pdu (code + 1) ident body" "5 \<le> length (reader_lead r)" "length body < 65536" "code \<noteq> 0" "code \<noteq> 0xff"
  shows "on_message_received XE r (of_nat sdp) s = on_response XE sdp code 0 body (of_nat (length body)) s"
proof -
  let ?n = "of_nat (length body) :: u16"
  let ?h = "[code + 1] @ be_bytes 2 ident @ be_bytes 2 ?n"
  have u: "unat (of_nat sdp :: u64) = sdp" using assms(4) by (simp add: unat_of_nat)
  have st: "take 5 (reader_stream r) = ?h" "drop 5 (reader_stream r) = body" using assms(6) by (simp_all add: pdu_def)
  obtain bs r1 where r1': "bte_buffer_reader_read_n r 5 = Some (Some bs, r1)" using read_n_lead [OF assms(5), of 5] assms(7) by auto
  then have r1: "bte_buffer_reader_read_n r 5 = Some (Some ?h, r1)" "reader_ok r1" "reader_stream r1 = body"
    using reader_read_n_spec [OF assms(5), of 5] st by auto
  have n: "length body = unat ?n" using assms(8) by (simp add: u16_of_nat)
  have p: "response_params XE r1 ?n s = Some body" by (rule response_params_spec [OF r1(2,3) n])
  have hd: "rd8 ?h 0 = Some (code + 1)" "slice ?h 1 2 = Some (be_bytes 2 ident)" "read_be16 ?h 3 = Some ?n"
    by (simp_all add: rd8_def slice_def read_be16_def be_val_bytes)
  have "unat code < 255" using assms(10) unsigned_less [of code, where ?'a = nat] by (simp add: word_unat_eq_iff)
  then have c1: "code + 1 \<noteq> 1" "unat (code + 1) = unat code + 1"
    using assms(9) by (simp_all add: unat_word_ariths)
  show ?thesis
    using assms(1,2) pending_reads(1,2) [OF assms(3)] r1(1) hd p c1
    by (simp add: on_message_received_def u)
qed

text \<open>A continuation state as it is on the wire.\<close>

abbreviation cont_bytes :: "mem \<Rightarrow> mem" where
  "cont_bytes cs \<equiv> of_nat (length cs) # cs"

lemma cont_len:
  assumes "length cs \<le> 16"
  shows "cont_state_len (Some (cont_bytes cs)) = Some (of_nat (length cs + 1))" "unat (of_nat (length cs + 1) :: u16) = length cs + 1"
proof -
  have "ucast (of_nat (length cs) :: byte) = (of_nat (length cs) :: u16)"
    using assms by (simp add: unsigned_of_nat take_bit_nat_eq_self)
  then show "cont_state_len (Some (cont_bytes cs)) = Some (of_nat (length cs + 1))"
    by (simp add: cont_state_len_def rd8_def)
  show "unat (of_nat (length cs + 1) :: u16) = length cs + 1" using assms by (intro u16_of_nat) simp
qed

lemma cont_none: "length cs \<le> 16 \<Longrightarrow> (of_nat (length cs) = (0 :: byte)) = (cs = [])"
  by (simp add: word_unat_eq_iff unat_of_nat)

text \<open>
  A client that waits for the response to a request with these parameters. They have to lie in the first packet,
  from where a continuation request takes them.
\<close>

definition waiting ::
    "'e penv \<Rightarrow> nat \<Rightarrow> nat \<Rightarrow> bte_acl \<Rightarrow> nat \<Rightarrow> bte_l2cap \<Rightarrow> nat \<Rightarrow> sdp_client \<Rightarrow> byte \<Rightarrow> u16 \<Rightarrow> mem \<Rightarrow> 'e pdev \<Rightarrow> bool" where
  "waiting XE m acl a p l sdp c code ident params s \<longleftrightarrow> sending m acl a p l s \<and> sdp_heap s sdp = Some c \<and> sc_l2cap c = Some p \<and>
     accepting (le_hci (sp_l2cap XE)) \<and> params \<noteq> [] \<and> length params + 26 \<le> m \<and> length params + 22 \<le> unat (l_remote_mtu l) \<and> fits m (length params + 26) \<and>
     continuation_offset c = of_nat (length params) \<and> sdp < 2 ^ 64 \<and> sc_ref_count c > 0 \<and> ucast (s_next_transaction_id s) = ident + 1 \<and>
     (\<exists>req cont. last_req c = Some req \<and> pending m (remote_channel_id l) code ident (params @ cont) req)"

lemma ucast_add1: "(ucast (w + 1 :: u32) :: u16) = ucast w + 1"
  by (simp add: word_unat_eq_iff unsigned_ucast_eq unat_word_ariths take_bit_eq_mod mod_mod_cancel mod_simps)

lemma continuation_sent:
  assumes "waiting XE m acl a p l sdp c code ident params s" "length cs \<le> 16"
  shows "\<exists>s' req. send_continuation_request XE sdp (Some (cont_bytes cs)) s = Some (True, s') \<and>
    client_step (l2cap_packets m a (remote_channel_id l) (pdu code (ident + 1) (params @ cont_bytes cs))) sdp
      (c\<lparr>last_req := Some req\<rparr>) s s' \<and> waiting XE m acl a p l sdp (c\<lparr>last_req := Some req\<rparr>) code (ident + 1) params s'"
proof -
  obtain req cont where w: "sending m acl a p l s" "sdp_heap s sdp = Some c" "sc_l2cap c = Some p" "accepting (le_hci (sp_l2cap XE))"
      "length params + 26 \<le> m" "length params + 22 \<le> unat (l_remote_mtu l)" "fits m (length params + 26)"
      "continuation_offset c = of_nat (length params)" "last_req c = Some req"
      "pending m (remote_channel_id l) code ident (params @ cont) req" "ucast (s_next_transaction_id s) = ident + 1" "params \<noteq> []"
    using assms(1) by (auto simp: waiting_def)
  let ?k = "of_nat (length params) :: u16" and ?cid = "remote_channel_id l"
  let ?n = "?k + of_nat (length cs + 1)" and ?s = "s\<lparr>s_next_transaction_id := s_next_transaction_id s + 1\<rparr>"
  note pr = pending_reads [OF w(10)]
  have mb: "m < 65536" using sendingD(1) [OF w(1)] by (simp add: link_ready_def)
  have k: "unat ?k = length params" using w(5) mb by (intro u16_of_nat) simp
  have "length params + (length cs + 1) < 65536" using assms(2) w(5) mb by simp
  from u16_of_nat [OF this] have n: "unat ?n = length params + (length cs + 1)" by (simp only: of_nat_add)
  let ?H = "le_bytes 2 (5 + ?n) @ le_bytes 2 ?cid @ [code] @ be_bytes 2 (ident + 1) @ be_bytes 2 ?n"
  have sg: "sending m acl a p l ?s" using w(1) by simp
  have ft: "fits m (unat ?n + 9)" using fits_mono [OF w(7)] assms(2) n by simp
  obtain w1 where w1: "create_pdu XE p code (ident + 1) ?n ?s = Some (Some w1)" "frame_writer m a (unat ?n + 9) ?H w1"
    using create_pdu_spec [OF sg _ _ ft, of XE code "ident + 1"] w(5,6) n assms(2) by auto
  have lh: "length ?H = 9" by simp
  have k0: "0 < unat ?k" unfolding k using w(12) by simp
  have room: "length ?H + length params \<le> m" unfolding lh using w(5) by simp
  obtain off w2 w3 where w3: "bte_buffer_writer_ptr_n w1 ?k = Some (Some off, w2)" "writer_poke w2 off params = Some w3"
      "frame_writer m a (unat ?n + 9) (?H @ params) w3"
    using frame_writer_ptr [OF w1(2) k [symmetric] k0 room] by blast
  have lc: "length (cont_bytes cs) = unat (of_nat (length cs + 1) :: u16)" using cont_len(2) [OF assms(2)] by simp
  obtain w4 where w4: "bte_buffer_writer_write w3 (cont_bytes cs) (of_nat (length cs + 1)) = Some (True, w4)"
      "filling m a (unat ?n + 9) ((?H @ params) @ cont_bytes cs) w4"
    using filling_write [OF frame_writer_filling [OF w3(3)] lc] lh n by auto
  have body: "length (params @ cont_bytes cs) = unat ?n" using n by simp
  have n5: "unat ?n + 5 < 65536" using n assms(2) w(5) mb by simp
  have "(?H @ params) @ cont_bytes cs = l2cap_frame ?cid (pdu code (ident + 1) (params @ cont_bytes cs))"
    using pdu_bytes [OF body n5, of ?cid code "ident + 1"] by simp
  from filling_end [OF w4(2) [unfolded this] body] w(5)
  obtain req' rest where e: "bte_buffer_writer_end w4 = Some (req' # rest)" "chain_ok (req' # rest)"
      "map packet_bytes (req' # rest) = l2cap_packets m a ?cid (pdu code (ident + 1) (params @ cont_bytes cs))"
      "pending m ?cid code (ident + 1) (params @ cont_bytes cs) req'" by auto
  let ?c = "c\<lparr>last_req := Some req'\<rparr>"
  have sg2: "sending m acl a p l (set_sdp sdp ?c ?s)" using w(1) by simp
  from send_pdu [OF sg2 e(2) _ w(4)] obtain rc s1 where s1:
      "bte_l2cap_send_message (sp_l2cap XE) p (req' # rest) (set_sdp sdp ?c ?s) = Some (rc, s1)" "0 \<le> rc"
      "hands_over (map packet_bytes (req' # rest)) (set_sdp sdp ?c ?s) s1" by auto
  note h = hands_over_heap [OF s1(3)] hands_over_sdp [OF s1(3)]
  have sl: "slice (data req) 13 (length params) = Some params" using pr(3) [of "length params"] w(5) by simp
  have run: "send_continuation_request XE sdp (Some (cont_bytes cs)) s = Some (True, s1)"
    unfolding send_continuation_request_def w(2,3,8,9,11) Option.bind.simps pr(1) cont_len(1) [OF assms(2)] Let_def next_transaction_id_def
      prod.case w1(1) option.case w3(1) k sl w3(2) write_cont_state_def w4(1)
    using e(1) s1(1,2) w(2) by (simp add: put_sdp_def set_sdp_def)
  have step: "client_step (l2cap_packets m a ?cid (pdu code (ident + 1) (params @ cont_bytes cs))) sdp ?c s s1"
    using h s1(3) hands_over_ready [OF s1(3)] unfolding e(3) by (simp add: client_step_def hands_over_def)
  have "ucast (s_next_transaction_id s + 1) = ident + 1 + (1 :: u16)"
    using w(11) by (metis ucast_add1)
  then have "waiting XE m acl a p l sdp ?c code (ident + 1) params s1"
    using assms(1) step h e(4) w(10) unfolding waiting_def sending_def client_step_def by auto
  then show ?thesis using run step by blast
qed

section \<open>Service search\<close>

definition search_body :: "u16 \<Rightarrow> u32 list \<Rightarrow> mem \<Rightarrow> mem" where
  "search_body total_count hs cs =
     be_bytes 2 total_count @ be_bytes 2 (of_nat (length hs) :: u16) @ concat (map (be_bytes 4) hs) @ cont_bytes cs"

lemma handles_len [simp]: "length (concat (map (be_bytes 4) (hs :: u32 list))) = 4 * length hs"
  by (induction hs) simp_all

lemma read_handles_spec:
  "read_handles (pre @ concat (map (be_bytes 4) hs) @ rest) (length pre) (length hs) = Some hs"
proof (induction hs arbitrary: pre)
  case (Cons h hs)
  have "read_handles ((pre @ be_bytes 4 h) @ concat (map (be_bytes 4) hs) @ rest) (length (pre @ be_bytes 4 h)) (length hs) = Some hs"
    by (rule Cons.IH)
  then show ?case by (simp add: read_be32_def slice_def be_val_bytes)
qed simp

lemma parse_search_spec:
  assumes "length cs \<le> 16" "4 * length hs + 21 < 65536"
  shows "parse_service_search_reply (search_body total_count hs cs) (of_nat (length (search_body total_count hs cs))) =
    Some (Some (\<lparr>sr_error_code = 0, sr_total_count = total_count, sr_count = of_nat (length hs), sr_has_more = (cs \<noteq> []),
      sr_handles = Some hs\<rparr>, 4 + 4 * length hs))"
proof -
  let ?b = "search_body total_count hs cs" and ?k = "of_nat (length hs) :: u16"
  let ?n = "of_nat (length ?b) :: u16"
  have len: "length ?b = 4 * length hs + length cs + 5" by (simp add: search_body_def)
  have k: "unat ?k = length hs" "unat (?k * 4) = 4 * length hs"
    using assms(2) by (simp_all add: u16_of_nat unat_word_ariths)
  have n: "unat ?n = 4 * length hs + length cs + 5" unfolding len using assms by (intro u16_of_nat) simp
  have n4: "unat (?n - 4) = 4 * length hs + length cs + 1" using n by (simp add: unat_sub_if_size)
  have n5: "unat (?n - 4 - ?k * 4) = length cs + 1" using n4 k(2) by (simp add: unat_sub_if_size)
  have rd: "read_be16 ?b 0 = Some total_count" "read_be16 ?b 2 = Some ?k" 
    by (simp_all add: search_body_def read_be16_def slice_def be_val_bytes)
  have hs: "read_handles ?b 4 (length hs) = Some hs"
    using read_handles_spec [of "be_bytes 2 total_count @ be_bytes 2 ?k" hs "cont_bytes cs"] by (simp add: search_body_def)
  have ct: "drop (4 + 4 * length hs) ?b = cont_bytes cs" by (simp add: search_body_def)
  have b: "rd8 ?b (4 + 4 * length hs) = Some (of_nat (length cs))" by (simp add: search_body_def rd8_def nth_append)
  have c0: "(of_nat (length cs) = (0 :: byte)) = (cs = [])" by (rule cont_none [OF assms(1)])
  have le: "\<not> ?n < 4" "\<not> unat (?n - 4) < unat ?k * 4" "\<not> ?n - 4 - ?k * 4 < 1"
      "\<not> (of_nat (length cs + 1) :: u16) > 17" "\<not> (of_nat (length cs + 1) :: u16) > ?n - 4 - ?k * 4"
    using n n4 n5 k cont_len(2) [OF assms(1)] assms(1) by (simp_all only: word_less_nat_alt) simp_all
  show ?thesis
    unfolding parse_service_search_reply_def rd Let_def Option.bind.simps k hs ct cont_len(1) [OF assms(1)]
    using le b c0 k by simp
qed

text \<open>The reference that is held while a response is handled.\<close>

abbreviation held :: "sdp_client \<Rightarrow> sdp_client" where
  "held c \<equiv> c\<lparr>sc_ref_count := sc_ref_count c + 1\<rparr>"

lemma waitingD:
  assumes "waiting XE m acl a p l sdp c code ident params s"
  shows "sdp_heap s sdp = Some c" "sdp < 2 ^ 64" "sc_ref_count c > 0"
    "\<exists>req cont. last_req c = Some req \<and> pending m (remote_channel_id l) code ident (params @ cont) req"
  using assms by (auto simp: waiting_def)

lemma waiting_set:
  assumes "waiting XE m acl a p l sdp c code ident params s"
    "last_req d = last_req c" "sc_l2cap d = sc_l2cap c" "continuation_offset d = continuation_offset c" "sc_ref_count d > 0"
  shows "waiting XE m acl a p l sdp d code ident params (set_sdp sdp d s)"
  using assms by (auto simp: waiting_def)

lemma client_step_set:
  "client_step pkts sdp d (set_sdp sdp c s) s' = client_step pkts sdp d s s'"
  "client_step pkts sdp d s s' \<Longrightarrow> client_step pkts sdp c s (set_sdp sdp c s')"
  "client_step [] sdp c s (set_sdp sdp c s)"
  by (simp_all add: client_step_def)

text \<open>The end of the handler: the request is complete or a continuation is asked for, and the reference is dropped.\<close>

lemma response_end:
  assumes "waiting XE m acl a p l sdp (held c) code ident params s" "sc_ref_count c > 0" "length cs \<le> 16"
  shows "\<exists>s'. do { s \<leftarrow> (if complete then upd_sdp (\<lambda>c. c\<lparr>last_req := None\<rparr>) sdp s
                      else map_option snd (send_continuation_request XE sdp (Some (cont_bytes cs)) s));
                bte_sdp_client_unref XE sdp s } = Some s' \<and>
    (if complete then client_step [] sdp (c\<lparr>last_req := None\<rparr>) s s'
     else \<exists>req. client_step (l2cap_packets m a (remote_channel_id l) (pdu code (ident + 1) (params @ cont_bytes cs))) sdp
            (c\<lparr>last_req := Some req\<rparr>) s s' \<and> waiting XE m acl a p l sdp (c\<lparr>last_req := Some req\<rparr>) code (ident + 1) params s')"
proof -
  note w = waitingD [OF assms(1)]
  have unref: "bte_sdp_client_unref XE sdp t = Some (set_sdp sdp (d\<lparr>sc_ref_count := sc_ref_count d - 1\<rparr>) t)"
    if "sdp_heap t sdp = Some d" "sc_ref_count d > 1" for t d
    using that by (simp add: bte_sdp_client_unref_def put_sdp_eq)
  show ?thesis
  proof (cases complete)
    case True
    let ?d = "(held c)\<lparr>last_req := None\<rparr>"
    have "bte_sdp_client_unref XE sdp (set_sdp sdp ?d s) = Some (set_sdp sdp (?d\<lparr>sc_ref_count := sc_ref_count ?d - 1\<rparr>) s)"
      using unref [of "set_sdp sdp ?d s" ?d] assms(2) by simp
    moreover have "?d\<lparr>sc_ref_count := sc_ref_count ?d - 1\<rparr> = c\<lparr>last_req := None\<rparr>" by (cases c) simp
    ultimately show ?thesis using True w(1) client_step_set(3) by (simp add: upd_sdp_eq)
  next
    case False
    obtain s1 req where s1: "send_continuation_request XE sdp (Some (cont_bytes cs)) s = Some (True, s1)"
        "client_step (l2cap_packets m a (remote_channel_id l) (pdu code (ident + 1) (params @ cont_bytes cs))) sdp
          ((held c)\<lparr>last_req := Some req\<rparr>) s s1"
        "waiting XE m acl a p l sdp ((held c)\<lparr>last_req := Some req\<rparr>) code (ident + 1) params s1"
      using continuation_sent [OF assms(1,3)] by blast
    let ?d = "(held c)\<lparr>last_req := Some req\<rparr>" and ?c = "c\<lparr>last_req := Some req\<rparr>"
    have "bte_sdp_client_unref XE sdp s1 = Some (set_sdp sdp (?d\<lparr>sc_ref_count := sc_ref_count ?d - 1\<rparr>) s1)"
      using unref [OF waitingD(1) [OF s1(3)]] assms(2) by simp
    moreover have "?d\<lparr>sc_ref_count := sc_ref_count ?d - 1\<rparr> = ?c" by (cases c) simp
    ultimately have "bte_sdp_client_unref XE sdp s1 = Some (set_sdp sdp ?c s1)" by simp
    moreover have "waiting XE m acl a p l sdp ?c code (ident + 1) params (set_sdp sdp ?c s1)"
      by (rule waiting_set [OF s1(3)]) (use assms(2) in simp_all)
    ultimately show ?thesis using False s1(1) client_step_set(2) [OF s1(2)] by auto
  qed
qed

section \<open>Attributes\<close>

definition attr_body :: "mem \<Rightarrow> mem \<Rightarrow> mem" where
  "attr_body f cs = be_bytes 2 (of_nat (length f) :: u16) @ f @ cont_bytes cs"

text \<open>The first bytes of a data element say how long it is.\<close>

definition announces :: "mem \<Rightarrow> nat \<Rightarrow> bool" where
  "announces f n \<longleftrightarrow> (\<forall>rest. bte_sdp_de_get_total_size (f @ rest) = Some (of_nat n))"

lemma announces_append: "announces f n \<Longrightarrow> announces (f @ g) n"
  by (simp add: announces_def)

text \<open>What a client has of the list \<open>de\<close> after the fragments \<open>got\<close>.\<close>

definition assembled :: "mem \<Rightarrow> mem \<Rightarrow> sdp_client \<Rightarrow> bool" where
  "assembled de got c \<longleftrightarrow> attr_written c = of_nat (length got) \<and> (\<exists>rest. de = got @ rest) \<and>
     (if got = [] then attr_list_de c = None
      else announces got (length de) \<and> (\<exists>buf. attr_list_de c = Some (Live buf) \<and> length buf = length de \<and> take (length got) buf = got))"

lemma attr_body_reads:
  assumes "length f + 19 < 65536" "length cs \<le> 16"
  shows "read_be16 (attr_body f cs) 0 = Some (of_nat (length f))" "drop 2 (attr_body f cs) = f @ cont_bytes cs"
    "drop (2 + length f) (attr_body f cs) = cont_bytes cs" "rd8 (attr_body f cs) (2 + length f) = Some (of_nat (length cs))"
    "unat (of_nat (length f) :: u16) = length f"
    "unat (of_nat (length (attr_body f cs)) - 2 - of_nat (length f) :: u16) = length cs + 1"
    "\<not> of_nat (length (attr_body f cs)) < (3 :: u16)"
proof -
  show "read_be16 (attr_body f cs) 0 = Some (of_nat (length f))" "drop 2 (attr_body f cs) = f @ cont_bytes cs"
    "drop (2 + length f) (attr_body f cs) = cont_bytes cs" "rd8 (attr_body f cs) (2 + length f) = Some (of_nat (length cs))"
    by (simp_all add: attr_body_def read_be16_def slice_def be_val_bytes rd8_def nth_append)
  show n: "unat (of_nat (length f) :: u16) = length f" using assms(1) by (intro u16_of_nat) simp
  have l: "length (attr_body f cs) = length f + length cs + 3" by (simp add: attr_body_def)
  have u: "unat (of_nat (length (attr_body f cs)) :: u16) = length f + length cs + 3"
    unfolding l using assms by (intro u16_of_nat) simp
  show "\<not> of_nat (length (attr_body f cs)) < (3 :: u16)" using u by (simp only: word_less_nat_alt) simp
  have "unat (of_nat (length (attr_body f cs)) - 2 :: u16) = length f + length cs + 1" using u by (simp add: unat_sub_if_size)
  then show "unat (of_nat (length (attr_body f cs)) - 2 - of_nat (length f) :: u16) = length cs + 1"
    using n by (simp add: unat_sub_if_size)
qed

text \<open>A fragment is stored behind those that are there.\<close>

lemma parse_attr_fragment:
  assumes "sdp_heap s sdp = Some c" "assembled de got c" "de = got @ f @ rest" "length f + 19 < 65536" "length cs \<le> 16"
    "length de < 65536" "announces (got @ f) (length de)" "cs \<noteq> [] \<or> got \<noteq> []" "cs = [] \<Longrightarrow> rest = []"
  shows "\<exists>buf. parse_service_attr_reply XE sdp (attr_body f cs) (of_nat (length (attr_body f cs))) s =
      Some (Some (buf, 2 + length f), set_sdp sdp (c\<lparr>attr_list_de := Some (Live buf), attr_written := of_nat (length (got @ f))\<rparr>) s) \<and>
    length buf = length de \<and> take (length (got @ f)) buf = got @ f"
proof -
  note b = attr_body_reads [OF assms(4,5)]
  let ?n = "of_nat (length (attr_body f cs)) :: u16" and ?L = "of_nat (length de) :: u32"
  have cl: "\<not> (of_nat (length cs + 1) :: u16) > 17" "\<not> (of_nat (length cs + 1) :: u16) > ?n - 2 - of_nat (length f)" "\<not> ?n - 2 - of_nat (length f) < 1"
    using b(6) cont_len(2) [OF assms(5)] assms(5) by (simp_all only: word_less_nat_alt) simp_all
  have L: "unat ?L = length de" "\<not> ?L \<ge> 0x10000" using assms(6) by (simp_all add: unat_of_nat word_le_nat_alt)
  have dl: "length got < 65536" "length got + length f \<le> length de" using assms(3,6) by simp_all
  obtain buf where t: "attr_list_target XE (attr_list_de c) (f @ cont_bytes cs) s = Some (Some (?L, buf))" "length buf = length de"
      "take (length got) buf = got"
  proof (cases "got = []")
    case True
    then have "attr_list_de c = None" "bte_sdp_de_get_total_size (f @ cont_bytes cs) = Some ?L"
      using assms(2,7) by (simp_all add: assembled_def announces_def)
    then show ?thesis using that True L by (simp add: attr_list_target_def)
  next
    case False
    then obtain buf where buf: "attr_list_de c = Some (Live buf)" "length buf = length de" "take (length got) buf = got"
        "announces got (length de)"
      using assms(2) by (auto simp: assembled_def)
    then have "bte_sdp_de_get_total_size (got @ drop (length got) buf) = Some ?L" by (simp add: announces_def)
    then have "bte_sdp_de_get_total_size buf = Some ?L" using buf(3) by (metis append_take_drop_id)
    then show ?thesis using that buf by (simp add: attr_list_target_def)
  qed
  have wn: "unat (attr_written c) = length got" "attr_written c + of_nat (length f) = of_nat (length (got @ f))"
    using assms(2) dl(1) by (simp_all add: assembled_def u16_of_nat)
  let ?buf = "got @ f @ drop (length got + length f) buf"
  have wr: "wr buf (length got) f = Some ?buf" using t(2,3) dl(2) by (simp add: wr_def ac_simps)
  have sl: "slice (f @ cont_bytes cs) 0 (length f) = Some f" by (simp add: slice_def)
  have frag: "of_nat (length cs) \<noteq> (0 :: byte) \<or> attr_list_de c \<noteq> None"
    using assms(2,8) cont_none [OF assms(5)] by (auto simp: assembled_def)
  have fin: "\<not> (of_nat (length cs) = (0 :: byte) \<and> ucast (of_nat (length (got @ f)) :: u16) \<noteq> ?L)"
  proof -
    have "ucast (of_nat (length (got @ f)) :: u16) = ?L" if "cs = []"
      using assms(3,6,9) that by (simp add: unsigned_of_nat take_bit_nat_eq_self flip: of_nat_add)
    then show ?thesis using cont_none [OF assms(5)] by blast
  qed
  have "parse_service_attr_reply XE sdp (attr_body f cs) ?n s =
      Some (Some (?buf, 2 + length f), set_sdp sdp (c\<lparr>attr_list_de := Some (Live ?buf), attr_written := of_nat (length (got @ f))\<rparr>) s)"
    unfolding parse_service_attr_reply_def b(1,2,5) Let_def Option.bind.simps b(3) cont_len(1) [OF assms(5)] assms(1) t(1)
    using b(4,7) cl frag dl(2) wn L(1) sl wr fin assms(1) by (simp add: put_sdp_eq)
  moreover have "length ?buf = length de" "take (length (got @ f)) ?buf = got @ f" using t(2) dl(2) by simp_all
  ultimately show ?thesis by blast
qed

lemma parse_attr_whole:
  assumes "sdp_heap s sdp = Some c" "attr_list_de c = None" "length de + 19 < 65536" "announces de (length de)"
  shows "parse_service_attr_reply XE sdp (attr_body de []) (of_nat (length (attr_body de []))) s = Some (Some (de @ [0], 2 + length de), s)"
proof -
  have l16: "length ([] :: mem) \<le> 16" by simp
  note b = attr_body_reads [OF assms(3) l16]
  let ?n = "of_nat (length (attr_body de [])) :: u16"
  have cl: "\<not> ?n - 2 - of_nat (length de) < 1" "\<not> (1 :: u16) > ?n - 2 - of_nat (length de)"
    using b(6) by (simp_all only: word_less_nat_alt) simp_all
  have ts: "bte_sdp_de_get_total_size (de @ [0]) = Some (of_nat (length de))" using assms(4) by (simp add: announces_def)
  have fin: "ucast (of_nat (length de) :: u16) = (of_nat (length de) :: u32)"
    using assms(3) by (simp add: unsigned_of_nat take_bit_nat_eq_self)
  have "cont_state_len (Some [0]) = Some 1" using cont_len(1) [of "[]"] by simp
  then show ?thesis
    unfolding parse_service_attr_reply_def b(1,2,5) Let_def Option.bind.simps b(3) assms(1)
    using b(4,7) cl assms(2) ts fin by simp
qed

lemma attr_message:
  assumes "waiting XE m acl a p l sdp c code ident params s" "code = PDU_ID_SERVICE_ATTR_REQ \<or> code = PDU_ID_SERVICE_SEARCH_ATTR_REQ"
    "reader_ok r" "reader_stream r = pdu (code + 1) ident (attr_body f cs)" "5 \<le> length (reader_lead r)" "length f + 19 < 65536" "length cs \<le> 16"
    "handle_attr_response XE sdp 0 (attr_body f cs) (of_nat (length (attr_body f cs))) (set_sdp sdp (held c) s) =
      do { t \<leftarrow> x; Some (complete, Some (2 + length f), t) }"
  shows "on_message_received XE r (of_nat sdp) s = do { t \<leftarrow> x;
    s \<leftarrow> (if complete then upd_sdp (\<lambda>c. c\<lparr>last_req := None\<rparr>) sdp t
          else map_option snd (send_continuation_request XE sdp (Some (cont_bytes cs)) t));
    bte_sdp_client_unref XE sdp s }"
proof -
  note w = waitingD [OF assms(1)]
  obtain req cont where req: "last_req c = Some req" "pending m (remote_channel_id l) code ident (params @ cont) req" using w(4) by blast
  have len: "length (attr_body f cs) < 65536" using assms(6,7) by (simp add: attr_body_def)
  have cd: "code \<noteq> 0" "code \<noteq> 0xff" "code \<noteq> PDU_ID_SERVICE_SEARCH_REQ" using assms(2) by auto
  have msg: "on_message_received XE r (of_nat sdp) s = on_response XE sdp code 0 (attr_body f cs) (of_nat (length (attr_body f cs))) s"
    by (rule on_message_pdu [OF w(1) req w(2) assms(3-5) len cd(1,2)])
  show ?thesis
    unfolding msg on_response_def bte_sdp_client_ref_def upd_sdp_eq [OF w(1)] Option.bind.simps
    using assms(2,8) cd(3) attr_body_reads(3) [OF assms(6,7)] by (cases x) auto
qed

text \<open>A fragment that is not the last: it is kept, and the next one is asked for.\<close>

lemma attr_continued:
  assumes "waiting XE m acl a p l sdp c code ident params s" "code = PDU_ID_SERVICE_ATTR_REQ \<or> code = PDU_ID_SERVICE_SEARCH_ATTR_REQ"
    "reader_ok r" "reader_stream r = pdu (code + 1) ident (attr_body f cs)" "5 \<le> length (reader_lead r)" "length f + 19 < 65536" "length cs \<le> 16"
    "assembled de got c" "de = got @ f @ rest" "length de < 65536" "announces (got @ f) (length de)" "cs \<noteq> []" "req_cb c = Some g" "f \<noteq> []"
  shows "\<exists>s' d. on_message_received XE r (of_nat sdp) s = Some s' \<and>
    client_step (l2cap_packets m a (remote_channel_id l) (pdu code (ident + 1) (params @ cont_bytes cs))) sdp d s s' \<and>
    waiting XE m acl a p l sdp d code (ident + 1) params s' \<and> assembled de (got @ f) d \<and> req_cb d = req_cb c \<and> req_userdata d = req_userdata c \<and>
    sc_ref_count d = sc_ref_count c"
proof -
  note w = waitingD [OF assms(1)]
  let ?s = "set_sdp sdp (held c) s"
  have h: "sdp_heap ?s sdp = Some (held c)" and as: "assembled de got (held c)" using assms(8) by (simp_all add: assembled_def)
  obtain buf where buf: "parse_service_attr_reply XE sdp (attr_body f cs) (of_nat (length (attr_body f cs))) ?s =
        Some (Some (buf, 2 + length f), set_sdp sdp ((held c)\<lparr>attr_list_de := Some (Live buf), attr_written := of_nat (length (got @ f))\<rparr>) ?s)"
      "length buf = length de" "take (length (got @ f)) buf = got @ f"
    using parse_attr_fragment [OF h as assms(9,6,7,10,11)] assms(12) by blast
  let ?c = "c\<lparr>attr_list_de := Some (Live buf), attr_written := of_nat (length (got @ f))\<rparr>"
  have hc: "(held c)\<lparr>attr_list_de := Some (Live buf), attr_written := of_nat (length (got @ f))\<rparr> = held ?c" by (cases c) simp
  have hr: "handle_attr_response XE sdp 0 (attr_body f cs) (of_nat (length (attr_body f cs))) ?s =
      do { t \<leftarrow> Some (set_sdp sdp (held ?c) s); Some (False, Some (2 + length f), t) }"
    using buf(1) attr_body_reads(4) [OF assms(6,7)] cont_none [OF assms(7)] assms(12) h
    unfolding hc by (simp add: handle_attr_response_def)
  have wt: "waiting XE m acl a p l sdp (held ?c) code ident params (set_sdp sdp (held ?c) s)"
    by (rule waiting_set [OF assms(1)]) (use w(3) in simp_all)
  have rc: "sc_ref_count ?c > 0" using w(3) by simp
  obtain s' req where s': "do { s \<leftarrow> map_option snd (send_continuation_request XE sdp (Some (cont_bytes cs)) (set_sdp sdp (held ?c) s));
        bte_sdp_client_unref XE sdp s } = Some s'"
      "client_step (l2cap_packets m a (remote_channel_id l) (pdu code (ident + 1) (params @ cont_bytes cs))) sdp
        (?c\<lparr>last_req := Some req\<rparr>) (set_sdp sdp (held ?c) s) s'"
      "waiting XE m acl a p l sdp (?c\<lparr>last_req := Some req\<rparr>) code (ident + 1) params s'"
    using response_end [OF wt rc assms(7), of False] by auto
  have "on_message_received XE r (of_nat sdp) s = Some s'"
    using attr_message [OF assms(1-7) hr] s'(1) by simp
  moreover have "assembled de (got @ f) (?c\<lparr>last_req := Some req\<rparr>)"
    using assms(9,11,14) buf(2,3) by (simp add: assembled_def)
  ultimately show ?thesis using s'(2,3) unfolding client_step_set(1) by (intro exI [of _ s'] exI [of _ "?c\<lparr>last_req := Some req\<rparr>"]) simp
qed

text \<open>What follows the call of the client at the end.\<close>

definition attr_cleanup :: "'e penv \<Rightarrow> nat \<Rightarrow> 'e pdev \<Rightarrow> 'e pdev option" where
  "attr_cleanup XE sdp t =
     do { s \<leftarrow> upd_sdp (\<lambda>c. c\<lparr>attr_list_de := map_option (\<lambda>_. Freed) (attr_list_de c)\<rparr>) sdp t;
          s \<leftarrow> upd_sdp (\<lambda>c. c\<lparr>last_req := None\<rparr>) sdp s;
          bte_sdp_client_unref XE sdp s }"

text \<open>The client is told the whole list, in a state in which its record is held.\<close>

definition attrs_delivered ::
    "'e penv \<Rightarrow> nat \<Rightarrow> mem list \<Rightarrow> sdp_client \<Rightarrow> nat \<Rightarrow> mem \<Rightarrow> 'e pdev \<Rightarrow> 'e pdev option \<Rightarrow> bool" where
  "attrs_delivered XE sdp pkts c g de s result \<longleftrightarrow> (\<exists>t d mem. take (length de) mem = de \<and> client_step pkts sdp d s t \<and>
     sc_ref_count d = sc_ref_count c + 1 \<and>
     result = do { t' \<leftarrow> sp_attr XE g sdp \<lparr>ar_error_code = 0, ar_attr_list_de = Some mem\<rparr> (req_userdata c) t; attr_cleanup XE sdp t' })"

lemma attr_last:
  assumes "waiting XE m acl a p l sdp c code ident params s" "code = PDU_ID_SERVICE_ATTR_REQ \<or> code = PDU_ID_SERVICE_SEARCH_ATTR_REQ"
    "reader_ok r" "reader_stream r = pdu (code + 1) ident (attr_body f [])" "5 \<le> length (reader_lead r)" "length f + 19 < 65536"
    "assembled (got @ f) got c" "length (got @ f) < 65536" "announces (got @ f) (length (got @ f))" "req_cb c = Some g"
  shows "attrs_delivered XE sdp [] c g (got @ f) s (on_message_received XE r (of_nat sdp) s)"
proof -
  note w = waitingD [OF assms(1)]
  let ?s = "set_sdp sdp (held c) s" and ?n = "of_nat (length (attr_body f [])) :: u16"
  have h: "sdp_heap ?s sdp = Some (held c)" and as: "assembled (got @ f) got (held c)" using assms(7) by (auto simp: assembled_def)
  have l16: "length ([] :: mem) \<le> 16" by simp
  obtain mem d where d: "parse_service_attr_reply XE sdp (attr_body f []) ?n ?s = Some (Some (mem, 2 + length f), set_sdp sdp d ?s)"
      "take (length (got @ f)) mem = got @ f" "sc_ref_count d = sc_ref_count c + 1" "req_userdata d = req_userdata c"
  proof (cases "got = []")
    case True
    then have "parse_service_attr_reply XE sdp (attr_body f []) ?n ?s = Some (Some (f @ [0], 2 + length f), ?s)"
      using parse_attr_whole [OF h _ assms(6)] assms(9) as by (simp add: assembled_def)
    then show ?thesis using True that [of "f @ [0]" "held c"] by simp
  next
    case False
    obtain buf where "parse_service_attr_reply XE sdp (attr_body f []) ?n ?s =
        Some (Some (buf, 2 + length f), set_sdp sdp ((held c)\<lparr>attr_list_de := Some (Live buf), attr_written := of_nat (length (got @ f))\<rparr>) ?s)"
        "take (length (got @ f)) buf = got @ f"
      using parse_attr_fragment [OF h as, of f "[]" "[]"] assms(6,8,9) False by auto
    then show ?thesis using that [of buf "(held c)\<lparr>attr_list_de := Some (Live buf), attr_written := of_nat (length (got @ f))\<rparr>"] by simp
  qed
  let ?x = "do { t' \<leftarrow> sp_attr XE g sdp \<lparr>ar_error_code = 0, ar_attr_list_de = Some mem\<rparr> (req_userdata c) (set_sdp sdp d s);
              upd_sdp (\<lambda>c. c\<lparr>attr_list_de := map_option (\<lambda>_. Freed) (attr_list_de c)\<rparr>) sdp t' }"
  have hr: "handle_attr_response XE sdp 0 (attr_body f []) ?n ?s = do { t \<leftarrow> ?x; Some (True, Some (2 + length f), t) }"
    using d attr_body_reads(4) [OF assms(6) l16] assms(10) h by (simp add: handle_attr_response_def)
  have "on_message_received XE r (of_nat sdp) s =
      do { t' \<leftarrow> sp_attr XE g sdp \<lparr>ar_error_code = 0, ar_attr_list_de = Some mem\<rparr> (req_userdata c) (set_sdp sdp d s); attr_cleanup XE sdp t' }"
    using attr_message [OF assms(1-6) l16 hr] by (simp add: attr_cleanup_def)
  then show ?thesis using d(2,3) client_step_set(3) unfolding attrs_delivered_def by blast
qed

fun receive_responses :: "'e penv \<Rightarrow> nat \<Rightarrow> bte_buffer_reader list \<Rightarrow> 'e pdev \<Rightarrow> 'e pdev option" where
  "receive_responses XE sdp [] s = Some s"
| "receive_responses XE sdp (r # rs) s = do { s \<leftarrow> on_message_received XE r (of_nat sdp) s; receive_responses XE sdp rs s }"

text \<open>Readers on responses with consecutive identifiers, each with a fragment and a continuation state.\<close>

fun answers :: "byte \<Rightarrow> u16 \<Rightarrow> (mem \<times> mem) list \<Rightarrow> bte_buffer_reader list \<Rightarrow> bool" where
  "answers code ident [] rs \<longleftrightarrow> rs = []"
| "answers code ident ((f, cs) # fs) rs \<longleftrightarrow> (case rs of [] \<Rightarrow> False | r # rs' \<Rightarrow>
     reader_ok r \<and> reader_stream r = pdu (code + 1) ident (attr_body f cs) \<and> 5 \<le> length (reader_lead r) \<and>
     length f + 19 < 65536 \<and> answers code (ident + 1) fs rs')"

text \<open>The requests that ask for the next fragments.\<close>

fun continuations :: "nat \<Rightarrow> bte_acl \<Rightarrow> u16 \<Rightarrow> byte \<Rightarrow> u16 \<Rightarrow> mem \<Rightarrow> mem list \<Rightarrow> mem list" where
  "continuations m a cid code ident params [] = []"
| "continuations m a cid code ident params (cs # css) =
     l2cap_packets m a cid (pdu code (ident + 1) (params @ cont_bytes cs)) @ continuations m a cid code (ident + 1) params css"

lemma client_step_trans:
  "client_step pkts sdp d s s' \<Longrightarrow> client_step pkts' sdp e s' t \<Longrightarrow> client_step (pkts @ pkts') sdp e s t"
  by (simp add: client_step_def)

lemma receive_no_more [simp]: "(x \<bind> receive_responses XE sdp []) = x"
  by (cases x) simp_all

lemma attrs_delivered_step:
  assumes "client_step pkts sdp d s s'" "attrs_delivered XE sdp pkts' d g de s' result" "req_userdata d = req_userdata c"
    "sc_ref_count d = sc_ref_count c"
  shows "attrs_delivered XE sdp (pkts @ pkts') c g de s result"
proof -
  obtain t e mem where t: "take (length de) mem = de" "client_step pkts' sdp e s' t" "sc_ref_count e = sc_ref_count d + 1"
      "result = do { t' \<leftarrow> sp_attr XE g sdp \<lparr>ar_error_code = 0, ar_attr_list_de = Some mem\<rparr> (req_userdata d) t; attr_cleanup XE sdp t' }"
    using assms(2) unfolding attrs_delivered_def by blast
  have "client_step (pkts @ pkts') sdp e s t" using client_step_trans [OF assms(1) t(2)] .
  then show ?thesis using t(1,3,4) assms(3,4) unfolding attrs_delivered_def by metis
qed

lemma fragments_delivered:
  assumes "waiting XE m acl a p l sdp c code ident params s" "code = PDU_ID_SERVICE_ATTR_REQ \<or> code = PDU_ID_SERVICE_SEARCH_ATTR_REQ"
    "req_cb c = Some g" "answers code ident (fs @ [(f, [])]) rs" "list_all (\<lambda>(f, cs). f \<noteq> [] \<and> cs \<noteq> [] \<and> length cs \<le> 16) fs"
    "assembled de got c" "de = got @ concat (map fst fs) @ f" "length de < 65536"
    "announces (got @ (case fs of [] \<Rightarrow> f | (f0, _) # _ \<Rightarrow> f0)) (length de)"
  shows "attrs_delivered XE sdp (continuations m a (remote_channel_id l) code ident params (map snd fs)) c g de s
    (receive_responses XE sdp rs s)"
  using assms
proof (induction fs arbitrary: c ident rs got s)
  case Nil
  then obtain r where r: "rs = [r]" "reader_ok r" "reader_stream r = pdu (code + 1) ident (attr_body f [])" "5 \<le> length (reader_lead r)"
      "length f + 19 < 65536" by (auto split: list.splits)
  have de: "de = got @ f" using Nil.prems(7) by simp
  have "attrs_delivered XE sdp [] c g de s (on_message_received XE r (of_nat sdp) s)"
    using attr_last [OF Nil.prems(1,2) r(2-5) _ _ _ Nil.prems(3)] Nil.prems(6,8,9) unfolding de by simp
  then show ?case using r(1) by simp
next
  case (Cons fc fs)
  obtain f1 cs where fc: "fc = (f1, cs)" by fastforce
  obtain r rs' where r: "rs = r # rs'" "reader_ok r" "reader_stream r = pdu (code + 1) ident (attr_body f1 cs)" "5 \<le> length (reader_lead r)"
      "length f1 + 19 < 65536" "answers code (ident + 1) (fs @ [(f, [])]) rs'"
    using Cons.prems(4) fc by (auto split: list.splits)
  have cs: "length cs \<le> 16" "cs \<noteq> []" "f1 \<noteq> []" using Cons.prems(5) fc by simp_all
  have de: "de = got @ f1 @ (concat (map fst fs) @ f)" using Cons.prems(7) fc by simp
  have an: "announces (got @ f1) (length de)" using Cons.prems(9) fc by simp
  obtain s' d where s': "on_message_received XE r (of_nat sdp) s = Some s'"
      "client_step (l2cap_packets m a (remote_channel_id l) (pdu code (ident + 1) (params @ cont_bytes cs))) sdp d s s'"
      "waiting XE m acl a p l sdp d code (ident + 1) params s'" "assembled de (got @ f1) d" "req_cb d = req_cb c" "req_userdata d = req_userdata c"
      "sc_ref_count d = sc_ref_count c"
    using attr_continued [OF Cons.prems(1,2) r(2-5) cs(1) Cons.prems(6) de Cons.prems(8) an cs(2) Cons.prems(3) cs(3)] by blast
  have an': "announces ((got @ f1) @ (case fs of [] \<Rightarrow> f | (f0, _) # _ \<Rightarrow> f0)) (length de)" by (rule announces_append [OF an])
  have g: "req_cb d = Some g" and de': "de = (got @ f1) @ concat (map fst fs) @ f" and al: "list_all (\<lambda>(f, cs). f \<noteq> [] \<and> cs \<noteq> [] \<and> length cs \<le> 16) fs"
    using s'(5) Cons.prems(3,5) de by simp_all
  from Cons.IH [OF s'(3) Cons.prems(2) g r(6) al s'(4) de' Cons.prems(8) an']
  show ?case using attrs_delivered_step [OF s'(2) _ s'(6,7)] s'(1) r(1) fc by simp
qed

end
