(* ===== verification/SdpDiscovery.thy ===== *)
theory SdpDiscovery
  imports SdpExchange
begin

text \<open>
  The properties of the client of \<^verbatim>\<open>services/sdp.c\<close>: the requests it sends, the responses it
  accepts, a whole exchange with continuations, and the two ways in which it leaves its memory.
\<close>

lemma rd8_append: "rd8 xs i = Some b \<Longrightarrow> rd8 (xs @ ys) i = Some b"
  by (auto simp: rd8_def nth_append split: if_splits)

lemma slice_append: "slice xs i n = Some bs \<Longrightarrow> slice (xs @ ys) i n = Some bs"
  by (auto simp: slice_def split: if_splits)

lemma size_announced:
  assumes "bte_sdp_de_get_total_size f = Some (of_nat n)"
  shows "announces f n"
proof -
  obtain b where b: "rd8 f 0 = Some b"
    using assms by (cases "rd8 f 0") (simp_all add: bte_sdp_de_get_total_size_def bte_sdp_de_get_header_size_def)
  have h: "bte_sdp_de_get_header_size (f @ rest) = bte_sdp_de_get_header_size f" for rest
    using b rd8_append [OF b] by (simp add: bte_sdp_de_get_header_size_def)
  have d: "bte_sdp_de_get_data_size (f @ rest) = Some k" if k: "bte_sdp_de_get_data_size f = Some k" for rest k
    using k b rd8_append [OF b, of rest] unfolding bte_sdp_de_get_data_size_def Let_def read_be16_def read_be32_def
    by (auto simp: rd8_append slice_append split: if_splits)
  show ?thesis using assms d h
    by (cases "bte_sdp_de_get_header_size f"; cases "bte_sdp_de_get_data_size f") (simp_all add: announces_def bte_sdp_de_get_total_size_def)
qed

lemma attributes_reassembled:
  assumes "waiting XE m acl a p l sdp c code ident params s" "code = PDU_ID_SERVICE_ATTR_REQ \<or> code = PDU_ID_SERVICE_SEARCH_ATTR_REQ"
    and "req_cb c = Some g" "attr_list_de c = None" "attr_written c = 0"
    and "de = concat (map fst fs) @ f" "length de < 65536"
    and "list_all (\<lambda>(f, cs). f \<noteq> [] \<and> cs \<noteq> [] \<and> length cs \<le> 16) fs"
    and "bte_sdp_de_get_total_size (case fs of [] \<Rightarrow> f | (f0, _) # _ \<Rightarrow> f0) = Some (of_nat (length de))"
    and "answers code ident (fs @ [(f, [])]) rs"
  shows "\<exists>t d mem. client_step (continuations m a (remote_channel_id l) code ident params (map snd fs)) sdp d s t \<and>
    take (length de) mem = de \<and> sc_ref_count d = sc_ref_count c + 1 \<and>
    receive_responses XE sdp rs s =
      do { t \<leftarrow> sp_attr XE g sdp \<lparr>ar_error_code = 0, ar_attr_list_de = Some mem\<rparr> (req_userdata c) t; attr_cleanup XE sdp t }"
proof -
  have "assembled de [] c" using assms(4,5) by (simp add: assembled_def)
  from fragments_delivered [OF assms(1-3,10,8) this _ assms(7)] size_announced [OF assms(9)]
  show ?thesis using assms(6) unfolding attrs_delivered_def by simp blast
qed

text \<open>
  The response to a service search: the callback gets the counts and the record handles in the order of the wire. The
  request is complete when there is no continuation state or the callback does not want more; otherwise the next
  request, the same parameters with the received continuation state and a new identifier, is on the wire and the
  client waits for its response.
\<close>

theorem sdp_search_response:
  assumes "waiting XE m acl a p l sdp c PDU_ID_SERVICE_SEARCH_REQ ident params s" "req_cb c = Some f"
    and "reader_ok r" "reader_stream r = pdu 0x03 ident (search_body total_count hs cs)" "5 \<le> length (reader_lead r)"
    and "length cs \<le> 16" "4 * length hs + 21 < 65536"
    and cb: "\<And>t. sp_search XE f sdp \<lparr>sr_error_code = 0, sr_total_count = total_count, sr_count = of_nat (length hs),
      sr_has_more = (cs \<noteq> []), sr_handles = Some hs\<rparr> (req_userdata c) t = Some (wants_more, t)"
  shows "\<exists>s'. on_message_received XE r (of_nat sdp) s = Some s' \<and>
    (if cs = [] \<or> \<not> wants_more then client_step [] sdp (c\<lparr>last_req := None\<rparr>) s s'
     else \<exists>req. client_step (l2cap_packets m a (remote_channel_id l)
              (pdu PDU_ID_SERVICE_SEARCH_REQ (ident + 1) (params @ cont_bytes cs))) sdp (c\<lparr>last_req := Some req\<rparr>) s s' \<and>
            waiting XE m acl a p l sdp (c\<lparr>last_req := Some req\<rparr>) PDU_ID_SERVICE_SEARCH_REQ (ident + 1) params s')"
proof -
  note w = waitingD [OF assms(1)]
  obtain req cont where req: "last_req c = Some req" "pending m (remote_channel_id l) 2 ident (params @ cont) req" using w(4) by blast
  let ?b = "search_body total_count hs cs"
  have len: "length ?b < 65536" using assms(6,7) by (simp add: search_body_def)
  have st: "reader_stream r = pdu (2 + 1) ident ?b" using assms(4) by simp
  have msg: "on_message_received XE r (of_nat sdp) s = on_response XE sdp 2 0 ?b (of_nat (length ?b)) s"
    using on_message_pdu [OF w(1) req(1,2) w(2) assms(3) st assms(5) len] by simp
  let ?s = "set_sdp sdp (held c) s" and ?complete = "cs = [] \<or> \<not> wants_more"
  have wt: "waiting XE m acl a p l sdp (held c) 2 ident params ?s" by (rule waiting_set [OF assms(1)]) (use w(3) in simp_all)
  have h: "handle_search_response XE sdp 0 ?b (of_nat (length ?b)) ?s = Some (?complete, Some (4 + 4 * length hs), ?s)"
    using assms(2) cb unfolding handle_search_response_def parse_search_spec [OF assms(6,7)] by auto
  have ct: "drop (4 + 4 * length hs) ?b = cont_bytes cs" by (simp add: search_body_def)
  have "on_message_received XE r (of_nat sdp) s = do { s \<leftarrow> (if ?complete then upd_sdp (\<lambda>c. c\<lparr>last_req := None\<rparr>) sdp ?s
        else map_option snd (send_continuation_request XE sdp (Some (cont_bytes cs)) ?s)); bte_sdp_client_unref XE sdp s }"
    unfolding msg on_response_def bte_sdp_client_ref_def upd_sdp_eq [OF w(1)] Option.bind.simps
    using h ct by simp
  then show ?thesis using response_end [OF wt w(3) assms(6), of ?complete] by (simp only: client_step_set(1))
qed

text \<open>A request that has been made, as long as it can be continued.\<close>

lemma requested_waiting:
  assumes "requested m a l sdp d code params s (Some (True, s'))" "idle_client XE m acl a p l sdp c (length params + 17) s"
    "sc_l2cap d = sc_l2cap c" "sc_ref_count d > 0" "sdp < 2 ^ 64" "params \<noteq> []" "length params + 26 \<le> m"
  shows "\<exists>req. waiting XE m acl a p l sdp (d\<lparr>continuation_offset := of_nat (length params), last_req := Some req\<rparr>) code
      (ucast (s_next_transaction_id s)) params s' \<and>
    client_step (l2cap_packets m a (remote_channel_id l) (pdu code (ucast (s_next_transaction_id s)) (params @ [0]))) sdp
      (d\<lparr>continuation_offset := of_nat (length params), last_req := Some req\<rparr>) s s'"
proof -
  obtain req where r: "client_step (l2cap_packets m a (remote_channel_id l) (pdu code (ucast (s_next_transaction_id s)) (params @ [0]))) sdp
        (d\<lparr>continuation_offset := of_nat (length params), last_req := Some req\<rparr>) s s'"
      "pending m (remote_channel_id l) code (ucast (s_next_transaction_id s)) (params @ [0]) req" "s_next_transaction_id s' = s_next_transaction_id s + 1"
    using assms(1) by (auto simp: requested_def)
  have "sending m acl a p l s'" using assms(2) r(1) by (simp add: idle_client_def sending_def client_step_def)
  moreover have "sdp_heap s' sdp = Some (d\<lparr>continuation_offset := of_nat (length params), last_req := Some req\<rparr>)"
    using r(1) by (simp add: client_step_def)
  moreover have "fits m (length params + 26)" "5 + (length params + 17) \<le> unat (l_remote_mtu l)" using assms(2) by (simp_all add: idle_client_def add.commute)
  ultimately show ?thesis using assms(2-7) r by (auto simp: waiting_def idle_client_def ucast_add1 intro!: exI [of _ req])
qed

text \<open>
  A client without a request in progress whose channel is open and large enough sends each of the three requests: the
  call succeeds, the packets of the protocol message with the opcode, the next transaction identifier and exactly the
  given pattern, record handle, count and attribute identifiers, with an empty continuation state, are on the wire,
  and the client keeps the request, the callback and the offset of the continuation state. While a request is in
  progress every further one is refused and changes nothing.
\<close>

theorem sdp_requests_sent:
  assumes "element pattern" "element ids"
    and "idle_client XE m acl a p l sdp c (length pattern + length ids + 7) s"
  shows "requested m a l sdp (c\<lparr>req_cb := cb, req_userdata := ud\<rparr>) PDU_ID_SERVICE_SEARCH_REQ (pattern @ be_bytes 2 max_count) s
      (bte_sdp_service_search_req XE sdp pattern max_count cb ud s) \<and>
    requested m a l sdp (attr_request_done cb ud c) PDU_ID_SERVICE_ATTR_REQ (be_bytes 4 record @ be_bytes 2 max_count @ ids) s
      (bte_sdp_service_attr_req XE sdp record max_count ids cb ud s) \<and>
    requested m a l sdp (attr_request_done cb ud c) PDU_ID_SERVICE_SEARCH_ATTR_REQ (pattern @ be_bytes 2 max_count @ ids) s
      (bte_sdp_service_search_attr_req XE sdp pattern max_count ids cb ud s) \<and>
    (\<forall>d req t. sdp_heap t sdp = Some d \<and> last_req d = Some req \<longrightarrow>
      bte_sdp_service_search_req XE sdp pattern max_count cb ud t = Some (False, t) \<and>
      bte_sdp_service_attr_req XE sdp record max_count ids cb ud t = Some (False, t) \<and>
      bte_sdp_service_search_attr_req XE sdp pattern max_count ids cb ud t = Some (False, t))"
proof -
  have "bte_sdp_service_search_req XE sdp pattern max_count cb ud t = Some (False, t)"
      "bte_sdp_service_attr_req XE sdp record max_count ids cb ud t = Some (False, t)"
      "bte_sdp_service_search_attr_req XE sdp pattern max_count ids cb ud t = Some (False, t)"
    if "sdp_heap t sdp = Some d" "last_req d = Some req" for t d req
    using that by (simp_all add: bte_sdp_service_search_req_def bte_sdp_service_attr_req_def bte_sdp_service_search_attr_req_def)
  then show ?thesis using requests_sent [OF assms] by blast
qed

text \<open>
  C11: a search for attributes from the request to the callback: the request and, for every fragment but the last, the
  request for the next one with the continuation state of the fragment are on the wire, and after the last response the
  callback is called once, with error code 0 and memory that starts with the concatenation of all fragments, in a state
  in which the client still holds its own reference.
\<close>

theorem sdp_attributes_exchange:
  assumes "element pattern" "element ids" "idle_client XE m acl a p l sdp c (length pattern + length ids + 19) s"
    and "length pattern + length ids + 28 \<le> m" "sdp < 2 ^ 64" "sc_ref_count c > 0"
    and "de = concat (map fst fs) @ f" "length de < 65536"
    and "list_all (\<lambda>(f, cs). f \<noteq> [] \<and> cs \<noteq> [] \<and> length cs \<le> 16) fs"
    and "bte_sdp_de_get_total_size (case fs of [] \<Rightarrow> f | (f0, _) # _ \<Rightarrow> f0) = Some (of_nat (length de))"
    and "answers PDU_ID_SERVICE_SEARCH_ATTR_REQ (ucast (s_next_transaction_id s)) (fs @ [(f, [])]) rs"
    and "params = pattern @ be_bytes 2 max_count @ ids"
  shows "\<exists>s1 t d mem. bte_sdp_service_search_attr_req XE sdp pattern max_count ids (Some g) ud s = Some (True, s1) \<and>
    client_step (l2cap_packets m a (remote_channel_id l) (pdu PDU_ID_SERVICE_SEARCH_ATTR_REQ (ucast (s_next_transaction_id s)) (params @ [0])) @
      continuations m a (remote_channel_id l) PDU_ID_SERVICE_SEARCH_ATTR_REQ (ucast (s_next_transaction_id s)) params (map snd fs)) sdp d s t \<and>
    take (length de) mem = de \<and> sc_ref_count d = sc_ref_count c + 1 \<and>
    receive_responses XE sdp rs s1 =
      do { t \<leftarrow> sp_attr XE g sdp \<lparr>ar_error_code = 0, ar_attr_list_de = Some mem\<rparr> ud t; attr_cleanup XE sdp t }"
proof -
  let ?code = PDU_ID_SERVICE_SEARCH_ATTR_REQ and ?id = "ucast (s_next_transaction_id s) :: u16"
  let ?d = "attr_request_done (Some g) ud c"
  have i: "idle_client XE m acl a p l sdp c (length params + 17) s" "idle_client XE m acl a p l sdp c (length pattern + length ids + 7) s"
    using assms(3,12) fits_mono [of m "length pattern + length ids + 19 + 9" "length pattern + length ids + 7 + 9"] by (auto simp: idle_client_def)
  have rq: "requested m a l sdp ?d ?code params s (bte_sdp_service_search_attr_req XE sdp pattern max_count ids (Some g) ud s)"
    using requests_sent [OF assms(1,2) i(2)] assms(12) by simp
  then obtain s1 where s1: "bte_sdp_service_search_attr_req XE sdp pattern max_count ids (Some g) ud s = Some (True, s1)"
    by (auto simp: requested_def)
  have lp: "length params = length pattern + length ids + 2" using assms(12) by simp
  have q: "sc_l2cap ?d = sc_l2cap c" "sc_ref_count ?d > 0" "params \<noteq> []" "length params + 26 \<le> m"
    using assms(4,6) lp by (auto simp: attr_request_done_def)
  obtain req where w: "waiting XE m acl a p l sdp (?d\<lparr>continuation_offset := of_nat (length params), last_req := Some req\<rparr>) ?code ?id params s1"
      "client_step (l2cap_packets m a (remote_channel_id l) (pdu ?code ?id (params @ [0]))) sdp
        (?d\<lparr>continuation_offset := of_nat (length params), last_req := Some req\<rparr>) s s1"
    using requested_waiting [OF rq [unfolded s1] i(1) q(1,2) assms(5) q(3,4)] by blast
  obtain t d mem where t: "client_step (continuations m a (remote_channel_id l) ?code ?id params (map snd fs)) sdp d s1 t"
      "take (length de) mem = de" "sc_ref_count d = sc_ref_count c + 1"
      "receive_responses XE sdp rs s1 = do { t \<leftarrow> sp_attr XE g sdp \<lparr>ar_error_code = 0, ar_attr_list_de = Some mem\<rparr> ud t; attr_cleanup XE sdp t }"
    using attributes_reassembled [OF w(1) _ _ _ _ assms(7-11)] by (auto simp: attr_request_done_def)
  show ?thesis using s1 t(2-4) client_step_trans [OF w(2) t(1)] by blast
qed

section \<open>What goes wrong\<close>

lemma attr_size_beyond:
  assumes "params = be_bytes 2 (n :: u16) @ rest" "1 \<le> length rest" "length rest < unat n" "length rest + 2 < 65536"
  shows "parse_service_attr_reply XE sdp params (of_nat (length params)) s = None"
proof -
  let ?k = "of_nat (length params) :: u16"
  have k: "unat ?k = length rest + 2" using assms(1,4) by (subst u16_of_nat) simp_all
  have k2: "unat (?k - 2) = length rest" using k by (simp add: unat_sub_if_size)
  have "\<not> ?k < 3" using k assms(2) by (simp add: word_less_nat_alt Suc_le_eq)
  moreover have "?k - 2 - n \<noteq> 0" using k2 assms(3) by auto
  then have "\<not> ?k - 2 - n < 1" by (simp add: word_gt_0)
  moreover have "read_be16 params 0 = Some n" using assms(1) by (simp add: read_be16_def slice_def be_val_bytes)
  moreover have "drop (2 + unat n) params = []" using assms(1,3) by simp
  ultimately show ?thesis by (simp add: parse_service_attr_reply_def cont_state_len_def rd8_def)
qed

text \<open>
  C33: a response to an attribute request whose list is announced with more bytes than the response has is not refused: the
  number of remaining bytes wraps around, and the continuation state is read behind the end of the response.
\<close>

theorem sdp_attr_size_wraps:
  assumes "waiting XE m acl a p l sdp c code ident params s" "code = PDU_ID_SERVICE_ATTR_REQ \<or> code = PDU_ID_SERVICE_SEARCH_ATTR_REQ"
    and "reader_ok r" "reader_stream r = pdu (code + 1) ident (be_bytes 2 (n :: u16) @ rest)" "5 \<le> length (reader_lead r)"
    and "1 \<le> length rest" "length rest < unat n" "length rest + 2 < 65536"
  shows "on_message_received XE r (of_nat sdp) s = None"
proof -
  note w = waitingD [OF assms(1)]
  obtain req cont where req: "last_req c = Some req" "pending m (remote_channel_id l) code ident (params @ cont) req" using w(4) by blast
  let ?b = "be_bytes 2 n @ rest"
  have cd: "code \<noteq> 0" "code \<noteq> 0xff" "code \<noteq> PDU_ID_SERVICE_SEARCH_REQ" using assms(2) by auto
  have len: "length ?b < 65536" using assms(8) by simp
  have msg: "on_message_received XE r (of_nat sdp) s = on_response XE sdp code 0 ?b (of_nat (length ?b)) s"
    by (rule on_message_pdu [OF w(1) req w(2) assms(3-5) len cd(1,2)])
  have "handle_attr_response XE sdp 0 ?b (of_nat (length ?b)) (set_sdp sdp (held c) s) = None"
    using attr_size_beyond [OF refl assms(6-8), of XE sdp "set_sdp sdp (held c) s"] by (simp add: handle_attr_response_def)
  then show ?thesis
    unfolding msg on_response_def bte_sdp_client_ref_def upd_sdp_eq [OF w(1)] Option.bind.simps using assms(2) cd(3) by auto
qed

text \<open>
  C34: a client that is made for a channel that others hold too and then released leaves its message handler and its address
  registered with the channel: the client is gone, the channel lives on with \<^verbatim>\<open>on_message_received\<close> and the address of the released client as its
  userdata, and whatever message comes next on the channel is handled with this address, a use of freed memory.
\<close>

theorem sdp_client_freed_too_early:
  assumes "l2cap_heap s p = Some l" "l_ref_count l \<noteq> 0" "sdp < 2 ^ 64"
  shows "\<exists>s1 s2 k. bte_sdp_client_new sdp p s = Some s1 \<and> bte_sdp_client_unref XE sdp s1 = Some s2 \<and>
    sdp_heap s2 sdp = None \<and> l2cap_heap s2 p = Some k \<and> l_ref_count k = l_ref_count l \<and>
    message_received_cb k = Some ON_MESSAGE_RECEIVED \<and> l_userdata k = of_nat sdp \<and>
    (\<forall>r. call_l2cap (sdp_l2cap_env XE) (message_received_cb k) (Some p) (Message_received r) (l_userdata k) s2 =
         on_message_received XE r (of_nat sdp) s2 \<and>
       on_message_received XE r (of_nat sdp) s2 = None)"
proof -
  have u: "unat (of_nat sdp :: u64) = sdp" using assms(3) by (simp add: unat_of_nat)
  show ?thesis
    using assms(1,2) u
    by (simp add: bte_sdp_client_new_def bte_l2cap_ref_def upd_l2cap_def put_l2cap_def bte_l2cap_get_userdata_def bte_l2cap_set_userdata_def
        bte_l2cap_on_message_received_def bte_sdp_client_unref_def put_sdp_def bte_sdp_client_free_def bte_l2cap_unref_def call_l2cap_def
        sdp_l2cap_env_def sdp_channel_client_def on_message_received_def)
qed

section \<open>An exchange\<close>

definition discovery_env :: "sdp_dev sdp_env" where
  "discovery_env =
     \<lparr>sp_l2cap = \<lparr>le_hci = \<lparr>env_client = \<lambda>c s. Some (False, s), env_fresh = \<lambda>s i. 0xee, be_init = \<lambda>s. 0,
          be_hci_send_command = \<lambda>_ _. 0, be_hci_send_data = \<lambda>_ _. 0, be_deinit = id, driver_init = \<lambda>s. Some (0, s)\<rparr>,
        le_client = \<lambda>c s. Some s, le_echo = \<lambda>_ _ r _ s. Some (r, s), le_connection_req = \<lambda>_ _ _ _ s. Some (None, s),
        le_echo_req = \<lambda>_ _ r _ s. Some (False, r, s),
        le_fresh_reply = \<lambda>_. \<lparr>cy_rejected_mask = 0, cy_unknown_mask = 0, cy_params = zero_params\<rparr>\<rparr>,
      sp_search = \<lambda>f sdp reply ud s. Some (True, s), sp_attr = \<lambda>f sdp reply ud s.
        if map_option (take 6) (ar_attr_list_de reply) = Some [0x35, 4, 9, 0, 1, 8] then Some s else None\<rparr>"

definition discovery_client :: sdp_client where
  "discovery_client = \<lparr>sc_ref_count = 1, sc_userdata = 7, sc_l2cap = Some 30, last_req = None, continuation_offset = 0, req_cb = None,
     req_userdata = 0, attr_list_de = None, attr_written = 0\<rparr>"

text \<open>A client that waits for the answer to its first request.\<close>

definition asking_client :: "byte \<Rightarrow> mem \<Rightarrow> sdp_client" where
  "asking_client code params = discovery_client\<lparr>continuation_offset := of_nat (length params), req_cb := Some 4, req_userdata := 9,
     last_req := Some \<lparr>ref_count = 1, total_size = 0, size = 0, data = [0, 0, 0, 0] @ l2cap_frame 0x41 (pdu code 1 (params @ [0]))\<rparr>\<rparr>"

definition open_channel :: bte_l2cap where
  "open_channel = demo_channel\<lparr>l_state := BTE_L2CAP_OPEN, local_channel_id := 0x40, remote_channel_id := 0x41,
     l_remote_mtu := 672, cmd_client_cb := Some 3\<rparr>"

definition discovery_dev :: "sdp_client \<Rightarrow> u32 \<Rightarrow> sdp_dev" where
  "discovery_dev c ident = server_dev.extend (l2cap_dev.extend (config_dev open_channel)
       (server_dev.fields [] Map.empty)) (sdp_dev.fields [50 \<mapsto> c] ident)"

lemma discovery_dev_simps [simp]:
  "acl_heap (discovery_dev c i) 5 = Some config_acl" "acl_mtu (discovery_dev c i) = 204"
  "l2cap_heap (discovery_dev c i) = [30 \<mapsto> open_channel]"
  "outgoing_acl_packets (discovery_dev c i) = []" "sdp_heap (discovery_dev c i) = [50 \<mapsto> c]" "s_next_transaction_id (discovery_dev c i) = i"
  by (simp_all add: discovery_dev_def config_dev_def demo_l2cap_dev_def demo_acl_dev_def acl_dev.defs l2cap_dev.defs server_dev.defs sdp_dev.defs bte_hci_dev.defs zero_dev_def)

lemma discovery_sending:
  "sending 200 5 config_acl 30 open_channel (discovery_dev c i)" "accepting (le_hci (sp_l2cap discovery_env))"
  by (simp_all add: sending_def link_ready_def sizeof_BteBuffer_def open_channel_def demo_channel_def accepting_def discovery_env_def)

lemma discovery_idle:
  "n \<le> 60 \<Longrightarrow> idle_client discovery_env 200 5 config_acl 30 open_channel 50 discovery_client n (discovery_dev discovery_client 1)"
  using discovery_sending(1) [of discovery_client 1] discovery_sending(2) fits_mono [OF config_dev_ready(3), of "n + 9"]
  by (simp add: idle_client_def discovery_client_def open_channel_def)

lemma asking_waiting:
  assumes "params \<noteq> []" "length params \<le> 50"
  shows "waiting discovery_env 200 5 config_acl 30 open_channel 50 (asking_client code params) code 1 params
    (discovery_dev (asking_client code params) 2)"
proof -
  have "take 200 (l2cap_frame 0x41 (pdu code 1 (params @ [0]))) = l2cap_frame 0x41 (pdu code 1 (params @ [0]))"
    using assms(2) by (simp add: l2cap_frame_def pdu_def)
  then have "pending 200 0x41 code 1 (params @ [0]) \<lparr>ref_count = 1, total_size = 0, size = 0, data = [0, 0, 0, 0] @ l2cap_frame 0x41 (pdu code 1 (params @ [0]))\<rparr>"
    unfolding pending_def by (intro conjI exI [of _ "[0, 0, 0, 0]"] exI [of _ "[]"]) simp_all
  then show ?thesis
    using assms discovery_sending(1) [of "asking_client code params" 2] discovery_sending(2) fits_mono [OF config_dev_ready(3), of "length params + 26"]
    by (auto simp: waiting_def asking_client_def discovery_client_def open_channel_def)
qed

lemma demo_elements: "element [0x35, 3, 0x19, 0x11, 0x05]" "element [0x35, 1, 9]"
proof -
  have "bte_sdp_de_get_total_size [0x35, 3, 0x19, 0x11, 0x05] = Some 5" "bte_sdp_de_get_total_size [0x35, 1, 9] = Some 3" by code_simp+
  then show "element [0x35, 3, 0x19, 0x11, 0x05]" "element [0x35, 1, 9]" by (simp_all add: element_def)
qed

theorem sdp_requests_sent_witness:
  "\<exists>s'. bte_sdp_service_search_req discovery_env 50 [0x35, 3, 0x19, 0x11, 0x05] 10 (Some 4) 9 (discovery_dev discovery_client 1) = Some (True, s') \<and>
     wire s' = [[0x2a, 0x20, 17, 0, 13, 0, 0x41, 0, 2, 0, 1, 0, 8, 0x35, 3, 0x19, 0x11, 0x05, 0, 10, 0]]"
proof -
  have e: "element [0x35, 3, 0x19, 0x11, 0x05]" by (rule demo_elements)
  have i: "idle_client discovery_env 200 5 config_acl 30 open_channel 50 discovery_client
      (length ([0x35, 3, 0x19, 0x11, 0x05] :: mem) + length ([0x35, 3, 0x19, 0x11, 0x05] :: mem) + 7) (discovery_dev discovery_client 1)"
    by (rule discovery_idle) simp
  have w: "wire (discovery_dev discovery_client 1) = []" by code_simp
  have p: "l2cap_packets 200 config_acl 0x41 (pdu PDU_ID_SERVICE_SEARCH_REQ (ucast (1 :: u32)) (([0x35, 3, 0x19, 0x11, 0x05] @ be_bytes 2 (10 :: u16)) @ [0])) =
      [[0x2a, 0x20, 17, 0, 13, 0, 0x41, 0, 2, 0, 1, 0, 8, 0x35, 3, 0x19, 0x11, 0x05, 0, 10, 0]]" by code_simp
  have r: "remote_channel_id open_channel = 0x41" by (simp add: open_channel_def)
  show ?thesis
    using sdp_requests_sent [OF e e i, THEN conjunct1, of 9 "Some 4" 10]
    unfolding requested_def client_step_def r w discovery_dev_simps p by auto
qed

lemma byte_reader_lead: "length bs < 65536 \<Longrightarrow> reader_lead (byte_reader bs) = bs"
  by (simp add: byte_reader_def reader_lead_def bte_buffer_reader_init_def u16_of_nat)

theorem sdp_search_response_witness:
  "\<exists>s'. on_message_received discovery_env (byte_reader (pdu 0x03 1 (search_body 2 [0x10001] [0xaa]))) (of_nat 50)
      (discovery_dev (asking_client PDU_ID_SERVICE_SEARCH_REQ [0x35, 3, 0x19, 0x11, 0x05, 0, 10]) 2) = Some s' \<and>
    wire s' = [[0x2a, 0x20, 18, 0, 14, 0, 0x41, 0, 2, 0, 2, 0, 9, 0x35, 3, 0x19, 0x11, 0x05, 0, 10, 1, 0xaa]]"
proof -
  let ?ps = "[0x35, 3, 0x19, 0x11, 0x05, 0, 10] :: mem" and ?bs = "pdu 0x03 1 (search_body 2 [0x10001] [0xaa])"
  let ?c = "asking_client PDU_ID_SERVICE_SEARCH_REQ ?ps" and ?l = "open_channel"
  have w: "waiting discovery_env 200 5 config_acl 30 ?l 50 ?c PDU_ID_SERVICE_SEARCH_REQ 1 ?ps (discovery_dev ?c 2)"
    by (rule asking_waiting) simp_all
  have cb: "req_cb ?c = Some 4" by (simp add: asking_client_def)
  have lb: "length ?bs < 65536" by (simp add: search_body_def)
  have ld: "5 \<le> length (reader_lead (byte_reader ?bs))" using byte_reader_lead [OF lb] by simp
  have sr: "sp_search discovery_env 4 50 \<lparr>sr_error_code = 0, sr_total_count = 2, sr_count = of_nat (length [0x10001 :: u32]),
      sr_has_more = ([0xaa :: byte] \<noteq> []), sr_handles = Some [0x10001]\<rparr> (req_userdata ?c) t = Some (True, t)" for t
    by (simp add: discovery_env_def)
  have e: "wire (discovery_dev ?c 2) = []" by code_simp
  have p: "l2cap_packets 200 config_acl 0x41 (pdu PDU_ID_SERVICE_SEARCH_REQ (1 + 1) (?ps @ cont_bytes [0xaa])) =
      [[0x2a, 0x20, 18, 0, 14, 0, 0x41, 0, 2, 0, 2, 0, 9, 0x35, 3, 0x19, 0x11, 0x05, 0, 10, 1, 0xaa]]" by code_simp
  have r: "remote_channel_id ?l = 0x41" by (simp add: open_channel_def)
  show ?thesis
    using sdp_search_response [OF w cb byte_reader_ok(1,2) [OF lb] ld _ _ sr]
    unfolding client_step_def r e p by auto
qed

abbreviation demo_answers :: "bte_buffer_reader list" where
  "demo_answers \<equiv> [byte_reader (pdu 0x07 1 (attr_body [0x35, 4, 9] [0xaa])), byte_reader (pdu 0x07 2 (attr_body [0, 1, 8] []))]"

theorem sdp_attributes_exchange_witness:
  "\<exists>s1 s2. bte_sdp_service_search_attr_req discovery_env 50 [0x35, 3, 0x19, 0x11, 0x05] 10 [0x35, 1, 9] (Some 4) 9 (discovery_dev discovery_client 1) =
      Some (True, s1) \<and> receive_responses discovery_env 50 demo_answers s1 = Some s2 \<and>
    wire s2 = [[0x2a, 0x20, 20, 0, 16, 0, 0x41, 0, 6, 0, 1, 0, 11, 0x35, 3, 0x19, 0x11, 0x05, 0, 10, 0x35, 1, 9, 0],
      [0x2a, 0x20, 21, 0, 17, 0, 0x41, 0, 6, 0, 2, 0, 12, 0x35, 3, 0x19, 0x11, 0x05, 0, 10, 0x35, 1, 9, 1, 0xaa]]"
proof -
  let ?pat = "[0x35, 3, 0x19, 0x11, 0x05] :: mem" and ?ids = "[0x35, 1, 9] :: mem" and ?l = "open_channel"
  let ?ps = "?pat @ be_bytes 2 (10 :: u16) @ ?ids" and ?s = "discovery_dev discovery_client 1" and ?fs = "[([0x35, 4, 9], [0xaa])] :: (mem \<times> mem) list"
  let ?id = "ucast (s_next_transaction_id ?s) :: u16"
  let ?pk = "[[0x2a, 0x20, 20, 0, 16, 0, 0x41, 0, 6, 0, 1, 0, 11, 0x35, 3, 0x19, 0x11, 0x05, 0, 10, 0x35, 1, 9, 0],
      [0x2a, 0x20, 21, 0, 17, 0, 0x41, 0, 6, 0, 2, 0, 12, 0x35, 3, 0x19, 0x11, 0x05, 0, 10, 0x35, 1, 9, 1, 0xaa]] :: mem list"
  have el: "element ?pat" "element ?ids" by (simp_all add: demo_elements)
  have i: "idle_client discovery_env 200 5 config_acl 30 ?l 50 discovery_client (length ?pat + length ?ids + 19) ?s" by (rule discovery_idle) simp
  have ts: "bte_sdp_de_get_total_size [0x35, 4, 9] = Some (of_nat (length ([0x35, 4, 9, 0, 1, 8] :: mem)))" by code_simp
  have id1: "?id = 1" by simp
  have an: "answers PDU_ID_SERVICE_SEARCH_ATTR_REQ ?id (?fs @ [([0, 1, 8], [])]) demo_answers"
    by (simp add: byte_reader_ok byte_reader_lead attr_body_def)
  have e: "wire ?s = []" by code_simp
  have p: "l2cap_packets 200 config_acl 0x41 (pdu PDU_ID_SERVICE_SEARCH_ATTR_REQ ?id (?ps @ [0])) @
      continuations 200 config_acl 0x41 PDU_ID_SERVICE_SEARCH_ATTR_REQ ?id ?ps (map snd ?fs) = ?pk" unfolding id1 by code_simp
  have r: "remote_channel_id ?l = 0x41" by (simp add: open_channel_def)
  have rc: "sc_ref_count discovery_client = 1" by (simp add: discovery_client_def)
  have ex: "\<exists>s1 t d mem. bte_sdp_service_search_attr_req discovery_env 50 ?pat 10 ?ids (Some 4) 9 ?s = Some (True, s1) \<and>
      client_step (l2cap_packets 200 config_acl (remote_channel_id ?l) (pdu PDU_ID_SERVICE_SEARCH_ATTR_REQ ?id (?ps @ [0])) @
        continuations 200 config_acl (remote_channel_id ?l) PDU_ID_SERVICE_SEARCH_ATTR_REQ ?id ?ps (map snd ?fs)) 50 d ?s t \<and> take (length ([0x35, 4, 9, 0, 1, 8] :: mem)) mem = [0x35, 4, 9, 0, 1, 8] \<and>
      sc_ref_count d = sc_ref_count discovery_client + 1 \<and> receive_responses discovery_env 50 demo_answers s1 =
        do { t \<leftarrow> sp_attr discovery_env 4 50 \<lparr>ar_error_code = 0, ar_attr_list_de = Some mem\<rparr> 9 t; attr_cleanup discovery_env 50 t }"
    by (rule sdp_attributes_exchange [OF el i _ _ _ _ _ _ _ an refl]) (use ts rc in simp_all)
  obtain s1 t d mem where t: "bte_sdp_service_search_attr_req discovery_env 50 ?pat 10 ?ids (Some 4) 9 ?s = Some (True, s1)"
      "client_step ?pk 50 d ?s t" "take (length ([0x35, 4, 9, 0, 1, 8] :: mem)) mem = [0x35, 4, 9, 0, 1, 8]" "sc_ref_count d = 1 + 1"
      "receive_responses discovery_env 50 demo_answers s1 =
        do { t \<leftarrow> sp_attr discovery_env 4 50 \<lparr>ar_error_code = 0, ar_attr_list_de = Some mem\<rparr> 9 t; attr_cleanup discovery_env 50 t }"
    using ex unfolding r p rc by blast
  have "wire t = ?pk" "sdp_heap t 50 = Some d" using t(2) unfolding client_step_def e by simp_all
  moreover have "sp_attr discovery_env 4 50 \<lparr>ar_error_code = 0, ar_attr_list_de = Some mem\<rparr> 9 t = Some t"
    using t(3) by (simp add: discovery_env_def numeral_eq_Suc)
  ultimately show ?thesis using t(1,4,5) by (simp add: attr_cleanup_def upd_sdp_eq bte_sdp_client_unref_def put_sdp_eq)
qed

theorem sdp_attr_size_wraps_witness:
  "on_message_received discovery_env (byte_reader (pdu 0x07 1 (be_bytes 2 (9 :: u16) @ [0x35, 4, 9, 0, 1, 8, 0]))) (of_nat 50)
    (discovery_dev (asking_client PDU_ID_SERVICE_SEARCH_ATTR_REQ [0x35, 3, 0x19, 0x11, 0x05, 0, 10, 0x35, 1, 9]) 2) = None"
proof -
  let ?bs = "pdu (PDU_ID_SERVICE_SEARCH_ATTR_REQ + 1) 1 (be_bytes 2 (9 :: u16) @ [0x35, 4, 9, 0, 1, 8, 0])"
  have lb: "length ?bs < 65536" by simp
  have ld: "5 \<le> length (reader_lead (byte_reader ?bs))" using byte_reader_lead [OF lb] by simp
  show ?thesis
    using sdp_attr_size_wraps [OF asking_waiting _ byte_reader_ok(1,2) [OF lb] ld] by simp
qed

theorem sdp_client_freed_too_early_witness:
  "\<exists>s1 s2 k. bte_sdp_client_new 51 30 (discovery_dev discovery_client 1) = Some s1 \<and> bte_sdp_client_unref discovery_env 51 s1 = Some s2 \<and>
    l2cap_heap s2 30 = Some k \<and> l_ref_count k = 1 \<and> message_received_cb k = Some ON_MESSAGE_RECEIVED \<and> l_userdata k = 51 \<and>
    call_l2cap (sdp_l2cap_env discovery_env) (message_received_cb k) (Some 30) (Message_received (byte_reader [1])) (l_userdata k) s2 = None"
  using sdp_client_freed_too_early [of "discovery_dev discovery_client 1" 30 "open_channel" 51 discovery_env]
  by (fastforce simp: open_channel_def demo_channel_def)

end
