(* ===== verification/Obex.thy ===== *)
theory Obex
  imports SdpDiscovery
begin

text \<open>
  The object exchange service: \<^verbatim>\<open>services/obex.c\<close> finds the channel of the object push service of a
  device with the service discovery protocol, and \<^verbatim>\<open>services/openobex.c\<close> is the transport that the OpenOBEX
  library calls. The functions of that library are parameters, as are the callbacks of the
  application.

  The parser of the attribute list runs over a reader of data elements; its loops may not end, so
  they are partial functions. On a tree without empty sequences it is shown equal to a recursive
  function on the tree.
\<close>

section \<open>The parser of the attributes\<close>

definition BTE_SDP_PROTO_RFCOMM :: u16 where "BTE_SDP_PROTO_RFCOMM = 0x0003"
definition BTE_SDP_SRV_CLASS_OBEX_OP :: u16 where "BTE_SDP_SRV_CLASS_OBEX_OP = 0x1105"
definition BTE_SDP_ATTR_ID_PROTO_DESC_LIST :: u16 where "BTE_SDP_ATTR_ID_PROTO_DESC_LIST = 0x0004"
definition BTE_SDP_ATTR_ID_GOEP_L2CAP_PSM :: u16 where "BTE_SDP_ATTR_ID_GOEP_L2CAP_PSM = 0x0200"
definition BTE_L2CAP_PSM_SDP :: u16 where "BTE_L2CAP_PSM_SDP = 1"

record obex_reply =
  opp_l2cap_psm :: u16
  opp_rfcomm_channel :: byte

definition no_reply :: obex_reply where
  "no_reply = \<lparr>opp_l2cap_psm = 0, opp_rfcomm_channel = 0\<rparr>"

text \<open>
  The loop of \<^verbatim>\<open>find_rfcomm_channel\<close>. The result is \<open>None\<close> for \<^verbatim>\<open>goto error\<close>, and the channel and
  the reader behind the last element otherwise.
\<close>

partial_function (option) find_rfcomm_loop ::
    "byte \<Rightarrow> de_reader \<Rightarrow> (byte \<times> de_reader) option option" where
  "find_rfcomm_loop channel_id r =
     do { (more, r) \<leftarrow> bte_sdp_de_reader_next r;
          if \<not> more then Some (Some (channel_id, r))
          else do {
            (ok, r) \<leftarrow> bte_sdp_de_reader_enter r;
            if \<not> ok then Some None
            else do {
              (ok, r) \<leftarrow> bte_sdp_de_reader_next r;
              if \<not> ok then Some None
              else do {
                uuid \<leftarrow> bte_sdp_de_reader_read_uuid16 r;
                (channel_id, r) \<leftarrow>
                  (if uuid = BTE_SDP_PROTO_RFCOMM
                   then do { (ok, r) \<leftarrow> bte_sdp_de_reader_next r;
                             if ok then do { c \<leftarrow> bte_sdp_de_reader_read_uint8 r; Some (c, r) }
                             else Some (channel_id, r) }
                   else Some (channel_id, r));
                (ok, r) \<leftarrow> bte_sdp_de_reader_leave r;
                if \<not> ok then Some None else find_rfcomm_loop channel_id r } } } }"

definition find_rfcomm_channel :: "de_reader \<Rightarrow> (byte \<times> bool \<times> de_reader) option" where
  "find_rfcomm_channel r =
     do { (ok, r1) \<leftarrow> bte_sdp_de_reader_enter r;
          if \<not> ok then Some (0, True, r1)
          else do {
            res \<leftarrow> find_rfcomm_loop 0 r1;
            case res of None \<Rightarrow> Some (0, True, r1)
            | Some (channel_id, r2) \<Rightarrow> do {
                (ok, r3) \<leftarrow> bte_sdp_de_reader_leave r2;
                if \<not> ok then Some (0, True, r3) else Some (channel_id, False, r3) } } }"

text \<open>
  The two loops of \<^verbatim>\<open>service_search_attr_cb\<close>: over the pairs of an identifier and a value in a list, and over
  the lists. \<open>False\<close> is \<^verbatim>\<open>goto error\<close>, where the reply stays as it is.
\<close>

partial_function (option) obex_attr_loop ::
    "obex_reply \<Rightarrow> de_reader \<Rightarrow> (bool \<times> obex_reply \<times> de_reader) option" where
  "obex_attr_loop reply r =
     do { (more, r) \<leftarrow> bte_sdp_de_reader_next r;
          if \<not> more then Some (True, reply, r)
          else do {
            attr_id \<leftarrow> bte_sdp_de_reader_read_uint16 r;
            (ok, r) \<leftarrow> bte_sdp_de_reader_next r;
            if \<not> ok then Some (False, reply, r)
            else if attr_id = BTE_SDP_ATTR_ID_PROTO_DESC_LIST then do {
              (c, is_error, r) \<leftarrow> find_rfcomm_channel r;
              let reply = reply\<lparr>opp_rfcomm_channel := c\<rparr>;
              if is_error then Some (False, reply, r) else obex_attr_loop reply r }
            else if attr_id = BTE_SDP_ATTR_ID_GOEP_L2CAP_PSM then do {
              psm \<leftarrow> bte_sdp_de_reader_read_uint16 r;
              obex_attr_loop (reply\<lparr>opp_l2cap_psm := psm\<rparr>) r }
            else obex_attr_loop reply r } }"

partial_function (option) obex_list_loop :: "obex_reply \<Rightarrow> de_reader \<Rightarrow> obex_reply option" where
  "obex_list_loop reply r =
     do { (more, r) \<leftarrow> bte_sdp_de_reader_next r;
          if \<not> more then Some reply
          else do {
            (ok, r) \<leftarrow> bte_sdp_de_reader_enter r;
            if \<not> ok then Some reply
            else do {
              (ok, reply, r) \<leftarrow> obex_attr_loop reply r;
              if \<not> ok then Some reply
              else do {
                (ok, r) \<leftarrow> bte_sdp_de_reader_leave r;
                if \<not> ok then Some reply else obex_list_loop reply r } } } }"

text \<open>\<^verbatim>\<open>service_search_attr_cb\<close> up to its label \<^verbatim>\<open>error\<close>.\<close>

definition obex_parse_attrs :: "attr_reply \<Rightarrow> obex_reply option" where
  "obex_parse_attrs attrs =
     (if ar_error_code attrs \<noteq> 0 then Some no_reply
      else do {
        de \<leftarrow> ar_attr_list_de attrs;
        (ok, r) \<leftarrow> bte_sdp_de_reader_enter (bte_sdp_de_reader_init de);
        if \<not> ok then Some no_reply else obex_list_loop no_reply r })"

section \<open>Discovery\<close>

record discover_data =
  dd_client :: hci_ptr
  dd_callback :: cb_ptr
  dd_userdata :: u64

record obex_dev = sdp_dev +
  discover_heap :: "nat \<Rightarrow> discover_data option"

type_synonym 'e odev = "'e obex_dev_scheme"

text \<open>
  The environment: that of the SDP client, the application's callback, and the address that
  \<^verbatim>\<open>bte_malloc\<close> gives to the SDP client (none when there is no memory).
\<close>

record 's obex_env =
  ob_sdp :: "'s sdp_env"
  ob_discover :: "nat \<Rightarrow> hci_ptr \<Rightarrow> obex_reply \<Rightarrow> u64 \<Rightarrow> 's \<Rightarrow> 's option"
  ob_sdp_addr :: "'s \<Rightarrow> nat option"

type_synonym 'e oenv = "'e obex_dev_scheme obex_env"

abbreviation (input) OBEX_NEW_CONFIGURED_CB :: nat where "OBEX_NEW_CONFIGURED_CB \<equiv> 61"
abbreviation (input) OBEX_SERVICE_SEARCH_ATTR_CB :: nat where "OBEX_SERVICE_SEARCH_ATTR_CB \<equiv> 62"

text \<open>The end of both callbacks: the reply goes to the application, and the data of the call is freed.\<close>

definition discover_done :: "'e oenv \<Rightarrow> nat \<Rightarrow> obex_reply \<Rightarrow> 'e odev \<Rightarrow> 'e odev option" where
  "discover_done OE dd reply s =
     do { d \<leftarrow> discover_heap s dd;
          cb \<leftarrow> dd_callback d;
          s \<leftarrow> ob_discover OE cb (dd_client d) reply (dd_userdata d) s;
          _ \<leftarrow> discover_heap s dd;
          Some (s\<lparr>discover_heap := (discover_heap s)(dd := None)\<rparr>) }"

definition service_search_attr_cb :: "'e oenv \<Rightarrow> nat \<Rightarrow> attr_reply \<Rightarrow> u64 \<Rightarrow> 'e odev \<Rightarrow> 'e odev option" where
  "service_search_attr_cb OE sdp attrs userdata s =
     do { reply \<leftarrow> obex_parse_attrs attrs;
          s \<leftarrow> bte_sdp_client_unref (ob_sdp OE) sdp s;
          discover_done OE (unat userdata) reply s }"

definition obex_pattern_args :: va_list where
  "obex_pattern_args =
     [Va_int (ucast BTE_SDP_DE_TYPE_SEQUENCE),
      Va_int (ucast BTE_SDP_DE_TYPE_UUID16), Va_int (ucast BTE_SDP_SRV_CLASS_OBEX_OP),
      Va_int BTE_SDP_DE_END, Va_int BTE_SDP_DE_END]"

definition obex_id_list_args :: va_list where
  "obex_id_list_args =
     [Va_int (ucast BTE_SDP_DE_TYPE_SEQUENCE),
      Va_int (ucast BTE_SDP_DE_TYPE_UINT16), Va_int (ucast BTE_SDP_ATTR_ID_PROTO_DESC_LIST),
      Va_int (ucast BTE_SDP_DE_TYPE_UINT16), Va_int (ucast BTE_SDP_ATTR_ID_GOEP_L2CAP_PSM),
      Va_int BTE_SDP_DE_END, Va_int BTE_SDP_DE_END]"

definition obex_new_configured_cb :: "'e oenv \<Rightarrow> nat option \<Rightarrow> u64 \<Rightarrow> 'e odev \<Rightarrow> 'e odev option" where
  "obex_new_configured_cb OE l2cap userdata s =
     (let XE = ob_sdp OE; junk = map (env_fresh (le_hci (sp_l2cap XE)) s) [0..<20] in
      case l2cap of
        None \<Rightarrow> discover_done OE (unat userdata) no_reply s
      | Some p \<Rightarrow>
          (case ob_sdp_addr OE s of
             None \<Rightarrow> do { s \<leftarrow> bte_l2cap_unref (sp_l2cap XE) p s; discover_done OE (unat userdata) no_reply s }
           | Some sdp \<Rightarrow> do {
               s \<leftarrow> bte_sdp_client_new sdp p s;
               (_, pattern) \<leftarrow> bte_sdp_de_write (Some junk) 20 obex_pattern_args;
               (_, id_list) \<leftarrow> bte_sdp_de_write (Some junk) 20 obex_id_list_args;
               (ok, s) \<leftarrow> bte_sdp_service_search_attr_req XE sdp pattern 0x1000 id_list
                            (Some OBEX_SERVICE_SEARCH_ATTR_CB) userdata s;
               if ok then Some s
               else do {
                 s \<leftarrow> bte_sdp_client_unref XE sdp s;
                 s \<leftarrow> bte_l2cap_unref (sp_l2cap XE) p s;
                 discover_done OE (unat userdata) no_reply s } }))"

definition bte_obex_discover ::
    "'e oenv \<Rightarrow> nat option \<Rightarrow> nat option \<Rightarrow> nat \<Rightarrow> nat \<Rightarrow> nat \<Rightarrow> mem \<Rightarrow> connect_params option \<Rightarrow> cb_ptr \<Rightarrow> u64
     \<Rightarrow> 'e odev \<Rightarrow> (bool \<times> 'e odev) option" where
  "bte_obex_discover OE dd cd l2cap new_acl client address params callback userdata s =
     (case dd of None \<Rightarrow> Some (False, s)
      | Some dd \<Rightarrow> do {
          let s = s\<lparr>discover_heap := (discover_heap s)(dd \<mapsto>
                    \<lparr>dd_client = Some client, dd_callback = callback, dd_userdata = userdata\<rparr>)\<rparr>;
          (ok, s) \<leftarrow> bte_l2cap_new_configured (sp_l2cap (ob_sdp OE)) cd l2cap new_acl client address
                       BTE_L2CAP_PSM_SDP params 0 None (Some OBEX_NEW_CONFIGURED_CB) (of_nat dd) s;
          if \<not> ok then Some (False, s\<lparr>discover_heap := (discover_heap s)(dd := None)\<rparr>) else Some (True, s) })"

text \<open>The two callbacks bound to their numbers.\<close>

definition obex_channel_client :: "'e oenv \<Rightarrow> l2cap_call \<Rightarrow> 'e odev \<Rightarrow> 'e odev option" where
  "obex_channel_client OE c s =
     (if lc_cb c = OBEX_NEW_CONFIGURED_CB then
        (case lc_arg c of New_configured_reply _ \<Rightarrow> obex_new_configured_cb OE (lc_l2cap c) (lc_userdata c) s | _ \<Rightarrow> None)
      else le_client (sp_l2cap (ob_sdp OE)) c s)"

definition obex_attr_client :: "'e oenv \<Rightarrow> nat \<Rightarrow> nat \<Rightarrow> attr_reply \<Rightarrow> u64 \<Rightarrow> 'e odev \<Rightarrow> 'e odev option" where
  "obex_attr_client OE cb sdp attrs userdata s =
     (if cb = OBEX_SERVICE_SEARCH_ATTR_CB then service_search_attr_cb OE sdp attrs userdata s
      else sp_attr (ob_sdp OE) cb sdp attrs userdata s)"

definition obex_sdp_env :: "'e oenv \<Rightarrow> 'e obex_dev_scheme sdp_env" where
  "obex_sdp_env OE = (ob_sdp OE)\<lparr>sp_l2cap := (sp_l2cap (ob_sdp OE))\<lparr>le_client := obex_channel_client OE\<rparr>,
                                  sp_attr := obex_attr_client OE\<rparr>"

section \<open>The transport for OpenOBEX\<close>

text \<open>
  The functions of OpenOBEX that the transport calls; an \<^verbatim>\<open>obex_t\<close> is a number.
\<close>

record 's obex_lib =
  OBEX_CustomDataFeed :: "u64 \<Rightarrow> mem \<Rightarrow> 's \<Rightarrow> 's option"
  OBEX_GetCustomData :: "u64 \<Rightarrow> 's \<Rightarrow> nat option"
  OBEX_SetCustomData :: "u64 \<Rightarrow> nat \<Rightarrow> 's \<Rightarrow> 's option"
  OBEX_SetTransportMTU :: "u64 \<Rightarrow> u16 \<Rightarrow> u16 \<Rightarrow> 's \<Rightarrow> 's option"

abbreviation (input) OO_MESSAGE_RECEIVED_CB :: nat where "OO_MESSAGE_RECEIVED_CB \<equiv> 63"

text \<open>The loop of \<^verbatim>\<open>message_received_cb\<close>: the buffer of 1024 bytes is filled and handed over until nothing is left.\<close>

partial_function (option) oo_message_received_cb ::
    "'s obex_lib \<Rightarrow> bte_buffer_reader \<Rightarrow> u64 \<Rightarrow> 's \<Rightarrow> 's option" where
  "oo_message_received_cb OL r handle s =
     do { (buffer, len, r) \<leftarrow> bte_buffer_reader_read True r 1024;
          if len > 0 then do { s \<leftarrow> OBEX_CustomDataFeed OL handle (take (unat len) buffer) s;
                               oo_message_received_cb OL r handle s }
          else Some s }"

definition oo_connect :: "'c ldev obex_lib \<Rightarrow> u64 \<Rightarrow> 'c ldev \<Rightarrow> (int \<times> 'c ldev) option" where
  "oo_connect OL handle s =
     do { l2cap \<leftarrow> OBEX_GetCustomData OL handle s;
          mtu \<leftarrow> bte_l2cap_get_mtu l2cap s;
          remote_mtu \<leftarrow> bte_l2cap_get_remote_mtu l2cap s;
          s \<leftarrow> OBEX_SetTransportMTU OL handle mtu remote_mtu s;
          s \<leftarrow> bte_l2cap_set_userdata l2cap handle s;
          s \<leftarrow> bte_l2cap_on_message_received l2cap (Some OO_MESSAGE_RECEIVED_CB) s;
          Some (0, s) }"

definition oo_disconnect :: "'c lenv \<Rightarrow> 'c ldev obex_lib \<Rightarrow> u64 \<Rightarrow> 'c ldev \<Rightarrow> (int \<times> 'c ldev) option" where
  "oo_disconnect LE OL handle s =
     do { l2cap \<leftarrow> OBEX_GetCustomData OL handle s;
          s \<leftarrow> bte_l2cap_on_message_received l2cap None s;
          s \<leftarrow> bte_l2cap_disconnect LE l2cap s;
          Some (0, s) }"

definition oo_listen :: "u64 \<Rightarrow> 's \<Rightarrow> (int \<times> 's) option" where
  "oo_listen handle s = Some (- 1, s)"

text \<open>The length is an \<^verbatim>\<open>int\<close>; creating and filling the message take its lower 16 bits.\<close>

definition oo_write :: "'c lenv \<Rightarrow> 'c ldev obex_lib \<Rightarrow> u64 \<Rightarrow> mem \<Rightarrow> int \<Rightarrow> 'c ldev \<Rightarrow> (int \<times> 'c ldev) option" where
  "oo_write LE OL handle buf len s =
     do { l2cap \<leftarrow> OBEX_GetCustomData OL handle s;
          w \<leftarrow> bte_l2cap_create_message LE l2cap (word_of_int len) s;
          case w of None \<Rightarrow> Some (- 1, s)
          | Some w \<Rightarrow> do {
              (ok, w) \<leftarrow> bte_buffer_writer_write w buf (word_of_int len);
              if \<not> ok then Some (- 1, s)
              else do {
                chain \<leftarrow> bte_buffer_writer_end w;
                (rc, s) \<leftarrow> bte_l2cap_send_message LE l2cap chain s;
                if rc < 0 then Some (- 1, s) else Some (len, s) } } }"

text \<open>\<open>wait_events\<close> is \<^verbatim>\<open>bte_wait_events\<close> of the backend; the timeout is converted to \<^verbatim>\<open>uint32_t\<close>.\<close>

definition oo_handleinput :: "(u32 \<Rightarrow> 's \<Rightarrow> (int \<times> 's) option) \<Rightarrow> u64 \<Rightarrow> int \<Rightarrow> 's \<Rightarrow> (int \<times> 's) option" where
  "oo_handleinput wait_events handle timeout s = wait_events (word_of_int timeout) s"

text \<open>\<^verbatim>\<open>s_ctrans\<close>; there is no \<^verbatim>\<open>read\<close>.\<close>

record 's obex_ctrans =
  ct_connect :: "u64 \<Rightarrow> 's \<Rightarrow> (int \<times> 's) option"
  ct_disconnect :: "u64 \<Rightarrow> 's \<Rightarrow> (int \<times> 's) option"
  ct_listen :: "u64 \<Rightarrow> 's \<Rightarrow> (int \<times> 's) option"
  ct_write :: "u64 \<Rightarrow> mem \<Rightarrow> int \<Rightarrow> 's \<Rightarrow> (int \<times> 's) option"
  ct_handleinput :: "u64 \<Rightarrow> int \<Rightarrow> 's \<Rightarrow> (int \<times> 's) option"

definition bte_openobex_transport ::
    "'c lenv \<Rightarrow> 'c ldev obex_lib \<Rightarrow> (u32 \<Rightarrow> 'c ldev \<Rightarrow> (int \<times> 'c ldev) option) \<Rightarrow> 'c ldev obex_ctrans" where
  "bte_openobex_transport LE OL wait_events =
     \<lparr>ct_connect = oo_connect OL, ct_disconnect = oo_disconnect LE OL, ct_listen = oo_listen,
      ct_write = oo_write LE OL, ct_handleinput = oo_handleinput wait_events\<rparr>"

definition bte_openobex_set_l2cap :: "'s obex_lib \<Rightarrow> u64 \<Rightarrow> nat \<Rightarrow> 's \<Rightarrow> 's option" where
  "bte_openobex_set_l2cap OL handle l2cap s = OBEX_SetCustomData OL handle l2cap s"

end
