(* ===== verification/ObexParse.thy ===== *)
theory ObexParse
  imports Obex
begin

text \<open>
  The parser of \<^verbatim>\<open>obex.c\<close> against a recursive function on the tree of data elements, the list that makes it
  run for ever, and the transport for OpenOBEX against the stream of bytes of a message.
\<close>

section \<open>The reference function\<close>

definition ref_u16 :: "de \<Rightarrow> u16" where
  "ref_u16 e = (if length (de_body e) \<in> {1, 2} then be_val (de_body e) else 0)"

definition ref_u8 :: "de \<Rightarrow> byte" where
  "ref_u8 e = (if length (de_body e) = 1 then be_val (de_body e) else 0)"

fun ref_rfcomm :: "de list \<Rightarrow> byte \<Rightarrow> byte option" where
  "ref_rfcomm [] c = Some c"
| "ref_rfcomm (De_seq t (e # es) # ds) c =
     ref_rfcomm ds (if ref_u16 e = BTE_SDP_PROTO_RFCOMM then (case es of [] \<Rightarrow> c | x # _ \<Rightarrow> ref_u8 x) else c)"
| "ref_rfcomm (_ # ds) c = None"

fun ref_channel :: "de \<Rightarrow> byte option" where
  "ref_channel (De_seq t ds) = ref_rfcomm ds 0"
| "ref_channel _ = None"

fun ref_attrs :: "de list \<Rightarrow> obex_reply \<Rightarrow> bool \<times> obex_reply" where
  "ref_attrs [] reply = (True, reply)"
| "ref_attrs [x] reply = (False, reply)"
| "ref_attrs (x # v # ds) reply =
     (if ref_u16 x = BTE_SDP_ATTR_ID_PROTO_DESC_LIST then
        (case ref_channel v of None \<Rightarrow> (False, reply\<lparr>opp_rfcomm_channel := 0\<rparr>)
         | Some c \<Rightarrow> ref_attrs ds (reply\<lparr>opp_rfcomm_channel := c\<rparr>))
      else if ref_u16 x = BTE_SDP_ATTR_ID_GOEP_L2CAP_PSM then ref_attrs ds (reply\<lparr>opp_l2cap_psm := ref_u16 v\<rparr>)
      else ref_attrs ds reply)"

fun ref_lists :: "de list \<Rightarrow> obex_reply \<Rightarrow> obex_reply" where
  "ref_lists [] reply = reply"
| "ref_lists (De_seq t ds # ls) reply =
     (case ref_attrs ds reply of (ok, reply) \<Rightarrow> if ok then ref_lists ls reply else reply)"
| "ref_lists (_ # ls) reply = reply"

fun obex_reference :: "de \<Rightarrow> obex_reply" where
  "obex_reference (De_seq t ls) = ref_lists ls no_reply"
| "obex_reference _ = no_reply"

text \<open>The lists of attributes are not empty, and neither is a sequence in them.\<close>

fun empty_seq :: "de \<Rightarrow> bool" where
  "empty_seq (De_seq t ds) = (ds = [])"
| "empty_seq _ = False"

fun list_full :: "de \<Rightarrow> bool" where
  "list_full (De_seq t ds) = (ds \<noteq> [] \<and> \<not> list_ex empty_seq ds)"
| "list_full _ = True"

fun attrs_full :: "de \<Rightarrow> bool" where
  "attrs_full (De_seq t ls) = list_all list_full ls"
| "attrs_full _ = True"

section \<open>Moves of the reader\<close>

declare at_cursor.simps [simp del]

lemma next_at:
  assumes "readable d" and "at_cursor d rest r (In q k s)" and "de_sub d q = Some (De_seq t ds)" and n: "n = (if s then Suc k else k)"
  shows "n < length ds \<Longrightarrow> \<exists>r'. bte_sdp_de_reader_next r = Some (True, r') \<and> at_cursor d rest r' (In q n True)"
    and "n \<ge> length ds \<Longrightarrow> \<exists>r' k'. bte_sdp_de_reader_next r = Some (False, r') \<and> at_cursor d rest r' (In q k' s)"
proof -
  have "de_children d q = length ds" using assms(3) by (simp add: de_children_def)
  moreover obtain r' where r': "bte_sdp_de_reader_next r = Some (fst (cur_next d (In q k s)), r')"
      "at_cursor d rest r' (snd (cur_next d (In q k s)))"
    using next_refines [OF assms(1,2)] by blast
  ultimately show "n < length ds \<Longrightarrow> \<exists>r'. bte_sdp_de_reader_next r = Some (True, r') \<and> at_cursor d rest r' (In q n True)"
    and "n \<ge> length ds \<Longrightarrow> \<exists>r' k'. bte_sdp_de_reader_next r = Some (False, r') \<and> at_cursor d rest r' (In q k' s)"
    using n by (cases s; cases "k < length ds"; fastforce)+
qed

lemma enter_at:
  assumes "readable d" and "at_cursor d rest r c" and "de_sub d (cur_focus c) = Some e" and "length (cur_focus c) < 255"
  shows "e = De_seq t ds \<Longrightarrow> \<exists>r'. bte_sdp_de_reader_enter r = Some (True, r') \<and> at_cursor d rest r' (In (cur_focus c) 0 False)"
    and "(\<And>t ds. e \<noteq> De_seq t ds) \<Longrightarrow> \<exists>r'. bte_sdp_de_reader_enter r = Some (False, r')"
  using enter_refines [OF assms(1,2)] assms(3,4) by (cases e; fastforce simp: cur_enter_def)+

lemma leave_at:
  assumes "readable d" and "at_cursor d rest r (In (q @ [n]) k s)"
  shows "\<exists>r'. bte_sdp_de_reader_leave r = Some (True, r') \<and> at_cursor d rest r' (In q n s)"
  using leave_refines [OF assms] by simp

lemma read_at:
  assumes "readable d" and "at_cursor d rest r (In q n True)" and "de_sub d (q @ [n]) = Some e"
  shows "bte_sdp_de_reader_read_uint16 r = Some (ref_u16 e)"
    and "bte_sdp_de_reader_read_uint8 r = Some (ref_u8 e)"
proof -
  have l: "length (de_body e) < 2 ^ 32"
    using encode_body(3) [of e] sub_bounds [OF assms(3)] assms(1) by (simp add: readable_def)
  note cd = current_data [OF assms(1,2), of e]
  have "bte_sdp_de_reader_read_uint16 r = Some (ref_u16 e) \<and> bte_sdp_de_reader_read_uint8 r = Some (ref_u8 e)"
  proof (cases "de_body e = []")
    case True
    then show ?thesis using cd(3) assms(3)
      by (simp add: bte_sdp_de_reader_read_uint16_def bte_sdp_de_reader_read_uint8_def ref_u16_def ref_u8_def)
  next
    case False
    then obtain xs where data: "de_get_data r = Some (Some (de_body e @ xs, of_nat (length (de_body e))))"
      using cd(2) assms(3) by auto
    show ?thesis
    proof (cases "length (de_body e) \<in> {1, 2}")
      case True
      then show ?thesis using reads_valueI [OF data] data
        by (auto simp: reads_value_def ref_u16_def ref_u8_def bte_sdp_de_reader_read_uint8_def)
    next
      case False
      then have "length (de_body e) > 2" using \<open>de_body e \<noteq> []\<close> by (cases "de_body e"; cases "tl (de_body e)") auto
      then have "(of_nat (length (de_body e)) :: u32) > 2" "(of_nat (length (de_body e)) :: u32) \<noteq> 1"
        using u32_of_nat_less [of 2 "length (de_body e)"] u32_of_nat_less [of 1 "length (de_body e)"] l by auto
      then show ?thesis using data False \<open>length (de_body e) > 2\<close>
        by (simp add: bte_sdp_de_reader_read_uint16_def bte_sdp_de_reader_read_uint8_def ref_u16_def ref_u8_def)
    qed
  qed
  then show "bte_sdp_de_reader_read_uint16 r = Some (ref_u16 e)" and "bte_sdp_de_reader_read_uint8 r = Some (ref_u8 e)"
    by simp_all
qed

lemma sub_child:
  "de_sub d q = Some (De_seq t ds) \<Longrightarrow> n < length ds \<Longrightarrow> de_sub d (q @ [n]) = Some (ds ! n)"
  by (simp add: sub_append)

lemma drop_eq_Cons: "drop n ds = x # es \<Longrightarrow> n < length ds \<and> ds ! n = x \<and> es = drop (Suc n) ds"
  by (metis drop_Suc drop_eq_Nil linorder_not_le list.distinct(1) list.sel(3) nth_via_drop tl_drop)

section \<open>The loops\<close>

lemma find_loop:
  assumes d: "readable d" and sub: "de_sub d q = Some (De_seq t ds)" and q: "length q < 200"
  shows "at_cursor d rest r (In q k s) \<Longrightarrow> n = (if s then Suc k else k) \<Longrightarrow> ds' = drop n ds \<Longrightarrow>
     \<exists>res. find_rfcomm_loop c r = Some res \<and> (ref_rfcomm ds' c = None \<longrightarrow> res = None) \<and>
       (\<forall>c'. ref_rfcomm ds' c = Some c' \<longrightarrow>
          (\<exists>r' k'. res = Some (c', r') \<and> at_cursor d rest r' (In q k' (s \<or> ds' \<noteq> []))))"
proof (induction ds' arbitrary: r k s n c)
  case Nil
  then obtain r' k' where "bte_sdp_de_reader_next r = Some (False, r')" "at_cursor d rest r' (In q k' s)"
    using next_at(2) [OF d Nil(1) sub Nil(2)] by auto
  then show ?case by (subst find_rfcomm_loop.simps) auto
next
  case (Cons e es)
  then have n: "n < length ds" "ds ! n = e" "es = drop (Suc n) ds"
    using drop_eq_Cons by metis+
  obtain r1 where r1: "bte_sdp_de_reader_next r = Some (True, r1)" "at_cursor d rest r1 (In q n True)"
    using next_at(1) [OF d Cons.prems(1) sub Cons.prems(2) n(1)] by blast
  have e: "de_sub d (q @ [n]) = Some e" using sub_child [OF sub n(1)] n(2) by simp
  show ?case
  proof (cases "\<exists>t' x xs. e = De_seq t' (x # xs)")
    case False
    show ?thesis
    proof (cases "\<exists>t'. e = De_seq t' []")
      case True
      then obtain t' where t': "e = De_seq t' []" by blast
      then obtain r2 where r2: "bte_sdp_de_reader_enter r1 = Some (True, r2)" "at_cursor d rest r2 (In (q @ [n]) 0 False)"
        using enter_at(1) [OF d r1(2), of e t' "[]"] e q by auto
      then obtain r3 where "bte_sdp_de_reader_next r2 = Some (False, r3)"
        using next_at(2) [OF d r2(2), of t' "[]"] e t' by auto
      then show ?thesis using r1 r2 t' by (subst find_rfcomm_loop.simps) simp
    next
      case no: False
      then have "\<And>t ds. e \<noteq> De_seq t ds" using False by (metis neq_Nil_conv)
      then obtain r2 where "bte_sdp_de_reader_enter r1 = Some (False, r2)"
        using enter_at(2) [OF d r1(2), of e] e q by auto
      moreover have "ref_rfcomm (e # es) c = None" using False no by (cases e) (auto simp: neq_Nil_conv)
      ultimately show ?thesis using r1 by (subst find_rfcomm_loop.simps) simp
    qed
  next
    case True
    then obtain t' x xs where t': "e = De_seq t' (x # xs)" by blast
    then obtain r2 where r2: "bte_sdp_de_reader_enter r1 = Some (True, r2)" "at_cursor d rest r2 (In (q @ [n]) 0 False)"
      using enter_at(1) [OF d r1(2), of e t' "x # xs"] e q by auto
    obtain r3 where r3: "bte_sdp_de_reader_next r2 = Some (True, r3)" "at_cursor d rest r3 (In (q @ [n]) 0 True)"
      using next_at(1) [OF d r2(2), of t' "x # xs"] e t' by auto
    have uuid: "bte_sdp_de_reader_read_uuid16 r3 = Some (ref_u16 x)"
      using read_at(1) [OF d r3(2)] sub_child [OF e [unfolded t'], of 0] by (simp add: bte_sdp_de_reader_read_uuid16_def)
    let ?c = "if ref_u16 x = BTE_SDP_PROTO_RFCOMM then (case xs of [] \<Rightarrow> c | y # _ \<Rightarrow> ref_u8 y) else c"
    obtain r4 k4 where r4: "(if ref_u16 x = BTE_SDP_PROTO_RFCOMM
                   then do { (ok, r) \<leftarrow> bte_sdp_de_reader_next r3;
                             if ok then do { c \<leftarrow> bte_sdp_de_reader_read_uint8 r; Some (c, r) }
                             else Some (c, r) }
                   else Some (c, r3)) = Some (?c, r4)" "at_cursor d rest r4 (In (q @ [n]) k4 True)"
    proof (cases "ref_u16 x = BTE_SDP_PROTO_RFCOMM")
      case False
      then show ?thesis using that r3(2) by simp
    next
      case rf: True
      show ?thesis
      proof (cases xs)
        case Nil
        then obtain r4 k4 where "bte_sdp_de_reader_next r3 = Some (False, r4)" "at_cursor d rest r4 (In (q @ [n]) k4 True)"
          using next_at(2) [OF d r3(2), of t' "x # xs"] e t' by auto
        then show ?thesis using that rf Nil by simp
      next
        case (Cons y ys)
        then obtain r4 where r4: "bte_sdp_de_reader_next r3 = Some (True, r4)" "at_cursor d rest r4 (In (q @ [n]) 1 True)"
          using next_at(1) [OF d r3(2), of t' "x # xs"] e t' by auto
        moreover have "bte_sdp_de_reader_read_uint8 r4 = Some (ref_u8 y)"
          using read_at(2) [OF d r4(2)] sub_child [OF e [unfolded t'], of 1] Cons by simp
        ultimately show ?thesis using that rf Cons by simp
      qed
    qed
    obtain r5 where r5: "bte_sdp_de_reader_leave r4 = Some (True, r5)" "at_cursor d rest r5 (In q n True)"
      using leave_at [OF d r4(2)] by blast
    have "find_rfcomm_loop c r = find_rfcomm_loop ?c r5"
      using r1 r2 r3 uuid r4(1) r5 by (subst find_rfcomm_loop.simps) simp
    then show ?thesis using Cons.IH [OF r5(2), of "Suc n" ?c] n(3) t' by simp
  qed
qed

lemma find_channel_at:
  assumes d: "readable d" and at: "at_cursor d rest r (In q n True)" and e: "de_sub d (q @ [n]) = Some e" and q: "length q < 100"
    and full: "\<not> empty_seq e"
  shows "\<exists>r'. find_rfcomm_channel r = Some (case ref_channel e of None \<Rightarrow> 0 | Some c \<Rightarrow> c, ref_channel e = None, r') \<and>
           (ref_channel e \<noteq> None \<longrightarrow> at_cursor d rest r' (In q n True))"
proof (cases "\<exists>t ds. e = De_seq t ds")
  case False
  then obtain r1 where "bte_sdp_de_reader_enter r = Some (False, r1)" using enter_at(2) [OF d at, of e] e q by auto
  moreover have "ref_channel e = None" using False by (cases e) auto
  ultimately show ?thesis by (simp add: find_rfcomm_channel_def)
next
  case True
  then obtain t ds where t: "e = De_seq t ds" "ds \<noteq> []" using full by auto
  then obtain r1 where r1: "bte_sdp_de_reader_enter r = Some (True, r1)" "at_cursor d rest r1 (In (q @ [n]) 0 False)"
    using enter_at(1) [OF d at, of e t ds] e q by auto
  from find_loop [OF d e [unfolded t], OF _ r1(2), of 0 ds 0] q obtain res where
    res: "find_rfcomm_loop 0 r1 = Some res" "ref_rfcomm ds 0 = None \<Longrightarrow> res = None"
      "\<And>c. ref_rfcomm ds 0 = Some c \<Longrightarrow> \<exists>r' k'. res = Some (c, r') \<and> at_cursor d rest r' (In (q @ [n]) k' True)"
    using t(2) by auto
  show ?thesis
  proof (cases "ref_rfcomm ds 0")
    case None
    then show ?thesis using r1 res t(1) by (simp add: find_rfcomm_channel_def)
  next
    case (Some c)
    then obtain r2 k2 where r2: "res = Some (c, r2)" "at_cursor d rest r2 (In (q @ [n]) k2 True)" using res(3) by blast
    then obtain r3 where "bte_sdp_de_reader_leave r2 = Some (True, r3)" "at_cursor d rest r3 (In q n True)"
      using leave_at [OF d r2(2)] by blast
    then show ?thesis using r1 res(1) r2(1) Some t(1) by (simp add: find_rfcomm_channel_def)
  qed
qed

lemma attr_loop:
  assumes d: "readable d" and sub: "de_sub d q = Some (De_seq t ds)" and q: "length q < 100" and full: "\<not> list_ex empty_seq ds"
  shows "at_cursor d rest r (In q k s) \<Longrightarrow> n = (if s then Suc k else k) \<Longrightarrow> ds' = drop n ds \<Longrightarrow>
     \<exists>r'. obex_attr_loop reply r = Some (fst (ref_attrs ds' reply), snd (ref_attrs ds' reply), r') \<and>
       (fst (ref_attrs ds' reply) \<longrightarrow> (\<exists>k'. at_cursor d rest r' (In q k' (s \<or> ds' \<noteq> []))))"
proof (induction ds' reply arbitrary: r k s n rule: ref_attrs.induct)
  case (1 reply)
  then obtain r' k' where "bte_sdp_de_reader_next r = Some (False, r')" "at_cursor d rest r' (In q k' s)"
    using next_at(2) [OF d "1"(1) sub "1"(2)] by auto
  then show ?case by (subst obex_attr_loop.simps) auto
next
  case (2 x reply)
  then have n: "Suc n = length ds" "ds ! n = x"
    using drop_eq_Cons [of n ds x "[]"] by auto
  then obtain r1 where r1: "bte_sdp_de_reader_next r = Some (True, r1)" "at_cursor d rest r1 (In q n True)"
    using next_at(1) [OF d "2"(1) sub "2"(2)] by auto
  have "de_sub d (q @ [n]) = Some x" using sub_child [OF sub] n by force
  then have "bte_sdp_de_reader_read_uint16 r1 = Some (ref_u16 x)" using read_at(1) [OF d r1(2)] by blast
  moreover obtain r2 where "bte_sdp_de_reader_next r1 = Some (False, r2)"
    using next_at(2) [OF d r1(2) sub] n by auto
  ultimately show ?case using r1(1) by (subst obex_attr_loop.simps) simp
next
  case (3 x v es reply)
  have len: "Suc n < length ds" "ds ! n = x" "ds ! Suc n = v" "es = drop (Suc (Suc n)) ds"
    using drop_eq_Cons [of n ds x "v # es"] drop_eq_Cons [of "Suc n" ds v es] "3.prems"(3) by auto
  obtain r1 where r1: "bte_sdp_de_reader_next r = Some (True, r1)" "at_cursor d rest r1 (In q n True)"
    using next_at(1) [OF d "3.prems"(1) sub "3.prems"(2)] len by auto
  have "de_sub d (q @ [n]) = Some x" using sub_child [OF sub, of n] len by simp
  then have id: "bte_sdp_de_reader_read_uint16 r1 = Some (ref_u16 x)" using read_at(1) [OF d r1(2)] by blast
  obtain r2 where r2: "bte_sdp_de_reader_next r1 = Some (True, r2)" "at_cursor d rest r2 (In q (Suc n) True)"
    using next_at(1) [OF d r1(2) sub, of "Suc n"] len by auto
  have v: "de_sub d (q @ [Suc n]) = Some v" using sub_child [OF sub len(1)] len(3) by simp
  have "v \<in> set ds" using len by (metis nth_mem)
  then have nv: "\<not> empty_seq v" using full by (auto simp: list_ex_iff)
  show ?case
  proof (cases "ref_u16 x = BTE_SDP_ATTR_ID_PROTO_DESC_LIST")
    case True
    obtain r3 where r3: "find_rfcomm_channel r2 = Some (case ref_channel v of None \<Rightarrow> 0 | Some c \<Rightarrow> c, ref_channel v = None, r3)"
        "ref_channel v \<noteq> None \<Longrightarrow> at_cursor d rest r3 (In q (Suc n) True)"
      using find_channel_at [OF d r2(2) v q nv] by blast
    show ?thesis
    proof (cases "ref_channel v")
      case None
      then show ?thesis using True r1 r2 r3 id by (subst obex_attr_loop.simps) simp
    next
      case (Some c)
      then have "obex_attr_loop reply r = obex_attr_loop (reply\<lparr>opp_rfcomm_channel := c\<rparr>) r3"
        using True r1 r2 r3(1) id by (subst obex_attr_loop.simps) simp
      then show ?thesis
        using "3.IH"(1) [OF True Some r3(2), of "Suc (Suc n)"] len(4) Some True by simp
    qed
  next
    case no: False
    show ?thesis
    proof (cases "ref_u16 x = BTE_SDP_ATTR_ID_GOEP_L2CAP_PSM")
      case True
      have "bte_sdp_de_reader_read_uint16 r2 = Some (ref_u16 v)" using read_at(1) [OF d r2(2) v] .
      then have "obex_attr_loop reply r = obex_attr_loop (reply\<lparr>opp_l2cap_psm := ref_u16 v\<rparr>) r2"
        using no True r1 r2 id by (subst obex_attr_loop.simps) simp
      then show ?thesis using "3.IH"(2) [OF no True r2(2), of "Suc (Suc n)"] len(4) True no by simp
    next
      case False
      then have "obex_attr_loop reply r = obex_attr_loop reply r2"
        using no r1 r2 id by (subst obex_attr_loop.simps) simp
      then show ?thesis using "3.IH"(3) [OF no False r2(2), of "Suc (Suc n)"] len(4) False no by simp
    qed
  qed
qed

lemma list_loop:
  assumes d: "readable d" and sub: "de_sub d [] = Some (De_seq t ls)" and full: "list_all list_full ls"
  shows "at_cursor d rest r (In [] k s) \<Longrightarrow> n = (if s then Suc k else k) \<Longrightarrow> ls' = drop n ls \<Longrightarrow>
     obex_list_loop reply r = Some (ref_lists ls' reply)"
proof (induction ls' arbitrary: r k s n reply)
  case Nil
  then obtain r' where "bte_sdp_de_reader_next r = Some (False, r')"
    using next_at(2) [OF d Nil(1) sub Nil(2)] by auto
  then show ?case by (subst obex_list_loop.simps) simp
next
  case (Cons l ls')
  then have n: "n < length ls" "ls ! n = l" "ls' = drop (Suc n) ls"
    using drop_eq_Cons by metis+
  obtain r1 where r1: "bte_sdp_de_reader_next r = Some (True, r1)" "at_cursor d rest r1 (In [] n True)"
    using next_at(1) [OF d Cons.prems(1) sub Cons.prems(2) n(1)] by blast
  have l: "de_sub d [n] = Some l" using sub_child [OF sub n(1)] n(2) by simp
  have fl: "list_full l" using full n by (metis list_all_length)
  show ?case
  proof (cases "\<exists>t ds. l = De_seq t ds")
    case False
    then obtain r2 where "bte_sdp_de_reader_enter r1 = Some (False, r2)" using enter_at(2) [OF d r1(2), of l] l by auto
    moreover have "ref_lists (l # ls') reply = reply" using False by (cases l) auto
    ultimately show ?thesis using r1 by (subst obex_list_loop.simps) simp
  next
    case True
    then obtain t' ds where t': "l = De_seq t' ds" "ds \<noteq> []" "\<not> list_ex empty_seq ds" using fl by auto
    then obtain r2 where r2: "bte_sdp_de_reader_enter r1 = Some (True, r2)" "at_cursor d rest r2 (In [n] 0 False)"
      using enter_at(1) [OF d r1(2), of l t' ds] l by auto
    from attr_loop [OF d l [unfolded t'(1)] _ t'(3) r2(2), of 0 ds reply] obtain r3 where
      r3: "obex_attr_loop reply r2 = Some (fst (ref_attrs ds reply), snd (ref_attrs ds reply), r3)"
        "fst (ref_attrs ds reply) \<Longrightarrow> \<exists>k'. at_cursor d rest r3 (In [n] k' True)"
      using t'(2) by auto
    show ?thesis
    proof (cases "fst (ref_attrs ds reply)")
      case False
      then show ?thesis using r1 r2 r3 t'(1) by (subst obex_list_loop.simps) (simp add: split_def)
    next
      case True
      then obtain k3 where "at_cursor d rest r3 (In ([] @ [n]) k3 True)" using r3(2) by auto
      then obtain r4 where r4: "bte_sdp_de_reader_leave r3 = Some (True, r4)" "at_cursor d rest r4 (In [] n True)"
        using leave_at [OF d] by blast
      have "obex_list_loop reply r = obex_list_loop (snd (ref_attrs ds reply)) r4"
        using r1 r2 r3(1) r4 True by (subst obex_list_loop.simps) simp
      then show ?thesis using Cons.IH [OF r4(2), of "Suc n"] n(3) True t'(1) by (simp add: split_def)
    qed
  qed
qed

section \<open>Properties of the parser\<close>

lemma obex_parse_reference:
  assumes "readable d" and "attrs_full d"
  shows "obex_parse_attrs \<lparr>ar_error_code = 0, ar_attr_list_de = Some (encode d @ rest)\<rparr> = Some (obex_reference d)"
proof -
  have at: "at_cursor d rest (bte_sdp_de_reader_init (encode d @ rest)) Root"
    by (simp add: at_cursor.simps bte_sdp_de_reader_init_def)
  show ?thesis
  proof (cases "\<exists>t ls. d = De_seq t ls")
    case False
    then obtain r1 where "bte_sdp_de_reader_enter (bte_sdp_de_reader_init (encode d @ rest)) = Some (False, r1)"
      using enter_at(2) [OF assms(1) at, of d] by auto
    moreover have "obex_reference d = no_reply" using False by (cases d) auto
    ultimately show ?thesis by (simp add: obex_parse_attrs_def)
  next
    case True
    then obtain t ls where t: "d = De_seq t ls" "list_all list_full ls" using assms(2) by auto
    then obtain r1 where r1: "bte_sdp_de_reader_enter (bte_sdp_de_reader_init (encode d @ rest)) = Some (True, r1)"
        "at_cursor d rest r1 (In [] 0 False)"
      using enter_at(1) [OF assms(1) at, of d t ls] by auto
    have "obex_list_loop no_reply r1 = Some (ref_lists ls no_reply)"
      using list_loop [OF assms(1) _ t(2) r1(2), of t 0 ls] t(1) by simp
    then show ?thesis using r1(1) t(1) by (simp add: obex_parse_attrs_def)
  qed
qed

text \<open>
  C9: the parser of the attribute lists. On the encoding of any readable tree of data elements in which
  no list of attributes and no value of an attribute is an empty sequence, whatever follows it in
  memory, the nested loops of \<^verbatim>\<open>service_search_attr_cb\<close> and \<^verbatim>\<open>find_rfcomm_channel\<close>, which move a
  reader in and out of sequences, return what the recursive function \<open>obex_reference\<close> computes from
  the tree: also for trees that are not of the shape the code expects, where the search stops with
  what was found so far.
\<close>

theorem obex_parse_equals_reference:
  assumes "readable d" and "attrs_full d"
  shows "obex_parse_attrs \<lparr>ar_error_code = 0, ar_attr_list_de = Some (encode d @ rest)\<rparr> = Some (obex_reference d)"
  by (rule obex_parse_reference [OF assms])

text \<open>A record with the channel 9 of the serial port protocol and the channel number 0x1001.\<close>

definition demo_record :: de where
  "demo_record = De_seq 0x30 [De_seq 0x30 [De_fixed 0x09 [0, 4],
     De_seq 0x30 [De_seq 0x30 [De_fixed 0x19 [1, 0]], De_seq 0x30 [De_fixed 0x19 [0, 3], De_fixed 0x08 [9]]],
     De_fixed 0x09 [2, 0], De_fixed 0x09 [0x10, 0x01]]]"

theorem obex_parse_equals_reference_witness:
  "obex_parse_attrs \<lparr>ar_error_code = 0, ar_attr_list_de = Some (encode demo_record @ [1, 2, 3])\<rparr> =
     Some \<lparr>opp_l2cap_psm = 0x1001, opp_rfcomm_channel = 9\<rparr>"
proof -
  have "readable demo_record" "attrs_full demo_record"
    by (simp_all add: readable_def demo_record_def value_types_def fixed_len_def de_header_def var_size_def)
  moreover have "obex_reference demo_record = \<lparr>opp_l2cap_psm = 0x1001, opp_rfcomm_channel = 9\<rparr>" by code_simp
  ultimately show ?thesis using obex_parse_equals_reference [of demo_record "[1, 2, 3]"] by simp
qed

lemma empty_list_loop:
  assumes "obex_list_loop reply r = Some reply'"
  shows "readable d \<Longrightarrow> de_sub d [] = Some (De_seq t ls) \<Longrightarrow> n < length ls \<Longrightarrow> ls ! n = De_seq t' [] \<Longrightarrow>
     at_cursor d rest r (In [] n False) \<Longrightarrow> False"
  using assms
proof (induction rule: obex_list_loop.raw_induct [rotated, consumes 1])
  case (1 f reply r reply')
  note d = "1"(3)
  obtain r1 where r1: "bte_sdp_de_reader_next r = Some (True, r1)" "at_cursor d rest r1 (In [] n True)"
    using next_at(1) [OF d "1"(7,4), of n] "1"(5) by auto
  have l: "de_sub d [n] = Some (De_seq t' [])" using sub_child [OF "1"(4,5)] "1"(6) by simp
  then obtain r2 where r2: "bte_sdp_de_reader_enter r1 = Some (True, r2)" "at_cursor d rest r2 (In [n] 0 False)"
    using enter_at(1) [OF d r1(2)] by auto
  then obtain r3 k where r3: "bte_sdp_de_reader_next r2 = Some (False, r3)" "at_cursor d rest r3 (In ([] @ [n]) k False)"
    using next_at(2) [OF d r2(2) l] by auto
  obtain r4 where r4: "bte_sdp_de_reader_leave r3 = Some (True, r4)" "at_cursor d rest r4 (In [] n False)"
    using leave_at [OF d r3(2)] by blast
  have "obex_attr_loop reply r2 = Some (True, reply, r3)" using r3(1) by (subst obex_attr_loop.simps) simp
  then have "f reply r4 = Some reply'" using "1"(2) r1(1) r2(1) r4(1) by simp
  then show False using "1"(1) [OF _ d "1"(4-6) r4(2)] by blast
qed

text \<open>
  C37: an empty attribute list is never left behind. After \<^verbatim>\<open>bte_sdp_de_reader_leave\<close> the reader remembers of
  the sequence it left that \<^verbatim>\<open>bte_sdp_de_reader_next\<close> found nothing in it, so that the next call stays at
  the same element: a device that answers with an empty list (the four bytes 35 02 35 00 are enough)
  keeps the callback of \<^verbatim>\<open>bte_obex_discover\<close> in its loop for ever, and the application never gets a reply.
\<close>

theorem obex_discover_hangs:
  assumes "readable (De_seq t (De_seq t' [] # ls))"
  shows "service_search_attr_cb OE sdp
     \<lparr>ar_error_code = 0, ar_attr_list_de = Some (encode (De_seq t (De_seq t' [] # ls)) @ rest)\<rparr> userdata s = None"
proof -
  let ?d = "De_seq t (De_seq t' [] # ls)"
  have at: "at_cursor ?d rest (bte_sdp_de_reader_init (encode ?d @ rest)) Root"
    by (simp add: at_cursor.simps bte_sdp_de_reader_init_def)
  obtain r1 where r1: "bte_sdp_de_reader_enter (bte_sdp_de_reader_init (encode ?d @ rest)) = Some (True, r1)"
      "at_cursor ?d rest r1 (In [] 0 False)"
    using enter_at(1) [OF assms at, of ?d t "De_seq t' [] # ls"] by auto
  have "obex_list_loop no_reply r1 = None"
    using empty_list_loop [OF _ assms, of no_reply r1 _ t "De_seq t' [] # ls" 0 t' rest] r1(2)
    by (cases "obex_list_loop no_reply r1") auto
  then show ?thesis using r1(1) by (simp add: service_search_attr_cb_def obex_parse_attrs_def del: encode.simps)
qed

definition demo_obex_env :: "obex_dev obex_env" where
  "demo_obex_env = \<lparr>ob_sdp = \<lparr>sp_l2cap = \<lparr>le_hci = \<lparr>env_client = \<lambda>c s. Some (False, s), env_fresh = \<lambda>s i. 0, be_init = \<lambda>s. 0,
          be_hci_send_command = \<lambda>_ _. 0, be_hci_send_data = \<lambda>_ _. 0, be_deinit = id, driver_init = \<lambda>s. Some (0, s)\<rparr>,
        le_client = \<lambda>c s. Some s, le_echo = \<lambda>_ _ r _ s. Some (r, s), le_connection_req = \<lambda>_ _ _ _ s. Some (None, s),
        le_echo_req = \<lambda>_ _ r _ s. Some (False, r, s),
        le_fresh_reply = \<lambda>_. \<lparr>cy_rejected_mask = 0, cy_unknown_mask = 0, cy_params = zero_params\<rparr>\<rparr>,
      sp_search = \<lambda>f sdp reply ud s. Some (True, s), sp_attr = \<lambda>f sdp reply ud s. Some s\<rparr>,
      ob_discover = \<lambda>cb c reply ud s. Some s, ob_sdp_addr = \<lambda>s. Some 50\<rparr>"

theorem obex_discover_hangs_witness:
  "\<forall>s. service_search_attr_cb demo_obex_env 50 \<lparr>ar_error_code = 0, ar_attr_list_de = Some [0x35, 2, 0x35, 0]\<rparr> 7 s = None"
proof -
  have r: "readable (De_seq 0x30 [De_seq 0x30 []])"
    by (simp add: readable_def de_header_def var_size_def)
  have "encode (De_seq 0x30 [De_seq 0x30 []]) = [0x35, 2, 0x35, 0]" by code_simp
  then show ?thesis using obex_discover_hangs [OF r, of demo_obex_env 50 "[]" 7] by simp
qed

section \<open>The transport\<close>

function chunks :: "nat \<Rightarrow> mem \<Rightarrow> mem list" where
  "chunks n xs = (if xs = [] \<or> n = 0 then [] else take n xs # chunks n (drop n xs))"
  by pat_completeness auto
termination by (relation "measure (\<lambda>(n, xs). length xs)") auto

declare chunks.simps [simp del]

lemma chunks_concat: "n > 0 \<Longrightarrow> concat (chunks n xs) = xs"
  by (induction n xs rule: chunks.induct) (subst chunks.simps, simp)

lemma chunks_len: "c \<in> set (chunks n xs) \<Longrightarrow> c \<noteq> [] \<and> length c \<le> n"
  by (induction n xs rule: chunks.induct) (subst (asm) (2) chunks.simps, auto split: if_splits)

fun feed_all :: "'s obex_lib \<Rightarrow> u64 \<Rightarrow> mem list \<Rightarrow> 's \<Rightarrow> 's option" where
  "feed_all OL handle [] s = Some s"
| "feed_all OL handle (c # cs) s = do { s \<leftarrow> OBEX_CustomDataFeed OL handle c s; feed_all OL handle cs s }"

lemma message_fed:
  "reader_ok r \<Longrightarrow> oo_message_received_cb OL r handle s = feed_all OL handle (chunks 1024 (reader_stream r)) s"
proof (induction "length (reader_stream r)" arbitrary: r s rule: less_induct)
  case less
  obtain r' where r': "bte_buffer_reader_read True r 1024 = Some (take 1024 (reader_stream r),
        of_nat (min 1024 (length (reader_stream r))), r')" "reader_ok r'" "reader_stream r' = drop 1024 (reader_stream r)"
    using bte_src.rd_law [OF less.prems, of 1024] by auto
  have len: "unat (of_nat (min 1024 (length (reader_stream r))) :: u16) = min 1024 (length (reader_stream r))"
    by (simp add: unat_of_nat take_bit_nat_eq_self)
  have tk: "take (min 1024 (length (reader_stream r))) (reader_stream r) = take 1024 (reader_stream r)"
    by (simp add: min_def)
  show ?case
  proof (cases "reader_stream r = []")
    case True
    then show ?thesis using r'(1) by (subst oo_message_received_cb.simps, subst chunks.simps) simp
  next
    case False
    then have pos: "(0 :: u16) < of_nat (min 1024 (length (reader_stream r)))"
      using len by (simp add: word_less_nat_alt)
    have "oo_message_received_cb OL r handle s =
        do { s \<leftarrow> OBEX_CustomDataFeed OL handle (take 1024 (reader_stream r)) s; oo_message_received_cb OL r' handle s }"
      using r'(1) pos len tk by (subst oo_message_received_cb.simps) simp
    also have "\<dots> = do { s \<leftarrow> OBEX_CustomDataFeed OL handle (take 1024 (reader_stream r)) s;
        feed_all OL handle (chunks 1024 (reader_stream r')) s }"
      using less.hyps [OF _ r'(2)] False r'(3) by simp
    also have "\<dots> = feed_all OL handle (chunks 1024 (reader_stream r)) s"
      using False r'(3) chunks.simps [of 1024 "reader_stream r"] by simp
    finally show ?thesis .
  qed
qed

text \<open>
  Incoming data for OpenOBEX. For every message, however it is split into packets,
  \<^verbatim>\<open>message_received_cb\<close> ends and hands the bytes of the message to \<^verbatim>\<open>OBEX_CustomDataFeed\<close> in their order and
  without loss, in pieces of at most 1024 bytes, none of them empty.
\<close>

theorem oo_message_fed:
  assumes "reader_ok r"
  shows "oo_message_received_cb OL r handle s = feed_all OL handle (chunks 1024 (reader_stream r)) s \<and>
     concat (chunks 1024 (reader_stream r)) = reader_stream r \<and>
     list_all (\<lambda>c. c \<noteq> [] \<and> length c \<le> 1024) (chunks 1024 (reader_stream r))"
  using message_fed [OF assms] chunks_len by (simp add: chunks_concat list_all_iff)

definition demo_obex_lib :: "(mem list \<times> nat) obex_lib" where
  "demo_obex_lib = \<lparr>OBEX_CustomDataFeed = \<lambda>h bs s. Some (fst s @ [bs], snd s), OBEX_GetCustomData = \<lambda>h s. Some (snd s),
     OBEX_SetCustomData = \<lambda>h p s. Some (fst s, p), OBEX_SetTransportMTU = \<lambda>h a b s. Some s\<rparr>"

theorem oo_message_fed_witness:
  "oo_message_received_cb demo_obex_lib (bte_buffer_reader_init [\<lparr>ref_count = 1, total_size = 5, size = 3, data = [1, 2, 3]\<rparr>,
       \<lparr>ref_count = 1, total_size = 5, size = 2, data = [4, 5]\<rparr>]) 7 ([], 0) = Some ([[1, 2, 3, 4, 5]], 0)"
proof -
  let ?r = "bte_buffer_reader_init [\<lparr>ref_count = 1, total_size = 5, size = 3, data = [1, 2, 3]\<rparr>,
       \<lparr>ref_count = 1, total_size = 5, size = 2, data = [4, 5 :: byte]\<rparr>]"
  have ok: "reader_ok ?r" by (simp add: reader_ok_def bte_buffer_reader_init_def packet_ok_def)
  have "reader_stream ?r = [1, 2, 3, 4, 5]"
    by (simp add: reader_stream_def bte_buffer_reader_init_def payload_def)
  moreover have "chunks 1024 [1, 2, 3, 4, 5] = [[1, 2, 3, 4, 5]]" by (simp add: chunks.simps)
  ultimately show ?thesis
    using oo_message_fed [OF ok, of demo_obex_lib 7 "([], 0)"] by (simp add: demo_obex_lib_def)
qed

lemma writer_write_loop_prefix:
  "unat sz \<le> length src \<Longrightarrow> writer_write_loop dn ps pos hdr (src @ xs) sz = writer_write_loop dn ps pos hdr src sz"
proof (induction ps arbitrary: dn pos src sz)
  case Nil
  then show ?case by (simp add: writer_write_loop.simps)
next
  case (Cons p ps)
  define n where "n = (if uint pos + uint sz \<le> uint (size p) then uint sz else uint (size p) - uint pos)"
  have step: "writer_write_loop dn (p # ps) pos hdr Y sz =
     (if sz = 0 then Some (True, dn, p # ps, pos) else
      do { d \<leftarrow> mem_copy_to (data p) pos Y n;
           if sz - word_of_int n > 0 then
             (if ps = [] then Some (False, dn, [p\<lparr>data := d\<rparr>], pos + word_of_int n)
              else writer_write_loop (dn @ [p\<lparr>data := d\<rparr>]) ps (ucast hdr) hdr (drop (nat n) Y) (sz - word_of_int n))
           else Some (True, dn, p\<lparr>data := d\<rparr> # ps, pos + word_of_int n) })" for Y
    by (simp only: writer_write_loop.simps(2) n_def [symmetric] Let_def)
  show ?case
  proof (cases "n < 0")
    case True
    then show ?thesis by (simp add: step mem_copy_to_def)
  next
    case False
    have "n \<le> uint sz" unfolding n_def by (cases "uint pos + uint sz \<le> uint (size p)") simp_all
    then have nz: "nat n \<le> unat sz" by (simp only: unat_eq_nat_uint nat_mono)
    then have "n \<le> int (length src)" using Cons.prems False by linarith
    then have cp: "mem_copy_to (data p) pos (src @ xs) n = mem_copy_to (data p) pos src n"
      using False by (simp add: mem_copy_to_def)
    have "word_of_int n = (of_nat (nat n) :: u16)" using False by simp
    then have "unat (sz - word_of_int n) = unat sz - nat n" using unat_sub_of_nat [OF nz] by simp
    then have "writer_write_loop dn' ps pos' hdr (drop (nat n) src @ xs) (sz - word_of_int n) =
        writer_write_loop dn' ps pos' hdr (drop (nat n) src) (sz - word_of_int n)" for dn' pos'
      using Cons.prems nz by (intro Cons.IH) simp
    moreover have "drop (nat n) (src @ xs) = drop (nat n) src @ xs" using nz Cons.prems by simp
    ultimately show ?thesis by (simp only: step cp)
  qed
qed

lemma writer_write_prefix:
  "unat sz \<le> length src \<Longrightarrow> bte_buffer_writer_write w (src @ xs) sz = bte_buffer_writer_write w src sz"
  by (simp add: bte_buffer_writer_write_def writer_write_loop_prefix)

text \<open>
  C38: outgoing data of OpenOBEX. On an open channel a block that fits the remote MTU is sent as one message
  of the channel, and \<^verbatim>\<open>oo_write\<close> returns its length. Of a longer block only the lower 16 bits of
  the length count: of 65536 bytes more than such a block just the block is sent, while all of
  them are reported as written.
\<close>

theorem oo_write_sent:
  assumes "OBEX_GetCustomData OL handle s = Some p" and "sending m acl a p l s" and "accepting (le_hci LE)"
    and "length buf \<le> unat (l_remote_mtu l)" and "fits m (length buf + 4)"
  shows "\<exists>s'. oo_write LE OL handle buf (int (length buf)) s = Some (int (length buf), s') \<and>
     oo_write LE OL handle (buf @ xs) (int (length buf) + 65536) s = Some (int (length buf) + 65536, s') \<and>
     hands_over (l2cap_packets m a (remote_channel_id l) buf) s s'"
proof -
  note d = sendingD [OF assms(2)]
  have m: "8 \<le> m" using d(1) by (simp add: link_ready_def)
  have "length buf + 4 < 65536" by (rule fits_bound [OF assms(5)]) (use m in simp_all)
  then have u: "unat (of_nat (length buf) :: u16) = length buf" by (simp add: unat_of_nat take_bit_nat_eq_self)
  obtain w where w: "acl_l2cap_create_message LE acl (of_nat (length buf)) (remote_channel_id l) s = Some (Some w)"
      "frame_writer m a (length buf + 4) (le_bytes 2 (of_nat (length buf) :: u16) @ le_bytes 2 (remote_channel_id l)) w"
    using create_frame [OF d(1), of "of_nat (length buf)" LE "remote_channel_id l"] assms(5) u by auto
  have cm: "bte_l2cap_create_message LE p (of_nat (length buf)) s = Some (Some w)"
    using d w(1) assms(4) u by (simp add: bte_l2cap_create_message_def not_less word_le_nat_alt)
  obtain w1 where w1: "bte_buffer_writer_write w buf (of_nat (length buf)) = Some (True, w1)"
      "filling m a (length buf + 4) ((le_bytes 2 (of_nat (length buf) :: u16) @ le_bytes 2 (remote_channel_id l)) @ buf) w1"
    using filling_write [OF frame_writer_filling [OF w(2)], of buf "of_nat (length buf)"] u by auto
  have fr: "(le_bytes 2 (of_nat (length buf) :: u16) @ le_bytes 2 (remote_channel_id l)) @ buf = l2cap_frame (remote_channel_id l) buf"
    by (simp add: l2cap_frame_def)
  have mw: "message_writer (acl_conn_handle a) 0 m (packets_needed (length buf + 4) m) (length buf + 4) w1"
      "writer_out w1 = l2cap_frame (remote_channel_id l) buf"
    using w1(2) unfolding fr by (simp_all add: filling_def)
  have lo: "length (writer_out w1) = length buf + 4" unfolding mw(2) by (simp add: l2cap_frame_def)
  from message_end [OF mw(1) lo] obtain c where c: "bte_buffer_writer_end w1 = Some c" "chain_ok c" "c \<noteq> []"
      "map packet_bytes c = l2cap_packets m a (remote_channel_id l) buf" unfolding mw(2) by blast
  obtain rc s' where s': "bte_l2cap_send_message LE p c s = Some (rc, s')" "0 \<le> rc" "hands_over (map packet_bytes c) s s'"
    using send_pdu [OF assms(2) c(2,3), OF assms(3)] by blast
  have one: "oo_write LE OL handle Y n s = Some (n, s')"
    if "word_of_int n = (of_nat (length buf) :: u16)" "bte_buffer_writer_write w Y (of_nat (length buf)) = Some (True, w1)" for Y n
    using that assms(1) cm c(1) s' by (simp add: oo_write_def del: bte_buffer_writer_end.simps)
  have pre: "bte_buffer_writer_write w (buf @ xs) (of_nat (length buf)) = Some (True, w1)"
    using writer_write_prefix [of "of_nat (length buf)" buf w xs] w1(1) u by simp
  have "word_of_int (int (length buf) + 65536) = (of_nat (length buf) :: u16)" by simp
  then show ?thesis using one [OF _ w1(1), of "int (length buf)"] one [OF _ pre] s'(3) c(4) by auto
qed

definition sending_obex_lib :: "sdp_dev obex_lib" where
  "sending_obex_lib = \<lparr>OBEX_CustomDataFeed = \<lambda>h bs s. Some s, OBEX_GetCustomData = \<lambda>h s. Some 30,
     OBEX_SetCustomData = \<lambda>h p s. Some s, OBEX_SetTransportMTU = \<lambda>h a b s. Some s\<rparr>"

theorem oo_write_sent_witness:
  "\<exists>s'. oo_write (sp_l2cap discovery_env) sending_obex_lib 7 [0x80, 0, 7] 3 (discovery_dev discovery_client 1) = Some (3, s') \<and>
     oo_write (sp_l2cap discovery_env) sending_obex_lib 7 ([0x80, 0, 7] @ replicate 65536 0) 65539 (discovery_dev discovery_client 1) = Some (65539, s')"
proof -
  have g: "OBEX_GetCustomData sending_obex_lib 7 (discovery_dev discovery_client 1) = Some 30" by (simp add: sending_obex_lib_def)
  have l: "length ([0x80, 0, 7] :: mem) \<le> unat (l_remote_mtu open_channel)"
    by (simp add: open_channel_def demo_channel_def)
  have f: "fits 200 (length ([0x80, 0, 7] :: mem) + 4)" using fits_mono [OF config_dev_ready(3), of 7] by simp
  show ?thesis
    using oo_write_sent [OF g discovery_sending(1,2) l f, of "replicate 65536 0"] by auto
qed

end
