(* ===== verification/ObexQuery.thy ===== *)
theory ObexQuery
  imports ObexParse
begin

text \<open>
  The discovery of the object push service as an exchange: the request that goes out when the
  channel is open, and what the answer leads to.
\<close>

lemma writer_write_take:
  "unat k \<le> length q \<Longrightarrow> bte_buffer_writer_write w q k = bte_buffer_writer_write w (take (unat k) q) k"
  using writer_write_prefix [of k "take (unat k) q" w "drop (unat k) q"] by simp

lemma write_parts_take:
  "list_all (\<lambda>(q, k). unat k \<le> length q) parts \<Longrightarrow>
     write_parts w parts = write_parts w (map (\<lambda>(q, k). (take (unat k) q, k)) parts)"
proof (induction parts arbitrary: w)
  case (Cons part parts)
  obtain q k where "part = (q, k)" by fastforce
  have IH: "write_parts w' parts = write_parts w' (map (\<lambda>(q, k). (take (unat k) q, k)) parts)" for w'
    using Cons.IH Cons.prems by simp
  have "unat k \<le> length q" using Cons.prems \<open>part = (q, k)\<close> by simp
  from writer_write_take [OF this, of w] show ?case
    unfolding \<open>part = (q, k)\<close> list.map prod.case write_parts.simps IH by simp
qed simp

lemma req_packet_take:
  assumes "list_all (\<lambda>(q, k). unat k \<le> length q) parts"
  shows "req_packet XE sdp code sz parts offset s = req_packet XE sdp code sz (map (\<lambda>(q, k). (take (unat k) q, k)) parts) offset s"
  unfolding req_packet_def by (simp only: write_parts_take [OF assms])

text \<open>The two elements of the request.\<close>

definition obex_pattern :: de where
  "obex_pattern = De_seq 0x30 [De_fixed 0x19 [0x11, 0x05]]"

definition obex_id_list :: de where
  "obex_id_list = De_seq 0x30 [De_fixed 0x09 [0x00, 0x04], De_fixed 0x09 [0x02, 0x00]]"

lemma obex_elements:
  "encode obex_pattern = [0x35, 3, 0x19, 0x11, 0x05]"
  "encode obex_id_list = [0x35, 6, 0x09, 0x00, 0x04, 0x09, 0x02, 0x00]"
  by code_simp+

lemma obex_args:
  "\<exists>a. obex_pattern_args = a @ [Va_int BTE_SDP_DE_END] \<and> de_item a [obex_pattern]"
  "\<exists>a. obex_id_list_args = a @ [Va_int BTE_SDP_DE_END] \<and> de_item a [obex_id_list]"
proof -
  have u: "fixed_bytes 0x19 (Va_int 0x1105) = Some [0x11, 0x05]" by code_simp
  have i: "fixed_bytes 0x09 (Va_int 0x0004) = Some [0x00, 0x04]" "fixed_bytes 0x09 (Va_int 0x0200) = Some [0x02, 0x00]" by code_simp+
  have "de_args ([Va_int (ucast (0x19 :: byte)), Va_int 0x1105] @ []) ([De_fixed 0x19 [0x11, 0x05]] @ [])"
    by (rule Args_item [OF Item_value [OF u] Args_nil])
  then have "de_item (Va_int (ucast (0x30 :: byte)) # [Va_int (ucast (0x19 :: byte)), Va_int 0x1105] @ [Va_int BTE_SDP_DE_END]) [obex_pattern]"
    using Item_seq [of "0x30"] unfolding obex_pattern_def by fastforce
  then show "\<exists>a. obex_pattern_args = a @ [Va_int BTE_SDP_DE_END] \<and> de_item a [obex_pattern]"
    by (intro exI conjI, rotate_tac) (assumption | simp add: obex_pattern_args_def BTE_SDP_SRV_CLASS_OBEX_OP_def)+
  have "de_args ([Va_int (ucast (0x09 :: byte)), Va_int 0x0004] @ [Va_int (ucast (0x09 :: byte)), Va_int 0x0200] @ [])
      ([De_fixed 0x09 [0x00, 0x04]] @ [De_fixed 0x09 [0x02, 0x00]] @ [])"
    by (rule Args_item [OF Item_value [OF i(1)] Args_item [OF Item_value [OF i(2)] Args_nil]])
  then have "de_item (Va_int (ucast (0x30 :: byte)) # [Va_int (ucast (0x09 :: byte)), Va_int 0x0004, Va_int (ucast (0x09 :: byte)), Va_int 0x0200] @
      [Va_int BTE_SDP_DE_END]) [obex_id_list]"
    using Item_seq [of "0x30"] unfolding obex_id_list_def by fastforce
  then show "\<exists>a. obex_id_list_args = a @ [Va_int BTE_SDP_DE_END] \<and> de_item a [obex_id_list]"
    by (intro exI conjI, rotate_tac) (assumption | simp add: obex_id_list_args_def BTE_SDP_ATTR_ID_PROTO_DESC_LIST_def BTE_SDP_ATTR_ID_GOEP_L2CAP_PSM_def)+
qed

lemma element_written:
  assumes "args = a @ rest" and "de_item a [d]" and "length (encode d) < n" and "n \<le> length buf" and "n < 1000"
  shows "\<exists>xs. bte_sdp_de_write (Some buf) n args = Some (of_nat (length (encode d)), encode d @ xs) \<and> length (encode d @ xs) = length buf"
proof -
  have "int n > int (length (encodes [d])) \<and> 0 + nat (int n) \<le> length buf" "length (encodes [d]) < 2 ^ 32"
    using assms(3,4,5) by simp_all
  then obtain buf' where "stored buf 0 (encodes [d]) buf'"
      "de_write 0 buf (Some 0) (int n) 0 (a @ rest) = de_next 0 buf' (Some 0) (int n) 0 rest (length (encodes [d]))"
    using de_item_writes [OF assms(2)] unfolding writes_item_def by blast
  moreover from this have "bte_sdp_de_write (Some buf) n args = Some (of_nat (length (encode d)), buf')"
    using assms(1) by (simp add: bte_sdp_de_write_def de_next_def)
  moreover from calculation(1) obtain xs where "buf' = encode d @ xs" "length (encode d) + length xs = length buf"
    unfolding stored_def by auto
  ultimately show ?thesis by auto
qed

section \<open>The request\<close>

definition obex_query :: mem where
  "obex_query = encode obex_pattern @ be_bytes 2 (0x1000 :: u16) @ encode obex_id_list"

text \<open>The channel once the SDP client has taken it over.\<close>

definition sdp_channel :: "nat \<Rightarrow> bte_l2cap \<Rightarrow> bte_l2cap" where
  "sdp_channel sdp l = l\<lparr>l_ref_count := l_ref_count l + 1, l_userdata := of_nat sdp, message_received_cb := Some ON_MESSAGE_RECEIVED\<rparr>"

lemma search_attr_sent:
  assumes "sending m acl a p l s" and "sdp_heap s sdp = Some c" and "sc_l2cap c = Some p" and "last_req c = None" and "9 \<le> m"
    and "accepting (le_hci (sp_l2cap XE))" and "21 \<le> unat (l_remote_mtu l)" and "fits m 25"
    and "ident = ucast (s_next_transaction_id s)"
    and pat: "pattern = encode obex_pattern @ xs" and idl: "id_list = encode obex_id_list @ ys"
  shows "\<exists>s' req. bte_sdp_service_search_attr_req XE sdp pattern 0x1000 id_list cb ud s = Some (True, s') \<and>
    client_step (l2cap_packets m a (remote_channel_id l) (pdu 6 ident (obex_query @ [0]))) sdp
      (attr_request_done cb ud (c\<lparr>continuation_offset := 15, last_req := Some req\<rparr>)) s s' \<and>
    pending m (remote_channel_id l) 6 ident (obex_query @ [0]) req \<and> s_next_transaction_id s' = s_next_transaction_id s + 1"
proof -
  have sizes: "bte_sdp_de_get_total_size pattern = Some 5" "bte_sdp_de_get_total_size id_list = Some 8"
    using encode_sizes(4) [of obex_pattern xs] encode_sizes(4) [of obex_id_list ys]
    by (simp_all add: pat idl obex_elements) (simp_all add: obex_pattern_def obex_id_list_def value_types_def fixed_len_def)
  let ?parts = "[(pattern, 5 :: u16), (be_bytes 2 (0x1000 :: u16), 2), (id_list, 8)]"
  let ?tparts = "[(encode obex_pattern, 5 :: u16), (be_bytes 2 (0x1000 :: u16), 2), (encode obex_id_list, 8)]"
  have "list_all (\<lambda>(q, k). unat k \<le> length q) ?parts" by (simp add: pat idl obex_elements)
  then have eq: "req_packet XE sdp 6 16 ?parts 15 s = req_packet XE sdp 6 16 ?tparts 15 s"
    by (subst req_packet_take) (simp_all add: pat idl obex_elements)
  have "\<exists>s' req. do { (buffer, s) \<leftarrow> req_packet XE sdp 6 16 ?tparts 15 s;
        send_request XE sdp buffer (attr_request_done cb ud) s } = Some (True, s') \<and>
    client_step (l2cap_packets m a (remote_channel_id l) (pdu 6 ident (obex_query @ [0]))) sdp
      (attr_request_done cb ud (c\<lparr>continuation_offset := 15, last_req := Some req\<rparr>)) s s' \<and>
    pending m (remote_channel_id l) 6 ident (obex_query @ [0]) req \<and> s_next_transaction_id s' = s_next_transaction_id s + 1"
    by (rule sdp_request_sent [OF assms(1-3,5,6)]) (use assms(7-9) in \<open>simp_all add: obex_elements obex_query_def\<close>)
  then show ?thesis
    using assms(2,4) sizes eq
    by (auto simp: bte_sdp_service_search_attr_req_def service_search_attr_req_packet_def)
qed

text \<open>A client that was just made for a channel, the state then, and what it sends.\<close>

definition new_client :: "nat \<Rightarrow> bte_l2cap \<Rightarrow> sdp_client" where
  "new_client p l = \<lparr>sc_ref_count = 1, sc_userdata = l_userdata l, sc_l2cap = Some p, last_req = None, continuation_offset = 0,
    req_cb = None, req_userdata = 0, attr_list_de = None, attr_written = 0\<rparr>"

definition with_client :: "nat \<Rightarrow> nat \<Rightarrow> bte_l2cap \<Rightarrow> 'e pdev \<Rightarrow> 'e pdev" where
  "with_client sdp p l s = s\<lparr>l2cap_heap := (l2cap_heap s)(p \<mapsto> sdp_channel sdp l), sdp_heap := (sdp_heap s)(sdp \<mapsto> new_client p l)\<rparr>"

lemma with_client_simps [simp]:
  "sdp_heap (with_client sdp p l s) = (sdp_heap s)(sdp \<mapsto> new_client p l)" "l2cap_heap (with_client sdp p l s) = (l2cap_heap s)(p \<mapsto> sdp_channel sdp l)"
  "s_next_transaction_id (with_client sdp p l s) = s_next_transaction_id s" "wire (with_client sdp p l s) = wire s"
  "sdp_dev.more (with_client sdp p l s) = sdp_dev.more s"
  by (simp_all add: with_client_def wire_def)

lemma sending_with_client: "sending m acl a p l s \<Longrightarrow> sending m acl a p (sdp_channel sdp l) (with_client sdp p l s)"
  by (simp add: sending_def link_ready_def with_client_def sdp_channel_def)

lemma obex_query_bytes: "obex_query = [0x35, 3, 0x19, 0x11, 0x05, 0x10, 0x00, 0x35, 6, 0x09, 0x00, 0x04, 0x09, 0x02, 0x00]"
  unfolding obex_query_def obex_elements by code_simp

lemma query_started:
  assumes "sending m acl a p l s" and "accepting (le_hci (sp_l2cap (ob_sdp OE)))" and "ob_sdp_addr OE s = Some sdp"
    and "9 \<le> m" and "21 \<le> unat (l_remote_mtu l)" and "fits m 25"
  shows "\<exists>s' req. obex_new_configured_cb OE (Some p) ud s = Some s' \<and>
     client_step (l2cap_packets m a (remote_channel_id l) (pdu 6 (ucast (s_next_transaction_id s)) (obex_query @ [0]))) sdp
       (attr_request_done (Some OBEX_SERVICE_SEARCH_ATTR_CB) ud ((new_client p l)\<lparr>continuation_offset := 15, last_req := Some req\<rparr>))
       (with_client sdp p l s) s' \<and>
     pending m (remote_channel_id l) 6 (ucast (s_next_transaction_id s)) (obex_query @ [0]) req \<and>
     s_next_transaction_id s' = s_next_transaction_id s + 1"
proof -
  note d = sendingD [OF assms(1)]
  have new: "bte_sdp_client_new sdp p s = Some (with_client sdp p l s)"
    using d(2) by (simp add: bte_sdp_client_new_def bte_l2cap_ref_def upd_l2cap_def put_l2cap_def bte_l2cap_get_userdata_def
        bte_l2cap_set_userdata_def bte_l2cap_on_message_received_def with_client_def new_client_def sdp_channel_def)
  let ?junk = "map (env_fresh (le_hci (sp_l2cap (ob_sdp OE))) s) [0..<20]"
  obtain a1 where a1: "obex_pattern_args = a1 @ [Va_int BTE_SDP_DE_END]" "de_item a1 [obex_pattern]" using obex_args(1) by blast
  obtain a2 where a2: "obex_id_list_args = a2 @ [Va_int BTE_SDP_DE_END]" "de_item a2 [obex_id_list]" using obex_args(2) by blast
  have sz: "length (encode obex_pattern) < 20" "length (encode obex_id_list) < 20" by (simp_all add: obex_elements)
  obtain xs where xs: "bte_sdp_de_write (Some ?junk) 20 obex_pattern_args = Some (of_nat (length (encode obex_pattern)), encode obex_pattern @ xs)"
    using element_written [OF a1 sz(1), of ?junk] by auto
  obtain ys where ys: "bte_sdp_de_write (Some ?junk) 20 obex_id_list_args = Some (of_nat (length (encode obex_id_list)), encode obex_id_list @ ys)"
    using element_written [OF a2 sz(2), of ?junk] by auto
  have h: "sdp_heap (with_client sdp p l s) sdp = Some (new_client p l)" "sc_l2cap (new_client p l) = Some p" "last_req (new_client p l) = None"
    by (simp_all add: new_client_def)
  have mtu: "21 \<le> unat (l_remote_mtu (sdp_channel sdp l))" using assms(5) by (simp add: sdp_channel_def)
  have rc: "remote_channel_id (sdp_channel sdp l) = remote_channel_id l" by (simp add: sdp_channel_def)
  from search_attr_sent [OF sending_with_client [OF assms(1)] h assms(4,2) mtu assms(6) refl refl refl, of xs ys "Some OBEX_SERVICE_SEARCH_ATTR_CB" ud]
  show ?thesis using assms(3) new xs ys unfolding rc with_client_simps
    by (auto simp: obex_new_configured_cb_def Let_def)
qed

section \<open>The answer\<close>

lemma discover_heap_more:
  fixes s :: "'e odev"
  shows "sdp_dev.more s' = sdp_dev.more s \<Longrightarrow> discover_heap s' = discover_heap s"
  by (cases s; cases s') simp

lemma query_waiting:
  assumes "sending m acl a p l s" and "accepting (le_hci (sp_l2cap (ob_sdp OE)))" and "ob_sdp_addr OE s = Some sdp" and "sdp < 2 ^ 64"
    and "41 \<le> m" and "37 \<le> unat (l_remote_mtu l)" and "fits m 41"
  shows "\<exists>s' c. obex_new_configured_cb OE (Some p) ud s = Some s' \<and>
     client_step (l2cap_packets m a (remote_channel_id l) (pdu 6 (ucast (s_next_transaction_id s)) (obex_query @ [0]))) sdp c (with_client sdp p l s) s' \<and>
     waiting (obex_sdp_env OE) m acl a p (sdp_channel sdp l) sdp c 6 (ucast (s_next_transaction_id s)) obex_query s' \<and>
     sc_ref_count c = 1 \<and> req_cb c = Some OBEX_SERVICE_SEARCH_ATTR_CB \<and> req_userdata c = ud \<and> attr_list_de c = None \<and> attr_written c = 0"
proof -
  have "9 \<le> m" "21 \<le> unat (l_remote_mtu l)" "fits m 25" using assms(5,6) fits_mono [OF assms(7), of 25] by simp_all
  from query_started [OF assms(1-3) this, of ud] obtain s' req where q: "obex_new_configured_cb OE (Some p) ud s = Some s'"
      "client_step (l2cap_packets m a (remote_channel_id l) (pdu 6 (ucast (s_next_transaction_id s)) (obex_query @ [0]))) sdp
       (attr_request_done (Some OBEX_SERVICE_SEARCH_ATTR_CB) ud ((new_client p l)\<lparr>continuation_offset := 15, last_req := Some req\<rparr>))
       (with_client sdp p l s) s'"
      "pending m (remote_channel_id l) 6 (ucast (s_next_transaction_id s)) (obex_query @ [0]) req"
      "s_next_transaction_id s' = s_next_transaction_id s + 1" by blast
  let ?c = "attr_request_done (Some OBEX_SERVICE_SEARCH_ATTR_CB) ud ((new_client p l)\<lparr>continuation_offset := 15, last_req := Some req\<rparr>)"
  have "sending m acl a p (sdp_channel sdp l) s'"
    using sending_with_client [OF assms(1), of sdp] q(2) by (simp add: sending_def client_step_def)
  moreover have "sdp_heap s' sdp = Some ?c" using q(2) by (simp add: client_step_def)
  moreover have "length obex_query = 15" by (simp add: obex_query_bytes)
  ultimately have "waiting (obex_sdp_env OE) m acl a p (sdp_channel sdp l) sdp ?c 6 (ucast (s_next_transaction_id s)) obex_query s'"
    using assms(2,4-7) q(3,4)
    by (auto simp: waiting_def obex_sdp_env_def attr_request_done_def new_client_def sdp_channel_def ucast_add1 intro!: exI [of _ req] exI [of _ "[0]"])
  then show ?thesis using q(1,2) by (intro exI [of _ s'] exI [of _ ?c]) (simp add: attr_request_done_def new_client_def)
qed

text \<open>
  C15: discovery from the open channel to the application. The query (object push, UUID16 0x1105, at most 4096
  bytes, attributes 0x0004 and 0x0200) and, for every fragment of the answer but the last, a request for the next one
  are on the wire; when the last fragment of the encoded record \<open>d\<close> has arrived, the callback of \<^verbatim>\<open>bte_obex_discover\<close> is called once,
  with the client and the user data of the call and the RFCOMM channel and the L2CAP port that the reference
  finds in the record, its data is freed, and the SDP client drops its last reference to itself.
\<close>

theorem obex_discovery_answered:
  fixes s :: "'e odev"
  assumes "sending m acl a p l s" and "accepting (le_hci (sp_l2cap (ob_sdp OE)))" and "ob_sdp_addr OE s = Some sdp" and "sdp < 2 ^ 64"
    and "41 \<le> m" and "37 \<le> unat (l_remote_mtu l)" and "fits m 41"
    and "discover_heap s (unat ud) = Some dd" and "dd_callback dd = Some cb"
    and "readable d" and "attrs_full d" and "encode d = concat (map fst fs) @ f" and "length (encode d) < 65536"
    and "list_all (\<lambda>(f, cs). f \<noteq> [] \<and> cs \<noteq> [] \<and> length cs \<le> 16) fs"
    and "bte_sdp_de_get_total_size (case fs of [] \<Rightarrow> f | (f0, _) # _ \<Rightarrow> f0) = Some (of_nat (length (encode d)))"
    and "answers PDU_ID_SERVICE_SEARCH_ATTR_REQ (ucast (s_next_transaction_id s)) (fs @ [(f, [])]) rs"
    and "query = [0x35, 3, 0x19, 0x11, 0x05, 0x10, 0x00, 0x35, 6, 0x09, 0x00, 0x04, 0x09, 0x02, 0x00]"
  shows "\<exists>s1 t c. obex_new_configured_cb OE (Some p) ud s = Some s1 \<and>
     wire t = wire s @ l2cap_packets m a (remote_channel_id l) (pdu 6 (ucast (s_next_transaction_id s)) (query @ [0])) @
       continuations m a (remote_channel_id l) 6 (ucast (s_next_transaction_id s)) query (map snd fs) \<and>
     discover_heap t = discover_heap s \<and> sdp_heap t sdp = Some c \<and> sc_ref_count c = 1 \<and>
     receive_responses (obex_sdp_env OE) sdp rs s1 =
       do { t \<leftarrow> ob_discover OE cb (dd_client dd) (obex_reference d) (dd_userdata dd) t;
            _ \<leftarrow> discover_heap t (unat ud);
            attr_cleanup (obex_sdp_env OE) sdp (t\<lparr>discover_heap := (discover_heap t)(unat ud := None)\<rparr>) }"
proof -
  obtain s1 c where q: "obex_new_configured_cb OE (Some p) ud s = Some s1"
     "client_step (l2cap_packets m a (remote_channel_id l) (pdu 6 (ucast (s_next_transaction_id s)) (obex_query @ [0]))) sdp c (with_client sdp p l s) s1"
     "waiting (obex_sdp_env OE) m acl a p (sdp_channel sdp l) sdp c 6 (ucast (s_next_transaction_id s)) obex_query s1"
     "sc_ref_count c = 1" "req_cb c = Some OBEX_SERVICE_SEARCH_ATTR_CB" "req_userdata c = ud" "attr_list_de c = None" "attr_written c = 0"
    using query_waiting [OF assms(1-7)] by blast
  have rc: "remote_channel_id (sdp_channel sdp l) = remote_channel_id l" by (simp add: sdp_channel_def)
  have code: "(6 :: byte) = PDU_ID_SERVICE_ATTR_REQ \<or> (6 :: byte) = PDU_ID_SERVICE_SEARCH_ATTR_REQ" by simp
  have an: "answers 6 (ucast (s_next_transaction_id s)) (fs @ [(f, [])]) rs" using assms(16) by simp
  obtain t e mem where t: "client_step (continuations m a (remote_channel_id l) 6 (ucast (s_next_transaction_id s)) obex_query (map snd fs)) sdp e s1 t"
      "take (length (encode d)) mem = encode d" "sc_ref_count e = 2"
      "receive_responses (obex_sdp_env OE) sdp rs s1 = do { t \<leftarrow> sp_attr (obex_sdp_env OE) OBEX_SERVICE_SEARCH_ATTR_CB sdp
          \<lparr>ar_error_code = 0, ar_attr_list_de = Some mem\<rparr> ud t; attr_cleanup (obex_sdp_env OE) sdp t }"
    using attributes_reassembled [OF q(3) code q(5,7,8) assms(12-15) an] q(4,6) unfolding rc by auto
  have parse: "obex_parse_attrs \<lparr>ar_error_code = 0, ar_attr_list_de = Some mem\<rparr> = Some (obex_reference d)"
    using obex_parse_reference [OF assms(10,11), of "drop (length (encode d)) mem"] t(2) by (metis append_take_drop_id)
  let ?t = "set_sdp sdp (e\<lparr>sc_ref_count := 1\<rparr>) t"
  have un: "bte_sdp_client_unref (ob_sdp OE) sdp t = Some ?t"
    using t(1,3) by (simp add: bte_sdp_client_unref_def client_step_def put_sdp_eq)
  have "sdp_dev.more ?t = sdp_dev.more s" using q(2) t(1) by (simp add: client_step_def)
  then have dh: "discover_heap ?t = discover_heap s" by (rule discover_heap_more)
  have w: "wire ?t = wire s @ l2cap_packets m a (remote_channel_id l) (pdu 6 (ucast (s_next_transaction_id s)) (obex_query @ [0])) @
       continuations m a (remote_channel_id l) 6 (ucast (s_next_transaction_id s)) obex_query (map snd fs)"
    using q(2) t(1) by (simp add: client_step_def)
  have "receive_responses (obex_sdp_env OE) sdp rs s1 =
      do { t \<leftarrow> discover_done OE (unat ud) (obex_reference d) ?t; attr_cleanup (obex_sdp_env OE) sdp t }"
    unfolding t(4) by (simp add: obex_sdp_env_def obex_attr_client_def service_search_attr_cb_def parse un)
  then have "receive_responses (obex_sdp_env OE) sdp rs s1 =
       do { t \<leftarrow> ob_discover OE cb (dd_client dd) (obex_reference d) (dd_userdata dd) ?t;
            _ \<leftarrow> discover_heap t (unat ud);
            attr_cleanup (obex_sdp_env OE) sdp (t\<lparr>discover_heap := (discover_heap t)(unat ud := None)\<rparr>) }"
    using dh assms(8,9) by (simp add: discover_done_def)
  then show ?thesis
    using q(1) w dh assms(17) unfolding obex_query_bytes
    by (intro exI [of _ s1] exI [of _ ?t] exI [of _ "e\<lparr>sc_ref_count := 1\<rparr>"]) simp
qed

definition demo_obex_dev :: obex_dev where
  "demo_obex_dev = sdp_dev.extend (discovery_dev discovery_client 1) (obex_dev.fields [9 \<mapsto> \<lparr>dd_client = Some 1, dd_callback = Some 70, dd_userdata = 0\<rparr>])"

lemma demo_obex_simps:
  "acl_heap demo_obex_dev = acl_heap (discovery_dev discovery_client 1)" "l2cap_heap demo_obex_dev = l2cap_heap (discovery_dev discovery_client 1)"
  "acl_mtu demo_obex_dev = acl_mtu (discovery_dev discovery_client 1)" "outgoing_acl_packets demo_obex_dev = outgoing_acl_packets (discovery_dev discovery_client 1)"
  "s_next_transaction_id demo_obex_dev = 1"
  by (simp_all add: demo_obex_dev_def sdp_dev.defs discovery_dev_def server_dev.defs l2cap_dev.defs acl_dev.defs bte_hci_dev.defs config_dev_def demo_l2cap_dev_def demo_acl_dev_def)

lemma demo_obex_ready:
  "sending 200 5 config_acl 30 open_channel demo_obex_dev" "accepting (le_hci (sp_l2cap (ob_sdp demo_obex_env)))"
  using discovery_sending(1) [of discovery_client 1]
  by (simp_all add: sending_def link_ready_def demo_obex_simps accepting_def demo_obex_env_def)

text \<open>An application that accepts nothing but the right answer.\<close>

definition choosy_obex_env :: "obex_dev obex_env" where
  "choosy_obex_env = demo_obex_env\<lparr>ob_discover := \<lambda>cb c reply ud s.
     if cb = 70 \<and> c = Some 1 \<and> reply = \<lparr>opp_l2cap_psm = 0x1001, opp_rfcomm_channel = 9\<rparr> then Some s else None\<rparr>"

abbreviation obex_answers :: "bte_buffer_reader list" where
  "obex_answers \<equiv> [byte_reader (pdu 0x07 1 (attr_body (take 9 (encode demo_record)) [0xaa])),
                   byte_reader (pdu 0x07 2 (attr_body (drop 9 (encode demo_record)) []))]"

lemma demo_record_ok:
  "readable demo_record" "attrs_full demo_record" "obex_reference demo_record = \<lparr>opp_l2cap_psm = 0x1001, opp_rfcomm_channel = 9\<rparr>"
proof -
  show "readable demo_record" "attrs_full demo_record"
    by (simp_all add: readable_def demo_record_def value_types_def fixed_len_def de_header_def var_size_def)
  show "obex_reference demo_record = \<lparr>opp_l2cap_psm = 0x1001, opp_rfcomm_channel = 9\<rparr>" by code_simp
qed

lemma demo_record_bytes: "encode demo_record = [0x35, 25, 0x35, 23, 9, 0, 4, 0x35, 12, 0x35, 3, 0x19, 1, 0, 0x35, 5, 0x19, 0, 3, 8, 9, 9, 2, 0, 9, 0x10, 1]"
  by code_simp

theorem obex_discovery_answered_witness:
  "\<exists>s1 t. obex_new_configured_cb choosy_obex_env (Some 30) 9 demo_obex_dev = Some s1 \<and>
     wire t = [[0x2a, 0x20, 25, 0, 21, 0, 0x41, 0, 6, 0, 1, 0, 16, 0x35, 3, 0x19, 0x11, 0x05, 0x10, 0x00, 0x35, 6, 0x09, 0x00, 0x04, 0x09, 0x02, 0x00, 0],
       [0x2a, 0x20, 26, 0, 22, 0, 0x41, 0, 6, 0, 2, 0, 17, 0x35, 3, 0x19, 0x11, 0x05, 0x10, 0x00, 0x35, 6, 0x09, 0x00, 0x04, 0x09, 0x02, 0x00, 1, 0xaa]] \<and>
     receive_responses (obex_sdp_env choosy_obex_env) 50 obex_answers s1 =
       attr_cleanup (obex_sdp_env choosy_obex_env) 50 (t\<lparr>discover_heap := (discover_heap t)(9 := None)\<rparr>)"
proof -
  let ?q = "[0x35, 3, 0x19, 0x11, 0x05, 0x10, 0x00, 0x35, 6, 0x09, 0x00, 0x04, 0x09, 0x02, 0x00] :: mem"
  let ?fs = "[(take 9 (encode demo_record), [0xaa])] :: (mem \<times> mem) list" and ?f = "drop 9 (encode demo_record)"
  let ?id = "ucast (s_next_transaction_id demo_obex_dev) :: u16"
  let ?dd = "\<lparr>dd_client = Some 1, dd_callback = Some 70, dd_userdata = 0\<rparr> :: discover_data"
  have ob: "ob_sdp choosy_obex_env = ob_sdp demo_obex_env" by (simp add: choosy_obex_env_def)
  have a: "ob_sdp_addr choosy_obex_env demo_obex_dev = Some 50" by (simp add: choosy_obex_env_def demo_obex_env_def)
  have ac: "accepting (le_hci (sp_l2cap (ob_sdp choosy_obex_env)))" using demo_obex_ready(2) by (simp add: ob)
  have f: "fits 200 41" using fits_mono [OF config_dev_ready(3), of 41] by simp
  have m: "(50 :: nat) < 2 ^ 64" "(41 :: nat) \<le> 200" "37 \<le> unat (l_remote_mtu open_channel)" by (simp_all add: open_channel_def)
  have dh: "discover_heap demo_obex_dev (unat (9 :: u64)) = Some ?dd" "dd_callback ?dd = Some 70"
    by (simp_all add: demo_obex_dev_def sdp_dev.defs obex_dev.defs discovery_dev_def)
  have fr: "encode demo_record = concat (map fst ?fs) @ ?f" "length (encode demo_record) < 65536"
      "list_all (\<lambda>(f, cs). f \<noteq> [] \<and> cs \<noteq> [] \<and> length cs \<le> 16) ?fs" by (simp_all add: demo_record_bytes)
  have sz: "bte_sdp_de_get_total_size (case ?fs of [] \<Rightarrow> ?f | (f0, _) # _ \<Rightarrow> f0) = Some (of_nat (length (encode demo_record)))"
    unfolding demo_record_bytes by code_simp
  have id1: "?id = 1" by (simp add: demo_obex_simps)
  have an: "answers PDU_ID_SERVICE_SEARCH_ATTR_REQ ?id (?fs @ [(?f, [])]) obex_answers"
    unfolding id1 by (simp add: byte_reader_ok byte_reader_lead attr_body_def demo_record_bytes)
  have w: "wire demo_obex_dev = []" by code_simp
  have p: "l2cap_packets 200 config_acl 0x41 (pdu 6 1 (?q @ [0])) @ continuations 200 config_acl 0x41 6 1 ?q (map snd ?fs) =
      [[0x2a, 0x20, 25, 0, 21, 0, 0x41, 0, 6, 0, 1, 0, 16, 0x35, 3, 0x19, 0x11, 0x05, 0x10, 0x00, 0x35, 6, 0x09, 0x00, 0x04, 0x09, 0x02, 0x00, 0],
       [0x2a, 0x20, 26, 0, 22, 0, 0x41, 0, 6, 0, 2, 0, 17, 0x35, 3, 0x19, 0x11, 0x05, 0x10, 0x00, 0x35, 6, 0x09, 0x00, 0x04, 0x09, 0x02, 0x00, 1, 0xaa]]"
    by code_simp
  have r: "remote_channel_id open_channel = 0x41" by (simp add: open_channel_def)
  obtain s1 t c where t: "obex_new_configured_cb choosy_obex_env (Some 30) 9 demo_obex_dev = Some s1"
      "wire t = wire demo_obex_dev @ l2cap_packets 200 config_acl 0x41 (pdu 6 1 (?q @ [0])) @ continuations 200 config_acl 0x41 6 1 ?q (map snd ?fs)"
      "discover_heap t = discover_heap demo_obex_dev"
      "receive_responses (obex_sdp_env choosy_obex_env) 50 obex_answers s1 =
       do { t \<leftarrow> ob_discover choosy_obex_env 70 (dd_client ?dd) (obex_reference demo_record) (dd_userdata ?dd) t;
            _ \<leftarrow> discover_heap t (unat (9 :: u64));
            attr_cleanup (obex_sdp_env choosy_obex_env) 50 (t\<lparr>discover_heap := (discover_heap t)(unat (9 :: u64) := None)\<rparr>) }"
    using obex_discovery_answered [OF demo_obex_ready(1) ac a m f dh demo_record_ok(1,2) fr sz an refl] unfolding r id1 by blast
  have "ob_discover choosy_obex_env 70 (dd_client ?dd) (obex_reference demo_record) (dd_userdata ?dd) t = Some t"
    unfolding demo_record_ok(3) by (simp add: choosy_obex_env_def)
  then have "receive_responses (obex_sdp_env choosy_obex_env) 50 obex_answers s1 =
       attr_cleanup (obex_sdp_env choosy_obex_env) 50 (t\<lparr>discover_heap := (discover_heap t)(9 := None)\<rparr>)"
    using t(3,4) dh(1) by simp
  then show ?thesis using t(1,2) unfolding w p by auto
qed

end
