(* ===== verification/BackendBuffer.thy ===== *)
theory BackendBuffer
  imports Prelude "HOL-Library.Multiset"
begin

text \<open>
  The buffers a backend shares with the USB controller and with the layers above it
  (\<^verbatim>\<open>struct bte_buffer_t\<close> of \<^verbatim>\<open>buffer.h\<close>), on an explicit memory: here the questions are who
  holds a reference to a packet and when it may be used again, so packets have addresses, as in
  \<^verbatim>\<open>BufferRef\<close>, and their contents, as in \<^verbatim>\<open>Buffer\<close>. A backend extends the record \<open>buf_mem\<close> with
  its own variables.

  \<open>buf_inv\<close> is the accounting of references: the count in a packet is at least the number of
  places that refer to it, namely the users of the backend (transfers in progress, queued
  events), the references held by the running code and the \<^verbatim>\<open>next\<close> fields of live packets.
  The locale \<open>buffer_release\<close> states what the function behind \<^verbatim>\<open>free_func\<close> must guarantee for
  \<^verbatim>\<open>bte_buffer_unref\<close> to keep it.
\<close>

section \<open>Packets at addresses\<close>

text \<open>
  \<open>Intr i\<close> and \<open>Data i\<close> are \<^verbatim>\<open>&s_wii_buffer_intr[i].buffer\<close> and \<^verbatim>\<open>&s_wii_buffer_data[i].buffer\<close>,
  \<open>Heap a\<close> is a packet from \<^verbatim>\<open>bte_buffer_malloc\<close>.
\<close>

datatype buf_ptr = Intr nat | Data nat | Heap nat

datatype free_func = Wii_buffer_free | Bte_free

record usb_buffer =
  b_ref_count :: int
  b_free_func :: "free_func option"
  b_total_size :: u16
  b_size :: u16
  b_next :: "buf_ptr option"
  b_data :: mem

record buf_mem =
  bufs :: "buf_ptr \<Rightarrow> usb_buffer option"

type_synonym 'z buf_state = "'z buf_mem_scheme"

type_synonym 'z release_func = "free_func \<Rightarrow> buf_ptr \<Rightarrow> 'z buf_state \<Rightarrow> 'z buf_state option"

abbreviation set_buf :: "buf_ptr \<Rightarrow> usb_buffer \<Rightarrow> 'z buf_state \<Rightarrow> 'z buf_state" where
  "set_buf b p st \<equiv> st\<lparr>bufs := (bufs st)(b \<mapsto> p)\<rparr>"

text \<open>
  \<^verbatim>\<open>bte_buffer_alloc_contiguous\<close>, with the address \<^verbatim>\<open>malloc\<close> returns and what the fresh memory
  holds as arguments; an address that is in use is not one \<^verbatim>\<open>malloc\<close> returns.
\<close>

definition buf_alloc_contiguous ::
    "(nat \<Rightarrow> byte) \<Rightarrow> nat \<Rightarrow> u16 \<Rightarrow> 'z buf_state \<Rightarrow> (buf_ptr \<times> 'z buf_state) option" where
  "buf_alloc_contiguous junk a sz st =
     (if bufs st (Heap a) \<noteq> None then None
      else Some (Heap a, set_buf (Heap a)
             \<lparr>b_ref_count = 1, b_free_func = Some Bte_free, b_total_size = sz, b_size = sz,
              b_next = None, b_data = map junk [0..<unat sz]\<rparr> st))"

definition buf_ref :: "buf_ptr \<Rightarrow> 'z buf_state \<Rightarrow> 'z buf_state option" where
  "buf_ref b st =
     do { p \<leftarrow> bufs st b; Some (set_buf b (p\<lparr>b_ref_count := b_ref_count p + 1\<rparr>) st) }"

partial_function (option) buf_unref ::
    "'z release_func \<Rightarrow> buf_ptr \<Rightarrow> 'z buf_state \<Rightarrow> 'z buf_state option" where
  "buf_unref rel b st =
     do { p \<leftarrow> bufs st b;
          let st1 = set_buf b (p\<lparr>b_ref_count := b_ref_count p - 1\<rparr>) st;
          if b_ref_count p = 1 then
            do { st2 \<leftarrow> (case b_next p of Some n \<Rightarrow> buf_unref rel n st1 | None \<Rightarrow> Some st1);
                 p2 \<leftarrow> bufs st2 b;
                 case b_free_func p2 of Some f \<Rightarrow> rel f b st2 | None \<Rightarrow> Some st2 }
          else Some st1 }"

text \<open>\<^verbatim>\<open>bte_free\<close> of a packet: the memory is gone.\<close>

definition buf_free :: "buf_ptr \<Rightarrow> 'z buf_state \<Rightarrow> 'z buf_state option" where
  "buf_free b st = do { p \<leftarrow> bufs st b; Some (st\<lparr>bufs := (bufs st)(b := None)\<rparr>) }"

partial_function (option) buf_shrink_loop ::
    "buf_ptr option \<Rightarrow> u16 \<Rightarrow> 'z buf_state \<Rightarrow> 'z buf_state option" where
  "buf_shrink_loop buffer sz st =
     (case buffer of None \<Rightarrow> Some st
      | Some b \<Rightarrow>
          do { p \<leftarrow> bufs st b;
               let p' = (if b_size p > sz then p\<lparr>b_size := sz\<rparr> else p);
               buf_shrink_loop (b_next p') (sz - b_size p') (set_buf b p' st) })"

definition buf_shrink :: "buf_ptr \<Rightarrow> u16 \<Rightarrow> 'z buf_state \<Rightarrow> 'z buf_state option" where
  "buf_shrink b sz st =
     do { p \<leftarrow> bufs st b; buf_shrink_loop (Some b) sz (set_buf b (p\<lparr>b_total_size := sz\<rparr>) st) }"

partial_function (option) buf_tail :: "buf_ptr \<Rightarrow> 'z buf_state \<Rightarrow> buf_ptr option" where
  "buf_tail b st =
     do { p \<leftarrow> bufs st b; case b_next p of None \<Rightarrow> Some b | Some n \<Rightarrow> buf_tail n st }"

text \<open>\<^verbatim>\<open>bte_buffer_append\<close> to a chain that is not empty.\<close>

definition buf_append :: "buf_ptr \<Rightarrow> buf_ptr \<Rightarrow> 'z buf_state \<Rightarrow> 'z buf_state option" where
  "buf_append h b st =
     do { t \<leftarrow> buf_tail h st;
          st1 \<leftarrow> buf_ref b st;
          pt \<leftarrow> bufs st1 t;
          let st2 = set_buf t (pt\<lparr>b_next := Some b\<rparr>) st1;
          ph \<leftarrow> bufs st2 h;
          pb \<leftarrow> bufs st2 b;
          Some (set_buf h (ph\<lparr>b_total_size := b_total_size ph + b_size pb\<rparr>) st2) }"

text \<open>\<^verbatim>\<open>bte_buffer_contiguous_data\<close>: whether the data of the packet can be used as a block of \<open>sz\<close> bytes.\<close>

definition buf_contiguous_data :: "buf_ptr \<Rightarrow> u16 \<Rightarrow> 'z buf_state \<Rightarrow> buf_ptr option option" where
  "buf_contiguous_data b sz st =
     do { p \<leftarrow> bufs st b; Some (if b_size p \<ge> sz then Some b else None) }"

text \<open>What neither a store to a packet nor the release functions change is not changed by dropping a reference.\<close>

lemma buf_unref_keeps:
  assumes "buf_unref rel b st = Some st'"
    and "\<And>b p st. P (set_buf b p st) = P st"
    and "\<And>f b st st'. rel f b st = Some st' \<Longrightarrow> P st \<Longrightarrow> P st'"
  shows "P st \<Longrightarrow> P st'"
  using assms
proof (induction rule: buf_unref.raw_induct [rotated, consumes 1])
  case (1 f rel b st st')
  note IH = "1"(1) [OF _ _ "1"(4,5)]
  obtain p where p: "bufs st b = Some p" using "1"(2) by (cases "bufs st b") auto
  let ?st1 = "set_buf b (p\<lparr>b_ref_count := b_ref_count p - 1\<rparr>) st"
  have P1: "P ?st1" using "1"(3,4) by blast
  show ?case
  proof (cases "b_ref_count p = 1")
    case False
    then show ?thesis using "1"(2) p P1 by simp
  next
    case True
    then obtain st2 where st2: "(case b_next p of Some n \<Rightarrow> f rel n ?st1 | None \<Rightarrow> Some ?st1) = Some st2"
        "(do { p2 \<leftarrow> bufs st2 b; case b_free_func p2 of Some g \<Rightarrow> rel g b st2 | None \<Rightarrow> Some st2 }) = Some st'"
      using "1"(2) p by (cases "case b_next p of Some n \<Rightarrow> f rel n ?st1 | None \<Rightarrow> Some ?st1") (auto simp: Let_def)
    then have "P st2" using IH P1 by (cases "b_next p") auto
    then show ?thesis using st2(2) "1"(5) by (cases "bufs st2 b") (auto split: option.splits)
  qed
qed

lemma shrink_alone:
  assumes "bufs st b = Some p" and "b_next p = None"
  shows "buf_shrink b sz st = Some (set_buf b (p\<lparr>b_total_size := sz, b_size := min (b_size p) sz\<rparr>) st)"
  using assms by (simp add: buf_shrink_def buf_shrink_loop.simps [of "Some b"] buf_shrink_loop.simps [of None] Let_def min_def)

section \<open>The interface of a backend\<close>

text \<open>\<^verbatim>\<open>struct bte_backend_t\<close>, over the state \<open>'st\<close> of the backend, and the entry points of \<^verbatim>\<open>bte.c\<close>.\<close>

record 'st bte_backend =
  bk_init :: "'st \<Rightarrow> (int \<times> 'st) option"
  bk_handle_events :: "bool \<Rightarrow> u32 \<Rightarrow> 'st \<Rightarrow> (int \<times> 'st) option"
  bk_hci_send_command :: "buf_ptr \<Rightarrow> 'st \<Rightarrow> (int \<times> 'st) option"
  bk_hci_send_data :: "buf_ptr \<Rightarrow> 'st \<Rightarrow> (int \<times> 'st) option"
  bk_deinit :: "'st \<Rightarrow> (int \<times> 'st) option"

definition bte_wait_events :: "'st bte_backend \<Rightarrow> u32 \<Rightarrow> 'st \<Rightarrow> (int \<times> 'st) option" where
  "bte_wait_events B timeout_us st = bk_handle_events B True timeout_us st"

definition bte_handle_events :: "'st bte_backend \<Rightarrow> 'st \<Rightarrow> (int \<times> 'st) option" where
  "bte_handle_events B st = bk_handle_events B False 0 st"

section \<open>The accounting of references\<close>

definition refs :: "'z buf_state \<Rightarrow> buf_ptr \<Rightarrow> int" where
  "refs st b = (case bufs st b of None \<Rightarrow> 0 | Some p \<Rightarrow> b_ref_count p)"

definition linkers :: "'z buf_state \<Rightarrow> buf_ptr \<Rightarrow> buf_ptr set" where
  "linkers st b = {a. \<exists>p. bufs st a = Some p \<and> b_ref_count p > 0 \<and> b_next p = Some b}"

abbreviation links :: "'z buf_state \<Rightarrow> buf_ptr \<Rightarrow> nat" where
  "links st b \<equiv> card (linkers st b)"

fun release_of :: "buf_ptr \<Rightarrow> free_func" where
  "release_of (Heap _) = Bte_free"
| "release_of _ = Wii_buffer_free"

fun on_heap :: "buf_ptr \<Rightarrow> bool" where
  "on_heap (Heap _) = True"
| "on_heap _ = False"

definition buf_typed :: "buf_ptr \<Rightarrow> usb_buffer \<Rightarrow> bool" where
  "buf_typed b p \<longleftrightarrow> unat (b_size p) \<le> length (b_data p) \<and> b_ref_count p \<ge> 0 \<and>
     (b_ref_count p > 0 \<longrightarrow> b_free_func p = Some (release_of b)) \<and>
     b_free_func p \<in> {None, Some (release_of b)}"

definition buf_inv ::
    "('z buf_state \<Rightarrow> buf_ptr \<Rightarrow> nat) \<Rightarrow> ('z buf_state \<Rightarrow> bool) \<Rightarrow> buf_ptr multiset \<Rightarrow>
     'z buf_state \<Rightarrow> bool" where
  "buf_inv users ok H st \<longleftrightarrow> finite (dom (bufs st)) \<and> ok st \<and>
     (\<forall>b p. bufs st b = Some p \<longrightarrow> buf_typed b p) \<and>
     (\<forall>b. int (users st b + count H b + links st b) \<le> refs st b)"

text \<open>
  What releasing a packet leaves alone: the packets of the heap that are being released by a
  caller further up, and the pools.
\<close>

definition buf_keeps :: "buf_ptr \<Rightarrow> 'z buf_state \<Rightarrow> 'z buf_state \<Rightarrow> bool" where
  "buf_keeps b st st' \<longleftrightarrow> (\<forall>x p. bufs st x = Some p \<longrightarrow>
     (on_heap x \<and> b_ref_count p = 0 \<and> x \<noteq> b \<longrightarrow> bufs st' x = Some p) \<and>
     (\<not> on_heap x \<and> b_free_func p \<noteq> None \<longrightarrow>
        (\<exists>p'. bufs st' x = Some p' \<and> b_free_func p' = b_free_func p)))"

lemma refs_set [simp]: "refs (set_buf b p st) x = (if x = b then b_ref_count p else refs st x)"
  by (simp add: refs_def)

lemma bufs_finite [simp]: "finite (dom (bufs st)) \<Longrightarrow> finite (linkers st b)"
  by (rule finite_subset [of _ "dom (bufs st)"]) (auto simp: linkers_def)

lemma linkers_set:
  "linkers (set_buf a p st) b =
     (if b_ref_count p > 0 \<and> b_next p = Some b then insert a (linkers st b) else linkers st b - {a})"
  by (auto simp: linkers_def split: if_splits)

lemma linkers_same:
  assumes "bufs st a = Some p" and "b_next p' = b_next p" and "b_ref_count p' > 0 \<longleftrightarrow> b_ref_count p > 0"
  shows "linkers (set_buf a p' st) = linkers st"
  using assms by (auto simp: linkers_def fun_eq_iff)

lemma links_dead:
  assumes "bufs st a = Some p" and "b_ref_count p > 0" and "finite (dom (bufs st))" and "b_ref_count p' = 0"
  shows "links st b = links (set_buf a p' st) b + (if b_next p = Some b then 1 else 0)"
proof (cases "b_next p = Some b")
  case True
  then have "a \<in> linkers st b" using assms by (auto simp: linkers_def)
  moreover have "linkers (set_buf a p' st) b = linkers st b - {a}" using assms by (simp add: linkers_set)
  ultimately show ?thesis
    using True assms(3) by (metis Suc_eq_plus1 bufs_finite card_Suc_Diff1)
next
  case False
  then have "a \<notin> linkers st b" using assms by (auto simp: linkers_def)
  then show ?thesis using False assms by (simp add: linkers_set)
qed

lemma buf_keeps_trans:
  assumes "buf_keeps b st st1" and "buf_keeps b st1 st2"
  shows "buf_keeps b st st2"
  unfolding buf_keeps_def
proof (intro allI impI conjI)
  fix x p assume x: "bufs st x = Some p"
  { assume "on_heap x \<and> b_ref_count p = 0 \<and> x \<noteq> b"
    with assms x show "bufs st2 x = Some p" unfolding buf_keeps_def by blast }
  { assume a: "\<not> on_heap x \<and> b_free_func p \<noteq> None"
    then obtain p1 where "bufs st1 x = Some p1" "b_free_func p1 = b_free_func p"
      using assms(1) x unfolding buf_keeps_def by blast
    with a assms(2) show "\<exists>p'. bufs st2 x = Some p' \<and> b_free_func p' = b_free_func p"
      unfolding buf_keeps_def by metis }
qed

lemma buf_invD:
  assumes "buf_inv users ok H st"
  shows "finite (dom (bufs st))" and "ok st" and "bufs st b = Some p \<Longrightarrow> buf_typed b p"
    and "int (users st b + count H b + links st b) \<le> refs st b"
  using assms by (simp_all add: buf_inv_def)

lemma buf_inv_held:
  assumes "buf_inv users ok H st" and "b \<in># H"
  shows "\<exists>p. bufs st b = Some p \<and> b_ref_count p > 0 \<and> int (users st b) < b_ref_count p"
proof -
  have "count H b \<ge> 1" using assms(2) by simp
  then have "refs st b \<ge> 1 + int (users st b)" using buf_invD(4) [OF assms(1), of b] by linarith
  then show ?thesis by (cases "bufs st b") (auto simp: refs_def)
qed

lemma buf_inv_mono: "buf_inv users ok H st \<Longrightarrow> H' \<subseteq># H \<Longrightarrow> buf_inv users ok H' st"
  by (auto simp: buf_inv_def subseteq_mset_def)
     (smt (verit, best) of_nat_mono)

text \<open>A packet that some live chain or some code refers to, beyond the users of the backend.\<close>

definition shared :: "('z buf_state \<Rightarrow> buf_ptr \<Rightarrow> nat) \<Rightarrow> 'z buf_state \<Rightarrow> buf_ptr \<Rightarrow> bool" where
  "shared users st b \<longleftrightarrow> (\<exists>p. bufs st b = Some p \<and> b_ref_count p > 0 \<and> int (users st b) < b_ref_count p)"

lemma buf_inv_cong:
  assumes "bufs st' = bufs st" and "users st' = users st" and "ok st' = ok st"
  shows "buf_inv users ok H st' = buf_inv users ok H st"
  using assms by (simp add: buf_inv_def refs_def linkers_def)

text \<open>
  What the code above a backend does with packets, besides dropping references and handing them to
  the backend: \<^verbatim>\<open>bte_buffer_ref\<close>, \<^verbatim>\<open>bte_buffer_append\<close>, \<^verbatim>\<open>bte_buffer_alloc_contiguous\<close> and the stores to the
  fields of a packet that it holds or that a chain it holds leads to. \<open>resize\<close> stands for the stores
  to \<^verbatim>\<open>total_size\<close> and \<^verbatim>\<open>size\<close> in \<^verbatim>\<open>bte_buffer_alloc\<close>, \<^verbatim>\<open>bte_buffer_shrink\<close> and \<^verbatim>\<open>bte_buffer_writer_end\<close>,
  which never make a packet longer. \<open>link\<close> is \<^verbatim>\<open>tail->next = buffer\<close> of \<^verbatim>\<open>bte_buffer_alloc\<close>: the reference
  moves to the chain. \<open>unlink\<close> is \<^verbatim>\<open>b->next = NULL\<close> of \<^verbatim>\<open>_bte_hci_send_queued_data\<close> and
  \<^verbatim>\<open>bte_acl_disconnected\<close>: the reference of the chain moves to the code, which has read \<^verbatim>\<open>b->next\<close>.
\<close>

definition linked :: "'z buf_state \<Rightarrow> buf_ptr \<Rightarrow> buf_ptr \<Rightarrow> bool" where
  "linked st a b \<longleftrightarrow> (\<exists>p. bufs st a = Some p \<and> b_next p = Some b)"

definition accessible :: "buf_ptr multiset \<Rightarrow> 'z buf_state \<Rightarrow> buf_ptr \<Rightarrow> bool" where
  "accessible H st b \<longleftrightarrow> (\<exists>h. h \<in># H \<and> (linked st)\<^sup>*\<^sup>* h b)"

inductive buf_edit :: "'z buf_state \<times> buf_ptr multiset \<Rightarrow> 'z buf_state \<times> buf_ptr multiset \<Rightarrow> bool" where
  ref: "accessible H st b \<Longrightarrow> buf_ref b st = Some st' \<Longrightarrow> buf_edit (st, H) (st', add_mset b H)"
| append: "h \<in># H \<Longrightarrow> b \<in># H \<Longrightarrow> buf_append h b st = Some st' \<Longrightarrow> buf_edit (st, H) (st', H)"
| alloc: "buf_alloc_contiguous junk a sz st = Some (b, st') \<Longrightarrow> buf_edit (st, H) (st', add_mset b H)"
| store: "accessible H st b \<Longrightarrow> bufs st b = Some p \<Longrightarrow> wr (b_data p) off bs = Some d \<Longrightarrow>
     buf_edit (st, H) (set_buf b (p\<lparr>b_data := d\<rparr>) st, H)"
| resize: "accessible H st b \<Longrightarrow> bufs st b = Some p \<Longrightarrow> sz \<le> b_size p \<Longrightarrow>
     buf_edit (st, H) (set_buf b (p\<lparr>b_total_size := tot, b_size := sz\<rparr>) st, H)"
| link: "accessible (add_mset n H) st b \<Longrightarrow> bufs st b = Some p \<Longrightarrow> b_next p = None \<Longrightarrow>
     buf_edit (st, add_mset n H) (set_buf b (p\<lparr>b_next := Some n\<rparr>) st, H)"
| unlink: "accessible H st b \<Longrightarrow> bufs st b = Some p \<Longrightarrow> b_next p = Some n \<Longrightarrow>
     buf_edit (st, H) (set_buf b (p\<lparr>b_next := None\<rparr>) st, add_mset n H)"

lemma held_accessible: "b \<in># H \<Longrightarrow> accessible H st b"
  by (auto simp: accessible_def)

lemma buf_edit_bufs:
  assumes "buf_edit c c'"
  shows "\<exists>m. fst c' = (fst c)\<lparr>bufs := m\<rparr>"
  using assms
proof cases
  case (append h H b st st')
  then show ?thesis by (auto simp: buf_append_def buf_ref_def Let_def split: bind_splits)
qed (auto simp: buf_ref_def buf_alloc_contiguous_def split: bind_splits if_splits)

lemma append_refs: "buf_append h b st = Some st' \<Longrightarrow> refs st x > 0 \<Longrightarrow> refs st' x > 0"
  by (auto simp: buf_append_def buf_ref_def refs_def Let_def split: bind_splits option.splits if_splits)

lemma buf_edit_refs:
  assumes "buf_edit c c'" and "refs (fst c) x > 0"
  shows "refs (fst c') x > 0"
  using assms(1)
proof cases
  case (append h H b st st')
  then show ?thesis using assms(2) append_refs by simp
qed (use assms(2) in \<open>auto simp: buf_ref_def buf_alloc_contiguous_def refs_def split: bind_splits option.splits if_splits\<close>)

section \<open>Dropping a reference\<close>

lemma count_list_remove1:
  "x \<in> set xs \<Longrightarrow> count_list (map f xs) y = count_list (map f (remove1 x xs)) y + (if f x = y then 1 else 0)"
  by (induction xs) auto

locale buffer_users =
  fixes users :: "'z buf_state \<Rightarrow> buf_ptr \<Rightarrow> nat"
    and ok :: "'z buf_state \<Rightarrow> bool"
  assumes users_bufs: "users (st\<lparr>bufs := m\<rparr>) = users st"
    and ok_set: "ok st \<Longrightarrow> bufs st b = Some p \<Longrightarrow> int (users st b) < b_ref_count p \<Longrightarrow>
       b_free_func p' = b_free_func p \<Longrightarrow> length (b_data p') = length (b_data p) \<Longrightarrow>
       ok (set_buf b p' st)"
    and ok_heap: "ok st \<Longrightarrow> on_heap b \<Longrightarrow> users st b = 0 \<Longrightarrow> ok (st\<lparr>bufs := (bufs st)(b := v)\<rparr>)"
begin

lemma set_inv:
  assumes inv: "buf_inv users ok H st" and b: "bufs st b = Some p" and more: "int (users st b) < b_ref_count p"
    and p': "b_free_func p' = b_free_func p" "length (b_data p') = length (b_data p)" "b_size p' \<le> b_size p"
    and ref: "b_ref_count p' \<ge> 0"
    and bound: "\<And>x. int (users st x + count H' x + links (set_buf b p' st) x)
                      \<le> (if x = b then b_ref_count p' else refs st x)"
  shows "buf_inv users ok H' (set_buf b p' st)"
  unfolding buf_inv_def
proof (intro conjI allI impI)
  show "finite (dom (bufs (set_buf b p' st)))" using buf_invD(1) [OF inv] by simp
  show "ok (set_buf b p' st)" using ok_set [OF buf_invD(2) [OF inv] b more] p' by simp
  fix x q assume "bufs (set_buf b p' st) x = Some q"
  then show "buf_typed x q"
    using buf_invD(3) [OF inv] b p' ref more unfolding buf_typed_def
    by (fastforce simp: word_le_nat_alt split: if_splits)
next
  fix x show "int (users (set_buf b p' st) x + count H' x + links (set_buf b p' st) x) \<le> refs (set_buf b p' st) x"
    using bound [of x] by (simp add: users_bufs)
qed

lemma held_shared: "buf_inv users ok H st \<Longrightarrow> b \<in># H \<Longrightarrow> shared users st b"
  using buf_inv_held by (fastforce simp: shared_def)

lemma ref_shared_inv:
  assumes "buf_inv users ok H st" and "shared users st b"
  shows "\<exists>st'. buf_ref b st = Some st' \<and> buf_inv users ok (add_mset b H) st' \<and> buf_keeps b st st'"
proof -
  obtain p where p: "bufs st b = Some p" "b_ref_count p > 0" "int (users st b) < b_ref_count p"
    using assms(2) by (auto simp: shared_def)
  let ?p = "p\<lparr>b_ref_count := b_ref_count p + 1\<rparr>"
  have l: "linkers (set_buf b ?p st) = linkers st" using p by (intro linkers_same) auto
  have ref: "refs st b = b_ref_count p" using p by (simp add: refs_def)
  have "buf_inv users ok (add_mset b H) (set_buf b ?p st)"
  proof (rule set_inv [OF assms(1) p(1,3)])
    fix x show "int (users st x + count (add_mset b H) x + links (set_buf b ?p st) x)
                  \<le> (if x = b then b_ref_count ?p else refs st x)"
      using buf_invD(4) [OF assms(1), of x] ref by (cases "x = b") (simp_all add: l)
  qed (use p(2) in auto)
  then show ?thesis using p by (auto simp: buf_ref_def buf_keeps_def)
qed

lemma ref_inv:
  assumes "buf_inv users ok H st" and "b \<in># H"
  shows "\<exists>st'. buf_ref b st = Some st' \<and> buf_inv users ok (add_mset b H) st' \<and> buf_keeps b st st'"
  using ref_shared_inv [OF assms(1) held_shared [OF assms]] .

text \<open>Changes to a packet in use that neither move references nor make it longer.\<close>

lemma touch_shared_inv:
  assumes inv: "buf_inv users ok H st" and "shared users st b" and b: "bufs st b = Some p"
    and p': "b_ref_count p' = b_ref_count p" "b_next p' = b_next p" "b_free_func p' = b_free_func p"
      "length (b_data p') = length (b_data p)" "b_size p' \<le> b_size p"
  shows "buf_inv users ok H (set_buf b p' st)"
proof -
  have r: "b_ref_count p > 0" "int (users st b) < b_ref_count p" using assms(2) b by (auto simp: shared_def)
  have l: "linkers (set_buf b p' st) = linkers st" using p' by (intro linkers_same [OF b]) auto
  show ?thesis
  proof (rule set_inv [OF inv b r(2)])
    fix x show "int (users st x + count H x + links (set_buf b p' st) x)
                  \<le> (if x = b then b_ref_count p' else refs st x)"
      using buf_invD(4) [OF inv, of x] b p'(1) by (auto simp: l refs_def)
  qed (use p' r in auto)
qed

lemma touch_inv:
  assumes "buf_inv users ok H st" and "b \<in># H" and "bufs st b = Some p"
    and "b_ref_count p' = b_ref_count p" "b_next p' = b_next p" "b_free_func p' = b_free_func p"
      "length (b_data p') = length (b_data p)" "b_size p' \<le> b_size p"
  shows "buf_inv users ok H (set_buf b p' st)"
  using touch_shared_inv [OF assms(1) held_shared [OF assms(1,2)] assms(3-8)] .

lemma shared_next:
  assumes "buf_inv users ok H st" and "shared users st b" and "bufs st b = Some p" and "b_next p = Some n"
  shows "shared users st n"
proof -
  have "b \<in> linkers st n" using assms by (auto simp: linkers_def shared_def)
  then have "links st n \<ge> 1" using buf_invD(1) [OF assms(1)]
    by (metis One_nat_def Suc_leI bufs_finite card_gt_0_iff empty_iff)
  then have "int (users st n) + 1 \<le> refs st n" using buf_invD(4) [OF assms(1), of n] by linarith
  then show ?thesis by (cases "bufs st n") (auto simp: shared_def refs_def)
qed

lemma tail_shared:
  assumes "buf_tail b st = Some t"
  shows "buf_inv users ok H st \<Longrightarrow> shared users st b \<Longrightarrow>
           shared users st t \<and> (\<exists>p. bufs st t = Some p \<and> b_next p = None)"
  using assms
proof (induction rule: buf_tail.raw_induct [rotated, consumes 1])
  case (1 f b st t)
  then obtain p where p: "bufs st b = Some p" by (cases "bufs st b") auto
  show ?case
  proof (cases "b_next p")
    case None
    then show ?thesis using 1 p by simp
  next
    case (Some n)
    then have "f n st = Some t" using "1"(2) p by simp
    then show ?thesis using "1"(1) [of n st t] shared_next [OF "1"(3,4) p Some] "1"(3) by blast
  qed
qed

lemma append_inv:
  assumes inv: "buf_inv users ok H st" and "h \<in># H" and "b \<in># H" and app: "buf_append h b st = Some st'"
  shows "buf_inv users ok H st'"
proof -
  obtain t st1 where t: "buf_tail h st = Some t" "buf_ref b st = Some st1"
    using app by (cases "buf_tail h st"; cases "buf_ref b st") (auto simp: buf_append_def)
  have "shared users st h" using buf_inv_held [OF inv assms(2)] by (simp add: shared_def)
  then obtain p where p: "bufs st t = Some p" "b_next p = None" and sh: "b_ref_count p > 0" "int (users st t) < b_ref_count p"
    using tail_shared [OF t(1) inv] by (auto simp: shared_def)
  have inv1: "buf_inv users ok (add_mset b H) st1" using ref_inv [OF inv assms(3)] t(2) by auto
  obtain p1 where p1: "bufs st1 t = Some p1" "b_next p1 = None" "b_ref_count p1 > 0" "int (users st1 t) < b_ref_count p1"
  proof (cases "b = t")
    case True
    then show ?thesis using t(2) p sh that by (auto simp: buf_ref_def users_bufs)
  next
    case False
    then show ?thesis using t(2) p sh that by (auto simp: buf_ref_def users_bufs split: bind_splits)
  qed
  let ?st2 = "set_buf t (p1\<lparr>b_next := Some b\<rparr>) st1"
  have inv2: "buf_inv users ok H ?st2"
  proof (rule set_inv [OF inv1 p1(1,4)])
    fix x
    have "links ?st2 x \<le> links st1 x + (if x = b then 1 else 0)"
      using p1 buf_invD(1) [OF inv1] by (simp add: linkers_set card_insert_if card_Diff_subset_Int)
    then show "int (users st1 x + count H x + links ?st2 x)
        \<le> (if x = t then b_ref_count (p1\<lparr>b_next := Some b\<rparr>) else refs st1 x)"
      using buf_invD(4) [OF inv1, of x] p1(1) by (auto simp: refs_def split: if_splits)
  qed (use p1 in auto)
  obtain ph pb where h: "bufs ?st2 h = Some ph" "bufs ?st2 b = Some pb"
      "st' = set_buf h (ph\<lparr>b_total_size := b_total_size ph + b_size pb\<rparr>) ?st2"
    using app t p1(1) by (auto simp: buf_append_def split: bind_splits)
  then show ?thesis using touch_inv [OF inv2 assms(2) h(1)] by simp
qed

lemma alloc_inv:
  assumes inv: "buf_inv users ok H st" and al: "buf_alloc_contiguous junk a sz st = Some (b, st')"
  shows "buf_inv users ok (add_mset b H) st'"
proof -
  have new: "bufs st (Heap a) = None" and b: "b = Heap a" and st': "st' = set_buf (Heap a)
             \<lparr>b_ref_count = 1, b_free_func = Some Bte_free, b_total_size = sz, b_size = sz,
              b_next = None, b_data = map junk [0..<unat sz]\<rparr> st"
    using al by (auto simp: buf_alloc_contiguous_def split: if_splits)
  have none: "users st (Heap a) = 0 \<and> count H (Heap a) = 0 \<and> links st (Heap a) = 0"
    using buf_invD(4) [OF inv, of "Heap a"] new by (simp add: refs_def)
  have l: "linkers st' x = linkers st x" for x using new by (auto simp: st' linkers_def)
  show ?thesis unfolding buf_inv_def
  proof (intro conjI allI impI)
    show "finite (dom (bufs st'))" using buf_invD(1) [OF inv] by (simp add: st')
    show "ok st'" using ok_heap [OF buf_invD(2) [OF inv], of "Heap a"] none by (simp add: st')
  next
    fix x q assume "bufs st' x = Some q"
    then show "buf_typed x q" using buf_invD(3) [OF inv] by (auto simp: st' buf_typed_def split: if_splits)
  next
    fix x show "int (users st' x + count (add_mset b H) x + links st' x) \<le> refs st' x"
      using buf_invD(4) [OF inv, of x] none by (auto simp: l b) (auto simp: st' users_bufs)
  qed
qed

lemma accessible_shared:
  assumes inv: "buf_inv users ok H st" and "accessible H st b"
  shows "shared users st b"
proof -
  obtain h where h: "h \<in># H" "(linked st)\<^sup>*\<^sup>* h b" using assms(2) by (auto simp: accessible_def)
  from h(2) show ?thesis
  proof induction
    case (step a b)
    then show ?case using shared_next [OF inv] by (auto simp: linked_def)
  qed (rule held_shared [OF inv h(1)])
qed

text \<open>A packet is linked behind another, or unlinked: the reference changes hands.\<close>

lemma link_inv:
  assumes inv: "buf_inv users ok (add_mset n H) st" and "shared users st b" and b: "bufs st b = Some p" "b_next p = None"
  shows "buf_inv users ok H (set_buf b (p\<lparr>b_next := Some n\<rparr>) st)" (is "buf_inv _ _ _ ?st1")
proof (rule set_inv [OF inv b(1)])
  fix x
  have "links ?st1 x \<le> links st x + (if x = n then 1 else 0)"
    using b buf_invD(1) [OF inv] by (auto simp: linkers_set card_insert_if card_Diff_subset_Int)
  then show "int (users st x + count H x + links ?st1 x) \<le> (if x = b then b_ref_count (p\<lparr>b_next := Some n\<rparr>) else refs st x)"
    using buf_invD(4) [OF inv, of x] b(1) by (auto simp: refs_def split: if_splits)
qed (use assms(2) b in \<open>auto simp: shared_def\<close>)

lemma unlink_inv:
  assumes inv: "buf_inv users ok H st" and sh: "shared users st b" and b: "bufs st b = Some p" "b_next p = Some n"
  shows "buf_inv users ok (add_mset n H) (set_buf b (p\<lparr>b_next := None\<rparr>) st)" (is "buf_inv _ _ _ ?st1")
proof (rule set_inv [OF inv b(1)])
  have "b \<in> linkers st n" using sh b by (auto simp: shared_def linkers_def)
  moreover have l: "linkers ?st1 x = linkers st x - {b}" for x by (simp add: linkers_set)
  ultimately have "links st n = links ?st1 n + 1"
    using buf_invD(1) [OF inv] by (metis Suc_eq_plus1 bufs_finite card_Suc_Diff1)
  moreover have "linkers ?st1 x = linkers st x" if "x \<noteq> n" for x using b that by (auto simp: linkers_set linkers_def)
  ultimately have "links st x = links ?st1 x + (if x = n then 1 else 0)" for x by simp
  then show "int (users st x + count (add_mset n H) x + links ?st1 x)
      \<le> (if x = b then b_ref_count (p\<lparr>b_next := None\<rparr>) else refs st x)" for x
    using buf_invD(4) [OF inv, of x] b(1) by (auto simp: refs_def split: if_splits)
qed (use sh b in \<open>auto simp: shared_def\<close>)

lemma edit_inv:
  assumes "buf_edit c c'" and inv: "buf_inv users ok (snd c + K) (fst c)"
  shows "buf_inv users ok (snd c' + K) (fst c')"
proof -
  have sh: "shared users st b" if "accessible H st b" "buf_inv users ok (H + K) st" for H b and st :: "'z buf_state"
    using that accessible_shared [of "H + K" st b] by (auto simp: accessible_def)
  from assms(1) show ?thesis
  proof cases
    case (ref H st b st')
    then show ?thesis using ref_shared_inv [of "H + K" st b] inv sh by auto
  next
    case (append h H b st st')
    then show ?thesis using append_inv [of "H + K" st h b st'] inv by auto
  next
    case (alloc junk a sz st b st' H)
    then show ?thesis using alloc_inv [of "H + K" st junk a sz b st'] inv by auto
  next
    case (store H st b p off bs d)
    then show ?thesis
      using touch_shared_inv [of "H + K" st b p "p\<lparr>b_data := d\<rparr>"] inv sh wr_len [of "b_data p" off bs d] by auto
  next
    case (resize H st b p sz tot)
    then show ?thesis using touch_shared_inv [of "H + K" st b p "p\<lparr>b_total_size := tot, b_size := sz\<rparr>"] inv sh by auto
  next
    case (link n H st b p)
    then show ?thesis using link_inv [of n "H + K" st b p] inv sh by auto
  next
    case (unlink H st b p n)
    then show ?thesis using unlink_inv [of "H + K" st b p n] inv sh by auto
  qed
qed

lemma free_inv:
  assumes inv: "buf_inv users ok H st" and b: "bufs st b = Some p" "b_ref_count p = 0" and h: "on_heap b"
  shows "\<exists>st'. buf_free b st = Some st' \<and> buf_inv users ok H st' \<and> buf_keeps b st st'"
proof -
  let ?st' = "st\<lparr>bufs := (bufs st)(b := None)\<rparr>"
  have none: "users st b = 0 \<and> count H b = 0"
    using buf_invD(4) [OF inv, of b] b by (simp add: refs_def)
  have l: "linkers ?st' x = linkers st x" for x using b by (auto simp: linkers_def)
  have "buf_inv users ok H ?st'" unfolding buf_inv_def
  proof (intro conjI allI impI)
    show "finite (dom (bufs ?st'))" using buf_invD(1) [OF inv] by simp
    show "ok ?st'" using ok_heap [OF buf_invD(2) [OF inv] h] none by simp
  next
    fix x q assume "bufs ?st' x = Some q"
    then show "buf_typed x q" using buf_invD(3) [OF inv] by (auto split: if_splits)
  next
    fix x show "int (users ?st' x + count H x + links ?st' x) \<le> refs ?st' x"
      using buf_invD(4) [OF inv, of x] b by (auto simp: l users_bufs refs_def)
  qed
  then show ?thesis using b h by (auto simp: buf_free_def buf_keeps_def)
qed

end

locale buffer_release = buffer_users users ok
  for users :: "'z buf_state \<Rightarrow> buf_ptr \<Rightarrow> nat" and ok :: "'z buf_state \<Rightarrow> bool" +
  fixes rel :: "'z release_func"
  assumes release: "buf_inv users ok H st \<Longrightarrow> bufs st b = Some p \<Longrightarrow>
       b_free_func p = Some (release_of b) \<Longrightarrow> (on_heap b \<Longrightarrow> b_ref_count p = 0) \<Longrightarrow>
       \<exists>st'. rel (release_of b) b st = Some st' \<and> buf_inv users ok H st' \<and> buf_keeps b st st'"
begin

text \<open>
  \<open>Q X st\<close> is any further property, \<open>X\<close> the packets whose count is 0 and whose release is still to come.
\<close>

lemma unref_inv_with:
  assumes "buf_inv users ok (add_mset b H) st" and "Q X st"
    and dead: "\<And>X st b p. Q X st \<Longrightarrow> b_ref_count p = 0 \<Longrightarrow> Q (insert b X) (set_buf b p st)"
    and live: "\<And>X st b p. Q X st \<Longrightarrow> b_ref_count p > 0 \<Longrightarrow> Q X (set_buf b p st)"
    and rel: "\<And>X H st b st'. buf_inv users ok H st \<Longrightarrow> rel (release_of b) b st = Some st' \<Longrightarrow> Q (insert b X) st \<Longrightarrow> Q X st'"
  shows "\<exists>st'. buf_unref rel b st = Some st' \<and> buf_inv users ok H st' \<and> buf_keeps b st st' \<and> Q X st'"
  using assms(1,2)
proof (induction "card {x. refs st x > 0}" arbitrary: b H X st rule: less_induct)
  case less
  obtain p where p: "bufs st b = Some p" "b_ref_count p > 0" "int (users st b) < b_ref_count p"
    using buf_inv_held [OF less.prems(1), of b] by auto
  let ?p = "p\<lparr>b_ref_count := b_ref_count p - 1\<rparr>" and ?st1 = "set_buf b (p\<lparr>b_ref_count := b_ref_count p - 1\<rparr>) st"
  have ref: "refs st b = b_ref_count p" using p by (simp add: refs_def)
  have ff: "b_free_func p = Some (release_of b)" using buf_invD(3) [OF less.prems(1) p(1)] p(2) by (simp add: buf_typed_def)
  note fin = buf_invD(1) [OF less.prems(1)]
  have keep1: "buf_keeps b st ?st1" using p by (auto simp: buf_keeps_def)
  show ?case
  proof (cases "b_ref_count p = 1")
    case False
    have l: "linkers ?st1 = linkers st" using p False by (intro linkers_same) auto
    have "buf_inv users ok H ?st1"
    proof (rule set_inv [OF less.prems(1) p(1,3)])
      fix x show "int (users st x + count H x + links ?st1 x) \<le> (if x = b then b_ref_count ?p else refs st x)"
        using buf_invD(4) [OF less.prems(1), of x] ref by (cases "x = b") (simp_all add: l)
    qed (use p(2) in auto)
    moreover have "Q X ?st1" using live [OF less.prems(2)] False p(2) by simp
    ultimately show ?thesis using False p keep1 by (subst buf_unref.simps) simp
  next
    case True
    let ?K = "case b_next p of None \<Rightarrow> {#} | Some n \<Rightarrow> {#n#}"
    have l: "links st x = links ?st1 x + count ?K x" for x
      using links_dead [OF p(1,2) fin, of ?p x] True by (auto split: option.splits)
    have inv1: "buf_inv users ok (H + ?K) ?st1"
    proof (rule set_inv [OF less.prems(1) p(1,3)])
      fix x show "int (users st x + count (H + ?K) x + links ?st1 x) \<le> (if x = b then b_ref_count ?p else refs st x)"
        using buf_invD(4) [OF less.prems(1), of x] ref True by (cases "x = b") (simp_all add: l)
    qed (use True in auto)
    have "{x. refs ?st1 x > 0} = {x. refs st x > 0} - {b}" using True by auto
    moreover have "b \<in> {x. refs st x > 0}" using ref p by simp
    moreover have "finite {x. refs st x > 0}"
      by (rule finite_subset [OF _ fin]) (auto simp: refs_def split: option.splits)
    ultimately have dec: "card {x. refs ?st1 x > 0} < card {x. refs st x > 0}"
      by (metis card_Diff1_less)
    have Q1: "Q (insert b X) ?st1" using dead [OF less.prems(2)] True by simp
    have "\<exists>st2. (case b_next p of Some n \<Rightarrow> buf_unref rel n ?st1 | None \<Rightarrow> Some ?st1) = Some st2 \<and>
        buf_inv users ok H st2 \<and> (\<forall>x q. bufs ?st1 x = Some q \<longrightarrow>
           (on_heap x \<and> b_ref_count q = 0 \<longrightarrow> bufs st2 x = Some q)) \<and> buf_keeps b ?st1 st2 \<and> Q (insert b X) st2"
    proof (cases "b_next p")
      case None
      then show ?thesis using inv1 Q1 by (auto simp: buf_keeps_def)
    next
      case (Some n)
      with inv1 have invn: "buf_inv users ok (add_mset n H) ?st1" by simp
      from less.hyps [OF dec this Q1] obtain st2 where st2: "buf_unref rel n ?st1 = Some st2"
        "buf_inv users ok H st2" "buf_keeps n ?st1 st2" "Q (insert b X) st2" by blast
      have "refs ?st1 n > 0" using buf_inv_held [OF invn, of n] by (auto simp: refs_def)
      then have h: "bufs ?st1 x = Some q \<Longrightarrow> on_heap x \<and> b_ref_count q = 0 \<Longrightarrow> bufs st2 x = Some q" for x q
        using st2(3) unfolding buf_keeps_def refs_def by (metis less_irrefl option.simps(5))
      with st2(3) have "buf_keeps b ?st1 st2" unfolding buf_keeps_def by blast
      with st2 Some h show ?thesis by simp
    qed
    then obtain st2 where st2: "(case b_next p of Some n \<Rightarrow> buf_unref rel n ?st1 | None \<Rightarrow> Some ?st1) = Some st2"
      "buf_inv users ok H st2" "\<And>x q. bufs ?st1 x = Some q \<Longrightarrow> on_heap x \<and> b_ref_count q = 0 \<Longrightarrow> bufs st2 x = Some q"
      "buf_keeps b ?st1 st2" "Q (insert b X) st2" by blast
    obtain p2 where p2: "bufs st2 b = Some p2" "b_free_func p2 = Some (release_of b)" "on_heap b \<Longrightarrow> b_ref_count p2 = 0"
    proof (cases "on_heap b")
      case True
      then show ?thesis using st2(3) [of b ?p] \<open>b_ref_count p = 1\<close> ff that by auto
    next
      case False
      moreover have "bufs ?st1 b = Some ?p" "b_free_func ?p \<noteq> None" using ff by simp_all
      ultimately obtain p2 where "bufs st2 b = Some p2" "b_free_func p2 = b_free_func ?p"
        using st2(4) unfolding buf_keeps_def by blast
      then show ?thesis using that False ff by simp
    qed
    from release [OF st2(2) this] obtain st' where st': "rel (release_of b) b st2 = Some st'"
      "buf_inv users ok H st'" "buf_keeps b st2 st'" by blast
    have "buf_unref rel b st = Some st'"
      using p(1) st2(1) p2(1,2) st'(1) by (subst buf_unref.simps) (simp add: Let_def True)
    then show ?thesis using st' keep1 st2(4) buf_keeps_trans rel [OF st2(2) st'(1) st2(5)] by blast
  qed
qed

lemma unref_inv:
  assumes "buf_inv users ok (add_mset b H) st"
  shows "\<exists>st'. buf_unref rel b st = Some st' \<and> buf_inv users ok H st' \<and> buf_keeps b st st'"
  using unref_inv_with [OF assms, of "\<lambda>X st. True" "{}"] by blast

end

end
