(* ===== verification/WiiBackend.thy ===== *)
theory WiiBackend
  imports BackendBuffer HciDev
begin

text \<open>
  The backend of the Nintendo Wii (\<^verbatim>\<open>backends/wii.c\<close>): two pools of packets that the USB
  controller fills, a queue of events between its interrupt handlers and the thread that runs the
  library, and the two reading chains, each of which submits its next read when one has completed,
  or raises a flag when its pool is exhausted.

  The functions of libogc are parameters, collected in \<open>wii_usb_env\<close>: what \<^verbatim>\<open>USB_...Async\<close> returns
  for the n-th submission, the message queue (an abstract state \<open>'q\<close>; \<^verbatim>\<open>MQ_TimedReceive\<close> is \<open>None\<close> when
  it sleeps for ever, and interrupts may come while it waits), and the memory arena. A
  submission is taken when it returns \<^verbatim>\<open>USB_OK\<close>; it is then in \<open>usb_requests\<close> until the controller
  completes it, which runs its callback. The layers above (\<^verbatim>\<open>_bte_hci_dev_handle_event\<close> and
  \<^verbatim>\<open>_bte_hci_dev_handle_data\<close>) are parameters too, functions on the whole state that may call the
  backend, be interrupted, and use the state \<open>upper\<close> of their own.
\<close>

section \<open>State\<close>

definition ENDPOINT_HCI_INTR :: int where "ENDPOINT_HCI_INTR = 0x81"
definition ENDPOINT_ACL_IN :: int where "ENDPOINT_ACL_IN = 0x82"
definition ENDPOINT_ACL_OUT :: int where "ENDPOINT_ACL_OUT = 0x02"

definition CTRL_BUF_SIZE :: nat where "CTRL_BUF_SIZE = 264"
definition ACL_BUF_SIZE :: nat where "ACL_BUF_SIZE = 352"
definition WII_MAX_EVENTS :: nat where "WII_MAX_EVENTS = 128"
definition WII_BUFFER_INTR_COUNT :: nat where "WII_BUFFER_INTR_COUNT = 16"
definition WII_BUFFER_DATA_COUNT :: nat where "WII_BUFFER_DATA_COUNT = 64"

definition USB_OK :: int where "USB_OK = 0"
definition EBADF :: int where "EBADF = 9"

lemmas wii_const = ENDPOINT_HCI_INTR_def ENDPOINT_ACL_IN_def ENDPOINT_ACL_OUT_def CTRL_BUF_SIZE_def ACL_BUF_SIZE_def
  WII_MAX_EVENTS_def WII_BUFFER_INTR_COUNT_def WII_BUFFER_DATA_COUNT_def

datatype wii_event_type = WII_EVENT_SENT | WII_EVENT_INTR | WII_EVENT_DATA

record wii_event =
  e_type :: wii_event_type
  e_buffer :: "buf_ptr option"

record wii_event_queue =
  events :: "wii_event list"
  current_index :: nat
  missed_events :: nat

text \<open>
  A transfer the controller works on: the packet it reads into or writes from and, for a read,
  the endpoint and the length, for a write, the bytes handed over.
\<close>

datatype usb_request =
    Read_intr int nat buf_ptr
  | Read_blk int nat buf_ptr
  | Write_ctrl buf_ptr mem
  | Write_blk int buf_ptr mem

record ('q, 's) wii = buf_mem +
  s_wii_event_queue :: wii_event_queue
  s_intr_request_failed :: bool
  s_bulk_request_failed :: bool
  s_bt_fd :: int
  s_event_mailbox :: u32
  usb_requests :: "usb_request list"
  usb_calls :: nat
  mq :: 'q
  upper :: 's

record ('q, 's) wii_usb_env =
  usb_initialize :: int
  usb_open_device :: "int \<times> int"
  usb_close_device :: "int \<Rightarrow> int"
  usb_submit :: "nat \<Rightarrow> usb_request \<Rightarrow> int"
  sys_alloc_arena_mem2 :: "nat \<Rightarrow> bool"
  mq_init :: "'q \<Rightarrow> u32 \<times> 'q"
  mq_send :: "u32 \<Rightarrow> 'q \<Rightarrow> 'q"
  mq_receive :: "u32 \<Rightarrow> 'q \<Rightarrow> bool \<times> 'q"
  mq_timed_receive :: "u32 \<Rightarrow> nat \<times> nat \<Rightarrow> ('q, 's) wii \<Rightarrow> (bool \<times> ('q, 's) wii) option"
  hci_handle_event :: "buf_ptr \<Rightarrow> ('q, 's) wii \<Rightarrow> ('q, 's) wii option"
  hci_handle_data :: "buf_ptr \<Rightarrow> ('q, 's) wii \<Rightarrow> ('q, 's) wii option"

text \<open>An asynchronous submission: on \<^verbatim>\<open>USB_OK\<close> the transfer is in progress.\<close>

definition usb_async :: "('q, 's) wii_usb_env \<Rightarrow> usb_request \<Rightarrow> ('q, 's) wii \<Rightarrow> int \<times> ('q, 's) wii" where
  "usb_async E r st =
     (let rc = usb_submit E (usb_calls st) r; st1 = st\<lparr>usb_calls := usb_calls st + 1\<rparr>
      in (rc, if rc = USB_OK then st1\<lparr>usb_requests := usb_requests st @ [r]\<rparr> else st1))"

section \<open>The pools\<close>

definition zero_buffer :: "nat \<Rightarrow> usb_buffer" where
  "zero_buffer n = \<lparr>b_ref_count = 0, b_free_func = None, b_total_size = 0, b_size = 0,
                    b_next = None, b_data = replicate n 0\<rparr>"

text \<open>\<^verbatim>\<open>alloc_usb_buffers\<close> for an array of \<open>n\<close> packets at \<open>at\<close>, with room for \<open>len\<close> bytes each.\<close>

definition alloc_usb_buffers ::
    "('q, 's) wii_usb_env \<Rightarrow> nat \<Rightarrow> (nat \<Rightarrow> buf_ptr) \<Rightarrow> nat \<Rightarrow> nat \<Rightarrow> ('q, 's) wii \<Rightarrow> bool \<times> ('q, 's) wii" where
  "alloc_usb_buffers E k at n len st =
     (if sys_alloc_arena_mem2 E k then
        (True, st\<lparr>bufs := (\<lambda>b. if b \<in> set (map at [0..<n]) then Some (zero_buffer len) else bufs st b)\<rparr>)
      else (False, st))"

definition pool_take :: "u16 \<Rightarrow> usb_buffer \<Rightarrow> usb_buffer" where
  "pool_take sz p = p\<lparr>b_ref_count := 1, b_free_func := Some Wii_buffer_free, b_total_size := sz,
                       b_size := sz, b_next := None\<rparr>"

text \<open>
  The loops of \<^verbatim>\<open>wii_buffer_intr_alloc\<close> and \<^verbatim>\<open>wii_buffer_data_alloc\<close> over the addresses of the
  pool; the inner result is \<^verbatim>\<open>NULL\<close> when every packet is in use. A pool that was not allocated is
  a null pointer, and looking at its first packet is \<open>None\<close>.
\<close>

fun pool_alloc :: "buf_ptr list \<Rightarrow> u16 \<Rightarrow> ('q, 's) wii \<Rightarrow> (buf_ptr option \<times> ('q, 's) wii) option" where
  "pool_alloc [] sz st = Some (None, st)"
| "pool_alloc (b # bs) sz st =
     do { p \<leftarrow> bufs st b;
          if b_ref_count p = 0 then Some (Some b, set_buf b (pool_take sz p) st)
          else pool_alloc bs sz st }"

definition wii_buffer_intr_alloc :: "u16 \<Rightarrow> ('q, 's) wii \<Rightarrow> (buf_ptr option \<times> ('q, 's) wii) option" where
  "wii_buffer_intr_alloc sz st = pool_alloc (map Intr [0..<WII_BUFFER_INTR_COUNT]) sz st"

definition wii_buffer_data_alloc :: "u16 \<Rightarrow> ('q, 's) wii \<Rightarrow> (buf_ptr option \<times> ('q, 's) wii) option" where
  "wii_buffer_data_alloc sz st = pool_alloc (map Data [0..<WII_BUFFER_DATA_COUNT]) sz st"

section \<open>The reading chains\<close>

definition wii_read_intr :: "('q, 's) wii_usb_env \<Rightarrow> ('q, 's) wii \<Rightarrow> (int \<times> ('q, 's) wii) option" where
  "wii_read_intr E st =
     (if s_bt_fd st < 0 then Some (- EBADF, st) else
      do { let len = of_nat CTRL_BUF_SIZE;
           (buf, st1) \<leftarrow> wii_buffer_intr_alloc len st;
           case buf of None \<Rightarrow> Some (- ENOMEM, st1\<lparr>s_intr_request_failed := True\<rparr>)
           | Some b \<Rightarrow>
               do { ptr \<leftarrow> buf_contiguous_data b len st1;
                    d \<leftarrow> ptr;
                    Some (usb_async E (Read_intr ENDPOINT_HCI_INTR (unat len) d) st1) } })"

definition wii_read_bulk :: "('q, 's) wii_usb_env \<Rightarrow> ('q, 's) wii \<Rightarrow> (int \<times> ('q, 's) wii) option" where
  "wii_read_bulk E st =
     (if s_bt_fd st < 0 then Some (- EBADF, st) else
      do { let len = of_nat ACL_BUF_SIZE;
           (buf, st1) \<leftarrow> wii_buffer_data_alloc len st;
           case buf of None \<Rightarrow> Some (- ENOMEM, st1\<lparr>s_bulk_request_failed := True\<rparr>)
           | Some b \<Rightarrow>
               do { ptr \<leftarrow> buf_contiguous_data b len st1;
                    d \<leftarrow> ptr;
                    Some (usb_async E (Read_blk ENDPOINT_ACL_IN (unat len) d) st1) } })"

definition wii_buffer_free :: "('q, 's) wii_usb_env \<Rightarrow> buf_ptr \<Rightarrow> ('q, 's) wii \<Rightarrow> ('q, 's) wii option" where
  "wii_buffer_free E buffer st =
     (if s_intr_request_failed st then
        map_option snd (wii_read_intr E (st\<lparr>s_intr_request_failed := False\<rparr>))
      else if s_bulk_request_failed st then
        map_option snd (wii_read_bulk E (st\<lparr>s_bulk_request_failed := False\<rparr>))
      else Some st)"

text \<open>The call through \<^verbatim>\<open>free_func\<close>, and \<^verbatim>\<open>bte_buffer_unref\<close> with it.\<close>

fun wii_release :: "('q, 's) wii_usb_env \<Rightarrow> free_func \<Rightarrow> buf_ptr \<Rightarrow> ('q, 's) wii \<Rightarrow> ('q, 's) wii option" where
  "wii_release E Wii_buffer_free b st = wii_buffer_free E b st"
| "wii_release E Bte_free b st = buf_free b st"

definition wii_unref :: "('q, 's) wii_usb_env \<Rightarrow> buf_ptr \<Rightarrow> ('q, 's) wii \<Rightarrow> ('q, 's) wii option" where
  "wii_unref E b st = buf_unref (wii_release E) b st"

definition queue_event ::
    "('q, 's) wii_usb_env \<Rightarrow> wii_event_type \<Rightarrow> buf_ptr \<Rightarrow> ('q, 's) wii \<Rightarrow> ('q, 's) wii option" where
  "queue_event E ty b st =
     (let q = s_wii_event_queue st in
      if current_index q \<ge> WII_MAX_EVENTS then
        Some (st\<lparr>s_wii_event_queue := q\<lparr>missed_events := missed_events q + 1\<rparr>\<rparr>)
      else if current_index q \<ge> length (events q) then None
      else Some (st\<lparr>s_wii_event_queue :=
                      q\<lparr>events := (events q)[current_index q := \<lparr>e_type = ty, e_buffer = Some b\<rparr>],
                        current_index := current_index q + 1\<rparr>,
                    mq := mq_send E (s_event_mailbox st) (mq st)\<rparr>))"

text \<open>The result of a transfer is an \<^verbatim>\<open>s32\<close>, converted to the \<^verbatim>\<open>uint16_t\<close> of \<^verbatim>\<open>bte_buffer_shrink\<close>.\<close>

definition wii_read_intr_cb ::
    "('q, 's) wii_usb_env \<Rightarrow> int \<Rightarrow> buf_ptr \<Rightarrow> ('q, 's) wii \<Rightarrow> (int \<times> ('q, 's) wii) option" where
  "wii_read_intr_cb E result buf st =
     do { st1 \<leftarrow> (if result > 0 then
                    do { st1 \<leftarrow> buf_shrink buf (word_of_int result) st;
                         queue_event E WII_EVENT_INTR buf st1 }
                  else wii_unref E buf st);
          wii_read_intr E st1 }"

definition wii_read_bulk_cb ::
    "('q, 's) wii_usb_env \<Rightarrow> int \<Rightarrow> buf_ptr \<Rightarrow> ('q, 's) wii \<Rightarrow> (int \<times> ('q, 's) wii) option" where
  "wii_read_bulk_cb E result buf st =
     do { st1 \<leftarrow> (if result > 0 then
                    do { st1 \<leftarrow> buf_shrink buf (word_of_int result) st;
                         queue_event E WII_EVENT_DATA buf st1 }
                  else wii_unref E buf st);
          wii_read_bulk E st1 }"

section \<open>The operations of the backend\<close>

text \<open>The static variables when the program starts.\<close>

definition wii_boot :: "'q \<Rightarrow> 's \<Rightarrow> ('q, 's) wii" where
  "wii_boot q u =
     \<lparr>bufs = Map.empty,
      s_wii_event_queue = \<lparr>events = replicate WII_MAX_EVENTS \<lparr>e_type = WII_EVENT_SENT, e_buffer = None\<rparr>,
                           current_index = 0, missed_events = 0\<rparr>,
      s_intr_request_failed = False, s_bulk_request_failed = False, s_bt_fd = -1,
      s_event_mailbox = 0xFFFFFFFF, usb_requests = [], usb_calls = 0, mq = q, upper = u\<rparr>"

definition wii_backend_init :: "('q, 's) wii_usb_env \<Rightarrow> ('q, 's) wii \<Rightarrow> (int \<times> ('q, 's) wii) option" where
  "wii_backend_init E st =
     (if usb_initialize E \<noteq> USB_OK then Some (- 1, st) else
      case usb_open_device E of (rc, fd) \<Rightarrow>
      let st1 = st\<lparr>s_bt_fd := fd\<rparr> in
      if rc \<noteq> USB_OK then Some (- 1, st1) else
      case mq_init E (mq st1) of (mbox, q) \<Rightarrow>
      let st2 = st1\<lparr>s_event_mailbox := mbox, mq := q\<rparr> in
      case alloc_usb_buffers E 0 Intr WII_BUFFER_INTR_COUNT CTRL_BUF_SIZE st2 of (ok_intr, st3) \<Rightarrow>
      case alloc_usb_buffers E 1 Data WII_BUFFER_DATA_COUNT ACL_BUF_SIZE st3 of (ok_data, st4) \<Rightarrow>
      if \<not> ok_intr \<or> \<not> ok_data then Some (- ENOMEM, st4) else
      do { (_, st5) \<leftarrow> wii_read_intr E st4;
           (_, st6) \<leftarrow> wii_read_bulk E st5;
           Some (0, st6) })"

text \<open>The loop of \<^verbatim>\<open>process_event_queue\<close> over its copy of the queue.\<close>

fun process_events :: "('q, 's) wii_usb_env \<Rightarrow> wii_event list \<Rightarrow> ('q, 's) wii \<Rightarrow> ('q, 's) wii option" where
  "process_events E [] st = Some st"
| "process_events E (e # es) st =
     do { b \<leftarrow> e_buffer e;
          st1 \<leftarrow> (case e_type e of
                     WII_EVENT_INTR \<Rightarrow> hci_handle_event E b st
                   | WII_EVENT_DATA \<Rightarrow> hci_handle_data E b st
                   | WII_EVENT_SENT \<Rightarrow> Some st);
          st2 \<leftarrow> wii_unref E b st1;
          process_events E es st2 }"

definition wii_take_queue :: "('q, 's) wii \<Rightarrow> wii_event_queue \<times> ('q, 's) wii" where
  "wii_take_queue st =
     (s_wii_event_queue st,
      st\<lparr>s_wii_event_queue := (s_wii_event_queue st)\<lparr>current_index := 0, missed_events := 0\<rparr>\<rparr>)"

definition process_event_queue :: "('q, 's) wii_usb_env \<Rightarrow> ('q, 's) wii \<Rightarrow> (int \<times> ('q, 's) wii) option" where
  "process_event_queue E st =
     (case wii_take_queue st of (queue, st1) \<Rightarrow>
      if current_index queue > length (events queue) then None else
      do { st2 \<leftarrow> process_events E (take (current_index queue) (events queue)) st1;
           Some (int (current_index queue), st2) })"

text \<open>The loop that empties the mailbox; it ends when \<^verbatim>\<open>MQ_Receive\<close> finds nothing.\<close>

partial_function (option) mq_drain ::
    "('q, 's) wii_usb_env \<Rightarrow> bool \<Rightarrow> ('q, 's) wii \<Rightarrow> (bool \<times> ('q, 's) wii) option" where
  "mq_drain E has_events st =
     (case mq_receive E (s_event_mailbox st) (mq st) of (got, q) \<Rightarrow>
      if got then mq_drain E True (st\<lparr>mq := q\<rparr>) else Some (has_events, st\<lparr>mq := q\<rparr>))"

definition wii_handle_events ::
    "('q, 's) wii_usb_env \<Rightarrow> bool \<Rightarrow> u32 \<Rightarrow> ('q, 's) wii \<Rightarrow> (int \<times> ('q, 's) wii) option" where
  "wii_handle_events E wait_for_events timeout_us st =
     do { (has_events, st1) \<leftarrow> mq_drain E False st;
          if \<not> has_events \<and> wait_for_events then
            (let ts = (unat timeout_us div 1000000, unat timeout_us mod 1000000 * 1000) in
             do { (got, st2) \<leftarrow> mq_timed_receive E (s_event_mailbox st1) ts st1;
                  if \<not> got then Some (0, st2) else process_event_queue E st2 })
          else process_event_queue E st1 }"

definition wii_hci_send_command_cb ::
    "('q, 's) wii_usb_env \<Rightarrow> int \<Rightarrow> buf_ptr \<Rightarrow> ('q, 's) wii \<Rightarrow> (int \<times> ('q, 's) wii) option" where
  "wii_hci_send_command_cb E result buf st =
     do { st1 \<leftarrow> queue_event E WII_EVENT_SENT buf st; Some (result, st1) }"

definition wii_hci_send_command ::
    "('q, 's) wii_usb_env \<Rightarrow> buf_ptr \<Rightarrow> ('q, 's) wii \<Rightarrow> (int \<times> ('q, 's) wii) option" where
  "wii_hci_send_command E buf st =
     (if s_bt_fd st < 0 then Some (- EBADF, st) else
      do { p \<leftarrow> bufs st buf;
           if b_total_size p = b_size p then
             do { st1 \<leftarrow> buf_ref buf st;
                  sent \<leftarrow> slice (b_data p) 0 (unat (b_size p));
                  let (rc, st2) = usb_async E (Write_ctrl buf sent) st1;
                  if rc \<noteq> USB_OK then do { st3 \<leftarrow> wii_unref E buf st2; Some (- EIO, st3) }
                  else Some (rc, st2) }
           else Some (- ENOMEM, st) })"

definition wii_hci_send_data_cb ::
    "('q, 's) wii_usb_env \<Rightarrow> int \<Rightarrow> buf_ptr \<Rightarrow> ('q, 's) wii \<Rightarrow> (int \<times> ('q, 's) wii) option" where
  "wii_hci_send_data_cb E result buf st = do { st1 \<leftarrow> wii_unref E buf st; Some (result, st1) }"

definition wii_hci_send_data ::
    "('q, 's) wii_usb_env \<Rightarrow> buf_ptr \<Rightarrow> ('q, 's) wii \<Rightarrow> (int \<times> ('q, 's) wii) option" where
  "wii_hci_send_data E buf st =
     (if s_bt_fd st < 0 then Some (- EBADF, st) else
      do { st1 \<leftarrow> buf_ref buf st;
           p \<leftarrow> bufs st1 buf;
           sent \<leftarrow> slice (b_data p) 0 (unat (b_size p));
           let (rc, st2) = usb_async E (Write_blk ENDPOINT_ACL_OUT buf sent) st1;
           if rc \<noteq> USB_OK then do { st3 \<leftarrow> wii_unref E buf st2; Some (- EIO, st3) }
           else Some (rc, st2) })"

definition wii_deinit :: "('q, 's) wii_usb_env \<Rightarrow> ('q, 's) wii \<Rightarrow> (int \<times> ('q, 's) wii) option" where
  "wii_deinit E st = Some (0, st\<lparr>s_bt_fd := usb_close_device E (s_bt_fd st)\<rparr>)"

definition bte_backend_wii_set_mailbox :: "u32 \<Rightarrow> ('q, 's) wii \<Rightarrow> ('q, 's) wii" where
  "bte_backend_wii_set_mailbox mailbox st = st\<lparr>s_event_mailbox := mailbox\<rparr>"

definition bte_backend_wii_process_events :: "('q, 's) wii_usb_env \<Rightarrow> ('q, 's) wii \<Rightarrow> (int \<times> ('q, 's) wii) option" where
  "bte_backend_wii_process_events E st = process_event_queue E st"

definition wii_backend :: "('q, 's) wii_usb_env \<Rightarrow> ('q, 's) wii bte_backend" where
  "wii_backend E =
     \<lparr>bk_init = wii_backend_init E, bk_handle_events = wii_handle_events E,
      bk_hci_send_command = wii_hci_send_command E, bk_hci_send_data = wii_hci_send_data E,
      bk_deinit = wii_deinit E\<rparr>"

section \<open>What the controller does\<close>

text \<open>
  A completed transfer leaves the list of transfers in progress and its callback runs. A read has
  written \<open>bs\<close> to the packet, no more than the length it was submitted with, and reports how much;
  a failed transfer reports a number that is not positive.
\<close>

definition usb_deliver :: "buf_ptr \<Rightarrow> mem \<Rightarrow> ('q, 's) wii \<Rightarrow> ('q, 's) wii option" where
  "usb_deliver b bs st = do { p \<leftarrow> bufs st b; d \<leftarrow> wr (b_data p) 0 bs; Some (set_buf b (p\<lparr>b_data := d\<rparr>) st) }"

definition usb_finish :: "usb_request \<Rightarrow> ('q, 's) wii \<Rightarrow> ('q, 's) wii" where
  "usb_finish r st = st\<lparr>usb_requests := remove1 r (usb_requests st)\<rparr>"

fun wii_complete ::
    "('q, 's) wii_usb_env \<Rightarrow> usb_request \<Rightarrow> mem + int \<Rightarrow> ('q, 's) wii \<Rightarrow> (int \<times> ('q, 's) wii) option" where
  "wii_complete E (Read_intr ep len b) (Inl bs) st =
     do { st1 \<leftarrow> usb_deliver b bs (usb_finish (Read_intr ep len b) st);
          wii_read_intr_cb E (int (length bs)) b st1 }"
| "wii_complete E (Read_intr ep len b) (Inr rc) st =
     wii_read_intr_cb E rc b (usb_finish (Read_intr ep len b) st)"
| "wii_complete E (Read_blk ep len b) (Inl bs) st =
     do { st1 \<leftarrow> usb_deliver b bs (usb_finish (Read_blk ep len b) st);
          wii_read_bulk_cb E (int (length bs)) b st1 }"
| "wii_complete E (Read_blk ep len b) (Inr rc) st =
     wii_read_bulk_cb E rc b (usb_finish (Read_blk ep len b) st)"
| "wii_complete E (Write_ctrl b sent) res st =
     wii_hci_send_command_cb E (case res of Inl bs \<Rightarrow> int (length sent) | Inr rc \<Rightarrow> rc) b
       (usb_finish (Write_ctrl b sent) st)"
| "wii_complete E (Write_blk ep b sent) res st =
     wii_hci_send_data_cb E (case res of Inl bs \<Rightarrow> int (length sent) | Inr rc \<Rightarrow> rc) b
       (usb_finish (Write_blk ep b sent) st)"

text \<open>The results documented for a transfer.\<close>

fun usb_result_ok :: "usb_request \<Rightarrow> mem + int \<Rightarrow> bool" where
  "usb_result_ok (Read_intr ep len b) (Inl bs) = (length bs \<le> len)"
| "usb_result_ok (Read_blk ep len b) (Inl bs) = (length bs \<le> len)"
| "usb_result_ok _ (Inl bs) = True"
| "usb_result_ok _ (Inr rc) = (rc \<le> 0)"

end
