(* ===== verification/WiiQueue.thy ===== *)
theory WiiQueue
  imports WiiBackend
begin

text \<open>
  The Wii backend at work: the accounting of the packets of the two pools, what the interrupt
  handlers and the thread may do in any order (\<open>wii_step\<close>), and the properties of all the states
  they reach.
\<close>

section \<open>Who uses a packet\<close>

fun req_buf :: "usb_request \<Rightarrow> buf_ptr" where
  "req_buf (Read_intr ep len b) = b"
| "req_buf (Read_blk ep len b) = b"
| "req_buf (Write_ctrl b sent) = b"
| "req_buf (Write_blk ep b sent) = b"

fun is_read :: "usb_request \<Rightarrow> bool" where
  "is_read (Read_intr ep len b) = True"
| "is_read (Read_blk ep len b) = True"
| "is_read _ = False"

abbreviation queued :: "('q, 's) wii \<Rightarrow> wii_event list" where
  "queued st \<equiv> take (current_index (s_wii_event_queue st)) (events (s_wii_event_queue st))"

definition wii_users :: "('q, 's) wii \<Rightarrow> buf_ptr \<Rightarrow> nat" where
  "wii_users st b = count_list (map req_buf (usb_requests st)) b + count_list (map e_buffer (queued st)) (Some b)"

text \<open>The packets that incoming data is in: being read, or queued.\<close>

definition in_flight :: "('q, 's) wii \<Rightarrow> buf_ptr list" where
  "in_flight st = map req_buf (filter is_read (usb_requests st)) @
     map (the \<circ> e_buffer) (filter (\<lambda>e. e_type e \<noteq> WII_EVENT_SENT) (queued st))"

definition intr_pool :: "buf_ptr list" where
  "intr_pool = map Intr [0..<WII_BUFFER_INTR_COUNT]"

definition data_pool :: "buf_ptr list" where
  "data_pool = map Data [0..<WII_BUFFER_DATA_COUNT]"

definition read_ok :: "('q, 's) wii \<Rightarrow> usb_request \<Rightarrow> bool" where
  "read_ok st r \<longleftrightarrow> (\<exists>p. bufs st (req_buf r) = Some p \<and> b_ref_count p = 1 \<and> b_next p = None \<and>
     ((\<exists>b \<in> set intr_pool. r = Read_intr ENDPOINT_HCI_INTR CTRL_BUF_SIZE b \<and> unat (b_size p) = CTRL_BUF_SIZE) \<or>
     (\<exists>b \<in> set data_pool. r = Read_blk ENDPOINT_ACL_IN ACL_BUF_SIZE b \<and> unat (b_size p) = ACL_BUF_SIZE)))"

definition pool_ok :: "('q, 's) wii \<Rightarrow> bool" where
  "pool_ok st \<longleftrightarrow> (\<forall>b \<in> set intr_pool. \<exists>p. bufs st b = Some p \<and> length (b_data p) = CTRL_BUF_SIZE) \<and>
     (\<forall>b \<in> set data_pool. \<exists>p. bufs st b = Some p \<and> length (b_data p) = ACL_BUF_SIZE)"

definition queue_ok :: "('q, 's) wii \<Rightarrow> bool" where
  "queue_ok st \<longleftrightarrow> length (events (s_wii_event_queue st)) = WII_MAX_EVENTS \<and>
     current_index (s_wii_event_queue st) \<le> WII_MAX_EVENTS \<and> (\<forall>e \<in> set (queued st). e_buffer e \<noteq> None) \<and>
     distinct (in_flight st) \<and> set (in_flight st) \<subseteq> set intr_pool \<union> set data_pool"

definition wii_ok :: "('q, 's) wii \<Rightarrow> bool" where
  "wii_ok st \<longleftrightarrow> pool_ok st \<and> queue_ok st \<and> (\<forall>r \<in> set (usb_requests st). is_read r \<longrightarrow> read_ok st r)"

abbreviation wii_inv :: "buf_ptr multiset \<Rightarrow> ('q, 's) wii \<Rightarrow> bool" where
  "wii_inv \<equiv> buf_inv wii_users wii_ok"

lemma pool_not_heap [simp]: "b \<in> set intr_pool \<Longrightarrow> \<not> on_heap b" "b \<in> set data_pool \<Longrightarrow> \<not> on_heap b"
  by (auto simp: intr_pool_def data_pool_def)

lemma pool_release [simp]:
  "b \<in> set intr_pool \<Longrightarrow> release_of b = Wii_buffer_free" "b \<in> set data_pool \<Longrightarrow> release_of b = Wii_buffer_free"
  by (auto simp: intr_pool_def data_pool_def)

lemma users_request: "r \<in> set (usb_requests st) \<Longrightarrow> wii_users st (req_buf r) \<ge> 1"
  using count_list_0_iff [of "map req_buf (usb_requests st)" "req_buf r"] by (fastforce simp: wii_users_def)

lemma users_queued: "e \<in> set (queued st) \<Longrightarrow> e_buffer e = Some b \<Longrightarrow> wii_users st b \<ge> 1"
  using count_list_0_iff [of "map e_buffer (queued st)" "Some b"] by (force simp: wii_users_def)

interpretation wii_use: buffer_users wii_users wii_ok
proof unfold_locales
  fix st :: "('q, 's) wii" and m show "wii_users (st\<lparr>bufs := m\<rparr>) = wii_users st"
    by (simp add: wii_users_def fun_eq_iff)
next
  fix st :: "('q, 's) wii" and b and p p' :: usb_buffer
  assume ok: "wii_ok st" and b: "bufs st b = Some p" and more: "int (wii_users st b) < b_ref_count p"
    and same: "b_free_func p' = b_free_func p" "length (b_data p') = length (b_data p)"
  have "read_ok (set_buf b p' st) r" if r: "r \<in> set (usb_requests st)" "is_read r" for r
  proof -
    have "read_ok st r" using ok r by (simp add: wii_ok_def)
    moreover have "req_buf r \<noteq> b" using users_request [OF r(1)] more b \<open>read_ok st r\<close> by (auto simp: read_ok_def)
    ultimately show ?thesis by (auto simp: read_ok_def)
  qed
  moreover have "pool_ok (set_buf b p' st)"
    using ok b same by (fastforce simp: wii_ok_def pool_ok_def)
  ultimately show "wii_ok (set_buf b p' st)" using ok by (simp add: wii_ok_def queue_ok_def in_flight_def)
next
  fix st :: "('q, 's) wii" and b v
  assume ok: "wii_ok st" and h: "on_heap b"
  have "read_ok (st\<lparr>bufs := (bufs st)(b := v)\<rparr>) r" if r: "r \<in> set (usb_requests st)" "is_read r" for r
  proof -
    have r': "read_ok st r" using ok r by (simp add: wii_ok_def)
    then have "\<not> on_heap (req_buf r)" by (auto simp: read_ok_def)
    then have "req_buf r \<noteq> b" using h by auto
    then show ?thesis using r' by (auto simp: read_ok_def)
  qed
  moreover have "pool_ok (st\<lparr>bufs := (bufs st)(b := v)\<rparr>)"
    using ok h by (auto simp: wii_ok_def pool_ok_def dest: pool_not_heap)
  ultimately show "wii_ok (st\<lparr>bufs := (bufs st)(b := v)\<rparr>)" using ok by (simp add: wii_ok_def queue_ok_def in_flight_def)
qed

section \<open>Starting a read\<close>

lemma wii_users_simps [simp]:
  "wii_users (st\<lparr>s_intr_request_failed := f\<rparr>) = wii_users st"
  "wii_users (st\<lparr>s_bulk_request_failed := f\<rparr>) = wii_users st"
  "wii_users (st\<lparr>usb_calls := n\<rparr>) = wii_users st"
  "wii_users (st\<lparr>mq := q\<rparr>) = wii_users st"
  "wii_users (st\<lparr>s_event_mailbox := x\<rparr>) = wii_users st"
  "wii_users (st\<lparr>s_bt_fd := fd\<rparr>) = wii_users st"
  "wii_users (st\<lparr>upper := u\<rparr>) = wii_users st"
  "wii_users (st\<lparr>bufs := m\<rparr>) = wii_users st"
  by (simp_all add: wii_users_def fun_eq_iff)

lemma wii_ok_simps [simp]:
  "wii_ok (st\<lparr>s_intr_request_failed := f\<rparr>) = wii_ok st"
  "wii_ok (st\<lparr>s_bulk_request_failed := f\<rparr>) = wii_ok st"
  "wii_ok (st\<lparr>usb_calls := n\<rparr>) = wii_ok st"
  "wii_ok (st\<lparr>mq := q\<rparr>) = wii_ok st"
  "wii_ok (st\<lparr>s_event_mailbox := x\<rparr>) = wii_ok st"
  "wii_ok (st\<lparr>s_bt_fd := fd\<rparr>) = wii_ok st"
  "wii_ok (st\<lparr>upper := u\<rparr>) = wii_ok st"
  by (simp_all add: wii_ok_def pool_ok_def queue_ok_def in_flight_def read_ok_def)

lemma wii_inv_simps [simp]:
  "wii_inv H (st\<lparr>s_intr_request_failed := f\<rparr>) = wii_inv H st"
  "wii_inv H (st\<lparr>s_bulk_request_failed := f\<rparr>) = wii_inv H st"
  "wii_inv H (st\<lparr>usb_calls := n\<rparr>) = wii_inv H st"
  "wii_inv H (st\<lparr>mq := q\<rparr>) = wii_inv H st"
  "wii_inv H (st\<lparr>s_event_mailbox := x\<rparr>) = wii_inv H st"
  "wii_inv H (st\<lparr>s_bt_fd := fd\<rparr>) = wii_inv H st"
  "wii_inv H (st\<lparr>upper := u\<rparr>) = wii_inv H st"
  by (rule buf_inv_cong; simp)+

lemma pool_alloc_cases:
  assumes "\<forall>b \<in> set bs. bufs st b \<noteq> None"
  shows "(pool_alloc bs sz st = Some (None, st) \<and> (\<forall>b \<in> set bs. refs st b \<noteq> 0)) \<or>
     (\<exists>b p. b \<in> set bs \<and> bufs st b = Some p \<and> b_ref_count p = 0 \<and>
            pool_alloc bs sz st = Some (Some b, set_buf b (pool_take sz p) st))"
  using assms
proof (induction bs)
  case (Cons a bs)
  then obtain p where p: "bufs st a = Some p" by auto
  show ?case
  proof (cases "b_ref_count p = 0")
    case True
    then show ?thesis using p by (intro disjI2 exI [of _ a] exI [of _ p]) (simp add: fun_upd_def)
  next
    case False
    then show ?thesis using p Cons by (auto simp: refs_def)
  qed
qed simp

text \<open>
  A free packet of a pool is taken and a read into it is submitted. If the submission is refused
  the packet has a reference that nobody accounts for, which \<open>wii_inv (add_mset b H)\<close> says.
\<close>

lemma pool_take_inv:
  assumes inv: "wii_inv H st" and b: "bufs st b = Some p" "b_ref_count p = 0"
    and pool: "b \<in> set intr_pool \<union> set data_pool" and len: "unat sz \<le> length (b_data p)"
  shows "wii_inv (add_mset b H) (set_buf b (pool_take sz p) st)" (is "wii_inv _ ?st1")
    and "wii_users st b = 0" and "count H b = 0"
proof -
  have none: "wii_users st b = 0 \<and> count H b = 0 \<and> links st b = 0"
    using buf_invD(4) [OF inv, of b] b by (simp add: refs_def)
  then show "wii_users st b = 0" and "count H b = 0" by simp_all
  have l: "linkers ?st1 x = linkers st x" for x using b by (auto simp: linkers_def pool_take_def)
  have "read_ok ?st1 r" if r: "r \<in> set (usb_requests st)" "is_read r" for r
  proof -
    have "req_buf r \<noteq> b" using users_request [OF r(1)] none by auto
    moreover have "read_ok st r" using buf_invD(2) [OF inv] r by (simp add: wii_ok_def)
    ultimately show ?thesis by (auto simp: read_ok_def)
  qed
  moreover have "pool_ok ?st1" using buf_invD(2) [OF inv] b by (fastforce simp: wii_ok_def pool_ok_def pool_take_def)
  ultimately have ok: "wii_ok ?st1" using buf_invD(2) [OF inv] by (simp add: wii_ok_def queue_ok_def in_flight_def)
  have rel: "release_of b = Wii_buffer_free" using pool by auto
  show "wii_inv (add_mset b H) ?st1" unfolding buf_inv_def
  proof (intro conjI allI impI)
    show "finite (dom (bufs ?st1))" using buf_invD(1) [OF inv] by simp
    show "wii_ok ?st1" by (rule ok)
  next
    fix x q assume "bufs ?st1 x = Some q"
    then show "buf_typed x q" using buf_invD(3) [OF inv] len rel
      by (auto simp: buf_typed_def pool_take_def split: if_splits)
  next
    fix x show "int (wii_users ?st1 x + count (add_mset b H) x + links ?st1 x) \<le> refs ?st1 x"
      using buf_invD(4) [OF inv, of x] none by (auto simp: l) (simp_all add: pool_take_def)
  qed
qed

lemma read_submitted_inv:
  assumes inv: "wii_inv (add_mset b H) st" and r: "is_read r" "req_buf r = b" and rok: "read_ok st r"
    and none: "wii_users st b = 0"
  shows "wii_inv H (st\<lparr>usb_requests := usb_requests st @ [r]\<rparr>)" (is "wii_inv _ ?st1")
proof -
  have users: "wii_users ?st1 x = wii_users st x + (if x = b then 1 else 0)" for x
    using r by (simp add: wii_users_def)
  have new: "b \<notin> set (in_flight st)"
  proof
    assume "b \<in> set (in_flight st)"
    then consider q where "q \<in> set (usb_requests st)" "req_buf q = b"
      | e where "e \<in> set (queued st)" "b = the (e_buffer e)" by (auto simp: in_flight_def)
    then show False
    proof cases
      case 1
      then show ?thesis using users_request none by fastforce
    next
      case 2
      then have "e_buffer e = Some b" using buf_invD(2) [OF inv] by (auto simp: wii_ok_def queue_ok_def)
      then show ?thesis using users_queued [OF 2(1)] none by fastforce
    qed
  qed
  have ok: "wii_ok ?st1"
    unfolding wii_ok_def
  proof (intro conjI ballI impI)
    show "pool_ok ?st1" using buf_invD(2) [OF inv] by (simp add: wii_ok_def pool_ok_def)
    show "queue_ok ?st1" using buf_invD(2) [OF inv] new r rok
      by (auto simp: wii_ok_def queue_ok_def in_flight_def read_ok_def)
    fix q assume "q \<in> set (usb_requests ?st1)" "is_read q"
    then show "read_ok ?st1 q" using buf_invD(2) [OF inv] rok by (auto simp: wii_ok_def read_ok_def)
  qed
  show ?thesis unfolding buf_inv_def
  proof (intro conjI allI impI)
    show "finite (dom (bufs ?st1))" using buf_invD(1) [OF inv] by simp
    show "wii_ok ?st1" by (rule ok)
  next
    fix x q assume "bufs ?st1 x = Some q"
    then show "buf_typed x q" using buf_invD(3) [OF inv] by simp
  next
    fix x show "int (wii_users ?st1 x + count H x + links ?st1 x) \<le> refs ?st1 x"
      using buf_invD(4) [OF inv, of x] by (auto simp: users) (simp_all add: refs_def linkers_def)
  qed
qed

text \<open>
  \<^verbatim>\<open>read_intr\<close> and \<^verbatim>\<open>read_bulk\<close> alike: \<open>bs\<close> is the pool, \<open>mk\<close> the request and \<open>flag\<close> what is done when
  no packet is free.
\<close>

lemma pool_inv:
  assumes "wii_inv H st"
  shows "b \<in> set intr_pool \<Longrightarrow> \<exists>p. bufs st b = Some p \<and> length (b_data p) = CTRL_BUF_SIZE"
    and "b \<in> set data_pool \<Longrightarrow> \<exists>p. bufs st b = Some p \<and> length (b_data p) = ACL_BUF_SIZE"
  using buf_invD(2) [OF assms] by (simp_all add: wii_ok_def pool_ok_def)

lemma pool_take_keeps:
  assumes "wii_inv H st" and "bufs st b = Some p" and "b \<in> set intr_pool \<union> set data_pool"
  shows "buf_keeps x st (set_buf b (pool_take sz p) st)"
proof -
  have "b_free_func p \<in> {None, Some Wii_buffer_free}" "\<not> on_heap b"
    using buf_invD(3) [OF assms(1,2)] assms(3) by (auto simp: buf_typed_def)
  then show ?thesis using assms(2) by (auto simp: buf_keeps_def pool_take_def)
qed

lemma buf_keeps_bufs: "bufs st2 = bufs st1 \<Longrightarrow> buf_keeps x st st2 = buf_keeps x st st1"
  by (simp add: buf_keeps_def)

lemma async_inv:
  assumes inv: "wii_inv H st" and b: "bufs st b = Some p" "b_ref_count p = 0"
    and pool: "b \<in> set intr_pool \<union> set data_pool" and len: "unat sz = length (b_data p)"
    and r: "req_buf r = b"
      "r = Read_intr ENDPOINT_HCI_INTR CTRL_BUF_SIZE b \<and> b \<in> set intr_pool \<and> unat sz = CTRL_BUF_SIZE \<or>
       r = Read_blk ENDPOINT_ACL_IN ACL_BUF_SIZE b \<and> b \<in> set data_pool \<and> unat sz = ACL_BUF_SIZE"
  shows "wii_inv H (snd (usb_async E r (set_buf b (pool_take sz p) st)))"
    and "buf_keeps x st (snd (usb_async E r (set_buf b (pool_take sz p) st)))"
proof -
  let ?st1 = "set_buf b (pool_take sz p) st"
  note t = pool_take_inv [OF inv b pool, of sz]
  have inv1: "wii_inv (add_mset b H) ?st1" using t(1) len by simp
  have "read_ok (?st1\<lparr>usb_calls := Suc (usb_calls st)\<rparr>) r"
    using r by (auto simp: read_ok_def pool_take_def)
  moreover have "is_read r" using r by (metis is_read.simps(1,2))
  ultimately have "wii_inv H (?st1\<lparr>usb_calls := Suc (usb_calls st), usb_requests := usb_requests st @ [r]\<rparr>)"
    using read_submitted_inv [of b H "?st1\<lparr>usb_calls := Suc (usb_calls st)\<rparr>" r] inv1 r t(2) len by auto
  moreover have "wii_inv H (?st1\<lparr>usb_calls := Suc (usb_calls st)\<rparr>)"
    using buf_inv_mono [OF inv1, of H] by simp
  ultimately show "wii_inv H (snd (usb_async E r ?st1))" by (simp add: usb_async_def Let_def)
  show "buf_keeps x st (snd (usb_async E r ?st1))"
    using pool_take_keeps [OF inv b(1) pool] by (simp add: usb_async_def Let_def buf_keeps_bufs [of _ ?st1])
qed

lemma read_intr_cases:
  assumes inv: "wii_inv H st"
  shows "wii_read_intr E st = Some (- EBADF, st) \<and> s_bt_fd st < 0 \<or>
     s_bt_fd st \<ge> 0 \<and> (\<forall>b \<in> set intr_pool. refs st b \<noteq> 0) \<and>
       wii_read_intr E st = Some (- ENOMEM, st\<lparr>s_intr_request_failed := True\<rparr>) \<or>
     s_bt_fd st \<ge> 0 \<and> (\<exists>b p. b \<in> set intr_pool \<and> bufs st b = Some p \<and> b_ref_count p = 0 \<and>
       wii_read_intr E st = Some (usb_async E (Read_intr ENDPOINT_HCI_INTR CTRL_BUF_SIZE b)
                                    (set_buf b (pool_take (of_nat CTRL_BUF_SIZE) p) st)))"
proof (cases "s_bt_fd st < 0")
  case True
  then show ?thesis by (simp add: wii_read_intr_def)
next
  case False
  have "\<forall>b \<in> set intr_pool. bufs st b \<noteq> None" using pool_inv(1) [OF inv] by fastforce
  from pool_alloc_cases [OF this, of "of_nat CTRL_BUF_SIZE"] show ?thesis
  proof (elim disjE exE conjE)
    assume "pool_alloc intr_pool (of_nat CTRL_BUF_SIZE) st = Some (None, st)" "\<forall>b \<in> set intr_pool. refs st b \<noteq> 0"
    then show ?thesis using False by (simp add: wii_read_intr_def wii_buffer_intr_alloc_def flip: intr_pool_def)
  next
    fix b p
    assume "b \<in> set intr_pool" "bufs st b = Some p" "b_ref_count p = 0"
      "pool_alloc intr_pool (of_nat CTRL_BUF_SIZE) st = Some (Some b, set_buf b (pool_take (of_nat CTRL_BUF_SIZE) p) st)"
    then show ?thesis using False
      by (intro disjI2 conjI exI [of _ b] exI [of _ p])
         (simp_all add: wii_read_intr_def wii_buffer_intr_alloc_def buf_contiguous_data_def pool_take_def
            CTRL_BUF_SIZE_def flip: intr_pool_def)
  qed
qed

lemma read_bulk_cases:
  assumes inv: "wii_inv H st"
  shows "wii_read_bulk E st = Some (- EBADF, st) \<and> s_bt_fd st < 0 \<or>
     s_bt_fd st \<ge> 0 \<and> (\<forall>b \<in> set data_pool. refs st b \<noteq> 0) \<and>
       wii_read_bulk E st = Some (- ENOMEM, st\<lparr>s_bulk_request_failed := True\<rparr>) \<or>
     s_bt_fd st \<ge> 0 \<and> (\<exists>b p. b \<in> set data_pool \<and> bufs st b = Some p \<and> b_ref_count p = 0 \<and>
       wii_read_bulk E st = Some (usb_async E (Read_blk ENDPOINT_ACL_IN ACL_BUF_SIZE b)
                                    (set_buf b (pool_take (of_nat ACL_BUF_SIZE) p) st)))"
proof (cases "s_bt_fd st < 0")
  case True
  then show ?thesis by (simp add: wii_read_bulk_def)
next
  case False
  have "\<forall>b \<in> set data_pool. bufs st b \<noteq> None" using pool_inv(2) [OF inv] by fastforce
  from pool_alloc_cases [OF this, of "of_nat ACL_BUF_SIZE"] show ?thesis
  proof (elim disjE exE conjE)
    assume "pool_alloc data_pool (of_nat ACL_BUF_SIZE) st = Some (None, st)" "\<forall>b \<in> set data_pool. refs st b \<noteq> 0"
    then show ?thesis using False by (simp add: wii_read_bulk_def wii_buffer_data_alloc_def flip: data_pool_def)
  next
    fix b p
    assume "b \<in> set data_pool" "bufs st b = Some p" "b_ref_count p = 0"
      "pool_alloc data_pool (of_nat ACL_BUF_SIZE) st = Some (Some b, set_buf b (pool_take (of_nat ACL_BUF_SIZE) p) st)"
    then show ?thesis using False
      by (intro disjI2 conjI exI [of _ b] exI [of _ p])
         (simp_all add: wii_read_bulk_def wii_buffer_data_alloc_def buf_contiguous_data_def pool_take_def
            ACL_BUF_SIZE_def flip: data_pool_def)
  qed
qed

lemma read_intr_inv:
  assumes inv: "wii_inv H st"
  shows "\<exists>rc st'. wii_read_intr E st = Some (rc, st') \<and> wii_inv H st' \<and> buf_keeps x st st'"
  using read_intr_cases [OF inv, of E]
proof (elim disjE conjE exE)
  fix b p assume b: "b \<in> set intr_pool" "bufs st b = Some p" "b_ref_count p = 0"
    and eq: "wii_read_intr E st = Some (usb_async E (Read_intr ENDPOINT_HCI_INTR CTRL_BUF_SIZE b)
                                    (set_buf b (pool_take (of_nat CTRL_BUF_SIZE) p) st))"
  have "unat (of_nat CTRL_BUF_SIZE :: u16) = length (b_data p)" "unat (of_nat CTRL_BUF_SIZE :: u16) = CTRL_BUF_SIZE"
    using pool_inv(1) [OF inv b(1)] b by (auto simp: CTRL_BUF_SIZE_def)
  then show ?thesis
    using async_inv [OF inv b(2,3), of "of_nat CTRL_BUF_SIZE" "Read_intr ENDPOINT_HCI_INTR CTRL_BUF_SIZE b"] b eq
    by (metis UnI1 prod.collapse req_buf.simps(1))
qed (use inv in \<open>auto simp: buf_keeps_def\<close>)

lemma read_bulk_inv:
  assumes inv: "wii_inv H st"
  shows "\<exists>rc st'. wii_read_bulk E st = Some (rc, st') \<and> wii_inv H st' \<and> buf_keeps x st st'"
  using read_bulk_cases [OF inv, of E]
proof (elim disjE conjE exE)
  fix b p assume b: "b \<in> set data_pool" "bufs st b = Some p" "b_ref_count p = 0"
    and eq: "wii_read_bulk E st = Some (usb_async E (Read_blk ENDPOINT_ACL_IN ACL_BUF_SIZE b)
                                    (set_buf b (pool_take (of_nat ACL_BUF_SIZE) p) st))"
  have "unat (of_nat ACL_BUF_SIZE :: u16) = length (b_data p)" "unat (of_nat ACL_BUF_SIZE :: u16) = ACL_BUF_SIZE"
    using pool_inv(2) [OF inv b(1)] b by (auto simp: ACL_BUF_SIZE_def)
  then show ?thesis
    using async_inv [OF inv b(2,3), of "of_nat ACL_BUF_SIZE" "Read_blk ENDPOINT_ACL_IN ACL_BUF_SIZE b"] b eq
    by (metis UnI2 prod.collapse req_buf.simps(2))
qed (use inv in \<open>auto simp: buf_keeps_def\<close>)

interpretation wii_rel: buffer_release wii_users wii_ok "wii_release E" for E :: "('q, 's) wii_usb_env"
proof unfold_locales
  fix H and st :: "('q, 's) wii" and b p
  assume inv: "wii_inv H st" and b: "bufs st b = Some p" "b_free_func p = Some (release_of b)"
    and h: "on_heap b \<Longrightarrow> b_ref_count p = 0"
  show "\<exists>st'. wii_release E (release_of b) b st = Some st' \<and> wii_inv H st' \<and> buf_keeps b st st'"
  proof (cases "on_heap b")
    case True
    then obtain a where "b = Heap a" by (cases b) auto
    then show ?thesis using wii_use.free_inv [OF inv b(1) h] by simp
  next
    case False
    then have "wii_release E (release_of b) b st = wii_buffer_free E b st" by (cases b) auto
    moreover have "\<exists>st'. wii_buffer_free E b st = Some st' \<and> wii_inv H st' \<and> buf_keeps b st st'"
      using read_intr_inv [of H "st\<lparr>s_intr_request_failed := False\<rparr>" E b] inv
        read_bulk_inv [of H "st\<lparr>s_bulk_request_failed := False\<rparr>" E b]
      by (auto simp: wii_buffer_free_def buf_keeps_def)
    ultimately show ?thesis by simp
  qed
qed

lemma wii_unref_inv:
  assumes "wii_inv (add_mset b H) st"
  shows "\<exists>st'. wii_unref E b st = Some st' \<and> wii_inv H st'"
  using wii_rel.unref_inv [OF assms] by (auto simp: wii_unref_def)

section \<open>Completed transfers\<close>

lemma distinct_map_remove1: "distinct (map f xs) \<Longrightarrow> distinct (map f (remove1 x xs))"
  by (metis distinct_map distinct_remove1 inj_on_subset set_remove1_subset)

text \<open>A finished transfer hands its reference to the callback.\<close>

lemma finish_inv:
  assumes inv: "wii_inv H st" and r: "r \<in> set (usb_requests st)"
  shows "wii_inv (add_mset (req_buf r) H) (usb_finish r st)" (is "wii_inv _ ?st1")
proof -
  have users: "wii_users st x = wii_users ?st1 x + (if req_buf r = x then 1 else 0)" for x
    using count_list_remove1 [OF r, of req_buf x] by (simp add: wii_users_def usb_finish_def)
  have sub: "set (usb_requests ?st1) \<subseteq> set (usb_requests st)" by (simp add: usb_finish_def set_remove1_subset)
  have sub_fl: "set (in_flight ?st1) \<subseteq> set (in_flight st)"
    using sub by (auto simp: in_flight_def usb_finish_def)
  have sub_rd: "set (map req_buf (filter is_read (remove1 r (usb_requests st)))) \<subseteq> set (map req_buf (filter is_read (usb_requests st)))"
    using sub by (auto simp: usb_finish_def)
  have "distinct (map req_buf (filter is_read (usb_requests st))) \<Longrightarrow>
      distinct (map req_buf (filter is_read (remove1 r (usb_requests st))))"
    by (simp add: filter_remove1 distinct_map_remove1)
  moreover have fl: "in_flight ?st1 = map req_buf (filter is_read (remove1 r (usb_requests st))) @
      map (the \<circ> e_buffer) (filter (\<lambda>e. e_type e \<noteq> WII_EVENT_SENT) (queued st))"
    by (simp add: in_flight_def usb_finish_def)
  ultimately have "distinct (in_flight st) \<Longrightarrow> distinct (in_flight ?st1)"
    unfolding fl in_flight_def [of st] distinct_append using sub_rd by blast
  then have "wii_ok ?st1"
    using buf_invD(2) [OF inv] sub sub_fl by (auto simp: wii_ok_def queue_ok_def pool_ok_def read_ok_def usb_finish_def)
  moreover have "int (wii_users ?st1 x + count (add_mset (req_buf r) H) x + links ?st1 x) \<le> refs ?st1 x" for x
    using buf_invD(4) [OF inv, of x] by (auto simp: users) (simp_all add: refs_def linkers_def usb_finish_def)
  ultimately show ?thesis using inv by (auto simp: buf_inv_def usb_finish_def)
qed

lemma finish_flight:
  assumes inv: "wii_inv H st" and r: "r \<in> set (usb_requests st)" "is_read r"
  shows "req_buf r \<notin> set (in_flight (usb_finish r st))"
proof -
  have d: "distinct (in_flight st)" using buf_invD(2) [OF inv] by (simp add: wii_ok_def queue_ok_def)
  obtain xs ys where split: "filter is_read (usb_requests st) = xs @ r # ys" "r \<notin> set xs"
    using r split_list_first [of r "filter is_read (usb_requests st)"] by auto
  then have "filter is_read (remove1 r (usb_requests st)) = xs @ ys"
    using r by (simp add: filter_remove1 remove1_append)
  then show ?thesis using d split by (auto simp: in_flight_def usb_finish_def)
qed

lemma queue_event_inv:
  assumes inv: "wii_inv (add_mset b H) st"
    and new: "ty = WII_EVENT_SENT \<or> b \<notin> set (in_flight st) \<and> b \<in> set intr_pool \<union> set data_pool"
  shows "\<exists>st'. queue_event E ty b st = Some st' \<and> wii_inv H st' \<and> bufs st' = bufs st"
proof -
  let ?q = "s_wii_event_queue st" and ?e = "\<lparr>e_type = ty, e_buffer = Some b\<rparr>"
  have ok: "wii_ok st" using buf_invD(2) [OF inv] .
  then have q: "length (events ?q) = WII_MAX_EVENTS" "current_index ?q \<le> WII_MAX_EVENTS"
    by (simp_all add: wii_ok_def queue_ok_def)
  show ?thesis
  proof (cases "current_index ?q \<ge> WII_MAX_EVENTS")
    case True
    let ?st1 = "st\<lparr>s_wii_event_queue := ?q\<lparr>missed_events := missed_events ?q + 1\<rparr>\<rparr>"
    have "wii_inv H ?st1 = wii_inv H st"
      by (rule buf_inv_cong) (simp_all add: wii_users_def fun_eq_iff wii_ok_def pool_ok_def queue_ok_def in_flight_def read_ok_def)
    then have "wii_inv H ?st1" using buf_inv_mono [OF inv, of H] by simp
    then show ?thesis using True by (simp add: queue_event_def Let_def)
  next
    case False
    let ?st1 = "st\<lparr>s_wii_event_queue := ?q\<lparr>events := (events ?q)[current_index ?q := ?e],
        current_index := current_index ?q + 1\<rparr>, mq := mq_send E (s_event_mailbox st) (mq st)\<rparr>"
    have qd: "queued ?st1 = queued st @ [?e]" using False q by (simp add: take_Suc_conv_app_nth)
    have users: "wii_users ?st1 x = wii_users st x + (if x = b then 1 else 0)" for x
      unfolding wii_users_def qd by simp
    have fl: "in_flight ?st1 = in_flight st @ (if ty = WII_EVENT_SENT then [] else [b])"
      unfolding in_flight_def qd by simp
    have "queue_ok ?st1"
      using ok new False q unfolding queue_ok_def fl qd by (auto simp: wii_ok_def queue_ok_def)
    then have "wii_ok ?st1" using ok by (simp add: wii_ok_def pool_ok_def read_ok_def)
    moreover have "int (wii_users ?st1 x + count H x + links ?st1 x) \<le> refs ?st1 x" for x
      using buf_invD(4) [OF inv, of x] by (simp only: users) (auto simp: refs_def linkers_def split: if_splits)
    ultimately have "wii_inv H ?st1" using inv unfolding buf_inv_def by auto
    then show ?thesis using False q by (auto simp: queue_event_def Let_def)
  qed
qed

text \<open>
  The part of \<^verbatim>\<open>read_intr_cb\<close> and \<^verbatim>\<open>read_bulk_cb\<close> before the next read.
\<close>

definition read_cb :: "('q, 's) wii_usb_env \<Rightarrow> wii_event_type \<Rightarrow> int \<Rightarrow> buf_ptr \<Rightarrow> ('q, 's) wii \<Rightarrow> ('q, 's) wii option" where
  "read_cb E ty result buf st =
     (if result > 0 then do { st1 \<leftarrow> buf_shrink buf (word_of_int result) st; queue_event E ty buf st1 }
      else wii_unref E buf st)"

lemma read_cb_inv:
  assumes inv: "wii_inv (add_mset b H) st" and p: "bufs st b = Some p" "b_next p = None"
    and new: "b \<notin> set (in_flight st)" "b \<in> set intr_pool \<union> set data_pool"
  shows "\<exists>st'. read_cb E ty result b st = Some st' \<and> wii_inv H st'"
proof (cases "result > 0")
  case True
  let ?st1 = "set_buf b (p\<lparr>b_total_size := word_of_int result, b_size := min (b_size p) (word_of_int result)\<rparr>) st"
  have "wii_inv (add_mset b H) ?st1"
    by (rule wii_use.touch_inv [OF inv _ p(1)]) simp_all
  then show ?thesis
    using queue_event_inv [of b H ?st1 ty E] new True
    by (auto simp: read_cb_def shrink_alone [OF p] in_flight_def)
next
  case False
  then show ?thesis using wii_unref_inv [OF inv, of E] by (simp add: read_cb_def)
qed

lemma deliver_inv:
  assumes inv: "wii_inv (add_mset b H) st" and p: "bufs st b = Some p" and len: "length bs \<le> length (b_data p)"
  shows "\<exists>p'. usb_deliver b bs st = Some (set_buf b p' st) \<and> wii_inv (add_mset b H) (set_buf b p' st) \<and>
           b_next p' = b_next p"
  using wii_use.touch_inv [OF inv _ p, of "p\<lparr>b_data := bs @ drop (length bs) (b_data p)\<rparr>"] len p
  by (intro exI [of _ "p\<lparr>b_data := bs @ drop (length bs) (b_data p)\<rparr>"]) (simp add: usb_deliver_def wr_def fun_upd_def)

lemma read_complete_inv:
  assumes inv: "wii_inv H st" and r: "r \<in> set (usb_requests st)" "is_read r" "req_buf r = b"
    and len: "case res of Inl bs \<Rightarrow> length bs \<le> (if b \<in> set intr_pool then CTRL_BUF_SIZE else ACL_BUF_SIZE) | Inr rc \<Rightarrow> True"
  shows "\<exists>st'. (case res of Inl bs \<Rightarrow> usb_deliver b bs (usb_finish r st) \<bind> read_cb E ty (int (length bs)) b
               | Inr rc \<Rightarrow> read_cb E ty rc b (usb_finish r st)) = Some st' \<and> wii_inv H st'"
proof -
  let ?st1 = "usb_finish r st"
  have "read_ok st r" using buf_invD(2) [OF inv] r by (simp add: wii_ok_def)
  then obtain p where p: "bufs ?st1 b = Some p" "b_next p = None" and pool: "b \<in> set intr_pool \<union> set data_pool"
    using r by (auto simp: read_ok_def usb_finish_def)
  have inv1: "wii_inv (add_mset b H) ?st1" and new: "b \<notin> set (in_flight ?st1)"
    using finish_inv [OF inv r(1)] finish_flight [OF inv r(1,2)] r(3) by simp_all
  have "length (b_data p) = (if b \<in> set intr_pool then CTRL_BUF_SIZE else ACL_BUF_SIZE)"
    using pool_inv [OF inv1, of b] p(1) pool by auto
  show ?thesis
  proof (cases res)
    case (Inl bs)
    then obtain p' where p': "usb_deliver b bs ?st1 = Some (set_buf b p' ?st1)" "wii_inv (add_mset b H) (set_buf b p' ?st1)"
        "b_next p' = b_next p"
      using deliver_inv [OF inv1 p(1), of bs] len \<open>length (b_data p) = _\<close> by auto
    then show ?thesis
      using read_cb_inv [OF p'(2), of p' E ty "int (length bs)"] p new pool Inl by (auto simp: in_flight_def)
  next
    case (Inr rc)
    then show ?thesis using read_cb_inv [OF inv1 p new pool] by simp
  qed
qed

lemma complete_read_eq:
  "wii_complete E (Read_intr ep len b) res st =
     (case res of Inl bs \<Rightarrow> usb_deliver b bs (usb_finish (Read_intr ep len b) st) \<bind> read_cb E WII_EVENT_INTR (int (length bs)) b
      | Inr rc \<Rightarrow> read_cb E WII_EVENT_INTR rc b (usb_finish (Read_intr ep len b) st)) \<bind> wii_read_intr E"
  "wii_complete E (Read_blk ep len b) res st =
     (case res of Inl bs \<Rightarrow> usb_deliver b bs (usb_finish (Read_blk ep len b) st) \<bind> read_cb E WII_EVENT_DATA (int (length bs)) b
      | Inr rc \<Rightarrow> read_cb E WII_EVENT_DATA rc b (usb_finish (Read_blk ep len b) st)) \<bind> wii_read_bulk E"
proof -
  have eq: "wii_read_intr_cb E rc b = (\<lambda>st. read_cb E WII_EVENT_INTR rc b st \<bind> wii_read_intr E)"
      "wii_read_bulk_cb E rc b = (\<lambda>st. read_cb E WII_EVENT_DATA rc b st \<bind> wii_read_bulk E)" for rc
    by (rule ext, simp only: wii_read_intr_cb_def wii_read_bulk_cb_def read_cb_def)+
  show "wii_complete E (Read_intr ep len b) res st =
     (case res of Inl bs \<Rightarrow> usb_deliver b bs (usb_finish (Read_intr ep len b) st) \<bind> read_cb E WII_EVENT_INTR (int (length bs)) b
      | Inr rc \<Rightarrow> read_cb E WII_EVENT_INTR rc b (usb_finish (Read_intr ep len b) st)) \<bind> wii_read_intr E"
    by (cases res) (simp_all add: eq)
  show "wii_complete E (Read_blk ep len b) res st =
     (case res of Inl bs \<Rightarrow> usb_deliver b bs (usb_finish (Read_blk ep len b) st) \<bind> read_cb E WII_EVENT_DATA (int (length bs)) b
      | Inr rc \<Rightarrow> read_cb E WII_EVENT_DATA rc b (usb_finish (Read_blk ep len b) st)) \<bind> wii_read_bulk E"
    by (cases res) (simp_all add: eq)
qed

lemma complete_inv:
  assumes inv: "wii_inv H st" and r: "r \<in> set (usb_requests st)" and res: "usb_result_ok r res"
  shows "\<exists>rc st'. wii_complete E r res st = Some (rc, st') \<and> wii_inv H st'"
proof (cases r)
  case (Read_intr ep len b)
  then have "read_ok st r" using buf_invD(2) [OF inv] r by (simp add: wii_ok_def)
  then have b: "b \<in> set intr_pool" "len = CTRL_BUF_SIZE" using Read_intr by (auto simp: read_ok_def)
  then have "case res of Inl bs \<Rightarrow> length bs \<le> (if b \<in> set intr_pool then CTRL_BUF_SIZE else ACL_BUF_SIZE) | Inr rc \<Rightarrow> True"
    using res Read_intr by (cases res) auto
  then obtain st1 where "(case res of Inl bs \<Rightarrow> usb_deliver b bs (usb_finish r st) \<bind> read_cb E WII_EVENT_INTR (int (length bs)) b
      | Inr rc \<Rightarrow> read_cb E WII_EVENT_INTR rc b (usb_finish r st)) = Some st1" "wii_inv H st1"
    using read_complete_inv [OF inv r, of b res E WII_EVENT_INTR] Read_intr by auto
  then show ?thesis using read_intr_inv [of H st1 E b] Read_intr by (auto simp: complete_read_eq)
next
  case (Read_blk ep len b)
  then have "read_ok st r" using buf_invD(2) [OF inv] r by (simp add: wii_ok_def)
  then have b: "b \<in> set data_pool" "len = ACL_BUF_SIZE" using Read_blk by (auto simp: read_ok_def)
  then have "b \<notin> set intr_pool" by (auto simp: data_pool_def intr_pool_def)
  then have "case res of Inl bs \<Rightarrow> length bs \<le> (if b \<in> set intr_pool then CTRL_BUF_SIZE else ACL_BUF_SIZE) | Inr rc \<Rightarrow> True"
    using res Read_blk b by (cases res) auto
  then obtain st1 where "(case res of Inl bs \<Rightarrow> usb_deliver b bs (usb_finish r st) \<bind> read_cb E WII_EVENT_DATA (int (length bs)) b
      | Inr rc \<Rightarrow> read_cb E WII_EVENT_DATA rc b (usb_finish r st)) = Some st1" "wii_inv H st1"
    using read_complete_inv [OF inv r, of b res E WII_EVENT_DATA] Read_blk by auto
  then show ?thesis using read_bulk_inv [of H st1 E b] Read_blk by (auto simp: complete_read_eq)
next
  case (Write_ctrl b sent)
  then show ?thesis using finish_inv [OF inv r] queue_event_inv [of b H "usb_finish r st" WII_EVENT_SENT E]
    by (auto simp: wii_hci_send_command_cb_def)
next
  case (Write_blk ep b sent)
  then show ?thesis using finish_inv [OF inv r] wii_unref_inv [of b H "usb_finish r st" E]
    by (auto simp: wii_hci_send_data_cb_def)
qed

end
