(* ===== verification/WiiReach.thy ===== *)
theory WiiReach
  imports WiiQueue
begin

text \<open>
  What happens to the Wii backend after \<^verbatim>\<open>wii_init\<close>, as a step relation on its state and
  the references held by the code above it: transfers complete at any time and in any order, and
  the thread takes and drops references, allocates, fills, links and unlinks packets (\<open>buf_edit\<close>),
  sends, takes the queue of events and closes the device. Interrupts come between the functions of
  the model, not inside them.
\<close>

section \<open>The operations keep the accounting\<close>

lemma write_submitted_inv:
  assumes inv: "wii_inv (add_mset (req_buf r) H) st" and r: "\<not> is_read r"
  shows "wii_inv H (st\<lparr>usb_requests := usb_requests st @ [r]\<rparr>)" (is "wii_inv _ ?st1")
proof -
  have users: "wii_users ?st1 x = wii_users st x + (if x = req_buf r then 1 else 0)" for x
    by (simp add: wii_users_def)
  have "wii_ok ?st1" using buf_invD(2) [OF inv] r
    by (auto simp: wii_ok_def pool_ok_def queue_ok_def in_flight_def read_ok_def)
  moreover have "int (wii_users ?st1 x + count H x + links ?st1 x) \<le> refs ?st1 x" for x
    using buf_invD(4) [OF inv, of x] by (auto simp: users) (simp_all add: refs_def linkers_def)
  ultimately show ?thesis using inv by (auto simp: buf_inv_def)
qed

lemma async_write_inv:
  assumes inv: "wii_inv (add_mset (req_buf r) H) st" and r: "\<not> is_read r" and rc: "usb_async E r st = (rc, st')"
  shows "rc = USB_OK \<Longrightarrow> wii_inv H st'" and "rc \<noteq> USB_OK \<Longrightarrow> wii_inv (add_mset (req_buf r) H) st'"
  using rc inv write_submitted_inv [of r H "st\<lparr>usb_calls := Suc (usb_calls st)\<rparr>"] r
  by (auto simp: usb_async_def Let_def)

text \<open>A packet that is held can be sent, whatever the controller answers, and stays held.\<close>

lemma send_data_inv:
  assumes inv: "wii_inv H st" and b: "b \<in># H"
  shows "\<exists>rc st'. wii_hci_send_data E b st = Some (rc, st') \<and> wii_inv H st'"
proof -
  obtain st1 where st1: "buf_ref b st = Some st1" "wii_inv (add_mset b H) st1"
    using wii_use.ref_inv [OF inv b] by blast
  then obtain p where p: "bufs st1 b = Some p" using buf_inv_held [of _ _ "add_mset b H" st1 b] by auto
  then have "unat (b_size p) \<le> length (b_data p)" using buf_invD(3) [OF st1(2)] by (auto simp: buf_typed_def)
  then obtain sent where sent: "slice (b_data p) 0 (unat (b_size p)) = Some sent" by (simp add: slice_def)
  obtain rc st2 where rc: "usb_async E (Write_blk ENDPOINT_ACL_OUT b sent) st1 = (rc, st2)" by fastforce
  have as: "rc = USB_OK \<Longrightarrow> wii_inv H st2" "rc \<noteq> USB_OK \<Longrightarrow> wii_inv (add_mset b H) st2"
    using async_write_inv [of "Write_blk ENDPOINT_ACL_OUT b sent" H st1 E rc st2] st1(2) rc by simp_all
  show ?thesis
    using st1 p sent rc as wii_unref_inv [of b H st2 E] inv by (auto simp: wii_hci_send_data_def)
qed

lemma send_command_inv:
  assumes inv: "wii_inv H st" and b: "b \<in># H"
  shows "\<exists>rc st'. wii_hci_send_command E b st = Some (rc, st') \<and> wii_inv H st'"
proof -
  obtain st1 where st1: "buf_ref b st = Some st1" "wii_inv (add_mset b H) st1"
    using wii_use.ref_inv [OF inv b] by blast
  obtain p where p: "bufs st b = Some p" using buf_inv_held [OF inv b] by auto
  then have "unat (b_size p) \<le> length (b_data p)" using buf_invD(3) [OF inv] by (auto simp: buf_typed_def)
  then obtain sent where sent: "slice (b_data p) 0 (unat (b_size p)) = Some sent" by (simp add: slice_def)
  obtain rc st2 where rc: "usb_async E (Write_ctrl b sent) st1 = (rc, st2)" by fastforce
  have as: "rc = USB_OK \<Longrightarrow> wii_inv H st2" "rc \<noteq> USB_OK \<Longrightarrow> wii_inv (add_mset b H) st2"
    using async_write_inv [of "Write_ctrl b sent" H st1 E rc st2] st1(2) rc by simp_all
  show ?thesis
    using st1 p sent rc as wii_unref_inv [of b H st2 E] inv by (auto simp: wii_hci_send_command_def)
qed

text \<open>Taking the queue turns its entries into references of the thread.\<close>

abbreviation queue_bufs :: "('q, 's) wii \<Rightarrow> buf_ptr list" where
  "queue_bufs st \<equiv> map (the \<circ> e_buffer) (queued st)"

lemma take_queue_inv:
  assumes inv: "wii_inv H st"
  shows "wii_inv (mset (queue_bufs st) + H) (snd (wii_take_queue st))" (is "wii_inv _ ?st1")
proof -
  have ok: "wii_ok st" using buf_invD(2) [OF inv] .
  have c: "count (mset (queue_bufs st)) x = count_list (map e_buffer (queued st)) (Some x)" for x
  proof -
    have "\<forall>e \<in> set es. e_buffer e \<noteq> None \<Longrightarrow>
        count (mset (map (the \<circ> e_buffer) es)) x = count_list (map e_buffer es) (Some x)" for es :: "wii_event list"
      by (induction es) auto
    then show ?thesis using ok by (simp add: wii_ok_def queue_ok_def)
  qed
  have "wii_users st x = wii_users ?st1 x + count_list (map e_buffer (queued st)) (Some x)" for x
    by (simp add: wii_users_def wii_take_queue_def)
  then have "int (wii_users ?st1 x + count (mset (queue_bufs st) + H) x + links ?st1 x) \<le> refs ?st1 x" for x
    using buf_invD(4) [OF inv, of x] unfolding count_union c by (simp add: refs_def linkers_def wii_take_queue_def)
  moreover have "wii_ok ?st1" using ok
    by (auto simp: wii_ok_def queue_ok_def pool_ok_def read_ok_def in_flight_def wii_take_queue_def)
  ultimately show ?thesis using inv by (auto simp: buf_inv_def wii_take_queue_def)
qed

lemma init_inv:
  assumes "wii_backend_init E (wii_boot q u) = Some (0, st)"
  shows "wii_inv {#} st"
proof -
  define pools :: "buf_ptr \<Rightarrow> usb_buffer option" where
    "pools = (\<lambda>b. if b \<in> set data_pool then Some (zero_buffer ACL_BUF_SIZE)
                  else if b \<in> set intr_pool then Some (zero_buffer CTRL_BUF_SIZE) else None)"
  obtain fd mbox q' where st4: "wii_read_intr E ((wii_boot q u)\<lparr>s_bt_fd := fd, s_event_mailbox := mbox, mq := q',
        bufs := pools\<rparr>) \<bind> (\<lambda>(_, st5). wii_read_bulk E st5 \<bind> (\<lambda>(_, st6). Some (0::int, st6))) = Some (0, st)"
    using assms
    by (auto simp: wii_backend_init_def alloc_usb_buffers_def Let_def pools_def wii_boot_def ENOMEM_def
        intr_pool_def data_pool_def cong: if_cong split: if_splits prod.splits)
  let ?st4 = "(wii_boot q u)\<lparr>s_bt_fd := fd, s_event_mailbox := mbox, mq := q', bufs := pools\<rparr>"
  have "dom pools \<subseteq> set data_pool \<union> set intr_pool" by (auto simp: pools_def split: if_splits)
  then have "finite (dom pools)" by (rule finite_subset) simp
  moreover have "set intr_pool \<inter> set data_pool = {}" by (auto simp: intr_pool_def data_pool_def)
  then have "wii_ok ?st4"
    by (auto simp: wii_ok_def pool_ok_def queue_ok_def in_flight_def wii_boot_def pools_def zero_buffer_def)
  moreover have "buf_typed b p \<and> b_ref_count p = 0" if "pools b = Some p" for b p
    using that by (auto simp: pools_def zero_buffer_def buf_typed_def split: if_splits)
  moreover from this have "refs ?st4 b = 0" "linkers ?st4 b = {}" for b
    by (auto simp: refs_def linkers_def split: option.splits)
  moreover have "wii_users ?st4 b = 0" for b by (simp add: wii_users_def wii_boot_def)
  ultimately have "wii_inv {#} ?st4" by (auto simp: buf_inv_def)
  then obtain rc1 st5 where st5: "wii_read_intr E ?st4 = Some (rc1, st5)" "wii_inv {#} st5"
    using read_intr_inv [of "{#}" ?st4 E] by blast
  then obtain rc2 st6 where "wii_read_bulk E st5 = Some (rc2, st6)" "wii_inv {#} st6"
    using read_bulk_inv [of "{#}" st5 E] by blast
  then show ?thesis using st4 st5 by simp
qed

section \<open>Reachable states\<close>

inductive wii_step ::
    "('q, 's) wii_usb_env \<Rightarrow> ('q, 's) wii \<times> buf_ptr multiset \<Rightarrow> ('q, 's) wii \<times> buf_ptr multiset \<Rightarrow> bool"
  for E where
  complete: "r \<in> set (usb_requests st) \<Longrightarrow> usb_result_ok r res \<Longrightarrow> wii_complete E r res st = Some (rc, st') \<Longrightarrow>
     wii_step E (st, H) (st', H)"
| take_queue: "wii_take_queue st = (queue, st') \<Longrightarrow> wii_step E (st, H) (st', mset (queue_bufs st) + H)"
| packets: "buf_edit (st, H) (st', H') \<Longrightarrow> wii_step E (st, H) (st', H')"
| unref: "wii_unref E b st = Some st' \<Longrightarrow> wii_step E (st, add_mset b H) (st', H)"
| send_command: "b \<in># H \<Longrightarrow> wii_hci_send_command E b st = Some (rc, st') \<Longrightarrow> wii_step E (st, H) (st', H)"
| send_data: "b \<in># H \<Longrightarrow> wii_hci_send_data E b st = Some (rc, st') \<Longrightarrow> wii_step E (st, H) (st', H)"
| mailbox: "wii_step E (st, H) (bte_backend_wii_set_mailbox mbox st, H)"
| above: "wii_step E (st, H) (st\<lparr>upper := u, mq := q\<rparr>, H)"
| deinit: "wii_deinit E st = Some (rc, st') \<Longrightarrow> wii_step E (st, H) (st', H)"

lemma wii_step_inv:
  assumes "wii_step E c c'" and "wii_inv (snd c + K) (fst c)"
  shows "wii_inv (snd c' + K) (fst c')"
  using assms
proof cases
  case (complete r st res rc st' H)
  then show ?thesis using complete_inv [of "H + K" st r res E] assms(2) by auto
next
  case (take_queue st queue st' H)
  then show ?thesis using take_queue_inv [of "H + K" st] assms(2) by (simp add: ac_simps)
next
  case (packets st H st' H')
  then show ?thesis using wii_use.edit_inv [OF packets(3), of K] assms(2) by simp
next
  case (unref b st st' H)
  then show ?thesis using wii_unref_inv [of b "H + K" st E] assms(2) by auto
next
  case (send_command b H st rc st')
  then show ?thesis using send_command_inv [of "H + K" st b E] assms(2) by auto
next
  case (send_data b H st rc st')
  then show ?thesis using send_data_inv [of "H + K" st b E] assms(2) by auto
qed (use assms(2) in \<open>auto simp: bte_backend_wii_set_mailbox_def wii_deinit_def\<close>)

abbreviation wii_backend_steps ::
    "('q, 's) wii_usb_env \<Rightarrow> ('q, 's) wii \<times> buf_ptr multiset \<Rightarrow> ('q, 's) wii \<times> buf_ptr multiset \<Rightarrow> bool" where
  "wii_backend_steps E \<equiv> (wii_step E)\<^sup>*\<^sup>*"

lemma wii_steps_inv:
  assumes "wii_backend_steps E c c'" and "wii_inv (snd c + K) (fst c)"
  shows "wii_inv (snd c' + K) (fst c')"
  using assms by induction (auto dest: wii_step_inv)

definition wii_reach :: "('q, 's) wii_usb_env \<Rightarrow> ('q, 's) wii \<Rightarrow> buf_ptr multiset \<Rightarrow> bool" where
  "wii_reach E st H \<longleftrightarrow> (\<exists>q u st0. wii_backend_init E (wii_boot q u) = Some (0, st0) \<and> wii_backend_steps E (st0, {#}) (st, H))"

lemma wii_reach_inv: "wii_reach E st H \<Longrightarrow> wii_inv H st"
  using wii_steps_inv [of E _ "(st, H)" "{#}"] init_inv by (fastforce simp: wii_reach_def)

lemma wii_reach_steps: "wii_reach E st H \<Longrightarrow> wii_backend_steps E (st, H) (st', H') \<Longrightarrow> wii_reach E st' H'"
  unfolding wii_reach_def by (meson rtranclp_trans)

end
