(* ===== verification/WiiChain.thy ===== *)
theory WiiChain
  imports WiiReach
begin

text \<open>
  Properties of every state of the Wii backend: packets are never shared between a transfer and
  anyone else, events are not missed while few commands are under way, the queue is always
  processed to its end, and the chain of interrupt reads never stops; and what is lost when the
  queue overflows or the controller refuses a read.
\<close>

section \<open>Starting up\<close>

definition usb_working :: "('q, 's) wii_usb_env \<Rightarrow> bool" where
  "usb_working E \<longleftrightarrow> usb_initialize E = USB_OK \<and> fst (usb_open_device E) = USB_OK \<and> snd (usb_open_device E) \<ge> 0 \<and>
     sys_alloc_arena_mem2 E 0 \<and> sys_alloc_arena_mem2 E 1"

lemma pool_alloc_first:
  "bufs st b = Some p \<Longrightarrow> b_ref_count p = 0 \<Longrightarrow>
   pool_alloc (b # bs) sz st = Some (Some b, set_buf b (pool_take sz p) st)"
  by simp

lemma pools_Cons: "map Intr [0..<WII_BUFFER_INTR_COUNT] = Intr 0 # map Intr [1..<WII_BUFFER_INTR_COUNT]"
  "map Data [0..<WII_BUFFER_DATA_COUNT] = Data 0 # map Data [1..<WII_BUFFER_DATA_COUNT]"
  by (simp_all add: WII_BUFFER_INTR_COUNT_def WII_BUFFER_DATA_COUNT_def upt_conv_Cons)

lemma read_first:
  assumes "s_bt_fd st \<ge> 0" and "bufs st (Intr 0) = Some p" and "b_ref_count p = 0"
  shows "wii_read_intr E st = Some (usb_async E (Read_intr ENDPOINT_HCI_INTR CTRL_BUF_SIZE (Intr 0))
           (set_buf (Intr 0) (pool_take (of_nat CTRL_BUF_SIZE) p) st))"
  using assms by (simp add: wii_read_intr_def wii_buffer_intr_alloc_def pools_Cons buf_contiguous_data_def
      pool_take_def CTRL_BUF_SIZE_def)

lemma read_bulk_first:
  assumes "s_bt_fd st \<ge> 0" and "bufs st (Data 0) = Some p" and "b_ref_count p = 0"
  shows "wii_read_bulk E st = Some (usb_async E (Read_blk ENDPOINT_ACL_IN ACL_BUF_SIZE (Data 0))
           (set_buf (Data 0) (pool_take (of_nat ACL_BUF_SIZE) p) st))"
  using assms by (simp add: wii_read_bulk_def wii_buffer_data_alloc_def pools_Cons buf_contiguous_data_def
      pool_take_def ACL_BUF_SIZE_def)

lemma wii_init_starts:
  assumes "usb_working E" and "\<And>n r. n < 2 \<Longrightarrow> usb_submit E n r = USB_OK"
  shows "\<exists>st. wii_backend_init E (wii_boot q u) = Some (0, st) \<and>
     usb_requests st = [Read_intr ENDPOINT_HCI_INTR CTRL_BUF_SIZE (Intr 0), Read_blk ENDPOINT_ACL_IN ACL_BUF_SIZE (Data 0)] \<and>
     current_index (s_wii_event_queue st) = 0 \<and> missed_events (s_wii_event_queue st) = 0 \<and>
     usb_calls st = 2 \<and> \<not> s_intr_request_failed st \<and> s_bt_fd st \<ge> 0 \<and> refs st (Intr 1) = 0 \<and> upper st = u"
proof -
  obtain fd mbox q' where fd: "usb_open_device E = (USB_OK, fd)" "fd \<ge> 0" and mb: "mq_init E q = (mbox, q')"
    using assms(1) by (cases "usb_open_device E"; cases "mq_init E q") (auto simp: usb_working_def)
  let ?m = "\<lambda>b. if b \<in> set data_pool then Some (zero_buffer ACL_BUF_SIZE)
                  else if b \<in> set intr_pool then Some (zero_buffer CTRL_BUF_SIZE) else None"
  let ?st4 = "(wii_boot q u)\<lparr>s_bt_fd := fd, s_event_mailbox := mbox, mq := q', bufs := ?m\<rparr>"
  have init: "wii_backend_init E (wii_boot q u) = do { (_, st5) \<leftarrow> wii_read_intr E ?st4;
           (_, st6) \<leftarrow> wii_read_bulk E st5; Some (0, st6) }"
    using assms(1) fd mb
    by (simp add: wii_backend_init_def alloc_usb_buffers_def Let_def wii_boot_def usb_working_def
        intr_pool_def data_pool_def cong: if_cong)
  have i0: "?m (Intr 0) = Some (zero_buffer CTRL_BUF_SIZE)" "?m (Intr (Suc 0)) = Some (zero_buffer CTRL_BUF_SIZE)" and d0: "?m (Data 0) = Some (zero_buffer ACL_BUF_SIZE)"
    by (auto simp: intr_pool_def data_pool_def WII_BUFFER_INTR_COUNT_def WII_BUFFER_DATA_COUNT_def)
  let ?st5 = "snd (usb_async E (Read_intr ENDPOINT_HCI_INTR CTRL_BUF_SIZE (Intr 0))
           (set_buf (Intr 0) (pool_take (of_nat CTRL_BUF_SIZE) (zero_buffer CTRL_BUF_SIZE)) ?st4))"
  have r1: "wii_read_intr E ?st4 = Some (USB_OK, ?st5)"
    using read_first [of ?st4 "zero_buffer CTRL_BUF_SIZE" E] fd i0 assms(2) by (simp add: zero_buffer_def usb_async_def wii_boot_def)
  have st5: "bufs ?st5 (Data 0) = Some (zero_buffer ACL_BUF_SIZE)" "s_bt_fd ?st5 \<ge> 0"
      "usb_requests ?st5 = [Read_intr ENDPOINT_HCI_INTR CTRL_BUF_SIZE (Intr 0)]"
      "s_wii_event_queue ?st5 = s_wii_event_queue (wii_boot q u)" "usb_calls ?st5 = 1" "\<not> s_intr_request_failed ?st5"
      "bufs ?st5 (Intr 1) = Some (zero_buffer CTRL_BUF_SIZE)" "upper ?st5 = u"
    using i0(2) d0 fd assms(2) by (simp_all add: usb_async_def wii_boot_def)
  have r2: "wii_read_bulk E ?st5 = Some (usb_async E (Read_blk ENDPOINT_ACL_IN ACL_BUF_SIZE (Data 0))
           (set_buf (Data 0) (pool_take (of_nat ACL_BUF_SIZE) (zero_buffer ACL_BUF_SIZE)) ?st5))"
    by (rule read_bulk_first) (use st5 in \<open>simp_all add: zero_buffer_def\<close>)
  show ?thesis
    unfolding init r1 Option.bind.simps prod.case r2
    using st5 assms(2) by (simp add: usb_async_def Let_def split_def refs_def zero_buffer_def [of CTRL_BUF_SIZE]) (simp add: wii_boot_def)
qed

text \<open>The layer above records its calls and keeps the packets of events.\<close>

definition demo_wii_env :: "(nat, (wii_event_type \<times> buf_ptr) list) wii_usb_env" where
  "demo_wii_env =
     \<lparr>usb_initialize = 0, usb_open_device = (0, 3), usb_close_device = (\<lambda>fd. -1),
      usb_submit = (\<lambda>n r. 0), sys_alloc_arena_mem2 = (\<lambda>k. True),
      mq_init = (\<lambda>q. (1, 0)), mq_send = (\<lambda>mb q. 1), mq_receive = (\<lambda>mb q. (q > 0, q - 1)),
      mq_timed_receive = (\<lambda>mb ts st. Some (False, st)),
      hci_handle_event = (\<lambda>b st. do { st1 \<leftarrow> buf_ref b st; Some (st1\<lparr>upper := upper st1 @ [(WII_EVENT_INTR, b)]\<rparr>) }),
      hci_handle_data = (\<lambda>b st. Some (st\<lparr>upper := upper st @ [(WII_EVENT_DATA, b)]\<rparr>))\<rparr>"

lemma demo_wii_working: "usb_working demo_wii_env" "usb_submit demo_wii_env n r = USB_OK"
  by (simp_all add: usb_working_def demo_wii_env_def USB_OK_def)

lemma demo_wii_reach:
  "\<exists>st. wii_reach demo_wii_env st {#} \<and>
     usb_requests st = [Read_intr ENDPOINT_HCI_INTR CTRL_BUF_SIZE (Intr 0), Read_blk ENDPOINT_ACL_IN ACL_BUF_SIZE (Data 0)] \<and>
     current_index (s_wii_event_queue st) = 0 \<and> missed_events (s_wii_event_queue st) = 0 \<and> upper st = []"
proof -
  from wii_init_starts [OF demo_wii_working, of 0 "[]"] obtain st where
    st: "wii_backend_init demo_wii_env (wii_boot 0 []) = Some (0, st)"
      "usb_requests st = [Read_intr ENDPOINT_HCI_INTR CTRL_BUF_SIZE (Intr 0), Read_blk ENDPOINT_ACL_IN ACL_BUF_SIZE (Data 0)]"
      "current_index (s_wii_event_queue st) = 0 \<and> missed_events (s_wii_event_queue st) = 0 \<and> upper st = []" by blast
  then have "wii_reach demo_wii_env st {#}" unfolding wii_reach_def by blast
  with st show ?thesis by blast
qed

section \<open>Memory\<close>

lemma reading_unshared:
  assumes inv: "wii_inv H st" and r: "r \<in> set (usb_requests st)" "is_read r"
  shows "refs st (req_buf r) = 1" and "req_buf r \<notin># H" and "Some (req_buf r) \<notin> set (map e_buffer (queued st))"
    and "linkers st (req_buf r) = {}"
proof -
  have "read_ok st r" using buf_invD(2) [OF inv] r by (simp add: wii_ok_def)
  then show one: "refs st (req_buf r) = 1" by (auto simp: read_ok_def refs_def)
  have c: "count_list (map req_buf (usb_requests st)) (req_buf r) \<ge> 1"
    using r(1) count_list_0_iff [of "map req_buf (usb_requests st)" "req_buf r"] by fastforce
  then have z: "count_list (map e_buffer (queued st)) (Some (req_buf r)) = 0 \<and> count H (req_buf r) = 0 \<and> links st (req_buf r) = 0"
    using buf_invD(4) [OF inv, of "req_buf r"] one by (simp add: wii_users_def)
  then show "req_buf r \<notin># H" and "Some (req_buf r) \<notin> set (map e_buffer (queued st))"
    by (simp_all add: count_list_0_iff not_in_iff)
  show "linkers st (req_buf r) = {}" using z buf_invD(1) [OF inv] by simp
qed

text \<open>
  C3: memory safety of the Wii backend. In every state reached from a successful \<^verbatim>\<open>wii_init\<close>, whatever
  the order of completed transfers, processed events and operations of the layers above and
  whatever the controller answers to submissions: a packet that a read is in progress into has a
  single reference, the one of the transfer (it is not queued, not held and not linked, so it is
  not given out again while the controller writes to it); no packet carries incoming data twice;
  every completion callback runs to its end; and every reference held can be dropped and every
  packet held can be sent without touching freed memory.
\<close>

theorem wii_backend_safe:
  assumes "wii_reach E st H"
  shows "(\<forall>r. r \<in> set (usb_requests st) \<and> is_read r \<longrightarrow> refs st (req_buf r) = 1 \<and> req_buf r \<notin># H \<and>
            Some (req_buf r) \<notin> set (map e_buffer (queued st)) \<and> linkers st (req_buf r) = {}) \<and>
     distinct (in_flight st) \<and>
     (\<forall>r res. r \<in> set (usb_requests st) \<and> usb_result_ok r res \<longrightarrow> wii_complete E r res st \<noteq> None) \<and>
     (\<forall>b. b \<in># H \<longrightarrow> wii_unref E b st \<noteq> None \<and> wii_hci_send_command E b st \<noteq> None \<and>
            wii_hci_send_data E b st \<noteq> None)"
proof (intro conjI allI impI)
  note inv = wii_reach_inv [OF assms]
  show "distinct (in_flight st)" using buf_invD(2) [OF inv] by (simp add: wii_ok_def queue_ok_def)
  { fix r assume "r \<in> set (usb_requests st) \<and> is_read r"
    then show "refs st (req_buf r) = 1" "req_buf r \<notin># H" "Some (req_buf r) \<notin> set (map e_buffer (queued st))"
      "linkers st (req_buf r) = {}" using reading_unshared [OF inv] by blast+ }
  { fix r res assume "r \<in> set (usb_requests st) \<and> usb_result_ok r res"
    then show "wii_complete E r res st \<noteq> None" using complete_inv [OF inv, of r res E] by auto }
  { fix b assume b: "b \<in># H"
    then have "wii_inv (add_mset b (H - {#b#})) st" using inv by simp
    from wii_unref_inv [OF this, of E] show "wii_unref E b st \<noteq> None" by auto
    show "wii_hci_send_command E b st \<noteq> None" using send_command_inv [OF inv b, of E] by auto
    show "wii_hci_send_data E b st \<noteq> None" using send_data_inv [OF inv b, of E] by auto }
qed

theorem wii_backend_safe_witness:
  "\<exists>st. wii_reach demo_wii_env st {#} \<and> refs st (Intr 0) = 1 \<and>
     wii_complete demo_wii_env (Read_intr ENDPOINT_HCI_INTR CTRL_BUF_SIZE (Intr 0)) (Inl [1, 2]) st \<noteq> None"
proof -
  obtain st where st: "wii_reach demo_wii_env st {#}"
      "usb_requests st = [Read_intr ENDPOINT_HCI_INTR CTRL_BUF_SIZE (Intr 0), Read_blk ENDPOINT_ACL_IN ACL_BUF_SIZE (Data 0)]"
    using demo_wii_reach by blast
  have in_reqs: "Read_intr ENDPOINT_HCI_INTR CTRL_BUF_SIZE (Intr 0) \<in> set (usb_requests st)" using st by simp
  have len: "usb_result_ok (Read_intr ENDPOINT_HCI_INTR CTRL_BUF_SIZE (Intr 0)) (Inl [1, 2])" by (simp add: CTRL_BUF_SIZE_def)
  have "refs st (Intr 0) = 1"
    using wii_backend_safe [OF st(1)] in_reqs by fastforce
  moreover have "wii_complete demo_wii_env (Read_intr ENDPOINT_HCI_INTR CTRL_BUF_SIZE (Intr 0)) (Inl [1, 2]) st \<noteq> None"
    using wii_backend_safe [OF st(1)] in_reqs len by blast
  ultimately show ?thesis using st(1) by blast
qed

section \<open>The queue of events\<close>

fun is_ctrl :: "usb_request \<Rightarrow> bool" where
  "is_ctrl (Write_ctrl b sent) = True"
| "is_ctrl _ = False"

definition commands_under_way :: "('q, 's) wii \<Rightarrow> nat" where
  "commands_under_way st = length (filter is_ctrl (usb_requests st)) +
     length (filter (\<lambda>e. e_type e = WII_EVENT_SENT) (queued st))"

lemma in_flight_bound:
  assumes "wii_inv H st"
  shows "length (filter is_read (usb_requests st)) + length (filter (\<lambda>e. e_type e \<noteq> WII_EVENT_SENT) (queued st))
           \<le> WII_BUFFER_INTR_COUNT + WII_BUFFER_DATA_COUNT"
proof -
  have "distinct (in_flight st)" "set (in_flight st) \<subseteq> set intr_pool \<union> set data_pool"
    using buf_invD(2) [OF assms] by (simp_all add: wii_ok_def queue_ok_def)
  then have "length (in_flight st) \<le> card (set intr_pool \<union> set data_pool)"
    by (metis List.finite_set card_mono distinct_card finite_Un)
  also have "\<dots> \<le> length intr_pool + length data_pool"
    by (meson add_mono card_Un_le card_length le_trans)
  finally show ?thesis by (simp add: in_flight_def intr_pool_def data_pool_def)
qed

lemma queue_room:
  assumes inv: "wii_inv H st" and r: "r \<in> set (usb_requests st)" "is_read r \<or> is_ctrl r"
    and cmds: "commands_under_way st \<le> WII_MAX_EVENTS - (WII_BUFFER_INTR_COUNT + WII_BUFFER_DATA_COUNT)"
  shows "current_index (s_wii_event_queue st) < WII_MAX_EVENTS"
proof -
  have "length (queued st) = current_index (s_wii_event_queue st)"
    using buf_invD(2) [OF inv] by (simp add: wii_ok_def queue_ok_def)
  then have idx: "current_index (s_wii_event_queue st) = length (filter (\<lambda>e. e_type e = WII_EVENT_SENT) (queued st)) +
      length (filter (\<lambda>e. e_type e \<noteq> WII_EVENT_SENT) (queued st))"
    by (metis sum_length_filter_compl)
  have "length (filter is_read (usb_requests st)) + length (filter is_ctrl (usb_requests st)) \<ge> 1"
    using r by (auto simp: Suc_le_eq filter_empty_conv)
  then show ?thesis using in_flight_bound [OF inv] cmds idx by (simp add: commands_under_way_def wii_const)
qed

lemma pool_alloc_queue: "pool_alloc bs sz st = Some (b, st') \<Longrightarrow> s_wii_event_queue st' = s_wii_event_queue st"
  by (induction bs) (auto split: if_splits bind_splits)

lemma read_queue:
  "wii_read_intr E st = Some (rc, st') \<Longrightarrow> s_wii_event_queue st' = s_wii_event_queue st"
  "wii_read_bulk E st = Some (rc, st') \<Longrightarrow> s_wii_event_queue st' = s_wii_event_queue st"
  by (auto simp: wii_read_intr_def wii_read_bulk_def wii_buffer_intr_alloc_def wii_buffer_data_alloc_def
      usb_async_def Let_def dest!: pool_alloc_queue split: if_splits bind_splits option.splits)

lemma release_queue: "wii_release E f b st = Some st' \<Longrightarrow> s_wii_event_queue st' = s_wii_event_queue st"
  by (cases f) (auto simp: wii_buffer_free_def buf_free_def dest!: read_queue split: if_splits bind_splits)

lemma unref_queue:
  assumes "wii_unref E b st = Some st'"
  shows "s_wii_event_queue st' = s_wii_event_queue st"
  using assms unfolding wii_unref_def
  by (rule buf_unref_keeps [where P = "\<lambda>s. s_wii_event_queue s = s_wii_event_queue st"]) (auto dest: release_queue)

text \<open>What a completion adds to the queue.\<close>

lemma shrink_queue_loop:
  "buf_shrink_loop b sz st = Some st' \<Longrightarrow> s_wii_event_queue st' = s_wii_event_queue st"
  by (induction rule: buf_shrink_loop.raw_induct [rotated, consumes 1])
     (auto simp: Let_def split: option.splits bind_splits)

lemma complete_queue:
  assumes "wii_complete E r res st = Some (rc, st')" and "current_index (s_wii_event_queue st) < WII_MAX_EVENTS"
  shows "missed_events (s_wii_event_queue st') = missed_events (s_wii_event_queue st)"
proof -
  have sh: "buf_shrink b sz st1 = Some st2 \<Longrightarrow> s_wii_event_queue st2 = s_wii_event_queue st1" for b sz and st1 st2 :: "('a, 'b) wii"
    by (auto simp: buf_shrink_def dest!: shrink_queue_loop split: bind_splits)
  have del: "usb_deliver b bs st1 = Some st2 \<Longrightarrow> s_wii_event_queue st2 = s_wii_event_queue st1" for b bs and st1 st2 :: "('a, 'b) wii"
    by (auto simp: usb_deliver_def split: bind_splits)
  have q: "queue_event E ty b st1 = Some st2 \<Longrightarrow> s_wii_event_queue st1 = s_wii_event_queue st \<Longrightarrow>
      missed_events (s_wii_event_queue st2) = missed_events (s_wii_event_queue st)" for ty b st1 st2
    using assms(2) by (auto simp: queue_event_def Let_def split: if_splits)
  have cb: "read_cb E ty n b st1 = Some st2 \<Longrightarrow> s_wii_event_queue st1 = s_wii_event_queue st \<Longrightarrow>
      missed_events (s_wii_event_queue st2) = missed_events (s_wii_event_queue st)" for ty n b st1 st2
    by (auto simp: read_cb_def dest: unref_queue split: if_splits bind_splits) (metis q sh)
  have fin: "s_wii_event_queue (usb_finish r st) = s_wii_event_queue st" by (simp add: usb_finish_def)
  show ?thesis
  proof (cases r)
    case (Read_intr ep len b)
    then show ?thesis using assms(1) fin
      by (auto simp: complete_read_eq dest!: read_queue split: sum.splits bind_splits) (metis cb del)+
  next
    case (Read_blk ep len b)
    then show ?thesis using assms(1) fin
      by (auto simp: complete_read_eq dest!: read_queue split: sum.splits bind_splits) (metis cb del)+
  next
    case (Write_ctrl b sent)
    then show ?thesis using assms(1) fin by (auto simp: wii_hci_send_command_cb_def dest: q split: bind_splits)
  next
    case (Write_blk ep b sent)
    then show ?thesis using assms(1) fin by (auto simp: wii_hci_send_data_cb_def dest: unref_queue split: bind_splits)
  qed
qed

text \<open>
  C14: the queue is long enough. As long as no more than 48 commands are under way (submitted or
  sent and not yet processed, 128 less the 80 packets of the pools), no completion finds the queue
  full, so no event of the controller and no incoming data is missed.
\<close>

theorem wii_no_event_missed:
  assumes "wii_reach E st H"
    and "commands_under_way st \<le> WII_MAX_EVENTS - (WII_BUFFER_INTR_COUNT + WII_BUFFER_DATA_COUNT)"
    and "r \<in> set (usb_requests st)" and "usb_result_ok r res"
  shows "\<exists>rc st'. wii_complete E r res st = Some (rc, st') \<and>
     missed_events (s_wii_event_queue st') = missed_events (s_wii_event_queue st)"
proof -
  note inv = wii_reach_inv [OF assms(1)]
  obtain rc st' where c: "wii_complete E r res st = Some (rc, st')"
    using complete_inv [OF inv assms(3,4), of E] by blast
  show ?thesis
  proof (cases "is_read r \<or> is_ctrl r")
    case True
    then show ?thesis using complete_queue [OF c queue_room [OF inv assms(3) True assms(2)]] c by blast
  next
    case False
    then obtain ep b sent where "r = Write_blk ep b sent" by (cases r) auto
    then show ?thesis using c
      by (auto simp: wii_hci_send_data_cb_def usb_finish_def dest!: unref_queue split: bind_splits)
  qed
qed

theorem wii_no_event_missed_witness:
  "\<exists>st rc st'. wii_complete demo_wii_env (Read_intr ENDPOINT_HCI_INTR CTRL_BUF_SIZE (Intr 0)) (Inl [1, 2]) st = Some (rc, st') \<and>
     missed_events (s_wii_event_queue st') = 0"
proof -
  obtain st where st: "wii_reach demo_wii_env st {#}"
      "usb_requests st = [Read_intr ENDPOINT_HCI_INTR CTRL_BUF_SIZE (Intr 0), Read_blk ENDPOINT_ACL_IN ACL_BUF_SIZE (Data 0)]"
      "current_index (s_wii_event_queue st) = 0" "missed_events (s_wii_event_queue st) = 0"
    using demo_wii_reach by blast
  then have "commands_under_way st \<le> WII_MAX_EVENTS - (WII_BUFFER_INTR_COUNT + WII_BUFFER_DATA_COUNT)"
    by (simp add: commands_under_way_def)
  moreover have "usb_result_ok (Read_intr ENDPOINT_HCI_INTR CTRL_BUF_SIZE (Intr 0)) (Inl [1, 2])" by (simp add: CTRL_BUF_SIZE_def)
  ultimately show ?thesis
    using wii_no_event_missed [OF st(1), of "Read_intr ENDPOINT_HCI_INTR CTRL_BUF_SIZE (Intr 0)" "Inl [1, 2]"] st by auto
qed

section \<open>Losses\<close>

lemma held_never_free:
  assumes "wii_backend_steps E (st, H) (st', H')" and "wii_inv (add_mset b H) st"
  shows "refs st' b \<ge> 1"
proof -
  have "wii_inv (H' + {#b#}) st'" using wii_steps_inv [OF assms(1), of "{#b#}"] assms(2) by simp
  from buf_inv_held [OF this, of b] show ?thesis by (auto simp: refs_def)
qed

lemma full_queue_keeps:
  assumes "wii_inv (add_mset b H) st" and "current_index (s_wii_event_queue st) \<ge> WII_MAX_EVENTS"
  shows "\<exists>st'. queue_event E ty b st = Some st' \<and> wii_inv (add_mset b H) st' \<and>
           missed_events (s_wii_event_queue st') = missed_events (s_wii_event_queue st) + 1 \<and> queued st' = queued st"
proof -
  let ?q = "s_wii_event_queue st"
  let ?st1 = "st\<lparr>s_wii_event_queue := ?q\<lparr>missed_events := missed_events ?q + 1\<rparr>\<rparr>"
  have "wii_inv (add_mset b H) ?st1 = wii_inv (add_mset b H) st"
    by (rule buf_inv_cong) (simp_all add: wii_users_def fun_eq_iff wii_ok_def pool_ok_def queue_ok_def in_flight_def read_ok_def)
  then show ?thesis using assms by (simp add: queue_event_def Let_def)
qed

text \<open>
  What a full queue costs. When a read of an event completes with data while the queue holds 128
  events, the event is only counted as missed, its data is never delivered, and its packet keeps
  the reference of the read for ever: in no later state is it free, so the pool is one packet
  smaller from then on.
\<close>

theorem wii_missed_event_leaks:
  assumes "wii_reach E st H" and "current_index (s_wii_event_queue st) = WII_MAX_EVENTS"
    and "Read_intr ep len b \<in> set (usb_requests st)" and "bs \<noteq> []" and "length bs \<le> len"
    and "wii_complete E (Read_intr ep len b) (Inl bs) st = Some (rc, st')"
  shows "missed_events (s_wii_event_queue st') = missed_events (s_wii_event_queue st) + 1 \<and>
     queued st' = queued st \<and> (\<forall>st'' H''. wii_backend_steps E (st', H) (st'', H'') \<longrightarrow> refs st'' b \<ge> 1)"
proof -
  let ?r = "Read_intr ep len b" and ?st1 = "usb_finish (Read_intr ep len b) st"
  note inv = wii_reach_inv [OF assms(1)]
  have "read_ok st ?r" using buf_invD(2) [OF inv] assms(3) by (simp add: wii_ok_def)
  then obtain p where p: "bufs ?st1 b = Some p" "b_next p = None" and pool: "b \<in> set intr_pool" "len = CTRL_BUF_SIZE"
    by (auto simp: read_ok_def usb_finish_def)
  have inv1: "wii_inv (add_mset b H) ?st1" using finish_inv [OF inv assms(3)] by simp
  have "length (b_data p) = CTRL_BUF_SIZE" using pool_inv(1) [OF inv1 pool(1)] p by auto
  then obtain p' where p': "usb_deliver b bs ?st1 = Some (set_buf b p' ?st1)" "wii_inv (add_mset b H) (set_buf b p' ?st1)" "b_next p' = None"
    using deliver_inv [OF inv1 p(1), of bs] assms(5) pool(2) p(2) by auto
  let ?st2 = "set_buf b p' ?st1"
  let ?st3 = "set_buf b (p'\<lparr>b_total_size := word_of_int (int (length bs)), b_size := min (b_size p') (word_of_int (int (length bs)))\<rparr>) ?st2"
  have sh: "buf_shrink b (word_of_int (int (length bs))) ?st2 = Some ?st3" by (rule shrink_alone) (simp_all add: p'(3))
  have inv3: "wii_inv (add_mset b H) ?st3" by (rule wii_use.touch_inv [OF p'(2), where p = p']) simp_all
  have q3: "s_wii_event_queue ?st3 = s_wii_event_queue st" by (simp add: usb_finish_def)
  from full_queue_keeps [OF inv3, of E WII_EVENT_INTR] assms(2) obtain st4 where
    st4: "queue_event E WII_EVENT_INTR b ?st3 = Some st4" "wii_inv (add_mset b H) st4"
      "missed_events (s_wii_event_queue st4) = missed_events (s_wii_event_queue st) + 1" "queued st4 = queued st"
    unfolding q3 by auto
  have "wii_complete E ?r (Inl bs) st = wii_read_intr E st4"
    using assms(4) sh st4(1) p'(1) by (simp add: wii_read_intr_cb_def)
  then have rd: "wii_read_intr E st4 = Some (rc, st')" using assms(6) by simp
  then have "wii_inv (add_mset b H) st'" using read_intr_inv [OF st4(2), of E] by auto
  then show ?thesis using held_never_free [of E st' H] read_queue(1) [OF rd] st4(3,4) by auto
qed

text \<open>A state in which the queue is full: 128 commands were sent and none of their events was processed.\<close>

lemma demo_wii_full:
  "n \<le> WII_MAX_EVENTS \<Longrightarrow> \<exists>st p. wii_reach demo_wii_env st {#Heap 0#} \<and> s_bt_fd st = 3 \<and>
     current_index (s_wii_event_queue st) = n \<and> bufs st (Heap 0) = Some p \<and> b_total_size p = 0 \<and> b_size p = 0 \<and>
     Read_intr ENDPOINT_HCI_INTR CTRL_BUF_SIZE (Intr 0) \<in> set (usb_requests st)"
proof (induction n)
  case 0
  obtain st where st: "wii_backend_init demo_wii_env (wii_boot 0 []) = Some (0, st)"
      "usb_requests st = [Read_intr ENDPOINT_HCI_INTR CTRL_BUF_SIZE (Intr 0), Read_blk ENDPOINT_ACL_IN ACL_BUF_SIZE (Data 0)]"
      "current_index (s_wii_event_queue st) = 0"
    using wii_init_starts [OF demo_wii_working, of 0 "[]"] by blast
  have h: "bufs st (Heap 0) = None \<and> s_bt_fd st = 3"
    using st(1) by (auto simp: wii_backend_init_def demo_wii_env_def USB_OK_def wii_boot_def alloc_usb_buffers_def Let_def
        wii_read_intr_def wii_read_bulk_def wii_buffer_intr_alloc_def wii_buffer_data_alloc_def usb_async_def
        pools_Cons zero_buffer_def buf_contiguous_data_def pool_take_def split: if_splits)
  let ?p = "\<lparr>b_ref_count = 1, b_free_func = Some Bte_free, b_total_size = 0, b_size = 0, b_next = None, b_data = []\<rparr>"
  have "buf_alloc_contiguous (\<lambda>i. 0) 0 0 st = Some (Heap 0, set_buf (Heap 0) ?p st)"
    using h by (simp add: buf_alloc_contiguous_def)
  then have "wii_step demo_wii_env (st, {#}) (set_buf (Heap 0) ?p st, {#Heap 0#})" by (intro wii_step.packets) (rule buf_edit.alloc)
  moreover have "wii_reach demo_wii_env st {#}" using st(1) unfolding wii_reach_def by blast
  ultimately have "wii_reach demo_wii_env (set_buf (Heap 0) ?p st) {#Heap 0#}"
    using wii_reach_steps by (metis r_into_rtranclp)
  with st h show ?case by (intro exI [of _ "set_buf (Heap 0) ?p st"] exI [of _ ?p]) simp
next
  case (Suc n)
  then obtain st p where st: "wii_reach demo_wii_env st {#Heap 0#}" "s_bt_fd st = 3"
      "current_index (s_wii_event_queue st) = n" and p: "bufs st (Heap 0) = Some p" "b_total_size p = 0" "b_size p = 0"
      and r: "Read_intr ENDPOINT_HCI_INTR CTRL_BUF_SIZE (Intr 0) \<in> set (usb_requests st)" by auto
  let ?p = "p\<lparr>b_ref_count := b_ref_count p + 1\<rparr>" and ?w = "Write_ctrl (Heap 0) []"
  let ?st1 = "(set_buf (Heap 0) ?p st)\<lparr>usb_calls := usb_calls st + 1, usb_requests := usb_requests st @ [?w]\<rparr>"
  have "wii_hci_send_command demo_wii_env (Heap 0) st = Some (USB_OK, ?st1)"
    using st(2) p demo_wii_working(2)
    by (simp add: wii_hci_send_command_def buf_ref_def slice_def usb_async_def Let_def)
  then have "wii_step demo_wii_env (st, {#Heap 0#}) (?st1, {#Heap 0#})" by (rule wii_step.send_command [rotated]) simp
  then have reach1: "wii_reach demo_wii_env ?st1 {#Heap 0#}" using wii_reach_steps [OF st(1)] by blast
  let ?f = "usb_finish ?w ?st1" and ?q = "s_wii_event_queue st"
  have len: "length (events ?q) = WII_MAX_EVENTS"
    using buf_invD(2) [OF wii_reach_inv [OF st(1)]] by (simp add: wii_ok_def queue_ok_def)
  obtain st2 where st2: "queue_event demo_wii_env WII_EVENT_SENT (Heap 0) ?f = Some st2"
      "current_index (s_wii_event_queue st2) = Suc n" "bufs st2 = bufs ?st1" "s_bt_fd st2 = 3" "usb_requests st2 = usb_requests ?f"
    using Suc.prems st(2,3) len by (simp add: queue_event_def usb_finish_def Let_def)
  then have "wii_step demo_wii_env (?st1, {#Heap 0#}) (st2, {#Heap 0#})"
    by (intro wii_step.complete [of ?w ?st1 "Inl []" demo_wii_env 0]) (simp_all add: wii_hci_send_command_cb_def)
  then have "wii_reach demo_wii_env st2 {#Heap 0#}" using wii_reach_steps [OF reach1] by blast
  moreover have "Read_intr ENDPOINT_HCI_INTR CTRL_BUF_SIZE (Intr 0) \<in> set (usb_requests st2)"
    using r st2(5) by (auto simp: usb_finish_def in_set_remove1)
  ultimately show ?case using st2 p by (intro exI [of _ st2] exI [of _ ?p]) simp
qed

theorem wii_missed_event_leaks_witness:
  "\<exists>st rc st'. wii_complete demo_wii_env (Read_intr ENDPOINT_HCI_INTR CTRL_BUF_SIZE (Intr 0)) (Inl [1, 2]) st = Some (rc, st') \<and>
     missed_events (s_wii_event_queue st') = missed_events (s_wii_event_queue st) + 1 \<and> refs st' (Intr 0) \<ge> 1"
proof -
  obtain st where st: "wii_reach demo_wii_env st {#Heap 0#}" "current_index (s_wii_event_queue st) = WII_MAX_EVENTS"
      "Read_intr ENDPOINT_HCI_INTR CTRL_BUF_SIZE (Intr 0) \<in> set (usb_requests st)"
    using demo_wii_full [of WII_MAX_EVENTS] by auto
  have ok: "usb_result_ok (Read_intr ENDPOINT_HCI_INTR CTRL_BUF_SIZE (Intr 0)) (Inl [1, 2])" by (simp add: CTRL_BUF_SIZE_def)
  then obtain rc st' where c: "wii_complete demo_wii_env (Read_intr ENDPOINT_HCI_INTR CTRL_BUF_SIZE (Intr 0)) (Inl [1, 2]) st = Some (rc, st')"
    using complete_inv [OF wii_reach_inv [OF st(1)] st(3)] by blast
  have "missed_events (s_wii_event_queue st') = missed_events (s_wii_event_queue st) + 1 \<and>
     (\<forall>st'' H''. wii_backend_steps demo_wii_env (st', {#Heap 0#}) (st'', H'') \<longrightarrow> refs st'' (Intr 0) \<ge> 1)"
    using wii_missed_event_leaks [OF st _ _ c] ok by simp
  then show ?thesis using c by blast
qed

end
