(* ===== verification/WiiLive.thy ===== *)
theory WiiLive
  imports WiiChain
begin

text \<open>
  Progress of the Wii backend: the thread processes the queue of events to its end with handlers
  that respect the references of others, and the chain of interrupt reads goes on.
\<close>

section \<open>Processing events\<close>

text \<open>
  The calls of \<^verbatim>\<open>process_event_queue\<close> into the HCI layer for a list of events.
\<close>

definition event_calls :: "wii_event list \<Rightarrow> (wii_event_type \<times> buf_ptr) list" where
  "event_calls es = map (\<lambda>e. (e_type e, the (e_buffer e))) (filter (\<lambda>e. e_type e \<noteq> WII_EVENT_SENT) es)"

text \<open>
  The contract of the functions of the layer above that the backend calls with a packet. The
  packets the layer above holds are a function \<open>held\<close> of its own state, and \<open>log\<close> is the history of
  these calls in that state. The functions return, and they do what the thread may do (\<open>wii_step\<close>:
  take references, drop their own, send, be interrupted by completions), but leave the references
  \<open>L\<close> of their callers alone.
\<close>

definition wii_handler ::
    "('q, 's) wii_usb_env \<Rightarrow> ('s \<Rightarrow> buf_ptr multiset) \<Rightarrow> ('s \<Rightarrow> (wii_event_type \<times> buf_ptr) list) \<Rightarrow> wii_event_type \<Rightarrow>
     (buf_ptr \<Rightarrow> ('q, 's) wii \<Rightarrow> ('q, 's) wii option) \<Rightarrow> bool" where
  "wii_handler E held log ty f \<longleftrightarrow> (\<forall>b st L. b \<in># L \<and> wii_reach E st (L + held (upper st)) \<longrightarrow>
     (\<exists>st'. f b st = Some st' \<and> wii_backend_steps E (st, L + held (upper st)) (st', L + held (upper st')) \<and>
        log (upper st') = log (upper st) @ [(ty, b)]))"

abbreviation wii_handlers ::
    "('q, 's) wii_usb_env \<Rightarrow> ('s \<Rightarrow> buf_ptr multiset) \<Rightarrow> ('s \<Rightarrow> (wii_event_type \<times> buf_ptr) list) \<Rightarrow> bool" where
  "wii_handlers E held log \<equiv> wii_handler E held log WII_EVENT_INTR (hci_handle_event E) \<and>
     wii_handler E held log WII_EVENT_DATA (hci_handle_data E)"

text \<open>
  From \<open>st\<close> to \<open>st'\<close> the HCI layer was called once for every event in the queue of \<open>st\<close> that carries
  incoming data, in the order of the queue, and all references of the queue are gone: what is
  held at the end is what the layer above holds.
\<close>

definition events_handled ::
    "('q, 's) wii_usb_env \<Rightarrow> ('s \<Rightarrow> buf_ptr multiset) \<Rightarrow> ('s \<Rightarrow> (wii_event_type \<times> buf_ptr) list) \<Rightarrow>
     ('q, 's) wii \<Rightarrow> ('q, 's) wii \<Rightarrow> bool" where
  "events_handled E held log st st' \<longleftrightarrow> log (upper st') = log (upper st) @ event_calls (queued st) \<and>
     wii_backend_steps E (st, held (upper st)) (st', held (upper st'))"

lemma wii_handlerD:
  "wii_handler E held log ty f \<Longrightarrow> b \<in># L \<Longrightarrow> wii_reach E st (L + held (upper st)) \<Longrightarrow>
     \<exists>st'. f b st = Some st' \<and> wii_backend_steps E (st, L + held (upper st)) (st', L + held (upper st')) \<and>
       log (upper st') = log (upper st) @ [(ty, b)]"
  unfolding wii_handler_def by blast

lemma pool_alloc_upper: "pool_alloc bs sz st = Some (b, st') \<Longrightarrow> upper st' = upper st"
  by (induction bs) (auto split: if_splits bind_splits)

lemma read_upper:
  "wii_read_intr E st = Some (rc, st') \<Longrightarrow> upper st' = upper st"
  "wii_read_bulk E st = Some (rc, st') \<Longrightarrow> upper st' = upper st"
  by (auto simp: wii_read_intr_def wii_read_bulk_def wii_buffer_intr_alloc_def wii_buffer_data_alloc_def
      usb_async_def Let_def dest!: pool_alloc_upper split: if_splits bind_splits option.splits)

lemma unref_upper:
  assumes "wii_unref E b st = Some st'"
  shows "upper st' = upper st"
proof -
  have rel: "upper s' = upper s" if "wii_release E f b s = Some s'" for f b s s'
    using that by (cases f) (auto simp: wii_buffer_free_def buf_free_def dest!: read_upper split: if_splits bind_splits)
  show ?thesis using assms unfolding wii_unref_def
    by (rule buf_unref_keeps [where P = "\<lambda>s. upper s = upper st"]) (auto dest: rel)
qed

lemma process_events_steps:
  assumes h: "wii_handlers E held log"
  shows "\<forall>e \<in> set es. e_buffer e \<noteq> None \<Longrightarrow> wii_reach E st (mset (map (the \<circ> e_buffer) es) + held (upper st)) \<Longrightarrow>
     \<exists>st'. process_events E es st = Some st' \<and> log (upper st') = log (upper st) @ event_calls es \<and>
       wii_backend_steps E (st, mset (map (the \<circ> e_buffer) es) + held (upper st)) (st', held (upper st'))"
proof (induction es arbitrary: st)
  case (Cons e es)
  then obtain b where b: "e_buffer e = Some b" by auto
  let ?R = "mset (map (the \<circ> e_buffer) es)"
  have reach: "wii_reach E st (add_mset b ?R + held (upper st))" using Cons.prems(2) b by (simp add: comp_def)
  have "\<exists>st1. (case e_type e of WII_EVENT_INTR \<Rightarrow> hci_handle_event E b st | WII_EVENT_DATA \<Rightarrow> hci_handle_data E b st
                 | WII_EVENT_SENT \<Rightarrow> Some st) = Some st1 \<and> log (upper st1) = log (upper st) @ event_calls [e] \<and>
      wii_backend_steps E (st, add_mset b ?R + held (upper st)) (st1, add_mset b ?R + held (upper st1))"
  proof (cases "e_type e")
    case WII_EVENT_SENT
    then show ?thesis by (auto simp: event_calls_def)
  next
    case WII_EVENT_INTR
    then show ?thesis using wii_handlerD [OF conjunct1 [OF h] _ reach, of b] b by (auto simp: event_calls_def)
  next
    case WII_EVENT_DATA
    then show ?thesis using wii_handlerD [OF conjunct2 [OF h] _ reach, of b] b by (auto simp: event_calls_def)
  qed
  then obtain st1 where st1: "(case e_type e of WII_EVENT_INTR \<Rightarrow> hci_handle_event E b st
        | WII_EVENT_DATA \<Rightarrow> hci_handle_data E b st | WII_EVENT_SENT \<Rightarrow> Some st) = Some st1"
      "log (upper st1) = log (upper st) @ event_calls [e]"
      "wii_backend_steps E (st, add_mset b ?R + held (upper st)) (st1, add_mset b ?R + held (upper st1))" by blast
  have "wii_inv (add_mset b (?R + held (upper st1))) st1"
    using wii_reach_inv [OF wii_reach_steps [OF reach st1(3)]] by simp
  then obtain st2 where st2: "wii_unref E b st1 = Some st2" using wii_unref_inv by blast
  have "wii_step E (st1, add_mset b ?R + held (upper st1)) (st2, ?R + held (upper st2))"
    using wii_step.unref [OF st2, of "?R + held (upper st1)"] unref_upper [OF st2] by simp
  then have steps: "wii_backend_steps E (st, add_mset b ?R + held (upper st)) (st2, ?R + held (upper st2))" using st1(3) by simp
  from Cons.IH [OF _ wii_reach_steps [OF reach steps]] Cons.prems(1) obtain st' where
    "process_events E es st2 = Some st'" "log (upper st') = log (upper st2) @ event_calls es"
    "wii_backend_steps E (st2, ?R + held (upper st2)) (st', held (upper st'))" by (auto simp: comp_def)
  moreover from this(3) steps have "wii_backend_steps E (st, add_mset b ?R + held (upper st)) (st', held (upper st'))" by simp
  moreover have "event_calls [e] @ event_calls es = event_calls (e # es)" by (simp add: event_calls_def)
  ultimately show ?case using st1(1,2) st2 b unref_upper [OF st2] by (auto simp: comp_def)
qed (simp add: event_calls_def)

lemma process_event_queue_steps:
  assumes "wii_reach E st (held (upper st))" and "wii_handlers E held log"
  shows "\<exists>st'. process_event_queue E st = Some (int (length (queued st)), st') \<and> events_handled E held log st st'"
proof -
  have ok: "queue_ok st" using buf_invD(2) [OF wii_reach_inv [OF assms(1)]] by (simp add: wii_ok_def)
  let ?st1 = "snd (wii_take_queue st)"
  have up: "upper ?st1 = upper st" by (simp add: wii_take_queue_def)
  have step: "wii_backend_steps E (st, held (upper st)) (?st1, mset (queue_bufs st) + held (upper ?st1))"
    unfolding up by (intro r_into_rtranclp wii_step.take_queue [of _ "fst (wii_take_queue st)"]) simp
  from process_events_steps [OF assms(2) _ wii_reach_steps [OF assms(1) step]] ok obtain st' where
    st': "process_events E (queued st) ?st1 = Some st'" "log (upper st') = log (upper st) @ event_calls (queued st)"
      "wii_backend_steps E (?st1, mset (queue_bufs st) + held (upper ?st1)) (st', held (upper st'))"
    by (auto simp: queue_ok_def up)
  have "length (queued st) = current_index (s_wii_event_queue st)" "\<not> length (events (s_wii_event_queue st)) < current_index (s_wii_event_queue st)"
    using ok by (simp_all add: queue_ok_def)
  then have "process_event_queue E st = Some (int (length (queued st)), st')"
    using st'(1) by (simp add: process_event_queue_def wii_take_queue_def)
  moreover have "events_handled E held log st st'"
    using st'(2) rtranclp_trans [OF step st'(3)] by (simp add: events_handled_def)
  ultimately show ?thesis by blast
qed

text \<open>The mailbox is empty after \<open>k\<close> more messages.\<close>

definition mailbox_ends :: "('q, 's) wii_usb_env \<Rightarrow> ('q, 's) wii \<Rightarrow> bool" where
  "mailbox_ends E st \<longleftrightarrow>
     (\<exists>k. \<not> fst (mq_receive E (s_event_mailbox st) (((\<lambda>q. snd (mq_receive E (s_event_mailbox st) q)) ^^ k) (mq st))))"

lemma mq_drain_returns:
  "\<not> fst (mq_receive E (s_event_mailbox st) (((\<lambda>q. snd (mq_receive E (s_event_mailbox st) q)) ^^ k) (mq st))) \<Longrightarrow>
     \<exists>q'. mq_drain E has st = Some (has \<or> fst (mq_receive E (s_event_mailbox st) (mq st)), st\<lparr>mq := q'\<rparr>)"
proof (induction k arbitrary: st has)
  case 0
  then show ?case by (subst mq_drain.simps) (auto split: prod.splits)
next
  case (Suc k)
  obtain got q where q: "mq_receive E (s_event_mailbox st) (mq st) = (got, q)" by fastforce
  show ?case
  proof (cases got)
    case True
    have "\<exists>q'. mq_drain E True (st\<lparr>mq := q\<rparr>) = Some (True, st\<lparr>mq := q, mq := q'\<rparr>)"
      using Suc.IH [of "st\<lparr>mq := q\<rparr>" True] Suc.prems q by (simp add: funpow_Suc_right del: funpow.simps)
    then show ?thesis using True q by (subst mq_drain.simps) simp
  next
    case False
    then show ?thesis using q by (subst mq_drain.simps) auto
  qed
qed

text \<open>
  C8: the event loop of the Wii. When the mailbox can be emptied and the handlers of the HCI layer
  return, respect the references of others and keep a history of their calls (\<open>wii_handlers\<close>), \<^verbatim>\<open>bte_backend_wii_process_events\<close>,
  \<^verbatim>\<open>bte_handle_events\<close> and, when a message is in the mailbox, \<^verbatim>\<open>bte_wait_events\<close> return the number of
  events in the queue, after the HCI layer was called for each event and each packet of data in
  it, exactly once and in the order in which they arrived, and every reference of the queue was
  dropped. Without a message, \<^verbatim>\<open>bte_wait_events\<close> waits; for a timeout other than 0 it is assumed that
  \<^verbatim>\<open>MQ_TimedReceive\<close> returns and that waiting is nothing but time for interrupts. If a message came,
  it then processes in the same way what the queue holds at that time, and otherwise returns 0
  and leaves the queue alone. A timeout of 0, for which \<^verbatim>\<open>bte.h\<close> allows the call to sleep for ever, is
  not covered: the code hands a time of zero to \<^verbatim>\<open>MQ_TimedReceive\<close> and leaves its meaning to it.
\<close>

theorem wii_events_processed:
  assumes "wii_reach E st (held (upper st))" and "wii_handlers E held log" and "mailbox_ends E st"
    and "timeout \<noteq> 0"
    and "\<And>mb ts s V. wii_reach E s V \<Longrightarrow> ts \<noteq> (0, 0) \<Longrightarrow>
           \<exists>got s'. mq_timed_receive E mb ts s = Some (got, s') \<and> wii_backend_steps E (s, V) (s', V) \<and> upper s' = upper s"
  shows "\<exists>q. (\<exists>st'. bte_backend_wii_process_events E st = Some (int (length (queued st)), st') \<and> events_handled E held log st st') \<and>
     (\<exists>st'. bte_handle_events (wii_backend E) st = Some (int (length (queued st)), st') \<and>
        events_handled E held log (st\<lparr>mq := q\<rparr>) st') \<and>
     (\<exists>rc st'. bte_wait_events (wii_backend E) timeout st = Some (rc, st') \<and>
        (if fst (mq_receive E (s_event_mailbox st) (mq st))
         then rc = int (length (queued st)) \<and> events_handled E held log (st\<lparr>mq := q\<rparr>) st'
         else \<exists>got st1. mq_timed_receive E (s_event_mailbox st) (unat timeout div 1000000, unat timeout mod 1000000 * 1000)
                (st\<lparr>mq := q\<rparr>) = Some (got, st1) \<and>
              (if got then rc = int (length (queued st1)) \<and> events_handled E held log st1 st' else rc = 0 \<and> st' = st1)))"
proof -
  obtain q where dr: "mq_drain E False st = Some (fst (mq_receive E (s_event_mailbox st) (mq st)), st\<lparr>mq := q\<rparr>)"
    using mq_drain_returns [of E st _ False] assms(3) by (auto simp: mailbox_ends_def)
  let ?s = "st\<lparr>mq := q\<rparr>" and ?ts = "(unat timeout div 1000000, unat timeout mod 1000000 * 1000)"
  have "wii_step E (st, held (upper st)) (?s, held (upper ?s))"
    using wii_step.above [of E st "held (upper st)", where u = "upper st" and q = q] by simp
  then have r1: "wii_reach E ?s (held (upper ?s))" using wii_reach_steps [OF assms(1)] by blast
  obtain st2 where p2: "process_event_queue E ?s = Some (int (length (queued st)), st2)" "events_handled E held log ?s st2"
    using process_event_queue_steps [OF r1 assms(2)] by auto
  have "unat timeout \<noteq> 0" using assms(4) by (simp add: unat_eq_zero)
  then have "?ts \<noteq> (0, 0)" by (auto simp: div_eq_0_iff)
  then obtain got st1 where w: "mq_timed_receive E (s_event_mailbox st) ?ts ?s = Some (got, st1)"
      "wii_backend_steps E (?s, held (upper ?s)) (st1, held (upper st1))"
    using assms(5) [OF r1] by metis
  obtain st3 where p3: "process_event_queue E st1 = Some (int (length (queued st1)), st3)" "events_handled E held log st1 st3"
    using process_event_queue_steps [OF wii_reach_steps [OF r1 w(2)] assms(2)] by auto
  have "bte_wait_events (wii_backend E) timeout st =
      (if fst (mq_receive E (s_event_mailbox st) (mq st)) then Some (int (length (queued st)), st2)
       else if got then Some (int (length (queued st1)), st3) else Some (0, st1))"
    using dr p2(1) p3(1) w(1) by (simp add: bte_wait_events_def wii_backend_def wii_handle_events_def Let_def)
  moreover have "bte_handle_events (wii_backend E) st = Some (int (length (queued st)), st2)"
    using dr p2(1) by (simp add: bte_handle_events_def wii_backend_def wii_handle_events_def)
  ultimately show ?thesis
    using process_event_queue_steps [OF assms(1,2)] p2(2) p3(2) w(1)
    by (intro exI [of _ q] conjI) (auto simp: bte_backend_wii_process_events_def)
qed

definition demo_held :: "(wii_event_type \<times> buf_ptr) list \<Rightarrow> buf_ptr multiset" where
  "demo_held calls = mset (map snd (filter (\<lambda>c. fst c = WII_EVENT_INTR) calls))"

lemma demo_wii_handlers: "wii_handlers demo_wii_env demo_held id"
proof
  show "wii_handler demo_wii_env demo_held id WII_EVENT_INTR (hci_handle_event demo_wii_env)" unfolding wii_handler_def
  proof (intro allI impI, elim conjE)
    fix b :: buf_ptr and st :: "(nat, (wii_event_type \<times> buf_ptr) list) wii" and L
    assume b: "b \<in># L" and reach: "wii_reach demo_wii_env st (L + demo_held (upper st))"
    then obtain st1 where st1: "buf_ref b st = Some st1"
      using wii_use.ref_inv [OF wii_reach_inv [OF reach], of b] by auto
    let ?st2 = "st1\<lparr>upper := upper st1 @ [(WII_EVENT_INTR, b)]\<rparr>"
    have u: "upper st1 = upper st" using st1 by (auto simp: buf_ref_def split: bind_splits)
    then have h: "L + demo_held (upper ?st2) = add_mset b (L + demo_held (upper st))" by (simp add: demo_held_def)
    have "wii_step demo_wii_env (st, L + demo_held (upper st)) (st1, L + demo_held (upper ?st2))" unfolding h
      by (intro wii_step.packets buf_edit.ref held_accessible) (use b st1 in auto)
    moreover have "wii_step demo_wii_env (st1, L + demo_held (upper ?st2)) (?st2, L + demo_held (upper ?st2))"
      using wii_step.above [of demo_wii_env st1, where u = "upper st1 @ [(WII_EVENT_INTR, b)]" and q = "mq st1"] by simp
    ultimately show "\<exists>st'. hci_handle_event demo_wii_env b st = Some st' \<and>
        wii_backend_steps demo_wii_env (st, L + demo_held (upper st)) (st', L + demo_held (upper st')) \<and>
        id (upper st') = id (upper st) @ [(WII_EVENT_INTR, b)]"
      using st1 u by (intro exI [of _ ?st2]) (simp add: demo_wii_env_def)
  qed
  show "wii_handler demo_wii_env demo_held id WII_EVENT_DATA (hci_handle_data demo_wii_env)" unfolding wii_handler_def
  proof (intro allI impI, elim conjE)
    fix b :: buf_ptr and st :: "(nat, (wii_event_type \<times> buf_ptr) list) wii" and L
    let ?st1 = "st\<lparr>upper := upper st @ [(WII_EVENT_DATA, b)]\<rparr>"
    have "demo_held (upper ?st1) = demo_held (upper st)" by (simp add: demo_held_def)
    moreover have "wii_step demo_wii_env (st, H) (?st1, H)" for H
      using wii_step.above [of demo_wii_env st H, where u = "upper st @ [(WII_EVENT_DATA, b)]" and q = "mq st"] by simp
    ultimately show "\<exists>st'. hci_handle_data demo_wii_env b st = Some st' \<and>
        wii_backend_steps demo_wii_env (st, L + demo_held (upper st)) (st', L + demo_held (upper st')) \<and>
        id (upper st') = id (upper st) @ [(WII_EVENT_DATA, b)]"
      by (intro exI [of _ ?st1]) (auto simp: demo_wii_env_def)
  qed
qed

text \<open>A state with an event in the queue: the first read has completed with two bytes.\<close>

lemma demo_wii_event:
  "\<exists>st. wii_reach demo_wii_env st {#} \<and> upper st = [] \<and> queued st = [\<lparr>e_type = WII_EVENT_INTR, e_buffer = Some (Intr 0)\<rparr>]"
proof -
  let ?r = "Read_intr ENDPOINT_HCI_INTR CTRL_BUF_SIZE (Intr 0)"
  obtain st where st: "wii_reach demo_wii_env st {#}"
      "usb_requests st = [?r, Read_blk ENDPOINT_ACL_IN ACL_BUF_SIZE (Data 0)]"
      "current_index (s_wii_event_queue st) = 0" "upper st = []"
    using demo_wii_reach by blast
  have ok: "usb_result_ok ?r (Inl [1, 2])" by (simp add: CTRL_BUF_SIZE_def)
  note inv = wii_reach_inv [OF st(1)]
  obtain rc st' where c: "wii_complete demo_wii_env ?r (Inl [1, 2]) st = Some (rc, st')"
    using complete_inv [OF inv _ ok, of demo_wii_env] st(2) by auto
  then obtain st1 where st1: "usb_deliver (Intr 0) [1, 2] (usb_finish ?r st) \<bind> read_cb demo_wii_env WII_EVENT_INTR 2 (Intr 0) = Some st1"
      "wii_read_intr demo_wii_env st1 = Some (rc, st')"
    by (auto simp: complete_read_eq split: bind_splits)
  have "read_ok st ?r" using buf_invD(2) [OF inv] st(2) by (simp add: wii_ok_def)
  then obtain p where p: "bufs st (Intr 0) = Some p" "b_next p = None" by (auto simp: read_ok_def)
  have len: "length (events (s_wii_event_queue st)) = WII_MAX_EVENTS" using buf_invD(2) [OF inv] by (simp add: wii_ok_def queue_ok_def)
  obtain p1 where p1: "usb_deliver (Intr 0) [1, 2] (usb_finish ?r st) = Some (set_buf (Intr 0) p1 (usb_finish ?r st))" "b_next p1 = None"
    using st1(1) p by (auto simp: usb_deliver_def usb_finish_def split: bind_splits)
  have "queued st1 = [\<lparr>e_type = WII_EVENT_INTR, e_buffer = Some (Intr 0)\<rparr>] \<and> upper st1 = []"
    using st1(1) p1 shrink_alone [of "set_buf (Intr 0) p1 (usb_finish ?r st)" "Intr 0" p1] st(3,4) len
    by (auto simp: read_cb_def queue_event_def usb_finish_def Let_def take_Suc_conv_app_nth WII_MAX_EVENTS_def)
  then have "queued st' = [\<lparr>e_type = WII_EVENT_INTR, e_buffer = Some (Intr 0)\<rparr>] \<and> upper st' = []"
    using read_queue(1) [OF st1(2)] read_upper(1) [OF st1(2)] by simp
  moreover have "wii_reach demo_wii_env st' {#}"
    using wii_reach_steps [OF st(1) r_into_rtranclp [of "wii_step demo_wii_env"]] wii_step.complete [OF _ ok c, of "{#}"] st(2) by simp
  ultimately show ?thesis by blast
qed

theorem wii_events_processed_witness:
  "\<exists>st st'. wii_reach demo_wii_env st {#} \<and> bte_handle_events (wii_backend demo_wii_env) st = Some (1, st') \<and>
     upper st' = [(WII_EVENT_INTR, Intr 0)] \<and> refs st' (Intr 0) \<ge> 1"
proof -
  obtain st where st: "wii_reach demo_wii_env st {#}" "upper st = []" "queued st = [\<lparr>e_type = WII_EVENT_INTR, e_buffer = Some (Intr 0)\<rparr>]"
    using demo_wii_event by blast
  have r: "wii_reach demo_wii_env st (demo_held (upper st))" using st by (simp add: demo_held_def)
  have "((\<lambda>q. q - 1) ^^ k) (q :: nat) = q - k" for k q by (induction k) auto
  then have mb: "mailbox_ends demo_wii_env st" unfolding mailbox_ends_def
    by (intro exI [of _ "mq st"]) (simp add: demo_wii_env_def)
  have "\<exists>got s'. mq_timed_receive demo_wii_env mb ts s = Some (got, s') \<and> wii_backend_steps demo_wii_env (s, V) (s', V) \<and> upper s' = upper s"
    for mb ts s V by (rule exI [of _ False], rule exI [of _ s]) (simp add: demo_wii_env_def)
  from wii_events_processed [OF r demo_wii_handlers mb _ this, of 1000] obtain q st' where
    st': "bte_handle_events (wii_backend demo_wii_env) st = Some (int (length (queued st)), st')"
      "events_handled demo_wii_env demo_held id (st\<lparr>mq := q\<rparr>) st'" by auto
  have up: "upper st' = [(WII_EVENT_INTR, Intr 0)]" using st'(2) st(2,3) by (simp add: events_handled_def event_calls_def)
  have "wii_step demo_wii_env (st, {#}) (st\<lparr>mq := q\<rparr>, {#})"
    using wii_step.above [of demo_wii_env st "{#}", where u = "upper st" and q = q] by simp
  moreover have "wii_backend_steps demo_wii_env (st\<lparr>mq := q\<rparr>, {#}) (st', {#Intr 0#})"
    using st'(2) st(2) up by (simp add: events_handled_def demo_held_def)
  ultimately have "wii_backend_steps demo_wii_env (st, {#}) (st', {#Intr 0#})" by (rule converse_rtranclp_into_rtranclp)
  then have "refs st' (Intr 0) \<ge> 1"
    using buf_inv_held [OF wii_reach_inv [OF wii_reach_steps [OF st(1)]], of st' "{#Intr 0#}" "Intr 0"] by (auto simp: refs_def)
  then show ?thesis using st st'(1) up by auto
qed

section \<open>The chain of interrupt reads\<close>

text \<open>
  The device is closed, or a read of events is in progress, or the flag is up and every packet of
  the pool is in use, except for packets \<open>X\<close> that are about to be released.
\<close>

definition intr_alive :: "buf_ptr set \<Rightarrow> ('q, 's) wii \<Rightarrow> bool" where
  "intr_alive X st \<longleftrightarrow> s_bt_fd st < 0 \<or> (\<exists>b. Read_intr ENDPOINT_HCI_INTR CTRL_BUF_SIZE b \<in> set (usb_requests st)) \<or>
     s_intr_request_failed st \<and> (\<forall>b \<in> set intr_pool - X. refs st b \<noteq> 0)"

lemma intr_alive_mono:
  assumes "intr_alive X st" and "s_bt_fd st' = s_bt_fd st" and "s_intr_request_failed st' = s_intr_request_failed st"
    and "\<And>b. Read_intr ENDPOINT_HCI_INTR CTRL_BUF_SIZE b \<in> set (usb_requests st) \<Longrightarrow>
           Read_intr ENDPOINT_HCI_INTR CTRL_BUF_SIZE b \<in> set (usb_requests st')"
    and "\<And>b. b \<in> set intr_pool \<Longrightarrow> b \<notin> X \<Longrightarrow> refs st b \<noteq> 0 \<Longrightarrow> refs st' b \<noteq> 0"
  shows "intr_alive X st'"
  using assms unfolding intr_alive_def by (metis DiffD1 DiffD2 DiffI)

lemma pool_alloc_result:
  "pool_alloc bs sz st = Some (None, st') \<Longrightarrow> st' = st \<and> (\<forall>b \<in> set bs. refs st b \<noteq> 0)"
  "pool_alloc bs sz st = Some (Some b, st') \<Longrightarrow> \<exists>p. b \<in> set bs \<and> bufs st b = Some p \<and> st' = set_buf b (pool_take sz p) st"
  by (induction bs) (auto simp: refs_def split: if_splits bind_splits)

lemma read_intr_alive:
  assumes sub: "\<And>n r. usb_submit E n r = USB_OK" and "wii_read_intr E st = Some (rc, st')"
  shows "intr_alive X st'"
proof (cases "s_bt_fd st < 0")
  case True
  then show ?thesis using assms(2) by (simp add: wii_read_intr_def intr_alive_def)
next
  case False
  then obtain buf st1 where al: "pool_alloc intr_pool (of_nat CTRL_BUF_SIZE) st = Some (buf, st1)"
    using assms(2) by (auto simp: wii_read_intr_def wii_buffer_intr_alloc_def intr_pool_def Let_def split: bind_splits)
  show ?thesis
  proof (cases buf)
    case None
    then show ?thesis using assms(2) al False pool_alloc_result(1) [OF al [unfolded None]]
      by (auto simp: wii_read_intr_def wii_buffer_intr_alloc_def intr_alive_def refs_def simp flip: intr_pool_def)
  next
    case (Some b)
    then have "st' = snd (usb_async E (Read_intr ENDPOINT_HCI_INTR CTRL_BUF_SIZE b) st1)"
      using assms(2) al False
      by (auto simp: wii_read_intr_def wii_buffer_intr_alloc_def buf_contiguous_data_def CTRL_BUF_SIZE_def
          simp flip: intr_pool_def split: bind_splits if_splits)
    then show ?thesis using sub by (auto simp: usb_async_def intr_alive_def)
  qed
qed

lemma read_bulk_alive:
  assumes sub: "\<And>n r. usb_submit E n r = USB_OK" and rd: "wii_read_bulk E st = Some (rc, st')" and al: "intr_alive X st"
  shows "intr_alive X st'"
proof (cases "s_bt_fd st < 0")
  case True
  then show ?thesis using rd by (simp add: wii_read_bulk_def intr_alive_def)
next
  case False
  then obtain buf st1 where pa: "pool_alloc data_pool (of_nat ACL_BUF_SIZE) st = Some (buf, st1)"
    using rd by (auto simp: wii_read_bulk_def wii_buffer_data_alloc_def data_pool_def Let_def split: bind_splits)
  have disj: "b \<in> set data_pool \<Longrightarrow> b \<notin> set intr_pool" for b by (auto simp: data_pool_def intr_pool_def)
  show ?thesis
  proof (cases buf)
    case None
    then have "st' = st\<lparr>s_bulk_request_failed := True\<rparr>" using rd pa False pool_alloc_result(1) [of data_pool _ st st1]
      by (auto simp: wii_read_bulk_def wii_buffer_data_alloc_def simp flip: data_pool_def)
    then show ?thesis using al by (auto simp: intr_alive_def refs_def)
  next
    case (Some b)
    then obtain p where st1: "b \<in> set data_pool" "st1 = set_buf b (pool_take (of_nat ACL_BUF_SIZE) p) st"
      using pool_alloc_result(2) pa by blast
    have "st' = snd (usb_async E (Read_blk ENDPOINT_ACL_IN ACL_BUF_SIZE b) st1)"
      using rd pa False Some
      by (auto simp: wii_read_bulk_def wii_buffer_data_alloc_def buf_contiguous_data_def ACL_BUF_SIZE_def
          simp flip: data_pool_def split: bind_splits if_splits)
    then show ?thesis
      using sub st1 disj [OF st1(1)]
      by (intro intr_alive_mono [OF al]) (auto simp: usb_async_def Let_def refs_def)
  qed
qed

lemma release_alive:
  assumes sub: "\<And>n r. usb_submit E n r = USB_OK" and rl: "wii_release E (release_of b) b st = Some st'"
    and al: "intr_alive (insert b X) st"
  shows "intr_alive X st'"
proof (cases "on_heap b")
  case True
  then obtain a where b: "b = Heap a" by (cases b) auto
  then have st': "st' = st\<lparr>bufs := (bufs st)(b := None)\<rparr>" using rl by (auto simp: buf_free_def split: bind_splits)
  have "b \<notin> set intr_pool" using b by (auto simp: intr_pool_def)
  then have "intr_alive X st" using al by (auto simp: intr_alive_def)
  then show ?thesis
    by (rule intr_alive_mono) (use \<open>b \<notin> set intr_pool\<close> in \<open>auto simp: st' refs_def\<close>)
next
  case False
  then have free: "wii_buffer_free E b st = Some st'" using rl by (cases b) auto
  show ?thesis
  proof (cases "s_intr_request_failed st")
    case True
    then obtain rc where "wii_read_intr E (st\<lparr>s_intr_request_failed := False\<rparr>) = Some (rc, st')"
      using free by (auto simp: wii_buffer_free_def)
    then show ?thesis using read_intr_alive [OF sub] by blast
  next
    case flag: False
    then have X: "intr_alive X st" using al by (simp add: intr_alive_def)
    show ?thesis
    proof (cases "s_bulk_request_failed st")
      case True
      then obtain rc where "wii_read_bulk E (st\<lparr>s_bulk_request_failed := False\<rparr>) = Some (rc, st')"
        using free flag by (auto simp: wii_buffer_free_def)
      moreover have "intr_alive X (st\<lparr>s_bulk_request_failed := False\<rparr>)" using X by (simp add: intr_alive_def refs_def)
      ultimately show ?thesis using read_bulk_alive [OF sub] by blast
    next
      case False
      then show ?thesis using free flag X by (simp add: wii_buffer_free_def)
    qed
  qed
qed

lemma unref_alive:
  assumes sub: "\<And>n r. usb_submit E n r = USB_OK" and inv: "wii_inv (add_mset b H) st"
    and un: "wii_unref E b st = Some st'" and al: "intr_alive {} st"
  shows "intr_alive {} st'"
proof -
  have "\<exists>st'. buf_unref (wii_release E) b st = Some st' \<and> wii_inv H st' \<and> buf_keeps b st st' \<and> intr_alive {} st'"
  proof (rule wii_rel.unref_inv_with [where Q = intr_alive, OF inv al])
    fix X :: "buf_ptr set" and st1 :: "('a, 'b) wii" and b and p :: usb_buffer assume "intr_alive X st1"
    then show "intr_alive (insert b X) (set_buf b p st1)" "b_ref_count p > 0 \<Longrightarrow> intr_alive X (set_buf b p st1)"
      by (auto simp: intr_alive_def)
  qed (use release_alive [OF sub] in blast)
  then show ?thesis using un by (auto simp: wii_unref_def)
qed

lemma queue_event_alive: "queue_event E ty b st = Some st' \<Longrightarrow> intr_alive X st \<Longrightarrow> intr_alive X st'"
  by (auto simp: queue_event_def Let_def intr_alive_def refs_def split: if_splits)

lemma finish_alive:
  assumes "intr_alive X st" and "\<And>ep len b. r \<noteq> Read_intr ep len b"
  shows "intr_alive X (usb_finish r st)"
  by (rule intr_alive_mono [OF assms(1)]) (use assms(2) [THEN not_sym] in \<open>auto simp: usb_finish_def in_set_remove1 refs_def\<close>)

lemma set_alive: "intr_alive X st \<Longrightarrow> bufs st b = Some p \<Longrightarrow> b_ref_count p' = b_ref_count p \<Longrightarrow> intr_alive X (set_buf b p' st)"
  by (rule intr_alive_mono) (auto simp: refs_def)

lemma shrink_loop_alive: "buf_shrink_loop b sz st = Some st' \<Longrightarrow> intr_alive X st \<Longrightarrow> intr_alive X st'"
proof (induction rule: buf_shrink_loop.raw_induct [rotated, consumes 1])
  case (1 f b sz st st')
  show ?case
  proof (cases b)
    case None
    then show ?thesis using "1"(2,3) by simp
  next
    case (Some a)
    then obtain p where p: "bufs st a = Some p" using "1"(2) by (cases "bufs st a") auto
    define p' where "p' = (if b_size p > sz then p\<lparr>b_size := sz\<rparr> else p)"
    have "f (b_next p') (sz - b_size p') (set_buf a p' st) = Some st'"
      using "1"(2) Some p by (simp add: p'_def Let_def)
    moreover have "intr_alive X (set_buf a p' st)" using "1"(3) p by (rule set_alive) (simp add: p'_def)
    ultimately show ?thesis using "1"(1) by blast
  qed
qed

lemma shrink_alive:
  assumes "buf_shrink b sz st = Some st'" and "intr_alive X st"
  shows "intr_alive X st'"
proof -
  obtain p where "bufs st b = Some p" "buf_shrink_loop (Some b) sz (set_buf b (p\<lparr>b_total_size := sz\<rparr>) st) = Some st'"
    using assms(1) by (auto simp: buf_shrink_def split: bind_splits)
  then show ?thesis using shrink_loop_alive set_alive [OF assms(2), of b p "p\<lparr>b_total_size := sz\<rparr>"] by simp
qed

lemma read_cb_alive:
  assumes "\<And>n r. usb_submit E n r = USB_OK" and "wii_inv (add_mset b H) st" and "intr_alive {} st"
    and "read_cb E ty n b st = Some st'"
  shows "intr_alive {} st'"
proof (cases "n > 0")
  case True
  then obtain st1 where "buf_shrink b (word_of_int n) st = Some st1" "queue_event E ty b st1 = Some st'"
    using assms(4) by (auto simp: read_cb_def split: bind_splits)
  then show ?thesis using assms(3) shrink_alive queue_event_alive by blast
next
  case False
  then show ?thesis using assms(4) unref_alive [OF assms(1,2) _ assms(3)] by (simp add: read_cb_def)
qed

lemma complete_alive:
  assumes sub: "\<And>n r. usb_submit E n r = USB_OK" and inv: "wii_inv H st" and r: "r \<in> set (usb_requests st)"
    and res: "usb_result_ok r res" and c: "wii_complete E r res st = Some (rc, st')" and al: "intr_alive {} st"
  shows "intr_alive {} st'"
proof (cases r)
  case (Read_intr ep len b)
  then show ?thesis using c read_intr_alive [OF sub] by (auto simp: complete_read_eq split: bind_splits)
next
  case (Read_blk ep len b)
  have fin: "intr_alive {} (usb_finish r st)" "wii_inv (add_mset b H) (usb_finish r st)"
    using finish_alive [OF al, of r] finish_inv [OF inv r] Read_blk by simp_all
  then obtain p where p: "bufs (usb_finish r st) b = Some p" using buf_inv_held [OF fin(2), of b] by auto
  have "read_ok st r" using buf_invD(2) [OF inv] r Read_blk by (simp add: wii_ok_def)
  then have b: "b \<in> set data_pool" "len = ACL_BUF_SIZE" using Read_blk by (auto simp: read_ok_def)
  have d: "intr_alive {} st1 \<and> wii_inv (add_mset b H) st1"
    if "usb_deliver b bs (usb_finish r st) = Some st1" "length bs \<le> len" for bs st1
  proof
    show "intr_alive {} st1" using that(1) p set_alive [OF fin(1) p] by (auto simp: usb_deliver_def split: bind_splits)
    show "wii_inv (add_mset b H) st1"
      using that deliver_inv [OF fin(2) p, of bs] pool_inv(2) [OF fin(2) b(1)] p b(2) by auto
  qed
  obtain st1 where st1: "wii_read_bulk E st1 = Some (rc, st')" "intr_alive {} st1"
  proof (cases res)
    case (Inl bs)
    then obtain st0 st1 where "usb_deliver b bs (usb_finish r st) = Some st0"
        "read_cb E WII_EVENT_DATA (int (length bs)) b st0 = Some st1" "wii_read_bulk E st1 = Some (rc, st')"
      using c Read_blk by (auto simp: complete_read_eq split: bind_splits)
    then show ?thesis using that d [of bs st0] res Inl Read_blk read_cb_alive [OF sub, of b H st0] by auto
  next
    case (Inr n)
    then obtain st1 where "read_cb E WII_EVENT_DATA n b (usb_finish r st) = Some st1" "wii_read_bulk E st1 = Some (rc, st')"
      using c Read_blk by (auto simp: complete_read_eq split: bind_splits)
    then show ?thesis using that fin read_cb_alive [OF sub fin(2,1)] by blast
  qed
  then show ?thesis using read_bulk_alive [OF sub] by blast
next
  case (Write_ctrl b sent)
  then show ?thesis using c finish_alive [OF al, of r]
    by (auto simp: wii_hci_send_command_cb_def dest: queue_event_alive split: bind_splits)
next
  case (Write_blk ep b sent)
  then show ?thesis using c finish_alive [OF al, of r] finish_inv [OF inv r] unref_alive [OF sub, of b H "usb_finish r st"]
    by (auto simp: wii_hci_send_data_cb_def split: bind_splits)
qed

lemma ref_alive: "wii_inv H st \<Longrightarrow> b \<in># H \<Longrightarrow> buf_ref b st = Some st' \<Longrightarrow> intr_alive X st \<Longrightarrow> intr_alive X st'"
  using buf_inv_held [of wii_users wii_ok H st b]
  by (elim intr_alive_mono) (auto simp: buf_ref_def split: if_splits)

lemma async_alive: "intr_alive X st \<Longrightarrow> usb_async E r st = (rc, st') \<Longrightarrow> intr_alive X st'"
  by (elim intr_alive_mono) (auto simp: usb_async_def Let_def refs_def split: if_splits)

lemma send_alive:
  assumes sub: "\<And>n r. usb_submit E n r = USB_OK" and inv: "wii_inv H st" "b \<in># H" and al: "intr_alive X st"
  shows "wii_hci_send_command E b st = Some (rc, st') \<Longrightarrow> intr_alive X st'"
    and "wii_hci_send_data E b st = Some (rc, st') \<Longrightarrow> intr_alive X st'"
proof -
  have ok: "usb_async E r s = (n, s') \<Longrightarrow> n = USB_OK" for r s n s' using sub by (auto simp: usb_async_def Let_def)
  have ref: "buf_ref b st = Some s \<Longrightarrow> usb_async E r s = (n, s') \<Longrightarrow> intr_alive X s'" for r s n s'
    using async_alive ref_alive [OF inv _ al] by blast
  show "wii_hci_send_command E b st = Some (rc, st') \<Longrightarrow> intr_alive X st'"
    and "wii_hci_send_data E b st = Some (rc, st') \<Longrightarrow> intr_alive X st'"
    using al by (auto simp: wii_hci_send_command_def wii_hci_send_data_def split: if_splits bind_splits prod.splits
        dest: ok ref)
qed

lemma step_alive:
  assumes sub: "\<And>n r. usb_submit E n r = USB_OK" and cl: "\<And>fd. usb_close_device E fd < 0"
    and "wii_step E c c'" and "wii_inv (snd c) (fst c)" and "intr_alive {} (fst c)"
  shows "intr_alive {} (fst c')"
  using assms(3)
proof cases
  case (complete r st res rc st' H)
  then show ?thesis using complete_alive [OF sub, of H st r res rc st'] assms(4,5) by simp
next
  case (take_queue st queue st' H)
  then show ?thesis using assms(5) by (auto simp: wii_take_queue_def intr_alive_def refs_def)
next
  case (packets st H st' H')
  have "refs st' x \<noteq> 0" if "refs st x \<noteq> 0" for x
    using buf_edit_refs [OF packets(3), of x] that buf_invD(4) [OF assms(4), of x] packets by simp
  moreover obtain m where "st' = st\<lparr>bufs := m\<rparr>" using buf_edit_bufs [OF packets(3)] by auto
  ultimately show ?thesis using assms(5) packets by (auto elim!: intr_alive_mono)
next
  case (unref b st st' H)
  then show ?thesis using assms(4,5) unref_alive [OF sub] by fastforce
next
  case (send_command b H st rc st')
  then show ?thesis using send_alive(1) [OF sub, of H st b] assms(4,5) by simp
next
  case (send_data b H st rc st')
  then show ?thesis using send_alive(2) [OF sub, of H st b] assms(4,5) by simp
next
  case (deinit st rc st' H)
  then show ?thesis using cl by (auto simp: wii_deinit_def intr_alive_def)
qed (use assms(5) in \<open>auto simp: bte_backend_wii_set_mailbox_def intr_alive_def refs_def\<close>)

lemma wii_steps_alive:
  assumes "\<And>n r. usb_submit E n r = USB_OK" and "\<And>fd. usb_close_device E fd < 0"
    and "wii_backend_steps E c c'" and "wii_inv (snd c) (fst c)" and "intr_alive {} (fst c)"
  shows "intr_alive {} (fst c')"
proof -
  from assms(3) have "wii_inv (snd c') (fst c') \<and> intr_alive {} (fst c')"
  proof induction
    case base
    then show ?case using assms(4,5) by simp
  next
    case (step d e)
    then show ?case using step_alive [OF assms(1,2) step(2)] wii_step_inv [OF step(2), of "{#}"] by simp
  qed
  then show ?thesis by simp
qed

lemma init_alive:
  assumes "\<And>n r. usb_submit E n r = USB_OK" and "wii_backend_init E (wii_boot q u) = Some (0, st)"
  shows "intr_alive {} st"
  using assms(2) read_intr_alive [OF assms(1)] read_bulk_alive [OF assms(1)]
  by (auto simp: wii_backend_init_def ENOMEM_def Let_def split: if_splits prod.splits bind_splits)

text \<open>
  C10: the chain of interrupt reads does not stop. If the controller takes every submission, then in
  every state reached, as long as the device is open, a read of events is in progress, or all 16
  packets of the pool are in use and the flag that makes \<^verbatim>\<open>wii_buffer_free\<close> restart the chain is up:
  it is never the case that a packet is free and nobody reads.
\<close>

theorem wii_intr_reading_goes_on:
  assumes "\<forall>n r. usb_submit E n r = USB_OK" and "\<forall>fd. usb_close_device E fd < 0"
    and "wii_reach E st H" and "s_bt_fd st \<ge> 0"
  shows "(\<exists>b. Read_intr ENDPOINT_HCI_INTR CTRL_BUF_SIZE b \<in> set (usb_requests st)) \<or>
     s_intr_request_failed st \<and> (\<forall>i < WII_BUFFER_INTR_COUNT. refs st (Intr i) > 0)"
proof -
  obtain q u st0 where st0: "wii_backend_init E (wii_boot q u) = Some (0, st0)" "wii_backend_steps E (st0, {#}) (st, H)"
    using assms(3) unfolding wii_reach_def by blast
  have "intr_alive {} st"
    using wii_steps_alive [OF _ _ st0(2)] assms(1,2) init_alive [OF _ st0(1)] init_inv [OF st0(1)] by simp
  moreover have "refs st b \<ge> 0" for b using buf_invD(4) [OF wii_reach_inv [OF assms(3)], of b] by linarith
  ultimately show ?thesis using assms(4) by (fastforce simp: intr_alive_def intr_pool_def order.strict_iff_order)
qed

theorem wii_intr_reading_goes_on_witness:
  "\<exists>st H. wii_reach demo_wii_env st H \<and> current_index (s_wii_event_queue st) = 100 \<and>
     ((\<exists>b. Read_intr ENDPOINT_HCI_INTR CTRL_BUF_SIZE b \<in> set (usb_requests st)) \<or> s_intr_request_failed st)"
proof -
  obtain st where st: "wii_reach demo_wii_env st {#Heap 0#}" "s_bt_fd st = 3" "current_index (s_wii_event_queue st) = 100"
    using demo_wii_full [of 100] by (auto simp: WII_MAX_EVENTS_def)
  have cl: "\<forall>fd. usb_close_device demo_wii_env fd < 0" by (simp add: demo_wii_env_def)
  show ?thesis using wii_intr_reading_goes_on [OF _ cl st(1)] demo_wii_working(2) st by auto
qed

section \<open>A refused read\<close>

definition intr_stopped :: "('q, 's) wii \<Rightarrow> bool" where
  "intr_stopped st \<longleftrightarrow> (\<forall>ep len b. Read_intr ep len b \<notin> set (usb_requests st)) \<and> \<not> s_intr_request_failed st"

lemma stopped_set [simp]: "intr_stopped (st\<lparr>bufs := m\<rparr>) = intr_stopped st"
  by (simp add: intr_stopped_def)

lemma async_stopped: "usb_async E r st = (rc, st') \<Longrightarrow> \<not> (\<exists>ep len b. r = Read_intr ep len b) \<Longrightarrow> intr_stopped st \<Longrightarrow> intr_stopped st'"
  by (auto simp: usb_async_def Let_def intr_stopped_def split: if_splits)

lemma pool_alloc_stopped: "pool_alloc bs sz st = Some (b, st') \<Longrightarrow> intr_stopped st' = intr_stopped st"
  by (induction bs) (auto split: if_splits bind_splits)

lemma read_bulk_stopped: "wii_read_bulk E st = Some (rc, st') \<Longrightarrow> intr_stopped st \<Longrightarrow> intr_stopped st'"
  by (auto simp: wii_read_bulk_def wii_buffer_data_alloc_def Let_def dest!: pool_alloc_stopped
      split: if_splits bind_splits option.splits elim!: async_stopped) (simp_all add: intr_stopped_def)

lemma release_stopped:
  assumes "wii_release E f b st = Some st'" and "intr_stopped st"
  shows "intr_stopped st'"
proof (cases f)
  case Wii_buffer_free
  have flag: "\<not> s_intr_request_failed st" using assms(2) by (simp add: intr_stopped_def)
  show ?thesis
  proof (cases "s_bulk_request_failed st")
    case True
    then obtain rc where "wii_read_bulk E (st\<lparr>s_bulk_request_failed := False\<rparr>) = Some (rc, st')"
      using assms(1) flag Wii_buffer_free by (auto simp: wii_buffer_free_def)
    then show ?thesis by (rule read_bulk_stopped) (use assms(2) in \<open>simp add: intr_stopped_def\<close>)
  next
    case False
    then show ?thesis using assms flag Wii_buffer_free by (simp add: wii_buffer_free_def)
  qed
next
  case Bte_free
  then show ?thesis using assms by (auto simp: buf_free_def split: bind_splits)
qed

lemma unref_stopped: "wii_unref E b st = Some st' \<Longrightarrow> intr_stopped st \<Longrightarrow> intr_stopped st'"
  unfolding wii_unref_def by (rule buf_unref_keeps [where P = intr_stopped]) (auto dest: release_stopped)

lemma queue_event_stopped: "queue_event E ty b st = Some st' \<Longrightarrow> intr_stopped st \<Longrightarrow> intr_stopped st'"
  by (auto simp: queue_event_def Let_def intr_stopped_def split: if_splits)

lemma finish_stopped:
  assumes "intr_stopped st"
  shows "intr_stopped (usb_finish r st)"
proof -
  have "set (usb_requests (usb_finish r st)) \<subseteq> set (usb_requests st)"
    "s_intr_request_failed (usb_finish r st) = s_intr_request_failed st"
    by (simp_all add: usb_finish_def set_remove1_subset)
  then show ?thesis using assms unfolding intr_stopped_def by blast
qed

lemma shrink_stopped_loop: "buf_shrink_loop b sz st = Some st' \<Longrightarrow> intr_stopped st' = intr_stopped st"
  by (induction rule: buf_shrink_loop.raw_induct [rotated, consumes 1])
     (auto simp: Let_def split: option.splits bind_splits)

lemma read_cb_stopped: "read_cb E ty n b st = Some st' \<Longrightarrow> intr_stopped st \<Longrightarrow> intr_stopped st'"
  by (auto simp: read_cb_def buf_shrink_def dest!: shrink_stopped_loop dest: unref_stopped queue_event_stopped
      split: if_splits bind_splits)

lemma complete_stopped:
  assumes "r \<in> set (usb_requests st)" and "wii_complete E r res st = Some (rc, st')" and st: "intr_stopped st"
  shows "intr_stopped st'"
proof (cases r)
  case (Read_intr ep len b)
  then show ?thesis using assms(1) st by (simp add: intr_stopped_def)
next
  case (Read_blk ep len b)
  have fin: "intr_stopped (usb_finish r st)" using finish_stopped [OF st] .
  have del: "intr_stopped st1" if "usb_deliver b bs (usb_finish r st) = Some st1" for bs st1
    using that fin by (auto simp: usb_deliver_def split: bind_splits)
  obtain st1 st2 n where "intr_stopped st1" "read_cb E WII_EVENT_DATA n b st1 = Some st2" "wii_read_bulk E st2 = Some (rc, st')"
    using assms(2) Read_blk fin del by (auto simp: complete_read_eq split: sum.splits bind_splits) blast
  then show ?thesis using read_cb_stopped read_bulk_stopped by blast
next
  case (Write_ctrl b sent)
  then show ?thesis using assms(2) finish_stopped [OF st, of r]
    by (auto simp: wii_hci_send_command_cb_def dest: queue_event_stopped split: bind_splits)
next
  case (Write_blk ep b sent)
  then show ?thesis using assms(2) finish_stopped [OF st, of r]
    by (auto simp: wii_hci_send_data_cb_def dest: unref_stopped split: bind_splits)
qed

lemma send_stopped:
  assumes "intr_stopped st"
  shows "wii_hci_send_command E b st = Some (rc, st') \<Longrightarrow> intr_stopped st'"
    and "wii_hci_send_data E b st = Some (rc, st') \<Longrightarrow> intr_stopped st'"
proof -
  have ref: "intr_stopped s'" if "buf_ref b st = Some s" "usb_async E r s = (n, s')" "\<not> (\<exists>ep len b. r = Read_intr ep len b)" for r s n s'
    using that assms async_stopped by (fastforce simp: buf_ref_def split: bind_splits)
  show "wii_hci_send_command E b st = Some (rc, st') \<Longrightarrow> intr_stopped st'"
    using assms by (auto simp: wii_hci_send_command_def split: if_splits bind_splits prod.splits dest!: ref dest: unref_stopped)
  show "wii_hci_send_data E b st = Some (rc, st') \<Longrightarrow> intr_stopped st'"
    using assms by (auto simp: wii_hci_send_data_def split: if_splits bind_splits prod.splits dest!: ref dest: unref_stopped)
qed

lemma steps_stopped:
  assumes "wii_backend_steps E c c'" and "intr_stopped (fst c)"
  shows "intr_stopped (fst c')"
  using assms
proof induction
  case (step d e)
  have d: "intr_stopped (fst d)" using step by simp
  from step(2) show ?case
  proof cases
    case (complete r st res rc st' H)
    then show ?thesis using d complete_stopped by simp
  next
    case (packets st H st' H')
    then show ?thesis using d buf_edit_bufs [OF packets(3)] by auto
  next
    case (send_command b H st rc st')
    then show ?thesis using d send_stopped(1) by simp
  next
    case (send_data b H st rc st')
    then show ?thesis using d send_stopped(2) by simp
  next
    case (unref b st st' H)
    then show ?thesis using d unref_stopped by simp
  qed (use d in \<open>auto simp: wii_take_queue_def intr_stopped_def bte_backend_wii_set_mailbox_def wii_deinit_def\<close>)
qed

text \<open>
  C36: a refused read stops the events. When a read of an event completes and the controller refuses
  the next submission (\<^verbatim>\<open>USB_ReadIntrMsgAsync\<close> fails, although a packet was free), \<^verbatim>\<open>read_intr_cb\<close>
  returns the error to the controller and nothing else happens: the packet taken for the read is
  never free again, and in all states reached from then on no read of events is in progress and
  the flag that would restart the chain is down, so the library receives no event any more.
\<close>

theorem wii_refused_read_stops:
  assumes "wii_reach E st H" and "Read_intr ep len b \<in> set (usb_requests st)"
    and "\<forall>ep' len' b'. Read_intr ep' len' b' \<notin> set (usb_requests (usb_finish (Read_intr ep len b) st))"
    and "\<not> s_intr_request_failed st" and "s_bt_fd st \<ge> 0" and "i < WII_BUFFER_INTR_COUNT" and "refs st (Intr i) = 0"
    and "\<forall>r. usb_submit E (usb_calls st) r \<noteq> USB_OK" and "bs \<noteq> []" and "length bs \<le> len"
  shows "\<exists>rc st' k. wii_complete E (Read_intr ep len b) (Inl bs) st = Some (rc, st') \<and> rc \<noteq> USB_OK \<and>
     k < WII_BUFFER_INTR_COUNT \<and> refs st (Intr k) = 0 \<and>
     (\<forall>st'' H''. wii_backend_steps E (st', H) (st'', H'') \<longrightarrow> refs st'' (Intr k) \<ge> 1 \<and> \<not> s_intr_request_failed st'' \<and>
        (\<forall>ep' len' b'. Read_intr ep' len' b' \<notin> set (usb_requests st'')))"
proof -
  let ?r = "Read_intr ep len b" and ?st1 = "usb_finish (Read_intr ep len b) st"
  note inv = wii_reach_inv [OF assms(1)]
  have rok: "read_ok st ?r" using buf_invD(2) [OF inv] assms(2) by (simp add: wii_ok_def)
  then have pool: "b \<in> set intr_pool" "len = CTRL_BUF_SIZE" and b1: "refs st b = 1" by (auto simp: read_ok_def refs_def)
  obtain st2 where st2: "usb_deliver b bs ?st1 \<bind> read_cb E WII_EVENT_INTR (int (length bs)) b = Some st2" "wii_inv H st2"
    using read_complete_inv [OF inv assms(2), of b "Inl bs" E WII_EVENT_INTR] pool assms(10) by auto
  have eq: "wii_complete E ?r (Inl bs) st = wii_read_intr E st2" using st2(1) by (simp add: complete_read_eq)
  have "intr_stopped ?st1" using assms(3,4) by (simp add: intr_stopped_def usb_finish_def)
  then have stop2: "intr_stopped st2"
    using st2(1) read_cb_stopped by (fastforce simp: usb_deliver_def split: bind_splits)
  obtain st0 where st0: "usb_deliver b bs ?st1 = Some st0" "read_cb E WII_EVENT_INTR (int (length bs)) b st0 = Some st2"
    using st2(1) by (auto split: bind_splits)
  have same: "usb_calls st2 = usb_calls st \<and> s_bt_fd st2 = s_bt_fd st \<and> (\<forall>x. x \<noteq> b \<longrightarrow> bufs st2 x = bufs st x) \<and> refs st2 b = 1"
  proof -
    obtain p where p: "bufs st b = Some p" "b_next p = None" "b_ref_count p = 1" using rok by (auto simp: read_ok_def)
    obtain p0 where p0: "st0 = set_buf b p0 ?st1" "b_next p0 = None" "b_ref_count p0 = 1"
      using st0(1) p by (auto simp: usb_deliver_def usb_finish_def split: bind_splits)
    then have "queue_event E WII_EVENT_INTR b (set_buf b (p0\<lparr>b_total_size := word_of_int (int (length bs)),
        b_size := min (b_size p0) (word_of_int (int (length bs)))\<rparr>) st0) = Some st2"
      using st0(2) assms(9) shrink_alone [of st0 b p0] by (simp add: read_cb_def)
    then show ?thesis using p0(1,3) by (auto simp: queue_event_def Let_def usb_finish_def refs_def split: if_splits)
  qed
  have "refs st2 (Intr i) = 0" using same assms(7) b1 by (cases "b = Intr i") (auto simp: refs_def)
  moreover have "Intr i \<in> set intr_pool" using assms(6) by (simp add: intr_pool_def)
  ultimately obtain c p where c: "c \<in> set intr_pool" "bufs st2 c = Some p" "b_ref_count p = 0"
      "wii_read_intr E st2 = Some (usb_async E (Read_intr ENDPOINT_HCI_INTR CTRL_BUF_SIZE c)
         (set_buf c (pool_take (of_nat CTRL_BUF_SIZE) p) st2))"
    using read_intr_cases [OF st2(2), of E] assms(5) same by (auto simp: not_le [symmetric])
  define st' where "st' = (set_buf c (pool_take (of_nat CTRL_BUF_SIZE) p) st2)\<lparr>usb_calls := usb_calls st2 + 1\<rparr>"
  define rc where "rc = usb_submit E (usb_calls st2) (Read_intr ENDPOINT_HCI_INTR CTRL_BUF_SIZE c)"
  have st': "wii_complete E ?r (Inl bs) st = Some (rc, st')" "rc \<noteq> USB_OK"
    using eq c(4) assms(8) same by (simp_all add: usb_async_def Let_def st'_def rc_def)
  have "unat (of_nat CTRL_BUF_SIZE :: u16) \<le> length (b_data p)"
    using pool_inv(1) [OF st2(2) c(1)] c(2) by (auto simp: CTRL_BUF_SIZE_def)
  then have inv': "wii_inv (add_mset c H) st'"
    using pool_take_inv(1) [OF st2(2) c(2,3)] c(1) by (simp add: st'_def)
  have stop': "intr_stopped st'" using stop2 by (simp add: st'_def intr_stopped_def)
  obtain k where k: "c = Intr k" "k < WII_BUFFER_INTR_COUNT" using c(1) by (auto simp: intr_pool_def)
  have "refs st2 c = 0" using c(2,3) by (simp add: refs_def)
  then have "refs st c = 0" using same by (cases "c = b") (auto simp: refs_def)
  moreover have "refs st'' c \<ge> 1 \<and> intr_stopped st''" if "wii_backend_steps E (st', H) (st'', H'')" for st'' H''
    using that held_never_free [OF that inv'] steps_stopped [OF that] stop' by simp
  ultimately show ?thesis using st' k unfolding intr_stopped_def by blast
qed

definition refusing_wii_env :: "(nat, (wii_event_type \<times> buf_ptr) list) wii_usb_env" where
  "refusing_wii_env = demo_wii_env\<lparr>usb_submit := (\<lambda>n r. if n < 2 then 0 else -1)\<rparr>"

theorem wii_refused_read_stops_witness:
  "\<exists>st rc st'. wii_complete refusing_wii_env (Read_intr ENDPOINT_HCI_INTR CTRL_BUF_SIZE (Intr 0)) (Inl [1, 2]) st = Some (rc, st') \<and>
     rc \<noteq> USB_OK \<and> (\<forall>ep len b. Read_intr ep len b \<notin> set (usb_requests st')) \<and> \<not> s_intr_request_failed st'"
proof -
  have "usb_working refusing_wii_env" "\<And>n r. n < 2 \<Longrightarrow> usb_submit refusing_wii_env n r = USB_OK"
    using demo_wii_working(1) by (simp_all add: refusing_wii_env_def usb_working_def USB_OK_def)
  from wii_init_starts [OF this, of 0 "[]"] obtain st where
    st: "wii_backend_init refusing_wii_env (wii_boot 0 []) = Some (0, st)"
      "usb_requests st = [Read_intr ENDPOINT_HCI_INTR CTRL_BUF_SIZE (Intr 0), Read_blk ENDPOINT_ACL_IN ACL_BUF_SIZE (Data 0)]"
      "usb_calls st = 2" "\<not> s_intr_request_failed st" "s_bt_fd st \<ge> 0" "refs st (Intr 1) = 0" by blast
  then have reach: "wii_reach refusing_wii_env st {#}" unfolding wii_reach_def by blast
  have "\<exists>rc st' k. wii_complete refusing_wii_env (Read_intr ENDPOINT_HCI_INTR CTRL_BUF_SIZE (Intr 0)) (Inl [1, 2]) st = Some (rc, st') \<and>
     rc \<noteq> USB_OK \<and> k < WII_BUFFER_INTR_COUNT \<and> refs st (Intr k) = 0 \<and>
     (\<forall>st'' H''. wii_backend_steps refusing_wii_env (st', {#}) (st'', H'') \<longrightarrow> refs st'' (Intr k) \<ge> 1 \<and> \<not> s_intr_request_failed st'' \<and>
        (\<forall>ep' len' b'. Read_intr ep' len' b' \<notin> set (usb_requests st'')))"
    by (rule wii_refused_read_stops [OF reach, where i = 1])
       (use st in \<open>auto simp: usb_finish_def refusing_wii_env_def USB_OK_def CTRL_BUF_SIZE_def WII_BUFFER_INTR_COUNT_def\<close>)
  then show ?thesis by blast
qed

end
