(* ===== verification/LibusbBackend.thy ===== *)
theory LibusbBackend
  imports BackendBuffer HciDev
begin

text \<open>
  The backend for hosts with libusb (\<^verbatim>\<open>backends/libusb.c\<close>): it looks for a Bluetooth adaptor among the
  USB devices, keeps one read in progress on each of its two incoming endpoints, hands what arrives
  to the HCI layer from within the completion callback, and submits commands and data.

  The functions of libusb and \<^verbatim>\<open>malloc\<close> are parameters, collected in \<open>lusb_env\<close>. A transfer is an
  object with an address; it is in progress, in \<open>submitted\<close>, once \<^verbatim>\<open>libusb_submit_transfer\<close> has
  returned 0 for it. \<open>open_handles\<close> and \<open>open_contexts\<close> are the handles and contexts that are open;
  submitting a transfer to a closed handle, or waiting for events in a closed context of the backend's
  own, is a use of freed memory, and its result is \<open>None\<close>. A null pointer from \<^verbatim>\<open>libusb_alloc_transfer\<close> or \<^verbatim>\<open>malloc\<close> is \<open>None\<close> in the
  environment, and the result of a function that writes through it is \<open>None\<close>.
\<close>

section \<open>State\<close>

definition USB_ENDPOINT_HCI_INTR :: byte where "USB_ENDPOINT_HCI_INTR = 0x81"
definition USB_ENDPOINT_ACL_IN :: byte where "USB_ENDPOINT_ACL_IN = 0x82"
definition USB_ENDPOINT_ACL_OUT :: byte where "USB_ENDPOINT_ACL_OUT = 0x02"
definition USB_CTRL_BUF_SIZE :: u16 where "USB_CTRL_BUF_SIZE = 264"
definition USB_ACL_BUF_SIZE :: u16 where "USB_ACL_BUF_SIZE = 352"
definition TO_DEF :: nat where "TO_DEF = 5000"

text \<open>Error numbers of the host, and the constants of \<^verbatim>\<open>libusb.h\<close> that the backend compares with.\<close>

definition USB_EBADF :: int where "USB_EBADF = 9"
definition EAGAIN :: int where "EAGAIN = 11"
definition LIBUSB_TRANSFER_COMPLETED :: int where "LIBUSB_TRANSFER_COMPLETED = 0"
definition LIBUSB_CLASS_WIRELESS :: byte where "LIBUSB_CLASS_WIRELESS = 0xe0"
definition LIBUSB_REQUEST_TYPE_CLASS :: byte where "LIBUSB_REQUEST_TYPE_CLASS = 0x20"
definition LIBUSB_CONTROL_SETUP_SIZE :: nat where "LIBUSB_CONTROL_SETUP_SIZE = 8"
definition LIBUSB_SUCCESS :: int where "LIBUSB_SUCCESS = 0"
definition LIBUSB_ERROR_NOT_FOUND :: int where "LIBUSB_ERROR_NOT_FOUND = - 5"
definition LIBUSB_ERROR_NOT_SUPPORTED :: int where "LIBUSB_ERROR_NOT_SUPPORTED = - 12"

record usb_descriptor =
  bDeviceClass :: byte
  bDeviceSubClass :: byte
  bDeviceProtocol :: byte
  idVendor :: u16
  idProduct :: u16

definition s_known_devices :: "(u16 \<times> u16) list" where
  "s_known_devices = [(0x0a5c, 0x21ec), (0, 0)]"

datatype transfer_cb = Read_intr_cb | Read_bulk_cb | Hci_send_command_cb | Hci_send_data_cb

datatype transfer_type = Control_transfer | Interrupt_transfer | Bulk_transfer

text \<open>What a transfer reads into or writes from: the data of a packet or a block from \<^verbatim>\<open>malloc\<close>.\<close>

datatype transfer_buffer = Packet buf_ptr | Block nat

record libusb_transfer =
  t_type :: transfer_type
  t_dev_handle :: nat
  t_endpoint :: byte
  t_buffer :: transfer_buffer
  t_length :: nat
  t_callback :: transfer_cb
  t_user_data :: "buf_ptr option"
  t_timeout :: nat
  t_status :: int
  t_actual_length :: u16

record 's lusb = buf_mem +
  s_external_context :: bool
  s_context :: "nat option"
  s_handle :: "nat option"
  s_num_events :: int
  open_contexts :: "nat list"
  open_handles :: "nat list"
  transfers :: "nat \<Rightarrow> libusb_transfer option option"
  submitted :: "nat list"
  blocks :: "nat \<Rightarrow> mem option"
  submit_calls :: nat
  app :: 's

record 's lusb_env =
  lu_init_context :: "int + nat"
  lu_get_device_list :: "nat option \<Rightarrow> int + nat list"
  lu_get_device_descriptor :: "nat \<Rightarrow> int + usb_descriptor"
  lu_open :: "nat \<Rightarrow> int + nat"
  lu_set_auto_detach_kernel_driver :: "nat \<Rightarrow> int"
  lu_detach_kernel_driver :: "nat \<Rightarrow> byte \<Rightarrow> int"
  lu_claim_interface :: "nat \<Rightarrow> byte \<Rightarrow> int"
  lu_alloc_transfer :: "'s lusb \<Rightarrow> nat option"
  lu_malloc :: "'s lusb \<Rightarrow> nat option"
  lu_fresh :: "'s lusb \<Rightarrow> nat \<Rightarrow> byte"
  lu_control_setup :: "byte \<Rightarrow> byte \<Rightarrow> u16 \<Rightarrow> u16 \<Rightarrow> u16 \<Rightarrow> mem"
  lu_submit_transfer :: "nat \<Rightarrow> libusb_transfer \<Rightarrow> int"
  lu_handle_events :: "nat option \<Rightarrow> (nat \<times> nat) option \<Rightarrow> 's lusb \<Rightarrow> (int \<times> 's lusb) option"
  lu_hci_handle_event :: "buf_ptr \<Rightarrow> 's lusb \<Rightarrow> 's lusb option"
  lu_hci_handle_data :: "buf_ptr \<Rightarrow> 's lusb \<Rightarrow> 's lusb option"

section \<open>Transfers\<close>

definition libusb_alloc_transfer :: "'s lusb_env \<Rightarrow> 's lusb \<Rightarrow> (nat option \<times> 's lusb) option" where
  "libusb_alloc_transfer E st =
     (case lu_alloc_transfer E st of None \<Rightarrow> Some (None, st)
      | Some t \<Rightarrow> if transfers st t \<noteq> None then None
                  else Some (Some t, st\<lparr>transfers := (transfers st)(t \<mapsto> None)\<rparr>))"

definition libusb_fill_transfer :: "nat option \<Rightarrow> libusb_transfer \<Rightarrow> 's lusb \<Rightarrow> 's lusb option" where
  "libusb_fill_transfer transfer tr st =
     do { t \<leftarrow> transfer; _ \<leftarrow> transfers st t; Some (st\<lparr>transfers := (transfers st)(t \<mapsto> Some tr)\<rparr>) }"

definition libusb_submit_transfer :: "'s lusb_env \<Rightarrow> nat option \<Rightarrow> 's lusb \<Rightarrow> (int \<times> 's lusb) option" where
  "libusb_submit_transfer E transfer st =
     do { t \<leftarrow> transfer; slot \<leftarrow> transfers st t; tr \<leftarrow> slot;
          if t_dev_handle tr \<notin> set (open_handles st) then None else
          (let rc = lu_submit_transfer E (submit_calls st) tr;
               st1 = st\<lparr>submit_calls := submit_calls st + 1\<rparr> in
           Some (rc, if rc = 0 then st1\<lparr>submitted := submitted st @ [t]\<rparr> else st1)) }"

definition libusb_free_transfer :: "nat \<Rightarrow> 's lusb \<Rightarrow> 's lusb option" where
  "libusb_free_transfer t st =
     do { _ \<leftarrow> transfers st t; Some (st\<lparr>transfers := (transfers st)(t := None)\<rparr>) }"

text \<open>\<^verbatim>\<open>bte_buffer_alloc_contiguous\<close>, with the answer of \<^verbatim>\<open>malloc\<close>, and \<^verbatim>\<open>bte_buffer_unref\<close>.\<close>

definition lu_buffer_alloc :: "'s lusb_env \<Rightarrow> u16 \<Rightarrow> 's lusb \<Rightarrow> (buf_ptr option \<times> 's lusb) option" where
  "lu_buffer_alloc E len st =
     (case lu_malloc E st of None \<Rightarrow> Some (None, st)
      | Some a \<Rightarrow> do { (b, st1) \<leftarrow> buf_alloc_contiguous (lu_fresh E st) a len st; Some (Some b, st1) })"

fun lu_release :: "free_func \<Rightarrow> buf_ptr \<Rightarrow> 's lusb \<Rightarrow> 's lusb option" where
  "lu_release Bte_free b st = buf_free b st"
| "lu_release Wii_buffer_free b st = None"

definition lu_unref :: "buf_ptr \<Rightarrow> 's lusb \<Rightarrow> 's lusb option" where
  "lu_unref b st = buf_unref lu_release b st"

section \<open>Reading\<close>

definition read_bulk :: "'s lusb_env \<Rightarrow> 's lusb \<Rightarrow> (int \<times> 's lusb) option" where
  "read_bulk E st =
     (case s_handle st of None \<Rightarrow> Some (- USB_EBADF, st)
      | Some h \<Rightarrow>
          do { (transfer, st1) \<leftarrow> libusb_alloc_transfer E st;
               let len = USB_ACL_BUF_SIZE;
               (buf, st2) \<leftarrow> lu_buffer_alloc E len st1;
               case buf of None \<Rightarrow> Some (- ENOMEM, st2)
               | Some b \<Rightarrow>
                   do { ptr \<leftarrow> buf_contiguous_data b len st2;
                        d \<leftarrow> ptr;
                        st3 \<leftarrow> libusb_fill_transfer transfer
                          \<lparr>t_type = Bulk_transfer, t_dev_handle = h, t_endpoint = USB_ENDPOINT_ACL_IN, t_buffer = Packet d,
                           t_length = unat len, t_callback = Read_bulk_cb, t_user_data = Some b, t_timeout = TO_DEF,
                           t_status = 0, t_actual_length = 0\<rparr> st2;
                        (rc, st4) \<leftarrow> libusb_submit_transfer E transfer st3;
                        Some (if rc \<noteq> 0 then - 1 else rc, st4) } })"

definition read_intr :: "'s lusb_env \<Rightarrow> 's lusb \<Rightarrow> (int \<times> 's lusb) option" where
  "read_intr E st =
     (case s_handle st of None \<Rightarrow> Some (- USB_EBADF, st)
      | Some h \<Rightarrow>
          do { (transfer, st1) \<leftarrow> libusb_alloc_transfer E st;
               let len = USB_CTRL_BUF_SIZE;
               (buf, st2) \<leftarrow> lu_buffer_alloc E len st1;
               case buf of None \<Rightarrow> Some (- ENOMEM, st2)
               | Some b \<Rightarrow>
                   do { ptr \<leftarrow> buf_contiguous_data b len st2;
                        d \<leftarrow> ptr;
                        st3 \<leftarrow> libusb_fill_transfer transfer
                          \<lparr>t_type = Interrupt_transfer, t_dev_handle = h, t_endpoint = USB_ENDPOINT_HCI_INTR, t_buffer = Packet d,
                           t_length = unat len, t_callback = Read_intr_cb, t_user_data = Some b, t_timeout = TO_DEF,
                           t_status = 0, t_actual_length = 0\<rparr> st2;
                        (rc, st4) \<leftarrow> libusb_submit_transfer E transfer st3;
                        Some (if rc \<noteq> 0 then - 1 else rc, st4) } })"

text \<open>The callbacks, called by libusb with the transfer that has ended.\<close>

definition read_bulk_cb :: "'s lusb_env \<Rightarrow> nat \<Rightarrow> 's lusb \<Rightarrow> 's lusb option" where
  "read_bulk_cb E transfer st =
     do { slot \<leftarrow> transfers st transfer; tr \<leftarrow> slot;
          buf \<leftarrow> t_user_data tr;
          st1 \<leftarrow> (if t_status tr = LIBUSB_TRANSFER_COMPLETED then
                     do { st1 \<leftarrow> buf_shrink buf (t_actual_length tr) st;
                          st2 \<leftarrow> lu_hci_handle_data E buf st1;
                          Some (st2\<lparr>s_num_events := s_num_events st2 + 1\<rparr>) }
                   else Some st);
          st2 \<leftarrow> libusb_free_transfer transfer st1;
          st3 \<leftarrow> lu_unref buf st2;
          (_, st4) \<leftarrow> read_bulk E st3;
          Some st4 }"

definition read_intr_cb :: "'s lusb_env \<Rightarrow> nat \<Rightarrow> 's lusb \<Rightarrow> 's lusb option" where
  "read_intr_cb E transfer st =
     do { slot \<leftarrow> transfers st transfer; tr \<leftarrow> slot;
          buf \<leftarrow> t_user_data tr;
          st1 \<leftarrow> (if t_status tr = LIBUSB_TRANSFER_COMPLETED then
                     do { st1 \<leftarrow> buf_shrink buf (t_actual_length tr) st;
                          st2 \<leftarrow> lu_hci_handle_event E buf st1;
                          Some (st2\<lparr>s_num_events := s_num_events st2 + 1\<rparr>) }
                   else Some st);
          st2 \<leftarrow> libusb_free_transfer transfer st1;
          st3 \<leftarrow> lu_unref buf st2;
          (_, st4) \<leftarrow> read_intr E st3;
          Some st4 }"

section \<open>Opening the adaptor\<close>

fun known_device_loop :: "(u16 \<times> u16) list \<Rightarrow> usb_descriptor \<Rightarrow> bool option" where
  "known_device_loop [] desc = None"
| "known_device_loop ((vid, pid) # ds) desc =
     (if vid = 0 then Some False
      else if vid = idVendor desc \<and> pid = idProduct desc then Some True
      else known_device_loop ds desc)"

definition is_bluetooth_adaptor :: "usb_descriptor \<Rightarrow> bool option" where
  "is_bluetooth_adaptor desc =
     (if bDeviceClass desc = LIBUSB_CLASS_WIRELESS \<and> bDeviceSubClass desc = 1 \<and> bDeviceProtocol desc = 1
      then Some True else known_device_loop s_known_devices desc)"

text \<open>The loop over the devices: it goes on after one that cannot be examined or opened.\<close>

fun open_loop :: "'s lusb_env \<Rightarrow> nat list \<Rightarrow> 's lusb \<Rightarrow> 's lusb option" where
  "open_loop E [] st = Some st"
| "open_loop E (d # ds) st =
     (case lu_get_device_descriptor E d of
        Inl rc \<Rightarrow> open_loop E ds st
      | Inr desc \<Rightarrow>
          do { bt \<leftarrow> is_bluetooth_adaptor desc;
               if bt then
                 (case lu_open E d of
                    Inl rc \<Rightarrow> open_loop E ds st
                  | Inr h \<Rightarrow> Some (st\<lparr>s_handle := Some h, open_handles := open_handles st @ [h]\<rparr>))
               else open_loop E ds st })"

text \<open>
  When \<^verbatim>\<open>libusb_get_device_list\<close> reports an error it has not set \<^verbatim>\<open>devices\<close>, and the backend goes on to
  free a list at an undefined address.
\<close>

definition usb_backend_init :: "'s lusb_env \<Rightarrow> 's lusb \<Rightarrow> (int \<times> 's lusb) option" where
  "usb_backend_init E st =
     (case (if s_external_context st then Inr st
            else map_sum id (\<lambda>c. st\<lparr>s_context := Some c, open_contexts := open_contexts st @ [c]\<rparr>) (lu_init_context E)) of
        Inl rc \<Rightarrow> Some (- 1, st)
      | Inr st1 \<Rightarrow>
     (case lu_get_device_list E (s_context st1) of
        Inl rc \<Rightarrow> None
      | Inr devices \<Rightarrow>
     do { st2 \<leftarrow> open_loop E devices st1;
          case s_handle st2 of None \<Rightarrow> Some (- 1, st2)
          | Some h \<Rightarrow>
              (let detached = (lu_set_auto_detach_kernel_driver E h = 0 \<or>
                     lu_detach_kernel_driver E h 0 \<in> {LIBUSB_SUCCESS, LIBUSB_ERROR_NOT_FOUND, LIBUSB_ERROR_NOT_SUPPORTED}) in
               if \<not> detached then Some (- 1, st2)
               else if lu_claim_interface E h 0 \<noteq> 0 then Some (- 1, st2)
               else do { (_, st3) \<leftarrow> read_intr E st2;
                         (_, st4) \<leftarrow> read_bulk E st3;
                         Some (0, st4) }) }))"

section \<open>Events and sending\<close>

text \<open>A context that the backend itself created and has closed again.\<close>

definition closed_context :: "'s lusb \<Rightarrow> bool" where
  "closed_context st \<longleftrightarrow> \<not> s_external_context st \<and> (\<exists>c. s_context st = Some c \<and> c \<notin> set (open_contexts st))"

definition usb_backend_handle_events :: "'s lusb_env \<Rightarrow> bool \<Rightarrow> u32 \<Rightarrow> 's lusb \<Rightarrow> (int \<times> 's lusb) option" where
  "usb_backend_handle_events E wait_for_events timeout_us st =
     (let tv = (unat timeout_us div 1000000, unat timeout_us mod 1000000) in
      if closed_context st then None else
      do { (rc, st1) \<leftarrow> lu_handle_events E (s_context st) (if wait_for_events then Some tv else None)
                          (st\<lparr>s_num_events := 0\<rparr>);
           Some (if rc \<noteq> 0 then - EAGAIN else s_num_events st1, st1) })"

definition hci_send_command_cb :: "nat \<Rightarrow> 's lusb \<Rightarrow> 's lusb option" where
  "hci_send_command_cb transfer st =
     do { slot \<leftarrow> transfers st transfer; tr \<leftarrow> slot;
          st1 \<leftarrow> (case t_buffer tr of
                     Block a \<Rightarrow> do { _ \<leftarrow> blocks st a; Some (st\<lparr>blocks := (blocks st)(a := None)\<rparr>) }
                   | Packet b \<Rightarrow> None);
          libusb_free_transfer transfer st1 }"

definition usb_backend_hci_send_command :: "'s lusb_env \<Rightarrow> buf_ptr \<Rightarrow> 's lusb \<Rightarrow> (int \<times> 's lusb) option" where
  "usb_backend_hci_send_command E buf st =
     (case s_handle st of None \<Rightarrow> Some (- USB_EBADF, st)
      | Some h \<Rightarrow>
          do { p \<leftarrow> bufs st buf;
               if b_total_size p = b_size p then
                 do { (transfer, st1) \<leftarrow> libusb_alloc_transfer E st;
                      a \<leftarrow> lu_malloc E st1;
                      let n = LIBUSB_CONTROL_SETUP_SIZE + unat (b_size p);
                      m1 \<leftarrow> wr (map (lu_fresh E st1) [0..<n]) 0 (lu_control_setup E LIBUSB_REQUEST_TYPE_CLASS 0 0 0 (b_size p));
                      sent \<leftarrow> slice (b_data p) 0 (unat (b_size p));
                      m2 \<leftarrow> wr m1 LIBUSB_CONTROL_SETUP_SIZE sent;
                      if blocks st1 a \<noteq> None then None else
                      do { st2 \<leftarrow> libusb_fill_transfer transfer
                             \<lparr>t_type = Control_transfer, t_dev_handle = h, t_endpoint = 0, t_buffer = Block a,
                              t_length = n, t_callback = Hci_send_command_cb, t_user_data = None, t_timeout = TO_DEF,
                              t_status = 0, t_actual_length = 0\<rparr> (st1\<lparr>blocks := (blocks st1)(a \<mapsto> m2)\<rparr>);
                           (rc, st3) \<leftarrow> libusb_submit_transfer E transfer st2;
                           Some (if rc \<noteq> 0 then - EIO else rc, st3) } }
               else Some (- ENOMEM, st) })"

definition hci_send_data_cb :: "nat \<Rightarrow> 's lusb \<Rightarrow> 's lusb option" where
  "hci_send_data_cb transfer st =
     do { slot \<leftarrow> transfers st transfer; tr \<leftarrow> slot;
          buf \<leftarrow> t_user_data tr;
          st1 \<leftarrow> lu_unref buf st;
          libusb_free_transfer transfer st1 }"

definition usb_backend_hci_send_data :: "'s lusb_env \<Rightarrow> buf_ptr \<Rightarrow> 's lusb \<Rightarrow> (int \<times> 's lusb) option" where
  "usb_backend_hci_send_data E buf st =
     (case s_handle st of None \<Rightarrow> Some (- USB_EBADF, st)
      | Some h \<Rightarrow>
          do { st1 \<leftarrow> buf_ref buf st;
               (transfer, st2) \<leftarrow> libusb_alloc_transfer E st1;
               p \<leftarrow> bufs st2 buf;
               st3 \<leftarrow> libusb_fill_transfer transfer
                 \<lparr>t_type = Bulk_transfer, t_dev_handle = h, t_endpoint = USB_ENDPOINT_ACL_OUT, t_buffer = Packet buf,
                  t_length = unat (b_size p), t_callback = Hci_send_data_cb, t_user_data = Some buf, t_timeout = TO_DEF,
                  t_status = 0, t_actual_length = 0\<rparr> st2;
               (rc, st4) \<leftarrow> libusb_submit_transfer E transfer st3;
               if rc \<noteq> 0 then do { st5 \<leftarrow> lu_unref buf st4; Some (- EIO, st5) }
               else Some (rc, st4) })"

text \<open>
  \<^verbatim>\<open>libusb_close\<close> closes the handle and \<^verbatim>\<open>libusb_exit\<close> ends a context of the backend's own; the static
  variables keep their values.
\<close>

definition libusb_close :: "nat option \<Rightarrow> 's lusb \<Rightarrow> 's lusb" where
  "libusb_close handle st = (case handle of None \<Rightarrow> st | Some h \<Rightarrow> st\<lparr>open_handles := remove1 h (open_handles st)\<rparr>)"

definition libusb_exit :: "nat option \<Rightarrow> 's lusb \<Rightarrow> 's lusb" where
  "libusb_exit context st = (case context of None \<Rightarrow> st | Some c \<Rightarrow> st\<lparr>open_contexts := remove1 c (open_contexts st)\<rparr>)"

definition usb_backend_deinit :: "'s lusb_env \<Rightarrow> 's lusb \<Rightarrow> (int \<times> 's lusb) option" where
  "usb_backend_deinit E st =
     (let st1 = libusb_close (s_handle st) st
      in Some (0, if \<not> s_external_context st1 then libusb_exit (s_context st1) st1 else st1))"

definition bte_backend_libusb_set_context :: "nat option \<Rightarrow> 's lusb \<Rightarrow> 's lusb" where
  "bte_backend_libusb_set_context context st = st\<lparr>s_external_context := True, s_context := context\<rparr>"

definition libusb_backend :: "'s lusb_env \<Rightarrow> 's lusb bte_backend" where
  "libusb_backend E =
     \<lparr>bk_init = usb_backend_init E, bk_handle_events = usb_backend_handle_events E,
      bk_hci_send_command = usb_backend_hci_send_command E, bk_hci_send_data = usb_backend_hci_send_data E,
      bk_deinit = usb_backend_deinit E\<rparr>"

text \<open>The static variables when the program starts.\<close>

definition libusb_boot :: "'s \<Rightarrow> 's lusb" where
  "libusb_boot u =
     \<lparr>bufs = Map.empty, s_external_context = False, s_context = None, s_handle = None, s_num_events = 0,
      open_contexts = [], open_handles = [], transfers = Map.empty, submitted = [], blocks = Map.empty, submit_calls = 0, app = u\<rparr>"

section \<open>What libusb does\<close>

text \<open>
  The end of a transfer in progress, within \<^verbatim>\<open>libusb_handle_events_timeout_completed\<close>: a read that
  completed has put \<open>bs\<close> into its buffer and reports how much; then the callback runs.
\<close>

fun run_callback :: "'s lusb_env \<Rightarrow> transfer_cb \<Rightarrow> nat \<Rightarrow> 's lusb \<Rightarrow> 's lusb option" where
  "run_callback E Read_intr_cb t st = read_intr_cb E t st"
| "run_callback E Read_bulk_cb t st = read_bulk_cb E t st"
| "run_callback E Hci_send_command_cb t st = hci_send_command_cb t st"
| "run_callback E Hci_send_data_cb t st = hci_send_data_cb t st"

definition lu_deliver :: "libusb_transfer \<Rightarrow> mem \<Rightarrow> 's lusb \<Rightarrow> 's lusb option" where
  "lu_deliver tr bs st =
     (case t_buffer tr of
        Packet b \<Rightarrow> do { p \<leftarrow> bufs st b; d \<leftarrow> wr (b_data p) 0 bs; Some (set_buf b (p\<lparr>b_data := d\<rparr>) st) }
      | Block a \<Rightarrow> Some st)"

definition lu_end :: "nat \<Rightarrow> libusb_transfer \<Rightarrow> 's lusb \<Rightarrow> 's lusb" where
  "lu_end t tr st = st\<lparr>submitted := remove1 t (submitted st), transfers := (transfers st)(t \<mapsto> Some tr)\<rparr>"

definition lu_is_read :: "libusb_transfer \<Rightarrow> bool" where
  "lu_is_read tr \<longleftrightarrow> t_callback tr \<in> {Read_intr_cb, Read_bulk_cb}"

definition lu_complete :: "'s lusb_env \<Rightarrow> nat \<Rightarrow> int \<Rightarrow> mem \<Rightarrow> 's lusb \<Rightarrow> 's lusb option" where
  "lu_complete E t status bs st =
     do { slot \<leftarrow> transfers st t; tr \<leftarrow> slot;
          st1 \<leftarrow> (if lu_is_read tr then lu_deliver tr bs st else Some st);
          run_callback E (t_callback tr) t
            (lu_end t (tr\<lparr>t_status := status, t_actual_length := of_nat (length bs)\<rparr>) st1) }"

end
