(* ===== verification/LibusbReach.thy ===== *)
theory LibusbReach
  imports LibusbBackend
begin

text \<open>
  The libusb backend at work: the accounting of its packets and transfers, and the states it
  reaches when transfers end in any order and the layers above send, take and drop packets, from
  the handlers that the callbacks call and outside them.
\<close>

section \<open>Who uses a packet\<close>

definition slot_user :: "'s lusb \<Rightarrow> nat \<Rightarrow> buf_ptr option" where
  "slot_user st t = do { slot \<leftarrow> transfers st t; tr \<leftarrow> slot; t_user_data tr }"

definition lu_users :: "'s lusb \<Rightarrow> buf_ptr \<Rightarrow> nat" where
  "lu_users st b = count_list (map (slot_user st) (submitted st)) (Some b)"

definition reading :: "'s lusb \<Rightarrow> libusb_transfer \<Rightarrow> u16 \<Rightarrow> bool" where
  "reading st tr len \<longleftrightarrow> (\<exists>b p. t_user_data tr = Some b \<and> t_buffer tr = Packet b \<and> bufs st b = Some p \<and>
     b_ref_count p = 1 \<and> b_next p = None \<and> b_size p = len \<and> t_length tr = unat len)"

definition transfer_ok :: "'s lusb \<Rightarrow> libusb_transfer \<Rightarrow> bool" where
  "transfer_ok st tr = (case t_callback tr of
       Read_intr_cb \<Rightarrow> reading st tr USB_CTRL_BUF_SIZE
     | Read_bulk_cb \<Rightarrow> reading st tr USB_ACL_BUF_SIZE
     | Hci_send_command_cb \<Rightarrow> t_user_data tr = None \<and> (\<exists>a. t_buffer tr = Block a \<and> blocks st a \<noteq> None)
     | Hci_send_data_cb \<Rightarrow> t_user_data tr \<noteq> None \<and> t_buffer tr = Packet (the (t_user_data tr)))"

definition slot_block :: "'s lusb \<Rightarrow> nat \<Rightarrow> nat option" where
  "slot_block st t = do { slot \<leftarrow> transfers st t; tr \<leftarrow> slot; case t_buffer tr of Block a \<Rightarrow> Some a | Packet b \<Rightarrow> None }"

definition blocks_apart :: "'s lusb \<Rightarrow> bool" where
  "blocks_apart st \<longleftrightarrow> (\<forall>t \<in> set (submitted st). \<forall>t' \<in> set (submitted st).
     slot_block st t \<noteq> None \<longrightarrow> slot_block st t = slot_block st t' \<longrightarrow> t = t')"

definition lu_ok :: "'s lusb \<Rightarrow> bool" where
  "lu_ok st \<longleftrightarrow> finite (dom (transfers st)) \<and> finite (dom (blocks st)) \<and> (\<forall>b. bufs st b \<noteq> None \<longrightarrow> on_heap b) \<and>
     distinct (submitted st) \<and>
     open_handles st = (case s_handle st of None \<Rightarrow> [] | Some h \<Rightarrow> [h]) \<and> \<not> closed_context st \<and>
     (\<forall>t \<in> set (submitted st). \<exists>tr. transfers st t = Some (Some tr) \<and> transfer_ok st tr) \<and>
     blocks_apart st"

abbreviation lu_inv :: "buf_ptr multiset \<Rightarrow> 's lusb \<Rightarrow> bool" where
  "lu_inv \<equiv> buf_inv lu_users lu_ok"

lemma users_pos:
  assumes "t \<in> set (submitted st)" and "transfers st t = Some (Some tr)" and "t_user_data tr = Some b"
  shows "lu_users st b \<ge> 1"
proof -
  have "Some b \<in> set (map (slot_user st) (submitted st))"
    using assms by (auto simp: slot_user_def intro!: image_eqI [of _ _ t])
  then show ?thesis unfolding lu_users_def by (metis One_nat_def Suc_leI count_list_0_iff gr0I)
qed

lemma slot_simps [simp]:
  "slot_user (st\<lparr>bufs := m\<rparr>) = slot_user st" "slot_block (st\<lparr>bufs := m\<rparr>) = slot_block st"
  by (simp_all add: slot_user_def slot_block_def fun_eq_iff)

lemma blocks_apart_bufs [simp]: "blocks_apart (st\<lparr>bufs := m\<rparr>) = blocks_apart st"
  by (simp add: blocks_apart_def)

lemma closed_context_fields [simp]:
  "closed_context (st\<lparr>bufs := m\<rparr>) = closed_context st" "closed_context (st\<lparr>submit_calls := n\<rparr>) = closed_context st"
  "closed_context (st\<lparr>s_num_events := k\<rparr>) = closed_context st" "closed_context (st\<lparr>app := u\<rparr>) = closed_context st"
  "closed_context (st\<lparr>blocks := bl\<rparr>) = closed_context st" "closed_context (st\<lparr>submitted := ts\<rparr>) = closed_context st"
  "closed_context (st\<lparr>transfers := tf\<rparr>) = closed_context st"
  by (simp_all add: closed_context_def)

lemma submittedD: "lu_ok st \<Longrightarrow> t \<in> set (submitted st) \<Longrightarrow> \<exists>tr. transfers st t = Some (Some tr) \<and> transfer_ok st tr"
  by (simp add: lu_ok_def)

lemma transfer_ok_set:
  assumes "transfer_ok st tr" and "\<And>b p. t_user_data tr = Some b \<Longrightarrow> bufs st b = Some p \<Longrightarrow> b_ref_count p = 1 \<Longrightarrow> m b = Some p"
  shows "transfer_ok (st\<lparr>bufs := m\<rparr>) tr"
  using assms unfolding transfer_ok_def reading_def by (auto split: transfer_cb.splits)

lemma lu_ok_bufs:
  assumes ok: "lu_ok st" and "\<And>b. m b \<noteq> None \<Longrightarrow> on_heap b"
    and "\<And>t tr. t \<in> set (submitted st) \<Longrightarrow> transfers st t = Some (Some tr) \<Longrightarrow> transfer_ok st tr \<Longrightarrow> transfer_ok (st\<lparr>bufs := m\<rparr>) tr"
  shows "lu_ok (st\<lparr>bufs := m\<rparr>)"
proof -
  have "\<exists>tr. transfers (st\<lparr>bufs := m\<rparr>) t = Some (Some tr) \<and> transfer_ok (st\<lparr>bufs := m\<rparr>) tr" if "t \<in> set (submitted st)" for t
    using ok that assms(3) [OF that] by (auto simp: lu_ok_def)
  then show ?thesis using ok assms(2) by (simp add: lu_ok_def)
qed

interpretation lu_use: buffer_users lu_users lu_ok
proof unfold_locales
  fix st :: "'s lusb" and m show "lu_users (st\<lparr>bufs := m\<rparr>) = lu_users st" by (simp add: lu_users_def fun_eq_iff)
next
  fix st :: "'s lusb" and b and p p' :: usb_buffer
  assume ok: "lu_ok st" and b: "bufs st b = Some p" and more: "int (lu_users st b) < b_ref_count p"
  have "transfer_ok (set_buf b p' st) tr"
    if t: "t \<in> set (submitted st)" "transfers st t = Some (Some tr)" "transfer_ok st tr" for t tr
    using users_pos [OF t(1,2)] more b by (intro transfer_ok_set [OF t(3)]) fastforce
  then show "lu_ok (set_buf b p' st)"
    using ok b by (intro lu_ok_bufs [OF ok]) (auto simp: lu_ok_def split: if_splits)
next
  fix st :: "'s lusb" and b v
  assume ok: "lu_ok st" and h: "on_heap b" and none: "lu_users st b = 0"
  have "transfer_ok (st\<lparr>bufs := (bufs st)(b := v)\<rparr>) tr"
    if t: "t \<in> set (submitted st)" "transfers st t = Some (Some tr)" "transfer_ok st tr" for t tr
    using users_pos [OF t(1,2)] none by (intro transfer_ok_set [OF t(3)]) fastforce
  then show "lu_ok (st\<lparr>bufs := (bufs st)(b := v)\<rparr>)"
    using ok h by (intro lu_ok_bufs [OF ok]) (auto simp: lu_ok_def split: if_splits)
qed

interpretation lu_rel: buffer_release lu_users lu_ok lu_release
proof unfold_locales
  fix H and st :: "'s lusb" and b p
  assume inv: "lu_inv H st" and b: "bufs st b = Some p" and h: "on_heap b \<Longrightarrow> b_ref_count p = 0"
  have "on_heap b" using buf_invD(2) [OF inv] b by (simp add: lu_ok_def)
  then obtain a where "b = Heap a" by (cases b) auto
  then show "\<exists>st'. lu_release (release_of b) b st = Some st' \<and> lu_inv H st' \<and> buf_keeps b st st'"
    using lu_use.free_inv [OF inv b h] by simp
qed

lemma lu_unref_inv: "lu_inv (add_mset b H) st \<Longrightarrow> \<exists>st'. lu_unref b st = Some st' \<and> lu_inv H st'"
  using lu_rel.unref_inv by (fastforce simp: lu_unref_def)

text \<open>Dropping a reference changes packets only.\<close>

definition same_but_bufs :: "'s lusb \<Rightarrow> 's lusb \<Rightarrow> bool" where
  "same_but_bufs st st' \<longleftrightarrow> (\<exists>m. st' = st\<lparr>bufs := m\<rparr>)"

lemma lu_unref_bufs:
  fixes st :: "'s lusb"
  shows "lu_unref b st = Some st' \<Longrightarrow> same_but_bufs st st'"
  unfolding lu_unref_def
proof (rule buf_unref_keeps [where P = "same_but_bufs st"])
  show "same_but_bufs st (set_buf b p s) = same_but_bufs st s" for b p s
    unfolding same_but_bufs_def by (metis buf_mem.surjective buf_mem.update_convs(1))
next
  fix f b and s s' :: "'s lusb"
  assume "lu_release f b s = Some s'" "same_but_bufs st s"
  then show "same_but_bufs st s'" by (cases f) (auto simp: buf_free_def same_but_bufs_def split: bind_splits)
next
  show "same_but_bufs st st" unfolding same_but_bufs_def by (metis buf_mem.surjective buf_mem.update_convs(1))
qed

section \<open>Starting and ending transfers\<close>

lemma slot_fields [simp]:
  "slot_user (st\<lparr>submit_calls := n\<rparr>) = slot_user st" "slot_block (st\<lparr>submit_calls := n\<rparr>) = slot_block st"
  "slot_user (st\<lparr>s_num_events := k\<rparr>) = slot_user st" "slot_block (st\<lparr>s_num_events := k\<rparr>) = slot_block st"
  "slot_user (st\<lparr>s_context := c\<rparr>) = slot_user st" "slot_block (st\<lparr>s_context := c\<rparr>) = slot_block st"
  "slot_user (st\<lparr>s_handle := h\<rparr>) = slot_user st" "slot_block (st\<lparr>s_handle := h\<rparr>) = slot_block st"
  "slot_user (st\<lparr>open_contexts := cs\<rparr>) = slot_user st" "slot_block (st\<lparr>open_contexts := cs\<rparr>) = slot_block st"
  "slot_user (st\<lparr>open_handles := hs\<rparr>) = slot_user st" "slot_block (st\<lparr>open_handles := hs\<rparr>) = slot_block st"
  "slot_user (st\<lparr>s_external_context := x\<rparr>) = slot_user st" "slot_block (st\<lparr>s_external_context := x\<rparr>) = slot_block st"
  "slot_user (st\<lparr>app := u\<rparr>) = slot_user st" "slot_block (st\<lparr>app := u\<rparr>) = slot_block st"
  "slot_user (st\<lparr>blocks := bl\<rparr>) = slot_user st" "slot_block (st\<lparr>blocks := bl\<rparr>) = slot_block st"
  "slot_user (st\<lparr>submitted := ts\<rparr>) = slot_user st" "slot_block (st\<lparr>submitted := ts\<rparr>) = slot_block st"
  by (simp_all add: slot_user_def slot_block_def fun_eq_iff)

lemma lu_inv_fields [simp]:
  "lu_inv H (st\<lparr>submit_calls := n\<rparr>) = lu_inv H st"
  "lu_inv H (st\<lparr>s_num_events := k\<rparr>) = lu_inv H st"
  "lu_inv H (st\<lparr>app := u\<rparr>) = lu_inv H st"
  by (rule buf_inv_cong; simp add: lu_users_def fun_eq_iff lu_ok_def transfer_ok_def reading_def blocks_apart_def cong: transfer_cb.case_cong)+

text \<open>The context and the handle of the adaptor, as the backend sets them.\<close>

lemma lu_inv_opened:
  fixes st :: "'s lusb"
  shows "lu_inv H st \<Longrightarrow> lu_inv H (st\<lparr>s_context := Some c, open_contexts := open_contexts st @ [c]\<rparr>)"
  "lu_inv H st \<Longrightarrow> lu_inv H (st\<lparr>s_external_context := True, s_context := cx\<rparr>)"
  "lu_inv H st \<Longrightarrow> s_handle st = None \<Longrightarrow> lu_inv H (st\<lparr>s_handle := Some h, open_handles := open_handles st @ [h]\<rparr>)"
proof -
  assume inv: "lu_inv H st"
  have other: "lu_inv H st'" if "bufs st' = bufs st" "transfers st' = transfers st" "submitted st' = submitted st" "blocks st' = blocks st"
      "open_handles st' = (case s_handle st' of None \<Rightarrow> [] | Some h \<Rightarrow> [h])" "\<not> closed_context st'" for st' :: "'s lusb"
  proof -
    have s: "slot_user st' = slot_user st" "slot_block st' = slot_block st" using that(2) by (simp_all add: slot_user_def slot_block_def fun_eq_iff)
    then have u: "lu_users st' = lu_users st" unfolding lu_users_def using that(3) by metis
    have t: "transfer_ok st' tr = transfer_ok st tr" for tr using that(1,4) by (simp add: transfer_ok_def reading_def split: transfer_cb.split)
    have "blocks_apart st' = blocks_apart st" unfolding blocks_apart_def using s(2) that(3) by simp
    moreover have "lu_ok st" using buf_invD(2) [OF inv] .
    ultimately have "lu_ok st'" unfolding lu_ok_def using that t by simp
    with inv u that(1) show ?thesis by (simp add: buf_inv_def refs_def linkers_def)
  qed
  have ok: "open_handles st = (case s_handle st of None \<Rightarrow> [] | Some h \<Rightarrow> [h])" using buf_invD(2) [OF inv] by (simp add: lu_ok_def)
  have cl: "\<not> closed_context st" using buf_invD(2) [OF inv] by (simp add: lu_ok_def)
  show "lu_inv H (st\<lparr>s_context := Some c, open_contexts := open_contexts st @ [c]\<rparr>)"
    by (rule other) (use ok in \<open>simp_all add: closed_context_def\<close>)
  show "lu_inv H (st\<lparr>s_external_context := True, s_context := cx\<rparr>)"
    by (rule other) (use ok in \<open>simp_all add: closed_context_def\<close>)
  show "lu_inv H (st\<lparr>s_handle := Some h, open_handles := open_handles st @ [h]\<rparr>)" if "s_handle st = None"
    by (rule other) (use ok cl that in \<open>simp_all add: closed_context_def\<close>)
qed

definition held_by :: "libusb_transfer \<Rightarrow> buf_ptr multiset" where
  "held_by tr = (case t_user_data tr of None \<Rightarrow> {#} | Some b \<Rightarrow> {#b#})"

lemma transfer_ok_other [simp]:
  "transfer_ok (st\<lparr>transfers := ts\<rparr>) tr = transfer_ok st tr" "transfer_ok (st\<lparr>submitted := s\<rparr>) tr = transfer_ok st tr"
  "transfer_ok (st\<lparr>submit_calls := n\<rparr>) tr = transfer_ok st tr"
  by (simp_all add: transfer_ok_def reading_def split: transfer_cb.splits)

text \<open>A transfer that is not in progress may be allocated, filled and freed.\<close>

lemma idle_transfer_inv:
  assumes inv: "lu_inv H st" and t: "t \<notin> set (submitted st)"
  shows "lu_inv H (st\<lparr>transfers := (transfers st)(t := x)\<rparr>)" (is "lu_inv H ?st1")
proof -
  have u: "slot_user ?st1 t' = slot_user st t'" "slot_block ?st1 t' = slot_block st t'" if "t' \<in> set (submitted st)" for t'
    using that t by (auto simp: slot_user_def slot_block_def)
  have "map (slot_user ?st1) (submitted st) = map (slot_user st) (submitted st)" using u(1) by (intro map_cong) auto
  then have users: "lu_users ?st1 b = lu_users st b" for b by (simp add: lu_users_def del: map_eq_conv)
  have ok: "lu_ok st" using buf_invD(2) [OF inv] .
  have "blocks_apart ?st1" using ok u(2) by (auto simp: lu_ok_def blocks_apart_def)
  moreover have "\<exists>tr. transfers ?st1 t' = Some (Some tr) \<and> transfer_ok ?st1 tr" if "t' \<in> set (submitted st)" for t'
    using that t ok by (auto simp: lu_ok_def)
  ultimately have "lu_ok ?st1" using ok by (simp add: lu_ok_def)
  then show ?thesis using inv users by (simp add: buf_inv_def refs_def linkers_def)
qed

lemma submit_inv:
  assumes inv: "lu_inv (held_by tr + H) st" and t: "t \<notin> set (submitted st)" "transfers st t = Some (Some tr)"
    and tr: "transfer_ok st tr" and new: "\<And>a t'. t_buffer tr = Block a \<Longrightarrow> t' \<in> set (submitted st) \<Longrightarrow> slot_block st t' \<noteq> Some a"
  shows "lu_inv H (st\<lparr>submitted := submitted st @ [t]\<rparr>)" (is "lu_inv H ?st1")
proof -
  have ok: "lu_ok st" using buf_invD(2) [OF inv] .
  have users: "lu_users ?st1 b = lu_users st b + count (held_by tr) b" for b
    using t(2) by (simp add: lu_users_def slot_user_def held_by_def split: option.split)
  have new': "slot_block st t \<noteq> None \<Longrightarrow> t' \<in> set (submitted st) \<Longrightarrow> slot_block st t \<noteq> slot_block st t'" for t'
    using new t(2) by (fastforce simp: slot_block_def split: transfer_buffer.splits)
  have "blocks_apart ?st1" unfolding blocks_apart_def slot_fields
  proof (intro ballI impI)
    fix t1 t2 assume a: "t1 \<in> set (submitted ?st1)" "t2 \<in> set (submitted ?st1)" "slot_block st t1 \<noteq> None" "slot_block st t1 = slot_block st t2"
    have "blocks_apart st" using ok by (simp add: lu_ok_def)
    then show "t1 = t2" using a new' [of t1] new' [of t2] unfolding blocks_apart_def by (cases "t1 = t"; cases "t2 = t") simp_all
  qed
  moreover have "\<exists>tr. transfers ?st1 t' = Some (Some tr) \<and> transfer_ok ?st1 tr" if "t' \<in> set (submitted ?st1)" for t'
    using that t tr ok by (auto simp: lu_ok_def)
  ultimately have "lu_ok ?st1" using ok t by (simp add: lu_ok_def)
  moreover have "int (lu_users ?st1 x + count H x + links ?st1 x) \<le> refs ?st1 x" for x
    using buf_invD(4) [OF inv, of x] unfolding users by (simp add: refs_def linkers_def)
  ultimately show ?thesis using inv by (auto simp: buf_inv_def)
qed

lemma end_inv:
  assumes inv: "lu_inv H st" and t: "t \<in> set (submitted st)" "transfers st t = Some (Some tr)"
  shows "lu_inv (held_by tr + H) (lu_end t tr' st)"
proof -
  let ?st1 = "st\<lparr>submitted := remove1 t (submitted st)\<rparr>"
  have ok: "lu_ok st" using buf_invD(2) [OF inv] .
  then have d: "distinct (submitted st)" by (simp add: lu_ok_def)
  have "slot_user st t = t_user_data tr" using t(2) by (simp add: slot_user_def)
  then have users: "lu_users st b = lu_users ?st1 b + count (held_by tr) b" for b
    using count_list_remove1 [OF t(1), of "slot_user st" "Some b"]
    by (auto simp: lu_users_def held_by_def split: option.splits)
  have "blocks_apart ?st1" using ok d by (auto simp: lu_ok_def blocks_apart_def)
  moreover have "\<exists>tr. transfers ?st1 t' = Some (Some tr) \<and> transfer_ok ?st1 tr" if "t' \<in> set (submitted ?st1)" for t'
    using that d ok by (auto simp: lu_ok_def)
  ultimately have "lu_ok ?st1" using ok d by (simp add: lu_ok_def)
  moreover have "int (lu_users ?st1 x + count (held_by tr + H) x + links ?st1 x) \<le> refs ?st1 x" for x
    using buf_invD(4) [OF inv, of x] unfolding users by (simp add: refs_def linkers_def)
  ultimately have "lu_inv (held_by tr + H) ?st1" using inv by (auto simp: buf_inv_def)
  moreover have "lu_end t tr' st = ?st1\<lparr>transfers := (transfers ?st1)(t := Some (Some tr'))\<rparr>" by (simp add: lu_end_def)
  ultimately show ?thesis using idle_transfer_inv [of "held_by tr + H" ?st1 t "Some (Some tr')"] d by simp
qed

section \<open>The layers above\<close>

text \<open>
  Memory does not run out: \<^verbatim>\<open>malloc\<close> and \<^verbatim>\<open>libusb_alloc_transfer\<close> return unused memory, and a control setup has the 8
  bytes of the USB standard.
\<close>

definition allocating :: "'s lusb_env \<Rightarrow> bool" where
  "allocating E \<longleftrightarrow>
     (\<forall>st. finite (dom (transfers st)) \<longrightarrow> (\<exists>t. lu_alloc_transfer E st = Some t \<and> transfers st t = None)) \<and>
     (\<forall>st. finite (dom (bufs st)) \<and> finite (dom (blocks st)) \<longrightarrow>
        (\<exists>a. lu_malloc E st = Some a \<and> bufs st (Heap a) = None \<and> blocks st a = None)) \<and>
     (\<forall>ty req v i n. length (lu_control_setup E ty req v i n) = 8)"

text \<open>What a step of the layers above leaves as it is, and what it may start: transfers that are no reads.\<close>

definition lu_frame :: "'s lusb \<Rightarrow> 's lusb \<Rightarrow> bool" where
  "lu_frame st st' \<longleftrightarrow> s_handle st' = s_handle st \<and> s_num_events st' = s_num_events st \<and>
     (\<forall>t. transfers st t \<noteq> None \<longrightarrow> transfers st' t = transfers st t) \<and>
     (\<exists>ts. submitted st' = submitted st @ ts \<and>
        (\<forall>t \<in> set ts. transfers st t = None \<and> (\<exists>tr. transfers st' t = Some (Some tr) \<and> \<not> lu_is_read tr)))"

lemma lu_frame_refl [simp]: "lu_frame st st"
  by (simp add: lu_frame_def)

lemma lu_frame_bufs: "same_but_bufs st st' \<Longrightarrow> lu_frame st st'"
  by (auto simp: same_but_bufs_def lu_frame_def)

lemma lu_frame_trans [trans]:
  assumes "lu_frame st st1" and "lu_frame st1 st2"
  shows "lu_frame st st2"
proof -
  obtain ts where ts: "submitted st1 = submitted st @ ts"
      "\<forall>t \<in> set ts. transfers st t = None \<and> (\<exists>tr. transfers st1 t = Some (Some tr) \<and> \<not> lu_is_read tr)"
    using assms(1) by (auto simp: lu_frame_def)
  obtain ts2 where ts2: "submitted st2 = submitted st1 @ ts2"
      "\<forall>t \<in> set ts2. transfers st1 t = None \<and> (\<exists>tr. transfers st2 t = Some (Some tr) \<and> \<not> lu_is_read tr)"
    using assms(2) by (auto simp: lu_frame_def)
  have k: "transfers st t \<noteq> None \<Longrightarrow> transfers st1 t = transfers st t" "transfers st1 t \<noteq> None \<Longrightarrow> transfers st2 t = transfers st1 t" for t
    using assms by (simp_all add: lu_frame_def)
  have "\<forall>t \<in> set (ts @ ts2). transfers st t = None \<and> (\<exists>tr. transfers st2 t = Some (Some tr) \<and> \<not> lu_is_read tr)"
    using ts(2) ts2(2) k by (metis UnE option.distinct(1) set_append)
  moreover have "submitted st2 = submitted st @ (ts @ ts2)" using ts(1) ts2(1) by simp
  ultimately show ?thesis using assms k unfolding lu_frame_def by metis
qed

lemma alloc_transferD:
  assumes "allocating E" and "lu_inv H st"
  shows "\<exists>t. transfers st t = None \<and> t \<notin> set (submitted st) \<and>
     libusb_alloc_transfer E st = Some (Some t, st\<lparr>transfers := (transfers st)(t \<mapsto> None)\<rparr>)"
proof -
  have ok: "lu_ok st" using buf_invD(2) [OF assms(2)] .
  then obtain t where t: "lu_alloc_transfer E st = Some t" "transfers st t = None"
    using assms(1) unfolding allocating_def lu_ok_def by metis
  moreover from this ok have "t \<notin> set (submitted st)" by (auto simp: lu_ok_def)
  ultimately show ?thesis by (auto simp: libusb_alloc_transfer_def)
qed

lemma mallocD:
  assumes "allocating E" and "lu_inv H st"
  shows "\<exists>a. lu_malloc E st = Some a \<and> bufs st (Heap a) = None \<and> blocks st a = None"
  using assms buf_invD(1,2) [OF assms(2)] unfolding allocating_def lu_ok_def by blast

text \<open>A transfer that was just allocated is filled and submitted.\<close>

lemma start_transfer:
  assumes inv: "lu_inv (held_by tr + H) st" and t: "transfers st t = None"
    and tr: "transfer_ok st tr" and new: "\<And>a t'. t_buffer tr = Block a \<Longrightarrow> t' \<in> set (submitted st) \<Longrightarrow> slot_block st t' \<noteq> Some a"
    and h: "s_handle st = Some (t_dev_handle tr)"
  defines "st2 \<equiv> st\<lparr>transfers := (transfers st)(t \<mapsto> Some tr)\<rparr>"
  shows "\<exists>rc st'. libusb_submit_transfer E (Some t) st2 = Some (rc, st') \<and> rc = lu_submit_transfer E (submit_calls st) tr \<and>
     (rc = 0 \<longrightarrow> lu_inv H st' \<and> st' = st2\<lparr>submitted := submitted st @ [t], submit_calls := submit_calls st + 1\<rparr>) \<and>
     (rc \<noteq> 0 \<longrightarrow> lu_inv (held_by tr + H) st' \<and> st' = st2\<lparr>submit_calls := submit_calls st + 1\<rparr>)"
proof -
  have nt: "t \<notin> set (submitted st)" using buf_invD(2) [OF inv] t by (auto simp: lu_ok_def)
  have inv2: "lu_inv (held_by tr + H) (st2\<lparr>submit_calls := submit_calls st + 1\<rparr>)"
    using idle_transfer_inv [OF inv nt, of "Some (Some tr)"] by (simp add: st2_def)
  have sl: "slot_block (st2\<lparr>submit_calls := submit_calls st + 1\<rparr>) t' = slot_block st t'" if "t' \<in> set (submitted st)" for t'
    using that nt by (auto simp: slot_block_def st2_def)
  have "lu_inv H (st2\<lparr>submit_calls := submit_calls st + 1, submitted := submitted st @ [t]\<rparr>)"
    using submit_inv [OF inv2, of t] nt tr new sl by (auto simp: st2_def)
  moreover have "open_handles st = [t_dev_handle tr]" using buf_invD(2) [OF inv] h by (simp add: lu_ok_def)
  ultimately show ?thesis using inv2 by (auto simp: libusb_submit_transfer_def Let_def st2_def)
qed

lemma lu_frame_start:
  assumes "transfers st t = None" and "\<not> lu_is_read tr"
  shows "lu_frame st (st\<lparr>transfers := (transfers st)(t \<mapsto> Some tr), submitted := submitted st @ [t], submit_calls := n\<rparr>)"
    and "lu_frame st (st\<lparr>transfers := (transfers st)(t \<mapsto> Some tr), submit_calls := n\<rparr>)"
  using assms by (auto simp: lu_frame_def)

lemma lu_send_data_inv:
  assumes al: "allocating E" and inv: "lu_inv H st" and b: "b \<in># H"
  shows "\<exists>rc st'. usb_backend_hci_send_data E b st = Some (rc, st') \<and> lu_inv H st' \<and> lu_frame st st'"
proof (cases "s_handle st")
  case None
  then show ?thesis using inv by (simp add: usb_backend_hci_send_data_def)
next
  case (Some h)
  obtain st1 where st1: "buf_ref b st = Some st1" "lu_inv (add_mset b H) st1" using lu_use.ref_inv [OF inv b] by blast
  then have f1: "lu_frame st st1" by (auto simp: buf_ref_def lu_frame_def split: bind_splits)
  obtain p where p: "bufs st1 b = Some p" using buf_inv_held [OF st1(2), of b] by auto
  have h1: "s_handle st1 = Some h" using f1 Some by (simp add: lu_frame_def)
  obtain t where t: "transfers st1 t = None" "libusb_alloc_transfer E st1 = Some (Some t, st1\<lparr>transfers := (transfers st1)(t \<mapsto> None)\<rparr>)"
    using alloc_transferD [OF al st1(2)] by blast
  define tr where "tr = \<lparr>t_type = Bulk_transfer, t_dev_handle = h, t_endpoint = USB_ENDPOINT_ACL_OUT, t_buffer = Packet b,
      t_length = unat (b_size p), t_callback = Hci_send_data_cb, t_user_data = Some b, t_timeout = TO_DEF, t_status = 0, t_actual_length = 0\<rparr>"
  have trs: "held_by tr = {#b#}" "transfer_ok st1 tr" "\<not> lu_is_read tr" "t_buffer tr = Packet b" "t_dev_handle tr = h"
    by (simp_all add: tr_def held_by_def transfer_ok_def lu_is_read_def)
  let ?st2 = "st1\<lparr>transfers := (transfers st1)(t \<mapsto> Some tr)\<rparr>"
  obtain rc st4 where st4: "libusb_submit_transfer E (Some t) ?st2 = Some (rc, st4)"
      "rc = 0 \<Longrightarrow> lu_inv H st4 \<and> st4 = ?st2\<lparr>submitted := submitted st1 @ [t], submit_calls := submit_calls st1 + 1\<rparr>"
      "rc \<noteq> 0 \<Longrightarrow> lu_inv (add_mset b H) st4 \<and> st4 = ?st2\<lparr>submit_calls := submit_calls st1 + 1\<rparr>"
    using start_transfer [of tr H st1 t E] st1(2) t(1) trs h1 by auto
  have eq: "usb_backend_hci_send_data E b st = (if rc \<noteq> 0 then do { st5 \<leftarrow> lu_unref b st4; Some (- EIO, st5) } else Some (rc, st4))"
    using Some st1(1) t(2) p st4(1) by (simp add: usb_backend_hci_send_data_def libusb_fill_transfer_def tr_def)
  have f: "lu_frame st st4"
    using lu_frame_trans [OF f1, of st4] lu_frame_start [OF t(1) trs(3), of "submit_calls st1 + 1"] st4(2,3) by (cases "rc = 0") simp_all
  show ?thesis
  proof (cases "rc = 0")
    case True
    then show ?thesis using eq st4(2) f by auto
  next
    case False
    then obtain st5 where "lu_unref b st4 = Some st5" "lu_inv H st5" using st4(3) lu_unref_inv by blast
    then show ?thesis using eq False lu_frame_trans [OF f lu_frame_bufs [OF lu_unref_bufs]] by auto
  qed
qed

lemma blocks_inv:
  assumes inv: "lu_inv H st" and a: "\<And>t. t \<in> set (submitted st) \<Longrightarrow> slot_block st t \<noteq> Some a"
  shows "lu_inv H (st\<lparr>blocks := (blocks st)(a := x)\<rparr>)"
proof -
  let ?st1 = "st\<lparr>blocks := (blocks st)(a := x)\<rparr>"
  have ok: "lu_ok st" using buf_invD(2) [OF inv] .
  have "\<exists>tr. transfers ?st1 t = Some (Some tr) \<and> transfer_ok ?st1 tr" if t: "t \<in> set (submitted st)" for t
  proof -
    obtain tr where tr: "transfers st t = Some (Some tr)" "transfer_ok st tr" using ok t by (auto simp: lu_ok_def)
    moreover from a [OF t] tr(1) have "t_buffer tr \<noteq> Block a" by (auto simp: slot_block_def)
    ultimately show ?thesis by (auto simp: transfer_ok_def reading_def split: transfer_cb.splits)
  qed
  moreover have "blocks_apart ?st1 = blocks_apart st" by (simp add: blocks_apart_def)
  ultimately have "lu_ok ?st1" using ok by (simp add: lu_ok_def)
  then show ?thesis using inv by (simp add: buf_inv_def lu_users_def refs_def linkers_def)
qed

lemma lu_send_command_inv:
  assumes al: "allocating E" and inv: "lu_inv H st" and b: "b \<in># H"
  shows "\<exists>rc st'. usb_backend_hci_send_command E b st = Some (rc, st') \<and> lu_inv H st' \<and> lu_frame st st'"
proof -
  obtain p where p: "bufs st b = Some p" using buf_inv_held [OF inv b] by auto
  show ?thesis
  proof (cases "s_handle st = None \<or> b_total_size p \<noteq> b_size p")
    case True
    then show ?thesis using inv p by (cases "s_handle st") (auto simp: usb_backend_hci_send_command_def)
  next
    case False
    then obtain h where h: "s_handle st = Some h" by auto
    obtain t where t: "transfers st t = None" "t \<notin> set (submitted st)"
        "libusb_alloc_transfer E st = Some (Some t, st\<lparr>transfers := (transfers st)(t \<mapsto> None)\<rparr>)"
      using alloc_transferD [OF al inv] by blast
    let ?st1 = "st\<lparr>transfers := (transfers st)(t \<mapsto> None)\<rparr>"
    have inv1: "lu_inv H ?st1" using idle_transfer_inv [OF inv t(2)] .
    obtain a where a: "lu_malloc E ?st1 = Some a" "blocks st a = None" using mallocD [OF al inv1] by auto
    let ?n = "LIBUSB_CONTROL_SETUP_SIZE + unat (b_size p)"
    have "unat (b_size p) \<le> length (b_data p)" using buf_invD(3) [OF inv p] by (simp add: buf_typed_def)
    then obtain sent where sent: "slice (b_data p) 0 (unat (b_size p)) = Some sent" "length sent = unat (b_size p)" by (simp add: slice_def)
    obtain m2 where m2: "(do { m1 \<leftarrow> wr (map (lu_fresh E ?st1) [0..<?n]) 0 (lu_control_setup E LIBUSB_REQUEST_TYPE_CLASS 0 0 0 (b_size p));
           wr m1 LIBUSB_CONTROL_SETUP_SIZE sent }) = Some m2"
      using al sent(2) by (auto simp: wr_def allocating_def LIBUSB_CONTROL_SETUP_SIZE_def)
    then obtain m1 where m1: "wr (map (lu_fresh E ?st1) [0..<?n]) 0 (lu_control_setup E LIBUSB_REQUEST_TYPE_CLASS 0 0 0 (b_size p)) = Some m1"
        "wr m1 LIBUSB_CONTROL_SETUP_SIZE sent = Some m2" by (auto split: bind_splits)
    define tr where "tr = \<lparr>t_type = Control_transfer, t_dev_handle = h, t_endpoint = 0, t_buffer = Block a, t_length = ?n,
        t_callback = Hci_send_command_cb, t_user_data = None, t_timeout = TO_DEF, t_status = 0, t_actual_length = 0\<rparr>"
    let ?st2 = "st\<lparr>blocks := (blocks st)(a \<mapsto> m2)\<rparr>"
    have new: "slot_block st t' \<noteq> Some a" if t': "t' \<in> set (submitted st)" for t'
    proof -
      obtain tr' where "transfers st t' = Some (Some tr')" "transfer_ok st tr'"
        using submittedD [OF buf_invD(2) [OF inv] t'] by blast
      then show ?thesis using a(2) by (auto simp: slot_block_def transfer_ok_def reading_def split: transfer_cb.splits transfer_buffer.splits)
    qed
    have trs: "held_by tr = {#}" "transfer_ok ?st2 tr" "\<not> lu_is_read tr" "t_buffer tr = Block a"
      by (simp_all add: tr_def held_by_def transfer_ok_def lu_is_read_def)
    have inv2: "lu_inv (held_by tr + H) ?st2" using blocks_inv [OF inv new] trs(1) by simp
    let ?st3 = "?st2\<lparr>transfers := (transfers st)(t \<mapsto> Some tr)\<rparr>"
    obtain rc st4 where st4: "libusb_submit_transfer E (Some t) ?st3 = Some (rc, st4)" "lu_inv H st4"
        "rc = 0 \<Longrightarrow> st4 = ?st3\<lparr>submitted := submitted st @ [t], submit_calls := submit_calls st + 1\<rparr>"
        "rc \<noteq> 0 \<Longrightarrow> st4 = ?st3\<lparr>submit_calls := submit_calls st + 1\<rparr>"
    proof -
      have t2: "transfers ?st2 t = None" using t(1) by simp
      have n2: "slot_block ?st2 t' \<noteq> Some a'" if "t_buffer tr = Block a'" "t' \<in> set (submitted ?st2)" for a' t'
        using new that trs(4) by simp
      have h2: "s_handle ?st2 = Some (t_dev_handle tr)" using h by (simp add: tr_def)
      show thesis using start_transfer [OF inv2 t2 trs(2) n2 h2, of E] that trs(1) by auto
    qed
    have f: "lu_frame st st4"
      using st4(3,4) t(1) trs(3) by (cases "rc = 0") (auto simp: lu_frame_def)
    have st3: "(st\<lparr>transfers := (transfers st)(t \<mapsto> None), blocks := (blocks st)(a \<mapsto> m2)\<rparr>)\<lparr>transfers := (transfers st)(t \<mapsto> Some tr)\<rparr> = ?st3" by simp
    have "usb_backend_hci_send_command E b st = Some (if rc \<noteq> 0 then - EIO else rc, st4)"
      using h p False t(3) a m1 sent(1) st4(1)
      by (simp add: usb_backend_hci_send_command_def libusb_fill_transfer_def Let_def flip: tr_def)
    then show ?thesis using st4(2) f by simp
  qed
qed

text \<open>
  What the layers above do, on the state and the references they hold: they work on packets (\<open>buf_edit\<close>),
  drop references, send, and change their own state.
\<close>

inductive lu_step :: "'s lusb_env \<Rightarrow> 's lusb \<times> buf_ptr multiset \<Rightarrow> 's lusb \<times> buf_ptr multiset \<Rightarrow> bool" for E where
  packets: "buf_edit (st, H) (st', H') \<Longrightarrow> lu_step E (st, H) (st', H')"
| unref: "lu_unref b st = Some st' \<Longrightarrow> lu_step E (st, add_mset b H) (st', H)"
| send_command: "b \<in># H \<Longrightarrow> usb_backend_hci_send_command E b st = Some (rc, st') \<Longrightarrow> lu_step E (st, H) (st', H)"
| send_data: "b \<in># H \<Longrightarrow> usb_backend_hci_send_data E b st = Some (rc, st') \<Longrightarrow> lu_step E (st, H) (st', H)"
| above: "lu_step E (st, H) (st\<lparr>app := u\<rparr>, H)"

abbreviation lu_steps :: "'s lusb_env \<Rightarrow> 's lusb \<times> buf_ptr multiset \<Rightarrow> 's lusb \<times> buf_ptr multiset \<Rightarrow> bool" where
  "lu_steps E \<equiv> (lu_step E)\<^sup>*\<^sup>*"

lemma lu_frame_fields:
  "s_handle st' = s_handle st \<Longrightarrow> s_num_events st' = s_num_events st \<Longrightarrow> transfers st' = transfers st \<Longrightarrow>
   submitted st' = submitted st \<Longrightarrow> lu_frame st st'"
  by (simp add: lu_frame_def)

lemma lu_step_inv:
  assumes "allocating E" and "lu_step E c c'" and "lu_inv (snd c + K) (fst c)"
  shows "lu_inv (snd c' + K) (fst c') \<and> lu_frame (fst c) (fst c')"
  using assms(2)
proof cases
  case (packets st H st' H')
  then show ?thesis using lu_use.edit_inv [OF packets(3), of K] assms(3) buf_edit_bufs [OF packets(3)]
    by (auto intro!: lu_frame_fields)
next
  case (unref b st st' H)
  then show ?thesis using lu_unref_inv [of b "H + K" st] assms(3) lu_frame_bufs [OF lu_unref_bufs] by auto
next
  case (send_command b H st rc st')
  then show ?thesis using lu_send_command_inv [OF assms(1), of "H + K" st b] assms(3) by auto
next
  case (send_data b H st rc st')
  then show ?thesis using lu_send_data_inv [OF assms(1), of "H + K" st b] assms(3) by auto
next
  case (above st H u)
  then show ?thesis using assms(3) by (auto intro!: lu_frame_fields)
qed

lemma lu_steps_inv:
  assumes "lu_steps E c c'" and "allocating E" and "lu_inv (snd c + K) (fst c)"
  shows "lu_inv (snd c' + K) (fst c') \<and> lu_frame (fst c) (fst c')"
  using assms(1)
proof induction
  case (step c1 c2)
  then show ?case using lu_step_inv [OF assms(2) step(2), of K] lu_frame_trans by blast
qed (use assms(3) in simp)

section \<open>Reads\<close>

text \<open>\<^verbatim>\<open>read_intr\<close> and \<^verbatim>\<open>read_bulk\<close> differ in the endpoint, the length, the kind of transfer and the callback.\<close>

definition lu_read :: "'s lusb_env \<Rightarrow> transfer_type \<Rightarrow> byte \<Rightarrow> u16 \<Rightarrow> transfer_cb \<Rightarrow> 's lusb \<Rightarrow> (int \<times> 's lusb) option" where
  "lu_read E ty ep len cb st =
     (case s_handle st of None \<Rightarrow> Some (- USB_EBADF, st)
      | Some h \<Rightarrow>
          do { (transfer, st1) \<leftarrow> libusb_alloc_transfer E st;
               (buf, st2) \<leftarrow> lu_buffer_alloc E len st1;
               case buf of None \<Rightarrow> Some (- ENOMEM, st2)
               | Some b \<Rightarrow>
                   do { ptr \<leftarrow> buf_contiguous_data b len st2;
                        d \<leftarrow> ptr;
                        st3 \<leftarrow> libusb_fill_transfer transfer
                          \<lparr>t_type = ty, t_dev_handle = h, t_endpoint = ep, t_buffer = Packet d, t_length = unat len,
                           t_callback = cb, t_user_data = Some b, t_timeout = TO_DEF, t_status = 0, t_actual_length = 0\<rparr> st2;
                        (rc, st4) \<leftarrow> libusb_submit_transfer E transfer st3;
                        Some (if rc \<noteq> 0 then - 1 else rc, st4) } })"

lemma read_eq:
  "read_bulk E = lu_read E Bulk_transfer USB_ENDPOINT_ACL_IN USB_ACL_BUF_SIZE Read_bulk_cb"
  "read_intr E = lu_read E Interrupt_transfer USB_ENDPOINT_HCI_INTR USB_CTRL_BUF_SIZE Read_intr_cb"
  by (rule ext, simp only: read_bulk_def read_intr_def lu_read_def Let_def)+

definition read_started :: "'s lusb_env \<Rightarrow> transfer_cb \<Rightarrow> 's lusb \<Rightarrow> 's lusb \<Rightarrow> bool" where
  "read_started E cb st st' \<longleftrightarrow> s_handle st' = s_handle st \<and> app st' = app st \<and> open_handles st' = open_handles st \<and> s_num_events st' = s_num_events st \<and>
     (\<forall>t. transfers st t \<noteq> None \<longrightarrow> transfers st' t = transfers st t) \<and>
     (\<exists>t tr. transfers st t = None \<and> t_callback tr = cb \<and>
        (if lu_submit_transfer E (submit_calls st) tr = 0
         then submitted st' = submitted st @ [t] \<and> transfers st' t = Some (Some tr)
         else submitted st' = submitted st))"

lemma lu_read_inv:
  assumes al: "allocating E" and inv: "lu_inv H st"
    and cb: "cb = Read_intr_cb \<and> len = USB_CTRL_BUF_SIZE \<or> cb = Read_bulk_cb \<and> len = USB_ACL_BUF_SIZE"
  shows "\<exists>rc st'. lu_read E ty ep len cb st = Some (rc, st') \<and> lu_inv H st' \<and> (if s_handle st = None then st' = st else read_started E cb st st')"
proof (cases "s_handle st")
  case None
  then show ?thesis using inv by (simp add: lu_read_def)
next
  case (Some h)
  obtain t where t: "transfers st t = None" "t \<notin> set (submitted st)"
      "libusb_alloc_transfer E st = Some (Some t, st\<lparr>transfers := (transfers st)(t \<mapsto> None)\<rparr>)"
    using alloc_transferD [OF al inv] by blast
  let ?st1 = "st\<lparr>transfers := (transfers st)(t \<mapsto> None)\<rparr>"
  have inv1: "lu_inv H ?st1" using idle_transfer_inv [OF inv t(2)] .
  obtain a where a: "lu_malloc E ?st1 = Some a" "bufs st (Heap a) = None" using mallocD [OF al inv1] by auto
  define p where "p = \<lparr>b_ref_count = 1, b_free_func = Some Bte_free, b_total_size = len, b_size = len,
      b_next = None, b_data = map (lu_fresh E ?st1) [0..<unat len]\<rparr>"
  let ?st0 = "set_buf (Heap a) p st"
  have st2: "buf_alloc_contiguous (lu_fresh E ?st1) a len ?st1 = Some (Heap a, ?st1\<lparr>bufs := (bufs st)(Heap a \<mapsto> p)\<rparr>)"
    using a(2) by (simp add: buf_alloc_contiguous_def p_def)
  have inv0: "lu_inv (add_mset (Heap a) H) ?st0"
    using lu_use.alloc_inv [OF inv, of "lu_fresh E ?st1" a len "Heap a" ?st0] a(2) by (simp add: buf_alloc_contiguous_def p_def)
  define tr where "tr = \<lparr>t_type = ty, t_dev_handle = h, t_endpoint = ep, t_buffer = Packet (Heap a), t_length = unat len,
      t_callback = cb, t_user_data = Some (Heap a), t_timeout = TO_DEF, t_status = 0, t_actual_length = 0\<rparr>"
  have trs: "held_by tr = {#Heap a#}" "transfer_ok ?st0 tr" "t_callback tr = cb"
    using cb by (auto simp: tr_def held_by_def transfer_ok_def reading_def p_def)
  have inv0': "lu_inv (held_by tr + H) ?st0" using inv0 trs(1) by simp
  have t0: "transfers ?st0 t = None" using t(1) by simp
  have nb: "t_buffer tr = Block b \<Longrightarrow> t' \<in> set (submitted ?st0) \<Longrightarrow> slot_block ?st0 t' \<noteq> Some b" for b t' by (simp add: tr_def)
  have h0: "s_handle ?st0 = Some (t_dev_handle tr)" using Some by (simp add: tr_def)
  let ?st3 = "?st0\<lparr>transfers := (transfers st)(t \<mapsto> Some tr)\<rparr>"
  obtain rc st4 where st4: "libusb_submit_transfer E (Some t) ?st3 = Some (rc, st4)" "rc = lu_submit_transfer E (submit_calls st) tr"
      "rc = 0 \<Longrightarrow> lu_inv H st4 \<and> st4 = ?st3\<lparr>submitted := submitted st @ [t], submit_calls := submit_calls st + 1\<rparr>"
      "rc \<noteq> 0 \<Longrightarrow> lu_inv (held_by tr + H) st4 \<and> st4 = ?st3\<lparr>submit_calls := submit_calls st + 1\<rparr>"
    using start_transfer [OF inv0' t0 trs(2) nb h0, of E] by auto
  have st3: "(?st1\<lparr>bufs := (bufs st)(Heap a \<mapsto> p)\<rparr>)\<lparr>transfers := (transfers st)(t \<mapsto> Some tr)\<rparr> = ?st3" by simp
  have "lu_read E ty ep len cb st = Some (if rc \<noteq> 0 then - 1 else rc, st4)"
    using Some t(3) a(1) st2 st4(1)
    by (simp add: lu_read_def lu_buffer_alloc_def buf_contiguous_data_def libusb_fill_transfer_def p_def flip: tr_def)
  moreover have "lu_inv H st4" using st4(3,4) buf_inv_mono [of lu_users lu_ok "held_by tr + H" st4 H] by (cases "rc = 0") auto
  moreover have "read_started E cb st st4" unfolding read_started_def
    using st4 t trs(3) by (cases "rc = 0") auto
  ultimately show ?thesis using Some by simp
qed

end
