(* ===== verification/LibusbLive.thy ===== *)
theory LibusbLive
  imports LibusbReach
begin

text \<open>
  What the end of a transfer and the start of the backend do: every callback keeps the accounting
  of packets and transfers and the number of reads in progress.
\<close>

section \<open>Counting reads\<close>

definition slot_cb :: "'s lusb \<Rightarrow> nat \<Rightarrow> transfer_cb option" where
  "slot_cb st t = do { slot \<leftarrow> transfers st t; tr \<leftarrow> slot; Some (t_callback tr) }"

definition reads :: "'s lusb \<Rightarrow> transfer_cb \<Rightarrow> nat" where
  "reads st cb = count_list (map (slot_cb st) (submitted st)) (Some cb)"

definition allocated :: "'s lusb \<Rightarrow> bool" where
  "allocated st \<longleftrightarrow> distinct (submitted st) \<and> (\<forall>t \<in> set (submitted st). transfers st t \<noteq> None)"

lemma inv_allocated: "lu_inv H st \<Longrightarrow> allocated st"
  by (drule buf_invD(2)) (auto simp: allocated_def lu_ok_def)

lemma count_list_map_eq: "(\<And>t. t \<in> set ts \<Longrightarrow> f t = g t) \<Longrightarrow> count_list (map f ts) x = count_list (map g ts) x"
  by (metis (mono_tags, lifting) map_cong)

lemma frame_reads:
  assumes "lu_frame st st'" and "allocated st" and "cb \<in> {Read_intr_cb, Read_bulk_cb}"
  shows "reads st' cb = reads st cb"
proof -
  obtain ts where ts: "submitted st' = submitted st @ ts" "\<And>t. t \<in> set ts \<Longrightarrow> \<exists>tr. transfers st' t = Some (Some tr) \<and> \<not> lu_is_read tr"
    using assms(1) by (auto simp: lu_frame_def)
  have "slot_cb st' t = slot_cb st t" if "t \<in> set (submitted st)" for t
    using that assms(1,2) by (simp add: lu_frame_def allocated_def slot_cb_def)
  then have a: "count_list (map (slot_cb st') (submitted st)) (Some cb) = reads st cb"
    unfolding reads_def by (rule count_list_map_eq)
  have "Some cb \<notin> set (map (slot_cb st') ts)"
    using ts(2) assms(3) by (fastforce simp: slot_cb_def lu_is_read_def)
  then have "count_list (map (slot_cb st') ts) (Some cb) = 0" using count_notin by fast
  then show ?thesis using a by (simp add: reads_def ts(1) del: count_list_0_iff)
qed

lemma started_reads:
  assumes "read_started E cb st st'" and "allocated st" and "\<And>n tr. lu_submit_transfer E n tr = 0"
  shows "reads st' c = reads st c + (if c = cb then 1 else 0)"
proof -
  obtain t tr where t: "submitted st' = submitted st @ [t]" "transfers st' t = Some (Some tr)" "t_callback tr = cb"
    using assms(1,3) by (auto simp: read_started_def)
  have "slot_cb st' t' = slot_cb st t'" if "t' \<in> set (submitted st)" for t'
    using that assms(1,2) by (simp add: read_started_def allocated_def slot_cb_def)
  then have "count_list (map (slot_cb st') (submitted st)) (Some c) = reads st c"
    unfolding reads_def by (rule count_list_map_eq)
  then show ?thesis using t by (auto simp: reads_def slot_cb_def)
qed

lemma end_reads:
  assumes "allocated st" and "t \<in> set (submitted st)" and "transfers st t = Some (Some tr)"
  shows "reads st c = reads (lu_end t tr' st) c + (if t_callback tr = c then 1 else 0)"
proof -
  have "slot_cb (lu_end t tr' st) t' = slot_cb st t'" if "t' \<in> set (remove1 t (submitted st))" for t'
    using that assms(1) by (auto simp: slot_cb_def lu_end_def allocated_def)
  then have "count_list (map (slot_cb (lu_end t tr' st)) (remove1 t (submitted st))) (Some c) =
      count_list (map (slot_cb st) (remove1 t (submitted st))) (Some c)" by (rule count_list_map_eq)
  moreover have "slot_cb st t = Some (t_callback tr)" using assms(3) by (simp add: slot_cb_def)
  ultimately show ?thesis
    using count_list_remove1 [OF assms(2), of "slot_cb st" "Some c"] by (simp add: reads_def lu_end_def)
qed

lemma free_reads: "t \<notin> set (submitted st) \<Longrightarrow> reads (st\<lparr>transfers := (transfers st)(t := x)\<rparr>) c = reads st c"
  unfolding reads_def by (simp, rule count_list_map_eq) (auto simp: slot_cb_def)

lemma slot_cb_fields [simp]:
  "slot_cb (st\<lparr>bufs := m\<rparr>) = slot_cb st" "slot_cb (st\<lparr>s_num_events := n\<rparr>) = slot_cb st" "slot_cb (st\<lparr>blocks := bl\<rparr>) = slot_cb st"
  by (simp_all add: fun_eq_iff slot_cb_def)

lemma reads_fields [simp]:
  "reads (st\<lparr>bufs := m\<rparr>) = reads st" "reads (st\<lparr>s_num_events := n\<rparr>) = reads st" "reads (st\<lparr>blocks := bl\<rparr>) = reads st"
  by (simp_all add: reads_def fun_eq_iff)

section \<open>Callbacks\<close>

text \<open>
  The contract of the functions of the HCI layer that the callbacks call. The packets the layers
  above hold are a function \<open>held\<close> of their own state; the functions return, and they do what the
  layers above may do, but leave the references \<open>L\<close> of their callers alone.
\<close>

definition lu_handler :: "'s lusb_env \<Rightarrow> ('s \<Rightarrow> buf_ptr multiset) \<Rightarrow> (buf_ptr \<Rightarrow> 's lusb \<Rightarrow> 's lusb option) \<Rightarrow> bool" where
  "lu_handler E held f \<longleftrightarrow> (\<forall>b st L. b \<in># L \<and> lu_inv (L + held (app st)) st \<longrightarrow>
     (\<exists>st'. f b st = Some st' \<and> lu_steps E (st, L + held (app st)) (st', L + held (app st'))))"

abbreviation lu_handlers :: "'s lusb_env \<Rightarrow> ('s \<Rightarrow> buf_ptr multiset) \<Rightarrow> bool" where
  "lu_handlers E held \<equiv> lu_handler E held (lu_hci_handle_event E) \<and> lu_handler E held (lu_hci_handle_data E)"

definition lu_read_cb ::
    "(buf_ptr \<Rightarrow> 's lusb \<Rightarrow> 's lusb option) \<Rightarrow> ('s lusb \<Rightarrow> (int \<times> 's lusb) option) \<Rightarrow> nat \<Rightarrow> 's lusb \<Rightarrow> 's lusb option" where
  "lu_read_cb handle next_read transfer st =
     do { slot \<leftarrow> transfers st transfer; tr \<leftarrow> slot;
          buf \<leftarrow> t_user_data tr;
          st1 \<leftarrow> (if t_status tr = LIBUSB_TRANSFER_COMPLETED then
                     do { st1 \<leftarrow> buf_shrink buf (t_actual_length tr) st;
                          st2 \<leftarrow> handle buf st1;
                          Some (st2\<lparr>s_num_events := s_num_events st2 + 1\<rparr>) }
                   else Some st);
          st2 \<leftarrow> libusb_free_transfer transfer st1;
          st3 \<leftarrow> lu_unref buf st2;
          (_, st4) \<leftarrow> next_read st3;
          Some st4 }"

lemma read_cb_eq:
  "read_bulk_cb E = lu_read_cb (lu_hci_handle_data E) (read_bulk E)" "read_intr_cb E = lu_read_cb (lu_hci_handle_event E) (read_intr E)"
  by (rule ext, rule ext, simp only: read_bulk_cb_def read_intr_cb_def lu_read_cb_def)+

text \<open>The state in which the next read is started: the ended transfer is gone and its packet released.\<close>

lemma read_ended:
  assumes al: "allocating E" and h: "lu_handler E held handle"
    and inv: "lu_inv (add_mset b (held (app st))) st" and p: "bufs st b = Some p" "b_next p = None"
    and t: "t \<notin> set (submitted st)" "transfers st t = Some (Some tr)" "t_user_data tr = Some b"
  shows "\<exists>st3. lu_read_cb handle next_read t st = next_read st3 \<bind> (\<lambda>(_, st4). Some st4) \<and>
     lu_inv (held (app st3)) st3 \<and> s_handle st3 = s_handle st \<and>
     s_num_events st3 = s_num_events st + (if t_status tr = LIBUSB_TRANSFER_COMPLETED then 1 else 0) \<and>
     (\<forall>c \<in> {Read_intr_cb, Read_bulk_cb}. reads st3 c = reads st c)"
proof -
  let ?done = "t_status tr = LIBUSB_TRANSFER_COMPLETED"
  let ?p = "p\<lparr>b_total_size := t_actual_length tr, b_size := min (b_size p) (t_actual_length tr)\<rparr>"
  have "\<exists>st1. (if ?done then do { st1 \<leftarrow> buf_shrink b (t_actual_length tr) st; st2 \<leftarrow> handle b st1;
                 Some (st2\<lparr>s_num_events := s_num_events st2 + 1\<rparr>) } else Some st) = Some st1 \<and>
      lu_inv (add_mset b (held (app st1))) st1 \<and> s_handle st1 = s_handle st \<and>
      s_num_events st1 = s_num_events st + (if ?done then 1 else 0) \<and>
      (\<forall>c \<in> {Read_intr_cb, Read_bulk_cb}. reads st1 c = reads st c) \<and> transfers st1 t \<noteq> None \<and> t \<notin> set (submitted st1)"
  proof (cases ?done)
    case False
    then show ?thesis using inv t by simp
  next
    case True
    let ?st1 = "set_buf b ?p st"
    have inv1: "lu_inv ({#b#} + held (app ?st1)) ?st1" using lu_use.touch_inv [OF inv _ p(1), of ?p] by simp
    then obtain st2 where st2: "handle b ?st1 = Some st2" "lu_steps E (?st1, {#b#} + held (app ?st1)) (st2, {#b#} + held (app st2))"
      using h unfolding lu_handler_def by (metis multi_member_last)
    have i2: "lu_inv ({#b#} + held (app st2)) st2" "lu_frame ?st1 st2"
      using lu_steps_inv [OF st2(2) al, of "{#}"] inv1 by simp_all
    have "transfers st2 t \<noteq> None" "t \<notin> set (submitted st2)" "s_handle st2 = s_handle st" "s_num_events st2 = s_num_events st"
      using i2(2) t by (auto simp: lu_frame_def)
    moreover have "reads st2 c = reads st c" if "c \<in> {Read_intr_cb, Read_bulk_cb}" for c
      using frame_reads [OF i2(2) inv_allocated [OF inv1] that] by simp
    ultimately show ?thesis using True i2(1) shrink_alone [OF p] st2(1) by simp
  qed
  then obtain st1 where st1: "(if ?done then do { st1 \<leftarrow> buf_shrink b (t_actual_length tr) st; st2 \<leftarrow> handle b st1;
                 Some (st2\<lparr>s_num_events := s_num_events st2 + 1\<rparr>) } else Some st) = Some st1"
      "lu_inv (add_mset b (held (app st1))) st1" "s_handle st1 = s_handle st" "s_num_events st1 = s_num_events st + (if ?done then 1 else 0)"
      "\<forall>c \<in> {Read_intr_cb, Read_bulk_cb}. reads st1 c = reads st c" "transfers st1 t \<noteq> None" "t \<notin> set (submitted st1)" by blast
  let ?st2 = "st1\<lparr>transfers := (transfers st1)(t := None)\<rparr>"
  have "lu_inv (add_mset b (held (app st1))) ?st2" using idle_transfer_inv [OF st1(2,7)] .
  then obtain st3 where st3: "lu_unref b ?st2 = Some st3" "lu_inv (held (app st1)) st3" using lu_unref_inv by blast
  then obtain m where m: "st3 = ?st2\<lparr>bufs := m\<rparr>" using lu_unref_bufs [OF st3(1)] by (auto simp: same_but_bufs_def)
  have "lu_read_cb handle next_read t st = next_read st3 \<bind> (\<lambda>(_, st4). Some st4)"
    unfolding lu_read_cb_def using t st1(1,6) st3(1) by (auto simp: libusb_free_transfer_def)
  moreover have "lu_inv (held (app st3)) st3" using st3(2) m by simp
  moreover have "reads st3 c = reads st1 c" for c using m free_reads [OF st1(7)] by simp
  ultimately show ?thesis using st1(3-5) m by (intro exI [of _ st3]) simp
qed

text \<open>The end of a transfer, seen from outside.\<close>

definition lu_after :: "'s lusb_env \<Rightarrow> ('s \<Rightarrow> buf_ptr multiset) \<Rightarrow> libusb_transfer \<Rightarrow> int \<Rightarrow> 's lusb \<Rightarrow> 's lusb \<Rightarrow> bool" where
  "lu_after E held tr status st st' \<longleftrightarrow> lu_inv (held (app st')) st' \<and> s_handle st' = s_handle st \<and>
     s_num_events st' = s_num_events st + (if lu_is_read tr \<and> status = LIBUSB_TRANSFER_COMPLETED then 1 else 0) \<and>
     (s_handle st \<noteq> None \<and> (\<forall>n tr. lu_submit_transfer E n tr = 0) \<longrightarrow>
        (\<forall>c \<in> {Read_intr_cb, Read_bulk_cb}. reads st' c = reads st c))"

lemma lu_complete_read:
  assumes al: "allocating E" and h: "lu_handler E held handle"
    and inv: "lu_inv (held (app st)) st" and t: "t \<in> set (submitted st)" "transfers st t = Some (Some tr)"
    and rd: "reading st tr len" and len: "length bs \<le> t_length tr"
    and cb: "t_callback tr = Read_intr_cb \<and> len = USB_CTRL_BUF_SIZE \<or> t_callback tr = Read_bulk_cb \<and> len = USB_ACL_BUF_SIZE"
    and run: "run_callback E (t_callback tr) t = lu_read_cb handle (lu_read E ty ep len (t_callback tr)) t"
  shows "\<exists>st'. lu_complete E t status bs st = Some st' \<and> lu_after E held tr status st st'"
proof -
  obtain b p where b: "t_user_data tr = Some b" "t_buffer tr = Packet b" "bufs st b = Some p" "b_next p = None" "b_size p = len" "t_length tr = unat len"
    using rd by (auto simp: reading_def)
  have isr: "lu_is_read tr" using cb by (auto simp: lu_is_read_def)
  have "unat len \<le> length (b_data p)" using buf_invD(3) [OF inv b(3)] b(5) by (simp add: buf_typed_def)
  then obtain d where d: "wr (b_data p) 0 bs = Some d" "length d = length (b_data p)" using len b(6) by (simp add: wr_def)
  let ?tr = "tr\<lparr>t_status := status, t_actual_length := of_nat (length bs)\<rparr>" and ?p = "p\<lparr>b_data := d\<rparr>"
  let ?e = "lu_end t ?tr st" and ?st1 = "set_buf b ?p (lu_end t ?tr st)"
  have eq: "lu_end t ?tr (set_buf b ?p st) = ?st1" by (simp add: lu_end_def)
  have ap: "app ?e = app st" "s_handle ?e = s_handle st" "s_num_events ?e = s_num_events st" "bufs ?e = bufs st"
      "transfers ?e t = Some (Some ?tr)" by (simp_all add: lu_end_def)
  have nt: "t \<notin> set (submitted ?e)" using inv_allocated [OF inv] by (simp add: allocated_def lu_end_def)
  have "lu_inv (add_mset b (held (app st))) ?e" using end_inv [OF inv t, of ?tr] b(1) by (simp add: held_by_def)
  then have inv1: "lu_inv (add_mset b (held (app ?st1))) ?st1"
    using lu_use.touch_inv [of "add_mset b (held (app st))" ?e b p ?p] b(3) d(2) ap by simp
  have t1: "t \<notin> set (submitted ?st1)" "transfers ?st1 t = Some (Some ?tr)" "t_user_data ?tr = Some b" "bufs ?st1 b = Some ?p" "b_next ?p = None"
    using nt ap b by simp_all
  from read_ended [OF al h inv1 t1(4,5) t1(1-3), of "lu_read E ty ep len (t_callback tr)"] obtain st3 where
    st3: "lu_read_cb handle (lu_read E ty ep len (t_callback tr)) t ?st1 = lu_read E ty ep len (t_callback tr) st3 \<bind> (\<lambda>(_, st4). Some st4)"
      "lu_inv (held (app st3)) st3" "s_handle st3 = s_handle st" "s_num_events st3 = s_num_events st + (if status = LIBUSB_TRANSFER_COMPLETED then 1 else 0)"
      "\<And>c. c \<in> {Read_intr_cb, Read_bulk_cb} \<Longrightarrow> reads st3 c = reads ?e c"
    using ap by auto
  obtain rc st4 where st4: "lu_read E ty ep len (t_callback tr) st3 = Some (rc, st4)" "lu_inv (held (app st3)) st4"
      "if s_handle st3 = None then st4 = st3 else read_started E (t_callback tr) st3 st4"
    using lu_read_inv [OF al st3(2) cb] by blast
  have c: "lu_complete E t status bs st = Some st4"
    using t b d isr run eq st3(1) st4(1) by (simp add: lu_complete_def lu_deliver_def)
  have f: "app st4 = app st3" "s_handle st4 = s_handle st3" "s_num_events st4 = s_num_events st3"
    using st4(3) by (auto simp: read_started_def split: if_splits)
  have "reads st4 c = reads st c"
    if "s_handle st \<noteq> None" "\<forall>n tr. lu_submit_transfer E n tr = 0" "c \<in> {Read_intr_cb, Read_bulk_cb}" for c
  proof -
    have "read_started E (t_callback tr) st3 st4" using st4(3) that(1) st3(3) by simp
    then have "reads st4 c = reads st3 c + (if c = t_callback tr then 1 else 0)"
      using started_reads [OF _ inv_allocated [OF st3(2)]] that(2) by blast
    then show ?thesis using st3(5) [OF that(3)] end_reads [OF inv_allocated [OF inv] t, of c ?tr] by auto
  qed
  then show ?thesis using c f st3(3,4) st4(2) isr by (simp add: lu_after_def)
qed

lemma free_transfer_after:
  assumes "lu_inv H st" and "t \<notin> set (submitted st)" and "transfers st t \<noteq> None"
  shows "\<exists>st'. libusb_free_transfer t st = Some st' \<and> lu_inv H st' \<and> app st' = app st \<and> s_handle st' = s_handle st \<and>
     s_num_events st' = s_num_events st \<and> (\<forall>c. reads st' c = reads st c)"
  using assms idle_transfer_inv [OF assms(1,2), of None] free_reads [OF assms(2), of None] by (auto simp: libusb_free_transfer_def)

lemma lu_complete_write:
  assumes inv: "lu_inv (held (app st)) st" and t: "t \<in> set (submitted st)" "transfers st t = Some (Some tr)"
    and wr: "\<not> lu_is_read tr"
  shows "\<exists>st'. lu_complete E t status bs st = Some st' \<and> lu_after E held tr status st st'"
proof -
  have ok: "transfer_ok st tr" using submittedD [OF buf_invD(2) [OF inv] t(1)] t(2) by auto
  let ?tr = "tr\<lparr>t_status := status, t_actual_length := of_nat (length bs)\<rparr>"
  let ?e = "lu_end t ?tr st"
  have ap: "app ?e = app st" "s_handle ?e = s_handle st" "s_num_events ?e = s_num_events st" "transfers ?e t = Some (Some ?tr)"
    "blocks ?e = blocks st" by (simp_all add: lu_end_def)
  have nt: "t \<notin> set (submitted ?e)" using inv_allocated [OF inv] by (simp add: allocated_def lu_end_def)
  have inv1: "lu_inv (held_by tr + held (app st)) ?e" using end_inv [OF inv t] .
  have rd: "c \<in> {Read_intr_cb, Read_bulk_cb} \<Longrightarrow> reads ?e c = reads st c" for c
    using end_reads [OF inv_allocated [OF inv] t, of c ?tr] wr by (auto simp: lu_is_read_def)
  have step: "lu_complete E t status bs st = run_callback E (t_callback tr) t ?e" using t(2) wr by (simp add: lu_complete_def)
  consider "t_callback tr = Hci_send_command_cb" | "t_callback tr = Hci_send_data_cb"
    using wr by (cases "t_callback tr") (auto simp: lu_is_read_def)
  then show ?thesis
  proof cases
    case 1
    then obtain a x where a: "t_buffer tr = Block a" "blocks st a = Some x" "held_by tr = {#}"
      using ok by (auto simp: transfer_ok_def held_by_def)
    let ?st2 = "?e\<lparr>blocks := (blocks ?e)(a := None)\<rparr>"
    have "slot_block ?e t' \<noteq> Some a" if t': "t' \<in> set (submitted ?e)" for t'
    proof -
      have "t' \<noteq> t" "t' \<in> set (submitted st)" using t' inv_allocated [OF inv] by (auto simp: lu_end_def allocated_def)
      moreover have "slot_block st t = Some a" using t(2) a(1) by (simp add: slot_block_def)
      moreover have "blocks_apart st" using buf_invD(2) [OF inv] by (simp add: lu_ok_def)
      ultimately have "slot_block st t' \<noteq> Some a" using t(1) unfolding blocks_apart_def by (metis option.distinct(1))
      then show ?thesis using \<open>t' \<noteq> t\<close> by (simp add: slot_block_def lu_end_def)
    qed
    then have "lu_inv (held (app st)) ?st2" using blocks_inv [OF inv1] a(3) by simp
    then obtain st' where "libusb_free_transfer t ?st2 = Some st'" "lu_inv (held (app st)) st'" "app st' = app st"
        "s_handle st' = s_handle st" "s_num_events st' = s_num_events st" "\<And>c. reads st' c = reads ?e c"
      using free_transfer_after [of "held (app st)" ?st2 t] nt ap by auto
    then show ?thesis
      using step 1 a ap rd wr by (intro exI [of _ st']) (simp add: hci_send_command_cb_def lu_after_def)
  next
    case 2
    then obtain b where b: "t_user_data tr = Some b" "held_by tr = {#b#}" using ok by (auto simp: transfer_ok_def held_by_def)
    then obtain st2 m where st2: "lu_unref b ?e = Some st2" "lu_inv (held (app st)) st2" "st2 = ?e\<lparr>bufs := m\<rparr>"
      using lu_unref_inv [of b "held (app st)" ?e] inv1 lu_unref_bufs [of b ?e] by (auto simp: same_but_bufs_def)
    then obtain st' where "libusb_free_transfer t st2 = Some st'" "lu_inv (held (app st)) st'" "app st' = app st"
        "s_handle st' = s_handle st" "s_num_events st' = s_num_events st" "\<And>c. reads st' c = reads ?e c"
      using free_transfer_after [of "held (app st)" st2 t] nt ap by auto
    then show ?thesis
      using step 2 b st2(1) ap rd wr by (intro exI [of _ st']) (simp add: hci_send_data_cb_def lu_after_def)
  qed
qed

lemma lu_complete_inv:
  assumes al: "allocating E" and h: "lu_handlers E held"
    and inv: "lu_inv (held (app st)) st" and t: "t \<in> set (submitted st)" "transfers st t = Some (Some tr)" and len: "length bs \<le> t_length tr"
  shows "\<exists>st'. lu_complete E t status bs st = Some st' \<and> lu_after E held tr status st st'"
proof -
  have ok: "transfer_ok st tr" using submittedD [OF buf_invD(2) [OF inv] t(1)] t(2) by auto
  consider "t_callback tr = Read_intr_cb" | "t_callback tr = Read_bulk_cb" | "\<not> lu_is_read tr" by (auto simp: lu_is_read_def)
  then show ?thesis
  proof cases
    case 1
    then show ?thesis using ok h
      by (intro lu_complete_read [where held = held and handle = "lu_hci_handle_event E" and len = USB_CTRL_BUF_SIZE, OF al _ inv t _ len])
         (auto simp: transfer_ok_def fun_eq_iff read_cb_eq read_eq)
  next
    case 2
    then show ?thesis using ok h
      by (intro lu_complete_read [where held = held and handle = "lu_hci_handle_data E" and len = USB_ACL_BUF_SIZE, OF al _ inv t _ len])
         (auto simp: transfer_ok_def fun_eq_iff read_cb_eq read_eq)
  next
    case 3
    then show ?thesis by (rule lu_complete_write [where held = held, OF inv t])
  qed
qed

section \<open>Opening the adaptor\<close>

lemma is_bluetooth_adaptor_iff:
  "is_bluetooth_adaptor desc = Some (bDeviceClass desc = 0xe0 \<and> bDeviceSubClass desc = 1 \<and> bDeviceProtocol desc = 1 \<or>
     idVendor desc = 0x0a5c \<and> idProduct desc = 0x21ec)"
  by (auto simp: is_bluetooth_adaptor_def s_known_devices_def LIBUSB_CLASS_WIRELESS_def)

text \<open>The handle of a device that says it is a Bluetooth adaptor, or is known to be one, and can be opened.\<close>

definition usable_adaptor :: "'s lusb_env \<Rightarrow> nat \<Rightarrow> nat option" where
  "usable_adaptor E d =
     (case (lu_get_device_descriptor E d, lu_open E d) of
        (Inr desc, Inr h) \<Rightarrow>
          if bDeviceClass desc = 0xe0 \<and> bDeviceSubClass desc = 1 \<and> bDeviceProtocol desc = 1 \<or>
             idVendor desc = 0x0a5c \<and> idProduct desc = 0x21ec then Some h else None
      | _ \<Rightarrow> None)"

lemma open_loop_first:
  "open_loop E ds st = Some (case List.map_filter (usable_adaptor E) ds of [] \<Rightarrow> st
     | h # hs \<Rightarrow> st\<lparr>s_handle := Some h, open_handles := open_handles st @ [h]\<rparr>)"
proof (induction ds)
  case (Cons d ds)
  show ?case
    unfolding open_loop.simps is_bluetooth_adaptor_iff map_filter_simps usable_adaptor_def
    by (cases "lu_get_device_descriptor E d"; cases "lu_open E d") (simp_all add: Cons.IH [unfolded usable_adaptor_def [abs_def]] cong: if_cong)
qed (simp add: map_filter_simps)

definition driver_detached :: "'s lusb_env \<Rightarrow> nat \<Rightarrow> bool" where
  "driver_detached E h \<longleftrightarrow> lu_set_auto_detach_kernel_driver E h = 0 \<or> lu_detach_kernel_driver E h 0 \<in> {0, - 5, - 12}"

lemma boot_inv: "lu_inv {#} (libusb_boot u)"
  by (simp add: buf_inv_def libusb_boot_def lu_ok_def lu_users_def blocks_apart_def closed_context_def refs_def linkers_def)

lemma reads_begin:
  assumes al: "allocating E" and inv: "lu_inv H st" and h: "s_handle st \<noteq> None"
  shows "\<exists>st'. (do { (_, st3) \<leftarrow> read_intr E st; (_, st4) \<leftarrow> read_bulk E st3; Some (0 :: int, st4) }) = Some (0, st') \<and> lu_inv H st' \<and>
     s_handle st' = s_handle st \<and> app st' = app st \<and> open_handles st' = open_handles st \<and>
     ((\<forall>n tr. lu_submit_transfer E n tr = 0) \<longrightarrow> (\<forall>c. reads st' c = reads st c + (if c \<in> {Read_intr_cb, Read_bulk_cb} then 1 else 0)))"
proof -
  obtain rc st3 where st3: "read_intr E st = Some (rc, st3)" "lu_inv H st3" "read_started E Read_intr_cb st st3"
    using lu_read_inv [OF al inv, of Read_intr_cb USB_CTRL_BUF_SIZE Interrupt_transfer USB_ENDPOINT_HCI_INTR] h unfolding read_eq by auto
  have h3: "s_handle st3 \<noteq> None" using st3(3) h by (simp add: read_started_def)
  obtain rc2 st4 where st4: "read_bulk E st3 = Some (rc2, st4)" "lu_inv H st4" "read_started E Read_bulk_cb st3 st4"
    using lu_read_inv [OF al st3(2), of Read_bulk_cb USB_ACL_BUF_SIZE Bulk_transfer USB_ENDPOINT_ACL_IN] h3 unfolding read_eq by auto
  have "reads st4 c = reads st c + (if c \<in> {Read_intr_cb, Read_bulk_cb} then 1 else 0)" if ac: "\<forall>n tr. lu_submit_transfer E n tr = 0" for c
    using started_reads [OF st3(3) inv_allocated [OF inv], of c] started_reads [OF st4(3) inv_allocated [OF st3(2)], of c] ac by auto
  then show ?thesis using st3 st4 by (auto simp: read_started_def)
qed

lemma init_eq:
  assumes "(if s_external_context st then Inr st else map_sum id (\<lambda>c. st\<lparr>s_context := Some c, open_contexts := open_contexts st @ [c]\<rparr>) (lu_init_context E)) = Inr st1"
    and "lu_get_device_list E (s_context st1) = Inr ds"
    and "s_handle st1 = None"
  shows "usb_backend_init E st = (case List.map_filter (usable_adaptor E) ds of [] \<Rightarrow> Some (- 1, st1)
     | h # hs \<Rightarrow> (let st2 = st1\<lparr>s_handle := Some h, open_handles := open_handles st1 @ [h]\<rparr> in
        if driver_detached E h \<and> lu_claim_interface E h 0 = 0 then
          do { (_, st3) \<leftarrow> read_intr E st2; (_, st4) \<leftarrow> read_bulk E st3; Some (0, st4) }
        else Some (- 1, st2)))"
  unfolding usb_backend_init_def assms(1) sum.case assms(2) open_loop_first
  using assms(3) by (auto simp: driver_detached_def Let_def LIBUSB_SUCCESS_def LIBUSB_ERROR_NOT_FOUND_def LIBUSB_ERROR_NOT_SUPPORTED_def
      split: list.split)

end
