(* ===== verification/LibusbRun.thy ===== *)
theory LibusbRun
  imports LibusbLive
begin

text \<open>
  Which adaptor \<^verbatim>\<open>usb_backend_init\<close> opens, the states the libusb backend reaches after it has
  succeeded, and the properties of all of them.
\<close>

section \<open>Opening the adaptor\<close>

text \<open>
  C39: opening the adaptor. \<^verbatim>\<open>usb_backend_init\<close> takes the first of the devices that is a Bluetooth
  adaptor (by its class, or because it is in the list of known devices) and can be opened, whatever
  precedes it in the list; it fails with -1 when there is none, when the kernel driver cannot be
  detached or when the interface cannot be claimed, and then it has started nothing; otherwise it
  returns 0 and, when the controller accepts them, one read of each endpoint is in progress.
\<close>

theorem libusb_init_opens_first:
  assumes "lu_init_context E = Inr c" and "lu_get_device_list E (Some c) = Inr ds" and "allocating E"
  shows "case List.map_filter (usable_adaptor E) ds of
      [] \<Rightarrow> usb_backend_init E (libusb_boot u) = Some (- 1, (libusb_boot u)\<lparr>s_context := Some c, open_contexts := [c]\<rparr>)
    | h # hs \<Rightarrow> (\<exists>rc st. usb_backend_init E (libusb_boot u) = Some (rc, st) \<and> s_handle st = Some h \<and> open_handles st = [h] \<and>
        (if driver_detached E h \<and> lu_claim_interface E h 0 = 0
         then rc = 0 \<and> ((\<forall>n tr. lu_submit_transfer E n tr = 0) \<longrightarrow> reads st Read_intr_cb = 1 \<and> reads st Read_bulk_cb = 1)
         else rc = - 1 \<and> submitted st = []))"
proof -
  let ?st1 = "(libusb_boot u)\<lparr>s_context := Some c, open_contexts := [c]\<rparr>"
  have b: "\<not> s_external_context (libusb_boot u)" "s_handle ?st1 = None" "open_handles ?st1 = []" "submitted ?st1 = []"
    by (simp_all add: libusb_boot_def)
  have eq: "usb_backend_init E (libusb_boot u) = (case List.map_filter (usable_adaptor E) ds of [] \<Rightarrow> Some (- 1, ?st1)
     | h # hs \<Rightarrow> (let st2 = ?st1\<lparr>s_handle := Some h, open_handles := open_handles ?st1 @ [h]\<rparr> in
        if driver_detached E h \<and> lu_claim_interface E h 0 = 0 then
          do { (_, st3) \<leftarrow> read_intr E st2; (_, st4) \<leftarrow> read_bulk E st3; Some (0, st4) }
        else Some (- 1, st2)))"
    by (rule init_eq) (use assms b in \<open>simp_all add: libusb_boot_def\<close>)
  show ?thesis
  proof (cases "List.map_filter (usable_adaptor E) ds")
    case Nil
    then show ?thesis using eq by simp
  next
    case (Cons h hs)
    let ?st2 = "?st1\<lparr>s_handle := Some h, open_handles := [h]\<rparr>"
    have "lu_inv {#} ?st2" using lu_inv_opened(3) [OF lu_inv_opened(1) [OF boot_inv [of u], of c], of h] b by (simp add: libusb_boot_def)
    then obtain st where st: "(do { (_, st3) \<leftarrow> read_intr E ?st2; (_, st4) \<leftarrow> read_bulk E st3; Some (0 :: int, st4) }) = Some (0, st)"
        "s_handle st = Some h" "open_handles st = [h]"
        "(\<forall>n tr. lu_submit_transfer E n tr = 0) \<Longrightarrow> reads st Read_intr_cb = reads ?st2 Read_intr_cb + 1 \<and> reads st Read_bulk_cb = reads ?st2 Read_bulk_cb + 1"
      using reads_begin [OF assms(3), of "{#}" ?st2] by auto
    have "reads ?st2 cb = 0" for cb by (simp add: reads_def libusb_boot_def)
    then show ?thesis using eq Cons st b by (auto simp: Let_def)
  qed
qed

section \<open>Reachable states\<close>

inductive lu_run :: "'s lusb_env \<Rightarrow> ('s \<Rightarrow> buf_ptr multiset) \<Rightarrow> 's lusb \<Rightarrow> 's lusb \<Rightarrow> bool" for E held where
  above: "lu_steps E (st, held (app st)) (st', held (app st')) \<Longrightarrow> lu_run E held st st'"
| completed: "t \<in> set (submitted st) \<Longrightarrow> transfers st t = Some (Some tr) \<Longrightarrow> length bs \<le> t_length tr \<Longrightarrow>
     lu_complete E t status bs st = Some st' \<Longrightarrow> lu_run E held st st'"
| counted: "lu_run E held st (st\<lparr>s_num_events := n\<rparr>)"

definition lu_reach :: "'s lusb_env \<Rightarrow> ('s \<Rightarrow> buf_ptr multiset) \<Rightarrow> 's lusb \<Rightarrow> bool" where
  "lu_reach E held st \<longleftrightarrow> (\<exists>c u st0 boot. boot \<in> {libusb_boot u, bte_backend_libusb_set_context c (libusb_boot u)} \<and> held u = {#} \<and>
     usb_backend_init E boot = Some (0, st0) \<and> (lu_run E held)\<^sup>*\<^sup>* st0 st)"

text \<open>The two chains: as long as the controller accepts transfers, each has one read in progress.\<close>

definition reads_under_way :: "'s lusb_env \<Rightarrow> 's lusb \<Rightarrow> bool" where
  "reads_under_way E st \<longleftrightarrow> s_handle st \<noteq> None \<and>
     ((\<forall>n tr. lu_submit_transfer E n tr = 0) \<longrightarrow> reads st Read_intr_cb = 1 \<and> reads st Read_bulk_cb = 1)"

lemma lu_run_inv:
  assumes "lu_run E held st st'" and "allocating E" and "lu_handlers E held"
    and "lu_inv (held (app st)) st" and "reads_under_way E st"
  shows "lu_inv (held (app st')) st' \<and> reads_under_way E st'"
  using assms(1)
proof cases
  case above
  have i: "lu_inv (held (app st')) st'" and f: "lu_frame st st'"
    using lu_steps_inv [OF above assms(2), of "{#}"] assms(4) by simp_all
  have "reads st' Read_intr_cb = reads st Read_intr_cb" "reads st' Read_bulk_cb = reads st Read_bulk_cb"
    using frame_reads [OF f inv_allocated [OF assms(4)]] by simp_all
  moreover have "s_handle st' = s_handle st" using f by (simp add: lu_frame_def)
  ultimately show ?thesis using i assms(5) by (simp add: reads_under_way_def)
next
  case (completed t tr bs status)
  then have "lu_after E held tr status st st'" using lu_complete_inv [OF assms(2-4) completed(1-3), of status] by simp
  then show ?thesis using assms(5) by (auto simp: lu_after_def reads_under_way_def)
next
  case (counted n)
  then show ?thesis using assms(4,5) by (simp add: reads_under_way_def)
qed

lemma lu_init_inv:
  assumes "boot \<in> {libusb_boot u, bte_backend_libusb_set_context c (libusb_boot u)}" and "allocating E"
    and init: "usb_backend_init E boot = Some (0, st)"
  shows "lu_inv {#} st \<and> reads_under_way E st \<and> app st = u"
proof -
  have "lu_inv {#} boot" using assms(1) boot_inv [of u] lu_inv_opened(2) by (auto simp: bte_backend_libusb_set_context_def)
  moreover have "s_handle boot = None" "app boot = u" "submitted boot = []"
    using assms(1) by (auto simp: bte_backend_libusb_set_context_def libusb_boot_def)
  ultimately have b: "lu_inv {#} boot" "s_handle boot = None" "app boot = u" "submitted boot = []" by blast+
  obtain st1 where st1: "(if s_external_context boot then Inr boot else map_sum id (\<lambda>c. boot\<lparr>s_context := Some c, open_contexts := open_contexts boot @ [c]\<rparr>) (lu_init_context E)) = Inr st1"
    using init by (cases "if s_external_context boot then Inr boot else map_sum id (\<lambda>c. boot\<lparr>s_context := Some c, open_contexts := open_contexts boot @ [c]\<rparr>) (lu_init_context E)")
      (auto simp: usb_backend_init_def)
  then have s1: "lu_inv {#} st1" "s_handle st1 = None" "app st1 = u" "submitted st1 = []"
    using b lu_inv_opened(1) by (cases "lu_init_context E"; auto split: if_splits)+
  obtain ds where ds: "lu_get_device_list E (s_context st1) = Inr ds"
    using init st1 by (cases "lu_get_device_list E (s_context st1)") (auto simp: usb_backend_init_def)
  note eq = init_eq [OF st1 ds s1(2)]
  obtain h hs where h: "List.map_filter (usable_adaptor E) ds = h # hs"
    using init eq by (cases "List.map_filter (usable_adaptor E) ds") auto
  let ?st2 = "st1\<lparr>s_handle := Some h, open_handles := open_handles st1 @ [h]\<rparr>"
  have i2: "lu_inv {#} ?st2" using lu_inv_opened(3) [OF s1(1,2)] .
  have "(do { (_, st3) \<leftarrow> read_intr E ?st2; (_, st4) \<leftarrow> read_bulk E st3; Some (0 :: int, st4) }) = Some (0, st)"
    using init eq h by (simp add: Let_def split: if_splits)
  with reads_begin [OF assms(2) i2] have "lu_inv {#} st" "s_handle st = Some h" "app st = u"
      "(\<forall>n tr. lu_submit_transfer E n tr = 0) \<longrightarrow> (\<forall>c. reads st c = reads ?st2 c + (if c \<in> {Read_intr_cb, Read_bulk_cb} then 1 else 0))"
    using s1(3) by auto
  moreover have "reads ?st2 c = 0" for c using s1(4) by (simp add: reads_def)
  ultimately show ?thesis by (simp add: reads_under_way_def)
qed

lemma lu_reach_inv:
  assumes "lu_reach E held st" and "allocating E" and "lu_handlers E held"
  shows "lu_inv (held (app st)) st \<and> reads_under_way E st"
proof -
  obtain st0 where st0: "lu_inv (held (app st0)) st0 \<and> reads_under_way E st0" "(lu_run E held)\<^sup>*\<^sup>* st0 st"
    using assms(1) lu_init_inv [OF _ assms(2)] unfolding lu_reach_def by metis
  from st0(2,1) show ?thesis by induction (use lu_run_inv [OF _ assms(2,3)] in blast)+
qed

lemma lu_reach_run: "lu_reach E held st \<Longrightarrow> lu_run E held st st' \<Longrightarrow> lu_reach E held st'"
  unfolding lu_reach_def by (meson rtranclp.rtrancl_into_rtrancl)

section \<open>Memory and the reading chains\<close>

lemma read_unshared:
  assumes inv: "lu_inv H st" and t: "t \<in> set (submitted st)" "transfers st t = Some (Some tr)" "lu_is_read tr"
  shows "\<exists>b. t_buffer tr = Packet b \<and> refs st b = 1 \<and> b \<notin># H \<and> linkers st b = {}"
proof -
  have "transfer_ok st tr" using submittedD [OF buf_invD(2) [OF inv] t(1)] t(2) by auto
  then obtain b p where b: "t_user_data tr = Some b" "t_buffer tr = Packet b" "bufs st b = Some p" "b_ref_count p = 1"
    using t(3) by (auto simp: transfer_ok_def lu_is_read_def reading_def)
  then have one: "refs st b = 1" by (simp add: refs_def)
  have "count H b = 0 \<and> links st b = 0"
    using buf_invD(4) [OF inv, of b] users_pos [OF t(1,2) b(1)] one by simp
  then have "b \<notin># H" "linkers st b = {}" using buf_invD(1) [OF inv] by (simp_all add: not_in_iff)
  then show ?thesis using b(2) one by blast
qed

text \<open>
  C7: memory safety of the libusb backend, from a successful \<^verbatim>\<open>usb_backend_init\<close>, with or without a
  context of the application, until \<^verbatim>\<open>usb_backend_deinit\<close> is called. In every state reached in between,
  whatever the order in which transfers end, with or without an error, and whatever libusb answers
  to submissions: a packet that a read is in progress into has a single reference, the one of the
  transfer, and is neither held nor linked by anyone else; every callback of a transfer in progress
  runs to its end; and every reference held can be dropped and every packet held can be sent
  without touching freed memory or a closed handle. Assumed are that memory does not run out
  (\<open>allocating\<close>: \<^verbatim>\<open>malloc\<close> and \<^verbatim>\<open>libusb_alloc_transfer\<close> always succeed) and that the layers above, the
  handlers \<^verbatim>\<open>_bte_hci_dev_handle_event\<close> and \<^verbatim>\<open>_bte_hci_dev_handle_data\<close> included (\<open>lu_handlers\<close>), return
  and act on packets only by the operations of \<open>lu_step\<close>, on packets they hold or reach from these:
  take references, drop their own, allocate, store to, shorten, link, unlink, append and send packets.
\<close>

theorem libusb_backend_safe:
  assumes "lu_reach E held st" and "allocating E" and "lu_handlers E held"
  shows "(\<forall>t. t \<in> set (submitted st) \<longrightarrow> (\<exists>tr. transfers st t = Some (Some tr) \<and>
       (lu_is_read tr \<longrightarrow> (\<exists>b. t_buffer tr = Packet b \<and> refs st b = 1 \<and> b \<notin># held (app st) \<and> linkers st b = {})) \<and>
       (\<forall>status bs. length bs \<le> t_length tr \<longrightarrow> lu_complete E t status bs st \<noteq> None))) \<and>
     (\<forall>b. b \<in># held (app st) \<longrightarrow> lu_unref b st \<noteq> None \<and> usb_backend_hci_send_command E b st \<noteq> None \<and>
       usb_backend_hci_send_data E b st \<noteq> None)"
proof (intro conjI allI impI)
  have inv: "lu_inv (held (app st)) st" using lu_reach_inv [OF assms] by blast
  { fix t assume t: "t \<in> set (submitted st)"
    then obtain tr where tr: "transfers st t = Some (Some tr)" using submittedD [OF buf_invD(2) [OF inv]] by blast
    have "lu_complete E t status bs st \<noteq> None" if "length bs \<le> t_length tr" for status bs
      using lu_complete_inv [OF assms(2,3) inv t tr that, of status] by auto
    with tr show "\<exists>tr. transfers st t = Some (Some tr) \<and>
       (lu_is_read tr \<longrightarrow> (\<exists>b. t_buffer tr = Packet b \<and> refs st b = 1 \<and> b \<notin># held (app st) \<and> linkers st b = {})) \<and>
       (\<forall>status bs. length bs \<le> t_length tr \<longrightarrow> lu_complete E t status bs st \<noteq> None)"
      using read_unshared [OF inv t tr] by auto }
  { fix b assume b: "b \<in># held (app st)"
    then have "lu_inv (add_mset b (held (app st) - {#b#})) st" using inv by simp
    from lu_unref_inv [OF this] show "lu_unref b st \<noteq> None" by auto
    show "usb_backend_hci_send_command E b st \<noteq> None" using lu_send_command_inv [OF assms(2) inv b] by auto
    show "usb_backend_hci_send_data E b st \<noteq> None" using lu_send_data_inv [OF assms(2) inv b] by auto }
qed

text \<open>
  C13: the reading chains of the libusb backend go on. As long as libusb accepts the transfers and
  memory does not run out (\<open>allocating\<close>; after a failed allocation the code gives the chain up), in every
  state reached from a successful \<^verbatim>\<open>usb_backend_init\<close> and before \<^verbatim>\<open>usb_backend_deinit\<close> exactly one read
  of the interrupt endpoint and exactly one of the bulk endpoint are in progress, whether earlier
  ones completed, timed out or failed. The layers above, the handlers of the HCI layer included,
  are assumed to return and to act by the operations of \<open>lu_step\<close> only (\<open>lu_handlers\<close>).
\<close>

theorem libusb_reading_goes_on:
  assumes "lu_reach E held st" and "allocating E" and "lu_handlers E held" and "\<And>n tr. lu_submit_transfer E n tr = 0"
  shows "reads st Read_intr_cb = 1 \<and> reads st Read_bulk_cb = 1 \<and> s_handle st \<noteq> None"
  using lu_reach_inv [OF assms(1-3)] assms(4) by (auto simp: reads_under_way_def)

section \<open>After closing the adaptor\<close>

text \<open>
  What \<^verbatim>\<open>usb_backend_deinit\<close> leaves behind: it closes the handle, and the context if it is the backend's
  own, but the static variables keep them, so that a packet sent afterwards is submitted to a
  closed handle instead of being refused with \<^verbatim>\<open>-EBADF\<close>.
\<close>

theorem libusb_used_after_deinit:
  assumes "lu_reach E held st" and "allocating E" and "lu_handlers E held" and "usb_backend_deinit E st = Some (rc, st')"
  shows "rc = 0 \<and> open_handles st' = [] \<and> s_handle st' \<noteq> None \<and>
     (\<forall>b. b \<in># held (app st) \<longrightarrow> usb_backend_hci_send_data E b st' = None)"
proof -
  have inv: "lu_inv (held (app st)) st" and "s_handle st \<noteq> None"
    using lu_reach_inv [OF assms(1-3)] by (simp_all add: reads_under_way_def)
  then obtain h where h: "s_handle st = Some h" by blast
  then have oh: "open_handles st = [h]" using buf_invD(2) [OF inv] by (simp add: lu_ok_def)
  have st': "rc = 0" "open_handles st' = []" "s_handle st' = Some h" "bufs st' = bufs st" "transfers st' = transfers st"
    using assms(4) h oh by (auto simp: usb_backend_deinit_def libusb_close_def libusb_exit_def Let_def split: option.splits if_splits)
  have "usb_backend_hci_send_data E b st' = None" if b: "b \<in># held (app st)" for b
  proof (rule ccontr)
    assume "usb_backend_hci_send_data E b st' \<noteq> None"
    then obtain s t s1 tr s2 where s: "buf_ref b st' = Some s" "libusb_alloc_transfer E s = Some (t, s1)"
        "libusb_fill_transfer t tr s1 = Some s2" "libusb_submit_transfer E t s2 \<noteq> None"
      using st'(3) by (auto simp: usb_backend_hci_send_data_def split: bind_splits)
    have "open_handles s = []" using s(1) st'(2) by (auto simp: buf_ref_def split: bind_splits)
    then have "open_handles s1 = []" using s(2) by (auto simp: libusb_alloc_transfer_def split: option.splits if_splits)
    then have "open_handles s2 = []" using s(3) by (auto simp: libusb_fill_transfer_def split: bind_splits)
    then show False using s(4) by (auto simp: libusb_submit_transfer_def split: bind_splits)
  qed
  then show ?thesis using st' by simp
qed

section \<open>Events\<close>

text \<open>A sequence of ended transfers of which \<open>n\<close> are completed reads.\<close>

inductive lu_completions :: "'s lusb_env \<Rightarrow> nat \<Rightarrow> 's lusb \<Rightarrow> 's lusb \<Rightarrow> bool" for E where
  none: "lu_completions E 0 st st"
| one: "t \<in> set (submitted st) \<Longrightarrow> transfers st t = Some (Some tr) \<Longrightarrow> length bs \<le> t_length tr \<Longrightarrow>
     lu_complete E t status bs st = Some st1 \<Longrightarrow> lu_completions E n st1 st' \<Longrightarrow>
     lu_completions E (n + (if lu_is_read tr \<and> status = LIBUSB_TRANSFER_COMPLETED then 1 else 0)) st st'"

lemma lu_completions_count:
  assumes "lu_completions E n st st'" and "allocating E" and "lu_handlers E held" and "lu_reach E held st"
  shows "s_num_events st' = s_num_events st + int n \<and> lu_reach E held st'"
  using assms(1,4)
proof induction
  case (one t st tr bs status st1 n st')
  have "lu_inv (held (app st)) st" using lu_reach_inv [OF one.prems assms(2,3)] by blast
  from lu_complete_inv [OF assms(2,3) this one(1-3), of status] one(4)
  have "lu_after E held tr status st st1" by auto
  moreover have "lu_reach E held st1" using lu_reach_run [OF one.prems lu_run.completed [OF one(1-4)]] .
  ultimately show ?case using one.IH by (auto simp: lu_after_def)
qed simp

text \<open>
  What \<^verbatim>\<open>bte_wait_events\<close> reports. libusb is given the timeout in seconds and microseconds, and
  when it returns without an error after ending any number of transfers, the result is the number
  of packets that arrived and were handed to the HCI layer; an error of libusb is \<^verbatim>\<open>-EAGAIN\<close>.
\<close>

theorem libusb_events_counted:
  assumes "lu_reach E held st" and "allocating E" and "lu_handlers E held"
    and "lu_handle_events E (s_context st) (Some (unat timeout div 1000000, unat timeout mod 1000000)) (st\<lparr>s_num_events := 0\<rparr>) = Some (rc, st')"
    and "lu_completions E n (st\<lparr>s_num_events := 0\<rparr>) st'"
  shows "bte_wait_events (libusb_backend E) timeout st = Some (if rc = 0 then int n else - EAGAIN, st') \<and> lu_reach E held st'"
proof -
  have "lu_reach E held (st\<lparr>s_num_events := 0\<rparr>)" using lu_reach_run [OF assms(1) lu_run.counted] .
  from lu_completions_count [OF assms(5,2,3) this] have "s_num_events st' = int n" "lu_reach E held st'" by simp_all
  moreover have "\<not> closed_context st" using buf_invD(2) lu_reach_inv [OF assms(1-3)] by (fastforce simp: lu_ok_def)
  ultimately show ?thesis
    using assms(4) by (simp add: bte_wait_events_def libusb_backend_def usb_backend_handle_events_def Let_def)
qed

section \<open>A host with one adaptor\<close>

partial_function (option) first_unused :: "(nat \<Rightarrow> bool) \<Rightarrow> nat \<Rightarrow> nat option" where
  "first_unused used n = (if used n then first_unused used (n + 1) else Some n)"

lemma first_unused_finds:
  assumes "finite {n. used n}"
  shows "\<exists>m. first_unused used n = Some m \<and> \<not> used m"
proof -
  obtain k where "\<forall>m \<in> {n. used n}. m < k" using assms finite_nat_set_iff_bounded by blast
  then have "\<not> used (n + k)" by (metis mem_Collect_eq not_add_less2)
  then show ?thesis
  proof (induction k arbitrary: n)
    case 0
    then show ?case by (subst first_unused.simps) simp
  next
    case (Suc k)
    then show ?case using Suc.IH [of "n + 1"] by (subst first_unused.simps) auto
  qed
qed

text \<open>
  Device 3 cannot be examined, 4 is no adaptor and 5 is one. The layer above keeps the packets of
  events and drops data.
\<close>

definition demo_lusb_env :: "buf_ptr list lusb_env" where
  "demo_lusb_env =
     \<lparr>lu_init_context = Inr 1, lu_get_device_list = (\<lambda>c. Inr [3, 4, 5]),
      lu_get_device_descriptor = (\<lambda>d. if d = 3 then Inl (- 1) else
         Inr \<lparr>bDeviceClass = (if d = 5 then 0xe0 else 9), bDeviceSubClass = 1, bDeviceProtocol = 1, idVendor = 7, idProduct = 7\<rparr>),
      lu_open = (\<lambda>d. Inr (d + 100)), lu_set_auto_detach_kernel_driver = (\<lambda>h. 0), lu_detach_kernel_driver = (\<lambda>h i. 0),
      lu_claim_interface = (\<lambda>h i. 0),
      lu_alloc_transfer = (\<lambda>st. first_unused (\<lambda>t. transfers st t \<noteq> None) 0),
      lu_malloc = (\<lambda>st. first_unused (\<lambda>a. bufs st (Heap a) \<noteq> None \<or> blocks st a \<noteq> None) 0),
      lu_fresh = (\<lambda>st i. 0),
      lu_control_setup = (\<lambda>ty req v i n. [ty, req, ucast v, ucast (v div 256), ucast i, ucast (i div 256), ucast n, ucast (n div 256)]),
      lu_submit_transfer = (\<lambda>n tr. 0),
      lu_handle_events = (\<lambda>c tv st. Some (0, st)),
      lu_hci_handle_event = (\<lambda>b st. do { st1 \<leftarrow> buf_ref b st; Some (st1\<lparr>app := b # app st1\<rparr>) }),
      lu_hci_handle_data = (\<lambda>b st. Some st)\<rparr>"

lemma demo_lusb_allocating: "allocating demo_lusb_env" unfolding allocating_def
proof (intro conjI allI impI)
  fix st :: "buf_ptr list lusb"
  assume "finite (dom (transfers st))"
  then have "finite {t. transfers st t \<noteq> None}" by (simp add: dom_def)
  from first_unused_finds [OF this, of 0] show "\<exists>t. lu_alloc_transfer demo_lusb_env st = Some t \<and> transfers st t = None"
    by (simp add: demo_lusb_env_def)
next
  fix st :: "buf_ptr list lusb"
  assume f: "finite (dom (bufs st)) \<and> finite (dom (blocks st))"
  have "inj Heap" by (simp add: inj_def)
  then have "finite (Heap -` dom (bufs st))" using f by (blast intro: finite_vimageI)
  moreover have "{a. bufs st (Heap a) \<noteq> None \<or> blocks st a \<noteq> None} = Heap -` dom (bufs st) \<union> dom (blocks st)" by (auto simp: dom_def)
  ultimately have "finite {a. bufs st (Heap a) \<noteq> None \<or> blocks st a \<noteq> None}" using f by simp
  from first_unused_finds [OF this, of 0]
  show "\<exists>a. lu_malloc demo_lusb_env st = Some a \<and> bufs st (Heap a) = None \<and> blocks st a = None" by (simp add: demo_lusb_env_def)
qed (simp add: demo_lusb_env_def)

lemma demo_lusb_handlers: "lu_handlers demo_lusb_env mset"
proof
  show "lu_handler demo_lusb_env mset (lu_hci_handle_event demo_lusb_env)" unfolding lu_handler_def
  proof (intro allI impI, elim conjE)
    fix b :: buf_ptr and st :: "buf_ptr list lusb" and L
    assume b: "b \<in># L" and inv: "lu_inv (L + mset (app st)) st"
    then obtain st1 where st1: "buf_ref b st = Some st1" using lu_use.ref_inv [OF inv, of b] by auto
    then have a: "app st1 = app st" by (auto simp: buf_ref_def split: bind_splits)
    let ?H = "add_mset b (L + mset (app st))"
    have "lu_step demo_lusb_env (st, L + mset (app st)) (st1, ?H)" by (intro lu_step.packets buf_edit.ref held_accessible) (use b st1 in auto)
    moreover have "lu_step demo_lusb_env (st1, ?H) (st1\<lparr>app := b # app st1\<rparr>, ?H)" by (rule lu_step.above)
    ultimately have "lu_steps demo_lusb_env (st, L + mset (app st)) (st1\<lparr>app := b # app st1\<rparr>, ?H)" by auto
    then show "\<exists>st'. lu_hci_handle_event demo_lusb_env b st = Some st' \<and>
        lu_steps demo_lusb_env (st, L + mset (app st)) (st', L + mset (app st'))"
      using st1 a by (intro exI [of _ "st1\<lparr>app := b # app st1\<rparr>"]) (simp add: demo_lusb_env_def)
  qed
  show "lu_handler demo_lusb_env mset (lu_hci_handle_data demo_lusb_env)"
    by (auto simp: lu_handler_def demo_lusb_env_def)
qed

lemma demo_adaptor: "List.map_filter (usable_adaptor demo_lusb_env) [3, 4, 5] = [105]"
  by (simp add: map_filter_simps usable_adaptor_def demo_lusb_env_def)

lemma demo_lusb_env_simps:
  "lu_init_context demo_lusb_env = Inr 1" "lu_get_device_list demo_lusb_env c = Inr [3, 4, 5]" "lu_claim_interface demo_lusb_env h i = 0"
  "driver_detached demo_lusb_env h" "lu_submit_transfer demo_lusb_env n tr = 0"
  "lu_handle_events demo_lusb_env c tv st = Some (0, st)"
  by (simp_all add: demo_lusb_env_def driver_detached_def)

theorem libusb_init_opens_first_witness:
  "\<exists>st. usb_backend_init demo_lusb_env (libusb_boot []) = Some (0, st) \<and> s_handle st = Some 105 \<and> reads st Read_intr_cb = 1"
  using libusb_init_opens_first [OF demo_lusb_env_simps(1,2) demo_lusb_allocating, of "[]"]
  unfolding demo_adaptor by (auto simp: demo_lusb_env_simps)

lemma demo_lusb_reach: "\<exists>st. lu_reach demo_lusb_env mset st \<and> reads st Read_intr_cb = 1"
proof -
  let ?st1 = "(libusb_boot ([] :: buf_ptr list))\<lparr>s_context := Some 1, open_contexts := [1]\<rparr>"
  let ?st2 = "?st1\<lparr>s_handle := Some 105, open_handles := open_handles ?st1 @ [105]\<rparr>"
  have inv2: "lu_inv {#} ?st2"
    using lu_inv_opened(3) [OF lu_inv_opened(1) [OF boot_inv [of "[]"], of 1], of 105] by (simp add: libusb_boot_def)
  have h2: "s_handle ?st2 \<noteq> None" by simp
  have "usb_backend_init demo_lusb_env (libusb_boot []) =
      (do { (_, st3) \<leftarrow> read_intr demo_lusb_env ?st2; (_, st4) \<leftarrow> read_bulk demo_lusb_env st3; Some (0, st4) })"
    by (subst init_eq [where ?st1.0 = ?st1 and ds = "[3, 4, 5]"])
       (simp_all only: demo_adaptor list.case Let_def demo_lusb_env_simps simp_thms if_True, simp_all add: libusb_boot_def)
  with reads_begin [OF demo_lusb_allocating inv2 h2] have "\<exists>st. usb_backend_init demo_lusb_env (libusb_boot []) = Some (0, st)" by metis
  then obtain st where st: "usb_backend_init demo_lusb_env (libusb_boot []) = Some (0, st)" by blast
  then have r: "lu_reach demo_lusb_env mset st" unfolding lu_reach_def by fastforce
  moreover have "reads st Read_intr_cb = 1"
    using lu_reach_inv [OF r demo_lusb_allocating demo_lusb_handlers] by (simp add: reads_under_way_def demo_lusb_env_simps)
  ultimately show ?thesis by blast
qed

theorem libusb_backend_safe_witness:
  "\<exists>st t tr b. lu_reach demo_lusb_env mset st \<and> t \<in> set (submitted st) \<and> transfers st t = Some (Some tr) \<and>
     t_callback tr = Read_intr_cb \<and> t_buffer tr = Packet b \<and> refs st b = 1 \<and> lu_complete demo_lusb_env t 0 [] st \<noteq> None"
proof -
  obtain st where st: "lu_reach demo_lusb_env mset st" "reads st Read_intr_cb = 1" using demo_lusb_reach by blast
  have "Some Read_intr_cb \<in> set (map (slot_cb st) (submitted st))"
    using st(2) count_notin [of "Some Read_intr_cb" "map (slot_cb st) (submitted st)"] by (auto simp: reads_def)
  then obtain t where t: "t \<in> set (submitted st)" "slot_cb st t = Some Read_intr_cb" by auto
  obtain tr where tr: "transfers st t = Some (Some tr)"
      "lu_is_read tr \<longrightarrow> (\<exists>b. t_buffer tr = Packet b \<and> refs st b = 1 \<and> b \<notin># mset (app st) \<and> linkers st b = {})"
      "\<forall>status bs. length bs \<le> t_length tr \<longrightarrow> lu_complete demo_lusb_env t status bs st \<noteq> None"
    using libusb_backend_safe [OF st(1) demo_lusb_allocating demo_lusb_handlers, THEN conjunct1] t(1) by blast
  have "t_callback tr = Read_intr_cb" using t(2) tr(1) by (simp add: slot_cb_def)
  moreover from this tr(2) obtain b where "t_buffer tr = Packet b" "refs st b = 1" by (auto simp: lu_is_read_def)
  moreover have "lu_complete demo_lusb_env t 0 [] st \<noteq> None" using tr(3) by simp
  ultimately show ?thesis using st(1) t(1) tr(1) by blast
qed

theorem libusb_reading_goes_on_witness:
  "\<exists>st. lu_reach demo_lusb_env mset st \<and> reads st Read_bulk_cb = 1"
proof -
  obtain st where st: "lu_reach demo_lusb_env mset st" using demo_lusb_reach by blast
  then show ?thesis
    using libusb_reading_goes_on [OF st demo_lusb_allocating demo_lusb_handlers demo_lusb_env_simps(5)] by blast
qed

theorem libusb_events_counted_witness:
  "\<exists>st st'. bte_wait_events (libusb_backend demo_lusb_env) 1500000 st = Some (0, st')"
proof -
  obtain st where st: "lu_reach demo_lusb_env mset st" using demo_lusb_reach by blast
  show ?thesis
    using libusb_events_counted [OF st demo_lusb_allocating demo_lusb_handlers demo_lusb_env_simps(6) lu_completions.none, of 1500000] by auto
qed

end
