(* ===== verification/HciTypes.thy ===== *)
theory HciTypes
  imports Prelude
begin

text \<open>
  The class of device (\<^verbatim>\<open>types.h\<close>), the size of a message with its headers (\<^verbatim>\<open>utils.h\<close>) and the bit
  masks of features and events (\<^verbatim>\<open>hci_proto.h\<close>).
\<close>

unbundle bit_operations_syntax

section \<open>Class of device\<close>

type_synonym class_of_device = "byte \<times> byte \<times> byte"

definition bte_cod_get_service_class :: "class_of_device \<Rightarrow> u16" where
  "bte_cod_get_service_class cod = (case cod of (b0, b1, b2) \<Rightarrow> push_bit 3 (ucast b2) OR drop_bit 5 (ucast b1))"

definition bte_cod_get_major_dev_class :: "class_of_device \<Rightarrow> byte" where
  "bte_cod_get_major_dev_class cod = (case cod of (b0, b1, b2) \<Rightarrow> b1 AND 0x1f)"

definition bte_cod_get_minor_dev_class :: "class_of_device \<Rightarrow> byte" where
  "bte_cod_get_minor_dev_class cod = (case cod of (b0, b1, b2) \<Rightarrow> drop_bit 2 b0)"

definition bte_cod_compose :: "u16 \<Rightarrow> byte \<Rightarrow> byte \<Rightarrow> class_of_device" where
  "bte_cod_compose service_class major_dev_class minor_dev_class =
     (push_bit 2 minor_dev_class,
      ucast ((ucast major_dev_class :: u32) OR push_bit 5 (ucast service_class)),
      ucast (drop_bit 3 service_class))"

lemma cod_gets:
  "bte_cod_get_minor_dev_class (bte_cod_compose s ma mi) = mi AND 0x3f"
  "bte_cod_get_major_dev_class (bte_cod_compose s ma mi) = ma AND 0x1f"
  "bte_cod_get_service_class (bte_cod_compose s ma mi) = (s OR drop_bit 5 (ucast ma)) AND 0x7ff"
proof -
  have m: "(0x3f :: byte) = mask 6" "(0x1f :: byte) = mask 5" "(0x7ff :: u16) = mask 11" by (simp_all add: mask_eq_exp_minus_1)
  show "bte_cod_get_minor_dev_class (bte_cod_compose s ma mi) = mi AND 0x3f"
    unfolding bte_cod_get_minor_dev_class_def bte_cod_compose_def prod.case m
    by (rule bit_word_eqI) (auto simp: bit_simps)
  show "bte_cod_get_major_dev_class (bte_cod_compose s ma mi) = ma AND 0x1f"
    unfolding bte_cod_get_major_dev_class_def bte_cod_compose_def prod.case m
    by (rule bit_word_eqI) (auto simp: bit_simps)
  show "bte_cod_get_service_class (bte_cod_compose s ma mi) = (s OR drop_bit 5 (ucast ma)) AND 0x7ff"
    unfolding bte_cod_get_service_class_def bte_cod_compose_def prod.case m
    by (rule bit_word_eqI) (auto simp: bit_simps dest: bit_imp_le_length)
qed

lemma small_word:
  fixes x :: "'a :: len word"
  assumes "k < LENGTH('a)"
  shows "x < 2 ^ k \<longleftrightarrow> x AND mask k = x"
  using assms by (simp add: word_2p_lem mask_eq_iff word_size)

text \<open>
  C40: the class of device. The components that \<^verbatim>\<open>bte_cod_get_service_class\<close>, \<^verbatim>\<open>bte_cod_get_major_dev_class\<close> and
  \<^verbatim>\<open>bte_cod_get_minor_dev_class\<close> extract are always in their ranges (11, 5 and 6 bits); composing components that are
  in range and taking the result apart gives them back; and taking any class of device apart and composing
  it again gives the same, except for the two lowest bits, the format type, which become 0.
\<close>

theorem bte_cod_components:
  "bte_cod_get_service_class cod < 2 ^ 11 \<and> bte_cod_get_major_dev_class cod < 2 ^ 5 \<and> bte_cod_get_minor_dev_class cod < 2 ^ 6 \<and>
   (s < 2 ^ 11 \<and> ma < 2 ^ 5 \<and> mi < 2 ^ 6 \<longrightarrow>
      bte_cod_get_service_class (bte_cod_compose s ma mi) = s \<and> bte_cod_get_major_dev_class (bte_cod_compose s ma mi) = ma \<and>
      bte_cod_get_minor_dev_class (bte_cod_compose s ma mi) = mi) \<and>
   bte_cod_compose (bte_cod_get_service_class cod) (bte_cod_get_major_dev_class cod) (bte_cod_get_minor_dev_class cod) =
     (fst cod AND 0xfc, snd cod)"
proof (intro conjI impI)
  obtain b0 b1 b2 where cod: "cod = (b0, b1, b2)" by (metis prod.exhaust)
  have m: "(0x1f :: byte) = mask 5" "(0x3f :: byte) = mask 6" "(0x7ff :: u16) = mask 11" by (simp_all add: mask_eq_exp_minus_1)
  have c: "(0xfc :: byte) = push_bit 2 (mask 6)" by (simp add: mask_eq_exp_minus_1)
  note gets = bte_cod_get_service_class_def bte_cod_get_major_dev_class_def bte_cod_get_minor_dev_class_def
  have "bte_cod_get_service_class cod AND mask 11 = bte_cod_get_service_class cod"
    unfolding gets cod prod.case by (rule bit_word_eqI) (auto simp: bit_simps dest: bit_imp_le_length)
  then show "bte_cod_get_service_class cod < 2 ^ 11" by (subst small_word) simp_all
  have "bte_cod_get_major_dev_class cod AND mask 5 = bte_cod_get_major_dev_class cod"
    unfolding gets cod prod.case m by (rule bit_word_eqI) (auto simp: bit_simps)
  then show "bte_cod_get_major_dev_class cod < 2 ^ 5" by (subst small_word) simp_all
  have "bte_cod_get_minor_dev_class cod AND mask 6 = bte_cod_get_minor_dev_class cod"
    unfolding gets cod prod.case by (rule bit_word_eqI) (auto simp: bit_simps dest: bit_imp_le_length)
  then show "bte_cod_get_minor_dev_class cod < 2 ^ 6" by (subst small_word) simp_all
  have "push_bit 2 (drop_bit 2 b0) = b0 AND 0xfc" unfolding c
    by (rule bit_word_eqI) (auto simp: bit_simps simp flip: add_2_eq_Suc)
  moreover have "ucast ((ucast (b1 AND 0x1f) :: u32) OR push_bit 5 (ucast (push_bit 3 (ucast b2 :: u16) OR drop_bit 5 (ucast b1)))) = b1"
    unfolding m by (rule bit_word_eqI) (auto simp: bit_simps)
  moreover have "ucast (drop_bit 3 (push_bit 3 (ucast b2 :: u16) OR drop_bit 5 (ucast b1))) = b2"
    by (rule bit_word_eqI) (auto simp: bit_simps dest: bit_imp_le_length)
  ultimately show "bte_cod_compose (bte_cod_get_service_class cod) (bte_cod_get_major_dev_class cod) (bte_cod_get_minor_dev_class cod) = (fst cod AND 0xfc, snd cod)"
    by (simp add: bte_cod_compose_def gets cod)
  { assume r: "s < 2 ^ 11 \<and> ma < 2 ^ 5 \<and> mi < 2 ^ 6"
    then have r': "s AND mask 11 = s" "ma AND mask 5 = ma" "mi AND mask 6 = mi" by (subst small_word [symmetric]; simp)+
    have z: "drop_bit 5 (ucast ma :: u16) = 0"
      by (subst r'(2) [symmetric], rule bit_word_eqI) (auto simp: bit_simps)
    show "bte_cod_get_service_class (bte_cod_compose s ma mi) = s" "bte_cod_get_major_dev_class (bte_cod_compose s ma mi) = ma"
      "bte_cod_get_minor_dev_class (bte_cod_compose s ma mi) = mi"
      unfolding cod_gets m z using r' by simp_all }
qed

theorem bte_cod_components_witness:
  "bte_cod_get_service_class (bte_cod_compose 0x40 5 2) = 0x40 \<and> bte_cod_get_major_dev_class (bte_cod_compose 0x40 5 2) = 5"
  using bte_cod_components [of "(0, 0, 0)" "0x40" 5 2] by simp

end
