(* ===== verification/Spec2Isabelle.thy ===== *)
theory Spec2Isabelle
  imports Buffer BufferRef DataMatcher HciEvents DriverStart L2capConfigure SdpDiscovery ObexQuery WiiLive LibusbRun HciTypes
begin

text \<open>
  A verification of BtEmbedded (\<^verbatim>\<open>src/bt-embedded\<close>), a Bluetooth host stack in C for embedded devices.

  \<^bold>\<open>The program.\<close> A backend (\<^verbatim>\<open>backends/\<close>) moves packets between the controller and the library and a
  driver (\<^verbatim>\<open>drivers/\<close>) brings the controller up. On top of them \<^verbatim>\<open>hci_dev.c\<close> keeps the device: the table of
  commands that wait for an answer, the clients, the event handlers and the queue of outgoing data;
  \<^verbatim>\<open>hci.c\<close> builds the commands and decodes replies and events; \<^verbatim>\<open>client.c\<close> owns the clients. \<^verbatim>\<open>acl.c\<close> turns
  messages into packets of a link and packets into messages. \<^verbatim>\<open>l2cap.c\<close> multiplexes channels over a link, with
  their own signalling protocol and configuration; \<^verbatim>\<open>l2cap_server.c\<close> accepts channels and \<^verbatim>\<open>l2cap_echo.c\<close>
  answers echo requests. \<^verbatim>\<open>services/sdp.c\<close> encodes and decodes data elements and is a client of the
  service discovery protocol; \<^verbatim>\<open>services/obex.c\<close> asks it for the object push service and \<^verbatim>\<open>services/openobex.c\<close> is a transport for openobex. All of them use the buffers of \<^verbatim>\<open>buffer.h\<close> and the matcher of \<^verbatim>\<open>data_matcher.h\<close>.

  \<^bold>\<open>How the C code is modelled.\<close> A function that may read or write memory, or not return, has an option type:
  \<open>None\<close> is an access outside of an object, the use of a null or freed pointer, any other undefined
  behaviour that the model can see, or a loop that does not end. Error codes, \<^verbatim>\<open>false\<close> and \<^verbatim>\<open>NULL\<close> results are
  values inside of \<open>Some\<close>. Integers keep their width (\<open>byte\<close>, \<open>u16\<close>, \<open>u32\<close>, \<open>u64\<close>) and wrap around; a value of type
  \<^verbatim>\<open>int\<close> is an \<open>int\<close> where it cannot overflow. Memory behind a data pointer is a list of bytes, and the
  content of fresh memory is a parameter, so no theorem depends on it. Objects that are shared and
  counted (packets, clients, links, channels, servers) live in heaps, maps from addresses to records;
  freeing removes the address. \<^verbatim>\<open>bte_malloc\<close> succeeds, and the address it returns is an argument. The target is
  little endian with 64-bit pointers. State is passed explicitly: \<open>bte_hci_dev\<close> is extended by \<open>acl_dev\<close>,
  \<open>l2cap_dev\<close>, \<open>server_dev\<close>, \<open>sdp_dev\<close> and \<open>obex_dev\<close>, so that the functions of a lower layer run on the state of a higher one.

  Code outside of the library is a parameter: the callbacks of clients, the backend and the driver
  are fields of the environments \<open>hci_env\<close>, \<open>l2cap_env\<close>, \<open>server_env\<close>, \<open>echo_env\<close> and \<open>sdp_env\<close>. A client callback may
  change the whole state; where a theorem needs more, \<open>client_contract\<close> (\<open>HciInvariant\<close>) and the other
  contracts say what. Function pointers between files of the library are tags or reserved numbers, bound
  to the functions in \<open>hci_dispatch\<close>, \<open>acl_hci_env\<close>, \<open>l2cap_dispatch\<close>, \<open>configured_env\<close> and \<open>server_l2cap_env\<close>. Packets
  that are handed to the backend are recorded in \<open>command_wire\<close> and \<open>data_wire\<close>, so theorems can say what was
  sent. Names are those of the source without the leading underscore; the loop of a function \<open>f\<close> is a
  definition of its own.

  Loops over arrays and lists are structural recursions. Loops that might not end (\<^verbatim>\<open>bte_buffer_alloc\<close>, the
  parser of configuration options, the sending of a configuration, the commands of a signalling
  frame, the search for a server, the mutual recursion that frees a link) are partial functions in
  the option monad, and that they return is proved where it is claimed. The only bound is the nesting of the
  callbacks of \<^verbatim>\<open>bte_l2cap_new_configured\<close>, which is three levels deep (\<open>configured_client\<close>): a connection
  response leads to a configuration, this to a disconnection, and this to a change of state; and that of the
  drivers' callbacks (\<open>generic_client\<close>, \<open>wii_client\<close>), each of which runs at most once inside of the one before.

  \<^bold>\<open>The theories.\<close>
  \<^item> \<open>Prelude\<close>: machine integers, bounded memory access, byte order (\<^verbatim>\<open>utils.h\<close>) and the lemmas on them.
  \<^item> \<open>Buffer\<close>, \<open>BufferRef\<close> (\<^verbatim>\<open>buffer.h\<close>): packet chains, writer and reader; a reader stands for the stream of bytes
    from its position on. The locales \<open>byte_source\<close>, \<open>byte_sink\<close> and \<open>byte_channel\<close> are what all layers above use;
    allocation ends and gives packets of the right sizes, what is written is read back, pointers stay inside of
    packets, releasing a chain frees every packet once.
  \<^item> \<open>DataMatcher\<close> (\<^verbatim>\<open>data_matcher.h\<close>): the encoded rules refine a list of rules; the locale \<open>packet_matcher\<close>.
  \<^item> \<open>HciConst\<close>, \<open>HciState\<close>, \<open>HciDev\<close> (\<^verbatim>\<open>internals.h\<close>, \<^verbatim>\<open>hci_dev.c\<close>): the device. The locale \<open>reply_table\<close> is the table of
    pending commands; a reply or status reaches the command that asked for it, and the queue of
    outgoing packets is sent in order as credits allow.
  \<^item> \<open>HciLink\<close>, \<open>HciCtrl\<close>, \<open>HciCommands\<close>, \<open>HciEvents\<close> (\<^verbatim>\<open>hci.c\<close>): every command with the packet it sends, every reply and
    event with what the client is told. \<open>HciInvariant\<close>: in every reachable state the device is consistent, given
    clients that meet the locale \<open>hci_clients\<close>.
  \<^item> \<open>Client\<close> (\<^verbatim>\<open>client.c\<close>), \<open>Acl\<close>, \<open>AclMessage\<close> (\<^verbatim>\<open>acl.c\<close>): a message becomes its fragments, and the fragments the
    message again on the other side; refused messages are dropped; the last reference frees a link.
  \<^item> \<open>Drivers\<close>, \<open>DriverStart\<close> (\<^verbatim>\<open>drivers/generic.c\<close>, \<^verbatim>\<open>drivers/wii.c\<close>): the chains of commands that bring a controller up. The locale
    \<open>startup_driver\<close> is the contract of \<^verbatim>\<open>driver.h\<close>; with either driver the first client is told once the device knows its
    controller, or that it failed.
  \<^item> \<open>L2capConfig\<close>, \<open>L2cap\<close>, \<open>L2capSignal\<close>, \<open>L2capApi\<close> (\<^verbatim>\<open>l2cap.c\<close>), \<open>L2capServer\<close> (\<^verbatim>\<open>l2cap_server.c\<close>, \<^verbatim>\<open>l2cap_echo.c\<close>): the
    whole of the channel layer. \<open>L2capFrame\<close> says what is on the wire and how it is taken from there;
    \<open>L2capExchange\<close> composes two hosts: messages and information requests arrive and are answered.
    \<open>L2capState\<close> and \<open>L2capConfigure\<close>: the configuration of a channel refines a small abstract machine, in any order of its
    steps; between two hosts it ends with both sides agreeing on the MTU.
  \<^item> \<open>SdpDe\<close>, \<open>SdpReader\<close> (\<^verbatim>\<open>services/sdp.c\<close>): the data elements. The writer encodes a tree of elements, the reader
    refines a cursor in the tree (locale \<open>element_reader\<close>), and what is written is read back.
    \<open>SdpClient\<close> is the client of the service discovery protocol. \<open>SdpExchange\<close> says what its requests put on the wire and
    what it makes of a response; \<open>SdpDiscovery\<close> follows an exchange over all continuations, from the request to the
    callback that gets the whole list of attributes.

  \<^item> \<open>Obex\<close>, \<open>ObexParse\<close>, \<open>ObexQuery\<close> (\<^verbatim>\<open>services/obex.c\<close>, \<^verbatim>\<open>services/openobex.c\<close>): the query for the object push service and the parser of the
    answer, which equals a reference on the tree of elements where no list is empty and hangs on an empty one; from the open channel to the callback of the application; the transport of
    openobex, whose functions are the parameter \<open>obex_lib\<close>.
  \<^item> \<open>BackendBuffer\<close> (\<^verbatim>\<open>buffer.h\<close>, \<^verbatim>\<open>backend.h\<close>, \<^verbatim>\<open>bte.c\<close>): packets at addresses, with reference counts, contents and links, as the backends share
    them with the controller, and what the code above does with them (\<open>buf_edit\<close>). \<open>buf_inv\<close> accounts for every reference; the locales \<open>buffer_users\<close> and \<open>buffer_release\<close> say what a
    backend must guarantee for it, and are interpreted for both.
  \<^item> \<open>WiiBackend\<close> (\<^verbatim>\<open>backends/wii.c\<close>) with \<open>WiiQueue\<close>, \<open>WiiReach\<close>, \<open>WiiChain\<close>, \<open>WiiLive\<close>: the pools of packets, the queue of events and the two
    reading chains. \<open>wii_step\<close> is what happens after \<^verbatim>\<open>wii_init\<close>, in any order: completions, and the operations of the code above on the
    packets it holds or reaches from them (\<open>buf_edit\<close>: taking references, allocating, storing, shortening, linking and unlinking), dropping
    references, sending, taking the queue and closing the device:
    a packet that is being read into belongs to its transfer alone, no event is missed while at most 48 commands are under
    way, the event loop calls the HCI layer once for every event it takes, in order, and drops its references, the chain of interrupt reads goes on, and what a full queue or a refused
    read loses.
  \<^item> \<open>LibusbBackend\<close> (\<^verbatim>\<open>backends/libusb.c\<close>) with \<open>LibusbReach\<close>, \<open>LibusbLive\<close>, \<open>LibusbRun\<close>: which adaptor is opened, the accounting of packets and
    transfers through every callback, one read in progress on each endpoint, and the number of events reported, from a successful
    \<^verbatim>\<open>usb_backend_init\<close> to \<^verbatim>\<open>usb_backend_deinit\<close> (after it, a send uses the closed handle, \<open>libusb_used_after_deinit\<close>). \<open>lu_step\<close> is what the code
    above does. Memory is assumed not to run out (\<open>allocating\<close>).
  \<^item> \<open>HciTypes\<close> (\<^verbatim>\<open>types.h\<close>): the class of device.

  The models of the two backends are not composed with that of the HCI layer, whose state has packets as values: there the
  backend is the parameter \<open>hci_env\<close>, and here the HCI layer is a pair of functions that return and do with the packets they hold
  what the contracts \<open>wii_handler\<close> and \<open>lu_handler\<close> allow. On the Wii, interrupts come between the functions of the model, not
  inside them (\<^verbatim>\<open>process_event_queue\<close> disables them while it copies the queue), and \<^verbatim>\<open>wii_init\<close> runs once. The
  functions of libogc, libusb and openobex are parameters with their documented results.

  \<^bold>\<open>Not modelled.\<close> Debug output, the examples and the constants that no modelled function uses (error codes, feature and
  event masks, the HID profile) are left out. Allocation failure is modelled only where \<^verbatim>\<open>libusb.c\<close> looks at it, and
  leaks show only as objects that stay in their heap. Atomic counters are plain integers, since the library runs its
  callbacks in one thread.
\<close>

end
